(* ===== verification/Prelude.thy ===== *)
theory Prelude
  imports Main "HOL-Library.Char_ord" "HOL-Library.List_Lexorder"
begin

text \<open>
  The shared vocabulary of the development.  Go strings are byte strings, modelled as
  \<open>string\<close> (a list of 8-bit characters); a Go \<open>error\<close> is its message, so a fallible
  operation has type \<open>string + 'a\<close> with \<open>Inl\<close> for the error.  A Go map is a partial
  function; code that ranges over a map takes the iteration order as an argument, because
  Go leaves it open.  Clock readings and fresh identifiers are arguments too.

  The functions below are the parts of the packages \<open>strings\<close>, \<open>fmt\<close>, \<open>strconv\<close> and
  \<open>time\<close> that the modelled code uses.  Case conversion and quoting treat the ASCII
  characters as Go does and leave the bytes of other characters alone.
\<close>

named_theorems state_simps \<open>record updates of the component operations\<close>

type_synonym 'a go_result = "string + 'a"

type_synonym time = int \<comment> \<open>nanoseconds on the program's clock\<close>

type_synonym duration = int \<comment> \<open>\<open>time.Duration\<close>, nanoseconds\<close>

abbreviation is_err :: "'e + 'a \<Rightarrow> bool" where
  "is_err r \<equiv> (case r of Inl _ \<Rightarrow> True | Inr _ \<Rightarrow> False)"

abbreviation is_ok :: "'e + 'a \<Rightarrow> bool" where
  "is_ok r \<equiv> (case r of Inl _ \<Rightarrow> False | Inr _ \<Rightarrow> True)"

section \<open>Strings\<close>

definition has_prefix :: "string \<Rightarrow> string \<Rightarrow> bool" where
  "has_prefix s p \<longleftrightarrow> take (length p) s = p"

definition has_suffix :: "string \<Rightarrow> string \<Rightarrow> bool" where
  "has_suffix s p \<longleftrightarrow> length p \<le> length s \<and> drop (length s - length p) s = p"

definition trim_prefix :: "string \<Rightarrow> string \<Rightarrow> string" where
  "trim_prefix s p = (if has_prefix s p then drop (length p) s else s)"

definition trim_suffix :: "string \<Rightarrow> string \<Rightarrow> string" where
  "trim_suffix s p = (if has_suffix s p then take (length s - length p) s else s)"

fun contains_str :: "string \<Rightarrow> string \<Rightarrow> bool" where
  "contains_str [] p = (p = [])"
| "contains_str (c # s) p = (has_prefix (c # s) p \<or> contains_str s p)"

definition lower_char :: "char \<Rightarrow> char" where
  "lower_char c =
     (if 65 \<le> (of_char c :: nat) \<and> (of_char c :: nat) \<le> 90
      then char_of ((of_char c :: nat) + 32) else c)"

definition to_lower :: "string \<Rightarrow> string" where
  "to_lower s = map lower_char s"

definition upper_char :: "char \<Rightarrow> char" where
  "upper_char c =
     (if 97 \<le> (of_char c :: nat) \<and> (of_char c :: nat) \<le> 122
      then char_of ((of_char c :: nat) - 32) else c)"

definition to_upper :: "string \<Rightarrow> string" where
  "to_upper s = map upper_char s"

definition is_space :: "char \<Rightarrow> bool" where
  "is_space c \<longleftrightarrow> (of_char c :: nat) \<in> {9, 10, 11, 12, 13, 32}"

definition trim_space :: "string \<Rightarrow> string" where
  "trim_space s = rev (dropWhile is_space (rev (dropWhile is_space s)))"

fun join_str :: "string \<Rightarrow> string list \<Rightarrow> string" where
  "join_str sep [] = []"
| "join_str sep [x] = x"
| "join_str sep (x # y # xs) = x @ sep @ join_str sep (y # xs)"

text \<open>\<open>strings.Split\<close> with a separator of one character: never the empty list.\<close>

fun split_on :: "char \<Rightarrow> string \<Rightarrow> string list" where
  "split_on sep [] = [[]]"
| "split_on sep (c # s) =
     (if c = sep then [] # split_on sep s
      else (case split_on sep s of [] \<Rightarrow> [[c]] | w # ws \<Rightarrow> (c # w) # ws))"

text \<open>\<open>agent.truncate\<close> and the many inline copies of it: cut and mark with an ellipsis.\<close>

definition truncate_str :: "string \<Rightarrow> nat \<Rightarrow> string" where
  "truncate_str s n = (if n < length s then take n s @ ''...'' else s)"

section \<open>Numbers and durations in messages\<close>

fun nat_digits :: "nat \<Rightarrow> string" where
  "nat_digits n = (if n < 10 then [char_of (48 + n)]
                   else nat_digits (n div 10) @ [char_of (48 + n mod 10)])"

declare nat_digits.simps [simp del]

definition itoa :: "int \<Rightarrow> string" where
  "itoa i = (if i < 0 then ''-'' @ nat_digits (nat (- i)) else nat_digits (nat i))"

definition hex_digit :: "nat \<Rightarrow> char" where
  "hex_digit n = (if n < 10 then char_of (48 + n) else char_of (87 + n))"

definition quote_char :: "char \<Rightarrow> string" where
  "quote_char c =
     (let n = (of_char c :: nat) in
      if n = 34 then [char_of (92::nat), char_of (34::nat)]
      else if n = 92 then [char_of (92::nat), char_of (92::nat)]
      else if n = 7 then [char_of (92::nat), CHR ''a'']
      else if n = 8 then [char_of (92::nat), CHR ''b'']
      else if n = 9 then [char_of (92::nat), CHR ''t'']
      else if n = 10 then [char_of (92::nat), CHR ''n'']
      else if n = 11 then [char_of (92::nat), CHR ''v'']
      else if n = 12 then [char_of (92::nat), CHR ''f'']
      else if n = 13 then [char_of (92::nat), CHR ''r'']
      else if n < 32 \<or> n = 127
        then [char_of (92::nat), CHR ''x'', hex_digit (n div 16), hex_digit (n mod 16)]
      else [c])"

text \<open>The verb \<open>%q\<close> of \<open>fmt\<close>.\<close>

definition quote :: "string \<Rightarrow> string" where
  "quote s = [char_of (34::nat)] @ concat (map quote_char s) @ [char_of (34::nat)]"

definition newline :: string where
  "newline = [char_of (10::nat)]"

text \<open>The UTF-8 bytes of an em dash.\<close>

definition em_dash :: string where
  "em_dash = map char_of [226 :: nat, 128, 148]"

definition second :: duration where "second = 1000000000"
definition minute :: duration where "minute = 60 * second"
definition hour :: duration where "hour = 60 * minute"

text \<open>\<open>Duration.Round\<close> for a non-negative duration: to the nearest multiple, halves up.\<close>

definition round_duration :: "duration \<Rightarrow> duration \<Rightarrow> duration" where
  "round_duration d m = (let r = d mod m in if r + r < m then d - r else d + m - r)"

text \<open>\<open>Duration.String\<close> for a non-negative whole number of seconds.\<close>

definition duration_string :: "duration \<Rightarrow> string" where
  "duration_string d =
     (let n = d div second; h = n div 3600; m = n div 60 mod 60; s = n mod 60
      in if h > 0 then itoa h @ ''h'' @ itoa m @ ''m'' @ itoa s @ ''s''
         else if m > 0 then itoa m @ ''m'' @ itoa s @ ''s''
         else itoa s @ ''s'')"

section \<open>Lemmas on lists and maps\<close>

lemma length_truncate_str: "length (truncate_str s n) \<le> n + 3"
  by (simp add: truncate_str_def)

lemma truncate_str_short: "length s \<le> n \<Longrightarrow> truncate_str s n = s"
  by (simp add: truncate_str_def)

lemma contains_str_Nil [simp]: "contains_str s []"
  by (cases s) (simp_all add: has_prefix_def)

lemma contains_str_start: "contains_str (t @ b) t"
  by (cases t) (simp_all add: has_prefix_def)

lemma contains_str_mid: "contains_str (a @ t @ b) t"
  by (induction a) (simp_all add: contains_str_start)

lemma takeWhile_rev_snoc:
  "takeWhile P (rev (xs @ [x])) = (if P x then x # takeWhile P (rev xs) else [])"
  by simp

lemma length_filter_take_rev:
  "length (filter P (rev xs)) = length (filter P xs)"
  by (simp add: rev_filter [symmetric])

text \<open>The last \<open>n\<close> elements of a slice, as in \<open>xs[len(xs)-n:]\<close>.\<close>

definition last_n :: "nat \<Rightarrow> 'a list \<Rightarrow> 'a list" where
  "last_n n xs = drop (length xs - n) xs"

lemma length_last_n: "length (last_n n xs) = min n (length xs)"
  by (simp add: last_n_def)

lemma rev_last_n: "rev (last_n n xs) = take n (rev xs)"
  by (cases "n \<le> length xs") (simp_all add: last_n_def rev_drop)

lemma last_n_self: "length xs \<le> n \<Longrightarrow> last_n n xs = xs"
  by (simp add: last_n_def)

lemma set_last_n: "set (last_n n xs) \<subseteq> set xs"
  by (simp add: last_n_def set_drop_subset)

text \<open>An enumeration of a map's keys: one of the orders Go may iterate in.\<close>

definition enumerates :: "'k list \<Rightarrow> ('k \<rightharpoonup> 'v) \<Rightarrow> bool" where
  "enumerates ks m \<longleftrightarrow> distinct ks \<and> set ks = dom m"

lemma foldl_keyed:
  assumes "\<And>i r. f i = Some r \<Longrightarrow> key r = i"
  shows "foldl (\<lambda>m r. m(key r \<mapsto> r)) m0 (List.map_filter f ks) = (\<lambda>k. if k \<in> set ks \<and> f k \<noteq> None then f k else m0 k)"
proof (induction ks arbitrary: m0)
  case (Cons k ks)
  then show ?case using assms by (cases "f k") (auto simp: List.map_filter_def fun_eq_iff)
qed (simp add: List.map_filter_def)

lemma enumerates_distinct: "enumerates ks m \<Longrightarrow> distinct ks"
  by (simp add: enumerates_def)

lemma enumerates_set: "enumerates ks m \<Longrightarrow> k \<in> set ks \<longleftrightarrow> m k \<noteq> None"
  by (auto simp: enumerates_def)

end
