(* ===== verification/TaskTypes.thy ===== *)
theory TaskTypes
  imports Prelude
begin

text \<open>
  The data types of \<open>internal/agent/async.go\<close>: task statuses, trigger policies, token
  usage, task events, approval requests and the task state.  A \<open>TaskStatus\<close> is only ever
  assigned one of the five constants and is a datatype; a \<open>TriggerPolicy\<close> is converted
  from the request's string unchecked and stays a string.
\<close>

datatype task_status =
  TaskRunning | TaskCompleted | TaskFailed | TaskCancelled | TaskPendingApproval

fun status_str :: "task_status \<Rightarrow> string" where
  "status_str TaskRunning = ''running''"
| "status_str TaskCompleted = ''completed''"
| "status_str TaskFailed = ''failed''"
| "status_str TaskCancelled = ''cancelled''"
| "status_str TaskPendingApproval = ''pending_approval''"

lemma status_str_inj: "status_str a = status_str b \<longleftrightarrow> a = b"
  by (cases a; cases b) simp_all

lemma status_str_nonempty: "status_str a \<noteq> ''''"
  by (cases a) simp_all

type_synonym trigger_policy = string

definition TriggerAuto :: trigger_policy where "TriggerAuto = ''auto''"

definition TriggerQueue :: trigger_policy where "TriggerQueue = ''queue''"

record token_usage =
  Input :: int
  Output :: int
  Total :: int

record task_event =
  evTimestamp :: time
  evType :: string
  evTurn :: int
  evTools :: "string list"
  evContent :: string
  evTokens :: "token_usage option"

record email_preview =
  epTo :: "string list"
  epCC :: "string list"
  epSubject :: string
  epBody :: string

record approval_request =
  arToolName :: string
  arArguments :: string
  arSkillName :: string
  arDescription :: string
  arRequestedAt :: time
  arEmailPreview :: "email_preview option"

text \<open>
  \<open>cancelFn\<close> is the cancel function of a context; the model stores the name of the
  context it would cancel.
\<close>

record task_state =
  ID :: string
  AgentName :: string
  Task :: string
  Status :: task_status
  Result :: string
  Error :: string
  Policy :: trigger_policy
  SessionID :: string
  UserID :: string
  StartedAt :: time
  DoneAt :: "time option"
  Events :: "task_event list"
  TurnCount :: int
  TotalTokens :: "token_usage option"
  External :: bool
  CallbackSecret :: string
  TimeoutAt :: "time option"
  ApprovalRequest :: "approval_request option"
  cancelFn :: "string option"
  PipelineName :: string
  PipelineStage :: int

text \<open>The zero value of \<open>TaskState\<close>, from which the code's composite literals start.\<close>

definition zero_task :: task_state where
  "zero_task =
     \<lparr>ID = '''', AgentName = '''', Task = '''', Status = TaskRunning, Result = '''', Error = '''',
      Policy = '''', SessionID = '''', UserID = '''', StartedAt = 0, DoneAt = None, Events = [],
      TurnCount = 0, TotalTokens = None, External = False, CallbackSecret = '''',
      TimeoutAt = None, ApprovalRequest = None, cancelFn = None, PipelineName = '''',
      PipelineStage = 0\<rparr>"

end
