(* ===== verification/WorldModel.thy ===== *)
theory WorldModel
  imports TaskTypes
begin

text \<open>
  \<open>internal/agent/worldmodel.go\<close>: the session-scoped record of tool calls, error streaks
  and state changes that decides whether the agent should pivot or escalate.  Each
  operation takes the clock reading \<open>now\<close>; the readings one operation makes under the
  lock are one value.  The tool arguments that \<open>RecordToolCallStart\<close> ignores are left out,
  and so is the \<open>Args\<close> field no operation fills.
\<close>

section \<open>Data\<close>

datatype test_status = TestStatusUnknown | TestStatusPassing | TestStatusFailing

fun test_status_str :: "test_status \<Rightarrow> string" where
  "test_status_str TestStatusUnknown = ''unknown''"
| "test_status_str TestStatusPassing = ''passing''"
| "test_status_str TestStatusFailing = ''failing''"

record tool_call_record =
  tcTimestamp :: time
  tcTool :: string
  tcSuccess :: bool
  tcDuration :: duration
  tcErrorMsg :: string
  tcResultSize :: int

record error_record =
  erTimestamp :: time
  erTool :: string
  erMessage :: string

record state_transition =
  stTimestamp :: time
  stFrom :: string
  stTo :: string
  stTrigger :: string

record world_model =
  sessionID :: string
  startedAt :: time
  filesModified :: "string \<rightharpoonup> time"
  toolCalls :: "tool_call_record list"
  taskStatus :: "string \<rightharpoonup> task_status"
  errorStreak :: nat
  lastError :: "error_record option"
  lastErrorTool :: string
  stateChanges :: "state_transition list"
  testStatus :: test_status
  lastTestRun :: "time option"
  buildStatus :: test_status
  lastBuildRun :: "time option"
  pendingCalls :: "string \<rightharpoonup> time"

definition NewWorldModel :: "time \<Rightarrow> string \<Rightarrow> world_model" where
  "NewWorldModel now sid =
     \<lparr>sessionID = sid, startedAt = now, filesModified = Map.empty, toolCalls = [],
      taskStatus = Map.empty, errorStreak = 0, lastError = None, lastErrorTool = '''',
      stateChanges = [], testStatus = TestStatusUnknown, lastTestRun = None,
      buildStatus = TestStatusUnknown, lastBuildRun = None, pendingCalls = Map.empty\<rparr>"

section \<open>Operations\<close>

definition categorizeToolName :: "string \<Rightarrow> string" where
  "categorizeToolName toolName =
     (let t = to_lower toolName in
      if has_prefix t ''bash'' \<or> has_prefix t ''exec'' then ''execution''
      else if has_prefix t ''read'' \<or> has_prefix t ''glob'' \<or> has_prefix t ''grep''
        then ''filesystem_read''
      else if has_prefix t ''write'' \<or> has_prefix t ''edit'' then ''filesystem_write''
      else if has_prefix t ''browser'' \<or> has_prefix t ''web'' then ''web''
      else if has_prefix t ''dispatch'' \<or> has_prefix t ''backlog'' then ''orchestration''
      else toolName)"

definition RecordToolCallStart :: "time \<Rightarrow> string \<Rightarrow> world_model \<Rightarrow> world_model" where
  "RecordToolCallStart now callID w = w\<lparr>pendingCalls := (pendingCalls w)(callID \<mapsto> now)\<rparr>"

definition RecordToolCallEnd ::
  "time \<Rightarrow> string \<Rightarrow> string \<Rightarrow> bool \<Rightarrow> string \<Rightarrow> int \<Rightarrow> world_model \<Rightarrow> world_model" where
  "RecordToolCallEnd now callID toolName success errMsg resultSize w =
     (let (dur, pend) = (case pendingCalls w callID of
            Some startTime \<Rightarrow> (now - startTime, (pendingCalls w)(callID := None))
          | None \<Rightarrow> (0, pendingCalls w));
          r = \<lparr>tcTimestamp = now, tcTool = toolName, tcSuccess = success, tcDuration = dur,
               tcErrorMsg = errMsg, tcResultSize = resultSize\<rparr>;
          w1 = w\<lparr>pendingCalls := pend, toolCalls := toolCalls w @ [r]\<rparr>
      in if \<not> success then
           (let cat = categorizeToolName toolName;
                w2 = (if lastErrorTool w1 = cat
                      then w1\<lparr>errorStreak := Suc (errorStreak w1)\<rparr>
                      else w1\<lparr>errorStreak := 1, lastErrorTool := cat\<rparr>)
            in w2\<lparr>lastError := Some \<lparr>erTimestamp = now, erTool = toolName, erMessage = errMsg\<rparr>\<rparr>)
         else w1\<lparr>errorStreak := 0\<rparr>)"

definition RecordFileModified :: "time \<Rightarrow> string \<Rightarrow> world_model \<Rightarrow> world_model" where
  "RecordFileModified now path w = w\<lparr>filesModified := (filesModified w)(path \<mapsto> now)\<rparr>"

definition record_change :: "time \<Rightarrow> string \<Rightarrow> string \<Rightarrow> string \<Rightarrow> world_model \<Rightarrow> world_model" where
  "record_change now old new trigger w =
     (if old \<noteq> new
      then w\<lparr>stateChanges := stateChanges w @
               [\<lparr>stTimestamp = now, stFrom = old, stTo = new, stTrigger = trigger\<rparr>]\<rparr>
      else w)"

definition UpdateTestStatus :: "time \<Rightarrow> test_status \<Rightarrow> world_model \<Rightarrow> world_model" where
  "UpdateTestStatus now status w =
     record_change now (test_status_str (testStatus w)) (test_status_str status) ''test_run''
       (w\<lparr>testStatus := status, lastTestRun := Some now\<rparr>)"

definition UpdateBuildStatus :: "time \<Rightarrow> test_status \<Rightarrow> world_model \<Rightarrow> world_model" where
  "UpdateBuildStatus now status w =
     record_change now (test_status_str (buildStatus w)) (test_status_str status) ''build_run''
       (w\<lparr>buildStatus := status, lastBuildRun := Some now\<rparr>)"

text \<open>A task the map does not hold has the zero status, the empty string.\<close>

definition RecordTaskStatus :: "time \<Rightarrow> string \<Rightarrow> task_status \<Rightarrow> world_model \<Rightarrow> world_model" where
  "RecordTaskStatus now taskID status w =
     record_change now
       (case taskStatus w taskID of None \<Rightarrow> '''' | Some s \<Rightarrow> status_str s)
       (status_str status) (''task:'' @ taskID)
       (w\<lparr>taskStatus := (taskStatus w)(taskID \<mapsto> status)\<rparr>)"

definition failures :: "tool_call_record list \<Rightarrow> nat" where
  "failures cs = length (filter (\<lambda>c. \<not> tcSuccess c) cs)"

definition ShouldPivot :: "world_model \<Rightarrow> bool \<times> string" where
  "ShouldPivot w =
     (if errorStreak w \<ge> 3 then
        (True, ''failed '' @ itoa (int (errorStreak w)) @
               '' consecutive times with same approach ('' @ lastErrorTool w @ '')'')
      else if length (toolCalls w) \<ge> 5 \<and> failures (last_n 5 (toolCalls w)) \<ge> 4 then
        (True, ''4+ failures in last 5 tool calls suggests approach isn'' @ [char_of (39::nat)] @
               ''t working'')
      else (False, ''''))"

definition ShouldEscalate :: "time \<Rightarrow> world_model \<Rightarrow> bool \<times> string" where
  "ShouldEscalate now w =
     (let elapsed = now - startedAt w; n = failures (last_n 10 (toolCalls w)) in
      if elapsed > 10 * minute \<and> length (stateChanges w) < 2 then
        (True, ''minimal progress after '' @ duration_string (round_duration elapsed minute))
      else if length (toolCalls w) \<ge> 10 \<and> n \<ge> 6 then
        (True, itoa (int n) @ '' failures in last 10 tool calls'')
      else (False, ''''))"

definition recentToolCallsLocked :: "nat \<Rightarrow> world_model \<Rightarrow> tool_call_record list" where
  "recentToolCallsLocked n w =
     (if length (toolCalls w) \<le> n then toolCalls w else last_n n (toolCalls w))"

definition IsProgressingWell :: "world_model \<Rightarrow> bool" where
  "IsProgressingWell w =
     (if length (toolCalls w) < 5 then True
      else length (filter tcSuccess (recentToolCallsLocked 5 w)) \<ge> 3)"

section \<open>Reachable world models\<close>

text \<open>The calls a session makes on its world model, as one step function.\<close>

datatype wm_op =
  ToolStart time string
| ToolEnd time string string bool string int
| FileModified time string
| TestRun time test_status
| BuildRun time test_status
| TaskUpdate time string task_status

fun wm_step :: "world_model \<Rightarrow> wm_op \<Rightarrow> world_model" where
  "wm_step w (ToolStart now c) = RecordToolCallStart now c w"
| "wm_step w (ToolEnd now c t ok e n) = RecordToolCallEnd now c t ok e n w"
| "wm_step w (FileModified now p) = RecordFileModified now p w"
| "wm_step w (TestRun now s) = UpdateTestStatus now s w"
| "wm_step w (BuildRun now s) = UpdateBuildStatus now s w"
| "wm_step w (TaskUpdate now t s) = RecordTaskStatus now t s w"

definition wm_run :: "world_model \<Rightarrow> wm_op list \<Rightarrow> world_model" where
  "wm_run w ops = foldl wm_step w ops"

text \<open>A call that failed in the given tool category.\<close>

definition failed_in :: "string \<Rightarrow> tool_call_record \<Rightarrow> bool" where
  "failed_in cat c \<longleftrightarrow> \<not> tcSuccess c \<and> categorizeToolName (tcTool c) = cat"

text \<open>
  The streak counter counts the trailing run of failures in one category, and a failed
  last call has that category.
\<close>

definition streak_inv :: "world_model \<Rightarrow> bool" where
  "streak_inv w \<longleftrightarrow>
     errorStreak w = length (takeWhile (failed_in (lastErrorTool w)) (rev (toolCalls w))) \<and>
     (\<forall>c cs. rev (toolCalls w) = c # cs \<longrightarrow> \<not> tcSuccess c \<longrightarrow>
        categorizeToolName (tcTool c) = lastErrorTool w)"

lemma record_change_frame:
  "toolCalls (record_change now a b t w) = toolCalls w"
  "errorStreak (record_change now a b t w) = errorStreak w"
  "lastErrorTool (record_change now a b t w) = lastErrorTool w"
  by (simp_all add: record_change_def)

lemma streak_inv_new: "streak_inv (NewWorldModel now sid)"
  by (simp add: streak_inv_def NewWorldModel_def)

lemma toolCalls_RecordToolCallEnd:
  "\<exists>d. toolCalls (RecordToolCallEnd now c t ok e n w) =
     toolCalls w @ [\<lparr>tcTimestamp = now, tcTool = t, tcSuccess = ok, tcDuration = d,
                     tcErrorMsg = e, tcResultSize = n\<rparr>]"
  by (simp add: RecordToolCallEnd_def Let_def split: option.split)

lemma streak_RecordToolCallEnd:
  "errorStreak (RecordToolCallEnd now c t ok e n w) =
     (if ok then 0 else if lastErrorTool w = categorizeToolName t then Suc (errorStreak w) else 1)"
  "lastErrorTool (RecordToolCallEnd now c t ok e n w) =
     (if ok then lastErrorTool w else categorizeToolName t)"
  by (simp_all add: RecordToolCallEnd_def Let_def split: option.split)

lemma streak_inv_RecordToolCallEnd:
  assumes "streak_inv w"
  shows "streak_inv (RecordToolCallEnd now c t ok e n w)"
proof -
  obtain d where calls: "toolCalls (RecordToolCallEnd now c t ok e n w) =
     toolCalls w @ [\<lparr>tcTimestamp = now, tcTool = t, tcSuccess = ok, tcDuration = d,
                     tcErrorMsg = e, tcResultSize = n\<rparr>]"
    using toolCalls_RecordToolCallEnd by blast
  have fresh: "takeWhile (failed_in cat) (rev (toolCalls w)) = []"
    if "cat \<noteq> lastErrorTool w" for cat
    using assms that by (cases "rev (toolCalls w)") (auto simp: streak_inv_def failed_in_def)
  show ?thesis
    using assms fresh
    by (auto simp: streak_inv_def calls streak_RecordToolCallEnd failed_in_def)
qed

lemma streak_inv_step: "streak_inv w \<Longrightarrow> streak_inv (wm_step w op)"
proof (cases op)
  case (ToolEnd now c t ok e n)
  then show "streak_inv w \<Longrightarrow> streak_inv (wm_step w op)"
    by (simp add: streak_inv_RecordToolCallEnd)
qed (simp_all add: streak_inv_def RecordToolCallStart_def RecordFileModified_def
      UpdateTestStatus_def UpdateBuildStatus_def RecordTaskStatus_def record_change_frame)

lemma streak_inv_run: "streak_inv w \<Longrightarrow> streak_inv (wm_run w ops)"
  by (induction ops arbitrary: w) (simp_all add: wm_run_def streak_inv_step)

lemma failures_add_successes:
  "failures cs + length (filter tcSuccess cs) = length cs"
  using sum_length_filter_compl [of tcSuccess cs] by (simp add: failures_def add.commute)

lemma streak_failures:
  assumes "streak_inv w" and "errorStreak w \<ge> n"
  shows "\<forall>c \<in> set (last_n n (toolCalls w)). failed_in (lastErrorTool w) c"
    and "n \<le> length (toolCalls w)"
proof -
  let ?tw = "takeWhile (failed_in (lastErrorTool w)) (rev (toolCalls w))"
  have len: "n \<le> length ?tw" using assms by (simp add: streak_inv_def)
  have pre: "take n ?tw = take n (rev (toolCalls w))"
    using len by (metis min.absorb1 take_take takeWhile_eq_take)
  have "set (take n (rev (toolCalls w))) \<subseteq> set ?tw"
    using pre set_take_subset by metis
  then show "\<forall>c \<in> set (last_n n (toolCalls w)). failed_in (lastErrorTool w) c"
    using rev_last_n [of n "toolCalls w"] set_takeWhileD by (metis set_rev subsetD)
  show "n \<le> length (toolCalls w)"
    using len length_takeWhile_le [of _ "rev (toolCalls w)"] by (metis length_rev order_trans)
qed

section \<open>When the agent is told to pivot\<close>

lemma streak_reached:
  assumes "streak_inv w" and "n \<le> length (toolCalls w)" and "0 < n"
    and "list_all (failed_in cat) (last_n n (toolCalls w))"
  shows "n \<le> errorStreak w"
proof -
  let ?r = "rev (toolCalls w)"
  have all: "\<forall>c \<in> set (take n ?r). failed_in cat c"
    using assms(4) by (metis list_all_iff rev_last_n set_rev)
  obtain c cs where split: "?r = c # cs" using assms(2,3) by (cases ?r) auto
  have "failed_in cat c" using all split assms(3) by (cases n) auto
  then have cat: "cat = lastErrorTool w"
    using assms(1) split by (simp add: streak_inv_def failed_in_def)
  have "takeWhile (failed_in cat) (take n ?r @ drop n ?r) =
      take n ?r @ takeWhile (failed_in cat) (drop n ?r)"
    using all by (simp only: takeWhile_append2)
  then have "n \<le> length (takeWhile (failed_in cat) ?r)"
    using assms(2) by (metis append_take_drop_id length_append length_rev length_take le_add1 min.absorb2)
  then show ?thesis using assms(1) cat by (simp add: streak_inv_def)
qed

lemma failures_last_3: "failures (last_n 3 xs) \<le> failures (last_n 5 xs)"
proof -
  have "length xs - (length xs - 5 + 3) + (length xs - 5) = length xs - 3" by arith
  then have "last_n 3 xs = drop (length (last_n 5 xs) - 3) (last_n 5 xs)"
    by (simp add: last_n_def)
  then have "last_n 5 xs = take (length (last_n 5 xs) - 3) (last_n 5 xs) @ last_n 3 xs"
    by (metis append_take_drop_id)
  then show ?thesis
    by (metis (no_types, lifting) failures_def filter_append length_append le_add2)
qed

text \<open>\<open>ShouldPivot\<close> on any world model a session can reach says yes exactly when
  the last three tool calls all failed in one tool category, or at least four of the last
  five calls failed.\<close>

theorem should_pivot_iff:
  "fst (ShouldPivot (wm_run (NewWorldModel t0 sid) ops)) \<longleftrightarrow>
     (let cs = toolCalls (wm_run (NewWorldModel t0 sid) ops) in
        (3 \<le> length cs \<and> (\<exists>cat. list_all (failed_in cat) (last_n 3 cs))) \<or>
        (5 \<le> length cs \<and> 4 \<le> failures (last_n 5 cs)))"
proof -
  let ?w = "wm_run (NewWorldModel t0 sid) ops"
  have inv: "streak_inv ?w" by (rule streak_inv_run [OF streak_inv_new])
  have "3 \<le> errorStreak ?w \<longleftrightarrow>
    3 \<le> length (toolCalls ?w) \<and> (\<exists>cat. list_all (failed_in cat) (last_n 3 (toolCalls ?w)))"
    using streak_failures [OF inv, of 3] streak_reached [OF inv, of 3]
    by (auto simp: list_all_iff)
  then show ?thesis by (auto simp: ShouldPivot_def Let_def)
qed

text \<open>Once five calls are on record, a world model that reports good progress never
  asks for a pivot: the two signals the escalation code reads cannot contradict each
  other.\<close>

theorem progressing_excludes_pivot:
  assumes "5 \<le> length (toolCalls (wm_run (NewWorldModel t0 sid) ops))"
    and "IsProgressingWell (wm_run (NewWorldModel t0 sid) ops)"
  shows "\<not> fst (ShouldPivot (wm_run (NewWorldModel t0 sid) ops))"
proof
  let ?w = "wm_run (NewWorldModel t0 sid) ops"
  let ?l = "\<lambda>n. last_n n (toolCalls ?w)"
  have inv: "streak_inv ?w" by (rule streak_inv_run [OF streak_inv_new])
  assume pivot: "fst (ShouldPivot ?w)"
  have "recentToolCallsLocked 5 ?w = ?l 5"
    by (simp add: recentToolCallsLocked_def last_n_self)
  then have "3 \<le> length (filter tcSuccess (?l 5))"
    using assms by (simp add: IsProgressingWell_def)
  then have few: "failures (?l 5) \<le> 2"
    using failures_add_successes [of "?l 5"] assms(1) by (simp add: length_last_n)
  with pivot have "3 \<le> errorStreak ?w"
    by (auto simp: ShouldPivot_def split: if_splits)
  then have "\<forall>c \<in> set (?l 3). \<not> tcSuccess c"
    using streak_failures(1) [OF inv] by (auto simp: failed_in_def)
  then have "failures (?l 3) = length (?l 3)" by (simp add: failures_def)
  with few failures_last_3 [of "toolCalls ?w"] assms(1) show False by (simp add: length_last_n)
qed

definition pivot_demo :: "wm_op list" where
  "pivot_demo = map (\<lambda>ok. ToolEnd 1 ''c'' ''bash'' ok '''' 0) [True, False, True, False, True]"

theorem progressing_excludes_pivot_witness:
  "5 \<le> length (toolCalls (wm_run (NewWorldModel 0 ''s'') pivot_demo)) \<and>
   IsProgressingWell (wm_run (NewWorldModel 0 ''s'') pivot_demo) \<and>
   \<not> fst (ShouldPivot (wm_run (NewWorldModel 0 ''s'') pivot_demo))"
proof -
  have h: "5 \<le> length (toolCalls (wm_run (NewWorldModel 0 ''s'') pivot_demo))"
    "IsProgressingWell (wm_run (NewWorldModel 0 ''s'') pivot_demo)"
    by code_simp+
  from h progressing_excludes_pivot [OF h] show ?thesis by blast
qed

end
