(* ===== verification/GoJson.thy ===== *)
theory GoJson
  imports Prelude
begin

text \<open>
  The part of \<open>encoding/json\<close> the program relies on: the reader that turns a text into a
  value tree, and the rules by which \<open>json.Unmarshal\<close> fills a struct.  A number keeps its
  spelling.  Strings are taken to be valid UTF-8, and the depth limit of 10000 of the Go
  reader is not modelled.

  The reader is fuelled; \<open>parse_fuel_enough\<close> shows that the fuel \<open>json_parse\<close> passes
  never runs out: more fuel gives the same answer.
\<close>

datatype json =
  JNull
| JBool bool
| JNum string
| JStr string
| JArr "json list"
| JObj "(string \<times> json) list"

section \<open>Reading a value\<close>

definition is_ws :: "char \<Rightarrow> bool" where
  "is_ws c \<longleftrightarrow> (of_char c :: nat) \<in> {9, 10, 13, 32}"

definition skip_ws :: "string \<Rightarrow> string" where
  "skip_ws s = dropWhile is_ws s"

definition is_digit :: "char \<Rightarrow> bool" where
  "is_digit c \<longleftrightarrow> 48 \<le> (of_char c :: nat) \<and> (of_char c :: nat) \<le> 57"

definition hex_value :: "char \<Rightarrow> nat option" where
  "hex_value c =
     (let n = (of_char c :: nat) in
      if 48 \<le> n \<and> n \<le> 57 then Some (n - 48)
      else if 97 \<le> n \<and> n \<le> 102 then Some (n - 87)
      else if 65 \<le> n \<and> n \<le> 70 then Some (n - 55)
      else None)"

fun hex4 :: "string \<Rightarrow> (nat \<times> string) option" where
  "hex4 (a # b # c # d # s) =
     (case (hex_value a, hex_value b, hex_value c, hex_value d) of
        (Some w, Some x, Some y, Some z) \<Rightarrow> Some (((w * 16 + x) * 16 + y) * 16 + z, s)
      | _ \<Rightarrow> None)"
| "hex4 _ = None"

definition utf8 :: "nat \<Rightarrow> string" where
  "utf8 n =
     (if n < 128 then [char_of n]
      else if n < 2048 then [char_of (192 + n div 64), char_of (128 + n mod 64)]
      else if n < 65536
        then [char_of (224 + n div 4096), char_of (128 + n div 64 mod 64), char_of (128 + n mod 64)]
      else [char_of (240 + n div 262144), char_of (128 + n div 4096 mod 64),
            char_of (128 + n div 64 mod 64), char_of (128 + n mod 64)])"

definition is_high_surrogate :: "nat \<Rightarrow> bool" where
  "is_high_surrogate n \<longleftrightarrow> 55296 \<le> n \<and> n < 56320"

definition is_low_surrogate :: "nat \<Rightarrow> bool" where
  "is_low_surrogate n \<longleftrightarrow> 56320 \<le> n \<and> n < 57344"

text \<open>What follows \<open>\\u\<close>: a pair of surrogates is one character, a lone one becomes U+FFFD.\<close>

definition unicode_escape :: "string \<Rightarrow> (string \<times> string) option" where
  "unicode_escape s =
     (case hex4 s of
        None \<Rightarrow> None
      | Some (n, rest) \<Rightarrow>
          if is_high_surrogate n then
            (case rest of
               b # u # rest' \<Rightarrow>
                 (if (of_char b :: nat) = 92 \<and> u = CHR ''u'' then
                    (case hex4 rest' of
                       Some (m, rest'') \<Rightarrow>
                         if is_low_surrogate m
                         then Some (utf8 (65536 + (n - 55296) * 1024 + (m - 56320)), rest'')
                         else Some (utf8 65533, rest)
                     | None \<Rightarrow> None)
                  else Some (utf8 65533, rest))
             | _ \<Rightarrow> Some (utf8 65533, rest))
          else if is_low_surrogate n then Some (utf8 65533, rest)
          else Some (utf8 n, rest))"

definition simple_escape :: "char \<Rightarrow> char option" where
  "simple_escape c =
     (let n = (of_char c :: nat) in
      if n = 34 \<or> n = 92 \<or> n = 47 then Some c
      else if c = CHR ''b'' then Some (char_of (8::nat))
      else if c = CHR ''f'' then Some (char_of (12::nat))
      else if c = CHR ''n'' then Some (char_of (10::nat))
      else if c = CHR ''r'' then Some (char_of (13::nat))
      else if c = CHR ''t'' then Some (char_of (9::nat))
      else None)"

text \<open>The characters of a string up to its closing quote.\<close>

fun parse_chars :: "nat \<Rightarrow> string \<Rightarrow> (string \<times> string) option" where
  "parse_chars 0 s = None"
| "parse_chars (Suc n) [] = None"
| "parse_chars (Suc n) (c # s) =
     (let k = (of_char c :: nat) in
      if k = 34 then Some ([], s)
      else if k < 32 then None
      else if k = 92 then
        (case s of
           [] \<Rightarrow> None
         | e # s' \<Rightarrow>
             (case (if e = CHR ''u'' then unicode_escape s'
                    else map_option (\<lambda>d. ([d], s')) (simple_escape e)) of
                None \<Rightarrow> None
              | Some (out, rest) \<Rightarrow>
                  map_option (\<lambda>(t, r). (out @ t, r)) (parse_chars n rest)))
      else map_option (\<lambda>(t, r). (c # t, r)) (parse_chars n s))"

definition parse_digits :: "string \<Rightarrow> (string \<times> string) option" where
  "parse_digits s =
     (let ds = takeWhile is_digit s in if ds = [] then None else Some (ds, dropWhile is_digit s))"

definition parse_int_part :: "string \<Rightarrow> (string \<times> string) option" where
  "parse_int_part s =
     (case s of
        c # rest \<Rightarrow> if c = CHR ''0'' then Some (''0'', rest) else parse_digits s
      | [] \<Rightarrow> None)"

definition parse_frac :: "string \<Rightarrow> (string \<times> string) option" where
  "parse_frac s =
     (case s of
        c # rest \<Rightarrow>
          if c = CHR ''.'' then map_option (\<lambda>(d, r). (c # d, r)) (parse_digits rest)
          else Some ([], s)
      | [] \<Rightarrow> Some ([], []))"

definition parse_exp :: "string \<Rightarrow> (string \<times> string) option" where
  "parse_exp s =
     (case s of
        c # rest \<Rightarrow>
          if c = CHR ''e'' \<or> c = CHR ''E'' then
            (case rest of
               d # rest' \<Rightarrow>
                 if d = CHR ''+'' \<or> d = CHR ''-''
                 then map_option (\<lambda>(ds, r). (c # d # ds, r)) (parse_digits rest')
                 else map_option (\<lambda>(ds, r). (c # ds, r)) (parse_digits rest)
             | [] \<Rightarrow> None)
          else Some ([], s)
      | [] \<Rightarrow> Some ([], []))"

definition parse_number :: "string \<Rightarrow> (string \<times> string) option" where
  "parse_number s =
     (let (sign, s0) = (case s of c # r \<Rightarrow> if c = CHR ''-'' then (''-'', r) else ('''', s)
                          | [] \<Rightarrow> ('''', s))
      in case parse_int_part s0 of
           None \<Rightarrow> None
         | Some (i, s1) \<Rightarrow>
             (case parse_frac s1 of
                None \<Rightarrow> None
              | Some (f, s2) \<Rightarrow>
                  map_option (\<lambda>(e, s3). (sign @ i @ f @ e, s3)) (parse_exp s2)))"

definition parse_word :: "string \<Rightarrow> json \<Rightarrow> string \<Rightarrow> (json \<times> string) option" where
  "parse_word w v s = (if has_prefix s w then Some (v, drop (length w) s) else None)"

fun parse_value :: "nat \<Rightarrow> string \<Rightarrow> (json \<times> string) option"
  and parse_elems :: "nat \<Rightarrow> string \<Rightarrow> (json list \<times> string) option"
  and parse_members :: "nat \<Rightarrow> string \<Rightarrow> ((string \<times> json) list \<times> string) option" where
  "parse_value 0 s = None"
| "parse_value (Suc n) s =
     (case skip_ws s of
        [] \<Rightarrow> None
      | c # rest \<Rightarrow>
          let k = (of_char c :: nat) in
          if k = 34 then map_option (\<lambda>(t, r). (JStr t, r)) (parse_chars (length s) rest)
          else if k = 91 then
            (case skip_ws rest of
               d # r \<Rightarrow>
                 if (of_char d :: nat) = 93 then Some (JArr [], r)
                 else map_option (\<lambda>(vs, r). (JArr vs, r)) (parse_elems n rest)
             | [] \<Rightarrow> None)
          else if k = 123 then
            (case skip_ws rest of
               d # r \<Rightarrow>
                 if (of_char d :: nat) = 125 then Some (JObj [], r)
                 else map_option (\<lambda>(ms, r). (JObj ms, r)) (parse_members n rest)
             | [] \<Rightarrow> None)
          else if c = CHR ''t'' then parse_word ''true'' (JBool True) (c # rest)
          else if c = CHR ''f'' then parse_word ''false'' (JBool False) (c # rest)
          else if c = CHR ''n'' then parse_word ''null'' JNull (c # rest)
          else map_option (\<lambda>(t, r). (JNum t, r)) (parse_number (c # rest)))"
| "parse_elems 0 s = None"
| "parse_elems (Suc n) s =
     (case parse_value n s of
        None \<Rightarrow> None
      | Some (v, rest) \<Rightarrow>
          (case skip_ws rest of
             [] \<Rightarrow> None
           | c # r \<Rightarrow>
               if (of_char c :: nat) = 93 then Some ([v], r)
               else if (of_char c :: nat) = 44
                 then map_option (\<lambda>(vs, r'). (v # vs, r')) (parse_elems n r)
               else None))"
| "parse_members 0 s = None"
| "parse_members (Suc n) s =
     (case skip_ws s of
        [] \<Rightarrow> None
      | q # s1 \<Rightarrow>
          if (of_char q :: nat) \<noteq> 34 then None
          else (case parse_chars (length s) s1 of
                  None \<Rightarrow> None
                | Some (key, s2) \<Rightarrow>
                    (case skip_ws s2 of
                       [] \<Rightarrow> None
                     | c # s3 \<Rightarrow>
                         if (of_char c :: nat) \<noteq> 58 then None
                         else (case parse_value n s3 of
                                 None \<Rightarrow> None
                               | Some (v, s4) \<Rightarrow>
                                   (case skip_ws s4 of
                                      [] \<Rightarrow> None
                                    | d # s5 \<Rightarrow>
                                        if (of_char d :: nat) = 125 then Some ([(key, v)], s5)
                                        else if (of_char d :: nat) = 44
                                          then map_option (\<lambda>(ms, r). ((key, v) # ms, r))
                                                 (parse_members n s5)
                                        else None)))))"

definition json_parse :: "string \<Rightarrow> json option" where
  "json_parse s =
     (case parse_value (2 * length s + 2) s of
        Some (v, rest) \<Rightarrow> if skip_ws rest = [] then Some v else None
      | None \<Rightarrow> None)"

section \<open>Filling a struct\<close>

text \<open>
  \<open>json.Unmarshal\<close> matches an object key with a field name up to letter case, visits the
  keys in the order of the text, leaves a field alone on \<open>null\<close>, and on a value of the
  wrong type remembers an error and goes on.  A decoded field is its value and whether an
  error was seen.
\<close>

definition members_for :: "string \<Rightarrow> json \<Rightarrow> json list" where
  "members_for name v =
     (case v of JObj ms \<Rightarrow> map snd (filter (\<lambda>(k, _). to_lower k = to_lower name) ms) | _ \<Rightarrow> [])"

definition decode_string :: "json \<Rightarrow> string \<times> bool \<Rightarrow> string \<times> bool" where
  "decode_string v cur =
     (case v of JStr s \<Rightarrow> (s, snd cur) | JNull \<Rightarrow> cur | _ \<Rightarrow> (fst cur, True))"

definition string_field :: "string \<Rightarrow> json \<Rightarrow> string \<times> bool" where
  "string_field name v = fold decode_string (members_for name v) ('''', False)"

fun decode_elems :: "string list \<Rightarrow> json list \<Rightarrow> string list \<times> bool" where
  "decode_elems old [] = ([], False)"
| "decode_elems old (v # vs) =
     (let (s, e) = decode_string v (case old of o1 # _ \<Rightarrow> o1 | [] \<Rightarrow> '''', False);
          (ss, e') = decode_elems (drop 1 old) vs
      in (s # ss, e \<or> e'))"

definition decode_strings :: "json \<Rightarrow> string list \<times> bool \<Rightarrow> string list \<times> bool" where
  "decode_strings v cur =
     (case v of
        JArr vs \<Rightarrow> (let (ss, e) = decode_elems (fst cur) vs in (ss, snd cur \<or> e))
      | JNull \<Rightarrow> ([], snd cur)
      | _ \<Rightarrow> (fst cur, True))"

definition strings_field :: "string \<Rightarrow> json \<Rightarrow> string list \<times> bool" where
  "strings_field name v = fold decode_strings (members_for name v) ([], False)"

definition is_struct_source :: "json \<Rightarrow> bool" where
  "is_struct_source v = (case v of JObj _ \<Rightarrow> True | JNull \<Rightarrow> True | _ \<Rightarrow> False)"

section \<open>The fuel is enough\<close>

lemma skip_ws_length: "length (skip_ws s) \<le> length s"
  by (simp add: skip_ws_def length_dropWhile_le)

lemma hex4_length: "hex4 s = Some (n, r) \<Longrightarrow> length r < length s"
  by (induction s rule: hex4.induct) (auto split: option.splits)

lemma unicode_escape_length: "unicode_escape s = Some (t, r) \<Longrightarrow> length r \<le> length s"
  by (auto simp: unicode_escape_def split: option.splits if_splits list.splits dest!: hex4_length)

lemma escape_length:
  "(if e = CHR ''u'' then unicode_escape s else map_option (\<lambda>d. ([d], s)) (simple_escape e)) =
     Some (t, r) \<Longrightarrow> length r \<le> length s"
  by (auto split: if_splits dest: unicode_escape_length)

lemma parse_chars_length: "parse_chars n s = Some (t, r) \<Longrightarrow> length r < length s"
proof (induction n s arbitrary: t r rule: parse_chars.induct)
  case (3 n c s)
  from "3.prems" show ?case
  proof (cases "(of_char c :: nat) = 92")
    case True
    with "3.prems" obtain e s' out rest t' where esc: "s = e # s'"
        "(if e = CHR ''u'' then unicode_escape s'
          else map_option (\<lambda>d. ([d], s')) (simple_escape e)) = Some (out, rest)"
        and rec: "parse_chars n rest = Some (t', r)"
      by (auto simp: Let_def split: list.splits option.splits)
    have "length r < length rest" using "3.IH"(1) True esc rec by force
    with escape_length [OF esc(2)] esc(1) show ?thesis by simp
  next
    case False
    with "3.prems" "3.IH"(2) show ?thesis
      by (fastforce simp: Let_def split: if_splits)
  qed
qed simp_all

lemma parse_chars_fuel:
  "length s \<le> n \<Longrightarrow> length s \<le> m \<Longrightarrow> parse_chars n s = parse_chars m s"
proof (induction n arbitrary: s m)
  case 0
  then show ?case by (cases m) simp_all
next
  case (Suc n)
  show ?case
  proof (cases s)
    case Nil
    then show ?thesis by (cases m) simp_all
  next
    case (Cons c s0)
    with Suc.prems obtain m' where m: "m = Suc m'" by (cases m) auto
    have rec: "parse_chars n r = parse_chars m' r" if "length r \<le> length s0" for r
      using Suc.prems Cons m that by (intro Suc.IH) simp_all
    show ?thesis
    proof (cases s0)
      case Nil
      then show ?thesis using Cons m rec [of "[]"] by (simp add: Let_def)
    next
      case (Cons e s1)
      note s0 = Cons
      have "(case (if e = CHR ''u'' then unicode_escape s1
                    else map_option (\<lambda>d. ([d], s1)) (simple_escape e)) of None \<Rightarrow> None
              | Some (out, rest) \<Rightarrow> map_option (\<lambda>(t, r). (out @ t, r)) (parse_chars n rest)) =
            (case (if e = CHR ''u'' then unicode_escape s1
                    else map_option (\<lambda>d. ([d], s1)) (simple_escape e)) of None \<Rightarrow> None
              | Some (out, rest) \<Rightarrow> map_option (\<lambda>(t, r). (out @ t, r)) (parse_chars m' rest))"
        using rec escape_length [of e s1] s0 by (force split: option.split)
      then show ?thesis
        using \<open>s = c # s0\<close> s0 m rec [of s0] by (simp add: Let_def)
    qed
  qed
qed

lemma parse_digits_length: "parse_digits s = Some (t, r) \<Longrightarrow> length r < length s"
proof -
  assume "parse_digits s = Some (t, r)"
  then have "takeWhile is_digit s \<noteq> []" and r: "r = dropWhile is_digit s"
    by (auto simp: parse_digits_def Let_def split: if_splits)
  then have "0 < length (takeWhile is_digit s)" by simp
  then show ?thesis
    using r by (metis length_append less_add_same_cancel2 takeWhile_dropWhile_id)
qed

lemma parse_number_length: "parse_number s = Some (t, r) \<Longrightarrow> length r < length s"
proof -
  assume p: "parse_number s = Some (t, r)"
  let ?s0 = "case s of c # r \<Rightarrow> if c = CHR ''-'' then r else s | [] \<Rightarrow> s"
  obtain i s1 f s2 e where parts: "parse_int_part ?s0 = Some (i, s1)"
      "parse_frac s1 = Some (f, s2)" "parse_exp s2 = Some (e, r)"
    using p by (auto simp: parse_number_def split: list.splits if_splits option.splits)
  have "length ?s0 \<le> length s" by (simp split: list.split)
  moreover have "length s1 < length ?s0"
    using parts(1) by (auto simp: parse_int_part_def split: list.splits if_splits dest: parse_digits_length)
  moreover have "length s2 \<le> length s1"
    using parts(2) by (auto simp: parse_frac_def split: list.splits if_splits dest: parse_digits_length)
  moreover have "length r \<le> length s2"
    using parts(3) by (auto simp: parse_exp_def split: list.splits if_splits dest: parse_digits_length)
  ultimately show ?thesis by linarith
qed

lemma parse_word_length: "parse_word w v s = Some (x, r) \<Longrightarrow> w \<noteq> [] \<Longrightarrow> length r < length s"
  by (auto simp: parse_word_def has_prefix_def split: if_splits)
     (metis diff_less length_greater_0_conv length_take min.cobounded1 min_0L nat_neq_iff
        not_less_zero take_eq_Nil)

lemma skip_ws_Cons_length: "skip_ws s = c # r \<Longrightarrow> length r < length s"
  using skip_ws_length [of s] by simp

lemmas consumed = skip_ws_Cons_length parse_chars_length parse_number_length

lemma parse_length:
  "parse_value n s = Some (v, r) \<Longrightarrow> length r < length s"
  "parse_elems n s = Some (vs, r) \<Longrightarrow> length r < length s"
  "parse_members n s = Some (ms, r) \<Longrightarrow> length r < length s"
proof (induction n s and n s and n s arbitrary: v r and vs r and ms r
    rule: parse_value_parse_elems_parse_members.induct)
  case (2 n s)
  then show ?case
    by (auto simp: Let_def split: list.splits if_splits
        dest!: consumed dest: parse_word_length)
       (force dest!: consumed dest: parse_word_length)+
next
  case (4 n s)
  then show ?case
    by (auto split: option.splits list.splits if_splits dest!: skip_ws_Cons_length)
       force+
next
  case (6 n s)
  then show ?case
    by (auto split: option.splits list.splits if_splits dest!: skip_ws_Cons_length parse_chars_length)
       force+
qed simp_all

lemma parse_fuel_enough:
  "2 * length s + 1 \<le> n \<Longrightarrow> n \<le> m \<Longrightarrow> parse_value m s = parse_value n s"
  "2 * length s + 2 \<le> n \<Longrightarrow> n \<le> m \<Longrightarrow> parse_elems m s = parse_elems n s"
  "2 * length s + 2 \<le> n \<Longrightarrow> n \<le> m \<Longrightarrow> parse_members m s = parse_members n s"
proof (induction n arbitrary: s m)
  case (Suc n)
  {
    case 1
    then obtain m' where m: "m = Suc m'" "n \<le> m'" by (cases m) auto
    have rest: "parse_elems m' r = parse_elems n r" "parse_members m' r = parse_members n r"
      if "length r < length s" for r
      using Suc.IH(2,3) [of r m'] 1 m that by simp_all
    show ?case
    proof (cases "skip_ws s")
      case (Cons c r)
      with rest [OF skip_ws_Cons_length [OF Cons]] m show ?thesis
        by (simp add: Let_def split: list.split)
    qed (simp add: m)
  next
    case 2
    then obtain m' where m: "m = Suc m'" "n \<le> m'" by (cases m) auto
    have val: "parse_value m' s = parse_value n s" using Suc.IH(1) [of s m'] 2 m by simp
    have rest: "parse_elems m' r = parse_elems n r" if "length r < length s" for r
      using Suc.IH(2) [of r m'] 2 m that by simp
    show ?case
      using m val rest
      by (auto split: option.split list.split dest!: parse_length(1) skip_ws_Cons_length)
  next
    case 3
    then obtain m' where m: "m = Suc m'" "n \<le> m'" by (cases m) auto
    have rest: "parse_value m' r = parse_value n r" "parse_members m' r = parse_members n r"
      if "length r < length s" for r
      using Suc.IH(1,3) [of r m'] 3 m that by simp_all
    show ?case
    proof (cases "skip_ws s")
      case (Cons q s1)
      note s1 = skip_ws_Cons_length [OF Cons]
      show ?thesis
      proof (cases "parse_chars (length s) s1")
        case (Some p)
        then obtain key s2 where p: "parse_chars (length s) s1 = Some (key, s2)"
          by (cases p) auto
        show ?thesis
        proof (cases "skip_ws s2")
          case (Cons c s3)
          have "length s3 < length s"
            using s1 parse_chars_length [OF p] skip_ws_Cons_length [OF Cons] by simp
          with rest have "parse_value m' s3 = parse_value n s3"
            "\<And>v s4 d s5. parse_value n s3 = Some (v, s4) \<Longrightarrow> skip_ws s4 = d # s5 \<Longrightarrow>
               parse_members m' s5 = parse_members n s5"
            by (auto dest!: parse_length(1) skip_ws_Cons_length)
          then show ?thesis
            using m p Cons \<open>skip_ws s = q # s1\<close> by (auto split: option.split list.split)
        qed (use m p Cons in simp)
      qed (use m Cons in simp)
    qed (simp add: m)
  }
qed simp_all

text \<open>Reading JSON is total in the sense of the code: the fuel that the model gives the
  recursive reader never runs out, so a larger amount changes no result.\<close>

theorem json_parse_fuel:
  "json_parse s =
     (case parse_value (2 * length s + 2 + k) s of
        Some (v, rest) \<Rightarrow> if skip_ws rest = [] then Some v else None
      | None \<Rightarrow> None)"
  using parse_fuel_enough(1) [of s "2 * length s + 2" "2 * length s + 2 + k"]
  by (simp add: json_parse_def)

end
