(* ===== verification/ApprovalText.thy ===== *)
theory ApprovalText
  imports TaskTypes GoJson
begin

text \<open>
  \<open>internal/agent/approval.go\<close> and \<open>autorule.go\<close>: the one-line description of a guarded
  tool call that a human sees before approving it, the preview of an e-mail, and the
  auto-approve rules.  The regular-expression engine of the \<open>regexp\<close> package is an
  argument of the rule functions: \<open>compile\<close> and \<open>matches\<close>.
\<close>

section \<open>Descriptions of a tool call\<close>

text \<open>\<open>json.Unmarshal\<close> into the anonymous structs of this file: the fields, if there was no error.\<close>

definition decode_one_string :: "string \<Rightarrow> string \<Rightarrow> string option" where
  "decode_one_string field rawArgs =
     (case json_parse rawArgs of
        None \<Rightarrow> None
      | Some v \<Rightarrow>
          (let (s, e) = string_field field v
           in if e \<or> \<not> is_struct_source v then None else Some s))"

record email_args =
  eaAction :: string
  eaTo :: "string list"
  eaCC :: "string list"
  eaSubject :: string
  eaBody :: string

text \<open>
  The description decodes \<open>action\<close>, \<open>to\<close> and \<open>subject\<close>; the preview also \<open>cc\<close> and
  \<open>body\<close>, whose type errors count only there.
\<close>

definition decode_email :: "bool \<Rightarrow> string \<Rightarrow> email_args option" where
  "decode_email full rawArgs =
     (case json_parse rawArgs of
        None \<Rightarrow> None
      | Some v \<Rightarrow>
          (let (action, e1) = string_field ''action'' v;
               (to, e2) = strings_field ''to'' v;
               (subject, e3) = string_field ''subject'' v;
               (cc, e4) = strings_field ''cc'' v;
               (body, e5) = string_field ''body'' v
           in if e1 \<or> e2 \<or> e3 \<or> (full \<and> (e4 \<or> e5)) \<or> \<not> is_struct_source v then None
              else Some \<lparr>eaAction = action, eaTo = to, eaCC = cc, eaSubject = subject,
                         eaBody = body\<rparr>))"

definition fallback_description :: "string \<Rightarrow> string \<Rightarrow> string" where
  "fallback_description toolName rawArgs = truncate_str (toolName @ '': '' @ rawArgs) 200"

definition formatApprovalDescription :: "string \<Rightarrow> string \<Rightarrow> string" where
  "formatApprovalDescription toolName rawArgs =
     (let named = (\<lambda>field label.
            case decode_one_string field rawArgs of
              Some s \<Rightarrow> if s \<noteq> '''' then Some (label @ s) else None
            | None \<Rightarrow> None);
          special =
            (if toolName = ''Bash'' then
               map_option (\<lambda>d. truncate_str d 200) (named ''command'' ''Run command: '')
             else if toolName = ''Write'' then named ''file_path'' ''Write file: ''
             else if toolName = ''Edit'' then named ''file_path'' ''Edit file: ''
             else if toolName = ''Read'' then named ''file_path'' ''Read file: ''
             else if toolName = ''email'' then
               (case decode_email False rawArgs of
                  Some v \<Rightarrow>
                    if eaAction v = ''send''
                    then Some (''Send email to '' @ join_str '', '' (eaTo v) @ '': '' @ eaSubject v)
                    else None
                | None \<Rightarrow> None)
             else None)
      in case special of Some d \<Rightarrow> d | None \<Rightarrow> fallback_description toolName rawArgs)"

definition extractEmailPreview :: "string \<Rightarrow> string \<Rightarrow> email_preview option" where
  "extractEmailPreview toolName rawArgs =
     (if toolName \<noteq> ''email'' then None
      else case decode_email True rawArgs of
             None \<Rightarrow> None
           | Some v \<Rightarrow>
               if eaAction v \<noteq> ''send'' then None
               else Some \<lparr>epTo = eaTo v, epCC = eaCC v, epSubject = eaSubject v,
                          epBody = truncate_str (eaBody v) 1000\<rparr>)"

section \<open>Auto-approve rules\<close>

record auto_approve_rule =
  aaTool :: string
  aaPattern :: string

record 'r compiled_auto_rule =
  crTool :: string
  crPattern :: "'r option"

fun CompileAutoRules ::
  "(string \<Rightarrow> string + 'r) \<Rightarrow> auto_approve_rule list \<Rightarrow> ('r compiled_auto_rule list) go_result" where
  "CompileAutoRules compile [] = Inr []"
| "CompileAutoRules compile (r # rs) =
     (let first =
        (if aaPattern r \<noteq> '''' then
           (case compile (aaPattern r) of
              Inl err \<Rightarrow>
                Inl (''invalid auto-approve pattern for tool '' @ aaTool r @ '': '' @ err)
            | Inr re \<Rightarrow> Inr \<lparr>crTool = aaTool r, crPattern = Some re\<rparr>)
         else Inr \<lparr>crTool = aaTool r, crPattern = None\<rparr>)
      in case first of
           Inl e \<Rightarrow> Inl e
         | Inr c \<Rightarrow> (case CompileAutoRules compile rs of Inl e \<Rightarrow> Inl e | Inr cs \<Rightarrow> Inr (c # cs)))"

fun MatchAutoRule ::
  "('r \<Rightarrow> string \<Rightarrow> bool) \<Rightarrow> 'r compiled_auto_rule list \<Rightarrow> string \<Rightarrow> string \<Rightarrow> bool" where
  "MatchAutoRule matches [] toolName description = False"
| "MatchAutoRule matches (r # rs) toolName description =
     (if crTool r \<noteq> toolName then MatchAutoRule matches rs toolName description
      else case crPattern r of
             None \<Rightarrow> True
           | Some re \<Rightarrow>
               if matches re description then True
               else MatchAutoRule matches rs toolName description)"

lemma MatchAutoRule_iff:
  "MatchAutoRule matches rs toolName d \<longleftrightarrow>
     list_ex (\<lambda>r. crTool r = toolName \<and>
       (case crPattern r of None \<Rightarrow> True | Some re \<Rightarrow> matches re d)) rs"
  by (induction rs) (auto split: option.split)

definition compiled_from ::
  "(string \<Rightarrow> string + 'r) \<Rightarrow> auto_approve_rule \<Rightarrow> 'r compiled_auto_rule \<Rightarrow> bool" where
  "compiled_from compile r c \<longleftrightarrow> crTool c = aaTool r \<and>
     (if aaPattern r = [] then crPattern c = None
      else \<exists>re. compile (aaPattern r) = Inr re \<and> crPattern c = Some re)"

lemma compiled_from_intros:
  "aaPattern r = [] \<Longrightarrow> compiled_from compile r \<lparr>crTool = aaTool r, crPattern = None\<rparr>"
  "aaPattern r \<noteq> [] \<Longrightarrow> compile (aaPattern r) = Inr re \<Longrightarrow>
     compiled_from compile r \<lparr>crTool = aaTool r, crPattern = Some re\<rparr>"
  by (simp_all add: compiled_from_def)

lemma CompileAutoRules_ok:
  "CompileAutoRules compile rs = Inr cs \<Longrightarrow> list_all2 (compiled_from compile) rs cs"
  by (induction rs arbitrary: cs)
     (auto simp: Let_def intro: compiled_from_intros split: if_splits sum.splits)

text \<open>Compiling the configured rules and matching a call against them approves the call
  exactly when some configured rule names its tool and has no pattern or a pattern that
  matches the description.\<close>

theorem auto_rules_correct:
  assumes "CompileAutoRules compile rs = Inr cs"
  shows "MatchAutoRule matches cs toolName d \<longleftrightarrow>
     list_ex (\<lambda>r. aaTool r = toolName \<and>
       (aaPattern r = '''' \<or> (case compile (aaPattern r) of Inl _ \<Rightarrow> False | Inr re \<Rightarrow> matches re d))) rs"
  using CompileAutoRules_ok [OF assms] unfolding MatchAutoRule_iff
  by (induction rs cs rule: list_all2_induct) (auto simp: compiled_from_def split: if_splits)

definition demo_rules :: "auto_approve_rule list" where
  "demo_rules = [\<lparr>aaTool = ''Bash'', aaPattern = ''ls''\<rparr>, \<lparr>aaTool = ''Read'', aaPattern = ''''\<rparr>]"

theorem auto_rules_correct_witness:
  "CompileAutoRules Inr demo_rules =
     Inr [\<lparr>crTool = ''Bash'', crPattern = Some ''ls''\<rparr>, \<lparr>crTool = ''Read'', crPattern = None\<rparr>] \<and>
   MatchAutoRule (\<lambda>re d. contains_str d re)
     [\<lparr>crTool = ''Bash'', crPattern = Some ''ls''\<rparr>, \<lparr>crTool = ''Read'', crPattern = None\<rparr>]
     ''Bash'' ''Run command: ls -l''"
proof -
  have h: "CompileAutoRules Inr demo_rules =
     Inr [\<lparr>crTool = ''Bash'', crPattern = Some ''ls''\<rparr>, \<lparr>crTool = ''Read'', crPattern = None\<rparr>]"
    by (simp add: demo_rules_def)
  show ?thesis
    using h auto_rules_correct [OF h, of "\<lambda>re d. contains_str d re" "''Bash''" "''Run command: ls -l''"]
    by (simp add: demo_rules_def has_prefix_def)
qed

end
