(* ===== verification/InFlight.thy ===== *)
theory InFlight
  imports WorldModel ApprovalText
begin

text \<open>
  The \<open>InFlightStore\<close> of \<open>internal/agent/async.go\<close>: the registry of running and finished
  tasks, the pipeline progress of each session and the world models.  Every method holds
  the store's lock for its whole body, so each is one atomic step on the store.  The event
  callback and the cancel functions are effects outside the store: an operation that calls
  them returns what it called.
\<close>

section \<open>The store\<close>

record inflight_store =
  tasks :: "string \<rightharpoonup> task_state"
  onEvent :: bool
  pipelineProgress :: "string \<rightharpoonup> (string \<rightharpoonup> (int \<rightharpoonup> bool))"
  pipelineStartTimes :: "string \<rightharpoonup> (string \<rightharpoonup> time)"
  pipelineDescriptions :: "string \<rightharpoonup> (string \<rightharpoonup> string)"
  worldModels :: "string \<rightharpoonup> world_model"

definition NewInFlightStore :: inflight_store where
  "NewInFlightStore =
     \<lparr>tasks = Map.empty, onEvent = False, pipelineProgress = Map.empty,
      pipelineStartTimes = Map.empty, pipelineDescriptions = Map.empty,
      worldModels = Map.empty\<rparr>"

definition GetOrCreateWorldModel ::
  "time \<Rightarrow> string \<Rightarrow> inflight_store \<Rightarrow> inflight_store \<times> world_model" where
  "GetOrCreateWorldModel now sid s =
     (case worldModels s sid of
        Some wm \<Rightarrow> (s, wm)
      | None \<Rightarrow> (let wm = NewWorldModel now sid
                 in (s\<lparr>worldModels := (worldModels s)(sid \<mapsto> wm)\<rparr>, wm)))"

definition GetWorldModel :: "string \<Rightarrow> inflight_store \<Rightarrow> world_model option" where
  "GetWorldModel sid s = worldModels s sid"

definition CleanupWorldModel :: "string \<Rightarrow> inflight_store \<Rightarrow> inflight_store" where
  "CleanupWorldModel sid s = s\<lparr>worldModels := (worldModels s)(sid := None)\<rparr>"

definition SetEventCallback :: "bool \<Rightarrow> inflight_store \<Rightarrow> inflight_store" where
  "SetEventCallback fn s = s\<lparr>onEvent := fn\<rparr>"

text \<open>A method that changes the task under an identifier, if there is one.\<close>

definition update_task :: "string \<Rightarrow> (task_state \<Rightarrow> task_state) \<Rightarrow> inflight_store \<Rightarrow> inflight_store" where
  "update_task tid f s =
     (case tasks s tid of None \<Rightarrow> s | Some t \<Rightarrow> s\<lparr>tasks := (tasks s)(tid \<mapsto> f t)\<rparr>)"

definition add_usage :: "int \<Rightarrow> int \<Rightarrow> int \<Rightarrow> token_usage option \<Rightarrow> token_usage option" where
  "add_usage i out tot u =
     (let u0 = (case u of None \<Rightarrow> \<lparr>Input = 0, Output = 0, Total = 0\<rparr> | Some u1 \<Rightarrow> u1)
      in Some \<lparr>Input = Input u0 + i, Output = Output u0 + out, Total = Total u0 + tot\<rparr>)"

definition add_event_to :: "task_event \<Rightarrow> task_state \<Rightarrow> task_state" where
  "add_event_to evt t =
     (let t1 = t\<lparr>Events := Events t @ [evt], TurnCount := evTurn evt\<rparr> in
      case evTokens evt of
        None \<Rightarrow> t1
      | Some u \<Rightarrow> t1\<lparr>TotalTokens := add_usage (Input u) (Output u) (Total u) (TotalTokens t1)\<rparr>)"

definition AddEvent ::
  "string \<Rightarrow> task_event \<Rightarrow> inflight_store \<Rightarrow> inflight_store \<times> (string \<times> task_event) list" where
  "AddEvent tid evt s =
     (update_task tid (add_event_to evt) s,
      if onEvent s \<and> tasks s tid \<noteq> None then [(tid, evt)] else [])"

definition Register ::
  "time \<Rightarrow> string \<Rightarrow> string \<Rightarrow> string \<Rightarrow> trigger_policy \<Rightarrow> string \<Rightarrow> string \<Rightarrow> string \<Rightarrow> int \<Rightarrow>
   inflight_store \<Rightarrow> inflight_store" where
  "Register now tid agentName task policy sid uid pipelineName pipelineStage s =
     s\<lparr>tasks := (tasks s)(tid \<mapsto> zero_task\<lparr>ID := tid, AgentName := agentName, Task := task,
         Status := TaskRunning, Policy := policy, SessionID := sid, UserID := uid,
         StartedAt := now, PipelineName := pipelineName, PipelineStage := pipelineStage\<rparr>)\<rparr>"

definition UpdateTask :: "string \<Rightarrow> string \<Rightarrow> inflight_store \<Rightarrow> inflight_store" where
  "UpdateTask tid task = update_task tid (\<lambda>t. t\<lparr>Task := task\<rparr>)"

definition Complete :: "time \<Rightarrow> string \<Rightarrow> string \<Rightarrow> inflight_store \<Rightarrow> inflight_store" where
  "Complete now tid result =
     update_task tid (\<lambda>t. t\<lparr>Status := TaskCompleted, Result := result, DoneAt := Some now\<rparr>)"

definition Fail :: "time \<Rightarrow> string \<Rightarrow> string \<Rightarrow> inflight_store \<Rightarrow> inflight_store" where
  "Fail now tid errMsg =
     update_task tid (\<lambda>t. if Status t = TaskCancelled then t
       else t\<lparr>Status := TaskFailed, Error := errMsg, DoneAt := Some now\<rparr>)"

definition AddTokenUsage :: "string \<Rightarrow> int \<Rightarrow> int \<Rightarrow> int \<Rightarrow> inflight_store \<Rightarrow> inflight_store" where
  "AddTokenUsage tid input output tot =
     update_task tid (\<lambda>t. t\<lparr>TotalTokens := add_usage input output tot (TotalTokens t)\<rparr>)"

definition Get :: "string \<Rightarrow> inflight_store \<Rightarrow> task_state option" where
  "Get tid s = tasks s tid"

text \<open>The methods that range over the task map take the order \<open>ks\<close> of the iteration.\<close>

definition List :: "string list \<Rightarrow> string \<Rightarrow> inflight_store \<Rightarrow> task_state list" where
  "List ks status s =
     filter (\<lambda>t. status = '''' \<or> status_str (Status t) = status) (List.map_filter (tasks s) ks)"

definition queued_done :: "task_state \<Rightarrow> bool" where
  "queued_done t \<longleftrightarrow> Policy t = TriggerQueue \<and>
     (Status t = TaskCompleted \<or> Status t = TaskFailed \<or> Status t = TaskCancelled)"

fun QueuedResults :: "string list \<Rightarrow> inflight_store \<Rightarrow> inflight_store \<times> task_state list" where
  "QueuedResults [] s = (s, [])"
| "QueuedResults (tid # ks) s =
     (case tasks s tid of
        None \<Rightarrow> QueuedResults ks s
      | Some t \<Rightarrow>
          if queued_done t then
            (let (s', out) = QueuedResults ks (s\<lparr>tasks := (tasks s)(tid := None)\<rparr>) in (s', t # out))
          else QueuedResults ks s)"

section \<open>Cancelling, approvals and external tasks\<close>

definition SetCancelFunc :: "string \<Rightarrow> string \<Rightarrow> inflight_store \<Rightarrow> inflight_store" where
  "SetCancelFunc tid fn = update_task tid (\<lambda>t. t\<lparr>cancelFn := Some fn\<rparr>)"

text \<open>The contexts \<open>Cancel\<close> cancels come third.\<close>

definition Cancel :: "time \<Rightarrow> string \<Rightarrow> inflight_store \<Rightarrow> inflight_store \<times> bool \<times> string list" where
  "Cancel now tid s =
     (case tasks s tid of
        None \<Rightarrow> (s, False, [])
      | Some t \<Rightarrow>
          if Status t \<noteq> TaskRunning then (s, False, [])
          else (s\<lparr>tasks := (tasks s)(tid \<mapsto> t\<lparr>Status := TaskCancelled, Error := ''cancelled by user'',
                  DoneAt := Some now\<rparr>)\<rparr>, True,
                case cancelFn t of None \<Rightarrow> [] | Some fn \<Rightarrow> [fn]))"

definition RegisterApproval ::
  "time \<Rightarrow> string \<Rightarrow> string \<Rightarrow> string \<Rightarrow> string \<Rightarrow> string \<Rightarrow> string \<Rightarrow> string \<Rightarrow> duration \<Rightarrow>
   inflight_store \<Rightarrow> inflight_store" where
  "RegisterApproval now tid skillName toolName args description sid uid timeout s =
     (let emailPreview = (if toolName = ''email'' then extractEmailPreview toolName args else None)
      in s\<lparr>tasks := (tasks s)(tid \<mapsto> zero_task\<lparr>ID := tid, AgentName := skillName,
           Task := description, Status := TaskPendingApproval, Policy := TriggerAuto,
           SessionID := sid, UserID := uid, StartedAt := now, External := True,
           TimeoutAt := Some (now + timeout),
           ApprovalRequest := Some \<lparr>arToolName = toolName, arArguments = args,
             arSkillName = skillName, arDescription = description, arRequestedAt = now,
             arEmailPreview = emailPreview\<rparr>\<rparr>)\<rparr>)"

definition RegisterExternal ::
  "time \<Rightarrow> string \<Rightarrow> string \<Rightarrow> string \<Rightarrow> trigger_policy \<Rightarrow> string \<Rightarrow> string \<Rightarrow> duration \<Rightarrow>
   inflight_store \<Rightarrow> inflight_store" where
  "RegisterExternal now tid name secret policy sid uid timeout s =
     s\<lparr>tasks := (tasks s)(tid \<mapsto> zero_task\<lparr>ID := tid, AgentName := ''external'', Task := name,
         Status := TaskRunning, Policy := policy, SessionID := sid, UserID := uid,
         StartedAt := now, External := True, CallbackSecret := secret,
         TimeoutAt := Some (now + timeout)\<rparr>)\<rparr>"

definition expired :: "time \<Rightarrow> task_state \<Rightarrow> bool" where
  "expired now t \<longleftrightarrow> External t \<and> (Status t = TaskRunning \<or> Status t = TaskPendingApproval) \<and>
     (case TimeoutAt t of None \<Rightarrow> False | Some at \<Rightarrow> at < now)"

definition time_out :: "time \<Rightarrow> task_state \<Rightarrow> task_state" where
  "time_out now t =
     t\<lparr>Status := TaskFailed, Error := ''timed out waiting for callback'', DoneAt := Some now\<rparr>"

text \<open>One tick of the reaper: the store, and the tasks its timeout callback is called with.\<close>

fun reapExpiredExternal ::
  "time \<Rightarrow> string list \<Rightarrow> inflight_store \<Rightarrow> inflight_store \<times> task_state list" where
  "reapExpiredExternal now [] s = (s, [])"
| "reapExpiredExternal now (tid # ks) s =
     (case tasks s tid of
        None \<Rightarrow> reapExpiredExternal now ks s
      | Some t \<Rightarrow>
          if expired now t then
            (let (s', out) = reapExpiredExternal now ks
                   (s\<lparr>tasks := (tasks s)(tid \<mapsto> time_out now t)\<rparr>)
             in (s', time_out now t # out))
          else reapExpiredExternal now ks s)"

section \<open>Pipeline progress\<close>

definition lookup2 :: "('a \<rightharpoonup> ('b \<rightharpoonup> 'c)) \<Rightarrow> 'a \<Rightarrow> 'b \<Rightarrow> 'c option" where
  "lookup2 m a b = (case m a of None \<Rightarrow> None | Some f \<Rightarrow> f b)"

definition update2 :: "'a \<Rightarrow> 'b \<Rightarrow> 'c \<Rightarrow> ('a \<rightharpoonup> ('b \<rightharpoonup> 'c)) \<Rightarrow> ('a \<rightharpoonup> ('b \<rightharpoonup> 'c))" where
  "update2 a b c m = m(a \<mapsto> (case m a of None \<Rightarrow> [b \<mapsto> c] | Some f \<Rightarrow> f(b \<mapsto> c)))"

definition RecordPipelineStage :: "string \<Rightarrow> string \<Rightarrow> int \<Rightarrow> inflight_store \<Rightarrow> inflight_store" where
  "RecordPipelineStage sid pname stage s =
     s\<lparr>pipelineProgress := update2 sid pname
         ((case lookup2 (pipelineProgress s) sid pname of None \<Rightarrow> Map.empty | Some st \<Rightarrow> st)
            (stage \<mapsto> True)) (pipelineProgress s)\<rparr>"

definition IsPipelineStageCompleted :: "string \<Rightarrow> string \<Rightarrow> int \<Rightarrow> inflight_store \<Rightarrow> bool" where
  "IsPipelineStageCompleted sid pname stage s =
     (case lookup2 (pipelineProgress s) sid pname of
        None \<Rightarrow> False
      | Some st \<Rightarrow> (case st stage of None \<Rightarrow> False | Some b \<Rightarrow> b))"

text \<open>The copy holds \<open>true\<close> for every recorded stage index.\<close>

definition PipelineProgress :: "inflight_store \<Rightarrow> (string \<rightharpoonup> (string \<rightharpoonup> (int \<rightharpoonup> bool)))" where
  "PipelineProgress s =
     (\<lambda>sid. map_option (\<lambda>pipes. \<lambda>p. map_option (\<lambda>stages. \<lambda>i. map_option (\<lambda>_. True) (stages i)) (pipes p))
        (pipelineProgress s sid))"

definition RecordPipelineStart ::
  "time \<Rightarrow> string \<Rightarrow> string \<Rightarrow> string \<Rightarrow> inflight_store \<Rightarrow> inflight_store" where
  "RecordPipelineStart now sid pname description s =
     (let times = (if lookup2 (pipelineStartTimes s) sid pname = None
                   then update2 sid pname now (pipelineStartTimes s)
                   else pipelineStartTimes s);
          stored = lookup2 (pipelineDescriptions s) sid pname;
          descs = (if stored = None \<or> stored = Some ''''
                   then update2 sid pname (truncate_str description 120) (pipelineDescriptions s)
                   else pipelineDescriptions s)
      in s\<lparr>pipelineStartTimes := times, pipelineDescriptions := descs\<rparr>)"

definition PipelineDescription :: "string \<Rightarrow> string \<Rightarrow> inflight_store \<Rightarrow> string" where
  "PipelineDescription sid pname s =
     (case lookup2 (pipelineDescriptions s) sid pname of None \<Rightarrow> '''' | Some d \<Rightarrow> d)"

definition PipelineElapsed :: "time \<Rightarrow> string \<Rightarrow> string \<Rightarrow> inflight_store \<Rightarrow> duration" where
  "PipelineElapsed now sid pname s =
     (case lookup2 (pipelineStartTimes s) sid pname of None \<Rightarrow> 0 | Some start \<Rightarrow> now - start)"

definition PipelineStartedAt :: "string \<Rightarrow> string \<Rightarrow> inflight_store \<Rightarrow> time option" where
  "PipelineStartedAt sid pname s = lookup2 (pipelineStartTimes s) sid pname"

section \<open>Reachable stores and their invariant\<close>

datatype store_op =
  OpRegister time string string string trigger_policy string string string int
| OpRegisterApproval time string string string string string string string duration
| OpRegisterExternal time string string string trigger_policy string string duration
| OpAddEvent string task_event
| OpUpdateTask string string
| OpComplete time string string
| OpFail time string string
| OpAddTokenUsage string int int int
| OpSetCancelFunc string string
| OpCancel time string
| OpReap time "string list"
| OpQueuedResults "string list"
| OpRecordStage string string int
| OpRecordStart time string string string
| OpWorldModel time string
| OpCleanup string

fun store_step :: "inflight_store \<Rightarrow> store_op \<Rightarrow> inflight_store" where
  "store_step s (OpRegister now tid a t p sid uid pn ps) = Register now tid a t p sid uid pn ps s"
| "store_step s (OpRegisterApproval now tid sk tn args d sid uid to) =
     RegisterApproval now tid sk tn args d sid uid to s"
| "store_step s (OpRegisterExternal now tid n sec p sid uid to) =
     RegisterExternal now tid n sec p sid uid to s"
| "store_step s (OpAddEvent tid e) = fst (AddEvent tid e s)"
| "store_step s (OpUpdateTask tid t) = UpdateTask tid t s"
| "store_step s (OpComplete now tid r) = Complete now tid r s"
| "store_step s (OpFail now tid e) = Fail now tid e s"
| "store_step s (OpAddTokenUsage tid i out tot) = AddTokenUsage tid i out tot s"
| "store_step s (OpSetCancelFunc tid f) = SetCancelFunc tid f s"
| "store_step s (OpCancel now tid) = fst (Cancel now tid s)"
| "store_step s (OpReap now ks) = fst (reapExpiredExternal now ks s)"
| "store_step s (OpQueuedResults ks) = fst (QueuedResults ks s)"
| "store_step s (OpRecordStage sid p i) = RecordPipelineStage sid p i s"
| "store_step s (OpRecordStart now sid p d) = RecordPipelineStart now sid p d s"
| "store_step s (OpWorldModel now sid) = fst (GetOrCreateWorldModel now sid s)"
| "store_step s (OpCleanup sid) = CleanupWorldModel sid s"

definition store_run :: "inflight_store \<Rightarrow> store_op list \<Rightarrow> inflight_store" where
  "store_run s ops = foldl store_step s ops"

lemma store_run_simps [simp]:
  "store_run s [] = s" "store_run s (x # xs) = store_run (store_step s x) xs"
  by (simp_all add: store_run_def)

definition terminal :: "task_status \<Rightarrow> bool" where
  "terminal st \<longleftrightarrow> st = TaskCompleted \<or> st = TaskFailed \<or> st = TaskCancelled"

text \<open>
  A stored task sits under its own identifier, has a finishing time exactly when its
  status is final, has a deadline exactly when it is external, and carries an approval
  request when it waits for one.
\<close>

definition task_ok :: "string \<Rightarrow> task_state \<Rightarrow> bool" where
  "task_ok tid t \<longleftrightarrow>
     ID t = tid \<and>
     (DoneAt t \<noteq> None \<longleftrightarrow> terminal (Status t)) \<and>
     (TimeoutAt t \<noteq> None \<longleftrightarrow> External t) \<and>
     (Status t = TaskPendingApproval \<longrightarrow> External t \<and> ApprovalRequest t \<noteq> None)"

definition store_ok :: "inflight_store \<Rightarrow> bool" where
  "store_ok s \<longleftrightarrow> (\<forall>tid t. tasks s tid = Some t \<longrightarrow> task_ok tid t)"

lemma tasks_update_task:
  "tasks (update_task tid f s) = (\<lambda>k. if k = tid then map_option f (tasks s tid) else tasks s k)"
  by (auto simp: update_task_def split: option.split)

lemma store_ok_update_task:
  assumes "store_ok s" and "\<And>t. task_ok tid t \<Longrightarrow> task_ok tid (f t)"
  shows "store_ok (update_task tid f s)"
  using assms by (auto simp: store_ok_def tasks_update_task split: if_splits)

lemma store_ok_put:
  "store_ok s \<Longrightarrow> task_ok tid t \<Longrightarrow> store_ok (s\<lparr>tasks := (tasks s)(tid \<mapsto> t)\<rparr>)"
  by (simp add: store_ok_def)

lemma tasks_reap:
  "tasks (fst (reapExpiredExternal now ks s)) =
     (\<lambda>k. if k \<in> set ks then map_option (\<lambda>t. if expired now t then time_out now t else t) (tasks s k)
          else tasks s k)"
proof (induction now ks s rule: reapExpiredExternal.induct)
  case (2 now tid ks s)
  have once: "\<not> expired now (time_out now t)" for t
    by (simp add: expired_def time_out_def)
  show ?case
    using "2.IH" once
    by (auto simp: fun_eq_iff split: option.split prod.split)
qed auto

lemma tasks_queued:
  "tasks (fst (QueuedResults ks s)) =
     (\<lambda>k. if k \<in> set ks \<and> (case tasks s k of None \<Rightarrow> False | Some t \<Rightarrow> queued_done t)
          then None else tasks s k)"
proof (induction ks s rule: QueuedResults.induct)
  case (2 tid ks s)
  then show ?case
    by (auto simp: fun_eq_iff split: option.splits prod.splits)
qed auto

lemma task_ok_frame:
  "task_ok tid t \<Longrightarrow> task_ok tid (add_event_to e t)"
  "task_ok tid t \<Longrightarrow> task_ok tid (t\<lparr>Task := d\<rparr>)"
  "task_ok tid t \<Longrightarrow> task_ok tid (t\<lparr>TotalTokens := u\<rparr>)"
  "task_ok tid t \<Longrightarrow> task_ok tid (t\<lparr>cancelFn := c\<rparr>)"
  by (simp_all add: task_ok_def add_event_to_def Let_def split: option.split)

lemma task_ok_final:
  "task_ok tid t \<Longrightarrow> task_ok tid (t\<lparr>Status := TaskCompleted, Result := r, DoneAt := Some now\<rparr>)"
  "task_ok tid t \<Longrightarrow> task_ok tid (t\<lparr>Status := TaskFailed, Error := r, DoneAt := Some now\<rparr>)"
  "task_ok tid t \<Longrightarrow> task_ok tid (t\<lparr>Status := TaskCancelled, Error := r, DoneAt := Some now\<rparr>)"
  "task_ok tid t \<Longrightarrow> task_ok tid (time_out now t)"
  by (simp_all add: task_ok_def terminal_def time_out_def)

lemma store_ok_new: "store_ok NewInFlightStore"
  by (simp add: store_ok_def NewInFlightStore_def)

lemma store_ok_step:
  assumes ok: "store_ok s"
  shows "store_ok (store_step s x)"
proof (cases x)
  case (OpRegister now tid a t p sid uid pn ps)
  then show ?thesis
    using ok by (simp add: Register_def store_ok_put task_ok_def zero_task_def terminal_def)
next
  case (OpRegisterApproval now tid sk tn args d sid uid to)
  then show ?thesis
    using ok by (simp add: RegisterApproval_def Let_def store_ok_put task_ok_def zero_task_def terminal_def)
next
  case (OpRegisterExternal now tid n sec p sid uid to)
  then show ?thesis
    using ok by (simp add: RegisterExternal_def store_ok_put task_ok_def zero_task_def terminal_def)
next
  case (OpReap now ks)
  then show ?thesis
    using ok by (auto simp: store_ok_def tasks_reap task_ok_final split: if_splits)
next
  case (OpQueuedResults ks)
  then show ?thesis
    using ok by (auto simp: store_ok_def tasks_queued split: if_splits)
next
  case (OpCancel now tid)
  then show ?thesis
    using ok by (auto simp: Cancel_def store_ok_def task_ok_final split: option.split)
next
  case (OpRecordStart now sid p d)
  then show ?thesis
    using ok by (simp add: RecordPipelineStart_def Let_def store_ok_def)
next
  case (OpWorldModel now sid)
  then show ?thesis
    using ok by (simp add: GetOrCreateWorldModel_def Let_def store_ok_def split: option.split)
next
  case (OpRecordStage sid p i)
  then show ?thesis using ok by (simp add: RecordPipelineStage_def store_ok_def)
next
  case (OpCleanup sid)
  then show ?thesis using ok by (simp add: CleanupWorldModel_def store_ok_def)
qed (use ok in \<open>simp_all add: AddEvent_def UpdateTask_def Complete_def Fail_def AddTokenUsage_def
      SetCancelFunc_def store_ok_update_task task_ok_frame task_ok_final\<close>)

lemma store_ok_run: "store_ok s \<Longrightarrow> store_ok (store_run s ops)"
  by (induction ops arbitrary: s) (simp_all add: store_ok_step)

section \<open>What the store promises\<close>

text \<open>C14. In every store the program can reach, each task sits under its own identifier, has
  a finishing time exactly when its status is completed, failed or cancelled, has a
  deadline exactly when it is external, and carries its approval request while it waits
  for approval.\<close>

theorem inflight_invariant:
  "store_ok (store_run NewInFlightStore ops)"
  by (rule store_ok_run [OF store_ok_new])

definition usage_sum :: "(token_usage \<Rightarrow> int) \<Rightarrow> token_usage option \<Rightarrow> int" where
  "usage_sum f u = (case u of None \<Rightarrow> 0 | Some v \<Rightarrow> f v)"

definition add_events :: "string \<Rightarrow> task_event list \<Rightarrow> inflight_store \<Rightarrow> inflight_store" where
  "add_events tid evts s = foldl (\<lambda>s e. fst (AddEvent tid e s)) s evts"

lemma add_event_to_fields:
  "Events (add_event_to e t) = Events t @ [e]"
  "TurnCount (add_event_to e t) = evTurn e"
  "Status (add_event_to e t) = Status t"
  "usage_sum Input (TotalTokens (add_event_to e t)) =
     usage_sum Input (TotalTokens t) + usage_sum Input (evTokens e)"
  "usage_sum Output (TotalTokens (add_event_to e t)) =
     usage_sum Output (TotalTokens t) + usage_sum Output (evTokens e)"
  "usage_sum Total (TotalTokens (add_event_to e t)) =
     usage_sum Total (TotalTokens t) + usage_sum Total (evTokens e)"
  by (simp_all add: add_event_to_def usage_sum_def add_usage_def Let_def split: option.split)

text \<open>Recording a list of events on a task appends them in order, sets the turn counter to
  that of the last one, adds up exactly their token counts, and leaves the status and every
  other task alone.\<close>

theorem event_accounting:
  assumes "tasks s tid = Some t"
  shows "\<exists>t'. tasks (add_events tid evts s) = (tasks s)(tid \<mapsto> t') \<and>
     Events t' = Events t @ evts \<and> Status t' = Status t \<and>
     TurnCount t' = (if evts = [] then TurnCount t else evTurn (last evts)) \<and>
     usage_sum Input (TotalTokens t') =
       usage_sum Input (TotalTokens t) + (\<Sum>e\<leftarrow>evts. usage_sum Input (evTokens e)) \<and>
     usage_sum Output (TotalTokens t') =
       usage_sum Output (TotalTokens t) + (\<Sum>e\<leftarrow>evts. usage_sum Output (evTokens e)) \<and>
     usage_sum Total (TotalTokens t') =
       usage_sum Total (TotalTokens t) + (\<Sum>e\<leftarrow>evts. usage_sum Total (evTokens e))"
  using assms
proof (induction evts arbitrary: s t)
  case Nil
  then show ?case by (intro exI [of _ t]) (simp add: add_events_def map_upd_triv)
next
  case (Cons e es)
  let ?s = "fst (AddEvent tid e s)" and ?t = "add_event_to e t"
  have map: "tasks ?s = (tasks s)(tid \<mapsto> ?t)"
    using Cons.prems by (auto simp: AddEvent_def tasks_update_task)
  then have "tasks ?s tid = Some ?t" by simp
  from Cons.IH [OF this] obtain t' where
    "tasks (add_events tid es ?s) = (tasks s)(tid \<mapsto> t')" "Events t' = Events t @ e # es"
    "Status t' = Status t" "TurnCount t' = (if es = [] then evTurn e else evTurn (last es))"
    "usage_sum Input (TotalTokens t') = usage_sum Input (TotalTokens t) +
       (usage_sum Input (evTokens e) + (\<Sum>e\<leftarrow>es. usage_sum Input (evTokens e)))"
    "usage_sum Output (TotalTokens t') = usage_sum Output (TotalTokens t) +
       (usage_sum Output (evTokens e) + (\<Sum>e\<leftarrow>es. usage_sum Output (evTokens e)))"
    "usage_sum Total (TotalTokens t') = usage_sum Total (TotalTokens t) +
       (usage_sum Total (evTokens e) + (\<Sum>e\<leftarrow>es. usage_sum Total (evTokens e)))"
    unfolding map fun_upd_upd by (auto simp: add_event_to_fields simp del: fun_upd_apply)
  then show ?case by (intro exI [of _ t']) (simp add: add_events_def)
qed

definition demo_task :: task_state where
  "demo_task = zero_task\<lparr>ID := ''a'', Policy := ''queue''\<rparr>"

definition demo_store :: inflight_store where
  "demo_store = NewInFlightStore\<lparr>tasks := [''a'' \<mapsto> demo_task]\<rparr>"

definition demo_event :: task_event where
  "demo_event = \<lparr>evTimestamp = 1, evType = ''response'', evTurn = 1, evTools = [], evContent = '''',
     evTokens = Some \<lparr>Input = 3, Output = 4, Total = 7\<rparr>\<rparr>"

theorem event_accounting_witness:
  "\<exists>t'. tasks (add_events ''a'' [demo_event, demo_event] demo_store) ''a'' = Some t' \<and>
     usage_sum Total (TotalTokens t') = 14"
proof -
  have h: "tasks demo_store ''a'' = Some demo_task" by (simp add: demo_store_def)
  from event_accounting [OF h, of "[demo_event, demo_event]"] show ?thesis
    by (auto simp: usage_sum_def demo_event_def demo_task_def zero_task_def)
qed

lemma map_filter_upd: "k \<notin> set ks \<Longrightarrow> List.map_filter (m(k := v)) ks = List.map_filter m ks"
  by (induction ks) (auto simp: map_filter_simps split: option.split)

lemma snd_queued:
  "distinct ks \<Longrightarrow> snd (QueuedResults ks s) = filter queued_done (List.map_filter (tasks s) ks)"
proof (induction ks s rule: QueuedResults.induct)
  case (2 tid ks s)
  have drop: "snd (QueuedResults ks (s\<lparr>tasks := (tasks s)(tid := None)\<rparr>)) =
      filter queued_done (List.map_filter (tasks s) ks)"
    if "tasks s tid = Some t" "queued_done t" for t
    using "2.IH"(2) [OF that] "2.prems" map_filter_upd [of tid ks "tasks s" None]
    by (simp del: fun_upd_apply)
  show ?case
  proof (cases "tasks s tid")
    case None
    with 2 show ?thesis by (simp add: map_filter_simps)
  next
    case (Some t)
    with 2 drop [OF Some] show ?thesis
      by (simp add: map_filter_simps case_prod_beta)
  qed
qed (simp add: map_filter_simps)

lemma map_filter_set: "set (List.map_filter f xs) = {y. \<exists>x \<in> set xs. f x = Some y}"
  by (induction xs) (auto simp: map_filter_simps split: option.splits)

lemma length_filter_map_filter:
  "length (filter P (List.map_filter f ks)) =
     length (filter (\<lambda>k. case f k of None \<Rightarrow> False | Some t \<Rightarrow> P t) ks)"
  by (induction ks) (auto simp: map_filter_simps split: option.split)

text \<open>Whatever order Go ranges over the task map in, \<open>QueuedResults\<close> hands out exactly the
  finished tasks with queue policy, removes exactly those, and a second call returns
  nothing: a queued result is delivered once.\<close>

theorem queued_results_once:
  assumes "enumerates ks (tasks s)"
  shows "set (snd (QueuedResults ks s)) = {t. \<exists>tid. tasks s tid = Some t \<and> queued_done t} \<and>
    length (snd (QueuedResults ks s)) =
      length (filter (\<lambda>k. case tasks s k of None \<Rightarrow> False | Some t \<Rightarrow> queued_done t) ks) \<and>
    tasks (fst (QueuedResults ks s)) =
      (\<lambda>k. case tasks s k of None \<Rightarrow> None | Some t \<Rightarrow> if queued_done t then None else Some t) \<and>
    (\<forall>ks'. distinct ks' \<longrightarrow> snd (QueuedResults ks' (fst (QueuedResults ks s))) = [])"
proof -
  have ks: "distinct ks" "set ks = dom (tasks s)" using assms by (simp_all add: enumerates_def)
  have out: "set (snd (QueuedResults ks s)) = {t. \<exists>tid. tasks s tid = Some t \<and> queued_done t}"
    using ks by (auto simp: snd_queued map_filter_set)
  have len: "length (snd (QueuedResults ks s)) =
      length (filter (\<lambda>k. case tasks s k of None \<Rightarrow> False | Some t \<Rightarrow> queued_done t) ks)"
    using ks(1) by (simp add: snd_queued length_filter_map_filter)
  have left: "tasks (fst (QueuedResults ks s)) =
      (\<lambda>k. case tasks s k of None \<Rightarrow> None | Some t \<Rightarrow> if queued_done t then None else Some t)"
    using ks by (auto simp: tasks_queued fun_eq_iff split: option.split)
  have "snd (QueuedResults ks' (fst (QueuedResults ks s))) = []" if "distinct ks'" for ks'
    using ks that by (auto simp: snd_queued left map_filter_set filter_empty_conv
        split: if_splits option.splits)
  with out len left show ?thesis by blast
qed

theorem queued_results_once_witness:
  "enumerates [''a''] (tasks demo_store) \<and>
   tasks (fst (QueuedResults [''a''] (Complete 1 ''a'' ''r'' demo_store))) ''a'' = None"
proof -
  let ?s = "Complete 1 ''a'' ''r'' demo_store"
  have h: "enumerates [''a''] (tasks ?s)" "enumerates [''a''] (tasks demo_store)"
    by (auto simp: enumerates_def Complete_def tasks_update_task demo_store_def split: if_splits)
  from queued_results_once [OF h(1)] h(2) show ?thesis
    by (simp add: Complete_def tasks_update_task demo_store_def demo_task_def zero_task_def
        queued_done_def TriggerQueue_def)
qed

lemma map_filter_upd_same:
  "distinct ks \<Longrightarrow> k \<notin> set ks \<Longrightarrow>
     filter P (List.map_filter (m(k := v)) ks) = filter P (List.map_filter m ks)"
  by (simp add: map_filter_upd del: fun_upd_apply)

lemma snd_reap:
  "distinct ks \<Longrightarrow> snd (reapExpiredExternal now ks s) =
     map (time_out now) (filter (expired now) (List.map_filter (tasks s) ks))"
proof (induction now ks s rule: reapExpiredExternal.induct)
  case (2 now tid ks s)
  have put: "snd (reapExpiredExternal now ks (s\<lparr>tasks := (tasks s)(tid \<mapsto> time_out now t)\<rparr>)) =
      map (time_out now) (filter (expired now) (List.map_filter (tasks s) ks))"
    if "tasks s tid = Some t" "expired now t" for t
    using "2.IH"(2) [OF that] "2.prems" by (simp add: map_filter_upd_same del: fun_upd_apply)
  show ?case
  proof (cases "tasks s tid")
    case None
    with 2 show ?thesis by (simp add: map_filter_simps)
  next
    case (Some t)
    with 2 put [OF Some] show ?thesis
      by (simp add: map_filter_simps case_prod_beta)
  qed
qed (simp add: map_filter_simps)

text \<open>One tick of the reaper fails exactly the external tasks whose deadline has passed
  while they were running or waiting for approval, reports exactly those to the timeout
  callback, and leaves every other task as it was; a second tick at the same time reports
  nothing, so a timeout is reported once.\<close>

theorem reaper_exact:
  assumes "enumerates ks (tasks s)"
  shows "tasks (fst (reapExpiredExternal now ks s)) =
      (\<lambda>k. map_option (\<lambda>t. if expired now t then time_out now t else t) (tasks s k)) \<and>
    set (snd (reapExpiredExternal now ks s)) =
      {time_out now t | k t. tasks s k = Some t \<and> expired now t} \<and>
    snd (reapExpiredExternal now ks (fst (reapExpiredExternal now ks s))) = []"
proof -
  have ks: "distinct ks" "set ks = dom (tasks s)" using assms by (simp_all add: enumerates_def)
  have once: "\<not> expired now (time_out now t)" for t
    by (simp add: expired_def time_out_def)
  have map: "tasks (fst (reapExpiredExternal now ks s)) =
      (\<lambda>k. map_option (\<lambda>t. if expired now t then time_out now t else t) (tasks s k))"
    using ks(2) by (auto simp: tasks_reap fun_eq_iff map_option_case domIff split: option.split)
  have out: "set (snd (reapExpiredExternal now ks s)) =
      {time_out now t | k t. tasks s k = Some t \<and> expired now t}"
    using ks by (force simp: snd_reap map_filter_set)
  have "snd (reapExpiredExternal now ks (fst (reapExpiredExternal now ks s))) = []"
    using ks(1) once by (auto simp: snd_reap map map_filter_set filter_empty_conv split: if_splits)
  with map out show ?thesis by blast
qed

theorem reaper_exact_witness:
  "enumerates [''x''] (tasks (RegisterExternal 0 ''x'' ''n'' '''' ''auto'' ''s'' ''u'' 10 NewInFlightStore)) \<and>
   map_option Status (tasks (fst (reapExpiredExternal 11 [''x'']
     (RegisterExternal 0 ''x'' ''n'' '''' ''auto'' ''s'' ''u'' 10 NewInFlightStore))) ''x'') = Some TaskFailed"
proof -
  let ?s = "RegisterExternal 0 ''x'' ''n'' '''' ''auto'' ''s'' ''u'' 10 NewInFlightStore"
  have h: "enumerates [''x''] (tasks ?s)"
    by (auto simp: enumerates_def RegisterExternal_def NewInFlightStore_def split: if_splits)
  from reaper_exact [OF h, of 11] h show ?thesis
    by (simp add: RegisterExternal_def NewInFlightStore_def expired_def zero_task_def time_out_def)
qed

text \<open>The operations that may give a task under \<open>tid\<close> another life: registering it again,
  completing it, and handing it out as a queued result.\<close>

fun revives :: "string \<Rightarrow> store_op \<Rightarrow> bool" where
  "revives tid (OpRegister _ k _ _ _ _ _ _ _) = (k = tid)"
| "revives tid (OpRegisterApproval _ k _ _ _ _ _ _ _) = (k = tid)"
| "revives tid (OpRegisterExternal _ k _ _ _ _ _ _) = (k = tid)"
| "revives tid (OpComplete _ k _) = (k = tid)"
| "revives tid (OpQueuedResults ks) = (tid \<in> set ks)"
| "revives tid _ = False"

definition cancelled_in :: "string \<Rightarrow> inflight_store \<Rightarrow> bool" where
  "cancelled_in tid s \<longleftrightarrow>
     (case tasks s tid of None \<Rightarrow> False
      | Some t \<Rightarrow> Status t = TaskCancelled \<and> Error t = ''cancelled by user'')"

lemma cancelled_in_step:
  assumes "cancelled_in tid s" and "\<not> revives tid x"
  shows "cancelled_in tid (store_step s x)"
proof -
  from assms(1) obtain t where t: "tasks s tid = Some t" "Status t = TaskCancelled"
      "Error t = ''cancelled by user''"
    by (auto simp: cancelled_in_def split: option.splits)
  have ev: "Error (add_event_to e t) = Error t" for e
    by (simp add: add_event_to_def Let_def split: option.split)
  show ?thesis
    using assms(2) t
    by (cases x)
       (auto simp: cancelled_in_def tasks_update_task AddEvent_def UpdateTask_def Complete_def
         Fail_def AddTokenUsage_def SetCancelFunc_def Register_def RegisterApproval_def
         RegisterExternal_def Let_def add_event_to_fields ev Cancel_def tasks_reap tasks_queued
         expired_def RecordPipelineStage_def RecordPipelineStart_def GetOrCreateWorldModel_def
         CleanupWorldModel_def split: option.splits)
qed

text \<open>C15. A successful \<open>Cancel\<close> is final against everything but a completion, a new
  registration or the delivery of the queued result: later failures, timeouts, events and
  further cancels leave the task cancelled with the message of the first cancel.\<close>

theorem cancel_is_final:
  assumes "Cancel now tid s = (s', True, fns)"
    and "list_all (\<lambda>x. \<not> revives tid x) ops"
  shows "cancelled_in tid (store_run s' ops)"
proof -
  have "cancelled_in tid s'"
    using assms(1) by (auto simp: Cancel_def cancelled_in_def split: option.splits if_splits)
  with assms(2) show ?thesis
    by (induction ops arbitrary: s') (auto intro: cancelled_in_step)
qed

theorem cancel_is_final_witness:
  "cancelled_in ''a'' (store_run (fst (Cancel 5 ''a'' demo_store)) [OpFail 6 ''a'' ''late'', OpCancel 7 ''a''])"
proof -
  have h: "Cancel 5 ''a'' demo_store = (fst (Cancel 5 ''a'' demo_store), True, [])"
    by (simp add: Cancel_def demo_store_def demo_task_def zero_task_def)
  show ?thesis by (rule cancel_is_final [OF h]) simp
qed

text \<open>A completion that arrives after a cancel overwrites it: the task ends up completed
  with the cancel's error message still in place.  \<open>Fail\<close> guards against this, \<open>Complete\<close>
  does not.\<close>

theorem late_complete_overwrites_cancel:
  assumes "Cancel now tid s = (s', True, fns)"
  shows "\<exists>t. tasks (Complete later tid result s') tid = Some t \<and>
     Status t = TaskCompleted \<and> Error t = ''cancelled by user'' \<and> Result t = result"
  using assms
  by (auto simp: Cancel_def Complete_def tasks_update_task split: option.splits if_splits)

theorem late_complete_overwrites_cancel_witness:
  "\<exists>t. tasks (Complete 6 ''a'' ''r'' (fst (Cancel 5 ''a'' demo_store))) ''a'' = Some t \<and>
     Status t = TaskCompleted"
proof -
  have h: "Cancel 5 ''a'' demo_store = (fst (Cancel 5 ''a'' demo_store), True, [])"
    by (simp add: Cancel_def demo_store_def demo_task_def zero_task_def)
  from late_complete_overwrites_cancel [OF h, of 6 "''r''"] show ?thesis by blast
qed

end
