(* ===== verification/Pipeline.thy ===== *)
theory Pipeline
  imports InFlight
begin

text \<open>
  \<open>internal/pipeline/pipeline.go\<close> and \<open>internal/agent/pipeline_status.go\<close>: pipeline
  definitions, the instruction text made from them, the map from an agent to its stage, and
  the progress report.  Reading a directory and a file and parsing YAML are arguments
  (\<open>read_dir\<close>, \<open>read_file\<close>, \<open>yaml_unmarshal\<close>).
\<close>

section \<open>Definitions of pipelines\<close>

record stage =
  Agent :: string
  StageDescription :: string
  OnFail :: string
  MaxRetries :: int

record pipeline =
  Name :: string
  Description :: string
  Trigger :: string
  Stages :: "stage list"

record dir_entry =
  deName :: string
  deIsDir :: bool

datatype read_dir_result = NotExist | ReadError string | Entries "dir_entry list"

text \<open>The last element of a slash-separated path, as \<open>filepath.Base\<close> of a joined path.\<close>

definition base_name :: "string \<Rightarrow> string" where
  "base_name path = last (split_on (CHR ''/'') path)"

definition loadFile ::
  "(string \<Rightarrow> string go_result) \<Rightarrow> (string \<Rightarrow> pipeline go_result) \<Rightarrow> string \<Rightarrow> pipeline go_result" where
  "loadFile read_file yaml_unmarshal path =
     (case read_file path of
        Inl e \<Rightarrow> Inl e
      | Inr data \<Rightarrow>
          (case yaml_unmarshal data of
             Inl e \<Rightarrow> Inl (''parse '' @ base_name path @ '': '' @ e)
           | Inr p \<Rightarrow>
               if Name p = '''' then Inl (base_name path @ '': pipeline name is required'')
               else if Stages p = [] then
                 Inl (base_name path @ '': pipeline must have at least one stage'')
               else Inr p))"

fun load_entries ::
  "(string \<Rightarrow> string go_result) \<Rightarrow> (string \<Rightarrow> pipeline go_result) \<Rightarrow> string \<Rightarrow> dir_entry list \<Rightarrow>
   (pipeline list) go_result" where
  "load_entries read_file yaml_unmarshal dir [] = Inr []"
| "load_entries read_file yaml_unmarshal dir (e # es) =
     (if deIsDir e \<or> (\<not> has_suffix (deName e) ''.yaml'' \<and> \<not> has_suffix (deName e) ''.yml'')
      then load_entries read_file yaml_unmarshal dir es
      else case loadFile read_file yaml_unmarshal (dir @ ''/'' @ deName e) of
             Inl err \<Rightarrow> Inl (''load '' @ deName e @ '': '' @ err)
           | Inr p \<Rightarrow>
               (case load_entries read_file yaml_unmarshal dir es of
                  Inl err \<Rightarrow> Inl err
                | Inr ps \<Rightarrow> Inr (p # ps)))"

definition LoadAll ::
  "(string \<Rightarrow> read_dir_result) \<Rightarrow> (string \<Rightarrow> string go_result) \<Rightarrow> (string \<Rightarrow> pipeline go_result) \<Rightarrow>
   string \<Rightarrow> (pipeline list) go_result" where
  "LoadAll read_dir read_file yaml_unmarshal dir =
     (case read_dir dir of
        NotExist \<Rightarrow> Inr []
      | ReadError e \<Rightarrow> Inl (''read pipeline dir '' @ dir @ '': '' @ e)
      | Entries es \<Rightarrow> load_entries read_file yaml_unmarshal dir es)"

section \<open>The coordinator's instruction\<close>

definition titleCase :: "string \<Rightarrow> string" where
  "titleCase s =
     join_str '' '' (map (\<lambda>p. case p of [] \<Rightarrow> [] | c # r \<Rightarrow> upper_char c # r) (split_on (CHR ''_'') s))"

definition backquote :: "string \<Rightarrow> string" where
  "backquote s = [char_of (96::nat)] @ s @ [char_of (96::nat)]"

definition dquote :: string where
  "dquote = [char_of (34::nat)]"

definition stage_lines :: "pipeline \<Rightarrow> string" where
  "stage_lines p = concat (map (\<lambda>(i, s).
     itoa (int i + 1) @ ''. Dispatch '' @ backquote (Agent s) @ '' with '' @
     backquote (''pipeline: '' @ quote (Name p)) @ '' '' @ em_dash @ '' '' @ StageDescription s @ newline)
     (enumerate 0 (Stages p)))"

definition retry_lines :: "pipeline \<Rightarrow> string" where
  "retry_lines p = concat (map (\<lambda>s.
     if OnFail s = '''' then ''''
     else (let retries = (if MaxRetries s = 0 then 3 else MaxRetries s) in
       newline @ ''If '' @ backquote (Agent s) @ '' reports failure: re-dispatch '' @
       backquote (OnFail s) @ '', then '' @ backquote (Agent s) @ '' again (max '' @ itoa retries @
       '' loops).'' @ newline)) (Stages p))"

definition pipeline_section :: "pipeline \<Rightarrow> string" where
  "pipeline_section p =
     newline @ ''#### '' @ titleCase (Name p) @ newline @ newline @
     ''Useful for: '' @ Trigger p @ newline @ newline @
     ''When using this workflow, follow stages in order. Set '' @
     backquote (''pipeline: '' @ quote (Name p)) @ '' on each '' @ backquote ''dispatch_task'' @
     '' call.'' @ newline @ newline @
     stage_lines p @ retry_lines p @
     newline @ ''Use '' @ backquote ''dispatch_task'' @ '' with '' @ backquote ''policy=auto'' @
     '' and '' @ backquote (''pipeline='' @ dquote @ Name p @ dquote) @ '' for each stage.'' @ newline @
     ''Stages are sequential '' @ em_dash @
     '' wait for each to complete before dispatching the next.'' @ newline @
     ''If a stage fails or is cancelled, retry by dispatching the same agent again.'' @ newline @
     ''Do NOT restart from stage 1 unless the user explicitly asks.'' @ newline"

definition BuildInstruction :: "pipeline list \<Rightarrow> string" where
  "BuildInstruction ps = concat (map pipeline_section ps)"

section \<open>Agents and stages\<close>

record pipeline_agent =
  paPipeline :: string
  paStage :: nat

fun add_stages ::
  "string \<Rightarrow> nat \<Rightarrow> stage list \<Rightarrow> (string \<rightharpoonup> pipeline_agent) \<Rightarrow> (string \<rightharpoonup> pipeline_agent)" where
  "add_stages pname i [] m = m"
| "add_stages pname i (s # ss) m =
     add_stages pname (Suc i) ss
       (if m (Agent s) = None then m(Agent s \<mapsto> \<lparr>paPipeline = pname, paStage = i + 1\<rparr>) else m)"

fun AgentSet_from ::
  "pipeline list \<Rightarrow> (string \<rightharpoonup> pipeline_agent) \<Rightarrow> (string \<rightharpoonup> pipeline_agent)" where
  "AgentSet_from [] m = m"
| "AgentSet_from (p # ps) m = AgentSet_from ps (add_stages (Name p) 0 (Stages p) m)"

definition AgentSet :: "pipeline list \<Rightarrow> (string \<rightharpoonup> pipeline_agent)" where
  "AgentSet ps = AgentSet_from ps Map.empty"

fun FindAgentAtStage :: "pipeline list \<Rightarrow> string \<Rightarrow> nat \<Rightarrow> string" where
  "FindAgentAtStage [] pname stage = ''''"
| "FindAgentAtStage (p # ps) pname stage =
     (if Name p = pname \<and> 1 \<le> stage \<and> stage \<le> length (Stages p)
      then Agent (Stages p ! (stage - 1)) else FindAgentAtStage ps pname stage)"

section \<open>The progress report\<close>

record pipeline_stage_info =
  siStage :: nat
  siAgent :: string
  siDescription :: string
  siStatus :: string

record pipeline_info =
  piName :: string
  piDescription :: string
  piTaskDescription :: string
  piSessionID :: string
  piStages :: "pipeline_stage_info list"

definition stage_status ::
  "task_state list \<Rightarrow> string \<Rightarrow> (int \<rightharpoonup> bool) option \<Rightarrow> nat \<Rightarrow> string \<Rightarrow> string" where
  "stage_status running sid completed i ag =
     (if (case completed of None \<Rightarrow> False | Some c \<Rightarrow> c (int i + 1) = Some True) then ''completed''
      else if sid \<noteq> '''' \<and> list_ex (\<lambda>t. SessionID t = sid \<and> AgentName t = ag) running then ''running''
      else if sid = '''' \<and> list_ex (\<lambda>t. AgentName t = ag) running then ''running''
      else ''pending'')"

definition buildStages ::
  "task_state list \<Rightarrow> pipeline \<Rightarrow> string \<Rightarrow> (int \<rightharpoonup> bool) option \<Rightarrow> pipeline_stage_info list" where
  "buildStages running p sid completed =
     map (\<lambda>(i, s). \<lparr>siStage = i + 1, siAgent = Agent s, siDescription = StageDescription s,
                    siStatus = stage_status running sid completed i (Agent s)\<rparr>)
       (enumerate 0 (Stages p))"

text \<open>\<open>ks\<close> is the order of the task map, \<open>sids\<close> that of the progress map.\<close>

definition pipeline_report ::
  "string list \<Rightarrow> inflight_store \<Rightarrow> task_state list \<Rightarrow> pipeline \<Rightarrow> pipeline_info list" where
  "pipeline_report sids s running p =
     (let progress = PipelineProgress s;
          withProgress = filter (\<lambda>sid. lookup2 progress sid (Name p) \<noteq> None) sids
      in if withProgress = [] then
           [\<lparr>piName = Name p, piDescription = Description p, piTaskDescription = '''',
             piSessionID = '''', piStages = buildStages running p '''' None\<rparr>]
         else map (\<lambda>sid. \<lparr>piName = Name p, piDescription = Description p,
                    piTaskDescription = PipelineDescription sid (Name p) s, piSessionID = sid,
                    piStages = buildStages running p sid (lookup2 progress sid (Name p))\<rparr>)
                withProgress)"

definition pipeline_status_check ::
  "string list \<Rightarrow> string list \<Rightarrow> pipeline list \<Rightarrow> string \<Rightarrow> inflight_store \<Rightarrow> pipeline_info list" where
  "pipeline_status_check ks sids ps pname s =
     concat (map (pipeline_report sids s (List ks (status_str TaskRunning) s))
       (filter (\<lambda>p. \<not> (pname \<noteq> '''' \<and> Name p \<noteq> pname)) ps))"

section \<open>Lemmas\<close>

lemma loadFile_ok:
  "loadFile rf yu path = Inr p \<Longrightarrow> Name p \<noteq> '''' \<and> Stages p \<noteq> []"
  by (auto simp: loadFile_def split: sum.splits if_splits)

lemma load_entries_ok:
  "load_entries rf yu dir es = Inr ps \<Longrightarrow> list_all (\<lambda>p. Name p \<noteq> '''' \<and> Stages p \<noteq> []) ps"
  by (induction es arbitrary: ps) (auto split: if_splits sum.splits dest: loadFile_ok)

lemma add_stages_keeps: "m a = Some x \<Longrightarrow> add_stages pn i ss m a = Some x"
proof (induction ss arbitrary: i m)
  case (Cons s ss)
  then have "(if m (Agent s) = None then m(Agent s \<mapsto> \<lparr>paPipeline = pn, paStage = i + 1\<rparr>) else m) a
      = Some x" by auto
  with Cons.IH show ?case by simp
qed simp

lemma AgentSet_from_keeps: "m a = Some x \<Longrightarrow> AgentSet_from ps m a = Some x"
  by (induction ps arbitrary: m) (auto simp: add_stages_keeps)

lemma add_stages_new:
  "add_stages pn i ss m a = Some x \<Longrightarrow> m a = None \<Longrightarrow>
     \<exists>j < length ss. x = \<lparr>paPipeline = pn, paStage = i + j + 1\<rparr> \<and> Agent (ss ! j) = a"
proof (induction ss arbitrary: i m)
  case (Cons s ss)
  show ?case
  proof (cases "Agent s = a")
    case True
    with Cons.prems have "x = \<lparr>paPipeline = pn, paStage = i + 0 + 1\<rparr>"
      using add_stages_keeps [of "m(Agent s \<mapsto> \<lparr>paPipeline = pn, paStage = i + 1\<rparr>)" a
          "\<lparr>paPipeline = pn, paStage = i + 1\<rparr>" pn "Suc i" ss] by simp
    with True show ?thesis by (intro exI [of _ 0]) simp
  next
    case False
    let ?m = "if m (Agent s) = None then m(Agent s \<mapsto> \<lparr>paPipeline = pn, paStage = i + 1\<rparr>) else m"
    have "?m a = None" using False Cons.prems(2) by simp
    with Cons.IH [of "Suc i" ?m] Cons.prems(1) obtain j where
      "j < length ss" "x = \<lparr>paPipeline = pn, paStage = Suc i + j + 1\<rparr>" "Agent (ss ! j) = a"
      by auto
    then show ?thesis by (intro exI [of _ "Suc j"]) simp
  qed
qed simp

lemma AgentSet_from_new:
  "AgentSet_from ps m a = Some x \<Longrightarrow> m a = None \<Longrightarrow>
     \<exists>p \<in> set ps. paPipeline x = Name p \<and> 1 \<le> paStage x \<and> paStage x \<le> length (Stages p) \<and>
       Agent (Stages p ! (paStage x - 1)) = a"
proof (induction ps arbitrary: m)
  case (Cons p ps)
  show ?case
  proof (cases "add_stages (Name p) 0 (Stages p) m a")
    case None
    with Cons show ?thesis by auto
  next
    case (Some y)
    with Cons.prems have "x = y" using AgentSet_from_keeps by fastforce
    with add_stages_new [OF Some Cons.prems(2)] show ?thesis by auto
  qed
qed simp

lemma FindAgentAtStage_unique:
  "p \<in> set ps \<Longrightarrow> distinct (map Name ps) \<Longrightarrow> 1 \<le> i \<Longrightarrow> i \<le> length (Stages p) \<Longrightarrow>
     FindAgentAtStage ps (Name p) i = Agent (Stages p ! (i - 1))"
  by (induction ps) (auto simp: rev_image_eqI)

text \<open>The two lookups agree: when pipeline names are unique, the stage that \<open>AgentSet\<close>
  gives an agent is a stage of that pipeline, and \<open>FindAgentAtStage\<close> finds the same agent
  there.\<close>

theorem agent_stage_roundtrip:
  assumes "AgentSet ps a = Some pa" and "distinct (map Name ps)"
  shows "FindAgentAtStage ps (paPipeline pa) (paStage pa) = a \<and>
    (\<exists>p. p \<in> set ps \<and> Name p = paPipeline pa \<and> 1 \<le> paStage pa \<and> paStage pa \<le> length (Stages p))"
  using AgentSet_from_new [OF assms(1) [unfolded AgentSet_def]] assms(2)
  by (auto dest: FindAgentAtStage_unique)

definition demo_pipeline :: pipeline where
  "demo_pipeline = \<lparr>Name = ''build'', Description = ''d'', Trigger = ''t'',
     Stages = [\<lparr>Agent = ''plan'', StageDescription = ''p'', OnFail = '''', MaxRetries = 0\<rparr>,
               \<lparr>Agent = ''code'', StageDescription = ''c'', OnFail = ''plan'', MaxRetries = 0\<rparr>]\<rparr>"

theorem agent_stage_roundtrip_witness:
  "AgentSet [demo_pipeline] ''code'' = Some \<lparr>paPipeline = ''build'', paStage = 2\<rparr> \<and>
   FindAgentAtStage [demo_pipeline] ''build'' 2 = ''code''"
proof -
  have h: "AgentSet [demo_pipeline] ''code'' = Some \<lparr>paPipeline = ''build'', paStage = 2\<rparr>"
    by (simp add: AgentSet_def demo_pipeline_def)
  from agent_stage_roundtrip [OF h] h show ?thesis by (simp del: FindAgentAtStage.simps)
qed

text \<open>Loading a directory succeeds only with pipelines that have a name and at least one
  stage: every bad file stops the whole load with an error.\<close>

theorem loaded_pipelines_valid:
  "case LoadAll read_dir read_file yaml_unmarshal dir of
     Inl _ \<Rightarrow> True
   | Inr ps \<Rightarrow> list_all (\<lambda>p. Name p \<noteq> '''' \<and> Stages p \<noteq> []) ps"
  by (auto simp: LoadAll_def split: read_dir_result.split sum.split dest: load_entries_ok)

end
