(* ===== verification/Backlog.thy ===== *)
theory Backlog
  imports Prelude GoJson "HOL-Library.Multiset"
begin

text \<open>
  \<open>internal/backlog\<close>: the persistent work queue.  The SQL statements are modelled on the
  table \<open>backlog\<close> as the list of its rows in insertion order.  The database is taken to
  carry out each statement: the only error that is modelled is the one a statement itself
  can raise, a duplicate primary key.  Rows that \<open>ORDER BY\<close> leaves in a tie come in
  insertion order.  Times are stored in RFC 3339 with one-second precision, so the table
  holds whole seconds, and comparing the texts compares the seconds.
\<close>

section \<open>Data\<close>

record item =
  itID :: string
  itTitle :: string
  itDescription :: string
  itPriority :: string
  itStatus :: string
  itSource :: string
  itParentID :: string
  itDeliberationID :: string
  itContext :: json
  itCreatedAt :: int
  itUpdatedAt :: int
  itChildCount :: nat
  itDoneCount :: nat

record backlog_filter =
  fStatus :: string
  fPriority :: string
  fSource :: string
  fParentID :: string
  fTopLevel :: bool
  fLimit :: int

record backlog_update =
  uTitle :: "string option"
  uDescription :: "string option"
  uPriority :: "string option"
  uStatus :: "string option"
  uParentID :: "string option"
  uDeliberationID :: "string option"

type_synonym table = "item list"

definition in_seconds :: "time \<Rightarrow> int" where
  "in_seconds now = now div second"

section \<open>Operations\<close>

text \<open>\<open>Add\<close>: \<open>uuid\<close> is the fresh identifier used when the item has none.  The stored row
  has no child counts: they are computed on reading.\<close>

definition Add :: "time \<Rightarrow> string \<Rightarrow> item \<Rightarrow> table \<Rightarrow> (table \<times> item) go_result" where
  "Add now uuid it tab =
     (let it1 = it\<lparr>itID := (if itID it = '''' then uuid else itID it),
                   itCreatedAt := in_seconds now, itUpdatedAt := in_seconds now,
                   itPriority := (if itPriority it = '''' then ''normal'' else itPriority it),
                   itStatus := (if itStatus it = '''' then ''pending'' else itStatus it),
                   itSource := (if itSource it = '''' then ''user'' else itSource it)\<rparr>
      in if itID it1 \<in> itID ` set tab
         then Inl ''UNIQUE constraint failed: backlog.id''
         else Inr (tab @ [it1\<lparr>itChildCount := 0, itDoneCount := 0\<rparr>], it1))"

definition is_done :: "item \<Rightarrow> bool" where
  "is_done it \<longleftrightarrow> itStatus it = ''completed'' \<or> itStatus it = ''failed''"

definition children :: "string \<Rightarrow> table \<Rightarrow> item list" where
  "children pid tab = filter (\<lambda>r. itParentID r = pid) tab"

definition populateChildCounts :: "table \<Rightarrow> item \<Rightarrow> item" where
  "populateChildCounts tab it =
     it\<lparr>itChildCount := length (children (itID it) tab),
        itDoneCount := length (filter is_done (children (itID it) tab))\<rparr>"

definition Get :: "string \<Rightarrow> table \<Rightarrow> item go_result" where
  "Get iid tab =
     (case filter (\<lambda>r. itID r = iid) tab of
        [] \<Rightarrow> Inl ''sql: no rows in result set''
      | r # _ \<Rightarrow> Inr (populateChildCounts tab r))"

definition priority_rank :: "string \<Rightarrow> nat" where
  "priority_rank p = (if p = ''high'' then 0 else if p = ''normal'' then 1 else if p = ''low'' then 2 else 3)"

definition matches_filter :: "backlog_filter \<Rightarrow> item \<Rightarrow> bool" where
  "matches_filter f r \<longleftrightarrow>
     (fStatus f = '''' \<or> itStatus r = fStatus f) \<and>
     (fPriority f = '''' \<or> itPriority r = fPriority f) \<and>
     (fSource f = '''' \<or> itSource r = fSource f) \<and>
     (fParentID f = '''' \<or> itParentID r = fParentID f) \<and>
     (\<not> fTopLevel f \<or> itParentID r = '''')"

text \<open>\<open>ORDER BY CASE priority ... END, created_at\<close>: sort by the second key, then stably by the first.\<close>

definition order_rows :: "item list \<Rightarrow> item list" where
  "order_rows rs = sort_key (\<lambda>r. priority_rank (itPriority r)) (sort_key itCreatedAt rs)"

definition row_limit :: "backlog_filter \<Rightarrow> nat" where
  "row_limit f = (if fLimit f \<le> 0 then 50 else nat (fLimit f))"

definition List :: "backlog_filter \<Rightarrow> table \<Rightarrow> item list" where
  "List f tab =
     map (populateChildCounts tab) (take (row_limit f) (order_rows (filter (matches_filter f) tab)))"

definition children_filter :: "string \<Rightarrow> backlog_filter" where
  "children_filter iid = \<lparr>fStatus = '''', fPriority = '''', fSource = '''', fParentID = iid,
     fTopLevel = False, fLimit = 200\<rparr>"

definition GetWithChildren :: "string \<Rightarrow> table \<Rightarrow> (item \<times> item list) go_result" where
  "GetWithChildren iid tab =
     (case Get iid tab of Inl e \<Rightarrow> Inl e | Inr p \<Rightarrow> Inr (p, List (children_filter iid) tab))"

definition CheckParentCompletion :: "string \<Rightarrow> table \<Rightarrow> bool" where
  "CheckParentCompletion pid tab =
     (if pid = '''' then False
      else (let total = length (children pid tab);
                done_n = length (filter is_done (children pid tab))
            in total > 0 \<and> total = done_n))"

definition apply_update :: "time \<Rightarrow> backlog_update \<Rightarrow> item \<Rightarrow> item" where
  "apply_update now u r =
     r\<lparr>itUpdatedAt := in_seconds now,
       itTitle := case_option (itTitle r) (\<lambda>x. x) (uTitle u),
       itDescription := case_option (itDescription r) (\<lambda>x. x) (uDescription u),
       itPriority := case_option (itPriority r) (\<lambda>x. x) (uPriority u),
       itStatus := case_option (itStatus r) (\<lambda>x. x) (uStatus u),
       itParentID := case_option (itParentID r) (\<lambda>x. x) (uParentID u),
       itDeliberationID := case_option (itDeliberationID r) (\<lambda>x. x) (uDeliberationID u)\<rparr>"

definition update_row :: "string \<Rightarrow> (item \<Rightarrow> item) \<Rightarrow> table \<Rightarrow> table go_result" where
  "update_row iid f tab =
     (if iid \<in> itID ` set tab then Inr (map (\<lambda>r. if itID r = iid then f r else r) tab)
      else Inl (''backlog item '' @ quote iid @ '' not found''))"

definition Update :: "time \<Rightarrow> string \<Rightarrow> backlog_update \<Rightarrow> table \<Rightarrow> table go_result" where
  "Update now iid u tab = update_row iid (apply_update now u) tab"

definition Complete :: "time \<Rightarrow> string \<Rightarrow> string \<Rightarrow> table \<Rightarrow> table go_result" where
  "Complete now iid summary tab =
     update_row iid (\<lambda>r. r\<lparr>itStatus := ''completed'',
       itDescription := itDescription r @ newline @ newline @ ''Result: '' @ summary,
       itUpdatedAt := in_seconds now\<rparr>) tab"

definition Delete :: "string \<Rightarrow> table \<Rightarrow> table" where
  "Delete iid tab = filter (\<lambda>r. itID r \<noteq> iid) tab"

section \<open>The table's invariant\<close>

text \<open>The primary key: no two rows share an identifier.\<close>

definition keyed :: "table \<Rightarrow> bool" where
  "keyed tab \<longleftrightarrow> distinct (map itID tab)"

lemma keyed_Add: "keyed tab \<Longrightarrow> Add now uuid it tab = Inr (tab', it') \<Longrightarrow> keyed tab'"
  by (auto simp: keyed_def Add_def Let_def split: if_splits)

lemma map_itID_update:
  "(\<And>r. itID (f r) = itID r) \<Longrightarrow> map itID (map (\<lambda>r. if itID r = iid then f r else r) tab) = map itID tab"
  by (induction tab) auto

lemma keyed_update_row:
  "keyed tab \<Longrightarrow> update_row iid f tab = Inr tab' \<Longrightarrow> (\<And>r. itID (f r) = itID r) \<Longrightarrow> keyed tab'"
proof -
  assume k: "keyed tab" and u: "update_row iid f tab = Inr tab'" and f: "\<And>r. itID (f r) = itID r"
  have "tab' = map (\<lambda>r. if itID r = iid then f r else r) tab"
    using u by (simp add: update_row_def split: if_splits)
  then have "map itID tab' = map itID tab" using map_itID_update [of f, OF f] by simp
  with k show "keyed tab'" by (simp only: keyed_def)
qed

lemma keyed_Delete: "keyed tab \<Longrightarrow> keyed (Delete iid tab)"
  by (auto simp: keyed_def Delete_def distinct_map inj_on_def)

lemma itID_apply_update: "itID (apply_update now u r) = itID r"
  by (simp add: apply_update_def)

datatype backlog_op =
  BAdd time string item
| BUpdate time string backlog_update
| BComplete time string string
| BDelete string

fun backlog_step :: "table \<Rightarrow> backlog_op \<Rightarrow> table" where
  "backlog_step tab (BAdd now u it) = (case Add now u it tab of Inl _ \<Rightarrow> tab | Inr (t, _) \<Rightarrow> t)"
| "backlog_step tab (BUpdate now i u) = (case Update now i u tab of Inl _ \<Rightarrow> tab | Inr t \<Rightarrow> t)"
| "backlog_step tab (BComplete now i s) = (case Complete now i s tab of Inl _ \<Rightarrow> tab | Inr t \<Rightarrow> t)"
| "backlog_step tab (BDelete i) = Delete i tab"

lemma keyed_step: "keyed tab \<Longrightarrow> keyed (backlog_step tab x)"
  by (cases x)
     (auto simp: Update_def Complete_def itID_apply_update keyed_Delete split: sum.split
       intro: keyed_Add keyed_update_row)

text \<open>Whatever sequence of adds, updates, completions and deletions the coordinator runs
  against an empty backlog, failed ones included, no two rows share an identifier.\<close>

theorem backlog_keyed:
  "keyed (foldl backlog_step [] ops)"
proof -
  have "keyed tab \<Longrightarrow> keyed (foldl backlog_step tab ops)" for tab
    by (induction ops arbitrary: tab) (simp_all add: keyed_step)
  then show ?thesis by (simp add: keyed_def)
qed

section \<open>Listing\<close>

definition row_key :: "item \<Rightarrow> nat \<times> int" where
  "row_key r = (priority_rank (itPriority r), itCreatedAt r)"

definition row_le :: "item \<Rightarrow> item \<Rightarrow> bool" where
  "row_le a b \<longleftrightarrow> fst (row_key a) < fst (row_key b) \<or>
     (fst (row_key a) = fst (row_key b) \<and> snd (row_key a) \<le> snd (row_key b))"

lemma sorted_wrt_filter_class:
  "(\<And>k. sorted_wrt P (filter (\<lambda>x. f x = k) xs)) \<Longrightarrow> sorted (map f xs) \<Longrightarrow>
     sorted_wrt (\<lambda>a b. f a < f b \<or> (f a = f b \<and> P a b)) xs"
  for f :: "'a \<Rightarrow> nat"
proof (induction xs)
  case (Cons x xs)
  have tail: "sorted_wrt P (filter (\<lambda>x. f x = k) xs)" for k
    using Cons.prems(1) [of k] by (simp split: if_splits)
  have "P x y" if "y \<in> set xs" "f x = f y" for y
    using Cons.prems(1) [of "f x"] that by simp
  moreover have "f x \<le> f y" if "y \<in> set xs" for y using Cons.prems(2) that by simp
  ultimately show ?case using Cons.IH [OF tail] Cons.prems(2) by (auto simp: le_less)
qed simp

lemma order_rows_sorted: "sorted_wrt row_le (order_rows rs)"
proof -
  let ?f = "\<lambda>r. priority_rank (itPriority r)"
  have "sorted_wrt (\<lambda>a b. itCreatedAt a \<le> itCreatedAt b) (filter (\<lambda>x. ?f x = k) (order_rows rs))" for k
  proof -
    have "filter (\<lambda>x. ?f x = k) (order_rows rs) = filter (\<lambda>x. ?f x = k) (sort_key itCreatedAt rs)"
      unfolding order_rows_def by (rule sort_key_stable)
    moreover have "sorted_wrt (\<lambda>a b. itCreatedAt a \<le> itCreatedAt b) (sort_key itCreatedAt rs)"
      using sorted_sort_key [of itCreatedAt rs] by (simp add: sorted_map)
    ultimately show ?thesis by (simp add: sorted_wrt_filter)
  qed
  from sorted_wrt_filter_class [of "\<lambda>a b. itCreatedAt a \<le> itCreatedAt b" ?f, OF this]
  have "sorted_wrt (\<lambda>a b. ?f a < ?f b \<or> (?f a = ?f b \<and> itCreatedAt a \<le> itCreatedAt b)) (order_rows rs)"
    by (simp add: order_rows_def)
  then show ?thesis unfolding row_le_def row_key_def fst_conv snd_conv .
qed

lemma row_le_populate: "row_le (populateChildCounts t a) (populateChildCounts t b) = row_le a b"
  by (simp add: row_le_def row_key_def populateChildCounts_def)

text \<open>\<open>List\<close> returns matching rows only, by priority and then by age, at most as many as
  the limit, and leaves a matching row out only when the limit is used up; a row it leaves
  out never comes before one it returns.\<close>

theorem list_correct:
  "sorted_wrt row_le (List f tab) \<and>
   length (List f tab) = min (row_limit f) (length (filter (matches_filter f) tab)) \<and>
   (\<exists>rest. mset (map (populateChildCounts tab) (filter (matches_filter f) tab)) =
             mset (List f tab @ rest) \<and> sorted_wrt row_le (List f tab @ rest))"
proof -
  let ?rs = "order_rows (filter (matches_filter f) tab)" and ?p = "populateChildCounts tab"
  have all: "sorted_wrt row_le (map ?p ?rs)"
    using order_rows_sorted by (simp add: sorted_wrt_map row_le_populate)
  have split: "map ?p ?rs = List f tab @ map ?p (drop (row_limit f) ?rs)"
    by (simp add: List_def flip: map_append)
  have "mset ?rs = mset (filter (matches_filter f) tab)" by (simp add: order_rows_def)
  then have "mset (map ?p (filter (matches_filter f) tab)) = mset (map ?p ?rs)"
    by (metis mset_map)
  moreover have "length ?rs = length (filter (matches_filter f) tab)" by (simp add: order_rows_def)
  ultimately show ?thesis
    using all split by (metis List_def length_map length_take min.commute sorted_wrt_append)
qed

section \<open>Parents and children\<close>

lemma children_matches: "iid \<noteq> '''' \<Longrightarrow> filter (matches_filter (children_filter iid)) tab = children iid tab"
  by (auto simp: children_def children_filter_def matches_filter_def intro!: filter_cong)

lemma Get_ok:
  assumes "Get iid tab = Inr p"
  shows "\<exists>r. r \<in> set tab \<and> itID r = iid \<and> p = populateChildCounts tab r"
proof (cases "filter (\<lambda>r. itID r = iid) tab")
  case (Cons r rs)
  then have "r \<in> set (filter (\<lambda>r. itID r = iid) tab)" by simp
  then have "r \<in> set tab \<and> itID r = iid" by simp
  with assms Cons show ?thesis by (auto simp: Get_def)
qed (use assms in \<open>simp add: Get_def\<close>)

lemma check_parent_iff:
  "CheckParentCompletion pid tab \<longleftrightarrow>
     pid \<noteq> '''' \<and> children pid tab \<noteq> [] \<and> list_all is_done (children pid tab)"
proof -
  have "length (children pid tab) = length (filter is_done (children pid tab)) \<longleftrightarrow>
      list_all is_done (children pid tab)"
    by (metis filter_id_conv length_filter_less less_irrefl list_all_iff)
  then show ?thesis by (auto simp: CheckParentCompletion_def Let_def)
qed

text \<open>\<open>GetWithChildren\<close> returns at most 200 of a parent's children, oldest and most urgent
  first, while \<open>ChildCount\<close> counts them all: past 200 the list is incomplete although the
  comment promises all children.\<close>

theorem children_capped:
  assumes "GetWithChildren iid tab = Inr (p, cs)" and "iid \<noteq> ''''"
  shows "itID p = iid \<and> length cs = min 200 (itChildCount p) \<and>
    list_all (\<lambda>c. itParentID c = iid) cs"
proof -
  from assms(1) obtain r where r: "r \<in> set tab" "itID r = iid" "p = populateChildCounts tab r"
    "cs = List (children_filter iid) tab"
    by (auto simp: GetWithChildren_def split: sum.splits dest!: Get_ok)
  have "length cs = min 200 (length (children iid tab))"
    using list_correct [of "children_filter iid" tab] r(4) children_matches [OF assms(2), of tab]
    by (simp add: row_limit_def children_filter_def)
  moreover have "itParentID c = iid" if "c \<in> set cs" for c
  proof -
    have "c \<in> populateChildCounts tab ` set (order_rows (children iid tab))"
      using that r(4) children_matches [OF assms(2), of tab]
      by (auto simp: List_def dest: in_set_takeD)
    then show ?thesis by (auto simp: order_rows_def children_def populateChildCounts_def)
  qed
  ultimately show ?thesis
    using r by (simp add: populateChildCounts_def list_all_iff)
qed

definition demo_item :: "string \<Rightarrow> string \<Rightarrow> item" where
  "demo_item iid pid = \<lparr>itID = iid, itTitle = ''t'', itDescription = ''d'', itPriority = ''normal'',
     itStatus = ''pending'', itSource = ''user'', itParentID = pid, itDeliberationID = '''',
     itContext = JNull, itCreatedAt = 0, itUpdatedAt = 0, itChildCount = 0, itDoneCount = 0\<rparr>"

definition demo_table :: table where
  "demo_table = [demo_item ''p'' '''', demo_item ''c'' ''p'']"

theorem children_capped_witness:
  "\<exists>p cs. GetWithChildren ''p'' demo_table = Inr (p, cs) \<and> length cs = 1"
proof -
  obtain p cs where h: "GetWithChildren ''p'' demo_table = Inr (p, cs)" "itChildCount p = 1"
    by (simp add: GetWithChildren_def Get_def demo_table_def demo_item_def populateChildCounts_def
        children_def)
  from children_capped [OF h(1)] h show ?thesis by auto
qed

lemma children_update_row:
  assumes "update_row iid f tab = Inr tab'" and "\<And>r. itParentID (f r) = itParentID r"
  shows "children pid tab' = map (\<lambda>r. if itID r = iid then f r else r) (children pid tab)"
proof -
  let ?g = "\<lambda>r. if itID r = iid then f r else r"
  have "itParentID (?g r) = itParentID r" for r using assms(2) by simp
  then have "filter (\<lambda>r. itParentID r = pid) (map ?g tab) = map ?g (filter (\<lambda>r. itParentID r = pid) tab)"
    by (simp add: filter_map comp_def)
  moreover have "tab' = map ?g tab" using assms(1) by (simp add: update_row_def split: if_splits)
  ultimately show ?thesis by (simp add: children_def)
qed

text \<open>Completing the last open child of a plan makes \<open>CheckParentCompletion\<close> report the
  plan as done, and not before: with another open child it still reports false.\<close>

theorem parent_completes_with_last_child:
  assumes "Complete now cid summary tab = Inr tab'"
    and "c \<in> set tab" and "itID c = cid" and "itParentID c = pid" and "pid \<noteq> ''''"
  shows "CheckParentCompletion pid tab' \<longleftrightarrow>
    list_all (\<lambda>r. itID r = cid \<or> is_done r) (children pid tab)"
proof -
  let ?f = "\<lambda>r. r\<lparr>itStatus := ''completed'',
       itDescription := itDescription r @ newline @ newline @ ''Result: '' @ summary,
       itUpdatedAt := in_seconds now\<rparr>"
  have kids: "children pid tab' = map (\<lambda>r. if itID r = cid then ?f r else r) (children pid tab)"
    using assms(1) unfolding Complete_def by (rule children_update_row) simp
  have "children pid tab \<noteq> []" using assms(2,4) by (auto simp: children_def filter_empty_conv)
  then show ?thesis
    using assms(5) by (auto simp: check_parent_iff kids list_all_iff is_done_def split: if_splits)
qed

theorem parent_completes_with_last_child_witness:
  "case Complete 5 ''c'' ''ok'' demo_table of
     Inl _ \<Rightarrow> False
   | Inr tab' \<Rightarrow> CheckParentCompletion ''p'' tab'"
proof -
  obtain tab' where h: "Complete 5 ''c'' ''ok'' demo_table = Inr tab'"
    by (simp add: Complete_def update_row_def demo_table_def demo_item_def)
  have c: "demo_item ''c'' ''p'' \<in> set demo_table" "itID (demo_item ''c'' ''p'') = ''c''"
    "itParentID (demo_item ''c'' ''p'') = ''p''" "''p'' \<noteq> ''''"
    by (simp_all add: demo_table_def demo_item_def)
  have "list_all (\<lambda>r. itID r = ''c'' \<or> is_done r) (children ''p'' demo_table)"
    by (simp add: demo_table_def demo_item_def children_def)
  with parent_completes_with_last_child [OF h c] h show ?thesis by simp
qed

end
