(* ===== verification/Supervisor.thy ===== *)
theory Supervisor
  imports TaskTypes
begin

text \<open>
  \<open>internal/agent/supervisor.go\<close>: the monitor that looks at every event of a running task.
  The local model it may ask is the argument \<open>ask\<close>, from the model name and the prompt to
  the reply's text or an error: the HTTP request, its timeout and the decoding of the reply
  are behind it.  \<open>detectRepetition\<close> ranges over a map of counts, so it takes the order
  \<open>ks\<close> of the tools it visits.
\<close>

record supervisor_config =
  OllamaBaseURL :: string
  OllamaModel :: string
  CheckInterval :: int
  MaxCorrections :: int
  StallTimeoutSec :: int

record monitor_state =
  msTask :: string
  msCorrections :: int
  msRecentTools :: "string list"
  msConsecutiveErrs :: nat
  msLastActivity :: time
  msTurnCount :: int

record supervisor =
  svConfig :: supervisor_config
  svTasks :: "string \<rightharpoonup> monitor_state"

record verdict =
  Action :: string
  Reason :: string
  Correction :: string

definition continue_verdict :: verdict where
  "continue_verdict = \<lparr>Action = ''continue'', Reason = '''', Correction = ''''\<rparr>"

definition NewSupervisor :: "bool \<Rightarrow> supervisor_config \<Rightarrow> supervisor option" where
  "NewSupervisor enabled cfg =
     (if \<not> enabled then None
      else Some \<lparr>svConfig = \<lparr>
        OllamaBaseURL = (if OllamaBaseURL cfg = '''' then ''http://localhost:11434'' else OllamaBaseURL cfg),
        OllamaModel = (if OllamaModel cfg = '''' then ''qwen2.5:1.5b'' else OllamaModel cfg),
        CheckInterval = (if CheckInterval cfg \<le> 0 then 10 else CheckInterval cfg),
        MaxCorrections = (if MaxCorrections cfg \<le> 0 then 2 else MaxCorrections cfg),
        StallTimeoutSec = (if StallTimeoutSec cfg \<le> 0 then 300 else StallTimeoutSec cfg)\<rparr>,
        svTasks = Map.empty\<rparr>)"

definition fresh_monitor :: "time \<Rightarrow> string \<Rightarrow> monitor_state" where
  "fresh_monitor now task = \<lparr>msTask = task, msCorrections = 0, msRecentTools = [],
     msConsecutiveErrs = 0, msLastActivity = now, msTurnCount = 0\<rparr>"

definition StartTask :: "time \<Rightarrow> string \<Rightarrow> string \<Rightarrow> supervisor \<Rightarrow> supervisor" where
  "StartTask now taskID task s = s\<lparr>svTasks := (svTasks s)(taskID \<mapsto> fresh_monitor now task)\<rparr>"

definition EndTask :: "string \<Rightarrow> supervisor \<Rightarrow> supervisor" where
  "EndTask taskID s = s\<lparr>svTasks := (svTasks s)(taskID := None)\<rparr>"

definition IncrementCorrections :: "string \<Rightarrow> supervisor \<Rightarrow> supervisor \<times> bool" where
  "IncrementCorrections taskID s =
     (case svTasks s taskID of
        None \<Rightarrow> (s, False)
      | Some st \<Rightarrow>
          (let st' = st\<lparr>msCorrections := msCorrections st + 1\<rparr>
           in (s\<lparr>svTasks := (svTasks s)(taskID \<mapsto> st')\<rparr>,
               msCorrections st' \<le> MaxCorrections (svConfig s))))"

section \<open>Heuristics\<close>

fun max_count :: "string list \<Rightarrow> string list \<Rightarrow> string \<Rightarrow> nat \<Rightarrow> string \<times> nat" where
  "max_count tools [] maxTool maxCount = (maxTool, maxCount)"
| "max_count tools (t # ks) maxTool maxCount =
     (if count_list tools t > maxCount then max_count tools ks t (count_list tools t)
      else max_count tools ks maxTool maxCount)"

definition detectRepetition :: "string list \<Rightarrow> string list \<Rightarrow> nat \<Rightarrow> string \<times> nat" where
  "detectRepetition ks tools threshold =
     (if length tools < threshold then ('''', 0)
      else (let (maxTool, maxCount) = max_count tools ks '''' 0
            in if maxCount \<ge> threshold then (maxTool, maxCount) else ('''', 0)))"

definition apology_patterns :: "string list" where
  "apology_patterns = [''i apologize'', ''i'' @ [char_of (39::nat)] @ ''m sorry'',
     ''let me try again'', ''let me start over'']"

text \<open>\<open>now\<close> is the clock when the heuristics run, after the event was recorded.\<close>

definition evaluateHeuristics ::
  "supervisor_config \<Rightarrow> time \<Rightarrow> string list \<Rightarrow> nat \<Rightarrow> string list \<Rightarrow> time \<Rightarrow> task_event \<Rightarrow> verdict" where
  "evaluateHeuristics cfg now ks consecutiveErrs recentTools lastActivity evt =
     (let (rep, n) = detectRepetition ks recentTools 3;
          stallTimeout = StallTimeoutSec cfg * second
      in if consecutiveErrs \<ge> 3 then
           \<lparr>Action = ''correct'',
            Reason = ''error loop: '' @ itoa (int consecutiveErrs) @ '' consecutive errors'',
            Correction = ''You have encountered multiple consecutive errors. Stop and take a different approach. Analyze what went wrong and try an alternative strategy.''\<rparr>
         else if rep \<noteq> '''' then
           \<lparr>Action = ''correct'',
            Reason = ''repetition: tool '' @ quote rep @ '' called '' @ itoa (int n) @ '' times recently'',
            Correction = ''You appear to be repeating the same action ('' @ rep @ '') without making progress. Stop, reassess your approach, and try something different.''\<rparr>
         else if now - lastActivity > stallTimeout then
           \<lparr>Action = ''correct'',
            Reason = ''stalled: no activity for '' @ duration_string stallTimeout,
            Correction = ''You appear to have stalled. Summarize what you'' @ [char_of (39::nat)] @ ''ve done so far and continue with the next step.''\<rparr>
         else if evContent evt \<noteq> '''' \<and>
                 list_ex (\<lambda>pat. contains_str (to_lower (evContent evt)) pat) apology_patterns then
           \<lparr>Action = ''correct'',
            Reason = ''detected apology/restart pattern in output'',
            Correction = ''Focus on completing the task. Do not apologize or restart. Identify the specific issue and fix it directly.''\<rparr>
         else continue_verdict)"

section \<open>The periodic question to the local model\<close>

definition buildToolDigest :: "string list \<Rightarrow> nat \<Rightarrow> string" where
  "buildToolDigest tools maxItems =
     (if tools = [] then ''(no tool calls)''
      else join_str ('' '' @ map char_of [226 :: nat, 134, 146] @ '' '') (last_n maxItems tools))"

definition ollama_prompt :: "string \<Rightarrow> int \<Rightarrow> string \<Rightarrow> string" where
  "ollama_prompt task turnCount digest =
     ''You are monitoring an AI agent executing a task. Classify its current status.'' @ newline @
     newline @ ''Task: '' @ task @ newline @ ''Turn: '' @ itoa turnCount @ newline @
     ''Recent tool calls: '' @ digest @ newline @ newline @
     ''Reply with exactly one word: on_track, spinning, stuck, or off_topic''"

definition evaluateOllama ::
  "(string \<Rightarrow> string \<Rightarrow> string go_result) \<Rightarrow> supervisor_config \<Rightarrow> string \<Rightarrow> string list \<Rightarrow> int \<Rightarrow> verdict" where
  "evaluateOllama ask cfg task recentTools turnCount =
     (case ask (OllamaModel cfg) (ollama_prompt task turnCount (buildToolDigest recentTools 10)) of
        Inl _ \<Rightarrow> continue_verdict
      | Inr reply \<Rightarrow>
          (let classification = trim_space (to_lower reply) in
           if contains_str classification ''on_track'' then continue_verdict
           else if contains_str classification ''spinning'' then
             \<lparr>Action = ''correct'', Reason = ''ollama checkpoint: agent is spinning'',
              Correction = ''You are spinning without making progress on the task: '' @ task @
                ''. Stop repeating actions and take a different approach.''\<rparr>
           else if contains_str classification ''stuck'' then
             \<lparr>Action = ''correct'', Reason = ''ollama checkpoint: agent is stuck'',
              Correction = ''You appear stuck on the task: '' @ task @
                ''. Try breaking the problem into smaller steps or using a different tool.''\<rparr>
           else if contains_str classification ''off_topic'' then
             \<lparr>Action = ''correct'', Reason = ''ollama checkpoint: agent is off-topic'',
              Correction = ''You have gone off-topic. Refocus on the original task: '' @ task\<rparr>
           else continue_verdict))"

section \<open>Evaluating an event\<close>

definition note_event :: "time \<Rightarrow> task_event \<Rightarrow> monitor_state \<Rightarrow> monitor_state" where
  "note_event now evt st =
     (let st1 = st\<lparr>msLastActivity := now, msTurnCount := msTurnCount st + 1,
                   msConsecutiveErrs := (if evType evt = ''error'' then Suc (msConsecutiveErrs st) else 0)\<rparr>
      in if evType evt = ''tool_call'' \<and> evTools evt \<noteq> []
         then st1\<lparr>msRecentTools := last_n 20 (msRecentTools st1 @ evTools evt)\<rparr>
         else st1)"

definition Evaluate ::
  "(string \<Rightarrow> string \<Rightarrow> string go_result) \<Rightarrow> time \<Rightarrow> time \<Rightarrow> string list \<Rightarrow> string \<Rightarrow> task_event \<Rightarrow> string \<Rightarrow>
   supervisor \<Rightarrow> supervisor \<times> verdict" where
  "Evaluate ask now now' ks taskID evt task s =
     (let st = note_event now evt
                 (case svTasks s taskID of None \<Rightarrow> fresh_monitor now task | Some st \<Rightarrow> st);
          s' = s\<lparr>svTasks := (svTasks s)(taskID \<mapsto> st)\<rparr>;
          v = evaluateHeuristics (svConfig s) now' ks (msConsecutiveErrs st) (msRecentTools st)
                (msLastActivity st) evt
      in if Action v \<noteq> ''continue'' then (s', v)
         else if msTurnCount st > 0 \<and> msTurnCount st mod CheckInterval (svConfig s) = 0 then
           (let w = evaluateOllama ask (svConfig s) (msTask st) (msRecentTools st) (msTurnCount st)
            in if Action w \<noteq> ''continue'' then (s', w) else (s', continue_verdict))
         else (s', continue_verdict))"

section \<open>Properties\<close>

lemma Action_heuristics:
  "Action (evaluateHeuristics cfg now ks n tools la evt) \<in> {''continue'', ''correct''}"
  by (simp add: evaluateHeuristics_def continue_verdict_def case_prod_beta Let_def)

lemma Action_ollama: "Action (evaluateOllama ask cfg task tools n) \<in> {''continue'', ''correct''}"
  by (simp add: evaluateOllama_def continue_verdict_def Let_def split: sum.split)

lemma verdict_source:
  "snd (Evaluate ask now now' ks taskID evt task s) = continue_verdict \<or>
   (\<exists>n tools. snd (Evaluate ask now now' ks taskID evt task s) =
      evaluateHeuristics (svConfig s) now' ks n tools now evt) \<or>
   (\<exists>t tools n. snd (Evaluate ask now now' ks taskID evt task s) =
      evaluateOllama ask (svConfig s) t tools n)"
proof -
  obtain st where st: "st = note_event now evt
      (case svTasks s taskID of None \<Rightarrow> fresh_monitor now task | Some st \<Rightarrow> st)" by simp
  have la: "msLastActivity st = now" by (simp add: st note_event_def Let_def)
  show ?thesis
    unfolding Evaluate_def st [symmetric] Let_def la by (simp split: if_split) blast
qed

text \<open>The supervisor never answers \<open>abort\<close>: whatever the event, the history, the clock and
  the local model say, the verdict is to continue or to correct.\<close>

theorem supervisor_never_aborts:
  "Action (snd (Evaluate ask now now' ks taskID evt task s)) = ''continue'' \<or>
   Action (snd (Evaluate ask now now' ks taskID evt task s)) = ''correct''"
proof -
  have "Action continue_verdict = ''continue''" by (simp add: continue_verdict_def)
  with verdict_source [of ask now now' ks taskID evt task s] show ?thesis
    using Action_heuristics Action_ollama by (metis insertE singletonD)
qed

lemma max_count_spec:
  "max_count tools ks m n = (m', n') \<Longrightarrow>
     n \<le> n' \<and> (\<forall>t \<in> set ks. count_list tools t \<le> n') \<and>
     ((m', n') = (m, n) \<or> (m' \<in> set ks \<and> n' = count_list tools m'))"
  by (induction tools ks m n arbitrary: m' n' rule: max_count.induct) (force split: if_splits)+

text \<open>Whatever order the counts are visited in, \<open>detectRepetition\<close> reports a tool exactly
  when some tool occurs at least \<open>threshold\<close> times, and then reports a tool with the
  highest count, with that count.\<close>

theorem repetition_correct:
  assumes "distinct ks" and "set ks = set tools" and "0 < threshold"
  shows "case detectRepetition ks tools threshold of (t, n) \<Rightarrow>
    (if \<exists>u \<in> set tools. threshold \<le> count_list tools u
     then t \<in> set tools \<and> n = count_list tools t \<and> threshold \<le> n \<and>
       (\<forall>u \<in> set tools. count_list tools u \<le> n)
     else t = '''' \<and> n = 0)"
proof -
  obtain m c where mc: "max_count tools ks '''' 0 = (m, c)" by fastforce
  have short: "\<not> threshold \<le> count_list tools u" if "length tools < threshold" for u
    using count_le_length [of tools u] that by simp
  show ?thesis
    using max_count_spec [OF mc] assms(2,3) mc short
    by (auto simp: detectRepetition_def)
qed

theorem repetition_correct_witness:
  "case detectRepetition [''a'', ''b''] [''a'', ''b'', ''a'', ''a''] 3 of (t, n) \<Rightarrow>
     t \<in> {''a'', ''b''} \<and> n = count_list [''a'', ''b'', ''a'', ''a''] t \<and> 3 \<le> n"
proof -
  have h: "distinct [''a'', ''b'']" "set [''a'', ''b''] = set [''a'', ''b'', ''a'', ''a'']" "0 < (3::nat)"
    by auto
  have u: "\<exists>u \<in> set [''a'', ''b'', ''a'', ''a'']. 3 \<le> count_list [''a'', ''b'', ''a'', ''a''] u"
    by simp
  from repetition_correct [OF h] show ?thesis unfolding if_P [OF u] by auto
qed

definition monitor_ok :: "supervisor \<Rightarrow> bool" where
  "monitor_ok s \<longleftrightarrow> (\<forall>k st. svTasks s k = Some st \<longrightarrow> length (msRecentTools st) \<le> 20)"

datatype supervisor_op =
  SvStart time string string
| SvEnd string
| SvIncrement string
| SvEvaluate "string \<Rightarrow> string \<Rightarrow> string go_result" time time "string list" string task_event string

fun supervisor_step :: "supervisor \<Rightarrow> supervisor_op \<Rightarrow> supervisor" where
  "supervisor_step s (SvStart now i t) = StartTask now i t s"
| "supervisor_step s (SvEnd i) = EndTask i s"
| "supervisor_step s (SvIncrement i) = fst (IncrementCorrections i s)"
| "supervisor_step s (SvEvaluate ask now now' ks i e t) = fst (Evaluate ask now now' ks i e t s)"

lemma length_note_event:
  "length (msRecentTools st) \<le> 20 \<Longrightarrow> length (msRecentTools (note_event now evt st)) \<le> 20"
  by (simp add: note_event_def Let_def length_last_n)

lemma svTasks_Evaluate:
  "svTasks (fst (Evaluate ask now now' ks i evt task s)) = (svTasks s)(i \<mapsto> note_event now evt
     (case svTasks s i of None \<Rightarrow> fresh_monitor now task | Some st \<Rightarrow> st))"
  by (simp add: Evaluate_def Let_def del: fun_upd_apply)

lemma monitor_okD: "monitor_ok s \<Longrightarrow> svTasks s k = Some st \<Longrightarrow> length (msRecentTools st) \<le> 20"
  by (auto simp: monitor_ok_def)

lemma monitor_ok_update:
  assumes "monitor_ok s" and "svTasks s' = (svTasks s)(i \<mapsto> st)" and "length (msRecentTools st) \<le> 20"
  shows "monitor_ok s'"
  using assms by (simp add: monitor_ok_def)

lemma monitor_ok_step:
  assumes ok: "monitor_ok s"
  shows "monitor_ok (supervisor_step s x)"
proof (cases x)
  case (SvStart now i t)
  show ?thesis unfolding SvStart
    by (rule monitor_ok_update [OF ok, of _ i "fresh_monitor now t"])
       (simp_all add: StartTask_def fresh_monitor_def)
next
  case (SvEnd i)
  then show ?thesis using ok by (simp add: monitor_ok_def EndTask_def)
next
  case (SvIncrement i)
  then show ?thesis using ok
    by (simp add: monitor_ok_def IncrementCorrections_def Let_def split: option.split)
next
  case (SvEvaluate ask now now' ks i e t)
  have "length (msRecentTools (case svTasks s i of None \<Rightarrow> fresh_monitor now t | Some st \<Rightarrow> st)) \<le> 20"
    using monitor_okD [OF ok] by (simp add: fresh_monitor_def split: option.split)
  then show ?thesis unfolding SvEvaluate supervisor_step.simps
    by (rule monitor_ok_update [OF ok svTasks_Evaluate length_note_event])
qed

text \<open>The monitor's memory is bounded: under any sequence of operations it keeps at most
  the last twenty tool names of a task.\<close>

theorem supervisor_memory_bounded:
  assumes "NewSupervisor True cfg = Some s"
  shows "monitor_ok (foldl supervisor_step s ops)"
proof -
  have "monitor_ok s \<Longrightarrow> monitor_ok (foldl supervisor_step s ops)" for s
    by (induction ops arbitrary: s) (simp_all add: monitor_ok_step)
  moreover have "monitor_ok s" using assms by (auto simp: NewSupervisor_def monitor_ok_def)
  ultimately show ?thesis by blast
qed

text \<open>Stall detection measures only the time \<open>Evaluate\<close> itself takes: the event being
  evaluated has just reset the activity time, so unless the evaluation lasts longer than the
  stall timeout, no history of silence is ever reported as a stall.\<close>

theorem stall_needs_slow_evaluation:
  assumes "now' - now \<le> StallTimeoutSec (svConfig s) * second"
  shows "\<not> has_prefix (Reason (snd (Evaluate ask now now' ks taskID evt task s))) ''stalled''"
proof -
  have "\<not> has_prefix (Reason continue_verdict) ''stalled''"
    by (simp add: continue_verdict_def has_prefix_def)
  moreover have "\<not> has_prefix (Reason (evaluateHeuristics (svConfig s) now' ks n tools now evt)) ''stalled''"
    for n tools
    using assms by (simp add: evaluateHeuristics_def continue_verdict_def has_prefix_def case_prod_beta Let_def)
  moreover have "\<not> has_prefix (Reason (evaluateOllama ask (svConfig s) t tools n)) ''stalled''" for t tools n
    by (simp add: evaluateOllama_def continue_verdict_def has_prefix_def Let_def split: sum.split)
  ultimately show ?thesis
    using verdict_source [of ask now now' ks taskID evt task s] by metis
qed

definition demo_supervisor :: supervisor where
  "demo_supervisor = \<lparr>svConfig = \<lparr>OllamaBaseURL = '''', OllamaModel = '''', CheckInterval = 10,
     MaxCorrections = 2, StallTimeoutSec = 300\<rparr>, svTasks = Map.empty\<rparr>"

definition demo_response :: task_event where
  "demo_response = \<lparr>evTimestamp = 0, evType = ''response'', evTurn = 1, evTools = [],
     evContent = ''ok'', evTokens = None\<rparr>"

theorem stall_needs_slow_evaluation_witness:
  "\<not> has_prefix (Reason (snd (Evaluate (\<lambda>_ _. Inl '''') 5 6 [] ''t'' demo_response ''x'' demo_supervisor))) ''stalled''"
  by (rule stall_needs_slow_evaluation) (simp add: demo_supervisor_def second_def)

theorem supervisor_memory_bounded_witness:
  "\<exists>s. NewSupervisor True (svConfig demo_supervisor) = Some s \<and>
     monitor_ok (foldl supervisor_step s [SvStart 0 ''t'' ''x''])"
proof -
  obtain s where h: "NewSupervisor True (svConfig demo_supervisor) = Some s"
    by (simp add: NewSupervisor_def)
  from supervisor_memory_bounded [OF h] h show ?thesis by blast
qed

end
