(* ===== verification/Messages.thy ===== *)
theory Messages
  imports GoJson
begin

text \<open>
  The chat messages the context manager and the model adapters work on: the fields of the
  agent library's \<open>model.Message\<close> that the program reads or sets.  The tool arguments and
  the image data are byte strings.
\<close>

datatype role = RoleSystem | RoleUser | RoleAssistant | RoleTool | RoleOther string

record image =
  imData :: string
  imFormat :: string
  imURL :: string

record file_part =
  fpName :: string
  fpData :: string
  fpMimeType :: string

record audio =
  auData :: string
  auFormat :: string

record content_part =
  cpType :: string
  cpText :: "string option"
  cpImage :: "image option"
  cpFile :: "file_part option"
  cpAudio :: "audio option"

record tool_call =
  tcID :: string
  tcName :: string
  tcArguments :: string

record message =
  mRole :: role
  mContent :: string
  mParts :: "content_part list"
  mToolID :: string
  mToolCalls :: "tool_call list"

definition user_message :: "string \<Rightarrow> message" where
  "user_message c = \<lparr>mRole = RoleUser, mContent = c, mParts = [], mToolID = '''', mToolCalls = []\<rparr>"

definition is_system :: "message \<Rightarrow> bool" where
  "is_system m \<longleftrightarrow> mRole m = RoleSystem"

text \<open>A user message with text: what an adapter turns into at least one user turn.\<close>

definition user_text :: "message \<Rightarrow> bool" where
  "user_text m \<longleftrightarrow> mRole m = RoleUser \<and> mContent m \<noteq> ''''"

definition imageFormatToMIME :: "string \<Rightarrow> string" where
  "imageFormatToMIME f =
     (if f = ''jpeg'' \<or> f = ''jpg'' then ''image/jpeg''
      else if f = ''png'' then ''image/png''
      else if f = ''webp'' then ''image/webp''
      else if f = ''gif'' then ''image/gif''
      else ''image/jpeg'')"

section \<open>Tool arguments as a map\<close>

text \<open>
  \<open>json.Unmarshal\<close> into \<open>map[string]any\<close>: the text must be an object (or \<open>null\<close>), later
  duplicates of a key win, and a number too large for a \<open>float64\<close> is an error.  A number
  overflows when its exact value reaches \<open>2^1024 - 2^970\<close>.
\<close>

definition digits_value :: "string \<Rightarrow> nat" where
  "digits_value s = foldl (\<lambda>n c. 10 * n + (of_char c - 48)) 0 s"

definition exponent_value :: "string \<Rightarrow> int" where
  "exponent_value s =
     (case s of [] \<Rightarrow> 0
      | c # s' \<Rightarrow> if c = CHR ''-'' then - int (digits_value s')
                  else if c = CHR ''+'' then int (digits_value s') else int (digits_value s))"

definition number_overflows :: "string \<Rightarrow> bool" where
  "number_overflows s =
     (let u = (case s of c # s' \<Rightarrow> if c = CHR ''-'' then s' else s | [] \<Rightarrow> []);
          mant = takeWhile (\<lambda>c. c \<noteq> CHR ''e'' \<and> c \<noteq> CHR ''E'') u;
          ex = exponent_value (drop (length mant + 1) u);
          ip = takeWhile (\<lambda>c. c \<noteq> CHR ''.'') mant;
          fp = drop (length ip + 1) mant;
          d = digits_value (ip @ fp);
          k = ex - int (length fp);
          bound = (2 :: nat) ^ 1024 - 2 ^ 970
      in if k \<ge> 0 then bound \<le> d * 10 ^ nat k else bound * 10 ^ nat (- k) \<le> d)"

fun numbers_fit :: "json \<Rightarrow> bool"
and numbers_fit_list :: "json list \<Rightarrow> bool"
and numbers_fit_members :: "(string \<times> json) list \<Rightarrow> bool" where
  "numbers_fit (JNum s) = (\<not> number_overflows s)"
| "numbers_fit (JArr vs) = numbers_fit_list vs"
| "numbers_fit (JObj ms) = numbers_fit_members ms"
| "numbers_fit JNull = True"
| "numbers_fit (JBool b) = True"
| "numbers_fit (JStr s) = True"
| "numbers_fit_list [] = True"
| "numbers_fit_list (v # vs) = (numbers_fit v \<and> numbers_fit_list vs)"
| "numbers_fit_members [] = True"
| "numbers_fit_members ((k, v) # ms) = (numbers_fit v \<and> numbers_fit_members ms)"

definition decode_object :: "string \<Rightarrow> (string \<rightharpoonup> json) option" where
  "decode_object s =
     (case json_parse s of
        Some (JObj ms) \<Rightarrow> if numbers_fit_members ms then Some (map_of (rev ms)) else None
      | Some JNull \<Rightarrow> Some Map.empty
      | _ \<Rightarrow> None)"

text \<open>The keys of the decoded object, each once; code that ranges over the map takes an
  \<open>order\<close> that rearranges them.\<close>

definition object_keys :: "string \<Rightarrow> string list" where
  "object_keys s = (case json_parse s of Some (JObj ms) \<Rightarrow> remdups (map fst ms) | _ \<Rightarrow> [])"

end
