(* ===== verification/GoFloat.thy ===== *)
theory GoFloat
  imports Prelude
begin

text \<open>
  The \<open>float64\<close> arithmetic the token budgets use: conversion from \<open>int\<close>, subtraction from
  one, multiplication and truncation to \<open>int\<close>.  A value is a dyadic number, its numerator
  and the exponent of its denominator; every operation rounds the exact result to 53
  significant bits, half to even, as IEEE 754 does where the exponent stays in range.
\<close>

datatype float64 = Float64 int nat

fun bit_count :: "nat \<Rightarrow> nat" where
  "bit_count n = (if n = 0 then 0 else Suc (bit_count (n div 2)))"

declare bit_count.simps [simp del]

definition round_bits :: "nat \<Rightarrow> nat \<Rightarrow> nat" where
  "round_bits sh n =
     (let q = n div 2 ^ sh; r = n mod 2 ^ sh; half = 2 ^ (sh - 1)
      in if r < half \<or> (r = half \<and> even q) then q * 2 ^ sh else (q + 1) * 2 ^ sh)"

definition round53_nat :: "nat \<Rightarrow> nat" where
  "round53_nat n = (if bit_count n \<le> 53 then n else round_bits (bit_count n - 53) n)"

definition round53 :: "int \<Rightarrow> int" where
  "round53 m = (if m < 0 then - int (round53_nat (nat (- m))) else int (round53_nat (nat m)))"

definition float_of_int :: "int \<Rightarrow> float64" where
  "float_of_int n = Float64 (round53 n) 0"

fun float_mul :: "float64 \<Rightarrow> float64 \<Rightarrow> float64" where
  "float_mul (Float64 a e) (Float64 b f) = Float64 (round53 (a * b)) (e + f)"

fun one_minus :: "float64 \<Rightarrow> float64" where
  "one_minus (Float64 m e) = Float64 (round53 (2 ^ e - m)) e"

fun int_of_float :: "float64 \<Rightarrow> int" where
  "int_of_float (Float64 m e) = (if m < 0 then - ((- m) div 2 ^ e) else m div 2 ^ e)"

text \<open>The constants of the program, as the compiler rounds them.\<close>

definition f_0_1 :: float64 where "f_0_1 = Float64 3602879701896397 55"
definition f_0_6 :: float64 where "f_0_6 = Float64 5404319552844595 53"
definition f_0_75 :: float64 where "f_0_75 = Float64 6755399441055744 53"
definition f_0_9 :: float64 where "f_0_9 = Float64 8106479329266893 53"

text \<open>Rounding is monotone, so scaling a limit by a larger constant gives no smaller bound.\<close>

lemma bit_count_0 [simp]: "bit_count 0 = 0"
  by (simp add: bit_count.simps)

lemma bit_count_bounds: "n \<noteq> 0 \<Longrightarrow> 2 ^ (bit_count n - 1) \<le> n \<and> n < 2 ^ bit_count n"
proof (induction n rule: bit_count.induct)
  case (1 n)
  show ?case
  proof (cases "n div 2 = 0")
    case True
    with "1.prems" have "n = 1" by (cases n) auto
    then show ?thesis by (simp add: bit_count.simps)
  next
    case False
    then obtain k where k: "bit_count (n div 2) = Suc k"
      by (subst (asm) bit_count.simps) (simp add: bit_count.simps [of "n div 2"])
    from "1.IH" "1.prems" False k have "2 ^ k \<le> n div 2" "n div 2 < 2 ^ Suc k" by auto
    then have "2 ^ Suc k \<le> n" "n < 2 ^ Suc (Suc k)" by auto
    then show ?thesis using "1.prems" k by (subst (1 2) bit_count.simps) simp
  qed
qed

lemma bit_count_mono: "m \<le> n \<Longrightarrow> bit_count m \<le> bit_count n"
proof (induction m arbitrary: n rule: bit_count.induct)
  case (1 m)
  then show ?case
    by (subst (1 2) bit_count.simps) (auto simp: div_le_mono)
qed

lemma round_bits_between:
  assumes "0 < sh"
  shows "n div 2 ^ sh * 2 ^ sh \<le> round_bits sh n"
    and "round_bits sh n \<le> (n div 2 ^ sh + 1) * 2 ^ sh"
  by (simp_all add: round_bits_def Let_def)

lemma round_bits_mono:
  assumes "0 < sh" and "m \<le> n"
  shows "round_bits sh m \<le> round_bits sh n"
proof (cases "m div 2 ^ sh = n div 2 ^ sh")
  case True
  have "m div 2 ^ sh * 2 ^ sh + m mod 2 ^ sh \<le> n div 2 ^ sh * 2 ^ sh + n mod 2 ^ sh"
    using assms(2) by (simp only: div_mult_mod_eq)
  with True have "m mod 2 ^ sh \<le> n mod 2 ^ sh" by simp
  with True show ?thesis by (auto simp: round_bits_def Let_def)
next
  case False
  with div_le_mono [OF assms(2), of "2 ^ sh"] have "m div 2 ^ sh + 1 \<le> n div 2 ^ sh" by simp
  then have "(m div 2 ^ sh + 1) * 2 ^ sh \<le> n div 2 ^ sh * 2 ^ sh" by (rule mult_le_mono1)
  then show ?thesis
    using round_bits_between [OF assms(1)] le_trans by blast
qed

lemma round53_nat_le: "n < 2 ^ k \<Longrightarrow> round53_nat n \<le> 2 ^ k"
proof (cases "bit_count n \<le> 53")
  case False
  assume n: "n < 2 ^ k"
  define sh where "sh = bit_count n - 53"
  have sh: "0 < sh" using False by (simp add: sh_def)
  have n0: "n \<noteq> 0" using False by (metis bit_count_0 le0 less_nat_zero_code)
  have "bit_count n \<le> k"
  proof (rule ccontr)
    assume "\<not> bit_count n \<le> k"
    then have "(2 :: nat) ^ k \<le> 2 ^ (bit_count n - 1)" by (intro power_increasing) auto
    then show False using bit_count_bounds [OF n0] n by linarith
  qed
  then have "sh \<le> k" by (simp add: sh_def)
  then have eq: "(2 :: nat) ^ k = 2 ^ (k - sh) * 2 ^ sh" by (simp add: power_add [symmetric])
  then have "n div 2 ^ sh < 2 ^ (k - sh)" using n by (simp add: less_mult_imp_div_less)
  then have "(n div 2 ^ sh + 1) * 2 ^ sh \<le> 2 ^ k" unfolding eq by (intro mult_le_mono1) simp
  then show ?thesis using round_bits_between(2) [OF sh, of n] False
    by (simp add: round53_nat_def sh_def)
qed (simp add: round53_nat_def)

lemma round53_nat_ge: "2 ^ k \<le> n \<Longrightarrow> 2 ^ k \<le> round53_nat n"
proof (cases "bit_count n \<le> 53")
  case False
  assume n: "2 ^ k \<le> n"
  define sh where "sh = bit_count n - 53"
  have sh: "0 < sh" using False by (simp add: sh_def)
  have n0: "n \<noteq> 0" using False by (metis bit_count_0 le0 less_nat_zero_code)
  have k: "k < bit_count n"
  proof (rule ccontr)
    assume "\<not> k < bit_count n"
    then have "(2 :: nat) ^ bit_count n \<le> 2 ^ k" by (intro power_increasing) auto
    then show False using bit_count_bounds [OF n0] n by linarith
  qed
  have "sh \<le> bit_count n - 1" using sh False by (simp add: sh_def)
  then have eq: "(2 :: nat) ^ (bit_count n - 1) = 2 ^ (bit_count n - 1 - sh) * 2 ^ sh"
    by (simp add: power_add [symmetric])
  have "2 ^ (bit_count n - 1 - sh) \<le> n div 2 ^ sh"
    using bit_count_bounds [OF n0] eq by (simp add: less_eq_div_iff_mult_less_eq)
  then have "2 ^ (bit_count n - 1) \<le> n div 2 ^ sh * 2 ^ sh" unfolding eq by (rule mult_le_mono1)
  moreover have "(2 :: nat) ^ k \<le> 2 ^ (bit_count n - 1)" using k by (intro power_increasing) auto
  moreover have "round53_nat n = round_bits sh n" using False by (simp add: round53_nat_def sh_def)
  ultimately show ?thesis using round_bits_between(1) [OF sh, of n] by linarith
qed (simp add: round53_nat_def)

lemma round53_nat_mono:
  assumes "m \<le> n"
  shows "round53_nat m \<le> round53_nat n"
proof (cases "bit_count m = bit_count n")
  case True
  with assms show ?thesis by (simp add: round53_nat_def round_bits_mono)
next
  case False
  with bit_count_mono [OF assms] have lt: "bit_count m < bit_count n" by simp
  then have "n \<noteq> 0" by (metis bit_count_0 le0 less_nat_zero_code)
  then have "2 ^ (bit_count n - 1) \<le> n" using bit_count_bounds by blast
  moreover have "(2 :: nat) ^ bit_count m \<le> 2 ^ (bit_count n - 1)"
    using lt by (intro power_increasing) auto
  ultimately have "2 ^ bit_count m \<le> round53_nat n" by (intro round53_nat_ge) linarith
  moreover have "round53_nat m \<le> 2 ^ bit_count m"
  proof (cases "m = 0")
    case False
    then show ?thesis using bit_count_bounds [of m] by (intro round53_nat_le) simp
  qed (simp add: round53_nat_def)
  ultimately show ?thesis by simp
qed

lemma round53_mono: "0 \<le> m \<Longrightarrow> m \<le> n \<Longrightarrow> round53 m \<le> round53 n"
  by (simp add: round53_def round53_nat_mono nat_mono)

lemma round53_nonneg: "0 \<le> m \<Longrightarrow> 0 \<le> round53 m"
  by (simp add: round53_def)

text \<open>A limit scaled by two constants over the same denominator.\<close>

definition scale :: "int \<Rightarrow> float64 \<Rightarrow> int" where
  "scale n f = int_of_float (float_mul (float_of_int n) f)"

lemma scale_mono:
  assumes "0 \<le> n" and "0 \<le> a" and "a \<le> b"
  shows "scale n (Float64 a e) \<le> scale n (Float64 b e)"
proof -
  have r: "0 \<le> round53 n" using assms(1) by (rule round53_nonneg)
  have "0 \<le> round53 n * a" using r assms(2) by simp
  moreover have "round53 n * a \<le> round53 n * b" using r assms(3) by (intro mult_left_mono)
  ultimately have "round53 (round53 n * a) \<le> round53 (round53 n * b)" and "0 \<le> round53 (round53 n * a)"
    by (simp_all add: round53_mono round53_nonneg)
  then show ?thesis by (simp add: scale_def float_of_int_def zdiv_mono1)
qed

end
