(* ===== verification/ContextManager.thy ===== *)
theory ContextManager
  imports Messages GoFloat
begin

text \<open>
  \<open>internal/agent/context_manager.go\<close> with the budgets of \<open>internal/model/budget.go\<close> and
  \<open>internal/model/model.go\<close>: token estimates and the three levels of pruning.  The locale
  \<open>context_pruner\<close> is the interface \<open>ContextPruner\<close> as the model adapters rely on it.
\<close>

section \<open>Budgets\<close>

datatype family = FamilyAnthropic | FamilyGemini | FamilyZAI

record provider_budget =
  MaxInputTokens :: int
  MaxOutputTokens :: int
  SafetyMargin :: float64

definition EffectiveLimit :: "provider_budget \<Rightarrow> int" where
  "EffectiveLimit b = int_of_float (float_mul (float_of_int (MaxInputTokens b)) (one_minus (SafetyMargin b)))"

fun DefaultBudgets :: "family \<Rightarrow> provider_budget" where
  "DefaultBudgets FamilyAnthropic =
     \<lparr>MaxInputTokens = 200000, MaxOutputTokens = 16384, SafetyMargin = f_0_1\<rparr>"
| "DefaultBudgets FamilyGemini =
     \<lparr>MaxInputTokens = 1048576, MaxOutputTokens = 8192, SafetyMargin = f_0_1\<rparr>"
| "DefaultBudgets FamilyZAI =
     \<lparr>MaxInputTokens = 131072, MaxOutputTokens = 16384, SafetyMargin = f_0_1\<rparr>"

definition DetectFamily :: "string \<Rightarrow> family" where
  "DetectFamily s =
     (if has_prefix s ''gemini/'' then FamilyGemini
      else if has_prefix s ''zai/'' then FamilyZAI
      else FamilyAnthropic)"

definition BudgetForModel :: "string \<Rightarrow> provider_budget" where
  "BudgetForModel s = DefaultBudgets (DetectFamily s)"

section \<open>Token estimates\<close>

definition EstimateTokens :: "string \<Rightarrow> int" where
  "EstimateTokens c = (if c = '''' then 0 else int (length c) div 3)"

definition EstimateMessageTokens :: "message \<Rightarrow> int" where
  "EstimateMessageTokens m =
     4 + EstimateTokens (mContent m)
     + sum_list (map (\<lambda>tc. 10 + EstimateTokens (tcName tc) + EstimateTokens (tcArguments tc)) (mToolCalls m))
     + sum_list (map (\<lambda>p. (case cpText p of None \<Rightarrow> 0 | Some t \<Rightarrow> EstimateTokens t)
                         + (case cpImage p of None \<Rightarrow> 0 | Some _ \<Rightarrow> 500)) (mParts m))"

definition EstimateMessagesTokens :: "message list \<Rightarrow> int" where
  "EstimateMessagesTokens ms = sum_list (map EstimateMessageTokens ms)"

section \<open>The manager\<close>

record context_manager =
  budget :: provider_budget
  estimatedTokens :: int
  lastActualInput :: int
  toolOutputLimit :: int
  originalTask :: string
  pruneCount :: int
  enabled :: bool

definition NewContextManager :: "provider_budget \<Rightarrow> int \<Rightarrow> context_manager" where
  "NewContextManager b lim =
     \<lparr>budget = b, estimatedTokens = 0, lastActualInput = 0,
      toolOutputLimit = (if lim \<le> 0 then 8000 else lim),
      originalTask = '''', pruneCount = 0, enabled = True\<rparr>"

definition RecordActualUsage :: "int \<Rightarrow> context_manager \<Rightarrow> context_manager" where
  "RecordActualUsage n cm = cm\<lparr>lastActualInput := n, estimatedTokens := n\<rparr>"

definition SetOriginalTask :: "string \<Rightarrow> context_manager \<Rightarrow> context_manager" where
  "SetOriginalTask t cm = cm\<lparr>originalTask := t\<rparr>"

definition Limit :: "context_manager \<Rightarrow> int" where
  "Limit cm = EffectiveLimit (budget cm)"

definition NeedsIntervention :: "context_manager \<Rightarrow> bool" where
  "NeedsIntervention cm \<longleftrightarrow> enabled cm \<and> scale (EffectiveLimit (budget cm)) f_0_9 \<le> estimatedTokens cm"

section \<open>Pruning\<close>

definition truncation_mark :: string where
  "truncation_mark = newline @ newline @ ''[... output truncated due to context limits ...]''"

definition truncate_tool :: "context_manager \<Rightarrow> message \<Rightarrow> message" where
  "truncate_tool cm m =
     (if mRole m = RoleTool \<and> int (length (mContent m)) > toolOutputLimit cm
      then m\<lparr>mContent := take (nat (toolOutputLimit cm)) (mContent m) @ truncation_mark\<rparr>
      else m)"

definition truncateToolOutputs :: "context_manager \<Rightarrow> message list \<Rightarrow> message list" where
  "truncateToolOutputs cm ms = map (truncate_tool cm) ms"

definition non_system :: "message list \<Rightarrow> message list" where
  "non_system ms = filter (\<lambda>m. \<not> is_system m) ms"

definition first_system :: "message list \<Rightarrow> message list" where
  "first_system ms = take 1 (filter is_system ms)"

definition consolidation_marker :: "context_manager \<Rightarrow> nat \<Rightarrow> message" where
  "consolidation_marker cm dropped = user_message
     (''[Earlier conversation context removed to manage context size. '' @ itoa (int dropped) @
      '' messages were consolidated.]'' @ newline @
      (if originalTask cm \<noteq> '''' then
         newline @ ''## REMINDER - Original Task:'' @ newline @ originalTask cm @ newline @ newline @
         ''Continue working on this task.''
       else ''''))"

definition consolidateMessages :: "context_manager \<Rightarrow> message list \<Rightarrow> message list" where
  "consolidateMessages cm ms =
     (let ns = non_system ms in
      if length ms \<le> 4 then ms
      else if length ns \<le> 10 then ms
      else first_system ms @ take 2 ns
        @ (if length ns - 2 - 8 > 0 then [consolidation_marker cm (length ns - 2 - 8)] else [])
        @ last_n 8 ns)"

definition progress_words :: "string list" where
  "progress_words = [''completed'', ''created'', ''updated'', ''fixed'', ''implemented'', ''done'']"

definition reports_progress :: "message \<Rightarrow> bool" where
  "reports_progress m \<longleftrightarrow> mRole m = RoleAssistant \<and> 50 < length (mContent m) \<and>
     list_ex (contains_str (to_lower (mContent m))) progress_words"

text \<open>\<open>remdups\<close> keeps last occurrences; the code keeps first ones.\<close>

definition firsts :: "'a list \<Rightarrow> 'a list" where
  "firsts xs = rev (remdups (rev xs))"

text \<open>The arguments are visited in the map order \<open>order\<close>; the paths of one call follow it.\<close>

definition call_paths :: "(string list \<Rightarrow> string list) \<Rightarrow> tool_call \<Rightarrow> string list" where
  "call_paths order tc =
     (if tcArguments tc = '''' then []
      else (case decode_object (tcArguments tc) of
              None \<Rightarrow> []
            | Some args \<Rightarrow> List.map_filter (\<lambda>key.
                if contains_str (to_lower key) ''path'' \<or> contains_str (to_lower key) ''file''
                then (case args key of Some (JStr s) \<Rightarrow> Some s | _ \<Rightarrow> None) else None)
                (order (object_keys (tcArguments tc)))))"

definition extractFilePaths :: "(string list \<Rightarrow> string list) \<Rightarrow> message list \<Rightarrow> string list" where
  "extractFilePaths order ms = firsts (concat (map (call_paths order) (concat (map mToolCalls ms))))"

definition createEmergencySummary :: "(string list \<Rightarrow> string list) \<Rightarrow> message list \<Rightarrow> string" where
  "createEmergencySummary order ms =
     (let progress = (case find reports_progress (rev ms) of
            None \<Rightarrow> ''''
          | Some m \<Rightarrow> ''Recent progress: '' @ truncate_str (mContent m) 300 @ newline @ newline);
          calls = map tcName (concat (map mToolCalls ms));
          files = extractFilePaths order ms
      in progress
         @ (if calls \<noteq> [] then ''Tools used: '' @ join_str '', '' (take 10 (firsts calls)) @ newline else '''')
         @ (if files \<noteq> [] then ''Files worked on: '' @ join_str '', '' (take 8 files) @ newline else ''''))"

definition emergency_message :: "(string list \<Rightarrow> string list) \<Rightarrow> context_manager \<Rightarrow> message list \<Rightarrow> message" where
  "emergency_message order cm ms =
     (let summary = createEmergencySummary order ms in user_message
       (''[CONTEXT EMERGENCY: Conversation condensed due to token limits]'' @ newline @ newline @
        (if originalTask cm \<noteq> '''' then
           ''## ORIGINAL TASK (must complete):'' @ newline @ originalTask cm @ newline @ newline
         else '''') @
        (if summary \<noteq> '''' then ''## PROGRESS SUMMARY:'' @ newline @ summary @ newline @ newline else '''') @
        ''Continue working on the task above.''))"

definition emergencyPrune :: "(string list \<Rightarrow> string list) \<Rightarrow> context_manager \<Rightarrow> message list \<Rightarrow> message list" where
  "emergencyPrune order cm ms =
     (let ns = non_system ms in
      first_system ms @ [emergency_message order cm ms] @ (if length ns > 4 then last_n 4 ns else ns))"

definition CheckAndPrune ::
  "(string list \<Rightarrow> string list) \<Rightarrow> message list \<Rightarrow> context_manager \<Rightarrow> context_manager \<times> message list \<times> bool" where
  "CheckAndPrune order ms cm =
     (if \<not> enabled cm then (cm, ms, False)
      else let est = EstimateMessagesTokens ms;
               cm1 = cm\<lparr>estimatedTokens := est\<rparr>;
               limit = EffectiveLimit (budget cm1);
               cm2 = cm1\<lparr>pruneCount := pruneCount cm1 + 1\<rparr>
        in if est < scale limit f_0_6 then (cm1, ms, False)
           else if est < scale limit f_0_75 then (cm2, truncateToolOutputs cm2 ms, True)
           else if est < scale limit f_0_9
             then (cm2, consolidateMessages cm2 (truncateToolOutputs cm2 ms), True)
           else (cm2, emergencyPrune order cm2 (consolidateMessages cm2 (truncateToolOutputs cm2 ms)), True))"

section \<open>Error messages of the providers\<close>

definition IsTokenOverflowError :: "string \<Rightarrow> bool" where
  "IsTokenOverflowError e =
     (let msg = to_lower e in
      contains_str msg ''token count exceeds'' \<or> contains_str msg ''maximum number of tokens'' \<or>
      contains_str msg ''context_length_exceeded'' \<or> contains_str msg ''too many tokens'')"

definition isCallLimitError :: "string \<Rightarrow> bool" where
  "isCallLimitError e \<longleftrightarrow> contains_str e ''max LLM calls'' \<or> contains_str e ''max tool iterations''"


section \<open>What pruning keeps\<close>

lemma mRole_truncate [simp]: "mRole (truncate_tool cm m) = mRole m"
  by (simp add: truncate_tool_def)

lemma is_system_truncate [simp]: "is_system (truncate_tool cm m) = is_system m"
  by (simp add: is_system_def)

lemma truncate_tool_id: "mRole m \<noteq> RoleTool \<Longrightarrow> truncate_tool cm m = m"
  by (simp add: truncate_tool_def)

lemma user_text_truncate: "user_text m \<Longrightarrow> truncate_tool cm m = m"
  by (simp add: user_text_def truncate_tool_id)

lemma filter_system_truncate:
  "filter is_system (truncateToolOutputs cm ms) = filter is_system ms"
proof -
  have "truncate_tool cm m = m" if "is_system m" for m
    using that by (simp add: is_system_def truncate_tool_id)
  then show ?thesis
    by (induction ms) (simp_all add: truncateToolOutputs_def)
qed

lemma non_system_truncate:
  "non_system (truncateToolOutputs cm ms) = truncateToolOutputs cm (non_system ms)"
  by (simp add: truncateToolOutputs_def non_system_def filter_map comp_def)

lemma non_system_app [simp]: "non_system (xs @ ys) = non_system xs @ non_system ys"
  by (simp add: non_system_def)

lemma non_system_first_system [simp]: "non_system (first_system ms) = []"
  by (auto simp: non_system_def first_system_def filter_empty_conv dest: in_set_takeD)

lemma non_system_idem: "set xs \<subseteq> set (non_system ms) \<Longrightarrow> non_system xs = xs"
  by (auto simp: non_system_def filter_id_conv)

lemma non_system_non_system [simp]: "non_system (non_system ms) = non_system ms"
  by (simp add: non_system_def)

lemma non_system_Cons [simp]:
  "non_system (m # ms) = (if is_system m then non_system ms else m # non_system ms)"
  by (simp add: non_system_def)

lemma non_system_Nil [simp]: "non_system [] = []"
  by (simp add: non_system_def)

lemma marker_user [simp]: "\<not> is_system (consolidation_marker cm n)" "user_text (consolidation_marker cm n)"
  by (simp_all add: consolidation_marker_def user_message_def is_system_def user_text_def)

lemma emergency_user [simp]:
  "\<not> is_system (emergency_message order cm ms)" "user_text (emergency_message order cm ms)"
  by (simp_all add: emergency_message_def user_message_def is_system_def user_text_def Let_def)

lemma non_system_take [simp]: "non_system (take n (non_system ms)) = take n (non_system ms)"
  by (rule non_system_idem) (rule set_take_subset)

lemma non_system_last_n [simp]: "non_system (last_n n (non_system ms)) = last_n n (non_system ms)"
  by (rule non_system_idem) (rule set_last_n)

lemma last_n_append: "n \<le> length ys \<Longrightarrow> last_n n (xs @ ys) = last_n n ys"
  by (simp add: last_n_def)

lemma last_n_split: "xs = take (length xs - n) xs @ last_n n xs"
  by (simp add: last_n_def)

lemma last_n_last_n: "n \<le> k \<Longrightarrow> last_n n (last_n k xs) = last_n n xs"
proof -
  assume "n \<le> k"
  then have "length xs - k + (length (drop (length xs - k) xs) - n) = length xs - n"
    by simp
  then show ?thesis by (simp add: last_n_def add.commute)
qed

lemma last_n_map: "last_n n (map f xs) = map f (last_n n xs)"
  by (simp add: last_n_def drop_map)

lemma length_non_system: "length (non_system ms) \<le> length ms"
  by (simp add: non_system_def)

lemma consolidate_small:
  "length (non_system ms) \<le> 10 \<Longrightarrow> consolidateMessages cm ms = ms"
  by (simp add: consolidateMessages_def Let_def)

lemma consolidate_large:
  assumes "10 < length (non_system ms)"
  shows "consolidateMessages cm ms = first_system ms @ take 2 (non_system ms) @
     consolidation_marker cm (length (non_system ms) - 10) # last_n 8 (non_system ms)"
  using assms length_non_system [of ms] by (simp add: consolidateMessages_def Let_def)

lemma non_system_consolidate:
  assumes "10 < length (non_system ms)"
  shows "non_system (consolidateMessages cm ms) = take 2 (non_system ms) @
     consolidation_marker cm (length (non_system ms) - 10) # last_n 8 (non_system ms)"
  using assms by (simp add: consolidate_large)

lemma recent_consolidate:
  "\<exists>pre. non_system (consolidateMessages cm ms) = pre @ last_n 4 (non_system ms)"
proof (cases "length (non_system ms) \<le> 10")
  case True
  then show ?thesis using last_n_split [of "non_system ms" 4] by (auto simp: consolidate_small)
next
  case False
  have "last_n 8 (non_system ms) = take 4 (last_n 8 (non_system ms)) @ last_n 4 (non_system ms)"
    using last_n_split [of "last_n 8 (non_system ms)" 4] False
    by (simp add: last_n_last_n length_last_n)
  with False non_system_consolidate [of ms cm] show ?thesis
    by (metis append.assoc append_Cons linorder_not_le)
qed

lemma recent_emergency:
  "\<exists>pre. non_system (emergencyPrune order cm ms) = pre @ last_n 4 (non_system ms)"
  by (rule exI [of _ "[emergency_message order cm ms]"])
     (simp add: emergencyPrune_def Let_def last_n_self)

lemma last_n_suffix: "xs = pre @ ys \<Longrightarrow> length ys \<le> n \<Longrightarrow> \<exists>mid. last_n n xs = mid @ ys"
  by (simp add: last_n_def)

lemma recent_recent:
  assumes "xs = pre @ last_n n ys"
  shows "\<exists>mid. last_n n xs = mid @ last_n n ys"
  using last_n_suffix [OF assms] by (simp add: length_last_n)

lemma filter_system_consolidate:
  "length (filter is_system ms) \<le> 1 \<Longrightarrow> filter is_system (consolidateMessages cm ms) = filter is_system ms"
proof (cases "length (non_system ms) \<le> 10")
  case False
  assume l: "length (filter is_system ms) \<le> 1"
  have n: "filter is_system xs = []" if "set xs \<subseteq> set (non_system ms)" for xs
    using that by (auto simp: filter_empty_conv non_system_def)
  show ?thesis
    using False l n [OF set_take_subset] n [OF set_last_n]
    by (simp add: consolidate_large first_system_def)
qed (simp add: consolidate_small)

lemma filter_system_emergency:
  "length (filter is_system ms) \<le> 1 \<Longrightarrow> filter is_system (emergencyPrune order cm ms) = filter is_system ms"
proof -
  assume l: "length (filter is_system ms) \<le> 1"
  have n: "filter is_system xs = []" if "set xs \<subseteq> set (non_system ms)" for xs
    using that by (auto simp: filter_empty_conv non_system_def)
  show ?thesis
    using l n [OF set_last_n] n [OF subset_refl]
    by (simp add: emergencyPrune_def Let_def first_system_def)
qed

lemma user_text_consolidate:
  "\<exists>m \<in> set ms. user_text m \<Longrightarrow> \<exists>m \<in> set (consolidateMessages cm ms). user_text m"
  by (cases "length (non_system ms) \<le> 10") (auto simp: consolidate_small consolidate_large)

lemma user_text_emergency: "\<exists>m \<in> set (emergencyPrune order cm ms). user_text m"
  by (simp add: emergencyPrune_def Let_def)

lemma user_text_tools:
  assumes "\<exists>m \<in> set ms. user_text m"
  shows "\<exists>m \<in> set (truncateToolOutputs cm ms). user_text m"
proof -
  from assms obtain m where m: "m \<in> set ms" "user_text m" by blast
  then have "truncate_tool cm m \<in> set (truncateToolOutputs cm ms)"
    by (simp add: truncateToolOutputs_def)
  with m show ?thesis by (metis user_text_truncate)
qed

text \<open>The thresholds of the three levels and the manager \<open>CheckAndPrune\<close> leaves behind.\<close>

definition threshold :: "context_manager \<Rightarrow> float64 \<Rightarrow> int" where
  "threshold cm f = scale (EffectiveLimit (budget cm)) f"

definition after_prune :: "message list \<Rightarrow> context_manager \<Rightarrow> context_manager" where
  "after_prune ms cm = cm\<lparr>estimatedTokens := EstimateMessagesTokens ms, pruneCount := pruneCount cm + 1\<rparr>"

lemma after_prune_sel [simp]:
  "originalTask (after_prune ms cm) = originalTask cm"
  "toolOutputLimit (after_prune ms cm) = toolOutputLimit cm"
  by (simp_all add: after_prune_def)

lemma CheckAndPrune_levels:
  "snd (CheckAndPrune order ms cm) =
     (let est = EstimateMessagesTokens ms; cm' = after_prune ms cm; ts = truncateToolOutputs cm' ms in
      if \<not> enabled cm \<or> est < threshold cm f_0_6 then (ms, False)
      else if est < threshold cm f_0_75 then (ts, True)
      else if est < threshold cm f_0_9 then (consolidateMessages cm' ts, True)
      else (emergencyPrune order cm' (consolidateMessages cm' ts), True))"
  by (simp add: CheckAndPrune_def Let_def after_prune_def threshold_def)

lemma CheckAndPrune_cases:
  obtains (off) "snd (CheckAndPrune order ms cm) = (ms, False)"
  | (level1) "snd (CheckAndPrune order ms cm) = (truncateToolOutputs (after_prune ms cm) ms, True)"
  | (level2) "snd (CheckAndPrune order ms cm) =
      (consolidateMessages (after_prune ms cm) (truncateToolOutputs (after_prune ms cm) ms), True)"
  | (level3) "snd (CheckAndPrune order ms cm) =
      (emergencyPrune order (after_prune ms cm)
         (consolidateMessages (after_prune ms cm) (truncateToolOutputs (after_prune ms cm) ms)), True)"
  using CheckAndPrune_levels [of order ms cm] by (auto simp: Let_def split: if_splits)

section \<open>The interface the adapters rely on\<close>

text \<open>
  A pruner that answers \<open>False\<close> leaves the messages alone, never loses the last user text,
  and keeps the only system message.
\<close>

locale context_pruner =
  fixes prune :: "message list \<Rightarrow> message list \<times> bool"
  assumes prune_off: "\<not> snd (prune ms) \<Longrightarrow> fst (prune ms) = ms"
    and prune_user: "\<exists>m \<in> set ms. user_text m \<Longrightarrow> \<exists>m \<in> set (fst (prune ms)). user_text m"
    and prune_system: "length (filter is_system ms) \<le> 1 \<Longrightarrow>
      filter is_system (fst (prune ms)) = filter is_system ms"
begin

text \<open>What the three adapters do with it before converting a request.\<close>

lemma pruned_user:
  assumes "\<exists>m \<in> set ms. user_text m"
  shows "\<exists>m \<in> set (case prune ms of (ps, pruned) \<Rightarrow> if pruned then ps else ms). user_text m"
  using prune_user [OF assms] prune_off [of ms] assms by (simp add: case_prod_beta)

lemma pruned_system:
  assumes "length (filter is_system ms) \<le> 1"
  shows "filter is_system (case prune ms of (ps, pruned) \<Rightarrow> if pruned then ps else ms) =
    filter is_system ms"
  using prune_system [OF assms] by (simp add: case_prod_beta)

end

interpretation cm: context_pruner "\<lambda>ms. snd (CheckAndPrune order ms cm)" for order cm
proof unfold_locales
  fix ms
  show "fst (snd (CheckAndPrune order ms cm)) = ms" if "\<not> snd (snd (CheckAndPrune order ms cm))"
    using that by (cases rule: CheckAndPrune_cases [of order ms cm]) simp_all
  show "\<exists>m \<in> set (fst (snd (CheckAndPrune order ms cm))). user_text m" if "\<exists>m \<in> set ms. user_text m"
    using user_text_tools [OF that] that
    by (cases rule: CheckAndPrune_cases [of order ms cm])
       (simp_all add: user_text_consolidate user_text_emergency)
  show "filter is_system (fst (snd (CheckAndPrune order ms cm))) = filter is_system ms"
    if "length (filter is_system ms) \<le> 1"
    using that
    by (cases rule: CheckAndPrune_cases [of order ms cm])
       (simp_all add: filter_system_truncate filter_system_consolidate filter_system_emergency)
qed

section \<open>Properties\<close>

text \<open>Whatever level of pruning is applied, the last four messages that are not system
  messages come last again, changed at most by the truncation of tool outputs.\<close>

theorem prune_keeps_recent:
  "\<exists>pre f. non_system (fst (snd (CheckAndPrune order ms cm))) = pre @ map f (last_n 4 (non_system ms)) \<and>
     (\<forall>m. f m = m \<or> f m = truncate_tool cm m)"
proof -
  let ?cm = "after_prune ms cm"
  let ?ts = "truncateToolOutputs ?cm ms"
  have tool: "truncate_tool ?cm = truncate_tool cm" by (simp add: truncate_tool_def fun_eq_iff)
  have ts: "last_n 4 (non_system ?ts) = map (truncate_tool cm) (last_n 4 (non_system ms))"
    by (simp add: non_system_truncate) (simp add: truncateToolOutputs_def last_n_map tool)
  obtain p1 where p1: "non_system ?ts = p1 @ last_n 4 (non_system ?ts)" using last_n_split by blast
  obtain p2 where p2: "non_system (consolidateMessages ?cm ?ts) = p2 @ last_n 4 (non_system ?ts)"
    using recent_consolidate by blast
  obtain p3 m where p3: "non_system (emergencyPrune order ?cm (consolidateMessages ?cm ?ts)) =
      p3 @ m @ last_n 4 (non_system ?ts)"
    using recent_emergency [of order ?cm "consolidateMessages ?cm ?ts"] recent_recent [OF p2] by metis
  show ?thesis
  proof (cases rule: CheckAndPrune_cases [of order ms cm])
    case off
    then show ?thesis
      using last_n_split [of "non_system ms" 4] by (intro exI [of _ "\<lambda>m. m"] exI) auto
  next
    case level1
    then show ?thesis using p1 unfolding ts by (intro exI [of _ p1] exI [of _ "truncate_tool cm"]) simp
  next
    case level2
    then show ?thesis using p2 unfolding ts by (intro exI [of _ p2] exI [of _ "truncate_tool cm"]) simp
  next
    case level3
    then show ?thesis using p3 unfolding ts by (intro exI [of _ "p3 @ m"] exI [of _ "truncate_tool cm"]) simp
  qed
qed

lemma thresholds_ordered:
  assumes "0 \<le> EffectiveLimit (budget cm)"
  shows "threshold cm f_0_6 \<le> threshold cm f_0_75" and "threshold cm f_0_75 \<le> threshold cm f_0_9"
  using assms by (simp_all add: threshold_def f_0_6_def f_0_75_def f_0_9_def scale_mono)

lemma emergency_level:
  assumes "enabled cm" and "0 \<le> EffectiveLimit (budget cm)"
    and "scale (EffectiveLimit (budget cm)) f_0_9 \<le> EstimateMessagesTokens ms"
  shows "fst (snd (CheckAndPrune order ms cm)) = emergencyPrune order (after_prune ms cm)
    (consolidateMessages (after_prune ms cm) (truncateToolOutputs (after_prune ms cm) ms))"
  using assms thresholds_ordered [OF assms(2)]
  by (simp add: CheckAndPrune_levels Let_def threshold_def)

lemma length_first_system: "length (first_system ms) \<le> 1"
  by (simp add: first_system_def)

lemma length_emergency: "length (emergencyPrune order cm ms) \<le> 6"
  using length_first_system [of ms] by (simp add: emergencyPrune_def Let_def length_last_n)

lemma emergency_message_task:
  "contains_str (mContent (emergency_message order cm ms)) (originalTask cm)"
proof (cases "originalTask cm = ''''")
  case False
  let ?s = "createEmergencySummary order ms"
  have "mContent (emergency_message order cm ms) =
     (''[CONTEXT EMERGENCY: Conversation condensed due to token limits]'' @ newline @ newline @
      ''## ORIGINAL TASK (must complete):'' @ newline) @ originalTask cm @
     (newline @ newline @
      (if ?s \<noteq> '''' then ''## PROGRESS SUMMARY:'' @ newline @ ?s @ newline @ newline else '''') @
      ''Continue working on the task above.'')"
    using False by (simp add: emergency_message_def user_message_def Let_def)
  then show ?thesis by (simp only: contains_str_mid)
qed simp

text \<open>C13. From ninety percent of the budget on, the result is at most six messages, and one
  of them is a user message that repeats the original task in full.\<close>

theorem emergency_keeps_task:
  assumes "enabled cm" and "0 \<le> EffectiveLimit (budget cm)"
    and "scale (EffectiveLimit (budget cm)) f_0_9 \<le> EstimateMessagesTokens ms"
  shows "length (fst (snd (CheckAndPrune order ms cm))) \<le> 6 \<and>
    (\<exists>m \<in> set (fst (snd (CheckAndPrune order ms cm))). mRole m = RoleUser \<and>
       contains_str (mContent m) (originalTask cm))"
proof -
  let ?ms = "consolidateMessages (after_prune ms cm) (truncateToolOutputs (after_prune ms cm) ms)"
  let ?m = "emergency_message order (after_prune ms cm) ?ms"
  have "?m \<in> set (emergencyPrune order (after_prune ms cm) ?ms)"
    by (simp add: emergencyPrune_def Let_def)
  moreover have "mRole ?m = RoleUser" by (simp add: emergency_message_def user_message_def Let_def)
  moreover have "contains_str (mContent ?m) (originalTask cm)"
    using emergency_message_task [of order "after_prune ms cm" ?ms] by simp
  ultimately show ?thesis
    using length_emergency by (simp add: emergency_level [OF assms]) blast
qed

definition demo_cm :: context_manager where
  "demo_cm = (NewContextManager \<lparr>MaxInputTokens = 20, MaxOutputTokens = 10, SafetyMargin = f_0_1\<rparr> 0)
     \<lparr>originalTask := ''fix it''\<rparr>"

lemma demo_limit: "EffectiveLimit (budget demo_cm) = 18"
  by (simp add: demo_cm_def NewContextManager_def EffectiveLimit_def f_0_1_def float_of_int_def
    round53_def round53_nat_def round_bits_def Let_def bit_count.simps)

theorem emergency_keeps_task_witness:
  "length (fst (snd (CheckAndPrune id (replicate 9 (user_message ''go'')) demo_cm))) \<le> 6"
proof -
  have "enabled demo_cm" by (simp add: demo_cm_def NewContextManager_def)
  moreover have "scale 18 f_0_9 = 16"
    by (simp add: scale_def f_0_9_def float_of_int_def
      round53_def round53_nat_def round_bits_def Let_def bit_count.simps)
  moreover have "EstimateMessagesTokens (replicate 9 (user_message ''go'')) = 36"
    by (simp add: EstimateMessagesTokens_def EstimateMessageTokens_def EstimateTokens_def
      user_message_def sum_list_replicate)
  ultimately show ?thesis
    using emergency_keeps_task [of demo_cm "replicate 9 (user_message ''go'')" id] demo_limit by simp
qed

text \<open>The default budgets leave ten percent of each provider's window free.\<close>

theorem default_limits:
  "EffectiveLimit (BudgetForModel ''gemini/gemini-2.5-pro'') = 943718 \<and>
   EffectiveLimit (BudgetForModel ''zai/glm-4.7'') = 117964 \<and>
   EffectiveLimit (BudgetForModel ''claude-opus-4-5'') = 180000"
  by (simp add: BudgetForModel_def DetectFamily_def has_prefix_def EffectiveLimit_def f_0_1_def
    float_of_int_def round53_def round53_nat_def round_bits_def Let_def bit_count.simps)

end
