(* ===== verification/Dispatch.thy ===== *)
theory Dispatch
  imports InFlight Pipeline Backlog Supervisor ContextManager
begin

text \<open>
  \<open>asyncDispatcher\<close> of \<open>internal/agent/async.go\<close>: the tool call that starts a sub-agent and
  the goroutine that follows it.

  The agent is outside the program: what its \<open>Run\<close> returns, an error or a channel of
  events, is an input.  The goroutine is a deterministic thread over a world it shares with
  the rest of the program; each of its calls on a shared object is one step, and between two
  steps any other goroutine may act.  Logging, the context manager's counters and the
  project context, which only changes the message the agent gets, are not modelled.
\<close>

section \<open>The tool call\<close>

record dispatch_request =
  rqAgentName :: string
  rqTask :: string
  rqPolicy :: string
  rqPipeline :: string
  rqBacklogItemID :: string

text \<open>\<open>agents\<close> lists the registered names in the order Go ranges over them.\<close>

record dispatcher =
  agents :: "string list"
  pipelines :: "pipeline list"
  pipelineAgents :: "string \<rightharpoonup> pipeline_agent"
  maxTurns :: int

definition new_dispatcher ::
  "string list \<Rightarrow> pipeline list \<Rightarrow> (string \<rightharpoonup> pipeline_agent) \<Rightarrow> int list \<Rightarrow> dispatcher" where
  "new_dispatcher ags ps pas turns =
     \<lparr>agents = ags, pipelines = ps, pipelineAgents = pas,
      maxTurns = (case turns of t # _ \<Rightarrow> if t > 0 then t else 75 | [] \<Rightarrow> 75)\<rparr>"

definition policy_of :: "dispatch_request \<Rightarrow> trigger_policy" where
  "policy_of req = (if rqPolicy req = '''' then TriggerAuto else rqPolicy req)"

text \<open>The pipeline stage the request belongs to: the agent's own, if that pipeline was asked for.\<close>

definition stage_of :: "dispatcher \<Rightarrow> dispatch_request \<Rightarrow> pipeline_agent option" where
  "stage_of d req =
     (if rqPipeline req = '''' then None
      else (case pipelineAgents d (rqAgentName req) of
              None \<Rightarrow> None
            | Some pa \<Rightarrow> if paPipeline pa = rqPipeline req then Some pa else None))"

definition missing_stage :: "inflight_store \<Rightarrow> string \<Rightarrow> pipeline_agent \<Rightarrow> nat option" where
  "missing_stage s sid pa =
     find (\<lambda>stage. \<not> IsPipelineStageCompleted sid (paPipeline pa) (int stage) s) [1..<paStage pa]"

definition maxPipelineDuration :: duration where
  "maxPipelineDuration = 2 * hour"

definition gate_error :: "dispatcher \<Rightarrow> dispatch_request \<Rightarrow> pipeline_agent \<Rightarrow> nat \<Rightarrow> string" where
  "gate_error d req pa stage =
     ''cannot dispatch '' @ quote (rqAgentName req) @ '' '' @ em_dash @ '' pipeline '' @
     quote (paPipeline pa) @ '' requires stage '' @ itoa (int stage) @ '' ('' @
     FindAgentAtStage (pipelines d) (paPipeline pa) stage @
     '') to complete first; wait for the [Task Completed] callback''"

definition duration_error :: "pipeline_agent \<Rightarrow> duration \<Rightarrow> string" where
  "duration_error pa elapsed =
     ''pipeline '' @ quote (paPipeline pa) @ '' has been running for '' @
     duration_string (round_duration elapsed minute) @ '' (limit '' @
     duration_string maxPipelineDuration @ ''); aborting''"

text \<open>The stage gate and the time limit: the store, in which the start may have been recorded,
  and the refusal.\<close>

definition pipeline_check ::
  "time \<Rightarrow> time \<Rightarrow> dispatcher \<Rightarrow> dispatch_request \<Rightarrow> string \<Rightarrow> inflight_store \<Rightarrow> inflight_store \<times> string option" where
  "pipeline_check now now' d req sid s =
     (case stage_of d req of
        None \<Rightarrow> (s, None)
      | Some pa \<Rightarrow>
          (case missing_stage s sid pa of
             Some stage \<Rightarrow> (s, Some (gate_error d req pa stage))
           | None \<Rightarrow>
               (let s1 = (if paStage pa = 1 then RecordPipelineStart now sid (paPipeline pa) (rqTask req) s else s);
                    elapsed = PipelineElapsed now' sid (paPipeline pa) s1
                in if elapsed > maxPipelineDuration then (s1, Some (duration_error pa elapsed))
                   else (s1, None))))"

text \<open>\<open>dispatch\<close> up to the start of the goroutine: the store, the acknowledgment sent to the
  user's session, and the task identifier or the refusal.\<close>

definition dispatch ::
  "time \<Rightarrow> time \<Rightarrow> time \<Rightarrow> dispatcher \<Rightarrow> bool \<Rightarrow> string \<Rightarrow> string \<Rightarrow> string \<Rightarrow> dispatch_request \<Rightarrow> inflight_store \<Rightarrow>
   inflight_store \<times> (string \<times> string) list \<times> string go_result" where
  "dispatch now now' now'' d ackFn sid uid taskID req s =
     (if rqAgentName req \<notin> set (agents d) then
        (s, [], Inl (''unknown agent '' @ quote (rqAgentName req) @ '', available: '' @ join_str '', '' (agents d)))
      else (case pipeline_check now now' d req sid s of
              (s1, Some err) \<Rightarrow> (s1, [], Inl err)
            | (s1, None) \<Rightarrow>
                (Register now'' taskID (rqAgentName req) (rqTask req) (policy_of req) sid uid
                   (case stage_of d req of None \<Rightarrow> '''' | Some pa \<Rightarrow> paPipeline pa)
                   (case stage_of d req of None \<Rightarrow> 0 | Some pa \<Rightarrow> int (paStage pa)) s1,
                 (if sid \<noteq> '''' \<and> ackFn
                  then [(sid, ''Asking '' @ rqAgentName req @ '': '' @ truncate_str (rqTask req) 100)]
                  else []),
                 Inr taskID)))"

section \<open>The goroutine\<close>

record world =
  wStore :: inflight_store
  wBacklog :: "table option"
  wSupervisor :: "supervisor option"
  wCtxErr :: bool
  wCompletions :: "(string \<times> string option) list"

text \<open>
  An event of the channel with a response: its token usage, its error message, the tool
  names and the text of its first choice, and the clocks read while it is handled; an event
  that is nil or has no response is \<open>None\<close>.
\<close>

record response_event =
  reUsage :: "token_usage option"
  reError :: "string option"
  reChoice :: "(string list \<times> string) option"
  reTime :: time
  reTime' :: time
  reEvalTime :: time
  reEvalTime' :: time
  reOrder :: "string list"

record loop_state =
  lsResult :: string
  lsTurns :: int
  lsErrors :: nat

datatype effect =
  EStore store_op
| EFailBacklog time
| EBacklogComplete time string
| EBacklogItem time
| EBacklogParent time string
| EParentDone time string
| ECompletion string "string option"
| ECancelCtx

text \<open>The four statements that end a task early.\<close>

definition abort_with :: "string \<Rightarrow> time \<Rightarrow> string \<Rightarrow> string \<Rightarrow> effect list" where
  "abort_with taskID now storeMsg msg =
     [EStore (OpFail now taskID storeMsg), EFailBacklog now, ECompletion '''' (Some msg), ECancelCtx]"

definition call_limit_message :: "string \<Rightarrow> string \<Rightarrow> string" where
  "call_limit_message agentName err =
     ''CALL LIMIT REACHED: agent '' @ quote agentName @ '' exhausted its call budget. Do NOT retry with the same task scope. Instead: (1) break the task into smaller subtasks and dispatch each separately, or (2) inform the user that the task is too complex for a single agent run. Original error: '' @ err"

datatype outcome = Stop | NextEvent loop_state | Supervise loop_state task_event

definition tool_event :: "response_event \<Rightarrow> int \<Rightarrow> string list \<Rightarrow> task_event" where
  "tool_event e turn names = \<lparr>evTimestamp = reTime e, evType = ''tool_call'', evTurn = turn,
     evTools = names, evContent = '''', evTokens = reUsage e\<rparr>"

definition text_event :: "response_event \<Rightarrow> int \<Rightarrow> string \<Rightarrow> task_event" where
  "text_event e turn content = \<lparr>evTimestamp = reTime' e, evType = ''response'', evTurn = turn,
     evTools = [], evContent = truncate_str content 200, evTokens = reUsage e\<rparr>"

definition supervisor_event :: "int \<Rightarrow> string list \<Rightarrow> string \<Rightarrow> task_event" where
  "supervisor_event turn names content = \<lparr>evTimestamp = 0,
     evType = (if names \<noteq> [] then ''tool_call'' else ''response''), evTurn = turn,
     evTools = names, evContent = content, evTokens = None\<rparr>"

text \<open>One turn of the event loop, up to the supervisor.\<close>

definition handle_event ::
  "dispatcher \<Rightarrow> dispatch_request \<Rightarrow> string \<Rightarrow> loop_state \<Rightarrow> response_event \<Rightarrow> effect list \<times> outcome" where
  "handle_event d req taskID ls e =
     (let turn = lsTurns ls + 1; ls1 = ls\<lparr>lsTurns := turn\<rparr> in
      if turn \<ge> maxTurns d then
        (let msg = ''aborted: exceeded '' @ itoa (maxTurns d) @ '' turns without completing''
         in (abort_with taskID (reTime e) msg msg, Stop))
      else
        (case reError e of
           Some err \<Rightarrow>
             if isCallLimitError err then
               (let msg = call_limit_message (rqAgentName req) err
                in (abort_with taskID (reTime e) msg msg, Stop))
             else if IsTokenOverflowError err then
               (let msg = ''context overflow: '' @ err in (abort_with taskID (reTime e) msg msg, Stop))
             else
               (let add = EStore (OpAddEvent taskID \<lparr>evTimestamp = reTime e, evType = ''error'', evTurn = turn,
                            evTools = [], evContent = err, evTokens = reUsage e\<rparr>);
                    n = lsErrors ls + 1;
                    msg = ''aborted after '' @ itoa (int n) @ '' consecutive errors''
                in if n \<ge> 3 then (add # abort_with taskID (reTime' e) (msg @ '': '' @ err) msg, Stop)
                   else ([add], NextEvent (ls1\<lparr>lsErrors := n\<rparr>)))
         | None \<Rightarrow>
             (case reChoice e of
                None \<Rightarrow> ([], NextEvent ls1)
              | Some (names, content) \<Rightarrow>
                  ((if names \<noteq> [] then [EStore (OpAddEvent taskID (tool_event e turn names))] else []) @
                   (if content \<noteq> '''' then [EStore (OpAddEvent taskID (text_event e turn content))] else []),
                   Supervise
                     (ls1\<lparr>lsErrors := 0, lsResult := (if content \<noteq> '''' then content else lsResult ls)\<rparr>)
                     (supervisor_event turn names content)))))"

section \<open>The thread's program counter\<close>

datatype pc =
  Looping loop_state "response_event option list"
| Supervising loop_state task_event response_event "response_event option list"
| LoopDone loop_state time
| CtxDone loop_state time
| Doing "effect list" pc
| Finished

text \<open>A channel, and the clock when the goroutine has drained it.\<close>

definition start_thread ::
  "dispatch_request \<Rightarrow> string \<Rightarrow> string + (response_event option list) \<Rightarrow> time \<Rightarrow> pc" where
  "start_thread req taskID run now =
     Doing [EStore (OpSetCancelFunc taskID taskID)]
       (case run of
          Inl err \<Rightarrow>
            (let msg = (if isCallLimitError err then call_limit_message (rqAgentName req) err else err)
             in Doing [EStore (OpFail now taskID msg), EFailBacklog now, ECompletion '''' (Some msg)] Finished)
        | Inr evs \<Rightarrow> Looping \<lparr>lsResult = '''', lsTurns = 0, lsErrors = 0\<rparr> evs)"

definition on_backlog ::
  "dispatch_request \<Rightarrow> world \<Rightarrow> (table \<Rightarrow> table \<times> effect list) \<Rightarrow> world \<times> effect list" where
  "on_backlog req w f =
     (case wBacklog w of
        None \<Rightarrow> (w, [])
      | Some tab \<Rightarrow> if rqBacklogItemID req = '''' then (w, [])
                    else (let (tab', es) = f tab in (w\<lparr>wBacklog := Some tab'\<rparr>, es)))"

definition status_update :: "string \<Rightarrow> backlog_update" where
  "status_update st = \<lparr>uTitle = None, uDescription = None, uPriority = None, uStatus = Some st,
     uParentID = None, uDeliberationID = None\<rparr>"

text \<open>Performing one effect: the world, and the effects that follow from what was read.\<close>

fun perform :: "dispatch_request \<Rightarrow> effect \<Rightarrow> world \<Rightarrow> world \<times> effect list" where
  "perform req (EStore x) w = (w\<lparr>wStore := store_step (wStore w) x\<rparr>, [])"
| "perform req (EFailBacklog now) w = on_backlog req w (\<lambda>tab.
     (backlog_step tab (BUpdate now (rqBacklogItemID req) (status_update ''failed'')), []))"
| "perform req (EBacklogComplete now summary) w = on_backlog req w (\<lambda>tab.
     (case Backlog.Complete now (rqBacklogItemID req) summary tab of
        Inl _ \<Rightarrow> (tab, [])
      | Inr tab' \<Rightarrow> (tab', [EBacklogItem now])))"
| "perform req (EBacklogItem now) w = on_backlog req w (\<lambda>tab.
     (tab, case Backlog.Get (rqBacklogItemID req) tab of
             Inl _ \<Rightarrow> []
           | Inr it \<Rightarrow> if itParentID it \<noteq> '''' then [EBacklogParent now (itParentID it)] else []))"
| "perform req (EBacklogParent now pid) w = on_backlog req w (\<lambda>tab.
     (tab, if CheckParentCompletion pid tab then [EParentDone now pid] else []))"
| "perform req (EParentDone now pid) w = on_backlog req w (\<lambda>tab.
     (backlog_step tab (BUpdate now pid (status_update ''completed'')), []))"
| "perform req (ECompletion result err) w = (w\<lparr>wCompletions := wCompletions w @ [(result, err)]\<rparr>, [])"
| "perform req ECancelCtx w = (w\<lparr>wCtxErr := True\<rparr>, [])"

definition cancelled_message :: "dispatcher \<Rightarrow> dispatch_request \<Rightarrow> string" where
  "cancelled_message d req =
     (case stage_of d req of
        None \<Rightarrow> ''cancelled by user''
      | Some pa \<Rightarrow> ''cancelled by user '' @ em_dash @ '' pipeline '' @ quote (paPipeline pa) @ '' stage '' @
          itoa (int (paStage pa)) @ '' ('' @ rqAgentName req @ '') can be retried by dispatching the same agent again'')"

text \<open>The completion phase, after the loop ended with a live context.\<close>

definition completion_effects ::
  "dispatcher \<Rightarrow> dispatch_request \<Rightarrow> string \<Rightarrow> string \<Rightarrow> time \<Rightarrow> string \<Rightarrow> effect list" where
  "completion_effects d req taskID sid now result =
     [EStore (OpComplete now taskID result), EBacklogComplete now (truncate_str result 200)] @
     (case stage_of d req of
        None \<Rightarrow> []
      | Some pa \<Rightarrow> [EStore (OpRecordStage sid (paPipeline pa) (int (paStage pa)))]) @
     [ECompletion result None]"

definition supervise ::
  "(string \<Rightarrow> string \<Rightarrow> string go_result) \<Rightarrow> dispatch_request \<Rightarrow> string \<Rightarrow> task_event \<Rightarrow> response_event \<Rightarrow> world \<Rightarrow>
   world \<times> verdict" where
  "supervise ask req taskID evt e w =
     (case wSupervisor w of
        None \<Rightarrow> (w, continue_verdict)
      | Some s \<Rightarrow> (let (s', v) = Evaluate ask (reEvalTime e) (reEvalTime' e) (reOrder e) taskID evt (rqTask req) s
                   in (w\<lparr>wSupervisor := Some s'\<rparr>, v)))"

fun thread_step ::
  "(string \<Rightarrow> string \<Rightarrow> string go_result) \<Rightarrow> dispatcher \<Rightarrow> dispatch_request \<Rightarrow> string \<Rightarrow> string \<Rightarrow> time \<Rightarrow>
   pc \<Rightarrow> world \<Rightarrow> (pc \<times> world) option" where
  "thread_step ask d req taskID sid now (Looping ls []) w = Some (LoopDone ls now, w)"
| "thread_step ask d req taskID sid now (Looping ls (None # evs)) w = Some (Looping ls evs, w)"
| "thread_step ask d req taskID sid now (Looping ls (Some e # evs)) w =
     (case handle_event d req taskID ls e of
        (es, Stop) \<Rightarrow> Some (Doing es Finished, w)
      | (es, NextEvent ls') \<Rightarrow> Some (Doing es (Looping ls' evs), w)
      | (es, Supervise ls' evt) \<Rightarrow> Some (Doing es (Supervising ls' evt e evs), w))"
| "thread_step ask d req taskID sid now (Supervising ls evt e evs) w =
     (let (w', v) = supervise ask req taskID evt e w in
      if Action v = ''abort'' then Some (Doing (abort_with taskID (reEvalTime' e) (Reason v) (Reason v)) Finished, w')
      else Some (Looping ls evs, w'))"
| "thread_step ask d req taskID sid now (LoopDone ls t) w =
     (if wCtxErr w then Some (CtxDone ls t, w)
      else Some (Doing (completion_effects d req taskID sid t (lsResult ls)) Finished, w))"
| "thread_step ask d req taskID sid now (CtxDone ls t) w =
     (let cancelled = (case InFlight.Get taskID (wStore w) of None \<Rightarrow> False | Some st \<Rightarrow> Status st = TaskCancelled);
          msg = ''timed out after '' @ itoa (lsTurns ls) @ '' turns''
      in if cancelled
         then Some (Doing [EFailBacklog t, ECompletion '''' (Some (cancelled_message d req))] Finished, w)
         else Some (Doing [EStore (OpFail t taskID msg), EFailBacklog t, ECompletion '''' (Some msg)] Finished, w))"
| "thread_step ask d req taskID sid now (Doing [] next) w = Some (next, w)"
| "thread_step ask d req taskID sid now (Doing (x # es) next) w =
     (let (w', more) = perform req x w in Some (Doing (more @ es) next, w'))"
| "thread_step ask d req taskID sid now Finished w = None"

section \<open>Interleaving with the rest of the program\<close>

text \<open>
  What other goroutines do between two steps: an operation on the store (a cancel also
  cancels the context whose function was stored, here named after the task), on the backlog
  or on the supervisor, and the deadline of the context.
\<close>

datatype env_op = EnvStore store_op | EnvBacklog backlog_op | EnvSupervisor supervisor_op | EnvDeadline

definition cancels :: "string \<Rightarrow> inflight_store \<Rightarrow> store_op \<Rightarrow> bool" where
  "cancels taskID s x = (case x of OpCancel now tid \<Rightarrow> taskID \<in> set (snd (snd (Cancel now tid s))) | _ \<Rightarrow> False)"

fun env_step :: "string \<Rightarrow> env_op \<Rightarrow> world \<Rightarrow> world" where
  "env_step taskID (EnvStore x) w =
     w\<lparr>wStore := store_step (wStore w) x, wCtxErr := wCtxErr w \<or> cancels taskID (wStore w) x\<rparr>"
| "env_step taskID (EnvBacklog x) w = w\<lparr>wBacklog := map_option (\<lambda>tab. backlog_step tab x) (wBacklog w)\<rparr>"
| "env_step taskID (EnvSupervisor x) w = w\<lparr>wSupervisor := map_option (\<lambda>s. supervisor_step s x) (wSupervisor w)\<rparr>"
| "env_step taskID EnvDeadline w = w\<lparr>wCtxErr := True\<rparr>"

inductive dispatch_step ::
  "(string \<Rightarrow> string \<Rightarrow> string go_result) \<Rightarrow> dispatcher \<Rightarrow> dispatch_request \<Rightarrow> string \<Rightarrow> string \<Rightarrow>
   pc \<times> world \<Rightarrow> pc \<times> world \<Rightarrow> bool"
  for ask d req taskID sid where
  thread: "thread_step ask d req taskID sid now p w = Some (p', w') \<Longrightarrow>
     dispatch_step ask d req taskID sid (p, w) (p', w')"
| other: "dispatch_step ask d req taskID sid (p, w) (p, env_step taskID x w)"

inductive_cases dispatch_stepE: "dispatch_step ask d req taskID sid (p, w) (p', w')"

lemma dispatch_step_cases:
  assumes "dispatch_step ask d req taskID sid (p, w) (p', w')"
  obtains (thread) now where "thread_step ask d req taskID sid now p w = Some (p', w')"
  | (other) x where "p' = p" "w' = env_step taskID x w"
  using assms by (rule dispatch_stepE) auto

inductive_simps dispatch_step_finished:
  "dispatch_step ask d req taskID sid (Finished, w) (p', w')"

inductive dispatch_reach ::
  "(string \<Rightarrow> string \<Rightarrow> string go_result) \<Rightarrow> dispatcher \<Rightarrow> dispatch_request \<Rightarrow> string \<Rightarrow> string \<Rightarrow>
   pc \<times> world \<Rightarrow> pc \<times> world \<Rightarrow> bool"
  for ask d req taskID sid c where
  start: "dispatch_reach ask d req taskID sid c c"
| step: "dispatch_reach ask d req taskID sid c c' \<Longrightarrow> dispatch_step ask d req taskID sid c' c'' \<Longrightarrow>
     dispatch_reach ask d req taskID sid c c''"

section \<open>The gate\<close>

lemma missing_stage_None:
  "missing_stage s sid pa = None \<Longrightarrow> \<forall>i \<in> {1..<paStage pa}. IsPipelineStageCompleted sid (paPipeline pa) (int i) s"
  by (auto simp: missing_stage_def find_None_iff)

lemma Elapsed_Register [simp]:
  "PipelineElapsed n sid p (Register now tid a t pol si u pn ps s) = PipelineElapsed n sid p s"
  by (simp add: PipelineElapsed_def Register_def)

text \<open>C7. A request for a pipeline stage is accepted only when every earlier stage of that
  pipeline was completed in the same session and the pipeline has run for at most two hours;
  the accepted task is then registered as running.\<close>

theorem pipeline_gate:
  assumes "dispatch now now' now'' d ackFn sid uid tid req s = (s', acks, Inr t)"
    and "stage_of d req = Some pa"
  shows "(\<forall>i \<in> {1..<paStage pa}. IsPipelineStageCompleted sid (paPipeline pa) (int i) s) \<and>
    PipelineElapsed now' sid (paPipeline pa) s' \<le> maxPipelineDuration \<and>
    t = tid \<and> map_option Status (InFlight.Get tid s') = Some TaskRunning"
proof -
  obtain s1 err where pcheck: "pipeline_check now now' d req sid s = (s1, err)" by fastforce
  with assms(1) have none: "err = None" and t: "t = tid"
    and s': "s' = Register now'' tid (rqAgentName req) (rqTask req) (policy_of req) sid uid
       (paPipeline pa) (int (paStage pa)) s1"
    using assms(2) by (auto simp: dispatch_def split: if_splits option.splits)
  have run: "map_option Status (InFlight.Get tid s') = Some TaskRunning"
    by (simp add: s' InFlight.Get_def Register_def)
  have "missing_stage s sid pa = None"
    using pcheck none assms(2) by (auto simp: pipeline_check_def split: option.splits)
  moreover have "PipelineElapsed now' sid (paPipeline pa) s1 \<le> maxPipelineDuration"
    using pcheck none assms(2) by (auto simp: pipeline_check_def Let_def split: option.splits if_splits)
  ultimately show ?thesis using missing_stage_None t run s' by simp
qed

section \<open>One completion callback\<close>

definition is_completion :: "effect \<Rightarrow> bool" where
  "is_completion x = (case x of ECompletion _ _ \<Rightarrow> True | _ \<Rightarrow> False)"

fun owed :: "pc \<Rightarrow> nat" where
  "owed Finished = 0"
| "owed (Doing es next) = length (filter is_completion es) + owed next"
| "owed _ = 1"

lemma on_backlog_completions:
  "wCompletions (fst (on_backlog req w f)) = wCompletions w"
  by (simp add: on_backlog_def case_prod_beta split: option.split)

lemma on_backlog_store:
  "wStore (fst (on_backlog req w f)) = wStore w"
  by (simp add: on_backlog_def case_prod_beta split: option.split)

lemma on_backlog_more:
  "(\<And>tab. \<forall>x \<in> set (snd (f tab)). P x) \<Longrightarrow> \<forall>x \<in> set (snd (on_backlog req w f)). P x"
  by (simp add: on_backlog_def case_prod_beta split: option.split)

text \<open>The effects that follow from reading the backlog only concern the backlog.\<close>

definition backlog_only :: "effect \<Rightarrow> bool" where
  "backlog_only x = (case x of EBacklogItem _ \<Rightarrow> True | EBacklogParent _ _ \<Rightarrow> True | EParentDone _ _ \<Rightarrow> True | _ \<Rightarrow> False)"

lemma perform_more: "\<forall>y \<in> set (snd (perform req x w)). backlog_only y"
  by (cases x) (auto intro!: on_backlog_more simp: backlog_only_def split: sum.splits)

lemma backlog_only_completion: "\<forall>y \<in> set es. backlog_only y \<Longrightarrow> filter is_completion es = []"
  by (auto simp: filter_empty_conv backlog_only_def is_completion_def split: effect.splits)

lemma perform_completions:
  "wCompletions (fst (perform req x w)) =
     wCompletions w @ (case x of ECompletion r e \<Rightarrow> [(r, e)] | _ \<Rightarrow> [])"
  by (cases x) (simp_all add: on_backlog_completions)

lemma supervise_keeps:
  "wCompletions (fst (supervise ask req tid evt e w)) = wCompletions w"
  "wStore (fst (supervise ask req tid evt e w)) = wStore w"
  by (simp_all add: supervise_def case_prod_beta split: option.split)

lemma completions_abort: "length (filter is_completion (abort_with tid now m1 m2)) = 1"
  by (simp add: abort_with_def is_completion_def)

lemma completions_done: "length (filter is_completion (completion_effects d req tid sid t r)) = 1"
  by (simp add: completion_effects_def is_completion_def split: option.split)

lemma handle_event_completions:
  "handle_event d req tid ls e = (es, out) \<Longrightarrow>
     length (filter is_completion es) = (if out = Stop then 1 else 0)"
  by (auto simp: handle_event_def Let_def completions_abort is_completion_def
      split: if_splits option.splits prod.splits)

lemma thread_owed:
  "thread_step ask d req tid sid now p w = Some (p', w') \<Longrightarrow>
     length (wCompletions w') + owed p' = length (wCompletions w) + owed p"
proof (induction ask d req tid sid now p w rule: thread_step.induct)
  case (3 ask d req tid sid now ls e evs w)
  obtain es out where h: "handle_event d req tid ls e = (es, out)" by fastforce
  with 3 handle_event_completions [OF h] show ?case by (auto split: outcome.splits)
next
  case (4 ask d req tid sid now ls evt e evs w)
  then show ?case
    using supervise_keeps(1) [of ask req tid evt e w]
    by (auto simp: case_prod_beta Let_def completions_abort split: if_splits)
next
  case (5 ask d req tid sid now ls t w)
  then show ?case by (auto simp: completions_done split: if_splits)
next
  case (6 ask d req tid sid now ls t w)
  then show ?case by (auto simp: Let_def is_completion_def split: if_splits)
next
  case (8 ask d req tid sid now x es nxt w)
  then show ?case
    using backlog_only_completion [OF perform_more, of req x w] perform_completions [of req x w]
    by (cases x) (auto simp: case_prod_beta is_completion_def)
qed auto

lemma env_completions: "wCompletions (env_step tid x w) = wCompletions w"
  by (cases x) simp_all

lemma owed_start: "owed (start_thread req tid run now) = 1"
  by (simp add: start_thread_def is_completion_def Let_def split: sum.split)

text \<open>C5. The completion callback is called exactly once: in every interleaving with the rest of
  the program, the calls made and the call still owed add up to one.  When the goroutine has
  finished, nothing is owed.\<close>

theorem one_completion:
  assumes "dispatch_reach ask d req tid sid (start_thread req tid run now, w0) (p, w)"
    and "wCompletions w0 = []"
  shows "length (wCompletions w) + owed p = 1"
  using assms(1)
proof (induction "(p, w)" arbitrary: p w rule: dispatch_reach.induct)
  case start
  then show ?case using assms(2) by (simp add: owed_start)
next
  case (step c')
  obtain p1 w1 where c': "c' = (p1, w1)" by fastforce
  from step.hyps(3) [unfolded c'] show ?case
    by (cases rule: dispatch_step_cases)
       (use step.hyps(2) [OF c'] thread_owed env_completions in \<open>fastforce+\<close>)
qed


section \<open>Success means the stage is recorded\<close>

lemma progress_reap: "pipelineProgress (fst (reapExpiredExternal now ks s)) = pipelineProgress s"
  by (induction now ks s rule: reapExpiredExternal.induct) (auto split: option.splits prod.splits)

lemma progress_queued: "pipelineProgress (fst (QueuedResults ks s)) = pipelineProgress s"
  by (induction ks s rule: QueuedResults.induct) (auto split: option.splits prod.splits)

lemma progress_update_task [simp]: "pipelineProgress (update_task tid f s) = pipelineProgress s"
  by (simp add: update_task_def split: option.split)

lemma progress_step:
  "(\<forall>si p k. x \<noteq> OpRecordStage si p k) \<Longrightarrow> pipelineProgress (store_step s x) = pipelineProgress s"
  by (cases x)
     (simp_all add: Register_def RegisterApproval_def RegisterExternal_def AddEvent_def UpdateTask_def
       InFlight.Complete_def Fail_def AddTokenUsage_def SetCancelFunc_def Cancel_def progress_reap
       progress_queued RecordPipelineStart_def GetOrCreateWorldModel_def CleanupWorldModel_def Let_def
       split: option.split)

lemma completed_record [simp]:
  "IsPipelineStageCompleted sid p i (RecordPipelineStage sid p i s)"
  by (simp add: IsPipelineStageCompleted_def RecordPipelineStage_def lookup2_def update2_def
      split: option.split)

lemma completed_mono:
  "IsPipelineStageCompleted sid p i s \<Longrightarrow> IsPipelineStageCompleted sid p i (store_step s x)"
proof (cases "\<exists>si q k. x = OpRecordStage si q k")
  case True
  then obtain si q k where x: "x = OpRecordStage si q k" by blast
  assume c: "IsPipelineStageCompleted sid p i s"
  show ?thesis
  proof (cases "si = sid \<and> q = p \<and> k = i")
    case False
    with c show ?thesis
      by (auto simp: x IsPipelineStageCompleted_def RecordPipelineStage_def lookup2_def update2_def
        split: option.splits if_splits)
  qed (simp add: x)
next
  case False
  assume "IsPipelineStageCompleted sid p i s"
  with False progress_step [of x s] show ?thesis by (simp add: IsPipelineStageCompleted_def)
qed

definition recorded :: "string \<Rightarrow> pipeline_agent \<Rightarrow> world \<Rightarrow> bool" where
  "recorded sid pa w = IsPipelineStageCompleted sid (paPipeline pa) (int (paStage pa)) (wStore w)"

fun records_first :: "string \<Rightarrow> pipeline_agent \<Rightarrow> bool \<Rightarrow> effect list \<Rightarrow> bool" where
  "records_first sid pa r [] = True"
| "records_first sid pa r (x # es) =
     ((\<forall>res. x = ECompletion res None \<longrightarrow> r) \<and>
      records_first sid pa (r \<or> x = EStore (OpRecordStage sid (paPipeline pa) (int (paStage pa)))) es)"

fun pc_records :: "string \<Rightarrow> pipeline_agent \<Rightarrow> bool \<Rightarrow> pc \<Rightarrow> bool" where
  "pc_records sid pa r (Doing es next) = (records_first sid pa r es \<and> pc_records sid pa r next)"
| "pc_records sid pa r p = True"

lemma records_mono: "records_first sid pa r es \<Longrightarrow> r \<longrightarrow> r' \<Longrightarrow> records_first sid pa r' es"
proof (induction es arbitrary: r r')
  case (Cons x es)
  let ?c = "x = EStore (OpRecordStage sid (paPipeline pa) (int (paStage pa)))"
  have "records_first sid pa (r' \<or> ?c) es"
    using Cons.prems by (intro Cons.IH [of "r \<or> ?c" "r' \<or> ?c"]) simp_all
  with Cons.prems show ?case by simp
qed simp

lemma pc_records_mono: "pc_records sid pa r p \<Longrightarrow> r \<longrightarrow> r' \<Longrightarrow> pc_records sid pa r' p"
  by (induction p) (auto intro: records_mono)

lemma records_backlog: "\<forall>y \<in> set ys. backlog_only y \<Longrightarrow> records_first sid pa r es \<Longrightarrow> records_first sid pa r (ys @ es)"
  by (induction ys arbitrary: r) (auto simp: backlog_only_def split: effect.splits intro: records_mono)

lemma records_no_success:
  "\<forall>x \<in> set es. \<forall>res. x \<noteq> ECompletion res None \<Longrightarrow> records_first sid pa r es"
  by (induction es arbitrary: r) auto

lemma handle_event_success:
  "handle_event d req tid ls e = (es, out) \<Longrightarrow> x \<in> set es \<Longrightarrow> x \<noteq> ECompletion res None"
  by (auto simp: handle_event_def Let_def abort_with_def split: if_splits option.splits prod.splits)

lemma perform_recorded: "recorded sid pa w \<Longrightarrow> recorded sid pa (fst (perform req x w))"
  by (cases x) (simp_all add: recorded_def completed_mono on_backlog_store)

lemma env_recorded: "recorded sid pa w \<Longrightarrow> recorded sid pa (env_step tid x w)"
  by (cases x) (simp_all add: recorded_def completed_mono)

definition success_recorded :: "string \<Rightarrow> pipeline_agent \<Rightarrow> pc \<Rightarrow> world \<Rightarrow> bool" where
  "success_recorded sid pa p w \<longleftrightarrow>
     (\<forall>res. (res, None) \<in> set (wCompletions w) \<longrightarrow> recorded sid pa w) \<and> pc_records sid pa (recorded sid pa w) p"

lemma thread_success:
  assumes "thread_step ask d req tid sid now p w = Some (p', w')" and "stage_of d req = Some pa"
    and "success_recorded sid pa p w"
  shows "success_recorded sid pa p' w'"
  using assms
proof (induction ask d req tid sid now p w rule: thread_step.induct)
  case (3 ask d req tid sid now ls e evs w)
  obtain es out where h: "handle_event d req tid ls e = (es, out)" by fastforce
  have "records_first sid pa r es" for r
    using handle_event_success [OF h] by (intro records_no_success) blast
  with 3 h show ?case by (auto simp: success_recorded_def split: outcome.splits)
next
  case (4 ask d req tid sid now ls evt e evs w)
  have "records_first sid pa r (abort_with tid n m1 m2)" for r n m1 m2
    by (simp add: abort_with_def)
  with 4 show ?case
    using supervise_keeps [of ask req tid evt e w]
    by (auto simp: case_prod_beta Let_def success_recorded_def recorded_def split: if_splits)
next
  case (5 ask d req tid sid now ls t w)
  have "records_first sid pa r (completion_effects d req tid sid t (lsResult ls))" for r
    using 5(2) by (simp add: completion_effects_def)
  with 5 show ?case by (auto simp: success_recorded_def split: if_splits)
next
  case (6 ask d req tid sid now ls t w)
  then show ?case by (auto simp: Let_def success_recorded_def split: if_splits)
next
  case (8 ask d req tid sid now x es nxt w)
  let ?w = "fst (perform req x w)" and ?ys = "snd (perform req x w)"
  let ?rec = "x = EStore (OpRecordStage sid (paPipeline pa) (int (paStage pa)))"
  have inv: "success_recorded sid pa (Doing (x # es) nxt) w" by (rule 8(3))
  have p': "p' = Doing (?ys @ es) nxt" "w' = ?w" using 8(1) by (auto simp: case_prod_beta Let_def)
  have up: "recorded sid pa w \<or> ?rec \<Longrightarrow> recorded sid pa ?w"
    using perform_recorded by (auto simp: recorded_def)
  have "records_first sid pa (recorded sid pa ?w) es"
    using inv up by (auto simp: success_recorded_def intro: records_mono)
  then have "records_first sid pa (recorded sid pa ?w) (?ys @ es)"
    by (rule records_backlog [OF perform_more])
  moreover have "pc_records sid pa (recorded sid pa ?w) nxt"
    using inv up by (auto simp: success_recorded_def intro: pc_records_mono)
  moreover have "recorded sid pa ?w" if "(res, None) \<in> set (wCompletions ?w)" for res
    using that inv up perform_completions [of req x w]
    by (auto simp: success_recorded_def split: effect.splits)
  ultimately show ?case by (auto simp: p' success_recorded_def)
qed (auto simp: success_recorded_def)

text \<open>C6. A pipeline task reports success only after its stage was recorded, so that a later
  stage's gate can open: in every interleaving, once the callback was called without an
  error, the stage counts as completed in the session.\<close>

theorem success_records_stage:
  assumes "dispatch_reach ask d req tid sid (start_thread req tid run now, w0) (p, w)"
    and "wCompletions w0 = []" and "stage_of d req = Some pa"
    and "(result, None) \<in> set (wCompletions w)"
  shows "IsPipelineStageCompleted sid (paPipeline pa) (int (paStage pa)) (wStore w)"
proof -
  have "success_recorded sid pa p w"
    using assms(1)
  proof (induction "(p, w)" arbitrary: p w rule: dispatch_reach.induct)
    case start
    then show ?case using assms(2)
      by (simp add: success_recorded_def start_thread_def Let_def split: sum.split)
  next
    case (step c')
    obtain p1 w1 where c': "c' = (p1, w1)" by fastforce
    from step.hyps(3) [unfolded c'] show ?case
    proof (cases rule: dispatch_step_cases)
      case (thread now)
      then show ?thesis using thread_success step.hyps(2) [OF c'] assms(3) by blast
    next
      case (other x)
      then show ?thesis using step.hyps(2) [OF c'] env_recorded [of sid pa w1 tid x]
        by (auto simp: success_recorded_def env_completions intro: pc_records_mono)
    qed
  qed
  with assms(4) show ?thesis by (auto simp: success_recorded_def recorded_def)
qed


section \<open>When the event loop gives up\<close>

text \<open>The loop alone, without the supervisor, which never stops it: \<open>None\<close> when it aborts.\<close>

fun loop_outcome ::
  "dispatcher \<Rightarrow> dispatch_request \<Rightarrow> string \<Rightarrow> loop_state \<Rightarrow> response_event list \<Rightarrow> loop_state option" where
  "loop_outcome d req tid ls [] = Some ls"
| "loop_outcome d req tid ls (e # es) =
     (case snd (handle_event d req tid ls e) of
        Stop \<Rightarrow> None
      | NextEvent ls' \<Rightarrow> loop_outcome d req tid ls' es
      | Supervise ls' _ \<Rightarrow> loop_outcome d req tid ls' es)"

definition has_choice :: "response_event \<Rightarrow> bool" where
  "has_choice e \<longleftrightarrow> reError e = None \<and> reChoice e \<noteq> None"

definition is_error :: "response_event \<Rightarrow> bool" where
  "is_error e \<longleftrightarrow> reError e \<noteq> None"

definition is_fatal :: "response_event \<Rightarrow> bool" where
  "is_fatal e \<longleftrightarrow> (case reError e of None \<Rightarrow> False | Some err \<Rightarrow> isCallLimitError err \<or> IsTokenOverflowError err)"

text \<open>The errors since the last response with a choice.\<close>

definition recent_errors :: "response_event list \<Rightarrow> nat" where
  "recent_errors es = length (filter is_error (takeWhile (\<lambda>e. \<not> has_choice e) (rev es)))"

definition gives_up :: "dispatcher \<Rightarrow> response_event list \<Rightarrow> bool" where
  "gives_up d es \<longleftrightarrow> es \<noteq> [] \<and>
     (maxTurns d \<le> int (length es) \<or> is_fatal (last es) \<or> (is_error (last es) \<and> 3 \<le> recent_errors es))"

definition errors_from :: "nat \<Rightarrow> response_event list \<Rightarrow> nat" where
  "errors_from k es = recent_errors es + (if list_ex has_choice es then 0 else k)"

lemma errors_from_Cons:
  "errors_from k (e # es) = errors_from (if has_choice e then 0 else if is_error e then Suc k else k) es"
proof (cases "list_ex has_choice es")
  case True
  then have "\<exists>x \<in> set (rev es). \<not> \<not> has_choice x" by (simp add: list_ex_iff)
  then have "takeWhile (\<lambda>e. \<not> has_choice e) (rev es @ [e]) = takeWhile (\<lambda>e. \<not> has_choice e) (rev es)"
    by (metis takeWhile_append1)
  with True show ?thesis by (simp add: errors_from_def recent_errors_def)
next
  case False
  then have all: "\<forall>x \<in> set (rev es). \<not> has_choice x" by (simp add: list_ex_iff)
  have tw: "takeWhile (\<lambda>e. \<not> has_choice e) (rev es @ ys) = rev es @ takeWhile (\<lambda>e. \<not> has_choice e) ys" for ys
    using all by (metis takeWhile_append2)
  have twn: "takeWhile (\<lambda>e. \<not> has_choice e) (rev es) = rev es" using tw [of "[]"] by simp
  have "\<not> (has_choice e \<and> is_error e)"
    by (cases "reError e") (simp_all add: has_choice_def is_error_def)
  with False show ?thesis
    by (cases "has_choice e"; cases "is_error e") (simp_all add: errors_from_def recent_errors_def tw twn)
qed

definition stops_now :: "dispatcher \<Rightarrow> int \<Rightarrow> nat \<Rightarrow> response_event list \<Rightarrow> bool" where
  "stops_now d t k es \<longleftrightarrow> maxTurns d \<le> t + int (length es) \<or> is_fatal (last es) \<or>
     (is_error (last es) \<and> 3 \<le> errors_from k es)"

lemma handle_event_next:
  "snd (handle_event d req tid ls e) =
     (if stops_now d (lsTurns ls) (lsErrors ls) [e] then Stop
      else (let ls1 = ls\<lparr>lsTurns := lsTurns ls + 1\<rparr> in
        case reError e of
          Some _ \<Rightarrow> NextEvent (ls1\<lparr>lsErrors := Suc (lsErrors ls)\<rparr>)
        | None \<Rightarrow> (case reChoice e of None \<Rightarrow> NextEvent ls1
            | Some (names, content) \<Rightarrow> Supervise
                (ls1\<lparr>lsErrors := 0, lsResult := (if content \<noteq> '''' then content else lsResult ls)\<rparr>)
                (supervisor_event (lsTurns ls + 1) names content))))"
  by (auto simp: handle_event_def Let_def stops_now_def is_fatal_def is_error_def has_choice_def
      errors_from_Cons errors_from_def [of _ "[]"] recent_errors_def [of "[]"]
      split: option.split)

lemma loop_outcome_None:
  "loop_outcome d req tid ls es = None \<longleftrightarrow>
     (\<exists>i < length es. stops_now d (lsTurns ls) (lsErrors ls) (take (Suc i) es))"
proof (induction es arbitrary: ls)
  case (Cons e es)
  have shift: "stops_now d (lsTurns ls) (lsErrors ls) (e # take (Suc i) es) =
      stops_now d (lsTurns ls + 1) (if has_choice e then 0 else if is_error e then Suc (lsErrors ls) else lsErrors ls)
        (take (Suc i) es)" if "i < length es" for i
    using that errors_from_Cons [of "lsErrors ls" e "take (Suc i) es"]
    by (cases es) (auto simp: stops_now_def)
  have ex: "(\<exists>i < length (e # es). P i) \<longleftrightarrow> P 0 \<or> (\<exists>i < length es. P (Suc i))" for P
    by (simp add: Ex_less_Suc2)
  show ?case
  proof (cases "stops_now d (lsTurns ls) (lsErrors ls) [e]")
    case True
    then show ?thesis unfolding ex by (simp add: handle_event_next)
  next
    case False
    then show ?thesis unfolding ex
      by (cases "reError e"; cases "reChoice e")
         (simp_all add: handle_event_next Let_def Cons.IH shift has_choice_def is_error_def case_prod_beta
           cong: conj_cong)
  qed
qed simp

text \<open>C8. The event loop aborts on exactly these conditions: some response is the
  \<open>maxTurns\<close>-th, or reports an exhausted call budget or an overflowing context, or is the
  third error since the last response with a choice.\<close>

theorem loop_aborts_iff:
  "loop_outcome d req tid \<lparr>lsResult = '''', lsTurns = 0, lsErrors = 0\<rparr> es = None \<longleftrightarrow>
     list_ex (\<lambda>i. gives_up d (take i es)) [1..<Suc (length es)]"
proof -
  have e: "errors_from 0 xs = recent_errors xs" for xs by (simp add: errors_from_def)
  have s: "gives_up d (take (Suc i) es) = stops_now d 0 0 (take (Suc i) es)" if "i < length es" for i
    using that by (auto simp: gives_up_def stops_now_def e)
  have "list_ex (\<lambda>i. gives_up d (take i es)) [1..<Suc (length es)] \<longleftrightarrow>
      (\<exists>i < length es. gives_up d (take (Suc i) es))"
    unfolding list_ex_iff set_upt atLeastLessThanSuc_atLeastAtMost image_Suc_lessThan [symmetric] by auto
  then show ?thesis using s by (auto simp: loop_outcome_None)
qed

section \<open>The goroutine ends\<close>

fun effect_weight :: "effect \<Rightarrow> nat" where
  "effect_weight (EBacklogComplete _ _) = 4"
| "effect_weight (EBacklogItem _) = 3"
| "effect_weight (EBacklogParent _ _) = 2"
| "effect_weight _ = 1"

definition effects_weight :: "effect list \<Rightarrow> nat" where
  "effects_weight es = sum_list (map effect_weight es)"

text \<open>The turns that are left, and a bound on the steps that are left, which does not depend on how many
  events the agent still sends.\<close>

definition turns_left :: "dispatcher \<Rightarrow> loop_state \<Rightarrow> nat" where
  "turns_left d ls = nat (maxTurns d - lsTurns ls)"

text \<open>Entries of the channel that are no event of the agent are skipped and counted alone.\<close>

definition skipped :: "response_event option list \<Rightarrow> nat" where
  "skipped evs = length (filter (\<lambda>e. e = None) evs)"

fun pc_measure :: "dispatcher \<Rightarrow> pc \<Rightarrow> nat" where
  "pc_measure d (Looping ls evs) = 20 + 20 * turns_left d ls + skipped evs"
| "pc_measure d (Supervising ls evt e evs) = 30 + 20 * turns_left d ls + skipped evs"
| "pc_measure d (LoopDone ls t) = 15"
| "pc_measure d (CtxDone ls t) = 10"
| "pc_measure d (Doing es next) = 1 + effects_weight es + pc_measure d next"
| "pc_measure d Finished = 0"

lemma effects_weight_simps [simp]:
  "effects_weight [] = 0" "effects_weight (x # es) = effect_weight x + effects_weight es"
  "effects_weight (es @ es') = effects_weight es + effects_weight es'"
  by (simp_all add: effects_weight_def)

lemma handle_event_weight: "effects_weight (fst (handle_event d req tid ls e)) \<le> 5"
  by (simp add: handle_event_def Let_def abort_with_def split: option.split)

lemma on_backlog_weight:
  "(\<And>tab. effects_weight (snd (f tab)) \<le> n) \<Longrightarrow> effects_weight (snd (on_backlog req w f)) \<le> n"
  by (simp add: on_backlog_def case_prod_beta split: option.split)

lemma perform_weight: "effects_weight (snd (perform req x w)) < effect_weight x"
proof (cases x)
  case (EBacklogComplete now summary)
  have "effects_weight (snd (perform req x w)) \<le> 3"
    unfolding EBacklogComplete perform.simps by (rule on_backlog_weight) (simp split: sum.split)
  with EBacklogComplete show ?thesis by simp
next
  case (EBacklogItem now)
  have "effects_weight (snd (perform req x w)) \<le> 2"
    unfolding EBacklogItem perform.simps by (rule on_backlog_weight) (simp split: sum.split)
  with EBacklogItem show ?thesis by simp
next
  case (EBacklogParent now pid)
  have "effects_weight (snd (perform req x w)) \<le> 1"
    unfolding EBacklogParent perform.simps by (rule on_backlog_weight) simp
  with EBacklogParent show ?thesis by simp
next
  case (EFailBacklog now)
  have "effects_weight (snd (perform req x w)) \<le> 0"
    unfolding EFailBacklog perform.simps by (rule on_backlog_weight) simp
  with EFailBacklog show ?thesis by simp
next
  case (EParentDone now pid)
  have "effects_weight (snd (perform req x w)) \<le> 0"
    unfolding EParentDone perform.simps by (rule on_backlog_weight) simp
  with EParentDone show ?thesis by simp
qed simp_all

text \<open>An event that does not end the loop uses up one of the turns that are left.\<close>

lemma handle_event_turns:
  "handle_event d req tid ls e = (es, NextEvent ls') \<or> handle_event d req tid ls e = (es, Supervise ls' evt) \<Longrightarrow>
     Suc (turns_left d ls') = turns_left d ls"
  by (auto simp: handle_event_def turns_left_def Let_def split: if_splits option.splits)

lemma thread_measure:
  "thread_step ask d req tid sid now p w = Some (p', w') \<Longrightarrow> pc_measure d p' < pc_measure d p"
proof (induction ask d req tid sid now p w rule: thread_step.induct)
  case (3 ask d req tid sid now ls e evs w)
  obtain es out where h: "handle_event d req tid ls e = (es, out)" by fastforce
  with 3 handle_event_weight [of d req tid ls e] handle_event_turns [of d req tid ls e es] show ?case
    by (auto simp: skipped_def split: outcome.splits)
next
  case (5 ask d req tid sid now ls t w)
  then show ?case by (auto simp: completion_effects_def split: if_splits option.splits)
next
  case (8 ask d req tid sid now x es nxt w)
  then show ?case using perform_weight [of req x w] by (auto simp: case_prod_beta Let_def)
qed (auto simp: case_prod_beta Let_def abort_with_def skipped_def split: if_splits)

lemma thread_stuck: "thread_step ask d req tid sid now p w = None \<longleftrightarrow> p = Finished"
  by (cases "(ask, d, req, tid, sid, now, p, w)" rule: thread_step.cases)
     (auto simp: case_prod_beta Let_def split: outcome.split)

text \<open>A schedule gives, for each step of the goroutine, the clock and what the rest of the
  program does before it.\<close>

fun run_schedule ::
  "(string \<Rightarrow> string \<Rightarrow> string go_result) \<Rightarrow> dispatcher \<Rightarrow> dispatch_request \<Rightarrow> string \<Rightarrow> string \<Rightarrow>
   (time \<times> env_op list) list \<Rightarrow> pc \<times> world \<Rightarrow> pc \<times> world" where
  "run_schedule ask d req tid sid [] c = c"
| "run_schedule ask d req tid sid ((now, ops) # sched) (p, w) =
     (let w1 = foldl (\<lambda>w x. env_step tid x w) w ops in
      run_schedule ask d req tid sid sched
        (case thread_step ask d req tid sid now p w1 of None \<Rightarrow> (p, w1) | Some c \<Rightarrow> c))"

lemma schedule_ends:
  assumes "pc_measure d p \<le> length sched"
  shows "fst (run_schedule ask d req tid sid sched (p, w)) = Finished"
  using assms
proof (induction sched arbitrary: p w)
  case Nil
  then show ?case by (cases p) simp_all
next
  case (Cons a sched)
  obtain now ops where a: "a = (now, ops)" by fastforce
  let ?w = "foldl (\<lambda>w x. env_step tid x w) w ops"
  show ?case
  proof (cases "thread_step ask d req tid sid now p ?w")
    case None
    then have "p = Finished" by (simp add: thread_stuck)
    with Cons.IH [of Finished ?w] None show ?thesis by (simp add: a)
  next
    case (Some c)
    obtain p' w' where c: "c = (p', w')" by fastforce
    from thread_measure [OF Some [unfolded c]] Cons.prems have "pc_measure d p' \<le> length sched" by simp
    from Cons.IH [OF this] Some c show ?thesis by (simp add: a)
  qed
qed

text \<open>C9. The turn limit ends the goroutine: whatever the rest of the program does in between and however
  many events the agent sends, it finishes within forty steps and twenty for each turn it is
  allowed, and one for each empty entry of the channel.\<close>

theorem goroutine_ends:
  assumes "40 + 20 * nat (maxTurns d) + length (filter (\<lambda>e. e = None) evs) \<le> length sched"
  shows "fst (run_schedule ask d req tid sid sched (start_thread req tid (Inr evs) now, w)) = Finished"
  by (rule schedule_ends) (use assms in \<open>simp add: start_thread_def turns_left_def skipped_def\<close>)

section \<open>A concrete run\<close>

lemma env_reach:
  "dispatch_reach ask d req tid sid c (p, w) \<Longrightarrow>
     dispatch_reach ask d req tid sid c (p, foldl (\<lambda>w x. env_step tid x w) w ops)"
  by (induction ops arbitrary: w) (auto intro: dispatch_reach.step dispatch_step.other)

lemma schedule_reach:
  "dispatch_reach ask d req tid sid c (p, w) \<Longrightarrow>
     dispatch_reach ask d req tid sid c (run_schedule ask d req tid sid sched (p, w))"
proof (induction sched arbitrary: p w)
  case (Cons a sched)
  obtain now ops where a: "a = (now, ops)" by fastforce
  let ?w = "foldl (\<lambda>w x. env_step tid x w) w ops"
  have r: "dispatch_reach ask d req tid sid c (p, ?w)" using env_reach [OF Cons.prems] .
  show ?case
  proof (cases "thread_step ask d req tid sid now p ?w")
    case None
    with Cons.IH [OF r] show ?thesis by (simp add: a)
  next
    case (Some c')
    obtain p' w' where c': "c' = (p', w')" by fastforce
    from Cons.IH [OF dispatch_reach.step [OF r dispatch_step.thread [OF Some [unfolded c']]]] Some c'
    show ?thesis by (simp add: a)
  qed
qed simp

definition demo_dispatcher :: dispatcher where
  "demo_dispatcher = \<lparr>agents = [''coder''], pipelines = [],
     pipelineAgents = [''coder'' \<mapsto> \<lparr>paPipeline = ''dev'', paStage = 1\<rparr>], maxTurns = 75\<rparr>"

definition demo_request :: dispatch_request where
  "demo_request = \<lparr>rqAgentName = ''coder'', rqTask = ''build'', rqPolicy = '''', rqPipeline = ''dev'',
     rqBacklogItemID = ''''\<rparr>"

definition demo_world :: world where
  "demo_world = \<lparr>wStore = fst (dispatch 0 0 0 demo_dispatcher True ''s'' ''u'' ''t'' demo_request NewInFlightStore),
     wBacklog = None, wSupervisor = None, wCtxErr = False, wCompletions = []\<rparr>"

definition demo_answer :: response_event where
  "demo_answer = \<lparr>reUsage = None, reError = None, reChoice = Some ([], ''ok''), reTime = 1, reTime' = 1,
     reEvalTime = 1, reEvalTime' = 1, reOrder = []\<rparr>"

abbreviation demo_ask :: "string \<Rightarrow> string \<Rightarrow> string go_result" where
  "demo_ask \<equiv> \<lambda>_ _. Inl ''offline''"

definition demo_run :: "pc \<times> world" where
  "demo_run = run_schedule demo_ask demo_dispatcher demo_request ''t'' ''s'' (replicate 14 (2, []))
     (start_thread demo_request ''t'' (Inr [Some demo_answer]) 0, demo_world)"

lemma demo_run_ends: "fst demo_run = Finished \<and> wCompletions (snd demo_run) = [(''ok'', None)]"
  by (simp add: demo_run_def start_thread_def handle_event_def demo_dispatcher_def demo_request_def
    demo_answer_def demo_world_def numeral_eq_Suc Let_def stage_of_def completion_effects_def
    supervise_def continue_verdict_def on_backlog_def)

lemma demo_run_reach:
  "dispatch_reach demo_ask demo_dispatcher demo_request ''t'' ''s''
     (start_thread demo_request ''t'' (Inr [Some demo_answer]) 0, demo_world) (fst demo_run, snd demo_run)"
  unfolding prod.collapse demo_run_def by (rule schedule_reach [OF dispatch_reach.start])

lemma demo_no_completions: "wCompletions demo_world = []"
  by (simp add: demo_world_def)

lemma demo_stage: "stage_of demo_dispatcher demo_request = Some \<lparr>paPipeline = ''dev'', paStage = 1\<rparr>"
  by (simp add: stage_of_def demo_dispatcher_def demo_request_def)

theorem one_completion_witness: "length (wCompletions (snd demo_run)) + owed (fst demo_run) = 1"
  by (rule one_completion [OF demo_run_reach demo_no_completions])

theorem success_records_stage_witness:
  "IsPipelineStageCompleted ''s'' ''dev'' 1 (wStore (snd demo_run))"
  using success_records_stage [OF demo_run_reach demo_no_completions demo_stage, of "''ok''"]
    demo_run_ends by simp

text \<open>A limit of three turns ends the task at the third of a thousand answers.\<close>

theorem goroutine_ends_witness:
  "fst (run_schedule demo_ask (demo_dispatcher\<lparr>maxTurns := 3\<rparr>) demo_request ''t'' ''s'' (replicate 100 (2, []))
     (start_thread demo_request ''t'' (Inr (replicate 1000 (Some demo_answer))) 0, demo_world)) = Finished"
  by (rule goroutine_ends) simp

lemma demo_check: "snd (pipeline_check 0 0 demo_dispatcher demo_request ''s'' NewInFlightStore) = None"
  by (simp add: pipeline_check_def demo_stage missing_stage_def Let_def RecordPipelineStart_def
    NewInFlightStore_def PipelineElapsed_def lookup2_def update2_def maxPipelineDuration_def
    hour_def minute_def second_def)

theorem pipeline_gate_witness:
  "\<exists>s' acks. dispatch 0 0 0 demo_dispatcher True ''s'' ''u'' ''t'' demo_request NewInFlightStore = (s', acks, Inr ''t'') \<and>
     map_option Status (InFlight.Get ''t'' s') = Some TaskRunning"
proof -
  have "rqAgentName demo_request \<in> set (agents demo_dispatcher)"
    by (simp add: demo_request_def demo_dispatcher_def)
  then obtain s' acks where
    h: "dispatch 0 0 0 demo_dispatcher True ''s'' ''u'' ''t'' demo_request NewInFlightStore = (s', acks, Inr ''t'')"
    using demo_check by (cases "pipeline_check 0 0 demo_dispatcher demo_request ''s'' NewInFlightStore")
      (simp add: dispatch_def)
  from pipeline_gate [OF h demo_stage] h show ?thesis by blast
qed

end
