(* ===== verification/AnthropicAdapter.thy ===== *)
theory AnthropicAdapter
  imports ContextManager
begin

text \<open>
  \<open>internal/model/anthropic/trpc_adapter.go\<close>: the conversion of a conversation into the
  messages of the Anthropic API, the repair of its tool calls and the conversion of a
  response.  The conversion of tool declarations and the HTTP exchange are not modelled.
\<close>

section \<open>API messages\<close>

record api_source =
  asType :: string
  asMediaType :: string
  asData :: string
  asURL :: string

record api_content =
  acType :: string
  acText :: string
  acID :: string
  acName :: string
  acInput :: "(string \<rightharpoonup> json) option"
  acToolUseID :: string
  acContent :: string
  acSource :: "api_source option"

record api_message =
  amRole :: string
  amContent :: "api_content list"

definition empty_block :: api_content where
  "empty_block = \<lparr>acType = '''', acText = '''', acID = '''', acName = '''', acInput = None,
     acToolUseID = '''', acContent = '''', acSource = None\<rparr>"

section \<open>Converting a request\<close>

text \<open>\<open>json.Marshal\<close> of a valid UTF-8 string, with the escapes for HTML and for the line
  separators.\<close>

definition json_escape :: "nat \<Rightarrow> string" where
  "json_escape n = [char_of (92 :: nat), CHR ''u'', CHR ''0'', CHR ''0'', hex_digit (n div 16), hex_digit (n mod 16)]"

fun json_chars :: "string \<Rightarrow> string" where
  "json_chars [] = []"
| "json_chars (c # s) =
     (let n = (of_char c :: nat); bs = char_of (92 :: nat) in
      if n = 34 \<or> n = 92 then bs # c # json_chars s
      else if n = 8 then bs # CHR ''b'' # json_chars s
      else if n = 12 then bs # CHR ''f'' # json_chars s
      else if n = 10 then bs # CHR ''n'' # json_chars s
      else if n = 13 then bs # CHR ''r'' # json_chars s
      else if n = 9 then bs # CHR ''t'' # json_chars s
      else if n < 32 \<or> n = 60 \<or> n = 62 \<or> n = 38 then json_escape n @ json_chars s
      else if n = 226 \<and> take 2 (map of_char s) \<in> {[128, 168], [128, 169 :: nat]}
        then bs # ''u202'' @ (if of_char (s ! 1) = (168 :: nat) then ''8'' else ''9'') @ json_chars (drop 2 s)
      else c # json_chars s)"

definition json_string :: "string \<Rightarrow> string" where
  "json_string s = [char_of (34 :: nat)] @ json_chars s @ [char_of (34 :: nat)]"

definition argsToMap :: "string \<Rightarrow> (string \<rightharpoonup> json) option" where
  "argsToMap args =
     (if args = '''' then Some Map.empty
      else (case decode_object args of
              None \<Rightarrow> Some Map.empty
            | Some m \<Rightarrow> if json_parse args = Some JNull then None else Some m))"

definition text_block :: "string \<Rightarrow> api_content" where
  "text_block t = empty_block\<lparr>acType := ''text'', acText := t\<rparr>"

text \<open>The base64 encoder is the argument \<open>b64\<close>.\<close>

definition convert_part :: "(string \<Rightarrow> string) \<Rightarrow> content_part \<Rightarrow> api_content list" where
  "convert_part b64 p =
     (if cpType p = ''text'' then (case cpText p of None \<Rightarrow> [] | Some t \<Rightarrow> [text_block t])
      else if cpType p = ''image'' then
        (case cpImage p of
           None \<Rightarrow> []
         | Some im \<Rightarrow>
             if imData im \<noteq> '''' then
               [empty_block\<lparr>acType := ''image'', acSource := Some \<lparr>asType = ''base64'',
                  asMediaType = imageFormatToMIME (imFormat im), asData = b64 (imData im), asURL = ''''\<rparr>\<rparr>]
             else if imURL im \<noteq> '''' then
               [empty_block\<lparr>acType := ''image'', acSource := Some \<lparr>asType = ''url'',
                  asMediaType = '''', asData = '''', asURL = imURL im\<rparr>\<rparr>]
             else [])
      else [])"

definition tool_use_block :: "tool_call \<Rightarrow> api_content" where
  "tool_use_block tc = empty_block\<lparr>acType := ''tool_use'', acID := tcID tc, acName := tcName tc,
     acInput := argsToMap (tcArguments tc)\<rparr>"

definition tool_result_block :: "message \<Rightarrow> api_content" where
  "tool_result_block m = empty_block\<lparr>acType := ''tool_result'', acToolUseID := mToolID m,
     acContent := json_string (mContent m)\<rparr>"

definition api_turn :: "string \<Rightarrow> api_content list \<Rightarrow> api_message list" where
  "api_turn r c = (if c = [] then [] else [\<lparr>amRole = r, amContent = c\<rparr>])"

definition convert_message :: "(string \<Rightarrow> string) \<Rightarrow> message \<Rightarrow> api_message list" where
  "convert_message b64 m =
     (let txt = (if mContent m \<noteq> '''' then [text_block (mContent m)] else []) in
      case mRole m of
        RoleUser \<Rightarrow> api_turn ''user'' (txt @ concat (map (convert_part b64) (mParts m)))
      | RoleAssistant \<Rightarrow> api_turn ''assistant'' (txt @ map tool_use_block (mToolCalls m))
      | RoleTool \<Rightarrow> [\<lparr>amRole = ''user'', amContent = [tool_result_block m]\<rparr>]
      | _ \<Rightarrow> [])"

definition system_prompt :: "message list \<Rightarrow> string" where
  "system_prompt ms = foldl (\<lambda>p m. if mRole m = RoleSystem then mContent m else p) '''' ms"

section \<open>Repairing the tool calls\<close>

definition use_id :: "api_content \<Rightarrow> string option" where
  "use_id c = (if acType c = ''tool_use'' then Some (acID c) else None)"

definition result_id :: "api_content \<Rightarrow> string option" where
  "result_id c = (if acType c = ''tool_result'' then Some (acToolUseID c) else None)"

fun index_blocks ::
  "(api_content \<Rightarrow> string option) \<Rightarrow> nat \<Rightarrow> api_message list \<Rightarrow> (string \<rightharpoonup> nat) \<Rightarrow> (string \<rightharpoonup> nat)" where
  "index_blocks key i [] m = m"
| "index_blocks key i (msg # msgs) m = index_blocks key (Suc i) msgs
     (foldl (\<lambda>m c. case key c of None \<Rightarrow> m | Some k \<Rightarrow> m(k \<mapsto> i)) m (amContent msg))"

definition keep_block :: "(string \<rightharpoonup> nat) \<Rightarrow> (string \<rightharpoonup> nat) \<Rightarrow> nat \<Rightarrow> api_content \<Rightarrow> bool" where
  "keep_block toolUseMsg toolResultMsg i c =
     (if acType c = ''tool_use'' then toolResultMsg (acID c) = Some (i + 1)
      else if acType c = ''tool_result''
        then (case toolUseMsg (acToolUseID c) of None \<Rightarrow> False | Some u \<Rightarrow> int u = int i - 1)
      else True)"

fun strip_orphans ::
  "(string \<rightharpoonup> nat) \<Rightarrow> (string \<rightharpoonup> nat) \<Rightarrow> nat \<Rightarrow> api_message list \<Rightarrow> api_message list \<times> bool" where
  "strip_orphans us rs i [] = ([], False)"
| "strip_orphans us rs i (m # ms) =
     (let filtered = filter (keep_block us rs i) (amContent m);
          (rest, changed) = strip_orphans us rs (Suc i) ms
      in (if filtered \<noteq> [] then m\<lparr>amContent := filtered\<rparr> # rest else rest,
          changed \<or> \<not> list_all (keep_block us rs i) (amContent m) \<or> filtered = []))"

text \<open>One round of the loop, after the leading messages were dropped.\<close>

definition repair_round :: "api_message list \<Rightarrow> api_message list \<times> bool" where
  "repair_round ms = strip_orphans (index_blocks use_id 0 ms Map.empty)
     (index_blocks result_id 0 ms Map.empty) 0 ms"

definition from_user :: "api_message list \<Rightarrow> api_message list" where
  "from_user ms = dropWhile (\<lambda>m. amRole m \<noteq> ''user'') ms"

definition weight :: "api_message list \<Rightarrow> nat" where
  "weight ms = sum_list (map (\<lambda>m. Suc (length (amContent m))) ms)"

lemma strip_weight:
  "weight (fst (strip_orphans us rs i ms)) \<le> weight ms \<and>
   (snd (strip_orphans us rs i ms) \<longrightarrow> weight (fst (strip_orphans us rs i ms)) < weight ms)"
proof (induction us rs i ms rule: strip_orphans.induct)
  case (2 us rs i m ms)
  let ?f = "filter (keep_block us rs i) (amContent m)"
  obtain rest ch where r: "strip_orphans us rs (Suc i) ms = (rest, ch)" by fastforce
  have ih: "weight rest \<le> weight ms" "ch \<Longrightarrow> weight rest < weight ms" using "2.IH" r by auto
  have lt: "length ?f < length (amContent m)" if "\<not> list_all (keep_block us rs i) (amContent m)"
    using that by (auto simp: list_all_iff intro: length_filter_less)
  have le: "length ?f \<le> length (amContent m)" by (rule length_filter_le)
  have w: "weight (x # xs) = Suc (length (amContent x)) + weight xs" for x xs
    by (simp add: weight_def)
  show ?case
  proof (cases "?f = []")
    case True
    then show ?thesis using ih(1) by (simp add: Let_def r w)
  next
    case False
    then show ?thesis using ih lt le by (auto simp: Let_def r w intro: add_less_le_mono add_le_less_mono add_le_mono)
  qed
qed (simp add: weight_def)

lemma weight_from_user: "weight (from_user ms) \<le> weight ms \<and> (from_user ms \<noteq> ms \<longrightarrow> weight (from_user ms) < weight ms)"
  by (induction ms) (auto simp: from_user_def weight_def)

function sanitizeMessages :: "api_message list \<Rightarrow> api_message list" where
  "sanitizeMessages msgs =
     (let ms = from_user msgs; (result, stripped) = repair_round ms in
      if ms = [] then []
      else if length ms < length msgs \<or> stripped then sanitizeMessages result
      else result)"
  by auto
termination
proof (relation "measure weight", goal_cases)
  case (2 msgs ms p result stripped)
  have r: "weight result \<le> weight ms \<and> (stripped \<longrightarrow> weight result < weight ms)"
    using strip_weight [of _ _ 0 ms] 2 by (metis repair_round_def fst_conv snd_conv)
  have m: "weight ms \<le> weight msgs \<and> (length ms < length msgs \<longrightarrow> weight ms < weight msgs)"
    using weight_from_user [of msgs] 2(1) by auto
  show ?case using 2 r m by auto
qed simp

declare sanitizeMessages.simps [simp del]

definition convertRequest :: "(string \<Rightarrow> string) \<Rightarrow> message list \<Rightarrow> string \<times> api_message list" where
  "convertRequest b64 ms =
     (system_prompt ms, sanitizeMessages (concat (map (convert_message b64) ms)))"

section \<open>What the repair guarantees\<close>

text \<open>
  The rules of the API: the conversation opens with a user turn, no turn is empty, every
  tool call is answered in the next turn, and every answer follows the turn of its call.
\<close>

definition has_id :: "(api_content \<Rightarrow> string option) \<Rightarrow> string \<Rightarrow> api_message \<Rightarrow> bool" where
  "has_id key k m \<longleftrightarrow> list_ex (\<lambda>c. key c = Some k) (amContent m)"

definition block_ok :: "api_message list \<Rightarrow> nat \<Rightarrow> api_content \<Rightarrow> bool" where
  "block_ok ms i c \<longleftrightarrow>
     (case use_id c of None \<Rightarrow> True | Some k \<Rightarrow> i + 1 < length ms \<and> has_id result_id k (ms ! (i + 1))) \<and>
     (case result_id c of None \<Rightarrow> True | Some k \<Rightarrow> 0 < i \<and> has_id use_id k (ms ! (i - 1)))"

definition well_paired :: "api_message list \<Rightarrow> bool" where
  "well_paired ms \<longleftrightarrow> (ms = [] \<or> amRole (hd ms) = ''user'') \<and>
     (\<forall>i < length ms. amContent (ms ! i) \<noteq> [] \<and> list_all (block_ok ms i) (amContent (ms ! i)))"

text \<open>No identifier is used by two turns: what the API requires of the identifiers.\<close>

definition unique_ids :: "(api_content \<Rightarrow> string option) \<Rightarrow> api_message list \<Rightarrow> bool" where
  "unique_ids key ms \<longleftrightarrow> (\<forall>i < length ms. \<forall>j < length ms. \<forall>k.
     has_id key k (ms ! i) \<longrightarrow> has_id key k (ms ! j) \<longrightarrow> i = j)"

lemma index_fold:
  "foldl (\<lambda>m c. case key c of None \<Rightarrow> m | Some k \<Rightarrow> m(k \<mapsto> i)) m cs =
     (\<lambda>k. if list_ex (\<lambda>c. key c = Some k) cs then Some i else m k)"
proof (induction cs arbitrary: m)
  case (Cons c cs)
  show ?case by (cases "key c") (auto simp: Cons.IH fun_eq_iff)
qed simp

lemma index_blocks_Some:
  "index_blocks key i ms m k = Some j \<Longrightarrow>
     m k = Some j \<or> (i \<le> j \<and> j < i + length ms \<and> has_id key k (ms ! (j - i)))"
proof (induction key i ms m rule: index_blocks.induct)
  case (2 key i msg msgs m)
  from "2.IH" "2.prems"
  consider "(if has_id key k msg then Some i else m k) = Some j"
    | "Suc i \<le> j" "j < Suc i + length msgs" "has_id key k (msgs ! (j - Suc i))"
    by (auto simp: index_fold has_id_def)
  then show ?case
  proof cases
    case 1
    then show ?thesis by (auto split: if_splits)
  next
    case 2
    then have "j - i = Suc (j - Suc i)" by simp
    with 2 show ?thesis by simp
  qed
qed simp

lemma index_blocks_last:
  "has_id key k (ms ! j) \<Longrightarrow> j < length ms \<Longrightarrow>
     \<exists>j'. index_blocks key i ms m k = Some j' \<and> i + j \<le> j'"
proof (induction key i ms m arbitrary: j rule: index_blocks.induct)
  case (2 key i msg msgs m)
  show ?case
  proof (cases j)
    case 0
    have keep: "\<exists>j'. index_blocks key i' ms' m' k = Some j' \<and> l \<le> j'"
      if "\<exists>j'. m' k = Some j' \<and> l \<le> j'" "l \<le> i'" for i' ms' m' l
      using that
    proof (induction key i' ms' m' rule: index_blocks.induct)
      case (2 key i' msg msgs m')
      then show ?case by (simp add: index_fold)
    qed simp
    from 0 "2.prems" show ?thesis by (simp add: index_fold has_id_def keep)
  next
    case (Suc l)
    with "2.IH" [of l] "2.prems" show ?thesis by simp
  qed
qed simp

lemma index_blocks_eq:
  assumes "unique_ids key ms" and "has_id key k (ms ! j)" and "j < length ms"
  shows "index_blocks key 0 ms Map.empty k = Some j"
proof -
  obtain j' where j': "index_blocks key 0 ms Map.empty k = Some j'"
    using index_blocks_last [OF assms(2,3)] by blast
  from index_blocks_Some [OF this] have "j' < length ms" "has_id key k (ms ! j')" by auto
  with assms have "j' = j" by (auto simp: unique_ids_def)
  with j' show ?thesis by simp
qed

lemma list_all_filter: "list_all P xs \<Longrightarrow> filter P xs = xs"
  by (simp add: list_all_iff filter_True)

lemma strip_same:
  "(\<not> snd (strip_orphans us rs i ms)) =
     (\<forall>j < length ms. amContent (ms ! j) \<noteq> [] \<and> list_all (keep_block us rs (i + j)) (amContent (ms ! j)))"
proof (induction us rs i ms rule: strip_orphans.induct)
  case (2 us rs i m ms)
  show ?case
    by (simp add: Let_def case_prod_beta All_less_Suc2 "2.IH") (metis list_all_filter)
qed simp

lemma strip_result: "\<not> snd (strip_orphans us rs i ms) \<Longrightarrow> fst (strip_orphans us rs i ms) = ms"
proof (induction us rs i ms rule: strip_orphans.induct)
  case (2 us rs i m ms)
  then show ?case
    by (auto simp: Let_def case_prod_beta list_all_iff filter_empty_conv filter_True)
qed simp

lemma keep_block_ok:
  assumes k: "keep_block (index_blocks use_id 0 ms Map.empty) (index_blocks result_id 0 ms Map.empty) i c"
  shows "block_ok ms i c"
proof -
  note uses = index_blocks_Some [of use_id 0 ms Map.empty]
  note results = index_blocks_Some [of result_id 0 ms Map.empty]
  show ?thesis
  proof (cases "acType c = ''tool_use''")
    case True
    with k results [of "acID c" "i + 1"] show ?thesis
      by (auto simp: keep_block_def block_ok_def use_id_def result_id_def)
  next
    case notuse: False
    show ?thesis
    proof (cases "acType c = ''tool_result''")
      case True
      with k notuse obtain u where u: "index_blocks use_id 0 ms Map.empty (acToolUseID c) = Some u"
          "int u = int i - 1"
        by (auto simp: keep_block_def split: option.splits)
      then have "0 < i" "u = i - 1" by auto
      with uses [OF u(1)] True notuse show ?thesis
        by (simp add: block_ok_def use_id_def result_id_def)
    qed (simp add: notuse block_ok_def use_id_def result_id_def)
  qed
qed

lemma hd_from_user: "from_user ms = [] \<or> amRole (hd (from_user ms)) = ''user''"
  by (induction ms) (auto simp: from_user_def)

lemma round_stable:
  assumes "\<not> snd (repair_round ms)" and "ms = [] \<or> amRole (hd ms) = ''user''"
  shows "fst (repair_round ms) = ms" and "well_paired ms"
proof -
  from assms(1) show "fst (repair_round ms) = ms" by (simp add: repair_round_def strip_result)
  from assms(1) have st: "\<And>j. j < length ms \<Longrightarrow> amContent (ms ! j) \<noteq> [] \<and>
      list_all (keep_block (index_blocks use_id 0 ms Map.empty) (index_blocks result_id 0 ms Map.empty) j)
        (amContent (ms ! j))"
    by (auto simp: repair_round_def strip_same)
  then show "well_paired ms"
    using assms(2) keep_block_ok by (fastforce simp: well_paired_def list_all_iff)
qed

lemma sanitize_stable:
  "sanitizeMessages msgs = [] \<or>
   (\<exists>ms. sanitizeMessages msgs = ms \<and> \<not> snd (repair_round ms) \<and> amRole (hd ms) = ''user'')"
proof (induction msgs rule: sanitizeMessages.induct)
  case (1 msgs)
  let ?ms = "from_user msgs"
  obtain result stripped where rr: "repair_round ?ms = (result, stripped)" by fastforce
  show ?case
  proof (cases "?ms = [] \<or> length ?ms < length msgs \<or> snd (repair_round ?ms)")
    case True
    then consider "sanitizeMessages msgs = []"
      | "sanitizeMessages msgs = sanitizeMessages result" "?ms \<noteq> []" "length ?ms < length msgs \<or> stripped"
      using rr sanitizeMessages.simps [of msgs] by (auto simp: Let_def split: if_splits)
    then show ?thesis
      using "1.IH" [OF refl rr [symmetric]] by cases auto
  next
    case False
    have s: "sanitizeMessages msgs = ?ms"
      using False hd_from_user [of msgs] round_stable(1) [of ?ms]
      by (subst sanitizeMessages.simps) (simp add: Let_def case_prod_beta)
    show ?thesis
      unfolding s using False hd_from_user [of msgs] by blast
  qed
qed

text \<open>C10. Whatever conversation it is given, the repair loop ends in one that the API accepts:
  it opens with a user turn, has no empty turn, and tool calls and results are paired in
  adjacent turns.\<close>

theorem anthropic_repaired: "well_paired (sanitizeMessages ms)"
  using sanitize_stable [of ms] round_stable(2)
  by (auto simp: well_paired_def [of "[]"])

lemma sanitize_fixed:
  assumes "\<not> snd (repair_round ms)" and "ms = [] \<or> amRole (hd ms) = ''user''"
  shows "sanitizeMessages ms = ms"
proof -
  have "from_user ms = ms" using assms(2) by (cases ms) (auto simp: from_user_def)
  then show ?thesis
    using assms round_stable(1) [OF assms]
    by (subst sanitizeMessages.simps) (simp add: Let_def case_prod_beta)
qed

text \<open>A conversation the API accepts, with no identifier in two turns, is sent unchanged.\<close>

theorem anthropic_keeps_valid:
  assumes wp: "well_paired ms" and u: "unique_ids use_id ms" and r: "unique_ids result_id ms"
  shows "sanitizeMessages ms = ms"
proof (rule sanitize_fixed)
  show "ms = [] \<or> amRole (hd ms) = ''user''" using wp by (simp add: well_paired_def)
  have keep: "keep_block (index_blocks use_id 0 ms Map.empty) (index_blocks result_id 0 ms Map.empty) i c"
    if "block_ok ms i c" "i < length ms" for i c
    using that index_blocks_eq [OF u, of _ "i - 1"] index_blocks_eq [OF r, of _ "i + 1"]
    by (auto simp: block_ok_def keep_block_def use_id_def result_id_def of_nat_diff split: if_splits)
  show "\<not> snd (repair_round ms)"
    using wp keep by (auto simp: repair_round_def strip_same well_paired_def list_all_iff)
qed


definition demo_turns :: "api_message list" where
  "demo_turns =
     [\<lparr>amRole = ''user'', amContent = [text_block ''read it'']\<rparr>,
      \<lparr>amRole = ''assistant'', amContent = [empty_block\<lparr>acType := ''tool_use'', acID := ''t1'', acName := ''read''\<rparr>]\<rparr>,
      \<lparr>amRole = ''user'', amContent = [empty_block\<lparr>acType := ''tool_result'', acToolUseID := ''t1''\<rparr>]\<rparr>]"

lemma all_less_3: "(\<forall>i < 3. P i) \<longleftrightarrow> P 0 \<and> P (Suc 0) \<and> P (2 :: nat)"
  by (metis One_nat_def less_2_cases less_Suc_eq numeral_3_eq_3 numeral_2_eq_2 zero_less_Suc)

theorem anthropic_keeps_valid_witness: "sanitizeMessages demo_turns = demo_turns"
proof (rule anthropic_keeps_valid)
  have len: "length demo_turns = 3" by (simp add: demo_turns_def)
  note eval = demo_turns_def has_id_def use_id_def result_id_def empty_block_def text_block_def
  show "well_paired demo_turns"
    unfolding well_paired_def len all_less_3 by (simp add: eval block_ok_def)
  show "unique_ids use_id demo_turns" and "unique_ids result_id demo_turns"
    unfolding unique_ids_def len all_less_3 by (simp_all add: eval)
qed

text \<open>
  The library reports the results of several tool calls of one turn as separate tool
  messages, and each becomes a user turn of its own: only the first is adjacent to the calls.
\<close>

definition parallel_calls :: "string \<Rightarrow> string \<Rightarrow> message list" where
  "parallel_calls a b =
     [user_message ''go'',
      \<lparr>mRole = RoleAssistant, mContent = '''', mParts = [], mToolID = '''',
        mToolCalls = [\<lparr>tcID = a, tcName = ''read'', tcArguments = ''''\<rparr>,
                      \<lparr>tcID = b, tcName = ''read'', tcArguments = ''''\<rparr>]\<rparr>,
      \<lparr>mRole = RoleTool, mContent = ''1'', mParts = [], mToolID = a, mToolCalls = []\<rparr>,
      \<lparr>mRole = RoleTool, mContent = ''2'', mParts = [], mToolID = b, mToolCalls = []\<rparr>]"

definition call_turn :: "string \<Rightarrow> string \<Rightarrow> api_message list" where
  "call_turn a r =
     [\<lparr>amRole = ''user'', amContent = [text_block ''go'']\<rparr>,
      \<lparr>amRole = ''assistant'', amContent = [empty_block\<lparr>acType := ''tool_use'', acID := a,
         acName := ''read'', acInput := Some Map.empty\<rparr>]\<rparr>,
      \<lparr>amRole = ''user'', amContent = [empty_block\<lparr>acType := ''tool_result'', acToolUseID := a,
         acContent := json_string r\<rparr>]\<rparr>]"

lemma sanitize_again:
  "from_user ms = ms \<Longrightarrow> ms \<noteq> [] \<Longrightarrow> repair_round ms = (r, True) \<Longrightarrow> sanitizeMessages ms = sanitizeMessages r"
  by (subst sanitizeMessages.simps) (simp add: Let_def)

lemma call_turn_stable: "sanitizeMessages (call_turn a r) = call_turn a r"
  by (rule sanitize_fixed)
     (simp_all add: call_turn_def repair_round_def Let_def empty_block_def text_block_def use_id_def
       result_id_def keep_block_def)

text \<open>Of two tool calls in one assistant turn only the first survives the repair: the
  second call and its result are both removed from the request.\<close>

theorem parallel_results_lost:
  assumes "a \<noteq> b"
  shows "snd (convertRequest b64 (parallel_calls a b)) = call_turn a ''1''"
proof -
  let ?use = "\<lambda>k. empty_block\<lparr>acType := ''tool_use'', acID := k, acName := ''read'', acInput := Some Map.empty\<rparr>"
  let ?res = "\<lambda>k r. empty_block\<lparr>acType := ''tool_result'', acToolUseID := k, acContent := json_string r\<rparr>"
  let ?turns = "[\<lparr>amRole = ''user'', amContent = [text_block ''go'']\<rparr>,
      \<lparr>amRole = ''assistant'', amContent = [?use a, ?use b]\<rparr>,
      \<lparr>amRole = ''user'', amContent = [?res a ''1'']\<rparr>, \<lparr>amRole = ''user'', amContent = [?res b ''2'']\<rparr>]"
  have conv: "concat (map (convert_message b64) (parallel_calls a b)) = ?turns"
    by (simp add: parallel_calls_def convert_message_def api_turn_def user_message_def
      tool_use_block_def tool_result_block_def argsToMap_def)
  have "repair_round ?turns = (call_turn a ''1'', True)"
    using assms by (simp add: repair_round_def call_turn_def Let_def empty_block_def text_block_def
      use_id_def result_id_def keep_block_def)
  then have "sanitizeMessages ?turns = call_turn a ''1''"
    using sanitize_again [of ?turns] call_turn_stable by (simp add: from_user_def)
  then show ?thesis by (simp only: convertRequest_def conv snd_conv)
qed

theorem parallel_results_lost_witness:
  "snd (convertRequest (\<lambda>s. s) (parallel_calls ''t1'' ''t2'')) = call_turn ''t1'' ''1''"
  by (rule parallel_results_lost) simp

end
