(* ===== verification/GeminiAdapter.thy ===== *)
theory GeminiAdapter
  imports ContextManager
begin

text \<open>
  \<open>internal/model/gemini/trpc_adapter.go\<close>: the conversion of a conversation into the
  contents of the Gemini API, the ordering rules \<open>sanitizeContents\<close> enforces and the
  conversion of a response.  Tool declarations and the HTTP exchange are not modelled.
\<close>

section \<open>API contents\<close>

record api_blob =
  abMimeType :: string
  abData :: string

record api_function_call =
  fcName :: string
  fcArgs :: string

record api_function_response =
  frName :: string
  frResponse :: "(string \<rightharpoonup> json) option"

record api_part =
  gpText :: string
  gpInlineData :: "api_blob option"
  gpFunctionCall :: "api_function_call option"
  gpFunctionResponse :: "api_function_response option"
  gpThoughtSignature :: string

record gemini_content =
  gcRole :: string
  gcParts :: "api_part list"

definition empty_part :: api_part where
  "empty_part = \<lparr>gpText = '''', gpInlineData = None, gpFunctionCall = None,
     gpFunctionResponse = None, gpThoughtSignature = ''''\<rparr>"

definition is_call :: "api_part \<Rightarrow> bool" where
  "is_call p \<longleftrightarrow> gpFunctionCall p \<noteq> None"

definition hasFunctionCall :: "gemini_content \<Rightarrow> bool" where
  "hasFunctionCall c = list_ex is_call (gcParts c)"

section \<open>Enforcing the order of turns\<close>

text \<open>The name of the function a content answers, when it is a function response.\<close>

definition response_name :: "gemini_content \<Rightarrow> string option" where
  "response_name c =
     (if gcRole c = ''function'' then
        (case gcParts c of
           p # _ \<Rightarrow> map_option frName (gpFunctionResponse p)
         | [] \<Rightarrow> None)
      else None)"

text \<open>Step 1: the function responses by name, and everything else.\<close>

definition collect_responses :: "gemini_content list \<Rightarrow> string \<Rightarrow> gemini_content list" where
  "collect_responses cs name = filter (\<lambda>c. response_name c = Some name) cs"

definition other_contents :: "gemini_content list \<Rightarrow> gemini_content list" where
  "other_contents cs = filter (\<lambda>c. response_name c = None) cs"

text \<open>Step 2: the responses of the calls of one content, and the responses left.\<close>

fun take_responses ::
  "api_part list \<Rightarrow> (string \<Rightarrow> gemini_content list) \<Rightarrow> gemini_content list \<times> (string \<Rightarrow> gemini_content list)" where
  "take_responses [] rs = ([], rs)"
| "take_responses (p # ps) rs =
     (case gpFunctionCall p of
        None \<Rightarrow> take_responses ps rs
      | Some fc \<Rightarrow>
          (case rs (fcName fc) of
             [] \<Rightarrow> take_responses ps rs
           | r # rest \<Rightarrow>
               (let (out, rs') = take_responses ps (rs(fcName fc := rest)) in (r # out, rs'))))"

fun pair_responses ::
  "gemini_content list \<Rightarrow> (string \<Rightarrow> gemini_content list) \<Rightarrow> gemini_content list" where
  "pair_responses [] rs = []"
| "pair_responses (c # cs) rs =
     (if gcRole c = ''model''
      then (let (out, rs') = take_responses (gcParts c) rs in c # out @ pair_responses cs rs')
      else c # pair_responses cs rs)"

text \<open>Step 3: \<open>merged\<close> is built by appending to its last element.\<close>

definition merge_one :: "gemini_content list \<Rightarrow> gemini_content \<Rightarrow> gemini_content list" where
  "merge_one merged c =
     (if merged \<noteq> [] \<and> gcRole (last merged) = gcRole c
      then butlast merged @ [(last merged)\<lparr>gcParts := gcParts (last merged) @ gcParts c\<rparr>]
      else merged @ [c])"

definition merge_roles :: "gemini_content list \<Rightarrow> gemini_content list" where
  "merge_roles cs = foldl merge_one [] cs"

definition drop_to_user :: "gemini_content list \<Rightarrow> gemini_content list" where
  "drop_to_user cs = dropWhile (\<lambda>c. gcRole c \<noteq> ''user'') cs"

text \<open>Step 5: calls without a following response are removed.\<close>

fun drop_orphans :: "gemini_content list \<Rightarrow> gemini_content list" where
  "drop_orphans [] = []"
| "drop_orphans (c # cs) =
     (if gcRole c = ''model'' \<and> hasFunctionCall c \<and>
         \<not> (case cs of d # _ \<Rightarrow> gcRole d = ''function'' | [] \<Rightarrow> False)
      then (let textParts = filter (\<lambda>p. \<not> is_call p) (gcParts c)
            in if textParts = [] then drop_orphans cs
               else c\<lparr>gcParts := textParts\<rparr> # drop_orphans cs)
      else c # drop_orphans cs)"

definition sanitizeContents :: "gemini_content list \<Rightarrow> gemini_content list" where
  "sanitizeContents contents =
     drop_orphans (drop_to_user (merge_roles
       (pair_responses (other_contents contents) (collect_responses contents))))"

section \<open>Converting a request\<close>

definition tool_names :: "message list \<Rightarrow> (string \<rightharpoonup> string)" where
  "tool_names ms = foldl (\<lambda>m tc. m(tcID tc \<mapsto> tcName tc)) Map.empty
     (concat (map mToolCalls (filter (\<lambda>m. mRole m = RoleAssistant) ms)))"

text \<open>What follows the first \<open>:::\<close> of a tool call's identifier.\<close>

fun after_mark :: "string \<Rightarrow> string option" where
  "after_mark [] = None"
| "after_mark (c # s) = (if has_prefix (c # s) '':::'' then Some (drop 2 s) else after_mark s)"

definition thought_signature :: "string \<Rightarrow> string" where
  "thought_signature tid = (case after_mark tid of None \<Rightarrow> '''' | Some t \<Rightarrow> t)"

definition text_part :: "string \<Rightarrow> api_part" where
  "text_part t = empty_part\<lparr>gpText := t\<rparr>"

definition convert_gemini_part :: "(string \<Rightarrow> string) \<Rightarrow> content_part \<Rightarrow> api_part list" where
  "convert_gemini_part b64 p =
     (if cpType p = ''text'' then (case cpText p of None \<Rightarrow> [] | Some t \<Rightarrow> [text_part t])
      else if cpType p = ''image'' then
        (case cpImage p of
           None \<Rightarrow> []
         | Some im \<Rightarrow>
             if imData im \<noteq> ''''
             then [empty_part\<lparr>gpInlineData := Some \<lparr>abMimeType = imageFormatToMIME (imFormat im),
                     abData = b64 (imData im)\<rparr>\<rparr>]
             else [])
      else [])"

definition call_part :: "tool_call \<Rightarrow> api_part" where
  "call_part tc = empty_part\<lparr>
     gpFunctionCall := Some \<lparr>fcName = tcName tc, fcArgs = tcArguments tc\<rparr>,
     gpThoughtSignature := thought_signature (tcID tc)\<rparr>"

definition response_value :: "string \<Rightarrow> (string \<rightharpoonup> json) option" where
  "response_value c =
     (case decode_object c of
        None \<Rightarrow> Some [''result'' \<mapsto> JStr c]
      | Some m \<Rightarrow> if json_parse c = Some JNull then None else Some m)"

definition response_content :: "(string \<rightharpoonup> string) \<Rightarrow> message \<Rightarrow> gemini_content" where
  "response_content names m =
     (let known = (case names (mToolID m) of None \<Rightarrow> '''' | Some n \<Rightarrow> n);
          funcName = (if known = '''' then mToolID m else known)
      in \<lparr>gcRole = ''function'', gcParts = [empty_part\<lparr>gpFunctionResponse :=
            Some \<lparr>frName = funcName, frResponse = response_value (mContent m)\<rparr>\<rparr>]\<rparr>)"

definition gemini_turn :: "string \<Rightarrow> api_part list \<Rightarrow> gemini_content list" where
  "gemini_turn r ps = (if ps = [] then [] else [\<lparr>gcRole = r, gcParts = ps\<rparr>])"

definition convert_gemini_message ::
  "(string \<Rightarrow> string) \<Rightarrow> (string \<rightharpoonup> string) \<Rightarrow> message \<Rightarrow> gemini_content list" where
  "convert_gemini_message b64 names m =
     (let txt = (if mContent m \<noteq> '''' then [text_part (mContent m)] else []) in
      case mRole m of
        RoleUser \<Rightarrow> gemini_turn ''user'' (txt @ concat (map (convert_gemini_part b64) (mParts m)))
      | RoleAssistant \<Rightarrow> gemini_turn ''model'' (txt @ map call_part (mToolCalls m))
      | RoleTool \<Rightarrow> [response_content names m]
      | _ \<Rightarrow> [])"

definition gemini_contents :: "(string \<Rightarrow> string) \<Rightarrow> message list \<Rightarrow> gemini_content list" where
  "gemini_contents b64 ms = concat (map (convert_gemini_message b64 (tool_names ms)) ms)"

definition gemini_system :: "message list \<Rightarrow> string" where
  "gemini_system ms = foldl (\<lambda>p m. if mRole m = RoleSystem then mContent m else p) '''' ms"

definition convertRequest ::
  "(string \<Rightarrow> string) \<Rightarrow> message list \<Rightarrow> (string option \<times> gemini_content list) go_result" where
  "convertRequest b64 ms =
     (let systemPrompt = gemini_system ms;
          contents = sanitizeContents (gemini_contents b64 ms)
      in if contents = []
         then Inl ''no valid messages after sanitization (conversation must contain at least one user message)''
         else Inr (if systemPrompt \<noteq> '''' then Some systemPrompt else None, contents))"

text \<open>\<open>GenerateContent\<close> up to the request: the pruner, when there is one, goes first.\<close>

definition generate_request ::
  "(message list \<Rightarrow> message list \<times> bool) option \<Rightarrow> (string \<Rightarrow> string) \<Rightarrow> message list \<Rightarrow>
   (string option \<times> gemini_content list) go_result" where
  "generate_request pruner b64 ms =
     convertRequest b64 (case pruner of
        None \<Rightarrow> ms
      | Some prune \<Rightarrow> (case prune ms of (prunedMsgs, pruned) \<Rightarrow> if pruned then prunedMsgs else ms))"

section \<open>Converting a response\<close>

definition mapFinishReason :: "string \<Rightarrow> string" where
  "mapFinishReason r =
     (if r = ''STOP'' then ''stop'' else if r = ''MAX_TOKENS'' then ''length''
      else if r = ''SAFETY'' then ''content_filter'' else if r = ''RECITATION'' then ''content_filter''
      else if r = ''OTHER'' then ''stop'' else r)"

text \<open>The fresh identifiers are drawn from a list; \<open>marshal\<close> is \<open>json.Marshal\<close> of the raw
  arguments.\<close>

fun response_calls :: "(string \<Rightarrow> string) \<Rightarrow> string list \<Rightarrow> api_part list \<Rightarrow> tool_call list" where
  "response_calls marshal uuids [] = []"
| "response_calls marshal uuids (p # ps) =
     (case (gpFunctionCall p, uuids) of
        (Some fc, u # us) \<Rightarrow>
          \<lparr>tcID = (if gpThoughtSignature p \<noteq> '''' then u @ '':::'' @ gpThoughtSignature p else u),
           tcName = fcName fc, tcArguments = marshal (fcArgs fc)\<rparr> # response_calls marshal us ps
      | (Some fc, []) \<Rightarrow> []
      | (None, _) \<Rightarrow> response_calls marshal uuids ps)"

definition response_message :: "(string \<Rightarrow> string) \<Rightarrow> string list \<Rightarrow> gemini_content \<Rightarrow> message" where
  "response_message marshal uuids c =
     \<lparr>mRole = RoleAssistant, mContent = concat (map gpText (gcParts c)), mParts = [], mToolID = '''',
      mToolCalls = response_calls marshal uuids (gcParts c)\<rparr>"

text \<open>A response is its candidates, each a content and a finish reason; only the first counts.\<close>

definition convertResponse ::
  "(string \<Rightarrow> string) \<Rightarrow> string list \<Rightarrow> (gemini_content \<times> string) list \<Rightarrow> (message \<times> string) option" where
  "convertResponse marshal uuids candidates =
     (case candidates of
        [] \<Rightarrow> None
      | (c, reason) # _ \<Rightarrow> Some (response_message marshal uuids c, mapFinishReason reason))"

section \<open>The order of the turns that are sent\<close>

text \<open>
  \<open>answered ok cs\<close>: every function turn comes right after a model turn with a call, or
  after such a turn and other function turns; \<open>ok\<close> says whether one may come first.
  \<open>calls_ok cs\<close>: every model turn with a call is followed by a function turn.
\<close>

definition opens :: "gemini_content \<Rightarrow> bool" where
  "opens c \<longleftrightarrow> gcRole c = ''model'' \<and> hasFunctionCall c"

definition next_state :: "bool \<Rightarrow> gemini_content \<Rightarrow> bool" where
  "next_state ok c = (if gcRole c = ''function'' then ok else opens c)"

fun answered :: "bool \<Rightarrow> gemini_content list \<Rightarrow> bool" where
  "answered ok [] = True"
| "answered ok (c # cs) = ((gcRole c = ''function'' \<longrightarrow> ok) \<and> answered (next_state ok c) cs)"

definition function_next :: "gemini_content list \<Rightarrow> bool" where
  "function_next cs = (case cs of d # _ \<Rightarrow> gcRole d = ''function'' | [] \<Rightarrow> False)"

fun calls_ok :: "gemini_content list \<Rightarrow> bool" where
  "calls_ok [] = True"
| "calls_ok (c # cs) = ((opens c \<longrightarrow> function_next cs) \<and> calls_ok cs)"

definition gemini_ordered :: "gemini_content list \<Rightarrow> bool" where
  "gemini_ordered cs \<longleftrightarrow> cs \<noteq> [] \<and> gcRole (hd cs) = ''user'' \<and> answered False cs \<and> calls_ok cs"

lemma next_state_fold: "foldl next_state ok (xs @ [c]) = next_state (foldl next_state ok xs) c"
  by simp

lemma answered_append:
  "answered ok (xs @ ys) \<longleftrightarrow> answered ok xs \<and> answered (foldl next_state ok xs) ys"
  by (induction xs arbitrary: ok) auto

lemma fold_functions:
  "\<forall>c \<in> set out. gcRole c = ''function'' \<Longrightarrow> foldl next_state ok out = ok"
  by (induction out) (simp_all add: next_state_def)

lemma answered_functions: "\<forall>c \<in> set out. gcRole c = ''function'' \<Longrightarrow> out = [] \<or> ok \<Longrightarrow> answered ok out"
  by (induction out) (auto simp: next_state_def)

definition responses_only :: "(string \<Rightarrow> gemini_content list) \<Rightarrow> bool" where
  "responses_only rs \<longleftrightarrow> (\<forall>n. \<forall>c \<in> set (rs n). gcRole c = ''function'')"

lemma responses_onlyD: "responses_only rs \<Longrightarrow> c \<in> set (rs n) \<Longrightarrow> gcRole c = ''function''"
  by (auto simp: responses_only_def)

lemma take_responses_only:
  "take_responses ps rs = (out, rs') \<Longrightarrow> responses_only rs \<Longrightarrow>
     (\<forall>c \<in> set out. gcRole c = ''function'') \<and> responses_only rs' \<and> (out = [] \<or> list_ex is_call ps)"
proof (induction ps rs arbitrary: out rs' rule: take_responses.induct)
  case (2 p ps rs)
  show ?case
  proof (cases "gpFunctionCall p")
    case None
    with 2 show ?thesis by auto
  next
    case (Some fc)
    show ?thesis
    proof (cases "rs (fcName fc)")
      case Nil
      with 2 Some show ?thesis by auto
    next
      case (Cons r rest)
      obtain out1 rs1 where t: "take_responses ps (rs(fcName fc := rest)) = (out1, rs1)" by fastforce
      have "responses_only (rs(fcName fc := rest))"
        using "2.prems"(2) Cons by (auto simp: responses_only_def) (metis list.set_intros(2))
      moreover have "gcRole r = ''function''"
        using responses_onlyD [OF "2.prems"(2), of r "fcName fc"] Cons by simp
      moreover have "(\<forall>c \<in> set out1. gcRole c = ''function'') \<and> responses_only rs1"
        using "2.IH"(3) [OF Some Cons t] calculation by blast
      moreover have "out = r # out1" "rs' = rs1" using "2.prems"(1) Some Cons t by auto
      ultimately show ?thesis using Some by (simp add: is_call_def)
    qed
  qed
qed auto

lemma pair_answered:
  "responses_only rs \<Longrightarrow> \<forall>c \<in> set cs. gcRole c \<noteq> ''function'' \<Longrightarrow> answered ok (pair_responses cs rs)"
proof (induction cs rs arbitrary: ok rule: pair_responses.induct)
  case (2 c cs rs)
  show ?case
  proof (cases "gcRole c = ''model''")
    case True
    obtain out rs' where t: "take_responses (gcParts c) rs = (out, rs')" by fastforce
    note out = take_responses_only [OF t "2.prems"(1)]
    have "answered (opens c) out"
      using out True by (intro answered_functions) (auto simp: opens_def hasFunctionCall_def)
    then show ?thesis
      using True t out "2.IH"(1) [OF True refl t [symmetric]] "2.prems"(2)
      by (simp add: answered_append next_state_def)
  next
    case False
    with "2.IH"(2) "2.prems" show ?thesis by simp
  qed
qed simp

lemma merge_one_answered:
  assumes a: "answered False m" and f: "gcRole c = ''function'' \<Longrightarrow> foldl next_state False m"
  shows "answered False (merge_one m c) \<and>
    (next_state (foldl next_state False m) c \<longrightarrow> foldl next_state False (merge_one m c))"
proof (cases "m \<noteq> [] \<and> gcRole (last m) = gcRole c")
  case False
  then show ?thesis using a f unfolding merge_one_def if_not_P [OF False] answered_append next_state_fold by simp
next
  case True
  then obtain b where m: "m = b @ [last m]" by (metis append_butlast_last_id)
  let ?l = "last m" and ?s = "foldl next_state False b"
  have eq: "merge_one m c = b @ [?l\<lparr>gcParts := gcParts ?l @ gcParts c\<rparr>]"
    using True m by (metis butlast_snoc merge_one_def)
  have l: "answered ?s [?l]" "answered False b" using a m answered_append by metis+
  have s: "foldl next_state False m = next_state ?s ?l" using m next_state_fold by metis
  show ?thesis
    using l True unfolding eq answered_append next_state_fold s
    by (auto simp: next_state_def opens_def hasFunctionCall_def)
qed

lemma merge_answered:
  "answered ok cs \<Longrightarrow> answered False m \<Longrightarrow> (ok \<Longrightarrow> foldl next_state False m) \<Longrightarrow>
     answered False (foldl merge_one m cs)"
proof (induction cs arbitrary: ok m)
  case (Cons c cs)
  have f: "gcRole c = ''function'' \<Longrightarrow> foldl next_state False m"
    using Cons.prems(1,3) unfolding answered.simps by blast
  note step = merge_one_answered [OF Cons.prems(2) f]
  have "next_state ok c \<Longrightarrow> next_state (foldl next_state False m) c"
    using Cons.prems(3) unfolding next_state_def by (cases "gcRole c = ''function''") simp_all
  then show ?case
    using Cons.prems(1) step by (auto intro: Cons.IH)
qed simp

lemma drop_to_user_answered: "answered ok cs \<Longrightarrow> answered False (drop_to_user cs)"
  by (induction cs arbitrary: ok) (auto simp: drop_to_user_def next_state_def)

lemma drop_to_user_hd: "drop_to_user cs = [] \<or> gcRole (hd (drop_to_user cs)) = ''user''"
  by (induction cs) (auto simp: drop_to_user_def)


lemma function_next_orphans: "function_next cs \<Longrightarrow> function_next (drop_orphans cs)"
  by (cases cs) (simp_all add: function_next_def)

lemma answered_reset: "\<not> function_next cs \<Longrightarrow> answered ok cs = answered ok' cs"
  by (cases cs) (simp_all add: function_next_def next_state_def)

lemma no_calls_left: "\<not> opens (c\<lparr>gcParts := filter (\<lambda>p. \<not> is_call p) ps\<rparr>)"
  by (induction ps) (auto simp: opens_def hasFunctionCall_def)

lemma drop_orphans_Cons:
  "drop_orphans (c # cs) =
     (if opens c \<and> \<not> function_next cs
      then (let tp = filter (\<lambda>p. \<not> is_call p) (gcParts c)
            in if tp = [] then drop_orphans cs else c\<lparr>gcParts := tp\<rparr> # drop_orphans cs)
      else c # drop_orphans cs)"
  by (simp add: opens_def function_next_def)

lemma next_state_stripped:
  "opens c \<Longrightarrow> next_state ok (c\<lparr>gcParts := filter (\<lambda>p. \<not> is_call p) ps\<rparr>) = False"
  using no_calls_left by (simp add: next_state_def opens_def)

lemma orphans_answered: "answered ok cs \<Longrightarrow> answered ok (drop_orphans cs)"
proof (induction cs arbitrary: ok)
  case (Cons c cs)
  show ?case
  proof (cases "opens c \<and> \<not> function_next cs")
    case True
    then have "answered ok' cs" for ok' using Cons.prems answered_reset by simp blast
    then have "answered ok' (drop_orphans cs)" for ok' using Cons.IH by blast
    moreover have "gcRole c = ''model''" using True by (simp add: opens_def)
    ultimately show ?thesis using True by (simp only: drop_orphans_Cons) (simp add: Let_def)
  next
    case False
    with Cons show ?thesis by (simp only: drop_orphans_Cons if_False) simp
  qed
qed simp

lemma orphans_calls_ok: "calls_ok (drop_orphans cs)"
proof (induction cs)
  case (Cons c cs)
  then show ?case
    using no_calls_left function_next_orphans by (simp only: drop_orphans_Cons) (simp add: Let_def)
qed simp

lemma drop_orphans_user:
  "cs \<noteq> [] \<Longrightarrow> gcRole (hd cs) = ''user'' \<Longrightarrow>
     drop_orphans cs \<noteq> [] \<and> gcRole (hd (drop_orphans cs)) = ''user''"
  by (cases cs) simp_all

lemma sanitize_ordered:
  assumes "\<forall>c \<in> set cs. gcRole c = ''function'' \<longrightarrow> response_name c \<noteq> None"
    and "sanitizeContents cs \<noteq> []"
  shows "gemini_ordered (sanitizeContents cs)"
proof -
  let ?paired = "pair_responses (other_contents cs) (collect_responses cs)"
  let ?user = "drop_to_user (merge_roles ?paired)"
  have "responses_only (collect_responses cs)"
    by (auto simp: responses_only_def collect_responses_def response_name_def split: if_splits)
  moreover have "\<forall>c \<in> set (other_contents cs). gcRole c \<noteq> ''function''"
    using assms(1) by (auto simp: other_contents_def)
  ultimately have "answered False ?paired" by (rule pair_answered)
  then have "answered False (merge_roles ?paired)"
    unfolding merge_roles_def by (rule merge_answered) simp_all
  then have u: "answered False ?user" by (rule drop_to_user_answered)
  have ne: "?user \<noteq> []" using assms(2) by (auto simp: sanitizeContents_def)
  with drop_to_user_hd have "gcRole (hd ?user) = ''user''" by blast
  with ne u show ?thesis
    using drop_orphans_user orphans_answered orphans_calls_ok
    by (simp add: gemini_ordered_def sanitizeContents_def)
qed

lemma converted_functions:
  "\<forall>c \<in> set (gemini_contents b64 ms). gcRole c = ''function'' \<longrightarrow> response_name c \<noteq> None"
  by (auto simp: gemini_contents_def convert_gemini_message_def gemini_turn_def Let_def
    response_content_def response_name_def empty_part_def split: role.splits if_splits)

text \<open>C11. Every request that is sent obeys the order of turns Gemini asks for: it opens with a
  user turn, every model turn with a function call is followed by a function turn, and every
  function turn follows such a model turn.\<close>

theorem gemini_request_ordered:
  "case convertRequest b64 ms of Inl _ \<Rightarrow> sanitizeContents (gemini_contents b64 ms) = []
   | Inr (_, cs) \<Rightarrow> gemini_ordered cs"
  using sanitize_ordered [OF converted_functions, of b64 ms]
  by (simp add: convertRequest_def Let_def)


section \<open>A conversation with a user message is always sent\<close>

definition has_user :: "gemini_content list \<Rightarrow> bool" where
  "has_user cs \<longleftrightarrow> list_ex (\<lambda>c. gcRole c = ''user'') cs"

lemma has_user_pair: "has_user cs \<Longrightarrow> has_user (pair_responses cs rs)"
proof (induction cs rs rule: pair_responses.induct)
  case (2 c cs rs)
  obtain out rs' where t: "take_responses (gcParts c) rs = (out, rs')" by fastforce
  show ?case
  proof (cases "gcRole c = ''model''")
    case True
    with 2(1) [OF True refl t [symmetric]] "2.prems" t show ?thesis by (simp add: has_user_def)
  next
    case False
    with 2(2) [OF False] "2.prems" show ?thesis by (auto simp: has_user_def)
  qed
qed (simp add: has_user_def)

lemma has_user_merge_one:
  "has_user (merge_one m c) \<longleftrightarrow> has_user m \<or> gcRole c = ''user''"
proof (cases "m \<noteq> [] \<and> gcRole (last m) = gcRole c")
  case True
  then obtain b l where m: "m = b @ [l]" by (metis append_butlast_last_id)
  with True show ?thesis by (auto simp: merge_one_def has_user_def)
qed (auto simp: merge_one_def has_user_def)

lemma has_user_merge: "has_user (foldl merge_one m cs) \<longleftrightarrow> has_user m \<or> has_user cs"
proof (induction cs arbitrary: m)
  case (Cons c cs)
  have "has_user (c # cs) \<longleftrightarrow> gcRole c = ''user'' \<or> has_user cs" by (simp add: has_user_def)
  with Cons show ?case by (simp add: has_user_merge_one disj_assoc)
qed (simp add: has_user_def)

lemma has_user_sanitize: "has_user cs \<Longrightarrow> sanitizeContents cs \<noteq> []"
proof -
  assume "has_user cs"
  then have "has_user (other_contents cs)"
    by (force simp: has_user_def list_ex_iff other_contents_def response_name_def)
  then have "has_user (merge_roles (pair_responses (other_contents cs) (collect_responses cs)))"
    by (simp add: merge_roles_def has_user_merge has_user_pair)
  then have "drop_to_user (merge_roles (pair_responses (other_contents cs) (collect_responses cs))) \<noteq> []"
    by (auto simp: drop_to_user_def has_user_def list_ex_iff)
  then show ?thesis
    using drop_to_user_hd drop_orphans_user unfolding sanitizeContents_def by blast
qed

lemma convert_user: "user_text m \<Longrightarrow> has_user (convert_gemini_message b64 names m)"
  by (simp add: user_text_def convert_gemini_message_def gemini_turn_def has_user_def)

lemma converts: "\<exists>m \<in> set ms. user_text m \<Longrightarrow> is_ok (convertRequest b64 ms)"
proof -
  assume "\<exists>m \<in> set ms. user_text m"
  then have "has_user (gemini_contents b64 ms)"
    using convert_user by (fastforce simp: gemini_contents_def has_user_def list_ex_iff)
  then show ?thesis using has_user_sanitize by (simp add: convertRequest_def Let_def)
qed

context context_pruner
begin

lemma request_accepted:
  assumes "\<exists>m \<in> set ms. user_text m"
  shows "is_ok (generate_request (Some prune) b64 ms)"
  using converts [OF pruned_user [OF assms]] by (simp add: generate_request_def)

end

text \<open>C12. Pruning never makes Gemini reject a conversation: whatever the manager's budget and
  counters are, a conversation with a user text is converted without the error
  "no valid messages".\<close>

theorem pruned_request_accepted:
  assumes "\<exists>m \<in> set ms. user_text m"
  shows "is_ok (generate_request (Some (\<lambda>ms. snd (CheckAndPrune order ms cm))) b64 ms)"
  using assms by (rule cm.request_accepted)

theorem pruned_request_accepted_witness:
  "is_ok (generate_request (Some (\<lambda>ms. snd (CheckAndPrune (\<lambda>ks. ks) ms demo_cm))) (\<lambda>s. s)
     (replicate 9 (user_message ''go'')))"
  by (rule pruned_request_accepted) (simp add: user_text_def user_message_def)

section \<open>Thought signatures\<close>

lemma after_mark_skip: "CHR '':'' \<notin> set u \<Longrightarrow> after_mark (u @ s) = after_mark s"
proof (induction u)
  case (Cons c u)
  then have "\<not> has_prefix (c # u @ s) '':::''" by (auto simp: has_prefix_def)
  with Cons show ?case by simp
qed simp

lemma thought_signature_embedded:
  "CHR '':'' \<notin> set u \<Longrightarrow> thought_signature (if t \<noteq> '''' then u @ '':::'' @ t else u) = t"
  using after_mark_skip [of u "[]"]
  by (simp add: thought_signature_def after_mark_skip has_prefix_def)

text \<open>A thought signature survives the round trip through the conversation: the calls of a
  response, sent back with the next request, carry the name and the signature they came
  with, provided the fresh identifiers hold no colon and there are enough of them.\<close>

theorem thought_signatures_kept:
  assumes "length (filter is_call ps) \<le> length us" and "\<forall>u \<in> set us. CHR '':'' \<notin> set u"
  shows "map (\<lambda>p. (map_option fcName (gpFunctionCall p), gpThoughtSignature p))
      (map call_part (response_calls marshal us ps)) =
    map (\<lambda>p. (map_option fcName (gpFunctionCall p), gpThoughtSignature p)) (filter is_call ps)"
  using assms
proof (induction marshal us ps rule: response_calls.induct)
  case (2 marshal us p ps)
  show ?case
  proof (cases "gpFunctionCall p")
    case None
    with 2 show ?thesis by (simp add: is_call_def)
  next
    case (Some fc)
    with "2.prems" obtain u us' where us: "us = u # us'" by (cases us) (auto simp: is_call_def)
    with 2 Some show ?thesis
      using thought_signature_embedded [of u "gpThoughtSignature p"]
      by (simp add: is_call_def call_part_def empty_part_def)
  qed
qed simp

definition signed_part :: api_part where
  "signed_part = empty_part\<lparr>gpFunctionCall := Some \<lparr>fcName = ''read'', fcArgs = ''{}''\<rparr>,
     gpThoughtSignature := ''sig''\<rparr>"

theorem thought_signatures_kept_witness:
  "map gpThoughtSignature (map call_part (response_calls (\<lambda>a. a) [''u1''] [signed_part])) = [''sig'']"
proof -
  have "length (filter is_call [signed_part]) \<le> length [''u1'']" by simp
  moreover have "\<forall>u \<in> set [''u1'']. CHR '':'' \<notin> set u" by simp
  ultimately have "map (\<lambda>p. (map_option fcName (gpFunctionCall p), gpThoughtSignature p))
      (map call_part (response_calls (\<lambda>a. a) [''u1''] [signed_part])) =
    map (\<lambda>p. (map_option fcName (gpFunctionCall p), gpThoughtSignature p)) (filter is_call [signed_part])"
    by (rule thought_signatures_kept)
  then show ?thesis by (auto simp: signed_part_def is_call_def empty_part_def split: if_splits)
qed

text \<open>
  Merging comes before the removal of unanswered calls, so removing a model turn can leave
  two user turns side by side.
\<close>

lemma user_turns_side_by_side:
  "convertRequest b64 [user_message ''a'',
     \<lparr>mRole = RoleAssistant, mContent = '''', mParts = [], mToolID = '''',
      mToolCalls = [\<lparr>tcID = k, tcName = n, tcArguments = ''''\<rparr>]\<rparr>, user_message ''b''] =
   Inr (None, [\<lparr>gcRole = ''user'', gcParts = [text_part ''a'']\<rparr>, \<lparr>gcRole = ''user'', gcParts = [text_part ''b'']\<rparr>])"
  by (simp add: convertRequest_def gemini_system_def gemini_contents_def convert_gemini_message_def
    user_message_def gemini_turn_def call_part_def sanitizeContents_def other_contents_def
    collect_responses_def response_name_def merge_roles_def merge_one_def drop_to_user_def
    hasFunctionCall_def is_call_def text_part_def empty_part_def Let_def)


end
