(* ===== verification/GuardedStore.thy ===== *)
theory GuardedStore
  imports Messages
begin

text \<open>
  The stores of \<open>internal/agent/guarded_graph.go\<close>: \<open>GuardedExecutionStore\<close>, the paused
  executions that wait for an approval, and \<open>InMemoryCheckpointSaver\<close>, the checkpoints of
  the graph library with the lineage they belong to.
\<close>

section \<open>Paused executions\<close>

text \<open>
  A graph and its executor are named by the lineage of the run that built them, and are
  \<open>None\<close> while the pointer is nil.  A decision channel is \<open>None\<close> when nil, and otherwise a
  buffer for one decision.
\<close>

record guarded_execution =
  geID :: string
  geSessionID :: string
  geUserID :: string
  geSkillName :: string
  geToolName :: string
  geToolArgs :: string
  geDescription :: string
  geLineageID :: string
  geCheckpointID :: string
  geInvocationID :: string
  geGraph :: "string option"
  geExecutor :: "string option"
  geCreatedAt :: time
  geDecisionCh :: "bool option option"

type_synonym execution_store = "string \<rightharpoonup> guarded_execution"

definition Store :: "guarded_execution \<Rightarrow> execution_store \<Rightarrow> execution_store" where
  "Store e s = s(geID e \<mapsto> e)"

definition Get_execution :: "string \<Rightarrow> execution_store \<Rightarrow> guarded_execution option" where
  "Get_execution i s = s i"

definition Delete_execution :: "string \<Rightarrow> execution_store \<Rightarrow> execution_store" where
  "Delete_execution i s = s(i := None)"

definition SignalDecision :: "string \<Rightarrow> bool \<Rightarrow> execution_store \<Rightarrow> execution_store \<times> bool" where
  "SignalDecision i approved s =
     (case s i of
        None \<Rightarrow> (s, False)
      | Some e \<Rightarrow>
          (case geDecisionCh e of
             None \<Rightarrow> (s, False)
           | Some (Some _) \<Rightarrow> (s, False)
           | Some None \<Rightarrow> (s(i \<mapsto> e\<lparr>geDecisionCh := Some (Some approved)\<rparr>), True)))"

text \<open>The receive on the channel: blocked, or the decision, which leaves the buffer.\<close>

definition receive_decision :: "string \<Rightarrow> execution_store \<Rightarrow> (execution_store \<times> bool) option" where
  "receive_decision i s =
     (case s i of
        Some e \<Rightarrow> (case geDecisionCh e of
            Some (Some b) \<Rightarrow> Some (s(i \<mapsto> e\<lparr>geDecisionCh := Some None\<rparr>), b)
          | _ \<Rightarrow> None)
      | None \<Rightarrow> None)"

fun signal_all :: "string \<Rightarrow> bool list \<Rightarrow> execution_store \<Rightarrow> execution_store \<times> bool list" where
  "signal_all i [] s = (s, [])"
| "signal_all i (b # bs) s =
     (let (s1, r) = SignalDecision i b s; (s2, rs) = signal_all i bs s1 in (s2, r # rs))"

lemma signal_full: "s i = Some e \<Longrightarrow> geDecisionCh e = Some (Some b) \<Longrightarrow> signal_all i bs s = (s, replicate (length bs) False)"
  by (induction bs) (simp_all add: SignalDecision_def)

text \<open>The first decision wins: of any decisions signalled to a waiting execution exactly the
  first is accepted, and it is the one the waiting agent receives.\<close>

theorem first_decision_wins:
  assumes "s i = Some e" and "geDecisionCh e = Some None"
  shows "snd (signal_all i (b # bs) s) = True # replicate (length bs) False \<and>
    map_option snd (receive_decision i (fst (signal_all i (b # bs) s))) = Some b"
proof -
  let ?s = "s(i \<mapsto> e\<lparr>geDecisionCh := Some (Some b)\<rparr>)"
  have "SignalDecision i b s = (?s, True)" using assms by (simp add: SignalDecision_def)
  moreover have "signal_all i bs ?s = (?s, replicate (length bs) False)"
    by (rule signal_full [where e = "e\<lparr>geDecisionCh := Some (Some b)\<rparr>" and b = b]) simp_all
  ultimately show ?thesis by (simp add: receive_decision_def)
qed

definition demo_execution :: guarded_execution where
  "demo_execution = \<lparr>geID = ''a1'', geSessionID = ''s'', geUserID = ''u'', geSkillName = ''mail'',
     geToolName = ''email'', geToolArgs = '''', geDescription = '''', geLineageID = '''',
     geCheckpointID = ''c1'', geInvocationID = ''l1'', geGraph = None, geExecutor = None,
     geCreatedAt = 0, geDecisionCh = Some None\<rparr>"

theorem first_decision_wins_witness:
  "snd (signal_all ''a1'' [True, False, True] (Store demo_execution Map.empty)) = [True, False, False]"
proof -
  have h: "Store demo_execution Map.empty ''a1'' = Some demo_execution" "geDecisionCh demo_execution = Some None"
    by (simp_all add: Store_def demo_execution_def)
  from first_decision_wins [of "Store demo_execution Map.empty" "''a1''" demo_execution True "[False, True]", OF h] show ?thesis by simp
qed

section \<open>Checkpoints\<close>

text \<open>
  A configuration as the saver reads it: the string under \<open>checkpoint_id\<close> at the top level,
  and what the library's \<open>GetCheckpointID\<close> and \<open>GetLineageID\<close> return for it; an absent
  entry is the empty string.
\<close>

record config =
  cfTopCheckpointID :: string
  cfCheckpointID :: string
  cfLineageID :: string

record 'v checkpoint =
  cpID :: string
  cpValues :: 'v

record ('v, 'm, 'w) saver =
  svCheckpoints :: "string \<rightharpoonup> 'v checkpoint"
  svByLineage :: "string \<Rightarrow> string list"
  svLineageByCP :: "string \<rightharpoonup> string"
  svWrites :: "string \<Rightarrow> 'w list"
  svMetadata :: "string \<rightharpoonup> 'm"
  svLastCheckpointID :: string

definition NewInMemoryCheckpointSaver :: "('v, 'm, 'w) saver" where
  "NewInMemoryCheckpointSaver = \<lparr>svCheckpoints = Map.empty, svByLineage = (\<lambda>_. []),
     svLineageByCP = Map.empty, svWrites = (\<lambda>_. []), svMetadata = Map.empty, svLastCheckpointID = ''''\<rparr>"

definition getParentCheckpointID :: "config \<Rightarrow> string" where
  "getParentCheckpointID c = (if cfTopCheckpointID c \<noteq> '''' then cfTopCheckpointID c else cfCheckpointID c)"

definition Get_checkpoint :: "config \<Rightarrow> ('v, 'm, 'w) saver \<Rightarrow> 'v checkpoint option" where
  "Get_checkpoint c s =
     (if cfCheckpointID c \<noteq> '''' then svCheckpoints s (cfCheckpointID c)
      else if cfLineageID c = '''' then None
      else (let ids = svByLineage s (cfLineageID c)
            in if ids = [] then None else svCheckpoints s (last ids)))"

definition GetTuple :: "config \<Rightarrow> ('v, 'm, 'w) saver \<Rightarrow> ('v checkpoint \<times> 'm option) option" where
  "GetTuple c s = map_option (\<lambda>cp. (cp, svMetadata s (cpID cp))) (Get_checkpoint c s)"

text \<open>\<open>ks\<close> is the order of the checkpoint map.\<close>

definition List_checkpoints :: "string list \<Rightarrow> config \<Rightarrow> ('v, 'm, 'w) saver \<Rightarrow> ('v checkpoint \<times> 'm option) list" where
  "List_checkpoints ks c s =
     (let tuple = (\<lambda>i. map_option (\<lambda>cp. (cp, svMetadata s i)) (svCheckpoints s i))
      in if cfLineageID c \<noteq> '''' then List.map_filter tuple (svByLineage s (cfLineageID c))
         else List.map_filter tuple ks)"

definition lineage_for :: "config \<Rightarrow> ('v, 'm, 'w) saver \<Rightarrow> string" where
  "lineage_for c s =
     (if cfLineageID c \<noteq> '''' then cfLineageID c
      else (let parent = getParentCheckpointID c
            in if parent \<noteq> '''' then (case svLineageByCP s parent of None \<Rightarrow> '''' | Some l \<Rightarrow> l) else ''''))"

text \<open>\<open>PutFull\<close> with the identifier \<open>uuid\<close> for a checkpoint that has none; \<open>Put\<close> is the same
  without pending writes.\<close>

definition PutFull ::
  "string \<Rightarrow> config \<Rightarrow> 'v checkpoint \<Rightarrow> 'm option \<Rightarrow> 'w list \<Rightarrow> ('v, 'm, 'w) saver \<Rightarrow> ('v, 'm, 'w) saver \<times> string" where
  "PutFull uuid c cp0 meta pending s =
     (let cp = (if cpID cp0 = '''' then cp0\<lparr>cpID := uuid\<rparr> else cp0);
          i = cpID cp;
          l = lineage_for c s;
          s1 = s\<lparr>svCheckpoints := (svCheckpoints s)(i \<mapsto> cp),
                 svMetadata := (case meta of None \<Rightarrow> svMetadata s | Some m \<Rightarrow> (svMetadata s)(i \<mapsto> m)),
                 svWrites := (if pending \<noteq> [] then (svWrites s)(i := pending) else svWrites s)\<rparr>;
          s2 = (if l \<noteq> ''''
                then s1\<lparr>svByLineage := (svByLineage s1)(l := svByLineage s1 l @ [i]),
                        svLineageByCP := (svLineageByCP s1)(i \<mapsto> l)\<rparr>
                else s1)
      in (s2\<lparr>svLastCheckpointID := i\<rparr>, i))"

definition Put ::
  "string \<Rightarrow> config \<Rightarrow> 'v checkpoint \<Rightarrow> 'm option \<Rightarrow> ('v, 'm, 'w) saver \<Rightarrow> ('v, 'm, 'w) saver \<times> string" where
  "Put uuid c cp meta s = PutFull uuid c cp meta [] s"

definition PutWrites :: "config \<Rightarrow> 'w list \<Rightarrow> ('v, 'm, 'w) saver \<Rightarrow> ('v, 'm, 'w) saver" where
  "PutWrites c ws s =
     (if cfCheckpointID c \<noteq> ''''
      then s\<lparr>svWrites := (svWrites s)(cfCheckpointID c := svWrites s (cfCheckpointID c) @ ws)\<rparr>
      else s)"

definition GetLastCheckpointID :: "('v, 'm, 'w) saver \<Rightarrow> string" where
  "GetLastCheckpointID s = svLastCheckpointID s"

definition GetByID :: "string \<Rightarrow> ('v, 'm, 'w) saver \<Rightarrow> 'v checkpoint option" where
  "GetByID i s = svCheckpoints s i"

definition DeleteLineage :: "string \<Rightarrow> ('v, 'm, 'w) saver \<Rightarrow> ('v, 'm, 'w) saver" where
  "DeleteLineage l s =
     (let ids = set (svByLineage s l)
      in s\<lparr>svCheckpoints := (\<lambda>i. if i \<in> ids then None else svCheckpoints s i),
           svWrites := (\<lambda>i. if i \<in> ids then [] else svWrites s i),
           svMetadata := (\<lambda>i. if i \<in> ids then None else svMetadata s i),
           svLineageByCP := (\<lambda>i. if i \<in> ids then None else svLineageByCP s i),
           svByLineage := (svByLineage s)(l := [])\<rparr>)"

section \<open>The saver's invariant\<close>

definition saver_ok :: "('v, 'm, 'w) saver \<Rightarrow> bool" where
  "saver_ok s \<longleftrightarrow>
     (\<forall>i cp. svCheckpoints s i = Some cp \<longrightarrow> cpID cp = i) \<and>
     (\<forall>i l. svLineageByCP s i = Some l \<longrightarrow> i \<in> set (svByLineage s l) \<and> svCheckpoints s i \<noteq> None) \<and>
     svByLineage s '''' = []"

lemma saver_ok_new: "saver_ok NewInMemoryCheckpointSaver"
  by (simp add: saver_ok_def NewInMemoryCheckpointSaver_def)

lemma saver_ok_put: "saver_ok s \<Longrightarrow> saver_ok (fst (PutFull uuid c cp meta ws s))"
  by (auto simp: saver_ok_def PutFull_def Let_def)

lemma saver_ok_writes: "saver_ok s \<Longrightarrow> saver_ok (PutWrites c ws s)"
  by (simp add: saver_ok_def PutWrites_def)

lemma saver_ok_delete: "saver_ok s \<Longrightarrow> saver_ok (DeleteLineage l s)"
  by (cases "l = []") (fastforce simp: saver_ok_def DeleteLineage_def Let_def)+

text \<open>The library saves a run as a chain: the first checkpoint carries the lineage, each later
  one only its parent.\<close>

fun put_chain :: "config \<Rightarrow> 'v checkpoint list \<Rightarrow> ('v, 'm, 'w) saver \<Rightarrow> ('v, 'm, 'w) saver" where
  "put_chain c [] s = s"
| "put_chain c (cp # cps) s =
     put_chain \<lparr>cfTopCheckpointID = cpID cp, cfCheckpointID = '''', cfLineageID = ''''\<rparr> cps
       (fst (Put '''' c cp None s))"

definition by_lineage :: "string \<Rightarrow> config" where
  "by_lineage l = \<lparr>cfTopCheckpointID = '''', cfCheckpointID = '''', cfLineageID = l\<rparr>"

lemma put_chain_lineage:
  assumes "lineage_for c s = l" and "l \<noteq> ''''" and "list_all (\<lambda>cp. cpID cp \<noteq> '''') cps"
  shows "svByLineage (put_chain c cps s) l = svByLineage s l @ map cpID cps"
  using assms
proof (induction c cps s rule: put_chain.induct)
  case (2 c cp cps s)
  let ?s = "fst (Put '''' c cp None s)"
  have id: "cpID cp \<noteq> ''''" using "2.prems"(3) by simp
  have "svLineageByCP ?s (cpID cp) = Some l"
    using id "2.prems"(1,2) by (simp add: Put_def PutFull_def Let_def)
  then have "lineage_for \<lparr>cfTopCheckpointID = cpID cp, cfCheckpointID = '''', cfLineageID = ''''\<rparr> ?s = l"
    using id by (simp add: lineage_for_def getParentCheckpointID_def)
  moreover have "svByLineage ?s l = svByLineage s l @ [cpID cp]"
    using id "2.prems"(1,2) by (simp add: Put_def PutFull_def Let_def)
  ultimately show ?case using "2.IH" "2.prems" by simp
qed simp

lemma put_chain_last:
  "cps \<noteq> [] \<Longrightarrow> list_all (\<lambda>cp. cpID cp \<noteq> '''') cps \<Longrightarrow>
     svCheckpoints (put_chain c cps s) (cpID (last cps)) = Some (last cps) \<and>
     svLastCheckpointID (put_chain c cps s) = cpID (last cps)"
proof (induction c cps s rule: put_chain.induct)
  case (2 c cp cps s)
  show ?case
  proof (cases "cps = []")
    case True
    with "2.prems" show ?thesis by (simp add: Put_def PutFull_def Let_def)
  next
    case False
    with "2.IH" "2.prems" show ?thesis by simp
  qed
qed simp

text \<open>A run's checkpoints stay in one lineage although only the first names it: looking up
  the lineage finds the last checkpoint of the chain, and the chain is the lineage's history.\<close>

theorem lineage_inherited:
  assumes "l \<noteq> ''''" and "cps \<noteq> []" and "list_all (\<lambda>cp. cpID cp \<noteq> '''') cps"
  shows "Get_checkpoint (by_lineage l) (put_chain (by_lineage l) cps s) = Some (last cps) \<and>
    svByLineage (put_chain (by_lineage l) cps s) l = svByLineage s l @ map cpID cps"
proof -
  have "lineage_for (by_lineage l) s = l" using assms(1) by (simp add: lineage_for_def by_lineage_def)
  from put_chain_lineage [OF this assms(1,3)]
  have h: "svByLineage (put_chain (by_lineage l) cps s) l = svByLineage s l @ map cpID cps" .
  then show ?thesis
    using assms put_chain_last [OF assms(2,3), of "by_lineage l" s]
    by (simp add: Get_checkpoint_def by_lineage_def Let_def last_map)
qed

theorem lineage_inherited_witness:
  "svByLineage (put_chain (by_lineage ''l'') [\<lparr>cpID = ''a'', cpValues = (1::nat)\<rparr>, \<lparr>cpID = ''b'', cpValues = 2\<rparr>]
     (NewInMemoryCheckpointSaver :: (nat, unit, unit) saver)) ''l'' = [''a'', ''b'']"
  using lineage_inherited [of "''l''" "[\<lparr>cpID = ''a'', cpValues = (1::nat)\<rparr>, \<lparr>cpID = ''b'', cpValues = 2\<rparr>]"
      "NewInMemoryCheckpointSaver :: (nat, unit, unit) saver"]
  by (simp add: NewInMemoryCheckpointSaver_def)

section \<open>What the runner relies on\<close>

text \<open>
  The runner remembers the last checkpoint when it pauses and looks it up by its identifier
  when it resumes, while other runs save theirs.
\<close>

locale checkpoint_saver =
  fixes save :: "'c \<Rightarrow> 'v checkpoint \<Rightarrow> 's \<Rightarrow> 's"
    and last_id :: "'s \<Rightarrow> string"
    and by_id :: "string \<Rightarrow> 's \<Rightarrow> 'v checkpoint option"
  assumes last_save: "cpID cp \<noteq> '''' \<Longrightarrow> last_id (save c cp s) = cpID cp"
    and by_id_save: "cpID cp \<noteq> '''' \<Longrightarrow> by_id (cpID cp) (save c cp s) = Some cp"
    and by_id_other: "cpID cp \<noteq> '''' \<Longrightarrow> i \<noteq> cpID cp \<Longrightarrow> by_id i (save c cp s) = by_id i s"
begin

lemma remembered:
  assumes "cpID cp \<noteq> ''''" and "list_all (\<lambda>(c, cp'). cpID cp' \<noteq> '''' \<and> cpID cp' \<noteq> cpID cp) others"
  shows "by_id (last_id (save c cp s)) (foldl (\<lambda>s (c, cp'). save c cp' s) (save c cp s) others) = Some cp"
proof -
  have "by_id (cpID cp) (foldl (\<lambda>s (c, cp'). save c cp' s) t others) = by_id (cpID cp) t" for t
    using assms(2) by (induction others arbitrary: t) (auto simp: by_id_other)
  then show ?thesis using assms(1) by (simp add: last_save by_id_save)
qed

end

interpretation memory_saver: checkpoint_saver
  "\<lambda>(c, uuid, meta, ws) cp s. fst (PutFull uuid c cp meta ws s)" GetLastCheckpointID GetByID
  by unfold_locales (auto simp: PutFull_def GetLastCheckpointID_def GetByID_def Let_def)

end
