(* ===== verification/AuditLog.thy ===== *)
theory AuditLog
  imports Prelude
begin

text \<open>
  \<open>internal/agent/audit.go\<close>: the log of approval requests and their resolutions, the rows
  of one SQLite table with a unique approval identifier and increasing row numbers.  Times
  are stored in whole seconds (RFC 3339).
\<close>

record audit_entry =
  aeID :: nat
  aeApprovalID :: string
  aeToolName :: string
  aeSkillName :: string
  aeArguments :: string
  aeDescription :: string
  aeSessionID :: string
  aeUserID :: string
  aeRequestedAt :: int
  aeResolvedAt :: "int option"
  aeResolution :: string
  aeResolvedBy :: string

type_synonym audit_table = "audit_entry list"

definition RecordRequest ::
  "string \<Rightarrow> string \<Rightarrow> string \<Rightarrow> string \<Rightarrow> string \<Rightarrow> string \<Rightarrow> string \<Rightarrow> time \<Rightarrow> audit_table \<Rightarrow> audit_table go_result" where
  "RecordRequest approvalID toolName skillName args desc sid uid requestedAt tab =
     (if approvalID \<in> aeApprovalID ` set tab
      then Inl ''UNIQUE constraint failed: approval_audit.approval_id''
      else Inr (tab @ [\<lparr>aeID = Suc (length tab), aeApprovalID = approvalID, aeToolName = toolName,
        aeSkillName = skillName, aeArguments = args, aeDescription = desc, aeSessionID = sid,
        aeUserID = uid, aeRequestedAt = requestedAt div second, aeResolvedAt = None,
        aeResolution = '''', aeResolvedBy = ''''\<rparr>]))"

definition RecordResolution :: "string \<Rightarrow> string \<Rightarrow> string \<Rightarrow> time \<Rightarrow> audit_table \<Rightarrow> audit_table" where
  "RecordResolution approvalID resolution resolvedBy resolvedAt tab =
     map (\<lambda>e. if aeApprovalID e = approvalID
              then e\<lparr>aeResolvedAt := Some (resolvedAt div second), aeResolution := resolution,
                     aeResolvedBy := resolvedBy\<rparr>
              else e) tab"

definition Query :: "string \<Rightarrow> int \<Rightarrow> audit_table \<Rightarrow> audit_entry list" where
  "Query skillName limit tab =
     take (nat (if limit \<le> 0 then 50 else limit))
       (filter (\<lambda>e. skillName = '''' \<or> aeSkillName e = skillName) (rev tab))"

text \<open>The code ignores the error of \<open>RecordRequest\<close>.\<close>

definition request_recorded ::
  "string \<Rightarrow> string \<Rightarrow> string \<Rightarrow> string \<Rightarrow> string \<Rightarrow> string \<Rightarrow> string \<Rightarrow> time \<Rightarrow> audit_table \<Rightarrow> audit_table" where
  "request_recorded i tn sk a d sid uid now tab =
     (case RecordRequest i tn sk a d sid uid now tab of Inl _ \<Rightarrow> tab | Inr t \<Rightarrow> t)"

definition audit_ok :: "audit_table \<Rightarrow> bool" where
  "audit_ok tab \<longleftrightarrow> distinct (map aeApprovalID tab) \<and> map aeID tab = [1..<Suc (length tab)]"

lemma audit_ok_request: "audit_ok tab \<Longrightarrow> audit_ok (request_recorded i tn sk a d sid uid now tab)"
  by (auto simp: audit_ok_def request_recorded_def RecordRequest_def)

lemma RecordResolution_maps:
  "map aeApprovalID (RecordResolution i r b t tab) = map aeApprovalID tab"
  "map aeID (RecordResolution i r b t tab) = map aeID tab"
  "length (RecordResolution i r b t tab) = length tab"
  by (simp_all add: RecordResolution_def)

lemma audit_ok_resolution: "audit_ok tab \<Longrightarrow> audit_ok (RecordResolution i r b t tab)"
  by (simp add: audit_ok_def RecordResolution_maps)

end
