(* ===== verification/GuardedGraph.thy ===== *)
theory GuardedGraph
  imports GuardedStore AuditLog InFlight
begin

text \<open>
  The workflow of \<open>internal/agent/guarded_graph.go\<close>: the approval gate, the graph of a skill
  with guarded tools, running it, and resuming it after a decision.  The graph library's
  executor is a step relation over the nodes the code adds; its LLM node appends an
  assistant message with any tool calls, its tools node executes the calls of the last
  message and appends their results, and \<open>graph.Interrupt\<close> raises an interrupt unless it
  was given a resume value.  Log output is not modelled.
\<close>

section \<open>The runner's stores\<close>

record ('v, 'm, 'w) runner =
  grExecutions :: execution_store
  grInFlight :: "inflight_store option"
  grAudit :: "audit_table option"
  grSaver :: "('v, 'm, 'w) saver"
  grNotified :: "(string \<times> string) list"

text \<open>\<open>guardedTools\<close> maps the names of guarded tools to their skills.\<close>

type_synonym guard = "string \<rightharpoonup> string"

definition is_guarded :: "guard \<Rightarrow> tool_call \<Rightarrow> bool" where
  "is_guarded g tc \<longleftrightarrow> g (tcName tc) \<noteq> None"

definition last_calls :: "message list \<Rightarrow> tool_call list" where
  "last_calls ms = (if ms = [] then [] else mToolCalls (last ms))"

text \<open>The first guarded call of the last message: the tool name and the arguments.\<close>

definition pending_tool :: "guard \<Rightarrow> message list \<Rightarrow> string \<times> string" where
  "pending_tool g ms =
     (case find (is_guarded g) (last_calls ms) of
        None \<Rightarrow> ('''', '''')
      | Some tc \<Rightarrow> (tcName tc, tcArguments tc))"

section \<open>The approval gate\<close>

datatype gate_result = GatePaused string | GateGranted | GateRejected string

text \<open>What \<open>graph.Interrupt\<close> returns: the interrupt, or a resume value.\<close>

datatype interrupt_result =
  Interrupted
| ResumeBool bool
| ResumeMap "bool option" "string option"
| ResumeOther

definition approval_timeout :: duration where
  "approval_timeout = 30 * minute"

definition register_request ::
  "time \<Rightarrow> string \<Rightarrow> string \<Rightarrow> string \<times> string \<Rightarrow> string \<Rightarrow> string \<Rightarrow> string \<Rightarrow>
   ('v, 'm, 'w) runner \<Rightarrow> ('v, 'm, 'w) runner" where
  "register_request now approvalID skill tool sid uid invocationID r =
     (let (toolName, toolArgs) = tool; desc = formatApprovalDescription toolName toolArgs in
      r\<lparr>grInFlight := map_option (RegisterApproval now approvalID skill toolName toolArgs desc sid uid approval_timeout) (grInFlight r),
        grAudit := map_option (request_recorded approvalID toolName skill toolArgs desc sid uid now) (grAudit r),
        grNotified := grNotified r @ [(sid, approvalID)],
        grExecutions := Store \<lparr>geID = approvalID, geSessionID = sid, geUserID = uid, geSkillName = skill,
          geToolName = toolName, geToolArgs = toolArgs, geDescription = desc, geLineageID = '''',
          geCheckpointID = GetLastCheckpointID (grSaver r), geInvocationID = invocationID,
          geGraph = None, geExecutor = None, geCreatedAt = now, geDecisionCh = Some None\<rparr> (grExecutions r)\<rparr>)"

definition resolve_request ::
  "time \<Rightarrow> string \<Rightarrow> bool \<Rightarrow> string \<Rightarrow> ('v, 'm, 'w) runner \<Rightarrow> ('v, 'm, 'w) runner" where
  "resolve_request now uid approved approvalID r =
     r\<lparr>grExecutions := Delete_execution approvalID (grExecutions r),
       grAudit := map_option (RecordResolution approvalID (if approved then ''approved'' else ''rejected'') uid now) (grAudit r),
       grInFlight := map_option (if approved then Complete now approvalID ''approved''
                                 else Fail now approvalID ''rejected'') (grInFlight r)\<rparr>"

definition gate_answer :: "bool \<Rightarrow> string \<Rightarrow> gate_result" where
  "gate_answer approved toolName =
     (if approved then GateGranted else GateRejected (''tool '' @ toolName @ '' was rejected by user''))"

text \<open>\<open>decision\<close> is the approval decision in the context, \<open>uuid\<close> the fresh approval identifier.\<close>

definition approval_gate ::
  "time \<Rightarrow> string \<Rightarrow> guard \<Rightarrow> string \<Rightarrow> string \<Rightarrow> string \<Rightarrow> string \<Rightarrow> (bool \<times> string) option \<Rightarrow>
   interrupt_result \<Rightarrow> message list \<Rightarrow> ('v, 'm, 'w) runner \<Rightarrow> ('v, 'm, 'w) runner \<times> gate_result" where
  "approval_gate now uuid g skill sid uid invocationID decision interrupt ms r =
     (let tool = pending_tool g ms in
      case decision of
        Some (approved, originalID) \<Rightarrow>
          (resolve_request now uid approved originalID r, gate_answer approved (fst tool))
      | None \<Rightarrow>
          (case interrupt of
             Interrupted \<Rightarrow> (register_request now uuid skill tool sid uid invocationID r, GatePaused uuid)
           | ResumeBool b \<Rightarrow> (resolve_request now uid b uuid r, gate_answer b (fst tool))
           | ResumeMap a i \<Rightarrow>
               (let approved = (case a of None \<Rightarrow> False | Some b \<Rightarrow> b);
                    originalID = (case i of None \<Rightarrow> uuid | Some k \<Rightarrow> k)
                in (resolve_request now uid approved originalID r, gate_answer approved (fst tool)))
           | ResumeOther \<Rightarrow> (resolve_request now uid False '''' r, gate_answer False (fst tool))))"

section \<open>The graph\<close>

datatype node = LlmPlan | CheckTools | ApprovalGate | ExecuteTools | LlmContinue

datatype run_state = At node | Paused string | Failed string | Ended

record ('v, 'm, 'w) graph_run =
  gnMessages :: "message list"
  gnRunner :: "('v, 'm, 'w) runner"
  gnExecuted :: "tool_call list"

definition check_tools_route :: "guard \<Rightarrow> message list \<Rightarrow> node" where
  "check_tools_route g ms = (if list_ex (is_guarded g) (last_calls ms) then ApprovalGate else ExecuteTools)"

definition llm_continue_route :: "message list \<Rightarrow> run_state" where
  "llm_continue_route ms = (if last_calls ms \<noteq> [] then At CheckTools else Ended)"

definition after_gate :: "gate_result \<Rightarrow> run_state" where
  "after_gate res = (case res of GatePaused i \<Rightarrow> Paused i | GateGranted \<Rightarrow> At ExecuteTools | GateRejected e \<Rightarrow> Failed e)"

definition is_result :: "message \<Rightarrow> bool" where
  "is_result m \<longleftrightarrow> mRole m = RoleTool \<and> mToolCalls m = []"

text \<open>
  The steps of the executor.  \<open>decision\<close> is fixed for a run: it is a value of the context
  the run was started or resumed with.
\<close>

inductive graph_step ::
  "guard \<Rightarrow> string \<Rightarrow> string \<Rightarrow> string \<Rightarrow> string \<Rightarrow> (bool \<times> string) option \<Rightarrow>
   run_state \<times> ('v, 'm, 'w) graph_run \<Rightarrow> run_state \<times> ('v, 'm, 'w) graph_run \<Rightarrow> bool"
  for g skill sid uid iid decision where
  plan: "mRole m = RoleAssistant \<Longrightarrow>
    graph_step g skill sid uid iid decision (At LlmPlan, s) (At CheckTools, s\<lparr>gnMessages := gnMessages s @ [m]\<rparr>)"
| check: "graph_step g skill sid uid iid decision (At CheckTools, s) (At (check_tools_route g (gnMessages s)), s)"
| gate: "approval_gate now uuid g skill sid uid iid decision Interrupted (gnMessages s) (gnRunner s) = (r', res) \<Longrightarrow>
    graph_step g skill sid uid iid decision (At ApprovalGate, s) (after_gate res, s\<lparr>gnRunner := r'\<rparr>)"
| execute: "list_all is_result results \<Longrightarrow> length results = length (last_calls (gnMessages s)) \<Longrightarrow>
    graph_step g skill sid uid iid decision (At ExecuteTools, s)
      (At LlmContinue, s\<lparr>gnMessages := gnMessages s @ results,
         gnExecuted := gnExecuted s @ last_calls (gnMessages s)\<rparr>)"
| continue: "mRole m = RoleAssistant \<Longrightarrow>
    graph_step g skill sid uid iid decision (At LlmContinue, s)
      (llm_continue_route (gnMessages s @ [m]), s\<lparr>gnMessages := gnMessages s @ [m]\<rparr>)"
| node_error: "graph_step g skill sid uid iid decision (At n, s) (Failed e, s)"
| saved: "graph_step g skill sid uid iid decision (At n, s)
    (At n, s\<lparr>gnRunner := (gnRunner s)\<lparr>grSaver := sv\<rparr>\<rparr>)"

inductive_cases graph_stepE: "graph_step g skill sid uid iid decision (At n, s) c"

inductive_simps graph_step_stuck [simp]:
  "graph_step g skill sid uid iid decision (Paused i, s) c"
  "graph_step g skill sid uid iid decision (Failed e, s) c"
  "graph_step g skill sid uid iid decision (Ended, s) c"

inductive graph_reach ::
  "guard \<Rightarrow> string \<Rightarrow> string \<Rightarrow> string \<Rightarrow> string \<Rightarrow> (bool \<times> string) option \<Rightarrow>
   run_state \<times> ('v, 'm, 'w) graph_run \<Rightarrow> run_state \<times> ('v, 'm, 'w) graph_run \<Rightarrow> bool"
  for g skill sid uid iid decision c where
  start: "graph_reach g skill sid uid iid decision c c"
| step: "graph_reach g skill sid uid iid decision c c' \<Longrightarrow> graph_step g skill sid uid iid decision c' c'' \<Longrightarrow>
    graph_reach g skill sid uid iid decision c c''"

section \<open>Running and resuming\<close>

text \<open>\<open>Run\<close> after the executor returned: every execution of this session and skill that has no
  executor yet gets the one of this run.\<close>

definition attach_executor ::
  "string \<Rightarrow> string \<Rightarrow> string \<Rightarrow> execution_store \<Rightarrow> execution_store" where
  "attach_executor sid skill lineageID s =
     (\<lambda>i. map_option (\<lambda>e. if geSessionID e = sid \<and> geSkillName e = skill \<and> geExecutor e = None
        then e\<lparr>geGraph := Some lineageID, geExecutor := Some lineageID, geLineageID := lineageID\<rparr>
        else e) (s i))"

definition initial_run :: "string \<Rightarrow> ('v, 'm, 'w) runner \<Rightarrow> run_state \<times> ('v, 'm, 'w) graph_run" where
  "initial_run userMessage r =
     (At LlmPlan, \<lparr>gnMessages = [user_message userMessage], gnRunner = r, gnExecuted = []\<rparr>)"

text \<open>The checks of \<open>resumeExecution\<close>: the checkpoint to restore, or the refusal.\<close>

definition resume_checks :: "guarded_execution \<Rightarrow> ('v, 'm, 'w) saver \<Rightarrow> ('v checkpoint) go_result" where
  "resume_checks e sv =
     (if geGraph e = None then Inl (''cannot resume execution '' @ geID e @ '': Graph is nil'')
      else if geExecutor e = None then Inl (''cannot resume execution '' @ geID e @ '': Executor is nil'')
      else if geCheckpointID e = '''' then
        Inl (''cannot resume execution '' @ geID e @ '': CheckpointID is empty (checkpoint cannot be restored)'')
      else if geInvocationID e = '''' then
        Inl (''cannot resume execution '' @ geID e @ '': InvocationID is empty (cannot resume from correct node)'')
      else (case GetByID (geCheckpointID e) sv of
              None \<Rightarrow> Inl (''cannot resume execution '' @ geID e @ '': checkpoint '' @ geCheckpointID e @ '' not found'')
            | Some cp \<Rightarrow> Inr cp))"

text \<open>The resumed run: the messages of the checkpoint, the gate's node, and the decision with the
  original identifier in the context.  \<open>messages_of\<close> reads the messages of the channel values.\<close>

definition resumeExecution ::
  "('v \<Rightarrow> message list) \<Rightarrow> guarded_execution \<Rightarrow> bool \<Rightarrow> ('v, 'm, 'w) runner \<Rightarrow>
   ((bool \<times> string) option \<times> run_state \<times> ('v, 'm, 'w) graph_run) go_result" where
  "resumeExecution messages_of e approved r =
     (case resume_checks e (grSaver r) of
        Inl err \<Rightarrow> Inl err
      | Inr cp \<Rightarrow> Inr (Some (approved, geID e), At ApprovalGate,
          \<lparr>gnMessages = messages_of (cpValues cp), gnRunner = r, gnExecuted = []\<rparr>))"

definition Resume ::
  "('v \<Rightarrow> message list) \<Rightarrow> string \<Rightarrow> bool \<Rightarrow> ('v, 'm, 'w) runner \<Rightarrow>
   ((bool \<times> string) option \<times> run_state \<times> ('v, 'm, 'w) graph_run) go_result" where
  "Resume messages_of approvalID approved r =
     (case Get_execution approvalID (grExecutions r) of
        None \<Rightarrow> Inl (''execution not found: '' @ approvalID)
      | Some e \<Rightarrow> resumeExecution messages_of e approved r)"

text \<open>
  \<open>GuardedSkillAgent.Run\<close> after the first events: it waits for the first matching execution,
  in the order \<open>ks\<close> of the map, and acts on what comes first.
\<close>

definition pending_execution :: "string list \<Rightarrow> string \<Rightarrow> string \<Rightarrow> execution_store \<Rightarrow> guarded_execution option" where
  "pending_execution ks sid skill s =
     find (\<lambda>e. geSessionID e = sid \<and> geSkillName e = skill) (List.map_filter s ks)"

definition wait_timeout :: "time \<Rightarrow> guarded_execution \<Rightarrow> ('v, 'm, 'w) runner \<Rightarrow> ('v, 'm, 'w) runner \<times> string" where
  "wait_timeout now e r =
     (r\<lparr>grExecutions := Delete_execution (geID e) (grExecutions r),
        grInFlight := map_option (Fail now (geID e) ''timeout'') (grInFlight r)\<rparr>,
      ''Approval timeout for tool '' @ geToolName e @ '' after 30 minutes.'')"

section \<open>Nothing guarded runs before an approval\<close>

lemma last_calls_snoc [simp]: "last_calls (ms @ [m]) = mToolCalls m"
  by (simp add: last_calls_def)

lemma gate_unasked:
  "approval_gate now uuid g skill sid uid iid None Interrupted ms r = (r', res) \<Longrightarrow> res = GatePaused uuid"
  by (simp add: approval_gate_def Let_def)

definition unapproved_inv :: "guard \<Rightarrow> run_state \<times> ('v, 'm, 'w) graph_run \<Rightarrow> bool" where
  "unapproved_inv g c \<longleftrightarrow>
     list_all (\<lambda>tc. \<not> is_guarded g tc) (gnExecuted (snd c)) \<and>
     (fst c = At ExecuteTools \<longrightarrow> list_all (\<lambda>tc. \<not> is_guarded g tc) (last_calls (gnMessages (snd c))))"

lemma unapproved_step:
  assumes "graph_step g skill sid uid iid None c c'" and "unapproved_inv g c"
  shows "unapproved_inv g c'"
  using assms
proof (induction rule: graph_step.induct)
  case (check s)
  then show ?case
    by (auto simp: unapproved_inv_def check_tools_route_def list_ex_iff list_all_iff)
next
  case (gate now uuid s r' res)
  then show ?case using gate_unasked [OF gate(1)] by (simp add: unapproved_inv_def after_gate_def)
next
  case (continue m s)
  then show ?case by (auto simp: unapproved_inv_def llm_continue_route_def)
qed (simp_all add: unapproved_inv_def)

text \<open>C1. In a run that was not resumed with a decision, no guarded tool is ever executed: the
  run pauses at the gate first, whatever calls the model makes in whatever order.\<close>

theorem guarded_needs_approval:
  assumes "graph_reach g skill sid uid iid None (initial_run msg r) (st, s)"
  shows "list_all (\<lambda>tc. \<not> is_guarded g tc) (gnExecuted s)"
proof -
  have "unapproved_inv g (st, s)"
    using assms
  proof (induction "(st, s)" arbitrary: st s rule: graph_reach.induct)
    case start
    then show ?case by (auto simp: unapproved_inv_def initial_run_def)
  next
    case (step c')
    obtain st1 s1 where c': "c' = (st1, s1)" by fastforce
    from unapproved_step [OF step.hyps(3)] step.hyps(2) [OF c'] show ?case by (simp add: c')
  qed
  then show ?thesis by (simp add: unapproved_inv_def)
qed

section \<open>A decision covers the whole resumed run\<close>

text \<open>C2. A run resumed with a decision never asks again: the decision stays in the context, so
  the gate neither pauses nor notifies anybody, however many further guarded calls the model
  makes.\<close>

theorem resumed_never_asks:
  assumes "graph_reach g skill sid uid iid (Some (approved, i)) (At n, s0) (st, s)"
  shows "(case st of Paused _ \<Rightarrow> False | _ \<Rightarrow> True) \<and> grNotified (gnRunner s) = grNotified (gnRunner s0)"
  using assms
proof (induction "(st, s)" arbitrary: st s rule: graph_reach.induct)
  case start
  then show ?case by auto
next
  case (step c')
  obtain st1 s1 where c': "c' = (st1, s1)" by fastforce
  from step.hyps(3) [unfolded c'] step.hyps(2) [OF c'] show ?case
    by (cases rule: graph_step.cases)
       (auto simp: approval_gate_def gate_answer_def after_gate_def resolve_request_def
         llm_continue_route_def)
qed

text \<open>C4. A rejected run executes nothing.\<close>

theorem rejection_final:
  assumes "graph_reach g skill sid uid iid (Some (False, i)) (At ApprovalGate, s0) (st, s)"
    and "gnExecuted s0 = []"
  shows "gnExecuted s = [] \<and> (st = At ApprovalGate \<or> (\<exists>e. st = Failed e))"
  using assms
proof (induction "(st, s)" arbitrary: st s rule: graph_reach.induct)
  case start
  then show ?case by auto
next
  case (step c')
  obtain st1 s1 where c': "c' = (st1, s1)" by fastforce
  from step.hyps(3) [unfolded c'] step.hyps(2) [OF c' step.prems] show ?case
    by (cases rule: graph_step.cases) (auto simp: approval_gate_def gate_answer_def after_gate_def)
qed

section \<open>A paused run can be resumed\<close>

text \<open>C3. What the gate stores is enough to resume: once \<open>Run\<close> has attached its executor, the
  stored execution passes all checks of \<open>Resume\<close> as long as the checkpoint of the interrupt
  is kept, and the resumed run starts at the gate with the decision.\<close>

theorem paused_can_resume:
  assumes "approval_gate now uuid g skill sid uid lineage None Interrupted ms r = (r', GatePaused i)"
    and "grExecutions r'' = attach_executor sid skill lineage (grExecutions r')"
    and "lineage \<noteq> ''''" and "GetLastCheckpointID (grSaver r) \<noteq> ''''"
    and "GetByID (GetLastCheckpointID (grSaver r)) (grSaver r'') = Some cp"
  shows "Resume messages_of i approved r'' = Inr (Some (approved, uuid), At ApprovalGate,
    \<lparr>gnMessages = messages_of (cpValues cp), gnRunner = r'', gnExecuted = []\<rparr>)"
proof -
  from assms(1) have i: "i = uuid" and
    r': "r' = register_request now uuid skill (pending_tool g ms) sid uid lineage r"
    by (auto simp: approval_gate_def Let_def)
  then show ?thesis
    using assms(2-5)
    by (simp add: Resume_def Get_execution_def resumeExecution_def resume_checks_def attach_executor_def
      register_request_def case_prod_beta Let_def Store_def)
qed

section \<open>Concrete runs\<close>

definition demo_guard :: guard where
  "demo_guard = [''email'' \<mapsto> ''mail'']"

definition demo_call :: "string \<Rightarrow> string \<Rightarrow> tool_call" where
  "demo_call n a = \<lparr>tcID = a, tcName = n, tcArguments = a\<rparr>"

definition call_message :: "tool_call list \<Rightarrow> message" where
  "call_message tcs = \<lparr>mRole = RoleAssistant, mContent = '''', mParts = [], mToolID = '''', mToolCalls = tcs\<rparr>"

definition result_message :: message where
  "result_message = \<lparr>mRole = RoleTool, mContent = ''sent'', mParts = [], mToolID = '''', mToolCalls = []\<rparr>"

definition demo_runner :: "(message list, unit, unit) runner" where
  "demo_runner = \<lparr>grExecutions = Map.empty, grInFlight = None, grAudit = None,
     grSaver = \<lparr>svCheckpoints = [''c1'' \<mapsto> \<lparr>cpID = ''c1'', cpValues = [call_message [demo_call ''email'' ''a'']]\<rparr>],
       svByLineage = (\<lambda>_. []), svLineageByCP = Map.empty, svWrites = (\<lambda>_. []), svMetadata = Map.empty,
       svLastCheckpointID = ''c1''\<rparr>, grNotified = []\<rparr>"

text \<open>The model first calls an unguarded tool, then the guarded one: the run executes the first and pauses
  at the gate before the second.\<close>

lemma demo_pause:
  "\<exists>s. graph_reach demo_guard ''mail'' ''s'' ''u'' ''l'' None (initial_run ''hi'' demo_runner) (Paused ''a1'', s) \<and>
     gnExecuted s = [demo_call ''read'' ''f'']"
proof -
  let ?step = "graph_step demo_guard ''mail'' ''s'' ''u'' ''l'' None"
  let ?r = "call_message [demo_call ''read'' ''f'']" and ?m = "call_message [demo_call ''email'' ''a'']"
  obtain s0 :: "(message list, unit, unit) graph_run" where s0: "initial_run ''hi'' demo_runner = (At LlmPlan, s0)" "gnExecuted s0 = []"
    by (simp add: initial_run_def)
  let ?s1 = "s0\<lparr>gnMessages := gnMessages s0 @ [?r]\<rparr>"
  let ?s2 = "?s1\<lparr>gnMessages := gnMessages ?s1 @ [result_message], gnExecuted := [demo_call ''read'' ''f'']\<rparr>"
  let ?s3 = "?s2\<lparr>gnMessages := gnMessages ?s2 @ [?m]\<rparr>"
  have calls: "last_calls (ms @ [m]) = mToolCalls m" "mToolCalls (call_message tcs) = tcs" for ms m tcs
    by (simp_all add: last_calls_def call_message_def)
  have guarded: "is_guarded demo_guard (demo_call ''email'' ''a'')" "\<not> is_guarded demo_guard (demo_call ''read'' ''f'')"
    by (simp_all add: is_guarded_def demo_guard_def demo_call_def)
  have 1: "?step (At LlmPlan, s0) (At CheckTools, ?s1)" by (rule graph_step.plan) (simp add: call_message_def)
  have 2: "?step (At CheckTools, ?s1) (At ExecuteTools, ?s1)"
    using graph_step.check [of demo_guard "''mail''" "''s''" "''u''" "''l''" None ?s1] guarded by (simp add: check_tools_route_def calls)
  have 3: "?step (At ExecuteTools, ?s1) (At LlmContinue, ?s2)"
    using graph_step.execute [of "[result_message]" ?s1] s0(2) by (simp add: calls is_result_def result_message_def)
  have 4: "?step (At LlmContinue, ?s2) (At CheckTools, ?s3)"
    using graph_step.continue [of ?m demo_guard "''mail''" "''s''" "''u''" "''l''" None ?s2]
    by (simp add: llm_continue_route_def last_calls_def call_message_def)
  have 5: "?step (At CheckTools, ?s3) (At ApprovalGate, ?s3)"
    using graph_step.check [of demo_guard "''mail''" "''s''" "''u''" "''l''" None ?s3] guarded
      calls(1) [of "gnMessages s0 @ [?r, result_message]" ?m] by (simp add: check_tools_route_def calls(2))
  obtain r' where g: "approval_gate 0 ''a1'' demo_guard ''mail'' ''s'' ''u'' ''l'' None Interrupted (gnMessages ?s3) (gnRunner ?s3) = (r', GatePaused ''a1'')"
    by (simp add: approval_gate_def Let_def)
  have 6: "?step (At ApprovalGate, ?s3) (Paused ''a1'', ?s3\<lparr>gnRunner := r'\<rparr>)"
    using graph_step.gate [OF g] by (simp add: after_gate_def)
  note reach = graph_reach.step [OF graph_reach.step [OF graph_reach.step [OF graph_reach.step
    [OF graph_reach.step [OF graph_reach.step [OF graph_reach.start 1] 2] 3] 4] 5] 6]
  show ?thesis unfolding s0(1) by (rule exI [of _ "?s3\<lparr>gnRunner := r'\<rparr>"], intro conjI reach) simp
qed

theorem guarded_needs_approval_witness:
  "\<exists>s. graph_reach demo_guard ''mail'' ''s'' ''u'' ''l'' None (initial_run ''hi'' demo_runner) (Paused ''a1'', s) \<and>
     gnExecuted s = [demo_call ''read'' ''f''] \<and> list_all (\<lambda>tc. \<not> is_guarded demo_guard tc) (gnExecuted s)"
proof -
  obtain s where s: "graph_reach demo_guard ''mail'' ''s'' ''u'' ''l'' None (initial_run ''hi'' demo_runner) (Paused ''a1'', s)"
    "gnExecuted s = [demo_call ''read'' ''f'']" using demo_pause by blast
  from guarded_needs_approval [OF s(1)] s show ?thesis by blast
qed

definition resumed_start :: "(message list, unit, unit) graph_run" where
  "resumed_start = \<lparr>gnMessages = [call_message [demo_call ''email'' ''a'']], gnRunner = demo_runner, gnExecuted = []\<rparr>"

text \<open>The model sends a second mail after the first was approved: both are sent, one was asked.\<close>

lemma second_call_unasked:
  "\<exists>s. graph_reach demo_guard ''mail'' ''s'' ''u'' ''l'' (Some (True, ''a1'')) (At ApprovalGate, resumed_start)
      (At LlmContinue, s) \<and>
    gnExecuted s = [demo_call ''email'' ''a'', demo_call ''email'' ''b''] \<and> grNotified (gnRunner s) = []"
proof -
  let ?step = "graph_step demo_guard ''mail'' ''s'' ''u'' ''l'' (Some (True, ''a1''))"
  let ?granted = "\<lambda>s. s\<lparr>gnRunner := resolve_request 0 ''u'' True ''a1'' (gnRunner s)\<rparr>"
  let ?a = "call_message [demo_call ''email'' ''a'']" and ?b = "call_message [demo_call ''email'' ''b'']"
  let ?s1 = "?granted resumed_start"
  let ?s2 = "?s1\<lparr>gnMessages := [?a] @ [result_message], gnExecuted := [demo_call ''email'' ''a'']\<rparr>"
  let ?s3 = "?s2\<lparr>gnMessages := gnMessages ?s2 @ [?b]\<rparr>"
  let ?s4 = "?granted ?s3"
  let ?s5 = "?s4\<lparr>gnMessages := gnMessages ?s4 @ [result_message],
     gnExecuted := [demo_call ''email'' ''a'', demo_call ''email'' ''b'']\<rparr>"
  have gate: "approval_gate 0 '''' demo_guard ''mail'' ''s'' ''u'' ''l'' (Some (True, ''a1'')) Interrupted ms r =
      (resolve_request 0 ''u'' True ''a1'' r, GateGranted)" for ms and r :: "(message list, unit, unit) runner"
    by (simp add: approval_gate_def gate_answer_def Let_def)
  have granted: "?step (At ApprovalGate, s) (At ExecuteTools, ?granted s)"
    for s :: "(message list, unit, unit) graph_run"
    using graph_step.gate [OF gate, of s] by (simp add: after_gate_def)
  have 1: "?step (At ApprovalGate, resumed_start) (At ExecuteTools, ?s1)"
    by (rule granted)
  have 2: "?step (At ExecuteTools, ?s1) (At LlmContinue, ?s2)"
    using graph_step.execute [of "[result_message]" ?s1]
    by (simp add: resumed_start_def last_calls_def call_message_def is_result_def result_message_def)
  have 3: "?step (At LlmContinue, ?s2) (At CheckTools, ?s3)"
    using graph_step.continue [of ?b demo_guard "''mail''" "''s''" "''u''" "''l''" "Some (True, ''a1'')" ?s2]
    by (simp add: llm_continue_route_def last_calls_def call_message_def)
  have 4: "?step (At CheckTools, ?s3) (At ApprovalGate, ?s3)"
    using graph_step.check [of demo_guard "''mail''" "''s''" "''u''" "''l''" "Some (True, ''a1'')" ?s3]
    by (simp add: check_tools_route_def last_calls_def call_message_def is_guarded_def demo_guard_def demo_call_def)
  have 5: "?step (At ApprovalGate, ?s3) (At ExecuteTools, ?s4)"
    by (rule granted)
  have 6: "?step (At ExecuteTools, ?s4) (At LlmContinue, ?s5)"
    using graph_step.execute [of "[result_message]" ?s4]
    by (simp add: resumed_start_def last_calls_def call_message_def is_result_def result_message_def)
  note reach = graph_reach.step [OF graph_reach.step [OF graph_reach.step [OF graph_reach.step
    [OF graph_reach.step [OF graph_reach.step [OF graph_reach.start 1] 2] 3] 4] 5] 6]
  show ?thesis
    by (rule exI [of _ ?s5], intro conjI reach) (simp_all add: resumed_start_def resolve_request_def demo_runner_def)
qed


theorem resumed_never_asks_witness:
  "\<exists>s :: (message list, unit, unit) graph_run.
     gnExecuted s = [demo_call ''email'' ''a'', demo_call ''email'' ''b''] \<and> grNotified (gnRunner s) = grNotified (gnRunner resumed_start)"
proof -
  obtain s where s: "graph_reach demo_guard ''mail'' ''s'' ''u'' ''l'' (Some (True, ''a1''))
      (At ApprovalGate, resumed_start) (At LlmContinue, s)"
    "gnExecuted s = [demo_call ''email'' ''a'', demo_call ''email'' ''b'']"
    using second_call_unasked by blast
  from resumed_never_asks [OF s(1)] s(2) show ?thesis by blast
qed

text \<open>The gate of a run resumed with a rejection ends it before the mail is sent.\<close>

theorem rejection_final_witness:
  "\<exists>s e. graph_reach demo_guard ''mail'' ''s'' ''u'' ''l'' (Some (False, ''a1'')) (At ApprovalGate, resumed_start) (Failed e, s) \<and>
     e = ''tool email was rejected by user'' \<and> last_calls (gnMessages s) = [demo_call ''email'' ''a''] \<and> gnExecuted s = []"
proof -
  let ?d = "Some (False, ''a1'')"
  let ?s = "resumed_start\<lparr>gnRunner := resolve_request 0 ''u'' False ''a1'' (gnRunner resumed_start)\<rparr>"
  have "fst (pending_tool demo_guard (gnMessages resumed_start)) = ''email''"
    by (simp add: pending_tool_def resumed_start_def last_calls_def call_message_def is_guarded_def demo_guard_def demo_call_def)
  then have "approval_gate 0 [] demo_guard ''mail'' ''s'' ''u'' ''l'' ?d Interrupted (gnMessages resumed_start) (gnRunner resumed_start) =
      (resolve_request 0 ''u'' False ''a1'' (gnRunner resumed_start), gate_answer False ''email'')"
    by (simp add: approval_gate_def Let_def)
  from graph_step.gate [OF this]
  have step: "graph_step demo_guard ''mail'' ''s'' ''u'' ''l'' ?d (At ApprovalGate, resumed_start) (Failed ''tool email was rejected by user'', ?s)"
    by (auto simp: gate_answer_def after_gate_def)
  note reach = graph_reach.step [OF graph_reach.start step]
  have "gnExecuted ?s = []" using rejection_final [OF reach] by (simp add: resumed_start_def)
  moreover have "last_calls (gnMessages ?s) = [demo_call ''email'' ''a'']"
    by (simp add: resumed_start_def last_calls_def call_message_def)
  ultimately show ?thesis using reach by blast
qed

definition paused_demo :: "(message list, unit, unit) runner" where
  "paused_demo = fst (approval_gate 0 ''a1'' demo_guard ''mail'' ''s'' ''u'' ''l1'' None Interrupted
     [call_message [demo_call ''email'' ''a'']] demo_runner)"

theorem paused_can_resume_witness:
  "is_ok (Resume (\<lambda>ms. ms) ''a1'' True
     (paused_demo\<lparr>grExecutions := attach_executor ''s'' ''mail'' ''l1'' (grExecutions paused_demo)\<rparr>))"
proof -
  have gate: "approval_gate 0 ''a1'' demo_guard ''mail'' ''s'' ''u'' ''l1'' None Interrupted
      [call_message [demo_call ''email'' ''a'']] demo_runner = (paused_demo, GatePaused ''a1'')"
    by (simp add: paused_demo_def approval_gate_def Let_def)
  have saver: "grSaver paused_demo = grSaver demo_runner"
    by (simp add: paused_demo_def approval_gate_def register_request_def case_prod_beta Let_def)
  have "GetByID (GetLastCheckpointID (grSaver demo_runner)) (grSaver demo_runner) =
      Some \<lparr>cpID = ''c1'', cpValues = [call_message [demo_call ''email'' ''a'']]\<rparr>"
    by (simp add: GetByID_def GetLastCheckpointID_def demo_runner_def)
  then show ?thesis
    using paused_can_resume [OF gate, where approved = True and messages_of = "\<lambda>ms. ms" and
        r'' = "paused_demo\<lparr>grExecutions := attach_executor ''s'' ''mail'' ''l1'' (grExecutions paused_demo)\<rparr>"] saver
    by (simp add: GetLastCheckpointID_def demo_runner_def)
qed


end
