(* ===== verification/VfsPath.thy ===== *)
theory VfsPath
  imports Prelude "HOL-Library.Sublist"
begin

text \<open>
  Paths of the virtual file systems under \<open>internal/vfs\<close>.  A cleaned path is the list of its
  components; its string is the components joined with slashes.
\<close>

definition clean_step :: "string list \<Rightarrow> string \<Rightarrow> string list" where
  "clean_step acc c =
     (if c = '''' \<or> c = ''.'' then acc else if c = ''..'' then butlast acc else acc @ [c])"

text \<open>\<open>path.Clean("/" + name)\<close>: a path above the root is the root.\<close>

definition clean_parts :: "string \<Rightarrow> string list" where
  "clean_parts name = foldl clean_step [] (split_on (CHR ''/'') name)"

definition clean :: "string \<Rightarrow> string" where
  "clean name = join_str ''/'' (clean_parts name)"

lemma split_on_nonempty [simp]: "split_on c s \<noteq> []"
  by (induction c s rule: split_on.induct) (auto split: list.split)

lemma split_on_append:
  "c \<notin> set t \<Longrightarrow> split_on c (s @ t) = butlast (split_on c s) @ [last (split_on c s) @ t]"
proof (induction s)
  case Nil
  then show ?case
  proof (induction t)
    case (Cons d t)
    then show ?case by (auto split: list.split)
  qed simp
next
  case (Cons d s)
  then show ?case
    by (cases "split_on c s") (auto split: list.split)
qed

lemma split_on_two: "split_on c (s @ c # t) = split_on c s @ split_on c t"
  by (induction s) (auto split: list.split)

lemma split_on_none: "c \<notin> set s \<Longrightarrow> split_on c s = [s]"
  using split_on_append [of c s "[]"] by simp

definition plain :: "string \<Rightarrow> bool" where
  "plain c \<longleftrightarrow> c \<notin> {'''', ''.'', ''..''} \<and> CHR ''/'' \<notin> set c"

lemma split_on_parts: "x \<in> set (split_on c s) \<Longrightarrow> c \<notin> set x"
proof (induction s arbitrary: x)
  case (Cons d s)
  then show ?case by (auto split: if_splits list.splits)
qed simp

lemma clean_step_plain:
  "\<forall>c \<in> set cs. CHR ''/'' \<notin> set c \<Longrightarrow> \<forall>c \<in> set acc. plain c \<Longrightarrow>
     \<forall>c \<in> set (foldl clean_step acc cs). plain c"
proof (induction cs arbitrary: acc)
  case (Cons x cs)
  have "\<forall>c \<in> set (clean_step acc x). plain c"
    using Cons.prems by (auto simp: clean_step_def plain_def dest: in_set_butlastD)
  with Cons show ?case by simp
qed simp

lemma clean_parts_plain: "c \<in> set (clean_parts name) \<Longrightarrow> plain c"
  using clean_step_plain [of "split_on (CHR ''/'') name" "[]"] split_on_parts
  by (auto simp: clean_parts_def)

lemma split_on_join:
  "ws \<noteq> [] \<Longrightarrow> \<forall>w \<in> set ws. c \<notin> set w \<Longrightarrow> split_on c (join_str [c] ws) = ws"
proof (induction "[c]" ws rule: join_str.induct)
  case (2 x)
  then show ?case using split_on_append [of c x "[]"] by simp
next
  case (3 x y xs)
  have x: "split_on c (x @ c # s) = x # split_on c s" if "c \<notin> set x" for s
    using that by (induction x) (auto split: list.split)
  from 3 x show ?case by simp
qed simp

lemma foldl_plain: "\<forall>w \<in> set ws. plain w \<Longrightarrow> foldl clean_step acc ws = acc @ ws"
  by (induction ws arbitrary: acc) (auto simp: clean_step_def plain_def)

lemma clean_parts_join:
  assumes "\<forall>w \<in> set ws. plain w"
  shows "clean_parts (join_str ''/'' ws) = ws"
proof (cases "ws = []")
  case True
  then show ?thesis by (simp add: clean_parts_def clean_step_def)
next
  case False
  then show ?thesis
    using assms split_on_join [of ws "CHR ''/''"] foldl_plain [of ws "[]"]
    by (simp add: clean_parts_def plain_def)
qed

text \<open>Cleaning is idempotent, so looking up the parent of a cleaned path, which cleans again,
  walks the same components.\<close>

lemma clean_idem: "clean (clean name) = clean name"
  by (simp add: clean_def clean_parts_join clean_parts_plain)

lemma clean_parent: "clean_parts (join_str ''/'' (butlast (clean_parts name))) = butlast (clean_parts name)"
  by (rule clean_parts_join) (auto dest: in_set_butlastD clean_parts_plain)

text \<open>A suffix without slash or dots only changes the last component.\<close>

lemma clean_parts_suffix:
  assumes "CHR ''/'' \<notin> set t" and "2 < length t"
  shows "\<exists>ds l. clean_parts (name @ t) = ds @ [l @ t] \<and>
    (clean_parts name = ds \<or> clean_parts name = butlast ds \<or> clean_parts name = ds @ [l])"
proof -
  let ?cs = "split_on (CHR ''/'') name"
  let ?ds = "foldl clean_step [] (butlast ?cs)"
  have cs: "?cs = butlast ?cs @ [last ?cs]" by simp
  have "2 < length (last ?cs @ t)" using assms(2) by simp
  then have "last ?cs @ t \<notin> {'''', ''.'', ''..''}" by (auto simp del: length_append)
  then have "clean_parts (name @ t) = ?ds @ [last ?cs @ t]"
    by (simp add: clean_parts_def split_on_append [OF assms(1)] clean_step_def)
  moreover have "clean_parts name = clean_step ?ds (last ?cs)"
    unfolding clean_parts_def by (subst cs) (simp del: append_butlast_last_id)
  ultimately show ?thesis by (auto simp: clean_step_def)
qed

lemma suffix_not_prefix:
  assumes "CHR ''/'' \<notin> set t" and "2 < length t"
  shows "\<not> prefix (clean_parts (name @ t)) (clean_parts name)"
proof -
  obtain ds l where h: "clean_parts (name @ t) = ds @ [l @ t]"
    "clean_parts name = ds \<or> clean_parts name = butlast ds \<or> clean_parts name = ds @ [l]"
    using clean_parts_suffix [OF assms] by blast
  have "t \<noteq> []" using assms(2) by auto
  with h show ?thesis by (auto dest: prefix_length_le)
qed

text \<open>\<open>filepath.Clean\<close> and \<open>filepath.Dir\<close> of a path that may be relative.\<close>

definition clean_rel_step :: "string list \<Rightarrow> string \<Rightarrow> string list" where
  "clean_rel_step acc c =
     (if c = '''' \<or> c = ''.'' then acc
      else if c = ''..'' then (if acc = [] \<or> last acc = ''..'' then acc @ [c] else butlast acc)
      else acc @ [c])"

definition filepath_Clean :: "string \<Rightarrow> string" where
  "filepath_Clean p =
     (if has_prefix p ''/'' then ''/'' @ clean p
      else (let r = join_str ''/'' (foldl clean_rel_step [] (split_on (CHR ''/'') p))
            in if r = '''' then ''.'' else r))"

definition filepath_Dir :: "string \<Rightarrow> string" where
  "filepath_Dir p = filepath_Clean (rev (dropWhile (\<lambda>c. c \<noteq> CHR ''/'') (rev p)))"

section \<open>Errors\<close>

definition path_error :: "string \<Rightarrow> string \<Rightarrow> string \<Rightarrow> string" where
  "path_error op p e = op @ '' '' @ p @ '': '' @ e"

definition ErrNotExist :: string where "ErrNotExist = ''file does not exist''"
definition ErrInvalid :: string where "ErrInvalid = ''invalid argument''"
definition ErrPermission :: string where "ErrPermission = ''permission denied''"
definition ErrClosed :: string where "ErrClosed = ''file already closed''"

end
