(* ===== verification/MemFS.thy ===== *)
theory MemFS
  imports VfsPath "HOL-Library.Word" "HOL-Library.AList"
begin

unbundle bit_operations_syntax

text \<open>
  The in-memory file system of \<open>internal/vfs/memfs.go\<close> over an explicit store of nodes: a node
  is an address, a directory maps names to addresses, the root has address 0, and a node that
  was removed stays allocated, as an open handle may still point at it.  The children of a
  directory are an association list with distinct names, in one of the orders in which Go may
  range over the map; everything the code shows of them is sorted.
\<close>

section \<open>Nodes\<close>

type_synonym file_mode = "32 word"

definition ModeDir :: file_mode where
  "ModeDir = push_bit 31 1"

record mem_node =
  nName :: string
  nIsDir :: bool
  nData :: string
  nChildren :: "(string \<times> nat) list"
  nModTime :: time
  nMode :: file_mode

record memfs =
  mNodes :: "nat \<Rightarrow> mem_node"
  mNext :: nat

definition blank_node :: mem_node where
  "blank_node = \<lparr>nName = '''', nIsDir = False, nData = '''', nChildren = [], nModTime = 0, nMode = 0\<rparr>"

definition dir_node :: "string \<Rightarrow> time \<Rightarrow> file_mode \<Rightarrow> mem_node" where
  "dir_node name now perm = \<lparr>nName = name, nIsDir = True, nData = '''', nChildren = [],
     nModTime = now, nMode = perm OR ModeDir\<rparr>"

definition file_node :: "string \<Rightarrow> string \<Rightarrow> time \<Rightarrow> file_mode \<Rightarrow> mem_node" where
  "file_node name data now perm = \<lparr>nName = name, nIsDir = False, nData = data, nChildren = [],
     nModTime = now, nMode = perm\<rparr>"

definition NewMemFS :: "time \<Rightarrow> memfs" where
  "NewMemFS now = \<lparr>mNodes = (\<lambda>_. blank_node)(0 := dir_node '''' now 0x1ED), mNext = 1\<rparr>"

record file_info =
  fiName :: string
  fiSize :: nat
  fiMode :: file_mode
  fiModTime :: time
  fiIsDir :: bool

definition fileInfo :: "mem_node \<Rightarrow> file_info" where
  "fileInfo n = \<lparr>fiName = nName n, fiSize = length (nData n), fiMode = nMode n,
     fiModTime = nModTime n, fiIsDir = nIsDir n\<rparr>"

section \<open>Assignments to the node store\<close>

definition set_node :: "nat \<Rightarrow> (mem_node \<Rightarrow> mem_node) \<Rightarrow> memfs \<Rightarrow> memfs" where
  "set_node a f m = m\<lparr>mNodes := (mNodes m)(a := f (mNodes m a))\<rparr>"

definition set_child :: "nat \<Rightarrow> string \<Rightarrow> nat \<Rightarrow> memfs \<Rightarrow> memfs" where
  "set_child a p b = set_node a (\<lambda>n. n\<lparr>nChildren := AList.update p b (nChildren n)\<rparr>)"

definition del_child :: "nat \<Rightarrow> string \<Rightarrow> memfs \<Rightarrow> memfs" where
  "del_child a p = set_node a (\<lambda>n. n\<lparr>nChildren := AList.delete p (nChildren n)\<rparr>)"

definition child :: "memfs \<Rightarrow> nat \<Rightarrow> string \<Rightarrow> nat option" where
  "child m a p = map_of (nChildren (mNodes m a)) p"

definition new_node :: "mem_node \<Rightarrow> memfs \<Rightarrow> memfs" where
  "new_node n m = m\<lparr>mNodes := (mNodes m)(mNext m := n), mNext := mNext m + 1\<rparr>"

section \<open>Lookup\<close>

text \<open>\<open>split\<close>: the parent path and the base name.\<close>

definition split_path :: "string \<Rightarrow> string \<times> string" where
  "split_path name =
     (let ws = split_on (CHR ''/'') name in (join_str ''/'' (butlast ws), last ws))"

fun walk_nodes :: "memfs \<Rightarrow> nat \<Rightarrow> string list \<Rightarrow> nat option" where
  "walk_nodes m a [] = Some a"
| "walk_nodes m a (p # ps) =
     (if \<not> nIsDir (mNodes m a) then None
      else (case child m a p of None \<Rightarrow> None | Some b \<Rightarrow> walk_nodes m b ps))"

definition lookup :: "string \<Rightarrow> memfs \<Rightarrow> nat go_result" where
  "lookup name0 m =
     (let name = clean name0
      in if name = '''' then Inr 0
         else (case walk_nodes m 0 (split_on (CHR ''/'') name) of
                 None \<Rightarrow> Inl (path_error ''lookup'' name ErrNotExist)
               | Some a \<Rightarrow> Inr a))"

definition lookupParent :: "string \<Rightarrow> memfs \<Rightarrow> (nat \<times> string) go_result" where
  "lookupParent name0 m =
     (let name = clean name0
      in if name = '''' then Inl (path_error ''lookup'' ''/'' ErrInvalid)
         else (let (dir, base) = split_path name
               in case lookup dir m of
                    Inl e \<Rightarrow> Inl e
                  | Inr parent \<Rightarrow>
                      if \<not> nIsDir (mNodes m parent)
                      then Inl (path_error ''lookup'' dir ''not a directory'') else Inr (parent, base)))"

section \<open>Operations\<close>

definition Stat :: "string \<Rightarrow> memfs \<Rightarrow> file_info go_result" where
  "Stat name m = (case lookup name m of Inl e \<Rightarrow> Inl e | Inr a \<Rightarrow> Inr (fileInfo (mNodes m a)))"

text \<open>The entries of a directory, sorted by name.\<close>

definition dir_entries :: "memfs \<Rightarrow> nat \<Rightarrow> file_info list" where
  "dir_entries m a =
     sort_key fiName (map (\<lambda>(_, b). fileInfo (mNodes m b)) (nChildren (mNodes m a)))"

definition ReadDir :: "string \<Rightarrow> memfs \<Rightarrow> file_info list go_result" where
  "ReadDir name m =
     (case lookup name m of
        Inl e \<Rightarrow> Inl e
      | Inr a \<Rightarrow>
          if \<not> nIsDir (mNodes m a) then Inl (path_error ''readdir'' name ''not a directory'')
          else Inr (dir_entries m a))"

definition ReadFile :: "string \<Rightarrow> memfs \<Rightarrow> string go_result" where
  "ReadFile name m =
     (case lookup name m of
        Inl e \<Rightarrow> Inl e
      | Inr a \<Rightarrow>
          if nIsDir (mNodes m a) then Inl (path_error ''read'' name ''is a directory'')
          else Inr (nData (mNodes m a)))"

definition WriteFile :: "time \<Rightarrow> string \<Rightarrow> string \<Rightarrow> file_mode \<Rightarrow> memfs \<Rightarrow> memfs \<times> string option" where
  "WriteFile now name data perm m =
     (case lookupParent name m of
        Inl e \<Rightarrow> (m, Some e)
      | Inr (parent, base) \<Rightarrow>
          (case child m parent base of
             Some existing \<Rightarrow>
               if nIsDir (mNodes m existing) then (m, Some (path_error ''write'' name ''is a directory''))
               else (set_node existing (\<lambda>n. n\<lparr>nData := data, nModTime := now, nMode := perm\<rparr>) m, None)
           | None \<Rightarrow>
               (set_child parent base (mNext m) (new_node (file_node base data now perm) m), None)))"

fun mkdir_walk ::
  "time \<Rightarrow> file_mode \<Rightarrow> string \<Rightarrow> nat \<Rightarrow> string list \<Rightarrow> memfs \<Rightarrow> memfs \<times> string option" where
  "mkdir_walk now perm name cur [] m = (m, None)"
| "mkdir_walk now perm name cur (part # parts) m =
     (case child m cur part of
        Some c \<Rightarrow>
          if \<not> nIsDir (mNodes m c) then (m, Some (path_error ''mkdir'' name ''not a directory''))
          else mkdir_walk now perm name c parts m
      | None \<Rightarrow>
          mkdir_walk now perm name (mNext m) parts
            (set_child cur part (mNext m) (new_node (dir_node part now perm) m)))"

definition MkdirAll :: "time \<Rightarrow> string \<Rightarrow> file_mode \<Rightarrow> memfs \<Rightarrow> memfs \<times> string option" where
  "MkdirAll now name0 perm m =
     (let name = clean name0
      in if name = '''' then (m, None)
         else mkdir_walk now perm name 0 (split_on (CHR ''/'') name) m)"

definition Remove :: "string \<Rightarrow> memfs \<Rightarrow> memfs \<times> string option" where
  "Remove name0 m =
     (let name = clean name0
      in if name = '''' then (m, Some (path_error ''remove'' ''/'' ErrPermission))
         else (case lookupParent name m of
                 Inl e \<Rightarrow> (m, Some e)
               | Inr (parent, base) \<Rightarrow>
                   (case child m parent base of
                      None \<Rightarrow> (m, Some (path_error ''remove'' name ErrNotExist))
                    | Some c \<Rightarrow>
                        if nIsDir (mNodes m c) \<and> nChildren (mNodes m c) \<noteq> []
                        then (m, Some (path_error ''remove'' name ''directory not empty''))
                        else (del_child parent base m, None))))"

definition RemoveAll :: "string \<Rightarrow> memfs \<Rightarrow> memfs \<times> string option" where
  "RemoveAll name0 m =
     (let name = clean name0
      in if name = '''' then (m, Some (path_error ''removeall'' ''/'' ErrPermission))
         else (case lookupParent name m of
                 Inl _ \<Rightarrow> (m, None)
               | Inr (parent, base) \<Rightarrow>
                   if child m parent base = None then (m, None)
                   else (del_child parent base m, None)))"

definition Rename :: "string \<Rightarrow> string \<Rightarrow> memfs \<Rightarrow> memfs \<times> string option" where
  "Rename oldpath newpath m =
     (case lookupParent oldpath m of
        Inl e \<Rightarrow> (m, Some e)
      | Inr (oldParent, oldBase) \<Rightarrow>
          (case child m oldParent oldBase of
             None \<Rightarrow> (m, Some (path_error ''rename'' oldpath ErrNotExist))
           | Some node \<Rightarrow>
               (case lookupParent newpath m of
                  Inl e \<Rightarrow> (m, Some e)
                | Inr (newParent, newBase) \<Rightarrow>
                    (set_child newParent newBase node
                       (set_node node (\<lambda>n. n\<lparr>nName := newBase\<rparr>)
                         (del_child oldParent oldBase m)), None))))"

section \<open>File handles\<close>

text \<open>The flags of \<open>OpenFile\<close> that the code tests, by name: their bits differ between platforms.\<close>

datatype open_flag = O_APPEND | O_CREATE | O_TRUNC | O_WRONLY

record mem_file =
  mfInfo :: file_info
  mfReader :: string
  mfNode :: nat

record mem_writable =
  mwName :: string
  mwNode :: nat
  mwBuf :: string
  mwFlag :: "open_flag list"
  mwClosed :: bool

definition Open :: "string \<Rightarrow> memfs \<Rightarrow> mem_file go_result" where
  "Open name m =
     (case lookup name m of
        Inl e \<Rightarrow> Inl e
      | Inr a \<Rightarrow> Inr \<lparr>mfInfo = fileInfo (mNodes m a), mfReader = nData (mNodes m a), mfNode = a\<rparr>)"

text \<open>\<open>Read\<close> of at most \<open>n\<close> bytes through a \<open>bytes.Reader\<close>: the rest and the bytes read.\<close>

definition read_bytes :: "nat \<Rightarrow> string \<Rightarrow> (string \<times> string) go_result" where
  "read_bytes n s = (if s = '''' then Inl ''EOF'' else Inr (drop n s, take n s))"

definition file_Read :: "nat \<Rightarrow> mem_file \<Rightarrow> mem_file \<times> string go_result" where
  "file_Read n f =
     (case read_bytes n (mfReader f) of
        Inl e \<Rightarrow> (f, Inl e)
      | Inr (rest, out) \<Rightarrow> (f\<lparr>mfReader := rest\<rparr>, Inr out))"

definition file_ReadDir :: "int \<Rightarrow> mem_file \<Rightarrow> memfs \<Rightarrow> file_info list go_result" where
  "file_ReadDir n f m =
     (if \<not> nIsDir (mNodes m (mfNode f)) then Inl ''not a directory''
      else (let entries = dir_entries m (mfNode f)
            in Inr (if 0 < n \<and> n < int (length entries) then take (nat n) entries else entries)))"

definition writable_Stat :: "mem_writable \<Rightarrow> memfs \<Rightarrow> file_info" where
  "writable_Stat f m = fileInfo (mNodes m (mwNode f))"

text \<open>Every \<open>Read\<close> of a writable handle starts a new reader at the first byte.\<close>

definition writable_Read :: "nat \<Rightarrow> mem_writable \<Rightarrow> memfs \<Rightarrow> string go_result" where
  "writable_Read n f m =
     (case read_bytes n (nData (mNodes m (mwNode f))) of Inl e \<Rightarrow> Inl e | Inr (_, out) \<Rightarrow> Inr out)"

definition writable_Write :: "string \<Rightarrow> mem_writable \<Rightarrow> mem_writable \<times> nat go_result" where
  "writable_Write p f =
     (if mwClosed f then (f, Inl ErrClosed) else (f\<lparr>mwBuf := mwBuf f @ p\<rparr>, Inr (length p)))"

definition writable_Sync :: "time \<Rightarrow> mem_writable \<Rightarrow> memfs \<Rightarrow> memfs" where
  "writable_Sync now f =
     set_node (mwNode f) (\<lambda>n. n\<lparr>
       nData := (if O_APPEND \<in> set (mwFlag f) then nData n @ mwBuf f else mwBuf f), nModTime := now\<rparr>)"

definition writable_Close :: "time \<Rightarrow> mem_writable \<Rightarrow> memfs \<Rightarrow> memfs \<times> mem_writable" where
  "writable_Close now f m =
     (if mwClosed f then (m, f) else (writable_Sync now f m, f\<lparr>mwClosed := True\<rparr>))"

text \<open>\<open>OpenFile\<close> once the node is found or created.\<close>

definition open_node ::
  "string \<Rightarrow> open_flag list \<Rightarrow> nat \<Rightarrow> memfs \<Rightarrow> memfs \<times> mem_writable go_result" where
  "open_node name flag a m =
     (if nIsDir (mNodes m a) then (m, Inl (path_error ''openfile'' name ''is a directory''))
      else (let m' = (if O_TRUNC \<in> set flag then set_node a (\<lambda>n. n\<lparr>nData := ''''\<rparr>) m else m);
                buf = (if O_APPEND \<notin> set flag \<and> O_TRUNC \<notin> set flag then nData (mNodes m' a) else '''')
            in (m', Inr \<lparr>mwName = name, mwNode = a, mwBuf = buf, mwFlag = flag, mwClosed = False\<rparr>)))"

definition OpenFile ::
  "time \<Rightarrow> string \<Rightarrow> open_flag list \<Rightarrow> file_mode \<Rightarrow> memfs \<Rightarrow> memfs \<times> mem_writable go_result" where
  "OpenFile now name flag perm m =
     (case lookupParent name m of
        Inl e \<Rightarrow> (m, Inl e)
      | Inr (parent, base) \<Rightarrow>
          (case child m parent base of
             None \<Rightarrow>
               if O_CREATE \<notin> set flag then (m, Inl (path_error ''openfile'' name ErrNotExist))
               else open_node name flag (mNext m)
                      (set_child parent base (mNext m) (new_node (file_node base '''' now perm) m))
           | Some a \<Rightarrow> open_node name flag a m))"

section \<open>The tree invariant\<close>

text \<open>
  Every edge leads to an allocated node that carries the edge's name, no node has two parents
  or two names, nothing leads to the root, and files and unallocated nodes have no children.
\<close>

definition mem_ok :: "memfs \<Rightarrow> bool" where
  "mem_ok m \<longleftrightarrow>
     0 < mNext m \<and> nIsDir (mNodes m 0) \<and>
     (\<forall>a. distinct (map fst (nChildren (mNodes m a)))) \<and>
     (\<forall>a. mNext m \<le> a \<or> \<not> nIsDir (mNodes m a) \<longrightarrow> nChildren (mNodes m a) = []) \<and>
     (\<forall>a p b. child m a p = Some b \<longrightarrow> 0 < b \<and> b < mNext m \<and> nName (mNodes m b) = p) \<and>
     (\<forall>a p a' p' b. child m a p = Some b \<longrightarrow> child m a' p' = Some b \<longrightarrow> a = a' \<and> p = p')"

lemma child_set_node:
  "child (set_node a f m) b q = (if b = a then map_of (nChildren (f (mNodes m a))) q else child m b q)"
  by (simp add: child_def set_node_def)

lemma child_set_child [simp]:
  "child (set_child a p b m) a' q = (if a' = a \<and> q = p then Some b else child m a' q)"
  by (simp add: set_child_def child_set_node update_conv) (simp add: child_def)

lemma child_del_child [simp]:
  "child (del_child a p m) a' q = (if a' = a \<and> q = p then None else child m a' q)"
  by (simp add: del_child_def child_set_node delete_conv) (simp add: child_def)

lemma child_update_data [simp]:
  "(\<And>n. nChildren (f n) = nChildren n) \<Longrightarrow> child (set_node a f m) = child m"
  by (intro ext) (simp add: child_def set_node_def)

lemma child_new_node [simp]:
  "nChildren n = [] \<Longrightarrow> child (new_node n m) a q = (if a = mNext m then None else child m a q)"
  by (simp add: new_node_def child_def)

lemma node_fields [simp]:
  "mNext (set_node a f m) = mNext m" "mNext (set_child a p b m) = mNext m"
  "mNext (del_child a p m) = mNext m" "mNext (new_node n m) = mNext m + 1"
  "nIsDir (mNodes (set_child a p b m) c) = nIsDir (mNodes m c)"
  "nIsDir (mNodes (del_child a p m) c) = nIsDir (mNodes m c)"
  "nData (mNodes (set_child a p b m) c) = nData (mNodes m c)"
  "nData (mNodes (del_child a p m) c) = nData (mNodes m c)"
  "nName (mNodes (set_child a p b m) c) = nName (mNodes m c)"
  "nName (mNodes (del_child a p m) c) = nName (mNodes m c)"
  by (simp_all add: set_node_def set_child_def del_child_def new_node_def)

lemma mNodes_set_node [simp]:
  "mNodes (set_node a f m) = (mNodes m)(a := f (mNodes m a))"
  "mNodes (new_node n m) = (mNodes m)(mNext m := n)"
  by (simp_all add: set_node_def new_node_def)

end
