(* ===== verification/MemTree.thy ===== *)
theory MemTree
  imports MemFS
begin

text \<open>
  The in-memory file system as a tree: every operation keeps the invariant of the node store,
  and refines the corresponding update of a map from component lists to entries.
\<close>

section \<open>Consequences of the invariant\<close>

lemma mem_okD:
  assumes "mem_ok m"
  shows ok_next: "0 < mNext m" and ok_root: "nIsDir (mNodes m 0)"
    and ok_distinct: "distinct (map fst (nChildren (mNodes m a)))"
    and ok_alloc: "child m a p = Some b \<Longrightarrow> a < mNext m \<and> nIsDir (mNodes m a) \<and> 0 < b \<and> b < mNext m \<and> nName (mNodes m b) = p"
    and ok_parent: "child m a p = Some b \<Longrightarrow> child m a' p' = Some b \<Longrightarrow> a = a' \<and> p = p'"
    and ok_leaf: "mNext m \<le> a \<or> \<not> nIsDir (mNodes m a) \<Longrightarrow> nChildren (mNodes m a) = []"
proof -
  show "0 < mNext m" "nIsDir (mNodes m 0)" "distinct (map fst (nChildren (mNodes m a)))"
    using assms by (simp_all add: mem_ok_def)
  show "mNext m \<le> a \<or> \<not> nIsDir (mNodes m a) \<Longrightarrow> nChildren (mNodes m a) = []"
    using assms unfolding mem_ok_def by blast
  show "child m a p = Some b \<Longrightarrow> child m a' p' = Some b \<Longrightarrow> a = a' \<and> p = p'"
    using assms unfolding mem_ok_def by blast
  assume c: "child m a p = Some b"
  then have "nChildren (mNodes m a) \<noteq> []" by (auto simp: child_def)
  then have "\<not> (mNext m \<le> a \<or> \<not> nIsDir (mNodes m a))" using assms unfolding mem_ok_def by blast
  moreover have "0 < b \<and> b < mNext m \<and> nName (mNodes m b) = p" using assms c unfolding mem_ok_def by blast
  ultimately show "a < mNext m \<and> nIsDir (mNodes m a) \<and> 0 < b \<and> b < mNext m \<and> nName (mNodes m b) = p"
    by simp
qed

lemma ok_leaf_child: "mem_ok m \<Longrightarrow> mNext m \<le> a \<or> \<not> nIsDir (mNodes m a) \<Longrightarrow> child m a p = None"
  by (simp add: child_def ok_leaf)

lemma walk_nodes_append:
  "walk_nodes m a (ps @ qs) = (case walk_nodes m a ps of None \<Rightarrow> None | Some b \<Rightarrow> walk_nodes m b qs)"
  by (induction ps arbitrary: a) (auto split: option.split)

text \<open>On a well-formed store only directories have children, so the walk follows the edges.\<close>

lemma walk_Cons:
  "mem_ok m \<Longrightarrow> walk_nodes m a (p # ps) = (case child m a p of None \<Rightarrow> None | Some b \<Rightarrow> walk_nodes m b ps)"
  by (auto simp: ok_leaf_child)

lemma walk_snoc:
  "mem_ok m \<Longrightarrow> walk_nodes m a (ps @ [p]) = (case walk_nodes m a ps of None \<Rightarrow> None | Some b \<Rightarrow> child m b p)"
  by (auto simp: walk_nodes_append ok_leaf_child split: option.split)

lemma walk_alloc: "mem_ok m \<Longrightarrow> walk_nodes m 0 ps = Some a \<Longrightarrow> a < mNext m"
  by (cases ps rule: rev_cases)
    (auto simp: ok_next walk_snoc dest: ok_alloc split: option.splits)

lemma walk_root: "mem_ok m \<Longrightarrow> walk_nodes m a ps = Some 0 \<Longrightarrow> ps = [] \<and> a = 0"
  by (cases ps rule: rev_cases) (auto simp: walk_snoc dest: ok_alloc split: option.splits)

lemma walk_inj:
  assumes "mem_ok m" and "walk_nodes m 0 ps = Some a" and "walk_nodes m 0 qs = Some a"
  shows "ps = qs"
  using assms(2,3)
proof (induction ps arbitrary: qs a rule: rev_induct)
  case Nil
  then show ?case using walk_root [OF assms(1), of 0 qs] by auto
next
  case (snoc p ps)
  then obtain b where b: "walk_nodes m 0 ps = Some b" "child m b p = Some a"
    by (auto simp: walk_snoc [OF assms(1)] split: option.splits)
  then have "0 < a" using ok_alloc [OF assms(1)] by blast
  then obtain qs' q where qs: "qs = qs' @ [q]" using snoc.prems(2) by (cases qs rule: rev_cases) auto
  then obtain c where c: "walk_nodes m 0 qs' = Some c" "child m c q = Some a"
    using snoc.prems(2) by (auto simp: walk_snoc [OF assms(1)] split: option.splits)
  with b have "b = c \<and> p = q" using ok_parent [OF assms(1)] by blast
  with b c snoc.IH qs show ?case by simp
qed

section \<open>The store operations keep the invariant\<close>

lemma ok_set_data:
  assumes "mem_ok m"
    and "\<And>n. nName (f n) = nName n" "\<And>n. nIsDir (f n) = nIsDir n" "\<And>n. nChildren (f n) = nChildren n"
  shows "mem_ok (set_node a f m)"
  using assms by (simp add: mem_ok_def)

lemma ok_del:
  assumes "mem_ok m"
  shows "mem_ok (del_child a p m)"
proof -
  have "distinct (map fst (nChildren (mNodes (del_child a p m) c)))" for c
    using ok_distinct [OF assms] by (simp add: del_child_def distinct_delete)
  moreover have "nChildren (mNodes (del_child a p m) c) = []" if "mNext m \<le> c \<or> \<not> nIsDir (mNodes m c)" for c
    using ok_leaf [OF assms that] by (auto simp: del_child_def)
  ultimately show ?thesis
    unfolding mem_ok_def node_fields child_del_child
    using ok_next [OF assms] ok_root [OF assms] ok_alloc [OF assms] ok_parent [OF assms]
    by (auto split: if_splits)
qed

lemma ok_set_child:
  assumes "mem_ok m" and "a < mNext m" and "nIsDir (mNodes m a)"
    and "0 < b" and "b < mNext m" and "nName (mNodes m b) = q" and "\<And>c p. child m c p \<noteq> Some b"
  shows "mem_ok (set_child a q b m)"
proof -
  have "distinct (map fst (nChildren (mNodes (set_child a q b m) c)))" for c
    using ok_distinct [OF assms(1)] by (simp add: set_child_def distinct_update)
  moreover have "nChildren (mNodes (set_child a q b m) c) = []" if "mNext m \<le> c \<or> \<not> nIsDir (mNodes m c)" for c
    using ok_leaf [OF assms(1) that] that assms(2,3) by (auto simp: set_child_def)
  ultimately show ?thesis
    unfolding mem_ok_def node_fields child_set_child
    using ok_next [OF assms(1)] ok_root [OF assms(1)] ok_alloc [OF assms(1)] ok_parent [OF assms(1)] assms
    by (auto split: if_splits)
qed

lemma ok_new:
  assumes "mem_ok m" and "nChildren n = []"
  shows "mem_ok (new_node n m)"
  unfolding mem_ok_def
proof (intro conjI allI impI)
  fix a p a' p' b
  assume "child (new_node n m) a p = Some b" "child (new_node n m) a' p' = Some b"
  with assms show "a = a'" "p = p'"
    using ok_parent [OF assms(1)] by (auto split: if_splits)
next
  fix a p b
  assume "child (new_node n m) a p = Some b"
  then have "child m a p = Some b" using assms by (simp split: if_splits)
  with ok_alloc [OF assms(1)] show "0 < b" "b < mNext (new_node n m)" "nName (mNodes (new_node n m) b) = p"
    by (auto simp: less_Suc_eq)
qed (use assms ok_next [OF assms(1)] ok_root [OF assms(1)] ok_distinct [OF assms(1)] ok_leaf [OF assms(1)] in
  \<open>auto split: if_splits\<close>)

lemma ok_new_child:
  assumes "mem_ok m" and "a < mNext m" and "nIsDir (mNodes m a)"
    and "nChildren n = []" and "nName n = p"
  shows "mem_ok (set_child a p (mNext m) (new_node n m))"
proof (rule ok_set_child [OF ok_new [OF assms(1,4)]])
  show "child (new_node n m) c q \<noteq> Some (mNext m)" for c q
    using assms(4) ok_alloc [OF assms(1), of c q "mNext m"] by auto
qed (use assms ok_next [OF assms(1)] in auto)

section \<open>The abstract file system\<close>

datatype entry = Dir | File string

definition node_entry :: "mem_node \<Rightarrow> entry" where
  "node_entry n = (if nIsDir n then Dir else File (nData n))"

definition view :: "memfs \<Rightarrow> string list \<Rightarrow> entry option" where
  "view m ps = map_option (\<lambda>a. node_entry (mNodes m a)) (walk_nodes m 0 ps)"

lemma clean_empty: "clean name = '''' \<longleftrightarrow> clean_parts name = []"
proof
  assume "clean name = ''''"
  moreover have "clean_parts (clean name) = clean_parts name"
    by (simp add: clean_def clean_parts_join clean_parts_plain)
  moreover have "clean_parts '''' = []" by (simp add: clean_parts_def clean_step_def)
  ultimately show "clean_parts name = []" by metis
qed (simp add: clean_def)

lemma split_clean: "clean_parts name \<noteq> [] \<Longrightarrow> split_on (CHR ''/'') (clean name) = clean_parts name"
  using split_on_join [of "clean_parts name" "CHR ''/''"] clean_parts_plain [of _ name]
  by (auto simp: clean_def plain_def)

lemma clean_parts_clean [simp]: "clean_parts (clean name) = clean_parts name"
  by (simp add: clean_def clean_parts_join clean_parts_plain)

lemma lookup_eq:
  "lookup name m =
     (case walk_nodes m 0 (clean_parts name) of
        None \<Rightarrow> Inl (path_error ''lookup'' (clean name) ErrNotExist)
      | Some a \<Rightarrow> Inr a)"
  by (cases "clean_parts name = []") (simp_all add: lookup_def clean_empty split_clean)

lemma lookupParent_Inr:
  assumes "lookupParent name m = Inr (a, b)"
  obtains P where "clean_parts name = P @ [b]" "walk_nodes m 0 P = Some a" "nIsDir (mNodes m a)"
proof -
  let ?cs = "clean_parts name"
  have ne: "?cs \<noteq> []" using assms by (auto simp: lookupParent_def clean_empty)
  then have "\<exists>e. lookup (join_str ''/'' (butlast ?cs)) m = Inr a \<and> nIsDir (mNodes m a) \<and> b = last ?cs"
    using assms by (auto simp: lookupParent_def clean_empty split_path_def split_clean Let_def split: sum.splits if_splits)
  then have "walk_nodes m 0 (butlast ?cs) = Some a" "nIsDir (mNodes m a)" "b = last ?cs"
    by (auto simp: lookup_eq clean_parent split: option.splits)
  then show ?thesis using that [of "butlast ?cs"] ne by simp
qed

lemma lookupParent_step:
  assumes "mem_ok m" and "lookupParent name m = Inr (a, b)"
  shows "walk_nodes m 0 (clean_parts name) = child m a b"
  using lookupParent_Inr [OF assms(2)] walk_snoc [OF assms(1)] by (metis option.simps(5))

lemma lookupParent_ok:
  assumes "mem_ok m" and "lookupParent name m = Inr (a, b)"
  shows "a < mNext m" and "nIsDir (mNodes m a)"
  using lookupParent_Inr [OF assms(2)] walk_alloc [OF assms(1)] by metis+

lemma lookupParent_Inl:
  assumes "mem_ok m" and "lookupParent name m = Inl e"
  shows "clean_parts name = [] \<or> walk_nodes m 0 (clean_parts name) = None"
proof (cases "clean_parts name = []")
  case False
  let ?cs = "clean_parts name"
  have cs: "?cs = butlast ?cs @ [last ?cs]" using False by simp
  have "walk_nodes m 0 (butlast ?cs) = None \<or>
      (\<exists>a. walk_nodes m 0 (butlast ?cs) = Some a \<and> \<not> nIsDir (mNodes m a))"
    using assms False by (auto simp: lookupParent_def clean_empty split_path_def split_clean Let_def lookup_eq
      clean_parent split: sum.splits if_splits option.splits)
  then show ?thesis
    by (subst cs) (auto simp: walk_snoc [OF assms(1)] ok_leaf_child [OF assms(1)] simp del: append_butlast_last_id)
qed simp

section \<open>Walks after one edge has changed\<close>

lemma walk_frame:
  assumes "mem_ok m" and "mem_ok m'"
    and "\<And>ps1 p ps2 c. qs = ps1 @ p # ps2 \<Longrightarrow> walk_nodes m a ps1 = Some c \<Longrightarrow> child m' c p = child m c p"
  shows "walk_nodes m' a qs = walk_nodes m a qs"
  using assms(3)
proof (induction qs arbitrary: a)
  case (Cons q qs)
  have "child m' a q = child m a q" using Cons.prems [of "[]"] by simp
  moreover have "walk_nodes m' b qs = walk_nodes m b qs" if "child m a q = Some b" for b
  proof (rule Cons.IH)
    fix ps1 p ps2 c
    assume "qs = ps1 @ p # ps2" "walk_nodes m b ps1 = Some c"
    with Cons.prems [of "q # ps1" p ps2 c] that assms(1) show "child m' c p = child m c p"
      by (simp add: walk_Cons del: walk_nodes.simps)
  qed
  ultimately show ?case
    using assms(1,2) by (simp add: walk_Cons del: walk_nodes.simps split: option.split)
qed simp

lemma walk_edge:
  assumes "mem_ok m" and "mem_ok m'" and "walk_nodes m 0 P = Some a"
    and edge: "\<And>c q. child m' c q = (if c = a \<and> q = p then x else child m c q)"
  shows "walk_nodes m' 0 qs =
    (if prefix (P @ [p]) qs
     then (case x of None \<Rightarrow> None | Some b \<Rightarrow> walk_nodes m' b (drop (Suc (length P)) qs))
     else walk_nodes m 0 qs)"
proof -
  have frame: "walk_nodes m' 0 rs = walk_nodes m 0 rs" if "\<not> prefix (P @ [p]) rs" for rs
  proof (rule walk_frame [OF assms(1,2)])
    fix ps1 q ps2 c
    assume rs: "rs = ps1 @ q # ps2" "walk_nodes m 0 ps1 = Some c"
    have "\<not> (c = a \<and> q = p)"
      using walk_inj [OF assms(1,3)] rs that by (auto simp: prefix_def)
    then show "child m' c q = child m c q" by (auto simp: edge)
  qed
  show ?thesis
  proof (cases "prefix (P @ [p]) qs")
    case True
    then obtain rs where qs: "qs = P @ p # rs" by (auto simp: prefix_def)
    have "walk_nodes m' 0 P = Some a" using frame [of P] assms(3) by (auto dest: prefix_length_le)
    then show ?thesis
      using assms(2) True unfolding qs
      by (simp add: walk_nodes_append walk_Cons edge del: walk_nodes.simps cong: option.case_cong)
  qed (simp add: frame)
qed

lemma lookupParent_cases:
  assumes "mem_ok m"
  obtains (bad) e where "lookupParent name m = Inl e"
      "clean_parts name = [] \<or> view m (butlast (clean_parts name)) \<noteq> Some Dir"
  | (ok) P b a where "lookupParent name m = Inr (a, b)" "clean_parts name = P @ [b]"
      "walk_nodes m 0 P = Some a" "nIsDir (mNodes m a)" "view m P = Some Dir" "a < mNext m"
      "walk_nodes m 0 (P @ [b]) = child m a b"
proof (cases "lookupParent name m")
  case (Inl e)
  have "view m (butlast (clean_parts name)) \<noteq> Some Dir" if "clean_parts name \<noteq> []"
    using Inl that by (auto simp: lookupParent_def clean_empty split_path_def split_clean Let_def
      lookup_eq clean_parent view_def node_entry_def split: option.splits if_splits)
  with Inl bad show ?thesis by blast
next
  case (Inr ab)
  obtain a b where ab: "ab = (a, b)" by fastforce
  from Inr ab obtain P where P: "clean_parts name = P @ [b]" "walk_nodes m 0 P = Some a"
    "nIsDir (mNodes m a)" using lookupParent_Inr by metis
  moreover have "view m P = Some Dir" using P by (simp add: view_def node_entry_def)
  moreover have "a < mNext m" by (rule walk_alloc [OF assms P(2)])
  moreover have "walk_nodes m 0 (P @ [b]) = child m a b" using P(2) by (simp add: walk_snoc [OF assms])
  ultimately show ?thesis using ok Inr ab by blast
qed

lemma view_walk_None: "view m ps = None \<longleftrightarrow> walk_nodes m 0 ps = None"
  by (simp add: view_def)

lemma ReadFile_view:
  "ReadFile name m = Inr d \<longleftrightarrow> view m (clean_parts name) = Some (File d)"
  by (auto simp: ReadFile_def lookup_eq view_def node_entry_def split: option.splits)

lemma view_root: "mem_ok m \<Longrightarrow> view m [] = Some Dir"
  by (simp add: view_def node_entry_def ok_root)

lemma view_prefix_dir:
  assumes "mem_ok m" and "view m (P @ p # Q) \<noteq> None"
  shows "view m P = Some Dir"
  using assms by (auto simp: view_def walk_nodes_append node_entry_def split: option.splits if_splits)

section \<open>The abstract operations\<close>

type_synonym tree = "string list \<Rightarrow> entry option"

definition abs_write :: "string list \<Rightarrow> string \<Rightarrow> tree \<Rightarrow> tree option" where
  "abs_write P d v =
     (if P = [] \<or> v (butlast P) \<noteq> Some Dir \<or> v P = Some Dir then None else Some (v(P \<mapsto> File d)))"

definition abs_mkdir :: "string list \<Rightarrow> tree \<Rightarrow> tree option" where
  "abs_mkdir P v =
     (if \<exists>Q d. prefix Q P \<and> v Q = Some (File d) then None
      else Some (\<lambda>Q. if prefix Q P then Some Dir else v Q))"

definition abs_remove :: "string list \<Rightarrow> tree \<Rightarrow> tree option" where
  "abs_remove P v =
     (if P = [] \<or> v P = None \<or> (\<exists>p. v (P @ [p]) \<noteq> None) then None else Some (v(P := None)))"

definition abs_remove_all :: "string list \<Rightarrow> tree \<Rightarrow> tree option" where
  "abs_remove_all P v = (if P = [] then None else Some (\<lambda>Q. if prefix P Q then None else v Q))"

text \<open>A move below itself makes the moved tree unreachable.\<close>

definition abs_rename :: "string list \<Rightarrow> string list \<Rightarrow> tree \<Rightarrow> tree option" where
  "abs_rename P N v =
     (if P = [] \<or> N = [] \<or> v P = None \<or> v (butlast N) \<noteq> Some Dir then None
      else Some (\<lambda>Q. if strict_prefix P N then (if prefix P Q then None else v Q)
                     else if prefix N Q then v (P @ drop (length N) Q)
                     else if prefix P Q then None else v Q))"

text \<open>The outcome of an operation refines an abstract step: it succeeds exactly when the step is
  allowed, and then changes the view accordingly; a refused operation changes nothing.\<close>

definition op_refines ::
  "('fs \<Rightarrow> bool) \<Rightarrow> ('fs \<Rightarrow> tree) \<Rightarrow> 'fs \<times> string option \<Rightarrow> 'fs \<Rightarrow> (tree \<Rightarrow> tree option) \<Rightarrow> bool" where
  "op_refines ok tree_of out m step \<longleftrightarrow>
     ok (fst out) \<and>
     (case step (tree_of m) of
        None \<Rightarrow> snd out \<noteq> None \<and> fst out = m
      | Some v \<Rightarrow> snd out = None \<and> tree_of (fst out) = v)"

abbreviation refines :: "memfs \<times> string option \<Rightarrow> memfs \<Rightarrow> (tree \<Rightarrow> tree option) \<Rightarrow> bool" where
  "refines \<equiv> op_refines mem_ok view"

section \<open>Writing\<close>

lemma node_set_child [simp]:
  "node_entry (mNodes (set_child a p b m) c) = node_entry (mNodes m c)"
  "node_entry (mNodes (del_child a p m) c) = node_entry (mNodes m c)"
  by (simp_all add: node_entry_def)

lemma walk_leaf: "mem_ok m \<Longrightarrow> nChildren (mNodes m a) = [] \<Longrightarrow> walk_nodes m a ps = (if ps = [] then Some a else None)"
  by (cases ps) (auto simp: walk_Cons child_def simp del: walk_nodes.simps(2))

lemma view_new_child:
  assumes "mem_ok m" and "walk_nodes m 0 P = Some a" and "nIsDir (mNodes m a)" and "child m a p = None"
    and "nChildren n = []" and "nName n = p"
  shows "view (set_child a p (mNext m) (new_node n m)) = (view m)(P @ [p] \<mapsto> node_entry n)"
proof
  let ?m = "set_child a p (mNext m) (new_node n m)"
  have alloc: "a < mNext m" by (rule walk_alloc [OF assms(1,2)])
  have ok: "mem_ok ?m" by (rule ok_new_child) (use assms alloc in auto)
  have fresh: "child m (mNext m) q = None" for q by (rule ok_leaf_child [OF assms(1)]) simp
  have edge: "child ?m c q = (if c = a \<and> q = p then Some (mNext m) else child m c q)" for c q
    using assms(5) fresh by auto
  have leaf: "walk_nodes ?m (mNext m) qs = (if qs = [] then Some (mNext m) else None)" for qs
    using walk_leaf [OF ok] alloc assms(5) by (simp add: set_child_def)
  fix qs
  show "view ?m qs = ((view m)(P @ [p] \<mapsto> node_entry n)) qs"
  proof (cases "prefix (P @ [p]) qs")
    case True
    then obtain rs where qs: "qs = P @ p # rs" by (auto simp: prefix_def)
    have "walk_nodes m 0 (P @ p # rs) = None"
      using assms(1,2,4) by (simp add: walk_nodes_append walk_Cons del: walk_nodes.simps)
    then show ?thesis
      using walk_edge [OF assms(1) ok assms(2) edge, of qs] leaf qs by (auto simp: view_def)
  next
    case False
    then have w: "walk_nodes ?m 0 qs = walk_nodes m 0 qs"
      using walk_edge [OF assms(1) ok assms(2) edge, of qs] by simp
    show ?thesis using False walk_alloc [OF assms(1), of qs] w
      by (cases "walk_nodes m 0 qs") (auto simp: view_def)
  qed
qed

lemma walk_new_child:
  assumes "mem_ok m" and "walk_nodes m 0 P = Some a" and "nIsDir (mNodes m a)" and "child m a p = None"
    and "nChildren n = []" and "nName n = p"
  shows "walk_nodes (set_child a p (mNext m) (new_node n m)) 0 (P @ [p]) = Some (mNext m)"
proof -
  let ?m = "set_child a p (mNext m) (new_node n m)"
  have ok: "mem_ok ?m" by (rule ok_new_child) (use assms walk_alloc in auto)
  have fresh: "child m (mNext m) q = None" for q by (rule ok_leaf_child [OF assms(1)]) simp
  have edge: "child ?m c q = (if c = a \<and> q = p then Some (mNext m) else child m c q)" for c q
    using assms(5) fresh by auto
  show ?thesis using walk_edge [OF assms(1) ok assms(2) edge, of "P @ [p]"] by simp
qed

lemma walk_same_edges:
  "mem_ok m \<Longrightarrow> mem_ok m' \<Longrightarrow> child m' = child m \<Longrightarrow> walk_nodes m' a qs = walk_nodes m a qs"
  by (rule walk_frame) simp_all

lemma view_set_data:
  assumes "mem_ok m" and "walk_nodes m 0 P = Some a"
    and "\<And>n. nName (f n) = nName n" "\<And>n. nIsDir (f n) = nIsDir n" "\<And>n. nChildren (f n) = nChildren n"
  shows "view (set_node a f m) = (view m)(P \<mapsto> node_entry (f (mNodes m a)))"
proof
  fix qs
  have "walk_nodes (set_node a f m) 0 qs = walk_nodes m 0 qs"
    by (rule walk_same_edges [OF assms(1) ok_set_data]) (use assms in auto)
  then show "view (set_node a f m) qs = ((view m)(P \<mapsto> node_entry (f (mNodes m a)))) qs"
    using assms(2) walk_inj [OF assms(1,2), of qs]
    by (cases "walk_nodes m 0 qs") (auto simp: view_def)
qed

lemma WriteFile_refines:
  assumes "mem_ok m"
  shows "refines (WriteFile now name data perm m) m (abs_write (clean_parts name) data)"
  using assms
proof (cases rule: lookupParent_cases [where name = name])
  case (bad e)
  then show ?thesis using assms by (auto simp: op_refines_def WriteFile_def abs_write_def)
next
  case (ok P b a)
  show ?thesis
  proof (cases "child m a b")
    case None
    have "mem_ok (set_child a b (mNext m) (new_node (file_node b data now perm) m))"
      by (rule ok_new_child) (use assms ok in \<open>auto simp: file_node_def\<close>)
    moreover have "view (set_child a b (mNext m) (new_node (file_node b data now perm) m)) =
        (view m)(P @ [b] \<mapsto> File data)"
      using view_new_child [OF assms ok(3,4) None, of "file_node b data now perm"]
      by (simp add: file_node_def node_entry_def)
    moreover have "view m (P @ [b]) = None" using ok(7) None by (simp add: view_def)
    ultimately show ?thesis
      using ok None by (simp add: op_refines_def WriteFile_def abs_write_def)
  next
    case (Some c)
    have w: "walk_nodes m 0 (P @ [b]) = Some c" using ok(7) Some by simp
    show ?thesis
    proof (cases "nIsDir (mNodes m c)")
      case True
      then have "view m (P @ [b]) = Some Dir" using w by (simp add: view_def node_entry_def)
      then show ?thesis using assms ok Some True by (simp add: op_refines_def WriteFile_def abs_write_def)
    next
      case False
      let ?f = "\<lambda>n. n\<lparr>nData := data, nModTime := now, nMode := perm\<rparr>"
      have "mem_ok (set_node c ?f m)" by (rule ok_set_data [OF assms]) simp_all
      moreover have "view (set_node c ?f m) = (view m)(P @ [b] \<mapsto> File data)"
        using view_set_data [OF assms w, of ?f] False by (simp add: node_entry_def)
      moreover have "view m (P @ [b]) \<noteq> Some Dir" using w False by (simp add: view_def node_entry_def)
      ultimately show ?thesis
        using ok Some False by (simp add: op_refines_def WriteFile_def abs_write_def del: fun_upd_apply)
    qed
  qed
qed

section \<open>Creating directories\<close>

definition abs_mkdir_from :: "string list \<Rightarrow> string list \<Rightarrow> tree \<Rightarrow> tree option" where
  "abs_mkdir_from P parts v =
     (if \<exists>Q d. prefix Q parts \<and> v (P @ Q) = Some (File d) then None
      else Some (\<lambda>Q. if prefix P Q \<and> prefix Q (P @ parts) then Some Dir else v Q))"

lemma prefix_Cons_from:
  "prefix P Q \<and> prefix Q (P @ p # ps) \<longleftrightarrow> Q = P \<or> (prefix (P @ [p]) Q \<and> prefix Q (P @ p # ps))"
  by (auto simp: prefix_def append_eq_append_conv2 append_eq_Cons_conv Cons_eq_append_conv)

lemma abs_mkdir_step:
  assumes "v P = Some Dir" and "v' = v(P @ [p] \<mapsto> Dir)" and "v (P @ [p]) = Some Dir \<or> (\<forall>Q. v (P @ p # Q) = None)"
  shows "abs_mkdir_from (P @ [p]) ps v' = abs_mkdir_from P (p # ps) v"
proof -
  have "(\<exists>Q d. prefix Q ps \<and> v' ((P @ [p]) @ Q) = Some (File d)) \<longleftrightarrow>
      (\<exists>Q d. prefix Q (p # ps) \<and> v (P @ Q) = Some (File d))" (is "?l \<longleftrightarrow> ?r")
  proof
    assume ?l
    then obtain Q d where "prefix Q ps" "v' (P @ p # Q) = Some (File d)" by auto
    then have "prefix (p # Q) (p # ps) \<and> v (P @ (p # Q)) = Some (File d)"
      using assms(2) by (auto split: if_splits)
    then show ?r by blast
  next
    assume ?r
    then obtain Q d where Q: "prefix Q (p # ps)" "v (P @ Q) = Some (File d)" by blast
    then obtain R where R: "Q = p # R" "prefix R ps" using assms(1) by (cases Q) auto
    have "R \<noteq> []" using R Q assms(3) by auto
    then have "v' ((P @ [p]) @ R) = Some (File d)" using Q R assms(2) by simp
    then show ?l using R by blast
  qed
  moreover have "(\<lambda>Q. if prefix (P @ [p]) Q \<and> prefix Q ((P @ [p]) @ ps) then Some Dir else v' Q) =
      (\<lambda>Q. if prefix P Q \<and> prefix Q (P @ p # ps) then Some Dir else v Q)"
    using assms(1,2) by (auto simp: fun_eq_iff prefix_Cons_from [of P _ p ps])
  ultimately show ?thesis by (simp add: abs_mkdir_from_def)
qed

lemma refines_same_step:
  "step (view m) = step' (view m') \<Longrightarrow> step (view m) \<noteq> None \<or> m = m' \<Longrightarrow> refines out m step \<Longrightarrow> refines out m' step'"
  by (auto simp: op_refines_def split: option.splits)

lemma mkdir_walk_refines:
  assumes "mem_ok m" and "walk_nodes m 0 P = Some a" and "nIsDir (mNodes m a)"
  shows "refines (mkdir_walk now perm name a parts m) m (abs_mkdir_from P parts)"
  using assms
proof (induction parts arbitrary: a m P)
  case Nil
  then have "view m P = Some Dir" by (simp add: view_def node_entry_def)
  then have "abs_mkdir_from P [] (view m) = Some (view m)"
    by (auto simp: abs_mkdir_from_def fun_eq_iff dest: prefix_order.antisym)
  with Nil show ?case by (simp add: op_refines_def)
next
  case (Cons p ps)
  have dir: "view m P = Some Dir" using Cons.prems by (simp add: view_def node_entry_def)
  have w: "walk_nodes m 0 (P @ [p]) = child m a p" using Cons.prems by (simp add: walk_snoc)
  show ?case
  proof (cases "child m a p")
    case None
    let ?m = "set_child a p (mNext m) (new_node (dir_node p now perm) m)"
    have alloc: "a < mNext m" by (rule walk_alloc [OF Cons.prems(1,2)])
    have ok: "mem_ok ?m" by (rule ok_new_child) (use Cons.prems alloc in \<open>auto simp: dir_node_def\<close>)
    have v: "view ?m = (view m)(P @ [p] \<mapsto> Dir)"
      using view_new_child [OF Cons.prems None, of "dir_node p now perm"]
      by (simp add: dir_node_def node_entry_def)
    have "walk_nodes ?m 0 (P @ [p]) = Some (mNext m)"
      by (rule walk_new_child [OF Cons.prems None]) (simp_all add: dir_node_def)
    then have "refines (mkdir_walk now perm name (mNext m) ps ?m) ?m (abs_mkdir_from (P @ [p]) ps)"
      using Cons.IH [OF ok] by (simp add: dir_node_def)
    moreover have none: "view m (P @ p # Q) = None" for Q
      using Cons.prems(1,2) None by (simp add: view_def walk_nodes_append walk_Cons del: walk_nodes.simps)
    have "abs_mkdir_from P (p # ps) (view m) \<noteq> None"
      using none dir by (auto simp: abs_mkdir_from_def prefix_Cons)
    moreover have "abs_mkdir_from (P @ [p]) ps (view ?m) = abs_mkdir_from P (p # ps) (view m)"
      by (rule abs_mkdir_step [of "view m" P]) (use none dir v in simp_all)
    ultimately show ?thesis
      using None by (auto intro: refines_same_step)
  next
    case (Some c)
    show ?thesis
    proof (cases "nIsDir (mNodes m c)")
      case True
      have d: "view m (P @ [p]) = Some Dir" using w Some True by (simp add: view_def node_entry_def)
      have "refines (mkdir_walk now perm name c ps m) m (abs_mkdir_from (P @ [p]) ps)"
        using Cons.IH [OF Cons.prems(1) _ True, of "P @ [p]"] w Some by simp
      moreover have "abs_mkdir_from (P @ [p]) ps (view m) = abs_mkdir_from P (p # ps) (view m)"
        by (rule abs_mkdir_step [of "view m" P]) (use d dir in auto)
      ultimately show ?thesis using Some True by (auto intro: refines_same_step)
    next
      case False
      then have "view m (P @ [p]) = Some (File (nData (mNodes m c)))"
        using w Some by (simp add: view_def node_entry_def)
      then have "abs_mkdir_from P (p # ps) (view m) = None"
        by (auto simp: abs_mkdir_from_def intro!: exI [of _ "[p]"])
      then show ?thesis using Some False Cons.prems by (simp add: op_refines_def)
    qed
  qed
qed

lemma MkdirAll_refines:
  assumes "mem_ok m"
  shows "refines (MkdirAll now name perm m) m (abs_mkdir (clean_parts name))"
proof -
  have abs: "abs_mkdir_from [] ps = abs_mkdir ps" for ps
    by (simp add: abs_mkdir_from_def abs_mkdir_def fun_eq_iff)
  have "refines (mkdir_walk now perm (clean name) 0 (clean_parts name) m) m (abs_mkdir (clean_parts name))"
    using mkdir_walk_refines [OF assms, of "[]" 0] ok_root [OF assms] by (simp add: abs)
  then show ?thesis
    by (cases "clean_parts name = []") (simp_all add: MkdirAll_def clean_empty split_clean)
qed

section \<open>Removing\<close>

lemma view_del_child:
  assumes "mem_ok m" and "walk_nodes m 0 P = Some a"
  shows "view (del_child a p m) = (\<lambda>Q. if prefix (P @ [p]) Q then None else view m Q)"
proof
  fix Q
  have edge: "child (del_child a p m) c q = (if c = a \<and> q = p then None else child m c q)" for c q by simp
  show "view (del_child a p m) Q = (if prefix (P @ [p]) Q then None else view m Q)"
    using walk_edge [OF assms(1) ok_del [OF assms(1)] assms(2) edge, of Q] by (simp add: view_def)
qed

lemma empty_node:
  assumes "mem_ok m" and "walk_nodes m 0 P = Some a"
  shows "nChildren (mNodes m a) = [] \<longleftrightarrow> (\<forall>p. view m (P @ [p]) = None)"
proof -
  have "view m (P @ [p]) = None \<longleftrightarrow> child m a p = None" for p
    using assms by (simp add: view_def walk_snoc)
  moreover have "(\<forall>p. child m a p = None) \<longleftrightarrow> nChildren (mNodes m a) = []"
    by (auto simp: child_def fun_eq_iff simp flip: map_of_eq_empty_iff)
  ultimately show ?thesis by simp
qed

lemma view_below_None:
  assumes "mem_ok m" and "\<forall>p. view m (P @ [p]) = None"
  shows "strict_prefix P Q \<Longrightarrow> view m Q = None"
proof -
  assume "strict_prefix P Q"
  then obtain q rs where Q: "Q = (P @ [q]) @ rs" by (auto elim: strict_prefixE')
  have "walk_nodes m 0 (P @ [q]) = None" using assms(2) by (simp add: view_walk_None)
  then show "view m Q = None" 
    unfolding Q view_walk_None walk_nodes_append [of m 0 "P @ [q]" rs] by simp
qed

lemma Remove_refines:
  assumes "mem_ok m"
  shows "refines (Remove name m) m (abs_remove (clean_parts name))"
proof (cases "clean_parts name = []")
  case True
  then show ?thesis using assms by (simp add: op_refines_def Remove_def abs_remove_def clean_empty)
next
  case False
  show ?thesis
    using assms
  proof (cases rule: lookupParent_cases [where name = "clean name"])
    case (bad e)
    then have "view m (clean_parts name) = None"
      using False view_prefix_dir [OF assms, of "butlast (clean_parts name)" "last (clean_parts name)" "[]"]
      by fastforce
    then show ?thesis using bad assms False by (simp add: op_refines_def Remove_def abs_remove_def clean_empty)
  next
    case (ok P b a)
    have cs: "clean_parts name = P @ [b]" using ok(2) by simp
    show ?thesis
    proof (cases "child m a b")
      case None
      then have "view m (P @ [b]) = None" using ok(7) by (simp add: view_def)
      then show ?thesis using ok(1) None assms cs by (simp add: op_refines_def Remove_def abs_remove_def clean_empty)
    next
      case (Some c)
      have w: "walk_nodes m 0 (P @ [b]) = Some c" using ok(7) Some by simp
      have no_dir: "\<not> nIsDir (mNodes m c) \<longrightarrow> nChildren (mNodes m c) = []"
        using ok_leaf [OF assms, of c] by simp
      have leaf: "nIsDir (mNodes m c) \<and> nChildren (mNodes m c) \<noteq> [] \<longleftrightarrow> (\<exists>q. view m ((P @ [b]) @ [q]) \<noteq> None)"
        using empty_node [OF assms w] no_dir
        by (cases "nChildren (mNodes m c) = []") (simp_all del: append_assoc)
      show ?thesis
      proof (cases "\<exists>q. view m ((P @ [b]) @ [q]) \<noteq> None")
        case True
        then show ?thesis using ok(1) Some leaf assms cs by (simp add: op_refines_def Remove_def abs_remove_def clean_empty)
      next
        case empty: False
        have "view (del_child a b m) = (view m)(P @ [b] := None)"
          using empty view_below_None [OF assms, of "P @ [b]"]
          by (auto simp: view_del_child [OF assms ok(3)] fun_eq_iff strict_prefix_def)
        then show ?thesis
          using ok(1) Some leaf assms cs empty w
          by (simp add: op_refines_def Remove_def abs_remove_def clean_empty ok_del view_walk_None)
      qed
    qed
  qed
qed

lemma RemoveAll_refines:
  assumes "mem_ok m"
  shows "refines (RemoveAll name m) m (abs_remove_all (clean_parts name))"
proof (cases "clean_parts name = []")
  case True
  then show ?thesis using assms by (simp add: op_refines_def RemoveAll_def abs_remove_all_def clean_empty)
next
  case False
  have same: "(\<lambda>Q. if prefix (clean_parts name) Q then None else view m Q) = view m"
    if "walk_nodes m 0 (clean_parts name) = None"
    using that by (auto simp: fun_eq_iff prefix_def view_def walk_nodes_append)
  show ?thesis
    using assms
  proof (cases rule: lookupParent_cases [where name = "clean name"])
    case (bad e)
    then have "walk_nodes m 0 (clean_parts name) = None"
      using False lookupParent_Inl [OF assms bad(1)] by simp
    then show ?thesis using same bad assms False by (simp add: op_refines_def RemoveAll_def abs_remove_all_def clean_empty)
  next
    case (ok P b a)
    have cs: "clean_parts name = P @ [b]" using ok(2) by simp
    show ?thesis
    proof (cases "child m a b")
      case None
      then show ?thesis using ok(1,7) same assms cs
        by (simp add: op_refines_def RemoveAll_def abs_remove_all_def clean_empty)
    next
      case (Some c)
      then show ?thesis using ok(1) assms cs
        by (simp add: op_refines_def RemoveAll_def abs_remove_all_def clean_empty ok_del view_del_child [OF assms ok(3)])
    qed
  qed
qed

section \<open>Renaming\<close>

lemma ok_set_name:
  assumes "mem_ok m" and "\<And>c p. child m c p \<noteq> Some b"
  shows "mem_ok (set_node b (\<lambda>n. n\<lparr>nName := q\<rparr>) m)"
proof -
  have "child (set_node b (\<lambda>n. n\<lparr>nName := q\<rparr>) m) = child m" by simp
  then show ?thesis using assms unfolding mem_ok_def by (auto split: if_splits)
qed

lemma drop_prefix: "prefix (P @ [p]) Q \<Longrightarrow> drop (Suc (length P)) Q = drop (length (P @ [p])) Q"
  by simp

text \<open>The three assignments of a move: the node at \<open>P @ [b]\<close> leaves \<open>a\<close> and joins \<open>a'\<close>.\<close>

definition move_node :: "nat \<Rightarrow> string \<Rightarrow> nat \<Rightarrow> nat \<Rightarrow> string \<Rightarrow> memfs \<Rightarrow> memfs" where
  "move_node a b node a' b' m =
     set_child a' b' node (set_node node (\<lambda>n. n\<lparr>nName := b'\<rparr>) (del_child a b m))"

definition movable :: "memfs \<Rightarrow> string list \<Rightarrow> nat \<Rightarrow> string \<Rightarrow> nat \<Rightarrow> string list \<Rightarrow> nat \<Rightarrow> bool" where
  "movable m P a b node P' a' \<longleftrightarrow> mem_ok m \<and> walk_nodes m 0 P = Some a \<and> child m a b = Some node \<and>
     walk_nodes m 0 P' = Some a' \<and> nIsDir (mNodes m a')"

lemma movableD:
  assumes "movable m P a b node P' a'"
  shows mv_ok: "mem_ok m" and mv_old: "walk_nodes m 0 P = Some a" and mv_node: "child m a b = Some node"
    and mv_new: "walk_nodes m 0 P' = Some a'" and mv_dir: "nIsDir (mNodes m a')"
  using assms by (simp_all add: movable_def)

lemma node_detached:
  assumes mv: "movable m P a b node P' a'"
  shows "child (del_child a b m) c p \<noteq> Some node"
  using mv_node [OF mv] ok_parent [OF mv_ok [OF mv], of a b node c p] by auto

lemma ok_detached:
  assumes mv: "movable m P a b node P' a'"
  shows "mem_ok (set_node node (\<lambda>n. n\<lparr>nName := b'\<rparr>) (del_child a b m))"
  using ok_del [OF mv_ok [OF mv]] node_detached [OF mv] by (rule ok_set_name)

lemma ok_moved:
  assumes mv: "movable m P a b node P' a'"
  shows "mem_ok (move_node a b node a' b' m)"
  unfolding move_node_def
proof (rule ok_set_child [OF ok_detached [OF mv]])
  show "child (set_node node (\<lambda>n. n\<lparr>nName := b'\<rparr>) (del_child a b m)) c p \<noteq> Some node" for c p
    using node_detached [OF mv, of c p] by (simp del: child_del_child)
qed (use walk_alloc [OF mv_ok [OF mv] mv_new [OF mv]] mv_dir [OF mv] ok_alloc [OF mv_ok [OF mv] mv_node [OF mv]] in auto)

lemma child_moved:
  "child (move_node a b node a' b' m) c p =
     (if c = a' \<and> p = b' then Some node else if c = a \<and> p = b then None else child m c p)"
  by (simp add: move_node_def)

lemma entry_moved:
  "node_entry (mNodes (move_node a b node a' b' m) c) = node_entry (mNodes m c)"
  by (simp add: move_node_def node_entry_def)

lemma walk_old:
  assumes mv: "movable m P a b node P' a'"
  shows "walk_nodes m 0 (P @ b # R) = walk_nodes m node R"
  using mv_old [OF mv] mv_node [OF mv] mv_ok [OF mv] by (simp add: walk_nodes_append walk_Cons del: walk_nodes.simps)

lemma walk_detached:
  assumes mv: "movable m P a b node P' a'"
  shows "walk_nodes (set_node node (\<lambda>n. n\<lparr>nName := b'\<rparr>) (del_child a b m)) 0 Q =
     (if prefix (P @ [b]) Q then None else walk_nodes m 0 Q)"
proof -
  have edge: "child (set_node node (\<lambda>n. n\<lparr>nName := b'\<rparr>) (del_child a b m)) c q =
      (if c = a \<and> q = b then None else child m c q)" for c q by simp
  show ?thesis using walk_edge [OF mv_ok [OF mv] ok_detached [OF mv] mv_old [OF mv] edge, of Q] by simp
qed

lemma walk_moved_subtree:
  assumes mv: "movable m P a b node P' a'" and sub: "\<not> prefix (P @ [b]) P'"
  shows "walk_nodes (move_node a b node a' b' m) node R = walk_nodes m node R"
proof (rule walk_frame [OF mv_ok [OF mv] ok_moved [OF mv]])
  fix ps1 p ps2 c
  assume "walk_nodes m node ps1 = Some c"
  then have c: "walk_nodes m 0 (P @ b # ps1) = Some c" by (simp add: walk_old [OF mv])
  have "c \<noteq> a" using walk_inj [OF mv_ok [OF mv] mv_old [OF mv], of "P @ b # ps1"] c by auto
  moreover have "c \<noteq> a'" using walk_inj [OF mv_ok [OF mv] mv_new [OF mv], of "P @ b # ps1"] c sub by auto
  ultimately show "child (move_node a b node a' b' m) c p = child m c p" by (simp add: child_moved)
qed

lemma view_moved:
  assumes mv: "movable m P a b node P' a'"
  shows "view (move_node a b node a' b' m) Q =
     (if strict_prefix (P @ [b]) (P' @ [b']) then (if prefix (P @ [b]) Q then None else view m Q)
      else if prefix (P' @ [b']) Q then view m ((P @ [b]) @ drop (length (P' @ [b'])) Q)
      else if prefix (P @ [b]) Q then None else view m Q)"
proof -
  let ?m = "set_node node (\<lambda>n. n\<lparr>nName := b'\<rparr>) (del_child a b m)"
  have sp: "strict_prefix (P @ [b]) (P' @ [b']) \<longleftrightarrow> prefix (P @ [b]) P'"
    by (auto simp: strict_prefix_def prefix_snoc dest: prefix_length_le)
  have edge: "child (move_node a b node a' b' m) c q = (if c = a' \<and> q = b' then Some node else child ?m c q)" for c q
    by (simp add: child_moved)
  show ?thesis
  proof (cases "prefix (P @ [b]) P'")
    case True
    have "walk_nodes (move_node a b node a' b' m) 0 Q = walk_nodes ?m 0 Q"
    proof (rule walk_frame [OF ok_detached [OF mv] ok_moved [OF mv]])
      fix ps1 p ps2 c
      assume "walk_nodes ?m 0 ps1 = Some c"
      then have "\<not> prefix (P @ [b]) ps1" "walk_nodes m 0 ps1 = Some c"
        by (simp_all add: walk_detached [OF mv] split: if_splits)
      then have "c \<noteq> a'" using walk_inj [OF mv_ok [OF mv] mv_new [OF mv], of ps1] True by auto
      then show "child (move_node a b node a' b' m) c p = child ?m c p" by (simp add: edge)
    qed
    then show ?thesis using True by (simp add: view_def walk_detached [OF mv] entry_moved sp)
  next
    case False
    have "walk_nodes ?m 0 P' = Some a'" using False mv_new [OF mv] by (simp add: walk_detached [OF mv])
    from walk_edge [OF ok_detached [OF mv] ok_moved [OF mv] this edge, of Q] False
    show ?thesis
      by (simp add: view_def walk_detached [OF mv] entry_moved sp walk_moved_subtree [OF mv] walk_old [OF mv])
  qed
qed

lemma Rename_refines:
  assumes "mem_ok m"
  shows "refines (Rename oldpath newpath m) m (abs_rename (clean_parts oldpath) (clean_parts newpath))"
  using assms
proof (cases rule: lookupParent_cases [where name = oldpath])
  case (bad e)
  then have "clean_parts oldpath = [] \<or> view m (clean_parts oldpath) = None"
    using lookupParent_Inl [OF assms bad(1)] by (simp add: view_walk_None)
  then show ?thesis using bad assms by (auto simp: op_refines_def Rename_def abs_rename_def)
next
  case (ok P b a)
  show ?thesis
  proof (cases "child m a b")
    case None
    then have "view m (P @ [b]) = None" using ok by (simp add: view_walk_None)
    then show ?thesis using ok None assms by (simp add: op_refines_def Rename_def abs_rename_def)
  next
    case (Some node)
    have v: "view m (P @ [b]) \<noteq> None" using ok Some by (simp add: view_walk_None)
    show ?thesis
      using assms
    proof (cases rule: lookupParent_cases [where name = newpath])
      case (bad e)
      then show ?thesis using ok Some assms by (auto simp: op_refines_def Rename_def abs_rename_def)
    next
      case new: (ok P' b' a')
      have out: "Rename oldpath newpath m = (move_node a b node a' b' m, None)"
        using ok(1) Some new(1) by (simp add: Rename_def move_node_def)
      have mv: "movable m P a b node P' a'" using assms ok(3) Some new(3,4) by (simp add: movable_def)
      show ?thesis
        unfolding op_refines_def out
        using ok_moved [OF mv, of b'] view_moved [OF mv, of b'] v ok new
        by (simp add: abs_rename_def fun_eq_iff)
    qed
  qed
qed

section \<open>Appending through a handle\<close>

definition file_data :: "entry option \<Rightarrow> string" where
  "file_data e = (case e of Some (File d) \<Rightarrow> d | _ \<Rightarrow> '''')"

lemma append_handle:
  assumes "mem_ok m" and "walk_nodes m 0 P = Some a" and "\<not> nIsDir (mNodes m a)"
    and "mwNode h = a" and "mwBuf h = ''''" and "O_APPEND \<in> set (mwFlag h)" and "\<not> mwClosed h"
  shows "mem_ok (fst (writable_Close now (fst (writable_Write d h)) m)) \<and>
    view (fst (writable_Close now (fst (writable_Write d h)) m)) = (view m)(P \<mapsto> File (file_data (view m P) @ d))"
proof -
  let ?f = "\<lambda>n. n\<lparr>nData := nData n @ d, nModTime := now\<rparr>"
  have "fst (writable_Close now (fst (writable_Write d h)) m) = set_node a ?f m"
    using assms(4-7) by (simp add: writable_Close_def writable_Write_def writable_Sync_def)
  moreover have "mem_ok (set_node a ?f m)" by (rule ok_set_data [OF assms(1)]) simp_all
  moreover have "view (set_node a ?f m) = (view m)(P \<mapsto> File (file_data (view m P) @ d))"
    using view_set_data [OF assms(1,2), of ?f] assms(2,3)
    by (simp add: node_entry_def file_data_def view_def)
  ultimately show ?thesis by simp
qed

lemma OpenFile_append:
  assumes "mem_ok m" and "OpenFile now name flag perm m = (m1, Inr h)"
    and "O_APPEND \<in> set flag" and "O_TRUNC \<notin> set flag"
  shows "mem_ok (fst (writable_Close now' (fst (writable_Write d h)) m1)) \<and>
    view (fst (writable_Close now' (fst (writable_Write d h)) m1)) =
      (view m)(clean_parts name \<mapsto> File (file_data (view m (clean_parts name)) @ d))"
  using assms(1)
proof (cases rule: lookupParent_cases [where name = name])
  case (bad e)
  then show ?thesis using assms(2) by (simp add: OpenFile_def)
next
  case (ok P b a)
  show ?thesis
  proof (cases "child m a b")
    case None
    let ?m = "set_child a b (mNext m) (new_node (file_node b '''' now perm) m)"
    have o: "m1 = ?m" "mwNode h = mNext m" "mwBuf h = ''''" "mwFlag h = flag" "\<not> mwClosed h"
      using assms(2-4) ok(1) None by (auto simp: OpenFile_def open_node_def file_node_def split: if_splits)
    have okm: "mem_ok ?m" by (rule ok_new_child) (use assms(1) ok in \<open>auto simp: file_node_def\<close>)
    have w: "walk_nodes ?m 0 (P @ [b]) = Some (mNext m)"
      by (rule walk_new_child [OF assms(1) ok(3,4) None]) (simp_all add: file_node_def)
    have v: "view ?m = (view m)(P @ [b] \<mapsto> File '''')"
      using view_new_child [OF assms(1) ok(3,4) None, of "file_node b '''' now perm"]
      by (simp add: file_node_def node_entry_def)
    have "view m (P @ [b]) = None" using ok(7) None by (simp add: view_def)
    moreover have "\<not> nIsDir (mNodes ?m (mNext m))" by (simp add: file_node_def)
    ultimately show ?thesis
      using append_handle [OF okm w _ o(2,3), of now' d] o assms(3) v ok(2)
      by (simp add: file_data_def del: fun_upd_apply) (simp add: file_data_def)
  next
    case (Some c)
    have w: "walk_nodes m 0 (P @ [b]) = Some c" using ok(7) Some by simp
    have o: "m1 = m" "\<not> nIsDir (mNodes m c)" "mwNode h = c" "mwBuf h = ''''" "mwFlag h = flag" "\<not> mwClosed h"
      using assms(2-4) ok(1) Some by (auto simp: OpenFile_def open_node_def split: if_splits)
    then show ?thesis using append_handle [OF assms(1) w o(2-4), of now' d] assms(3) ok(2) by simp
  qed
qed

section \<open>Opening and closing\<close>

text \<open>Opening a path creates a missing file if that is asked for, and empties an existing one if that is.\<close>

definition abs_open :: "string list \<Rightarrow> open_flag list \<Rightarrow> tree \<Rightarrow> tree option" where
  "abs_open P flag v =
     (if P = [] \<or> v (butlast P) \<noteq> Some Dir then None
      else (case v P of
              None \<Rightarrow> if O_CREATE \<in> set flag then Some (v(P \<mapsto> File '''')) else None
            | Some Dir \<Rightarrow> None
            | Some (File d) \<Rightarrow> Some (v(P \<mapsto> File (if O_TRUNC \<in> set flag then '''' else d)))))"

text \<open>Closing an open handle stores its buffer in the file at the handle's path.\<close>

definition abs_close :: "string list \<Rightarrow> mem_writable \<Rightarrow> tree \<Rightarrow> tree option" where
  "abs_close P h v =
     Some (if mwClosed h then v else v(P \<mapsto> File ((if O_APPEND \<in> set (mwFlag h) then file_data (v P) else '''') @ mwBuf h)))"

definition opened :: "memfs \<times> mem_writable go_result \<Rightarrow> memfs \<times> string option" where
  "opened out = (fst out, case snd out of Inl e \<Rightarrow> Some e | Inr _ \<Rightarrow> None)"

lemma open_file_node:
  assumes "mem_ok m" and "walk_nodes m 0 P = Some a" and "\<not> nIsDir (mNodes m a)"
  shows "\<exists>m' h. open_node name flag a m = (m', Inr h) \<and> mem_ok m' \<and>
    view m' = (view m)(P \<mapsto> File (if O_TRUNC \<in> set flag then '''' else nData (mNodes m a)))"
proof -
  let ?m = "set_node a (\<lambda>n. n\<lparr>nData := ''''\<rparr>) m"
  have v: "view m P = Some (File (nData (mNodes m a)))" using assms(2,3) by (simp add: view_def node_entry_def)
  have "mem_ok ?m" by (rule ok_set_data [OF assms(1)]) simp_all
  moreover have "view ?m = (view m)(P \<mapsto> File '''')"
    using view_set_data [OF assms(1,2), of "\<lambda>n. n\<lparr>nData := ''''\<rparr>"] assms(3) by (simp add: node_entry_def)
  moreover have "view m = (view m)(P \<mapsto> File (nData (mNodes m a)))" using v by (simp add: fun_upd_idem)
  ultimately show ?thesis using assms(1,3) by (cases "O_TRUNC \<in> set flag") (simp_all add: open_node_def)
qed

lemma OpenFile_refines:
  assumes "mem_ok m"
  shows "refines (opened (OpenFile now name flag perm m)) m (abs_open (clean_parts name) flag)"
  using assms
proof (cases rule: lookupParent_cases [where name = name])
  case (bad e)
  then show ?thesis using assms by (auto simp: op_refines_def opened_def OpenFile_def abs_open_def)
next
  case (ok P b a)
  show ?thesis
  proof (cases "child m a b")
    case None
    let ?n = "file_node b '''' now perm"
    let ?m = "set_child a b (mNext m) (new_node ?n m)"
    have gone: "view m (P @ [b]) = None" using ok(7) None by (simp add: view_def)
    have okm: "mem_ok ?m" by (rule ok_new_child) (use assms ok in \<open>auto simp: file_node_def\<close>)
    have w: "walk_nodes ?m 0 (P @ [b]) = Some (mNext m)"
      by (rule walk_new_child [OF assms ok(3,4) None]) (simp_all add: file_node_def)
    have v: "view ?m = (view m)(P @ [b] \<mapsto> File '''')"
      using view_new_child [OF assms ok(3,4) None, of ?n] by (simp add: file_node_def node_entry_def)
    have f: "\<not> nIsDir (mNodes ?m (mNext m))" "nData (mNodes ?m (mNext m)) = ''''" by (simp_all add: file_node_def)
    from open_file_node [OF okm w f(1), of name flag] obtain m' h where
      "open_node name flag (mNext m) ?m = (m', Inr h)" "mem_ok m'" "view m' = (view m)(P @ [b] \<mapsto> File '''')"
      unfolding f(2) v by auto
    then show ?thesis using ok gone None assms by (simp add: op_refines_def opened_def OpenFile_def abs_open_def del: fun_upd_apply)
  next
    case (Some c)
    have w: "walk_nodes m 0 (P @ [b]) = Some c" using ok(7) Some by simp
    show ?thesis
    proof (cases "nIsDir (mNodes m c)")
      case True
      then have "view m (P @ [b]) = Some Dir" using w by (simp add: view_def node_entry_def)
      then show ?thesis using assms ok Some True by (simp add: op_refines_def opened_def OpenFile_def open_node_def abs_open_def)
    next
      case False
      then have v: "view m (P @ [b]) = Some (File (nData (mNodes m c)))" using w by (simp add: view_def node_entry_def)
      from open_file_node [OF assms w False, of name flag] obtain m' h where
        "open_node name flag c m = (m', Inr h)" "mem_ok m'"
        "view m' = (view m)(P @ [b] \<mapsto> File (if O_TRUNC \<in> set flag then '''' else nData (mNodes m c)))" by blast
      then show ?thesis using ok v Some by (simp add: op_refines_def opened_def OpenFile_def abs_open_def del: fun_upd_apply)
    qed
  qed
qed

text \<open>A handle whose file was removed in the meantime changes nothing that a path reaches.\<close>

lemma Close_refines:
  assumes "mem_ok m" and "\<not> nIsDir (mNodes m (mwNode h))"
  shows "walk_nodes m 0 P = Some (mwNode h) \<Longrightarrow> refines (fst (writable_Close now h m), None) m (abs_close P h)"
    and "\<forall>P. walk_nodes m 0 P \<noteq> Some (mwNode h) \<Longrightarrow> refines (fst (writable_Close now h m), None) m Some"
proof -
  let ?f = "\<lambda>n. n\<lparr>nData := (if O_APPEND \<in> set (mwFlag h) then nData n @ mwBuf h else mwBuf h), nModTime := now\<rparr>"
  have c: "fst (writable_Close now h m) = (if mwClosed h then m else set_node (mwNode h) ?f m)"
    by (simp add: writable_Close_def writable_Sync_def)
  have okm: "mem_ok (set_node (mwNode h) ?f m)" by (rule ok_set_data [OF assms(1)]) simp_all
  { assume w: "walk_nodes m 0 P = Some (mwNode h)"
    have "view (set_node (mwNode h) ?f m) = (view m)(P \<mapsto> File ((if O_APPEND \<in> set (mwFlag h) then file_data (view m P) else '''') @ mwBuf h))"
      using view_set_data [OF assms(1) w, of ?f] w assms(2) by (simp add: node_entry_def file_data_def view_def)
    then show "refines (fst (writable_Close now h m), None) m (abs_close P h)"
      using assms(1) okm by (simp add: op_refines_def abs_close_def c del: fun_upd_apply) }
  { assume u: "\<forall>P. walk_nodes m 0 P \<noteq> Some (mwNode h)"
    have "walk_nodes (set_node (mwNode h) ?f m) 0 qs = walk_nodes m 0 qs" for qs
      by (rule walk_same_edges [OF assms(1) okm]) simp
    then have "view (set_node (mwNode h) ?f m) = view m"
      using u by (intro ext) (auto simp: view_def intro!: option.map_cong0 elim!: option.set_cases)
    then show "refines (fst (writable_Close now h m), None) m Some"
      using assms(1) okm by (simp add: op_refines_def c) }
qed

end
