(* ===== verification/FileTools.thy ===== *)
theory FileTools
  imports MemTree
begin

text \<open>
  The interface \<open>vfs.FS\<close> as the file tools call it, its contract as a locale, the tools \<open>write\<close>
  and \<open>read\<close> of \<open>internal/tools\<close>, and the contract's interpretation on the in-memory file system.
\<close>

section \<open>The interface\<close>

record ('fs, 'h) fs_ops =
  opStat :: "string \<Rightarrow> 'fs \<Rightarrow> file_info go_result"
  opReadDir :: "string \<Rightarrow> 'fs \<Rightarrow> file_info list go_result"
  opReadFile :: "string \<Rightarrow> 'fs \<Rightarrow> string go_result"
  opWriteFile :: "string \<Rightarrow> string \<Rightarrow> file_mode \<Rightarrow> 'fs \<Rightarrow> 'fs \<times> string option"
  opMkdirAll :: "string \<Rightarrow> file_mode \<Rightarrow> 'fs \<Rightarrow> 'fs \<times> string option"
  opRemove :: "string \<Rightarrow> 'fs \<Rightarrow> 'fs \<times> string option"
  opRename :: "string \<Rightarrow> string \<Rightarrow> 'fs \<Rightarrow> 'fs \<times> string option"
  opOpenFile :: "string \<Rightarrow> open_flag list \<Rightarrow> file_mode \<Rightarrow> 'fs \<Rightarrow> 'fs \<times> 'h go_result"
  opWrite :: "string \<Rightarrow> 'h \<Rightarrow> 'h \<times> nat go_result"
  opClose :: "'h \<Rightarrow> 'fs \<Rightarrow> 'fs \<times> 'h"

definition MemFS_ops :: "time \<Rightarrow> (memfs, mem_writable) fs_ops" where
  "MemFS_ops now = \<lparr>opStat = Stat, opReadDir = ReadDir, opReadFile = ReadFile,
     opWriteFile = WriteFile now, opMkdirAll = MkdirAll now, opRemove = Remove, opRename = Rename,
     opOpenFile = OpenFile now, opWrite = writable_Write, opClose = writable_Close now\<rparr>"

section \<open>The write tool\<close>

record write_args =
  waPath :: string
  waContent :: string
  waAppend :: bool

record write_result =
  wrPath :: string
  wrBytes :: nat
  wrMessage :: string

definition appendFlags :: "open_flag list" where
  "appendFlags = [O_APPEND, O_CREATE, O_WRONLY]"

definition write_failed :: "write_args \<Rightarrow> string \<Rightarrow> string \<Rightarrow> write_result \<times> string option" where
  "write_failed args msg err = (\<lparr>wrPath = waPath args, wrBytes = 0, wrMessage = ''Error: '' @ msg\<rparr>, Some err)"

definition write_done :: "write_args \<Rightarrow> nat \<Rightarrow> string \<Rightarrow> write_result \<times> string option" where
  "write_done args n verb =
     (\<lparr>wrPath = waPath args, wrBytes = n,
       wrMessage = verb @ itoa (int n) @ '' bytes to '' @ waPath args\<rparr>, None)"

text \<open>An error wrapped with \<open>%w\<close>: the message and the error have the same text.\<close>

definition write_error :: "write_args \<Rightarrow> string \<Rightarrow> string \<Rightarrow> write_result \<times> string option" where
  "write_error args what e = write_failed args (what @ '': '' @ e) (what @ '': '' @ e)"

lemma write_failed_not_done [simp]: "write_failed args msg e \<noteq> (res, None)"
  by (simp add: write_failed_def)

lemma write_error_not_done [simp]: "write_error args msg e \<noteq> (res, None)"
  by (simp add: write_error_def)

lemma write_done_bytes: "write_done args n verb = (res, e) \<Longrightarrow> wrBytes res = n \<and> e = None"
  by (auto simp: write_done_def)

definition append_content ::
  "('fs, 'h) fs_ops \<Rightarrow> write_args \<Rightarrow> 'fs \<Rightarrow> 'fs \<times> write_result \<times> string option" where
  "append_content ops args m =
     (case opOpenFile ops (waPath args) appendFlags 0x1A4 m of
        (m1, Inl e) \<Rightarrow> (m1, write_error args ''failed to open file for append'' e)
      | (m1, Inr h) \<Rightarrow>
          (case opWrite ops (waContent args) h of
             (h1, Inl e) \<Rightarrow> (fst (opClose ops h1 m1), write_error args ''failed to append to file'' e)
           | (h1, Inr n) \<Rightarrow> (fst (opClose ops h1 m1), write_done args n ''Appended '')))"

definition replace_content ::
  "('fs, 'h) fs_ops \<Rightarrow> write_args \<Rightarrow> 'fs \<Rightarrow> 'fs \<times> write_result \<times> string option" where
  "replace_content ops args m =
     (let tmpFile = waPath args @ ''.tmp''
      in case opWriteFile ops tmpFile (waContent args) 0x1A4 m of
           (m1, Some e) \<Rightarrow> (m1, write_error args ''failed to write temp file'' e)
         | (m1, None) \<Rightarrow>
             (case opRename ops tmpFile (waPath args) m1 of
                (m2, Some e) \<Rightarrow>
                  (fst (opRemove ops tmpFile m2), write_error args ''failed to rename temp file'' e)
              | (m2, None) \<Rightarrow> (m2, write_done args (length (waContent args)) ''Wrote '')))"

definition executeWrite ::
  "('fs, 'h) fs_ops \<Rightarrow> write_args \<Rightarrow> 'fs \<Rightarrow> 'fs \<times> write_result \<times> string option" where
  "executeWrite ops args m =
     (if waPath args = '''' then (m, write_failed args ''path is required'' ''path is required'')
      else if \<not> waAppend args \<and> waContent args = '''' then
        (m, write_failed args (''content is empty '' @ em_dash @
          '' nothing to write. If the response was truncated, try a shorter output.'') ''content is empty'')
      else (let dir = filepath_Dir (waPath args);
                (m1, err) = (if dir \<noteq> ''.'' then opMkdirAll ops dir 0x1ED m else (m, None))
            in case err of
                 Some e \<Rightarrow> (m1, write_error args ''failed to create directory'' e)
               | None \<Rightarrow> if waAppend args then append_content ops args m1 else replace_content ops args m1))"

section \<open>The read tool\<close>

record read_args =
  raPath :: string
  raMaxLines :: "int option"

record read_result =
  rrContent :: string
  rrMessage :: string

definition list_line :: "file_info \<Rightarrow> string" where
  "list_line e =
     (if fiIsDir e then ''  [dir]  '' @ fiName e @ ''/'' @ newline
      else ''  [file] '' @ fiName e @ '' ('' @ itoa (int (fiSize e)) @ '' bytes)'' @ newline)"

text \<open>The limit on the lines of a file; \<open>None\<close> is the panic of a slice with a negative bound.\<close>

definition limit_lines :: "int \<Rightarrow> string \<Rightarrow> (string \<times> int) option" where
  "limit_lines maxLines content =
     (let ls = split_on (char_of (10 :: nat)) content; totalLines = int (length ls)
      in if totalLines > maxLines then
           (if maxLines < 0 then None
            else Some (join_str newline (take (nat maxLines) ls) @ newline @ ''... (truncated, showing '' @
              itoa maxLines @ '' of '' @ itoa totalLines @ '' lines)'', totalLines))
         else Some (content, totalLines))"

text \<open>The result and the error, or \<open>None\<close> for a panic.\<close>

definition executeRead ::
  "('fs, 'h) fs_ops \<Rightarrow> read_args \<Rightarrow> 'fs \<Rightarrow> (read_result \<times> string option) option" where
  "executeRead ops args m =
     (if raPath args = '''' then
        Some (\<lparr>rrContent = '''', rrMessage = ''Error: path is required''\<rparr>, Some ''path is required'')
      else
        (let maxLines = (case raMaxLines args of None \<Rightarrow> 1000 | Some n \<Rightarrow> n)
         in case opStat ops (raPath args) m of
              Inl e \<Rightarrow> Some (\<lparr>rrContent = '''', rrMessage = ''Error: '' @ e\<rparr>, Some (''stat path: '' @ e))
            | Inr info \<Rightarrow>
                if fiIsDir info then
                  (case opReadDir ops (raPath args) m of
                     Inl e \<Rightarrow> Some (\<lparr>rrContent = '''', rrMessage = ''Error: failed to read directory: '' @ e\<rparr>,
                       Some (''read directory: '' @ e))
                   | Inr entries \<Rightarrow>
                       Some (\<lparr>rrContent = ''Directory listing for: '' @ raPath args @ newline @ newline @
                                concat (map list_line entries),
                              rrMessage = ''Listed '' @ itoa (int (length entries)) @ '' entries in '' @ raPath args\<rparr>,
                         None))
                else
                  (case opReadFile ops (raPath args) m of
                     Inl e \<Rightarrow> Some (\<lparr>rrContent = '''', rrMessage = ''Error: failed to read file: '' @ e\<rparr>,
                       Some (''failed to read file: '' @ e))
                   | Inr d \<Rightarrow>
                       map_option (\<lambda>(content, totalLines).
                         (\<lparr>rrContent = content, rrMessage = ''Successfully read '' @ raPath args @ '' ('' @
                             itoa (min totalLines maxLines) @ '' lines)''\<rparr>, None))
                         (limit_lines maxLines d))))"

section \<open>The contract of a file system\<close>

locale file_system =
  fixes ops :: "('fs, 'h) fs_ops" and ok :: "'fs \<Rightarrow> bool" and tree_of :: "'fs \<Rightarrow> tree"
  assumes read_law: "ok m \<Longrightarrow> opReadFile ops p m = Inr d \<longleftrightarrow> tree_of m (clean_parts p) = Some (File d)"
    and stat_law: "ok m \<Longrightarrow> tree_of m (clean_parts p) = Some e \<Longrightarrow>
      \<exists>i. opStat ops p m = Inr i \<and> fiIsDir i = (e = Dir)"
    and write_law: "ok m \<Longrightarrow> op_refines ok tree_of (opWriteFile ops p d perm m) m (abs_write (clean_parts p) d)"
    and mkdir_law: "ok m \<Longrightarrow> op_refines ok tree_of (opMkdirAll ops p perm m) m (abs_mkdir (clean_parts p))"
    and rename_law: "ok m \<Longrightarrow>
      op_refines ok tree_of (opRename ops p q m) m (abs_rename (clean_parts p) (clean_parts q))"
    and append_law: "ok m \<Longrightarrow> opOpenFile ops p appendFlags perm m = (m1, Inr h) \<Longrightarrow>
      opWrite ops d h = (h1, Inr n) \<Longrightarrow>
      n = length d \<and> ok (fst (opClose ops h1 m1)) \<and>
      tree_of (fst (opClose ops h1 m1)) =
        (tree_of m)(clean_parts p \<mapsto> File (file_data (tree_of m (clean_parts p)) @ d))"
    and parent_law: "ok m \<Longrightarrow> tree_of m (P @ p # Q) \<noteq> None \<Longrightarrow> tree_of m P = Some Dir"
begin

lemma mkdir_keeps:
  assumes "ok m" and "opMkdirAll ops p perm m = (m1, None)"
  shows "ok m1" and "tree_of m Q = Some e \<Longrightarrow> tree_of m1 Q = Some e"
proof -
  have r: "op_refines ok tree_of (m1, None) m (abs_mkdir (clean_parts p))"
    using mkdir_law [OF assms(1), of p perm] assms(2) by simp
  then show "ok m1" by (simp add: op_refines_def)
  assume e: "tree_of m Q = Some e"
  from r have v: "tree_of m1 = (\<lambda>Q. if prefix Q (clean_parts p) then Some Dir else tree_of m Q)"
    and g: "\<nexists>Q d. prefix Q (clean_parts p) \<and> tree_of m Q = Some (File d)"
    by (auto simp: op_refines_def abs_mkdir_def split: if_splits)
  then show "tree_of m1 Q = Some e" using e by (cases e) auto
qed

lemma below_file: "ok m \<Longrightarrow> tree_of m P = Some (File d) \<Longrightarrow> strict_prefix P Q \<Longrightarrow> tree_of m Q = None"
  using parent_law [of m P] by (fastforce elim: strict_prefixE')

lemma replace_stores:
  assumes "ok m" and "replace_content ops args m = (m', res, None)"
  shows "ok m'" and "tree_of m' (clean_parts (waPath args)) = Some (File (waContent args))"
    and "wrBytes res = length (waContent args)"
    and "tree_of m Q = Some e \<Longrightarrow> \<not> prefix (clean_parts (waPath args)) Q \<Longrightarrow>
      Q \<noteq> clean_parts (waPath args @ ''.tmp'') \<Longrightarrow> tree_of m' Q = Some e"
proof -
  let ?P = "clean_parts (waPath args)" and ?T = "clean_parts (waPath args @ ''.tmp'')"
  obtain m1 e1 where w: "opWriteFile ops (waPath args @ ''.tmp'') (waContent args) 0x1A4 m = (m1, e1)"
    by fastforce
  with assms(2) have e1: "e1 = None"
    by (auto simp: replace_content_def Let_def split: option.splits prod.splits)
  have ref: "op_refines ok tree_of (m1, None) m (abs_write ?T (waContent args))"
    using write_law [OF assms(1), of "waPath args @ ''.tmp''" "waContent args" "0x1A4"] w e1 by simp
  then have m1: "ok m1" "tree_of m1 = (tree_of m)(?T \<mapsto> File (waContent args))" and nodir: "tree_of m ?T \<noteq> Some Dir"
    by (auto simp: op_refines_def abs_write_def split: if_splits)
  obtain m2 e2 where rn: "opRename ops (waPath args @ ''.tmp'') (waPath args) m1 = (m2, e2)" by fastforce
  with assms(2) w e1 have e2: "e2 = None" "m2 = m'"
    and res: "wrBytes res = length (waContent args)"
    by (auto simp: replace_content_def Let_def dest: write_done_bytes split: option.splits)
  have ref2: "op_refines ok tree_of (m', None) m1 (abs_rename ?T ?P)"
    using rename_law [OF m1(1), of "waPath args @ ''.tmp''" "waPath args"] rn e2 by simp
  have np: "\<not> strict_prefix ?T ?P"
    using suffix_not_prefix [of "''.tmp''" "waPath args"] by (auto simp: strict_prefix_def)
  have m': "ok m'" "tree_of m' = (\<lambda>Q. if prefix ?P Q then tree_of m1 (?T @ drop (length ?P) Q)
      else if prefix ?T Q then None else tree_of m1 Q)"
    using ref2 np by (auto simp: op_refines_def abs_rename_def split: if_splits)
  show "ok m'" "wrBytes res = length (waContent args)" by (fact m'(1), fact res)
  show "tree_of m' ?P = Some (File (waContent args))" by (simp add: m'(2) m1(2))
  assume q: "tree_of m Q = Some e" "\<not> prefix ?P Q" "Q \<noteq> ?T"
  then have "\<not> prefix ?T Q"
    using parent_law [OF assms(1), of ?T] nodir by (fastforce simp: prefix_def neq_Nil_conv)
  then show "tree_of m' Q = Some e" using q by (simp add: m'(2) m1(2))
qed

lemma write_stores:
  assumes "ok m" and "executeWrite ops args m = (m', res, None)" and "\<not> waAppend args"
  shows "ok m'" and "tree_of m' (clean_parts (waPath args)) = Some (File (waContent args))"
    and "wrBytes res = length (waContent args)"
    and "tree_of m Q = Some e \<Longrightarrow> \<not> prefix (clean_parts (waPath args)) Q \<Longrightarrow>
      Q \<noteq> clean_parts (waPath args @ ''.tmp'') \<Longrightarrow> tree_of m' Q = Some e"
proof -
  obtain m1 where m1: "ok m1" "tree_of m Q = Some e \<Longrightarrow> tree_of m1 Q = Some e"
      "replace_content ops args m1 = (m', res, None)" for Q e
  proof (cases "filepath_Dir (waPath args) = ''.''")
    case True
    with assms that [of m] show ?thesis
      by (auto simp: executeWrite_def Let_def split: if_splits)
  next
    case False
    obtain m1 e1 where mk: "opMkdirAll ops (filepath_Dir (waPath args)) 0x1ED m = (m1, e1)" by fastforce
    with assms False have "e1 = None" "replace_content ops args m1 = (m', res, None)"
      by (auto simp: executeWrite_def Let_def split: if_splits option.splits)
    with mk mkdir_keeps [OF assms(1)] that [of m1] show ?thesis by metis
  qed
  show "ok m'" "tree_of m' (clean_parts (waPath args)) = Some (File (waContent args))"
    "wrBytes res = length (waContent args)"
    using replace_stores [OF m1(1,3)] by blast+
  show "tree_of m Q = Some e \<Longrightarrow> \<not> prefix (clean_parts (waPath args)) Q \<Longrightarrow>
      Q \<noteq> clean_parts (waPath args @ ''.tmp'') \<Longrightarrow> tree_of m' Q = Some e"
    using replace_stores(4) [OF m1(1,3)] m1(2) by blast
qed

end

context file_system begin

lemma mkdir_data:
  assumes "ok m" and "opMkdirAll ops p perm m = (m1, None)"
  shows "file_data (tree_of m1 Q) = file_data (tree_of m Q)"
proof -
  have "op_refines ok tree_of (m1, None) m (abs_mkdir (clean_parts p))"
    using mkdir_law [OF assms(1), of p perm] assms(2) by simp
  then have "tree_of m1 Q = tree_of m Q \<or> tree_of m1 Q = Some Dir"
    by (auto simp: op_refines_def abs_mkdir_def split: if_splits)
  then show ?thesis using mkdir_keeps(2) [OF assms, of Q] by (cases "tree_of m Q") (auto simp: file_data_def)
qed

lemma append_extends:
  assumes "ok m" and "executeWrite ops args m = (m', res, None)" and "waAppend args"
  shows "ok m'"
    and "tree_of m' (clean_parts (waPath args)) =
      Some (File (file_data (tree_of m (clean_parts (waPath args))) @ waContent args))"
    and "wrBytes res = length (waContent args)"
    and "tree_of m Q = Some e \<Longrightarrow> Q \<noteq> clean_parts (waPath args) \<Longrightarrow> tree_of m' Q = Some e"
proof -
  obtain m1 where m1: "ok m1" "\<And>Q e. tree_of m Q = Some e \<Longrightarrow> tree_of m1 Q = Some e"
      "\<And>Q. file_data (tree_of m1 Q) = file_data (tree_of m Q)" "append_content ops args m1 = (m', res, None)"
  proof (cases "filepath_Dir (waPath args) = ''.''")
    case True
    with assms that [of m] show ?thesis by (auto simp: executeWrite_def Let_def split: if_splits)
  next
    case False
    obtain m1 e1 where mk: "opMkdirAll ops (filepath_Dir (waPath args)) 0x1ED m = (m1, e1)" by fastforce
    with assms False have "e1 = None" "append_content ops args m1 = (m', res, None)"
      by (auto simp: executeWrite_def Let_def split: if_splits option.splits)
    with mk mkdir_keeps [OF assms(1)] mkdir_data [OF assms(1)] that [of m1] show ?thesis by metis
  qed
  obtain m2 r where op: "opOpenFile ops (waPath args) appendFlags 0x1A4 m1 = (m2, r)" by fastforce
  with m1(4) obtain h where r: "r = Inr h" by (cases r) (auto simp: append_content_def)
  obtain h1 wr where w: "opWrite ops (waContent args) h = (h1, wr)" by fastforce
  with m1(4) op r obtain n where n: "wr = Inr n" by (cases wr) (auto simp: append_content_def)
  have m': "m' = fst (opClose ops h1 m2)" "wrBytes res = n"
    using m1(4) op r w n by (auto simp: append_content_def dest: write_done_bytes)
  from append_law [OF m1(1) op [unfolded r] w [unfolded n]] m1(2,3) m'
  show "ok m'" "tree_of m' (clean_parts (waPath args)) =
      Some (File (file_data (tree_of m (clean_parts (waPath args))) @ waContent args))"
    "wrBytes res = length (waContent args)"
    "tree_of m Q = Some e \<Longrightarrow> Q \<noteq> clean_parts (waPath args) \<Longrightarrow> tree_of m' Q = Some e"
    by simp_all
qed

lemma read_file:
  assumes "ok m" and "tree_of m (clean_parts p) = Some (File d)" and "p \<noteq> ''''"
  shows "executeRead ops \<lparr>raPath = p, raMaxLines = ml\<rparr> m =
    (let maxLines = (case ml of None \<Rightarrow> 1000 | Some n \<Rightarrow> n)
     in map_option (\<lambda>(content, totalLines).
          (\<lparr>rrContent = content, rrMessage = ''Successfully read '' @ p @ '' ('' @
              itoa (min totalLines maxLines) @ '' lines)''\<rparr>, None))
          (limit_lines maxLines d))"
proof -
  obtain i where "opStat ops p m = Inr i" "\<not> fiIsDir i" using stat_law [OF assms(1,2)] by auto
  moreover have "opReadFile ops p m = Inr d" using read_law [OF assms(1)] assms(2) by simp
  ultimately show ?thesis using assms(3) by (simp add: executeRead_def Let_def)
qed

lemma write_needs_path: "executeWrite ops args m = (m', res, None) \<Longrightarrow> waPath args \<noteq> ''''"
  by (auto simp: executeWrite_def)

text \<open>A file whose lines fit is read back as it was written.\<close>

lemma write_then_read_back:
  assumes "ok m" and "executeWrite ops args m = (m', res, None)" and "\<not> waAppend args"
    and "length (split_on (char_of (10 :: nat)) (waContent args)) \<le> 1000"
  shows "\<exists>msg. executeRead ops \<lparr>raPath = waPath args, raMaxLines = None\<rparr> m' =
    Some (\<lparr>rrContent = waContent args, rrMessage = msg\<rparr>, None)"
  using read_file [OF write_stores(1,2) [OF assms(1-3)] write_needs_path [OF assms(2)], of None] assms(4)
  by (simp add: limit_lines_def Let_def)

lemma negative_limit:
  assumes "ok m" and "tree_of m (clean_parts p) = Some (File d)" and "p \<noteq> ''''" and "n < 0"
  shows "executeRead ops \<lparr>raPath = p, raMaxLines = Some n\<rparr> m = None"
  using read_file [OF assms(1-3), of "Some n"] assms(4)
  by (simp add: limit_lines_def Let_def)

end

section \<open>The in-memory file system keeps the contract\<close>

interpretation memory_files: file_system "MemFS_ops now" mem_ok view for now
proof unfold_locales
  fix m p d
  show "opReadFile (MemFS_ops now) p m = Inr d \<longleftrightarrow> view m (clean_parts p) = Some (File d)"
    by (simp add: MemFS_ops_def ReadFile_view)
next
  fix m p e
  assume "view m (clean_parts p) = Some e"
  then show "\<exists>i. opStat (MemFS_ops now) p m = Inr i \<and> fiIsDir i = (e = Dir)"
    by (auto simp: MemFS_ops_def Stat_def lookup_eq view_def node_entry_def fileInfo_def)
next
  fix m p d perm m1 h h1 n
  assume "mem_ok m" and op: "opOpenFile (MemFS_ops now) p appendFlags perm m = (m1, Inr h)"
    and w: "opWrite (MemFS_ops now) d h = (h1, Inr n)"
  moreover have "O_APPEND \<in> set appendFlags" "O_TRUNC \<notin> set appendFlags" by (simp_all add: appendFlags_def)
  ultimately show "n = length d \<and> mem_ok (fst (opClose (MemFS_ops now) h1 m1)) \<and>
      view (fst (opClose (MemFS_ops now) h1 m1)) =
        (view m)(clean_parts p \<mapsto> File (file_data (view m (clean_parts p)) @ d))"
    using OpenFile_append [of m now p appendFlags perm m1 h now d]
    by (auto simp: MemFS_ops_def writable_Write_def split: if_splits)
qed (simp_all add: MemFS_ops_def WriteFile_refines MkdirAll_refines Rename_refines view_prefix_dir)

section \<open>The properties of the file tools\<close>

lemma mem_ok_new: "mem_ok (NewMemFS now)"
  by (auto simp: mem_ok_def NewMemFS_def dir_node_def blank_node_def child_def)

lemma view_new: "view (NewMemFS now) = [[] \<mapsto> Dir]"
proof
  fix ps
  show "view (NewMemFS now) ps = [[] \<mapsto> Dir] ps"
    by (cases ps) (simp_all add: view_def NewMemFS_def dir_node_def child_def node_entry_def)
qed

text \<open>C21. Every operation of the in-memory file system that changes the tree, the opening of a file and the
  closing of a handle included, keeps the node store well formed, so that the nodes that paths
  reach form a tree, and refines the abstract operation on paths: it succeeds exactly when that is
  allowed, has exactly its effect, and a refused operation changes nothing.  A directory that is
  renamed below itself drops out of what paths reach.\<close>

theorem memfs_refines:
  assumes "mem_ok m"
  shows "refines (WriteFile now p d perm m) m (abs_write (clean_parts p) d) \<and>
    refines (MkdirAll now p perm m) m (abs_mkdir (clean_parts p)) \<and>
    refines (Remove p m) m (abs_remove (clean_parts p)) \<and>
    refines (RemoveAll p m) m (abs_remove_all (clean_parts p)) \<and>
    refines (Rename p q m) m (abs_rename (clean_parts p) (clean_parts q)) \<and>
    refines (opened (OpenFile now p flag perm m)) m (abs_open (clean_parts p) flag) \<and>
    (\<forall>h. \<not> nIsDir (mNodes m (mwNode h)) \<longrightarrow>
      (\<forall>P. walk_nodes m 0 P = Some (mwNode h) \<longrightarrow> refines (fst (writable_Close now h m), None) m (abs_close P h)) \<and>
      ((\<forall>P. walk_nodes m 0 P \<noteq> Some (mwNode h)) \<longrightarrow> refines (fst (writable_Close now h m), None) m Some)) \<and>
    (\<forall>P Q a. walk_nodes m 0 P = Some a \<and> walk_nodes m 0 Q = Some a \<longrightarrow> P = Q)"
  by (intro conjI allI impI WriteFile_refines MkdirAll_refines Remove_refines RemoveAll_refines Rename_refines OpenFile_refines
      Close_refines assms) (auto dest: walk_inj [OF assms])

text \<open>A file is written and renamed.\<close>

theorem memfs_refines_witness:
  "\<exists>m. refines (Rename ''a'' ''b'' m) m (abs_rename [''a''] [''b'']) \<and>
     view m [''a''] = Some (File ''x'') \<and> view (fst (Rename ''a'' ''b'' m)) = [[] \<mapsto> Dir, [''b''] \<mapsto> File ''x'']"
proof -
  have p: "clean_parts ''a'' = [''a'']" "clean_parts ''b'' = [''b'']"
    by (simp_all add: clean_parts_def clean_step_def)
  let ?m = "fst (WriteFile 0 ''a'' ''x'' 0 (NewMemFS 0))"
  have "refines (WriteFile 0 ''a'' ''x'' 0 (NewMemFS 0)) (NewMemFS 0) (abs_write [''a''] ''x'')"
    using memfs_refines [OF mem_ok_new [of 0], THEN conjunct1, of 0 "''a''" "''x''" 0] p by simp
  then have m: "mem_ok ?m" "view ?m = [[] \<mapsto> Dir, [''a''] \<mapsto> File ''x'']"
    by (simp_all add: op_refines_def abs_write_def view_new)
  have r: "refines (Rename ''a'' ''b'' ?m) ?m (abs_rename [''a''] [''b''])"
    using memfs_refines [OF m(1), of 0 "''a''" undefined 0 "''b''"] unfolding p by blast
  moreover have "abs_rename [''a''] [''b''] (view ?m) = Some [[] \<mapsto> Dir, [''b''] \<mapsto> File ''x'']"
    unfolding m(2) by (auto simp: abs_rename_def fun_eq_iff prefix_def Cons_eq_append_conv)
  ultimately show ?thesis using m(2) by (intro exI [of _ ?m]) (simp add: op_refines_def)
qed

text \<open>A file written with the write tool is read back exactly by the read tool when it has at
  most a thousand lines, and every other entry that existed keeps its content, except the
  temporary file's path and what was below the written path.\<close>

theorem write_then_read:
  assumes "mem_ok m" and "executeWrite (MemFS_ops now) args m = (m', res, None)" and "\<not> waAppend args"
    and "length (split_on (char_of (10 :: nat)) (waContent args)) \<le> 1000"
  shows "(\<exists>msg. executeRead (MemFS_ops now) \<lparr>raPath = waPath args, raMaxLines = None\<rparr> m' =
      Some (\<lparr>rrContent = waContent args, rrMessage = msg\<rparr>, None)) \<and>
    mem_ok m' \<and> wrBytes res = length (waContent args) \<and>
    (\<forall>Q e. view m Q = Some e \<longrightarrow> \<not> prefix (clean_parts (waPath args)) Q \<longrightarrow>
       Q \<noteq> clean_parts (waPath args @ ''.tmp'') \<longrightarrow> view m' Q = Some e)"
  using memory_files.write_then_read_back [OF assms] memory_files.write_stores [OF assms(1-3)] by blast

text \<open>The write tool with append extends the file by the content, or creates it with the
  content, and changes no other entry that existed.\<close>

theorem append_tool_extends:
  assumes "mem_ok m" and "executeWrite (MemFS_ops now) args m = (m', res, None)" and "waAppend args"
  shows "ReadFile (waPath args) m' =
      Inr (file_data (view m (clean_parts (waPath args))) @ waContent args) \<and>
    mem_ok m' \<and> wrBytes res = length (waContent args) \<and>
    (\<forall>Q e. view m Q = Some e \<longrightarrow> Q \<noteq> clean_parts (waPath args) \<longrightarrow> view m' Q = Some e)"
  using memory_files.append_extends [OF assms] by (simp add: ReadFile_view)

definition demo_write :: "bool \<Rightarrow> write_args" where
  "demo_write b = \<lparr>waPath = ''d/f'', waContent = ''hi'', waAppend = b\<rparr>"

lemma demo_write_succeeds: "snd (snd (executeWrite (MemFS_ops 0) (demo_write b) (NewMemFS 0))) = None"
proof (cases b)
  case True
  have "snd (snd (executeWrite (MemFS_ops 0) (demo_write True) (NewMemFS 0))) = None" by code_simp
  with True show ?thesis by simp
next
  case False
  have "snd (snd (executeWrite (MemFS_ops 0) (demo_write False) (NewMemFS 0))) = None" by code_simp
  with False show ?thesis by simp
qed

lemma demo_write_outcome:
  obtains m' res where "executeWrite (MemFS_ops 0) (demo_write b) (NewMemFS 0) = (m', res, None)"
proof -
  obtain m' res e where h: "executeWrite (MemFS_ops 0) (demo_write b) (NewMemFS 0) = (m', res, e)"
    using prod_cases3 by blast
  then have "e = None" using demo_write_succeeds [of b] by simp
  with h that show ?thesis by simp
qed

theorem write_then_read_witness:
  "\<exists>m' res msg. executeWrite (MemFS_ops 0) (demo_write False) (NewMemFS 0) = (m', res, None) \<and>
     executeRead (MemFS_ops 0) \<lparr>raPath = ''d/f'', raMaxLines = None\<rparr> m' =
       Some (\<lparr>rrContent = ''hi'', rrMessage = msg\<rparr>, None)"
proof -
  obtain m' res where h: "executeWrite (MemFS_ops 0) (demo_write False) (NewMemFS 0) = (m', res, None)"
    by (rule demo_write_outcome)
  from write_then_read [OF mem_ok_new h] h show ?thesis by (simp add: demo_write_def)
qed

theorem append_tool_extends_witness:
  "\<exists>m' res. executeWrite (MemFS_ops 0) (demo_write True) (NewMemFS 0) = (m', res, None) \<and>
     ReadFile ''d/f'' m' = Inr ''hi''"
proof -
  obtain m' res where h: "executeWrite (MemFS_ops 0) (demo_write True) (NewMemFS 0) = (m', res, None)"
    by (rule demo_write_outcome)
  have "clean_parts ''d/f'' = [''d'', ''f'']" by (simp add: clean_parts_def clean_step_def)
  with append_tool_extends [OF mem_ok_new h] h show ?thesis
    by (simp add: demo_write_def view_new file_data_def)
qed

section \<open>Where the in-memory file system is not the file system it stands for\<close>

text \<open>Renaming onto a directory replaces it with everything below, where the operating system
  refuses; the write tool so turns a directory into a file.\<close>

lemma write_replaces_directory:
  assumes "mem_ok m" and "executeWrite (MemFS_ops now) args m = (m', res, None)" and "\<not> waAppend args"
    and "strict_prefix (clean_parts (waPath args)) Q"
  shows "view m' Q = None"
  using memory_files.below_file [OF memory_files.write_stores(1,2) [OF assms(1-3)] assms(4)] .

lemma write_on_directory:
  "snd (snd (executeWrite (MemFS_ops 0) \<lparr>waPath = ''d'', waContent = ''hi'', waAppend = False\<rparr>
     (fst (MkdirAll 0 ''d/e'' 0 (NewMemFS 0))))) = None"
  by code_simp

text \<open>Moving a directory below itself reports success and makes the whole directory unreachable.\<close>

lemma rename_below_itself:
  assumes "mem_ok m" and "Rename p q m = (m', None)" and "strict_prefix (clean_parts p) (clean_parts q)"
    and "prefix (clean_parts p) Q"
  shows "view m' Q = None"
  using Rename_refines [OF assms(1), of p q] assms(2-4)
  by (auto simp: op_refines_def abs_rename_def split: if_splits)

lemma rename_below_itself_accepted:
  "snd (Rename ''d'' ''d/e/f'' (fst (MkdirAll 0 ''d/e'' 0 (NewMemFS 0)))) = None"
  by code_simp

text \<open>Without the flags for appending and truncating, the buffer starts with the file's content
  and a write only adds to it.\<close>

lemma open_without_flags_appends:
  assumes "mem_ok m" and "OpenFile now name [O_WRONLY] perm m = (m1, Inr h)"
  shows "mwBuf (fst (writable_Write d h)) = file_data (view m (clean_parts name)) @ d"
  using assms(1)
proof (cases rule: lookupParent_cases [where name = name])
  case (bad e)
  then show ?thesis using assms(2) by (simp add: OpenFile_def)
next
  case (ok P b a)
  then obtain c where c: "child m a b = Some c" "\<not> nIsDir (mNodes m c)" "mwBuf h = nData (mNodes m c)" "\<not> mwClosed h"
    using assms(2) by (auto simp: OpenFile_def open_node_def split: option.splits if_splits)
  then have "view m (P @ [b]) = Some (File (nData (mNodes m c)))"
    using ok(7) by (simp add: view_def node_entry_def)
  then show ?thesis using c ok(2) by (simp add: writable_Write_def file_data_def)
qed

text \<open>\<open>Sync\<close> keeps the buffer, so in append mode the following \<open>Close\<close> adds it a second time.\<close>

lemma sync_then_close_appends_twice:
  assumes "O_APPEND \<in> set (mwFlag h)" and "\<not> mwClosed h"
  shows "nData (mNodes (fst (writable_Close now' h (writable_Sync now h m))) (mwNode h)) =
    nData (mNodes m (mwNode h)) @ mwBuf h @ mwBuf h"
  using assms by (simp add: writable_Close_def writable_Sync_def)

text \<open>A negative limit on the lines makes the read tool panic on every file.\<close>

lemma negative_limit_panics:
  assumes "mem_ok m" and "view m (clean_parts p) = Some (File d)" and "p \<noteq> ''''" and "n < 0"
  shows "executeRead (MemFS_ops now) \<lparr>raPath = p, raMaxLines = Some n\<rparr> m = None"
  by (rule memory_files.negative_limit [OF assms])

end
