(* ===== verification/ScopedFS.thy ===== *)
theory ScopedFS
  imports VfsPath
begin

text \<open>
  The file system jailed under a root directory, \<open>internal/vfs/scoped.go\<close>.  The operating system
  is a parameter: \<open>eval\<close> stands for \<open>filepath.EvalSymlinks\<close> on the state of the disk, with no
  result for an error, and the calls of the package \<open>os\<close> are arguments of the methods.
\<close>

section \<open>Errors\<close>

text \<open>The errors of the packages \<open>os\<close> and \<open>io/fs\<close>: a path error, the error of a call on two
  paths, or another one.\<close>

datatype os_error =
  PathError (peOp: string) (pePath: string) (peErr: string)
| LinkError string string string string
| OtherError string

fun error_string :: "os_error \<Rightarrow> string" where
  "error_string (PathError op p e) = path_error op p e"
| "error_string (LinkError op p q e) = op @ '' '' @ p @ '' '' @ q @ '': '' @ e"
| "error_string (OtherError e) = e"

definition wrapErr :: "string \<Rightarrow> string \<Rightarrow> os_error \<Rightarrow> os_error" where
  "wrapErr op virtualPath err =
     (case err of
        PathError _ _ inner \<Rightarrow> PathError op virtualPath inner
      | _ \<Rightarrow> PathError op virtualPath (error_string err))"

section \<open>Resolution\<close>

record scoped_fs =
  sRoot :: string

definition isUnderRoot :: "scoped_fs \<Rightarrow> string \<Rightarrow> bool" where
  "isUnderRoot s resolved \<longleftrightarrow> resolved = sRoot s \<or> has_prefix resolved (sRoot s @ ''/'')"

text \<open>The path under the root, with its components: \<open>filepath.Join\<close> cleans the concatenation.\<close>

definition full_parts :: "scoped_fs \<Rightarrow> string \<Rightarrow> string list" where
  "full_parts s name = clean_parts (sRoot s @ ''/'' @ ''/'' @ clean name)"

definition abs_path :: "string list \<Rightarrow> string" where
  "abs_path ps = ''/'' @ join_str ''/'' ps"

text \<open>The loop over the parents: the first that resolves decides; at the root of the disk the loop
  breaks and lets the path through.  The argument is the reversed list of components of \<open>dir\<close>.\<close>

fun ancestor_in_scope :: "(string \<Rightarrow> string option) \<Rightarrow> scoped_fs \<Rightarrow> string list \<Rightarrow> bool" where
  "ancestor_in_scope eval s [] = True"
| "ancestor_in_scope eval s (_ # rparent) =
     (case eval (abs_path (rev rparent)) of
        Some realParent \<Rightarrow> isUnderRoot s realParent
      | None \<Rightarrow> ancestor_in_scope eval s rparent)"

definition resolve :: "(string \<Rightarrow> string option) \<Rightarrow> scoped_fs \<Rightarrow> string \<Rightarrow> os_error + string" where
  "resolve eval s name =
     (let full = abs_path (full_parts s name)
      in case eval full of
           None \<Rightarrow>
             if ancestor_in_scope eval s (rev (full_parts s name)) then Inr full
             else Inl (PathError ''resolve'' name ErrPermission)
         | Some real \<Rightarrow>
             if isUnderRoot s real then Inr real else Inl (PathError ''resolve'' name ErrPermission))"

section \<open>The methods\<close>

text \<open>A call of the package \<open>os\<close> may change the disk \<open>'w\<close> and returns a value or an error.\<close>

type_synonym ('w, 'a) os_call = "'w \<Rightarrow> 'w \<times> (os_error + 'a)"

definition wrap_result :: "string \<Rightarrow> string \<Rightarrow> 'w \<times> (os_error + 'a) \<Rightarrow> 'w \<times> (os_error + 'a)" where
  "wrap_result op name out =
     (case out of (w, Inl e) \<Rightarrow> (w, Inl (wrapErr op name e)) | (w, Inr x) \<Rightarrow> (w, Inr x))"

text \<open>The disk determines how paths resolve: \<open>eval\<close> takes it as an argument.\<close>

definition scoped_call ::
  "('w \<Rightarrow> string \<Rightarrow> string option) \<Rightarrow> scoped_fs \<Rightarrow> string \<Rightarrow> string \<Rightarrow> (string \<Rightarrow> ('w, 'a) os_call) \<Rightarrow>
   ('w, 'a) os_call" where
  "scoped_call eval s op name call w =
     (case resolve (eval w) s name of
        Inl e \<Rightarrow> (w, Inl e)
      | Inr real \<Rightarrow> wrap_result op name (call real w))"

definition scoped_Open where
  "scoped_Open eval s name os_Open = scoped_call eval s ''open'' name os_Open"

definition scoped_Stat where
  "scoped_Stat eval s name os_Stat = scoped_call eval s ''stat'' name os_Stat"

definition scoped_ReadDir where
  "scoped_ReadDir eval s name os_ReadDir = scoped_call eval s ''readdir'' name os_ReadDir"

definition scoped_ReadFile where
  "scoped_ReadFile eval s name os_ReadFile = scoped_call eval s ''read'' name os_ReadFile"

definition scoped_WriteFile where
  "scoped_WriteFile eval s name data perm os_WriteFile =
     scoped_call eval s ''write'' name (\<lambda>real. os_WriteFile real data perm)"

definition scoped_MkdirAll where
  "scoped_MkdirAll eval s name perm os_MkdirAll =
     scoped_call eval s ''mkdir'' name (\<lambda>real. os_MkdirAll real perm)"

definition scoped_OpenFile where
  "scoped_OpenFile eval s name flag perm os_OpenFile =
     scoped_call eval s ''openfile'' name (\<lambda>real. os_OpenFile real flag perm)"

definition not_the_root ::
  "scoped_fs \<Rightarrow> string \<Rightarrow> string \<Rightarrow> (string \<Rightarrow> ('w, 'a) os_call) \<Rightarrow> string \<Rightarrow> ('w, 'a) os_call" where
  "not_the_root s op name call real w =
     (if real = sRoot s then (w, Inl (PathError op name ErrPermission)) else call real w)"

definition scoped_Remove where
  "scoped_Remove eval s name os_Remove =
     scoped_call eval s ''remove'' name (not_the_root s ''remove'' name os_Remove)"

definition scoped_RemoveAll where
  "scoped_RemoveAll eval s name os_RemoveAll =
     scoped_call eval s ''removeall'' name (not_the_root s ''removeall'' name os_RemoveAll)"

definition scoped_Rename ::
  "('w \<Rightarrow> string \<Rightarrow> string option) \<Rightarrow> scoped_fs \<Rightarrow> string \<Rightarrow> string \<Rightarrow> (string \<Rightarrow> string \<Rightarrow> ('w, unit) os_call) \<Rightarrow>
   ('w, unit) os_call" where
  "scoped_Rename eval s oldpath newpath os_Rename w =
     (case resolve (eval w) s oldpath of
        Inl e \<Rightarrow> (w, Inl e)
      | Inr realOld \<Rightarrow>
          (case resolve (eval w) s newpath of
             Inl e \<Rightarrow> (w, Inl e)
           | Inr realNew \<Rightarrow> wrap_result ''rename'' oldpath (os_Rename realOld realNew w)))"

text \<open>The permission error of a removal of the root goes through \<open>wrapErr\<close> above and is unchanged
  by it.\<close>

lemma wrapErr_own: "wrapErr op name (PathError op name e) = PathError op name e"
  by (simp add: wrapErr_def)

section \<open>Confinement\<close>

text \<open>The root of a scope: absolute, clean, not the root of the disk.\<close>

definition scope_ok :: "scoped_fs \<Rightarrow> bool" where
  "scope_ok s \<longleftrightarrow> (let ps = clean_parts (sRoot s) in sRoot s = abs_path ps \<and> ps \<noteq> [])"

lemma join_append: "ps \<noteq> [] \<Longrightarrow> qs \<noteq> [] \<Longrightarrow> join_str sep (ps @ qs) = join_str sep ps @ sep @ join_str sep qs"
proof (induction sep ps rule: join_str.induct)
  case (2 sep x)
  then show ?case by (cases qs) auto
qed auto

lemma full_parts_eq: "full_parts s name = clean_parts (sRoot s) @ clean_parts name"
proof -
  have "full_parts s name = foldl clean_step (clean_parts (sRoot s)) (split_on (CHR ''/'') (''/'' @ clean name))"
    unfolding full_parts_def clean_parts_def
    using split_on_two [of "CHR ''/''" "sRoot s" "''/'' @ clean name"] by (simp add: clean_def)
  also have "\<dots> = foldl clean_step (clean_parts (sRoot s)) (split_on (CHR ''/'') (clean name))"
    by (simp add: clean_step_def)
  also have "\<dots> = clean_parts (sRoot s) @ clean_parts name"
  proof (cases "clean_parts name = []")
    case True
    then show ?thesis by (simp add: clean_def clean_step_def)
  next
    case False
    have "split_on (CHR ''/'') (clean name) = clean_parts name"
      using split_on_join [of "clean_parts name" "CHR ''/''"] clean_parts_plain [of _ name] False
      by (auto simp: clean_def plain_def)
    then show ?thesis using foldl_plain [of "clean_parts name"] clean_parts_plain [of _ name] by simp
  qed
  finally show ?thesis .
qed

lemma full_under_root:
  assumes "scope_ok s"
  shows "isUnderRoot s (abs_path (full_parts s name))"
proof (cases "clean_parts name = []")
  case True
  then show ?thesis using assms by (simp add: full_parts_eq isUnderRoot_def scope_ok_def Let_def)
next
  case False
  then have "abs_path (full_parts s name) = sRoot s @ ''/'' @ clean name"
    using assms by (simp add: full_parts_eq scope_ok_def Let_def abs_path_def join_append clean_def)
  then show ?thesis by (simp add: isUnderRoot_def has_prefix_def)
qed

text \<open>What a resolved path is: the evaluated path when it exists; otherwise the path under the root
  itself, and then the nearest ancestor that exists lies under the root.\<close>

lemma ancestor_nearest:
  assumes "ancestor_in_scope eval s (rev qs)" and "strict_prefix A qs" and "eval (abs_path A) = Some r"
    and "\<And>B. strict_prefix A B \<Longrightarrow> strict_prefix B qs \<Longrightarrow> eval (abs_path B) = None"
  shows "isUnderRoot s r"
  using assms
proof (induction qs rule: rev_induct)
  case (snoc q qs)
  show ?case
  proof (cases "A = qs")
    case True
    then show ?thesis using snoc.prems(1,3) by simp
  next
    case False
    then have A: "strict_prefix A qs" using snoc.prems(2) by (auto simp: strict_prefix_def prefix_snoc)
    have "eval (abs_path qs) = None" by (rule snoc.prems(4) [OF A]) (simp add: strict_prefix_def)
    then have "ancestor_in_scope eval s (rev qs)" using snoc.prems(1) by simp
    then show ?thesis
      by (rule snoc.IH [OF _ A snoc.prems(3)])
        (auto intro!: snoc.prems(4) simp: strict_prefix_def prefix_snoc dest: prefix_length_le)
  qed
qed simp

lemma resolve_under_root:
  assumes "scope_ok s" and "resolve eval s name = Inr real"
  shows "isUnderRoot s real"
  using assms full_under_root [OF assms(1), of name]
  by (auto simp: resolve_def Let_def split: option.splits if_splits)

text \<open>A path is inside the scope when its components start with those of the root; the test on the
  strings decides this for clean absolute paths.\<close>

definition inside :: "scoped_fs \<Rightarrow> string \<Rightarrow> bool" where
  "inside s p \<longleftrightarrow> prefix (clean_parts (sRoot s)) (clean_parts p)"

definition clean_abs :: "string \<Rightarrow> bool" where
  "clean_abs p \<longleftrightarrow> p = abs_path (clean_parts p)"

text \<open>\<open>filepath.EvalSymlinks\<close> is documented to return clean paths; for an absolute path they are
  absolute.\<close>

definition eval_ok :: "(string \<Rightarrow> string option) \<Rightarrow> bool" where
  "eval_ok eval \<longleftrightarrow> (\<forall>p r. eval p = Some r \<longrightarrow> clean_abs r)"

lemma split_abs_path:
  assumes "clean_parts p \<noteq> []" and "clean_abs p"
  shows "split_on (CHR ''/'') p = '''' # clean_parts p"
proof -
  have "split_on (CHR ''/'') (join_str ''/'' (clean_parts p)) = clean_parts p"
    by (rule split_on_join) (use assms(1) clean_parts_plain [of _ p] in \<open>auto simp: plain_def\<close>)
  then have "split_on (CHR ''/'') (abs_path (clean_parts p)) = '''' # clean_parts p"
    by (simp add: abs_path_def)
  then show ?thesis using assms(2) by (simp add: clean_abs_def)
qed

lemma under_root_inside:
  assumes "scope_ok s" and "clean_abs p" and "isUnderRoot s p"
  shows "inside s p"
proof (cases "p = sRoot s")
  case False
  let ?rs = "clean_parts (sRoot s)"
  have root: "?rs \<noteq> []" "clean_abs (sRoot s)" using assms(1) by (auto simp: scope_ok_def clean_abs_def Let_def)
  from False assms(3) have "take (length (sRoot s @ ''/'')) p = sRoot s @ ''/''"
    by (simp add: isUnderRoot_def has_prefix_def)
  then have "p = sRoot s @ CHR ''/'' # drop (length (sRoot s @ ''/'')) p"
    using append_take_drop_id [of "length (sRoot s @ ''/'')" p] by auto
  then obtain t where p: "p = sRoot s @ CHR ''/'' # t" ..
  then have sp: "split_on (CHR ''/'') p = '''' # ?rs @ split_on (CHR ''/'') t"
    using split_abs_path [OF root] by (simp add: split_on_two)
  have "clean_parts p \<noteq> []"
  proof
    assume "clean_parts p = []"
    then have "p = ''/''" using assms(2) by (simp add: clean_abs_def abs_path_def)
    with p have "sRoot s = ''''" by (cases "sRoot s") auto
    with root show False by (simp add: clean_parts_def clean_step_def)
  qed
  then have "clean_parts p = ?rs @ split_on (CHR ''/'') t"
    using split_abs_path [OF _ assms(2)] sp by simp
  then show ?thesis by (simp add: inside_def)
qed (simp add: inside_def)

lemma clean_parts_abs_path: "\<forall>w \<in> set ws. plain w \<Longrightarrow> clean_parts (abs_path ws) = ws"
  using clean_parts_join [of ws] by (simp add: clean_parts_def abs_path_def clean_step_def)

lemma resolve_inside:
  assumes "scope_ok s" and "eval_ok eval" and "resolve eval s name = Inr real"
  shows "inside s real"
proof (cases "eval (abs_path (full_parts s name))")
  case None
  then have "real = abs_path (full_parts s name)"
    using assms(3) by (auto simp: resolve_def Let_def split: if_splits)
  moreover have "\<forall>w \<in> set (full_parts s name). plain w"
    using clean_parts_plain by (auto simp: full_parts_eq)
  ultimately show ?thesis by (simp add: inside_def clean_parts_abs_path) (simp add: full_parts_eq)
next
  case (Some r)
  then have "real = r" using assms(3) by (auto simp: resolve_def Let_def split: if_splits)
  then show ?thesis
    using under_root_inside [OF assms(1) _ resolve_under_root [OF assms(1,3)]] assms(2) Some
    by (auto simp: eval_ok_def)
qed

text \<open>C22. No method of the jailed file system hands the operating system a path that leaves the root:
  two calls that agree on the paths inside cannot be told apart through it, whatever the name and
  however the disk resolves links.  A name that does not exist resolves only when its nearest
  existing ancestor lies under the root.\<close>

theorem scoped_confined:
  assumes "scope_ok s" and "eval_ok (eval w)"
    and "\<And>real. inside s real \<Longrightarrow> call real = call' real"
    and "\<And>real real'. inside s real \<Longrightarrow> inside s real' \<Longrightarrow> ren real real' = ren' real real'"
  shows "scoped_call eval s op name call w = scoped_call eval s op name call' w \<and>
    scoped_Rename eval s name name' ren w = scoped_Rename eval s name name' ren' w \<and>
    (\<forall>A r. resolve (eval w) s name = Inr (abs_path (full_parts s name)) \<longrightarrow>
       eval w (abs_path (full_parts s name)) = None \<longrightarrow> strict_prefix A (full_parts s name) \<longrightarrow>
       eval w (abs_path A) = Some r \<longrightarrow>
       (\<forall>B. strict_prefix A B \<longrightarrow> strict_prefix B (full_parts s name) \<longrightarrow> eval w (abs_path B) = None) \<longrightarrow>
       inside s r)"
proof (intro conjI allI impI)
  show "scoped_call eval s op name call w = scoped_call eval s op name call' w"
    using resolve_inside [OF assms(1,2), of name] assms(3)
    by (auto simp: scoped_call_def split: sum.split)
  show "scoped_Rename eval s name name' ren w = scoped_Rename eval s name name' ren' w"
    using resolve_inside [OF assms(1,2), of name] resolve_inside [OF assms(1,2), of name'] assms(4)
    by (auto simp: scoped_Rename_def split: sum.split)
next
  fix A r
  assume "resolve (eval w) s name = Inr (abs_path (full_parts s name))"
    and "eval w (abs_path (full_parts s name)) = None"
  then have "ancestor_in_scope (eval w) s (rev (full_parts s name))"
    by (auto simp: resolve_def Let_def split: if_splits)
  moreover assume a: "strict_prefix A (full_parts s name)" "eval w (abs_path A) = Some r"
    "\<forall>B. strict_prefix A B \<longrightarrow> strict_prefix B (full_parts s name) \<longrightarrow> eval w (abs_path B) = None"
  ultimately have "isUnderRoot s r" using ancestor_nearest by blast
  then show "inside s r" using under_root_inside [OF assms(1)] assms(2) a(2) by (auto simp: eval_ok_def)
qed

section \<open>Error messages\<close>

text \<open>When the operating system reports a path error, as it does for every call on one path,
  the error that reaches the agent names the virtual path only: it is the permission error of the
  resolution, or the reported cause under the virtual path.\<close>

theorem scoped_errors_private:
  assumes "\<And>real w w' e. call real w = (w', Inl e) \<Longrightarrow> \<exists>op0 p0 inner. e = PathError op0 p0 inner"
    and "snd (scoped_call eval s op name call w) = Inl e"
  shows "e = PathError ''resolve'' name ErrPermission \<or>
    (\<exists>real w' op0 p0 inner. call real w = (w', Inl (PathError op0 p0 inner)) \<and> e = PathError op name inner)"
proof (cases "resolve (eval w) s name")
  case (Inl e')
  then show ?thesis
    using assms(2) by (auto simp: scoped_call_def resolve_def Let_def split: option.splits if_splits)
next
  case (Inr real)
  obtain w' r where c: "call real w = (w', r)" by fastforce
  with Inr assms(2) obtain e0 where r: "r = Inl e0" and e: "e = wrapErr op name e0"
    by (cases r) (auto simp: scoped_call_def wrap_result_def)
  from assms(1) [OF c [unfolded r]] obtain op0 p0 inner where "e0 = PathError op0 p0 inner" by blast
  with c r e show ?thesis by (auto simp: wrapErr_def)
qed

text \<open>A failed rename leaks both real paths: the operating system reports the error of a call on
  two paths, which the wrapper does not unwrap but puts whole behind the virtual path.\<close>

theorem rename_error_leaks:
  assumes "resolve (eval w) s oldpath = Inr realOld" and "resolve (eval w) s newpath = Inr realNew"
    and "os_Rename realOld realNew w = (w', Inl (LinkError ''rename'' realOld realNew inner))"
  shows "\<exists>e. scoped_Rename eval s oldpath newpath os_Rename w = (w', Inl e) \<and>
    contains_str (error_string e) realOld \<and> contains_str (error_string e) realNew"
proof -
  let ?e = "wrapErr ''rename'' oldpath (LinkError ''rename'' realOld realNew inner)"
  have e: "error_string ?e = (''rename '' @ oldpath @ '': rename '') @ realOld @ '' '' @ realNew @ '': '' @ inner"
    by (simp add: wrapErr_def path_error_def)
  have "contains_str (error_string ?e) realOld" unfolding e by (rule contains_str_mid)
  moreover have "contains_str (error_string ?e) realNew"
    using contains_str_mid [of "''rename '' @ oldpath @ '': rename '' @ realOld @ '' ''" realNew "'': '' @ inner"]
    unfolding e by simp
  moreover have "scoped_Rename eval s oldpath newpath os_Rename w = (w', Inl ?e)"
    using assms by (simp add: scoped_Rename_def wrap_result_def)
  ultimately show ?thesis by blast
qed

section \<open>A disk\<close>

text \<open>A disk on which only the root and its directories exist, without links.\<close>

definition demo_scope :: scoped_fs where
  "demo_scope = \<lparr>sRoot = ''/home/a''\<rparr>"

definition demo_eval :: "unit \<Rightarrow> string \<Rightarrow> string option" where
  "demo_eval w p = (if p \<in> {''/'', ''/home'', ''/home/a'', ''/home/a/f''} then Some p else None)"

lemma demo_scope_ok: "scope_ok demo_scope"
  by (simp add: scope_ok_def demo_scope_def clean_parts_def clean_step_def abs_path_def Let_def)

lemma demo_resolve:
  "resolve (demo_eval w) demo_scope ''f'' = Inr ''/home/a/f''"
  "resolve (demo_eval w) demo_scope ''../../g'' = Inr ''/home/a/g''"
  by (simp_all add: resolve_def full_parts_eq demo_scope_def clean_parts_def clean_step_def abs_path_def
    demo_eval_def isUnderRoot_def has_prefix_def Let_def)

text \<open>A call that fails outside the root and one that does not cannot be told apart.\<close>

lemma demo_eval_ok: "eval_ok (demo_eval w)"
  by (auto simp: eval_ok_def demo_eval_def clean_abs_def abs_path_def clean_parts_def clean_step_def
    split: if_splits)

theorem scoped_confined_witness:
  "scoped_call demo_eval demo_scope ''stat'' ''../../etc'' (\<lambda>real w. (w, Inr (inside demo_scope real))) () =
   scoped_call demo_eval demo_scope ''stat'' ''../../etc'' (\<lambda>real w. (w, Inr True)) ()"
  using scoped_confined [where eval = demo_eval and w = "()", OF demo_scope_ok demo_eval_ok, where
      call = "\<lambda>real w. (w, Inr (inside demo_scope real))" and call' = "\<lambda>real w. (w, Inr True)"
      and ren = "\<lambda>p q w. (w, Inr ())" and ren' = "\<lambda>p q w. (w, Inr ())"
      and op = "''stat''" and name = "''../../etc''"]
  by auto

theorem scoped_errors_private_witness:
  "snd (scoped_call demo_eval demo_scope ''stat'' ''f''
     (\<lambda>real w. (w, Inl (PathError ''stat'' real ErrPermission) :: os_error + unit)) ()) =
   Inl (PathError ''stat'' ''f'' ErrPermission)"
proof -
  let ?call = "\<lambda>real w. (w, Inl (PathError ''stat'' real ErrPermission) :: os_error + unit)"
  have "snd (scoped_call demo_eval demo_scope ''stat'' ''f'' ?call ()) =
      Inl (PathError ''stat'' ''f'' ErrPermission)"
    by (simp add: scoped_call_def demo_resolve wrap_result_def wrapErr_def)
  from scoped_errors_private [OF _ this] this show ?thesis by simp
qed

theorem rename_error_leaks_witness:
  "\<exists>e. snd (scoped_Rename demo_eval demo_scope ''f'' ''g/h''
      (\<lambda>p q w. (w, Inl (LinkError ''rename'' p q ''no such file or directory''))) ()) = Inl e \<and>
     contains_str (error_string e) ''/home/a/f''"
proof -
  have "resolve (demo_eval ()) demo_scope ''g/h'' = Inr ''/home/a/g/h''"
    by (simp add: resolve_def full_parts_eq demo_scope_def clean_parts_def clean_step_def abs_path_def
      demo_eval_def isUnderRoot_def has_prefix_def Let_def)
  from rename_error_leaks [where eval = demo_eval and w = "()", OF demo_resolve(1) this,
      where os_Rename = "\<lambda>p q w. (w, Inl (LinkError ''rename'' p q ''no such file or directory''))"]
  show ?thesis by fastforce
qed

text \<open>A scope whose root is the root of the disk refuses everything else.\<close>

lemma disk_root_refuses:
  assumes "eval (abs_path (full_parts \<lparr>sRoot = ''/''\<rparr> name)) = Some ''/etc''"
  shows "resolve eval \<lparr>sRoot = ''/''\<rparr> name = Inl (PathError ''resolve'' name ErrPermission)"
  using assms by (simp add: resolve_def isUnderRoot_def has_prefix_def Let_def)

end
