(* ===== verification/SessionFiles.thy ===== *)
theory SessionFiles
  imports MemTree Messages
begin

text \<open>
  The files of the session store, \<open>internal/session/jsonl.go\<close>: reading and appending of event logs
  and JSON values on a disk.  The disk is a map from the components of an absolute path to
  entries, on which the calls of the package \<open>os\<close> are the abstract operations of \<open>MemTree\<close>; a call
  fails for the structural reasons only (a missing parent, a file where a directory is needed).
  The encoders and decoders of \<open>encoding/json\<close> for the library's types are parameters.
\<close>

type_synonym disk = tree

type_synonym fpath = "string list"

section \<open>The operating system's calls\<close>

definition path_string :: "fpath \<Rightarrow> string" where
  "path_string p = ''/'' @ join_str ''/'' p"

text \<open>\<open>filepath.Join\<close> of an absolute base and names that may hold slashes and dots.\<close>

definition join_path :: "fpath \<Rightarrow> string list \<Rightarrow> fpath" where
  "join_path base names = foldl clean_step base (concat (map (split_on (CHR ''/'')) names))"

text \<open>An entry cannot be reached through a file: the error differs from \<open>ErrNotExist\<close>.\<close>

definition through_file :: "disk \<Rightarrow> fpath \<Rightarrow> bool" where
  "through_file d p \<longleftrightarrow> list_ex (\<lambda>n. case d (take n p) of Some (File _) \<Rightarrow> True | _ \<Rightarrow> False) [0..<length p]"

definition os_error_text :: "string \<Rightarrow> fpath \<Rightarrow> string \<Rightarrow> string" where
  "os_error_text op p e = path_error op (path_string p) e"

definition ENOTDIR :: string where "ENOTDIR = ''not a directory''"
definition EISDIR :: string where "EISDIR = ''is a directory''"
definition ENOENT :: string where "ENOENT = ''no such file or directory''"

datatype 'a os_result = NotExist | OsError string | Found 'a

definition os_ReadFile :: "disk \<Rightarrow> fpath \<Rightarrow> string os_result" where
  "os_ReadFile d p =
     (case d p of
        Some (File s) \<Rightarrow> Found s
      | Some Dir \<Rightarrow> OsError (os_error_text ''read'' p EISDIR)
      | None \<Rightarrow> if through_file d p then OsError (os_error_text ''open'' p ENOTDIR) else NotExist)"

definition os_Stat :: "disk \<Rightarrow> fpath \<Rightarrow> entry os_result" where
  "os_Stat d p =
     (case d p of
        Some e \<Rightarrow> Found e
      | None \<Rightarrow> if through_file d p then OsError (os_error_text ''stat'' p ENOTDIR) else NotExist)"

definition mkdir_blocked :: "disk \<Rightarrow> fpath \<Rightarrow> bool" where
  "mkdir_blocked d p \<longleftrightarrow>
     list_ex (\<lambda>n. case d (take n p) of Some (File _) \<Rightarrow> True | _ \<Rightarrow> False) [0..<Suc (length p)]"

definition os_MkdirAll :: "fpath \<Rightarrow> disk \<Rightarrow> disk \<times> string option" where
  "os_MkdirAll p d =
     (if mkdir_blocked d p then (d, Some (os_error_text ''mkdir'' p ENOTDIR))
      else ((\<lambda>q. if prefix q p then Some Dir else d q), None))"

definition os_WriteFile :: "fpath \<Rightarrow> string \<Rightarrow> disk \<Rightarrow> disk \<times> string option" where
  "os_WriteFile p s d =
     (case abs_write p s d of
        Some d' \<Rightarrow> (d', None)
      | None \<Rightarrow> (d, Some (os_error_text ''open'' p (if d p = Some Dir then EISDIR else ENOENT))))"

text \<open>\<open>os.Rename\<close> of a file: a directory is never replaced.\<close>

definition os_Rename_file :: "fpath \<Rightarrow> fpath \<Rightarrow> disk \<Rightarrow> disk \<times> string option" where
  "os_Rename_file p q d =
     (case (d p, d q) of
        (Some (File s), Some Dir) \<Rightarrow> (d, Some (''rename '' @ path_string p @ '' '' @ path_string q @ '': file exists''))
      | (Some (File s), _) \<Rightarrow>
          if d (butlast q) = Some Dir then (d(p := None, q \<mapsto> File s), None)
          else (d, Some (''rename '' @ path_string p @ '' '' @ path_string q @ '': '' @ ENOENT))
      | _ \<Rightarrow> (d, Some (''rename '' @ path_string p @ '' '' @ path_string q @ '': '' @ ENOENT)))"

definition os_Append :: "fpath \<Rightarrow> string \<Rightarrow> disk \<Rightarrow> disk \<times> string option" where
  "os_Append p s d = os_WriteFile p (file_data (d p) @ s) d"

definition os_RemoveAll :: "fpath \<Rightarrow> disk \<Rightarrow> disk \<times> string option" where
  "os_RemoveAll p d =
     (if through_file d p then (d, Some (os_error_text ''unlinkat'' p ENOTDIR))
      else ((\<lambda>q. if prefix p q then None else d q), None))"

lemma mkdir_abs:
  "os_MkdirAll p d = (case abs_mkdir p d of None \<Rightarrow> (d, Some (os_error_text ''mkdir'' p ENOTDIR)) | Some d' \<Rightarrow> (d', None))"
proof -
  have "mkdir_blocked d p \<longleftrightarrow> (\<exists>Q s. prefix Q p \<and> d Q = Some (File s))"
  proof
    assume "mkdir_blocked d p"
    then obtain n where "case d (take n p) of Some (File _) \<Rightarrow> True | _ \<Rightarrow> False"
      by (auto simp: mkdir_blocked_def list_ex_iff simp del: upt_Suc)
    then obtain s where "d (take n p) = Some (File s)"
      by (cases "d (take n p)") (auto split: entry.splits)
    then show "\<exists>Q s. prefix Q p \<and> d Q = Some (File s)" using take_is_prefix by blast
  next
    assume "\<exists>Q s. prefix Q p \<and> d Q = Some (File s)"
    then obtain Q s where "prefix Q p" "d Q = Some (File s)" by blast
    then have "length Q < Suc (length p)" "d (take (length Q) p) = Some (File s)"
      by (auto simp: prefix_def)
    then show "mkdir_blocked d p"
      by (auto simp: mkdir_blocked_def list_ex_iff simp del: upt_Suc intro!: bexI [of _ "length Q"])
  qed
  then show ?thesis by (simp add: os_MkdirAll_def abs_mkdir_def)
qed

lemma join_path_plain: "\<forall>n \<in> set ns. plain n \<Longrightarrow> join_path dd ns = dd @ ns"
proof -
  assume p: "\<forall>n \<in> set ns. plain n"
  then have "concat (map (split_on (CHR ''/'')) ns) = ns"
    by (induction ns) (auto simp: plain_def split_on_none)
  then show ?thesis using foldl_plain [OF p] by (simp add: join_path_def)
qed

section \<open>JSON files\<close>

text \<open>A decoder returns the value it filled, also when it fails.\<close>

type_synonym 'a decoder = "string \<Rightarrow> 'a \<times> string option"

definition readJSON :: "'a decoder \<Rightarrow> 'a \<Rightarrow> fpath \<Rightarrow> disk \<Rightarrow> 'a \<times> string option" where
  "readJSON dec zero p d =
     (case os_ReadFile d p of
        NotExist \<Rightarrow> (zero, None)
      | OsError e \<Rightarrow> (zero, Some e)
      | Found s \<Rightarrow> dec s)"

definition tmp_path :: "string \<Rightarrow> fpath \<Rightarrow> fpath" where
  "tmp_path ext p = butlast p @ [last p @ ext]"

definition writeJSON :: "('a \<Rightarrow> string go_result) \<Rightarrow> fpath \<Rightarrow> 'a \<Rightarrow> disk \<Rightarrow> disk \<times> string option" where
  "writeJSON enc p v d =
     (case os_MkdirAll (butlast p) d of
        (d1, Some e) \<Rightarrow> (d1, Some e)
      | (d1, None) \<Rightarrow>
          (case enc v of
             Inl e \<Rightarrow> (d1, Some e)
           | Inr s \<Rightarrow>
               (case os_WriteFile (tmp_path ''.tmp'' p) s d1 of
                  (d2, Some e) \<Rightarrow> (d2, Some e)
                | (d2, None) \<Rightarrow> os_Rename_file (tmp_path ''.tmp'' p) p d2)))"

section \<open>Event logs\<close>

definition maxScannerBuffer :: nat where
  "maxScannerBuffer = 10 * 1024 * 1024"

definition sessionFileSizeWarn :: nat where
  "sessionFileSizeWarn = 50 * 1024 * 1024"

definition sessionEventCountWarn :: nat where
  "sessionEventCountWarn = 5000"

record session_warning =
  swFileSize :: nat
  swEventCount :: nat
  swSkipped :: nat

text \<open>The lines a \<open>bufio.Scanner\<close> with this buffer yields: a carriage return before the line break
  is dropped, an empty rest is no line, and a line that fills the buffer ends the scan with an
  error.\<close>

definition dropCR :: "string \<Rightarrow> string" where
  "dropCR s = (if s \<noteq> '''' \<and> last s = char_of (13 :: nat) then butlast s else s)"

fun scan_lines :: "string list \<Rightarrow> string list \<times> bool" where
  "scan_lines [] = ([], False)"
| "scan_lines [w] =
     (if w = '''' then ([], False)
      else if maxScannerBuffer \<le> length w then ([], True) else ([dropCR w], False))"
| "scan_lines (w # x # ws) =
     (if maxScannerBuffer \<le> length w then ([], True)
      else (let (rest, err) = scan_lines (x # ws) in (dropCR w # rest, err)))"

fun decode_lines :: "(string \<Rightarrow> 'e option) \<Rightarrow> string list \<Rightarrow> 'e list \<times> nat" where
  "decode_lines dec [] = ([], 0)"
| "decode_lines dec (w # ws) =
     (let (es, skipped) = decode_lines dec ws in
      if w = '''' then (es, skipped)
      else (case dec w of None \<Rightarrow> (es, Suc skipped) | Some e \<Rightarrow> (e # es, skipped)))"

definition log_events :: "(string \<Rightarrow> 'e option) \<Rightarrow> string \<Rightarrow> 'e list \<times> nat" where
  "log_events dec s =
     (let (ls, err) = scan_lines (split_on (char_of (10 :: nat)) s);
          (es, skipped) = decode_lines dec ls
      in (es, if err then Suc skipped else skipped))"

definition warning_of :: "session_warning \<Rightarrow> session_warning option" where
  "warning_of w = (if swFileSize w > 0 \<or> swEventCount w > 0 \<or> swSkipped w > 0 then Some w else None)"

text \<open>A directory in place of the log opens, and its first read fails inside the scanner.\<close>

definition ReadEventJSONL ::
  "(string \<Rightarrow> 'e option) \<Rightarrow> fpath \<Rightarrow> disk \<Rightarrow> ('e list \<times> session_warning option) go_result" where
  "ReadEventJSONL dec p d =
     (case d p of
        Some (File s) \<Rightarrow>
          (let (events, skipped) = log_events dec s
           in Inr (events, warning_of
                \<lparr>swFileSize = (if length s > sessionFileSizeWarn then length s else 0),
                 swEventCount = (if length events > sessionEventCountWarn then length events else 0),
                 swSkipped = skipped\<rparr>))
      | Some Dir \<Rightarrow> Inr ([], Some \<lparr>swFileSize = 0, swEventCount = 0, swSkipped = 1\<rparr>)
      | None \<Rightarrow>
          if through_file d p then Inl (''open events file: '' @ os_error_text ''open'' p ENOTDIR)
          else Inr ([], None))"

definition AppendEventJSONL ::
  "('e \<Rightarrow> string go_result) \<Rightarrow> fpath \<Rightarrow> 'e \<Rightarrow> disk \<Rightarrow> disk \<times> string option" where
  "AppendEventJSONL enc p evt d =
     (case os_MkdirAll (butlast p) d of
        (d1, Some e) \<Rightarrow> (d1, Some (''create directory: '' @ e))
      | (d1, None) \<Rightarrow>
          (case enc evt of
             Inl e \<Rightarrow> (d1, Some (''marshal event: '' @ e))
           | Inr s \<Rightarrow>
               (case os_Append p (s @ newline) d1 of
                  (d2, Some e) \<Rightarrow> (d2, Some (''open events file: '' @ e))
                | (d2, None) \<Rightarrow> (d2, None))))"

section \<open>What an append adds to a log\<close>

abbreviation nl :: char where
  "nl \<equiv> char_of (10 :: nat)"

definition log_lines :: "string \<Rightarrow> string list" where
  "log_lines s = butlast (split_on nl s)"

text \<open>A log in which every line is ended, and one in which a scan stops before the end.\<close>

definition log_ended :: "string \<Rightarrow> bool" where
  "log_ended s \<longleftrightarrow> last (split_on nl s) = ''''"

definition log_blocked :: "string \<Rightarrow> bool" where
  "log_blocked s \<longleftrightarrow> snd (scan_lines (split_on nl s))"

text \<open>An encoder of events whose output the decoder accepts: one line, not empty, as JSON objects
  are.\<close>

definition codec_ok :: "('e \<Rightarrow> string go_result) \<Rightarrow> (string \<Rightarrow> 'e option) \<Rightarrow> bool" where
  "codec_ok enc dec \<longleftrightarrow>
     (\<forall>e w. enc e = Inr w \<longrightarrow> w \<noteq> '''' \<and> nl \<notin> set w \<and> last w \<noteq> char_of (13 :: nat) \<and> dec w = Some e)"

lemma codecD:
  assumes "codec_ok enc dec" and "enc e = Inr w"
  shows "w \<noteq> ''''" and "nl \<notin> set w" and "dropCR w = w" and "dec w = Some e"
  using assms by (auto simp: codec_ok_def dropCR_def)

lemma split_on_line:
  assumes "nl \<notin> set w" and "log_ended s"
  shows "split_on nl (s @ w @ newline) = log_lines s @ [w, '''']"
proof -
  have "split_on nl ((s @ w) @ nl # '''') = split_on nl (s @ w) @ split_on nl ''''"
    by (rule split_on_two)
  then show ?thesis
    using split_on_append [OF assms(1), of s] assms(2)
    by (simp add: newline_def log_lines_def log_ended_def)
qed

lemma ended_split: "log_ended s \<Longrightarrow> split_on nl s = log_lines s @ ['''']"
  unfolding log_lines_def log_ended_def by (metis append_butlast_last_id split_on_nonempty)

lemma scan_snoc:
  "w \<noteq> '''' \<Longrightarrow> scan_lines (ls @ [w, '''']) =
     (let (out, err) = scan_lines (ls @ ['''']) in
      if err then (out, True)
      else if maxScannerBuffer \<le> length w then (out, True) else (out @ [dropCR w], False))"
proof (induction ls)
  case (Cons l ls)
  then show ?case by (cases ls) (auto simp: Let_def split: prod.splits)
qed simp

lemma decode_append:
  "decode_lines dec (xs @ ys) =
     (fst (decode_lines dec xs) @ fst (decode_lines dec ys), snd (decode_lines dec xs) + snd (decode_lines dec ys))"
  by (induction xs) (auto simp: Let_def split: prod.splits option.splits)

lemma log_append:
  assumes "codec_ok enc dec" and "enc e = Inr w" and "log_ended s"
  shows "fst (log_events dec (s @ w @ newline)) =
      (if log_blocked s \<or> maxScannerBuffer \<le> length w then fst (log_events dec s) else fst (log_events dec s) @ [e])"
    and "log_ended (s @ w @ newline)"
    and "log_blocked (s @ w @ newline) \<longleftrightarrow> log_blocked s \<or> maxScannerBuffer \<le> length w"
proof -
  note c = codecD [OF assms(1,2)]
  note sp = split_on_line [OF c(2) assms(3)]
  note se = ended_split [OF assms(3)]
  show "log_ended (s @ w @ newline)" by (simp add: log_ended_def sp)
  obtain out err where o: "scan_lines (log_lines s @ ['''']) = (out, err)" by fastforce
  have n: "scan_lines (log_lines s @ [w, '''']) = (if err then (out, True)
      else if maxScannerBuffer \<le> length w then (out, True) else (out @ [w], False))"
    using scan_snoc [OF c(1), of "log_lines s"] c(3) by (simp add: o)
  show "log_blocked (s @ w @ newline) \<longleftrightarrow> log_blocked s \<or> maxScannerBuffer \<le> length w"
    using o n by (simp add: log_blocked_def sp se)
  show "fst (log_events dec (s @ w @ newline)) =
      (if log_blocked s \<or> maxScannerBuffer \<le> length w then fst (log_events dec s) else fst (log_events dec s) @ [e])"
    using o n c(1,4)
    by (auto simp: log_events_def log_blocked_def sp se decode_append Let_def split: prod.splits)
qed

text \<open>The events of a log on the disk.\<close>

definition disk_events :: "(string \<Rightarrow> 'e option) \<Rightarrow> disk \<Rightarrow> fpath \<Rightarrow> 'e list" where
  "disk_events dec d p = fst (log_events dec (file_data (d p)))"

lemma log_events_Nil [simp]: "log_events dec '''' = ([], 0)"
  by (simp add: log_events_def)

lemma ReadEventJSONL_events:
  "ReadEventJSONL dec p d = Inr (es, warn) \<Longrightarrow> es = disk_events dec d p"
  by (auto simp: ReadEventJSONL_def disk_events_def file_data_def Let_def
    split: option.splits entry.splits if_splits prod.splits)

lemma ReadEventJSONL_file:
  "d p = Some (File s) \<Longrightarrow> \<exists>warn. ReadEventJSONL dec p d = Inr (disk_events dec d p, warn)"
  by (auto simp: ReadEventJSONL_def disk_events_def file_data_def Let_def split: prod.splits)

lemma os_MkdirAll_keeps:
  "os_MkdirAll q d = (d', None) \<Longrightarrow> d p = Some e \<Longrightarrow> d' p = Some e"
  by (cases e) (auto simp: mkdir_abs abs_mkdir_def split: if_splits)

lemma os_MkdirAll_data:
  assumes "os_MkdirAll q d = (d', None)"
  shows "file_data (d' p) = file_data (d p)"
proof (cases "d p")
  case None
  then have "d' p = None \<or> d' p = Some Dir"
    using assms by (auto simp: os_MkdirAll_def split: if_splits)
  with None show ?thesis by (auto simp: file_data_def)
qed (use os_MkdirAll_keeps [OF assms, of p] in simp)

lemma os_WriteFile_Some:
  "os_WriteFile p s d = (d', None) \<Longrightarrow> d' = d(p \<mapsto> File s)"
  by (auto simp: os_WriteFile_def abs_write_def split: if_splits)

lemma AppendEventJSONL_ok:
  assumes "AppendEventJSONL enc p evt d = (d', None)"
  obtains w where "enc evt = Inr w" "d' p = Some (File (file_data (d p) @ w @ newline))"
    "\<And>q e. q \<noteq> p \<Longrightarrow> d q = Some e \<Longrightarrow> d' q = Some e"
    "\<And>q. q \<noteq> p \<Longrightarrow> file_data (d' q) = file_data (d q)"
proof -
  obtain d1 where d1: "os_MkdirAll (butlast p) d = (d1, None)"
    using assms by (auto simp: AppendEventJSONL_def split: prod.splits option.splits)
  obtain w where w: "enc evt = Inr w"
    using assms d1 by (auto simp: AppendEventJSONL_def split: sum.splits)
  have "os_Append p (w @ newline) d1 = (d', None)"
    using assms d1 w by (auto simp: AppendEventJSONL_def split: prod.splits option.splits)
  then have d': "d' = d1(p \<mapsto> File (file_data (d1 p) @ w @ newline))"
    by (auto simp: os_Append_def dest: os_WriteFile_Some)
  show ?thesis
    by (rule that [OF w])
      (use d' os_MkdirAll_keeps [OF d1] os_MkdirAll_data [OF d1] in \<open>auto\<close>)
qed

text \<open>C17. An event appended to a log is the last one read from it, and everything read before is still
  read before it, unless the scan stops at a line of ten megabytes or more: then the new event and
  every later one is silently missing, though each append succeeds.\<close>

theorem append_then_read:
  assumes "codec_ok enc dec" and "AppendEventJSONL enc p evt d = (d', None)"
    and "log_ended (file_data (d p))" and "ReadEventJSONL dec p d = Inr (es, warn)"
  shows "\<exists>w warn'. enc evt = Inr w \<and> log_ended (file_data (d' p)) \<and>
    ReadEventJSONL dec p d' =
      Inr (if log_blocked (file_data (d p)) \<or> maxScannerBuffer \<le> length w then es else es @ [evt], warn') \<and>
    (log_blocked (file_data (d' p)) \<longleftrightarrow> log_blocked (file_data (d p)) \<or> maxScannerBuffer \<le> length w)"
proof -
  from AppendEventJSONL_ok [OF assms(2)] obtain w where w: "enc evt = Inr w"
    "d' p = Some (File (file_data (d p) @ w @ newline))" by metis
  from ReadEventJSONL_file [where dec = dec and d = d' and p = p, OF w(2)] obtain warn' where
    r: "ReadEventJSONL dec p d' = Inr (disk_events dec d' p, warn')" by blast
  have fd: "file_data (d' p) = file_data (d p) @ w @ newline" using w(2) by (simp add: file_data_def)
  note l = log_append [OF assms(1) w(1) assms(3)]
  show ?thesis
    using w(1) r l ReadEventJSONL_events [OF assms(4)] by (auto simp: fd disk_events_def)
qed

lemma control_chars: "char_of (10 :: nat) = CHR 0x0A" "char_of (13 :: nat) = CHR 0x0D"
  by (simp_all add: char_of_def bit_Suc_0_iff)

definition demo_enc :: "string \<Rightarrow> string go_result" where
  "demo_enc s = (if nl \<in> set s then Inl ''unsupported'' else Inr (s @ ''}''))"

definition demo_dec :: "string \<Rightarrow> string option" where
  "demo_dec w = (if w = '''' then None else Some (butlast w))"

lemma demo_codec: "codec_ok demo_enc demo_dec"
  by (auto simp: codec_ok_def demo_enc_def demo_dec_def control_chars split: if_splits)

definition demo_disk :: disk where
  "demo_disk q = (if q = [] then Some Dir else None)"

theorem append_then_read_witness:
  "\<exists>d' warn. AppendEventJSONL demo_enc [''log''] ''a'' demo_disk = (d', None) \<and>
     ReadEventJSONL demo_dec [''log''] d' = Inr ([''a''], warn)"
proof -
  obtain d' where d': "AppendEventJSONL demo_enc [''log''] ''a'' demo_disk = (d', None)"
    by (simp add: AppendEventJSONL_def os_MkdirAll_def mkdir_blocked_def demo_disk_def demo_enc_def
      control_chars os_Append_def os_WriteFile_def abs_write_def)
  have ended: "log_ended (file_data (demo_disk [''log'']))"
    by (simp add: log_ended_def demo_disk_def file_data_def)
  have old: "ReadEventJSONL demo_dec [''log''] demo_disk = Inr ([], None)"
    by (simp add: ReadEventJSONL_def demo_disk_def through_file_def)
  have "\<not> log_blocked (file_data (demo_disk [''log'']))"
    by (simp add: log_blocked_def demo_disk_def file_data_def)
  moreover have "enc = Inr w \<Longrightarrow> enc = demo_enc ''a'' \<Longrightarrow> length w < maxScannerBuffer" for w enc
    by (auto simp: demo_enc_def maxScannerBuffer_def control_chars)
  ultimately show ?thesis using append_then_read [OF demo_codec d' ended old] d' by fastforce
qed

end
