(* ===== verification/SessionService.thy ===== *)
theory SessionService
  imports SessionFiles
begin

text \<open>
  The session store of \<open>internal/session/file_service.go\<close> with the wrapper of
  \<open>sanitize_wrapper.go\<close> and the titles of \<open>naming.go\<close>.  The session object and the checks of keys
  belong to the agent library: they are the record \<open>session_lib\<close> of functions, and the codecs of
  \<open>encoding/json\<close> the record \<open>codecs\<close>.  A goroutine that a method starts is returned as a task, and
  is a step of its own on the disk.
\<close>

section \<open>Types\<close>

record skey =
  skApp :: string
  skUser :: string
  skSession :: string

text \<open>An event with the fields the store reads: the messages of the response's choices and its
  total of tokens; \<open>seOther\<close> stands for the others.\<close>

record session_event =
  seID :: string
  seAuthor :: string
  seResponse :: "(message list \<times> int option) option"
  seOther :: string

record summary =
  suSummary :: string
  suUpdatedAt :: time

record 'x session =
  ssApp :: string
  ssUser :: string
  ssID :: string
  ssEvents :: "session_event list"
  ssSummaries :: "string \<rightharpoonup> summary"
  ssInner :: 'x

text \<open>A state map in an order in which Go may range over it.\<close>

type_synonym state_map = "(string \<times> string) list"

record session_metadata =
  smID :: string
  smName :: string
  smCreatedAt :: time
  smUpdatedAt :: time
  smArchivedAt :: time
  smChannel :: string
  smUserID :: string
  smParentSessionID :: string
  smParentEventID :: string
  smIsThread :: bool
  smTrustTier :: int

definition zero_metadata :: session_metadata where
  "zero_metadata = \<lparr>smID = '''', smName = '''', smCreatedAt = 0, smUpdatedAt = 0, smArchivedAt = 0,
     smChannel = '''', smUserID = '''', smParentSessionID = '''', smParentEventID = '''',
     smIsThread = False, smTrustTier = 0\<rparr>"

record context_cache =
  ccMessages :: "message list"
  ccUpdatedAt :: time
  ccTokenCount :: int

definition zero_cache :: context_cache where
  "zero_cache = \<lparr>ccMessages = [], ccUpdatedAt = 0, ccTokenCount = 0\<rparr>"

definition zero_summary :: summary where
  "zero_summary = \<lparr>suSummary = '''', suUpdatedAt = 0\<rparr>"

record 'x session_lib =
  lbCheckUserKey :: "string \<Rightarrow> string \<Rightarrow> string option"
  lbCheckSessionKey :: "skey \<Rightarrow> string option"
  lbNewSession :: "skey \<Rightarrow> session_event list \<Rightarrow> state_map option \<Rightarrow> 'x session"
  lbSetState :: "string \<Rightarrow> string \<Rightarrow> 'x session \<Rightarrow> 'x session"
  lbSnapshotState :: "'x session \<Rightarrow> state_map"
  lbUpdateUserSession :: "session_event \<Rightarrow> 'x session \<Rightarrow> 'x session"
  lbAppPrefix :: string
  lbUserPrefix :: string
  lbTempPrefix :: string
  lbErrSessionIDRequired :: string
  lbErrAppNameRequired :: string
  lbErrNilSession :: string

record codecs =
  encEvent :: "session_event \<Rightarrow> string go_result"
  decEvent :: "string \<Rightarrow> session_event option"
  encState :: "state_map \<Rightarrow> string go_result"
  decState :: "state_map option decoder"
  encMetadata :: "session_metadata \<Rightarrow> string go_result"
  decMetadata :: "session_metadata decoder"
  encSummary :: "summary \<Rightarrow> string go_result"
  decSummary :: "summary decoder"
  encCache :: "context_cache \<Rightarrow> string go_result"
  decCache :: "context_cache decoder"

section \<open>Paths\<close>

definition sessionDir :: "fpath \<Rightarrow> skey \<Rightarrow> fpath" where
  "sessionDir dd k = join_path dd [skApp k, skUser k, skSession k]"

definition eventsPath :: "fpath \<Rightarrow> skey \<Rightarrow> fpath" where
  "eventsPath dd k = sessionDir dd k @ [''events.jsonl'']"

definition summaryPath :: "fpath \<Rightarrow> skey \<Rightarrow> fpath" where
  "summaryPath dd k = sessionDir dd k @ [''summary.json'']"

definition metadataPath :: "fpath \<Rightarrow> skey \<Rightarrow> fpath" where
  "metadataPath dd k = sessionDir dd k @ [''metadata.json'']"

definition contextCachePath :: "fpath \<Rightarrow> skey \<Rightarrow> fpath" where
  "contextCachePath dd k = sessionDir dd k @ [''context.json'']"

definition sessionStatePath :: "fpath \<Rightarrow> skey \<Rightarrow> fpath" where
  "sessionStatePath dd k = sessionDir dd k @ [''state.json'']"

definition appStatePath :: "fpath \<Rightarrow> string \<Rightarrow> fpath" where
  "appStatePath dd app = join_path dd [app] @ [''app_state.json'']"

definition userStatePath :: "fpath \<Rightarrow> string \<Rightarrow> string \<Rightarrow> fpath" where
  "userStatePath dd app user = join_path dd [app, user] @ [''user_state.json'']"

section \<open>Metadata and the context cache\<close>

definition ReadMetadata :: "codecs \<Rightarrow> fpath \<Rightarrow> skey \<Rightarrow> disk \<Rightarrow> session_metadata option go_result" where
  "ReadMetadata cd dd k d =
     (case readJSON (decMetadata cd) zero_metadata (metadataPath dd k) d of
        (_, Some e) \<Rightarrow> Inl e
      | (meta, None) \<Rightarrow> Inr (if smID meta = '''' then None else Some meta))"

definition WriteMetadata ::
  "codecs \<Rightarrow> fpath \<Rightarrow> skey \<Rightarrow> session_metadata \<Rightarrow> disk \<Rightarrow> disk \<times> string option" where
  "WriteMetadata cd dd k meta = writeJSON (encMetadata cd) (metadataPath dd k) meta"

definition ReadContextCache :: "codecs \<Rightarrow> fpath \<Rightarrow> skey \<Rightarrow> disk \<Rightarrow> context_cache option go_result" where
  "ReadContextCache cd dd k d =
     (case readJSON (decCache cd) zero_cache (contextCachePath dd k) d of
        (_, Some e) \<Rightarrow> Inl e
      | (c, None) \<Rightarrow> Inr (if ccMessages c = [] then None else Some c))"

definition WriteContextCache ::
  "codecs \<Rightarrow> fpath \<Rightarrow> skey \<Rightarrow> context_cache \<Rightarrow> disk \<Rightarrow> disk \<times> string option" where
  "WriteContextCache cd dd k c = writeJSON (encCache cd) (contextCachePath dd k) c"

section \<open>Application and user state\<close>

definition set_all :: "'x session_lib \<Rightarrow> string \<Rightarrow> state_map option \<Rightarrow> 'x session \<Rightarrow> 'x session" where
  "set_all lib pre m s =
     foldl (\<lambda>s (k, v). lbSetState lib (pre @ k) v s) s (case m of None \<Rightarrow> [] | Some kvs \<Rightarrow> kvs)"

text \<open>The errors of the two reads are ignored, not what the decoder filled before them.\<close>

definition loadMergedState ::
  "'x session_lib \<Rightarrow> codecs \<Rightarrow> fpath \<Rightarrow> skey \<Rightarrow> disk \<Rightarrow> 'x session \<Rightarrow> 'x session" where
  "loadMergedState lib cd dd k d s =
     set_all lib (lbUserPrefix lib) (fst (readJSON (decState cd) None (userStatePath dd (skApp k) (skUser k)) d))
       (set_all lib (lbAppPrefix lib) (fst (readJSON (decState cd) None (appStatePath dd (skApp k)) d)) s)"

definition merge_state :: "string \<Rightarrow> state_map \<Rightarrow> state_map option \<Rightarrow> state_map" where
  "merge_state pre kvs existing =
     foldl (\<lambda>m (k, v). AList.update (trim_prefix k pre) v m)
       (case existing of None \<Rightarrow> [] | Some m \<Rightarrow> m) kvs"

definition update_state_file ::
  "codecs \<Rightarrow> string \<Rightarrow> fpath \<Rightarrow> (state_map option \<Rightarrow> state_map option) \<Rightarrow> disk \<Rightarrow> disk \<times> string option" where
  "update_state_file cd what p f d =
     (case readJSON (decState cd) None p d of
        (_, Some e) \<Rightarrow> (d, Some (''read '' @ what @ '' state: '' @ e))
      | (existing, None) \<Rightarrow>
          (case f existing of None \<Rightarrow> (d, None) | Some m \<Rightarrow> writeJSON (encState cd) p m d))"

definition UpdateAppState ::
  "'x session_lib \<Rightarrow> codecs \<Rightarrow> fpath \<Rightarrow> string \<Rightarrow> state_map \<Rightarrow> disk \<Rightarrow> disk \<times> string option" where
  "UpdateAppState lib cd dd app kvs d =
     (if app = '''' then (d, Some (lbErrAppNameRequired lib))
      else update_state_file cd ''app'' (appStatePath dd app)
             (\<lambda>existing. Some (merge_state (lbAppPrefix lib) kvs existing)) d)"

definition DeleteAppState ::
  "'x session_lib \<Rightarrow> codecs \<Rightarrow> fpath \<Rightarrow> string \<Rightarrow> string \<Rightarrow> disk \<Rightarrow> disk \<times> string option" where
  "DeleteAppState lib cd dd app key d =
     (if app = '''' then (d, Some (lbErrAppNameRequired lib))
      else update_state_file cd ''app'' (appStatePath dd app)
             (map_option (AList.delete (trim_prefix key (lbAppPrefix lib)))) d)"

definition list_states :: "codecs \<Rightarrow> string \<Rightarrow> fpath \<Rightarrow> disk \<Rightarrow> state_map go_result" where
  "list_states cd what p d =
     (case readJSON (decState cd) None p d of
        (_, Some e) \<Rightarrow> Inl (''read '' @ what @ '' state: '' @ e)
      | (None, None) \<Rightarrow> Inr []
      | (Some m, None) \<Rightarrow> Inr m)"

definition ListAppStates ::
  "'x session_lib \<Rightarrow> codecs \<Rightarrow> fpath \<Rightarrow> string \<Rightarrow> disk \<Rightarrow> state_map go_result" where
  "ListAppStates lib cd dd app d =
     (if app = '''' then Inl (lbErrAppNameRequired lib) else list_states cd ''app'' (appStatePath dd app) d)"

definition refused_key :: "string list \<Rightarrow> state_map \<Rightarrow> string option" where
  "refused_key pres kvs = find (\<lambda>k. list_ex (has_prefix k) pres) (map fst kvs)"

definition UpdateUserState ::
  "'x session_lib \<Rightarrow> codecs \<Rightarrow> fpath \<Rightarrow> string \<Rightarrow> string \<Rightarrow> state_map \<Rightarrow> disk \<Rightarrow> disk \<times> string option" where
  "UpdateUserState lib cd dd app user kvs d =
     (case lbCheckUserKey lib app user of
        Some e \<Rightarrow> (d, Some e)
      | None \<Rightarrow>
          (case refused_key [lbAppPrefix lib, lbTempPrefix lib] kvs of
             Some k \<Rightarrow> (d, Some (''update user state: '' @ k @ '' is not allowed''))
           | None \<Rightarrow> update_state_file cd ''user'' (userStatePath dd app user)
               (\<lambda>existing. Some (merge_state (lbUserPrefix lib) kvs existing)) d))"

definition ListUserStates ::
  "'x session_lib \<Rightarrow> codecs \<Rightarrow> fpath \<Rightarrow> string \<Rightarrow> string \<Rightarrow> disk \<Rightarrow> state_map go_result" where
  "ListUserStates lib cd dd app user d =
     (case lbCheckUserKey lib app user of
        Some e \<Rightarrow> Inl e
      | None \<Rightarrow> list_states cd ''user'' (userStatePath dd app user) d)"

definition DeleteUserState ::
  "'x session_lib \<Rightarrow> codecs \<Rightarrow> fpath \<Rightarrow> string \<Rightarrow> string \<Rightarrow> string \<Rightarrow> disk \<Rightarrow> disk \<times> string option" where
  "DeleteUserState lib cd dd app user key d =
     (case lbCheckUserKey lib app user of
        Some e \<Rightarrow> (d, Some e)
      | None \<Rightarrow> update_state_file cd ''user'' (userStatePath dd app user)
          (map_option (AList.delete (trim_prefix key (lbUserPrefix lib)))) d)"

text \<open>The first refused key in the order of the range decides the message.\<close>

definition UpdateSessionState ::
  "'x session_lib \<Rightarrow> codecs \<Rightarrow> fpath \<Rightarrow> skey \<Rightarrow> state_map \<Rightarrow> disk \<Rightarrow> disk \<times> string option" where
  "UpdateSessionState lib cd dd k kvs d =
     (case lbCheckSessionKey lib k of
        Some e \<Rightarrow> (d, Some e)
      | None \<Rightarrow>
          (case refused_key [lbAppPrefix lib, lbUserPrefix lib] kvs of
             Some key \<Rightarrow> (d, Some (''update session state: '' @ key @ '' is not allowed, use '' @
               (if has_prefix key (lbAppPrefix lib) then ''UpdateAppState'' else ''UpdateUserState'') @ '' instead''))
           | None \<Rightarrow> update_state_file cd ''session'' (sessionStatePath dd k)
               (\<lambda>existing. Some (foldl (\<lambda>m (key, v). AList.update key v m)
                  (case existing of None \<Rightarrow> [] | Some m \<Rightarrow> m) kvs)) d))"

section \<open>Sessions\<close>

definition CreateSession ::
  "'x session_lib \<Rightarrow> codecs \<Rightarrow> fpath \<Rightarrow> skey \<Rightarrow> state_map \<Rightarrow> disk \<Rightarrow> disk \<times> 'x session go_result" where
  "CreateSession lib cd dd k state d =
     (case lbCheckUserKey lib (skApp k) (skUser k) of
        Some e \<Rightarrow> (d, Inl e)
      | None \<Rightarrow>
          if skSession k = '''' then (d, Inl (lbErrSessionIDRequired lib))
          else
            (case os_MkdirAll (sessionDir dd k) d of
               (d1, Some e) \<Rightarrow> (d1, Inl (''create session directory: '' @ e))
             | (d1, None) \<Rightarrow>
                 (let sess = set_all lib '''' (Some state) (lbNewSession lib k [] None) in
                  case writeJSON (encState cd) (sessionStatePath dd k) (lbSnapshotState lib sess) d1 of
                    (d2, Some e) \<Rightarrow> (d2, Inl (''write session state: '' @ e))
                  | (d2, None) \<Rightarrow> (d2, Inr (loadMergedState lib cd dd k d2 sess)))))"

text \<open>\<open>flt\<close> is \<open>ApplyEventFiltering\<close> with the options of the call.\<close>

definition load_session ::
  "'x session_lib \<Rightarrow> codecs \<Rightarrow> fpath \<Rightarrow> skey \<Rightarrow> disk \<Rightarrow> ('x session \<Rightarrow> 'x session) \<Rightarrow> string \<Rightarrow> string \<Rightarrow>
   'x session option go_result" where
  "load_session lib cd dd k d finish errEvents errState =
     (if os_Stat d (sessionDir dd k) = NotExist then Inr None
      else
        (case ReadEventJSONL (decEvent cd) (eventsPath dd k) d of
           Inl e \<Rightarrow> Inl (errEvents @ e)
         | Inr (events, _) \<Rightarrow>
             (case readJSON (decState cd) None (sessionStatePath dd k) d of
                (_, Some e) \<Rightarrow> Inl (errState @ e)
              | (state, None) \<Rightarrow>
                  Inr (Some (loadMergedState lib cd dd k d (finish (lbNewSession lib k events state)))))))"

definition with_summary :: "codecs \<Rightarrow> fpath \<Rightarrow> skey \<Rightarrow> disk \<Rightarrow> 'x session \<Rightarrow> 'x session" where
  "with_summary cd dd k d s =
     (case readJSON (decSummary cd) zero_summary (summaryPath dd k) d of
        (_, Some _) \<Rightarrow> s
      | (sm, None) \<Rightarrow> if suSummary sm = '''' then s else s\<lparr>ssSummaries := (ssSummaries s)('''' \<mapsto> sm)\<rparr>)"

definition GetSession ::
  "'x session_lib \<Rightarrow> codecs \<Rightarrow> fpath \<Rightarrow> ('x session \<Rightarrow> 'x session) \<Rightarrow> skey \<Rightarrow> disk \<Rightarrow> 'x session option go_result" where
  "GetSession lib cd dd flt k d =
     (case lbCheckSessionKey lib k of
        Some e \<Rightarrow> Inl e
      | None \<Rightarrow> load_session lib cd dd k d (\<lambda>s. flt (with_summary cd dd k d s)) ''read events: '' ''read session state: '')"

definition getSessionUnlocked ::
  "'x session_lib \<Rightarrow> codecs \<Rightarrow> fpath \<Rightarrow> ('x session \<Rightarrow> 'x session) \<Rightarrow> skey \<Rightarrow> disk \<Rightarrow> 'x session option go_result" where
  "getSessionUnlocked lib cd dd flt k d = load_session lib cd dd k d flt '''' ''''"

text \<open>\<open>names\<close> are the names of the user directory's entries in the order of \<open>os.ReadDir\<close>.\<close>

definition ListSessions ::
  "'x session_lib \<Rightarrow> codecs \<Rightarrow> fpath \<Rightarrow> ('x session \<Rightarrow> 'x session) \<Rightarrow> string list \<Rightarrow> string \<Rightarrow> string \<Rightarrow> disk \<Rightarrow>
   'x session list go_result" where
  "ListSessions lib cd dd flt names app user d =
     (case lbCheckUserKey lib app user of
        Some e \<Rightarrow> Inl e
      | None \<Rightarrow>
          (let userDir = join_path dd [app, user] in
           case os_Stat d userDir of
             NotExist \<Rightarrow> Inr []
           | OsError e \<Rightarrow> Inl (''read user directory: '' @ e)
           | Found (File _) \<Rightarrow> Inl (''read user directory: '' @ os_error_text ''readdirent'' userDir ENOTDIR)
           | Found Dir \<Rightarrow>
               Inr (List.map_filter (\<lambda>n.
                 if d (userDir @ [n]) \<noteq> Some Dir then None
                 else (case getSessionUnlocked lib cd dd flt \<lparr>skApp = app, skUser = user, skSession = n\<rparr> d of
                         Inr (Some s) \<Rightarrow> Some s
                       | _ \<Rightarrow> None)) names)))"

definition DeleteSession ::
  "'x session_lib \<Rightarrow> fpath \<Rightarrow> skey \<Rightarrow> disk \<Rightarrow> disk \<times> string option" where
  "DeleteSession lib dd k d =
     (case lbCheckSessionKey lib k of
        Some e \<Rightarrow> (d, Some e)
      | None \<Rightarrow>
          (case os_RemoveAll (sessionDir dd k) d of
             (d1, Some e) \<Rightarrow> (d1, Some (''remove session directory: '' @ e))
           | (d1, None) \<Rightarrow> (d1, None)))"

section \<open>Appending an event\<close>

datatype session_task =
  AskForName skey string
| BumpUpdatedAt skey time
| CacheContext skey int

definition first_content :: "message list \<Rightarrow> string" where
  "first_content ms = (case find (\<lambda>m. mContent m \<noteq> '''') ms of None \<Rightarrow> '''' | Some m \<Rightarrow> mContent m)"

definition session_key :: "'x session \<Rightarrow> skey" where
  "session_key s = \<lparr>skApp = ssApp s, skUser = ssUser s, skSession = ssID s\<rparr>"

definition event_messages :: "session_event \<Rightarrow> message list" where
  "event_messages e = (case seResponse e of None \<Rightarrow> [] | Some (ms, _) \<Rightarrow> ms)"

definition naming_task :: "bool \<Rightarrow> skey \<Rightarrow> session_event \<Rightarrow> session_task list" where
  "naming_task namer k evt =
     (let firstContent = (if seAuthor evt = ''user'' then first_content (event_messages evt) else '''')
      in if namer \<and> firstContent \<noteq> '''' then [AskForName k firstContent] else [])"

definition caching_task :: "skey \<Rightarrow> session_event \<Rightarrow> session_task list" where
  "caching_task k evt =
     (case seResponse evt of
        Some (_, Some n) \<Rightarrow> if n > 0 then [CacheContext k n] else []
      | _ \<Rightarrow> [])"

text \<open>The disk, the session object, the goroutines started, and the error.  A failed write of the
  metadata is only logged.\<close>

definition AppendEvent ::
  "'x session_lib \<Rightarrow> codecs \<Rightarrow> fpath \<Rightarrow> bool \<Rightarrow> time \<Rightarrow> 'x session option \<Rightarrow> session_event \<Rightarrow> disk \<Rightarrow>
   disk \<times> 'x session option \<times> session_task list \<times> string option" where
  "AppendEvent lib cd dd namer now sess evt d =
     (case sess of
        None \<Rightarrow> (d, None, [], Some (lbErrNilSession lib))
      | Some s \<Rightarrow>
          (let k = session_key s in
           case lbCheckSessionKey lib k of
             Some e \<Rightarrow> (d, Some s, [], Some e)
           | None \<Rightarrow>
               (let isFirst = (os_Stat d (metadataPath dd k) = NotExist);
                    s1 = lbUpdateUserSession lib evt s
                in case AppendEventJSONL (encEvent cd) (eventsPath dd k) evt d of
                     (d1, Some e) \<Rightarrow> (d1, Some s1, [], Some (''append event: '' @ e))
                   | (d1, None) \<Rightarrow>
                       (case writeJSON (encState cd) (sessionStatePath dd k) (lbSnapshotState lib s1) d1 of
                          (d2, Some e) \<Rightarrow> (d2, Some s1, [], Some (''write session state: '' @ e))
                        | (d2, None) \<Rightarrow>
                            (if isFirst then
                               (fst (WriteMetadata cd dd k (zero_metadata\<lparr>smID := skSession k, smUserID := skUser k,
                                  smCreatedAt := now, smUpdatedAt := now\<rparr>) d2),
                                Some s1, naming_task namer k evt @ caching_task k evt, None)
                             else (d2, Some s1, BumpUpdatedAt k now # caching_task k evt, None))))))"

definition update_metadata ::
  "codecs \<Rightarrow> fpath \<Rightarrow> skey \<Rightarrow> (session_metadata \<Rightarrow> session_metadata) \<Rightarrow> disk \<Rightarrow> disk" where
  "update_metadata cd dd k f d =
     (case readJSON (decMetadata cd) zero_metadata (metadataPath dd k) d of
        (_, Some _) \<Rightarrow> d
      | (meta, None) \<Rightarrow> if smID meta = '''' then d else fst (WriteMetadata cd dd k (f meta) d))"

text \<open>\<open>name\<close> is what the namer answered.\<close>

definition asyncInferName :: "codecs \<Rightarrow> fpath \<Rightarrow> skey \<Rightarrow> string \<Rightarrow> disk \<Rightarrow> disk" where
  "asyncInferName cd dd k name = update_metadata cd dd k (\<lambda>meta. meta\<lparr>smName := name\<rparr>)"

definition bumpMetadataUpdatedAt :: "codecs \<Rightarrow> fpath \<Rightarrow> skey \<Rightarrow> time \<Rightarrow> disk \<Rightarrow> disk" where
  "bumpMetadataUpdatedAt cd dd k t = update_metadata cd dd k (\<lambda>meta. meta\<lparr>smUpdatedAt := t\<rparr>)"

definition cached_messages :: "session_event list \<Rightarrow> message list" where
  "cached_messages evts =
     filter (\<lambda>m. \<not> (mContent m = '''' \<and> mParts m = [] \<and> mToolCalls m = [])) (concat (map event_messages evts))"

definition cacheContext :: "codecs \<Rightarrow> fpath \<Rightarrow> 'x session \<Rightarrow> skey \<Rightarrow> int \<Rightarrow> time \<Rightarrow> disk \<Rightarrow> disk" where
  "cacheContext cd dd s k tokenCount now d =
     (let ms = cached_messages (ssEvents s)
      in if ms = [] then d
         else fst (WriteContextCache cd dd k \<lparr>ccMessages = ms, ccUpdatedAt = now, ccTokenCount = tokenCount\<rparr> d))"

section \<open>Forking\<close>

definition maxForkEvents :: nat where
  "maxForkEvents = 100"

definition find_index :: "('a \<Rightarrow> bool) \<Rightarrow> 'a list \<Rightarrow> nat option" where
  "find_index P xs = (let n = length (takeWhile (\<lambda>x. \<not> P x) xs) in if n < length xs then Some n else None)"

definition ellipsis :: string where
  "ellipsis = map char_of [226 :: nat, 128, 166]"

definition thread_context :: "string \<Rightarrow> string" where
  "thread_context quotedContent =
     ''[Thread Context] This conversation is a focused thread branching from an earlier discussion.'' @
     (if quotedContent \<noteq> '''' then
        newline @ ''The user is replying to this specific message:'' @ newline @ ''---'' @ newline @
        quotedContent @ newline @ ''---'' @ newline @
        ''Stay focused on this topic. The user wants to dive deeper into this particular point.''
      else '''')"

definition makeThreadContextEvent :: "string \<Rightarrow> string \<Rightarrow> session_event" where
  "makeThreadContextEvent uuid quotedContent =
     \<lparr>seID = uuid, seAuthor = ''system'',
      seResponse = Some ([user_message (thread_context quotedContent)], None), seOther = ''''\<rparr>"

fun append_all ::
  "(session_event \<Rightarrow> string go_result) \<Rightarrow> fpath \<Rightarrow> nat \<Rightarrow> session_event list \<Rightarrow> disk \<Rightarrow> disk \<times> string option" where
  "append_all enc p i [] d = (d, None)"
| "append_all enc p i (e # es) d =
     (case AppendEventJSONL enc p e d of
        (d1, Some err) \<Rightarrow> (d1, Some (''write forked event '' @ itoa (int i) @ '': '' @ err))
      | (d1, None) \<Rightarrow> append_all enc p (Suc i) es d1)"

definition thread_name :: "string \<Rightarrow> string \<Rightarrow> string \<Rightarrow> string" where
  "thread_name name quotedContent fallback =
     (if name \<noteq> '''' then name
      else if quotedContent \<noteq> '''' then
        ''Re: '' @ (if length quotedContent > 50 then take 50 quotedContent @ ellipsis else quotedContent)
      else ''Thread '' @ fallback)"

definition copy_file :: "fpath \<Rightarrow> fpath \<Rightarrow> disk \<Rightarrow> disk" where
  "copy_file p q d =
     (if d p = None then d else fst (os_WriteFile q (file_data (d p)) d))"

text \<open>The part after the events were read and the target found; \<open>stamp\<close> is the date for a thread
  without a name.\<close>

definition fork_into ::
  "codecs \<Rightarrow> fpath \<Rightarrow> bool \<Rightarrow> time \<Rightarrow> string \<Rightarrow> string \<Rightarrow> string \<Rightarrow> skey \<Rightarrow> string \<Rightarrow> string \<Rightarrow>
   session_event list \<Rightarrow> disk \<Rightarrow> disk \<times> session_task list \<times> skey go_result" where
  "fork_into cd dd namer now threadID ctxID stamp pk upToEventID name upTo d =
     (let quotedContent = first_content (event_messages (last upTo));
          forked = last_n maxForkEvents upTo;
          parentSummary =
            (if length upTo > maxForkEvents then
               (case readJSON (decSummary cd) zero_summary (summaryPath dd pk) d of
                  (sm, None) \<Rightarrow> if suSummary sm \<noteq> '''' then Some sm else None
                | _ \<Rightarrow> None)
             else None);
          tk = pk\<lparr>skSession := threadID\<rparr>;
          dir = sessionDir dd tk
      in case os_MkdirAll dir d of
           (d1, Some e) \<Rightarrow> (d1, [], Inl (''create thread directory: '' @ e))
         | (d1, None) \<Rightarrow>
             (case append_all (encEvent cd) (eventsPath dd tk) 0 forked d1 of
                (d2, Some e) \<Rightarrow> (fst (os_RemoveAll dir d2), [], Inl e)
              | (d2, None) \<Rightarrow>
                  (case AppendEventJSONL (encEvent cd) (eventsPath dd tk) (makeThreadContextEvent ctxID quotedContent) d2 of
                     (d3, Some e) \<Rightarrow> (fst (os_RemoveAll dir d3), [], Inl (''write thread context event: '' @ e))
                   | (d3, None) \<Rightarrow>
                       (let d4 = (case parentSummary of None \<Rightarrow> d3
                                  | Some sm \<Rightarrow> fst (writeJSON (encSummary cd) (summaryPath dd tk) sm d3));
                            d5 = copy_file (sessionStatePath dd pk) (sessionStatePath dd tk) d4;
                            d6 = fst (WriteMetadata cd dd tk
                                   (zero_metadata\<lparr>smID := threadID, smName := thread_name name quotedContent stamp,
                                      smCreatedAt := now, smUpdatedAt := now, smUserID := skUser pk,
                                      smParentSessionID := skSession pk, smParentEventID := upToEventID,
                                      smIsThread := True\<rparr>) d5)
                        in (d6,
                            if namer \<and> quotedContent \<noteq> '''' then [AskForName tk (''Thread about: '' @ quotedContent)] else [],
                            Inr tk)))))"

definition ForkSession ::
  "codecs \<Rightarrow> fpath \<Rightarrow> bool \<Rightarrow> time \<Rightarrow> string \<Rightarrow> string \<Rightarrow> string \<Rightarrow> skey \<Rightarrow> string \<Rightarrow> string \<Rightarrow> disk \<Rightarrow>
   disk \<times> session_task list \<times> skey go_result" where
  "ForkSession cd dd namer now threadID ctxID stamp pk upToEventID name d =
     (case ReadEventJSONL (decEvent cd) (eventsPath dd pk) d of
        Inl e \<Rightarrow> (d, [], Inl (''read parent events: '' @ e))
      | Inr (events, _) \<Rightarrow>
          (case find_index (\<lambda>e. seID e = upToEventID) events of
             None \<Rightarrow> (d, [], Inl (''event '' @ upToEventID @ '' not found in session '' @ skSession pk))
           | Some idx \<Rightarrow>
               fork_into cd dd namer now threadID ctxID stamp pk upToEventID name (take (Suc idx) events) d))"

section \<open>Compaction\<close>

definition compactKeepEvents :: nat where
  "compactKeepEvents = 20"

definition transcript_line :: "string \<Rightarrow> message \<Rightarrow> string" where
  "transcript_line role m =
     (let content = trim_space (mContent m) in
      if content = '''' then ''''
      else role @ '': '' @
        (if length content > 2000 then take 2000 content @ ''... [truncated]'' else content) @ newline @ newline)"

definition formatTranscript :: "session_event list \<Rightarrow> string" where
  "formatTranscript evts = concat (map (\<lambda>e. concat (map (transcript_line (seAuthor e)) (event_messages e))) evts)"

definition summary_prompt :: "string \<Rightarrow> string" where
  "summary_prompt transcript =
     ''Summarize the following conversation concisely. Capture the key topics, decisions made, tasks completed, and any important context needed to continue the conversation. Write in third person, past tense.'' @
     newline @ newline @ transcript"

text \<open>What \<open>CreateSessionSummary\<close> does before it calls the model: nothing, or the prompt and the copy
  of the events it works on.\<close>

datatype summary_plan =
  NothingToDo "string option"
| AskModel string "session_event list"

definition summarized :: "session_event list \<Rightarrow> session_event list" where
  "summarized events = take (length events - compactKeepEvents) events"

definition plan_summary :: "bool \<Rightarrow> 'x session \<Rightarrow> string \<Rightarrow> bool \<Rightarrow> summary_plan" where
  "plan_summary hasModel sess filterKey force =
     (if \<not> hasModel then
        NothingToDo (Some ''no LLM model configured for session summarization (call SetModel first)'')
      else if (case ssSummaries sess filterKey of None \<Rightarrow> False | Some sm \<Rightarrow> suSummary sm \<noteq> '''') \<and> \<not> force
        then NothingToDo None
      else if length (ssEvents sess) \<le> compactKeepEvents then NothingToDo None
      else (let transcript = formatTranscript (summarized (ssEvents sess)) in
            if trim_space transcript = '''' then NothingToDo None
            else AskModel (summary_prompt transcript) (ssEvents sess)))"

text \<open>The events the hook before compaction is called with, if it is.\<close>

definition hook_events :: "bool \<Rightarrow> 'x session \<Rightarrow> string \<Rightarrow> bool \<Rightarrow> session_event list option" where
  "hook_events hasModel sess filterKey force =
     (if hasModel \<and> \<not> ((case ssSummaries sess filterKey of None \<Rightarrow> False | Some sm \<Rightarrow> suSummary sm \<noteq> '''') \<and> \<not> force) \<and>
         \<not> length (ssEvents sess) \<le> compactKeepEvents
      then Some (summarized (ssEvents sess)) else None)"

text \<open>The responses on the model's channel: an error message or the contents of the choices.\<close>

fun summary_text :: "(string + string list) list \<Rightarrow> string go_result" where
  "summary_text [] = Inr ''''"
| "summary_text (Inl e # rs) = Inl (''summary LLM error: '' @ e)"
| "summary_text (Inr cs # rs) =
     (case summary_text rs of Inl e \<Rightarrow> Inl e | Inr t \<Rightarrow> Inr (concat cs @ t))"

definition kept_events :: "session_event list \<Rightarrow> session_event list" where
  "kept_events events =
     filter (\<lambda>e. seAuthor e = ''user'') (summarized events) @ last_n compactKeepEvents events"

text \<open>The lines of the compacted log, or the index of an event that cannot be encoded.\<close>

fun encode_log :: "(session_event \<Rightarrow> string go_result) \<Rightarrow> nat \<Rightarrow> session_event list \<Rightarrow> string go_result" where
  "encode_log enc i [] = Inr ''''"
| "encode_log enc i (e # es) =
     (case enc e of
        Inl err \<Rightarrow> Inl (''marshal event '' @ itoa (int i) @ '': '' @ err)
      | Inr w \<Rightarrow> (case encode_log enc (Suc i) es of Inl err \<Rightarrow> Inl err | Inr s \<Rightarrow> Inr (w @ newline @ s)))"

text \<open>\<open>os.Remove\<close> of the temporary file after a failure.\<close>

definition rewrite_log ::
  "(session_event \<Rightarrow> string go_result) \<Rightarrow> fpath \<Rightarrow> session_event list \<Rightarrow> disk \<Rightarrow> disk \<times> string option" where
  "rewrite_log enc p evts d =
     (let tmp = tmp_path ''.compact.tmp'' p in
      case os_WriteFile tmp '''' d of
        (d1, Some e) \<Rightarrow> (d1, Some (''create compact temp file: '' @ e))
      | (d1, None) \<Rightarrow>
          (case encode_log enc 0 evts of
             Inl e \<Rightarrow> (d1(tmp := None), Some e)
           | Inr s \<Rightarrow>
               (case os_Rename_file tmp p (d1(tmp \<mapsto> File s)) of
                  (d2, Some e) \<Rightarrow> (d2, Some (''rename compact file: '' @ e))
                | (d2, None) \<Rightarrow> (d2, None))))"

text \<open>What it does once the model has answered, on the disk and the session object as they are then;
  \<open>events\<close> is the copy made before the call.\<close>

definition commit_summary ::
  "codecs \<Rightarrow> fpath \<Rightarrow> time \<Rightarrow> string \<Rightarrow> session_event list \<Rightarrow> string \<Rightarrow> 'x session \<Rightarrow> disk \<Rightarrow>
   disk \<times> 'x session \<times> string option" where
  "commit_summary cd dd now filterKey events text sess d =
     (if trim_space text = '''' then (d, sess, Some ''LLM returned empty summary'')
      else
        (let sm = \<lparr>suSummary = text, suUpdatedAt = now\<rparr>;
             sess1 = sess\<lparr>ssSummaries := (ssSummaries sess)(filterKey \<mapsto> sm)\<rparr>;
             k = session_key sess
         in case writeJSON (encSummary cd) (summaryPath dd k) sm d of
              (d1, Some e) \<Rightarrow> (d1, sess1, Some (''persist summary: '' @ e))
            | (d1, None) \<Rightarrow>
                (case rewrite_log (encEvent cd) (eventsPath dd k) (kept_events events) d1 of
                   (d2, Some e) \<Rightarrow> (d2, sess1, Some e)
                 | (d2, None) \<Rightarrow> (d2, sess1\<lparr>ssEvents := kept_events events\<rparr>, None))))"

text \<open>The whole method: \<open>model\<close> answers the prompt, and \<open>during\<close> is what other methods do to the disk
  and the session object while the model works, for no lock is held then.\<close>

definition CreateSessionSummary ::
  "codecs \<Rightarrow> fpath \<Rightarrow> time \<Rightarrow> (string \<Rightarrow> string + (string + string list) list) option \<Rightarrow>
   (disk \<times> 'x session \<Rightarrow> disk \<times> 'x session) \<Rightarrow> 'x session \<Rightarrow> string \<Rightarrow> bool \<Rightarrow> disk \<Rightarrow>
   disk \<times> 'x session \<times> string option" where
  "CreateSessionSummary cd dd now model during sess filterKey force d =
     (case plan_summary (model \<noteq> None) sess filterKey force of
        NothingToDo e \<Rightarrow> (d, sess, e)
      | AskModel prompt events \<Rightarrow>
          (let (d1, sess1) = during (d, sess) in
           case (case model of None \<Rightarrow> Inr [] | Some f \<Rightarrow> f prompt) of
             Inl e \<Rightarrow> (d1, sess1, Some (''generate summary: '' @ e))
           | Inr rs \<Rightarrow>
               (case summary_text rs of
                  Inl e \<Rightarrow> (d1, sess1, Some e)
                | Inr text \<Rightarrow> commit_summary cd dd now filterKey events text sess1 d1)))"

definition GetSessionSummaryText :: "'x session \<Rightarrow> string \<Rightarrow> string \<times> bool" where
  "GetSessionSummaryText sess filterKey =
     (case ssSummaries sess filterKey of
        None \<Rightarrow> ('''', False)
      | Some sm \<Rightarrow> if suSummary sm = '''' then ('''', False) else (suSummary sm, True))"

section \<open>The wrapper that drops binary content\<close>

definition text_part :: "string \<Rightarrow> content_part" where
  "text_part s = \<lparr>cpType = ''text'', cpText = Some s, cpImage = None, cpFile = None, cpAudio = None\<rparr>"

definition sanitize_part :: "content_part \<Rightarrow> content_part" where
  "sanitize_part p =
     (if cpType p = ''image'' then
        (case cpImage p of
           Some i \<Rightarrow> if imData i \<noteq> '''' then
               text_part (''[Image: '' @ imFormat i @ '' format, '' @ itoa (int (length (imData i))) @ '' bytes]'')
             else p
         | None \<Rightarrow> p)
      else if cpType p = ''file'' then
        (case cpFile p of
           Some f \<Rightarrow> if fpData f \<noteq> '''' then
               text_part (''[File: '' @ fpName f @ '', '' @ fpMimeType f @ '', '' @ itoa (int (length (fpData f))) @ '' bytes]'')
             else p
         | None \<Rightarrow> p)
      else if cpType p = ''audio'' then
        (case cpAudio p of
           Some a \<Rightarrow> if auData a \<noteq> '''' then
               text_part (''[Audio: '' @ auFormat a @ '' format, '' @ itoa (int (length (auData a))) @ '' bytes]'')
             else p
         | None \<Rightarrow> p)
      else p)"

definition sanitizeEvent :: "session_event \<Rightarrow> session_event" where
  "sanitizeEvent e =
     e\<lparr>seResponse := map_option (\<lambda>(ms, u). (map (\<lambda>m. m\<lparr>mParts := map sanitize_part (mParts m)\<rparr>) ms, u)) (seResponse e)\<rparr>"

definition sanitized_AppendEvent where
  "sanitized_AppendEvent lib cd dd namer now sess evt d =
     AppendEvent lib cd dd namer now sess (sanitizeEvent evt) d"

section \<open>Titles\<close>

definition trim_chars :: "char list \<Rightarrow> string \<Rightarrow> string" where
  "trim_chars cs s = rev (dropWhile (\<lambda>c. c \<in> set cs) (rev (dropWhile (\<lambda>c. c \<in> set cs) s)))"

definition sanitizeSessionName :: "string \<Rightarrow> string" where
  "sanitizeSessionName raw =
     (let name = trim_chars [char_of (34 :: nat), char_of (39 :: nat), char_of (96 :: nat)] (trim_space raw);
          first = takeWhile (\<lambda>c. c \<noteq> char_of (10 :: nat) \<and> c \<noteq> char_of (13 :: nat)) name
      in trim_space (take 60 first))"

text \<open>\<open>answer\<close> is the model's decoded response, if every step of the request succeeded.\<close>

definition InferName :: "bool \<Rightarrow> (string \<Rightarrow> string option) \<Rightarrow> string \<Rightarrow> string \<Rightarrow> string" where
  "InferName present answer fallback firstMessage =
     (if \<not> present then fallback
      else (case answer (''Generate a short (2-5 word) title for a conversation that starts with the following message. Reply with ONLY the title, nothing else. No quotes, no punctuation at the end.'' @
                newline @ newline @ ''Message: '' @ take 500 firstMessage) of
              None \<Rightarrow> fallback
            | Some raw \<Rightarrow> (let name = sanitizeSessionName raw in if name = '''' then fallback else name)))"

end
