(* ===== verification/SessionCorrect.thy ===== *)
theory SessionCorrect
  imports SessionService
begin

text \<open>
  What the session store guarantees: which files an operation can change, what compaction and
  forking do to the logs, and how the three levels of state meet in a session.
\<close>

section \<open>The files an operation changes\<close>

definition changes_only :: "fpath set \<Rightarrow> disk \<Rightarrow> disk \<Rightarrow> bool" where
  "changes_only A d d' \<longleftrightarrow> (\<forall>q. q \<notin> A \<longrightarrow> d' q = d q)"

named_theorems changes \<open>operations change only the given paths\<close>

lemma changes_refl [changes, simp]: "changes_only A d d"
  by (simp add: changes_only_def)

lemma changes_trans: "changes_only A d d1 \<Longrightarrow> changes_only A d1 d2 \<Longrightarrow> changes_only A d d2"
  by (simp add: changes_only_def)

lemma changes_mono: "changes_only A d d' \<Longrightarrow> A \<subseteq> B \<Longrightarrow> changes_only B d d'"
  by (auto simp: changes_only_def)

lemma changes_upd: "p \<in> A \<Longrightarrow> changes_only A d d' \<Longrightarrow> changes_only A d (d'(p := x))"
  by (simp add: changes_only_def)

text \<open>The paths comparable with a directory: those above it and those below.\<close>

definition around :: "fpath \<Rightarrow> fpath set" where
  "around p = {q. prefix q p \<or> prefix p q}"

lemma in_around [simp]: "p @ q \<in> around p" "p \<in> around p"
  by (simp_all add: around_def)

lemma changes_MkdirAll: "os_MkdirAll p d = (d', e) \<Longrightarrow> p \<in> around r \<Longrightarrow> prefix r p \<Longrightarrow> changes_only (around r) d d'"
  by (auto simp: os_MkdirAll_def changes_only_def around_def split: if_splits dest: prefix_same_cases)

lemma changes_WriteFile: "os_WriteFile p s d = (d', e) \<Longrightarrow> p \<in> A \<Longrightarrow> changes_only A d d'"
  by (auto simp: os_WriteFile_def abs_write_def changes_only_def split: if_splits option.splits)

lemma changes_Rename_file: "os_Rename_file p q d = (d', e) \<Longrightarrow> p \<in> A \<Longrightarrow> q \<in> A \<Longrightarrow> changes_only A d d'"
  by (auto simp: os_Rename_file_def changes_only_def split: option.splits entry.splits if_splits)

lemma changes_Append: "os_Append p s d = (d', e) \<Longrightarrow> p \<in> A \<Longrightarrow> changes_only A d d'"
  by (auto simp: os_Append_def intro: changes_WriteFile)

lemma changes_RemoveAll: "os_RemoveAll p d = (d', e) \<Longrightarrow> changes_only (around p) d d'"
  by (auto simp: os_RemoveAll_def changes_only_def around_def split: if_splits)

lemma tmp_path_snoc [simp]: "tmp_path ext (p @ [n]) = p @ [n @ ext]"
  by (simp add: tmp_path_def)

lemma changes_writeJSON:
  assumes "writeJSON enc (r @ [n]) v d = (d', e)"
  shows "changes_only (around r) d d'"
proof -
  obtain d1 e1 where m: "os_MkdirAll r d = (d1, e1)" by fastforce
  have c1: "changes_only (around r) d d1" by (rule changes_MkdirAll [OF m]) simp_all
  show ?thesis
  proof (cases e1)
    case None
    show ?thesis
    proof (cases "enc v")
      case (Inl x)
      then show ?thesis using assms m None c1 by (simp add: writeJSON_def)
    next
      case (Inr s)
      obtain d2 e2 where w: "os_WriteFile (r @ [n @ ''.tmp'']) s d1 = (d2, e2)" by fastforce
      have c2: "changes_only (around r) d1 d2" by (rule changes_WriteFile [OF w]) simp
      show ?thesis
      proof (cases e2)
        case None
        then have "os_Rename_file (r @ [n @ ''.tmp'']) (r @ [n]) d2 = (d', e)"
          using assms m \<open>e1 = None\<close> Inr w by (simp add: writeJSON_def)
        then have "changes_only (around r) d2 d'" by (rule changes_Rename_file) simp_all
        with c1 c2 show ?thesis by (blast intro: changes_trans)
      next
        case (Some x)
        then show ?thesis using assms m \<open>e1 = None\<close> Inr w c1 c2 by (auto simp: writeJSON_def intro: changes_trans)
      qed
    qed
  next
    case (Some x)
    then show ?thesis using assms m c1 by (simp add: writeJSON_def)
  qed
qed

lemma changes_AppendEventJSONL:
  assumes "AppendEventJSONL enc (r @ [n]) evt d = (d', e)"
  shows "changes_only (around r) d d'"
proof -
  obtain d1 e1 where m: "os_MkdirAll r d = (d1, e1)" by fastforce
  have c1: "changes_only (around r) d d1" by (rule changes_MkdirAll [OF m]) simp_all
  have app: "changes_only (around r) d1 d2" if "os_Append (r @ [n]) s d1 = (d2, e2)" for s d2 e2
    by (rule changes_Append [OF that]) simp
  show ?thesis
    using assms m c1 app
    by (auto simp: AppendEventJSONL_def intro: changes_trans split: option.splits sum.splits prod.splits)
qed

lemma changes_WriteMetadata: "changes_only (around (sessionDir dd k)) d (fst (WriteMetadata cd dd k meta d))"
  by (cases "WriteMetadata cd dd k meta d")
    (auto simp: WriteMetadata_def metadataPath_def intro: changes_writeJSON)

lemma changes_AppendEvent:
  assumes "AppendEvent lib cd dd namer now (Some s) evt d = (d', s', ts, e)"
  shows "changes_only (around (sessionDir dd (session_key s))) d d'"
proof (cases "lbCheckSessionKey lib (session_key s)")
  case None
  let ?k = "session_key s" and ?s1 = "lbUpdateUserSession lib evt s"
  obtain d1 e1 where a: "AppendEventJSONL (encEvent cd) (eventsPath dd ?k) evt d = (d1, e1)" by fastforce
  have c1: "changes_only (around (sessionDir dd ?k)) d d1"
    by (rule changes_AppendEventJSONL [OF a [unfolded eventsPath_def]])
  obtain d2 e2 where w: "writeJSON (encState cd) (sessionStatePath dd ?k) (lbSnapshotState lib ?s1) d1 = (d2, e2)"
    by fastforce
  have c2: "changes_only (around (sessionDir dd ?k)) d1 d2"
    by (rule changes_writeJSON [OF w [unfolded sessionStatePath_def]])
  have "d' = d1 \<or> d' = d2 \<or> (\<exists>meta. d' = fst (WriteMetadata cd dd ?k meta d2))"
    using assms None a w by (auto simp: AppendEvent_def Let_def split: option.splits if_splits)
  with c1 c2 changes_WriteMetadata show ?thesis by (blast intro: changes_trans)
qed (use assms in \<open>simp add: AppendEvent_def\<close>)

lemma changes_CreateSession:
  assumes "CreateSession lib cd dd k state d = (d', r)"
  shows "changes_only (around (sessionDir dd k)) d d'"
proof -
  obtain d1 e1 where m: "os_MkdirAll (sessionDir dd k) d = (d1, e1)" by fastforce
  have c1: "changes_only (around (sessionDir dd k)) d d1" by (rule changes_MkdirAll [OF m]) simp_all
  have "changes_only (around (sessionDir dd k)) d1 d2"
    if "writeJSON (encState cd) (sessionStatePath dd k) v d1 = (d2, e2)" for v d2 e2
    by (rule changes_writeJSON [OF that [unfolded sessionStatePath_def]])
  then show ?thesis
    using assms m c1
    by (auto simp: CreateSession_def Let_def intro: changes_trans split: option.splits if_splits prod.splits)
qed

lemma changes_DeleteSession:
  "DeleteSession lib dd k d = (d', e) \<Longrightarrow> changes_only (around (sessionDir dd k)) d d'"
  by (auto simp: DeleteSession_def dest: changes_RemoveAll split: option.splits prod.splits)

lemma changes_state_file:
  "update_state_file cd what (r @ [n]) f d = (d', e) \<Longrightarrow> changes_only (around r) d d'"
  by (auto simp: update_state_file_def dest: changes_writeJSON split: prod.splits option.splits)

lemma changes_UpdateSessionState:
  "UpdateSessionState lib cd dd k kvs d = (d', e) \<Longrightarrow> changes_only (around (sessionDir dd k)) d d'"
  by (auto simp: UpdateSessionState_def sessionStatePath_def dest: changes_state_file split: option.splits)

lemma changes_rewrite_log:
  assumes "rewrite_log enc (r @ [n]) evts d = (d', e)"
  shows "changes_only (around r) d d'"
proof -
  let ?t = "r @ [n @ ''.compact.tmp'']"
  obtain d1 e1 where w: "os_WriteFile ?t '''' d = (d1, e1)" by fastforce
  have c1: "changes_only (around r) d d1" by (rule changes_WriteFile [OF w]) simp
  have cu: "changes_only (around r) d (d1(?t := x))" for x by (rule changes_upd [OF _ c1]) simp
  have "changes_only (around r) d d2"
    if "os_Rename_file ?t (r @ [n]) (d1(?t := x)) = (d2, e2)" for x d2 e2
    by (rule changes_trans [OF cu changes_Rename_file [OF that]]) simp_all
  then show ?thesis
    using assms w c1 cu
    by (auto simp: rewrite_log_def Let_def simp del: fun_upd_apply split: option.splits sum.splits prod.splits)
qed

lemma changes_commit_summary:
  assumes "commit_summary cd dd now fk events text s d = (d', s', e)"
  shows "changes_only (around (sessionDir dd (session_key s))) d d'"
proof -
  obtain d1 e1 where w: "writeJSON (encSummary cd) (summaryPath dd (session_key s))
      \<lparr>suSummary = text, suUpdatedAt = now\<rparr> d = (d1, e1)" by fastforce
  have c1: "changes_only (around (sessionDir dd (session_key s))) d d1"
    by (rule changes_writeJSON [OF w [unfolded summaryPath_def]])
  have "changes_only (around (sessionDir dd (session_key s))) d1 d2"
    if "rewrite_log (encEvent cd) (eventsPath dd (session_key s)) evts d1 = (d2, e2)" for evts d2 e2
    by (rule changes_rewrite_log [OF that [unfolded eventsPath_def]])
  then show ?thesis
    using assms w c1
    by (auto simp: commit_summary_def Let_def intro: changes_trans split: if_splits option.splits prod.splits)
qed

section \<open>Sessions are isolated when their names are plain\<close>

definition plain_key :: "skey \<Rightarrow> bool" where
  "plain_key k \<longleftrightarrow> plain (skApp k) \<and> plain (skUser k) \<and> plain (skSession k)"

lemma sessionDir_plain: "plain_key k \<Longrightarrow> sessionDir dd k = dd @ [skApp k, skUser k, skSession k]"
  by (simp add: sessionDir_def join_path_plain plain_key_def)

lemma not_around:
  assumes "length r = length r'" and "r \<noteq> r'" and "prefix r' q"
  shows "q \<notin> around r"
proof
  assume "q \<in> around r"
  then have "prefix q r \<or> prefix r q" by (simp add: around_def)
  then have "prefix r r' \<or> prefix r' r"
    using assms(3) by (auto dest: prefix_same_cases intro: prefix_order.trans)
  with assms(1,2) show False by (auto simp: prefix_def)
qed

text \<open>C16. Two sessions all of whose names are plain path components do not interfere: creating a session, appending
  an event to it, updating its state, compacting or deleting it leaves every entry in the directory of
  every other session as it was.\<close>

theorem session_isolation:
  assumes "plain_key k" and "plain_key k'" and "k \<noteq> k'" and "prefix (sessionDir dd k') q" and "session_key s = k"
  shows "fst (CreateSession lib cd dd k state d) q = d q \<and>
    fst (AppendEvent lib cd dd namer now (Some s) evt d) q = d q \<and>
    fst (UpdateSessionState lib cd dd k state d) q = d q \<and>
    fst (commit_summary cd dd now fk events text s d) q = d q \<and>
    fst (DeleteSession lib dd k d) q = d q"
proof -
  let ?D = "sessionDir dd k" and ?D' = "sessionDir dd k'"
  have "?D \<noteq> ?D'" "length ?D = length ?D'"
    using assms(1-3) by (auto simp: sessionDir_plain intro: skey.equality)
  then have q: "q \<notin> around ?D" using not_around assms(4) by blast
  have pick: "fst out q = d q" if "\<And>d' r. out = (d', r) \<Longrightarrow> changes_only (around ?D) d d'" for out :: "disk \<times> 'r"
    using that [of "fst out" "snd out"] q by (simp add: changes_only_def)
  show ?thesis
  proof (intro conjI)
    show "fst (CreateSession lib cd dd k state d) q = d q" by (rule pick) (rule changes_CreateSession)
    show "fst (AppendEvent lib cd dd namer now (Some s) evt d) q = d q"
      by (rule pick) (use changes_AppendEvent assms(5) in \<open>fastforce split: prod.splits\<close>)
    show "fst (UpdateSessionState lib cd dd k state d) q = d q" by (rule pick) (rule changes_UpdateSessionState)
    show "fst (commit_summary cd dd now fk events text s d) q = d q"
      by (rule pick) (use changes_commit_summary assms(5) in \<open>fastforce split: prod.splits\<close>)
    show "fst (DeleteSession lib dd k d) q = d q" by (rule pick) (rule changes_DeleteSession)
  qed
qed

text \<open>The identifier of a session is not checked for path elements: deleting the session named with
  two dots of any user removes the sessions of all users.\<close>

theorem delete_session_escapes:
  assumes "plain app" and "plain user"
    and "lbCheckSessionKey lib \<lparr>skApp = app, skUser = user, skSession = ''..''\<rparr> = None"
    and "\<not> through_file d (dd @ [app])"
  shows "\<exists>d'. DeleteSession lib dd \<lparr>skApp = app, skUser = user, skSession = ''..''\<rparr> d = (d', None) \<and>
    (\<forall>u s n. plain u \<longrightarrow> plain s \<longrightarrow>
       d' (sessionDir dd \<lparr>skApp = app, skUser = u, skSession = s\<rparr> @ n) = None)"
proof -
  have "split_on (CHR ''/'') app = [app]" "split_on (CHR ''/'') user = [user]"
    using assms(1,2) by (simp_all add: plain_def split_on_none)
  then have dir: "sessionDir dd \<lparr>skApp = app, skUser = user, skSession = ''..''\<rparr> = dd @ [app]"
    using assms(1,2) by (simp add: sessionDir_def join_path_def clean_step_def plain_def butlast_append)
  have "sessionDir dd \<lparr>skApp = app, skUser = u, skSession = s\<rparr> = (dd @ [app]) @ [u, s]"
    if "plain u" "plain s" for u s
    using that assms(1) by (simp add: sessionDir_plain plain_key_def)
  then show ?thesis
    using assms(3,4) by (auto simp: DeleteSession_def dir os_RemoveAll_def prefix_def)
qed

section \<open>Writing a JSON file\<close>

lemma os_Rename_file_Some:
  "os_Rename_file p q d = (d', None) \<Longrightarrow> \<exists>s. d p = Some (File s) \<and> d' = d(p := None, q \<mapsto> File s)"
  by (auto simp: os_Rename_file_def split: option.splits entry.splits if_splits)

lemma writeJSON_ok:
  assumes "writeJSON enc (r @ [n]) v d = (d', None)"
  obtains s where "enc v = Inr s" "d' (r @ [n]) = Some (File s)"
    "\<And>q. q \<noteq> r @ [n] \<Longrightarrow> q \<noteq> r @ [n @ ''.tmp''] \<Longrightarrow> file_data (d' q) = file_data (d q)"
    "\<And>q e. q \<noteq> r @ [n] \<Longrightarrow> q \<noteq> r @ [n @ ''.tmp''] \<Longrightarrow> d q = Some e \<Longrightarrow> d' q = Some e"
proof -
  obtain d1 where m: "os_MkdirAll r d = (d1, None)"
    using assms by (auto simp: writeJSON_def split: prod.splits option.splits)
  obtain s where s: "enc v = Inr s"
    using assms m by (auto simp: writeJSON_def split: sum.splits)
  obtain d2 where w: "os_WriteFile (r @ [n @ ''.tmp'']) s d1 = (d2, None)"
    using assms m s by (auto simp: writeJSON_def split: prod.splits option.splits)
  then have d2: "d2 = d1(r @ [n @ ''.tmp''] \<mapsto> File s)" by (rule os_WriteFile_Some)
  have "os_Rename_file (r @ [n @ ''.tmp'']) (r @ [n]) d2 = (d', None)"
    using assms m s w by (simp add: writeJSON_def)
  then have "d' = d2(r @ [n @ ''.tmp''] := None, r @ [n] \<mapsto> File s)"
    using d2 by (auto dest: os_Rename_file_Some)
  then show ?thesis
    using os_MkdirAll_data [OF m] os_MkdirAll_keeps [OF m] d2 by (intro that [OF s]) auto
qed

lemma writeJSON_stored:
  "writeJSON enc (r @ [n]) v d = (d', None) \<Longrightarrow> \<exists>s. enc v = Inr s \<and> d' (r @ [n]) = Some (File s)"
  by (erule writeJSON_ok) blast

section \<open>Compaction\<close>

definition short_events :: "(session_event \<Rightarrow> string go_result) \<Rightarrow> session_event list \<Rightarrow> bool" where
  "short_events enc es \<longleftrightarrow> (\<forall>e \<in> set es. \<forall>w. enc e = Inr w \<longrightarrow> length w < maxScannerBuffer)"

lemma split_on_first: "c \<notin> set w \<Longrightarrow> split_on c (w @ c # s) = w # split_on c s"
  using split_on_two [of c w s] by (simp add: split_on_none)

lemma encode_log_events:
  assumes "codec_ok enc dec" and "encode_log enc i es = Inr s" and "short_events enc es"
  shows "log_events dec s = (es, 0)"
proof -
  have "\<exists>ls. scan_lines (split_on nl s) = (ls, False) \<and> decode_lines dec ls = (es, 0)"
    using assms(2,3)
  proof (induction es arbitrary: i s)
    case (Cons e es)
    then obtain w s' where w: "enc e = Inr w" "encode_log enc (Suc i) es = Inr s'" "s = w @ nl # s'"
      by (auto simp: newline_def split: sum.splits)
    have "short_events enc es" "length w < maxScannerBuffer"
      using Cons.prems(2) w(1) by (auto simp: short_events_def)
    then obtain ls where ls: "scan_lines (split_on nl s') = (ls, False)" "decode_lines dec ls = (es, 0)"
      using Cons.IH [OF w(2)] by blast
    note c = codecD [OF assms(1) w(1)]
    have "scan_lines (split_on nl s) = (w # ls, False)"
      using ls(1) c(3) \<open>length w < maxScannerBuffer\<close>
      by (cases "split_on nl s'") (auto simp: w(3) split_on_first [OF c(2)])
    then show ?case using ls(2) c(1,4) by auto
  qed simp
  then show ?thesis by (auto simp: log_events_def)
qed

lemma rewrite_log_ok:
  assumes "rewrite_log enc (r @ [n]) es d = (d', None)"
  obtains s where "encode_log enc 0 es = Inr s" "d' (r @ [n]) = Some (File s)"
proof -
  let ?t = "r @ [n @ ''.compact.tmp'']"
  obtain d1 where w: "os_WriteFile ?t '''' d = (d1, None)"
    using assms by (auto simp: rewrite_log_def Let_def split: prod.splits option.splits)
  obtain s where s: "encode_log enc 0 es = Inr s"
    using assms w by (auto simp: rewrite_log_def Let_def split: sum.splits)
  have "os_Rename_file ?t (r @ [n]) (d1(?t \<mapsto> File s)) = (d', None)"
    using assms w s by (auto simp: rewrite_log_def Let_def simp del: fun_upd_apply split: prod.splits option.splits)
  then have "d' (r @ [n]) = Some (File s)" by (auto dest!: os_Rename_file_Some)
  with s show ?thesis by (rule that)
qed

lemma commit_summary_ok:
  assumes "commit_summary cd dd now fk events text s d = (d', s', None)"
    and "codec_ok (encEvent cd) (decEvent cd)" and "short_events (encEvent cd) (kept_events events)"
  shows "disk_events (decEvent cd) d' (eventsPath dd (session_key s)) = kept_events events \<and>
    ssEvents s' = kept_events events \<and> session_key s' = session_key s \<and> trim_space text \<noteq> '''' \<and>
    map_option suSummary (ssSummaries s' fk) = Some text"
proof -
  let ?p = "eventsPath dd (session_key s)"
  have t: "trim_space text \<noteq> ''''" using assms(1) by (auto simp: commit_summary_def)
  obtain d1 where w: "writeJSON (encSummary cd) (summaryPath dd (session_key s)) \<lparr>suSummary = text, suUpdatedAt = now\<rparr> d = (d1, None)"
    using assms(1) t by (auto simp: commit_summary_def Let_def split: prod.splits option.splits)
  have rl: "rewrite_log (encEvent cd) ?p (kept_events events) d1 = (d', None)"
    and s': "s' = s\<lparr>ssSummaries := (ssSummaries s)(fk \<mapsto> \<lparr>suSummary = text, suUpdatedAt = now\<rparr>), ssEvents := kept_events events\<rparr>"
    using assms(1) t w by (auto simp: commit_summary_def Let_def split: prod.splits option.splits)
  obtain x where "encode_log (encEvent cd) 0 (kept_events events) = Inr x" "d' ?p = Some (File x)"
    using rewrite_log_ok [OF rl [unfolded eventsPath_def]] unfolding eventsPath_def by metis
  then show ?thesis
    using encode_log_events [OF assms(2) _ assms(3)] s' t
    by (simp add: disk_events_def file_data_def session_key_def)
qed

lemma summary_committed:
  assumes "plan_summary True sess fk force = AskModel prompt evs"
    and "CreateSessionSummary cd dd now (Some f) during sess fk force d = (d', s', None)"
  obtains answer where "evs = ssEvents sess"
    "commit_summary cd dd now fk evs answer (snd (during (d, sess))) (fst (during (d, sess))) = (d', s', None)"
proof -
  obtain d1 s1 where du: "during (d, sess) = (d1, s1)" by fastforce
  have "evs = ssEvents sess" using assms(1) by (auto simp: plan_summary_def Let_def split: if_splits)
  moreover obtain rs where rs: "f prompt = Inr rs"
    using assms du by (auto simp: CreateSessionSummary_def split: sum.splits)
  moreover obtain answer where "summary_text rs = Inr answer"
    using assms du rs by (auto simp: CreateSessionSummary_def split: sum.splits)
  ultimately show ?thesis using assms du that by (simp add: CreateSessionSummary_def)
qed

lemma kept_recent: "compactKeepEvents \<le> length es \<Longrightarrow> last_n compactKeepEvents (kept_events es) = last_n compactKeepEvents es"
  by (simp add: kept_events_def last_n_def)

lemma kept_user: "e \<in> set es \<Longrightarrow> seAuthor e = ''user'' \<Longrightarrow> e \<in> set (kept_events es)"
proof -
  assume e: "e \<in> set es" "seAuthor e = ''user''"
  have "es = summarized es @ last_n compactKeepEvents es" by (simp add: summarized_def last_n_def)
  then have "e \<in> set (summarized es) \<or> e \<in> set (last_n compactKeepEvents es)"
    using e(1) by (metis Un_iff set_append)
  with e(2) show ?thesis by (auto simp: kept_events_def)
qed

lemma kept_subset: "set (kept_events es) \<subseteq> set es"
  using set_take_subset [of "length es - compactKeepEvents" es] set_last_n [of compactKeepEvents es]
  by (auto simp: kept_events_def summarized_def)

lemma compaction_log:
  assumes "plan_summary True sess fk force = AskModel prompt evs"
    and "CreateSessionSummary cd dd now (Some f) during sess fk force d = (d', s', None)"
    and "session_key (snd (during (d, sess))) = session_key sess"
    and "codec_ok (encEvent cd) (decEvent cd)" and "short_events (encEvent cd) (ssEvents sess)"
  shows "disk_events (decEvent cd) d' (eventsPath dd (session_key sess)) = kept_events (ssEvents sess)"
    and "ssEvents s' = kept_events (ssEvents sess)"
proof -
  obtain answer where evs: "evs = ssEvents sess"
    and c: "commit_summary cd dd now fk evs answer (snd (during (d, sess))) (fst (during (d, sess))) = (d', s', None)"
    using summary_committed [OF assms(1,2)] by metis
  have "short_events (encEvent cd) (kept_events evs)"
    using assms(5) kept_subset [of evs] by (auto simp: short_events_def evs)
  with commit_summary_ok [OF c assms(4)] assms(3) evs
  show "disk_events (decEvent cd) d' (eventsPath dd (session_key sess)) = kept_events (ssEvents sess)"
    "ssEvents s' = kept_events (ssEvents sess)" by simp_all
qed

text \<open>C18. Compaction leaves the log and the session with the same events, taken from those the session had
  when the summary was asked for: every event of the user among them and the last twenty of them, in
  their order.  This says nothing of events that are appended while the model writes the summary; they
  are lost.\<close>

theorem compaction_keeps:
  assumes "plan_summary True sess fk force = AskModel prompt evs"
    and "CreateSessionSummary cd dd now (Some f) during sess fk force d = (d', s', None)"
    and "session_key (snd (during (d, sess))) = session_key sess"
    and "codec_ok (encEvent cd) (decEvent cd)" and "short_events (encEvent cd) (ssEvents sess)"
  shows "disk_events (decEvent cd) d' (eventsPath dd (session_key sess)) = ssEvents s' \<and>
    subseq (ssEvents s') (ssEvents sess) \<and>
    last_n compactKeepEvents (ssEvents s') = last_n compactKeepEvents (ssEvents sess) \<and>
    filter (\<lambda>e. seAuthor e = ''user'') (ssEvents s') = filter (\<lambda>e. seAuthor e = ''user'') (ssEvents sess)"
proof -
  let ?kept = "kept_events (ssEvents sess)"
  note log = compaction_log [OF assms]
  have long: "compactKeepEvents \<le> length (ssEvents sess)"
    using assms(1) by (auto simp: plan_summary_def Let_def split: if_splits)
  have split: "ssEvents sess = summarized (ssEvents sess) @ last_n compactKeepEvents (ssEvents sess)"
    by (simp add: summarized_def last_n_def)
  have "subseq (?kept) (ssEvents sess)"
    unfolding kept_events_def by (subst (3) split) (rule list_emb_append_mono, simp_all)
  moreover have "filter (\<lambda>e. seAuthor e = ''user'') (?kept) = filter (\<lambda>e. seAuthor e = ''user'') (ssEvents sess)"
    unfolding kept_events_def by (subst (3) split) simp
  ultimately show ?thesis using log kept_recent [OF long] by simp
qed

lemma writeJSON_keeps:
  assumes "d q = Some e" and "q \<noteq> r @ [n]" and "q \<noteq> r @ [n @ ''.tmp'']"
  shows "fst (writeJSON enc (r @ [n]) v d) q = Some e"
proof -
  obtain d1 e1 where m: "os_MkdirAll r d = (d1, e1)" by fastforce
  have d1: "d1 q = Some e"
    using m assms(1) os_MkdirAll_keeps [of r d d1 q e] by (cases e1) (auto simp: os_MkdirAll_def split: if_splits)
  have wr: "d2 q = Some e" if "os_WriteFile (r @ [n @ ''.tmp'']) s d1 = (d2, e2)" for s d2 e2
    using that d1 assms(3) by (auto simp: os_WriteFile_def abs_write_def split: if_splits)
  have rn: "fst (os_Rename_file (r @ [n @ ''.tmp'']) (r @ [n]) d2) q = Some e" if "d2 q = Some e" for d2
    using that assms(2,3) by (auto simp: os_Rename_file_def split: option.splits entry.splits if_splits)
  show ?thesis
    using m d1 by (auto simp: writeJSON_def dest!: wr intro: rn split: option.splits sum.splits prod.splits)
qed

lemma writeJSON_sibling:
  "d (r @ [k]) = Some e \<Longrightarrow> k \<noteq> n \<Longrightarrow> k \<noteq> n @ ''.tmp'' \<Longrightarrow> fst (writeJSON enc (r @ [n]) v d) (r @ [k]) = Some e"
  by (rule writeJSON_keeps) simp_all

lemma AppendEvent_ok:
  assumes "AppendEvent lib cd dd namer now (Some s) evt d = (d', s', ts, None)"
  obtains w where "encEvent cd evt = Inr w" "s' = Some (lbUpdateUserSession lib evt s)"
    "d' (eventsPath dd (session_key s)) =
       Some (File (file_data (d (eventsPath dd (session_key s))) @ w @ newline))"
proof -
  let ?k = "session_key s" and ?p = "eventsPath dd (session_key s)" and ?s1 = "lbUpdateUserSession lib evt s"
  have ck: "lbCheckSessionKey lib ?k = None"
    using assms by (cases "lbCheckSessionKey lib ?k") (auto simp: AppendEvent_def)
  obtain d1 e1 where a: "AppendEventJSONL (encEvent cd) ?p evt d = (d1, e1)" by fastforce
  with assms ck have "e1 = None" by (cases e1) (auto simp: AppendEvent_def)
  with a obtain w where w: "encEvent cd evt = Inr w" "d1 ?p = Some (File (file_data (d ?p) @ w @ newline))"
    using AppendEventJSONL_ok by metis
  obtain d2 e2 where st: "writeJSON (encState cd) (sessionStatePath dd ?k) (lbSnapshotState lib ?s1) d1 = (d2, e2)"
    by fastforce
  with assms ck a \<open>e1 = None\<close> have "e2 = None" by (cases e2) (auto simp: AppendEvent_def)
  have "fst (writeJSON (encState cd) (sessionStatePath dd ?k) v d1) ?p = d1 ?p" for v
    using writeJSON_keeps [where d = d1 and q = ?p and r = "sessionDir dd ?k" and n = "''state.json''", OF w(2)] w(2)
    by (simp add: eventsPath_def sessionStatePath_def)
  from this [of "lbSnapshotState lib ?s1"] have d2: "d2 ?p = d1 ?p" by (simp add: st)
  have meta: "fst (WriteMetadata cd dd ?k meta d2) ?p = d1 ?p" for meta
    using writeJSON_keeps [where d = d2 and q = ?p and r = "sessionDir dd ?k" and n = "''metadata.json''", OF d2 [unfolded w(2)]] w(2)
    by (simp add: WriteMetadata_def eventsPath_def metadataPath_def)
  have "s' = Some ?s1" "d' = d2 \<or> (\<exists>meta. d' = fst (WriteMetadata cd dd ?k meta d2))"
    using assms ck a st \<open>e1 = None\<close> \<open>e2 = None\<close> by (auto simp: AppendEvent_def Let_def split: if_splits)
  then show ?thesis using that [OF w(1)] w(2) d2 meta by metis
qed

text \<open>The model is asked without a lock, and the log is then replaced by what was kept of the copy
  made before: an event appended meanwhile, which was stored, is gone from the log and from the
  session when compaction reports success.\<close>

theorem concurrent_event_lost:
  assumes "plan_summary True sess fk force = AskModel prompt evs"
    and "AppendEvent lib cd dd namer now0 (Some sess) evt d = (d1, Some s1, ts, None)"
    and "CreateSessionSummary cd dd now (Some f) (\<lambda>_. (d1, s1)) sess fk force d = (d', s', None)"
    and "session_key s1 = session_key sess" and "codec_ok (encEvent cd) (decEvent cd)"
    and "short_events (encEvent cd) (evt # ssEvents sess)"
    and "log_ended (file_data (d (eventsPath dd (session_key sess))))"
    and "\<not> log_blocked (file_data (d (eventsPath dd (session_key sess))))"
    and "evt \<notin> set (ssEvents sess)"
  shows "evt \<in> set (disk_events (decEvent cd) d1 (eventsPath dd (session_key sess))) \<and>
    evt \<notin> set (disk_events (decEvent cd) d' (eventsPath dd (session_key sess))) \<and>
    evt \<notin> set (ssEvents s')"
proof -
  let ?p = "eventsPath dd (session_key sess)"
  from AppendEvent_ok [OF assms(2)] obtain w where w: "encEvent cd evt = Inr w"
    "d1 ?p = Some (File (file_data (d ?p) @ w @ newline))" by metis
  have short: "length w < maxScannerBuffer" "short_events (encEvent cd) (ssEvents sess)"
    using assms(6) w(1) by (auto simp: short_events_def)
  have "evt \<in> set (disk_events (decEvent cd) d1 ?p)"
    using log_append(1) [OF assms(5) w(1) assms(7)] assms(8) short(1) w(2)
    by (simp add: disk_events_def file_data_def)
  moreover have "disk_events (decEvent cd) d' ?p = ssEvents s'" "set (ssEvents s') \<subseteq> set (ssEvents sess)"
    using compaction_log [OF assms(1,3) _ assms(5) short(2)] assms(4) kept_subset by auto
  ultimately show ?thesis using assms(9) by auto
qed

section \<open>Forking\<close>

lemma append_all_events:
  assumes "codec_ok enc dec" and "append_all enc p i es d = (d', None)" and "short_events enc es"
    and "log_ended (file_data (d p))" and "\<not> log_blocked (file_data (d p))"
  shows "disk_events dec d' p = disk_events dec d p @ es \<and>
    log_ended (file_data (d' p)) \<and> \<not> log_blocked (file_data (d' p))"
  using assms(2-)
proof (induction es arbitrary: i d)
  case (Cons e es)
  obtain d1 where a: "AppendEventJSONL enc p e d = (d1, None)" "append_all enc p (Suc i) es d1 = (d', None)"
    using Cons.prems(1) by (auto split: prod.splits option.splits)
  from AppendEventJSONL_ok [OF a(1)] obtain w where w: "enc e = Inr w"
    "d1 p = Some (File (file_data (d p) @ w @ newline))" by metis
  then have f: "file_data (d1 p) = file_data (d p) @ w @ newline" by (simp add: file_data_def)
  have short: "length w < maxScannerBuffer" "short_events enc es"
    using Cons.prems(2) w(1) by (auto simp: short_events_def)
  note l = log_append [OF assms(1) w(1) Cons.prems(3)]
  have "log_ended (file_data (d1 p))" "\<not> log_blocked (file_data (d1 p))"
    using l(2,3) Cons.prems(4) short(1) by (simp_all add: f)
  moreover have "disk_events dec d1 p = disk_events dec d p @ [e]"
    using l(1) Cons.prems(4) short(1) by (simp add: disk_events_def f)
  ultimately show ?case using Cons.IH [OF a(2) short(2)] by simp
qed simp

lemma changes_append_all:
  "append_all enc (r @ [n]) i es d = (d', e) \<Longrightarrow> changes_only (around r) d d'"
proof (induction es arbitrary: i d)
  case (Cons x es)
  obtain d1 e1 where a: "AppendEventJSONL enc (r @ [n]) x d = (d1, e1)" by fastforce
  note c = changes_AppendEventJSONL [OF a]
  show ?case
    using Cons a c by (cases e1) (auto intro: changes_trans)
qed simp

lemma changes_copy_file: "changes_only (around r) d (copy_file p (r @ [n]) d)"
proof (cases "d p = None")
  case False
  then show ?thesis
    by (cases "os_WriteFile (r @ [n]) (file_data (d p)) d") (auto simp: copy_file_def intro: changes_WriteFile)
qed (simp add: copy_file_def)

lemma copy_file_keeps: "d q = Some e \<Longrightarrow> q \<noteq> t \<Longrightarrow> copy_file p t d q = Some e"
  by (auto simp: copy_file_def os_WriteFile_def abs_write_def)

lemma fork_into_ok:
  assumes "fork_into cd dd namer now tid cid stamp pk ev name upTo d = (d', ts, Inr tk)"
    and "codec_ok (encEvent cd) (decEvent cd)"
    and "short_events (encEvent cd) (makeThreadContextEvent cid (first_content (event_messages (last upTo))) # upTo)"
    and "file_data (d (eventsPath dd (pk\<lparr>skSession := tid\<rparr>))) = ''''"
  shows "tk = pk\<lparr>skSession := tid\<rparr> \<and> changes_only (around (sessionDir dd tk)) d d' \<and>
    disk_events (decEvent cd) d' (eventsPath dd tk) = last_n maxForkEvents upTo @
      [makeThreadContextEvent cid (first_content (event_messages (last upTo)))]"
proof -
  let ?tk = "pk\<lparr>skSession := tid\<rparr>" and ?q = "first_content (event_messages (last upTo))"
  let ?r = "sessionDir dd ?tk" and ?es = "last_n maxForkEvents upTo"
  let ?p = "eventsPath dd ?tk" and ?ctx = "makeThreadContextEvent cid ?q"
  obtain d1 e1 where m: "os_MkdirAll ?r d = (d1, e1)" by fastforce
  with assms(1) have e1: "e1 = None" by (cases e1) (auto simp: fork_into_def Let_def)
  obtain d2 e2 where a: "append_all (encEvent cd) ?p 0 ?es d1 = (d2, e2)" by fastforce
  with assms(1) m e1 have e2: "e2 = None" by (cases e2) (auto simp: fork_into_def Let_def)
  obtain d3 e3 where b: "AppendEventJSONL (encEvent cd) ?p ?ctx d2 = (d3, e3)" by fastforce
  with assms(1) m e1 a e2 have e3: "e3 = None" by (cases e3) (auto simp: fork_into_def Let_def)
  have tk: "tk = ?tk" and "\<exists>d4 meta. (d4 = d3 \<or> (\<exists>sm. d4 = fst (writeJSON (encSummary cd) (summaryPath dd ?tk) sm d3))) \<and>
      d' = fst (WriteMetadata cd dd ?tk meta (copy_file (sessionStatePath dd pk) (sessionStatePath dd ?tk) d4))"
    using assms(1) m e1 a e2 b e3 by (auto simp: fork_into_def Let_def split: option.splits)
  then obtain d4 meta where d4: "d4 = d3 \<or> (\<exists>sm. d4 = fst (writeJSON (encSummary cd) (summaryPath dd ?tk) sm d3))"
    and d': "d' = fst (WriteMetadata cd dd ?tk meta (copy_file (sessionStatePath dd pk) (sessionStatePath dd ?tk) d4))"
    by blast
  have c1: "changes_only (around ?r) d d1" by (rule changes_MkdirAll [OF m]) simp_all
  have c2: "changes_only (around ?r) d1 d2" by (rule changes_append_all [OF a [unfolded eventsPath_def]])
  have c3: "changes_only (around ?r) d2 d3" by (rule changes_AppendEventJSONL [OF b [unfolded eventsPath_def]])
  have "changes_only (around ?r) d3 (fst (writeJSON (encSummary cd) (summaryPath dd ?tk) sm d3))" for sm
    by (cases "writeJSON (encSummary cd) (summaryPath dd ?tk) sm d3")
      (auto simp: summaryPath_def intro: changes_writeJSON)
  then have c4: "changes_only (around ?r) d3 d4" using d4 by auto
  have c5: "changes_only (around ?r) d4 (copy_file (sessionStatePath dd pk) (sessionStatePath dd ?tk) d4)"
    unfolding sessionStatePath_def [of dd ?tk] by (rule changes_copy_file)
  have c: "changes_only (around ?r) d d'"
    unfolding d' using c1 c2 c3 c4 c5 changes_WriteMetadata by (blast intro: changes_trans)
  have short: "short_events (encEvent cd) ?es" "short_events (encEvent cd) [?ctx]"
    using assms(3) set_last_n [of maxForkEvents upTo] by (auto simp: short_events_def)
  have f1: "file_data (d1 ?p) = ''''" using os_MkdirAll_data [OF m [unfolded e1]] assms(4) by simp
  have log: "append_all (encEvent cd) ?p 0 (?es @ [?ctx]) d1 = (d3, None)"
  proof -
    have "append_all enc p i (xs @ [y]) d = (d3, None)"
      if "append_all enc p i xs d = (d2, None)" "AppendEventJSONL enc p y d2 = (d3, None)" for enc p i xs y d
      using that(1) by (induction xs arbitrary: i d) (auto simp: that(2) split: prod.splits option.splits)
    then show ?thesis using a b e2 e3 by blast
  qed
  have "short_events (encEvent cd) (?es @ [?ctx])" using short by (auto simp: short_events_def)
  from append_all_events [OF assms(2) log this] f1
  have d3: "disk_events (decEvent cd) d3 ?p = ?es @ [?ctx]"
    by (simp add: disk_events_def log_ended_def log_blocked_def)
  from AppendEventJSONL_ok [OF b [unfolded e3]] obtain s where s: "d3 ?p = Some (File s)" by metis
  have "d4 ?p = Some (File s)"
    using d4 s by (auto simp: summaryPath_def eventsPath_def writeJSON_sibling)
  then have "copy_file (sessionStatePath dd pk) (sessionStatePath dd ?tk) d4 ?p = Some (File s)"
    by (rule copy_file_keeps) (simp add: eventsPath_def sessionStatePath_def)
  then have "d' ?p = Some (File s)"
    by (simp add: d' WriteMetadata_def metadataPath_def eventsPath_def writeJSON_sibling)
  then show ?thesis using tk c d3 s by (simp add: disk_events_def)
qed

lemma find_index_Some:
  assumes "find_index P xs = Some n"
  shows "n < length xs \<and> P (xs ! n) \<and> (\<forall>j < n. \<not> P (xs ! j))"
proof -
  let ?t = "takeWhile (\<lambda>x. \<not> P x) xs"
  have n: "n = length ?t" "n < length xs" using assms by (auto simp: find_index_def Let_def split: if_splits)
  have "\<not> P (xs ! j)" if "j < n" for j
    using that n(1) takeWhile_nth [of j "\<lambda>x. \<not> P x" xs] nth_mem [of j ?t]
    by (auto dest: set_takeWhileD)
  then show ?thesis using n nth_length_takeWhile [of "\<lambda>x. \<not> P x" xs] by auto
qed

text \<open>A fork creates a session whose log is the parent's up to the first event with the identifier,
  at most the last hundred of it, and an event that explains the thread; nothing in the parent's
  directory changes.\<close>

theorem fork_copies:
  assumes "ForkSession cd dd namer now tid cid stamp pk ev name d = (d', ts, Inr tk)"
    and "ReadEventJSONL (decEvent cd) (eventsPath dd pk) d = Inr (es, warn)"
    and "codec_ok (encEvent cd) (decEvent cd)" and "short_events (encEvent cd) es"
    and "\<And>q. short_events (encEvent cd) [makeThreadContextEvent cid q]"
    and "plain_key pk" and "plain tid" and "tid \<noteq> skSession pk"
    and "file_data (d (eventsPath dd (pk\<lparr>skSession := tid\<rparr>))) = ''''"
  shows "tk = pk\<lparr>skSession := tid\<rparr> \<and> (\<forall>q. prefix (sessionDir dd pk) q \<longrightarrow> d' q = d q) \<and>
    (\<exists>n < length es. seID (es ! n) = ev \<and> (\<forall>j < n. seID (es ! j) \<noteq> ev) \<and>
       disk_events (decEvent cd) d' (eventsPath dd tk) = last_n maxForkEvents (take (Suc n) es) @
         [makeThreadContextEvent cid (first_content (event_messages (es ! n)))])"
proof -
  obtain n where n: "find_index (\<lambda>e. seID e = ev) es = Some n"
    using assms(1,2) by (auto simp: ForkSession_def split: option.splits)
  then have f: "fork_into cd dd namer now tid cid stamp pk ev name (take (Suc n) es) d = (d', ts, Inr tk)"
    using assms(1,2) by (simp add: ForkSession_def)
  have lt: "n < length es" using find_index_Some [OF n] by simp
  then have last: "last (take (Suc n) es) = es ! n" by (simp add: take_Suc_conv_app_nth)
  have "short_events (encEvent cd) (makeThreadContextEvent cid q # take (Suc n) es)" for q
    using assms(4) assms(5) [of q] set_take_subset [of "Suc n" es] by (auto simp: short_events_def)
  from fork_into_ok [OF f assms(3) this assms(9)]
  have r: "tk = pk\<lparr>skSession := tid\<rparr>" "changes_only (around (sessionDir dd tk)) d d'"
    "disk_events (decEvent cd) d' (eventsPath dd tk) = last_n maxForkEvents (take (Suc n) es) @
       [makeThreadContextEvent cid (first_content (event_messages (es ! n)))]" unfolding last by blast+
  have "plain_key tk" using assms(6,7) r(1) by (simp add: plain_key_def)
  then have "sessionDir dd tk \<noteq> sessionDir dd pk" "length (sessionDir dd tk) = length (sessionDir dd pk)"
    using assms(6,8) r(1) by (simp_all add: sessionDir_plain)
  then have "\<forall>q. prefix (sessionDir dd pk) q \<longrightarrow> d' q = d q"
    using r(2) not_around by (auto simp: changes_only_def)
  then show ?thesis using r find_index_Some [OF n] by blast
qed

section \<open>State of the application in a session\<close>

text \<open>What the agent library documents of the state of a session object: setting a key, and a new
  object that starts with the given state.\<close>

definition state_lib_ok :: "'x session_lib \<Rightarrow> bool" where
  "state_lib_ok lib \<longleftrightarrow>
     (\<forall>k v s. map_of (lbSnapshotState lib (lbSetState lib k v s)) = (map_of (lbSnapshotState lib s))(k \<mapsto> v)) \<and>
     (\<forall>k es m. map_of (lbSnapshotState lib (lbNewSession lib k es m)) =
        (case m of None \<Rightarrow> Map.empty | Some kvs \<Rightarrow> map_of kvs)) \<and>
     \<not> prefix (lbAppPrefix lib) (lbUserPrefix lib) \<and> \<not> prefix (lbUserPrefix lib) (lbAppPrefix lib)"

definition state_codec_ok :: "codecs \<Rightarrow> bool" where
  "state_codec_ok cd \<longleftrightarrow>
     (\<forall>m s. encState cd m = Inr s \<longrightarrow> (\<exists>m'. decState cd s = (Some m', None) \<and> map_of m' = map_of m))"

lemma set_all_other:
  assumes "state_lib_ok lib" and "\<And>k. key \<noteq> pre @ k"
  shows "map_of (lbSnapshotState lib (set_all lib pre m s)) key = map_of (lbSnapshotState lib s) key"
proof -
  have "map_of (lbSnapshotState lib (foldl (\<lambda>s (k, v). lbSetState lib (pre @ k) v s) s kvs)) key =
      map_of (lbSnapshotState lib s) key" for kvs
    using assms by (induction kvs arbitrary: s) (auto simp: state_lib_ok_def)
  then show ?thesis by (simp add: set_all_def)
qed

lemma set_all_absent:
  assumes "state_lib_ok lib" and "\<And>m'. m = Some m' \<Longrightarrow> k \<notin> fst ` set m'"
  shows "map_of (lbSnapshotState lib (set_all lib pre m s)) (pre @ k) = map_of (lbSnapshotState lib s) (pre @ k)"
proof -
  have "k \<notin> fst ` set kvs \<Longrightarrow>
      map_of (lbSnapshotState lib (foldl (\<lambda>s (k, v). lbSetState lib (pre @ k) v s) s kvs)) (pre @ k) =
      map_of (lbSnapshotState lib s) (pre @ k)" for kvs
    using assms(1) by (induction kvs arbitrary: s) (auto simp: state_lib_ok_def)
  then show ?thesis using assms(2) by (cases m) (auto simp: set_all_def)
qed

lemma prefixes_differ: "state_lib_ok lib \<Longrightarrow> lbAppPrefix lib @ k \<noteq> lbUserPrefix lib @ k'"
  by (auto simp: state_lib_ok_def append_eq_append_conv2 prefix_def) metis+

text \<open>The state file of a session after an append holds the snapshot of the session object.\<close>

lemma AppendEvent_state:
  assumes "AppendEvent lib cd dd namer now (Some s) evt d = (d', s', ts, None)"
  obtains x where "encState cd (lbSnapshotState lib (lbUpdateUserSession lib evt s)) = Inr x"
    "d' (sessionStatePath dd (session_key s)) = Some (File x)"
proof -
  let ?k = "session_key s" and ?s1 = "lbUpdateUserSession lib evt s"
  have ck: "lbCheckSessionKey lib ?k = None"
    using assms by (cases "lbCheckSessionKey lib ?k") (auto simp: AppendEvent_def)
  obtain d1 e1 where a: "AppendEventJSONL (encEvent cd) (eventsPath dd ?k) evt d = (d1, e1)" by fastforce
  with assms ck have "e1 = None" by (cases e1) (auto simp: AppendEvent_def)
  obtain d2 e2 where st: "writeJSON (encState cd) (sessionStatePath dd ?k) (lbSnapshotState lib ?s1) d1 = (d2, e2)"
    by fastforce
  with assms ck a \<open>e1 = None\<close> have "e2 = None" by (cases e2) (auto simp: AppendEvent_def)
  with st obtain x where x: "encState cd (lbSnapshotState lib ?s1) = Inr x" "d2 (sessionStatePath dd ?k) = Some (File x)"
    unfolding sessionStatePath_def by (blast dest: writeJSON_stored)
  have "fst (WriteMetadata cd dd ?k meta d2) (sessionStatePath dd ?k) = Some (File x)" for meta
    using x(2) by (simp add: WriteMetadata_def metadataPath_def sessionStatePath_def writeJSON_sibling)
  moreover have "d' = d2 \<or> (\<exists>meta. d' = fst (WriteMetadata cd dd ?k meta d2))"
    using assms ck a st \<open>e1 = None\<close> \<open>e2 = None\<close> by (auto simp: AppendEvent_def Let_def split: if_splits)
  ultimately show ?thesis using that [OF x(1)] x(2) by metis
qed

lemma DeleteAppState_file:
  assumes "DeleteAppState lib cd dd app key d = (d', None)" and "plain app"
  shows "(d' = d \<and> fst (readJSON (decState cd) None (appStatePath dd app) d) = None) \<or>
    (\<exists>m x. encState cd (AList.delete (trim_prefix key (lbAppPrefix lib)) m) = Inr x \<and>
       d' (appStatePath dd app) = Some (File x))"
    and "d q = Some e \<Longrightarrow> length q \<noteq> length dd + 2 \<Longrightarrow> d' q = Some e"
proof -
  have ne: "app \<noteq> ''''" using assms(1) by (auto simp: DeleteAppState_def)
  obtain ex er where r: "readJSON (decState cd) None (appStatePath dd app) d = (ex, er)" by fastforce
  have er: "er = None" using assms(1) ne r by (cases er) (auto simp: DeleteAppState_def update_state_file_def)
  have path: "appStatePath dd app = (dd @ [app]) @ [''app_state.json'']"
    using assms(2) by (simp add: appStatePath_def join_path_plain)
  show "(d' = d \<and> fst (readJSON (decState cd) None (appStatePath dd app) d) = None) \<or>
    (\<exists>m x. encState cd (AList.delete (trim_prefix key (lbAppPrefix lib)) m) = Inr x \<and>
       d' (appStatePath dd app) = Some (File x))"
  proof (cases ex)
    case None
    then show ?thesis using assms(1) ne r er by (simp add: DeleteAppState_def update_state_file_def)
  next
    case (Some m)
    then have "writeJSON (encState cd) (appStatePath dd app) (AList.delete (trim_prefix key (lbAppPrefix lib)) m) d = (d', None)"
      using assms(1) ne r er by (simp add: DeleteAppState_def update_state_file_def)
    then show ?thesis unfolding path by (blast dest: writeJSON_stored)
  qed
  assume q: "d q = Some e" "length q \<noteq> length dd + 2"
  have "fst (writeJSON (encState cd) (appStatePath dd app) v d) q = Some e" for v
    unfolding path by (rule writeJSON_keeps) (use q in auto)
  moreover have "d' = d \<or> (\<exists>v. writeJSON (encState cd) (appStatePath dd app) v d = (d', None))"
    using assms(1) ne r er by (cases ex) (auto simp: DeleteAppState_def update_state_file_def)
  ultimately show "d' q = Some e" using q(1) by (metis fst_conv)
qed

text \<open>A key of the application's state that was deleted comes back: an appended event stores the
  merged state of the session object with the session, and reading the session restores the key from
  there although the application's state has it no more.\<close>

theorem deleted_app_state_survives:
  assumes "state_lib_ok lib" and "state_codec_ok cd" and "plain_key (session_key s)"
    and "AppendEvent lib cd dd namer now (Some s) evt d = (d1, Some s1, ts, None)"
    and "map_of (lbSnapshotState lib s1) (lbAppPrefix lib @ k) = Some v"
    and "DeleteAppState lib cd dd (skApp (session_key s)) (lbAppPrefix lib @ k) d1 = (d2, None)"
    and "GetSession lib cd dd id (session_key s) d2 = Inr (Some s2)"
    and "\<And>x sm. lbSnapshotState lib (x\<lparr>ssSummaries := sm\<rparr>) = lbSnapshotState lib x"
  shows "map_of (lbSnapshotState lib s2) (lbAppPrefix lib @ k) = Some v \<and>
    (\<forall>m. ListAppStates lib cd dd (skApp (session_key s)) d2 = Inr m \<longrightarrow> map_of m k = None)"
proof -
  let ?k = "session_key s" and ?app = "skApp (session_key s)" and ?key = "lbAppPrefix lib @ k"
  have pl: "plain ?app" using assms(3) by (simp add: plain_key_def)
  have s1: "s1 = lbUpdateUserSession lib evt s" using assms(4) AppendEvent_ok by (metis option.inject)
  obtain x where x: "encState cd (lbSnapshotState lib s1) = Inr x" "d1 (sessionStatePath dd ?k) = Some (File x)"
    using AppendEvent_state [OF assms(4)] s1 by metis
  have len: "length (sessionStatePath dd ?k) \<noteq> length dd + 2"
    using assms(3) by (simp add: sessionStatePath_def sessionDir_plain)
  have d2: "d2 (sessionStatePath dd ?k) = Some (File x)" by (rule DeleteAppState_file(2) [OF assms(6) pl x(2) len])
  obtain m' where m': "decState cd x = (Some m', None)" "map_of m' = map_of (lbSnapshotState lib s1)"
    using assms(2) x(1) by (auto simp: state_codec_ok_def)
  have tr: "trim_prefix ?key (lbAppPrefix lib) = k" by (simp add: trim_prefix_def has_prefix_def)
  have appfile: "fst (readJSON (decState cd) None (appStatePath dd ?app) d2) = None \<or>
      (\<exists>m''. readJSON (decState cd) None (appStatePath dd ?app) d2 = (Some m'', None) \<and> map_of m'' k = None)"
    using DeleteAppState_file(1) [OF assms(6) pl]
  proof
    assume "\<exists>m x. encState cd (AList.delete (trim_prefix ?key (lbAppPrefix lib)) m) = Inr x \<and>
       d2 (appStatePath dd ?app) = Some (File x)"
    then obtain m y where y: "encState cd (AList.delete k m) = Inr y" "d2 (appStatePath dd ?app) = Some (File y)"
      by (auto simp: tr)
    then obtain m'' where "decState cd y = (Some m'', None)" "map_of m'' = map_of (AList.delete k m)"
      using assms(2) by (auto simp: state_codec_ok_def)
    then show ?thesis using y(2) by (simp add: readJSON_def os_ReadFile_def delete_conv)
  qed simp
  have absent: "k \<notin> fst ` set m''" if "fst (readJSON (decState cd) None (appStatePath dd ?app) d2) = Some m''" for m''
    using appfile that by (auto simp: map_of_eq_None_iff)
  obtain evts where "s2 = loadMergedState lib cd dd ?k d2 (with_summary cd dd ?k d2 (lbNewSession lib ?k evts (Some m')))"
    using assms(7) d2 m'(1)
    by (auto simp: GetSession_def load_session_def readJSON_def os_ReadFile_def split: option.splits if_splits sum.splits)
  moreover have "lbSnapshotState lib (with_summary cd dd ?k d2 y) = lbSnapshotState lib y" for y
    using assms(8) by (auto simp: with_summary_def split: prod.splits option.splits)
  ultimately have "map_of (lbSnapshotState lib s2) ?key = Some v"
    using assms(1,5) m'(2) set_all_other [OF assms(1), of ?key "lbUserPrefix lib"] prefixes_differ [OF assms(1)]
      set_all_absent [OF assms(1) absent]
    by (simp add: loadMergedState_def state_lib_ok_def)
  moreover have "map_of m k = None" if "ListAppStates lib cd dd ?app d2 = Inr m" for m
    using appfile that
    by (cases "readJSON (decState cd) None (appStatePath dd ?app) d2") (auto simp: ListAppStates_def list_states_def split: if_splits option.splits)
  ultimately show ?thesis by blast
qed

section \<open>A small store\<close>

definition demo_event :: "string \<Rightarrow> session_event" where
  "demo_event i = \<lparr>seID = i, seAuthor = ''user'', seResponse = Some ([user_message ''hi''], None), seOther = ''''\<rparr>"

definition demo_context :: session_event where
  "demo_context = makeThreadContextEvent ''c'' ''hi''"

text \<open>An encoder of these events and of three state maps.\<close>

definition demo_codecs :: codecs where
  "demo_codecs = \<lparr>
     encEvent = (\<lambda>e. if e = demo_context then Inr ''c}''
       else if nl \<in> set (seID e) then Inl ''unsupported''
       else if e = demo_event (seID e) then Inr (''u'' @ seID e @ ''}'')
       else Inl ''unsupported''),
     decEvent = (\<lambda>w. if w = ''c}'' then Some demo_context
       else if length w < 2 then None else Some (demo_event (butlast (tl w)))),
     encState = (\<lambda>m. if m = [] then Inr ''0'' else if m = [(''x'', ''1'')] then Inr ''1''
       else if m = [(''app:x'', ''1'')] then Inr ''2'' else Inl ''unsupported''),
     decState = (\<lambda>w. if w = ''0'' then (Some [], None) else if w = ''1'' then (Some [(''x'', ''1'')], None)
       else if w = ''2'' then (Some [(''app:x'', ''1'')], None) else (None, Some ''unsupported'')),
     encMetadata = (\<lambda>_. Inr ''m''), decMetadata = (\<lambda>_. (zero_metadata\<lparr>smID := ''s''\<rparr>, None)),
     encSummary = (\<lambda>s. Inr (suSummary s)), decSummary = (\<lambda>w. (\<lparr>suSummary = w, suUpdatedAt = 0\<rparr>, None)),
     encCache = (\<lambda>_. Inr ''c''), decCache = (\<lambda>_. (zero_cache, None))\<rparr>"

lemma demo_context_event [simp]: "demo_event i \<noteq> demo_context"
  by (simp add: demo_event_def demo_context_def makeThreadContextEvent_def)

lemma demo_codecs_ok: "codec_ok (encEvent demo_codecs) (decEvent demo_codecs)"
  by (auto simp: codec_ok_def demo_codecs_def control_chars split: if_splits)

definition demo_lib :: "state_map session_lib" where
  "demo_lib = \<lparr>
     lbCheckUserKey = (\<lambda>a u. if a = '''' \<or> u = '''' then Some ''required'' else None),
     lbCheckSessionKey = (\<lambda>k. if skApp k = '''' \<or> skUser k = '''' \<or> skSession k = '''' then Some ''required'' else None),
     lbNewSession = (\<lambda>k es m. \<lparr>ssApp = skApp k, ssUser = skUser k, ssID = skSession k, ssEvents = es,
       ssSummaries = Map.empty, ssInner = (case m of None \<Rightarrow> [] | Some kvs \<Rightarrow> kvs)\<rparr>),
     lbSetState = (\<lambda>k v s. s\<lparr>ssInner := (k, v) # ssInner s\<rparr>),
     lbSnapshotState = ssInner,
     lbUpdateUserSession = (\<lambda>e s. s\<lparr>ssEvents := ssEvents s @ [e]\<rparr>),
     lbAppPrefix = ''app:'', lbUserPrefix = ''user:'', lbTempPrefix = ''temp:'',
     lbErrSessionIDRequired = ''session id required'', lbErrAppNameRequired = ''app name required'',
     lbErrNilSession = ''nil session''\<rparr>"

definition demo_key :: skey where
  "demo_key = \<lparr>skApp = ''k'', skUser = ''u'', skSession = ''s''\<rparr>"

definition demo_session :: "state_map session" where
  "demo_session = lbNewSession demo_lib demo_key (replicate 21 (demo_event ''a'')) None"

definition demo_model :: "string \<Rightarrow> string + (string + string list) list" where
  "demo_model prompt = Inr [Inr [''They met.'']]"

text \<open>The disk after the session was created, and after an event was appended while the model works.\<close>

definition demo_start :: disk where
  "demo_start = fst (CreateSession demo_lib demo_codecs [] demo_key [] demo_disk)"

definition demo_append where
  "demo_append = AppendEvent demo_lib demo_codecs [] False 1 (Some demo_session) (demo_event ''b'') demo_start"

lemma demo_plan:
  "\<exists>prompt. plan_summary True demo_session '''' True = AskModel prompt (ssEvents demo_session)"
proof -
  have "(case plan_summary True demo_session '''' True of AskModel _ _ \<Rightarrow> True | _ \<Rightarrow> False)" by code_simp
  moreover have "evs = ssEvents demo_session" if "plan_summary True demo_session '''' True = AskModel p evs" for p evs
    using that by (auto simp: plan_summary_def Let_def split: if_splits)
  ultimately show ?thesis by (auto split: summary_plan.splits)
qed

lemma demo_append_ok: "snd (snd (snd demo_append)) = None"
  by code_simp

lemma demo_commit_ok:
  "snd (snd (CreateSessionSummary demo_codecs [] 2 (Some demo_model) id demo_session '''' True demo_start)) = None"
  by code_simp

lemma demo_short: "short_events (encEvent demo_codecs) [demo_event ''a'', demo_event ''b'']"
  by (auto simp: short_events_def demo_codecs_def demo_event_def maxScannerBuffer_def control_chars)

lemma demo_short_session: "short_events (encEvent demo_codecs) (demo_event ''b'' # ssEvents demo_session)"
  using demo_short by (auto simp: short_events_def demo_session_def demo_lib_def)

lemma demo_session_key [simp]: "session_key demo_session = demo_key"
  by (simp add: session_key_def demo_session_def demo_lib_def demo_key_def)

lemma demo_plain: "plain_key demo_key"
  by (simp add: plain_key_def demo_key_def plain_def)

theorem compaction_keeps_witness:
  "\<exists>d' s'. CreateSessionSummary demo_codecs [] 2 (Some demo_model) id demo_session '''' True demo_start = (d', s', None) \<and>
     disk_events (decEvent demo_codecs) d' (eventsPath [] demo_key) = ssEvents s'"
proof -
  obtain d' s' where c: "CreateSessionSummary demo_codecs [] 2 (Some demo_model) id demo_session '''' True demo_start = (d', s', None)"
    using demo_commit_ok by (metis prod.collapse)
  obtain prompt where p: "plan_summary True demo_session '''' True = AskModel prompt (ssEvents demo_session)"
    using demo_plan by blast
  have "short_events (encEvent demo_codecs) (ssEvents demo_session)"
    using demo_short_session by (auto simp: short_events_def)
  from compaction_keeps [OF p c _ demo_codecs_ok this] c show ?thesis by auto
qed

text \<open>An event arrives while the model summarizes.\<close>

lemma demo_lost_ok:
  "snd (snd (CreateSessionSummary demo_codecs [] 2 (Some demo_model)
     (\<lambda>_. (fst demo_append, the (fst (snd demo_append)))) demo_session '''' True demo_start)) = None"
  by code_simp

theorem concurrent_event_lost_witness:
  "\<exists>d1 d'. demo_event ''b'' \<in> set (disk_events (decEvent demo_codecs) d1 (eventsPath [] demo_key)) \<and>
     demo_event ''b'' \<notin> set (disk_events (decEvent demo_codecs) d' (eventsPath [] demo_key))"
proof -
  obtain d1 s1o ts e where a0: "demo_append = (d1, s1o, ts, e)" using prod_cases4 by blast
  have e: "e = None" using demo_append_ok unfolding a0 by simp
  have "s1o = Some (lbUpdateUserSession demo_lib (demo_event ''b'') demo_session)"
    using a0 e unfolding demo_append_def by (metis AppendEvent_ok)
  then obtain s1 where s1: "s1o = Some s1" "session_key s1 = session_key demo_session"
    by (auto simp: demo_lib_def session_key_def)
  have a: "AppendEvent demo_lib demo_codecs [] False 1 (Some demo_session) (demo_event ''b'') demo_start = (d1, Some s1, ts, None)"
    using a0 e s1(1) by (simp add: demo_append_def)
  obtain d' s' where c: "CreateSessionSummary demo_codecs [] 2 (Some demo_model) (\<lambda>_. (d1, s1)) demo_session '''' True demo_start = (d', s', None)"
    using demo_lost_ok a0 s1(1) by (metis fst_conv snd_conv option.sel prod.collapse)
  obtain prompt where p: "plan_summary True demo_session '''' True = AskModel prompt (ssEvents demo_session)"
    using demo_plan by blast
  have empty: "file_data (demo_start (eventsPath [] (session_key demo_session))) = ''''"
    by code_simp
  have new: "demo_event ''b'' \<notin> set (ssEvents demo_session)"
    by (simp add: demo_session_def demo_lib_def demo_event_def)
  from concurrent_event_lost [OF p a c s1(2) demo_codecs_ok demo_short_session _ _ new] show ?thesis
    unfolding empty by (auto simp: log_ended_def log_blocked_def)
qed

theorem session_isolation_witness:
  "fst (DeleteSession demo_lib [] demo_key demo_start) (sessionDir [] (demo_key\<lparr>skSession := ''t''\<rparr>) @ [''state.json'']) =
   demo_start (sessionDir [] (demo_key\<lparr>skSession := ''t''\<rparr>) @ [''state.json''])"
proof -
  have "plain_key (demo_key\<lparr>skSession := ''t''\<rparr>)" "demo_key \<noteq> demo_key\<lparr>skSession := ''t''\<rparr>"
    by (simp_all add: plain_key_def demo_key_def plain_def)
  from session_isolation [where s = demo_session and q = "sessionDir [] (demo_key\<lparr>skSession := ''t''\<rparr>) @ [''state.json'']",
      OF demo_plain this] show ?thesis by simp
qed

theorem delete_session_escapes_witness:
  "\<exists>d'. DeleteSession demo_lib [] \<lparr>skApp = ''k'', skUser = ''v'', skSession = ''..''\<rparr> demo_start = (d', None) \<and>
     d' (sessionDir [] demo_key @ [''state.json'']) = None"
proof -
  have p: "plain ''k''" "plain ''v''" "plain ''u''" "plain ''s''" by (simp_all add: plain_def)
  have ck: "lbCheckSessionKey demo_lib \<lparr>skApp = ''k'', skUser = ''v'', skSession = ''..''\<rparr> = None"
    by (simp add: demo_lib_def)
  have "\<not> through_file demo_start ([] @ [''k''])" by code_simp
  from delete_session_escapes [OF p(1,2) ck this] p show ?thesis by (fastforce simp: demo_key_def)
qed

definition demo_log :: disk where
  "demo_log = fst demo_append"

lemma demo_log_read: "\<exists>warn. ReadEventJSONL (decEvent demo_codecs) (eventsPath [] demo_key) demo_log = Inr ([demo_event ''b''], warn)"
proof -
  let ?p = "eventsPath [] demo_key"
  obtain d1 s1o ts e where a0: "demo_append = (d1, s1o, ts, e)" using prod_cases4 by blast
  have "e = None" using demo_append_ok unfolding a0 by simp
  then obtain w where w: "encEvent demo_codecs (demo_event ''b'') = Inr w"
    "d1 ?p = Some (File (file_data (demo_start ?p) @ w @ newline))"
    using a0 unfolding demo_append_def by (metis AppendEvent_ok demo_session_key)
  have empty: "file_data (demo_start ?p) = ''''" by code_simp
  have "length w < maxScannerBuffer"
    using w(1) by (auto simp: demo_codecs_def maxScannerBuffer_def demo_event_def control_chars split: if_splits)
  then have "disk_events (decEvent demo_codecs) d1 ?p = [demo_event ''b'']"
    using log_append(1) [OF demo_codecs_ok w(1), of "''''"] w(2) empty
    by (simp add: disk_events_def file_data_def log_ended_def log_blocked_def)
  then show ?thesis
    using ReadEventJSONL_file [where dec = "decEvent demo_codecs" and d = d1 and p = ?p, OF w(2)]
    unfolding demo_log_def a0 by simp
qed

lemma demo_fork_ok:
  "(case fork_into demo_codecs [] False 3 ''t'' ''c'' '''' demo_key ''b'' '''' [demo_event ''b''] demo_log of
      (_, _, Inr _) \<Rightarrow> True | _ \<Rightarrow> False)"
  by code_simp

theorem fork_copies_witness:
  "\<exists>d' ts tk. ForkSession demo_codecs [] False 3 ''t'' ''c'' '''' demo_key ''b'' '''' demo_log = (d', ts, Inr tk) \<and>
     disk_events (decEvent demo_codecs) d' (eventsPath [] tk) = [demo_event ''b'', demo_context]"
proof -
  obtain warn where r: "ReadEventJSONL (decEvent demo_codecs) (eventsPath [] demo_key) demo_log = Inr ([demo_event ''b''], warn)"
    using demo_log_read by blast
  have "find_index (\<lambda>e. seID e = ''b'') [demo_event ''b''] = Some 0"
    by (simp add: find_index_def demo_event_def)
  then obtain d' ts tk where f: "ForkSession demo_codecs [] False 3 ''t'' ''c'' '''' demo_key ''b'' '''' demo_log = (d', ts, Inr tk)"
    using demo_fork_ok r by (auto simp: ForkSession_def split: prod.splits sum.splits)
  have short: "short_events (encEvent demo_codecs) [demo_event ''b'']" using demo_short by (auto simp: short_events_def)
  have ctx: "short_events (encEvent demo_codecs) [makeThreadContextEvent ''c'' q]" for q
    by (auto simp: short_events_def demo_codecs_def maxScannerBuffer_def makeThreadContextEvent_def demo_event_def
      split: if_splits)
  have fresh: "file_data (demo_log (eventsPath [] (demo_key\<lparr>skSession := ''t''\<rparr>))) = ''''" by code_simp
  have "plain ''t''" "''t'' \<noteq> skSession demo_key" by (simp_all add: plain_def demo_key_def)
  from fork_copies [OF f r demo_codecs_ok short ctx demo_plain this fresh] f show ?thesis
    by (auto simp: last_n_def maxForkEvents_def demo_context_def event_messages_def demo_event_def first_content_def
      user_message_def)
qed

lemma demo_state_ok: "state_lib_ok demo_lib" "state_codec_ok demo_codecs"
  by (auto simp: state_lib_ok_def demo_lib_def state_codec_ok_def demo_codecs_def prefix_def split: option.splits)

text \<open>The application's state gets a key, a session is loaded with it and stores it, the key is deleted.\<close>

definition demo_merged :: "state_map session" where
  "demo_merged = demo_session\<lparr>ssInner := [(''app:x'', ''1'')]\<rparr>"

definition demo_stored where
  "demo_stored = AppendEvent demo_lib demo_codecs [] False 1 (Some demo_merged) (demo_event ''b'')
     (fst (UpdateAppState demo_lib demo_codecs [] ''k'' [(''x'', ''1'')] demo_start))"

definition demo_deleted where
  "demo_deleted = DeleteAppState demo_lib demo_codecs [] ''k'' ''app:x'' (fst demo_stored)"

lemma demo_deleted_ok:
  "snd (snd (snd demo_stored)) = None" "snd demo_deleted = None"
  "(case fst demo_deleted (eventsPath [] demo_key) of Some (File _) \<Rightarrow> True | _ \<Rightarrow> False)"
  "readJSON (decState demo_codecs) None (sessionStatePath [] demo_key) (fst demo_deleted) = (Some [(''app:x'', ''1'')], None)"
  "fst demo_deleted (sessionDir [] demo_key) = Some Dir"
  by code_simp+

theorem deleted_app_state_survives_witness:
  "\<exists>s2. GetSession demo_lib demo_codecs [] id demo_key (fst demo_deleted) = Inr (Some s2) \<and>
     map_of (lbSnapshotState demo_lib s2) ''app:x'' = Some ''1''"
proof -
  obtain d1 s1o ts e where a0: "demo_stored = (d1, s1o, ts, e)" using prod_cases4 by blast
  have e: "e = None" using demo_deleted_ok(1) unfolding a0 by simp
  have key: "session_key demo_merged = demo_key" by (simp add: demo_merged_def session_key_def demo_session_def demo_lib_def demo_key_def)
  have s1o: "s1o = Some (lbUpdateUserSession demo_lib (demo_event ''b'') demo_merged)"
    using a0 e unfolding demo_stored_def by (metis AppendEvent_ok)
  let ?s1 = "lbUpdateUserSession demo_lib (demo_event ''b'') demo_merged"
  have a: "AppendEvent demo_lib demo_codecs [] False 1 (Some demo_merged) (demo_event ''b'')
      (fst (UpdateAppState demo_lib demo_codecs [] ''k'' [(''x'', ''1'')] demo_start)) = (d1, Some ?s1, ts, None)"
    using a0 unfolding demo_stored_def e s1o .
  have has: "map_of (lbSnapshotState demo_lib ?s1) (lbAppPrefix demo_lib @ ''x'') = Some ''1''"
    by (simp add: demo_lib_def demo_merged_def)
  obtain d2 where del: "demo_deleted = (d2, None)" using demo_deleted_ok(2) by (metis prod.collapse)
  have del2: "DeleteAppState demo_lib demo_codecs [] (skApp (session_key demo_merged)) (lbAppPrefix demo_lib @ ''x'') d1 = (d2, None)"
    using del unfolding demo_deleted_def a0 key by (simp add: demo_lib_def demo_key_def)
  note st = demo_deleted_ok(3-5) [unfolded del fst_conv]
  from st(1) obtain x where "d2 (eventsPath [] demo_key) = Some (File x)"
    by (auto split: option.splits entry.splits)
  then obtain warn es where "ReadEventJSONL (decEvent demo_codecs) (eventsPath [] demo_key) d2 = Inr (es, warn)"
    using ReadEventJSONL_file by blast
  moreover have chk: "lbCheckSessionKey demo_lib demo_key = None" by (simp add: demo_lib_def demo_key_def)
  ultimately obtain s2 where g: "GetSession demo_lib demo_codecs [] id demo_key d2 = Inr (Some s2)"
    using st(2,3) chk by (simp add: GetSession_def load_session_def os_Stat_def)
  have "plain_key (session_key demo_merged)" using demo_plain key by simp
  from deleted_app_state_survives [OF demo_state_ok this a has del2 _ _] g show ?thesis
    unfolding key del by (simp add: demo_lib_def)
qed

end
