(* ===== verification/GoRegex.thy ===== *)
theory GoRegex
  imports Prelude
begin

text \<open>
  The part of the package \<open>regexp\<close> that the program's fixed patterns need: a search for the
  leftmost match, preferred as a backtracking search prefers (greedy repetitions of a class of
  characters, alternatives from left to right), with the texts of the groups.  All patterns of
  the program repeat classes of single characters only, so a run is structural in the pattern.
  Case is folded for ASCII letters only, and a character is one byte.
\<close>

datatype rx =
  Lit string
| LitFold string
| Cls "char \<Rightarrow> bool"
| Plus "char \<Rightarrow> bool"
| Many "char \<Rightarrow> bool"
| Sq rx rx
| Alt rx rx
| Opt rx
| Group rx

text \<open>The ways to read a block of a class, longest first.\<close>

fun blocks :: "(char \<Rightarrow> bool) \<Rightarrow> string \<Rightarrow> (string \<times> string) list" where
  "blocks P [] = [([], [])]"
| "blocks P (c # s) = (if P c then map (\<lambda>(a, b). (c # a, b)) (blocks P s) @ [([], c # s)] else [([], c # s)])"

text \<open>The matches at the start of a text in the order of preference: what was read, the rest, and
  the groups.\<close>

fun run :: "rx \<Rightarrow> string \<Rightarrow> (string \<times> string \<times> string list) list" where
  "run (Lit w) s = (if has_prefix s w then [(w, drop (length w) s, [])] else [])"
| "run (LitFold w) s =
     (if length w \<le> length s \<and> to_lower (take (length w) s) = to_lower w
      then [(take (length w) s, drop (length w) s, [])] else [])"
| "run (Cls P) s = (case s of [] \<Rightarrow> [] | c # s' \<Rightarrow> if P c then [([c], s', [])] else [])"
| "run (Plus P) s = map (\<lambda>(a, b). (a, b, [])) (filter (\<lambda>(a, b). a \<noteq> []) (blocks P s))"
| "run (Many P) s = map (\<lambda>(a, b). (a, b, [])) (blocks P s)"
| "run (Sq r1 r2) s =
     concat (map (\<lambda>(a, s1, g1). map (\<lambda>(b, s2, g2). (a @ b, s2, g1 @ g2)) (run r2 s1)) (run r1 s))"
| "run (Alt r1 r2) s = run r1 s @ run r2 s"
| "run (Opt r) s = run r s @ [([], s, [])]"
| "run (Group r) s = map (\<lambda>(a, b, g). (a, b, a # g)) (run r s)"

fun seq_all :: "rx list \<Rightarrow> rx" where
  "seq_all [] = Lit ''''"
| "seq_all [r] = r"
| "seq_all (r # r2 # rs) = Sq r (seq_all (r2 # rs))"

fun alt_all :: "rx list \<Rightarrow> rx" where
  "alt_all [] = Cls (\<lambda>_. False)"
| "alt_all [r] = r"
| "alt_all (r # r2 # rs) = Alt r (alt_all (r2 # rs))"

text \<open>\<open>FindStringSubmatch\<close>: the match and its groups.\<close>

fun find_sub :: "rx \<Rightarrow> string \<Rightarrow> (string \<times> string list) option" where
  "find_sub r [] = (case run r [] of (a, _, g) # _ \<Rightarrow> Some (a, g) | [] \<Rightarrow> None)"
| "find_sub r (c # s) =
     (case run r (c # s) of (a, _, g) # _ \<Rightarrow> Some (a, g) | [] \<Rightarrow> find_sub r s)"

text \<open>\<open>FindAllStringSubmatch\<close> and \<open>ReplaceAllString\<close> with the empty text, for patterns that match
  no empty text; the number counts the characters of the last match still to be passed.\<close>

fun find_all :: "rx \<Rightarrow> nat \<Rightarrow> string \<Rightarrow> (string \<times> string list) list" where
  "find_all r k [] = []"
| "find_all r (Suc k) (c # s) = find_all r k s"
| "find_all r 0 (c # s) =
     (case run r (c # s) of
        (a, _, g) # _ \<Rightarrow> (a, g) # find_all r (length a - 1) s
      | [] \<Rightarrow> find_all r 0 s)"

fun remove_all :: "rx \<Rightarrow> nat \<Rightarrow> string \<Rightarrow> string" where
  "remove_all r k [] = []"
| "remove_all r (Suc k) (c # s) = remove_all r k s"
| "remove_all r 0 (c # s) =
     (case run r (c # s) of
        (a, _, g) # _ \<Rightarrow> remove_all r (length a - 1) s
      | [] \<Rightarrow> c # remove_all r 0 s)"

definition rx_space :: "char \<Rightarrow> bool" where
  "rx_space c \<longleftrightarrow> (of_char c :: nat) \<in> {9, 10, 12, 13, 32}"

definition rx_any :: "char \<Rightarrow> bool" where
  "rx_any c \<longleftrightarrow> (of_char c :: nat) \<noteq> 10"

definition rx_word :: "char \<Rightarrow> bool" where
  "rx_word c \<longleftrightarrow> (let n = (of_char c :: nat) in
     48 \<le> n \<and> n \<le> 57 \<or> 65 \<le> n \<and> n \<le> 90 \<or> 97 \<le> n \<and> n \<le> 122 \<or> n = 95)"

section \<open>What a match is\<close>

lemma blocks_split: "(a, b) \<in> set (blocks P s) \<Longrightarrow> s = a @ b \<and> list_all P a"
  by (induction s arbitrary: a b) (auto split: if_splits)

lemma run_split: "(a, b, g) \<in> set (run r s) \<Longrightarrow> s = a @ b"
proof (induction r s arbitrary: a b g rule: run.induct)
  case (2 w s) then show ?case by (auto split: if_splits)
next
  case (4 P s) then show ?case using blocks_split by auto
next
  case (5 P s) then show ?case using blocks_split by auto
next
  case (6 r1 r2 s) then show ?case by fastforce
next
  case (1 w s)
  then show ?case by (auto simp: has_prefix_def split: if_splits) (metis append_take_drop_id)
qed (auto split: list.splits if_splits)

text \<open>The number of groups a pattern without optional groups yields.\<close>

fun groups :: "rx \<Rightarrow> nat" where
  "groups (Sq r1 r2) = groups r1 + groups r2"
| "groups (Group r) = Suc (groups r)"
| "groups (Opt r) = groups r"
| "groups (Alt r1 r2) = groups r1"
| "groups _ = 0"

fun plain_groups :: "rx \<Rightarrow> bool" where
  "plain_groups (Sq r1 r2) = (plain_groups r1 \<and> plain_groups r2)"
| "plain_groups (Group r) = plain_groups r"
| "plain_groups (Opt r) = (plain_groups r \<and> groups r = 0)"
| "plain_groups (Alt r1 r2) = (plain_groups r1 \<and> plain_groups r2 \<and> groups r1 = groups r2)"
| "plain_groups _ = True"

lemma run_groups: "plain_groups r \<Longrightarrow> (a, b, g) \<in> set (run r s) \<Longrightarrow> length g = groups r"
  by (induction r s arbitrary: a b g rule: run.induct) (fastforce split: list.splits if_splits)+

lemma find_sub_run:
  assumes "find_sub r s = Some (a, g)"
  shows "\<exists>p b. s = p @ a @ b \<and> (a, b, g) \<in> set (run r (a @ b))"
  using assms
proof (induction r s rule: find_sub.induct)
  case (1 r)
  then obtain b rest where "run r [] = (a, b, g) # rest" by (auto split: list.splits)
  then show ?case using run_split [of a b g r "[]"] by (intro exI [of _ "[]"] exI [of _ b]) auto
next
  case (2 r c s)
  show ?case
  proof (cases "run r (c # s)")
    case Nil
    with 2 obtain p b where "s = p @ a @ b" "(a, b, g) \<in> set (run r (a @ b))" by auto
    then show ?thesis by (intro exI [of _ "c # p"] exI [of _ b]) simp
  next
    case (Cons x xs)
    then obtain b where "x = (a, b, g)" using 2(2) by (auto split: prod.splits)
    then have "(a, b, g) \<in> set (run r (c # s))" using Cons by simp
    then show ?thesis using run_split [of a b g r "c # s"] by (intro exI [of _ "[]"] exI [of _ b]) auto
  qed
qed

lemma find_sub_groups: "plain_groups r \<Longrightarrow> find_sub r s = Some (a, g) \<Longrightarrow> length g = groups r"
  using find_sub_run run_groups by blast

end
