(* ===== verification/Trust.thy ===== *)
theory Trust
  imports Prelude
begin

text \<open>
  Trust tiers, \<open>internal/trust/tier.go\<close>, and the tools reserved to the owner,
  \<open>internal/tools/send.go\<close>.  A \<open>TrustTier\<close> is only ever one of the three constants and is a
  datatype, ordered as the constants are: a smaller tier has more rights.
\<close>

section \<open>Tiers\<close>

datatype trust_tier = TrustTierOwner | TrustTierAuthorized | TrustTierThirdParty

fun tier_int :: "trust_tier \<Rightarrow> nat" where
  "tier_int TrustTierOwner = 0"
| "tier_int TrustTierAuthorized = 1"
| "tier_int TrustTierThirdParty = 2"

fun tier_string :: "trust_tier \<Rightarrow> string" where
  "tier_string TrustTierOwner = ''owner''"
| "tier_string TrustTierAuthorized = ''authorized''"
| "tier_string TrustTierThirdParty = ''third_party''"

lemma tier_int_inj: "tier_int a = tier_int b \<longleftrightarrow> a = b"
  by (cases a; cases b) simp_all

instantiation trust_tier :: linorder
begin

definition less_eq_trust_tier where "less_eq_trust_tier a b \<longleftrightarrow> tier_int a \<le> tier_int b"

definition less_trust_tier where "less_trust_tier a b \<longleftrightarrow> tier_int a < tier_int b"

instance
  by standard (auto simp: less_eq_trust_tier_def less_trust_tier_def tier_int_inj)

end

record third_party_config =
  tpEnabled :: bool
  tpUseLocalLLM :: bool
  tpLocalLLMModel :: string
  tpMaxSessionLength :: int
  tpAllowRelay :: bool
  tpSystemPrompt :: string

record trust_config =
  tcOwnerPhones :: "string list"
  tcOwnerTelegram :: "int list"
  tcThirdParty :: third_party_config

definition normalizePhone :: "string \<Rightarrow> string" where
  "normalizePhone phone = trim_prefix phone ''+''"

definition isOwner :: "string \<Rightarrow> int \<Rightarrow> trust_config \<Rightarrow> bool" where
  "isOwner phone telegramID cfg \<longleftrightarrow>
     phone \<noteq> '''' \<and> list_ex (\<lambda>p. normalizePhone p = normalizePhone phone) (tcOwnerPhones cfg) \<or>
     telegramID \<noteq> 0 \<and> list_ex (\<lambda>i. i = telegramID) (tcOwnerTelegram cfg)"

definition Classify :: "string \<Rightarrow> int \<Rightarrow> trust_config option \<Rightarrow> trust_tier" where
  "Classify phone telegramID cfg =
     (case cfg of
        None \<Rightarrow> TrustTierAuthorized
      | Some c \<Rightarrow> if isOwner phone telegramID c then TrustTierOwner else TrustTierAuthorized)"

definition ClassifyWithAllowlist :: "string \<Rightarrow> int \<Rightarrow> trust_config option \<Rightarrow> bool \<Rightarrow> trust_tier" where
  "ClassifyWithAllowlist phone telegramID cfg isInAllowlist =
     (case cfg of
        None \<Rightarrow> TrustTierAuthorized
      | Some c \<Rightarrow>
          if isOwner phone telegramID c then TrustTierOwner
          else if isInAllowlist then TrustTierAuthorized
          else TrustTierThirdParty)"

definition IsOwner :: "trust_tier \<Rightarrow> bool" where
  "IsOwner t \<longleftrightarrow> t = TrustTierOwner"

definition IsAuthorized :: "trust_tier \<Rightarrow> bool" where
  "IsAuthorized t \<longleftrightarrow> t = TrustTierOwner \<or> t = TrustTierAuthorized"

definition IsThirdParty :: "trust_tier \<Rightarrow> bool" where
  "IsThirdParty t \<longleftrightarrow> t = TrustTierThirdParty"

definition CanUseTools :: "trust_tier \<Rightarrow> bool" where
  "CanUseTools t \<longleftrightarrow> t = TrustTierOwner \<or> t = TrustTierAuthorized"

definition CanSendToOthers :: "trust_tier \<Rightarrow> bool" where
  "CanSendToOthers t \<longleftrightarrow> t = TrustTierOwner"

text \<open>A right of a tier is a right of every smaller tier.\<close>

lemma rights_monotone:
  "a \<le> b \<Longrightarrow> CanUseTools b \<Longrightarrow> CanUseTools a" "a \<le> b \<Longrightarrow> CanSendToOthers b \<Longrightarrow> CanSendToOthers a"
  "a \<le> b \<Longrightarrow> IsAuthorized b \<Longrightarrow> IsAuthorized a"
  by (cases a; cases b; simp add: less_eq_trust_tier_def CanUseTools_def CanSendToOthers_def IsAuthorized_def)+

lemma third_party_iff:
  "ClassifyWithAllowlist p i cfg al = TrustTierThirdParty \<longleftrightarrow>
     (\<exists>c. cfg = Some c \<and> \<not> isOwner p i c \<and> \<not> al)"
  by (simp add: ClassifyWithAllowlist_def split: option.split)

text \<open>Being on the allow list never takes a right away, and \<open>Classify\<close> is the case of a sender the
  channel let through.\<close>

lemma allowlist_monotone: "ClassifyWithAllowlist p i cfg True \<le> ClassifyWithAllowlist p i cfg al"
  by (cases al) (auto simp: ClassifyWithAllowlist_def less_eq_trust_tier_def split: option.split)

lemma Classify_allowlisted: "Classify p i cfg = ClassifyWithAllowlist p i cfg True"
  by (simp add: Classify_def ClassifyWithAllowlist_def split: option.split)

section \<open>Sending messages on the owner's behalf\<close>

text \<open>The tier a context carries, if it carries one.\<close>

definition getTrustTierFromContext :: "trust_tier option \<Rightarrow> trust_tier" where
  "getTrustTierFromContext ctx = (case ctx of Some t \<Rightarrow> t | None \<Rightarrow> TrustTierThirdParty)"

definition WithTrustTier :: "trust_tier \<Rightarrow> trust_tier option" where
  "WithTrustTier t = Some t"

record 'r send_response =
  srSuccess :: bool
  srRecipient :: 'r
  srError :: string

text \<open>A configured channel is its connection state; the messages sent come second.\<close>

definition sendTelegram ::
  "bool option \<Rightarrow> trust_tier option \<Rightarrow> int \<Rightarrow> string \<Rightarrow> int send_response \<times> (int \<times> string) list" where
  "sendTelegram telegram ctx chatID msg =
     (let refuse = (\<lambda>e. (\<lparr>srSuccess = False, srRecipient = chatID, srError = e\<rparr>, []))
      in if \<not> CanSendToOthers (getTrustTierFromContext ctx) then
           refuse ''Permission denied: only the bot owner can use send_telegram''
         else (case telegram of
             None \<Rightarrow> refuse ''Telegram channel not configured''
           | Some connected \<Rightarrow>
               if \<not> connected then refuse ''Telegram channel not connected''
               else if msg = '''' then refuse ''Message cannot be empty''
               else (\<lparr>srSuccess = True, srRecipient = chatID, srError = ''''\<rparr>, [(chatID, msg)])))"

text \<open>The channel to WhatsApp also answers with an error; a message counts as sent when it is handed
  to the channel.\<close>

definition sendWhatsApp ::
  "(bool \<times> (string \<Rightarrow> string \<Rightarrow> string option)) option \<Rightarrow> trust_tier option \<Rightarrow> string \<Rightarrow> string \<Rightarrow>
   string send_response \<times> (string \<times> string) list" where
  "sendWhatsApp whatsapp ctx phone msg =
     (let refuse = (\<lambda>e. \<lparr>srSuccess = False, srRecipient = phone, srError = e\<rparr>)
      in if \<not> CanSendToOthers (getTrustTierFromContext ctx) then
           (refuse ''Permission denied: only the bot owner can use send_whatsapp'', [])
         else (case whatsapp of
             None \<Rightarrow> (refuse ''WhatsApp channel not configured'', [])
           | Some (connected, deliver) \<Rightarrow>
               if \<not> connected then (refuse ''WhatsApp channel not connected'', [])
               else if msg = '''' then (refuse ''Message cannot be empty'', [])
               else (case deliver phone msg of
                   Some e \<Rightarrow> (refuse (''Failed to send: '' @ e), [(phone, msg)])
                 | None \<Rightarrow> (\<lparr>srSuccess = True, srRecipient = phone, srError = ''''\<rparr>, [(phone, msg)]))))"

text \<open>Only a turn that runs as the owner reaches somebody else.\<close>

lemma only_owner_sends:
  "snd (sendTelegram t ctx c m) \<noteq> [] \<Longrightarrow> ctx = Some TrustTierOwner"
  "snd (sendWhatsApp w ctx p m) \<noteq> [] \<Longrightarrow> ctx = Some TrustTierOwner"
  by (auto simp: sendTelegram_def sendWhatsApp_def Let_def CanSendToOthers_def getTrustTierFromContext_def
      split: option.splits if_splits)

end
