(* ===== verification/Channels.thy ===== *)
theory Channels
  imports SessionService
begin

text \<open>
  The messages of \<open>internal/channel/channel.go\<close> and how the channels build them: the reader of the
  WebSocket server (\<open>websocket.go\<close>), the peer-to-peer channel (\<open>internal/p2p/channel.go\<close>), the
  handlers of Telegram and WhatsApp updates, their rate limits and the splitting of long texts.
  Metadata of type \<open>map[string]any\<close> is a map to JSON values.
\<close>

section \<open>Messages and responses\<close>

record attachment =
  atPath :: string
  atMimeType :: string
  atFileName :: string

type_synonym metadata = "string \<rightharpoonup> json"

record channel_message =
  cmID :: string
  cmSessionID :: string
  cmUserID :: string
  cmContent :: string
  cmChannel :: string
  cmAttachments :: "attachment list"
  cmMetadata :: metadata
  cmReplyToEventID :: string
  cmSenderPhone :: string
  cmSenderTelegramID :: int
  cmIsInAllowlist :: bool

definition zero_message :: channel_message where
  "zero_message = \<lparr>cmID = '''', cmSessionID = '''', cmUserID = '''', cmContent = '''', cmChannel = '''',
     cmAttachments = [], cmMetadata = Map.empty, cmReplyToEventID = '''', cmSenderPhone = '''',
     cmSenderTelegramID = 0, cmIsInAllowlist = False\<rparr>"

record response =
  rpID :: string
  rpMessageID :: string
  rpSessionID :: string
  rpContent :: string
  rpType :: string
  rpDone :: bool
  rpMetadata :: metadata

definition meta_string :: "metadata \<Rightarrow> string \<Rightarrow> string option" where
  "meta_string m k = (case m k of Some (JStr s) \<Rightarrow> Some s | _ \<Rightarrow> None)"

section \<open>The WebSocket channel\<close>

record ws_client =
  wcID :: string
  wcUserID :: string
  wcSessionID :: string

record ws_input =
  wiContent :: string
  wiSessionID :: string
  wiReplyToEventID :: string
  wiMetadata :: metadata

text \<open>One message read: \<open>decode\<close> is the decoder of base64 and \<open>save\<close> writes an upload and returns its
  path.\<close>

definition ws_image :: "(string \<Rightarrow> string option) \<Rightarrow> (string \<Rightarrow> string option) \<Rightarrow> string \<Rightarrow> attachment list" where
  "ws_image decode save img =
     (case decode img of
        None \<Rightarrow> []
      | Some d \<Rightarrow>
          (case save d of
             None \<Rightarrow> []
           | Some p \<Rightarrow> [\<lparr>atPath = p, atMimeType = ''image/jpeg'', atFileName = ''uploaded-image.jpg''\<rparr>]))"

definition ws_receive ::
  "(string \<Rightarrow> string option) \<Rightarrow> (string \<Rightarrow> string option) \<Rightarrow> string \<Rightarrow> ws_input \<Rightarrow> ws_client \<Rightarrow>
   ws_client \<times> channel_message" where
  "ws_receive decode save uuid inp c =
     (let c1 = (if wiSessionID inp = '''' then c else c\<lparr>wcSessionID := wiSessionID inp\<rparr>);
          msg = zero_message\<lparr>cmID := uuid, cmSessionID := wcSessionID c1,
                  cmUserID := (if wcUserID c = '''' then wcID c else wcUserID c),
                  cmContent := wiContent inp, cmChannel := ''websocket'', cmMetadata := wiMetadata inp,
                  cmReplyToEventID := wiReplyToEventID inp\<rparr>
      in (c1, case meta_string (wiMetadata inp) ''image'' of
            Some img \<Rightarrow> if img \<noteq> '''' then
                msg\<lparr>cmAttachments := ws_image decode save img, cmMetadata := (wiMetadata inp)(''image'' := None)\<rparr>
              else msg
          | None \<Rightarrow> msg))"

text \<open>The clients a response is queued for.\<close>

definition ws_recipients :: "response \<Rightarrow> ws_client list \<Rightarrow> ws_client list" where
  "ws_recipients resp cs =
     (let parent = (case meta_string (rpMetadata resp) ''parent_session_id'' of Some p \<Rightarrow> p | None \<Rightarrow> '''')
      in filter (\<lambda>c. wcSessionID c = rpSessionID resp \<or> parent \<noteq> '''' \<and> wcSessionID c = parent) cs)"

section \<open>The peer-to-peer channel\<close>

record pb_attachment =
  paFilename :: string
  paMimeType :: string
  paData :: string

record pb_message =
  pmID :: string
  pmSessionID :: string
  pmUserID :: string
  pmContent :: string
  pmReplyToEventID :: string
  pmMetadata :: "(string \<times> string) list"
  pmAttachments :: "pb_attachment list"

text \<open>The attachments are written into a directory for uploads under the name the peer chose; \<open>uuids\<close>
  names the others.\<close>

fun p2p_attachments :: "fpath \<Rightarrow> string list \<Rightarrow> pb_attachment list \<Rightarrow> disk \<Rightarrow> disk \<times> attachment list" where
  "p2p_attachments dir uuids [] d = (d, [])"
| "p2p_attachments dir uuids (a # as) d =
     (let f = join_path dir [if paFilename a \<noteq> '''' then paFilename a else hd uuids]
      in case os_WriteFile f (paData a) d of
           (d1, Some _) \<Rightarrow> p2p_attachments dir (tl uuids) as d1
         | (d1, None) \<Rightarrow>
             (let (d2, out) = p2p_attachments dir (tl uuids) as d1
              in (d2, \<lparr>atPath = path_string f, atMimeType = paMimeType a, atFileName = paFilename a\<rparr> # out)))"

text \<open>A value that is no JSON text stands for itself.\<close>

definition p2p_metadata :: "(string \<times> string) list \<Rightarrow> metadata" where
  "p2p_metadata kvs =
     map_of (map (\<lambda>(k, v). (k, case json_parse v of
         Some j \<Rightarrow> if numbers_fit j then j else JStr v
       | None \<Rightarrow> JStr v)) kvs)"

definition p2p_receive ::
  "bool \<Rightarrow> bool \<Rightarrow> fpath \<Rightarrow> string list \<Rightarrow> pb_message \<Rightarrow> ws_client \<Rightarrow> disk \<Rightarrow>
   disk \<times> ws_client \<times> channel_message" where
  "p2p_receive authRequired authenticated dir uuids pb c d =
     (let c1 = (if pmSessionID pb = '''' then c else c\<lparr>wcSessionID := pmSessionID pb\<rparr>);
          c2 = (if pmUserID pb = '''' then c1 else c1\<lparr>wcUserID := pmUserID pb\<rparr>);
          (d1, atts) = (if pmAttachments pb = [] then (d, [])
                        else p2p_attachments dir (tl uuids) (pmAttachments pb) (fst (os_MkdirAll dir d)))
      in (d1, c2,
          zero_message\<lparr>cmID := (if pmID pb = '''' then hd uuids else pmID pb),
            cmSessionID := wcSessionID c2, cmUserID := wcUserID c2, cmContent := pmContent pb,
            cmChannel := ''p2p'', cmAttachments := atts, cmMetadata := p2p_metadata (pmMetadata pb),
            cmReplyToEventID := pmReplyToEventID pb,
            cmIsInAllowlist := \<not> authRequired \<or> authenticated\<rparr>))"

section \<open>Rate limits\<close>

text \<open>\<open>userRateLimiter\<close> and \<open>phoneRateLimiter\<close> differ in the type of the key only.\<close>

record 'k rate_limiter =
  rlTimestamps :: "'k \<Rightarrow> time list"
  rlMaxMsgs :: nat
  rlWindow :: duration

definition newRateLimiter :: "int \<Rightarrow> int \<Rightarrow> 'k rate_limiter" where
  "newRateLimiter maxMsgs windowSec =
     \<lparr>rlTimestamps = (\<lambda>_. []), rlMaxMsgs = nat (if maxMsgs \<le> 0 then 10 else maxMsgs),
      rlWindow = (if windowSec \<le> 0 then 60 else windowSec) * second\<rparr>"

definition limiter_allow :: "time \<Rightarrow> 'k \<Rightarrow> 'k rate_limiter \<Rightarrow> 'k rate_limiter \<times> bool" where
  "limiter_allow now k r =
     (let recent = filter (\<lambda>t. now - rlWindow r < t) (rlTimestamps r k)
      in if rlMaxMsgs r \<le> length recent then (r\<lparr>rlTimestamps := (rlTimestamps r)(k := recent)\<rparr>, False)
         else (r\<lparr>rlTimestamps := (rlTimestamps r)(k := recent @ [now])\<rparr>, True))"

text \<open>A key without timestamps left is deleted, which reads as the empty list.\<close>

definition limiter_cleanup :: "time \<Rightarrow> 'k rate_limiter \<Rightarrow> 'k rate_limiter" where
  "limiter_cleanup now r =
     r\<lparr>rlTimestamps := \<lambda>k. filter (\<lambda>t. now - rlWindow r * 2 < t) (rlTimestamps r k)\<rparr>"

section \<open>Long texts\<close>

text \<open>\<open>strings.LastIndex\<close> of a line break.\<close>

fun last_newline :: "string \<Rightarrow> nat option" where
  "last_newline [] = None"
| "last_newline (c # s) =
     (case last_newline s of
        Some i \<Rightarrow> Some (Suc i)
      | None \<Rightarrow> if c = char_of (10 :: nat) then Some 0 else None)"

definition cut_at :: "string \<Rightarrow> nat \<Rightarrow> nat" where
  "cut_at t maxLen =
     (case last_newline (take maxLen t) of Some i \<Rightarrow> if i > 0 then i + 1 else maxLen | None \<Rightarrow> maxLen)"

text \<open>The loop, which does not end for the length 0.\<close>

partial_function (option) chunk_loop :: "string \<Rightarrow> nat \<Rightarrow> string list option" where
  "chunk_loop t maxLen =
     (if t = '''' then Some []
      else if length t \<le> maxLen then Some [t]
      else Option.bind (chunk_loop (drop (cut_at t maxLen) t) maxLen)
             (\<lambda>cs. Some (take (cut_at t maxLen) t # cs)))"

definition chunkText :: "string \<Rightarrow> nat \<Rightarrow> string list option" where
  "chunkText t maxLen = (if length t \<le> maxLen then Some [t] else chunk_loop t maxLen)"

section \<open>The Telegram channel\<close>

definition telegramMaxMessageLen :: nat where
  "telegramMaxMessageLen = 4096"

record telegram_channel =
  tgAllowedUsers :: "int list"
  tgAllowedChats :: "int list"
  tgRejectMessage :: string
  tgRateLimitMessage :: string
  tgUserLimiter :: "int rate_limiter"
  tgMsgEventMap :: "int \<rightharpoonup> string"

record telegram_config =
  tfAllowedUsers :: "int list"
  tfAllowedChats :: "int list"
  tfRejectMessage :: string
  tfRateLimitMessage :: string
  tfUserRateLimit :: int
  tfUserRateWindow :: int

definition NewTelegramChannel :: "telegram_config \<Rightarrow> telegram_channel" where
  "NewTelegramChannel cfg =
     \<lparr>tgAllowedUsers = tfAllowedUsers cfg, tgAllowedChats = tfAllowedChats cfg,
      tgRejectMessage = (if tfRejectMessage cfg = '''' then ''Sorry, you are not authorized to use this bot.''
        else tfRejectMessage cfg),
      tgRateLimitMessage = (if tfRateLimitMessage cfg = ''''
        then ''You'' @ [char_of (39 :: nat)] @ ''re sending messages too quickly. Please wait a moment.''
        else tfRateLimitMessage cfg),
      tgUserLimiter = newRateLimiter (tfUserRateLimit cfg) (tfUserRateWindow cfg),
      tgMsgEventMap = Map.empty\<rparr>"

definition tg_isInAllowlist :: "telegram_channel \<Rightarrow> int \<Rightarrow> int \<Rightarrow> bool" where
  "tg_isInAllowlist t userID chatID =
     (if tgAllowedUsers t = [] \<and> tgAllowedChats t = [] then False
      else userID \<in> set (tgAllowedUsers t) \<or> chatID \<in> set (tgAllowedChats t))"

definition tg_isAuthorized :: "telegram_channel \<Rightarrow> int \<Rightarrow> int \<Rightarrow> bool" where
  "tg_isAuthorized t userID chatID =
     (if tgAllowedUsers t = [] \<and> tgAllowedChats t = [] then True else tg_isInAllowlist t userID chatID)"

text \<open>A message of the bot library, with what transcribing its recordings and downloading its files
  gave; \<open>umReplyToBot\<close> is the message of the bot it answers.\<close>

record telegram_message =
  umFromID :: int
  umChatID :: int
  umChatType :: string
  umMessageID :: int
  umText :: string
  umCaption :: string
  umCommand :: string
  umTranscripts :: "string list"
  umAttachments :: "attachment list"
  umReplyToBot :: "int option"

record telegram_callback =
  cqFromID :: int
  cqData :: string
  cqChat :: "(int \<times> string) option"

datatype telegram_update =
  Callback telegram_callback
| TgMessage telegram_message
| OtherUpdate

definition tg_session :: "int \<Rightarrow> int \<Rightarrow> string \<Rightarrow> string" where
  "tg_session fromID chatID chatType =
     (if chatType = ''private'' then ''tg-dm-'' @ itoa fromID else ''tg-group-'' @ itoa chatID)"

definition append_line :: "string \<Rightarrow> string \<Rightarrow> string" where
  "append_line content t = (if t = '''' then content else if content \<noteq> '''' then content @ newline @ t else t)"

definition attached_note :: "attachment \<Rightarrow> string" where
  "attached_note a = newline @ ''[Attached: '' @ atPath a @ '']''"

definition telegramUpdateToMessage :: "telegram_channel \<Rightarrow> string \<Rightarrow> telegram_message \<Rightarrow> channel_message" where
  "telegramUpdateToMessage t uuid m =
     (let content = foldl append_line (if umText m = '''' then umCaption m else umText m) (umTranscripts m)
      in zero_message\<lparr>cmID := uuid, cmSessionID := tg_session (umFromID m) (umChatID m) (umChatType m),
           cmUserID := ''tg-'' @ itoa (umFromID m),
           cmContent := content @ concat (map attached_note (umAttachments m)),
           cmChannel := ''telegram'', cmAttachments := umAttachments m,
           cmMetadata := [''chat_id'' \<mapsto> JStr (itoa (umChatID m)), ''message_id'' \<mapsto> JStr (itoa (umMessageID m)),
             ''chat_type'' \<mapsto> JStr (umChatType m)],
           cmSenderTelegramID := umFromID m,
           cmIsInAllowlist := tg_isInAllowlist t (umFromID m) (umChatID m),
           cmReplyToEventID :=
             (case umReplyToBot m of
                None \<Rightarrow> ''''
              | Some mid \<Rightarrow> (case tgMsgEventMap t mid of None \<Rightarrow> '''' | Some e \<Rightarrow> e))\<rparr>)"

text \<open>\<open>strings.SplitN\<close> into two parts at a character.\<close>

definition split_n2 :: "char \<Rightarrow> string \<Rightarrow> (string \<times> string) option" where
  "split_n2 sep s =
     (let a = takeWhile (\<lambda>c. c \<noteq> sep) s
      in if length a < length s then Some (a, drop (Suc (length a)) s) else None)"

definition handleCallbackQuery :: "string \<Rightarrow> telegram_callback \<Rightarrow> channel_message option" where
  "handleCallbackQuery uuid cq =
     (case split_n2 (CHR '':'') (cqData cq) of
        None \<Rightarrow> None
      | Some (action, approvalID) \<Rightarrow>
          if action \<noteq> ''approve'' \<and> action \<noteq> ''reject'' then None
          else
            (let chatID = (case cqChat cq of None \<Rightarrow> 0 | Some (c, _) \<Rightarrow> c);
                 sessionID =
                   (if (case cqChat cq of None \<Rightarrow> False | Some (_, ty) \<Rightarrow> ty = ''private'')
                    then ''tg-dm-'' @ itoa (cqFromID cq)
                    else if chatID \<noteq> 0 then ''tg-group-'' @ itoa chatID else '''')
             in Some (zero_message\<lparr>cmID := uuid, cmSessionID := sessionID,
                  cmUserID := ''tg-'' @ itoa (cqFromID cq), cmChannel := ''telegram'',
                  cmMetadata := [''chat_id'' \<mapsto> JStr (itoa chatID), ''approval_action'' \<mapsto> JStr action,
                    ''approval_id'' \<mapsto> JStr approvalID]\<rparr>)))"

text \<open>What one update leads to; the two commands act on the session of the key.\<close>

datatype 'm channel_action =
  Dropped
| SendBack string
| ClearSession skey
| CompactSession skey
| Deliver 'm

definition tg_key :: "telegram_message \<Rightarrow> skey" where
  "tg_key m = \<lparr>skApp = ''kaggen'', skUser = ''tg-'' @ itoa (umFromID m),
     skSession = tg_session (umFromID m) (umChatID m) (umChatType m)\<rparr>"

definition telegram_update_step ::
  "time \<Rightarrow> string \<Rightarrow> telegram_update \<Rightarrow> telegram_channel \<Rightarrow> telegram_channel \<times> channel_message channel_action" where
  "telegram_update_step now uuid u t =
     (case u of
        Callback cq \<Rightarrow> (t, case handleCallbackQuery uuid cq of None \<Rightarrow> Dropped | Some m \<Rightarrow> Deliver m)
      | OtherUpdate \<Rightarrow> (t, Dropped)
      | TgMessage m \<Rightarrow>
          if \<not> tg_isAuthorized t (umFromID m) (umChatID m) then (t, SendBack (tgRejectMessage t))
          else
            (let (l, ok) = limiter_allow now (umFromID m) (tgUserLimiter t);
                 t1 = t\<lparr>tgUserLimiter := l\<rparr>
             in if \<not> ok then (t1, SendBack (tgRateLimitMessage t))
                else if umCommand m = ''clear'' then (t1, ClearSession (tg_key m))
                else if umCommand m = ''compact'' then (t1, CompactSession (tg_key m))
                else (t1, Deliver (telegramUpdateToMessage t1 uuid m))))"


section \<open>The WhatsApp channel\<close>

definition whatsappMaxMessageLen :: nat where
  "whatsappMaxMessageLen = 4000"

record whatsapp_channel =
  waAllowedPhones :: "string list"
  waAllowedGroups :: "string list"
  waRejectMessage :: string
  waRateLimitMessage :: string
  waPhoneLimiter :: "string rate_limiter"
  waMsgEventMap :: "string \<rightharpoonup> string"

record whatsapp_config =
  wfAllowedPhones :: "string list"
  wfAllowedGroups :: "string list"
  wfRejectMessage :: string
  wfRateLimitMessage :: string
  wfUserRateLimit :: int
  wfUserRateWindow :: int

definition NewWhatsAppChannel :: "whatsapp_config \<Rightarrow> whatsapp_channel" where
  "NewWhatsAppChannel cfg =
     \<lparr>waAllowedPhones = map (\<lambda>p. trim_prefix p ''+'') (wfAllowedPhones cfg),
      waAllowedGroups = wfAllowedGroups cfg,
      waRejectMessage = (if wfRejectMessage cfg = '''' then ''Sorry, you are not authorized to use this bot.''
        else wfRejectMessage cfg),
      waRateLimitMessage = (if wfRateLimitMessage cfg = ''''
        then ''You'' @ [char_of (39 :: nat)] @ ''re sending messages too quickly. Please wait a moment.''
        else wfRateLimitMessage cfg),
      waPhoneLimiter = newRateLimiter (wfUserRateLimit cfg) (wfUserRateWindow cfg),
      waMsgEventMap = Map.empty\<rparr>"

definition wa_isInAllowlist :: "whatsapp_channel \<Rightarrow> string \<Rightarrow> string \<Rightarrow> bool" where
  "wa_isInAllowlist w phone chatJID =
     (if waAllowedPhones w = [] \<and> waAllowedGroups w = [] then False
      else phone \<in> set (waAllowedPhones w) \<or> chatJID \<in> set (waAllowedGroups w))"

definition wa_isAuthorized :: "whatsapp_channel \<Rightarrow> string \<Rightarrow> string \<Rightarrow> bool" where
  "wa_isAuthorized w phone chatJID =
     (if waAllowedPhones w = [] \<and> waAllowedGroups w = [] then True else wa_isInAllowlist w phone chatJID)"

text \<open>An event of the WhatsApp library: the texts a message may carry, in the order
  \<open>extractContent\<close> looks for them, the downloaded attachments, and the message it answers.\<close>

record whatsapp_event =
  weIsFromMe :: bool
  weSenderUser :: string
  weSenderJID :: string
  weChatJID :: string
  weChatUser :: string
  weDirect :: bool
  weID :: string
  wePushName :: string
  weConversation :: string
  weExtended :: "(string \<times> string option) option"
  weCaptions :: "string option list"
  weAttachments :: "attachment list"

definition extractContent :: "whatsapp_event \<Rightarrow> string" where
  "extractContent e =
     (if weConversation e \<noteq> '''' then weConversation e
      else (case weExtended e of
              Some (t, _) \<Rightarrow> t
            | None \<Rightarrow> (case filter (\<lambda>c. c \<noteq> None) (weCaptions e) of Some c # _ \<Rightarrow> c | _ \<Rightarrow> '''')))"

definition wa_key :: "whatsapp_event \<Rightarrow> skey" where
  "wa_key e = \<lparr>skApp = ''kaggen'', skUser = ''wa-'' @ weSenderUser e,
     skSession = (if weDirect e then ''wa-dm-'' @ weSenderUser e else ''wa-group-'' @ weChatUser e)\<rparr>"

definition whatsapp_message :: "whatsapp_channel \<Rightarrow> string \<Rightarrow> whatsapp_event \<Rightarrow> channel_message" where
  "whatsapp_message w uuid e =
     zero_message\<lparr>cmID := uuid, cmSessionID := skSession (wa_key e), cmUserID := ''wa-'' @ weSenderUser e,
       cmContent := extractContent e @ concat (map attached_note (weAttachments e)),
       cmChannel := ''whatsapp'', cmAttachments := weAttachments e,
       cmMetadata := [''chat_jid'' \<mapsto> JStr (weChatJID e), ''sender_jid'' \<mapsto> JStr (weSenderJID e),
         ''message_id'' \<mapsto> JStr (weID e), ''is_group'' \<mapsto> JBool (\<not> weDirect e), ''push_name'' \<mapsto> JStr (wePushName e)],
       cmSenderPhone := weSenderUser e,
       cmIsInAllowlist := wa_isInAllowlist w (weSenderUser e) (weChatJID e),
       cmReplyToEventID :=
         (case weExtended e of
            Some (_, Some sid) \<Rightarrow> (case waMsgEventMap w sid of None \<Rightarrow> '''' | Some ev \<Rightarrow> ev)
          | _ \<Rightarrow> '''')\<rparr>"

definition whatsapp_handleMessage ::
  "time \<Rightarrow> string \<Rightarrow> whatsapp_event \<Rightarrow> whatsapp_channel \<Rightarrow> whatsapp_channel \<times> channel_message channel_action" where
  "whatsapp_handleMessage now uuid e w =
     (if weIsFromMe e then (w, Dropped)
      else if \<not> wa_isAuthorized w (weSenderUser e) (weChatJID e) then (w, SendBack (waRejectMessage w))
      else
        (let (l, ok) = limiter_allow now (weSenderUser e) (waPhoneLimiter w);
             w1 = w\<lparr>waPhoneLimiter := l\<rparr>
         in if \<not> ok then (w1, SendBack (waRateLimitMessage w))
            else if has_prefix (extractContent e) ''/clear'' then (w1, ClearSession (wa_key e))
            else if has_prefix (extractContent e) ''/compact'' then (w1, CompactSession (wa_key e))
            else (w1, Deliver (whatsapp_message w1 uuid e))))"

section \<open>Splitting loses nothing\<close>

lemma last_newline_less: "last_newline s = Some i \<Longrightarrow> i < length s"
  by (induction s arbitrary: i) (auto split: option.splits if_splits)

lemma cut_at_bounds: "0 < n \<Longrightarrow> n < length t \<Longrightarrow> 0 < cut_at t n \<and> cut_at t n \<le> n"
  using last_newline_less [of "take n t"] by (fastforce simp: cut_at_def split: option.splits)

lemma chunk_loop_ok:
  assumes "0 < n"
  shows "\<exists>cs. chunk_loop t n = Some cs \<and> concat cs = t \<and> (\<forall>c \<in> set cs. length c \<le> n)"
proof (induction t rule: measure_induct_rule [where f = length])
  case (less t)
  show ?case
  proof (cases "length t \<le> n")
    case True
    then show ?thesis by (subst chunk_loop.simps) auto
  next
    case False
    let ?k = "cut_at t n"
    have k: "0 < ?k" "?k \<le> n" using cut_at_bounds [OF assms, of t] False by auto
    then have "length (drop ?k t) < length t" using False by auto
    from less [OF this] obtain cs where "chunk_loop (drop ?k t) n = Some cs" "concat cs = drop ?k t"
      "\<forall>c \<in> set cs. length c \<le> n" by blast
    then show ?thesis using False k by (subst chunk_loop.simps) auto
  qed
qed

text \<open>Splitting a text for a positive length ends, and the pieces are at most that long and put
  together give the text.\<close>

theorem chunks_rejoin:
  assumes "0 < maxLen"
  shows "\<exists>cs. chunkText t maxLen = Some cs \<and> concat cs = t \<and> (\<forall>c \<in> set cs. length c \<le> maxLen)"
  using chunk_loop_ok [OF assms, of t] by (auto simp: chunkText_def)

theorem chunks_rejoin_witness:
  "\<exists>cs. chunkText ''hello'' 2 = Some cs \<and> concat cs = ''hello'' \<and> (\<forall>c \<in> set cs. length c \<le> 2)"
  by (rule chunks_rejoin) simp

section \<open>A window never holds more than the limit\<close>

text \<open>The calls of \<open>allow\<close> and \<open>cleanup\<close> in the order of their clock readings, and the times at
  which a key was let through.\<close>

datatype 'k limiter_call = AllowCall time 'k | CleanupCall time

fun call_time :: "'k limiter_call \<Rightarrow> time" where
  "call_time (AllowCall now _) = now"
| "call_time (CleanupCall now) = now"

fun limiter_run :: "'k limiter_call list \<Rightarrow> 'k rate_limiter \<Rightarrow> 'k rate_limiter \<times> ('k \<times> time) list" where
  "limiter_run [] r = (r, [])"
| "limiter_run (AllowCall now k # cs) r =
     (let (r1, ok) = limiter_allow now k r; (r2, out) = limiter_run cs r1
      in (r2, if ok then (k, now) # out else out))"
| "limiter_run (CleanupCall now # cs) r = limiter_run cs (limiter_cleanup now r)"

definition passed :: "'k \<Rightarrow> time \<Rightarrow> duration \<Rightarrow> ('k \<times> time) list \<Rightarrow> ('k \<times> time) list" where
  "passed k t w out = filter (\<lambda>(k', s). k' = k \<and> t - w < s \<and> s \<le> t) out"


definition in_window :: "time \<Rightarrow> duration \<Rightarrow> time \<Rightarrow> bool" where
  "in_window t w s \<longleftrightarrow> t - w < s \<and> s \<le> t"

text \<open>The limiter knows of each key what can still count: the history and the stored times agree on
  every window that ends now or later.\<close>

definition limiter_inv :: "'k rate_limiter \<Rightarrow> ('k \<Rightarrow> time list) \<Rightarrow> time \<Rightarrow> bool" where
  "limiter_inv r hist T \<longleftrightarrow> 0 \<le> rlWindow r \<and>
     (\<forall>k now. T \<le> now \<longrightarrow> filter (\<lambda>s. now - rlWindow r < s) (rlTimestamps r k) =
                            filter (\<lambda>s. now - rlWindow r < s) (hist k)) \<and>
     (\<forall>k. \<forall>s \<in> set (hist k). s \<le> T) \<and>
     (\<forall>k t. length (filter (in_window t (rlWindow r)) (hist k)) \<le> rlMaxMsgs r)"

lemma limiter_inv_later: "limiter_inv r hist T \<Longrightarrow> T \<le> T' \<Longrightarrow> limiter_inv r hist T'"
  by (force simp: limiter_inv_def)

lemma filter_later: "a \<le> (b :: int) \<Longrightarrow> filter (\<lambda>s. a < s \<and> b < s) xs = filter ((<) b) xs"
  by (induction xs) auto

lemma length_filter_mono: "(\<And>x. P x \<Longrightarrow> Q x) \<Longrightarrow> length (filter P xs) \<le> length (filter Q xs)"
  by (induction xs) (auto intro: le_SucI)

lemma limiter_inv_cleanup: "limiter_inv r hist T \<Longrightarrow> T \<le> now \<Longrightarrow> limiter_inv (limiter_cleanup now r) hist now"
  using limiter_inv_later [of r hist T now]
  by (auto simp: limiter_inv_def limiter_cleanup_def filter_later)

lemma limiter_inv_refuse:
  assumes "limiter_inv r hist T" and "T \<le> now" and "limiter_allow now k r = (r', False)"
  shows "limiter_inv r' hist now"
proof -
  have "r' = r\<lparr>rlTimestamps := (rlTimestamps r)(k := filter (\<lambda>t. now - rlWindow r < t) (rlTimestamps r k))\<rparr>"
    using assms(3) by (auto simp: limiter_allow_def Let_def split: if_splits)
  then show ?thesis using limiter_inv_later [OF assms(1,2)] by (auto simp: limiter_inv_def filter_later)
qed

lemma limiter_inv_pass:
  assumes "limiter_inv r hist T" and "T \<le> now" and "limiter_allow now k r = (r', True)"
  shows "limiter_inv r' (hist(k := hist k @ [now])) now"
proof -
  let ?w = "rlWindow r"
  have i: "limiter_inv r hist now" by (rule limiter_inv_later [OF assms(1,2)])
  have r': "r' = r\<lparr>rlTimestamps := (rlTimestamps r)(k := filter (\<lambda>t. now - ?w < t) (rlTimestamps r k) @ [now])\<rparr>"
    and few: "length (filter (\<lambda>t. now - ?w < t) (rlTimestamps r k)) < rlMaxMsgs r"
    using assms(3) by (auto simp: limiter_allow_def Let_def split: if_splits)
  have few': "length (filter (\<lambda>t. now - ?w < t) (hist k)) < rlMaxMsgs r"
    using few i by (auto simp: limiter_inv_def)
  have "length (filter (in_window t ?w) (hist k @ [now])) \<le> rlMaxMsgs r" for t
  proof (cases "now \<le> t")
    case True
    have "length (filter (in_window t ?w) (hist k)) \<le> length (filter (\<lambda>s. now - ?w < s) (hist k))"
      using True by (intro length_filter_mono) (simp add: in_window_def)
    then show ?thesis using few' by (simp add: in_window_def)
  next
    case False
    then show ?thesis using i by (simp add: limiter_inv_def in_window_def)
  qed
  then show ?thesis using i r' by (auto simp: limiter_inv_def filter_later)
qed

lemma limiter_run_window:
  assumes "limiter_inv r hist T" and "sorted (map call_time cs)" and "\<forall>c \<in> set cs. T \<le> call_time c"
    and "limiter_run cs r = (r', out)"
  shows "length (filter (in_window t (rlWindow r)) (hist k @ map snd (filter (\<lambda>p. fst p = k) out))) \<le> rlMaxMsgs r"
  using assms
proof (induction cs r arbitrary: hist T r' out rule: limiter_run.induct)
  case (1 r)
  then show ?case by (simp add: limiter_inv_def)
next
  case (2 now k' cs r)
  obtain r1 ok where a: "limiter_allow now k' r = (r1, ok)" by fastforce
  obtain r2 out2 where o: "limiter_run cs r1 = (r2, out2)" by fastforce
  have same: "rlWindow r1 = rlWindow r" "rlMaxMsgs r1 = rlMaxMsgs r"
    using a by (auto simp: limiter_allow_def Let_def split: if_splits)
  let ?hist = "if ok then hist(k' := hist k' @ [now]) else hist"
  have "limiter_inv r1 ?hist now"
    using limiter_inv_pass limiter_inv_refuse 2(2,4) a by (cases ok) fastforce+
  from "2.IH" [OF a [symmetric] refl this _ _ o] 2(3,4)
  have "length (filter (in_window t (rlWindow r)) (?hist k @ map snd (filter (\<lambda>p. fst p = k) out2))) \<le> rlMaxMsgs r"
    by (simp add: same)
  then show ?case using 2(5) a o by (auto split: if_splits)
next
  case (3 now cs r)
  then show ?case using limiter_inv_cleanup [of r hist T now]
    by (fastforce simp: limiter_cleanup_def)
qed

text \<open>In every window of the configured length, wherever it ends, a sender gets at most the
  configured number of messages through, however its calls interleave with those of others and
  with the periodic cleanup.\<close>

theorem rate_limit_holds:
  assumes "sorted (map call_time cs)" and "limiter_run cs (newRateLimiter maxMsgs windowSec) = (r, out)"
  shows "length (passed k t (rlWindow (newRateLimiter maxMsgs windowSec)) out) \<le>
    nat (if maxMsgs \<le> 0 then 10 else maxMsgs)"
proof -
  let ?r = "newRateLimiter maxMsgs windowSec :: 'a rate_limiter"
  let ?T = "case cs of [] \<Rightarrow> 0 | c # _ \<Rightarrow> call_time c"
  have "limiter_inv ?r (\<lambda>_. []) ?T"
    by (simp add: limiter_inv_def newRateLimiter_def second_def)
  moreover have "\<forall>c \<in> set cs. ?T \<le> call_time c" using assms(1) by (cases cs) auto
  ultimately have "length (filter (in_window t (rlWindow ?r)) (map snd (filter (\<lambda>p. fst p = k) out))) \<le> rlMaxMsgs ?r"
    using limiter_run_window [OF _ assms(1) _ assms(2), of "\<lambda>_. []" ?T t k] by simp
  moreover have "length (passed k t w out) = length (filter (in_window t w) (map snd (filter (\<lambda>p. fst p = k) out)))" for w
    by (induction out) (auto simp: passed_def in_window_def)
  ultimately show ?thesis by (simp add: newRateLimiter_def)
qed

theorem rate_limit_holds_witness:
  "length (passed (7 :: int) (5 * second) (60 * second)
     (snd (limiter_run [AllowCall (second) 7, AllowCall (2 * second) 7, CleanupCall (3 * second), AllowCall (4 * second) 7]
        (newRateLimiter 2 60)))) \<le> 2"
proof -
  let ?cs = "[AllowCall (second) 7, AllowCall (2 * second) 7, CleanupCall (3 * second), AllowCall (4 * second) (7 :: int)]"
  have "sorted (map call_time ?cs)" by (simp add: second_def)
  from rate_limit_holds [OF this, of 2 60 _ _ 7 "5 * second"] show ?thesis
    by (cases "limiter_run ?cs (newRateLimiter 2 60)") (simp add: newRateLimiter_def)
qed


end
