(* ===== verification/Sandbox.thy ===== *)
theory Sandbox
  imports GoRegex Trust Channels
begin

text \<open>
  The sandbox for messages of unknown senders, \<open>internal/trust/sandbox.go\<close>: the requests to relay a
  message to the owner and their file, the count of messages of a session, and the detection of
  relay requests.  The JSON codec of the requests is a parameter; a null in the file is the
  element \<open>None\<close> of the decoded list, on which \<open>load\<close> panics.
\<close>

section \<open>Relay requests\<close>

record relay_request =
  rrID :: string
  rrSessionID :: string
  rrSenderPhone :: string
  rrSenderName :: string
  rrMessage :: string
  rrOriginalText :: string
  rrCreatedAt :: time
  rrChannel :: string
  rrStatus :: string

record relay_codec =
  encRelays :: "relay_request list \<Rightarrow> string go_result"
  decRelays :: "string \<Rightarrow> relay_request option list option"

text \<open>A store and the path of its file; the path is \<open>None\<close> when the string is empty.\<close>

record relay_store =
  rsRequests :: "string \<rightharpoonup> relay_request"
  rsDbPath :: "fpath option"

text \<open>\<open>save\<close> ranges over the map in the order \<open>ks\<close>; its errors are only logged.\<close>

definition relay_save :: "relay_codec \<Rightarrow> string list \<Rightarrow> relay_store \<Rightarrow> disk \<Rightarrow> disk" where
  "relay_save rc ks s d =
     (case rsDbPath s of
        None \<Rightarrow> d
      | Some p \<Rightarrow>
          (case encRelays rc (List.map_filter (rsRequests s) ks) of
             Inl _ \<Rightarrow> d
           | Inr t \<Rightarrow>
               (case os_MkdirAll (butlast p) d of
                  (d1, Some _) \<Rightarrow> d1
                | (d1, None) \<Rightarrow> fst (os_WriteFile p t d1))))"

definition relay_load :: "relay_codec \<Rightarrow> disk \<Rightarrow> relay_store \<Rightarrow> relay_store option" where
  "relay_load rc d s =
     (case rsDbPath s of
        None \<Rightarrow> Some s
      | Some p \<Rightarrow>
          (case os_ReadFile d p of
             Found t \<Rightarrow>
               (case decRelays rc t of
                  None \<Rightarrow> Some s
                | Some rs \<Rightarrow>
                    if None \<in> set rs then None
                    else Some (s\<lparr>rsRequests := foldl (\<lambda>m r. m(rrID r \<mapsto> r)) (rsRequests s) (map the rs)\<rparr>))
           | _ \<Rightarrow> Some s))"

definition NewRelayStore :: "relay_codec \<Rightarrow> fpath option \<Rightarrow> disk \<Rightarrow> relay_store option" where
  "NewRelayStore rc p d = relay_load rc d \<lparr>rsRequests = Map.empty, rsDbPath = p\<rparr>"

definition relay_Add ::
  "relay_codec \<Rightarrow> string list \<Rightarrow> relay_request \<Rightarrow> relay_store \<Rightarrow> disk \<Rightarrow> relay_store \<times> disk" where
  "relay_Add rc ks r s d =
     (let s1 = s\<lparr>rsRequests := (rsRequests s)(rrID r \<mapsto> r)\<rparr> in (s1, relay_save rc ks s1 d))"

definition relay_Get :: "string \<Rightarrow> relay_store \<Rightarrow> relay_request option" where
  "relay_Get i s = rsRequests s i"

definition relay_ListPending :: "string list \<Rightarrow> relay_store \<Rightarrow> relay_request list" where
  "relay_ListPending ks s = filter (\<lambda>r. rrStatus r = ''pending'') (List.map_filter (rsRequests s) ks)"

definition relay_MarkDelivered ::
  "relay_codec \<Rightarrow> string list \<Rightarrow> string \<Rightarrow> relay_store \<Rightarrow> disk \<Rightarrow> relay_store \<times> disk" where
  "relay_MarkDelivered rc ks i s d =
     (case rsRequests s i of
        None \<Rightarrow> (s, d)
      | Some r \<Rightarrow>
          (let s1 = s\<lparr>rsRequests := (rsRequests s)(i \<mapsto> r\<lparr>rrStatus := ''delivered''\<rparr>)\<rparr>
           in (s1, relay_save rc ks s1 d)))"

section \<open>Counting the messages of a session\<close>

record session_tracker =
  stCounts :: "string \<Rightarrow> int"
  stMaxLimit :: int

definition NewSessionTracker :: "int \<Rightarrow> session_tracker" where
  "NewSessionTracker maxLimit = \<lparr>stCounts = (\<lambda>_. 0), stMaxLimit = maxLimit\<rparr>"

definition Increment :: "string \<Rightarrow> session_tracker \<Rightarrow> session_tracker \<times> int \<times> bool" where
  "Increment sid t =
     (let count = stCounts t sid + 1
      in (t\<lparr>stCounts := (stCounts t)(sid := count)\<rparr>, count, stMaxLimit t > 0 \<and> count > stMaxLimit t))"

definition tracker_Count :: "string \<Rightarrow> session_tracker \<Rightarrow> int" where
  "tracker_Count sid t = stCounts t sid"

definition tracker_Reset :: "string \<Rightarrow> session_tracker \<Rightarrow> session_tracker" where
  "tracker_Reset sid t = t\<lparr>stCounts := (stCounts t)(sid := 0)\<rparr>"

section \<open>Detecting a relay request\<close>

definition words_space :: "string list \<Rightarrow> rx" where
  "words_space ws = Sq (alt_all (map LitFold ws)) (Plus rx_space)"

definition the_opt :: rx where
  "the_opt = Opt (words_space [''the''])"

definition owner_mark :: rx where
  "owner_mark = Sq (LitFold ''owner'') (Plus (\<lambda>c. c = CHR '':'' \<or> rx_space c))"

definition rest_group :: rx where
  "rest_group = Group (Plus rx_any)"

definition relayPatterns :: "rx list" where
  "relayPatterns =
     [seq_all [Opt (words_space [''please'']), words_space [''tell'', ''ask'', ''let'', ''inform'', ''notify''],
        the_opt, words_space [''owner''], Opt (words_space [''that'']), rest_group],
      seq_all [Opt (words_space [''can you'']), words_space [''pass'', ''relay'', ''forward'', ''send''],
        Opt (words_space [''this'']), Opt (words_space [''message'']), Opt (words_space [''to'']),
        the_opt, owner_mark, rest_group],
      seq_all [words_space [''message''], words_space [''for'', ''to''], the_opt, owner_mark, rest_group],
      seq_all [Opt (words_space [''please'']), words_space [''have'', ''get''], the_opt, words_space [''owner''],
        words_space [''contact'', ''call'', ''message''], LitFold ''me'']]"

fun first_relay :: "rx list \<Rightarrow> string \<Rightarrow> string" where
  "first_relay [] t = ''''"
| "first_relay (p # ps) t =
     (case find_sub p t of
        Some (_, g # _) \<Rightarrow> trim_space g
      | _ \<Rightarrow> first_relay ps t)"

definition DetectRelayRequest :: "string \<Rightarrow> string" where
  "DetectRelayRequest t = first_relay relayPatterns (trim_space t)"

section \<open>The sandbox\<close>

text \<open>The configuration is present: the handler passes a part of its own.  The owner's notifier is
  an interface that may be nil.\<close>

record sandbox =
  sbCfg :: third_party_config
  sbRelayStore :: relay_store
  sbTracker :: session_tracker
  sbNotifier :: bool

definition NewSandbox :: "relay_codec \<Rightarrow> third_party_config \<Rightarrow> fpath option \<Rightarrow> bool \<Rightarrow> disk \<Rightarrow> sandbox option" where
  "NewSandbox rc cfg p notifier d =
     map_option (\<lambda>rs. \<lparr>sbCfg = cfg, sbRelayStore = rs, sbTracker = NewSessionTracker (tpMaxSessionLength cfg),
       sbNotifier = notifier\<rparr>) (NewRelayStore rc p d)"

record sandbox_response =
  sxMessage :: string
  sxIsRelayRequest :: bool
  sxRelayRequest :: "relay_request option"
  sxLimitExceeded :: bool

definition apostrophe :: string where
  "apostrophe = [char_of (39 :: nat)]"

definition limit_message :: string where
  "limit_message = ''I'' @ apostrophe @ ''m sorry, but we'' @ apostrophe @ ''ve reached the message limit for this conversation. Please contact the owner directly for further assistance.''"

definition no_relay_message :: string where
  "no_relay_message = ''I'' @ apostrophe @ ''m sorry, but I'' @ apostrophe @ ''m not able to relay messages to the owner at this time.''"

definition relay_message :: string where
  "relay_message = ''I'' @ apostrophe @ ''ve noted your message for the owner. They will be notified and may reach out to you.''"

definition push_name :: "channel_message \<Rightarrow> string" where
  "push_name msg = (case meta_string (cmMetadata msg) ''push_name'' of Some n \<Rightarrow> n | None \<Rightarrow> '''')"

text \<open>The sandbox, the disk, the response if the message was handled, and the request whose
  notification is started.\<close>

definition ProcessMessage ::
  "relay_codec \<Rightarrow> string list \<Rightarrow> time \<Rightarrow> string \<Rightarrow> channel_message \<Rightarrow> sandbox \<Rightarrow> disk \<Rightarrow>
   sandbox \<times> disk \<times> sandbox_response option \<times> relay_request option" where
  "ProcessMessage rc ks now uuid msg sb d =
     (let (t, count, exceeded) = Increment (cmSessionID msg) (sbTracker sb);
          sb1 = sb\<lparr>sbTracker := t\<rparr>;
          content = DetectRelayRequest (cmContent msg)
      in if exceeded then
           (sb1, d, Some \<lparr>sxMessage = limit_message, sxIsRelayRequest = False, sxRelayRequest = None,
                          sxLimitExceeded = True\<rparr>, None)
         else if content \<noteq> '''' then
           (if \<not> tpAllowRelay (sbCfg sb1) then
              (sb1, d, Some \<lparr>sxMessage = no_relay_message, sxIsRelayRequest = False, sxRelayRequest = None,
                             sxLimitExceeded = False\<rparr>, None)
            else
              (let req = \<lparr>rrID = uuid, rrSessionID = cmSessionID msg, rrSenderPhone = cmSenderPhone msg,
                          rrSenderName = push_name msg, rrMessage = content, rrOriginalText = cmContent msg,
                          rrCreatedAt = now, rrChannel = cmChannel msg, rrStatus = ''pending''\<rparr>;
                   (rs, d1) = relay_Add rc ks req (sbRelayStore sb1) d
               in (sb1\<lparr>sbRelayStore := rs\<rparr>, d1,
                   Some \<lparr>sxMessage = relay_message, sxIsRelayRequest = True, sxRelayRequest = Some req,
                         sxLimitExceeded = False\<rparr>,
                   if sbNotifier sb1 then Some req else None)))
         else (sb1, d, None, None))"

definition sender_info :: "relay_request \<Rightarrow> string" where
  "sender_info r =
     (let i = (if rrSenderName r \<noteq> '''' then rrSenderName r @ '' ('' @ rrSenderPhone r @ '')'' else rrSenderPhone r)
      in if i = '''' then ''Unknown sender'' else i)"

definition mailbox_emoji :: string where
  "mailbox_emoji = map char_of [240 :: nat, 159, 147, 172]"

definition relay_notice :: "relay_request \<Rightarrow> string" where
  "relay_notice r =
     mailbox_emoji @ '' **Message from third-party**'' @ newline @ newline @
     ''**From:** '' @ sender_info r @ newline @ ''**Channel:** '' @ rrChannel r @ newline @
     ''**Message:** '' @ rrMessage r @ newline @ newline @ ''_Relay ID: '' @ rrID r @ ''_''"

text \<open>The goroutine: \<open>notify\<close> is what the owner's notifier answers.\<close>

definition notifyOwnerOfRelay ::
  "relay_codec \<Rightarrow> string list \<Rightarrow> (string \<Rightarrow> string option) \<Rightarrow> relay_request \<Rightarrow> sandbox \<Rightarrow> disk \<Rightarrow> sandbox \<times> disk" where
  "notifyOwnerOfRelay rc ks notify req sb d =
     (if \<not> sbNotifier sb then (sb, d)
      else (case notify (relay_notice req) of
              Some _ \<Rightarrow> (sb, d)
            | None \<Rightarrow>
                (let (rs, d1) = relay_MarkDelivered rc ks (rrID req) (sbRelayStore sb) d
                 in (sb\<lparr>sbRelayStore := rs\<rparr>, d1))))"

definition sandbox_GetSystemPrompt :: "string \<Rightarrow> sandbox \<Rightarrow> string" where
  "sandbox_GetSystemPrompt defaultPrompt sb =
     (if tpSystemPrompt (sbCfg sb) \<noteq> '''' then tpSystemPrompt (sbCfg sb) else defaultPrompt)"

end
