(* ===== verification/ThirdParty.thy ===== *)
theory ThirdParty
  imports Sandbox
begin

text \<open>
  The exchanges with unknown senders: their SQLite tables (\<open>internal/trust/store.go\<close>), the stored
  attachments of emails (\<open>attachments.go\<close>), the digests sent to the owner (\<open>notifier.go\<close>) and the
  ingestion of an email (\<open>internal/agent/email_poller.go\<close>).  A table is the list of its rows in the
  order of their insertion; a query sorts by a time in whole seconds, and rows of the same second
  keep that order.
\<close>

section \<open>The tables\<close>

record tp_message =
  tpID :: string
  tpSessionID :: string
  tpSenderPhone :: string
  tpSenderTelegramID :: int
  tpSenderName :: string
  tpSenderEmail :: string
  tpEmailSubject :: string
  tpEmailMessageID :: string
  tpChannel :: string
  tpUserMessage :: string
  tpLLMResponse :: string
  tpCreatedAt :: time
  tpNotified :: bool

record email_attachment =
  eaID :: string
  eaMessageID :: string
  eaFilename :: string
  eaContentType :: string
  eaSize :: int
  eaFilePath :: string
  eaCreatedAt :: time

record session_summary =
  tsSessionID :: string
  tsSenderPhone :: string
  tsSenderTelegramID :: int
  tsSenderName :: string
  tsSenderEmail :: string
  tsChannel :: string
  tsMessageCount :: nat
  tsUnreadCount :: nat
  tsLastMessageAt :: time
  tsFirstMessageAt :: time

record tp_store =
  tbMessages :: "tp_message list"
  tbAttachments :: "email_attachment list"

definition NewThirdPartyStore :: tp_store where
  "NewThirdPartyStore = \<lparr>tbMessages = [], tbAttachments = []\<rparr>"

text \<open>The stored time has whole seconds.\<close>

definition whole_second :: "time \<Rightarrow> time" where
  "whole_second t = t div second * second"

definition tp_Add :: "tp_message \<Rightarrow> tp_store \<Rightarrow> tp_store go_result" where
  "tp_Add m s =
     (if tpID m \<in> tpID ` set (tbMessages s)
      then Inl ''UNIQUE constraint failed: third_party_messages.id''
      else Inr (s\<lparr>tbMessages := tbMessages s @ [m\<lparr>tpCreatedAt := whole_second (tpCreatedAt m), tpNotified := False\<rparr>]\<rparr>))"

definition tp_GetMessages :: "string \<Rightarrow> int \<Rightarrow> int \<Rightarrow> tp_store \<Rightarrow> tp_message list" where
  "tp_GetMessages sid limit offset s =
     take (nat (if limit \<le> 0 then 50 else limit)) (drop (nat offset)
       (sort_key tpCreatedAt (filter (\<lambda>m. tpSessionID m = sid) (tbMessages s))))"

definition GetUnnotifiedCount :: "tp_store \<Rightarrow> nat" where
  "GetUnnotifiedCount s = length (filter (\<lambda>m. \<not> tpNotified m) (tbMessages s))"

definition GetUnnotifiedMessages :: "tp_store \<Rightarrow> tp_message list" where
  "GetUnnotifiedMessages s = sort_key tpCreatedAt (filter (\<lambda>m. \<not> tpNotified m) (tbMessages s))"

text \<open>One transaction over all identifiers.\<close>

definition MarkNotified :: "string list \<Rightarrow> tp_store \<Rightarrow> tp_store" where
  "MarkNotified ids s =
     s\<lparr>tbMessages := foldl (\<lambda>ms i. map (\<lambda>m. if tpID m = i then m\<lparr>tpNotified := True\<rparr> else m) ms) (tbMessages s) ids\<rparr>"

definition MarkSessionRead :: "string \<Rightarrow> tp_store \<Rightarrow> tp_store" where
  "MarkSessionRead sid s =
     s\<lparr>tbMessages := map (\<lambda>m. if tpSessionID m = sid then m\<lparr>tpNotified := True\<rparr> else m) (tbMessages s)\<rparr>"

definition GetMessageCount :: "string \<Rightarrow> tp_store \<Rightarrow> nat" where
  "GetMessageCount sid s = length (filter (\<lambda>m. tpSessionID m = sid) (tbMessages s))"

text \<open>The columns without an aggregate come from some row of the group, which \<open>pick\<close> chooses.\<close>

definition session_row :: "(tp_message list \<Rightarrow> tp_message) \<Rightarrow> string \<Rightarrow> tp_message list \<Rightarrow> session_summary" where
  "session_row pick sid g =
     \<lparr>tsSessionID = sid, tsSenderPhone = tpSenderPhone (pick g), tsSenderTelegramID = tpSenderTelegramID (pick g),
      tsSenderName = Max (set (map tpSenderName g)), tsSenderEmail = Max (set (map tpSenderEmail g)),
      tsChannel = tpChannel (pick g), tsMessageCount = length g,
      tsUnreadCount = length (filter (\<lambda>m. \<not> tpNotified m) g),
      tsLastMessageAt = Max (set (map tpCreatedAt g)), tsFirstMessageAt = Min (set (map tpCreatedAt g))\<rparr>"

definition tp_ListSessions :: "(tp_message list \<Rightarrow> tp_message) \<Rightarrow> tp_store \<Rightarrow> session_summary list" where
  "tp_ListSessions pick s =
     sort_key (\<lambda>r. - tsLastMessageAt r)
       (map (\<lambda>sid. session_row pick sid (filter (\<lambda>m. tpSessionID m = sid) (tbMessages s)))
          (remdups (map tpSessionID (tbMessages s))))"

definition AddAttachment :: "email_attachment \<Rightarrow> tp_store \<Rightarrow> tp_store go_result" where
  "AddAttachment a s =
     (if eaID a \<in> eaID ` set (tbAttachments s)
      then Inl ''UNIQUE constraint failed: email_attachments.id''
      else Inr (s\<lparr>tbAttachments := tbAttachments s @ [a\<lparr>eaCreatedAt := whole_second (eaCreatedAt a)\<rparr>]\<rparr>))"

definition GetAttachments :: "string \<Rightarrow> tp_store \<Rightarrow> email_attachment list" where
  "GetAttachments mid s = sort_key eaFilename (filter (\<lambda>a. eaMessageID a = mid) (tbAttachments s))"

definition GetAttachment :: "string \<Rightarrow> tp_store \<Rightarrow> email_attachment option" where
  "GetAttachment i s = find (\<lambda>a. eaID a = i) (tbAttachments s)"

definition EmailExists :: "string \<Rightarrow> tp_store \<Rightarrow> bool" where
  "EmailExists mid s = list_ex (\<lambda>m. tpEmailMessageID m = mid) (tbMessages s)"

section \<open>Stored attachments\<close>

text \<open>\<open>filepath.Base\<close>: the last element of a path.\<close>

definition filepath_Base :: "string \<Rightarrow> string" where
  "filepath_Base p =
     (if p = '''' then ''.''
      else (let q = rev (dropWhile (\<lambda>c. c = CHR ''/'') (rev p));
                b = rev (takeWhile (\<lambda>c. c \<noteq> CHR ''/'') (rev q))
            in if b = '''' then ''/'' else b))"

definition sanitizePath :: "string \<Rightarrow> string" where
  "sanitizePath p = (let b = filepath_Base p in if b = ''.'' \<or> b = ''..'' then '''' else b)"

definition attachment_Save :: "fpath \<Rightarrow> string \<Rightarrow> string \<Rightarrow> string \<Rightarrow> disk \<Rightarrow> disk \<times> string go_result" where
  "attachment_Save base messageID filename content d =
     (let mid = sanitizePath messageID; fname = sanitizePath filename in
      if mid = '''' \<or> fname = '''' then (d, Inl ''invalid message_id or filename'')
      else
        (let msgDir = join_path base [mid] in
         case os_MkdirAll msgDir d of
           (d1, Some e) \<Rightarrow> (d1, Inl (''failed to create message directory: '' @ e))
         | (d1, None) \<Rightarrow>
             (case os_WriteFile (join_path msgDir [fname]) content d1 of
                (d2, Some e) \<Rightarrow> (d2, Inl (''failed to write attachment: '' @ e))
              | (d2, None) \<Rightarrow> (d2, Inr (filepath_Clean (mid @ ''/'' @ fname))))))"

text \<open>The test whether a path stays below the base compares texts.\<close>

definition below_base :: "fpath \<Rightarrow> fpath \<Rightarrow> bool" where
  "below_base base p \<longleftrightarrow> has_prefix (path_string p) (path_string base)"

definition attachment_Read :: "fpath \<Rightarrow> string \<Rightarrow> disk \<Rightarrow> string go_result" where
  "attachment_Read base rel d =
     (let p = join_path base [rel] in
      if \<not> below_base base p then Inl ''invalid path''
      else (case os_ReadFile d p of
              Found s \<Rightarrow> Inr s
            | NotExist \<Rightarrow> Inl ''attachment not found''
            | OsError e \<Rightarrow> Inl (''failed to read attachment: '' @ e)))"

text \<open>\<open>os.Remove\<close>: a file, or a directory without entries; \<open>Some True\<close> is success and \<open>Some False\<close> an
  entry that does not exist.\<close>

definition dir_empty :: "disk \<Rightarrow> fpath \<Rightarrow> string list \<Rightarrow> bool" where
  "dir_empty d p names \<longleftrightarrow> list_all (\<lambda>n. d (p @ [n]) = None) names"

definition os_Remove :: "string list \<Rightarrow> fpath \<Rightarrow> disk \<Rightarrow> disk \<times> unit os_result" where
  "os_Remove names p d =
     (case d p of
        Some (File _) \<Rightarrow> (d(p := None), Found ())
      | Some Dir \<Rightarrow>
          if dir_empty d p names then (d(p := None), Found ())
          else (d, OsError (os_error_text ''remove'' p ''directory not empty''))
      | None \<Rightarrow> if through_file d p then (d, OsError (os_error_text ''remove'' p ENOTDIR)) else (d, NotExist))"

text \<open>\<open>names\<close> lists the entries the directories in question may have.\<close>

definition attachment_Delete :: "string list \<Rightarrow> fpath \<Rightarrow> string \<Rightarrow> disk \<Rightarrow> disk \<times> string option" where
  "attachment_Delete names base rel d =
     (let p = join_path base [rel] in
      if \<not> below_base base p then (d, Some ''invalid path'')
      else (case os_Remove names p d of
              (d1, OsError e) \<Rightarrow> (d1, Some (''failed to delete attachment: '' @ e))
            | (d1, _) \<Rightarrow> (fst (os_Remove names (butlast p) d1), None)))"

definition attachment_DeleteMessage :: "fpath \<Rightarrow> string \<Rightarrow> disk \<Rightarrow> disk \<times> string option" where
  "attachment_DeleteMessage base messageID d =
     (let mid = sanitizePath messageID in
      if mid = '''' then (d, Some ''invalid message_id'')
      else (let msgDir = join_path base [mid] in
            if \<not> below_base base msgDir then (d, Some ''invalid path'')
            else os_RemoveAll msgDir d))"

section \<open>Digests\<close>

text \<open>The notifier; \<open>ntSend\<close> tells whether a function to send is set, and the store is held beside it.\<close>

record notifier =
  ntSend :: bool
  ntOwnerIDs :: "int list"
  ntPending :: "tp_message list"
  ntStopped :: bool

definition QueueNotification :: "tp_message \<Rightarrow> notifier \<Rightarrow> notifier" where
  "QueueNotification m n = n\<lparr>ntPending := ntPending n @ [m]\<rparr>"

definition NotifyOwner :: "string \<Rightarrow> notifier \<Rightarrow> string option \<times> (int \<times> string) list" where
  "NotifyOwner msg n =
     (if \<not> ntSend n then (Some ''telegram send function not configured'', [])
      else if ntOwnerIDs n = [] then (Some ''no owner telegram IDs configured'', [])
      else (None, map (\<lambda>i. (i, msg)) (ntOwnerIDs n)))"

definition sender_key :: "tp_message \<Rightarrow> string" where
  "sender_key m =
     (if tpSenderName m \<noteq> '''' then tpSenderName m
      else if tpSenderPhone m \<noteq> '''' then tpSenderPhone m
      else if tpSenderTelegramID m \<noteq> 0 then ''Telegram:'' @ itoa (tpSenderTelegramID m)
      else ''Unknown'')"

definition groupBySender :: "tp_message list \<Rightarrow> (string \<rightharpoonup> tp_message list)" where
  "groupBySender ms =
     (\<lambda>k. let g = filter (\<lambda>m. sender_key m = k) ms in if g = [] then None else Some g)"

definition bullet :: string where
  "bullet = map char_of [226 :: nat, 128, 162]"

definition sender_list :: "(string \<times> tp_message list) list \<Rightarrow> string" where
  "sender_list gs =
     concat (map (\<lambda>(k, g). bullet @ '' *'' @ k @ ''*: '' @ itoa (int (length g)) @ '' messages'' @ newline) gs)"

definition exchange_lines :: "tp_message \<Rightarrow> string" where
  "exchange_lines m =
     ''- User: '' @ truncate_str (tpUserMessage m) 200 @ newline @
     ''- Bot: '' @ truncate_str (tpLLMResponse m) 200 @ newline"

definition digest_prompt :: "(string \<times> tp_message list) list \<Rightarrow> string" where
  "digest_prompt gs =
     ''Summarize these third-party conversations in 1-2 sentences each. Be concise:'' @ newline @ newline @
     concat (map (\<lambda>(k, g). ''From '' @ k @ '':'' @ newline @ concat (map exchange_lines g) @ newline) gs)"

text \<open>Each range over the map has an order of its own: \<open>ks\<close> for the prompt, \<open>ks'\<close> for the list.\<close>

definition summarizeDigest ::
  "(string \<Rightarrow> string) option \<Rightarrow> string list \<Rightarrow> string list \<Rightarrow> (string \<rightharpoonup> tp_message list) \<Rightarrow> string" where
  "summarizeDigest summarizer ks ks' bySender =
     (let gs = (\<lambda>ks. List.map_filter (\<lambda>k. map_option (Pair k) (bySender k)) ks) in
      case summarizer of
        None \<Rightarrow> sender_list (gs ks')
      | Some f \<Rightarrow>
          (let summary = f (digest_prompt (gs ks))
           in if summary = '''' \<or> summary = ''(summarization failed)'' then sender_list (gs ks') else summary))"

definition envelope_emoji :: string where
  "envelope_emoji = map char_of [240 :: nat, 159, 147, 168]"

definition digest_text :: "nat \<Rightarrow> nat \<Rightarrow> string \<Rightarrow> string" where
  "digest_text n senders summary =
     envelope_emoji @ '' *Third-party activity digest*'' @ newline @ newline @
     ''*'' @ itoa (int n) @ '' new messages* from '' @ itoa (int senders) @ '' senders'' @ newline @ newline @
     summary @ newline @ newline @ ''_View full conversations in mobile app_''"

text \<open>The notifier, the store and what was sent.\<close>

definition sendDigest ::
  "(string \<Rightarrow> string) option \<Rightarrow> string list \<Rightarrow> string list \<Rightarrow> notifier \<Rightarrow> tp_store option \<Rightarrow>
   notifier \<times> tp_store option \<times> (int \<times> string) list" where
  "sendDigest summarizer ks ks' n st =
     (if ntPending n = [] then (n, st, [])
      else
        (let messages = ntPending n;
             n1 = n\<lparr>ntPending := []\<rparr>;
             bySender = groupBySender messages;
             summary = summarizeDigest summarizer ks ks' bySender
         in case NotifyOwner (digest_text (length messages) (card (set (map sender_key messages))) summary) n1 of
              (Some _, sent) \<Rightarrow> (n1, st, sent)
            | (None, sent) \<Rightarrow> (n1, map_option (MarkNotified (map tpID messages)) st, sent)))"

definition notifier_Stop ::
  "(string \<Rightarrow> string) option \<Rightarrow> string list \<Rightarrow> string list \<Rightarrow> notifier \<Rightarrow> tp_store option \<Rightarrow>
   notifier \<times> tp_store option \<times> (int \<times> string) list" where
  "notifier_Stop summarizer ks ks' n st =
     (if ntStopped n then (n, st, []) else sendDigest summarizer ks ks' (n\<lparr>ntStopped := True\<rparr>) st)"

definition PendingCount :: "notifier \<Rightarrow> nat" where
  "PendingCount n = length (ntPending n)"

end
