(* ===== verification/SandboxCorrect.thy ===== *)
theory SandboxCorrect
  imports ThirdParty
begin

text \<open>
  What the sandbox guarantees about senders nobody listed: the limit of a session, the requests that
  reach the owner, the digests, and the places attachments are stored at; and where it fails.
\<close>

section \<open>The limit of a session\<close>

text \<open>The messages in turn, each with what the sandbox answered.\<close>

fun process_all ::
  "relay_codec \<Rightarrow> (string list \<times> time \<times> string \<times> channel_message) list \<Rightarrow> sandbox \<Rightarrow> disk \<Rightarrow>
   (channel_message \<times> sandbox_response option) list" where
  "process_all rc [] sb d = []"
| "process_all rc ((ks, now, uuid, msg) # ms) sb d =
     (let (sb1, d1, r, _) = ProcessMessage rc ks now uuid msg sb d
      in (msg, r) # process_all rc ms sb1 d1)"

definition over_limit :: "sandbox_response option \<Rightarrow> bool" where
  "over_limit r \<longleftrightarrow> (case r of Some x \<Rightarrow> sxLimitExceeded x | None \<Rightarrow> False)"

lemma ProcessMessage_tracker:
  assumes "ProcessMessage rc ks now uuid msg sb d = (sb1, d1, r, n)"
  shows "sbTracker sb1 = fst (Increment (cmSessionID msg) (sbTracker sb))"
    and "sbCfg sb1 = sbCfg sb" and "sbNotifier sb1 = sbNotifier sb"
    and "over_limit r \<longleftrightarrow> snd (snd (Increment (cmSessionID msg) (sbTracker sb)))"
  using assms by (auto simp: ProcessMessage_def Let_def over_limit_def split: prod.splits if_splits)

lemma process_all_limit:
  assumes "0 < stMaxLimit (sbTracker sb)" and "0 \<le> stCounts (sbTracker sb) sid"
  shows "int (length (filter (\<lambda>(m, r). cmSessionID m = sid \<and> \<not> over_limit r) (process_all rc ms sb d))) \<le>
    max 0 (stMaxLimit (sbTracker sb) - stCounts (sbTracker sb) sid)"
  using assms
proof (induction rc ms sb d rule: process_all.induct)
  case (2 rc ks now uuid msg ms sb d)
  obtain sb1 d1 r n where p: "ProcessMessage rc ks now uuid msg sb d = (sb1, d1, r, n)" by (metis prod_cases4)
  note t = ProcessMessage_tracker [OF p]
  have "0 < stMaxLimit (sbTracker sb1)" "0 \<le> stCounts (sbTracker sb1) sid"
    using 2(2,3) t(1) by (auto simp: Increment_def Let_def)
  from "2.IH" [OF p [symmetric] refl refl refl this] show ?case
    using p t(1,4) 2(2,3) by (auto simp: Increment_def Let_def split: if_splits)
qed simp

text \<open>At most as many messages of a session as the configured length get past the limit, to the
  owner or to the model, whatever they say and however the sessions interleave.\<close>

theorem session_limit_holds:
  assumes "NewSandbox rc cfg p notifier d0 = Some sb" and "0 < tpMaxSessionLength cfg"
  shows "int (length (filter (\<lambda>(m, r). cmSessionID m = sid \<and> \<not> over_limit r) (process_all rc ms sb d))) \<le>
    tpMaxSessionLength cfg"
proof -
  have "sbTracker sb = NewSessionTracker (tpMaxSessionLength cfg)" using assms(1) by (auto simp: NewSandbox_def)
  then show ?thesis using process_all_limit [of sb sid rc ms d] assms(2) by (simp add: NewSessionTracker_def)
qed

definition demo_third_party :: third_party_config where
  "demo_third_party = \<lparr>tpEnabled = True, tpUseLocalLLM = True, tpLocalLLMModel = '''', tpMaxSessionLength = 1,
     tpAllowRelay = True, tpSystemPrompt = ''''\<rparr>"

definition demo_relay_codec :: relay_codec where
  "demo_relay_codec = \<lparr>encRelays = (\<lambda>rs. Inr (join_str ''/'' (map rrID rs))),
     decRelays = (\<lambda>s. Some (map (\<lambda>i. Some \<lparr>rrID = i, rrSessionID = '''', rrSenderPhone = '''', rrSenderName = '''',
       rrMessage = '''', rrOriginalText = '''', rrCreatedAt = 0, rrChannel = '''', rrStatus = ''''\<rparr>) (split_on (CHR ''/'') s)))\<rparr>"

theorem session_limit_holds_witness:
  "\<exists>sb. NewSandbox demo_relay_codec demo_third_party None False Map.empty = Some sb \<and>
     length (filter (\<lambda>(m, r). cmSessionID m = '''' \<and> \<not> over_limit r)
       (process_all demo_relay_codec (replicate 3 ([], 0, '''', zero_message\<lparr>cmContent := ''hi''\<rparr>)) sb Map.empty)) \<le> 1"
proof -
  obtain sb where s: "NewSandbox demo_relay_codec demo_third_party None False Map.empty = Some sb"
    by (auto simp: NewSandbox_def NewRelayStore_def relay_load_def)
  from session_limit_holds [OF s, of "''''"] s show ?thesis by (fastforce simp: demo_third_party_def)
qed

section \<open>Relay requests\<close>

text \<open>The fourth pattern has no group and never yields a request.\<close>

lemma dead_pattern: "DetectRelayRequest t = first_relay (take 3 relayPatterns) (trim_space t)"
proof -
  have "plain_groups (relayPatterns ! 3)" "groups (relayPatterns ! 3) = 0"
    by (simp_all add: relayPatterns_def words_space_def the_opt_def)
  then have "first_relay [relayPatterns ! 3] s = ''''" for s
    using find_sub_groups [of "relayPatterns ! 3" s] by (auto split: option.splits list.splits)
  then have "first_relay (ps @ [relayPatterns ! 3]) s = first_relay ps s" for ps s
    by (induction ps) (auto split: option.splits list.splits prod.splits)
  moreover have "relayPatterns = take 3 relayPatterns @ [relayPatterns ! 3]" by (simp add: relayPatterns_def)
  ultimately show ?thesis unfolding DetectRelayRequest_def by metis
qed

text \<open>A codec that reads back the requests it wrote.\<close>

definition reads_back :: "relay_codec \<Rightarrow> relay_request list \<Rightarrow> bool" where
  "reads_back rc rs \<longleftrightarrow>
     (case encRelays rc rs of Inl _ \<Rightarrow> False | Inr t \<Rightarrow> decRelays rc t = Some (map Some rs))"


lemma relay_save_reload:
  assumes "reads_back rc (List.map_filter (rsRequests s) ks)" and "rsDbPath s = Some (dir @ [n])" and "enumerates ks (rsRequests s)"
    and "\<And>i r. rsRequests s i = Some r \<Longrightarrow> rrID r = i"
    and "\<not> mkdir_blocked d dir" and "d (dir @ [n]) \<noteq> Some Dir"
  shows "\<exists>c. NewRelayStore rc (Some (dir @ [n])) (relay_save rc ks s d) = Some c \<and> rsRequests c = rsRequests s"
proof -
  let ?rs = "List.map_filter (rsRequests s) ks"
  obtain t where t: "encRelays rc ?rs = Inr t" "decRelays rc t = Some (map Some ?rs)"
    using assms(1) by (auto simp: reads_back_def split: sum.splits)
  have saved: "relay_save rc ks s d (dir @ [n]) = Some (File t)"
    using assms(2,5,6) t(1) by (auto simp: relay_save_def os_MkdirAll_def os_WriteFile_def abs_write_def prefix_def)
  have "foldl (\<lambda>m r. m(rrID r \<mapsto> r)) Map.empty ?rs = rsRequests s"
    using enumerates_set [OF assms(3)] by (subst foldl_keyed [where key = rrID]) (auto simp: assms(4) fun_eq_iff)
  then show ?thesis using saved t(2) by (auto simp: NewRelayStore_def relay_load_def os_ReadFile_def comp_def)
qed

lemma relay_save_dirs:
  assumes "rsDbPath s = Some (dir @ [n])" and "\<not> mkdir_blocked d dir" and "d (dir @ [n]) \<noteq> Some Dir"
  shows "\<not> mkdir_blocked (relay_save rc ks s d) dir" and "relay_save rc ks s d (dir @ [n]) \<noteq> Some Dir"
proof -
  have ne: "take k dir \<noteq> dir @ [n]" for k
  proof
    assume "take k dir = dir @ [n]"
    then have "length (take k dir) = Suc (length dir)" by simp
    then show False by simp
  qed
  have "\<not> mkdir_blocked (fst (os_WriteFile (dir @ [n]) t d1)) dir" if "\<not> mkdir_blocked d1 dir" for t d1
    using that by (auto simp: mkdir_blocked_def list_ex_iff os_WriteFile_def abs_write_def ne simp del: upt_Suc
        split: option.splits entry.splits)
  moreover have "\<not> mkdir_blocked (fst (os_MkdirAll dir d)) dir"
    using assms(2) by (auto simp: mkdir_blocked_def list_ex_iff os_MkdirAll_def take_is_prefix simp del: upt_Suc)
  ultimately show "\<not> mkdir_blocked (relay_save rc ks s d) dir"
    using assms by (auto simp: relay_save_def split: sum.splits prod.splits option.splits)
  show "relay_save rc ks s d (dir @ [n]) \<noteq> Some Dir"
    using assms by (auto simp: relay_save_def os_MkdirAll_def os_WriteFile_def abs_write_def prefix_def
        split: sum.splits prod.splits option.splits if_splits)
qed

text \<open>The handler opens the file of the requests twice, once for the sandbox and once for the local
  agent, and each copy writes back all it knows: a request stored through one is lost when the
  other stores the next.\<close>

theorem relay_request_lost:
  assumes "reads_back rc (List.map_filter (rsRequests a') ks)" and "rsDbPath a = Some (dir @ [n])" and "rsDbPath b = Some (dir @ [n])"
    and "\<not> mkdir_blocked d dir" and "d (dir @ [n]) \<noteq> Some Dir"
    and "\<And>i r. rsRequests a i = Some r \<Longrightarrow> rrID r = i" and "\<And>i r. rsRequests b i = Some r \<Longrightarrow> rrID r = i"
    and "rsRequests b (rrID r1) = None" and "rrID r2 \<noteq> rrID r1"
    and "relay_Add rc ks r1 a d = (a', d1)" and "enumerates ks (rsRequests a')"
    and "relay_Add rc ks' r2 b d1 = (b', d2)" and "enumerates ks' (rsRequests b')"
    and "reads_back rc (List.map_filter (rsRequests b') ks')"
  shows "(\<exists>c. NewRelayStore rc (Some (dir @ [n])) d1 = Some c \<and> relay_Get (rrID r1) c = Some r1) \<and>
    (\<exists>c. NewRelayStore rc (Some (dir @ [n])) d2 = Some c \<and> relay_Get (rrID r1) c = None)"
proof -
  have a': "a' = a\<lparr>rsRequests := (rsRequests a)(rrID r1 \<mapsto> r1)\<rparr>" "d1 = relay_save rc ks a' d"
    and b': "b' = b\<lparr>rsRequests := (rsRequests b)(rrID r2 \<mapsto> r2)\<rparr>" "d2 = relay_save rc ks' b' d1"
    using assms(10,12) by (auto simp: relay_Add_def Let_def)
  have "rsDbPath a' = Some (dir @ [n])" "rsDbPath b' = Some (dir @ [n])" using a' b' assms(2,3) by simp_all
  note pa = this
  have d1: "\<not> mkdir_blocked d1 dir" "d1 (dir @ [n]) \<noteq> Some Dir"
    using relay_save_dirs [OF pa(1) assms(4,5)] a'(2) by simp_all
  have "\<exists>c. NewRelayStore rc (Some (dir @ [n])) d1 = Some c \<and> rsRequests c = rsRequests a'"
    unfolding a'(2) by (rule relay_save_reload [OF assms(1) pa(1) assms(11) _ assms(4,5)])
      (use assms(6) a'(1) in \<open>auto split: if_splits\<close>)
  moreover have "\<exists>c. NewRelayStore rc (Some (dir @ [n])) d2 = Some c \<and> rsRequests c = rsRequests b'"
    unfolding b'(2) by (rule relay_save_reload [OF assms(14) pa(2) assms(13) _ d1])
      (use assms(7) b'(1) in \<open>auto split: if_splits\<close>)
  ultimately show ?thesis using a'(1) b'(1) assms(8,9) by (auto simp: relay_Get_def)
qed

definition demo_request :: "string \<Rightarrow> relay_request" where
  "demo_request i = \<lparr>rrID = i, rrSessionID = '''', rrSenderPhone = '''', rrSenderName = '''', rrMessage = '''',
     rrOriginalText = '''', rrCreatedAt = 0, rrChannel = '''', rrStatus = ''''\<rparr>"

theorem relay_request_lost_witness:
  "let s = \<lparr>rsRequests = Map.empty, rsDbPath = Some [''r'']\<rparr>;
       d1 = snd (relay_Add demo_relay_codec [''1''] (demo_request ''1'') s demo_disk);
       d2 = snd (relay_Add demo_relay_codec [''2''] (demo_request ''2'') s d1)
   in (\<exists>c. NewRelayStore demo_relay_codec (Some [''r'']) d2 = Some c \<and> relay_Get ''1'' c = None)"
proof -
  let ?s = "\<lparr>rsRequests = Map.empty, rsDbPath = Some ([] @ [''r''])\<rparr>"
  obtain a' d1 where a: "relay_Add demo_relay_codec [''1''] (demo_request ''1'') ?s demo_disk = (a', d1)" by fastforce
  obtain b' d2 where b: "relay_Add demo_relay_codec [''2''] (demo_request ''2'') ?s d1 = (b', d2)" by fastforce
  have m: "rsRequests a' = [''1'' \<mapsto> demo_request ''1'']" "rsRequests b' = [''2'' \<mapsto> demo_request ''2'']"
    using a b by (auto simp: relay_Add_def Let_def demo_request_def)
  have "\<not> mkdir_blocked demo_disk []" "demo_disk ([] @ [''r'']) \<noteq> Some Dir" by code_simp+
  from relay_request_lost [OF _ _ _ this _ _ _ _ a _ b] show ?thesis
    using a b by (simp add: m reads_back_def enumerates_def demo_relay_codec_def demo_request_def List.map_filter_def)
qed


end
