(* ===== verification/EmailPoller.thy ===== *)
theory EmailPoller
  imports ThirdParty "HOL-Library.Word"
begin

text \<open>
  The ingestion of emails, \<open>internal/agent/email_poller.go\<close>.  The IMAP client and the MIME reader are
  libraries: the answers of the server and the tree of the parts of a message are inputs.
  Identifiers of messages on the server are 32-bit words.
\<close>

section \<open>The text and the attachments of a message\<close>

record mime_header =
  mhDisposition :: string
  mhMediaType :: string
  mhContentType :: string
  mhFileName :: string
  mhName :: string
  mhBoundary :: string
  mhData :: string

datatype mime_part = MimePart mime_header "mime_part list"

record attachment_data =
  adFilename :: string
  adContentType :: string
  adData :: string

definition attachment_of :: "mime_header \<Rightarrow> nat \<Rightarrow> attachment_data" where
  "attachment_of h n =
     \<lparr>adFilename = (if mhFileName h \<noteq> '''' then mhFileName h
        else if mhName h \<noteq> '''' then mhName h else ''attachment_'' @ itoa (int n + 1)),
      adContentType = mhContentType h, adData = take (10 * 1024 * 1024) (mhData h)\<rparr>"

definition add_text :: "mime_header \<Rightarrow> string list \<Rightarrow> string list" where
  "add_text h ts =
     (let t = take (1024 * 1024) (mhData h) in
      if mhMediaType h = ''text/plain'' \<or> ts = [] then
        (if mhMediaType h = ''text/plain'' \<and> ts \<noteq> [] then [t] else ts @ [t])
      else ts)"

fun parse_parts ::
  "mime_part list \<Rightarrow> string list \<Rightarrow> attachment_data list \<Rightarrow> string list \<times> attachment_data list" where
  "parse_parts [] ts as = (ts, as)"
| "parse_parts (MimePart h cs # ps) ts as =
     (if has_prefix (mhDisposition h) ''attachment'' then
        parse_parts ps ts (as @ [attachment_of h (length as)])
      else if has_prefix (mhMediaType h) ''multipart/'' then
        (let (nested, nas) = (if mhBoundary h = '''' then ([], []) else parse_parts cs [] []);
             t = join_str (newline @ newline) nested
         in parse_parts ps (if t \<noteq> '''' then ts @ [t] else ts) (as @ nas))
      else if has_prefix (mhMediaType h) ''text/'' then parse_parts ps (add_text h ts) as
      else parse_parts ps ts as)"

definition parseMultipart :: "mime_part list \<Rightarrow> string \<Rightarrow> string \<times> attachment_data list" where
  "parseMultipart parts boundary =
     (if boundary = '''' then ('''', [])
      else (let (ts, as) = parse_parts parts [] [] in (join_str (newline @ newline) ts, as)))"

text \<open>What reading the raw message can give.\<close>

datatype raw_email =
  Unreadable
| NotMail string
| BadContentType string
| SinglePart string
| MultiPart string "mime_part list"

fun parseEmailBody :: "raw_email \<Rightarrow> string \<times> attachment_data list" where
  "parseEmailBody Unreadable = ('''', [])"
| "parseEmailBody (NotMail s) = (s, [])"
| "parseEmailBody (BadContentType s) = (s, [])"
| "parseEmailBody (SinglePart s) = (s, [])"
| "parseEmailBody (MultiPart boundary parts) = parseMultipart parts boundary"

section \<open>One message\<close>

record envelope =
  enMessageID :: string
  enFrom :: "(string \<times> string \<times> string) option"
  enSubject :: string
  enDate :: time

record imap_message =
  imUid :: "32 word"
  imEnvelope :: "envelope option"
  imBody :: "raw_email option"

text \<open>What a message changes: the store, the disk of the attachments, the notifier if there is one,
  and the last identifiers of the folders.\<close>

record poller =
  epStore :: tp_store
  epDisk :: disk
  epAttachBase :: "fpath option"
  epNotifier :: "notifier option"
  epLastUIDs :: "string \<Rightarrow> 32 word"

fun save_attachments ::
  "fpath \<Rightarrow> string \<Rightarrow> string list \<Rightarrow> time \<Rightarrow> attachment_data list \<Rightarrow> disk \<Rightarrow> tp_store \<Rightarrow> disk \<times> tp_store" where
  "save_attachments base i uuids now [] d s = (d, s)"
| "save_attachments base i uuids now (a # as) d s =
     (case attachment_Save base i (adFilename a) (adData a) d of
        (d1, Inl _) \<Rightarrow> save_attachments base i uuids now as d1 s
      | (d1, Inr rel) \<Rightarrow>
          (let row = \<lparr>eaID = hd uuids, eaMessageID = i, eaFilename = adFilename a, eaContentType = adContentType a,
                      eaSize = int (length (adData a)), eaFilePath = rel, eaCreatedAt = now\<rparr>
           in save_attachments base i (tl uuids) now as d1
                (case AddAttachment row s of Inl _ \<Rightarrow> s | Inr s1 \<Rightarrow> s1)))"

definition message_key :: "string \<Rightarrow> imap_message \<Rightarrow> envelope \<Rightarrow> string" where
  "message_key folder m en =
     (if enMessageID en = '''' then ''uid-'' @ itoa (int (unat (imUid m))) @ ''@'' @ folder else enMessageID en)"

definition tp_of_email :: "string \<Rightarrow> string \<Rightarrow> envelope \<Rightarrow> string \<Rightarrow> tp_message" where
  "tp_of_email uuid key en body =
     (let (email, name) = (case enFrom en of None \<Rightarrow> ('''', '''') | Some (mb, h, n) \<Rightarrow> (mb @ ''@'' @ h, n))
      in \<lparr>tpID = uuid, tpSessionID = ''email:'' @ email, tpSenderPhone = '''', tpSenderTelegramID = 0,
          tpSenderName = name, tpSenderEmail = email, tpEmailSubject = enSubject en, tpEmailMessageID = key,
          tpChannel = ''email'', tpUserMessage = body, tpLLMResponse = '''', tpCreatedAt = enDate en,
          tpNotified = False\<rparr>)"

definition processMessage ::
  "string list \<Rightarrow> time \<Rightarrow> string \<Rightarrow> imap_message \<Rightarrow> poller \<Rightarrow> poller \<times> string option" where
  "processMessage uuids now folder m p =
     (case imEnvelope m of
        None \<Rightarrow> (p, Some ''message has no envelope'')
      | Some en \<Rightarrow>
          (let key = message_key folder m en in
           if EmailExists key (epStore p) then (p, None)
           else
             (let (body, atts) = (case imBody m of None \<Rightarrow> ('''', []) | Some r \<Rightarrow> parseEmailBody r);
                  msg = tp_of_email (hd uuids) key en body
              in case tp_Add msg (epStore p) of
                   Inl e \<Rightarrow> (p, Some (''failed to store email: '' @ e))
                 | Inr s1 \<Rightarrow>
                     (let (d2, s2) = (case epAttachBase p of
                            None \<Rightarrow> (epDisk p, s1)
                          | Some base \<Rightarrow> save_attachments base (hd uuids) (tl uuids) now atts (epDisk p) s1)
                      in (p\<lparr>epStore := s2, epDisk := d2,
                            epNotifier := map_option (QueueNotification msg) (epNotifier p)\<rparr>, None)))))"

section \<open>One folder\<close>

text \<open>The mailbox as it was selected, the search from an identifier on, and the fetch: the messages
  with the uuids and clock of each, and whether it ends with an error.\<close>

record mailbox =
  mbMessages :: nat
  mbUidNext :: "32 word"
  mbSearch :: "32 word \<Rightarrow> 32 word list go_result"
  mbFetch :: "32 word list \<Rightarrow> (string list \<times> time \<times> imap_message) list \<times> string option"

fun process_messages :: "string \<Rightarrow> (string list \<times> time \<times> imap_message) list \<Rightarrow> poller \<Rightarrow> poller" where
  "process_messages folder [] p = p"
| "process_messages folder ((uuids, now, m) # ms) p =
     process_messages folder ms (fst (processMessage uuids now folder m p))"

definition pollFolder :: "mailbox go_result \<Rightarrow> string \<Rightarrow> poller \<Rightarrow> poller \<times> string option" where
  "pollFolder sel folder p =
     (case sel of
        Inl e \<Rightarrow> (p, Some (''failed to select folder: '' @ e))
      | Inr mb \<Rightarrow>
          if mbMessages mb = 0 then (p, None)
          else
            (let lastUID = epLastUIDs p folder in
             if lastUID = 0 then (p\<lparr>epLastUIDs := (epLastUIDs p)(folder := mbUidNext mb - 1)\<rparr>, None)
             else
               (case mbSearch mb (lastUID + 1) of
                  Inl e \<Rightarrow> (p, Some (''UID search failed: '' @ e))
                | Inr [] \<Rightarrow> (p, None)
                | Inr (u # us) \<Rightarrow>
                    (let (msgs, err) = mbFetch mb (u # us);
                         maxUID = foldl max 0 (map (\<lambda>(_, _, m). imUid m) msgs);
                         p1 = process_messages folder msgs p
                     in case err of
                          Some e \<Rightarrow> (p1, Some (''fetch failed: '' @ e))
                        | None \<Rightarrow>
                            (if 0 < maxUID \<and> epLastUIDs p1 folder < maxUID
                             then p1\<lparr>epLastUIDs := (epLastUIDs p1)(folder := maxUID)\<rparr> else p1, None)))))"

text \<open>One round over the folders, each with what its selection gave.\<close>

fun poll_folders :: "(string \<times> mailbox go_result) list \<Rightarrow> poller \<Rightarrow> poller" where
  "poll_folders [] p = p"
| "poll_folders ((f, sel) # fs) p = poll_folders fs (fst (pollFolder sel f p))"

end
