(* ===== verification/EmailCorrect.thy ===== *)
theory EmailCorrect
  imports EmailPoller
begin

text \<open>
  What holds of digests, stored attachments and ingested emails.
\<close>

section \<open>Digests\<close>

definition mark_row :: "string set \<Rightarrow> tp_message \<Rightarrow> tp_message" where
  "mark_row ids m = (if tpID m \<in> ids then m\<lparr>tpNotified := True\<rparr> else m)"

lemma mark_row_fields [simp]:
  "tpID (mark_row ids m) = tpID m" "tpCreatedAt (mark_row ids m) = tpCreatedAt m"
  "tpEmailMessageID (mark_row ids m) = tpEmailMessageID m"
  by (simp_all add: mark_row_def)

lemma MarkNotified_rows: "tbMessages (MarkNotified ids s) = map (mark_row (set ids)) (tbMessages s)"
proof -
  have "foldl (\<lambda>ms i. map (\<lambda>m. if tpID m = i then m\<lparr>tpNotified := True\<rparr> else m) ms) rows js =
      map (mark_row (set js)) rows" for rows js
    by (induction js arbitrary: rows) (auto simp: mark_row_def map_idI)
  then show ?thesis by (simp add: MarkNotified_def)
qed

lemma unnotified_after:
  "GetUnnotifiedMessages (MarkNotified ids s) = filter (\<lambda>m. tpID m \<notin> set ids) (GetUnnotifiedMessages s)"
proof -
  have "filter (\<lambda>m. \<not> tpNotified m) (map (mark_row A) rows) = filter (\<lambda>m. tpID m \<notin> A) (filter (\<lambda>m. \<not> tpNotified m) rows)" for A rows
    by (induction rows) (auto simp: mark_row_def)
  then show ?thesis by (simp add: GetUnnotifiedMessages_def MarkNotified_rows filter_sort)
qed

text \<open>A digest sends one text to every owner in turn, empties the queue, and the store then lists
  as not reported exactly the rows it listed before without those of the queue.\<close>

theorem digest_reports:
  assumes "sendDigest f ks ks' n (Some s) = (n', s', sent)" and "ntPending n \<noteq> []"
    and "ntSend n" and "ntOwnerIDs n \<noteq> []"
  shows "ntPending n' = [] \<and> map fst sent = ntOwnerIDs n \<and> (\<exists>t. set (map snd sent) = {t}) \<and>
    (\<exists>st. s' = Some st \<and> GetUnnotifiedMessages st =
      filter (\<lambda>m. tpID m \<notin> tpID ` set (ntPending n)) (GetUnnotifiedMessages s))"
proof -
  obtain t where t: "sent = map (\<lambda>i. (i, t)) (ntOwnerIDs n)" "n' = n\<lparr>ntPending := []\<rparr>"
      "s' = Some (MarkNotified (map tpID (ntPending n)) s)"
    using assms by (auto simp: sendDigest_def NotifyOwner_def Let_def)
  have "set (map snd sent) = {t}" using assms(4) t(1) by (auto simp: image_iff neq_Nil_conv)
  then show ?thesis using t by (auto simp: unnotified_after comp_def)
qed

text \<open>A digest that cannot be sent is dropped: its messages are neither queued nor reported.\<close>

lemma failed_digest_dropped:
  "ntPending n \<noteq> [] \<Longrightarrow> \<not> ntSend n \<or> ntOwnerIDs n = [] \<Longrightarrow>
   sendDigest f ks ks' n st = (n\<lparr>ntPending := []\<rparr>, st, [])"
  by (auto simp: sendDigest_def NotifyOwner_def Let_def)

definition demo_notifier :: notifier where
  "demo_notifier = \<lparr>ntSend = True, ntOwnerIDs = [7], ntPending = [], ntStopped = False\<rparr>"

definition demo_tp :: "string \<Rightarrow> tp_message" where
  "demo_tp i = \<lparr>tpID = i, tpSessionID = ''s'', tpSenderPhone = '''', tpSenderTelegramID = 0, tpSenderName = ''Ann'',
     tpSenderEmail = '''', tpEmailSubject = '''', tpEmailMessageID = '''', tpChannel = ''telegram'',
     tpUserMessage = ''hi'', tpLLMResponse = ''hello'', tpCreatedAt = 0, tpNotified = False\<rparr>"

theorem digest_reports_witness:
  "let (n', s', sent) = sendDigest None [''Ann''] [''Ann''] (QueueNotification (demo_tp ''1'') demo_notifier)
         (Some \<lparr>tbMessages = [demo_tp ''1'', demo_tp ''2''], tbAttachments = []\<rparr>)
   in \<exists>st. s' = Some st \<and> GetUnnotifiedMessages st = [demo_tp ''2'']"
proof -
  let ?n = "QueueNotification (demo_tp ''1'') demo_notifier"
  let ?s = "\<lparr>tbMessages = [demo_tp ''1'', demo_tp ''2''], tbAttachments = []\<rparr>"
  obtain n' s' sent where r: "sendDigest None [''Ann''] [''Ann''] ?n (Some ?s) = (n', s', sent)" by (metis prod_cases3)
  from digest_reports [OF r] r show ?thesis
    by (auto simp: QueueNotification_def demo_notifier_def GetUnnotifiedMessages_def demo_tp_def)
qed

section \<open>Stored attachments\<close>

lemma base_plain:
  assumes "sanitizePath p \<noteq> ''''"
  shows "plain (sanitizePath p) \<or> sanitizePath p = ''/''"
proof -
  let ?b = "rev (takeWhile (\<lambda>c. c \<noteq> CHR ''/'') (dropWhile (\<lambda>c. c = CHR ''/'') (rev p)))"
  have "CHR ''/'' \<notin> set ?b" using set_takeWhileD by fastforce
  then show ?thesis using assms by (auto simp: sanitizePath_def filepath_Base_def Let_def plain_def split: if_splits)
qed

lemma join_slash: "join_path base [''/''] = base"
  by (simp add: join_path_def clean_step_def)

lemma clean_two: "plain a \<Longrightarrow> plain b \<Longrightarrow> filepath_Clean (a @ ''/'' @ b) = a @ ''/'' @ b"
proof -
  assume p: "plain a" "plain b"
  then have "split_on (CHR ''/'') (a @ ''/'' @ b) = [a, b]"
    using split_on_two [of "CHR ''/''" a b] by (simp add: plain_def split_on_none)
  moreover have "\<not> has_prefix (a @ ''/'' @ b) ''/''" using p by (cases a) (auto simp: plain_def has_prefix_def)
  ultimately show ?thesis using p by (auto simp: filepath_Clean_def clean_rel_step_def plain_def)
qed

lemma join_two: "plain a \<Longrightarrow> plain b \<Longrightarrow> join_path base [a @ ''/'' @ b] = base @ [a, b]"
  using split_on_two [of "CHR ''/''" a b]
  by (simp add: join_path_def plain_def split_on_none clean_step_def)

lemma join_str_append: "p \<noteq> [] \<Longrightarrow> q \<noteq> [] \<Longrightarrow> join_str sep (p @ q) = join_str sep p @ sep @ join_str sep q"
proof (induction p)
  case (Cons x p)
  then show ?case by (cases p; cases q) simp_all
qed simp

lemma below_base_append: "below_base base (base @ q)"
  by (cases "base = []"; cases "q = []")
    (simp_all add: below_base_def path_string_def has_prefix_def join_str_append)

lemma base_of_plain: "plain i \<Longrightarrow> sanitizePath i = i"
proof -
  assume p: "plain i"
  then have t: "takeWhile (\<lambda>c. c \<noteq> CHR ''/'') (rev i) = rev i" by (auto simp: plain_def takeWhile_eq_all_conv)
  have w: "dropWhile (\<lambda>c. c = CHR ''/'') (rev i) = rev i"
    using p by (simp add: plain_def dropWhile_eq_self_iff) (metis hd_in_set rev_is_Nil_conv set_rev)
  show ?thesis
    using p unfolding sanitizePath_def filepath_Base_def Let_def rev_rev_ident w t by (simp add: plain_def)
qed

text \<open>An attachment saved under the identifier of a message and a name comes back when the path
  that was returned is read, and only entries above or below that path change.\<close>

theorem attachment_roundtrip:
  assumes "attachment_Save base i f content d = (d', Inr rel)" and "plain i"
  shows "attachment_Read base rel d' = Inr content \<and> plain (sanitizePath f) \<and>
    (\<forall>q. d' q \<noteq> d q \<longrightarrow> prefix q (base @ [i, sanitizePath f]))"
proof -
  let ?f = "sanitizePath f" and ?dir = "base @ [i]"
  have i: "sanitizePath i = i" by (rule base_of_plain [OF assms(2)])
  have dir: "join_path base [i] = ?dir" using assms(2) by (simp add: join_path_plain)
  from assms(1) obtain d1 where m: "os_MkdirAll ?dir d = (d1, None)" and ne: "?f \<noteq> ''''"
    and w: "os_WriteFile (join_path ?dir [?f]) content d1 = (d', None)" and rel: "rel = filepath_Clean (i @ ''/'' @ ?f)"
    by (auto simp: attachment_Save_def Let_def i dir split: if_splits prod.splits option.splits)
  have "?f \<noteq> ''/''"
  proof
    assume "?f = ''/''"
    then have "join_path ?dir [?f] = ?dir" by (simp add: join_slash)
    moreover have "d1 ?dir = Some Dir" using m by (auto simp: os_MkdirAll_def split: if_splits)
    ultimately show False using w by (simp add: os_WriteFile_def abs_write_def)
  qed
  then have f: "plain ?f" using base_plain ne by blast
  have target: "join_path ?dir [?f] = base @ [i, ?f]" using f by (simp add: join_path_plain)
  have w': "d' = d1(base @ [i, ?f] \<mapsto> File content)"
    using w unfolding target by (auto simp: os_WriteFile_def abs_write_def split: if_splits option.splits)
  have "attachment_Read base rel d' = Inr content"
    using below_base_append [of base "[i, ?f]"] w' join_two [OF assms(2) f, of base]
    unfolding rel clean_two [OF assms(2) f] by (simp add: attachment_Read_def os_ReadFile_def Let_def)
  moreover have "prefix q (base @ [i, ?f])" if "d' q \<noteq> d q" for q
    using that m w' by (auto simp: os_MkdirAll_def split: if_splits)
  ultimately show ?thesis using f by blast
qed

theorem attachment_roundtrip_witness:
  "\<exists>d' rel. attachment_Save [''a''] ''m'' ''../x'' ''data'' demo_disk = (d', Inr rel) \<and>
     attachment_Read [''a''] rel d' = Inr ''data''"
proof -
  have "case attachment_Save [''a''] ''m'' ''../x'' ''data'' demo_disk of (_, Inr _) \<Rightarrow> True | _ \<Rightarrow> False" by code_simp
  then obtain d' rel where s: "attachment_Save [''a''] ''m'' ''../x'' ''data'' demo_disk = (d', Inr rel)"
    by (auto split: prod.splits sum.splits)
  have "plain ''m''" by (simp add: plain_def)
  from attachment_roundtrip [OF s this] s show ?thesis by blast
qed

text \<open>The test for paths outside the base compares texts: a sibling directory whose name extends
  the name of the base is read, and the identifier ``/'' deletes the attachments of all messages.\<close>

theorem attachment_paths_escape:
  assumes "plain x" and "plain f" and "plain (b @ x)" and "d (dir @ [b @ x, f]) = Some (File content)"
    and "\<not> through_file d (dir @ [b])"
  shows "attachment_Read (dir @ [b]) (''../'' @ b @ x @ ''/'' @ f) d = Inr content \<and>
    (\<exists>d'. attachment_DeleteMessage (dir @ [b]) ''/'' d = (d', None) \<and> (\<forall>q. d' (dir @ [b] @ q) = None))"
proof -
  have "split_on (CHR ''/'') (''../'' @ b @ x @ ''/'' @ f) = [''..'', b @ x, f]"
    using split_on_two [of "CHR ''/''" "''..''" "b @ x @ ''/'' @ f"] split_on_two [of "CHR ''/''" "b @ x" f] assms(2,3)
    by (simp add: plain_def split_on_none)
  then have j: "join_path (dir @ [b]) [''../'' @ b @ x @ ''/'' @ f] = dir @ [b @ x, f]"
    using assms(2,3) by (simp add: join_path_def clean_step_def plain_def)
  have "path_string (dir @ [b @ x, f]) = path_string (dir @ [b]) @ x @ ''/'' @ f"
    by (cases "dir = []") (simp_all add: path_string_def join_str_append)
  then have "below_base (dir @ [b]) (dir @ [b @ x, f])" by (simp add: below_base_def has_prefix_def)
  then have "attachment_Read (dir @ [b]) (''../'' @ b @ x @ ''/'' @ f) d = Inr content"
    using assms(4) unfolding attachment_Read_def j by (simp add: os_ReadFile_def)
  moreover have "sanitizePath ''/'' = ''/''" by (simp add: sanitizePath_def filepath_Base_def)
  then have "attachment_DeleteMessage (dir @ [b]) ''/'' d = os_RemoveAll (dir @ [b]) d"
    using below_base_append [of "dir @ [b]" "[]"] by (simp add: attachment_DeleteMessage_def join_slash)
  ultimately show ?thesis using assms(5) by (auto simp: os_RemoveAll_def)
qed

theorem attachment_paths_escape_witness:
  "attachment_Read [''attachments''] ''../attachments-old/secret''
     [[''attachments-old'', ''secret''] \<mapsto> File ''s''] = Inr ''s''"
proof -
  let ?d = "[[''attachments-old'', ''secret''] \<mapsto> File ''s''] :: disk"
  have p: "plain ''-old''" "plain ''secret''" "plain (''attachments'' @ ''-old'')" by (simp_all add: plain_def)
  have "?d ([] @ [''attachments'' @ ''-old'', ''secret'']) = Some (File ''s'')" by simp
  moreover have "\<not> through_file ?d ([] @ [''attachments''])" by (simp add: through_file_def)
  ultimately show ?thesis using attachment_paths_escape [OF p, of ?d "[]" "''s''"] by simp
qed

section \<open>Ingested emails\<close>

definition message_keys :: "tp_store \<Rightarrow> string list" where
  "message_keys s = filter (\<lambda>k. k \<noteq> '''') (map tpEmailMessageID (tbMessages s))"

lemma message_key_nonempty: "message_key folder m en \<noteq> ''''"
  by (simp add: message_key_def)

lemma AddAttachment_messages: "tbMessages (case AddAttachment a s of Inl _ \<Rightarrow> s | Inr s1 \<Rightarrow> s1) = tbMessages s"
  by (simp add: AddAttachment_def)

lemma save_attachments_messages: "tbMessages (snd (save_attachments base i uuids now as d s)) = tbMessages s"
  by (induction base i uuids now as d s rule: save_attachments.induct)
    (simp_all add: AddAttachment_messages split: prod.splits sum.splits)

lemma processMessage_keys:
  "message_keys (epStore (fst (processMessage uuids now folder m p))) = message_keys (epStore p) \<or>
   (\<exists>k. k \<notin> set (message_keys (epStore p)) \<and>
      message_keys (epStore (fst (processMessage uuids now folder m p))) = message_keys (epStore p) @ [k])"
proof (cases "imEnvelope m")
  case (Some en)
  let ?k = "message_key folder m en"
  show ?thesis
  proof (cases "EmailExists ?k (epStore p)")
    case False
    then have new: "?k \<notin> set (message_keys (epStore p))"
      by (auto simp: message_keys_def EmailExists_def list_ex_iff)
    obtain body atts where b: "(case imBody m of None \<Rightarrow> ('''', []) | Some r \<Rightarrow> parseEmailBody r) = (body, atts)"
      by fastforce
    show ?thesis
    proof (cases "tp_Add (tp_of_email (hd uuids) ?k en body) (epStore p)")
      case (Inl e)
      then show ?thesis using Some False b by (simp add: processMessage_def Let_def)
    next
      case (Inr s1)
      then have "tbMessages (epStore (fst (processMessage uuids now folder m p))) = tbMessages s1"
        using Some False b save_attachments_messages [of _ "hd uuids" "tl uuids" now atts "epDisk p" s1]
        by (auto simp: processMessage_def Let_def split: prod.splits option.splits) (metis snd_conv)
      moreover have "message_keys s1 = message_keys (epStore p) @ [?k]"
        using Inr message_key_nonempty
        by (auto simp: tp_Add_def message_keys_def tp_of_email_def split: if_splits prod.splits)
      ultimately show ?thesis using new by (auto simp: message_keys_def)
    qed
  qed (simp add: processMessage_def Some Let_def)
qed (simp add: processMessage_def)

lemma process_messages_distinct:
  "distinct (message_keys (epStore p)) \<Longrightarrow> distinct (message_keys (epStore (process_messages folder ms p)))"
proof (induction folder ms p rule: process_messages.induct)
  case (2 folder uuids now m ms p)
  then show ?case using processMessage_keys [of uuids now folder m p] by auto
qed simp

lemma pollFolder_store: "epStore (fst (pollFolder sel folder p)) = epStore p \<or>
   (\<exists>ms. epStore (fst (pollFolder sel folder p)) = epStore (process_messages folder ms p))"
  by (auto simp: pollFolder_def Let_def split: sum.splits list.splits prod.splits option.splits)

text \<open>However often the folders are polled and whatever the server answers, the store holds at
  most one row for an email.\<close>

theorem email_stored_once:
  assumes "distinct (message_keys (epStore p))"
  shows "distinct (message_keys (epStore (poll_folders rounds p)))"
  using assms
proof (induction rounds p rule: poll_folders.induct)
  case (2 f sel fs p)
  have "distinct (message_keys (epStore (fst (pollFolder sel f p))))"
    using pollFolder_store [of sel f p] process_messages_distinct [OF 2(2)] 2(2) by metis
  then show ?case using 2(1) by simp
qed simp

definition demo_email :: imap_message where
  "demo_email = \<lparr>imUid = 5, imEnvelope = Some \<lparr>enMessageID = ''x'', enFrom = None, enSubject = '''', enDate = 0\<rparr>,
     imBody = Some (SinglePart ''hello'')\<rparr>"

definition demo_mailbox :: mailbox where
  "demo_mailbox = \<lparr>mbMessages = 1, mbUidNext = 6, mbSearch = (\<lambda>_. Inr [5]), mbFetch = (\<lambda>_. ([([''1''], 0, demo_email)], None))\<rparr>"

definition demo_poller :: poller where
  "demo_poller = \<lparr>epStore = NewThirdPartyStore, epDisk = Map.empty, epAttachBase = None, epNotifier = None,
     epLastUIDs = (\<lambda>_. 4)\<rparr>"

theorem email_stored_once_witness:
  "distinct (message_keys (epStore (poll_folders [(''a'', Inr demo_mailbox), (''b'', Inr demo_mailbox)] demo_poller)))"
  by (rule email_stored_once) (simp add: message_keys_def demo_poller_def NewThirdPartyStore_def)

text \<open>A search for the identifiers from \<open>n\<close> to \<open>*\<close> as RFC 3501 has it: a range names the same messages in
  both directions, so that it always holds the highest identifier.\<close>

definition imap_search :: "32 word list \<Rightarrow> 32 word \<Rightarrow> 32 word list" where
  "imap_search uids n = filter (\<lambda>u. n \<le> u \<or> u = foldl max 0 uids) uids"

text \<open>The first poll of a folder fetches nothing, to pass over old mail; but the second one asks for
  what follows the newest message, which by the rules of the protocol is that message again, and
  ingests it.\<close>

theorem newest_old_email_ingested:
  assumes "epLastUIDs p folder = 0" and "mbMessages mb \<noteq> 0" and "mbUidNext mb = foldl max 0 uids + 1"
    and "foldl max 0 uids \<noteq> 0" and "mbSearch mb (mbUidNext mb) = Inr (imap_search uids (mbUidNext mb))"
    and "imap_search uids (mbUidNext mb) = [imUid m]"
    and "mbFetch mb [imUid m] = ([(uuids, now, m)], None)"
    and "fst (pollFolder (Inr mb) folder p) = p1" and "fst (pollFolder (Inr mb) folder p1) = p2"
  shows "epStore p1 = epStore p \<and> epStore p2 = epStore (fst (processMessage uuids now folder m p1))"
proof -
  have p1: "p1 = p\<lparr>epLastUIDs := (epLastUIDs p)(folder := foldl max 0 uids)\<rparr>"
    using assms(1-3,8) by (auto simp: pollFolder_def Let_def)
  then show ?thesis using assms(2-7,9) by (auto simp: pollFolder_def Let_def split: if_splits)
qed

theorem newest_old_email_ingested_witness:
  "let p = demo_poller\<lparr>epLastUIDs := \<lambda>_. 0\<rparr>;
       mb = demo_mailbox\<lparr>mbSearch := \<lambda>n. Inr (imap_search [3, 5] n)\<rparr>;
       p2 = fst (pollFolder (Inr mb) ''a'' (fst (pollFolder (Inr mb) ''a'' p)))
   in map tpUserMessage (tbMessages (epStore p2)) = [''hello'']"
proof -
  let ?p = "demo_poller\<lparr>epLastUIDs := \<lambda>_. 0\<rparr>"
  let ?mb = "demo_mailbox\<lparr>mbSearch := \<lambda>n. Inr (imap_search [3, 5] n)\<rparr>"
  have h: "epLastUIDs ?p ''a'' = 0" "mbMessages ?mb \<noteq> 0" "mbUidNext ?mb = foldl max 0 [3, 5] + 1"
    "foldl max 0 [3, 5 :: 32 word] \<noteq> 0" "mbSearch ?mb (mbUidNext ?mb) = Inr (imap_search [3, 5] (mbUidNext ?mb))"
    "imap_search [3, 5] (mbUidNext ?mb) = [imUid demo_email]"
    "mbFetch ?mb [imUid demo_email] = ([([''1''], 0, demo_email)], None)"
    by (simp_all add: demo_mailbox_def imap_search_def demo_email_def max_def)
  note stored = conjunct2 [OF newest_old_email_ingested [OF h refl refl]]
  show ?thesis
    unfolding Let_def stored
    by (simp add: Let_def processMessage_def pollFolder_def demo_mailbox_def demo_poller_def demo_email_def
        EmailExists_def message_key_def tp_Add_def tp_of_email_def NewThirdPartyStore_def)
qed

text \<open>A part of plain text that is no attachment.\<close>

definition plain_text :: "mime_header \<Rightarrow> bool" where
  "plain_text h \<longleftrightarrow> mhMediaType h = ''text/plain'' \<and> \<not> has_prefix (mhDisposition h) ''attachment''"

lemma parse_parts_append:
  "parse_parts (ps @ qs) ts as = (let (ts1, as1) = parse_parts ps ts as in parse_parts qs ts1 as1)"
proof (induction ps arbitrary: ts as)
  case (Cons p ps)
  then show ?case by (cases p) (simp add: Let_def split: prod.splits)
qed simp

text \<open>A part of plain text replaces every text before it on its level, other plain text included:
  of a message whose last part is plain text, like the footer a mailing list appends, only that
  part is stored.\<close>

theorem plain_part_replaces_body:
  assumes "plain_text h" and "boundary \<noteq> ''''"
  shows "fst (parseEmailBody (MultiPart boundary (parts @ [MimePart h cs]))) = take (1024 * 1024) (mhData h)"
proof -
  obtain ts as where p: "parse_parts parts [] [] = (ts, as)" by fastforce
  have "\<not> has_prefix ''text/plain'' ''multipart/''" "has_prefix ''text/plain'' ''text/''"
    by (simp_all add: has_prefix_def)
  then show ?thesis
    using assms p by (auto simp: parseMultipart_def parse_parts_append plain_text_def add_text_def Let_def)
qed

definition demo_part :: "string \<Rightarrow> mime_header" where
  "demo_part t = \<lparr>mhDisposition = '''', mhMediaType = ''text/plain'', mhContentType = '''', mhFileName = '''',
     mhName = '''', mhBoundary = '''', mhData = t\<rparr>"

theorem plain_part_replaces_body_witness:
  "fst (parseEmailBody (MultiPart ''b'' [MimePart (demo_part ''the letter'') [], MimePart (demo_part ''footer'') []])) = ''footer''"
proof -
  have "plain_text (demo_part ''footer'')" by (simp add: plain_text_def demo_part_def has_prefix_def)
  from plain_part_replaces_body [OF this, of "''b''" "[MimePart (demo_part ''the letter'') []]" "[]"]
  show ?thesis by (simp add: demo_part_def)
qed


end
