(* ===== verification/Access.thy ===== *)
theory Access
  imports Trust Channels
begin

text \<open>
  Who may connect: the tokens of \<open>internal/auth/token.go\<close>, the origin check and the guard of the
  WebSocket server (\<open>internal/channel/websocket.go\<close>), how \<open>internal/gateway/server.go\<close> sets it up,
  and the handshake and the list of peers of the peer-to-peer host (\<open>internal/p2p/auth.go\<close>,
  \<open>gater.go\<close>).  The hash function (argon2), the parser of URLs and the JSON codec of the tokens
  are parameters; random bytes are arguments.
\<close>

section \<open>Tokens\<close>

text \<open>\<open>None\<close> is the zero time: no expiry.\<close>

record auth_token =
  tkID :: string
  tkHash :: string
  tkSalt :: string
  tkName :: string
  tkCreatedAt :: time
  tkExpiresAt :: "time option"

record token_info =
  tiID :: string
  tiName :: string
  tiCreatedAt :: time
  tiExpiresAt :: "time option"
  tiExpired :: bool

record token_codec =
  encTokens :: "auth_token list \<Rightarrow> string go_result"
  decTokens :: "string \<Rightarrow> (auth_token option list) go_result"

record token_store =
  tsTokens :: "string \<rightharpoonup> auth_token"
  tsFile :: "fpath option"

text \<open>The tokens in the order \<open>ks\<close> of a range over the map.\<close>

definition tokens_in :: "string list \<Rightarrow> token_store \<Rightarrow> auth_token list" where
  "tokens_in ks s = List.map_filter (tsTokens s) ks"

definition token_load :: "token_codec \<Rightarrow> fpath \<Rightarrow> disk \<Rightarrow> token_store \<Rightarrow> token_store go_result os_result option" where
  "token_load tc p d s =
     (case os_ReadFile d p of
        NotExist \<Rightarrow> Some NotExist
      | OsError e \<Rightarrow> Some (OsError e)
      | Found t \<Rightarrow>
          (case decTokens tc t of
             Inl e \<Rightarrow> Some (Found (Inl e))
           | Inr ts \<Rightarrow>
               if None \<in> set ts then None
               else Some (Found (Inr (s\<lparr>tsTokens := foldl (\<lambda>m t. m(tkID t \<mapsto> t)) (tsTokens s) (map the ts)\<rparr>)))))"

definition NewTokenStore :: "token_codec \<Rightarrow> fpath option \<Rightarrow> disk \<Rightarrow> token_store go_result option" where
  "NewTokenStore tc f d =
     (let s = \<lparr>tsTokens = Map.empty, tsFile = f\<rparr> in
      case f of
        None \<Rightarrow> Some (Inr s)
      | Some p \<Rightarrow>
          (case token_load tc p d s of
             None \<Rightarrow> None
           | Some NotExist \<Rightarrow> Some (Inr s)
           | Some (OsError e) \<Rightarrow> Some (Inl (''load tokens: '' @ e))
           | Some (Found (Inl e)) \<Rightarrow> Some (Inl (''load tokens: '' @ e))
           | Some (Found (Inr s1)) \<Rightarrow> Some (Inr s1)))"

definition token_save :: "token_codec \<Rightarrow> string list \<Rightarrow> fpath \<Rightarrow> token_store \<Rightarrow> disk \<Rightarrow> disk \<times> string option" where
  "token_save tc ks p s d =
     (case encTokens tc (tokens_in ks s) of
        Inl e \<Rightarrow> (d, Some e)
      | Inr t \<Rightarrow> os_WriteFile p t d)"

text \<open>\<open>hash\<close> is argon2 with its fixed parameters; \<open>plaintext\<close>, \<open>salt\<close> and \<open>i\<close> are what the random
  bytes gave.\<close>

definition GenerateToken ::
  "(string \<Rightarrow> string \<Rightarrow> string) \<Rightarrow> token_codec \<Rightarrow> string list \<Rightarrow> time \<Rightarrow> string \<Rightarrow> string \<Rightarrow> string \<Rightarrow> string \<Rightarrow>
   duration \<Rightarrow> token_store \<Rightarrow> disk \<Rightarrow> token_store \<times> disk \<times> (string \<times> string) go_result" where
  "GenerateToken hash tc ks now plaintext salt i name expiresIn s d =
     (let tok = \<lparr>tkID = i, tkHash = hash plaintext salt, tkSalt = salt, tkName = name, tkCreatedAt = now,
                 tkExpiresAt = (if expiresIn > 0 then Some (now + expiresIn) else None)\<rparr>;
          s1 = s\<lparr>tsTokens := (tsTokens s)(i \<mapsto> tok)\<rparr>
      in case tsFile s1 of
           None \<Rightarrow> (s1, d, Inr (plaintext, i))
         | Some p \<Rightarrow>
             (case token_save tc ks p s1 d of
                (d1, Some e) \<Rightarrow> (s1, d1, Inl (''save tokens: '' @ e))
              | (d1, None) \<Rightarrow> (s1, d1, Inr (plaintext, i))))"

definition token_expired :: "time \<Rightarrow> auth_token \<Rightarrow> bool" where
  "token_expired now t \<longleftrightarrow> (case tkExpiresAt t of None \<Rightarrow> False | Some e \<Rightarrow> e < now)"

definition ValidateToken :: "(string \<Rightarrow> string \<Rightarrow> string) \<Rightarrow> time \<Rightarrow> string list \<Rightarrow> string \<Rightarrow> token_store \<Rightarrow> bool" where
  "ValidateToken hash now ks plaintext s \<longleftrightarrow>
     list_ex (\<lambda>t. \<not> token_expired now t \<and> hash plaintext (tkSalt t) = tkHash t) (tokens_in ks s)"

definition RevokeToken :: "token_codec \<Rightarrow> string list \<Rightarrow> string \<Rightarrow> token_store \<Rightarrow> disk \<Rightarrow> token_store \<times> disk \<times> string option" where
  "RevokeToken tc ks i s d =
     (let s1 = s\<lparr>tsTokens := (tsTokens s)(i := None)\<rparr> in
      case tsFile s1 of
        None \<Rightarrow> (s1, d, None)
      | Some p \<Rightarrow> (case token_save tc ks p s1 d of (d1, e) \<Rightarrow> (s1, d1, e)))"

definition ListTokens :: "time \<Rightarrow> string list \<Rightarrow> token_store \<Rightarrow> token_info list" where
  "ListTokens now ks s =
     map (\<lambda>t. \<lparr>tiID = tkID t, tiName = tkName t, tiCreatedAt = tkCreatedAt t, tiExpiresAt = tkExpiresAt t,
               tiExpired = token_expired now t\<rparr>) (tokens_in ks s)"

definition HasTokens :: "string list \<Rightarrow> token_store \<Rightarrow> bool" where
  "HasTokens ks s \<longleftrightarrow> tokens_in ks s \<noteq> []"

section \<open>The WebSocket server\<close>

definition default_origins :: "string list" where
  "default_origins = [''http://localhost'', ''https://localhost'', ''http://127.0.0.1'', ''https://127.0.0.1'']"

text \<open>The options as \<open>NewWebSocketChannelWithOptions\<close> keeps them; the validator is nil when no token
  was configured at the start.\<close>

record ws_options =
  woOrigins :: "string list"
  woAuthRequired :: bool
  woValidator :: "(string \<Rightarrow> bool) option"

definition NewWebSocketChannelWithOptions :: "ws_options \<Rightarrow> ws_options" where
  "NewWebSocketChannelWithOptions o' =
     (if woOrigins o' = [] then o'\<lparr>woOrigins := default_origins\<rparr> else o')"

text \<open>\<open>parse\<close> gives the scheme and the host of a URL, or nothing for an invalid one.\<close>

definition checkOrigin :: "(string \<Rightarrow> (string \<times> string) option) \<Rightarrow> string \<Rightarrow> ws_options \<Rightarrow> bool" where
  "checkOrigin parse origin w =
     (if origin = '''' then True
      else (case parse origin of
              None \<Rightarrow> False
            | Some (scheme, host) \<Rightarrow>
                (let originKey = scheme @ ''://'' @ host in
                 originKey \<in> set (woOrigins w) \<or> list_ex (has_prefix originKey) (woOrigins w))))"

definition extractToken :: "string \<Rightarrow> string \<Rightarrow> string" where
  "extractToken query header =
     (if query \<noteq> '''' then query
      else if header = '''' then ''''
      else if has_prefix header ''Bearer '' then trim_prefix header ''Bearer ''
      else header)"

text \<open>A request to connect, and the client it becomes or the error it is answered with.\<close>

record ws_request =
  wqToken :: string
  wqAuthorization :: string
  wqOrigin :: string
  wqSession :: string
  wqUserID :: string

definition handleWebSocket ::
  "(string \<Rightarrow> (string \<times> string) option) \<Rightarrow> string \<Rightarrow> string \<Rightarrow> ws_request \<Rightarrow> ws_options \<Rightarrow> ws_client go_result" where
  "handleWebSocket parse sessionUuid clientUuid r w =
     (let tok = extractToken (wqToken r) (wqAuthorization r) in
      if woAuthRequired w \<and> tok = '''' then Inl ''Unauthorized: token required''
      else if woAuthRequired w \<and> (case woValidator w of None \<Rightarrow> True | Some v \<Rightarrow> \<not> v tok)
        then Inl ''Unauthorized: invalid token''
      else if \<not> checkOrigin parse (wqOrigin r) w then Inl ''upgrade refused''
      else Inr \<lparr>wcID = clientUuid, wcUserID = wqUserID r,
                wcSessionID = (if wqSession r = '''' then sessionUuid else wqSession r)\<rparr>)"

text \<open>How the server sets up the options, from what opening the token store gave.\<close>

definition ws_auth_setup ::
  "(string \<Rightarrow> string \<Rightarrow> string) \<Rightarrow> time \<Rightarrow> string list \<Rightarrow> bool \<Rightarrow> string list \<Rightarrow> token_store go_result \<Rightarrow> ws_options" where
  "ws_auth_setup hash now ks enabled origins st =
     (let o0 = \<lparr>woOrigins = origins, woAuthRequired = enabled, woValidator = None\<rparr> in
      if \<not> enabled then o0
      else (case st of
              Inl _ \<Rightarrow> o0\<lparr>woAuthRequired := False\<rparr>
            | Inr s \<Rightarrow> if \<not> HasTokens ks s then o0
                       else o0\<lparr>woValidator := Some (\<lambda>p. ValidateToken hash now ks p s)\<rparr>))"

section \<open>The peer-to-peer host\<close>

record auth_result =
  arSessionID :: string
  arUserID :: string

definition generateSessionID :: "string \<Rightarrow> string" where
  "generateSessionID peer = take 16 peer"

definition generateUserID :: "string \<Rightarrow> string" where
  "generateUserID uuid = ''p2p-'' @ take 8 uuid"

text \<open>The authenticator holds the token store, if it could be opened; \<open>hs\<close> is what reading the
  handshake gives and \<open>w\<close> the error of writing the answer.\<close>

definition AuthenticateStream ::
  "(string \<Rightarrow> string \<Rightarrow> string) \<Rightarrow> time \<Rightarrow> string list \<Rightarrow> bool \<Rightarrow> token_store option \<Rightarrow> string \<Rightarrow> string \<Rightarrow>
   string go_result \<Rightarrow> string option \<Rightarrow> auth_result option go_result" where
  "AuthenticateStream hash now ks authRequired st peer uuid hs w =
     (case (authRequired, st) of
        (True, Some s) \<Rightarrow>
          if \<not> HasTokens ks s then Inr None
          else (case hs of
                  Inl e \<Rightarrow> Inl (''read auth handshake: '' @ e)
                | Inr tok \<Rightarrow>
                    if \<not> ValidateToken hash now ks tok s then Inl ''invalid authentication token''
                    else (case w of
                            Some e \<Rightarrow> Inl (''write auth response: '' @ e)
                          | None \<Rightarrow> Inr (Some \<lparr>arSessionID = generateSessionID peer, arUserID = generateUserID uuid\<rparr>)))
      | _ \<Rightarrow> Inr None)"

definition IsAuthRequired :: "string list \<Rightarrow> bool \<Rightarrow> token_store option \<Rightarrow> bool" where
  "IsAuthRequired ks authRequired st \<longleftrightarrow>
     authRequired \<and> (case st of None \<Rightarrow> False | Some s \<Rightarrow> HasTokens ks s)"

text \<open>The client of a stream and whether it is authenticated.\<close>

definition p2p_handleStream :: "string \<Rightarrow> string \<Rightarrow> auth_result option go_result \<Rightarrow> (ws_client \<times> bool) go_result" where
  "p2p_handleStream clientUuid peer res =
     (case res of
        Inl e \<Rightarrow> Inl e
      | Inr None \<Rightarrow> Inr (\<lparr>wcID = clientUuid, wcUserID = take 16 peer, wcSessionID = take 16 peer\<rparr>, False)
      | Inr (Some a) \<Rightarrow> Inr (\<lparr>wcID = clientUuid, wcUserID = arUserID a, wcSessionID = arSessionID a\<rparr>, True))"

text \<open>The list of peers.\<close>

fun NewPeerAllowlistGater :: "(string \<Rightarrow> 'p go_result) \<Rightarrow> string list \<Rightarrow> 'p set go_result" where
  "NewPeerAllowlistGater decode [] = Inr {}"
| "NewPeerAllowlistGater decode (i # is) =
     (case decode i of
        Inl e \<Rightarrow> Inl (''invalid peer ID '' @ quote i @ '': '' @ e)
      | Inr p \<Rightarrow> (case NewPeerAllowlistGater decode is of Inl e \<Rightarrow> Inl e | Inr ps \<Rightarrow> Inr (insert p ps)))"

definition peer_IsAllowed :: "'p \<Rightarrow> 'p set \<Rightarrow> bool" where
  "peer_IsAllowed p g \<longleftrightarrow> g = {} \<or> p \<in> g"

definition AddPeer :: "'p \<Rightarrow> 'p set \<Rightarrow> 'p set" where
  "AddPeer p g = insert p g"

definition RemovePeer :: "'p \<Rightarrow> 'p set \<Rightarrow> 'p set" where
  "RemovePeer p g = g - {p}"


section \<open>A small configuration\<close>

text \<open>A codec for tokens without salt that never expire, and a hash, to run the model on.\<close>

definition demo_hash :: "string \<Rightarrow> string \<Rightarrow> string" where
  "demo_hash p salt = ''h'' @ p"

definition demo_token :: "string \<Rightarrow> string \<Rightarrow> auth_token" where
  "demo_token i p = \<lparr>tkID = i, tkHash = demo_hash p '''', tkSalt = '''', tkName = '''', tkCreatedAt = 0, tkExpiresAt = None\<rparr>"

definition demo_token_codec :: token_codec where
  "demo_token_codec = \<lparr>encTokens = (\<lambda>ts. Inr (concat (map (\<lambda>t. tkID t @ '':'' @ tl (tkHash t) @ ''/'') ts))),
     decTokens = (\<lambda>s. if s = ''?'' then Inl ''invalid character''
        else Inr (map (\<lambda>l. case split_on (CHR '':'') l of
             [i, p] \<Rightarrow> Some (demo_token i p) | _ \<Rightarrow> None) (butlast (split_on (CHR ''/'') s))))\<rparr>"

definition demo_request :: "string \<Rightarrow> ws_request" where
  "demo_request tok = \<lparr>wqToken = tok, wqAuthorization = '''', wqOrigin = '''', wqSession = '''', wqUserID = ''''\<rparr>"

definition demo_root :: disk where
  "demo_root = (\<lambda>p. if p = [] then Some Dir else if p = [''t''] then Some (File ''i:p/'') else None)"

section \<open>A token lives until it is revoked\<close>

definition keyed_tokens :: "token_store \<Rightarrow> bool" where
  "keyed_tokens s \<longleftrightarrow> (\<forall>i t. tsTokens s i = Some t \<longrightarrow> tkID t = i)"

definition tokens_read_back :: "token_codec \<Rightarrow> auth_token list \<Rightarrow> bool" where
  "tokens_read_back tc ts \<longleftrightarrow>
     (case encTokens tc ts of Inl _ \<Rightarrow> False | Inr t \<Rightarrow> decTokens tc t = Inr (map Some ts))"

lemma tokens_in_set: "enumerates ks (tsTokens s) \<Longrightarrow> t \<in> set (tokens_in ks s) \<longleftrightarrow> (\<exists>i. tsTokens s i = Some t)"
  by (force simp: tokens_in_def map_filter_def dest: enumerates_set)

lemma ValidateToken_iff:
  "enumerates ks (tsTokens s) \<Longrightarrow> ValidateToken hash now ks p s \<longleftrightarrow>
     (\<exists>i t. tsTokens s i = Some t \<and> \<not> token_expired now t \<and> hash p (tkSalt t) = tkHash t)"
  by (simp add: ValidateToken_def list_ex_iff Bex_def tokens_in_set) blast

lemma HasTokens_iff: "enumerates ks (tsTokens s) \<Longrightarrow> HasTokens ks s \<longleftrightarrow> tsTokens s \<noteq> Map.empty"
  using tokens_in_set [of ks s] by (auto simp: HasTokens_def fun_eq_iff) (metis list.set_intros(1) neq_Nil_conv)

lemma token_save_load:
  assumes "token_save tc ks p s d = (d1, None)" and "enumerates ks (tsTokens s)" and "keyed_tokens s"
    and "tokens_read_back tc (tokens_in ks s)"
  shows "NewTokenStore tc (Some p) d1 = Some (Inr \<lparr>tsTokens = tsTokens s, tsFile = Some p\<rparr>)"
proof -
  obtain t where t: "encTokens tc (tokens_in ks s) = Inr t" "decTokens tc t = Inr (map Some (tokens_in ks s))"
    using assms(4) by (auto simp: tokens_read_back_def split: sum.splits)
  have "d1 p = Some (File t)"
    using assms(1) t(1) by (auto simp: token_save_def os_WriteFile_def abs_write_def split: option.splits if_splits)
  moreover have "foldl (\<lambda>m t. m(tkID t \<mapsto> t)) Map.empty (tokens_in ks s) = tsTokens s"
    unfolding tokens_in_def using assms(3) enumerates_set [OF assms(2)]
    by (subst foldl_keyed [where key = tkID]) (auto simp: keyed_tokens_def fun_eq_iff)
  ultimately show ?thesis using t(2) by (auto simp: NewTokenStore_def token_load_def os_ReadFile_def comp_def)
qed

text \<open>A generated token is accepted by every later process that opens the file, until it expires
  or is revoked; after that it is refused, unless another token happens to have its hash.\<close>

theorem token_lifecycle:
  assumes "GenerateToken hash tc ks now p salt i name ex s d = (s1, d1, Inr (q, j))" and "tsFile s = Some f"
    and "keyed_tokens s" and "enumerates ks (tsTokens s1)" and "tokens_read_back tc (tokens_in ks s1)"
    and "enumerates ks' (tsTokens s3)" and "tokens_read_back tc (tokens_in ks' s3)"
    and "NewTokenStore tc (Some f) d1 = Some (Inr s2)" and "RevokeToken tc ks' j s2 d1 = (s3, d3, None)"
    and "\<And>k t. tsTokens s k = Some t \<Longrightarrow> hash p (tkSalt t) \<noteq> tkHash t"
  shows "q = p \<and> ValidateToken hash later ks p s2 = (ex \<le> 0 \<or> later \<le> now + ex) \<and>
    (\<exists>s4. NewTokenStore tc (Some f) d3 = Some (Inr s4) \<and> \<not> ValidateToken hash later ks' p s4)"
proof -
  let ?t = "\<lparr>tkID = i, tkHash = hash p salt, tkSalt = salt, tkName = name, tkCreatedAt = now,
             tkExpiresAt = (if ex > 0 then Some (now + ex) else None)\<rparr>"
  from assms(1,2) have g: "s1 = s\<lparr>tsTokens := (tsTokens s)(i \<mapsto> ?t)\<rparr>" "token_save tc ks f s1 d = (d1, None)" "q = p" "j = i"
    by (auto simp: GenerateToken_def Let_def split: prod.splits option.splits)
  have k1: "keyed_tokens s1" using assms(3) g(1) by (auto simp: keyed_tokens_def)
  have s2: "s2 = \<lparr>tsTokens = tsTokens s1, tsFile = Some f\<rparr>"
    using token_save_load [OF g(2) assms(4) k1 assms(5)] assms(8) by simp
  have s3: "s3 = s2\<lparr>tsTokens := (tsTokens s2)(i := None)\<rparr>" "token_save tc ks' f s3 d1 = (d3, None)"
    using assms(9) g(4) s2 by (auto simp: RevokeToken_def Let_def split: prod.splits)
  have "keyed_tokens s3" using k1 s2 s3(1) by (auto simp: keyed_tokens_def)
  note r = token_save_load [OF s3(2) assms(6) this assms(7)]
  have "ValidateToken hash later ks p s2 = (ex \<le> 0 \<or> later \<le> now + ex)"
    using assms(4,10) s2 g(1) by (subst ValidateToken_iff) (auto simp: token_expired_def split: if_splits)
  moreover have "\<not> ValidateToken hash later ks' p \<lparr>tsTokens = tsTokens s3, tsFile = Some f\<rparr>"
    using assms(6,10) s2 s3(1) g(1) by (subst ValidateToken_iff) (auto split: if_splits)
  ultimately show ?thesis using r g(3) by blast
qed

lemma keyed_foldl:
  "\<forall>i t. m i = Some t \<longrightarrow> tkID t = i \<Longrightarrow> foldl (\<lambda>m t. m(tkID t \<mapsto> t)) m ts i = Some t \<Longrightarrow> tkID t = i"
proof (induction ts arbitrary: m)
  case (Cons a ts)
  show ?case by (rule Cons.IH [of "m(tkID a \<mapsto> a)"]) (use Cons.prems in auto)
qed simp

lemma NewTokenStore_keyed:
  "NewTokenStore tc (Some f) d = Some (Inr s) \<Longrightarrow> keyed_tokens s \<and> tsFile s = Some f"
  by (auto simp: NewTokenStore_def token_load_def keyed_tokens_def Let_def
      split: os_result.splits sum.splits if_splits option.splits dest!: keyed_foldl [rotated])

section \<open>Who gets in\<close>

text \<open>While tokens are required and exist, a peer gets a stream only with a valid token.\<close>

lemma peer_needs_token:
  assumes "IsAuthRequired ks req st"
    and "p2p_handleStream cu peer (AuthenticateStream hash now ks req st peer uuid hs w) = Inr (c, a)"
  shows "a \<and> (\<exists>s tok. st = Some s \<and> hs = Inr tok \<and> ValidateToken hash now ks tok s)"
  using assms by (auto simp: IsAuthRequired_def AuthenticateStream_def p2p_handleStream_def split: option.splits sum.splits if_splits)

lemma websocket_needs_token:
  assumes "handleWebSocket parse su cu r (ws_auth_setup hash now ks True origins (Inr s)) = Inr c"
  shows "ValidateToken hash now ks (extractToken (wqToken r) (wqAuthorization r)) s"
  using assms by (auto simp: handleWebSocket_def ws_auth_setup_def Let_def split: if_splits option.splits)

text \<open>An origin that extends an allowed one is allowed, whatever host that makes it.\<close>

lemma origin_extends:
  "scheme @ ''://'' @ host \<in> set (woOrigins w) \<Longrightarrow> parse origin = Some (scheme, host @ x) \<Longrightarrow> checkOrigin parse origin w"
proof -
  let ?o = "scheme @ ''://'' @ host"
  assume o: "?o \<in> set (woOrigins w)" and p: "parse origin = Some (scheme, host @ x)"
  have "has_prefix (a @ x) a" for a unfolding has_prefix_def by simp
  then have "list_ex (has_prefix (?o @ x)) (woOrigins w)" using o unfolding list_ex_iff by blast
  then show ?thesis using p by (simp add: checkOrigin_def Let_def)
qed

text \<open>When the file of the tokens cannot be decoded, the servers open instead of closing: the
  WebSocket server accepts every request without a foreign origin, the peer-to-peer host every
  peer, and the peer's messages count as those of an authorized sender.  The same holds for
  peers once the last token is revoked.\<close>

theorem auth_fails_open:
  assumes "d f = Some (File t)" and "decTokens tc t = Inl e" and "wqOrigin r = ''''"
    and "enumerates ks (tsTokens s)" and "tsTokens s = [i \<mapsto> tok]" and "enumerates ks' (tsTokens s')"
    and "RevokeToken tc ks' i s d = (s', d', err)" and "st = None \<or> st = Some s'"
  shows "(\<exists>c. NewTokenStore tc (Some f) d = Some (Inl (''load tokens: '' @ e)) \<and>
      handleWebSocket parse su cu r (ws_auth_setup hash now ks True origins (Inl (''load tokens: '' @ e))) = Inr c) \<and>
    (\<exists>c. p2p_handleStream cu peer (AuthenticateStream hash now ks' True st peer uuid hs w) = Inr (c, False) \<and>
      (let (_, _, m) = p2p_receive (IsAuthRequired ks' True st) False dir uuids pb c d
       in ClassifyWithAllowlist (cmSenderPhone m) (cmSenderTelegramID m) cfg (cmIsInAllowlist m) \<noteq> TrustTierThirdParty))"
proof -
  have "tsTokens s' = Map.empty" using assms(5,7) by (auto simp: RevokeToken_def Let_def split: prod.splits option.splits)
  then have n: "\<not> HasTokens ks' s'" using HasTokens_iff [OF assms(6)] by simp
  have "NewTokenStore tc (Some f) d = Some (Inl (''load tokens: '' @ e))"
    using assms(1,2) by (simp add: NewTokenStore_def token_load_def os_ReadFile_def)
  moreover have "\<exists>c. handleWebSocket parse su cu r (ws_auth_setup hash now ks True origins (Inl (''load tokens: '' @ e))) = Inr c"
    using assms(3) by (simp add: handleWebSocket_def ws_auth_setup_def checkOrigin_def Let_def)
  moreover have "\<exists>c. p2p_handleStream cu peer (AuthenticateStream hash now ks' True st peer uuid hs w) = Inr (c, False)"
    using assms(8) n by (auto simp: p2p_handleStream_def AuthenticateStream_def)
  moreover have "\<not> IsAuthRequired ks' True st" using assms(8) n by (auto simp: IsAuthRequired_def)
  ultimately show ?thesis
    by (auto simp: p2p_receive_def Let_def third_party_iff split: prod.splits)
qed


text \<open>The server opens the file of the tokens three times, for the WebSocket server, the
  peer-to-peer host and the dashboard.  A token revoked on the dashboard is still accepted by the
  running WebSocket server, and the next token a peer generates writes it back to the file.\<close>

theorem revoked_token_accepted:
  assumes "NewTokenStore tc (Some f) d = Some (Inr s)" and "enumerates ks (tsTokens s)"
    and "tsTokens s i = Some t" and "hash p (tkSalt t) = tkHash t" and "\<not> token_expired now t"
    and "RevokeToken tc ks' i s d = (sd, d1, None)"
    and "GenerateToken hash tc ks2 now p2 salt2 j name ex s d1 = (sp, d2, Inr r)" and "j \<noteq> i"
    and "enumerates ks2 (tsTokens sp)" and "tokens_read_back tc (tokens_in ks2 sp)"
    and "extractToken (wqToken q) (wqAuthorization q) = p" and "p \<noteq> ''''" and "wqOrigin q = ''''"
  shows "(\<exists>c. handleWebSocket parse su cu q (ws_auth_setup hash now ks True origins (Inr s)) = Inr c) \<and>
    (\<exists>s'. NewTokenStore tc (Some f) d2 = Some (Inr s') \<and> ValidateToken hash now ks2 p s')"
proof -
  note k = NewTokenStore_keyed [OF assms(1)]
  have v: "ValidateToken hash now ks p s" using assms(2-5) by (auto simp: ValidateToken_iff)
  have "HasTokens ks s" using assms(2,3) by (auto simp: HasTokens_iff)
  then have "\<exists>c. handleWebSocket parse su cu q (ws_auth_setup hash now ks True origins (Inr s)) = Inr c"
    using v assms(11-13) by (simp add: handleWebSocket_def ws_auth_setup_def checkOrigin_def Let_def)
  moreover have g: "token_save tc ks2 f sp d1 = (d2, None)" "tsTokens sp i = Some t" "keyed_tokens sp"
    using assms(3,7,8) k by (auto simp: GenerateToken_def Let_def keyed_tokens_def split: prod.splits option.splits if_splits)
  moreover have "ValidateToken hash now ks2 p \<lparr>tsTokens = tsTokens sp, tsFile = Some f\<rparr>"
    using assms(4,5,9) g(2) by (subst ValidateToken_iff) auto
  ultimately show ?thesis using token_save_load [OF g(1) assms(9) g(3) assms(10)] by blast
qed


lemma demo_request_origin: "wqOrigin (demo_request t) = ''''"
  by (simp add: demo_request_def)

lemma demo_enumerates [simp]:
  "enumerates [] (m :: string \<rightharpoonup> auth_token) \<longleftrightarrow> m = Map.empty"
  "enumerates [''i''] [''i'' \<mapsto> t]" "enumerates [''i'', ''j''] [''i'' \<mapsto> t, ''j'' \<mapsto> u]"
  by (auto simp: enumerates_def)

theorem token_lifecycle_witness:
  "\<exists>s4. ValidateToken demo_hash 7 [''i''] ''p'' \<lparr>tsTokens = [''i'' \<mapsto> demo_token ''i'' ''p''], tsFile = Some [''t'']\<rparr> \<and>
     NewTokenStore demo_token_codec (Some [''t'']) (demo_root([''t''] \<mapsto> File '''')) = Some (Inr s4) \<and>
     \<not> ValidateToken demo_hash 7 [] ''p'' s4"
proof -
  let ?s = "\<lparr>tsTokens = Map.empty, tsFile = Some [''t'']\<rparr>"
  let ?s1 = "\<lparr>tsTokens = [''i'' \<mapsto> demo_token ''i'' ''p''], tsFile = Some [''t'']\<rparr>"
  have 1: "GenerateToken demo_hash demo_token_codec [''i''] 0 ''p'' '''' ''i'' '''' 0 ?s demo_root =
      (?s1, demo_root([''t''] \<mapsto> File ''i:p/''), Inr (''p'', ''i''))"
    by (simp add: GenerateToken_def token_save_def tokens_in_def map_filter_def demo_token_codec_def demo_token_def
        demo_hash_def os_WriteFile_def abs_write_def demo_root_def)
  have 2: "NewTokenStore demo_token_codec (Some [''t'']) (demo_root([''t''] \<mapsto> File ''i:p/'')) = Some (Inr ?s1)"
    by (simp add: NewTokenStore_def token_load_def os_ReadFile_def demo_token_codec_def demo_token_def)
  have 3: "RevokeToken demo_token_codec [] ''i'' ?s1 (demo_root([''t''] \<mapsto> File ''i:p/'')) =
      (?s, demo_root([''t''] \<mapsto> File ''''), None)"
    by (simp add: RevokeToken_def token_save_def tokens_in_def map_filter_def demo_token_codec_def
        os_WriteFile_def abs_write_def demo_root_def)
  have r: "tokens_read_back demo_token_codec (tokens_in [''i''] ?s1)" "tokens_read_back demo_token_codec (tokens_in [] ?s)"
    by (simp_all add: tokens_read_back_def tokens_in_def map_filter_def demo_token_codec_def demo_token_def demo_hash_def)
  from token_lifecycle [OF 1 _ _ _ r(1) _ r(2) 2 3, of 7] show ?thesis
    by (simp add: keyed_tokens_def)
qed

theorem auth_fails_open_witness:
  "\<exists>c. handleWebSocket (\<lambda>_. None) ''1'' ''2'' (demo_request '''')
     (ws_auth_setup demo_hash 0 [''i''] True [] (Inl (''load tokens: invalid character''))) = Inr c"
proof -
  let ?d = "demo_root([''t''] \<mapsto> File ''?'')"
  let ?s = "\<lparr>tsTokens = [''i'' \<mapsto> demo_token ''i'' ''p''], tsFile = None\<rparr>"
  have 1: "?d [''t''] = Some (File ''?'')" "decTokens demo_token_codec ''?'' = Inl ''invalid character''"
    by (simp_all add: demo_token_codec_def)
  have 2: "RevokeToken demo_token_codec [] ''i'' ?s ?d = (\<lparr>tsTokens = Map.empty, tsFile = None\<rparr>, ?d, None)"
    by (simp add: RevokeToken_def)
  from auth_fails_open [OF 1 _ _ _ _ 2, of "demo_request ''''" "[''i'']" "demo_token ''i'' ''p''" None
      "\<lambda>_. None" "''1''" "''2''" demo_hash 0 "[]"]
  show ?thesis by (auto simp: demo_request_origin)
qed

theorem revoked_token_accepted_witness:
  "(\<exists>c. handleWebSocket (\<lambda>_. None) ''1'' ''2'' (demo_request ''p'') (ws_auth_setup demo_hash 0 [''i''] True []
      (Inr \<lparr>tsTokens = [''i'' \<mapsto> demo_token ''i'' ''p''], tsFile = Some [''t'']\<rparr>)) = Inr c) \<and>
   (\<exists>s'. NewTokenStore demo_token_codec (Some [''t'']) (demo_root([''t''] \<mapsto> File ''i:p/j:q/'')) = Some (Inr s') \<and>
      ValidateToken demo_hash 0 [''i'', ''j''] ''p'' s')"
proof -
  let ?s = "\<lparr>tsTokens = [''i'' \<mapsto> demo_token ''i'' ''p''], tsFile = Some [''t'']\<rparr>"
  let ?sp = "\<lparr>tsTokens = [''i'' \<mapsto> demo_token ''i'' ''p'', ''j'' \<mapsto> demo_token ''j'' ''q''], tsFile = Some [''t'']\<rparr>"
  have 1: "NewTokenStore demo_token_codec (Some [''t'']) demo_root = Some (Inr ?s)"
    by (simp add: NewTokenStore_def token_load_def os_ReadFile_def demo_token_codec_def demo_token_def demo_root_def)
  have 2: "RevokeToken demo_token_codec [] ''i'' ?s demo_root =
      (\<lparr>tsTokens = Map.empty, tsFile = Some [''t'']\<rparr>, demo_root([''t''] \<mapsto> File ''''), None)"
    by (simp add: RevokeToken_def token_save_def tokens_in_def map_filter_def demo_token_codec_def
        os_WriteFile_def abs_write_def demo_root_def)
  have 3: "GenerateToken demo_hash demo_token_codec [''i'', ''j''] 0 ''q'' '''' ''j'' '''' 0 ?s (demo_root([''t''] \<mapsto> File '''')) =
      (?sp, demo_root([''t''] \<mapsto> File ''i:p/j:q/''), Inr (''q'', ''j''))"
    by (simp add: GenerateToken_def token_save_def tokens_in_def map_filter_def demo_token_codec_def demo_token_def
        demo_hash_def os_WriteFile_def abs_write_def demo_root_def)
  have r: "tokens_read_back demo_token_codec (tokens_in [''i'', ''j''] ?sp)"
    by (simp add: tokens_read_back_def tokens_in_def map_filter_def demo_token_codec_def demo_token_def demo_hash_def)
  have t: "demo_hash ''p'' (tkSalt (demo_token ''i'' ''p'')) = tkHash (demo_token ''i'' ''p'')" "\<not> token_expired 0 (demo_token ''i'' ''p'')"
    by (simp_all add: demo_hash_def demo_token_def token_expired_def)
  from revoked_token_accepted [OF 1 _ _ t 2 3 _ _ r, of "[''i'']" "demo_request ''p''"] show ?thesis
    by (simp add: demo_request_def extractToken_def)
qed

end
