(* ===== verification/LocalAgent.thy ===== *)
theory LocalAgent
  imports ThirdParty GoJson
begin

text \<open>
  The agent for messages of unknown senders, \<open>internal/agent/local_agent.go\<close>: it answers with a
  local model, keeps a bounded history for each session, and can relay a message to the owner by
  a tool call or, for models without tools, by a text the model writes.  The answers of the model's
  server are a parameter, and so is the long default prompt.
\<close>

section \<open>The messages of the chat interface\<close>

text \<open>The arguments of a tool call are kept as raw JSON, \<open>None\<close> when they are absent.\<close>

record ollama_message =
  omRole :: string
  omContent :: string
  omToolCalls :: "(string \<times> json option) list"

record relay_args =
  raMessage :: string
  raUrgency :: string

definition ollama_text :: "string \<Rightarrow> string \<Rightarrow> ollama_message" where
  "ollama_text r c = \<lparr>omRole = r, omContent = c, omToolCalls = []\<rparr>"

section \<open>Finding a relay call\<close>

definition decode_relay_args :: "json option \<Rightarrow> relay_args option" where
  "decode_relay_args a =
     (case a of
        None \<Rightarrow> None
      | Some v \<Rightarrow>
          (let (m, e1) = string_field ''message'' v; (u, e2) = string_field ''urgency'' v
           in if is_struct_source v \<and> \<not> e1 \<and> \<not> e2 then Some \<lparr>raMessage = m, raUrgency = u\<rparr> else None))"

fun parseNativeToolCall :: "(string \<times> json option) list \<Rightarrow> relay_args option" where
  "parseNativeToolCall [] = None"
| "parseNativeToolCall ((n, a) # tcs) =
     (if n = ''relay_message'' then
        (case decode_relay_args a of Some r \<Rightarrow> Some r | None \<Rightarrow> parseNativeToolCall tcs)
      else parseNativeToolCall tcs)"

definition promptFuncRegex :: rx where
  "promptFuncRegex = seq_all [Lit ''[relay_message('', Group (Plus (\<lambda>c. c \<noteq> CHR '')'')), Lit '')]'']"

definition rx_quote :: "char \<Rightarrow> bool" where
  "rx_quote c \<longleftrightarrow> (of_char c :: nat) \<in> {34, 39}"

definition argRegex :: rx where
  "argRegex = seq_all [Group (Plus rx_word), Lit ''='', Cls rx_quote, Group (Plus (\<lambda>c. \<not> rx_quote c)), Cls rx_quote]"

definition set_relay_arg :: "relay_args \<Rightarrow> string \<times> string list \<Rightarrow> relay_args" where
  "set_relay_arg a m =
     (case m of
        (_, [k, v]) \<Rightarrow> if k = ''message'' then a\<lparr>raMessage := v\<rparr>
                      else if k = ''urgency'' then a\<lparr>raUrgency := v\<rparr> else a
      | _ \<Rightarrow> a)"

definition parsePromptBasedCall :: "string \<Rightarrow> relay_args option" where
  "parsePromptBasedCall content =
     (case find_sub promptFuncRegex content of
        Some (_, g # _) \<Rightarrow>
          (let a = foldl set_relay_arg \<lparr>raMessage = '''', raUrgency = ''normal''\<rparr> (find_all argRegex 0 g)
           in if raMessage a = '''' then None else Some a)
      | _ \<Rightarrow> None)"

section \<open>The agent\<close>

text \<open>The sessions keep at most \<open>laMaxMsgs\<close> messages each; a session that is not in the map reads as
  the empty history.  The store, the notifier and the relay requests are pointers that may be nil.\<close>

record local_agent =
  laModel :: string
  laSystemPrompt :: string
  laSessions :: "string \<Rightarrow> ollama_message list"
  laMaxMsgs :: nat
  laStore :: "tp_store option"
  laNotifier :: "notifier option"
  laRelayStore :: "relay_store option"
  laToolCapChecked :: bool
  laSupportsNativeTools :: bool

definition newLocalSessionStore :: "int \<Rightarrow> nat" where
  "newLocalSessionStore maxMsgs = nat (if maxMsgs \<le> 0 then 20 else maxMsgs)"

definition NewLocalAgent :: "string \<Rightarrow> third_party_config option \<Rightarrow> local_agent" where
  "NewLocalAgent defaultPrompt cfg =
     \<lparr>laModel = (case cfg of None \<Rightarrow> ''llama3.2:3b''
        | Some c \<Rightarrow> if tpLocalLLMModel c \<noteq> '''' then tpLocalLLMModel c else ''llama3.2:3b''),
      laSystemPrompt = (case cfg of None \<Rightarrow> defaultPrompt
        | Some c \<Rightarrow> if tpSystemPrompt c \<noteq> '''' then tpSystemPrompt c else defaultPrompt),
      laSessions = (\<lambda>_. []), laMaxMsgs = newLocalSessionStore 20, laStore = None, laNotifier = None,
      laRelayStore = None, laToolCapChecked = False, laSupportsNativeTools = False\<rparr>"

definition trim_history :: "nat \<Rightarrow> ollama_message list \<Rightarrow> ollama_message list" where
  "trim_history k ms =
     (if length ms \<le> k then ms
      else if omRole (hd ms) = ''system'' then hd ms # drop (length ms - (k - 1)) ms
      else drop (length ms - k) ms)"

definition addMessage :: "string \<Rightarrow> ollama_message \<Rightarrow> local_agent \<Rightarrow> local_agent" where
  "addMessage sid m a =
     a\<lparr>laSessions := (laSessions a)(sid := trim_history (laMaxMsgs a) (laSessions a sid @ [m]))\<rparr>"

definition getHistory :: "string \<Rightarrow> local_agent \<Rightarrow> ollama_message list" where
  "getHistory sid a = laSessions a sid"

definition clearSession :: "string \<Rightarrow> local_agent \<Rightarrow> local_agent" where
  "clearSession sid a = a\<lparr>laSessions := (laSessions a)(sid := [])\<rparr>"

definition markToolSupport :: "bool \<Rightarrow> local_agent \<Rightarrow> local_agent" where
  "markToolSupport b a = a\<lparr>laToolCapChecked := True, laSupportsNativeTools := b\<rparr>"

definition PromptBasedFunctionInstructions :: string where
  "PromptBasedFunctionInstructions =
     ''AVAILABLE FUNCTIONS:'' @ newline @
     ''You have access to a relay function. When you decide to use it, output ONLY the function call in this exact format on its own line - no other text before or after:'' @ newline @ newline @
     ''[relay_message(message=\"<the message>\", urgency=\"<low|normal|high>\")]'' @ newline @ newline @
     ''Use relay_message when the visitor explicitly asks you to pass a message, notify, inform, or contact the Prime Operator.'' @ newline @ newline @
     ''Example: User says \"Tell the Prime Operator I need help with order #123\"'' @ newline @
     ''Your response should be ONLY: [relay_message(message=\"Visitor needs help with order #123\", urgency=\"normal\")]'' @ newline @ newline @
     ''After outputting the function call, do NOT add any additional text. The system will handle the response.'' @ newline @ newline @
     ''---'' @ newline @ newline"

definition buildSystemPrompt :: "local_agent \<Rightarrow> string" where
  "buildSystemPrompt a =
     (if laToolCapChecked a \<and> \<not> laSupportsNativeTools a then PromptBasedFunctionInstructions @ laSystemPrompt a
      else laSystemPrompt a)"

section \<open>Relaying a message\<close>

definition alarm_emoji :: string where
  "alarm_emoji = map char_of [240 :: nat, 159, 154, 168]"

definition agent_relay_notice :: "relay_args \<Rightarrow> relay_request \<Rightarrow> string" where
  "agent_relay_notice args r =
     (if raUrgency args = ''high'' then alarm_emoji else mailbox_emoji) @ '' *Relay from third-party*'' @
     newline @ newline @ ''*From:* '' @ sender_info r @ newline @ ''*Channel:* '' @ rrChannel r @ newline @
     ''*Message:* '' @ raMessage args @ newline @ newline @ ''_Relay ID: '' @ rrID r @ ''_''"

text \<open>The agent, the disk, what was sent to the owner, and the answer.\<close>

definition executeRelay ::
  "relay_codec \<Rightarrow> string list \<Rightarrow> time \<Rightarrow> string \<Rightarrow> channel_message \<Rightarrow> relay_args \<Rightarrow> local_agent \<Rightarrow> disk \<Rightarrow>
   local_agent \<times> disk \<times> (int \<times> string) list \<times> bool" where
  "executeRelay rc ks now uuid msg args a d =
     (let req = \<lparr>rrID = uuid, rrSessionID = cmSessionID msg, rrSenderPhone = cmSenderPhone msg,
                 rrSenderName = push_name msg, rrMessage = raMessage args, rrOriginalText = cmContent msg,
                 rrCreatedAt = now, rrChannel = cmChannel msg, rrStatus = ''pending''\<rparr>;
          (a1, d1) = (case laRelayStore a of
              None \<Rightarrow> (a, d)
            | Some rs \<Rightarrow> (let (rs1, d1) = relay_Add rc ks req rs d in (a\<lparr>laRelayStore := Some rs1\<rparr>, d1)))
      in case laNotifier a1 of
           None \<Rightarrow> (a1, d1, [], True)
         | Some n \<Rightarrow>
             (case NotifyOwner (agent_relay_notice args req) n of
                (Some _, sent) \<Rightarrow> (a1, d1, sent, False)
              | (None, sent) \<Rightarrow> (a1, d1, sent, True)))"

section \<open>One message\<close>

text \<open>\<open>chat\<close> is the server's answer to a history, with or without tools.\<close>

type_synonym chat_server = "ollama_message list \<Rightarrow> bool \<Rightarrow> ollama_message go_result"

definition restore_history :: "string \<Rightarrow> ollama_message list \<Rightarrow> local_agent \<Rightarrow> local_agent" where
  "restore_history sid h a = foldl (\<lambda>a m. addMessage sid m a) (clearSession sid a) h"

text \<open>The adaptive choice between tools and the prompt.\<close>

definition adaptive_chat ::
  "chat_server \<Rightarrow> string \<Rightarrow> ollama_message list \<Rightarrow> local_agent \<Rightarrow> local_agent \<times> ollama_message go_result" where
  "adaptive_chat chat sid history a =
     (if \<not> laToolCapChecked a \<or> laSupportsNativeTools a then
        (case chat history True of
           Inl e \<Rightarrow>
             if contains_str e ''does not support tools'' then
               (let a1 = markToolSupport False a in
                if omRole (hd history) = ''system'' then
                  (let h = (hd history)\<lparr>omContent := buildSystemPrompt a1\<rparr> # tl history
                   in (restore_history sid h a1, chat h False))
                else (a1, chat history False))
             else (a, Inl e)
         | Inr m \<Rightarrow> (if \<not> laToolCapChecked a then markToolSupport True a else a, Inr m))
      else (a, chat history False))"

definition tp_of_chat :: "string \<Rightarrow> time \<Rightarrow> channel_message \<Rightarrow> string \<Rightarrow> tp_message" where
  "tp_of_chat uuid now msg answer =
     \<lparr>tpID = uuid, tpSessionID = cmSessionID msg, tpSenderPhone = cmSenderPhone msg,
      tpSenderTelegramID = cmSenderTelegramID msg, tpSenderName = push_name msg, tpSenderEmail = '''',
      tpEmailSubject = '''', tpEmailMessageID = '''', tpChannel = cmChannel msg, tpUserMessage = cmContent msg,
      tpLLMResponse = answer, tpCreatedAt = now, tpNotified = False\<rparr>"

definition persist_exchange :: "tp_message \<Rightarrow> local_agent \<Rightarrow> local_agent" where
  "persist_exchange m a =
     a\<lparr>laStore := map_option (\<lambda>s. case tp_Add m s of Inl _ \<Rightarrow> s | Inr s1 \<Rightarrow> s1) (laStore a),
       laNotifier := map_option (QueueNotification m) (laNotifier a)\<rparr>"

definition trouble_message :: string where
  "trouble_message = ''I'' @ apostrophe @ ''m having trouble processing your message right now. Please try again later.''"

definition agent_response :: "channel_message \<Rightarrow> string \<Rightarrow> string \<Rightarrow> response" where
  "agent_response msg ty content =
     \<lparr>rpID = '''', rpMessageID = cmID msg, rpSessionID = cmSessionID msg, rpContent = content,
      rpType = ty, rpDone = True, rpMetadata = Map.empty\<rparr>"

text \<open>The history with the new message: what the model is asked, and the agent that remembers it.\<close>

definition begin_turn :: "channel_message \<Rightarrow> local_agent \<Rightarrow> local_agent \<times> ollama_message list" where
  "begin_turn msg a =
     (let sid = cmSessionID msg;
          h = getHistory sid a;
          prompt = ollama_text ''system'' (buildSystemPrompt a);
          (a1, h1) = (if h = [] then (addMessage sid prompt a, [prompt]) else (a, h));
          um = ollama_text ''user'' (cmContent msg)
      in (addMessage sid um a1, h1 @ [um]))"

definition local_HandleMessage ::
  "relay_codec \<Rightarrow> string list \<Rightarrow> time \<Rightarrow> string list \<Rightarrow> chat_server \<Rightarrow> channel_message \<Rightarrow> local_agent \<Rightarrow> disk \<Rightarrow>
   local_agent \<times> disk \<times> (int \<times> string) list \<times> response" where
  "local_HandleMessage rc ks now uuids chat msg a d =
     (let sid = cmSessionID msg;
          (a1, history) = begin_turn msg a;
          (a2, res) = adaptive_chat chat sid history a1
      in case res of
           Inl _ \<Rightarrow> (a2, d, [], agent_response msg ''error'' trouble_message)
         | Inr m \<Rightarrow>
             (let args = (if omToolCalls m \<noteq> [] then parseNativeToolCall (omToolCalls m)
                          else parsePromptBasedCall (omContent m));
                  (a3, d3, sent, answer) = (case args of
                      None \<Rightarrow> (a2, d, [], trim_space (omContent m))
                    | Some r \<Rightarrow>
                        (let (a3, d3, sent, ok) = executeRelay rc ks now (hd uuids) msg r a2 d
                         in (a3, d3, sent,
                             if ok then ''I have relayed your message to the Prime Operator. They will be notified shortly.''
                             else ''I attempted to relay your message, but encountered an issue. Please try again.'')));
                  a4 = addMessage sid (ollama_text ''assistant'' answer) a3
              in (persist_exchange (tp_of_chat (hd (tl uuids)) now msg answer) a4, d3, sent,
                  agent_response msg ''text'' answer)))"

definition Summarize :: "chat_server \<Rightarrow> string \<Rightarrow> string" where
  "Summarize chat prompt =
     (case chat [ollama_text ''system'' ''You are a helpful assistant. Summarize the following concisely.'',
                 ollama_text ''user'' prompt] False of
        Inl _ \<Rightarrow> ''(summarization failed)''
      | Inr m \<Rightarrow> trim_space (omContent m))"


section \<open>Histories stay bounded and keep their prompt\<close>

definition prompt_first :: "ollama_message list \<Rightarrow> bool" where
  "prompt_first h \<longleftrightarrow> (case h of [] \<Rightarrow> True
     | p # ms \<Rightarrow> omRole p = ''system'' \<and> (\<forall>m \<in> set ms. omRole m \<noteq> ''system''))"

definition histories_ok :: "local_agent \<Rightarrow> bool" where
  "histories_ok a \<longleftrightarrow> 2 \<le> laMaxMsgs a \<and>
     (\<forall>sid. length (laSessions a sid) \<le> laMaxMsgs a \<and> prompt_first (laSessions a sid))"

lemma length_trim_history: "2 \<le> k \<Longrightarrow> length (trim_history k h) \<le> k"
  by (auto simp: trim_history_def)

lemma prompt_first_trim: "2 \<le> k \<Longrightarrow> prompt_first h \<Longrightarrow> prompt_first (trim_history k h)"
proof (cases h)
  case (Cons p ms)
  assume k: "2 \<le> k" and h: "prompt_first h"
  show ?thesis
  proof (cases "length h \<le> k")
    case False
    then obtain d where d: "length h - (k - 1) = Suc d" using k by (cases "length h - (k - 1)") auto
    have "set (drop d ms) \<subseteq> set ms" by (rule set_drop_subset)
    then show ?thesis using False d h Cons by (auto simp: trim_history_def prompt_first_def)
  qed (use h in \<open>simp add: trim_history_def\<close>)
qed (simp add: trim_history_def prompt_first_def)

lemma prompt_first_snoc: "prompt_first h \<Longrightarrow> h \<noteq> [] \<Longrightarrow> omRole m \<noteq> ''system'' \<Longrightarrow> prompt_first (h @ [m])"
  by (cases h) (auto simp: prompt_first_def)

lemma trim_history_last: "2 \<le> k \<Longrightarrow> h \<noteq> [] \<Longrightarrow> trim_history k (h @ [m]) \<noteq> [] \<and> last (trim_history k (h @ [m])) = m"
  by (cases h) (auto simp: trim_history_def)

lemma addMessage_other: "s \<noteq> sid \<Longrightarrow> laSessions (addMessage sid m a) s = laSessions a s"
  by (simp add: addMessage_def)

lemma addMessage_max [simp]: "laMaxMsgs (addMessage sid m a) = laMaxMsgs a"
  by (simp add: addMessage_def)

text \<open>Either the first message of a session is a prompt, or a later one is none.\<close>

lemma addMessage_ok:
  assumes "histories_ok a" and "(laSessions a sid = []) = (omRole m = ''system'')"
  shows "histories_ok (addMessage sid m a)" and "laSessions (addMessage sid m a) sid \<noteq> []"
proof -
  have "prompt_first (laSessions a sid @ [m])"
    using assms prompt_first_snoc [of "laSessions a sid" m] by (auto simp: histories_ok_def prompt_first_def)
  then show "histories_ok (addMessage sid m a)"
    using assms(1) by (auto simp: histories_ok_def addMessage_def length_trim_history prompt_first_trim)
  show "laSessions (addMessage sid m a) sid \<noteq> []"
    using assms by (cases "laSessions a sid") (auto simp: addMessage_def trim_history_def histories_ok_def)
qed

lemma addMessages_ok:
  "histories_ok a \<Longrightarrow> laSessions a sid \<noteq> [] \<Longrightarrow> \<forall>m \<in> set ms. omRole m \<noteq> ''system'' \<Longrightarrow>
     histories_ok (foldl (\<lambda>a m. addMessage sid m a) a ms)"
proof (induction ms arbitrary: a)
  case (Cons m ms)
  then show ?case using addMessage_ok [of a sid m] by simp
qed simp

lemma restore_history_ok:
  assumes "histories_ok a" and "prompt_first h"
  shows "histories_ok (restore_history sid h a)"
proof (cases h)
  case Nil
  then show ?thesis using assms by (simp add: restore_history_def clearSession_def histories_ok_def)
next
  case (Cons p ms)
  have c: "histories_ok (clearSession sid a)" "laSessions (clearSession sid a) sid = []"
    using assms(1) by (simp_all add: clearSession_def histories_ok_def prompt_first_def)
  moreover have "omRole p = ''system''" "\<forall>m \<in> set ms. omRole m \<noteq> ''system''"
    using assms(2) Cons by (simp_all add: prompt_first_def)
  ultimately show ?thesis
    using addMessage_ok [OF c(1), of sid p] addMessages_ok [of "addMessage sid p (clearSession sid a)" sid ms] Cons
    by (simp add: restore_history_def)
qed

lemma histories_ok_cong: "laSessions b = laSessions a \<Longrightarrow> laMaxMsgs b = laMaxMsgs a \<Longrightarrow> histories_ok b = histories_ok a"
  by (simp add: histories_ok_def)

lemma markToolSupport_sessions [simp]:
  "laSessions (markToolSupport b a) = laSessions a" "laMaxMsgs (markToolSupport b a) = laMaxMsgs a"
  by (simp_all add: markToolSupport_def)

lemma begin_turn_ok:
  assumes "histories_ok a" and "begin_turn msg a = (a1, h)"
  shows "histories_ok a1" and "laSessions a1 (cmSessionID msg) \<noteq> []" and "prompt_first h" and "h \<noteq> []"
    and "length h \<le> Suc (laMaxMsgs a)" and "laMaxMsgs a1 = laMaxMsgs a" and "last h = ollama_text ''user'' (cmContent msg)"
proof -
  let ?sid = "cmSessionID msg"
  let ?p = "ollama_text ''system'' (buildSystemPrompt a)" and ?u = "ollama_text ''user'' (cmContent msg)"
  have r: "omRole ?p = ''system''" "omRole ?u \<noteq> ''system''" by (simp_all add: ollama_text_def)
  note d = assms(2) [unfolded begin_turn_def Let_def getHistory_def]
  have "histories_ok a1 \<and> laSessions a1 ?sid \<noteq> [] \<and> prompt_first h \<and> h \<noteq> [] \<and> length h \<le> Suc (laMaxMsgs a) \<and>
      laMaxMsgs a1 = laMaxMsgs a \<and> last h = ?u"
  proof (cases "laSessions a ?sid = []")
    case True
    note p = addMessage_ok [OF assms(1), of ?sid ?p]
    have "a1 = addMessage ?sid ?u (addMessage ?sid ?p a)" "h = [?p, ?u]" using d True by simp_all
    then show ?thesis
      using True p r addMessage_ok [of "addMessage ?sid ?p a" ?sid ?u] assms(1) by (auto simp: prompt_first_def histories_ok_def)
  next
    case False
    have "a1 = addMessage ?sid ?u a" "h = laSessions a ?sid @ [?u]" using d False by simp_all
    then show ?thesis
      using False r addMessage_ok [OF assms(1), of ?sid ?u] assms(1) prompt_first_snoc [of "laSessions a ?sid" ?u]
      by (auto simp: histories_ok_def)
  qed
  then show "histories_ok a1" "laSessions a1 ?sid \<noteq> []" "prompt_first h" "h \<noteq> []" "length h \<le> Suc (laMaxMsgs a)"
    "laMaxMsgs a1 = laMaxMsgs a" "last h = ?u" by simp_all
qed


lemma restore_history_max [simp]: "laMaxMsgs (restore_history sid h a) = laMaxMsgs a"
proof -
  have "laMaxMsgs (foldl (\<lambda>a m. addMessage sid m a) b h) = laMaxMsgs b" for b
    by (induction h arbitrary: b) simp_all
  then show ?thesis by (simp add: restore_history_def clearSession_def)
qed

lemma restore_history_nonempty:
  assumes "histories_ok a" and "prompt_first h" and "h \<noteq> []"
  shows "laSessions (restore_history sid h a) sid \<noteq> []"
proof -
  have "laSessions (foldl (\<lambda>a m. addMessage sid m a) b (ms @ [m])) sid \<noteq> []" if "2 \<le> laMaxMsgs b" for b ms m
  proof -
    have "laMaxMsgs (foldl (\<lambda>a m. addMessage sid m a) b ms) = laMaxMsgs b" by (induction ms arbitrary: b) simp_all
    then show ?thesis using that by (auto simp: addMessage_def trim_history_def)
  qed
  moreover obtain ms m where "h = ms @ [m]" using assms(3) by (cases h rule: rev_cases) auto
  ultimately show ?thesis using assms(1) by (simp add: restore_history_def clearSession_def histories_ok_def)
qed

lemma prompt_first_update: "prompt_first h \<Longrightarrow> h \<noteq> [] \<Longrightarrow> prompt_first ((hd h)\<lparr>omContent := c\<rparr> # tl h)"
  by (cases h) (auto simp: prompt_first_def)

lemma adaptive_chat_ok:
  assumes "histories_ok a" and "prompt_first h" and "h \<noteq> []" and "laSessions a sid \<noteq> []" and "adaptive_chat chat sid h a = (a1, res)"
  shows "histories_ok a1 \<and> laSessions a1 sid \<noteq> [] \<and> laMaxMsgs a1 = laMaxMsgs a"
proof -
  note u = prompt_first_update [OF assms(2,3)]
  have m: "histories_ok (markToolSupport b a)" for b using assms(1) by (simp add: histories_ok_def)
  show ?thesis
    using assms(1,4,5) m restore_history_ok [OF m u] restore_history_nonempty [OF m u]
    by (auto simp: adaptive_chat_def Let_def split: if_splits sum.splits)
qed

lemma executeRelay_sessions:
  "executeRelay rc ks now uuid msg args a d = (a1, d1, sent, ok) \<Longrightarrow>
     laSessions a1 = laSessions a \<and> laMaxMsgs a1 = laMaxMsgs a"
  by (auto simp: executeRelay_def Let_def split: option.splits prod.splits)

lemma persist_exchange_sessions [simp]:
  "laSessions (persist_exchange m a) = laSessions a" "laMaxMsgs (persist_exchange m a) = laMaxMsgs a"
  by (simp_all add: persist_exchange_def)

lemma local_HandleMessage_ok:
  assumes "histories_ok a" and "local_HandleMessage rc ks now uuids chat msg a d = (a', d', sent, r)"
  shows "histories_ok a' \<and> laMaxMsgs a' = laMaxMsgs a \<and> (rpType r = ''text'' \<longrightarrow>
    last (laSessions a' (cmSessionID msg)) = ollama_text ''assistant'' (rpContent r))"
proof -
  let ?sid = "cmSessionID msg"
  obtain a1 h where b: "begin_turn msg a = (a1, h)" by fastforce
  obtain a2 res where c: "adaptive_chat chat ?sid h a1 = (a2, res)" by fastforce
  note bo = begin_turn_ok [OF assms(1) b]
  note co = adaptive_chat_ok [OF bo(1,3,4,2) c]
  show ?thesis
  proof (cases res)
    case (Inl e)
    then show ?thesis using assms(2) b c co bo(6) by (auto simp: local_HandleMessage_def Let_def agent_response_def)
  next
    case (Inr m)
    obtain a3 answer where e: "laSessions a3 = laSessions a2" "laMaxMsgs a3 = laMaxMsgs a2"
      "a' = persist_exchange (tp_of_chat (hd (tl uuids)) now msg answer) (addMessage ?sid (ollama_text ''assistant'' answer) a3)"
      "r = agent_response msg ''text'' answer"
    proof (cases "if omToolCalls m \<noteq> [] then parseNativeToolCall (omToolCalls m) else parsePromptBasedCall (omContent m)")
      case None
      then show ?thesis using assms(2) b c Inr that [of a2] unfolding local_HandleMessage_def Let_def by (simp, elim conjE) auto
    next
      case (Some args)
      obtain a3 d3 s3 ok where x: "executeRelay rc ks now (hd uuids) msg args a2 d = (a3, d3, s3, ok)" by (metis prod_cases4)
      then show ?thesis
        using assms(2) b c Inr Some that [of a3] executeRelay_sessions [OF x] unfolding local_HandleMessage_def Let_def by (simp, elim conjE) auto
    qed
    have "histories_ok a3" "laSessions a3 ?sid \<noteq> []" using co e(1,2) by (auto simp: histories_ok_def)
    note n = addMessage_ok [OF this(1), of ?sid "ollama_text ''assistant'' answer"]
    have "histories_ok (addMessage ?sid (ollama_text ''assistant'' answer) a3)"
      using n(1) \<open>laSessions a3 ?sid \<noteq> []\<close> by (simp add: ollama_text_def)
    moreover have "last (laSessions (addMessage ?sid (ollama_text ''assistant'' answer) a3) ?sid) = ollama_text ''assistant'' answer"
      using trim_history_last [of "laMaxMsgs a3" "laSessions a3 ?sid"] \<open>histories_ok a3\<close> \<open>laSessions a3 ?sid \<noteq> []\<close>
      by (simp add: addMessage_def histories_ok_def)
    ultimately show ?thesis using e co bo(6) by (simp add: agent_response_def histories_ok_def)
  qed
qed

text \<open>The messages of a run, each with the order of a range, the clock, fresh identifiers and the
  server of its moment.\<close>

fun local_run ::
  "relay_codec \<Rightarrow> (string list \<times> time \<times> string list \<times> chat_server \<times> channel_message) list \<Rightarrow> local_agent \<Rightarrow> disk \<Rightarrow> local_agent" where
  "local_run rc [] a d = a"
| "local_run rc ((ks, now, uuids, chat, msg) # ms) a d =
     (let (a1, d1, _, _) = local_HandleMessage rc ks now uuids chat msg a d in local_run rc ms a1 d1)"

lemma local_run_ok: "histories_ok a \<Longrightarrow> histories_ok (local_run rc ms a d) \<and> laMaxMsgs (local_run rc ms a d) = laMaxMsgs a"
proof (induction rc ms a d rule: local_run.induct)
  case (2 rc ks now uuids chat msg ms a d)
  obtain a1 d1 s r where h: "local_HandleMessage rc ks now uuids chat msg a d = (a1, d1, s, r)" by (metis prod_cases4)
  note ok = local_HandleMessage_ok [OF 2(2) h]
  from "2.IH" [OF h [symmetric] refl refl] ok h show ?case by simp
qed simp

text \<open>Whatever people write and the server answers, every history the agent keeps has at most
  twenty messages and opens with its only system prompt, the model is asked with at most
  twenty-one messages that end with the new one, and an answer is remembered last.\<close>

theorem local_history_bounded:
  assumes "local_run rc ms (NewLocalAgent prompt cfg) d = a"
    and "begin_turn msg a = (a1, h)" and "local_HandleMessage rc ks now uuids chat msg a d' = (a2, d2, sent, r)"
  shows "length (laSessions a2 sid) \<le> 20 \<and> prompt_first (laSessions a2 sid) \<and>
    length h \<le> 21 \<and> prompt_first h \<and> last h = ollama_text ''user'' (cmContent msg) \<and>
    (rpType r = ''text'' \<longrightarrow> last (laSessions a2 (cmSessionID msg)) = ollama_text ''assistant'' (rpContent r))"
proof -
  have "histories_ok (NewLocalAgent prompt cfg)" "laMaxMsgs (NewLocalAgent prompt cfg) = 20"
    by (simp_all add: histories_ok_def NewLocalAgent_def newLocalSessionStore_def prompt_first_def)
  from local_run_ok [OF this(1), of rc ms d] this(2) assms(1) have a: "histories_ok a" "laMaxMsgs a = 20" by auto
  from local_HandleMessage_ok [OF a(1) assms(3)] begin_turn_ok [OF a(1) assms(2)] a(2)
  show ?thesis unfolding histories_ok_def by auto
qed

definition demo_chat :: chat_server where
  "demo_chat h tools = (if tools then Inl ''llama does not support tools'' else Inr (ollama_text ''assistant'' ''hello''))"

theorem local_history_bounded_witness:
  "\<exists>a h. begin_turn (zero_message\<lparr>cmContent := ''hi''\<rparr>) (NewLocalAgent ''p'' None) = (a, h) \<and> length h \<le> 21 \<and>
     last h = ollama_text ''user'' ''hi''"
proof -
  let ?m = "zero_message\<lparr>cmContent := ''hi''\<rparr>"
  obtain a h where b: "begin_turn ?m (NewLocalAgent ''p'' None) = (a, h)" by fastforce
  obtain a2 d2 s r where "local_HandleMessage \<lparr>encRelays = (\<lambda>_. Inl ''''), decRelays = (\<lambda>_. None)\<rparr> [] 0 [''1'', ''2''] demo_chat ?m
      (NewLocalAgent ''p'' None) Map.empty = (a2, d2, s, r)" by (metis prod_cases4)
  from local_history_bounded [of _ "[]" "''p''" None Map.empty, OF _ b this] b show ?thesis by simp
qed

end
