(* ===== verification/Handler.thy ===== *)
theory Handler
  imports LocalAgent InFlight GuardedStore AuditLog
begin

text \<open>
  The gateway's handler, \<open>internal/gateway/handler.go\<close>: every message of a channel is classified,
  kept in the sandbox, taken as an answer to an approval request, or given to the agent, whose
  events become responses.  A respond callback is the name of the channel's connection, \<open>None\<close> for
  the callback that discards.  The agent library's runner, the thread forker, the model server,
  the hash of published files and what sending a response returns are parameters; a handler's
  effects on the world are listed in order.
\<close>

section \<open>Responders and the handler\<close>

type_synonym responders = "string \<rightharpoonup> string option \<times> metadata"

definition responder_Register :: "string \<Rightarrow> string option \<Rightarrow> metadata \<Rightarrow> responders \<Rightarrow> responders" where
  "responder_Register sid r m sr = sr(sid \<mapsto> (r, m))"

definition responder_Get :: "string \<Rightarrow> responders \<Rightarrow> (string option \<times> metadata) option" where
  "responder_Get sid sr = sr sid"

record handler =
  hdTrustConfig :: "trust_config option"
  hdSandbox :: "sandbox option"
  hdLocalAgent :: "local_agent option"
  hdResponders :: responders
  hdInFlight :: "inflight_store option"
  hdAudit :: "audit_table option"
  hdExecutions :: "execution_store option"
  hdDisk :: disk

definition AppName :: string where
  "AppName = ''kaggen''"

text \<open>The events of the agent library, with the fields the handler reads.\<close>

record h_choice =
  hcToolCalls :: "tool_call list"
  hcRole :: role
  hcContent :: string
  hcToolID :: string
  hcDelta :: string

record handler_event =
  hvID :: string
  hvDone :: bool
  hvError :: "(string \<times> string) option"
  hvChoices :: "h_choice list"

record user_input =
  uiContent :: string
  uiFiles :: "(string \<times> bool) list"

text \<open>The environment of one message: \<open>heRun\<close> yields the events of a run, \<open>heUuid\<close> numbers the fresh
  identifiers, \<open>heHome\<close> is the home directory if it is known.\<close>

record handler_env =
  heRelayCodec :: relay_codec
  heKeys :: "string list"
  heNow :: time
  heUuid :: "nat \<Rightarrow> string"
  heRespond :: "string \<Rightarrow> response \<Rightarrow> string option"
  heAvailable :: bool
  heChat :: chat_server
  heRun :: "trust_tier \<Rightarrow> string \<Rightarrow> string \<Rightarrow> user_input \<Rightarrow> (handler_event option list) go_result"
  heFork :: "(skey \<Rightarrow> string \<Rightarrow> disk \<Rightarrow> disk \<times> skey go_result) option"
  heHome :: "string option"
  heCwd :: string
  heHash :: "string \<Rightarrow> string"

datatype handler_effect =
  Sent string response
| RunAgent trust_tier string string user_input
| NotifyRelay relay_request
| Telegram int string

datatype handler_error = Failed string | Panicked

type_synonym outcome = "handler \<times> handler_effect list \<times> handler_error option"

definition respond_with :: "handler_env \<Rightarrow> string option \<Rightarrow> response \<Rightarrow> handler_effect list \<times> handler_error option" where
  "respond_with env rid r =
     (case rid of
        None \<Rightarrow> ([], None)
      | Some i \<Rightarrow> ([Sent i r], map_option Failed (heRespond env i r)))"

definition reply :: "handler_env \<Rightarrow> nat \<Rightarrow> channel_message \<Rightarrow> string \<Rightarrow> string \<Rightarrow> response" where
  "reply env k msg ty content =
     \<lparr>rpID = heUuid env k, rpMessageID = cmID msg, rpSessionID = cmSessionID msg, rpContent = content,
      rpType = ty, rpDone = True, rpMetadata = cmMetadata msg\<rparr>"

section \<open>Messages of third parties\<close>

definition unknown_people :: string where
  "unknown_people = ''Sorry, I'' @ apostrophe @ ''m not configured to chat with people I don'' @ apostrophe @ ''t know yet.''"

definition unable_now :: string where
  "unable_now = ''I'' @ apostrophe @ ''m temporarily unable to process your message. Please try again later or contact the owner directly.''"

definition limited_mode :: string where
  "limited_mode = ''Hello! I'' @ apostrophe @ ''m running in limited mode for new contacts. If you need to reach the owner, you can say '' @
     apostrophe @ ''Please tell the owner...'' @ apostrophe @ '' and I'' @ apostrophe @ ''ll relay your message.''"

text \<open>The sandbox, if there is one, may answer the message itself.\<close>

definition sandbox_stage ::
  "handler_env \<Rightarrow> channel_message \<Rightarrow> handler \<Rightarrow> handler \<times> handler_effect list \<times> sandbox_response option" where
  "sandbox_stage env msg h =
     (case hdSandbox h of
        None \<Rightarrow> (h, [], None)
      | Some sb \<Rightarrow>
          (case ProcessMessage (heRelayCodec env) (heKeys env) (heNow env) (heUuid env 0) msg sb (hdDisk h) of
             (sb1, d1, sx, note) \<Rightarrow>
               (h\<lparr>hdSandbox := Some sb1, hdDisk := d1\<rparr>, (case note of None \<Rightarrow> [] | Some r \<Rightarrow> [NotifyRelay r]), sx)))"

definition local_stage ::
  "handler_env \<Rightarrow> string option \<Rightarrow> channel_message \<Rightarrow> third_party_config \<Rightarrow> handler \<Rightarrow> outcome" where
  "local_stage env rid msg tp h =
     (case (hdLocalAgent h, heAvailable env) of
        (Some a, True) \<Rightarrow>
          (case local_HandleMessage (heRelayCodec env) (heKeys env) (heNow env) [heUuid env 1, heUuid env 2]
                  (heChat env) msg a (hdDisk h) of
             (a1, d1, sent, r) \<Rightarrow>
               (let (e, err) = respond_with env rid (r\<lparr>rpID := heUuid env 3, rpMetadata := cmMetadata msg\<rparr>)
                in (h\<lparr>hdLocalAgent := Some a1, hdDisk := d1\<rparr>, map (\<lambda>(i, t). Telegram i t) sent @ e, err)))
      | _ \<Rightarrow>
          (let (e, err) = respond_with env rid
                 (reply env 3 msg ''text'' (if tpUseLocalLLM tp then unable_now else limited_mode))
           in (h, e, err)))"

definition handle_third_party :: "handler_env \<Rightarrow> string option \<Rightarrow> channel_message \<Rightarrow> handler \<Rightarrow> outcome" where
  "handle_third_party env rid msg h =
     (case hdTrustConfig h of
        Some cfg \<Rightarrow>
          if \<not> tpEnabled (tcThirdParty cfg) then
            (let (e, err) = respond_with env rid (reply env 3 msg ''error'' unknown_people) in (h, e, err))
          else
            (case sandbox_stage env msg h of
               (h1, e1, Some sx) \<Rightarrow>
                 (let (e, err) = respond_with env rid (reply env 3 msg ''text'' (sxMessage sx)) in (h1, e1 @ e, err))
             | (h1, e1, None) \<Rightarrow>
                 (let (h2, e2, err) = local_stage env rid msg (tcThirdParty cfg) h1 in (h2, e1 @ e2, err)))
      | None \<Rightarrow> (let (e, err) = respond_with env rid (reply env 3 msg ''error'' unknown_people) in (h, e, err)))"

section \<open>Publishing files\<close>

definition ExpandPath :: "string option \<Rightarrow> string \<Rightarrow> string" where
  "ExpandPath home p =
     (if has_prefix p ''~/'' then (case home of None \<Rightarrow> p | Some hm \<Rightarrow> filepath_Clean (hm @ ''/'' @ drop 2 p))
      else p)"

text \<open>A path as the operating system resolves it; the disk has no symbolic links.\<close>

definition os_path :: "string \<Rightarrow> string \<Rightarrow> fpath" where
  "os_path cwd p = clean_parts (if has_prefix p ''/'' then p else cwd @ ''/'' @ p)"

definition filepath_Ext :: "string \<Rightarrow> string" where
  "filepath_Ext p =
     (let e = takeWhile (\<lambda>c. c \<noteq> CHR ''.'' \<and> c \<noteq> CHR ''/'') (rev p); r = drop (length e) (rev p)
      in if r \<noteq> '''' \<and> hd r = CHR ''.'' then CHR ''.'' # rev e else '''')"

definition publicDir :: "handler_env \<Rightarrow> disk \<Rightarrow> disk \<times> fpath" where
  "publicDir env d =
     (let p = os_path (heCwd env) (ExpandPath (heHome env) ''~/.kaggen/public'')
      in (fst (os_MkdirAll p d), p))"

definition publishFile :: "handler_env \<Rightarrow> string \<Rightarrow> disk \<Rightarrow> disk \<times> string" where
  "publishFile env srcPath d =
     (let src = ExpandPath (heHome env) (trim_space srcPath) in
      if src = '''' then (d, '''')
      else
        (case d (os_path (heCwd env) src) of
           None \<Rightarrow> (d, '''')
         | Some en \<Rightarrow>
             (let content = (case en of File s \<Rightarrow> s | Dir \<Rightarrow> '''');
                  name = heHash env (take (64 * 1024) content) @ filepath_Ext src;
                  (d1, pub) = publicDir env d;
                  dst = join_path pub [name]
              in case d1 dst of
                   Some _ \<Rightarrow> (d1, name)
                 | None \<Rightarrow>
                     (case os_WriteFile dst content d1 of
                        (d2, Some _) \<Rightarrow> (d2, '''')
                      | (d2, None) \<Rightarrow> if en = Dir then (d2(dst := None), '''') else (d2, name)))))"

definition sendFileRe :: rx where
  "sendFileRe = seq_all [Lit ''[send_file:'', Many rx_space, Group (Plus (\<lambda>c. c \<noteq> CHR '']'')), Lit '']'']"

definition extractSendFiles :: "handler_env \<Rightarrow> string \<Rightarrow> metadata \<Rightarrow> disk \<Rightarrow> disk \<times> string \<times> metadata" where
  "extractSendFiles env t meta d =
     (case find_sub sendFileRe t of
        Some (_, g # _) \<Rightarrow>
          (let filePath = trim_space g;
               (d1, pubName) = publishFile env filePath d;
               meta1 = (if pubName \<noteq> '''' then meta(''send_file'' \<mapsto> JStr pubName) else meta);
               meta2 = meta1(''send_file_local'' \<mapsto> JStr (ExpandPath (heHome env) filePath))
           in (d1, trim_space (remove_all sendFileRe 0 t), meta2))
      | _ \<Rightarrow> (d, t, meta))"

section \<open>Events become responses\<close>

definition isImageMime :: "string \<Rightarrow> bool" where
  "isImageMime m = has_prefix m ''image/''"

definition eventToResponse :: "string \<Rightarrow> handler_event option \<Rightarrow> channel_message \<Rightarrow> response option" where
  "eventToResponse uuid evt msg =
     (case evt of
        None \<Rightarrow> None
      | Some e \<Rightarrow>
          (let meta = (if hvID e \<noteq> '''' then (cmMetadata msg)(''event_id'' \<mapsto> JStr (hvID e)) else cmMetadata msg);
               r = \<lparr>rpID = uuid, rpMessageID = cmID msg, rpSessionID = cmSessionID msg, rpContent = '''',
                    rpType = '''', rpDone = hvDone e, rpMetadata = meta\<rparr>
           in case hvError e of
                Some (ty, m) \<Rightarrow> Some (r\<lparr>rpType := ''error'', rpContent := m, rpDone := True,
                                       rpMetadata := meta(''error_type'' \<mapsto> JStr ty)\<rparr>)
              | None \<Rightarrow>
                  (case hvChoices e of
                     [] \<Rightarrow> None
                   | c # _ \<Rightarrow>
                       (case hcToolCalls c of
                          tc # _ \<Rightarrow> Some (r\<lparr>rpType := ''tool_call'', rpContent := ''Calling tool: '' @ tcName tc,
                            rpMetadata := meta(''tool_name'' \<mapsto> JStr (tcName tc), ''tool_id'' \<mapsto> JStr (tcID tc),
                              ''tool_input'' \<mapsto> JStr (tcArguments tc))\<rparr>)
                        | [] \<Rightarrow>
                            if hcRole c = RoleTool then
                              Some (r\<lparr>rpType := ''tool_result'', rpContent := hcContent c,
                                      rpMetadata := meta(''tool_id'' \<mapsto> JStr (hcToolID c))\<rparr>)
                            else if hcContent c \<noteq> '''' \<or> hcDelta c \<noteq> '''' then
                              Some (r\<lparr>rpType := (if hvDone e then ''done'' else ''text''),
                                      rpContent := (if hcContent c = '''' then hcDelta c else hcContent c)\<rparr>)
                            else None))))"

text \<open>The loop over the events: the disk, what was sent, and whether a final response was.\<close>

fun relay_events ::
  "handler_env \<Rightarrow> string option \<Rightarrow> channel_message \<Rightarrow> nat \<Rightarrow> handler_event option list \<Rightarrow> disk \<Rightarrow>
   disk \<times> handler_effect list \<times> bool" where
  "relay_events env rid msg k [] d = (d, [], False)"
| "relay_events env rid msg k (e # es) d =
     (case eventToResponse (heUuid env k) e msg of
        None \<Rightarrow> relay_events env rid msg (Suc k) es d
      | Some r \<Rightarrow>
          if rpType r = ''tool_call'' \<or> rpType r = ''tool_result'' then
            (let (d1, out, fin) = relay_events env rid msg (Suc k) es d
             in (d1, fst (respond_with env rid r) @ out, fin))
          else if rpType r = ''error'' then
            (let (d1, out, fin) = relay_events env rid msg (Suc k) es d
             in (d1, fst (respond_with env rid r) @ out, True))
          else if rpContent r \<noteq> '''' \<or> rpDone r then
            (let (d0, t, meta) = extractSendFiles env (rpContent r) (rpMetadata r) d;
                 (d1, out, fin) = relay_events env rid msg (Suc k) es d0
             in (d1, fst (respond_with env rid (r\<lparr>rpContent := t, rpMetadata := meta\<rparr>)) @ out, rpDone r \<or> fin))
          else relay_events env rid msg (Suc k) es d)"

section \<open>Messages for the agent\<close>

definition user_input_of :: "channel_message \<Rightarrow> user_input" where
  "user_input_of msg =
     \<lparr>uiContent = cmContent msg, uiFiles = map (\<lambda>a. (atPath a, isImageMime (atMimeType a))) (cmAttachments msg)\<rparr>"

text \<open>A reply to an event of the session moves to a thread of its own, if the fork succeeds.\<close>

definition fork_stage ::
  "handler_env \<Rightarrow> string option \<Rightarrow> channel_message \<Rightarrow> handler \<Rightarrow> handler \<times> handler_effect list \<times> channel_message" where
  "fork_stage env rid msg h =
     (case heFork env of
        None \<Rightarrow> (h, [], msg)
      | Some f \<Rightarrow>
          if cmReplyToEventID msg = '''' then (h, [], msg)
          else
            (case f \<lparr>skApp = AppName, skUser = cmUserID msg, skSession = cmSessionID msg\<rparr> (cmReplyToEventID msg) (hdDisk h) of
               (d1, Inl _) \<Rightarrow> (h\<lparr>hdDisk := d1\<rparr>, [], msg)
             | (d1, Inr tk) \<Rightarrow>
                 (let note = \<lparr>rpID = heUuid env 4, rpMessageID = cmID msg, rpSessionID = skSession tk, rpContent = '''',
                        rpType = ''thread_created'', rpDone = False,
                        rpMetadata = [''thread_session_id'' \<mapsto> JStr (skSession tk), ''parent_session_id'' \<mapsto> JStr (cmSessionID msg)]\<rparr>;
                      meta = (cmMetadata msg)(''parent_session_id'' \<mapsto> JStr (cmSessionID msg))
                  in (h\<lparr>hdDisk := d1, hdResponders := responder_Register (skSession tk) rid meta (hdResponders h)\<rparr>,
                      fst (respond_with env rid note), msg\<lparr>cmSessionID := skSession tk\<rparr>))))"

definition handle_trusted :: "handler_env \<Rightarrow> trust_tier \<Rightarrow> string option \<Rightarrow> channel_message \<Rightarrow> handler \<Rightarrow> outcome" where
  "handle_trusted env tier rid msg0 h =
     (let h0 = h\<lparr>hdResponders := responder_Register (cmSessionID msg0) rid (cmMetadata msg0) (hdResponders h)\<rparr>;
          (h1, e1, msg) = fork_stage env rid msg0 h0;
          run = RunAgent tier (cmUserID msg) (cmSessionID msg) (user_input_of msg)
      in case heRun env tier (cmUserID msg) (cmSessionID msg) (user_input_of msg) of
           Inl e \<Rightarrow>
             (h1, e1 @ [run] @ fst (respond_with env rid
                (reply env 5 msg ''error'' (''Sorry, I encountered an error processing your request: '' @ e))),
              Some (Failed (''run agent: '' @ e)))
         | Inr events \<Rightarrow>
             (let (d2, out, fin) = relay_events env rid msg 6 events (hdDisk h1)
              in (h1\<lparr>hdDisk := d2\<rparr>, e1 @ [run] @ out @
                  (if fin then [] else fst (respond_with env rid (reply env 5 msg ''done'' ''''))), None)))"

section \<open>Completions and approvals\<close>

text \<open>The handler of messages, given as \<open>hm\<close>, may use up its fuel.\<close>

type_synonym message_handler = "channel_message \<Rightarrow> string option \<Rightarrow> handler \<Rightarrow> outcome option"

definition completion_text :: "string \<Rightarrow> string \<Rightarrow> string \<Rightarrow> inflight_store \<Rightarrow> string" where
  "completion_text taskID agentName result st =
     ''[Task Completed: '' @ taskID @ '' (agent: '' @ agentName @ '')]'' @ newline @
     (case Get taskID st of
        Some t \<Rightarrow> if Task t \<noteq> '''' then ''Original request: '' @ Task t @ newline else ''''
      | None \<Rightarrow> '''') @ newline @ result"

definition completion_message :: "handler_env \<Rightarrow> string \<Rightarrow> string \<Rightarrow> string \<Rightarrow> metadata \<Rightarrow> channel_message" where
  "completion_message env sid uid content meta =
     zero_message\<lparr>cmID := heUuid env 7, cmSessionID := sid, cmUserID := uid, cmContent := content,
       cmChannel := ''internal'', cmMetadata := meta(''trust_tier'' := None)\<rparr>"

definition InjectCompletion ::
  "handler_env \<Rightarrow> message_handler \<Rightarrow> string \<Rightarrow> string \<Rightarrow> string \<Rightarrow> string \<Rightarrow> string \<Rightarrow> handler \<Rightarrow> outcome option" where
  "InjectCompletion env hm sid uid taskID agentName result h =
     (case hdInFlight h of
        None \<Rightarrow> Some (h, [], Some Panicked)
      | Some st \<Rightarrow>
          (let (rid, meta) = (case responder_Get sid (hdResponders h) of Some rm \<Rightarrow> rm | None \<Rightarrow> (None, Map.empty))
           in hm (completion_message env sid uid (completion_text taskID agentName result st) meta) rid h))"

definition approval_result :: "bool \<Rightarrow> string \<Rightarrow> string" where
  "approval_result approved tool =
     ''Tool '' @ tool @ (if approved then '' was APPROVED by user. You may now retry the action.''
                       else '' was REJECTED by user. Find an alternative approach.'')"

definition resolve_task :: "handler_env \<Rightarrow> string \<Rightarrow> bool \<Rightarrow> task_state \<Rightarrow> inflight_store \<Rightarrow> handler \<Rightarrow> handler" where
  "resolve_task env approvalID approved t st h =
     h\<lparr>hdInFlight := Some (if approved then Complete (heNow env) approvalID ''approved'' st
                           else Fail (heNow env) approvalID ''rejected by user'' st),
       hdAudit := map_option (RecordResolution approvalID (if approved then ''approved'' else ''rejected'')
         (UserID t) (heNow env)) (hdAudit h)\<rparr>"

definition handleApprovalActionLegacy ::
  "handler_env \<Rightarrow> message_handler \<Rightarrow> string \<Rightarrow> string \<Rightarrow> handler \<Rightarrow> outcome option" where
  "handleApprovalActionLegacy env hm approvalID action h =
     (case hdInFlight h of
        None \<Rightarrow> Some (h, [], None)
      | Some st \<Rightarrow>
          (case Get approvalID st of
             None \<Rightarrow> Some (h, [], None)
           | Some t \<Rightarrow>
               if Status t \<noteq> TaskPendingApproval \<or> action \<notin> {''approve'', ''reject''} then Some (h, [], None)
               else
                 (let approved = (action = ''approve''); h1 = resolve_task env approvalID approved t st h
                  in case ApprovalRequest t of
                       None \<Rightarrow> Some (h1, [], Some Panicked)
                     | Some ar \<Rightarrow>
                         InjectCompletion env hm (SessionID t) (UserID t) approvalID (AgentName t)
                           (approval_result approved (arToolName ar)) h1)))"

definition handleApprovalAction ::
  "handler_env \<Rightarrow> message_handler \<Rightarrow> channel_message \<Rightarrow> string \<Rightarrow> handler \<Rightarrow> outcome option" where
  "handleApprovalAction env hm msg action h =
     (case meta_string (cmMetadata msg) ''approval_id'' of
        None \<Rightarrow> Some (h, [], None)
      | Some i \<Rightarrow>
          if i = '''' \<or> action \<notin> {''approve'', ''reject''} then Some (h, [], None)
          else
            (case hdExecutions h of
               None \<Rightarrow> handleApprovalActionLegacy env hm i action h
             | Some ex \<Rightarrow>
                 (let (ex1, signaled) = SignalDecision i (action = ''approve'') ex
                  in if signaled then Some (h\<lparr>hdExecutions := Some ex1\<rparr>, [], None)
                     else handleApprovalActionLegacy env hm i action h)))"

section \<open>The entry\<close>

definition tier_of :: "channel_message \<Rightarrow> handler \<Rightarrow> trust_tier" where
  "tier_of msg h =
     (if cmChannel msg = ''internal'' \<or> cmMetadata msg ''proactive'' = Some (JBool True) then TrustTierOwner
      else ClassifyWithAllowlist (cmSenderPhone msg) (cmSenderTelegramID msg) (hdTrustConfig h) (cmIsInAllowlist msg))"

definition with_tier :: "trust_tier \<Rightarrow> channel_message \<Rightarrow> channel_message" where
  "with_tier tier msg = msg\<lparr>cmMetadata := (cmMetadata msg)(''trust_tier'' \<mapsto> JNum (itoa (int (tier_int tier))))\<rparr>"

text \<open>A decision that cannot be signalled injects a message of its own; the number bounds the depth
  of this recursion.\<close>

primrec HandleMessage :: "nat \<Rightarrow> handler_env \<Rightarrow> message_handler" where
  "HandleMessage 0 env = (\<lambda>msg rid h. None)"
| "HandleMessage (Suc n) env = (\<lambda>msg rid h.
     (let tier = tier_of msg h in
      if IsThirdParty tier then Some (handle_third_party env rid msg h)
      else
        (case meta_string (cmMetadata (with_tier tier msg)) ''approval_action'' of
           Some action \<Rightarrow> handleApprovalAction env (HandleMessage n env) (with_tier tier msg) action h
         | None \<Rightarrow> Some (handle_trusted env tier rid (with_tier tier msg) h))))"

section \<open>Construction\<close>

text \<open>\<open>db\<close> is what opening the database of third-party messages gave.\<close>

definition NewHandler ::
  "handler_env \<Rightarrow> string \<Rightarrow> trust_config option \<Rightarrow> tp_store go_result \<Rightarrow> inflight_store option \<Rightarrow>
   audit_table option \<Rightarrow> execution_store option \<Rightarrow> disk \<Rightarrow> handler option" where
  "NewHandler env defaultPrompt cfg db inFlight audit ex d =
     (let h = \<lparr>hdTrustConfig = cfg, hdSandbox = None, hdLocalAgent = None, hdResponders = Map.empty,
               hdInFlight = inFlight, hdAudit = audit, hdExecutions = ex, hdDisk = d\<rparr>
      in case cfg of
           None \<Rightarrow> Some h
         | Some c \<Rightarrow>
             if \<not> tpEnabled (tcThirdParty c) then Some h
             else
               (let p = os_path (heCwd env) (ExpandPath (heHome env) ''~/.kaggen/relays.json'')
                in case (NewRelayStore (heRelayCodec env) (Some p) d,
                         NewSandbox (heRelayCodec env) (tcThirdParty c) (Some p) False d) of
                     (Some rs, Some sb) \<Rightarrow>
                       Some (h\<lparr>hdSandbox := Some sb,
                         hdLocalAgent := (if tpUseLocalLLM (tcThirdParty c) then
                           Some ((NewLocalAgent defaultPrompt (Some (tcThirdParty c)))\<lparr>laRelayStore := Some rs,
                             laStore := (case db of Inl _ \<Rightarrow> None | Inr s \<Rightarrow> Some s)\<rparr>) else None)\<rparr>)
                   | _ \<Rightarrow> None))"

definition SetupThirdPartyNotifier :: "handler \<Rightarrow> handler" where
  "SetupThirdPartyNotifier h =
     (case (hdLocalAgent h, hdTrustConfig h) of
        (Some a, Some c) \<Rightarrow>
          if laStore a = None \<or> tcOwnerTelegram c = [] then h
          else h\<lparr>hdLocalAgent := Some (a\<lparr>laNotifier := Some \<lparr>ntSend = True, ntOwnerIDs = tcOwnerTelegram c,
                  ntPending = [], ntStopped = False\<rparr>\<rparr>)\<rparr>
      | _ \<Rightarrow> h)"

end
