(* ===== verification/HandlerCorrect.thy ===== *)
theory HandlerCorrect
  imports Handler SandboxCorrect
begin

text \<open>
  What the handler guarantees: messages of third parties stay in the sandbox, every message for
  the agent is answered with a final response, and handling a message ends; and where trust is
  lost: the flag of proactive messages, completions, approvals by Telegram's buttons.
\<close>

section \<open>Effects\<close>

fun is_run :: "handler_effect \<Rightarrow> bool" where
  "is_run (RunAgent _ _ _ _) = True"
| "is_run _ = False"

fun is_sent :: "handler_effect \<Rightarrow> bool" where
  "is_sent (Sent _ _) = True"
| "is_sent _ = False"

lemma respond_with_Some [simp]: "fst (respond_with env (Some i) r) = [Sent i r]"
  by (simp add: respond_with_def)

lemma respond_with_Some_eq: "respond_with env (Some i) r = (e, err) \<Longrightarrow> e = [Sent i r]"
  by (auto simp: respond_with_def)

lemma respond_with_runs: "respond_with env rid r = (e, err) \<Longrightarrow> filter is_run e = []"
  by (auto simp: respond_with_def split: option.splits)

lemma respond_runs [simp]: "filter is_run (fst (respond_with env rid r)) = []"
  by (auto simp: respond_with_def split: option.splits)

lemma telegram_neither [simp]:
  "filter is_run (map (\<lambda>(i, t). Telegram i t) sent) = []" "filter is_sent (map (\<lambda>(i, t). Telegram i t) sent) = []"
  by (induction sent) auto

section \<open>Third parties stay contained\<close>

text \<open>What such a message may change: the sandbox, the local agent and the disk.\<close>

definition core_of :: "handler \<Rightarrow> trust_config option \<times> responders \<times> inflight_store option \<times> audit_table option \<times> execution_store option" where
  "core_of h = (hdTrustConfig h, hdResponders h, hdInFlight h, hdAudit h, hdExecutions h)"

definition contained :: "string \<Rightarrow> channel_message \<Rightarrow> handler \<Rightarrow> handler \<Rightarrow> handler_effect list \<Rightarrow> bool" where
  "contained rid msg h h' effs \<longleftrightarrow> core_of h' = core_of h \<and> filter is_run effs = [] \<and>
     (\<exists>r. filter is_sent effs = [Sent rid r] \<and> rpDone r \<and> rpSessionID r = cmSessionID msg)"

lemma reply_done [simp]: "rpDone (reply env k msg ty c)" "rpSessionID (reply env k msg ty c) = cmSessionID msg"
  by (simp_all add: reply_def)

lemma local_response: "local_HandleMessage rc ks now uuids chat msg a d = (a', d', sent, r) \<Longrightarrow>
    rpDone r \<and> rpSessionID r = cmSessionID msg"
  unfolding local_HandleMessage_def agent_response_def Let_def
  by (auto split: prod.splits sum.splits)

lemma sandbox_stage_core:
  "sandbox_stage env msg h = (h1, e1, sx) \<Longrightarrow> core_of h1 = core_of h \<and> filter is_run e1 = [] \<and> filter is_sent e1 = []"
  by (auto simp: sandbox_stage_def core_of_def split: option.splits prod.splits)

lemma local_stage_contained:
  assumes "local_stage env (Some rid) msg tp h = (h', effs, err)"
  shows "contained rid msg h h' effs"
proof (cases "\<exists>a. hdLocalAgent h = Some a \<and> heAvailable env")
  case True
  then obtain a where a: "hdLocalAgent h = Some a" "heAvailable env" by blast
  obtain a1 d1 sent r where l: "local_HandleMessage (heRelayCodec env) (heKeys env) (heNow env) [heUuid env 1, heUuid env 2]
      (heChat env) msg a (hdDisk h) = (a1, d1, sent, r)" by (metis prod_cases4)
  show ?thesis
    using assms a l local_response [OF l]
    by (auto simp: local_stage_def contained_def core_of_def Let_def dest!: respond_with_Some_eq split: prod.splits)
next
  case False
  then show ?thesis
    using assms
    by (auto simp: local_stage_def contained_def core_of_def Let_def dest!: respond_with_Some_eq split: prod.splits option.splits bool.splits)
qed

lemma handle_third_party_contained:
  assumes "handle_third_party env (Some rid) msg h = (h', effs, err)"
  shows "contained rid msg h h' effs"
proof (cases "\<exists>c. hdTrustConfig h = Some c \<and> tpEnabled (tcThirdParty c)")
  case False
  then show ?thesis
    using assms by (auto simp: handle_third_party_def contained_def dest!: respond_with_Some_eq split: option.splits prod.splits)
next
  case True
  then obtain c where c: "hdTrustConfig h = Some c" "tpEnabled (tcThirdParty c)" by blast
  obtain h1 e1 sx where s: "sandbox_stage env msg h = (h1, e1, sx)" by (metis prod_cases3)
  note core = sandbox_stage_core [OF s]
  show ?thesis
  proof (cases sx)
    case (Some x)
    then show ?thesis
      using assms c s core
      by (auto simp: handle_third_party_def contained_def dest!: respond_with_Some_eq split: prod.splits)
  next
    case None
    obtain h2 e2 er where l: "local_stage env (Some rid) msg (tcThirdParty c) h1 = (h2, e2, er)" by (metis prod_cases3)
    then show ?thesis
      using assms c s None core local_stage_contained [OF l] by (auto simp: handle_third_party_def contained_def)
  qed
qed

text \<open>C23. A message of a third party never reaches the agent and never changes tasks, approvals or
  responders, whatever it says; its sender gets exactly one response, which is final.\<close>

theorem third_party_contained:
  assumes "IsThirdParty (tier_of msg h)"
  shows "\<exists>h' effs err. HandleMessage (Suc n) env msg (Some rid) h = Some (h', effs, err) \<and>
    hdInFlight h' = hdInFlight h \<and> hdExecutions h' = hdExecutions h \<and> hdAudit h' = hdAudit h \<and>
    hdResponders h' = hdResponders h \<and> filter is_run effs = [] \<and>
    (\<exists>r. filter is_sent effs = [Sent rid r] \<and> rpDone r \<and> rpSessionID r = cmSessionID msg)"
proof -
  obtain h' effs err where o': "handle_third_party env (Some rid) msg h = (h', effs, err)" by (metis prod_cases3)
  from handle_third_party_contained [OF o'] o' assms show ?thesis
    by (auto simp: contained_def core_of_def)
qed

text \<open>The buttons under a Telegram approval request have no effect: the message they make carries
  no sender, so it counts as one of a third party, even when the owner presses the button.\<close>

theorem telegram_approval_dropped:
  assumes "handleCallbackQuery uuid cq = Some msg" and "hdTrustConfig h = Some cfg"
  shows "\<exists>h' effs err. HandleMessage (Suc n) env msg (Some rid) h = Some (h', effs, err) \<and>
    hdExecutions h' = hdExecutions h \<and> hdInFlight h' = hdInFlight h \<and> filter is_run effs = []"
proof -
  have "cmChannel msg = ''telegram''" "cmSenderPhone msg = ''''" "cmSenderTelegramID msg = 0" "\<not> cmIsInAllowlist msg"
    "cmMetadata msg ''proactive'' = None"
    using assms(1) by (auto simp: handleCallbackQuery_def Let_def zero_message_def split: option.splits if_splits prod.splits)
  then have "IsThirdParty (tier_of msg h)"
    using assms(2) by (simp add: tier_of_def IsThirdParty_def ClassifyWithAllowlist_def isOwner_def)
  from third_party_contained [OF this, of n env rid] show ?thesis by blast
qed


section \<open>Messages for the agent\<close>

lemma eventToResponse_session:
  "eventToResponse u e msg = Some r \<Longrightarrow> rpSessionID r = cmSessionID msg"
  by (auto simp: eventToResponse_def Let_def split: option.splits list.splits if_splits)

lemma eventToResponse_error: "eventToResponse u e msg = Some r \<Longrightarrow> rpType r = ''error'' \<Longrightarrow> rpDone r"
  by (auto simp: eventToResponse_def Let_def split: option.splits list.splits if_splits)

definition final_for :: "string \<Rightarrow> string \<Rightarrow> handler_effect list \<Rightarrow> bool" where
  "final_for rid s effs \<longleftrightarrow> (\<exists>r. Sent rid r \<in> set effs \<and> rpDone r \<and> rpSessionID r = s)"

lemma final_for_append: "final_for rid s (a @ b) \<longleftrightarrow> final_for rid s a \<or> final_for rid s b"
  by (auto simp: final_for_def)

lemma final_for_simps [simp]:
  "\<not> final_for rid s []"
  "final_for rid s (RunAgent t u sn i # b) \<longleftrightarrow> final_for rid s b"
  "final_for rid s (Sent rid' r # b) \<longleftrightarrow> rid' = rid \<and> rpDone r \<and> rpSessionID r = s \<or> final_for rid s b"
  by (auto simp: final_for_def)


text \<open>The loop runs no agent, and when it reports a final response it has sent one.\<close>

lemma relay_events_ok:
  "relay_events env rid msg k es d = (d', out, fin) \<Longrightarrow> filter is_run out = [] \<and>
     (fin \<longrightarrow> (\<forall>i. rid = Some i \<longrightarrow> final_for i (cmSessionID msg) out))"
proof (induction env rid msg k es d arbitrary: d' out fin rule: relay_events.induct)
  case (2 env rid msg k e es d)
  show ?case
  proof (cases "eventToResponse (heUuid env k) e msg")
    case None
    then show ?thesis using "2.IH"(1) [OF None, of d' out fin] "2.prems" by simp
  next
    case (Some r)
    note s = eventToResponse_session [OF Some] and er = eventToResponse_error [OF Some]
    consider (tool) "rpType r = ''tool_call'' \<or> rpType r = ''tool_result''" | (error) "rpType r = ''error''"
      | (final) "rpType r \<noteq> ''tool_call'' \<and> rpType r \<noteq> ''tool_result''" "rpType r \<noteq> ''error''" "rpContent r \<noteq> '''' \<or> rpDone r"
      | (skip) "rpType r \<noteq> ''tool_call'' \<and> rpType r \<noteq> ''tool_result''" "rpType r \<noteq> ''error''" "\<not> (rpContent r \<noteq> '''' \<or> rpDone r)"
      by blast
    then show ?thesis
    proof cases
      case tool
      obtain d1 o1 f1 where q: "relay_events env rid msg (Suc k) es d = (d1, o1, f1)" by (metis prod_cases3)
      from "2.IH"(2) [OF Some tool q] show ?thesis
        using "2.prems" Some tool q by auto
    next
      case error
      obtain d1 o1 f1 where q: "relay_events env rid msg (Suc k) es d = (d1, o1, f1)" by (metis prod_cases3)
      have "out = fst (respond_with env rid r) @ o1" using "2.prems" Some error q by simp
      then show ?thesis
        using "2.IH"(3) [OF Some _ error q] error er s by auto
    next
      case final
      obtain d0 t meta where x: "extractSendFiles env (rpContent r) (rpMetadata r) d = (d0, t, meta)" by (metis prod_cases3)
      obtain d1 o1 f1 where q: "relay_events env rid msg (Suc k) es d0 = (d1, o1, f1)" by (metis prod_cases3)
      have o: "out = fst (respond_with env rid (r\<lparr>rpContent := t, rpMetadata := meta\<rparr>)) @ o1" "fin = (rpDone r \<or> f1)"
        using "2.prems" Some final x q by simp_all
      have "\<not> (rpType r = ''tool_call'' \<or> rpType r = ''tool_result'')" using final(1) by simp
      from "2.IH"(4) [OF Some this final(2,3) x [symmetric] refl refl q] o s show ?thesis by auto
    next
      case skip
      have e: "relay_events env rid msg k (e # es) d = relay_events env rid msg (Suc k) es d"
        using Some skip by simp
      show ?thesis using "2.IH"(5) [OF Some] skip "2.prems" unfolding e by blast
    qed
  qed
qed simp

lemma fork_stage_runs: "fork_stage env rid msg h = (h1, e1, msg1) \<Longrightarrow>
    filter is_run e1 = [] \<and> cmUserID msg1 = cmUserID msg \<and> cmContent msg1 = cmContent msg \<and> core_of h1 = core_of (h\<lparr>hdResponders := hdResponders h1\<rparr>)"
  by (auto simp: fork_stage_def core_of_def Let_def split: option.splits if_splits prod.splits sum.splits)


lemma with_tier_fields [simp]:
  "cmSessionID (with_tier t msg) = cmSessionID msg" "cmUserID (with_tier t msg) = cmUserID msg"
  "cmContent (with_tier t msg) = cmContent msg"
  by (simp_all add: with_tier_def)

lemma handle_trusted_runs:
  assumes "handle_trusted env tier rid msg h = (h', effs, err)"
  shows "\<exists>s inp. filter is_run effs = [RunAgent tier (cmUserID msg) s inp] \<and> uiContent inp = cmContent msg \<and>
    (\<forall>i. rid = Some i \<longrightarrow> final_for i s effs)"
proof -
  let ?h0 = "h\<lparr>hdResponders := responder_Register (cmSessionID msg) rid (cmMetadata msg) (hdResponders h)\<rparr>"
  obtain h1 e1 m where f: "fork_stage env rid msg ?h0 = (h1, e1, m)" by (metis prod_cases3)
  let ?inp = "user_input_of m" and ?s = "cmSessionID m"
  note fr = fork_stage_runs [OF f]
  have "filter is_run effs = [RunAgent tier (cmUserID msg) ?s ?inp] \<and> (\<forall>i. rid = Some i \<longrightarrow> final_for i ?s effs)"
  proof (cases "heRun env tier (cmUserID m) ?s ?inp")
    case (Inl e)
    obtain c where "effs = e1 @ [RunAgent tier (cmUserID m) ?s ?inp] @ fst (respond_with env rid (reply env 5 m ''error'' c))"
      using assms f Inl by (auto simp: handle_trusted_def Let_def)
    then show ?thesis using fr by (auto simp: final_for_append)
  next
    case (Inr events)
    obtain d2 out fin where q: "relay_events env rid m 6 events (hdDisk h1) = (d2, out, fin)" by (metis prod_cases3)
    have "effs = e1 @ [RunAgent tier (cmUserID m) ?s ?inp] @ out @
        (if fin then [] else fst (respond_with env rid (reply env 5 m ''done'' '''')))"
      using assms f Inr q by (simp add: handle_trusted_def Let_def)
    then show ?thesis
      using fr relay_events_ok [OF q] by (auto simp: final_for_append)
  qed
  then show ?thesis using fr by (auto simp: user_input_of_def)
qed

text \<open>C24. A message of a trusted sender without an approval action runs the agent exactly once,
  under the sender's tier, and the sender gets a final response for the session of that run,
  whether the run fails, ends without a final event, or reports an error.\<close>

theorem agent_answers:
  assumes "\<not> IsThirdParty (tier_of msg h)" and "meta_string (cmMetadata msg) ''approval_action'' = None"
  shows "\<exists>h' effs err s inp. HandleMessage (Suc n) env msg (Some rid) h = Some (h', effs, err) \<and>
    filter is_run effs = [RunAgent (tier_of msg h) (cmUserID msg) s inp] \<and> uiContent inp = cmContent msg \<and>
    (\<exists>r. Sent rid r \<in> set effs \<and> rpDone r \<and> rpSessionID r = s)"
proof -
  have "meta_string (cmMetadata (with_tier t msg)) ''approval_action'' = None" for t
    using assms(2) by (simp add: with_tier_def meta_string_def)
  then have e: "HandleMessage (Suc n) env msg (Some rid) h =
      Some (handle_trusted env (tier_of msg h) (Some rid) (with_tier (tier_of msg h) msg) h)"
    using assms(1) by (simp add: Let_def)
  obtain h' effs err where t: "handle_trusted env (tier_of msg h) (Some rid) (with_tier (tier_of msg h) msg) h = (h', effs, err)"
    by (metis prod_cases3)
  from handle_trusted_runs [OF t] e t show ?thesis by (auto simp: final_for_def)
qed

section \<open>Handling ends\<close>

definition plain_responders :: "handler \<Rightarrow> bool" where
  "plain_responders h \<longleftrightarrow>
     (\<forall>sid rid m. hdResponders h sid = Some (rid, m) \<longrightarrow> meta_string m ''approval_action'' = None)"

lemma plain_registered:
  "plain_responders h \<Longrightarrow> meta_string m ''approval_action'' = None \<Longrightarrow>
     plain_responders (h\<lparr>hdResponders := responder_Register sid rid m (hdResponders h)\<rparr>)"
  by (auto simp: plain_responders_def responder_Register_def)

lemma plain_cong: "hdResponders h' = hdResponders h \<Longrightarrow> plain_responders h' = plain_responders h"
  by (simp add: plain_responders_def)

lemma fork_stage_plain:
  assumes "fork_stage env rid msg h = (h1, e1, m)" and "plain_responders h" and "meta_string (cmMetadata msg) ''approval_action'' = None"
  shows "plain_responders h1"
proof -
  have "meta_string ((cmMetadata msg)(''parent_session_id'' \<mapsto> v)) ''approval_action'' = None" for v
    using assms(3) by (simp add: meta_string_def)
  then show ?thesis
    using assms by (auto simp: fork_stage_def Let_def plain_responders_def responder_Register_def
        split: option.splits if_splits prod.splits sum.splits)
qed

lemma handle_trusted_plain:
  assumes "handle_trusted env tier rid msg h = (h', effs, err)" and "plain_responders h"
    and "meta_string (cmMetadata msg) ''approval_action'' = None"
  shows "plain_responders h'"
proof -
  let ?h0 = "h\<lparr>hdResponders := responder_Register (cmSessionID msg) rid (cmMetadata msg) (hdResponders h)\<rparr>"
  obtain h1 e1 m where f: "fork_stage env rid msg ?h0 = (h1, e1, m)" by (metis prod_cases3)
  have "plain_responders h1" by (rule fork_stage_plain [OF f plain_registered [OF assms(2,3)] assms(3)])
  moreover have "hdResponders h' = hdResponders h1"
    using assms(1) f by (auto simp: handle_trusted_def Let_def split: sum.splits prod.splits)
  ultimately show ?thesis by (simp add: plain_responders_def)
qed

lemma completion_runs:
  assumes "plain_responders h" and "hdInFlight h = Some st"
  obtains rid msg h' effs err where
    "InjectCompletion env (HandleMessage (Suc n) env) sid uid tid agentName result h = Some (h', effs, err)"
    "handle_trusted env TrustTierOwner rid msg h = (h', effs, err)" "plain_responders h'"
    "cmUserID msg = uid" "cmSessionID msg = sid"
    "rid = (case responder_Get sid (hdResponders h) of Some (r, _) \<Rightarrow> r | None \<Rightarrow> None)"
    "cmContent msg = completion_text tid agentName result st"
proof -
  obtain rid meta where g: "(case responder_Get sid (hdResponders h) of Some rm \<Rightarrow> rm | None \<Rightarrow> (None, Map.empty)) = (rid, meta)"
    by fastforce
  then have m: "meta_string meta ''approval_action'' = None"
    using assms(1) by (auto simp: responder_Get_def plain_responders_def meta_string_def split: option.splits)
  let ?msg = "completion_message env sid uid (completion_text tid agentName result st) meta"
  have a: "meta_string (cmMetadata (with_tier TrustTierOwner ?msg)) ''approval_action'' = None"
    using m by (simp add: completion_message_def with_tier_def meta_string_def)
  have t: "tier_of ?msg h = TrustTierOwner" by (simp add: tier_of_def completion_message_def)
  obtain h' effs err where o': "handle_trusted env TrustTierOwner rid (with_tier TrustTierOwner ?msg) h = (h', effs, err)"
    by (metis prod_cases3)
  have "HandleMessage (Suc n) env ?msg rid h = Some (handle_trusted env TrustTierOwner rid (with_tier TrustTierOwner ?msg) h)"
    unfolding HandleMessage.simps Let_def t a by (simp add: IsThirdParty_def)
  then have "HandleMessage (Suc n) env ?msg rid h = Some (h', effs, err)" using o' by simp
  moreover have "rid = (case responder_Get sid (hdResponders h) of Some (r, _) \<Rightarrow> r | None \<Rightarrow> None)"
    using g by (auto split: option.splits)
  ultimately show thesis
    using that [of h' effs err rid "with_tier TrustTierOwner ?msg"] o' g assms(2) handle_trusted_plain [OF o' assms(1) a]
    by (simp add: InjectCompletion_def) (simp add: completion_message_def)
qed


lemma resolve_task_responders [simp]: "hdResponders (resolve_task env i b t st h) = hdResponders h"
  by (simp add: resolve_task_def)

lemma legacy_injects:
  assumes "hdInFlight h = Some st" and "Get i st = Some t" and "Status t = TaskPendingApproval"
    and "action \<in> {''approve'', ''reject''}" and "ApprovalRequest t = Some ar"
  shows "handleApprovalActionLegacy env hm i action h =
    InjectCompletion env hm (SessionID t) (UserID t) i (AgentName t) (approval_result (action = ''approve'') (arToolName ar))
      (resolve_task env i (action = ''approve'') t st h)"
  using assms by (simp add: handleApprovalActionLegacy_def Let_def)

lemma legacy_ends:
  assumes "plain_responders h"
  shows "\<exists>h' effs err. handleApprovalActionLegacy env (HandleMessage (Suc n) env) i action h = Some (h', effs, err) \<and> plain_responders h'"
proof (cases "\<exists>st t. hdInFlight h = Some st \<and> Get i st = Some t \<and> Status t = TaskPendingApproval \<and>
    action \<in> {''approve'', ''reject''} \<and> ApprovalRequest t \<noteq> None")
  case False
  then show ?thesis
    using assms by (auto simp: handleApprovalActionLegacy_def Let_def plain_responders_def split: option.splits)
next
  case True
  then obtain st t ar where s: "hdInFlight h = Some st" "Get i st = Some t" "Status t = TaskPendingApproval"
    "action \<in> {''approve'', ''reject''}" "ApprovalRequest t = Some ar" by blast
  let ?h1 = "resolve_task env i (action = ''approve'') t st h"
  have p: "plain_responders ?h1" using assms by (simp add: plain_responders_def)
  obtain st1 where "hdInFlight ?h1 = Some st1" by (simp add: resolve_task_def)
  from completion_runs [OF p this] show ?thesis unfolding legacy_injects [OF s] by metis
qed

lemma approval_ends:
  assumes "plain_responders h"
  shows "\<exists>h' effs err. handleApprovalAction env (HandleMessage (Suc n) env) msg action h = Some (h', effs, err) \<and> plain_responders h'"
  using assms legacy_ends [OF assms, of env n] 
  by (auto simp: handleApprovalAction_def Let_def plain_responders_def split: option.splits prod.splits)

lemma HandleMessage_ends:
  assumes "plain_responders h"
  shows "\<exists>h' effs err. HandleMessage (Suc (Suc n)) env msg rid h = Some (h', effs, err) \<and> plain_responders h'"
proof (cases "IsThirdParty (tier_of msg h)")
  case True
  obtain h' effs err where o': "handle_third_party env rid msg h = (h', effs, err)" by (metis prod_cases3)
  have "hdResponders h' = hdResponders h"
    using o' by (auto simp: handle_third_party_def local_stage_def sandbox_stage_def Let_def split: option.splits if_splits prod.splits bool.splits)
  then show ?thesis using True o' assms by (simp add: plain_responders_def)
next
  case False
  let ?t = "tier_of msg h"
  show ?thesis
  proof (cases "meta_string (cmMetadata (with_tier ?t msg)) ''approval_action''")
    case None
    obtain h' effs err where o': "handle_trusted env ?t rid (with_tier ?t msg) h = (h', effs, err)" by (metis prod_cases3)
    have "HandleMessage (Suc (Suc n)) env msg rid h = Some (h', effs, err)"
      using False None o' by (subst HandleMessage.simps) (simp add: Let_def)
    then show ?thesis using handle_trusted_plain [OF o' assms None] by blast
  next
    case (Some action)
    have "HandleMessage (Suc (Suc n)) env msg rid h = handleApprovalAction env (HandleMessage (Suc n) env) (with_tier ?t msg) action h"
      using False Some by (subst HandleMessage.simps) (simp add: Let_def)
    then show ?thesis using approval_ends [OF assms] by metis
  qed
qed


text \<open>A run of the handler from its construction on, and whether the owner's notifier is set up.\<close>

fun handler_run :: "(handler_env \<times> channel_message \<times> string option) list \<Rightarrow> handler \<Rightarrow> handler option" where
  "handler_run [] h = Some h"
| "handler_run ((env, msg, rid) # ms) h =
     (case HandleMessage 2 env msg rid h of None \<Rightarrow> None | Some (h', _, _) \<Rightarrow> handler_run ms h')"

lemma NewHandler_plain: "NewHandler env dp cfg db fl au ex d = Some h \<Longrightarrow> plain_responders h"
  by (auto simp: NewHandler_def Let_def plain_responders_def split: option.splits if_splits prod.splits)

lemma handler_run_ends: "plain_responders h \<Longrightarrow> \<exists>h'. handler_run ms h = Some h' \<and> plain_responders h'"
proof (induction ms arbitrary: h)
  case (Cons m ms)
  obtain env msg rid where m: "m = (env, msg, rid)" by (metis prod_cases3)
  obtain h1 e r where "HandleMessage 2 env msg rid h = Some (h1, e, r)" "plain_responders h1"
    using HandleMessage_ends [OF Cons.prems, of 0 env msg rid] by (auto simp: numeral_2_eq_2)
  then show ?case using Cons.IH m by simp
qed simp

text \<open>C25. No message makes the handler call itself more than once: in every state reached from its
  construction two levels are enough, although a decision that cannot be signalled injects a
  message whose metadata come from an earlier one.\<close>

theorem handler_ends:
  assumes "NewHandler env dp cfg db fl au ex d = Some h0"
  shows "\<exists>h. handler_run ms h0 = Some h \<and> (\<exists>out. HandleMessage 2 env' msg rid h = Some out)"
proof -
  obtain h where h: "handler_run ms h0 = Some h" "plain_responders h"
    using handler_run_ends [OF NewHandler_plain [OF assms]] by blast
  then show ?thesis using HandleMessage_ends [OF h(2), of 0 env' msg rid] by (auto simp: numeral_2_eq_2)
qed

lemma handle_trusted_stores:
  "handle_trusted env tier rid msg h = (h', effs, err) \<Longrightarrow> hdInFlight h' = hdInFlight h \<and> hdExecutions h' = hdExecutions h"
  by (auto simp: handle_trusted_def fork_stage_def Let_def split: prod.splits sum.splits option.splits if_splits)

section \<open>Where trust is lost\<close>

text \<open>The tier of a WebSocket message is decided by its sender alone: with the flag of proactive
  jobs in its metadata it is the owner's, whoever sends it, and without it a third party's,
  whatever token the client showed.\<close>

theorem websocket_tier:
  assumes "ws_receive decode save uuid inp c = (c', msg)" and "hdTrustConfig h = Some cfg"
  shows "tier_of msg h =
    (if wiMetadata inp ''proactive'' = Some (JBool True) then TrustTierOwner else TrustTierThirdParty)"
proof -
  have "cmChannel msg = ''websocket''" "cmSenderPhone msg = ''''" "cmSenderTelegramID msg = 0" "\<not> cmIsInAllowlist msg"
    "cmMetadata msg ''proactive'' = wiMetadata inp ''proactive''"
    using assms(1) by (auto simp: ws_receive_def Let_def zero_message_def split: option.splits if_splits)
  then show ?thesis using assms(2) by (simp add: tier_of_def ClassifyWithAllowlist_def isOwner_def)
qed

text \<open>The completion of a task runs the agent as the owner, whoever asked for the task: what an
  allow-listed sender started with the rights of an authorized one ends with the right to send
  messages to others.\<close>

theorem completion_runs_as_owner:
  assumes "plain_responders h" and "tier_of msg h = TrustTierAuthorized" and "hdInFlight h = Some st"
    and "meta_string (cmMetadata msg) ''approval_action'' = None" and "HandleMessage (Suc n) env msg (Some rid) h = Some (h1, e1, r1)"
    and "InjectCompletion env' (HandleMessage (Suc k) env') sid uid tid agentName result h1 = Some (h2, e2, r2)"
  shows "(\<exists>s i. filter is_run e1 = [RunAgent TrustTierAuthorized (cmUserID msg) s i]) \<and>
    (\<exists>s i. filter is_run e2 = [RunAgent TrustTierOwner uid s i]) \<and>
    \<not> CanSendToOthers TrustTierAuthorized \<and> CanSendToOthers TrustTierOwner"
proof -
  have a: "meta_string (cmMetadata (with_tier t msg)) ''approval_action'' = None" for t
    using assms(4) by (simp add: with_tier_def meta_string_def)
  have t1: "handle_trusted env TrustTierAuthorized (Some rid) (with_tier TrustTierAuthorized msg) h = (h1, e1, r1)"
    using assms(2,5) a by (simp add: IsThirdParty_def)
  have p: "plain_responders h1" by (rule handle_trusted_plain [OF t1 assms(1) a])
  have "hdInFlight h1 = Some st" using handle_trusted_stores [OF t1] assms(3) by simp
  from completion_runs [OF p this] obtain rid' m h' effs err where c:
    "InjectCompletion env' (HandleMessage (Suc k) env') sid uid tid agentName result h1 = Some (h', effs, err)"
    "handle_trusted env' TrustTierOwner rid' m h1 = (h', effs, err)" "cmUserID m = uid" by metis
  then have "handle_trusted env' TrustTierOwner rid' m h1 = (h2, e2, r2)" using assms(6) by simp
  from handle_trusted_runs [OF this] handle_trusted_runs [OF t1] c(3) show ?thesis
    by (auto simp: CanSendToOthers_def)
qed

text \<open>The handler's sandbox has no notifier.\<close>

definition silent_sandbox :: "handler \<Rightarrow> bool" where
  "silent_sandbox h \<longleftrightarrow> (\<forall>sb. hdSandbox h = Some sb \<longrightarrow> \<not> sbNotifier sb)"


lemma ProcessMessage_notifier:
  "ProcessMessage rc ks now u msg sb d = (sb1, d1, sx, note) \<Longrightarrow> sbNotifier sb1 = sbNotifier sb \<and> (\<not> sbNotifier sb \<longrightarrow> note = None)"
  by (auto simp: ProcessMessage_def Let_def split: prod.splits if_splits)

lemma sandbox_stage_silent:
  "sandbox_stage env msg h = (h1, e1, sx) \<Longrightarrow> silent_sandbox h \<Longrightarrow> silent_sandbox h1 \<and> e1 = [] \<and> hdLocalAgent h1 = hdLocalAgent h"
  by (auto simp: sandbox_stage_def silent_sandbox_def dest!: ProcessMessage_notifier split: option.splits prod.splits)

lemma local_stage_sandbox: "local_stage env rid msg tp h = (h', e, r) \<Longrightarrow> hdSandbox h' = hdSandbox h"
  by (auto simp: local_stage_def Let_def split: option.splits prod.splits bool.splits)

lemma third_party_silent:
  assumes "handle_third_party env rid msg h = (h', e, r)" and "silent_sandbox h"
  shows "silent_sandbox h'"
proof -
  obtain h1 e1 sx where s: "sandbox_stage env msg h = (h1, e1, sx)" by (metis prod_cases3)
  note q = sandbox_stage_silent [OF s assms(2)]
  show ?thesis
    using assms s q local_stage_sandbox
    by (auto simp: handle_third_party_def Let_def silent_sandbox_def split: option.splits if_splits prod.splits)
qed

lemma handle_trusted_sandbox: "handle_trusted env tier rid msg h = (h', e, r) \<Longrightarrow> hdSandbox h' = hdSandbox h"
  by (auto simp: handle_trusted_def fork_stage_def Let_def split: prod.splits sum.splits option.splits if_splits)

lemma approval_silent:
  assumes "\<And>msg rid h h' e r. hm msg rid h = Some (h', e, r) \<Longrightarrow> silent_sandbox h \<Longrightarrow> silent_sandbox h'"
    and "handleApprovalAction env hm msg action h = Some (h', e, r)" and "silent_sandbox h"
  shows "silent_sandbox h'"
proof -
  have i: "silent_sandbox h2" if "InjectCompletion env hm s u t a x h1 = Some (h2, e2, r2)" "silent_sandbox h1" for s u t a x h1 h2 e2 r2
    using that assms(1) by (auto simp: InjectCompletion_def split: option.splits prod.splits)
  have "silent_sandbox (resolve_task env i b t st h)" for i b t st
    using assms(3) by (simp add: silent_sandbox_def resolve_task_def)
  then have "silent_sandbox h2" if "handleApprovalActionLegacy env hm i action h = Some (h2, e2, r2)" for i h2 e2 r2
    using that i assms(3) by (auto simp: handleApprovalActionLegacy_def Let_def split: option.splits if_splits)
  then show ?thesis
    using assms(2,3) by (auto simp: handleApprovalAction_def Let_def silent_sandbox_def split: option.splits if_splits prod.splits)
qed

lemma HandleMessage_silent: "HandleMessage n env msg rid h = Some (h', e, r) \<Longrightarrow> silent_sandbox h \<Longrightarrow> silent_sandbox h'"
proof (induction n arbitrary: msg rid h h' e r)
  case (Suc n)
  let ?t = "tier_of msg h"
  consider "handle_third_party env rid msg h = (h', e, r)"
    | "handle_trusted env ?t rid (with_tier ?t msg) h = (h', e, r)"
    | action where "handleApprovalAction env (HandleMessage n env) (with_tier ?t msg) action h = Some (h', e, r)"
    using Suc.prems(1) by (auto simp: Let_def split: if_splits option.splits)
  then show ?case
  proof cases
    case 1
    then show ?thesis using third_party_silent Suc.prems(2) by blast
  next
    case 2
    then show ?thesis using handle_trusted_sandbox Suc.prems(2) by (simp add: silent_sandbox_def)
  next
    case 3
    show ?thesis by (rule approval_silent [where hm = "HandleMessage n env", OF _ 3 Suc.prems(2)]) (rule Suc.IH)
  qed
qed simp

lemma handler_run_silent: "handler_run ms h = Some h' \<Longrightarrow> silent_sandbox h \<Longrightarrow> silent_sandbox h'"
proof (induction ms h rule: handler_run.induct)
  case (2 env msg rid ms h)
  then show ?case by (auto dest: HandleMessage_silent split: option.splits simp del: HandleMessage.simps)
qed simp

lemma NewHandler_silent: "NewHandler env dp cfg db fl au ex d = Some h \<Longrightarrow> silent_sandbox h"
  by (auto simp: NewHandler_def Let_def silent_sandbox_def NewSandbox_def split: option.splits if_splits prod.splits)

lemma ProcessMessage_relay:
  assumes "ProcessMessage rc ks now u msg sb d = (sb1, d1, sx, note)" and "DetectRelayRequest (cmContent msg) \<noteq> ''''"
    and "tpAllowRelay (sbCfg sb)" and "\<not> snd (snd (Increment (cmSessionID msg) (sbTracker sb)))"
  shows "\<exists>x. sx = Some x \<and> sxMessage x = relay_message"
proof -
  obtain t c where i: "Increment (cmSessionID msg) (sbTracker sb) = (t, c, False)"
    using assms(4) by (cases "Increment (cmSessionID msg) (sbTracker sb)") auto
  obtain m where m: "DetectRelayRequest (cmContent msg) = m" "m \<noteq> ''''" using assms(2) by blast
  have "fst (snd (snd (ProcessMessage rc ks now u msg sb d))) =
      Some \<lparr>sxMessage = relay_message, sxIsRelayRequest = True,
        sxRelayRequest = Some \<lparr>rrID = u, rrSessionID = cmSessionID msg, rrSenderPhone = cmSenderPhone msg,
          rrSenderName = push_name msg, rrMessage = m, rrOriginalText = cmContent msg, rrCreatedAt = now,
          rrChannel = cmChannel msg, rrStatus = ''pending''\<rparr>, sxLimitExceeded = False\<rparr>"
    using assms(3) m(2) unfolding ProcessMessage_def i m(1) by (simp add: Let_def split_def)
  then show ?thesis using assms(1) by simp
qed

text \<open>A relay request the sandbox recognizes is never reported to the owner: the handler builds its
  sandbox without a notifier, so nothing is sent and nothing is queued for a digest, although the
  answer promises that the owner will be notified.\<close>

theorem relay_unreported:
  assumes "NewHandler env0 dp cfg0 db fl au ex d = Some h0" and "handler_run ms h0 = Some h"
    and "IsThirdParty (tier_of msg h)" and "hdTrustConfig h = Some cfg" and "tpEnabled (tcThirdParty cfg)"
    and "hdSandbox h = Some sb" and "DetectRelayRequest (cmContent msg) \<noteq> ''''" and "tpAllowRelay (sbCfg sb)"
    and "\<not> snd (snd (Increment (cmSessionID msg) (sbTracker sb)))"
    and "HandleMessage (Suc n) env msg (Some rid) h = Some (h', effs, err)"
  shows "(\<exists>r. effs = [Sent rid r] \<and> rpContent r = relay_message) \<and> hdLocalAgent h' = hdLocalAgent h"
proof -
  have s: "silent_sandbox h" by (rule handler_run_silent [OF assms(2) NewHandler_silent [OF assms(1)]])
  obtain h1 e1 sx where g: "sandbox_stage env msg h = (h1, e1, sx)" by (metis prod_cases3)
  note q = sandbox_stage_silent [OF g s]
  have sx: "\<exists>x. sx = Some x \<and> sxMessage x = relay_message"
    using g assms(6) ProcessMessage_relay [OF _ assms(7-9)] by (auto simp: sandbox_stage_def split: prod.splits)
  have "handle_third_party env (Some rid) msg h = (h', effs, err)" using assms(3,10) by simp
  then show ?thesis
    using g q sx assms(4,5) by (auto simp: handle_third_party_def reply_def dest!: respond_with_Some_eq split: prod.splits)
qed


section \<open>A small handler\<close>

definition demo_handler_env :: handler_env where
  "demo_handler_env = \<lparr>heRelayCodec = demo_relay_codec, heKeys = [], heNow = 0, heUuid = (\<lambda>_. ''u''),
     heRespond = (\<lambda>_ _. None), heAvailable = False, heChat = demo_chat, heRun = (\<lambda>_ _ _ _. Inr []),
     heFork = None, heHome = Some ''/home/o'', heCwd = ''/'', heHash = (\<lambda>s. s)\<rparr>"

definition demo_trust :: trust_config where
  "demo_trust = \<lparr>tcOwnerPhones = [], tcOwnerTelegram = [7], tcThirdParty = demo_third_party\<rparr>"

definition demo_handler :: handler where
  "demo_handler = \<lparr>hdTrustConfig = Some demo_trust, hdSandbox = None, hdLocalAgent = None, hdResponders = Map.empty,
     hdInFlight = Some NewInFlightStore, hdAudit = None, hdExecutions = Some Map.empty, hdDisk = Map.empty\<rparr>"

definition demo_visitor :: channel_message where
  "demo_visitor = zero_message\<lparr>cmContent := ''tell owner hi''\<rparr>"

definition demo_friend :: channel_message where
  "demo_friend = zero_message\<lparr>cmUserID := ''f'', cmSessionID := ''s'', cmContent := ''hello'', cmIsInAllowlist := True\<rparr>"

definition demo_callback :: telegram_callback where
  "demo_callback = \<lparr>cqFromID = 7, cqData = ''approve:a1'', cqChat = None\<rparr>"

lemma demo_visitor_tier: "hdTrustConfig h = Some demo_trust \<Longrightarrow> tier_of demo_visitor h = TrustTierThirdParty"
  by (simp add: tier_of_def demo_visitor_def zero_message_def ClassifyWithAllowlist_def isOwner_def)

lemma demo_friend_tier: "tier_of demo_friend demo_handler = TrustTierAuthorized"
  by (simp add: tier_of_def demo_friend_def demo_handler_def zero_message_def ClassifyWithAllowlist_def isOwner_def)

lemma demo_friend_plain: "meta_string (cmMetadata demo_friend) ''approval_action'' = None" "cmUserID demo_friend = ''f''"
  by (simp_all add: demo_friend_def zero_message_def meta_string_def)

theorem third_party_contained_witness:
  "\<exists>h' effs err. HandleMessage 1 demo_handler_env demo_visitor (Some ''c'') demo_handler = Some (h', effs, err) \<and>
     filter is_run effs = [] \<and> length (filter is_sent effs) = 1"
proof -
  have "IsThirdParty (tier_of demo_visitor demo_handler)"
    by (simp add: demo_visitor_tier demo_handler_def IsThirdParty_def)
  from third_party_contained [OF this, of 0 demo_handler_env "''c''"] show ?thesis by (auto simp del: HandleMessage.simps)
qed

theorem telegram_approval_dropped_witness:
  "\<exists>m h' effs err. handleCallbackQuery ''u'' demo_callback = Some m \<and>
     HandleMessage 1 demo_handler_env m (Some ''c'') demo_handler = Some (h', effs, err) \<and> hdExecutions h' = hdExecutions demo_handler"
proof -
  obtain m where m: "handleCallbackQuery ''u'' demo_callback = Some m"
    by (simp add: handleCallbackQuery_def split_n2_def demo_callback_def)
  have "hdTrustConfig demo_handler = Some demo_trust" by (simp add: demo_handler_def)
  from telegram_approval_dropped [OF m this, of 0 demo_handler_env "''c''"] m show ?thesis
    by (auto simp del: HandleMessage.simps)
qed

theorem agent_answers_witness:
  "\<exists>h' effs err s inp r. HandleMessage 1 demo_handler_env demo_friend (Some ''c'') demo_handler = Some (h', effs, err) \<and>
     filter is_run effs = [RunAgent TrustTierAuthorized ''f'' s inp] \<and> Sent ''c'' r \<in> set effs \<and> rpDone r"
proof -
  have "\<not> IsThirdParty (tier_of demo_friend demo_handler)" by (simp add: demo_friend_tier IsThirdParty_def)
  from agent_answers [OF this demo_friend_plain(1), of 0 demo_handler_env "''c''"] show ?thesis
    by (auto simp: demo_friend_tier demo_friend_plain simp del: HandleMessage.simps)
qed

definition demo_new_handler :: handler where
  "demo_new_handler = the (NewHandler demo_handler_env ''p'' (Some demo_trust) (Inr NewThirdPartyStore) None None None Map.empty)"

lemma demo_new_handler:
  "NewHandler demo_handler_env ''p'' (Some demo_trust) (Inr NewThirdPartyStore) None None None Map.empty = Some demo_new_handler"
  "hdTrustConfig demo_new_handler = Some demo_trust"
  "\<exists>sb. hdSandbox demo_new_handler = Some sb \<and> sbCfg sb = demo_third_party \<and> sbTracker sb = NewSessionTracker 1"
proof -
  have "\<not> through_file Map.empty p" for p by (simp add: through_file_def list_ex_iff)
  then show "NewHandler demo_handler_env ''p'' (Some demo_trust) (Inr NewThirdPartyStore) None None None Map.empty = Some demo_new_handler"
    "hdTrustConfig demo_new_handler = Some demo_trust"
    "\<exists>sb. hdSandbox demo_new_handler = Some sb \<and> sbCfg sb = demo_third_party \<and> sbTracker sb = NewSessionTracker 1"
    by (simp_all add: demo_new_handler_def NewHandler_def Let_def NewRelayStore_def relay_load_def os_ReadFile_def NewSandbox_def
        demo_trust_def demo_third_party_def)
qed

theorem handler_ends_witness:
  "\<exists>h out. handler_run [(demo_handler_env, demo_friend, Some ''c'')] demo_new_handler = Some h \<and>
     HandleMessage 2 demo_handler_env demo_visitor None h = Some out"
  using handler_ends [OF demo_new_handler(1)] by blast

theorem websocket_tier_witness:
  "\<exists>c m. ws_receive (\<lambda>_. None) (\<lambda>_. None) ''u'' \<lparr>wiContent = ''hi'', wiSessionID = '''', wiReplyToEventID = '''',
      wiMetadata = [''proactive'' \<mapsto> JBool True]\<rparr> \<lparr>wcID = ''c'', wcUserID = '''', wcSessionID = ''s''\<rparr> = (c, m) \<and>
     tier_of m demo_handler = TrustTierOwner"
proof -
  let ?i = "\<lparr>wiContent = ''hi'', wiSessionID = '''', wiReplyToEventID = '''', wiMetadata = [''proactive'' \<mapsto> JBool True]\<rparr>"
  obtain c m where w: "ws_receive (\<lambda>_. None) (\<lambda>_. None) ''u'' ?i \<lparr>wcID = ''c'', wcUserID = '''', wcSessionID = ''s''\<rparr> = (c, m)"
    by fastforce
  have "hdTrustConfig demo_handler = Some demo_trust" by (simp add: demo_handler_def)
  from websocket_tier [OF w this] w show ?thesis by simp
qed

theorem completion_runs_as_owner_witness:
  "\<exists>h1 e1 r1 h2 e2 r2 s i. HandleMessage 1 demo_handler_env demo_friend (Some ''c'') demo_handler = Some (h1, e1, r1) \<and>
     InjectCompletion demo_handler_env (HandleMessage 1 demo_handler_env) ''s'' ''f'' ''t'' ''a'' ''done'' h1 = Some (h2, e2, r2) \<and>
     filter is_run e2 = [RunAgent TrustTierOwner ''f'' s i]"
proof -
  have p: "plain_responders demo_handler" "hdInFlight demo_handler = Some NewInFlightStore"
    by (simp_all add: plain_responders_def demo_handler_def)
  have "\<not> IsThirdParty (tier_of demo_friend demo_handler)" by (simp add: demo_friend_tier IsThirdParty_def)
  from agent_answers [OF this demo_friend_plain(1), of 0 demo_handler_env "''c''"] obtain h1 e1 r1
    where 1: "HandleMessage (Suc 0) demo_handler_env demo_friend (Some ''c'') demo_handler = Some (h1, e1, r1)" by blast
  have t: "handle_trusted demo_handler_env TrustTierAuthorized (Some ''c'') (with_tier TrustTierAuthorized demo_friend) demo_handler = (h1, e1, r1)"
    using 1 demo_friend_plain(1) by (simp add: demo_friend_tier IsThirdParty_def with_tier_def meta_string_def)
  have "plain_responders h1"
    by (rule handle_trusted_plain [OF t p(1)]) (use demo_friend_plain(1) in \<open>simp add: with_tier_def meta_string_def\<close>)
  moreover have "hdInFlight h1 = Some NewInFlightStore"
    using t by (auto simp: handle_trusted_def fork_stage_def demo_handler_env_def demo_handler_def Let_def split: prod.splits)
  ultimately obtain h2 e2 r2 where 2: "InjectCompletion demo_handler_env (HandleMessage (Suc 0) demo_handler_env) ''s'' ''f'' ''t'' ''a'' ''done'' h1 = Some (h2, e2, r2)"
    using completion_runs by metis
  from completion_runs_as_owner [OF p(1) demo_friend_tier p(2) demo_friend_plain(1) 1 2] 1 2 show ?thesis
    by (auto simp del: HandleMessage.simps)
qed

theorem relay_unreported_witness:
  "\<exists>h' effs err r. HandleMessage 1 demo_handler_env demo_visitor (Some ''c'') demo_new_handler = Some (h', effs, err) \<and>
     effs = [Sent ''c'' r] \<and> rpContent r = relay_message"
proof -
  have v: "IsThirdParty (tier_of demo_visitor demo_new_handler)"
    by (simp add: demo_visitor_tier demo_new_handler(2) IsThirdParty_def)
  obtain sb where sb: "hdSandbox demo_new_handler = Some sb" "sbCfg sb = demo_third_party" "sbTracker sb = NewSessionTracker 1"
    using demo_new_handler(3) by blast
  have d: "DetectRelayRequest (cmContent demo_visitor) \<noteq> ''''" by code_simp
  have e: "tpEnabled (tcThirdParty demo_trust)" "tpAllowRelay (sbCfg sb)"
    "\<not> snd (snd (Increment (cmSessionID demo_visitor) (sbTracker sb)))"
    by (simp_all add: sb demo_trust_def demo_third_party_def Increment_def NewSessionTracker_def)
  obtain h' effs err where m: "HandleMessage (Suc 0) demo_handler_env demo_visitor (Some ''c'') demo_new_handler = Some (h', effs, err)"
    using third_party_contained [OF v] by blast
  have "handler_run [] demo_new_handler = Some demo_new_handler" by simp
  from relay_unreported [OF demo_new_handler(1) this v demo_new_handler(2) e(1) sb(1) d e(2,3) m] m show ?thesis by auto
qed

end
