(* ===== verification/Callbacks.thy ===== *)
theory Callbacks
  imports HandlerCorrect
begin

text \<open>
  The requests from outside that resolve tasks: the callbacks of external systems
  (\<open>internal/gateway/callbacks.go\<close>), and decisions on approvals and cancellations by the dashboard
  (\<open>internal/gateway/dashboard.go\<close>) and by peers (\<open>internal/p2p/approvals_protocol.go\<close>).  They
  share the task store and the executions with the handler.  The HMAC function is a parameter, and
  the result \<open>None\<close> stands for a handler that ran out of depth.
\<close>

section \<open>Callbacks of external systems\<close>

datatype http_body = Raw string | Object "(string \<times> json) list"

type_synonym http_response = "nat \<times> http_body"

definition http_Error :: "string \<Rightarrow> http_body" where
  "http_Error m = Raw (m @ newline)"

definition error_body :: "string \<Rightarrow> http_body" where
  "error_body m = http_Error (''{\"error\":\"'' @ m @ ''\"}'')"

text \<open>The checks on the state of the task and the body, which is read up to a megabyte.\<close>

definition callback_check ::
  "(string \<Rightarrow> string \<Rightarrow> string) \<Rightarrow> string \<Rightarrow> string \<Rightarrow> string go_result \<Rightarrow> inflight_store \<Rightarrow> http_response + task_state \<times> string" where
  "callback_check hmac i sig body st =
     (case Get i st of
        None \<Rightarrow> Inl (404, error_body ''unknown task'')
      | Some t \<Rightarrow>
          if \<not> External t then Inl (400, error_body ''task is not external'')
          else if Status t \<noteq> TaskRunning then Inl (409, error_body (''task already '' @ status_str (Status t)))
          else
            (case body of
               Inl _ \<Rightarrow> Inl (400, error_body ''failed to read body'')
             | Inr full \<Rightarrow>
                 (let b = take (2 ^ 20) full in
                  if CallbackSecret t \<noteq> '''' \<and> sig = '''' then Inl (401, error_body ''missing X-Callback-Signature header'')
                  else if CallbackSecret t \<noteq> '''' \<and> sig \<noteq> hmac (CallbackSecret t) b then Inl (403, error_body ''invalid signature'')
                  else Inr (t, b))))"

definition payload_field :: "string \<Rightarrow> string \<Rightarrow> string" where
  "payload_field name b = (case json_parse b of None \<Rightarrow> '''' | Some v \<Rightarrow> fst (string_field name v))"

definition callback_store :: "time \<Rightarrow> string \<Rightarrow> string \<Rightarrow> inflight_store \<Rightarrow> inflight_store" where
  "callback_store now i b st =
     (if payload_field ''status'' b \<in> {''error'', ''failed''} then Fail now i (payload_field ''error'' b) st
      else Complete now i b st)"

definition callback_commit ::
  "handler_env \<Rightarrow> message_handler \<Rightarrow> string \<Rightarrow> task_state \<Rightarrow> string \<Rightarrow> handler \<Rightarrow> (handler \<times> handler_effect list \<times> http_response) option" where
  "callback_commit env hm i t b h =
     (case InjectCompletion env hm (SessionID t) (UserID t) i (if AgentName t = '''' then ''external'' else AgentName t) b
             (h\<lparr>hdInFlight := map_option (callback_store (heNow env) i b) (hdInFlight h)\<rparr>) of
        None \<Rightarrow> None
      | Some (h', effs, _) \<Rightarrow> Some (h', effs, (200, Raw (''{\"status\":\"accepted\",\"task_id\":\"'' @ i @ ''\"}''))))"

definition handleCallback ::
  "handler_env \<Rightarrow> message_handler \<Rightarrow> (string \<Rightarrow> string \<Rightarrow> string) \<Rightarrow> string \<Rightarrow> string \<Rightarrow> string go_result \<Rightarrow> inflight_store \<Rightarrow>
   handler \<Rightarrow> (handler \<times> handler_effect list \<times> http_response) option" where
  "handleCallback env hm hmac i sig body st h =
     (case callback_check hmac i sig body st of
        Inl r \<Rightarrow> Some (h, [], r)
      | Inr (t, b) \<Rightarrow> callback_commit env hm i t b h)"

text \<open>Times are shown as the JSON encoder formats them, by \<open>fmt\<close>.\<close>

definition handleStatus :: "(time \<Rightarrow> string) \<Rightarrow> string \<Rightarrow> string \<Rightarrow> inflight_store \<Rightarrow> http_response" where
  "handleStatus fmt meth i st =
     (if meth \<noteq> ''GET'' then (405, error_body ''method not allowed'')
      else (case Get i st of
              None \<Rightarrow> (404, error_body ''unknown task'')
            | Some t \<Rightarrow>
                (200, Object ([(''task_id'', JStr (ID t)), (''status'', JStr (status_str (Status t))), (''task'', JStr (Task t)),
                   (''started_at'', JStr (fmt (StartedAt t)))] @
                   (case DoneAt t of None \<Rightarrow> [] | Some d \<Rightarrow> [(''done_at'', JStr (fmt d))]) @
                   (if Error t \<noteq> '''' then [(''error'', JStr (Error t))] else [])))))"

definition callback_ServeHTTP ::
  "handler_env \<Rightarrow> message_handler \<Rightarrow> (string \<Rightarrow> string \<Rightarrow> string) \<Rightarrow> (time \<Rightarrow> string) \<Rightarrow> string \<Rightarrow> string \<Rightarrow> string \<Rightarrow>
   string go_result \<Rightarrow> inflight_store \<Rightarrow> handler \<Rightarrow> (handler \<times> handler_effect list \<times> http_response) option" where
  "callback_ServeHTTP env hm hmac fmt meth urlPath sig body st h =
     (let path = trim_prefix urlPath ''/callbacks/'' in
      if path = '''' then Some (h, [], (400, error_body ''missing task_id''))
      else if has_suffix path ''/status'' then Some (h, [], handleStatus fmt meth (trim_suffix path ''/status'') st)
      else if meth \<noteq> ''POST'' then Some (h, [], (405, error_body ''method not allowed''))
      else handleCallback env hm hmac path sig body st h)"

section \<open>Decisions by the dashboard and by peers\<close>

definition decision_result :: "bool \<Rightarrow> string \<Rightarrow> string \<Rightarrow> string" where
  "decision_result approved tool reason =
     (if approved then ''Tool '' @ tool @ '' was APPROVED by user. You may now retry the action.''
      else ''Tool '' @ tool @ '' was REJECTED by user. Reason: '' @ reason @ ''. Find an alternative approach.'')"

text \<open>What both do with a decision: \<open>Inl\<close> when there is nothing to decide, otherwise the effects; \<open>hasHandler\<close>
  tells whether completions can be injected.\<close>

definition decide_approval ::
  "handler_env \<Rightarrow> message_handler \<Rightarrow> bool \<Rightarrow> string \<Rightarrow> bool \<Rightarrow> string \<Rightarrow> handler \<Rightarrow> (unit + outcome) option" where
  "decide_approval env hm hasHandler i approved reason0 h =
     (case hdInFlight h of
        None \<Rightarrow> Some (Inr (h, [], Some Panicked))
      | Some st \<Rightarrow>
          (case Get i st of
             None \<Rightarrow> Some (Inl ())
           | Some t \<Rightarrow>
               if Status t \<noteq> TaskPendingApproval then Some (Inl ())
               else
                 (let reason = (if reason0 = '''' then ''rejected by user'' else reason0);
                      h1 = h\<lparr>hdInFlight := Some (if approved then Complete (heNow env) i ''approved'' st
                                                 else Fail (heNow env) i reason st)\<rparr>
                  in case ApprovalRequest t of
                       None \<Rightarrow> Some (Inr (h1, [], Some Panicked))
                     | Some ar \<Rightarrow>
                         (let (ex1, signaled) = (case hdExecutions h1 of
                              None \<Rightarrow> (None, False)
                            | Some ex \<Rightarrow> (case SignalDecision i approved ex of (e1, s) \<Rightarrow> (Some e1, s)));
                              h2 = h1\<lparr>hdExecutions := ex1\<rparr>
                          in if signaled \<or> \<not> hasHandler then Some (Inr (h2, [], None))
                             else map_option Inr (InjectCompletion env hm (SessionID t) (UserID t) i (AgentName t)
                                    (decision_result approved (arToolName ar) reason) h2)))))"

definition decision_name :: "bool \<Rightarrow> string" where
  "decision_name approved = (if approved then ''approved'' else ''rejected'')"

text \<open>The request's JSON body decoded to the identifier and the reason, if it could be.\<close>

definition dashboard_HandleApprovalAction ::
  "handler_env \<Rightarrow> message_handler \<Rightarrow> bool \<Rightarrow> string \<Rightarrow> string \<Rightarrow> (string \<times> string) option \<Rightarrow> handler \<Rightarrow>
   (outcome \<times> http_response) option" where
  "dashboard_HandleApprovalAction env hm hasHandler meth urlPath req h =
     (if meth \<noteq> ''POST'' then Some ((h, [], None), (405, error_body ''POST required''))
      else (case req of
              None \<Rightarrow> Some ((h, [], None), (400, error_body ''id is required''))
            | Some (i, reason) \<Rightarrow>
                if i = '''' then Some ((h, [], None), (400, error_body ''id is required''))
                else
                  (let approved = has_suffix urlPath ''/approve'' in
                   case decide_approval env hm hasHandler i approved reason h of
                     None \<Rightarrow> None
                   | Some (Inl _) \<Rightarrow> Some ((h, [], None), (404, error_body ''approval not found or already resolved''))
                   | Some (Inr out) \<Rightarrow>
                       Some (out, (200, Object [(''id'', JStr i), (''status'', JStr (decision_name approved))])))))"

definition p2p_handleAction ::
  "handler_env \<Rightarrow> message_handler \<Rightarrow> bool \<Rightarrow> (string \<times> string) go_result \<Rightarrow> bool \<Rightarrow> handler \<Rightarrow>
   (outcome \<times> (string \<times> json) list go_result) option" where
  "p2p_handleAction env hm hasInjector params approved h =
     (case params of
        Inl e \<Rightarrow> Some ((h, [], None), Inl (''invalid params: '' @ e))
      | Inr (i, reason) \<Rightarrow>
          if i = '''' then Some ((h, [], None), Inl ''id is required'')
          else
            (case decide_approval env hm hasInjector i approved reason h of
               None \<Rightarrow> None
             | Some (Inl _) \<Rightarrow> Some ((h, [], None), Inl ''approval not found or already resolved'')
             | Some (Inr out) \<Rightarrow>
                 Some (out, Inr [(''id'', JStr i), (''status'', JStr (decision_name approved)), (''success'', JBool True)])))"

definition dashboard_HandleCancelTask :: "time \<Rightarrow> string \<Rightarrow> string option \<Rightarrow> inflight_store \<Rightarrow> inflight_store \<times> http_response" where
  "dashboard_HandleCancelTask now meth req st =
     (if meth \<noteq> ''POST'' then (st, (405, http_Error ''method not allowed''))
      else (case req of
              None \<Rightarrow> (st, (400, http_Error ''task_id is required''))
            | Some i \<Rightarrow>
                if i = '''' then (st, (400, http_Error ''task_id is required''))
                else (case Cancel now i st of
                        (st1, True, _) \<Rightarrow> (st1, (200, Object [(''cancelled'', JBool True), (''task_id'', JStr i)]))
                      | (st1, False, _) \<Rightarrow> (st1, (200, Object [(''cancelled'', JBool False), (''message'', JStr ''task not found or not running'')])))))"


section \<open>A callback is authentic and counts once\<close>

text \<open>The completion of a task runs the agent once, as the owner, and leaves the stores alone.\<close>

lemma completion_effects_of:
  assumes "plain_responders h" and "hdInFlight h = Some st"
    and "InjectCompletion env (HandleMessage (Suc n) env) sid uid tid agentName result h = Some (h', effs, err)"
  shows "(\<exists>s inp. filter is_run effs = [RunAgent TrustTierOwner uid s inp] \<and> uiContent inp = completion_text tid agentName result st) \<and>
    hdInFlight h' = Some st \<and> plain_responders h' \<and> hdExecutions h' = hdExecutions h"
proof -
  obtain rid m h2 e2 r2 where c: "InjectCompletion env (HandleMessage (Suc n) env) sid uid tid agentName result h = Some (h2, e2, r2)"
    "handle_trusted env TrustTierOwner rid m h = (h2, e2, r2)" "plain_responders h2" "cmUserID m = uid"
    "cmContent m = completion_text tid agentName result st"
    using completion_runs [OF assms(1,2)] by metis
  then have e: "h2 = h'" "e2 = effs" using assms(3) by simp_all
  show ?thesis using handle_trusted_runs [OF c(2)] handle_trusted_stores [OF c(2)] c(3-5) assms(2) e by auto
qed

lemma callback_store_final:
  assumes "Get i st = Some t" and "Status t = TaskRunning"
  shows "\<exists>t'. Get i (callback_store now i b st) = Some t' \<and> External t' = External t \<and>
    (Status t' = TaskCompleted \<or> Status t' = TaskFailed)"
  using assms by (auto simp: callback_store_def Complete_def Fail_def Get_def update_task_def)

lemma callback_check_passed:
  "callback_check hmac i sig body st = Inr (t, b) \<Longrightarrow> Get i st = Some t \<and> External t \<and> Status t = TaskRunning \<and>
     (CallbackSecret t \<noteq> '''' \<longrightarrow> sig = hmac (CallbackSecret t) b) \<and> (\<exists>full. body = Inr full \<and> b = take (2 ^ 20) full)"
  by (auto simp: callback_check_def Let_def split: option.splits sum.splits if_splits)

lemma callback_check_failed: "callback_check hmac i sig body st = Inl (c, r) \<Longrightarrow> c \<noteq> 200"
  by (auto simp: callback_check_def Let_def split: option.splits sum.splits if_splits)

lemma callback_commit_effects:
  assumes "plain_responders h" and "hdInFlight h = Some st"
    and "callback_commit env (HandleMessage (Suc n) env) i t b h = Some (h', effs, r)"
  shows "(\<exists>s inp. filter is_run effs = [RunAgent TrustTierOwner (UserID t) s inp] \<and> (\<exists>pre. uiContent inp = pre @ b)) \<and>
    hdInFlight h' = Some (callback_store (heNow env) i b st) \<and> plain_responders h' \<and> fst r = 200"
proof -
  let ?h = "h\<lparr>hdInFlight := Some (callback_store (heNow env) i b st)\<rparr>"
  have p: "plain_responders ?h" using assms(1) by (simp add: plain_responders_def)
  obtain err where "InjectCompletion env (HandleMessage (Suc n) env) (SessionID t) (UserID t) i
      (if AgentName t = '''' then ''external'' else AgentName t) b ?h = Some (h', effs, err)" "fst r = 200"
    using assms(2,3) by (auto simp: callback_commit_def split: option.splits)
  from completion_effects_of [OF p _ this(1)] this(2) show ?thesis by (auto simp: completion_text_def)
qed

text \<open>C26. A callback that is accepted carried the right signature, if the task has a secret, found the
  task running, and runs the agent once, whose message ends with the callback's body; every callback
  of that task that begins after it was answered is refused without effect, and so is one that is
  not accepted.\<close>

theorem callback_once:
  assumes "plain_responders h" and "hdInFlight h = Some st"
    and "handleCallback env (HandleMessage (Suc n) env) hmac i sig body st h = Some (h', effs, (c, r))"
  shows "(c = 200 \<longrightarrow> (\<exists>t full st' s inp. Get i st = Some t \<and> Status t = TaskRunning \<and> body = Inr full \<and>
      (CallbackSecret t \<noteq> '''' \<longrightarrow> sig = hmac (CallbackSecret t) (take (2 ^ 20) full)) \<and>
      filter is_run effs = [RunAgent TrustTierOwner (UserID t) s inp] \<and> (\<exists>pre. uiContent inp = pre @ take (2 ^ 20) full) \<and>
      hdInFlight h' = Some st' \<and> (\<forall>env2 hm2 sig2 body2. \<exists>r2. handleCallback env2 hm2 hmac i sig2 body2 st' h' = Some (h', [], (409, r2))))) \<and>
    (c \<noteq> 200 \<longrightarrow> h' = h \<and> effs = [])"
proof (cases "callback_check hmac i sig body st")
  case (Inl er)
  then show ?thesis using assms(3) callback_check_failed [of hmac i sig body st] by (cases er) (auto simp: handleCallback_def)
next
  case (Inr tb)
  obtain t b where tb: "tb = (t, b)" by fastforce
  note k = callback_check_passed [OF Inr [unfolded tb]]
  have "callback_commit env (HandleMessage (Suc n) env) i t b h = Some (h', effs, (c, r))"
    using assms(3) Inr tb by (simp add: handleCallback_def)
  note e = callback_commit_effects [OF assms(1,2) this]
  obtain t' where t': "Get i (callback_store (heNow env) i b st) = Some t'" "External t'" "Status t' = TaskCompleted \<or> Status t' = TaskFailed"
    using callback_store_final [of i st t "heNow env" b] k by blast
  have "\<exists>r2. handleCallback env2 hm2 hmac i sig2 body2 (callback_store (heNow env) i b st) h' = Some (h', [], (409, r2))"
    for env2 :: handler_env and hm2 sig2 body2
    using t' by (auto simp: handleCallback_def callback_check_def)
  then show ?thesis using k e by auto
qed

text \<open>The check and the completion are not one step: two requests that are checked before either
  completes the task are both accepted, and the agent is told of both results.\<close>

lemma concurrent_callbacks:
  assumes "plain_responders h" and "hdInFlight h = Some st"
    and "callback_check hmac i sig1 body1 st = Inr (t, b1)" and "callback_check hmac i sig2 body2 st = Inr (t, b2)"
    and "callback_commit env (HandleMessage (Suc n) env) i t b1 h = Some (h1, e1, r1)"
    and "callback_commit env' (HandleMessage (Suc m) env') i t b2 h1 = Some (h2, e2, r2)"
  shows "length (filter is_run (e1 @ e2)) = 2 \<and> fst r1 = 200 \<and> fst r2 = 200"
  using callback_commit_effects [OF assms(1,2,5)] callback_commit_effects [OF _ _ assms(6)] by auto

section \<open>Decisions\<close>

text \<open>A decision that finds the waiting execution is delivered to it, and nothing is injected.\<close>

lemma SignalDecision_waiting:
  assumes "ex i = Some e" and "geDecisionCh e = Some None"
  shows "\<exists>ex1. SignalDecision i b ex = (ex1, True) \<and> map_option snd (receive_decision i ex1) = Some b \<and>
    snd (SignalDecision i b' ex1) = False \<and> fst (SignalDecision i b' ex1) = ex1"
  using assms by (simp add: SignalDecision_def receive_decision_def)

lemma dashboard_decides:
  assumes "hdInFlight h = Some st" and "Get i st = Some t" and "Status t = TaskPendingApproval" and "ApprovalRequest t = Some ar"
    and "hdExecutions h = Some ex" and "ex i = Some e" and "geDecisionCh e = Some None"
  shows "\<exists>h1 ex1. decide_approval env hm hh i approved reason h = Some (Inr (h1, [], None)) \<and> hdExecutions h1 = Some ex1 \<and>
    map_option snd (receive_decision i ex1) = Some approved \<and> decide_approval env hm hh i approved2 reason2 h1 = Some (Inl ())"
proof -
  obtain ex1 where s: "SignalDecision i approved ex = (ex1, True)" "map_option snd (receive_decision i ex1) = Some approved"
    using SignalDecision_waiting [of ex i e, OF assms(6,7)] by blast
  let ?st = "if approved then Complete (heNow env) i ''approved'' st
             else Fail (heNow env) i (if reason = '''' then ''rejected by user'' else reason) st"
  let ?h = "h\<lparr>hdInFlight := Some ?st, hdExecutions := Some ex1\<rparr>"
  have d: "decide_approval env hm hh i approved reason h = Some (Inr (?h, [], None))"
    using assms s by (simp add: decide_approval_def Let_def)
  have "\<exists>t'. Get i ?st = Some t' \<and> Status t' \<noteq> TaskPendingApproval"
    using assms(2,3) by (auto simp: Complete_def Fail_def Get_def update_task_def)
  then have "decide_approval env hm hh i approved2 reason2 ?h = Some (Inl ())" by (auto simp: decide_approval_def)
  then show ?thesis using d s(2) by (intro exI [of _ ?h] exI [of _ ex1]) simp
qed


text \<open>A decision sent as a message of a channel, by a sender who is not a third party.\<close>

definition decision_message :: "channel_message \<Rightarrow> string \<Rightarrow> string \<Rightarrow> handler \<Rightarrow> bool" where
  "decision_message m i action h \<longleftrightarrow> \<not> IsThirdParty (tier_of m h) \<and>
     meta_string (cmMetadata m) ''approval_id'' = Some i \<and> meta_string (cmMetadata m) ''approval_action'' = Some action"

lemma HandleMessage_decision:
  "decision_message m i action h \<Longrightarrow> \<exists>m'. HandleMessage (Suc n) env m rid h = handleApprovalAction env (HandleMessage n env) m' action h \<and>
     meta_string (cmMetadata m') ''approval_id'' = Some i"
  by (auto simp: decision_message_def with_tier_def meta_string_def)

lemma signalled_decision:
  assumes "decision_message m i action h" and "i \<noteq> ''''" and "action = ''approve'' \<or> action = ''reject''"
    and "hdExecutions h = Some ex" and "SignalDecision i (action = ''approve'') ex = (ex1, True)"
  shows "HandleMessage (Suc n) env m rid h = Some (h\<lparr>hdExecutions := Some ex1\<rparr>, [], None)"
proof -
  obtain m' where "HandleMessage (Suc n) env m rid h = handleApprovalAction env (HandleMessage n env) m' action h"
    "meta_string (cmMetadata m') ''approval_id'' = Some i" using HandleMessage_decision [OF assms(1)] by blast
  then show ?thesis using assms(2-5) by (auto simp: handleApprovalAction_def)
qed

lemma missed_decision:
  assumes "decision_message m i ''reject'' h" and "i \<noteq> ''''" and "plain_responders h"
    and "hdInFlight h = Some st" and "Get i st = Some t" and "Status t = TaskPendingApproval" and "ApprovalRequest t = Some ar"
    and "hdExecutions h = Some ex" and "\<not> snd (SignalDecision i False ex)"
  shows "\<exists>h' effs err s inp st'. HandleMessage (Suc (Suc n)) env m rid h = Some (h', effs, err) \<and>
    filter is_run effs = [RunAgent TrustTierOwner (UserID t) s inp] \<and>
    (\<exists>pre. uiContent inp = pre @ ''Tool '' @ arToolName ar @ '' was REJECTED by user. Find an alternative approach.'') \<and>
    hdInFlight h' = Some st' \<and> map_option Status (Get i st') = Some TaskFailed"
proof -
  let ?h = "resolve_task env i False t st h"
  have p: "plain_responders ?h" using assms(3) by (simp add: plain_responders_def)
  have f: "hdInFlight ?h = Some (Fail (heNow env) i ''rejected by user'' st)" by (simp add: resolve_task_def)
  obtain m' where m: "HandleMessage (Suc (Suc n)) env m rid h = handleApprovalAction env (HandleMessage (Suc n) env) m' ''reject'' h"
    "meta_string (cmMetadata m') ''approval_id'' = Some i" using HandleMessage_decision [OF assms(1)] by blast
  have "HandleMessage (Suc (Suc n)) env m rid h = InjectCompletion env (HandleMessage (Suc n) env) (SessionID t) (UserID t) i
      (AgentName t) (approval_result False (arToolName ar)) ?h"
    using m assms(2,8,9) legacy_injects [OF assms(4-6) _ assms(7), of "''reject''"] by (auto simp: handleApprovalAction_def split: prod.splits)
  moreover obtain h' effs err where c: "InjectCompletion env (HandleMessage (Suc n) env) (SessionID t) (UserID t) i
      (AgentName t) (approval_result False (arToolName ar)) ?h = Some (h', effs, err)"
    using completion_runs [OF p f] by metis
  moreover have "map_option Status (Get i (Fail (heNow env) i ''rejected by user'' st)) = Some TaskFailed"
    using assms(5,6) by (simp add: Fail_def Get_def update_task_def)
  ultimately show ?thesis using completion_effects_of [OF p f c] by (auto simp: completion_text_def approval_result_def)
qed


section \<open>Small instances\<close>

definition demo_deciding :: handler where
  "demo_deciding = demo_handler\<lparr>hdInFlight := Some (RegisterApproval 0 ''a'' ''skill'' ''tool'' '''' ''desc'' ''s'' ''o'' 60 NewInFlightStore),
     hdExecutions := Some [''a'' \<mapsto> demo_execution]\<rparr>"

definition demo_external :: handler where
  "demo_external = demo_handler\<lparr>hdInFlight := Some (RegisterExternal 0 ''e'' ''job'' ''k'' TriggerQueue ''s'' ''o'' 60 NewInFlightStore)\<rparr>"

definition demo_decision :: "string \<Rightarrow> channel_message" where
  "demo_decision action = demo_friend\<lparr>cmMetadata := [''approval_id'' \<mapsto> JStr ''a'', ''approval_action'' \<mapsto> JStr action]\<rparr>"

lemma demo_decision: "decision_message (demo_decision action) ''a'' action demo_deciding"
  by (simp add: decision_message_def demo_decision_def demo_deciding_def demo_handler_def demo_friend_def zero_message_def
      meta_string_def tier_of_def ClassifyWithAllowlist_def isOwner_def IsThirdParty_def)

lemma demo_waiting: "plain_responders demo_deciding" "plain_responders demo_external"
  "\<exists>st t ar. hdInFlight demo_deciding = Some st \<and> Get ''a'' st = Some t \<and> Status t = TaskPendingApproval \<and> ApprovalRequest t = Some ar \<and> arToolName ar = ''tool''"
  "hdExecutions demo_deciding = Some [''a'' \<mapsto> demo_execution]"
  "\<exists>st t. hdInFlight demo_external = Some st \<and> Get ''e'' st = Some t \<and> External t \<and> Status t = TaskRunning \<and> CallbackSecret t = ''k''"
  by (simp_all add: plain_responders_def demo_deciding_def demo_external_def demo_handler_def RegisterApproval_def RegisterExternal_def
      Register_def Get_def NewInFlightStore_def)


theorem callback_once_witness:
  "\<exists>h' effs r st s inp u. handleCallback demo_handler_env (HandleMessage 1 demo_handler_env) (\<lambda>k b. k @ b) ''e'' ''kok'' (Inr ''ok'') st demo_external =
       Some (h', effs, (200, r)) \<and> filter is_run effs = [RunAgent TrustTierOwner u s inp]"
proof -
  obtain st t where w: "hdInFlight demo_external = Some st" "Get ''e'' st = Some t" "External t" "Status t = TaskRunning" "CallbackSecret t = ''k''"
    using demo_waiting(5) by blast
  have c: "callback_check (\<lambda>k b. k @ b) ''e'' ''kok'' (Inr ''ok'') st = Inr (t, ''ok'')"
    using w by (simp add: callback_check_def)
  have p: "plain_responders (demo_external\<lparr>hdInFlight := Some (callback_store 0 ''e'' ''ok'' st)\<rparr>)"
    using demo_waiting(2) by (simp add: plain_responders_def)
  obtain h' effs r where h: "handleCallback demo_handler_env (HandleMessage (Suc 0) demo_handler_env) (\<lambda>k b. k @ b) ''e'' ''kok'' (Inr ''ok'') st demo_external = Some (h', effs, (200, r))"
  proof -
    have "heNow demo_handler_env = 0" by (simp add: demo_handler_env_def)
    moreover obtain h' effs err where "InjectCompletion demo_handler_env (HandleMessage (Suc 0) demo_handler_env) (SessionID t) (UserID t) ''e''
        (if AgentName t = '''' then ''external'' else AgentName t) ''ok'' (demo_external\<lparr>hdInFlight := Some (callback_store 0 ''e'' ''ok'' st)\<rparr>) = Some (h', effs, err)"
      by (rule completion_runs [OF p, of "callback_store 0 ''e'' ''ok'' st" demo_handler_env 0 "SessionID t" "UserID t" "''e''"
            "if AgentName t = '''' then ''external'' else AgentName t" "''ok''"]) simp
    ultimately show thesis using that c w by (simp add: handleCallback_def callback_commit_def)
  qed
  from callback_once [OF demo_waiting(2) w(1) h] obtain u s inp where "filter is_run effs = [RunAgent TrustTierOwner u s inp]"
    by (auto simp del: HandleMessage.simps)
  with h show ?thesis by (intro exI conjI) (simp_all del: HandleMessage.simps)
qed

end
