(* ===== verification/Wiring.thy ===== *)
theory Wiring
  imports Callbacks
begin

text \<open>
  How the gateway's command joins the components (\<open>cmd/kaggen/cmd/gateway.go\<close>): the timeouts of
  external tasks, the completions of dispatched tasks, acknowledgements and approval requests all
  go to the handler and its responders; and the watchdog (\<open>internal/agent/watchdog.go\<close>), which reports
  tasks that run too long.
\<close>

section \<open>Timeouts and completions\<close>

definition on_timeout :: "handler_env \<Rightarrow> message_handler \<Rightarrow> task_state \<Rightarrow> handler \<Rightarrow> outcome option" where
  "on_timeout env hm t h =
     InjectCompletion env hm (SessionID t) (UserID t) (ID t) ''external'' (''External task timed out: '' @ Task t)
       (if ApprovalRequest t \<noteq> None then
          h\<lparr>hdAudit := map_option (RecordResolution (ID t) ''timed_out'' ''system'' (heNow env)) (hdAudit h)\<rparr>
        else h)"

fun on_timeouts :: "handler_env \<Rightarrow> message_handler \<Rightarrow> task_state list \<Rightarrow> handler \<Rightarrow> (handler \<times> handler_effect list) option" where
  "on_timeouts env hm [] h = Some (h, [])"
| "on_timeouts env hm (t # ts) h =
     (case on_timeout env hm t h of
        None \<Rightarrow> None
      | Some (h1, e1, _) \<Rightarrow> map_option (\<lambda>(h2, e2). (h2, e1 @ e2)) (on_timeouts env hm ts h1))"

text \<open>One tick of the reaper with the callback the command gives it.\<close>

definition external_reap :: "handler_env \<Rightarrow> message_handler \<Rightarrow> string list \<Rightarrow> inflight_store \<Rightarrow> handler \<Rightarrow> (handler \<times> handler_effect list) option" where
  "external_reap env hm ks st h =
     (case reapExpiredExternal (heNow env) ks st of
        (st1, ts) \<Rightarrow> on_timeouts env hm ts (h\<lparr>hdInFlight := Some st1\<rparr>))"

text \<open>The callback of the dispatcher; the result is injected unless it is a success to be queued.\<close>

definition completion_callback ::
  "handler_env \<Rightarrow> message_handler \<Rightarrow> string \<Rightarrow> string \<Rightarrow> string option \<Rightarrow> trigger_policy \<Rightarrow> handler \<Rightarrow> outcome option" where
  "completion_callback env hm taskID result taskErr policy h =
     (if policy \<noteq> TriggerAuto \<and> taskErr = None then Some (h, [], None)
      else
        (case hdInFlight h of
           None \<Rightarrow> Some (h, [], Some Panicked)
         | Some st \<Rightarrow>
             (case Get taskID st of
                None \<Rightarrow> Some (h, [], None)
              | Some t \<Rightarrow>
                  InjectCompletion env hm (if SessionID t = '''' then ''tg-dm-system'' else SessionID t)
                    (if UserID t = '''' then ''system'' else UserID t) taskID (AgentName t)
                    (case taskErr of None \<Rightarrow> result | Some e \<Rightarrow> ''Error: '' @ e) h)))"

section \<open>Notices to the session\<close>

definition send_ack :: "handler_env \<Rightarrow> string \<Rightarrow> string \<Rightarrow> handler \<Rightarrow> handler_effect list \<times> handler_error option" where
  "send_ack env sid m h =
     (case responder_Get sid (hdResponders h) of
        None \<Rightarrow> ([], None)
      | Some (rid, meta) \<Rightarrow>
          respond_with env rid
            \<lparr>rpID = heUuid env 0, rpMessageID = '''', rpSessionID = sid, rpContent = m, rpType = ''task_dispatched'',
             rpDone = False, rpMetadata = meta\<rparr>)"

definition notify_approval :: "handler_env \<Rightarrow> string \<Rightarrow> response \<Rightarrow> handler \<Rightarrow> handler_effect list \<times> handler_error option" where
  "notify_approval env sid r h =
     (case responder_Get sid (hdResponders h) of
        None \<Rightarrow> ([], None)
      | Some (rid, meta) \<Rightarrow> respond_with env rid (r\<lparr>rpMetadata := meta ++ rpMetadata r\<rparr>))"

section \<open>The watchdog\<close>

text \<open>One tick: the tasks alerted about so far and the alerts, each with the time the task has run.\<close>

fun stale_alerts :: "time \<Rightarrow> duration \<Rightarrow> task_state list \<Rightarrow> string set \<Rightarrow> string set \<times> (task_state \<times> duration) list" where
  "stale_alerts now threshold [] alerted = (alerted, [])"
| "stale_alerts now threshold (t # ts) alerted =
     (if now - StartedAt t > threshold \<and> ID t \<notin> alerted then
        (case stale_alerts now threshold ts (insert (ID t) alerted) of
           (al, out) \<Rightarrow> (al, (t, now - StartedAt t) # out))
      else stale_alerts now threshold ts alerted)"

definition still_running :: "inflight_store \<Rightarrow> string \<Rightarrow> bool" where
  "still_running st i = (case Get i st of None \<Rightarrow> False | Some t \<Rightarrow> Status t = TaskRunning)"

definition watchdog_tick ::
  "duration \<Rightarrow> time \<Rightarrow> string list \<Rightarrow> inflight_store \<Rightarrow> string set \<Rightarrow> string set \<times> (task_state \<times> duration) list" where
  "watchdog_tick threshold now ks st alerted =
     (case stale_alerts now threshold (List ks (status_str TaskRunning) st) alerted of
        (al, out) \<Rightarrow> (Set.filter (still_running st) al, out))"

text \<open>Ticks at the given times, with the store as it is then.\<close>

fun watchdog_run :: "duration \<Rightarrow> (time \<times> string list \<times> inflight_store) list \<Rightarrow> string set \<Rightarrow> string set \<times> (task_state \<times> duration) list list" where
  "watchdog_run threshold [] alerted = (alerted, [])"
| "watchdog_run threshold ((now, ks, st) # ticks) alerted =
     (case watchdog_tick threshold now ks st alerted of
        (al, out) \<Rightarrow> (case watchdog_run threshold ticks al of (al2, outs) \<Rightarrow> (al2, out # outs)))"

declare HandleMessage.simps [simp del]

section \<open>The watchdog alerts once\<close>

lemma stale_alerts_set:
  "fst (stale_alerts now th ts al) = al \<union> {ID t | t. t \<in> set ts \<and> th < now - StartedAt t}"
  by (induction now th ts al rule: stale_alerts.induct) (auto split: prod.splits)

lemma stale_alerts_out:
  "x \<in> set (snd (stale_alerts now th ts al)) \<Longrightarrow> fst x \<in> set ts \<and> th < snd x \<and> snd x = now - StartedAt (fst x) \<and> ID (fst x) \<notin> al"
  by (induction now th ts al rule: stale_alerts.induct) (auto split: prod.splits if_splits)

definition alerts_of :: "string \<Rightarrow> (task_state \<times> duration) list \<Rightarrow> (task_state \<times> duration) list" where
  "alerts_of i = filter (\<lambda>(t, _). ID t = i)"

lemma stale_alerts_of:
  "length (alerts_of i (snd (stale_alerts now th ts al))) =
     (if i \<notin> al \<and> (\<exists>t\<in>set ts. ID t = i \<and> th < now - StartedAt t) then 1 else 0)"
  by (induction now th ts al rule: stale_alerts.induct) (auto simp: alerts_of_def split: prod.splits if_splits)

text \<open>A tick at which the task with this identifier runs for longer than the threshold.\<close>

definition overdue_tick :: "duration \<Rightarrow> string \<Rightarrow> time \<times> string list \<times> inflight_store \<Rightarrow> bool" where
  "overdue_tick th i x = (case x of (now, ks, st) \<Rightarrow>
     i \<in> set ks \<and> (case Get i st of None \<Rightarrow> False | Some t \<Rightarrow> Status t = TaskRunning \<and> th < now - StartedAt t))"

definition own_ids :: "inflight_store \<Rightarrow> bool" where
  "own_ids st \<longleftrightarrow> (\<forall>k t. tasks st k = Some t \<longrightarrow> ID t = k)"

lemma running_listed:
  assumes "own_ids st"
  shows "(\<exists>t\<in>set (List ks (status_str TaskRunning) st). ID t = i \<and> th < now - StartedAt t) \<longleftrightarrow> overdue_tick th i (now, ks, st)"
proof -
  have s: "status_str s = ''running'' \<longleftrightarrow> s = TaskRunning" for s by (cases s) simp_all
  show ?thesis
    using assms by (auto simp: List_def overdue_tick_def own_ids_def Get_def s List.map_filter_def split: option.splits)
qed


lemma watchdog_tick_of:
  assumes "own_ids st" and "still_running st i" and "watchdog_tick th now ks st al = (al2, out)"
  shows "length (alerts_of i out) = (if i \<notin> al \<and> overdue_tick th i (now, ks, st) then 1 else 0) \<and>
    (i \<in> al2 \<longleftrightarrow> i \<in> al \<or> overdue_tick th i (now, ks, st))"
proof -
  let ?ts = "List ks (status_str TaskRunning) st"
  have o1: "out = snd (stale_alerts now th ?ts al)" "al2 = Set.filter (still_running st) (fst (stale_alerts now th ?ts al))"
    using assms(3) by (auto simp: watchdog_tick_def split: prod.splits)
  have "i \<in> fst (stale_alerts now th ?ts al) \<longleftrightarrow> i \<in> al \<or> overdue_tick th i (now, ks, st)"
    unfolding stale_alerts_set running_listed [OF assms(1), symmetric] by blast
  then show ?thesis
    using assms(2) unfolding o1 stale_alerts_of running_listed [OF assms(1)] by simp
qed

lemma watchdog_run_of:
  assumes "\<forall>(now, ks, st)\<in>set ticks. own_ids st \<and> still_running st i"
  shows "length (alerts_of i (concat (snd (watchdog_run th ticks al)))) = (if i \<notin> al \<and> (\<exists>x\<in>set ticks. overdue_tick th i x) then 1 else 0)"
  using assms
proof (induction th ticks al rule: watchdog_run.induct)
  case (1 th al)
  then show ?case by (simp add: alerts_of_def)
next
  case (2 th now ks st ticks al)
  obtain al1 out where t: "watchdog_tick th now ks st al = (al1, out)" by fastforce
  have a: "alerts_of i (x @ y) = alerts_of i x @ alerts_of i y" for x y by (simp add: alerts_of_def)
  have k: "own_ids st" "still_running st i" using 2(2) by auto
  have IH: "length (alerts_of i (concat (snd (watchdog_run th ticks al1)))) = (if i \<notin> al1 \<and> (\<exists>x\<in>set ticks. overdue_tick th i x) then 1 else 0)"
    using 2(1) [OF t [symmetric]] 2(2) by auto
  have "snd (watchdog_run th ((now, ks, st) # ticks) al) = out # snd (watchdog_run th ticks al1)"
    using t by (simp split: prod.splits)
  then show ?case using IH watchdog_tick_of [OF k t] by (auto simp: a)
qed

text \<open>About a task that stays running the watchdog has alerted exactly once when one of its ticks so far
  found the task running for longer than the threshold, and never before.\<close>

theorem watchdog_alerts_once:
  assumes "\<forall>(now, ks, st)\<in>set ticks. own_ids st \<and> still_running st i"
  shows "length (alerts_of i (concat (snd (watchdog_run threshold ticks {})))) =
    (if \<exists>x\<in>set ticks. overdue_tick threshold i x then 1 else 0)"
  using watchdog_run_of [OF assms, of threshold "{}"] by simp

section \<open>Every timeout is reported\<close>

definition run_user :: "handler_effect \<Rightarrow> trust_tier \<times> string" where
  "run_user e = (case e of RunAgent tier uid _ _ \<Rightarrow> (tier, uid) | _ \<Rightarrow> (TrustTierThirdParty, ''''))"

lemma on_timeout_runs:
  assumes "plain_responders h" and "hdInFlight h = Some st"
  shows "\<exists>h' effs err s inp. on_timeout env (HandleMessage (Suc n) env) t h = Some (h', effs, err) \<and>
    filter is_run effs = [RunAgent TrustTierOwner (UserID t) s inp] \<and> plain_responders h' \<and> hdInFlight h' = Some st"
proof -
  let ?h = "if ApprovalRequest t \<noteq> None
      then h\<lparr>hdAudit := map_option (RecordResolution (ID t) ''timed_out'' ''system'' (heNow env)) (hdAudit h)\<rparr> else h"
  have p: "plain_responders ?h" "hdInFlight ?h = Some st" using assms by (auto simp: plain_responders_def)
  obtain h' effs err where c: "InjectCompletion env (HandleMessage (Suc n) env) (SessionID t) (UserID t) (ID t) ''external''
      (''External task timed out: '' @ Task t) ?h = Some (h', effs, err)"
    using completion_runs [OF p] by metis
  from completion_effects_of [OF p c] c show ?thesis by (auto simp: on_timeout_def)
qed

lemma on_timeouts_run:
  assumes "plain_responders h" and "hdInFlight h = Some st"
  shows "\<exists>h' effs. on_timeouts env (HandleMessage (Suc n) env) ts h = Some (h', effs) \<and> plain_responders h' \<and>
    hdInFlight h' = Some st \<and> map run_user (filter is_run effs) = map (\<lambda>t. (TrustTierOwner, UserID t)) ts"
  using assms
proof (induction ts arbitrary: h)
  case (Cons t ts)
  obtain h1 e1 r1 s inp where 1: "on_timeout env (HandleMessage (Suc n) env) t h = Some (h1, e1, r1)"
    "filter is_run e1 = [RunAgent TrustTierOwner (UserID t) s inp]" "plain_responders h1" "hdInFlight h1 = Some st"
    using on_timeout_runs [OF Cons.prems] by blast
  obtain h2 e2 where 2: "on_timeouts env (HandleMessage (Suc n) env) ts h1 = Some (h2, e2)" "plain_responders h2"
    "hdInFlight h2 = Some st" "map run_user (filter is_run e2) = map (\<lambda>t. (TrustTierOwner, UserID t)) ts"
    using Cons.IH [OF 1(3,4)] by blast
  have "run_user (RunAgent TrustTierOwner (UserID t) s inp) = (TrustTierOwner, UserID t)" by (simp add: run_user_def)
  then show ?case using 1 2 by (auto)
qed simp


text \<open>Every external task that expires is failed and told of to the agent of its user exactly once.\<close>

lemma external_reap_reports:
  assumes "plain_responders h" and "reapExpiredExternal (heNow env) ks st = (st1, ts)"
  shows "\<exists>h' effs. external_reap env (HandleMessage (Suc n) env) ks st h = Some (h', effs) \<and> hdInFlight h' = Some st1 \<and>
    map run_user (filter is_run effs) = map (\<lambda>t. (TrustTierOwner, UserID t)) ts"
proof -
  have "plain_responders (h\<lparr>hdInFlight := Some st1\<rparr>)" using assms(1) by (simp add: plain_responders_def)
  from on_timeouts_run [OF this, of st1 env n ts] show ?thesis using assms(2) by (auto simp: external_reap_def)
qed

text \<open>The audit log after the timeouts of a tick.\<close>

lemma completion_audit:
  assumes "plain_responders h" and "hdInFlight h = Some st"
    and "InjectCompletion env (HandleMessage (Suc n) env) sid uid tid agentName result h = Some (h', effs, err)"
  shows "hdAudit h' = hdAudit h"
proof -
  obtain rid m h2 e2 r2 where c: "InjectCompletion env (HandleMessage (Suc n) env) sid uid tid agentName result h = Some (h2, e2, r2)"
    "handle_trusted env TrustTierOwner rid m h = (h2, e2, r2)"
    using completion_runs [OF assms(1,2)] by metis
  then show ?thesis using assms(3)
    by (auto simp: handle_trusted_def fork_stage_def Let_def split: prod.splits sum.splits option.splits if_splits)
qed

lemma on_timeout_audit:
  assumes "plain_responders h" and "hdInFlight h = Some st" and "on_timeout env (HandleMessage (Suc n) env) t h = Some (h', effs, err)"
  shows "hdAudit h' = (if ApprovalRequest t \<noteq> None then map_option (RecordResolution (ID t) ''timed_out'' ''system'' (heNow env)) (hdAudit h)
                       else hdAudit h)"
proof -
  let ?h = "if ApprovalRequest t \<noteq> None
      then h\<lparr>hdAudit := map_option (RecordResolution (ID t) ''timed_out'' ''system'' (heNow env)) (hdAudit h)\<rparr> else h"
  have p: "plain_responders ?h" "hdInFlight ?h = Some st" using assms by (auto simp: plain_responders_def)
  have "InjectCompletion env (HandleMessage (Suc n) env) (SessionID t) (UserID t) (ID t) ''external''
      (''External task timed out: '' @ Task t) ?h = Some (h', effs, err)" using assms(3) by (simp add: on_timeout_def)
  from completion_audit [OF p this] show ?thesis by simp
qed

definition resolved_as :: "string \<Rightarrow> string \<Rightarrow> audit_table option \<Rightarrow> bool" where
  "resolved_as i r tab = (case tab of None \<Rightarrow> True | Some es \<Rightarrow> list_all (\<lambda>e. aeApprovalID e = i \<longrightarrow> aeResolution e = r) es)"

lemma resolved_record:
  "resolved_as i r (map_option (RecordResolution i r b t) tab)"
  "resolved_as i r tab \<Longrightarrow> resolved_as i r (map_option (RecordResolution j r b t) tab)"
proof -
  have "list_all (\<lambda>e. aeApprovalID e = i \<longrightarrow> aeResolution e = r) (RecordResolution i r b t es)" for es
    by (induction es) (simp_all add: RecordResolution_def)
  then show "resolved_as i r (map_option (RecordResolution i r b t) tab)"
    by (simp add: resolved_as_def split: option.split)
  have "list_all (\<lambda>e. aeApprovalID e = i \<longrightarrow> aeResolution e = r) es \<Longrightarrow>
      list_all (\<lambda>e. aeApprovalID e = i \<longrightarrow> aeResolution e = r) (RecordResolution j r b t es)" for es
    by (induction es) (simp_all add: RecordResolution_def)
  then show "resolved_as i r tab \<Longrightarrow> resolved_as i r (map_option (RecordResolution j r b t) tab)"
    by (simp add: resolved_as_def split: option.splits)
qed

lemma on_timeouts_resolved:
  assumes "plain_responders h" and "hdInFlight h = Some st" and "on_timeouts env (HandleMessage (Suc n) env) ts h = Some (h', effs)"
  shows "(resolved_as i ''timed_out'' (hdAudit h) \<longrightarrow> resolved_as i ''timed_out'' (hdAudit h')) \<and>
    ((\<exists>t\<in>set ts. ID t = i \<and> ApprovalRequest t \<noteq> None) \<longrightarrow> resolved_as i ''timed_out'' (hdAudit h'))"
  using assms
proof (induction ts arbitrary: h effs)
  case (Cons t ts)
  obtain h1 e1 r1 where 1: "on_timeout env (HandleMessage (Suc n) env) t h = Some (h1, e1, r1)" "plain_responders h1" "hdInFlight h1 = Some st"
    using on_timeout_runs [OF Cons.prems(1,2)] by blast
  note a = on_timeout_audit [OF Cons.prems(1,2) 1(1)]
  obtain e2 where "on_timeouts env (HandleMessage (Suc n) env) ts h1 = Some (h', e2)"
    using Cons.prems(3) 1(1) by (auto split: option.splits)
  from Cons.IH [OF 1(2,3) this] a show ?case by (auto simp: resolved_record)
qed simp


lemma reap_reports_expired:
  assumes "enumerates ks (tasks st)" and "Get i st = Some t" and "expired now t" and "reapExpiredExternal now ks st = (st1, ts)"
  shows "time_out now t \<in> set ts \<and> Get i st1 = Some (time_out now t)"
proof -
  have k: "distinct ks" "i \<in> set ks" using assms(1,2) by (auto simp: enumerates_def Get_def)
  have "ts = map (time_out now) (filter (expired now) (List.map_filter (tasks st) ks))"
    using snd_reap [OF k(1), of now st] assms(4) by simp
  moreover have "t \<in> set (List.map_filter (tasks st) ks)" using k(2) assms(2) by (force simp: Get_def List.map_filter_def)
  moreover have "tasks st1 i = Some (time_out now t)"
    using tasks_reap [of now ks st] assms k(2) by (simp add: Get_def)
  ultimately show ?thesis using assms(3) by (simp add: Get_def)
qed

text \<open>An approval given by a message reaches the waiting execution but leaves its task pending, so the
  reaper fails the task when its time is up, records the approval as timed out, and the agent is
  told so as the owner, although the tool was approved.\<close>

theorem approval_times_out:
  assumes "decision_message m i ''approve'' h" and "i \<noteq> ''''" and "plain_responders h"
    and "hdInFlight h = Some st" and "Get i st = Some t" and "Status t = TaskPendingApproval" and "ApprovalRequest t \<noteq> None"
    and "hdExecutions h = Some ex" and "ex i = Some e" and "geDecisionCh e = Some None"
    and "ID t = i" and "External t" and "TimeoutAt t = Some at" and "at < heNow env2" and "enumerates ks (tasks st)"
  shows "\<exists>h1 ex1 h2 effs st2. HandleMessage (Suc n) env m rid h = Some (h1, [], None) \<and> hdExecutions h1 = Some ex1 \<and>
    map_option snd (receive_decision i ex1) = Some True \<and> hdInFlight h1 = Some st \<and>
    external_reap env2 (HandleMessage (Suc n2) env2) ks st h1 = Some (h2, effs) \<and> hdInFlight h2 = Some st2 \<and>
    map_option Status (Get i st2) = Some TaskFailed \<and> resolved_as i ''timed_out'' (hdAudit h2) \<and>
    (TrustTierOwner, UserID t) \<in> run_user ` set (filter is_run effs)"
proof -
  obtain ex1 where s: "SignalDecision i True ex = (ex1, True)" "map_option snd (receive_decision i ex1) = Some True"
    using SignalDecision_waiting [of ex i e True False, OF assms(9,10)] by auto
  let ?h1 = "h\<lparr>hdExecutions := Some ex1\<rparr>"
  have 1: "HandleMessage (Suc n) env m rid h = Some (?h1, [], None)"
    by (rule signalled_decision [OF assms(1,2) _ assms(8)]) (use s in simp_all)
  obtain st1 ts where r: "reapExpiredExternal (heNow env2) ks st = (st1, ts)" by fastforce
  have "expired (heNow env2) t" using assms(6,12-14) by (simp add: expired_def)
  note rr = reap_reports_expired [OF assms(15,5) this r]
  have p: "plain_responders (?h1\<lparr>hdInFlight := Some st1\<rparr>)" using assms(3) by (simp add: plain_responders_def)
  obtain h2 effs where 2: "on_timeouts env2 (HandleMessage (Suc n2) env2) ts (?h1\<lparr>hdInFlight := Some st1\<rparr>) = Some (h2, effs)"
    "hdInFlight h2 = Some st1" "map run_user (filter is_run effs) = map (\<lambda>t. (TrustTierOwner, UserID t)) ts"
    using on_timeouts_run [OF p, of st1 env2 n2 ts] by auto
  have "ID (time_out (heNow env2) t) = i \<and> ApprovalRequest (time_out (heNow env2) t) \<noteq> None"
    using assms(7,11) by (simp add: time_out_def)
  then have "\<exists>t'\<in>set ts. ID t' = i \<and> ApprovalRequest t' \<noteq> None" using rr by blast
  then have a: "resolved_as i ''timed_out'' (hdAudit h2)" using on_timeouts_resolved [OF p _ 2(1), of st1 i] by simp
  have "(TrustTierOwner, UserID t) \<in> set (map run_user (filter is_run effs))"
    unfolding 2(3) set_map using rr by (intro image_eqI [where x = "time_out (heNow env2) t"]) (simp_all add: time_out_def)
  then have "(TrustTierOwner, UserID t) \<in> run_user ` set (filter is_run effs)" by (simp del: set_filter)
  then show ?thesis using 1 2 a r rr s(2) assms(4)
    by (intro exI [of _ ?h1] exI [of _ ex1] exI [of _ h2] exI [of _ effs] exI [of _ st1])
      (simp add: external_reap_def time_out_def del: set_filter)
qed

section \<open>Completions reach the agent\<close>

text \<open>A completed task is told of to the agent exactly once, in the session and for the user it was
  started for, unless it succeeded and its result is to be queued: then nothing happens.\<close>

theorem completion_told_once:
  assumes "plain_responders h" and "hdInFlight h = Some st" and "Get i st = Some t"
  shows "\<exists>h' effs err. completion_callback env (HandleMessage (Suc n) env) i result taskErr policy h = Some (h', effs, err) \<and>
    hdInFlight h' = Some st \<and>
    (if policy = TriggerAuto \<or> taskErr \<noteq> None
     then \<exists>s inp. filter is_run effs = [RunAgent TrustTierOwner (if UserID t = '''' then ''system'' else UserID t) s inp]
     else h' = h \<and> effs = [])"
proof (cases "policy = TriggerAuto \<or> taskErr \<noteq> None")
  case True
  obtain h' effs err where c: "InjectCompletion env (HandleMessage (Suc n) env) (if SessionID t = '''' then ''tg-dm-system'' else SessionID t)
      (if UserID t = '''' then ''system'' else UserID t) i (AgentName t)
      (case taskErr of None \<Rightarrow> result | Some e \<Rightarrow> ''Error: '' @ e) h = Some (h', effs, err)"
    using completion_runs [OF assms(1,2)] by metis
  moreover have "completion_callback env (HandleMessage (Suc n) env) i result taskErr policy h = Some (h', effs, err)"
    using True c assms(2,3) by (auto simp: completion_callback_def)
  ultimately show ?thesis using completion_effects_of [OF assms(1,2) c] True by (auto split: if_splits)
next
  case False
  then show ?thesis using assms(2) by (simp add: completion_callback_def)
qed


section \<open>Small instances\<close>

definition demo_late_env :: handler_env where
  "demo_late_env = demo_handler_env\<lparr>heNow := 100\<rparr>"

lemma demo_deciding_enumerated:
  "\<exists>st t. hdInFlight demo_deciding = Some st \<and> Get ''a'' st = Some t \<and> Status t = TaskPendingApproval \<and> ApprovalRequest t \<noteq> None \<and>
     ID t = ''a'' \<and> External t \<and> TimeoutAt t = Some 60 \<and> UserID t = ''o'' \<and> enumerates [''a''] (tasks st)"
  by (simp add: demo_deciding_def RegisterApproval_def Get_def NewInFlightStore_def enumerates_def)

theorem approval_times_out_witness:
  "\<exists>h1 h2 effs st. hdInFlight demo_deciding = Some st \<and>
     HandleMessage 1 demo_handler_env (demo_decision ''approve'') None demo_deciding = Some (h1, [], None) \<and>
     external_reap demo_late_env (HandleMessage 1 demo_late_env) [''a''] st h1 = Some (h2, effs) \<and>
     (TrustTierOwner, ''o'') \<in> run_user ` set (filter is_run effs)"
proof -
  obtain st t where w: "hdInFlight demo_deciding = Some st" "Get ''a'' st = Some t" "Status t = TaskPendingApproval"
    "ApprovalRequest t \<noteq> None" "ID t = ''a''" "External t" "TimeoutAt t = Some 60" "UserID t = ''o''" "enumerates [''a''] (tasks st)"
    using demo_deciding_enumerated by blast
  have e: "[''a'' \<mapsto> demo_execution] ''a'' = Some demo_execution" "geDecisionCh demo_execution = Some None"
    by (simp_all add: demo_execution_def)
  have l: "60 < heNow demo_late_env" "''a'' \<noteq> ''''" by (simp_all add: demo_late_env_def)
  from approval_times_out [OF demo_decision l(2) demo_waiting(1) w(1-4) demo_waiting(4) e w(5-7) l(1) w(9),
      of 0 demo_handler_env None 0] w(1,8)
  show ?thesis by auto
qed

theorem completion_told_once_witness:
  "\<exists>h' effs err s inp. completion_callback demo_handler_env (HandleMessage 1 demo_handler_env) ''a'' ''done'' None TriggerAuto demo_deciding =
     Some (h', effs, err) \<and> filter is_run effs = [RunAgent TrustTierOwner ''o'' s inp]"
proof -
  obtain st t where w: "hdInFlight demo_deciding = Some st" "Get ''a'' st = Some t" "UserID t = ''o''"
    using demo_deciding_enumerated by blast
  from completion_told_once [OF demo_waiting(1) w(1,2), of demo_handler_env 0 "''done''" None TriggerAuto] w(3)
  show ?thesis by auto
qed

definition demo_old_task :: "string \<Rightarrow> inflight_store" where
  "demo_old_task i = Register 0 i ''agent'' ''work'' TriggerAuto ''s'' ''u'' '''' 0 NewInFlightStore"

theorem watchdog_alerts_once_witness:
  "length (alerts_of ''t'' (concat (snd (watchdog_run 30 [(10, [''t''], demo_old_task ''t''), (40, [''t''], demo_old_task ''t''),
     (50, [''t''], demo_old_task ''t'')] {})))) = 1"
proof -
  have "own_ids (demo_old_task ''t'')" "still_running (demo_old_task ''t'') ''t''"
    "overdue_tick 30 ''t'' (40, [''t''], demo_old_task ''t'')"
    by (simp_all add: demo_old_task_def own_ids_def still_running_def overdue_tick_def Register_def Get_def NewInFlightStore_def)
  then show ?thesis by (subst watchdog_alerts_once) auto
qed

end
