(* ===== verification/Usage.thy ===== *)
theory Usage
  imports TaskTypes
begin

text \<open>
  The wrappers around a model: \<open>internal/model/usage_tracking.go\<close>, which adds up the tokens of the
  calls made for a task, and \<open>internal/model/ratelimit.go\<close>, a semaphore that bounds the calls under
  way.  Accumulators held by contexts live in a heap; those of the registry belong to it alone.
\<close>

section \<open>Accumulators and the registry\<close>

definition no_usage :: token_usage where
  "no_usage = \<lparr>Input = 0, Output = 0, Total = 0\<rparr>"

definition usage_plus :: "token_usage \<Rightarrow> token_usage \<Rightarrow> token_usage" where
  "usage_plus u v = \<lparr>Input = Input u + Input v, Output = Output u + Output v, Total = Total u + Total v\<rparr>"

record usage_state =
  usHeap :: "nat \<rightharpoonup> token_usage"
  usRegistry :: "string \<rightharpoonup> token_usage"
  usActiveID :: string

text \<open>The values of a context: the address of an accumulator and a tracking identifier.\<close>

record usage_ctx =
  ucAcc :: "nat option"
  ucID :: string

definition WithUsageTracking :: "nat \<Rightarrow> usage_ctx \<Rightarrow> usage_state \<Rightarrow> usage_state \<times> usage_ctx" where
  "WithUsageTracking a c s = (s\<lparr>usHeap := (usHeap s)(a \<mapsto> no_usage)\<rparr>, c\<lparr>ucAcc := Some a\<rparr>)"

definition WithTrackingID :: "string \<Rightarrow> usage_ctx \<Rightarrow> usage_ctx" where
  "WithTrackingID i c = c\<lparr>ucID := i\<rparr>"

definition acc_Add :: "nat \<Rightarrow> token_usage option \<Rightarrow> usage_state \<Rightarrow> usage_state" where
  "acc_Add a u s =
     (case u of None \<Rightarrow> s
      | Some v \<Rightarrow> s\<lparr>usHeap := (usHeap s)(a := map_option (usage_plus v) (usHeap s a))\<rparr>)"

definition acc_Get :: "nat option \<Rightarrow> usage_state \<Rightarrow> token_usage" where
  "acc_Get a s = (case a of None \<Rightarrow> no_usage | Some k \<Rightarrow> (case usHeap s k of None \<Rightarrow> no_usage | Some u \<Rightarrow> u))"

definition RegisterTracking :: "string \<Rightarrow> usage_state \<Rightarrow> usage_state" where
  "RegisterTracking i s = s\<lparr>usRegistry := (usRegistry s)(i \<mapsto> no_usage)\<rparr>"

definition GetTrackedUsage :: "string \<Rightarrow> usage_state \<Rightarrow> usage_state \<times> token_usage" where
  "GetTrackedUsage i s =
     (case usRegistry s i of
        None \<Rightarrow> (s, no_usage)
      | Some u \<Rightarrow> (s\<lparr>usRegistry := (usRegistry s)(i := None)\<rparr>, u))"

definition addToTracking :: "string \<Rightarrow> token_usage option \<Rightarrow> usage_state \<Rightarrow> usage_state" where
  "addToTracking i u s =
     (case u of
        None \<Rightarrow> s
      | Some v \<Rightarrow> if i = '''' then s
                  else s\<lparr>usRegistry := (usRegistry s)(i := map_option (usage_plus v) (usRegistry s i))\<rparr>)"

definition addToAllActiveTracking :: "token_usage option \<Rightarrow> usage_state \<Rightarrow> usage_state" where
  "addToAllActiveTracking u s =
     (case u of
        None \<Rightarrow> s
      | Some v \<Rightarrow> s\<lparr>usRegistry := (\<lambda>i. map_option (usage_plus v) (usRegistry s i))\<rparr>)"

text \<open>The order \<open>ks\<close> lists the registry.\<close>

definition hasActiveTracking :: "string list \<Rightarrow> usage_state \<Rightarrow> bool" where
  "hasActiveTracking ks s \<longleftrightarrow> List.map_filter (usRegistry s) ks \<noteq> []"

definition SetActiveTrackingID :: "string \<Rightarrow> usage_state \<Rightarrow> usage_state" where
  "SetActiveTrackingID i s = s\<lparr>usActiveID := i\<rparr>"

definition ClearActiveTrackingID :: "usage_state \<Rightarrow> usage_state" where
  "ClearActiveTrackingID s = s\<lparr>usActiveID := ''''\<rparr>"

section \<open>A call of the tracking model\<close>

text \<open>Where the usage of a call goes is decided when it starts; its responses come later.\<close>

record usage_call =
  clAcc :: "nat option"
  clID :: string
  clGlobal :: bool

definition start_call :: "string list \<Rightarrow> usage_ctx \<Rightarrow> usage_state \<Rightarrow> usage_call" where
  "start_call ks c s =
     \<lparr>clAcc = ucAcc c, clID = (if ucAcc c = None \<and> ucID c = '''' then usActiveID s else ucID c),
      clGlobal = hasActiveTracking ks s\<rparr>"

definition track_response :: "usage_call \<Rightarrow> token_usage option \<Rightarrow> usage_state \<Rightarrow> usage_state" where
  "track_response c u s =
     (if u = None then s
      else
        (let s1 = (case clAcc c of None \<Rightarrow> s | Some a \<Rightarrow> acc_Add a u s)
         in if clID c \<noteq> '''' then addToTracking (clID c) u s1
            else if clGlobal c then addToAllActiveTracking u s1
            else s1))"

definition track_responses :: "(usage_call \<times> token_usage option) list \<Rightarrow> usage_state \<Rightarrow> usage_state" where
  "track_responses rs s = foldl (\<lambda>s (c, u). track_response c u s) s rs"

section \<open>Who is charged\<close>

definition charged :: "string \<Rightarrow> usage_call \<Rightarrow> bool" where
  "charged i c \<longleftrightarrow> (if clID c \<noteq> '''' then clID c = i else clGlobal c)"

definition usage_total :: "(usage_call \<times> token_usage option) list \<Rightarrow> token_usage" where
  "usage_total rs = foldr usage_plus (List.map_filter snd rs) no_usage"

lemma usage_plus_laws [simp]:
  "usage_plus u no_usage = u" "usage_plus no_usage u = u"
  by (simp_all add: usage_plus_def no_usage_def)

lemma usage_plus_assoc: "usage_plus (usage_plus u v) w = usage_plus u (usage_plus v w)"
  by (simp add: usage_plus_def)

lemma usage_plus_comm: "usage_plus u v = usage_plus v u"
  by (simp add: usage_plus_def)

lemma acc_Add_registry [simp]: "usRegistry (acc_Add a u s) = usRegistry s"
  by (simp add: acc_Add_def split: option.split)

lemma track_response_registry:
  assumes "i \<noteq> ''''" and "usRegistry s i = Some u0"
  shows "usRegistry (track_response c u s) i = Some (if charged i c then usage_plus (case u of None \<Rightarrow> no_usage | Some v \<Rightarrow> v) u0 else u0)"
  using assms
  by (auto simp: track_response_def charged_def addToTracking_def addToAllActiveTracking_def Let_def split: option.splits)

lemma track_responses_registry:
  assumes "i \<noteq> ''''" and "usRegistry s i = Some u0"
  shows "usRegistry (track_responses rs s) i = Some (usage_plus (usage_total (filter (charged i \<circ> fst) rs)) u0)"
  using assms(2)
proof (induction rs arbitrary: s u0)
  case Nil
  then show ?case by (simp add: track_responses_def usage_total_def List.map_filter_def)
next
  case (Cons r rs)
  obtain c u where r: "r = (c, u)" by fastforce
  from Cons.IH [OF track_response_registry [OF assms(1) Cons.prems, of c u]] show ?case
    by (auto simp: r track_responses_def usage_total_def List.map_filter_def usage_plus_assoc usage_plus_comm split: option.splits)
qed

text \<open>A task that is tracked is charged with the tokens of exactly the responses of calls that name
  it, and of all calls that name no task at all, which so charges every task that is tracked.\<close>

theorem usage_attribution:
  assumes "i \<noteq> ''''" and "GetTrackedUsage i (track_responses rs (RegisterTracking i s)) = (s', u)"
  shows "u = usage_total (filter (\<lambda>(c, _). clID c = i \<or> clID c = '''' \<and> clGlobal c) rs) \<and> usRegistry s' i = None"
proof -
  have "usRegistry (RegisterTracking i s) i = Some no_usage" by (simp add: RegisterTracking_def)
  note t = track_responses_registry [OF assms(1) this, of rs]
  have "filter (charged i \<circ> fst) rs = filter (\<lambda>(c, _). clID c = i \<or> clID c = '''' \<and> clGlobal c) rs"
    by (rule filter_cong) (auto simp: charged_def assms(1))
  then show ?thesis using assms(2) t by (auto simp: GetTrackedUsage_def split: option.splits)
qed

section \<open>The semaphore\<close>

text \<open>The calls under way: waiting for a slot, waiting for the inner model, or passing on responses.
  \<open>Proxying b p\<close> tells whether the buffer of the channel, which holds one response, is full, and
  whether a response received from the inner model waits for it.\<close>

datatype call_stage = Waiting | Asking | Proxying bool bool | Ended

record limiter_state =
  lmMax :: nat
  lmSlots :: nat
  lmCalls :: "call_stage list"

definition holds :: "call_stage \<Rightarrow> bool" where
  "holds c = (case c of Asking \<Rightarrow> True | Proxying _ _ \<Rightarrow> True | _ \<Rightarrow> False)"

definition set_call :: "nat \<Rightarrow> call_stage \<Rightarrow> limiter_state \<Rightarrow> limiter_state" where
  "set_call i c s = s\<lparr>lmCalls := (lmCalls s)[i := c]\<rparr>"

definition call_at :: "nat \<Rightarrow> call_stage \<Rightarrow> limiter_state \<Rightarrow> bool" where
  "call_at i c s \<longleftrightarrow> i < length (lmCalls s) \<and> lmCalls s ! i = c"

datatype limiter_event =
  CallStarts | Acquires nat | CtxDone nat | InnerFails nat | InnerStarts nat
| Receives nat | PassesOn nat | ReaderTakes nat | InnerCloses nat

inductive limiter_step :: "limiter_state \<Rightarrow> limiter_event \<Rightarrow> limiter_state \<Rightarrow> bool" where
  call_starts: "limiter_step s CallStarts (s\<lparr>lmCalls := lmCalls s @ [Waiting]\<rparr>)"
| acquires: "call_at i Waiting s \<Longrightarrow> lmSlots s < lmMax s \<Longrightarrow>
     limiter_step s (Acquires i) ((set_call i Asking s)\<lparr>lmSlots := Suc (lmSlots s)\<rparr>)"
| ctx_done: "call_at i Waiting s \<Longrightarrow> limiter_step s (CtxDone i) (set_call i Ended s)"
| inner_fails: "call_at i Asking s \<Longrightarrow>
     limiter_step s (InnerFails i) ((set_call i Ended s)\<lparr>lmSlots := lmSlots s - 1\<rparr>)"
| inner_starts: "call_at i Asking s \<Longrightarrow> limiter_step s (InnerStarts i) (set_call i (Proxying False False) s)"
| receives: "call_at i (Proxying b False) s \<Longrightarrow> limiter_step s (Receives i) (set_call i (Proxying b True) s)"
| passes_on: "call_at i (Proxying False True) s \<Longrightarrow> limiter_step s (PassesOn i) (set_call i (Proxying True False) s)"
| reader_takes: "call_at i (Proxying True p) s \<Longrightarrow> limiter_step s (ReaderTakes i) (set_call i (Proxying False p) s)"
| inner_closes: "call_at i (Proxying b False) s \<Longrightarrow>
     limiter_step s (InnerCloses i) ((set_call i Ended s)\<lparr>lmSlots := lmSlots s - 1\<rparr>)"

inductive_cases limiter_stepE [elim!]: "limiter_step s e s'"

definition NewRateLimitedModel :: "nat \<Rightarrow> limiter_state" where
  "NewRateLimitedModel m = \<lparr>lmMax = m, lmSlots = 0, lmCalls = []\<rparr>"

inductive limiter_run :: "limiter_state \<Rightarrow> limiter_event list \<Rightarrow> limiter_state \<Rightarrow> bool" where
  run_nil: "limiter_run s [] s"
| run_step: "limiter_step s e s1 \<Longrightarrow> limiter_run s1 es s2 \<Longrightarrow> limiter_run s (e # es) s2"

definition limiter_ok :: "limiter_state \<Rightarrow> bool" where
  "limiter_ok s \<longleftrightarrow> lmSlots s = length (filter holds (lmCalls s)) \<and> lmSlots s \<le> lmMax s"

lemma filter_update:
  "i < length xs \<Longrightarrow> length (filter P (xs[i := y])) + (if P (xs ! i) then 1 else 0) = length (filter P xs) + (if P y then 1 else 0)"
proof (induction xs arbitrary: i)
  case (Cons x xs)
  then show ?case using Cons.IH [of "i - 1"] by (cases i) auto
qed simp

lemma holds_update:
  assumes "call_at i c s"
  shows "length (filter holds ((lmCalls s)[i := y])) + (if holds c then 1 else 0) =
    length (filter holds (lmCalls s)) + (if holds y then 1 else 0)"
  using filter_update [of i "lmCalls s" holds y] assms by (auto simp: call_at_def)

lemma limiter_step_ok: "limiter_step s e s' \<Longrightarrow> limiter_ok s \<Longrightarrow> limiter_ok s' \<and> lmMax s' = lmMax s"
proof (induction rule: limiter_step.induct)
  case (call_starts s)
  then show ?case by (simp add: limiter_ok_def holds_def)
next
  case (acquires i s)
  then show ?case using holds_update [OF acquires(1), of Asking] by (simp add: limiter_ok_def set_call_def holds_def)
next
  case (ctx_done i s)
  then show ?case using holds_update [OF ctx_done(1), of Ended] by (simp add: limiter_ok_def set_call_def holds_def)
next
  case (inner_fails i s)
  then show ?case using holds_update [OF inner_fails(1), of Ended] by (simp add: limiter_ok_def set_call_def holds_def) linarith
next
  case (inner_starts i s)
  then show ?case using holds_update [OF inner_starts(1), of "Proxying False False"] by (simp add: limiter_ok_def set_call_def holds_def)
next
  case (receives i b s)
  then show ?case using holds_update [OF receives(1), of "Proxying b True"] by (simp add: limiter_ok_def set_call_def holds_def)
next
  case (passes_on i s)
  then show ?case using holds_update [OF passes_on(1), of "Proxying True False"] by (simp add: limiter_ok_def set_call_def holds_def)
next
  case (reader_takes i p s)
  then show ?case using holds_update [OF reader_takes(1), of "Proxying False p"] by (simp add: limiter_ok_def set_call_def holds_def)
next
  case (inner_closes i b s)
  then show ?case using holds_update [OF inner_closes(1), of Ended] by (simp add: limiter_ok_def set_call_def holds_def) linarith
qed

lemma limiter_run_ok: "limiter_run s es s' \<Longrightarrow> limiter_ok s \<Longrightarrow> limiter_ok s' \<and> lmMax s' = lmMax s"
  by (induction rule: limiter_run.induct) (use limiter_step_ok in metis)+

text \<open>At most the configured number of calls to the model is under way, whatever the calls do.\<close>

theorem calls_bounded:
  assumes "limiter_run (NewRateLimitedModel m) es s"
  shows "length (filter holds (lmCalls s)) = lmSlots s \<and> lmSlots s \<le> m"
  using limiter_run_ok [OF assms] by (simp add: limiter_ok_def NewRateLimitedModel_def)

text \<open>A reader that stops reading while responses are left keeps its slot: the call never ends.\<close>

lemma abandoned_step:
  assumes "limiter_step s e s'" and "call_at i (Proxying True True) s" and "e \<noteq> ReaderTakes i"
  shows "call_at i (Proxying True True) s'"
  using assms by (auto simp: call_at_def set_call_def nth_append nth_list_update split: if_splits)

lemma abandoned_call:
  "limiter_run s es s' \<Longrightarrow> call_at i (Proxying True True) s \<Longrightarrow> ReaderTakes i \<notin> set es \<Longrightarrow> call_at i (Proxying True True) s'"
proof (induction rule: limiter_run.induct)
  case (run_step s e s1 es s2)
  then show ?case using abandoned_step [OF run_step(1), of i] by auto
qed

section \<open>Accumulators of contexts\<close>

lemma acc_Add_heap:
  "usHeap s a = Some u0 \<Longrightarrow> usHeap (acc_Add b u s) a = Some (if a = b then usage_plus (case u of None \<Rightarrow> no_usage | Some v \<Rightarrow> v) u0 else u0)"
  by (auto simp: acc_Add_def split: option.splits)

lemma addTo_heap [simp]: "usHeap (addToTracking i u s) = usHeap s" "usHeap (addToAllActiveTracking u s) = usHeap s"
  by (simp_all add: addToTracking_def addToAllActiveTracking_def split: option.split)

lemma track_response_heap:
  assumes "usHeap s a = Some u0"
  shows "usHeap (track_response c u s) a = Some (if clAcc c = Some a then usage_plus (case u of None \<Rightarrow> no_usage | Some v \<Rightarrow> v) u0 else u0)"
  using assms acc_Add_heap [OF assms] by (auto simp: track_response_def Let_def split: option.splits)

lemma track_responses_heap:
  "usHeap s a = Some u0 \<Longrightarrow>
     usHeap (track_responses rs s) a = Some (usage_plus (usage_total (filter (\<lambda>(c, _). clAcc c = Some a) rs)) u0)"
proof (induction rs arbitrary: s u0)
  case Nil
  then show ?case by (simp add: track_responses_def usage_total_def List.map_filter_def)
next
  case (Cons r rs)
  obtain c u where r: "r = (c, u)" by fastforce
  from Cons.IH [OF track_response_heap [OF Cons.prems, of c u]] show ?case
    by (auto simp: r track_responses_def usage_total_def List.map_filter_def usage_plus_assoc usage_plus_comm split: option.splits)
qed

lemma usage_total_mono:
  assumes "\<And>r. r \<in> set rs \<Longrightarrow> P r \<Longrightarrow> Q r" and "\<And>c v. (c, Some v) \<in> set rs \<Longrightarrow> 0 \<le> Total v"
  shows "0 \<le> Total (usage_total (filter P rs)) \<and> Total (usage_total (filter P rs)) \<le> Total (usage_total (filter Q rs))"
  using assms
proof (induction rs)
  case Nil
  then show ?case by (simp add: usage_total_def List.map_filter_def no_usage_def)
next
  case (Cons r rs)
  obtain c u where r: "r = (c, u)" by fastforce
  have IH: "0 \<le> Total (usage_total (filter P rs)) \<and> Total (usage_total (filter P rs)) \<le> Total (usage_total (filter Q rs))"
    by (rule Cons.IH) (use Cons.prems in auto)
  have e: "Total (usage_total (filter R (r # rs))) =
      (if R r then (case u of None \<Rightarrow> 0 | Some v \<Rightarrow> Total v) else 0) + Total (usage_total (filter R rs))" for R
    by (simp add: r usage_total_def List.map_filter_def usage_plus_def split: option.split)
  have n: "0 \<le> (case u of None \<Rightarrow> 0 | Some v \<Rightarrow> Total v)" using Cons.prems(2) [of c] r by (auto split: option.split)
  have "P r \<Longrightarrow> Q r" using Cons.prems(1) [of r] by simp
  then show ?case using IH n unfolding e by auto
qed

section \<open>Small instances\<close>

theorem calls_bounded_witness:
  "\<exists>s. limiter_run (NewRateLimitedModel 1) [CallStarts, Acquires 0] s \<and> length (filter holds (lmCalls s)) = lmSlots s \<and> lmSlots s \<le> 1"
proof -
  let ?s = "NewRateLimitedModel 1\<lparr>lmCalls := lmCalls (NewRateLimitedModel 1) @ [Waiting]\<rparr>"
  have "limiter_step ?s (Acquires 0) ((set_call 0 Asking ?s)\<lparr>lmSlots := Suc (lmSlots ?s)\<rparr>)"
    by (rule acquires) (simp_all add: NewRateLimitedModel_def call_at_def)
  then have "limiter_run (NewRateLimitedModel 1) [CallStarts, Acquires 0] ((set_call 0 Asking ?s)\<lparr>lmSlots := Suc (lmSlots ?s)\<rparr>)"
    by (intro run_step [OF call_starts] run_step [OF _ run_nil])
  from this calls_bounded [OF this] show ?thesis by blast
qed

theorem usage_attribution_witness:
  "snd (GetTrackedUsage ''t'' (track_responses [(\<lparr>clAcc = None, clID = '''', clGlobal = True\<rparr>, Some \<lparr>Input = 1, Output = 2, Total = 3\<rparr>)]
     (RegisterTracking ''t'' \<lparr>usHeap = Map.empty, usRegistry = Map.empty, usActiveID = ''''\<rparr>))) = \<lparr>Input = 1, Output = 2, Total = 3\<rparr>"
proof -
  let ?r = "[(\<lparr>clAcc = None, clID = '''', clGlobal = True\<rparr>, Some \<lparr>Input = 1, Output = 2, Total = 3\<rparr>)]"
  obtain s u where g: "GetTrackedUsage ''t'' (track_responses ?r (RegisterTracking ''t'' \<lparr>usHeap = Map.empty, usRegistry = Map.empty, usActiveID = ''''\<rparr>)) = (s, u)"
    by fastforce
  from usage_attribution [OF _ g] g show ?thesis
    by (simp add: usage_total_def List.map_filter_def usage_plus_def no_usage_def)
qed

end
