(* ===== verification/AgentCallbacks.thy ===== *)
theory AgentCallbacks
  imports Usage Dispatch ApprovalText AuditLog Channels FileTools
begin

text \<open>
  The coordinator's tools, \<open>internal/agent/agent.go\<close>: what happens before and after every tool call
  (registration of tasks, the world model, notifications of notify-tier tools, token counts),
  the end of a turn, the coordinator's own \<open>read\<close> and \<open>ls\<close>, and the small tools that show and cancel
  tasks (\<open>async_status.go\<close>, \<open>cancel_task.go\<close>).
\<close>

section \<open>State and arguments of the callbacks\<close>

record agent_state =
  asStore :: inflight_store
  asUsage :: usage_state
  asAudit :: "audit_table option"
  asCallCount :: "string \<Rightarrow> int"
  asToolNames :: "string \<Rightarrow> string list"

text \<open>What the callbacks are built with; the function that sends notifications may be unset.\<close>

record agent_config =
  agMembers :: "string list"
  agNotifyTools :: "string \<rightharpoonup> string"
  agNotify :: bool

text \<open>The invocation of the agent library: its identifier and, if it has a session, session and user.\<close>

record invocation =
  ivID :: string
  ivSession :: "(string \<times> string) option"

definition infraTools :: "string list" where
  "infraTools = [''dispatch_task'', ''task_status'', ''pipeline_status'', ''cancel_task'']"

definition session_of :: "invocation option \<Rightarrow> string \<times> string" where
  "session_of iv = (case iv of None \<Rightarrow> ('''', '''') | Some v \<Rightarrow> (case ivSession v of None \<Rightarrow> ('''', '''') | Some x \<Rightarrow> x))"

definition invocation_id :: "invocation option \<Rightarrow> string" where
  "invocation_id iv = (case iv of None \<Rightarrow> '''' | Some v \<Rightarrow> ivID v)"

definition preview :: "nat \<Rightarrow> string \<Rightarrow> string" where
  "preview n s = (if length s > n then take n s @ ''...'' else s)"

section \<open>Notifications\<close>

definition tool_notification :: "string \<Rightarrow> string \<Rightarrow> string \<Rightarrow> string \<Rightarrow> string \<Rightarrow> response" where
  "tool_notification i sid toolName skill desc =
     \<lparr>rpID = i, rpMessageID = '''', rpSessionID = sid, rpContent = '''', rpType = ''tool_notification'', rpDone = False,
      rpMetadata = [''tool_name'' \<mapsto> JStr toolName, ''skill_name'' \<mapsto> JStr skill, ''description'' \<mapsto> JStr desc]\<rparr>"

text \<open>The audit log and what is sent, for a tool of the notify tier; the call goes on.\<close>

definition notify_tier ::
  "time \<Rightarrow> string \<Rightarrow> bool \<Rightarrow> invocation option \<Rightarrow> string \<Rightarrow> string \<Rightarrow> string \<Rightarrow> audit_table option \<Rightarrow>
   audit_table option \<times> (string \<times> response) list" where
  "notify_tier now notifyID canSend iv toolName skill rawArgs audit =
     (let desc = formatApprovalDescription toolName rawArgs;
          (sid, uid) = session_of iv
      in (map_option (\<lambda>t. RecordResolution notifyID ''notified'' ''system'' now
            (request_recorded notifyID toolName skill rawArgs desc sid uid now t)) audit,
          if canSend then [(sid, tool_notification notifyID sid toolName skill desc)] else []))"

text \<open>The callback of sub-agents does nothing else.\<close>

definition BuildApprovalCallbacks ::
  "(string \<rightharpoonup> string) \<Rightarrow> bool \<Rightarrow> time \<Rightarrow> string \<Rightarrow> invocation option \<Rightarrow> string \<Rightarrow> string \<Rightarrow> audit_table option \<Rightarrow>
   audit_table option \<times> (string \<times> response) list" where
  "BuildApprovalCallbacks notifyTools canSend now notifyID iv toolName rawArgs audit =
     (case notifyTools toolName of
        None \<Rightarrow> (audit, [])
      | Some skill \<Rightarrow> notify_tier now notifyID canSend iv toolName skill rawArgs audit)"

section \<open>Before a tool call\<close>

definition member_task :: "string \<Rightarrow> string" where
  "member_task rawArgs =
     (case decode_one_string ''message'' rawArgs of Some m \<Rightarrow> if m \<noteq> '''' then m else rawArgs | None \<Rightarrow> rawArgs)"

text \<open>The fields \<open>task\<close> and \<open>agent_name\<close>, decoded together.\<close>

definition dispatch_task_arg :: "string \<Rightarrow> string" where
  "dispatch_task_arg rawArgs =
     (case json_parse rawArgs of
        None \<Rightarrow> ''''
      | Some v \<Rightarrow>
          (let (t, e1) = string_field ''task'' v; (a, e2) = string_field ''agent_name'' v
           in if e1 \<or> e2 \<or> \<not> is_struct_source v then '''' else t))"

definition coordinator_description :: "string list \<Rightarrow> string \<Rightarrow> string" where
  "coordinator_description names rawArgs =
     (let t = dispatch_task_arg rawArgs in
      ''Coordinator: '' @ (if t \<noteq> '''' then preview 100 t else join_str '', '' names))"

definition tool_event_of :: "time \<Rightarrow> string \<Rightarrow> int \<Rightarrow> string \<Rightarrow> string \<Rightarrow> task_event" where
  "tool_event_of now ty n toolName content =
     \<lparr>evTimestamp = now, evType = ty, evTurn = n, evTools = [toolName], evContent = content, evTokens = None\<rparr>"

definition coord_task :: "invocation option \<Rightarrow> string" where
  "coord_task iv = ''coord-'' @ invocation_id iv"

text \<open>A call of a tool that is not a member's: all calls of one invocation form one task.\<close>

definition before_direct ::
  "time \<Rightarrow> invocation option \<Rightarrow> string \<Rightarrow> string \<Rightarrow> agent_state \<Rightarrow> agent_state" where
  "before_direct now iv toolName rawArgs a =
     (let i = invocation_id iv;
          (sid, uid) = session_of iv;
          n = asCallCount a i + 1;
          names = (if toolName \<in> set (asToolNames a i) then asToolNames a i else asToolNames a i @ [toolName]);
          desc = coordinator_description names rawArgs;
          st = asStore a;
          st1 = (if InFlight.Get (coord_task iv) st = None
                 then InFlight.Register now (coord_task iv) ''coordinator'' desc TriggerAuto sid uid '''' 0 st
                 else UpdateTask (coord_task iv) desc st);
          st2 = fst (AddEvent (coord_task iv) (tool_event_of now ''tool_call'' n toolName (preview 200 rawArgs)) st1)
      in a\<lparr>asStore := st2, asCallCount := (asCallCount a)(i := n), asToolNames := (asToolNames a)(i := names)\<rparr>)"

text \<open>A call of a member of the team is a task of its own, whose tokens are tracked: by the accumulator
  at \<open>addr\<close> in the context of the call, and in the registry.\<close>

definition before_member ::
  "time \<Rightarrow> nat \<Rightarrow> string \<Rightarrow> invocation option \<Rightarrow> string \<Rightarrow> string \<Rightarrow> usage_ctx \<Rightarrow> agent_state \<Rightarrow> agent_state \<times> usage_ctx" where
  "before_member now addr callID iv toolName rawArgs c a =
     (let (sid, uid) = session_of iv;
          st = InFlight.Register now callID toolName (member_task rawArgs) TriggerAuto sid uid '''' 0 (asStore a);
          (us, c1) = WithUsageTracking addr c (RegisterTracking callID (asUsage a))
      in (a\<lparr>asStore := st, asUsage := us\<rparr>, WithTrackingID callID c1))"

definition start_in_world_model :: "time \<Rightarrow> string \<Rightarrow> string \<Rightarrow> inflight_store \<Rightarrow> inflight_store" where
  "start_in_world_model now sid callID st =
     (if sid = '''' then st
      else (case GetOrCreateWorldModel now sid st of
              (st1, wm) \<Rightarrow> st1\<lparr>worldModels := (worldModels st1)(sid \<mapsto> RecordToolCallStart now callID wm)\<rparr>))"

text \<open>The state, the context of the call and the notifications sent.\<close>

definition before_tool ::
  "agent_config \<Rightarrow> time \<Rightarrow> nat \<Rightarrow> string \<Rightarrow> invocation option \<Rightarrow> string \<Rightarrow> string \<Rightarrow> string \<Rightarrow> usage_ctx \<Rightarrow> agent_state \<Rightarrow>
   agent_state \<times> usage_ctx \<times> (string \<times> response) list" where
  "before_tool cfg now addr notifyID iv callID toolName rawArgs c a =
     (if toolName \<in> set infraTools then (a, c, [])
      else
        (case agNotifyTools cfg toolName of
           Some skill \<Rightarrow>
             (case notify_tier now notifyID (agNotify cfg) iv toolName skill rawArgs (asAudit a) of
                (au, sent) \<Rightarrow> (a\<lparr>asAudit := au\<rparr>, c, sent))
         | None \<Rightarrow>
             (let a1 = a\<lparr>asStore := start_in_world_model now (fst (session_of iv)) callID (asStore a)\<rparr> in
              if toolName \<in> set (agMembers cfg) then
                (case before_member now addr callID iv toolName rawArgs c a1 of (a2, c2) \<Rightarrow> (a2, c2, []))
              else (before_direct now iv toolName rawArgs a1, c, []))))"

section \<open>After a tool call\<close>

text \<open>A tool's result is nil, a string, a value with a text of its own, or a value shown as JSON, if it
  has one, and otherwise as Go prints it.\<close>

datatype tool_result = NilResult | TextResult string | StringerResult string | ErrorResult string | ValueResult "string option" string

fun resultToString :: "tool_result \<Rightarrow> string" where
  "resultToString NilResult = ''''"
| "resultToString (TextResult s) = s"
| "resultToString (StringerResult s) = s"
| "resultToString (ErrorResult s) = s"
| "resultToString (ValueResult j p) = (case j of Some s \<Rightarrow> s | None \<Rightarrow> p)"

definition modified_path :: "string \<Rightarrow> string" where
  "modified_path rawArgs =
     (case json_parse rawArgs of
        None \<Rightarrow> ''''
      | Some v \<Rightarrow>
          (let (p, e1) = string_field ''path'' v; (f, e2) = string_field ''file_path'' v
           in if e1 \<or> e2 \<or> \<not> is_struct_source v then '''' else if p = '''' then f else p))"

definition test_outcome :: "string \<Rightarrow> test_status option" where
  "test_outcome r =
     (if contains_str r ''PASS'' \<or> contains_str r ''ok '' then Some TestStatusPassing
      else if contains_str r ''FAIL'' \<or> contains_str r ''--- FAIL'' then Some TestStatusFailing
      else None)"

definition build_outcome :: "string \<Rightarrow> test_status option" where
  "build_outcome r =
     (if contains_str r ''Build succeeded'' \<or> contains_str r ''build successful'' then Some TestStatusPassing
      else if contains_str r ''build failed'' \<or> contains_str r ''compilation error'' then Some TestStatusFailing
      else None)"

definition world_model_after ::
  "time \<Rightarrow> string \<Rightarrow> string \<Rightarrow> string \<Rightarrow> string \<Rightarrow> string option \<Rightarrow> world_model \<Rightarrow> world_model" where
  "world_model_after now callID toolName rawArgs r err wm =
     (let t = to_lower toolName;
          w1 = RecordToolCallEnd now callID toolName (err = None) (case err of None \<Rightarrow> '''' | Some e \<Rightarrow> e) (int (length r)) wm;
          w2 = (if t \<in> {''write'', ''edit''} \<and> modified_path rawArgs \<noteq> ''''
                then RecordFileModified now (modified_path rawArgs) w1 else w1);
          w3 = (if t \<in> {''bash'', ''exec''} then (case test_outcome r of Some s \<Rightarrow> UpdateTestStatus now s w2 | None \<Rightarrow> w2) else w2)
      in if t \<in> {''bash'', ''exec''} then (case build_outcome r of Some s \<Rightarrow> UpdateBuildStatus now s w3 | None \<Rightarrow> w3) else w3)"

definition end_in_world_model ::
  "time \<Rightarrow> string \<Rightarrow> string \<Rightarrow> string \<Rightarrow> string \<Rightarrow> string \<Rightarrow> string option \<Rightarrow> inflight_store \<Rightarrow> inflight_store" where
  "end_in_world_model now sid callID toolName rawArgs r err st =
     (if sid = '''' then st
      else (case GetWorldModel sid st of
              None \<Rightarrow> st
            | Some wm \<Rightarrow> st\<lparr>worldModels := (worldModels st)(sid \<mapsto> world_model_after now callID toolName rawArgs r err wm)\<rparr>))"

text \<open>The larger of the two counts is taken.\<close>

definition member_usage :: "string \<Rightarrow> usage_ctx \<Rightarrow> usage_state \<Rightarrow> usage_state \<times> token_usage" where
  "member_usage callID c us =
     (case GetTrackedUsage callID us of
        (us1, reg) \<Rightarrow> (let u = acc_Get (ucAcc c) us in (us1, if Total reg > Total u then reg else u)))"

definition after_member ::
  "time \<Rightarrow> string \<Rightarrow> string \<Rightarrow> string \<Rightarrow> string option \<Rightarrow> usage_ctx \<Rightarrow> agent_state \<Rightarrow> agent_state" where
  "after_member now callID toolName r err c a =
     (case member_usage callID c (asUsage a) of
        (us, u) \<Rightarrow>
          (let st = (if Total u > 0 then AddTokenUsage callID (Input u) (Output u) (Total u) (asStore a) else asStore a)
           in a\<lparr>asUsage := us,
                asStore := (case err of
                   None \<Rightarrow> InFlight.Complete now callID r st
                 | Some e \<Rightarrow> InFlight.Fail now callID (if isCallLimitError e then call_limit_message toolName e else e) st)\<rparr>))"

definition after_direct ::
  "time \<Rightarrow> invocation option \<Rightarrow> string \<Rightarrow> string \<Rightarrow> string option \<Rightarrow> agent_state \<Rightarrow> agent_state" where
  "after_direct now iv toolName r err a =
     a\<lparr>asStore := fst (AddEvent (coord_task iv)
         (tool_event_of now (if err = None then ''response'' else ''error'') (asCallCount a (invocation_id iv)) toolName
            (case err of None \<Rightarrow> preview 200 r | Some e \<Rightarrow> e)) (asStore a))\<rparr>"

definition after_tool ::
  "agent_config \<Rightarrow> time \<Rightarrow> invocation option \<Rightarrow> string \<Rightarrow> string \<Rightarrow> string \<Rightarrow> tool_result \<Rightarrow> string option \<Rightarrow> usage_ctx \<Rightarrow>
   agent_state \<Rightarrow> agent_state" where
  "after_tool cfg now iv callID toolName rawArgs res err c a =
     (if toolName \<in> set infraTools then a
      else
        (let r = resultToString res;
             a1 = a\<lparr>asStore := end_in_world_model now (fst (session_of iv)) callID toolName rawArgs r err (asStore a)\<rparr>
         in if toolName \<in> set (agMembers cfg) then after_member now callID toolName r err c a1
            else after_direct now iv toolName r err a1))"

section \<open>The end of a turn\<close>

definition turn_tools :: "task_event list \<Rightarrow> string list" where
  "turn_tools evs = foldl (\<lambda>seen t. if t \<in> set seen then seen else seen @ [t]) [] (concat (map evTools evs))"

definition turn_summary :: "task_event list \<Rightarrow> string" where
  "turn_summary evs =
     (let calls = filter (\<lambda>e. evType e = ''tool_call'') evs
      in ''Completed '' @ itoa (int (length calls)) @ '' tool call(s): '' @ join_str '', '' (turn_tools calls))"

definition end_turn :: "time \<Rightarrow> string \<Rightarrow> agent_state \<Rightarrow> agent_state" where
  "end_turn now i a =
     (case InFlight.Get (''coord-'' @ i) (asStore a) of
        None \<Rightarrow> a
      | Some t \<Rightarrow>
          if Status t = TaskRunning
          then a\<lparr>asStore := InFlight.Complete now (''coord-'' @ i) (turn_summary (Events t)) (asStore a)\<rparr>
          else a)"


section \<open>The coordinator's file tools\<close>

text \<open>The result or the error; \<open>None\<close> is the panic of a slice with a negative bound.\<close>

definition coordinator_read :: "('fs, 'h) fs_ops \<Rightarrow> read_args \<Rightarrow> 'fs \<Rightarrow> read_result go_result option" where
  "coordinator_read ops args m =
     (let path = raPath args; maxLines = (case raMaxLines args of None \<Rightarrow> 1000 | Some n \<Rightarrow> n) in
      if path = '''' then Some (Inl ''path is required'')
      else
        (case opStat ops path m of
           Inl _ \<Rightarrow> Some (Inr \<lparr>rrContent = '''', rrMessage = ''File not found: '' @ path @ '' does not exist''\<rparr>)
         | Inr info \<Rightarrow>
             if fiIsDir info then
               (case opReadDir ops path m of
                  Inl e \<Rightarrow> Some (Inl (''failed to read directory: '' @ e))
                | Inr es \<Rightarrow>
                    Some (Inr \<lparr>rrContent = ''Directory listing for: '' @ path @ newline @ newline @ concat (map list_line es),
                      rrMessage = ''Listed '' @ itoa (int (length es)) @ '' entries in '' @ path @
                        '' (use '' @ [CHR 0x27] @ ''ls'' @ [CHR 0x27] @ '' tool for directory listings)''\<rparr>))
             else
               (case opReadFile ops path m of
                  Inl e \<Rightarrow> Some (Inl (''failed to read file: '' @ e))
                | Inr data \<Rightarrow>
                    (case limit_lines maxLines data of
                       None \<Rightarrow> None
                     | Some (content, n) \<Rightarrow>
                         Some (Inr \<lparr>rrContent = content,
                           rrMessage = ''Read '' @ path @ '' ('' @ itoa (min n maxLines) @ '' lines)''\<rparr>)))))"

definition coordinator_ls :: "('fs, 'h) fs_ops \<Rightarrow> string \<Rightarrow> 'fs \<Rightarrow> (string list \<times> string) go_result" where
  "coordinator_ls ops path0 m =
     (let path = (if path0 = '''' then ''.'' else path0) in
      case opStat ops path m of
        Inl e \<Rightarrow> Inl (''failed to stat path: '' @ e)
      | Inr info \<Rightarrow>
          if \<not> fiIsDir info then Inl (''path is not a directory: '' @ path)
          else
            (case opReadDir ops path m of
               Inl e \<Rightarrow> Inl (''failed to read directory: '' @ e)
             | Inr es \<Rightarrow>
                 Inr (map (\<lambda>e. fiName e @ (if fiIsDir e then ''/'' else '''')) es,
                      ''Listed '' @ itoa (int (length es)) @ '' entries in '' @ path)))"

section \<open>Showing and cancelling tasks\<close>

definition task_status_check :: "string list \<Rightarrow> string \<Rightarrow> string \<Rightarrow> inflight_store \<Rightarrow> task_state list" where
  "task_status_check ks i status st =
     (if i \<noteq> '''' then (case InFlight.Get i st of None \<Rightarrow> [] | Some t \<Rightarrow> [t]) else InFlight.List ks status st)"

definition cancel_task_tool :: "time \<Rightarrow> string \<Rightarrow> inflight_store \<Rightarrow> inflight_store \<times> (bool \<times> string) go_result" where
  "cancel_task_tool now i st =
     (if i = '''' then (st, Inl ''task_id is required'')
      else
        (case InFlight.Cancel now i st of
           (st1, True, _) \<Rightarrow>
             (st1, Inr (True, ''Task '' @ i @ '' has been cancelled.'' @
                (case InFlight.Get i st1 of None \<Rightarrow> ''''
                 | Some t \<Rightarrow> '' You can retry the cancelled stage by dispatching agent '' @ quote (AgentName t) @ '' again with the same task.'')))
         | (st1, False, _) \<Rightarrow>
             (st1, Inr (False,
                (case InFlight.Get i st1 of None \<Rightarrow> ''Task '' @ i @ '' not found.''
                 | Some t \<Rightarrow> ''Task '' @ i @ '' is already '' @ status_str (Status t) @ ''.'')))))"


section \<open>Calls of members\<close>

lemma world_model_tasks [simp]:
  "tasks (start_in_world_model now sid callID st) = tasks st"
  "tasks (end_in_world_model now sid callID toolName rawArgs r err st) = tasks st"
  by (simp_all add: start_in_world_model_def end_in_world_model_def GetOrCreateWorldModel_def Let_def split: option.split)

lemma before_member_call:
  assumes "toolName \<notin> set infraTools" and "toolName \<in> set (agMembers cfg)" and "agNotifyTools cfg toolName = None"
    and "before_tool cfg now addr nid iv callID toolName rawArgs c a = (a1, c1, sent)"
  shows "(\<exists>t. InFlight.Get callID (asStore a1) = Some t \<and> Status t = TaskRunning \<and> AgentName t = toolName \<and> TotalTokens t = None \<and>
      Task t = member_task rawArgs \<and> (SessionID t, UserID t) = session_of iv) \<and>
    sent = [] \<and> c1 = \<lparr>ucAcc = Some addr, ucID = callID\<rparr> \<and>
    usHeap (asUsage a1) addr = Some no_usage \<and> usRegistry (asUsage a1) callID = Some no_usage"
  using assms
  by (auto simp: before_tool_def before_member_def WithUsageTracking_def WithTrackingID_def RegisterTracking_def Register_def
      InFlight.Get_def zero_task_def Let_def split: prod.splits)

lemma after_member_call:
  assumes "toolName \<notin> set infraTools" and "toolName \<in> set (agMembers cfg)"
    and "InFlight.Get callID (asStore a) = Some t" and "Status t = TaskRunning" and "TotalTokens t = None"
    and "member_usage callID c (asUsage a) = (us, u)" and "0 \<le> Total u"
  shows "\<exists>t'. InFlight.Get callID (asStore (after_tool cfg now iv callID toolName rawArgs res err c a)) = Some t' \<and>
    Status t' = (if err = None then TaskCompleted else TaskFailed) \<and> (err = None \<longrightarrow> Result t' = resultToString res) \<and>
    AgentName t' = AgentName t \<and> SessionID t' = SessionID t \<and> UserID t' = UserID t \<and> Task t' = Task t \<and> usage_sum Total (TotalTokens t') = Total u \<and>
    asUsage (after_tool cfg now iv callID toolName rawArgs res err c a) = us"
  using assms
  by (auto simp: after_tool_def after_member_def Let_def InFlight.Get_def InFlight.Complete_def InFlight.Fail_def
      AddTokenUsage_def tasks_update_task usage_sum_def add_usage_def split: option.splits)

text \<open>C31. Before a call of a member of the team runs, a task of the call's identifier is running, with the
  session and the user of the invocation; when the call returns, the same task is completed with its
  result or failed, and carries the tokens of exactly the model calls made in between that belong to
  the call or to nobody, and its account is closed.\<close>

theorem member_call_recorded:
  assumes "toolName \<notin> set infraTools" and "toolName \<in> set (agMembers cfg)" and "agNotifyTools cfg toolName = None"
    and "callID \<noteq> ''''" and "before_tool cfg now addr nid iv callID toolName rawArgs c a = (a1, c1, sent)"
    and "\<forall>(k, u)\<in>set rs. (clAcc k = Some addr \<longrightarrow> clID k = callID) \<and> (\<forall>v. u = Some v \<longrightarrow> 0 \<le> Total v)"
    and "a3 = after_tool cfg now2 iv callID toolName rawArgs res err c1 (a1\<lparr>asUsage := track_responses rs (asUsage a1)\<rparr>)"
  shows "sent = [] \<and> usRegistry (asUsage a3) callID = None \<and>
    (\<exists>t. InFlight.Get callID (asStore a1) = Some t \<and> Status t = TaskRunning \<and> AgentName t = toolName \<and> Task t = member_task rawArgs \<and>
      (SessionID t, UserID t) = session_of iv) \<and>
    (\<exists>t. InFlight.Get callID (asStore a3) = Some t \<and> (SessionID t, UserID t) = session_of iv \<and> Task t = member_task rawArgs \<and> Status t = (if err = None then TaskCompleted else TaskFailed) \<and>
      (err = None \<longrightarrow> Result t = resultToString res) \<and> AgentName t = toolName \<and>
      usage_sum Total (TotalTokens t) = Total (usage_total (filter (\<lambda>(k, _). charged callID k) rs)))"
proof -
  note b = before_member_call [OF assms(1-3,5)]
  then obtain t where t: "InFlight.Get callID (asStore a1) = Some t" "Status t = TaskRunning" "AgentName t = toolName" "TotalTokens t = None"
    "Task t = member_task rawArgs" "(SessionID t, UserID t) = session_of iv"
    by blast
  let ?us = "track_responses rs (asUsage a1)" and ?P = "\<lambda>(k :: usage_call, _ :: token_usage option). clAcc k = Some addr"
  let ?Q = "\<lambda>(k :: usage_call, _ :: token_usage option). charged callID k"
  have q: "filter (charged callID \<circ> fst) rs = filter ?Q rs" by (rule filter_cong) auto
  have reg: "usRegistry ?us callID = Some (usage_total (filter ?Q rs))"
    using track_responses_registry [of callID "asUsage a1" no_usage rs] b assms(4) q by simp
  have acc: "acc_Get (ucAcc c1) ?us = usage_total (filter ?P rs)"
    using track_responses_heap [of "asUsage a1" addr no_usage rs] b by (simp add: acc_Get_def)
  have m: "0 \<le> Total (usage_total (filter ?P rs)) \<and> Total (usage_total (filter ?P rs)) \<le> Total (usage_total (filter ?Q rs))"
    by (rule usage_total_mono) (use assms(4,6) in \<open>auto simp: charged_def\<close>)
  obtain us u where mu: "member_usage callID c1 ?us = (us, u)" by fastforce
  have u: "Total u = Total (usage_total (filter ?Q rs))" "usRegistry us callID = None"
    using mu reg acc m by (auto simp: member_usage_def GetTrackedUsage_def Let_def split: if_splits)
  have g: "InFlight.Get callID (asStore (a1\<lparr>asUsage := ?us\<rparr>)) = Some t" using t(1) by simp
  from after_member_call [OF assms(1,2) g t(2,4), of c1 us u now2 iv rawArgs res err] mu u m t(1-3,5,6) b
  show ?thesis unfolding assms(7) by auto
qed


section \<open>A turn of the coordinator\<close>

datatype turn_step =
  Begins time nat string string string string usage_ctx
| Finishes time string string string tool_result "string option" usage_ctx

fun do_step :: "agent_config \<Rightarrow> invocation \<Rightarrow> agent_state \<Rightarrow> turn_step \<Rightarrow> agent_state" where
  "do_step cfg iv a (Begins now addr nid callID toolName rawArgs c) =
     fst (before_tool cfg now addr nid (Some iv) callID toolName rawArgs c a)"
| "do_step cfg iv a (Finishes now callID toolName rawArgs res err c) =
     after_tool cfg now (Some iv) callID toolName rawArgs res err c a"

definition direct_tool :: "agent_config \<Rightarrow> string \<Rightarrow> bool" where
  "direct_tool cfg toolName \<longleftrightarrow> toolName \<notin> set infraTools \<and> agNotifyTools cfg toolName = None \<and> toolName \<notin> set (agMembers cfg)"

fun direct_call :: "agent_config \<Rightarrow> turn_step \<Rightarrow> string list" where
  "direct_call cfg (Begins _ _ _ _ toolName _ _) = (if direct_tool cfg toolName then [toolName] else [])"
| "direct_call cfg (Finishes _ _ _ _ _ _ _) = []"

fun call_of :: "turn_step \<Rightarrow> string" where
  "call_of (Begins _ _ _ callID _ _ _) = callID"
| "call_of (Finishes _ callID _ _ _ _ _) = callID"

text \<open>The task of the turn so far, with one event for every direct call.\<close>

definition turn_task :: "string \<Rightarrow> string list \<Rightarrow> inflight_store \<Rightarrow> bool" where
  "turn_task i calls st \<longleftrightarrow>
     (case InFlight.Get (''coord-'' @ i) st of
        None \<Rightarrow> calls = []
      | Some t \<Rightarrow> calls \<noteq> [] \<and> Status t = TaskRunning \<and>
          map evTools (filter (\<lambda>e. evType e = ''tool_call'') (Events t)) = map (\<lambda>x. [x]) calls)"

lemma add_event_status [simp]: "Status (add_event_to e t) = Status t" "Events (add_event_to e t) = Events t @ [e]"
  by (simp_all add: add_event_to_def Let_def split: option.split)

lemma turn_task_cong: "tasks st' (''coord-'' @ i) = tasks st (''coord-'' @ i) \<Longrightarrow> turn_task i calls st' = turn_task i calls st"
  by (simp add: turn_task_def InFlight.Get_def)

lemma before_direct_turn:
  assumes "turn_task (ivID iv) calls (asStore a)"
  shows "turn_task (ivID iv) (calls @ [toolName]) (asStore (before_direct now (Some iv) toolName rawArgs a))"
  using assms
  by (auto simp: turn_task_def before_direct_def coord_task_def invocation_id_def InFlight.Get_def InFlight.Register_def UpdateTask_def
      AddEvent_def tasks_update_task tool_event_of_def zero_task_def Let_def split: option.splits prod.splits)

lemma after_direct_turn:
  assumes "turn_task (ivID iv) calls (asStore a)"
  shows "turn_task (ivID iv) calls (asStore (after_direct now (Some iv) toolName r err a))"
  using assms
  by (auto simp: turn_task_def after_direct_def coord_task_def invocation_id_def InFlight.Get_def AddEvent_def tasks_update_task
      tool_event_of_def split: option.splits)

lemma member_other_task:
  assumes "callID \<noteq> k"
  shows "tasks (asStore (fst (before_member now addr callID iv toolName rawArgs c a))) k = tasks (asStore a) k"
    "tasks (asStore (after_member now callID toolName r err c a)) k = tasks (asStore a) k"
  using assms
  by (auto simp: before_member_def after_member_def InFlight.Register_def InFlight.Complete_def InFlight.Fail_def AddTokenUsage_def
      tasks_update_task Let_def split: prod.split option.split)

lemma turn_step_task:
  assumes "turn_task (ivID iv) calls (asStore a)" and "call_of s \<noteq> ''coord-'' @ ivID iv"
  shows "turn_task (ivID iv) (calls @ direct_call cfg s) (asStore (do_step cfg iv a s))"
proof (cases s)
  case (Begins now addr nid callID toolName rawArgs c)
  let ?a = "a\<lparr>asStore := start_in_world_model now (fst (session_of (Some iv))) callID (asStore a)\<rparr>"
  have w: "turn_task (ivID iv) calls (asStore ?a)"
    using assms(1) by (simp cong: turn_task_cong add: turn_task_cong [of "asStore ?a" "ivID iv" "asStore a"])
  have m: "turn_task (ivID iv) calls (asStore (fst (before_member now addr callID (Some iv) toolName rawArgs c ?a)))"
    using w member_other_task(1) [of callID "''coord-'' @ ivID iv"] assms(2) Begins by (simp cong: turn_task_cong add: turn_task_def InFlight.Get_def)
  show ?thesis
    using assms(1) w m before_direct_turn [OF w, of toolName now rawArgs] Begins
    by (auto simp: before_tool_def direct_tool_def Let_def split: option.splits prod.splits)
next
  case (Finishes now callID toolName rawArgs res err c)
  let ?r = "resultToString res"
  let ?a = "a\<lparr>asStore := end_in_world_model now (fst (session_of (Some iv))) callID toolName rawArgs ?r err (asStore a)\<rparr>"
  have w: "turn_task (ivID iv) calls (asStore ?a)" using assms(1) by (simp add: turn_task_def InFlight.Get_def)
  have m: "turn_task (ivID iv) calls (asStore (after_member now callID toolName ?r err c ?a))"
    using w member_other_task(2) [of callID "''coord-'' @ ivID iv"] assms(2) Finishes by (simp add: turn_task_def InFlight.Get_def)
  show ?thesis
    using assms(1) m after_direct_turn [OF w, of now toolName ?r err] Finishes by (simp add: after_tool_def Let_def)
qed

lemma turn_steps_task:
  assumes "turn_task (ivID iv) calls (asStore a)" and "\<forall>s\<in>set ss. call_of s \<noteq> ''coord-'' @ ivID iv"
  shows "turn_task (ivID iv) (calls @ concat (map (direct_call cfg) ss)) (asStore (foldl (do_step cfg iv) a ss))"
  using assms
proof (induction ss arbitrary: a calls)
  case (Cons s ss)
  from Cons.IH [OF turn_step_task [OF Cons.prems(1), of s cfg]] Cons.prems(2) show ?case by simp
qed simp

lemma turn_tools_names:
  "distinct (turn_tools evs) \<and> set (turn_tools evs) = set (concat (map evTools evs))"
proof -
  have "distinct (foldl (\<lambda>seen t. if t \<in> set seen then seen else seen @ [t]) s xs) \<and>
      set (foldl (\<lambda>seen t. if t \<in> set seen then seen else seen @ [t]) s xs) = set s \<union> set xs"
    if "distinct s" for s xs :: "string list"
    using that by (induction xs arbitrary: s) auto
  from this [of "[]" "concat (map evTools evs)"] show ?thesis by (simp add: turn_tools_def)
qed

text \<open>However the calls of a turn overlap, at its end the coordinator's task is completed, and its
  summary gives the number of the direct calls and names each of their tools once.\<close>

theorem turn_counts_calls:
  assumes "InFlight.Get (''coord-'' @ ivID iv) (asStore a) = None" and "\<forall>s\<in>set ss. call_of s \<noteq> ''coord-'' @ ivID iv"
    and "calls = concat (map (direct_call cfg) ss)" and "calls \<noteq> []"
  shows "\<exists>t names. InFlight.Get (''coord-'' @ ivID iv) (asStore (end_turn now (ivID iv) (foldl (do_step cfg iv) a ss))) = Some t \<and>
    Status t = TaskCompleted \<and> distinct names \<and> set names = set calls \<and>
    Result t = ''Completed '' @ itoa (int (length calls)) @ '' tool call(s): '' @ join_str '', '' names"
proof -
  let ?a = "foldl (do_step cfg iv) a ss"
  have "turn_task (ivID iv) [] (asStore a)" using assms(1) by (simp add: turn_task_def)
  from turn_steps_task [OF this assms(2), of cfg] assms(3,4) obtain t where
    t: "InFlight.Get (''coord-'' @ ivID iv) (asStore ?a) = Some t" "Status t = TaskRunning"
    "map evTools (filter (\<lambda>e. evType e = ''tool_call'') (Events t)) = map (\<lambda>x. [x]) calls"
    by (auto simp: turn_task_def split: option.splits)
  let ?e = "filter (\<lambda>e. evType e = ''tool_call'') (Events t)"
  have n: "length ?e = length calls" using arg_cong [OF t(3), of length] by simp
  have "distinct (turn_tools ?e) \<and> set (turn_tools ?e) = set calls"
    using turn_tools_names [of ?e] unfolding t(3) by auto
  moreover have "InFlight.Get (''coord-'' @ ivID iv) (asStore (end_turn now (ivID iv) ?a)) =
      Some (t\<lparr>Status := TaskCompleted, Result := turn_summary (Events t), DoneAt := Some now\<rparr>)"
    using t(1,2) by (simp add: end_turn_def InFlight.Complete_def tasks_update_task InFlight.Get_def)
  ultimately show ?thesis using n by (auto simp: turn_summary_def Let_def)
qed


section \<open>Loose ends\<close>

text \<open>One passing package, or a word that ends in "ok", hides every failure of a test run.\<close>

lemma failing_suite_passes: "contains_str r ''ok '' \<Longrightarrow> test_outcome r = Some TestStatusPassing"
  by (simp add: test_outcome_def)

lemma failing_suite_example: "test_outcome ''ok  pkg/a FAIL pkg/b'' = Some TestStatusPassing"
  by code_simp

text \<open>The call of a notify-tier tool that is not a member's has a result event but no call event.\<close>

lemma notify_call_uncounted:
  assumes "agNotifyTools cfg toolName = Some skill" and "toolName \<notin> set infraTools" and "toolName \<notin> set (agMembers cfg)"
    and "before_tool cfg now addr nid iv callID toolName rawArgs c a = (a1, c1, sent)"
    and "InFlight.Get (coord_task iv) (asStore a) = Some t"
  shows "asStore a1 = asStore a \<and>
    (\<exists>t' e. InFlight.Get (coord_task iv) (asStore (after_tool cfg now iv callID toolName rawArgs res None c1 a1)) = Some t' \<and>
      Events t' = Events t @ [e] \<and> evType e = ''response'')"
proof -
  have "asStore a1 = asStore a" using assms(1,2,4) by (auto simp: before_tool_def split: prod.splits)
  then show ?thesis
    using assms(2,3,5)
    by (auto simp: after_tool_def after_direct_def InFlight.Get_def AddEvent_def tasks_update_task tool_event_of_def Let_def)
qed

section \<open>Small instances\<close>

definition demo_agent_config :: agent_config where
  "demo_agent_config = \<lparr>agMembers = [''coder''], agNotifyTools = Map.empty, agNotify = True\<rparr>"

definition demo_agent :: agent_state where
  "demo_agent = \<lparr>asStore = NewInFlightStore, asUsage = \<lparr>usHeap = Map.empty, usRegistry = Map.empty, usActiveID = ''''\<rparr>,
     asAudit = None, asCallCount = (\<lambda>_. 0), asToolNames = (\<lambda>_. [])\<rparr>"

theorem member_call_recorded_witness:
  "\<exists>a1 c1 t u iv rs. before_tool demo_agent_config 0 7 ''n'' iv ''k'' ''coder'' ''{}'' \<lparr>ucAcc = None, ucID = ''''\<rparr> demo_agent = (a1, c1, []) \<and>
     InFlight.Get ''k'' (asStore (after_tool demo_agent_config 1 iv ''k'' ''coder'' ''{}'' (TextResult ''done'') None c1
       (a1\<lparr>asUsage := track_responses rs (asUsage a1)\<rparr>))) = Some t \<and>
     Status t = TaskCompleted \<and> Result t = ''done'' \<and> SessionID t = ''s'' \<and> UserID t = ''u'' \<and>
     usage_sum Total (TotalTokens t) = 5 \<and> rs = [(\<lparr>clAcc = Some 7, clID = ''k'', clGlobal = False\<rparr>, Some u)]"
proof -
  let ?iv = "Some \<lparr>ivID = ''i'', ivSession = Some (''s'', ''u'')\<rparr>"
  let ?u = "no_usage\<lparr>Total := 5\<rparr>"
  let ?rs = "[(\<lparr>clAcc = Some 7, clID = ''k'', clGlobal = False\<rparr>, Some ?u)]"
  obtain a1 c1 sent where b: "before_tool demo_agent_config 0 7 ''n'' ?iv ''k'' ''coder'' ''{}'' \<lparr>ucAcc = None, ucID = ''''\<rparr> demo_agent = (a1, c1, sent)"
    by (metis prod_cases3)
  have c: "''coder'' \<notin> set infraTools" "''coder'' \<in> set (agMembers demo_agent_config)" "agNotifyTools demo_agent_config ''coder'' = None" "''k'' \<noteq> ''''"
    by (simp_all add: infraTools_def demo_agent_config_def)
  have u: "Total (usage_total (filter (\<lambda>(k, _). charged ''k'' k) ?rs)) = 5"
    by (simp add: charged_def usage_total_def List.map_filter_def usage_plus_def no_usage_def)
  have iv: "session_of ?iv = (''s'', ''u'')" by (simp add: session_of_def)
  have m: "\<forall>(k, u) \<in> set ?rs. (clAcc k = Some 7 \<longrightarrow> clID k = ''k'') \<and> (\<forall>v. u = Some v \<longrightarrow> 0 \<le> Total v)" by simp
  from member_call_recorded [OF c b m refl, of 1 "TextResult ''done''" None] u iv b show ?thesis
    by (intro exI [of _ a1] exI [of _ c1]) fastforce
qed

theorem turn_counts_calls_witness:
  "\<exists>t. InFlight.Get (''coord-'' @ ''i'') (asStore (end_turn 9 ''i'' (foldl (do_step demo_agent_config \<lparr>ivID = ''i'', ivSession = None\<rparr>) demo_agent
       [Begins 1 0 ''n'' ''k'' ''read'' ''{}'' \<lparr>ucAcc = None, ucID = ''''\<rparr>]))) = Some t \<and>
     Result t = ''Completed 1 tool call(s): read''"
proof -
  let ?iv = "\<lparr>ivID = ''i'', ivSession = None\<rparr>" and ?ss = "[Begins 1 0 ''n'' ''k'' ''read'' ''{}'' \<lparr>ucAcc = None, ucID = ''''\<rparr>]"
  have d: "[''read''] = concat (map (direct_call demo_agent_config) ?ss)"
    by (simp add: direct_tool_def infraTools_def demo_agent_config_def)
  have g: "InFlight.Get (''coord-'' @ ivID ?iv) (asStore demo_agent) = None"
    by (simp add: demo_agent_def InFlight.Get_def NewInFlightStore_def)
  obtain t names where t: "InFlight.Get (''coord-'' @ ivID ?iv) (asStore (end_turn 9 (ivID ?iv) (foldl (do_step demo_agent_config ?iv) demo_agent ?ss))) = Some t"
    "distinct names" "set names = set [''read'']"
    "Result t = ''Completed '' @ itoa (int (length [''read''])) @ '' tool call(s): '' @ join_str '', '' names"
    using turn_counts_calls [OF g _ d, of 9] by auto
  have "names = [''read'']" using t(2,3) by (cases names; cases "tl names") auto
  moreover have "itoa 1 = ''1''" by code_simp
  ultimately show ?thesis using t(1,4) by simp
qed

end
