(* ===== verification/GoReflect.thy ===== *)
theory GoReflect
  imports GoJson "HOL-Library.AList"
begin

text \<open>
  \<open>encoding/json\<close> on structs, the way it works by reflection: a type descriptor lists the fields of
  a struct with the names and \<open>omitempty\<close> options of their tags, \<open>json_encode\<close> and \<open>json_decode\<close>
  follow it.  A float64 is kept as its shortest text; \<open>cn\<close> maps a number's text to it, or to
  \<open>None\<close> when the number is out of range.
\<close>

section \<open>Types and values\<close>

datatype go_type =
  TString | TInt | TFloat | TBool | TAny
| TList go_type | TMap go_type | TPtr go_type
| TStruct "(string \<times> bool \<times> go_type) list"

text \<open>A slice, a map and a pointer may be nil.  A struct's fields are in the order of its type.\<close>

datatype go_value =
  VString string | VInt int | VFloat string | VBool bool | VAny json
| VList "go_value list option" | VMap "(string \<times> go_value) list option" | VPtr "go_value option"
| VStruct "go_value list"

fun zero_value :: "go_type \<Rightarrow> go_value" where
  "zero_value TString = VString ''''"
| "zero_value TInt = VInt 0"
| "zero_value TFloat = VFloat ''0''"
| "zero_value TBool = VBool False"
| "zero_value TAny = VAny JNull"
| "zero_value (TList t) = VList None"
| "zero_value (TMap t) = VMap None"
| "zero_value (TPtr t) = VPtr None"
| "zero_value (TStruct fs) = VStruct (map (\<lambda>(n, o', t). zero_value t) fs)"

definition int64 :: "int \<Rightarrow> bool" where
  "int64 i \<longleftrightarrow> - 9223372036854775808 \<le> i \<and> i < 9223372036854775808"

text \<open>A value read into an \<open>any\<close>: numbers become float64, a name's last member wins; a number out of
  range is nil and an error.\<close>

type_synonym floats = "string \<Rightarrow> string option"

fun any_value :: "floats \<Rightarrow> json \<Rightarrow> json \<times> bool" where
  "any_value cn (JNum s) = (case cn s of Some t \<Rightarrow> (JNum t, False) | None \<Rightarrow> (JNull, True))"
| "any_value cn (JArr js) =
     (let rs = map (any_value cn) js in (JArr (map fst rs), list_ex snd rs))"
| "any_value cn (JObj ms) =
     (let rs = map (\<lambda>(k, j). (k, any_value cn j)) ms
      in (JObj (foldl (\<lambda>al (k, j, e). AList.update k j al) [] rs), list_ex (snd \<circ> snd) rs))"
| "any_value cn j = (j, False)"

fun typed :: "floats \<Rightarrow> go_type \<Rightarrow> go_value \<Rightarrow> bool" where
  "typed cn TString = (\<lambda>v. case v of VString _ \<Rightarrow> True | _ \<Rightarrow> False)"
| "typed cn TInt = (\<lambda>v. case v of VInt i \<Rightarrow> int64 i | _ \<Rightarrow> False)"
| "typed cn TFloat = (\<lambda>v. case v of VFloat s \<Rightarrow> cn s = Some s | _ \<Rightarrow> False)"
| "typed cn TBool = (\<lambda>v. case v of VBool _ \<Rightarrow> True | _ \<Rightarrow> False)"
| "typed cn TAny = (\<lambda>v. case v of VAny j \<Rightarrow> any_value cn j = (j, False) | _ \<Rightarrow> False)"
| "typed cn (TList t) = (\<lambda>v. case v of VList None \<Rightarrow> True | VList (Some xs) \<Rightarrow> list_all (typed cn t) xs | _ \<Rightarrow> False)"
| "typed cn (TMap t) = (\<lambda>v. case v of VMap None \<Rightarrow> True
     | VMap (Some xs) \<Rightarrow> distinct (map fst xs) \<and> list_all (typed cn t) (map snd xs) | _ \<Rightarrow> False)"
| "typed cn (TPtr t) = (\<lambda>v. case v of VPtr None \<Rightarrow> True | VPtr (Some x) \<Rightarrow> typed cn t x | _ \<Rightarrow> False)"
| "typed cn (TStruct fs) = (\<lambda>v. case v of
     VStruct vs \<Rightarrow> list_all2 (\<lambda>f. f) (map (\<lambda>(n, o', t). typed cn t) fs) vs | _ \<Rightarrow> False)"

section \<open>Encoding\<close>

fun empty_value :: "go_value \<Rightarrow> bool" where
  "empty_value (VString s) \<longleftrightarrow> s = ''''"
| "empty_value (VInt i) \<longleftrightarrow> i = 0"
| "empty_value (VFloat s) \<longleftrightarrow> s = ''0'' \<or> s = ''-0''"
| "empty_value (VBool b) \<longleftrightarrow> \<not> b"
| "empty_value (VAny v) \<longleftrightarrow> v = JNull"
| "empty_value (VList vs) \<longleftrightarrow> vs = None \<or> vs = Some []"
| "empty_value (VMap vs) \<longleftrightarrow> vs = None \<or> vs = Some []"
| "empty_value (VPtr v) \<longleftrightarrow> v = None"
| "empty_value (VStruct _) \<longleftrightarrow> False"

fun encode_fields :: "(string \<times> bool \<times> (go_value \<Rightarrow> json)) list \<Rightarrow> go_value list \<Rightarrow> (string \<times> json) list" where
  "encode_fields ((n, o', enc) # fs) (v # vs) =
     (if o' \<and> empty_value v then encode_fields fs vs else (n, enc v) # encode_fields fs vs)"
| "encode_fields _ _ = []"

fun json_encode :: "go_type \<Rightarrow> go_value \<Rightarrow> json" where
  "json_encode TString = (\<lambda>v. case v of VString s \<Rightarrow> JStr s | _ \<Rightarrow> JNull)"
| "json_encode TInt = (\<lambda>v. case v of VInt i \<Rightarrow> JNum (itoa i) | _ \<Rightarrow> JNull)"
| "json_encode TFloat = (\<lambda>v. case v of VFloat s \<Rightarrow> JNum s | _ \<Rightarrow> JNull)"
| "json_encode TBool = (\<lambda>v. case v of VBool b \<Rightarrow> JBool b | _ \<Rightarrow> JNull)"
| "json_encode TAny = (\<lambda>v. case v of VAny j \<Rightarrow> j | _ \<Rightarrow> JNull)"
| "json_encode (TList t) = (\<lambda>v. case v of VList (Some xs) \<Rightarrow> JArr (map (json_encode t) xs) | _ \<Rightarrow> JNull)"
| "json_encode (TMap t) = (\<lambda>v. case v of VMap (Some xs) \<Rightarrow> JObj (map (\<lambda>(k, x). (k, json_encode t x)) xs) | _ \<Rightarrow> JNull)"
| "json_encode (TPtr t) = (\<lambda>v. case v of VPtr (Some x) \<Rightarrow> json_encode t x | _ \<Rightarrow> JNull)"
| "json_encode (TStruct fs) = (\<lambda>v. case v of
     VStruct vs \<Rightarrow> JObj (encode_fields (map (\<lambda>(n, o', t). (n, o', json_encode t)) fs) vs) | _ \<Rightarrow> JNull)"

section \<open>Decoding\<close>

definition parse_int :: "string \<Rightarrow> int option" where
  "parse_int s =
     (let neg = (s \<noteq> [] \<and> hd s = CHR ''-''); ds = (if neg then tl s else s);
          n = foldl (\<lambda>n c. 10 * n + (of_char c - 48)) (0 :: nat) ds; i = (if neg then - int n else int n)
      in if ds \<noteq> [] \<and> list_all is_digit ds \<and> int64 i then Some i else None)"

text \<open>The value, whose old content is kept where the text says nothing, and whether there was an error
  of types.  The loops take the decoder of the elements.\<close>

type_synonym decoder = "json \<Rightarrow> go_value \<Rightarrow> go_value \<times> bool"

fun decode_list :: "decoder \<Rightarrow> go_value \<Rightarrow> json list \<Rightarrow> go_value list \<Rightarrow> go_value list \<times> bool" where
  "decode_list dec z [] old = ([], False)"
| "decode_list dec z (j # js) old =
     (let (x, e) = dec j (case old of x # _ \<Rightarrow> x | [] \<Rightarrow> z); (xs, e') = decode_list dec z js (drop 1 old)
      in (x # xs, e \<or> e'))"

fun decode_map :: "decoder \<Rightarrow> go_value \<Rightarrow> (string \<times> json) list \<Rightarrow> (string \<times> go_value) list \<Rightarrow> (string \<times> go_value) list \<times> bool" where
  "decode_map dec z [] old = (old, False)"
| "decode_map dec z ((k, j) # ms) old =
     (let (x, e) = dec j z; (xs, e') = decode_map dec z ms (AList.update k x old) in (xs, e \<or> e'))"

text \<open>All members of a name, in their order.\<close>

fun decode_members :: "decoder \<Rightarrow> json list \<Rightarrow> go_value \<Rightarrow> go_value \<times> bool" where
  "decode_members dec [] v = (v, False)"
| "decode_members dec (j # js) v = (let (x, e) = dec j v; (y, e') = decode_members dec js x in (y, e \<or> e'))"

fun decode_fields :: "(string \<times> decoder) list \<Rightarrow> (string \<times> json) list \<Rightarrow> go_value list \<Rightarrow> go_value list \<times> bool" where
  "decode_fields ((n, dec) # fs) ms (v # vs) =
     (let (x, e) = decode_members dec (members_for n (JObj ms)) v; (xs, e') = decode_fields fs ms vs in (x # xs, e \<or> e'))"
| "decode_fields _ ms vs = ([], False)"

fun json_decode :: "floats \<Rightarrow> go_type \<Rightarrow> decoder" where
  "json_decode cn TString = (\<lambda>j v. case j of JStr s \<Rightarrow> (VString s, False) | JNull \<Rightarrow> (v, False) | _ \<Rightarrow> (v, True))"
| "json_decode cn TInt = (\<lambda>j v.
     case j of JNum s \<Rightarrow> (case parse_int s of Some i \<Rightarrow> (VInt i, False) | None \<Rightarrow> (v, True)) | JNull \<Rightarrow> (v, False) | _ \<Rightarrow> (v, True))"
| "json_decode cn TFloat = (\<lambda>j v.
     case j of JNum s \<Rightarrow> (case cn s of Some f \<Rightarrow> (VFloat f, False) | None \<Rightarrow> (v, True)) | JNull \<Rightarrow> (v, False) | _ \<Rightarrow> (v, True))"
| "json_decode cn TBool = (\<lambda>j v. case j of JBool b \<Rightarrow> (VBool b, False) | JNull \<Rightarrow> (v, False) | _ \<Rightarrow> (v, True))"
| "json_decode cn TAny = (\<lambda>j v.
     case any_value cn j of (x, e) \<Rightarrow> (case j of JNum _ \<Rightarrow> (if e then v else VAny x, e) | _ \<Rightarrow> (VAny x, e)))"
| "json_decode cn (TList t) = (\<lambda>j v.
     case j of
       JArr js \<Rightarrow> (case decode_list (json_decode cn t) (zero_value t) js (case v of VList (Some xs) \<Rightarrow> xs | _ \<Rightarrow> []) of
                    (xs, e) \<Rightarrow> (VList (Some xs), e))
     | JNull \<Rightarrow> (VList None, False)
     | _ \<Rightarrow> (v, True))"
| "json_decode cn (TMap t) = (\<lambda>j v.
     case j of
       JObj ms \<Rightarrow> (case decode_map (json_decode cn t) (zero_value t) ms (case v of VMap (Some xs) \<Rightarrow> xs | _ \<Rightarrow> []) of
                    (xs, e) \<Rightarrow> (VMap (Some xs), e))
     | JNull \<Rightarrow> (VMap None, False)
     | _ \<Rightarrow> (v, True))"
| "json_decode cn (TPtr t) = (\<lambda>j v.
     if j = JNull then (VPtr None, False)
     else (case json_decode cn t j (case v of VPtr (Some x) \<Rightarrow> x | _ \<Rightarrow> zero_value t) of (x, e) \<Rightarrow> (VPtr (Some x), e)))"
| "json_decode cn (TStruct fs) = (\<lambda>j v.
     case j of
       JObj ms \<Rightarrow> (case decode_fields (map (\<lambda>(n, o', t). (n, json_decode cn t)) fs) ms (case v of VStruct vs \<Rightarrow> vs | _ \<Rightarrow> []) of
                    (xs, e) \<Rightarrow> (VStruct xs, e))
     | JNull \<Rightarrow> (v, False)
     | _ \<Rightarrow> (v, True))"


section \<open>Decoding keeps types\<close>

definition canonical :: "floats \<Rightarrow> bool" where
  "canonical cn \<longleftrightarrow> (\<forall>s t. cn s = Some t \<longrightarrow> cn t = Some t) \<and> cn ''0'' = Some ''0''"

lemma zero_typed: "canonical cn \<Longrightarrow> typed cn t (zero_value t)"
proof (induction t rule: zero_value.induct)
  case (9 fs)
  then show ?case by (auto simp: list_all2_conv_all_nth split_def) (metis nth_mem prod.collapse)
qed (auto simp: canonical_def int64_def)

lemma decode_list_typed:
  assumes "\<And>j v. P v \<Longrightarrow> P (fst (dec j v))" and "P z" and "list_all P old"
  shows "list_all P (fst (decode_list dec z js old))"
  using assms(3)
proof (induction js arbitrary: old)
  case (Cons j js)
  let ?o = "case old of x # _ \<Rightarrow> x | [] \<Rightarrow> z"
  have "P ?o" "list_all P (drop 1 old)" using Cons.prems assms(2) by (cases old; simp)+
  from assms(1) [OF this(1), of j] Cons.IH [OF this(2)] show ?case by (simp add: Let_def split_def)
qed simp

lemma update_list_all: "list_all P (map snd al) \<Longrightarrow> P x \<Longrightarrow> list_all P (map snd (AList.update k x al))"
  by (induction al) auto

lemma decode_map_typed:
  assumes "\<And>j v. P v \<Longrightarrow> P (fst (dec j v))" and "P z" and "list_all P (map snd old)" and "distinct (map fst old)"
  shows "list_all P (map snd (fst (decode_map dec z ms old))) \<and> distinct (map fst (fst (decode_map dec z ms old)))"
  using assms(3,4)
proof (induction ms arbitrary: old)
  case (Cons m ms)
  obtain k j where m: "m = (k, j)" by fastforce
  have "list_all P (map snd (AList.update k (fst (dec j z)) old))"
    using update_list_all [OF Cons.prems(1)] assms(1,2) by blast
  from Cons.IH [OF this distinct_update [OF Cons.prems(2)]] show ?case by (simp add: m Let_def split_def)
qed simp

lemma decode_members_typed:
  assumes "\<And>j v. P v \<Longrightarrow> P (fst (dec j v))" and "P v"
  shows "P (fst (decode_members dec js v))"
  using assms(2)
proof (induction js arbitrary: v)
  case (Cons j js)
  from Cons.IH [OF assms(1) [OF Cons.prems, of j]] show ?case by (simp add: Let_def split_def)
qed simp

lemma decode_fields_typed:
  assumes "list_all2 (\<lambda>d P. \<forall>j v. P v \<longrightarrow> P (fst (snd d j v))) ds Ps" and "list_all2 (\<lambda>f. f) Ps vs"
  shows "list_all2 (\<lambda>f. f) Ps (fst (decode_fields ds ms vs))"
  using assms
proof (induction ds arbitrary: Ps vs)
  case Nil
  then show ?case by (cases vs) auto
next
  case (Cons d ds)
  obtain n dec where d: "d = (n, dec)" by fastforce
  obtain P Ps' v vs' where Ps: "Ps = P # Ps'" "vs = v # vs'" "\<And>j v. P v \<Longrightarrow> P (fst (dec j v))" "P v"
    "list_all2 (\<lambda>d P. \<forall>j v. P v \<longrightarrow> P (fst (snd d j v))) ds Ps'" "list_all2 (\<lambda>f. f) Ps' vs'"
    using Cons.prems by (auto simp: d list_all2_Cons1)
  have "P (fst (decode_members dec (members_for n (JObj ms)) v))" by (rule decode_members_typed [OF Ps(3,4)])
  with Cons.IH [OF Ps(5,6)] show ?case by (simp add: d Ps(1,2) Let_def split_def)
qed

lemma update_fold:
  "distinct (map fst acc @ map fst rs) \<Longrightarrow>
   foldl (\<lambda>al (k, j, e). AList.update k j al) acc rs = acc @ map (\<lambda>(k, j, e). (k, j)) rs"
proof (induction rs arbitrary: acc)
  case (Cons r rs)
  obtain k j e where r: "r = (k, j, e)" by (cases r)
  have "AList.update k j acc = acc @ [(k, j)]" if "k \<notin> fst ` set acc" for acc :: "('a \<times> 'b) list"
    using that by (induction acc) auto
  then have "AList.update k j acc = acc @ [(k, j)]" using Cons.prems by (auto simp: r)
  moreover have "distinct (map fst (acc @ [(k, j)]) @ map fst rs)" using Cons.prems by (auto simp: r)
  ultimately show ?case using Cons.IH [of "acc @ [(k, j)]"] by (simp add: r)
qed simp

lemma update_fold_keeps:
  assumes "list_all P (map fst (map snd rs))" and "list_all P (map snd acc)" and "distinct (map fst acc)"
  shows "let al = foldl (\<lambda>al (k, j, e). AList.update k j al) acc rs in list_all P (map snd al) \<and> distinct (map fst al)"
  using assms
proof (induction rs arbitrary: acc)
  case (Cons r rs)
  obtain k j e where r: "r = (k, j, e)" by (cases r)
  have "list_all P (map snd (AList.update k j acc))"
    using Cons.prems(1,2) by (intro update_list_all) (auto simp: r)
  from Cons.IH [OF _ this distinct_update [OF Cons.prems(3)]] Cons.prems(1) show ?case by (simp add: r)
qed simp

lemma any_value_fixed_members:
  assumes "list_all (\<lambda>j. any_value cn j = (j, False)) (map snd al)" and "distinct (map fst al)"
  shows "any_value cn (JObj al) = (JObj al, False)"
proof -
  have eq: "map (\<lambda>(k, j). (k, any_value cn j)) al = map (\<lambda>(k, j). (k, j, False)) al"
    using assms(1) by (induction al) auto
  have "distinct (map fst (map (\<lambda>(k, j). (k, j, False)) al))" using assms(2) by (simp add: comp_def split_def)
  from update_fold [of "[]", simplified, OF this]
  show ?thesis unfolding any_value.simps Let_def eq by (auto simp: comp_def split_def list_ex_iff)
qed

lemma any_value_again:
  assumes "canonical cn"
  shows "any_value cn (fst (any_value cn j)) = (fst (any_value cn j), False)"
proof (induction j)
  case (JNum s)
  then show ?case using assms by (cases "cn s") (auto simp: canonical_def)
next
  case (JArr js)
  then show ?case by (auto simp: Let_def list_ex_iff)
next
  case (JObj ms)
  let ?rs = "map (\<lambda>(k, j). (k, any_value cn j)) ms"
  let ?al = "foldl (\<lambda>al (k, j, e). AList.update k j al) [] ?rs"
  have "list_all (\<lambda>j. any_value cn j = (j, False)) (map fst (map snd ?rs))"
    using JObj by (auto simp: list_all_iff split_def)
  from update_fold_keeps [OF this, of "[]"]
  have "any_value cn (JObj ?al) = (JObj ?al, False)" by (simp add: Let_def any_value_fixed_members del: any_value.simps)
  then show ?case unfolding any_value.simps(3) [of cn ms] Let_def fst_conv .
qed auto

lemma json_decode_typed:
  assumes "canonical cn"
  shows "typed cn t v \<Longrightarrow> typed cn t (fst (json_decode cn t j v))"
proof (induction t arbitrary: j v)
  case TInt
  then show ?case by (auto simp: parse_int_def Let_def split: json.splits option.splits if_splits)
next
  case TFloat
  then show ?case using assms by (auto simp: canonical_def split: json.splits option.splits)
next
  case TAny
  then show ?case using any_value_again [OF assms, of j] by (auto split: json.splits prod.splits)
next
  case (TList t)
  have "list_all (typed cn t) (case v of VList (Some xs) \<Rightarrow> xs | _ \<Rightarrow> [])"
    using TList.prems by (auto split: go_value.splits option.splits)
  from decode_list_typed [OF TList.IH zero_typed [OF assms] this]
  show ?case using TList.prems by (auto simp: split_def split: json.split)
next
  case (TMap t)
  let ?old = "case v of VMap (Some xs) \<Rightarrow> xs | _ \<Rightarrow> []"
  have "list_all (typed cn t) (map snd ?old)" "distinct (map fst ?old)"
    using TMap.prems by (auto split: go_value.splits option.splits)
  from decode_map_typed [OF TMap.IH zero_typed [OF assms] this]
  show ?case using TMap.prems by (auto simp: split_def split: json.split)
next
  case (TPtr t)
  have "typed cn t (case v of VPtr (Some x) \<Rightarrow> x | _ \<Rightarrow> zero_value t)"
    using TPtr.prems zero_typed [OF assms] by (auto split: go_value.splits option.splits)
  from TPtr.IH [OF this, of j] show ?case by (auto simp: split_def)
next
  case (TStruct fs)
  let ?ds = "map (\<lambda>(n, o', t). (n, json_decode cn t)) fs" and ?Ps = "map (\<lambda>(n, o', t). typed cn t) fs"
  have "\<forall>j v. typed cn (snd (snd f)) v \<longrightarrow> typed cn (snd (snd f)) (fst (json_decode cn (snd (snd f)) j v))" if "f \<in> set fs" for f
    using TStruct.IH [of f "snd f" "snd (snd f)"] that by (cases f) auto
  then have "list_all2 (\<lambda>d P. \<forall>j v. P v \<longrightarrow> P (fst (snd d j v))) ?ds ?Ps"
    by (simp add: list_all2_conv_all_nth split_def)
  from decode_fields_typed [OF this] TStruct.prems show ?case by (auto simp: split_def split: json.split go_value.splits)
qed (auto split: json.splits)

section \<open>Decoding what was encoded\<close>

text \<open>The names of a struct's members differ in more than their case, and only structs are pointed to.\<close>

fun good_type :: "go_type \<Rightarrow> bool" where
  "good_type (TList t) \<longleftrightarrow> good_type t"
| "good_type (TMap t) \<longleftrightarrow> good_type t"
| "good_type (TPtr t) \<longleftrightarrow> good_type t \<and> (case t of TStruct _ \<Rightarrow> True | _ \<Rightarrow> False)"
| "good_type (TStruct fs) \<longleftrightarrow> distinct (map (\<lambda>(n, o', t). to_lower n) fs) \<and> (\<forall>(n, o', t) \<in> set fs. good_type t)"
| "good_type _ \<longleftrightarrow> True"

text \<open>A value with no list, map or pointer: what is decoded into it does not meet old elements.\<close>

fun plain_value :: "go_value \<Rightarrow> bool" where
  "plain_value (VList vs) \<longleftrightarrow> vs = None"
| "plain_value (VMap vs) \<longleftrightarrow> vs = None"
| "plain_value (VPtr v) \<longleftrightarrow> v = None"
| "plain_value (VStruct vs) \<longleftrightarrow> list_all plain_value vs"
| "plain_value _ \<longleftrightarrow> True"

text \<open>What reading the text of \<open>v\<close> into \<open>z\<close> gives: \<open>v\<close>, with the empty fields that were left out at
  their values in \<open>z\<close>.\<close>

fun restore_fields :: "(bool \<times> (go_value \<Rightarrow> go_value \<Rightarrow> go_value)) list \<Rightarrow> go_value list \<Rightarrow> go_value list \<Rightarrow> go_value list" where
  "restore_fields ((o', r) # rs) (v # vs) (z # zs) =
     (if o' \<and> empty_value v then z else r v z) # restore_fields rs vs zs"
| "restore_fields _ _ _ = []"

fun restored :: "go_type \<Rightarrow> go_value \<Rightarrow> go_value \<Rightarrow> go_value" where
  "restored (TList t) = (\<lambda>v z. case v of
     VList (Some xs) \<Rightarrow> VList (Some (map (\<lambda>x. restored t x (zero_value t)) xs)) | _ \<Rightarrow> v)"
| "restored (TMap t) = (\<lambda>v z. case v of
     VMap (Some xs) \<Rightarrow> VMap (Some (map (\<lambda>(k, x). (k, restored t x (zero_value t))) xs)) | _ \<Rightarrow> v)"
| "restored (TPtr t) = (\<lambda>v z. case v of VPtr (Some x) \<Rightarrow> VPtr (Some (restored t x (zero_value t))) | _ \<Rightarrow> v)"
| "restored (TStruct fs) = (\<lambda>v z. case v of
     VStruct vs \<Rightarrow> (case z of VStruct zs \<Rightarrow> VStruct (restore_fields (map (\<lambda>(n, o', t). (o', restored t)) fs) vs zs) | _ \<Rightarrow> v)
   | _ \<Rightarrow> v)"
| "restored TString = (\<lambda>v z. v)"
| "restored TInt = (\<lambda>v z. v)"
| "restored TFloat = (\<lambda>v z. v)"
| "restored TBool = (\<lambda>v z. v)"
| "restored TAny = (\<lambda>v z. v)"

text \<open>Lower case on the bits of a character, for evaluation.\<close>

lemma lower_char_bits [code]:
  "lower_char (Char b0 b1 b2 b3 b4 b5 b6 b7) =
     Char b0 b1 b2 b3 b4
       (b5 \<or> (\<not> b7 \<and> b6 \<and> (b0 \<or> b1 \<or> b2 \<or> b3 \<or> b4) \<and> \<not> (b4 \<and> b3 \<and> (b2 \<or> b1 \<and> b0)))) b6 b7"
  by (cases b0; cases b1; cases b2; cases b3; cases b4; cases b5; cases b6; cases b7; simp add: lower_char_def char_of_def bit_iff_odd)

lemma zero_plain: "plain_value (zero_value t)"
  by (induction t rule: zero_value.induct) (auto simp: list_all_iff)

lemma is_digit_char: "d < (10 :: nat) \<Longrightarrow> is_digit (char_of (48 + d))"
  by (simp add: is_digit_def of_char_of take_bit_eq_mod)

lemma nat_digits_digits: "list_all is_digit (nat_digits n)"
  by (induction n rule: nat_digits.induct) (subst nat_digits.simps, auto simp: is_digit_char)

lemma nat_digits_nonempty: "nat_digits n \<noteq> []"
  by (subst nat_digits.simps) simp

lemma nat_digits_value: "foldl (\<lambda>n c. 10 * n + (of_char c - 48)) 0 (nat_digits n) = n"
proof (induction n rule: nat_digits.induct)
  case (1 n)
  then show ?case by (subst nat_digits.simps) (auto simp: of_char_of take_bit_eq_mod)
qed

lemma digit_not_minus: "is_digit c \<Longrightarrow> c \<noteq> CHR ''-''"
  by (auto simp: is_digit_def)

lemma parse_int_itoa: "int64 i \<Longrightarrow> parse_int (itoa i) = Some i"
proof -
  assume i: "int64 i"
  have "hd (nat_digits n) \<noteq> CHR ''-''" for n
    using nat_digits_digits [of n] nat_digits_nonempty [of n] by (cases "nat_digits n") (auto dest: digit_not_minus)
  with i show ?thesis
    by (auto simp: parse_int_def itoa_def Let_def nat_digits_digits nat_digits_nonempty nat_digits_value)
qed

lemma decode_list_restored:
  assumes "\<And>x. P x \<Longrightarrow> dec (enc x) z = (r x, False)" and "list_all P xs"
  shows "decode_list dec z (map enc xs) [] = (map r xs, False)"
  using assms(2) by (induction xs) (auto simp: assms(1))

lemma decode_map_restored:
  assumes "\<And>x. P x \<Longrightarrow> dec (enc x) z = (r x, False)" and "list_all P (map snd xs)" and "distinct (map fst (acc @ xs))"
  shows "decode_map dec z (map (\<lambda>(k, x). (k, enc x)) xs) acc = (acc @ map (\<lambda>(k, x). (k, r x)) xs, False)"
  using assms(2,3)
proof (induction xs arbitrary: acc)
  case (Cons m xs)
  obtain k x where m: "m = (k, x)" by fastforce
  have "AList.update k y acc = acc @ [(k, y)]" for y
    using update_fold [of acc "[(k, y, False)]"] Cons.prems(2) by (auto simp: m)
  moreover have "distinct (map fst ((acc @ [(k, r x)]) @ xs))" using Cons.prems(2) by (auto simp: m)
  ultimately show ?case using Cons.IH [of "acc @ [(k, r x)]"] Cons.prems(1) assms(1) [of x] by (simp add: m)
qed simp

lemma members_for_Cons:
  "members_for n (JObj ((k, j) # ms)) = (if to_lower k = to_lower n then [j] else []) @ members_for n (JObj ms)"
  by (simp add: members_for_def)

lemma members_encode_other:
  "\<forall>f \<in> set fs. to_lower (fst f) \<noteq> to_lower n \<Longrightarrow> members_for n (JObj (encode_fields fs vs)) = []"
  by (induction fs vs rule: encode_fields.induct) (auto simp: members_for_Cons members_for_def)

text \<open>Field by field: the members written for the other fields do not matter.\<close>

lemma decode_fields_restored:
  assumes "\<forall>(n, o', t) \<in> set fs. \<forall>v z. typed cn t v \<longrightarrow> typed cn t z \<longrightarrow> plain_value z \<longrightarrow>
             json_decode cn t (json_encode t v) z = (restored t v z, False)"
    and "distinct (map (\<lambda>(n, o', t). to_lower n) fs)"
    and "list_all2 (\<lambda>(n, o', t) v. typed cn t v) fs vs" and "list_all2 (\<lambda>(n, o', t) v. typed cn t v) fs zs" and "list_all plain_value zs"
    and "\<forall>(n, o', t) \<in> set fs. members_for n (JObj ms) =
             members_for n (JObj (encode_fields (map (\<lambda>(n, o', t). (n, o', json_encode t)) fs) vs))"
  shows "decode_fields (map (\<lambda>(n, o', t). (n, json_decode cn t)) fs) ms zs =
           (restore_fields (map (\<lambda>(n, o', t). (o', restored t)) fs) vs zs, False)"
  using assms
proof (induction fs arbitrary: vs zs)
  case (Cons f fs)
  obtain n o' t where f: "f = (n, o', t)" by (cases f)
  obtain v vs' z zs' where vs: "vs = v # vs'" "zs = z # zs'"
    using Cons.prems(3,4) by (auto simp: list_all2_Cons1)
  let ?enc = "map (\<lambda>(n, o', t). (n, o', json_encode t)) fs"
  have other: "to_lower m \<noteq> to_lower n" if "(m, p, u) \<in> set fs" for m p u
    using Cons.prems(2) that by (force simp: f)
  have "members_for n (JObj (encode_fields ?enc vs')) = []"
    using other by (intro members_encode_other) auto
  then have "members_for n (JObj ms) = (if o' \<and> empty_value v then [] else [json_encode t v])"
    using Cons.prems(6) by (auto simp: f vs members_for_Cons)
  moreover have "json_decode cn t (json_encode t v) z = (restored t v z, False)"
    using Cons.prems(1,3-5) by (auto simp: f vs)
  moreover have "\<forall>(m, p, u) \<in> set fs. members_for m (JObj ms) = members_for m (JObj (encode_fields ?enc vs'))"
  proof (clarify)
    fix m p u assume m: "(m, p, u) \<in> set fs"
    with Cons.prems(6) have "members_for m (JObj ms) = members_for m (JObj (encode_fields ((n, o', json_encode t) # ?enc) (v # vs')))"
      by (auto simp: f vs)
    with other [OF m] show "members_for m (JObj ms) = members_for m (JObj (encode_fields ?enc vs'))"
      by (auto simp: members_for_Cons)
  qed
  then have "decode_fields (map (\<lambda>(n, o', t). (n, json_decode cn t)) fs) ms zs' =
           (restore_fields (map (\<lambda>(n, o', t). (o', restored t)) fs) vs' zs', False)"
    using Cons.prems(1-5) by (intro Cons.IH) (auto simp: f vs)
  ultimately show ?case by (auto simp: f vs)
qed simp

lemma typed_struct:
  "typed cn (TStruct fs) v \<longleftrightarrow> (\<exists>vs. v = VStruct vs \<and> list_all2 (\<lambda>(n, o', t) v. typed cn t v) fs vs)"
  by (cases v) (auto simp: list_all2_map1 split_def)

theorem decode_encode:
  assumes "good_type t" and "typed cn t v" and "typed cn t z" and "plain_value z" and "canonical cn"
  shows "json_decode cn t (json_encode t v) z = (restored t v z, False)"
  using assms(1-4)
proof (induction t arbitrary: v z)
  case TInt
  then show ?case by (auto simp: parse_int_itoa split: go_value.splits)
next
  case TAny
  then show ?case by (auto split: go_value.splits json.splits)
next
  case (TList t)
  have dec: "typed cn t x \<Longrightarrow> json_decode cn t (json_encode t x) (zero_value t) = (restored t x (zero_value t), False)" for x
    using TList.IH [of x "zero_value t"] TList.prems(1) zero_typed [OF assms(5)] zero_plain by simp
  from TList.prems show ?case
    by (auto simp: decode_list_restored [where P = "typed cn t" and dec = "json_decode cn t" and enc = "json_encode t"
          and r = "\<lambda>x. restored t x (zero_value t)" and z = "zero_value t", OF dec] split: go_value.splits option.splits)
next
  case (TMap t)
  have dec: "typed cn t x \<Longrightarrow> json_decode cn t (json_encode t x) (zero_value t) = (restored t x (zero_value t), False)" for x
    using TMap.IH [of x "zero_value t"] TMap.prems(1) zero_typed [OF assms(5)] zero_plain by simp
  from TMap.prems show ?case
    by (auto simp: decode_map_restored [where P = "typed cn t" and dec = "json_decode cn t" and enc = "json_encode t"
          and r = "\<lambda>x. restored t x (zero_value t)" and z = "zero_value t", OF dec] split: go_value.splits option.splits)
next
  case (TPtr t)
  have dec: "typed cn t x \<Longrightarrow> json_decode cn t (json_encode t x) (zero_value t) = (restored t x (zero_value t), False)" for x
    using TPtr.IH [of x "zero_value t"] TPtr.prems(1) zero_typed [OF assms(5)] zero_plain by simp
  from TPtr.prems dec show ?case by (auto split: go_value.splits option.splits go_type.splits)
next
  case (TStruct fs)
  obtain vs zs where vs: "v = VStruct vs" "z = VStruct zs" "list_all2 (\<lambda>(n, o', t) v. typed cn t v) fs vs"
    "list_all2 (\<lambda>(n, o', t) v. typed cn t v) fs zs" using TStruct.prems(2,3) unfolding typed_struct by blast
  have "\<forall>(n, o', t) \<in> set fs. \<forall>v z. typed cn t v \<longrightarrow> typed cn t z \<longrightarrow> plain_value z \<longrightarrow>
             json_decode cn t (json_encode t v) z = (restored t v z, False)"
  proof (clarify)
    fix n o' t v z assume "(n, o', t) \<in> set fs" "typed cn t v" "typed cn t z" "plain_value z"
    with TStruct.IH [of "(n, o', t)" "(o', t)" t v z] TStruct.prems(1)
    show "json_decode cn t (json_encode t v) z = (restored t v z, False)" by auto
  qed
  from decode_fields_restored [OF this _ vs(3,4)] TStruct.prems(1,4) show ?case by (auto simp: vs(1,2))
qed (auto split: go_value.splits)

end
