(* ===== verification/GoPrint.thy ===== *)
theory GoPrint
  imports GoReflect AnthropicAdapter
begin

text \<open>
  The texts of \<open>json.Marshal\<close> and of \<open>json.MarshalIndent\<close> with two blanks per level, and that the reader
  of \<open>GoJson\<close> gives the value back.  Strings are valid UTF-8; numbers are tokens of the grammar.
\<close>

section \<open>Printing\<close>

text \<open>The flag tells whether the text is indented.\<close>

definition indent :: "bool \<Rightarrow> nat \<Rightarrow> string" where
  "indent p d = (if p then newline @ replicate (2 * d) (CHR '' '') else [])"

definition gap :: "bool \<Rightarrow> string" where
  "gap p = (if p then '' '' else [])"

fun json_print :: "bool \<Rightarrow> nat \<Rightarrow> json \<Rightarrow> string" where
  "json_print p d JNull = ''null''"
| "json_print p d (JBool b) = (if b then ''true'' else ''false'')"
| "json_print p d (JNum s) = s"
| "json_print p d (JStr s) = json_string s"
| "json_print p d (JArr js) =
     (if js = [] then ''[]''
      else ''['' @ join_str '','' (map (\<lambda>j. indent p (Suc d) @ json_print p (Suc d) j) js) @ indent p d @ '']'')"
| "json_print p d (JObj ms) =
     (if ms = [] then ''{}''
      else ''{'' @ join_str '','' (map (\<lambda>(k, j). indent p (Suc d) @ json_string k @ '':'' @ gap p @ json_print p (Suc d) j) ms)
           @ indent p d @ ''}'')"

definition json_MarshalIndent :: "json \<Rightarrow> string" where
  "json_MarshalIndent j = json_print True 0 j"

definition json_Marshal :: "json \<Rightarrow> string" where
  "json_Marshal j = json_print False 0 j"

definition num_token :: "string \<Rightarrow> bool" where
  "num_token s \<longleftrightarrow> parse_number s = Some (s, [])"

fun good_json :: "json \<Rightarrow> bool" where
  "good_json (JNum s) \<longleftrightarrow> num_token s"
| "good_json (JArr js) \<longleftrightarrow> list_all good_json js"
| "good_json (JObj ms) \<longleftrightarrow> list_all (\<lambda>(k, j). good_json j) ms"
| "good_json _ \<longleftrightarrow> True"

section \<open>Strings\<close>

lemma hex_value_digit: "n < 16 \<Longrightarrow> hex_value (hex_digit n) = Some n"
  by (auto simp: hex_value_def hex_digit_def of_char_of take_bit_eq_mod)

lemma hex_value_0: "hex_value (CHR ''0'') = Some 0"
  by (simp add: hex_value_def)

lemma unicode_escape_ascii:
  "n < 128 \<Longrightarrow> unicode_escape (CHR ''0'' # CHR ''0'' # hex_digit (n div 16) # hex_digit (n mod 16) # r) = Some ([char_of n], r)"
proof -
  assume n: "n < 128"
  then have d: "n div 16 < 16" "n mod 16 < 16" by auto
  have "hex4 (CHR ''0'' # CHR ''0'' # hex_digit (n div 16) # hex_digit (n mod 16) # r) = Some (n div 16 * 16 + n mod 16, r)"
    by (simp only: hex4.simps hex_value_0 hex_value_digit [OF d(1)] hex_value_digit [OF d(2)] option.case prod.case) simp
  also have "n div 16 * 16 + n mod 16 = n" by (rule div_mult_mod_eq)
  finally have h: "hex4 (CHR ''0'' # CHR ''0'' # hex_digit (n div 16) # hex_digit (n mod 16) # r) = Some (n, r)" .
  show ?thesis
    unfolding unicode_escape_def h using n by (simp add: is_high_surrogate_def is_low_surrogate_def utf8_def)
qed

lemma hex_value_digits:
  "hex_value (CHR ''2'') = Some 2" "hex_value (CHR ''8'') = Some 8" "hex_value (CHR ''9'') = Some 9"
  by (simp_all add: hex_value_def)

lemma unicode_escape_bmp:
  "hex4 s = Some (n, r) \<Longrightarrow> n < 55296 \<Longrightarrow> unicode_escape s = Some (utf8 n, r)"
  by (simp add: unicode_escape_def is_high_surrogate_def is_low_surrogate_def)

lemma utf8_separators:
  "utf8 8232 = [char_of (226 :: nat), char_of (128 :: nat), char_of (168 :: nat)]"
  "utf8 8233 = [char_of (226 :: nat), char_of (128 :: nat), char_of (169 :: nat)]"
  by (simp_all add: utf8_def)

lemma hex4_separators:
  "hex4 (CHR ''2'' # CHR ''0'' # CHR ''2'' # CHR ''8'' # r) = Some (8232, r)"
  "hex4 (CHR ''2'' # CHR ''0'' # CHR ''2'' # CHR ''9'' # r) = Some (8233, r)"
  by (simp_all add: hex_value_digits hex_value_0)

lemma unicode_escape_separators:
  "unicode_escape (CHR ''2'' # CHR ''0'' # CHR ''2'' # CHR ''8'' # r) = Some (utf8 8232, r)"
  "unicode_escape (CHR ''2'' # CHR ''0'' # CHR ''2'' # CHR ''9'' # r) = Some (utf8 8233, r)"
  by (rule unicode_escape_bmp, rule hex4_separators, simp)+

lemma parse_chars_plain:
  "of_char c \<noteq> (34 :: nat) \<Longrightarrow> of_char c \<noteq> (92 :: nat) \<Longrightarrow> (32 :: nat) \<le> of_char c \<Longrightarrow>
   parse_chars (Suc m) (c # s) = map_option (\<lambda>(t, r). (c # t, r)) (parse_chars m s)"
  by (simp add: Let_def)

lemma parse_chars_quote: "parse_chars (Suc m) (char_of (34 :: nat) # s) = Some ([], s)"
  by (simp add: Let_def)

lemma parse_chars_simple:
  "simple_escape e = Some d \<Longrightarrow> e \<noteq> CHR ''u'' \<Longrightarrow>
   parse_chars (Suc m) (char_of (92 :: nat) # e # s) = map_option (\<lambda>(t, r). (d # t, r)) (parse_chars m s)"
  by (simp add: Let_def of_char_of)

lemma parse_chars_unicode:
  "unicode_escape s = Some (out, r) \<Longrightarrow>
   parse_chars (Suc m) (char_of (92 :: nat) # CHR ''u'' # s) = map_option (\<lambda>(t, r). (out @ t, r)) (parse_chars m r)"
  by (simp add: Let_def of_char_of)

lemma simple_escapes:
  "of_char c = (34 :: nat) \<or> of_char c = (92 :: nat) \<Longrightarrow> simple_escape c = Some c"
  "simple_escape (CHR ''b'') = Some (char_of (8 :: nat))" "simple_escape (CHR ''f'') = Some (char_of (12 :: nat))"
  "simple_escape (CHR ''n'') = Some (char_of (10 :: nat))" "simple_escape (CHR ''r'') = Some (char_of (13 :: nat))"
  "simple_escape (CHR ''t'') = Some (char_of (9 :: nat))"
  by (auto simp: simple_escape_def)

lemma char_of_eq: "of_char c = (n :: nat) \<Longrightarrow> c = char_of n"
  by auto

lemmas parse_chars_steps = parse_chars_plain parse_chars_quote parse_chars_simple parse_chars_unicode simple_escapes

declare parse_chars.simps [simp del] json_chars.simps(2) [simp del]

text \<open>What a character becomes: itself, a letter after a backslash, or a code.\<close>

lemma json_chars_cases:
  fixes c :: char and s :: string
  defines "bs \<equiv> char_of (92 :: nat)"
  obtains (plain) "json_chars (c # s) = c # json_chars s" "of_char c \<noteq> (34 :: nat)" "of_char c \<noteq> (92 :: nat)" "(32 :: nat) \<le> of_char c"
  | (letter) e where "json_chars (c # s) = bs # e # json_chars s" "simple_escape e = Some c" "e \<noteq> CHR ''u''"
  | (code) "json_chars (c # s) = json_escape (of_char c) @ json_chars s" "of_char c < (128 :: nat)"
  | (separator) t a where "json_chars (c # s) = bs # CHR ''u'' # CHR ''2'' # CHR ''0'' # CHR ''2'' # a # json_chars t"
      "\<And>u. unicode_escape (CHR ''2'' # CHR ''0'' # CHR ''2'' # a # u) = Some (c # take 2 s, u)" "s = take 2 s @ t" "length t < length s"
proof -
  let ?n = "of_char c :: nat"
  have c: "?n = k \<Longrightarrow> c = char_of k" for k by auto
  note jc = json_chars.simps(2) [unfolded Let_def]
  show thesis
  proof (cases "?n = 34 \<or> ?n = 92")
    case True
    moreover have "c \<noteq> CHR ''u''" using True by auto
    ultimately show thesis using letter [of c] by (auto simp: jc bs_def simple_escape_def)
  next
    case 1: False
    show thesis
    proof (cases "?n \<in> {8, 12, 10, 13, 9}")
      case True
      then consider "?n = 8" | "?n = 12" | "?n = 10" | "?n = 13" | "?n = 9" by blast
      then show thesis
      proof cases
        case 1 show thesis by (rule letter [of "CHR ''b''"]) (simp add: jc bs_def 1, simp add: simple_escapes c [OF 1], simp)
      next
        case 2 show thesis by (rule letter [of "CHR ''f''"]) (simp add: jc bs_def 2, simp add: simple_escapes c [OF 2], simp)
      next
        case 3 show thesis by (rule letter [of "CHR ''n''"]) (simp add: jc bs_def 3, simp add: simple_escapes c [OF 3], simp)
      next
        case 4 show thesis by (rule letter [of "CHR ''r''"]) (simp add: jc bs_def 4, simp add: simple_escapes c [OF 4], simp)
      next
        case 5 show thesis by (rule letter [of "CHR ''t''"]) (simp add: jc bs_def 5, simp add: simple_escapes c [OF 5], simp)
      qed
    next
      case 2: False
      show thesis
      proof (cases "?n < 32 \<or> ?n = 60 \<or> ?n = 62 \<or> ?n = 38")
        case True
        show thesis
        proof (rule code)
          show "json_chars (c # s) = json_escape (of_char c) @ json_chars s" using 1 2 True by (simp add: jc)
          show "of_char c < (128 :: nat)" using True by auto
        qed
      next
        case 3: False
        show thesis
        proof (cases "?n = 226 \<and> take 2 (map of_char s) \<in> {[128, 168], [128, 169 :: nat]}")
          case True
          then obtain x y t where s: "s = x # y # t" "of_char x = (128 :: nat)" "of_char y = (168 :: nat) \<or> of_char y = (169 :: nat)"
            by (cases s; cases "tl s") auto
          have cx: "c = char_of (226 :: nat)" "x = char_of (128 :: nat)" using True s(2) by (auto intro!: char_of_eq)
          show thesis
          proof (cases "of_char y = (168 :: nat)")
            case y: True
            have "json_chars (c # s) = bs # CHR ''u'' # CHR ''2'' # CHR ''0'' # CHR ''2'' # CHR ''8'' # json_chars t"
              using 1 2 3 True s(2) y by (simp add: jc bs_def s(1))
            then show thesis
              by (rule separator) (simp_all add: s(1) cx char_of_eq [OF y] unicode_escape_separators utf8_separators)
          next
            case False
            then have y: "of_char y = (169 :: nat)" using s(3) by auto
            have "json_chars (c # s) = bs # CHR ''u'' # CHR ''2'' # CHR ''0'' # CHR ''2'' # CHR ''9'' # json_chars t"
              using 1 2 3 True s(2) y by (simp add: jc bs_def s(1))
            then show thesis
              by (rule separator) (simp_all add: s(1) cx char_of_eq [OF y] unicode_escape_separators utf8_separators)
          qed
        next
          case False
          show thesis
          proof (rule plain)
            show "json_chars (c # s) = c # json_chars s" using 1 2 3 False by (auto simp: jc)
          qed (use 1 3 in auto)
        qed
      qed
    qed
  qed
qed

lemma parse_json_chars:
  "length (json_chars s) < n \<Longrightarrow> parse_chars n (json_chars s @ char_of (34 :: nat) # r) = Some (s, r)"
proof (induction s arbitrary: n rule: length_induct)
  case (1 s)
  then obtain m where n: "n = Suc m" by (cases n) auto
  show ?case
  proof (cases s)
    case Nil
    then show ?thesis by (simp add: n parse_chars_quote)
  next
    case (Cons c t)
    have IH: "length (json_chars u) < k \<Longrightarrow> length u < length s \<Longrightarrow>
        parse_chars k (json_chars u @ char_of (34 :: nat) # r) = Some (u, r)" for u k
      using "1.IH" by blast
    show ?thesis
    proof (cases rule: json_chars_cases [of c t])
      case plain
      then show ?thesis using IH [of t m] "1.prems" by (simp add: n Cons parse_chars_plain)
    next
      case (letter e)
      then show ?thesis using IH [of t m] "1.prems" by (simp add: n Cons parse_chars_simple)
    next
      case code
      then show ?thesis using IH [of t m] "1.prems"
        by (simp add: n Cons json_escape_def parse_chars_unicode unicode_escape_ascii)
    next
      case (separator u a)
      then show ?thesis using IH [of u m] "1.prems"
        by (simp add: n Cons parse_chars_unicode)
    qed
  qed
qed

section \<open>Numbers\<close>

text \<open>What may follow a value in a text.\<close>

definition delim :: "string \<Rightarrow> bool" where
  "delim r \<longleftrightarrow> (case r of [] \<Rightarrow> True | c # _ \<Rightarrow> c \<in> {CHR '','', CHR '']'', CHR ''}'', char_of (10 :: nat)})"

lemma char_literals: "char_of (10 :: nat) = CHR 0x0A" "char_of (48 :: nat) = CHR ''0''"
  by (simp_all add: char_of_def bit_iff_odd)

lemma delim_not_digit: "delim r \<Longrightarrow> takeWhile is_digit r = [] \<and> dropWhile is_digit r = r"
  by (cases r) (auto simp: delim_def is_digit_def)

lemma digits_delim:
  assumes "delim r"
  shows "takeWhile is_digit (s @ r) = takeWhile is_digit s" "dropWhile is_digit (s @ r) = dropWhile is_digit s @ r"
  using delim_not_digit [OF assms] by (induction s) auto

lemma parse_digits_delim:
  "parse_digits s = Some (d, u) \<Longrightarrow> delim r \<Longrightarrow> parse_digits (s @ r) = Some (d, u @ r)"
  by (auto simp: parse_digits_def Let_def digits_delim split: if_splits)

lemma parse_int_part_delim:
  "parse_int_part s = Some (d, u) \<Longrightarrow> delim r \<Longrightarrow> parse_int_part (s @ r) = Some (d, u @ r)"
  using parse_digits_delim [of s d u r] by (cases s) (auto simp: parse_int_part_def split: if_splits)

lemma parse_frac_delim:
  "parse_frac s = Some (d, u) \<Longrightarrow> delim r \<Longrightarrow> parse_frac (s @ r) = Some (d, u @ r)"
  by (cases s; cases r) (auto simp: parse_frac_def delim_def char_literals parse_digits_delim split: if_splits)

lemma parse_exp_delim:
  assumes "parse_exp s = Some (d, u)" and "delim r"
  shows "parse_exp (s @ r) = Some (d, u @ r)"
proof (cases s)
  case Nil
  then show ?thesis using assms by (cases r) (auto simp: parse_exp_def delim_def char_literals)
next
  case (Cons c t)
  then show ?thesis using assms parse_digits_delim [OF _ assms(2), of t] parse_digits_delim [OF _ assms(2), of "tl t"]
    by (cases t) (auto simp: parse_exp_def split: if_splits)
qed

lemma parse_number_delim:
  assumes "parse_number s = Some (d, u)" and "delim r" and "s \<noteq> []"
  shows "parse_number (s @ r) = Some (d, u @ r)"
  using assms parse_int_part_delim [OF _ assms(2)] parse_frac_delim [OF _ assms(2)] parse_exp_delim [OF _ assms(2)]
  by (cases s) (fastforce simp: parse_number_def split: option.splits prod.splits if_splits)+

lemma num_token_delim: "num_token s \<Longrightarrow> delim r \<Longrightarrow> parse_number (s @ r) = Some (s, r)"
  using parse_number_delim [of s s "[]" r]
  by (cases "s = []") (auto simp: num_token_def parse_number_def parse_int_part_def)

lemma num_token_first:
  assumes "num_token s" obtains c t where "s = c # t" "is_digit c \<or> c = CHR ''-''"
proof (cases s)
  case Nil
  with assms show ?thesis by (simp add: num_token_def parse_number_def parse_int_part_def)
next
  case (Cons c t)
  then have "is_digit c \<or> c = CHR ''-''"
    using assms by (auto simp: num_token_def parse_number_def parse_int_part_def parse_digits_def is_digit_def Let_def
        split: if_splits option.splits)
  with Cons that show ?thesis by blast
qed

lemma nat_digits_token: "nat_digits n \<noteq> [] \<and> (hd (nat_digits n) = CHR ''0'' \<longrightarrow> n = 0)"
proof (induction n rule: nat_digits.induct)
  case (1 n)
  show ?case
  proof (cases "n < 10")
    case True
    then show ?thesis by (subst (1 2) nat_digits.simps) (auto dest!: arg_cong [of _ _ "of_char :: char \<Rightarrow> nat"])
  next
    case False
    then show ?thesis using 1 by (subst (1 2) nat_digits.simps) auto
  qed
qed

lemma num_token_itoa: "num_token (itoa i)"
proof -
  have p: "parse_int_part (nat_digits n) = Some (nat_digits n, [])" for n
  proof (cases "n = 0")
    case True
    then show ?thesis by (simp add: parse_int_part_def nat_digits.simps char_literals)
  next
    case False
    have "takeWhile is_digit (nat_digits n) = nat_digits n" "dropWhile is_digit (nat_digits n) = []"
      using nat_digits_digits [of n] by (simp_all add: list_all_iff)
    then show ?thesis using nat_digits_token [of n] False
      by (cases "nat_digits n") (auto simp: parse_int_part_def parse_digits_def Let_def)
  qed
  have m: "nat_digits n = c # t \<Longrightarrow> c \<noteq> CHR ''-''" for n c t
    using nat_digits_digits [of n] digit_not_minus by force
  have "num_token (nat_digits n) \<and> num_token (CHR ''-'' # nat_digits n)" for n
    using p [of n] m [of n] nat_digits_nonempty [of n]
    by (cases "nat_digits n") (simp_all add: num_token_def parse_number_def parse_frac_def parse_exp_def)
  then show ?thesis by (simp add: itoa_def)
qed

section \<open>Reading what was printed\<close>

definition pv :: "string \<Rightarrow> (json \<times> string) option" where
  "pv s = parse_value (2 * length s + 2) s"

definition pe :: "string \<Rightarrow> (json list \<times> string) option" where
  "pe s = parse_elems (2 * length s + 2) s"

definition pm :: "string \<Rightarrow> ((string \<times> json) list \<times> string) option" where
  "pm s = parse_members (2 * length s + 2) s"

lemma pv_eq: "2 * length s + 1 \<le> n \<Longrightarrow> parse_value n s = pv s"
  unfolding pv_def using parse_fuel_enough(1) [of s "2 * length s + 1"] by (metis le_add_same_cancel1 le_eq_less_or_eq nat_add_left_cancel_le one_le_numeral order_refl)

lemma pe_eq: "2 * length s + 2 \<le> n \<Longrightarrow> parse_elems n s = pe s"
  unfolding pe_def by (rule parse_fuel_enough(2)) simp

lemma pm_eq: "2 * length s + 2 \<le> n \<Longrightarrow> parse_members n s = pm s"
  unfolding pm_def by (rule parse_fuel_enough(3)) simp

definition blank :: "string \<Rightarrow> bool" where
  "blank w \<longleftrightarrow> list_all is_ws w"

lemma skip_blank: "blank w \<Longrightarrow> \<not> is_ws c \<Longrightarrow> skip_ws (w @ c # s) = c # s"
  unfolding blank_def by (induction w) (auto simp: skip_ws_def)

lemma blank_indent: "blank (indent p d)" "blank (gap p)"
  by (auto simp: gap_def blank_def indent_def newline_def list_all_iff is_ws_def)

lemma not_ws:
  "\<not> is_ws (CHR ''['')" "\<not> is_ws (CHR '']'')" "\<not> is_ws (CHR ''{'')" "\<not> is_ws (CHR ''}'')" "\<not> is_ws (CHR '','')"
  "\<not> is_ws (CHR '':'')" "\<not> is_ws (CHR ''t'')" "\<not> is_ws (CHR ''f'')" "\<not> is_ws (CHR ''n'')" "\<not> is_ws (char_of (34 :: nat))"
  "is_digit c \<Longrightarrow> \<not> is_ws c" "\<not> is_ws (CHR ''-'')"
  by (auto simp: is_ws_def is_digit_def)

text \<open>One step of the reader on a text that begins with blanks.\<close>

lemma pv_string:
  assumes "blank w"
  shows "pv (w @ json_string s @ r) = Some (JStr s, r)"
proof -
  let ?q = "char_of (34 :: nat) :: char"
  have "parse_chars (length (w @ json_string s @ r)) (json_chars s @ ?q # r) = Some (s, r)"
    by (rule parse_json_chars) (simp add: json_string_def)
  then show ?thesis
    using skip_blank [OF assms not_ws(10)] by (simp add: pv_def json_string_def Let_def of_char_of)
qed

lemma pv_word:
  assumes "blank w"
  shows "pv (w @ ''null'' @ r) = Some (JNull, r)" "pv (w @ ''true'' @ r) = Some (JBool True, r)"
    "pv (w @ ''false'' @ r) = Some (JBool False, r)"
  using skip_blank [OF assms not_ws(9)] skip_blank [OF assms not_ws(7)] skip_blank [OF assms not_ws(8)]
  by (simp_all add: pv_def Let_def parse_word_def has_prefix_def)

lemma pv_number:
  assumes "blank w" and "num_token s" and "delim r"
  shows "pv (w @ s @ r) = Some (JNum s, r)"
proof -
  obtain c t where s: "s = c # t" "is_digit c \<or> c = CHR ''-''" by (rule num_token_first [OF assms(2)])
  have "skip_ws (w @ s @ r) = c # t @ r" using skip_blank [OF assms(1)] s not_ws(11,12) by auto
  moreover have "of_char c \<noteq> (34 :: nat)" "of_char c \<noteq> (91 :: nat)" "of_char c \<noteq> (123 :: nat)"
    "c \<noteq> CHR ''t''" "c \<noteq> CHR ''f''" "c \<noteq> CHR ''n''" using s(2) by (auto simp: is_digit_def)
  ultimately show ?thesis using num_token_delim [OF assms(2,3)] by (simp add: pv_def Let_def s(1))
qed

lemma pv_first:
  assumes "pv s = Some (v, r)" shows "\<exists>c t. skip_ws s = c # t \<and> c \<noteq> CHR '']''"
proof (cases "skip_ws s")
  case Nil
  with assms show ?thesis by (simp add: pv_def)
next
  case (Cons c t)
  have "parse_number (CHR '']'' # t) = None"
    by (simp add: parse_number_def parse_int_part_def parse_digits_def is_digit_def Let_def)
  with assms Cons show ?thesis by (cases "c = CHR '']''") (auto simp: pv_def Let_def)
qed

lemma pv_array:
  assumes "blank w" and "pv s = Some x"
  shows "pv (w @ CHR ''['' # s) = map_option (\<lambda>(vs, r). (JArr vs, r)) (pe s)"
proof -
  obtain c t where "skip_ws s = c # t" "c \<noteq> CHR '']''" using pv_first [of s "fst x" "snd x"] assms(2) by auto
  moreover have "of_char c \<noteq> (93 :: nat)" using \<open>c \<noteq> CHR '']''\<close> by (auto dest: char_of_eq simp: char_of_def bit_iff_odd)
  moreover have "parse_elems (Suc (2 * length (w @ CHR ''['' # s))) s = pe s" by (rule pe_eq) simp
  ultimately show ?thesis using skip_blank [OF assms(1) not_ws(1)] by (simp add: pv_def Let_def)
qed

lemma pv_empty:
  assumes "blank w"
  shows "pv (w @ ''[]'' @ r) = Some (JArr [], r)" "pv (w @ ''{}'' @ r) = Some (JObj [], r)"
  using skip_blank [OF assms not_ws(1)] skip_blank [OF assms not_ws(3)] skip_blank [of "[]", OF _ not_ws(2)] skip_blank [of "[]", OF _ not_ws(4)]
  by (simp_all add: pv_def Let_def blank_def)

lemma pv_object:
  assumes "blank w" and "blank u"
  shows "pv (w @ CHR ''{'' # u @ json_string k @ s) = map_option (\<lambda>(vs, r). (JObj vs, r)) (pm (u @ json_string k @ s))"
proof -
  let ?s = "u @ json_string k @ s"
  have "skip_ws ?s = char_of (34 :: nat) # json_chars k @ char_of (34 :: nat) # s"
    using skip_blank [OF assms(2) not_ws(10)] by (simp add: json_string_def)
  moreover have "parse_members (Suc (2 * length (w @ CHR ''{'' # ?s))) ?s = pm ?s" by (rule pm_eq) simp
  ultimately show ?thesis using skip_blank [OF assms(1) not_ws(3)] by (simp add: pv_def Let_def of_char_of)
qed

lemma pe_last: "pv s = Some (v, w @ CHR '']'' # r) \<Longrightarrow> blank w \<Longrightarrow> pe s = Some ([v], r)"
  using pv_eq [of s "Suc (2 * length s)"] skip_blank [OF _ not_ws(2)] by (simp add: pe_def)

lemma pe_more:
  "pv s = Some (v, CHR '','' # r) \<Longrightarrow> length r < length s \<Longrightarrow> pe s = map_option (\<lambda>(vs, r). (v # vs, r)) (pe r)"
  using pv_eq [of s "Suc (2 * length s)"] skip_blank [of "[]", OF _ not_ws(5)] pe_eq [of r "Suc (2 * length s)"]
  by (simp add: pe_def blank_def)

lemma pm_member:
  assumes "blank u"
  shows "pm (u @ json_string k @ CHR '':'' # s) =
    (case pv s of
       None \<Rightarrow> None
     | Some (v, s4) \<Rightarrow>
         (case skip_ws s4 of
            [] \<Rightarrow> None
          | d # s5 \<Rightarrow>
              if (of_char d :: nat) = 125 then Some ([(k, v)], s5)
              else if (of_char d :: nat) = 44
                then map_option (\<lambda>(ms, r). ((k, v) # ms, r)) (parse_members (Suc (2 * length (u @ json_string k @ CHR '':'' # s))) s5)
              else None))"
proof -
  let ?q = "char_of (34 :: nat) :: char"
  let ?s = "u @ json_string k @ CHR '':'' # s"
  have s: "skip_ws ?s = ?q # json_chars k @ ?q # CHR '':'' # s"
    using skip_blank [OF assms not_ws(10)] by (simp add: json_string_def)
  define n where "n = length ?s"
  have k: "parse_chars n (json_chars k @ ?q # CHR '':'' # s) = Some (k, CHR '':'' # s)"
    unfolding n_def by (rule parse_json_chars) (simp add: json_string_def)
  have c: "skip_ws (CHR '':'' # s) = CHR '':'' # s"
    using skip_blank [of "[]", OF _ not_ws(6)] by (simp add: blank_def)
  have v: "parse_value (Suc (2 * n)) s = pv s" unfolding n_def by (rule pv_eq) simp
  have "pm ?s = parse_members (Suc (Suc (2 * n))) ?s" by (simp add: pm_def n_def)
  then show ?thesis
    unfolding n_def [symmetric]
    by (subst (asm) parse_members.simps(2)) (simp add: n_def [symmetric] s k c v of_char_of del: parse_value.simps parse_elems.simps parse_members.simps length_append)
qed

lemma pm_last:
  assumes "pv s = Some (v, w @ CHR ''}'' # r)" and "blank w" and "blank u"
  shows "pm (u @ json_string k @ CHR '':'' # s) = Some ([(k, v)], r)"
  using skip_blank [OF assms(2) not_ws(4)] by (simp add: pm_member [OF assms(3)] assms(1))

lemma pm_more:
  assumes "pv s = Some (v, CHR '','' # r)" and "length r < length s" and "blank u"
  shows "pm (u @ json_string k @ CHR '':'' # s) = map_option (\<lambda>(ms, r). ((k, v) # ms, r)) (pm r)"
  using skip_blank [of "[]", OF _ not_ws(5)] pm_eq [of r "Suc (2 * length (u @ json_string k @ CHR '':'' # s))"] assms(2)
  by (simp add: pm_member [OF assms(3)] assms(1) blank_def)

declare parse_value.simps [simp del] parse_elems.simps [simp del] parse_members.simps [simp del]

lemma blank_append: "blank u \<Longrightarrow> blank w \<Longrightarrow> blank (u @ w)"
  by (simp add: blank_def)

lemma delim_after: "delim (CHR '','' # r)" "delim (indent p d @ CHR '']'' # r)" "delim (indent p d @ CHR ''}'' # r)"
  by (simp_all add: delim_def indent_def newline_def)

lemma pe_printed:
  assumes "\<And>j r. j \<in> set js \<Longrightarrow> delim r \<Longrightarrow> pv (indent p (Suc d) @ json_print p (Suc d) j @ r) = Some (j, r)" and "js \<noteq> []"
  shows "pe (join_str '','' (map (\<lambda>j. indent p (Suc d) @ json_print p (Suc d) j) js) @ indent p d @ CHR '']'' # r) = Some (js, r)"
  using assms
proof (induction js rule: induct_list012)
  case (2 j)
  then show ?case using pe_last [OF "2.prems"(1) [of j "indent p d @ CHR '']'' # r"]] by (simp add: delim_after blank_indent)
next
  case (3 j k js)
  let ?rest = "join_str '','' (map (\<lambda>j. indent p (Suc d) @ json_print p (Suc d) j) (k # js)) @ indent p d @ CHR '']'' # r"
  have "pe ?rest = Some (k # js, r)" using 3 by simp
  moreover have "pv (indent p (Suc d) @ json_print p (Suc d) j @ CHR '','' # ?rest) = Some (j, CHR '','' # ?rest)"
    using "3.prems"(1) by (simp add: delim_after)
  ultimately show ?case using pe_more [of "indent p (Suc d) @ json_print p (Suc d) j @ CHR '','' # ?rest" j ?rest] by simp
qed simp

lemma pm_printed:
  assumes "\<And>k j r. (k, j) \<in> set ms \<Longrightarrow> delim r \<Longrightarrow> pv (gap p @ json_print p (Suc d) j @ r) = Some (j, r)" and "ms \<noteq> []"
  shows "pm (join_str '','' (map (\<lambda>(k, j). indent p (Suc d) @ json_string k @ '':'' @ gap p @ json_print p (Suc d) j) ms) @ indent p d @ CHR ''}'' # r) =
           Some (ms, r)"
  using assms
proof (induction ms rule: induct_list012)
  case (2 m)
  obtain k j where m: "m = (k, j)" by fastforce
  show ?case
    using pm_last [OF "2.prems"(1) [of k j "indent p d @ CHR ''}'' # r"] blank_indent(1) blank_indent(1)] by (simp add: m delim_after)
next
  case (3 m m' ms)
  obtain k j where m: "m = (k, j)" by fastforce
  let ?pr = "\<lambda>(k, j). indent p (Suc d) @ json_string k @ '':'' @ gap p @ json_print p (Suc d) j"
  let ?rest = "join_str '','' (map ?pr (m' # ms)) @ indent p d @ CHR ''}'' # r"
  have "pm ?rest = Some (m' # ms, r)" by (rule "3.IH"(2)) (use "3.prems" in auto)
  moreover have "pv (gap p @ json_print p (Suc d) j @ CHR '','' # ?rest) = Some (j, CHR '','' # ?rest)"
    by (rule "3.prems"(1) [of k]) (simp_all add: m delim_after)
  then have "pm (indent p (Suc d) @ json_string k @ CHR '':'' # gap p @ json_print p (Suc d) j @ CHR '','' # ?rest) =
      map_option (\<lambda>(ms, r). ((k, j) # ms, r)) (pm ?rest)"
    by (rule pm_more) (simp_all add: blank_indent)
  ultimately show ?case by (simp add: m)
qed simp

lemma pv_printed: "good_json j \<Longrightarrow> blank w \<Longrightarrow> delim r \<Longrightarrow> pv (w @ json_print p d j @ r) = Some (j, r)"
proof (induction j arbitrary: d w r)
  case JNull
  then show ?case using pv_word(1) [of w r] by simp
next
  case (JBool b)
  then show ?case using pv_word(2,3) [of w r] by simp
next
  case (JArr js)
  show ?case
  proof (cases "js = []")
    case False
    have e: "\<And>j r. j \<in> set js \<Longrightarrow> delim r \<Longrightarrow> pv (indent p (Suc d) @ json_print p (Suc d) j @ r) = Some (j, r)"
      using JArr by (auto simp: list_all_iff blank_indent)
    let ?s = "join_str '','' (map (\<lambda>j. indent p (Suc d) @ json_print p (Suc d) j) js) @ indent p d @ CHR '']'' # r"
    obtain k ks where js: "js = k # ks" using False by (cases js) auto
    have "\<exists>x. pv ?s = Some x"
      using e [of k "indent p d @ CHR '']'' # r"] e [of k "CHR '','' # join_str '','' (map (\<lambda>j. indent p (Suc d) @ json_print p (Suc d) j) ks) @ indent p d @ CHR '']'' # r"]
      by (cases ks) (auto simp: js delim_after)
    with pe_printed [OF e False] pv_array [OF JArr.prems(2), of ?s] show ?thesis by (auto simp: False)
  qed (use pv_empty(1) [OF JArr.prems(2), of r] in simp)
next
  case (JObj ms)
  show ?case
  proof (cases "ms = []")
    case False
    have e: "\<And>k j r. (k, j) \<in> set ms \<Longrightarrow> delim r \<Longrightarrow> pv (gap p @ json_print p (Suc d) j @ r) = Some (j, r)"
    proof -
      fix k j r assume m: "(k, j) \<in> set ms" and r: "delim r"
      have "good_json j" using JObj.prems(1) m by (auto simp: list_all_iff)
      then show "pv (gap p @ json_print p (Suc d) j @ r) = Some (j, r)"
        using JObj.IH [of "(k, j)" j "gap p" r "Suc d"] m r by (auto simp: blank_indent)
    qed
    let ?pr = "\<lambda>(k, j). indent p (Suc d) @ json_string k @ '':'' @ gap p @ json_print p (Suc d) j"
    let ?s = "join_str '','' (map ?pr ms) @ indent p d @ CHR ''}'' # r"
    obtain k j ks where ms: "ms = (k, j) # ks" using False by (cases ms) auto
    have "\<exists>x. ?s = indent p (Suc d) @ json_string k @ x" by (cases ks) (auto simp: ms)
    then have "pv (w @ CHR ''{'' # ?s) = map_option (\<lambda>(vs, r). (JObj vs, r)) (pm ?s)"
      using pv_object [OF JObj.prems(2) blank_indent(1), of p "Suc d" k] by auto
    with pm_printed [OF e False] show ?thesis by (simp add: False)
  qed (use pv_empty(2) [OF JObj.prems(2), of r] in simp)
qed (simp_all add: pv_word pv_string pv_number)

lemma parse_printed: "good_json j \<Longrightarrow> json_parse (json_MarshalIndent j) = Some j" "good_json j \<Longrightarrow> json_parse (json_Marshal j) = Some j"
  using pv_printed [of j "[]" "[]" True 0] pv_printed [of j "[]" "[]" False 0]
  by (simp_all add: json_parse_def json_MarshalIndent_def json_Marshal_def pv_def blank_def delim_def skip_ws_def)

text \<open>What is encoded from a typed value has only numbers that can be read.\<close>

definition tokens :: "floats \<Rightarrow> bool" where
  "tokens cn \<longleftrightarrow> (\<forall>s t. cn s = Some t \<longrightarrow> num_token t)"

lemma any_value_good: "tokens cn \<Longrightarrow> any_value cn j = (j', False) \<Longrightarrow> good_json j'"
proof (induction j arbitrary: j')
  case (JNum s)
  then show ?case by (auto simp: tokens_def split: option.splits)
next
  case (JArr js)
  have "good_json (fst (any_value cn x))" if "x \<in> set js" "\<not> snd (any_value cn x)" for x
    using JArr.IH [OF that(1) JArr.prems(1), of "fst (any_value cn x)"] that(2) by (cases "any_value cn x") auto
  with JArr.prems(2) show ?case by (auto simp: Let_def list_all_iff list_ex_iff)
next
  case (JObj ms)
  let ?rs = "map (\<lambda>(k, j). (k, any_value cn j)) ms"
  have "good_json (fst (any_value cn x))" if "(k, x) \<in> set ms" "\<not> snd (any_value cn x)" for k x
    using JObj.IH [of "(k, x)" x "fst (any_value cn x)"] JObj.prems(1) that by (cases "any_value cn x") auto
  with JObj.prems(2) have "list_all good_json (map fst (map snd ?rs))"
    by (auto simp: Let_def list_all_iff list_ex_iff)
  from update_fold_keeps [OF this, of "[]"] JObj.prems(2) show ?case
    by (force simp: Let_def list_all_iff)
qed auto

lemma encode_good: "tokens cn \<Longrightarrow> typed cn t v \<Longrightarrow> good_json (json_encode t v)"
proof (induction t arbitrary: v)
  case TInt
  then show ?case by (auto simp: num_token_itoa split: go_value.splits)
next
  case TFloat
  then show ?case by (auto simp: tokens_def split: go_value.splits)
next
  case TAny
  then show ?case using any_value_good by (auto split: go_value.splits)
next
  case (TStruct fs)
  obtain vs where vs: "v = VStruct vs" "list_all2 (\<lambda>(n, o', t) v. typed cn t v) fs vs"
    using TStruct.prems(2) unfolding typed_struct by blast
  have "list_all (\<lambda>(k, j). good_json j) (encode_fields (map (\<lambda>(n, o', t). (n, o', json_encode t)) gs) ws)"
    if "list_all2 (\<lambda>(n, o', t) v. typed cn t v) gs ws" "set gs \<subseteq> set fs" for gs ws
    using that
  proof (induction gs ws rule: list_all2_induct)
    case (Cons g gs w ws)
    obtain n p t where g: "g = (n, p, t)" by (cases g)
    have "good_json (json_encode t w)"
      using TStruct.IH [of "(n, p, t)" "(p, t)" t w] Cons.hyps(1) Cons.prems TStruct.prems(1) by (auto simp: g)
    with Cons show ?case by (auto simp: g)
  qed simp
  from this [OF vs(2)] show ?case by (simp add: vs(1))
qed (auto simp: list_all_iff split: go_value.splits option.splits)

text \<open>Floats as their own texts: only the tokens of the grammar are in range.\<close>

definition token_floats :: floats where
  "token_floats s = (if num_token s then Some s else None)"

lemma token_floats: "canonical token_floats" "tokens token_floats"
proof -
  have "num_token ''0''" using num_token_itoa [of 0] by (simp add: itoa_def nat_digits.simps char_literals)
  then show "canonical token_floats" "tokens token_floats" by (auto simp: canonical_def tokens_def token_floats_def)
qed

end
