(* ===== verification/Configuration.thy ===== *)
theory Configuration
  imports GoPrint Handler
begin

text \<open>
  The configuration (\<open>internal/config/config.go\<close>).  Every struct is given by the names and options of
  its JSON tags, in the order of its fields; a configuration is a value of the type \<open>Config_type\<close>, and
  a field is addressed by the names on the way to it.  Every read configuration has the types of the
  structs, and reading back what was saved gives the configuration again, but for the empty fields that
  are not written: these return to their defaults.
\<close>

section \<open>The types\<close>

definition SupervisorConfig_type :: go_type where
  "SupervisorConfig_type = TStruct [
     (''enabled'', False, TBool), (''ollama_base_url'', True, TString), (''ollama_model'', True, TString),
     (''check_interval'', True, TInt), (''max_corrections'', True, TInt), (''stall_timeout_sec'', True, TInt)]"

definition AgentConfig_type :: go_type where
  "AgentConfig_type = TStruct [
     (''model'', False, TString), (''workspace'', False, TString), (''max_history_runs'', False, TInt),
     (''preload_memory'', False, TInt), (''max_turns_per_task'', False, TInt),
     (''max_concurrent_llm'', False, TInt), (''claude_model'', True, TString), (''claude_tools'', True, TString),
     (''supervisor'', True, SupervisorConfig_type), (''max_input_tokens'', True, TInt),
     (''token_safety_margin'', True, TFloat), (''tool_output_max_chars'', True, TInt),
     (''enable_context_prune'', True, TBool)]"

definition TLSConfig_type :: go_type where
  "TLSConfig_type = TStruct [
     (''enabled'', False, TBool), (''cert_file'', False, TString), (''key_file'', False, TString)]"

definition TunnelConfig_type :: go_type where
  "TunnelConfig_type = TStruct [
     (''enabled'', False, TBool), (''provider'', True, TString), (''named_tunnel'', True, TString)]"

definition PubSubConfig_type :: go_type where
  "PubSubConfig_type = TStruct [
     (''enabled'', False, TBool), (''project_id'', True, TString), (''topic'', True, TString),
     (''subscription'', True, TString)]"

definition GatewayConfig_type :: go_type where
  "GatewayConfig_type = TStruct [
     (''bind'', False, TString), (''port'', False, TInt), (''tls'', True, TLSConfig_type),
     (''callback_base_url'', True, TString), (''allowed_origins'', True, TList TString),
     (''tunnel'', True, TunnelConfig_type), (''pubsub'', True, PubSubConfig_type)]"

definition RedisConfig_type :: go_type where
  "RedisConfig_type = TStruct [
     (''addr'', False, TString), (''password'', True, TString), (''db'', True, TInt)]"

definition PGConfig_type :: go_type where
  "PGConfig_type = TStruct [
     (''host'', False, TString), (''port'', False, TInt), (''user'', False, TString), (''password'', True, TString),
     (''database'', False, TString), (''ssl_mode'', True, TString)]"

definition SessionConfig_type :: go_type where
  "SessionConfig_type = TStruct [
     (''backend'', False, TString), (''redis'', True, RedisConfig_type), (''postgres'', True, PGConfig_type),
     (''app_name'', True, TString), (''user_id'', True, TString)]"

definition TelegramConfig_type :: go_type where
  "TelegramConfig_type = TStruct [
     (''enabled'', False, TBool), (''bot_token'', False, TString), (''allowed_users'', True, TList TInt),
     (''allowed_chats'', True, TList TInt), (''reject_message'', True, TString), (''user_rate_limit'', True, TInt),
     (''user_rate_window'', True, TInt), (''rate_limit_message'', True, TString)]"

definition WhatsAppConfig_type :: go_type where
  "WhatsAppConfig_type = TStruct [
     (''enabled'', False, TBool), (''device_name'', True, TString), (''session_db_path'', True, TString),
     (''allowed_phones'', True, TList TString), (''allowed_groups'', True, TList TString),
     (''reject_message'', True, TString), (''user_rate_limit'', True, TInt), (''user_rate_window'', True, TInt),
     (''rate_limit_message'', True, TString)]"

definition ChannelsConfig_type :: go_type where
  "ChannelsConfig_type = TStruct [
     (''telegram'', False, TelegramConfig_type), (''whatsapp'', False, WhatsAppConfig_type)]"

definition SearchConfig_type :: go_type where
  "SearchConfig_type = TStruct [
     (''enabled'', False, TBool), (''db_path'', True, TString)]"

definition EmbeddingConfig_type :: go_type where
  "EmbeddingConfig_type = TStruct [
     (''provider'', False, TString), (''model'', False, TString), (''base_url'', True, TString)]"

definition IndexingConfig_type :: go_type where
  "IndexingConfig_type = TStruct [
     (''chunk_size'', True, TInt), (''chunk_overlap'', True, TInt)]"

definition AutoMemoryConfig_type :: go_type where
  "AutoMemoryConfig_type = TStruct [
     (''timeout'', True, TString)]"

definition MemoryConfig_type :: go_type where
  "MemoryConfig_type = TStruct [
     (''search'', False, SearchConfig_type), (''embedding'', False, EmbeddingConfig_type),
     (''indexing'', False, IndexingConfig_type), (''auto'', False, AutoMemoryConfig_type)]"

definition BrowserProfile_type :: go_type where
  "BrowserProfile_type = TStruct [
     (''name'', False, TString), (''type'', False, TString), (''exec_path'', True, TString),
     (''remote_url'', True, TString), (''headless'', False, TBool), (''user_data_dir'', True, TString),
     (''flags'', True, TList TString)]"

definition BrowserConfig_type :: go_type where
  "BrowserConfig_type = TStruct [
     (''enabled'', False, TBool), (''profiles'', True, TList BrowserProfile_type)]"

definition WebSearchConfig_type :: go_type where
  "WebSearchConfig_type = TStruct [
     (''provider'', True, TString), (''base_url'', True, TString), (''api_key'', True, TString),
     (''num_results'', True, TInt)]"

definition CronJobConfig_type :: go_type where
  "CronJobConfig_type = TStruct [
     (''name'', False, TString), (''schedule'', False, TString), (''prompt'', False, TString),
     (''user_id'', False, TString), (''session_id'', True, TString), (''channel'', False, TString),
     (''metadata'', True, TMap TAny), (''timeout'', True, TString), (''max_retries'', True, TInt)]"

definition WebhookConfig_type :: go_type where
  "WebhookConfig_type = TStruct [
     (''name'', False, TString), (''path'', False, TString), (''prompt'', False, TString),
     (''user_id'', False, TString), (''session_id'', True, TString), (''channel'', False, TString),
     (''metadata'', True, TMap TAny), (''secret'', True, TString), (''timeout'', True, TString),
     (''max_retries'', True, TInt)]"

definition HeartbeatConfig_type :: go_type where
  "HeartbeatConfig_type = TStruct [
     (''name'', False, TString), (''interval'', False, TString), (''prompt'', False, TString),
     (''user_id'', False, TString), (''session_id'', True, TString), (''channel'', False, TString),
     (''metadata'', True, TMap TAny), (''timeout'', True, TString), (''max_retries'', True, TInt)]"

definition ProactiveConfig_type :: go_type where
  "ProactiveConfig_type = TStruct [
     (''jobs'', True, TList CronJobConfig_type), (''webhooks'', True, TList WebhookConfig_type),
     (''heartbeats'', True, TList HeartbeatConfig_type), (''history_db_path'', True, TString)]"

definition TelemetryConfig_type :: go_type where
  "TelemetryConfig_type = TStruct [
     (''enabled'', False, TBool), (''jaeger_endpoint'', True, TString), (''protocol'', True, TString),
     (''service_name'', True, TString)]"

definition STTConfig_type :: go_type where
  "STTConfig_type = TStruct [
     (''enabled'', False, TBool), (''base_url'', True, TString)]"

definition AutoApproveRule_type :: go_type where
  "AutoApproveRule_type = TStruct [
     (''tool'', False, TString), (''pattern'', True, TString)]"

definition ApprovalConfig_type :: go_type where
  "ApprovalConfig_type = TStruct [
     (''audit_db_path'', True, TString), (''auto_approve'', True, TList AutoApproveRule_type)]"

definition AuthConfig_type :: go_type where
  "AuthConfig_type = TStruct [
     (''enabled'', False, TBool), (''token_file'', True, TString)]"

definition CommandSandboxConfig_type :: go_type where
  "CommandSandboxConfig_type = TStruct [
     (''enabled'', False, TBool), (''blocked_patterns'', True, TList TString)]"

definition SecurityConfig_type :: go_type where
  "SecurityConfig_type = TStruct [
     (''auth'', True, AuthConfig_type), (''command_sandbox'', True, CommandSandboxConfig_type)]"

definition ReasoningConfig_type :: go_type where
  "ReasoningConfig_type = TStruct [
     (''enabled'', False, TBool), (''tier2_model'', True, TString), (''escalation_threshold'', True, TFloat),
     (''max_subtasks_trigger'', True, TInt), (''auto_escalate_keywords'', True, TList TString),
     (''max_tokens'', True, TInt)]"

definition CreativityConfig_type :: go_type where
  "CreativityConfig_type = TStruct [
     (''enabled'', False, TBool), (''exploration_temp'', True, TFloat), (''max_analogies'', True, TInt)]"

definition P2PConfig_type :: go_type where
  "P2PConfig_type = TStruct [
     (''enabled'', False, TBool), (''port'', True, TInt), (''identity_path'', True, TString),
     (''transports'', True, TList TString), (''dht_mode'', True, TString),
     (''bootstrap_peers'', True, TList TString), (''topics'', True, TList TString),
     (''relay_enabled'', True, TBool), (''allowed_peer_ids'', True, TList TString),
     (''auth_required'', True, TBool), (''max_connections'', True, TInt), (''max_streams_per_peer'', True, TInt),
     (''max_concurrent_streams'', True, TInt)]"

definition ThirdPartyConfig_type :: go_type where
  "ThirdPartyConfig_type = TStruct [
     (''enabled'', False, TBool), (''use_local_llm'', False, TBool), (''local_llm_model'', True, TString),
     (''max_session_length'', True, TInt), (''allow_relay'', False, TBool), (''system_prompt'', True, TString)]"

definition TrustConfig_type :: go_type where
  "TrustConfig_type = TStruct [
     (''owner_phones'', True, TList TString), (''owner_telegram'', True, TList TInt),
     (''third_party'', False, ThirdPartyConfig_type)]"

definition EmailServer_type :: go_type where
  "EmailServer_type = TStruct [
     (''host'', False, TString), (''port'', False, TInt), (''tls'', True, TBool), (''starttls'', True, TBool)]"

definition DAVServer_type :: go_type where
  "DAVServer_type = TStruct [
     (''url'', True, TString), (''principal_url'', True, TString)]"

definition OAuthProvider_type :: go_type where
  "OAuthProvider_type = TStruct [
     (''client_id'', False, TString), (''client_secret'', False, TString), (''auth_url'', True, TString),
     (''token_url'', True, TString), (''scopes'', True, TList TString), (''pkce'', True, TBool),
     (''redirect_uri'', True, TString), (''auth_params'', True, TMap TString), (''smtp'', True, TPtr EmailServer_type),
     (''imap'', True, TPtr EmailServer_type), (''caldav'', True, TPtr DAVServer_type), (''carddav'', True, TPtr DAVServer_type)]"

definition OAuthConfig_type :: go_type where
  "OAuthConfig_type = TStruct [
     (''providers'', True, TMap OAuthProvider_type), (''callback_path'', True, TString),
     (''token_db_path'', True, TString)]"

definition EmailPollerConfig_type :: go_type where
  "EmailPollerConfig_type = TStruct [
     (''enabled'', False, TBool), (''provider'', False, TString), (''email'', False, TString),
     (''interval'', True, TString), (''folders'', True, TList TString)]"

definition DatabaseConnection_type :: go_type where
  "DatabaseConnection_type = TStruct [
     (''driver'', False, TString), (''host'', True, TString), (''port'', True, TInt), (''user'', True, TString),
     (''password'', True, TString), (''database'', False, TString), (''ssl_mode'', True, TString),
     (''read_only'', True, TBool), (''max_conns'', True, TInt)]"

definition DatabasesConfig_type :: go_type where
  "DatabasesConfig_type = TStruct [
     (''connections'', True, TMap DatabaseConnection_type)]"

definition MQTTBroker_type :: go_type where
  "MQTTBroker_type = TStruct [
     (''host'', False, TString), (''port'', True, TInt), (''username'', True, TString),
     (''password'', True, TString), (''client_id'', True, TString), (''tls'', True, TBool),
     (''skip_verify'', True, TBool), (''ca_cert'', True, TString), (''client_cert'', True, TString),
     (''client_key'', True, TString)]"

definition MQTTConfig_type :: go_type where
  "MQTTConfig_type = TStruct [
     (''brokers'', True, TMap MQTTBroker_type)]"

definition SSHHost_type :: go_type where
  "SSHHost_type = TStruct [
     (''host'', False, TString), (''port'', True, TInt), (''user'', False, TString), (''use_agent'', True, TBool),
     (''private_key'', True, TString), (''passphrase'', True, TString), (''password'', True, TString),
     (''known_hosts_file'', True, TString), (''host_key_check'', True, TString), (''proxy_jump'', True, TString),
     (''timeout_secs'', True, TInt), (''keepalive_secs'', True, TInt)]"

definition SSHConfig_type :: go_type where
  "SSHConfig_type = TStruct [
     (''hosts'', True, TMap SSHHost_type)]"

definition Config_type :: go_type where
  "Config_type = TStruct [
     (''agent'', False, AgentConfig_type), (''gateway'', False, GatewayConfig_type), (''session'', False, SessionConfig_type),
     (''channels'', False, ChannelsConfig_type), (''memory'', False, MemoryConfig_type), (''browser'', True, BrowserConfig_type),
     (''web_search'', True, WebSearchConfig_type), (''proactive'', True, ProactiveConfig_type),
     (''telemetry'', True, TelemetryConfig_type), (''stt'', True, STTConfig_type), (''approval'', True, ApprovalConfig_type),
     (''security'', True, SecurityConfig_type), (''reasoning'', True, ReasoningConfig_type),
     (''creativity'', True, CreativityConfig_type), (''p2p'', True, P2PConfig_type), (''trust'', True, TrustConfig_type),
     (''oauth'', True, OAuthConfig_type), (''email_poller'', True, EmailPollerConfig_type),
     (''databases'', True, DatabasesConfig_type), (''mqtt'', True, MQTTConfig_type), (''ssh'', True, SSHConfig_type)]"

section \<open>Fields\<close>

fun get_at :: "string list \<Rightarrow> go_type \<Rightarrow> go_value \<Rightarrow> go_value" where
  "get_at [] t v = v"
| "get_at (n # ns) (TStruct fs) (VStruct vs) =
     (case map_of (map (\<lambda>((m, o', t), v). (m, (t, v))) (zip fs vs)) n of
        Some (t, v) \<Rightarrow> get_at ns t v | None \<Rightarrow> VAny JNull)"
| "get_at _ _ _ = VAny JNull"

fun set_at :: "string list \<Rightarrow> go_value \<Rightarrow> go_type \<Rightarrow> go_value \<Rightarrow> go_value" where
  "set_at [] x t v = x"
| "set_at (n # ns) x (TStruct fs) (VStruct vs) =
     VStruct (map (\<lambda>((m, o', t), v). if m = n then set_at ns x t v else v) (zip fs vs))"
| "set_at _ x t v = v"

definition cfg :: "string list \<Rightarrow> go_value \<Rightarrow> go_value" where
  "cfg ns c = get_at ns Config_type c"

fun str_of :: "go_value \<Rightarrow> string" where
  "str_of (VString s) = s"
| "str_of _ = ''''"

fun int_of :: "go_value \<Rightarrow> int" where
  "int_of (VInt i) = i"
| "int_of _ = 0"

fun bool_of :: "go_value \<Rightarrow> bool" where
  "bool_of (VBool b) = b"
| "bool_of _ = False"

fun strings_of :: "go_value \<Rightarrow> string list" where
  "strings_of (VList (Some vs)) = map str_of vs"
| "strings_of _ = []"

section \<open>Defaults, loading and saving\<close>

definition default_settings :: "(string list \<times> go_value) list" where
  "default_settings =
    [([''agent'', ''model''], VString ''anthropic/claude-haiku-4-5''),
    ([''agent'', ''workspace''], VString ''~/.kaggen/workspace''),
    ([''gateway'', ''bind''], VString ''127.0.0.1''),
    ([''gateway'', ''port''], VInt 18789),
    ([''session'', ''backend''], VString ''file''),
    ([''session'', ''app_name''], VString ''kaggen''),
    ([''session'', ''user_id''], VString ''default''),
    ([''session'', ''redis'', ''addr''], VString ''localhost:6379''),
    ([''session'', ''postgres'', ''host''], VString ''localhost''),
    ([''session'', ''postgres'', ''port''], VInt 5432),
    ([''session'', ''postgres'', ''database''], VString ''kaggen''),
    ([''session'', ''postgres'', ''ssl_mode''], VString ''disable'')]"

definition DefaultConfig :: go_value where
  "DefaultConfig = foldl (\<lambda>c (ns, x). set_at ns x Config_type c) (zero_value Config_type) default_settings"

definition config_path :: "string \<Rightarrow> string option \<Rightarrow> fpath" where
  "config_path cwd home = os_path cwd (ExpandPath home ''~/.kaggen/config.json'')"

text \<open>\<open>json.Unmarshal\<close>: a syntax error changes nothing; after an error of types the rest is still read.\<close>

definition json_Unmarshal :: "floats \<Rightarrow> go_type \<Rightarrow> string \<Rightarrow> go_value \<Rightarrow> go_value \<times> string option" where
  "json_Unmarshal cn t s v =
     (case json_parse s of
        None \<Rightarrow> (v, Some ''invalid JSON'')
      | Some j \<Rightarrow> (case json_decode cn t j v of (x, e) \<Rightarrow> (x, if e then Some ''json: cannot unmarshal'' else None)))"

definition Load :: "floats \<Rightarrow> fpath \<Rightarrow> disk \<Rightarrow> string + go_value" where
  "Load cn p d =
     (case os_ReadFile d p of
        NotExist \<Rightarrow> Inr DefaultConfig
      | OsError e \<Rightarrow> Inl e
      | Found s \<Rightarrow> (case json_Unmarshal cn Config_type s DefaultConfig of (c, Some e) \<Rightarrow> Inl e | (c, None) \<Rightarrow> Inr c))"

definition Save :: "fpath \<Rightarrow> go_value \<Rightarrow> disk \<Rightarrow> disk \<times> string option" where
  "Save p c d =
     (case os_MkdirAll (butlast p) d of
        (d1, Some e) \<Rightarrow> (d1, Some e)
      | (d1, None) \<Rightarrow> os_WriteFile p (json_MarshalIndent (json_encode Config_type c)) d1)"


lemma good_config: "good_type Config_type"
  by code_simp

fun type_at :: "string list \<Rightarrow> go_type \<Rightarrow> go_type" where
  "type_at [] t = t"
| "type_at (n # ns) (TStruct fs) =
     (case map_of (map (\<lambda>(m, o', t). (m, t)) fs) n of Some t \<Rightarrow> type_at ns t | None \<Rightarrow> TAny)"
| "type_at _ t = TAny"

lemma set_at_plain: "plain_value v \<Longrightarrow> plain_value x \<Longrightarrow> plain_value (set_at ns x t v)"
proof (induction ns arbitrary: t v)
  case (Cons n ns)
  then show ?case by (cases t; cases v) (auto simp: list_all_iff dest: set_zip_rightD)
qed simp

lemma good_type_field: "good_type (TStruct fs) \<Longrightarrow> (n, o', t) \<in> set fs \<Longrightarrow> good_type t"
  by auto

lemma good_type_unique:
  assumes "good_type (TStruct fs)" and "(n, o', t) \<in> set fs"
  shows "map_of (map (\<lambda>(m, o', t). (m, t)) fs) n = Some t"
proof -
  have "distinct (map to_lower (map fst (map (\<lambda>(m, o', t). (m, t)) fs)))"
    using assms(1) by (simp add: comp_def split_def)
  then have "distinct (map fst (map (\<lambda>(m, o', t). (m, t)) fs))" by (auto simp: distinct_map inj_on_def)
  then show ?thesis using assms(2) by (intro map_of_is_SomeI) force+
qed

lemma set_at_typed:
  "good_type t \<Longrightarrow> typed cn t v \<Longrightarrow> typed cn (type_at ns t) x \<Longrightarrow> typed cn t (set_at ns x t v)"
proof (induction ns arbitrary: t v)
  case (Cons n ns)
  show ?case
  proof (cases "\<exists>fs vs. t = TStruct fs \<and> v = VStruct vs")
    case True
    then obtain fs vs where tv: "t = TStruct fs" "v = VStruct vs" by blast
    have "fst (fs ! i) = n \<longrightarrow> typed cn (snd (snd (fs ! i))) (set_at ns x (snd (snd (fs ! i))) (vs ! i))"
      if i: "i < length fs" "i < length vs" for i
    proof -
      obtain m p u where f: "fs ! i = (m, p, u)" by (cases "fs ! i")
      then have m: "(m, p, u) \<in> set fs" using i(1) nth_mem by metis
      have v: "typed cn u (vs ! i)" using Cons.prems(2) i f by (auto simp: tv list_all2_conv_all_nth)
      have "typed cn u (set_at ns x u (vs ! i))" if "m = n"
      proof (rule Cons.IH)
        show "good_type u" using Cons.prems(1) m by (auto simp: tv)
        show "typed cn (type_at ns u) x" using Cons.prems(3) good_type_unique [OF _ m] Cons.prems(1) that by (simp add: tv)
      qed (rule v)
      with v show ?thesis by (simp add: f)
    qed
    with Cons.prems(2) show ?thesis by (auto simp: tv list_all2_conv_all_nth split_def)
  next
    case False
    then have "set_at (n # ns) x t v = v" by (cases t; cases v) auto
    then show ?thesis using Cons.prems(2) by simp
  qed
qed simp

lemma fold_set_at_typed:
  "good_type t \<Longrightarrow> typed cn t v \<Longrightarrow> \<forall>(ns, x) \<in> set ps. typed cn (type_at ns t) x \<Longrightarrow>
   typed cn t (foldl (\<lambda>c (ns, x). set_at ns x t c) v ps)"
  by (induction ps arbitrary: v) (auto simp: set_at_typed)

lemma fold_set_at_plain:
  "plain_value v \<Longrightarrow> \<forall>(ns, x) \<in> set ps. plain_value x \<Longrightarrow> plain_value (foldl (\<lambda>c (ns, x). set_at ns x t c) v ps)"
  by (induction ps arbitrary: v) (auto simp: set_at_plain)

lemma default_plain: "plain_value DefaultConfig"
  unfolding DefaultConfig_def by (rule fold_set_at_plain [OF zero_plain]) (simp add: default_settings_def)

lemma type_at_agent: "type_at (''agent'' # ns) Config_type = type_at ns AgentConfig_type"
  by (simp add: Config_type_def)

lemma type_at_gateway: "type_at (''gateway'' # ns) Config_type = type_at ns GatewayConfig_type"
  by (simp add: Config_type_def)

lemma type_at_session: "type_at (''session'' # ns) Config_type = type_at ns SessionConfig_type"
  by (simp add: Config_type_def)

lemma default_typed:
  assumes "canonical cn" shows "typed cn Config_type DefaultConfig"
  unfolding DefaultConfig_def
proof (rule fold_set_at_typed [OF good_config zero_typed [OF assms]])
  show "\<forall>(ns, x) \<in> set default_settings. typed cn (type_at ns Config_type) x"
    by (simp add: default_settings_def type_at_agent type_at_gateway type_at_session int64_def del: type_at.simps(2))
      (simp add: AgentConfig_type_def GatewayConfig_type_def SessionConfig_type_def RedisConfig_type_def PGConfig_type_def int64_def)
qed

lemma restore_fields_self:
  "list_all2 (\<lambda>r v. snd r v v = v) rs vs \<Longrightarrow> restore_fields rs vs vs = vs"
  by (induction rs vs rule: list_all2_induct) (auto split: if_splits)

lemma restored_self: "typed cn t v \<Longrightarrow> plain_value v \<Longrightarrow> restored t v v = v"
proof (induction t arbitrary: v)
  case (TStruct fs)
  then obtain vs where vs: "v = VStruct vs" "list_all2 (\<lambda>(n, o', t) v. typed cn t v) fs vs" unfolding typed_struct by blast
  have "list_all2 (\<lambda>r v. snd r v v = v) (map (\<lambda>(n, o', t). (o', restored t)) fs) vs"
  proof (rule list_all2_all_nthI)
    show "length (map (\<lambda>(n, o', t). (o', restored t)) fs) = length vs" using vs(2) by (auto dest: list_all2_lengthD)
    fix i assume i: "i < length (map (\<lambda>(n, o', t). (o', restored t)) fs)"
    obtain n p t where f: "fs ! i = (n, p, t)" by (cases "fs ! i")
    have "(n, p, t) \<in> set fs" using i f nth_mem by (metis length_map)
    moreover have "typed cn t (vs ! i)" "plain_value (vs ! i)"
      using vs i f TStruct.prems(2) by (auto simp: list_all2_conv_all_nth list_all_length)
    ultimately show "snd (map (\<lambda>(n, o', t). (o', restored t)) fs ! i) (vs ! i) (vs ! i) = vs ! i"
      using i f TStruct.IH [of "(n, p, t)" "(p, t)" t "vs ! i"] by auto
  qed
  then show ?case by (simp add: vs(1) restore_fields_self)
qed (auto split: go_value.splits option.splits)

lemma empty_restored: "plain_value z \<Longrightarrow> \<not> empty_value v \<Longrightarrow> \<not> empty_value (restored t v z)"
  by (cases t; cases v; cases z) (auto split: option.splits)

text \<open>Reading back what was read back changes nothing more.\<close>

lemma restore_fields_length:
  "length rs = length vs \<Longrightarrow> length vs = length zs \<Longrightarrow> length (restore_fields rs vs zs) = length zs"
  by (induction rs vs zs rule: restore_fields.induct) auto

lemma restore_fields_nth:
  "length rs = length vs \<Longrightarrow> length vs = length zs \<Longrightarrow> i < length zs \<Longrightarrow>
   restore_fields rs vs zs ! i =
     (if fst (rs ! i) \<and> empty_value (vs ! i) then zs ! i else snd (rs ! i) (vs ! i) (zs ! i))"
  by (induction rs vs zs arbitrary: i rule: restore_fields.induct) (auto simp: nth_Cons split: nat.splits)

lemma restored_again:
  assumes "canonical cn"
  shows "typed cn t v \<Longrightarrow> typed cn t z \<Longrightarrow> plain_value z \<Longrightarrow> restored t (restored t v z) z = restored t v z"
proof (induction t arbitrary: v z)
  case (TList t)
  have "typed cn t x \<Longrightarrow> restored t (restored t x (zero_value t)) (zero_value t) = restored t x (zero_value t)" for x
    using TList.IH zero_typed [OF assms] zero_plain by blast
  with TList.prems(1) show ?case by (auto simp: list_all_iff split: go_value.splits option.splits)
next
  case (TMap t)
  have "typed cn t x \<Longrightarrow> restored t (restored t x (zero_value t)) (zero_value t) = restored t x (zero_value t)" for x
    using TMap.IH zero_typed [OF assms] zero_plain by blast
  with TMap.prems(1) show ?case by (auto simp: list_all_iff split: go_value.splits option.splits)
next
  case (TPtr t)
  have "typed cn t x \<Longrightarrow> restored t (restored t x (zero_value t)) (zero_value t) = restored t x (zero_value t)" for x
    using TPtr.IH zero_typed [OF assms] zero_plain by blast
  with TPtr.prems(1) show ?case by (auto split: go_value.splits option.splits)
next
  case (TStruct fs)
  obtain vs zs where vs: "v = VStruct vs" "z = VStruct zs" "list_all2 (\<lambda>(n, o', t) v. typed cn t v) fs vs"
    "list_all2 (\<lambda>(n, o', t) v. typed cn t v) fs zs" using TStruct.prems(1,2) unfolding typed_struct by blast
  let ?rs = "map (\<lambda>(n, o', t). (o', restored t)) fs"
  have l: "length ?rs = length vs" "length vs = length zs"
    using list_all2_lengthD [OF vs(3)] list_all2_lengthD [OF vs(4)] by simp_all
  have l': "length ?rs = length (restore_fields ?rs vs zs)" "length (restore_fields ?rs vs zs) = length zs"
    using l by (simp_all add: restore_fields_length)
  have "restore_fields ?rs (restore_fields ?rs vs zs) zs = restore_fields ?rs vs zs"
  proof (rule nth_equalityI)
    fix i assume i: "i < length (restore_fields ?rs (restore_fields ?rs vs zs) zs)"
    then have i': "i < length zs" using l' by (simp add: restore_fields_length)
    obtain n p t where f: "fs ! i = (n, p, t)" by (cases "fs ! i")
    have m: "(n, p, t) \<in> set fs" using i' l f nth_mem by (metis length_map)
    have r: "?rs ! i = (p, restored t)" using i' l f by simp
    have t: "typed cn t (vs ! i)" "typed cn t (zs ! i)" "plain_value (zs ! i)"
      using vs i' l f TStruct.prems(3) by (auto simp: list_all2_conv_all_nth list_all_length)
    have IH: "restored t (restored t (vs ! i) (zs ! i)) (zs ! i) = restored t (vs ! i) (zs ! i)"
      using TStruct.IH [of "(n, p, t)" "(p, t)" t] m t by auto
    show "restore_fields ?rs (restore_fields ?rs vs zs) zs ! i = restore_fields ?rs vs zs ! i"
      using IH restored_self [OF t(2,3)] empty_restored [OF t(3), of "vs ! i" t]
      by (cases "empty_value (vs ! i)") (simp_all add: restore_fields_nth [OF l i'] restore_fields_nth [OF l' i'] r)
  qed (simp only: restore_fields_length [OF l'] l'(2))
  then show ?case by (simp add: vs(1,2))
qed auto

lemma Load_typed: "canonical cn \<Longrightarrow> Load cn p d = Inr c \<Longrightarrow> typed cn Config_type c"
  using json_decode_typed [OF _ default_typed, of cn] default_typed [of cn]
  by (auto simp: Load_def json_Unmarshal_def split: os_result.splits option.splits prod.splits if_splits) (metis fst_conv)+

lemma Save_Load:
  assumes "canonical cn" and "tokens cn" and "typed cn Config_type c" and "Save p c d = (d', None)"
  shows "Load cn p d' = Inr (restored Config_type c DefaultConfig)"
proof -
  have "d' p = Some (File (json_MarshalIndent (json_encode Config_type c)))"
    using assms(4) by (auto simp: Save_def os_WriteFile_def abs_write_def split: prod.splits option.splits if_splits)
  moreover have "json_decode cn Config_type (json_encode Config_type c) DefaultConfig = (restored Config_type c DefaultConfig, False)"
    by (rule decode_encode [OF good_config assms(3) default_typed [OF assms(1)] default_plain assms(1)])
  ultimately show ?thesis
    by (simp add: Load_def os_ReadFile_def json_Unmarshal_def parse_printed(1) [OF encode_good [OF assms(2,3)]])
qed

text \<open>A field of a struct after reading back.\<close>

lemma field_index:
  "map_of (map (\<lambda>(m, o', t). (m, (o', t))) fs) n = Some (o', t) \<Longrightarrow>
   \<exists>i < length fs. fs ! i = (n, o', t) \<and>
     (\<forall>xs ns. length xs = length fs \<longrightarrow> get_at (n # ns) (TStruct fs) (VStruct xs) = get_at ns t (xs ! i))"
proof (induction fs)
  case (Cons f fs)
  obtain m p u where f: "f = (m, p, u)" by (cases f)
  show ?case
  proof (cases "m = n")
    case True
    then have "get_at (n # ns) (TStruct (f # fs)) (VStruct xs) = get_at ns t (xs ! 0)" if "length xs = length (f # fs)" for xs ns
      using that Cons.prems by (cases xs) (auto simp: f)
    then show ?thesis using True Cons.prems by (intro exI [of _ 0]) (auto simp: f)
  next
    case False
    then obtain i where i: "i < length fs" "fs ! i = (n, o', t)"
      "\<And>xs ns. length xs = length fs \<Longrightarrow> get_at (n # ns) (TStruct fs) (VStruct xs) = get_at ns t (xs ! i)"
      using Cons by (auto simp: f)
    have "get_at (n # ns) (TStruct (f # fs)) (VStruct xs) = get_at ns t (xs ! Suc i)" if "length xs = length (f # fs)" for xs ns
      using that i(3) [of "tl xs" ns] False by (cases xs) (auto simp: f)
    then show ?thesis using i(1,2) by (intro exI [of _ "Suc i"]) auto
  qed
qed simp

lemma get_restored:
  assumes "list_all2 (\<lambda>(n, o', t) v. typed cn t v) fs vs" and "list_all2 (\<lambda>(n, o', t) v. typed cn t v) fs zs"
    and "map_of (map (\<lambda>(m, o', t). (m, (o', t))) fs) n = Some (o', t)"
  obtains v z where "typed cn t v" "typed cn t z"
     "\<And>ns. get_at (n # ns) (TStruct fs) (VStruct vs) = get_at ns t v"
     "\<And>ns. get_at (n # ns) (TStruct fs) (VStruct zs) = get_at ns t z"
     "\<And>ns. get_at (n # ns) (TStruct fs) (restored (TStruct fs) (VStruct vs) (VStruct zs)) =
        get_at ns t (if o' \<and> empty_value v then z else restored t v z)"
proof -
  obtain i where i: "i < length fs" "fs ! i = (n, o', t)"
    "\<And>xs ns. length xs = length fs \<Longrightarrow> get_at (n # ns) (TStruct fs) (VStruct xs) = get_at ns t (xs ! i)"
    using field_index [OF assms(3)] by auto
  let ?rs = "map (\<lambda>(n, o', t). (o', restored t)) fs"
  have l: "length vs = length fs" "length zs = length fs" using assms(1,2) by (auto dest: list_all2_lengthD)
  have l': "length ?rs = length vs" "length vs = length zs" "i < length zs" using l i(1) by simp_all
  have lr: "length (restore_fields ?rs vs zs) = length fs" using restore_fields_length [OF l'(1,2)] l(2) by simp
  have r: "restore_fields ?rs vs zs ! i = (if o' \<and> empty_value (vs ! i) then zs ! i else restored t (vs ! i) (zs ! i))"
    using restore_fields_nth [OF l'] i(1,2) by simp
  have "typed cn t (vs ! i)" "typed cn t (zs ! i)"
    using assms(1,2) i(1,2) by (auto simp: list_all2_conv_all_nth)
  moreover have "restored (TStruct fs) (VStruct vs) (VStruct zs) = VStruct (restore_fields ?rs vs zs)" by simp
  ultimately show ?thesis using that i(3) l lr r by presburger
qed

lemma session_member:
  "case Config_type of
     TStruct fs \<Rightarrow> map_of (map (\<lambda>(m, o', t). (m, (o', t))) fs) ''session'' = Some (False, SessionConfig_type)
   | _ \<Rightarrow> False"
  by (simp add: Config_type_def)

text \<open>The names of the session settings: an empty one is not written, so the default comes back.\<close>

lemma session_field_restored:
  assumes "canonical cn" and "typed cn Config_type c"
    and "case SessionConfig_type of
           TStruct fs \<Rightarrow> map_of (map (\<lambda>(m, o', t). (m, (o', t))) fs) n = Some (True, TString) | _ \<Rightarrow> False"
  shows "cfg [''session'', n] (restored Config_type c DefaultConfig) =
    (if cfg [''session'', n] c = VString '''' then cfg [''session'', n] DefaultConfig else cfg [''session'', n] c)"
proof -
  obtain fs where fs: "Config_type = TStruct fs" by (simp add: Config_type_def)
  obtain gs where gs: "SessionConfig_type = TStruct gs" by (simp add: SessionConfig_type_def)
  obtain vs zs where vs: "c = VStruct vs" "DefaultConfig = VStruct zs" "list_all2 (\<lambda>(n, o', t) v. typed cn t v) fs vs"
    "list_all2 (\<lambda>(n, o', t) v. typed cn t v) fs zs"
    using assms(2) default_typed [OF assms(1)] unfolding fs typed_struct by blast
  have "map_of (map (\<lambda>(m, o', t). (m, (o', t))) fs) ''session'' = Some (False, SessionConfig_type)"
    using session_member by (simp add: fs)
  note session = get_restored [OF vs(3,4) this, folded fs vs(1,2), folded cfg_def]
  obtain s z where s: "typed cn SessionConfig_type s" "typed cn SessionConfig_type z"
    "\<And>ns. cfg (''session'' # ns) c = get_at ns SessionConfig_type s" "\<And>ns. cfg (''session'' # ns) DefaultConfig = get_at ns SessionConfig_type z"
    "\<And>ns. cfg (''session'' # ns) (restored Config_type c DefaultConfig) =
       get_at ns SessionConfig_type (if False \<and> empty_value s then z else restored SessionConfig_type s z)"
    by (rule session) (rule that; assumption)
  obtain us ws where us: "s = VStruct us" "z = VStruct ws" "list_all2 (\<lambda>(n, o', t) v. typed cn t v) gs us"
    "list_all2 (\<lambda>(n, o', t) v. typed cn t v) gs ws"
    using s(1,2) unfolding gs typed_struct by blast
  from assms(3) have "map_of (map (\<lambda>(m, o', t). (m, (o', t))) gs) n = Some (True, TString)" by (simp add: gs)
  note leaf = get_restored [OF us(3,4) this, folded gs us(1,2)]
  obtain v w where v: "typed cn TString v"
    "\<And>ns. get_at (n # ns) SessionConfig_type s = get_at ns TString v"
    "\<And>ns. get_at (n # ns) SessionConfig_type z = get_at ns TString w"
    "\<And>ns. get_at (n # ns) SessionConfig_type (restored SessionConfig_type s z) =
       get_at ns TString (if True \<and> empty_value v then w else restored TString v w)"
    by (rule leaf) (rule that; assumption)
  show ?thesis using v(1) by (cases v) (simp_all add: s(3-5) v(2-4))
qed

lemma session_defaults:
  "cfg [''session'', ''app_name''] DefaultConfig = VString ''kaggen''"
  "cfg [''session'', ''user_id''] DefaultConfig = VString ''default''"
  by code_simp+

section \<open>The values the rest of the program asks for\<close>

text \<open>Paths and defaults; \<open>path_or\<close> is the pattern of most of the accessors.\<close>

definition path_or :: "string option \<Rightarrow> string list \<Rightarrow> string \<Rightarrow> go_value \<Rightarrow> string" where
  "path_or home ns dflt c = (if str_of (cfg ns c) \<noteq> '''' then ExpandPath home (str_of (cfg ns c)) else ExpandPath home dflt)"

definition TokenFilePath :: "string option \<Rightarrow> go_value \<Rightarrow> string" where
  "TokenFilePath home = path_or home [''security'', ''auth'', ''token_file''] ''~/.kaggen/tokens.json''"

definition OAuthTokenDBPath :: "string option \<Rightarrow> go_value \<Rightarrow> string" where
  "OAuthTokenDBPath home = path_or home [''oauth'', ''token_db_path''] ''~/.kaggen/oauth_tokens.db''"

definition WhatsAppSessionDBPath :: "string option \<Rightarrow> go_value \<Rightarrow> string" where
  "WhatsAppSessionDBPath home = path_or home [''channels'', ''whatsapp'', ''session_db_path''] ''~/.kaggen/whatsapp.db''"

definition MemoryDBPath :: "string option \<Rightarrow> go_value \<Rightarrow> string" where
  "MemoryDBPath home = path_or home [''memory'', ''search'', ''db_path''] ''~/.kaggen/memory.db''"

definition ProactiveDBPath :: "string option \<Rightarrow> go_value \<Rightarrow> string" where
  "ProactiveDBPath home = path_or home [''proactive'', ''history_db_path''] ''~/.kaggen/proactive.db''"

definition AuditDBPath :: "string option \<Rightarrow> go_value \<Rightarrow> string" where
  "AuditDBPath home = path_or home [''approval'', ''audit_db_path''] ''~/.kaggen/audit.db''"

definition P2PIdentityPath :: "string option \<Rightarrow> go_value \<Rightarrow> string" where
  "P2PIdentityPath home = path_or home [''p2p'', ''identity_path''] ''~/.kaggen/p2p/identity.key''"

definition WorkspacePath :: "string option \<Rightarrow> go_value \<Rightarrow> string" where
  "WorkspacePath home c = ExpandPath home (str_of (cfg [''agent'', ''workspace''] c))"

definition SessionsPath :: "string option \<Rightarrow> string" where
  "SessionsPath home = ExpandPath home ''~/.kaggen/sessions''"

definition BacklogDBPath :: "string option \<Rightarrow> string" where
  "BacklogDBPath home = ExpandPath home ''~/.kaggen/backlog.db''"

definition AttachmentsPath :: "string option \<Rightarrow> string" where
  "AttachmentsPath home = ExpandPath home ''~/.kaggen/attachments''"

definition OAuthCallbackPath :: "go_value \<Rightarrow> string" where
  "OAuthCallbackPath c =
     (if str_of (cfg [''oauth'', ''callback_path''] c) \<noteq> '''' then str_of (cfg [''oauth'', ''callback_path''] c)
      else ''/api/oauth/callback'')"

definition EmailPollerInterval :: "go_value \<Rightarrow> string" where
  "EmailPollerInterval c =
     (if str_of (cfg [''email_poller'', ''interval''] c) \<noteq> '''' then str_of (cfg [''email_poller'', ''interval''] c) else ''5m'')"

definition EmailPollerFolders :: "go_value \<Rightarrow> string list" where
  "EmailPollerFolders c =
     (if strings_of (cfg [''email_poller'', ''folders''] c) \<noteq> [] then strings_of (cfg [''email_poller'', ''folders''] c)
      else [''INBOX''])"

type_synonym environ = "string \<Rightarrow> string"

definition TelegramBotToken :: "environ \<Rightarrow> go_value \<Rightarrow> string" where
  "TelegramBotToken getenv c =
     (if str_of (cfg [''channels'', ''telegram'', ''bot_token''] c) \<noteq> ''''
      then str_of (cfg [''channels'', ''telegram'', ''bot_token''] c) else getenv ''TELEGRAM_BOT_TOKEN'')"

definition PubSubProjectID :: "environ \<Rightarrow> go_value \<Rightarrow> string" where
  "PubSubProjectID getenv c =
     (if str_of (cfg [''gateway'', ''pubsub'', ''project_id''] c) \<noteq> ''''
      then str_of (cfg [''gateway'', ''pubsub'', ''project_id''] c) else getenv ''GOOGLE_CLOUD_PROJECT'')"

definition WhatsAppDeviceName :: "(fpath \<Rightarrow> string os_result) \<Rightarrow> string \<Rightarrow> string option \<Rightarrow> go_value \<Rightarrow> string" where
  "WhatsAppDeviceName read cwd home c =
     (let name = str_of (cfg [''channels'', ''whatsapp'', ''device_name''] c);
          bot = (case read (os_path cwd (filepath_Clean (WorkspacePath home c @ ''/IDENTITY.md''))) of
                   Found s \<Rightarrow>
                     (case filter (\<lambda>l. has_prefix l ''**Name:**'') (map trim_space (split_on (CHR 0x0A) s)) of
                        l # _ \<Rightarrow> trim_space (trim_prefix l ''**Name:**'') | [] \<Rightarrow> '''')
                 | _ \<Rightarrow> '''')
      in if name \<noteq> '''' then name else if bot \<noteq> '''' then bot @ '' Bot'' else ''Kaggen Bot'')"

definition ReasoningTier2Model :: "string \<Rightarrow> go_value \<Rightarrow> string" where
  "ReasoningTier2Model coordinatorModel c =
     (let m = str_of (cfg [''reasoning'', ''tier2_model''] c) in
      if m \<noteq> '''' then m
      else if has_prefix coordinatorModel ''gemini/'' then ''gemini/gemini-2.5-pro-preview-06-05''
      else if has_prefix coordinatorModel ''zai/'' then ''zai/glm-4.7''
      else ''anthropic/claude-opus-4-5-20251101'')"

definition positive_or :: "string list \<Rightarrow> int \<Rightarrow> go_value \<Rightarrow> int" where
  "positive_or ns dflt c = (if 0 < int_of (cfg ns c) then int_of (cfg ns c) else dflt)"

definition ReasoningMaxSubtasks :: "go_value \<Rightarrow> int" where
  "ReasoningMaxSubtasks = positive_or [''reasoning'', ''max_subtasks_trigger''] 5"

definition ReasoningMaxTokens :: "go_value \<Rightarrow> int" where
  "ReasoningMaxTokens = positive_or [''reasoning'', ''max_tokens''] 8192"

definition ContextToolOutputMaxChars :: "go_value \<Rightarrow> int" where
  "ContextToolOutputMaxChars = positive_or [''agent'', ''tool_output_max_chars''] 8000"

text \<open>A float64 is its text; the order of two such numbers is a parameter.\<close>

definition float_text :: "go_value \<Rightarrow> string" where
  "float_text v = (case v of VFloat s \<Rightarrow> s | _ \<Rightarrow> ''0'')"

definition ReasoningThreshold :: "(string \<Rightarrow> string \<Rightarrow> bool) \<Rightarrow> go_value \<Rightarrow> string" where
  "ReasoningThreshold lt c =
     (let t = float_text (cfg [''reasoning'', ''escalation_threshold''] c)
      in if lt ''0'' t \<and> \<not> lt ''1'' t then t else ''0.5'')"

definition ContextTokenSafetyMargin :: "(string \<Rightarrow> string \<Rightarrow> bool) \<Rightarrow> go_value \<Rightarrow> string" where
  "ContextTokenSafetyMargin lt c =
     (let t = float_text (cfg [''agent'', ''token_safety_margin''] c)
      in if lt ''0'' t \<and> lt t ''1'' then t else ''0.1'')"

definition ContextPruneEnabled :: "go_value \<Rightarrow> bool" where
  "ContextPruneEnabled c \<longleftrightarrow>
     0 < int_of (cfg [''agent'', ''max_input_tokens''] c) \<or> bool_of (cfg [''agent'', ''enable_context_prune''] c)"

definition DefaultAutoEscalateKeywords :: "string list" where
  "DefaultAutoEscalateKeywords =
     [''design'', ''architect'', ''evaluate'', ''analyze'', ''compare'', ''trade-off'', ''tradeoff'',
      ''strategic'', ''thoroughly'', ''comprehensively'']"

definition ReasoningKeywords :: "go_value \<Rightarrow> string list" where
  "ReasoningKeywords c =
     (let ks = strings_of (cfg [''reasoning'', ''auto_escalate_keywords''] c)
      in if ks \<noteq> [] then ks else DefaultAutoEscalateKeywords)"

section \<open>Named connections\<close>

definition entries_of :: "go_value \<Rightarrow> (string \<times> go_value) list" where
  "entries_of v = (case v of VMap (Some es) \<Rightarrow> es | _ \<Rightarrow> [])"

definition GetDatabaseConnection :: "string \<Rightarrow> go_value \<Rightarrow> go_value \<times> bool" where
  "GetDatabaseConnection name c =
     (case map_of (entries_of (cfg [''databases'', ''connections''] c)) name of
        Some x \<Rightarrow> (x, True) | None \<Rightarrow> (zero_value DatabaseConnection_type, False))"

definition DatabaseConnectionNames :: "go_value \<Rightarrow> string list" where
  "DatabaseConnectionNames c = map fst (entries_of (cfg [''databases'', ''connections''] c))"

definition GetMQTTBroker :: "string \<Rightarrow> go_value \<Rightarrow> go_value \<times> bool" where
  "GetMQTTBroker name c =
     (case map_of (entries_of (cfg [''mqtt'', ''brokers''] c)) name of
        Some x \<Rightarrow> (x, True) | None \<Rightarrow> (zero_value MQTTBroker_type, False))"

definition MQTTBrokerNames :: "go_value \<Rightarrow> string list" where
  "MQTTBrokerNames c = map fst (entries_of (cfg [''mqtt'', ''brokers''] c))"

definition GetSSHHost :: "string \<Rightarrow> go_value \<Rightarrow> go_value \<times> bool" where
  "GetSSHHost name c =
     (case map_of (entries_of (cfg [''ssh'', ''hosts''] c)) name of
        Some x \<Rightarrow> (x, True) | None \<Rightarrow> (zero_value SSHHost_type, False))"

definition SSHHostNames :: "go_value \<Rightarrow> string list" where
  "SSHHostNames c = map fst (entries_of (cfg [''ssh'', ''hosts''] c))"

section \<open>OAuth providers\<close>

record known_provider =
  kpAuthURL :: string
  kpTokenURL :: string
  kpPKCE :: bool
  kpAuthParams :: "(string \<times> string) list"
  kpSMTP :: "go_value option"
  kpIMAP :: "go_value option"
  kpCalDAV :: "go_value option"
  kpCardDAV :: "go_value option"

text \<open>Host, port, implicit TLS, STARTTLS; and the URL of a DAV server.\<close>

definition email_server :: "string \<Rightarrow> int \<Rightarrow> bool \<Rightarrow> bool \<Rightarrow> go_value option" where
  "email_server host port tls starttls = Some (VStruct [VString host, VInt port, VBool tls, VBool starttls])"

definition dav_server :: "string \<Rightarrow> go_value option" where
  "dav_server url = Some (VStruct [VString url, VString ''''])"

definition knownOAuthProviders :: "(string \<times> known_provider) list" where
  "knownOAuthProviders =
    [(''google'',
      \<lparr>kpAuthURL = ''https://accounts.google.com/o/oauth2/v2/auth'', kpTokenURL = ''https://oauth2.googleapis.com/token'',
       kpPKCE = True, kpAuthParams = [(''access_type'', ''offline''), (''prompt'', ''consent'')],
       kpSMTP = email_server ''smtp.gmail.com'' 587 False True, kpIMAP = email_server ''imap.gmail.com'' 993 True False,
       kpCalDAV = dav_server ''https://apidata.googleusercontent.com/caldav/v2'',
       kpCardDAV = dav_server ''https://www.googleapis.com/.well-known/carddav''\<rparr>),
     (''github'',
      \<lparr>kpAuthURL = ''https://github.com/login/oauth/authorize'', kpTokenURL = ''https://github.com/login/oauth/access_token'',
       kpPKCE = False, kpAuthParams = [], kpSMTP = None, kpIMAP = None, kpCalDAV = None, kpCardDAV = None\<rparr>),
     (''microsoft'',
      \<lparr>kpAuthURL = ''https://login.microsoftonline.com/common/oauth2/v2.0/authorize'',
       kpTokenURL = ''https://login.microsoftonline.com/common/oauth2/v2.0/token'',
       kpPKCE = True, kpAuthParams = [],
       kpSMTP = email_server ''smtp.office365.com'' 587 False True, kpIMAP = email_server ''outlook.office365.com'' 993 True False,
       kpCalDAV = dav_server ''https://outlook.office365.com/caldav'',
       kpCardDAV = dav_server ''https://outlook.office365.com/carddav''\<rparr>),
     (''icloud'',
      \<lparr>kpAuthURL = ''https://appleid.apple.com/auth/authorize'', kpTokenURL = ''https://appleid.apple.com/auth/token'',
       kpPKCE = True, kpAuthParams = [], kpSMTP = None, kpIMAP = None,
       kpCalDAV = dav_server ''https://caldav.icloud.com'', kpCardDAV = dav_server ''https://contacts.icloud.com''\<rparr>),
     (''fastmail'',
      \<lparr>kpAuthURL = '''', kpTokenURL = '''', kpPKCE = False, kpAuthParams = [], kpSMTP = None, kpIMAP = None,
       kpCalDAV = dav_server ''https://caldav.fastmail.com/dav/calendars'',
       kpCardDAV = dav_server ''https://carddav.fastmail.com/dav/addressbooks''\<rparr>)]"

text \<open>The parameters are merged into the map of the stored provider when it has one, so the stored
  configuration changes too; the first component is the configuration after the call.\<close>

definition provider_get :: "string \<Rightarrow> go_value \<Rightarrow> go_value" where
  "provider_get n p = get_at [n] OAuthProvider_type p"

definition provider_set :: "string \<Rightarrow> go_value \<Rightarrow> go_value \<Rightarrow> go_value" where
  "provider_set n x p = set_at [n] x OAuthProvider_type p"

definition string_or :: "string \<Rightarrow> string \<Rightarrow> go_value \<Rightarrow> go_value" where
  "string_or n dflt p = (if provider_get n p = VString '''' then provider_set n (VString dflt) p else p)"

definition server_or :: "string \<Rightarrow> go_value option \<Rightarrow> go_value \<Rightarrow> go_value" where
  "server_or n dflt p = (if provider_get n p = VPtr None \<and> dflt \<noteq> None then provider_set n (VPtr dflt) p else p)"

definition merge_params :: "(string \<times> string) list \<Rightarrow> (string \<times> go_value) list \<Rightarrow> (string \<times> go_value) list" where
  "merge_params known es =
     foldl (\<lambda>es (k, v). if map_of es k = None then AList.update k (VString v) es else es) es known"

definition fill_provider :: "known_provider \<Rightarrow> go_value \<Rightarrow> go_value" where
  "fill_provider k p =
     (let p1 = string_or ''token_url'' (kpTokenURL k) (string_or ''auth_url'' (kpAuthURL k) p);
          p2 = (if kpPKCE k then provider_set ''pkce'' (VBool True) p1 else p1);
          p3 = server_or ''imap'' (kpIMAP k) (server_or ''smtp'' (kpSMTP k) p2);
          p4 = server_or ''carddav'' (kpCardDAV k) (server_or ''caldav'' (kpCalDAV k) p3)
      in if kpAuthParams k \<noteq> []
         then provider_set ''auth_params'' (VMap (Some (merge_params (kpAuthParams k) (entries_of (provider_get ''auth_params'' p4))))) p4
         else p4)"

definition GetOAuthProvider :: "string \<Rightarrow> go_value \<Rightarrow> go_value \<times> go_value \<times> bool" where
  "GetOAuthProvider name c =
     (let providers = entries_of (cfg [''oauth'', ''providers''] c) in
      case map_of providers name of
        None \<Rightarrow> (c, zero_value OAuthProvider_type, False)
      | Some p \<Rightarrow>
          (case map_of knownOAuthProviders name of
             None \<Rightarrow> (c, p, True)
           | Some k \<Rightarrow>
               (let shared = (kpAuthParams k \<noteq> [] \<and> provider_get ''auth_params'' p \<noteq> VMap None);
                    stored = provider_set ''auth_params''
                      (VMap (Some (merge_params (kpAuthParams k) (entries_of (provider_get ''auth_params'' p))))) p
                in (if shared then set_at [''oauth'', ''providers''] (VMap (Some (AList.update name stored providers))) Config_type c else c,
                    fill_provider k p, True))))"

section \<open>Secret references\<close>

type_synonym secret_resolver = "string \<Rightarrow> string + string"

definition resolveSecretFromStore :: "secret_resolver option \<Rightarrow> string \<Rightarrow> string + string" where
  "resolveSecretFromStore resolver key = (case resolver of None \<Rightarrow> Inr '''' | Some r \<Rightarrow> r key)"

definition ResolveSecret :: "secret_resolver option \<Rightarrow> string \<Rightarrow> string" where
  "ResolveSecret resolver value =
     (if \<not> has_prefix value ''secret:'' then value
      else if trim_prefix value ''secret:'' = '''' then value
      else (case resolveSecretFromStore resolver (trim_prefix value ''secret:'') of Inl e \<Rightarrow> value | Inr s \<Rightarrow> s))"

section \<open>Allowed origins\<close>

definition DefaultAllowedOrigins :: "string list" where
  "DefaultAllowedOrigins = [''http://localhost'', ''https://localhost'', ''http://127.0.0.1'', ''https://127.0.0.1'']"

text \<open>The addresses of the machine are a parameter.\<close>

definition GetAllowedOrigins :: "string list \<Rightarrow> go_value \<Rightarrow> string list" where
  "GetAllowedOrigins ips c =
     (let own = strings_of (cfg [''gateway'', ''allowed_origins''] c);
          bind0 = str_of (cfg [''gateway'', ''bind''] c);
          bind = (if bind0 = '''' then ''127.0.0.1'' else bind0);
          both = (\<lambda>h. [''http://'' @ h, ''https://'' @ h])
      in if own \<noteq> [] then own
         else if bind = ''127.0.0.1'' \<or> bind = ''localhost'' then DefaultAllowedOrigins
         else if bind = ''0.0.0.0'' \<or> bind = ''::'' then DefaultAllowedOrigins @ concat (map both ips)
         else DefaultAllowedOrigins @ both bind)"

section \<open>What the accessors keep\<close>

lemma merge_params_keeps: "map_of es k = Some v \<Longrightarrow> map_of (merge_params known es) k = Some v"
proof (induction known arbitrary: es)
  case (Cons a known)
  have "map_of (if map_of es (fst a) = None then AList.update (fst a) (VString (snd a)) es else es) k = Some v"
    using Cons.prems by (auto simp: update_conv)
  from Cons.IH [OF this] show ?case by (simp add: merge_params_def split_def)
qed (simp add: merge_params_def)

lemma merge_params_adds:
  "(k, v) \<in> set known \<Longrightarrow> map_of es k = None \<Longrightarrow> distinct (map fst known) \<Longrightarrow>
   map_of (merge_params known es) k = Some (VString v)"
proof (induction known arbitrary: es)
  case (Cons a known)
  obtain m w where a: "a = (m, w)" by (cases a)
  show ?case
  proof (cases "m = k")
    case True
    then have "w = v" using Cons.prems(1,3) by (force simp: a)
    then have "map_of (AList.update k (VString v) es) k = Some (VString v)" by (simp add: update_conv)
    from merge_params_keeps [OF this, of known] show ?thesis using True \<open>w = v\<close> Cons.prems(2)
      by (simp add: a merge_params_def)
  next
    case False
    with Cons.prems have "map_of (if map_of es m = None then AList.update m (VString w) es else es) k = None" "(k, v) \<in> set known"
      by (auto simp: a update_conv)
    with Cons.IH Cons.prems(3) show ?thesis by (simp add: a merge_params_def)
  qed
qed simp

text \<open>Without a resolver every reference becomes the empty text.\<close>

lemma resolve_unregistered:
  "has_prefix v ''secret:'' \<Longrightarrow> v \<noteq> ''secret:'' \<Longrightarrow> ResolveSecret None v = ''''"
  by (auto simp: ResolveSecret_def resolveSecretFromStore_def trim_prefix_def has_prefix_def prefix_def)

section \<open>Properties\<close>

text \<open>A configuration that \<open>Load\<close> returns has the types of the structs in every field, whatever the
  file holds: integers in 64 bits, lists and maps of elements of their types, maps without a
  key twice.  A file that does not fit is an error instead.
\<close>

theorem load_typed:
  assumes "canonical cn" and "Load cn p d = Inr c"
  shows "typed cn Config_type c"
  by (rule Load_typed [OF assms])

theorem load_typed_witness:
  "\<exists>c. Load token_floats [''c''] [[] \<mapsto> Dir] = Inr c \<and> typed token_floats Config_type c"
proof -
  have "Load token_floats [''c''] [[] \<mapsto> Dir] = Inr DefaultConfig"
    by (simp add: Load_def os_ReadFile_def through_file_def)
  with load_typed [OF token_floats(1) this] show ?thesis by blast
qed

text \<open>C34. Saving a configuration and loading it gives the configuration again, where the empty fields marked
  \<open>omitempty\<close> take the values of the defaults; saving and loading once more changes nothing.  So an
  emptied application name or user of the session becomes kaggen or default again.
\<close>

theorem save_then_load:
  assumes "canonical cn" and "tokens cn" and "typed cn Config_type c" and "Save p c d = (d', None)"
  shows "\<exists>c'. Load cn p d' = Inr c' \<and> c' = restored Config_type c DefaultConfig \<and>
    typed cn Config_type c' \<and> restored Config_type c' DefaultConfig = c' \<and>
    (\<forall>n \<in> {''app_name'', ''user_id''}. cfg [''session'', n] c' =
       (if cfg [''session'', n] c = VString '''' then cfg [''session'', n] DefaultConfig else cfg [''session'', n] c)) \<and>
    cfg [''session'', ''app_name''] DefaultConfig = VString ''kaggen'' \<and>
    cfg [''session'', ''user_id''] DefaultConfig = VString ''default''"
proof (intro exI conjI)
  show l: "Load cn p d' = Inr (restored Config_type c DefaultConfig)" by (rule Save_Load [OF assms])
  show "typed cn Config_type (restored Config_type c DefaultConfig)" by (rule Load_typed [OF assms(1) l])
  show "restored Config_type (restored Config_type c DefaultConfig) DefaultConfig = restored Config_type c DefaultConfig"
    by (rule restored_again [OF assms(1,3) default_typed [OF assms(1)] default_plain])
  show "\<forall>n \<in> {''app_name'', ''user_id''}. cfg [''session'', n] (restored Config_type c DefaultConfig) =
       (if cfg [''session'', n] c = VString '''' then cfg [''session'', n] DefaultConfig else cfg [''session'', n] c)"
    by (intro ballI session_field_restored [OF assms(1,3)]) (auto simp: SessionConfig_type_def)
qed (simp_all add: session_defaults)

text \<open>The default configuration with the name of the application emptied.\<close>

definition nameless :: go_value where
  "nameless = set_at [''session'', ''app_name''] (VString '''') Config_type DefaultConfig"

theorem save_then_load_witness:
  "\<exists>d' c'. Save [''home'', ''config.json''] nameless [[] \<mapsto> Dir] = (d', None) \<and>
     Load token_floats [''home'', ''config.json''] d' = Inr c' \<and>
     cfg [''session'', ''app_name''] nameless = VString '''' \<and> cfg [''session'', ''app_name''] c' = VString ''kaggen''"
proof -
  have "typed token_floats (type_at [''session'', ''app_name''] Config_type) (VString '''')"
    by (simp add: type_at_session) (simp add: SessionConfig_type_def)
  then have t: "typed token_floats Config_type nameless"
    unfolding nameless_def by (rule set_at_typed [OF good_config default_typed [OF token_floats(1)]])
  have n: "cfg [''session'', ''app_name''] nameless = VString ''''" by code_simp
  have "\<exists>d'. Save [''home'', ''config.json''] nameless [[] \<mapsto> Dir] = (d', None)"
    by (simp add: Save_def os_MkdirAll_def mkdir_blocked_def os_WriteFile_def abs_write_def prefix_def)
  then obtain d' where "Save [''home'', ''config.json''] nameless [[] \<mapsto> Dir] = (d', None)" by blast
  from this save_then_load [OF token_floats t this] n show ?thesis by auto
qed

end
