(* ===== verification/GoBytes.thy ===== *)
theory GoBytes
  imports GoJson
begin

text \<open>
  \<open>encoding/base64\<close> in the standard and the URL alphabet with padding, and \<open>encoding/hex\<close>.  A byte
  slice is a string.
\<close>

section \<open>Base64\<close>

definition b64_char :: "bool \<Rightarrow> nat \<Rightarrow> char" where
  "b64_char url n =
     (if n < 26 then char_of (65 + n) else if n < 52 then char_of (71 + n)
      else if n < 62 then char_of (n - 4) else if n = 62 then char_of (if url then 45 :: nat else 43)
      else char_of (if url then 95 :: nat else 47))"

definition b64_value :: "bool \<Rightarrow> char \<Rightarrow> nat option" where
  "b64_value url c =
     (let n = of_char c in
      if 65 \<le> n \<and> n \<le> 90 then Some (n - 65) else if 97 \<le> n \<and> n \<le> 122 then Some (n - 71)
      else if 48 \<le> n \<and> n \<le> 57 then Some (n + 4)
      else if n = (if url then 45 else 43) then Some 62
      else if n = (if url then 95 else 47) then Some 63 else None)"

fun b64_encode :: "bool \<Rightarrow> string \<Rightarrow> string" where
  "b64_encode url (a # b # c # s) =
     (let n = of_char a * 65536 + of_char b * 256 + of_char c in
      map (b64_char url) [n div 262144, n div 4096 mod 64, n div 64 mod 64, n mod 64] @ b64_encode url s)"
| "b64_encode url [a, b] =
     (let n = of_char a * 65536 + of_char b * 256 in
      map (b64_char url) [n div 262144, n div 4096 mod 64, n div 64 mod 64] @ ''='')"
| "b64_encode url [a] =
     (let n = of_char a * 65536 in map (b64_char url) [n div 262144, n div 4096 mod 64] @ ''=='')"
| "b64_encode url [] = []"

text \<open>The decoder skips line ends; padding ends the text, and the bits it leaves over are ignored.\<close>

fun b64_groups :: "bool \<Rightarrow> string \<Rightarrow> string option" where
  "b64_groups url [] = Some []"
| "b64_groups url (a # b # c # d # s) =
     (case (b64_value url a, b64_value url b) of
        (Some w, Some x) \<Rightarrow>
          if c = CHR ''='' then
            (if d = CHR ''='' \<and> s = [] then Some [char_of ((w * 64 + x) div 16)] else None)
          else (case b64_value url c of
            None \<Rightarrow> None
          | Some y \<Rightarrow>
              if d = CHR ''='' then
                (if s = [] then (let n = (w * 64 + x) * 64 + y in Some [char_of (n div 1024), char_of (n div 4 mod 256)]) else None)
              else (case (b64_value url d, b64_groups url s) of
                (Some z, Some t) \<Rightarrow>
                  (let n = ((w * 64 + x) * 64 + y) * 64 + z
                   in Some (char_of (n div 65536) # char_of (n div 256 mod 256) # char_of (n mod 256) # t))
              | _ \<Rightarrow> None))
      | _ \<Rightarrow> None)"
| "b64_groups url _ = None"

definition b64_decode :: "bool \<Rightarrow> string \<Rightarrow> string option" where
  "b64_decode url s = b64_groups url (filter (\<lambda>c. c \<noteq> char_of (10 :: nat) \<and> c \<noteq> char_of (13 :: nat)) s)"

section \<open>Hexadecimal digits\<close>

fun hex_encode :: "string \<Rightarrow> string" where
  "hex_encode [] = []"
| "hex_encode (c # s) = hex_digit (of_char c div 16) # hex_digit (of_char c mod 16) # hex_encode s"

fun hex_decode :: "string \<Rightarrow> string option" where
  "hex_decode [] = Some []"
| "hex_decode (a # b # s) =
     (case (hex_value a, hex_value b, hex_decode s) of
        (Some x, Some y, Some t) \<Rightarrow> Some (char_of (16 * x + y) # t)
      | _ \<Rightarrow> None)"
| "hex_decode [a] = None"

section \<open>Decoding what was encoded\<close>

lemma b64_value_char [simp]: "n < 64 \<Longrightarrow> b64_value url (b64_char url n) = Some n"
  by (simp add: b64_value_def b64_char_def Let_def) linarith?

lemma b64_char_other:
  assumes "n < 64"
  shows "b64_char url n \<noteq> char_of (10 :: nat)" "b64_char url n \<noteq> char_of (13 :: nat)" "b64_char url n \<noteq> CHR ''=''"
proof -
  have "b64_value url (char_of (10 :: nat)) = None" "b64_value url (char_of (13 :: nat)) = None" "b64_value url (CHR ''='') = None"
    by (simp_all add: b64_value_def)
  with b64_value_char [OF assms, of url]
  show "b64_char url n \<noteq> char_of (10 :: nat)" "b64_char url n \<noteq> char_of (13 :: nat)" "b64_char url n \<noteq> CHR ''=''"
    by (metis option.distinct(1))+
qed

lemma byte_below [simp]: "(of_char c :: nat) < 256"
  using of_char_mod_256 [where 'a = nat, of c] by (metis mod_less_divisor zero_less_numeral)

lemma div_steps:
  "(n :: nat) div 65536 = n div 256 div 256" "n div 262144 = n div 4096 div 64" "n div 4096 = n div 64 div 64"
  by (simp_all add: div_mult2_eq [symmetric])

lemma sextets:
  assumes "n < 16777216"
  shows "((n div 262144 * 64 + n div 4096 mod 64) * 64 + n div 64 mod 64) * 64 + n mod 64 = (n :: nat)"
    "(n div 262144 * 64 + n div 4096 mod 64) * 64 + n div 64 mod 64 = n div 64"
    "n div 262144 * 64 + n div 4096 mod 64 = n div 4096" "n div 262144 < 64"
proof -
  show a: "n div 262144 * 64 + n div 4096 mod 64 = n div 4096" unfolding div_steps(2) by (rule div_mult_mod_eq)
  show b: "(n div 262144 * 64 + n div 4096 mod 64) * 64 + n div 64 mod 64 = n div 64"
    unfolding a unfolding div_steps(3) by (rule div_mult_mod_eq)
  show "((n div 262144 * 64 + n div 4096 mod 64) * 64 + n div 64 mod 64) * 64 + n mod 64 = n"
    unfolding b by (rule div_mult_mod_eq)
  show "n div 262144 < 64" using assms by (simp add: less_mult_imp_div_less)
qed

lemma bytes_of_three:
  assumes "a < 256" and "b < 256" and "c < (256 :: nat)"
  shows "(a * 65536 + b * 256 + c) div 65536 = a" "(a * 65536 + b * 256 + c) div 256 mod 256 = b"
    "(a * 65536 + b * 256 + c) mod 256 = c" "a * 65536 + b * 256 + c < 16777216"
proof -
  have e: "a * 65536 + b * 256 + c = (a * 256 + b) * 256 + c" by simp
  have d: "(x * 256 + y) div 256 = x" "(x * 256 + y) mod 256 = y" if "y < 256" for x y :: nat
    using that by simp_all
  show "(a * 65536 + b * 256 + c) div 65536 = a" "(a * 65536 + b * 256 + c) div 256 mod 256 = b"
    "(a * 65536 + b * 256 + c) mod 256 = c"
    unfolding div_steps(1) e d [OF assms(3)] d [OF assms(2)] by (rule refl)+
  show "a * 65536 + b * 256 + c < 16777216" using assms by linarith
qed

lemma bytes_of_two:
  assumes "a < 256" and "b < (256 :: nat)"
  shows "(a * 65536 + b * 256) div 64 div 1024 = a" "(a * 65536 + b * 256) div 64 div 4 mod 256 = b"
    "a * 65536 + b * 256 < 16777216"
  using bytes_of_three [OF assms, of 0] by (simp_all add: div_mult2_eq [symmetric])

lemma byte_of_one:
  assumes "a < (256 :: nat)"
  shows "a * 65536 div 4096 div 16 = a" "a * 65536 < 16777216"
  using assms by simp_all

lemma b64_group:
  assumes "n < 16777216"
  shows "b64_groups url (map (b64_char url) [n div 262144, n div 4096 mod 64, n div 64 mod 64, n mod 64] @ t) =
    map_option (\<lambda>r. char_of (n div 65536) # char_of (n div 256 mod 256) # char_of (n mod 256) # r) (b64_groups url t)"
  using sextets [OF assms] by (simp add: Let_def b64_char_other split: option.split del: distrib_right_numeral)

lemma b64_padded:
  assumes "n < 16777216"
  shows "b64_groups url (map (b64_char url) [n div 262144, n div 4096 mod 64, n div 64 mod 64] @ ''='') =
      Some [char_of (n div 64 div 1024), char_of (n div 64 div 4 mod 256)]"
    "b64_groups url (map (b64_char url) [n div 262144, n div 4096 mod 64] @ ''=='') = Some [char_of (n div 4096 div 16)]"
  using sextets(2-4) [OF assms] by (simp_all add: Let_def b64_char_other del: distrib_right_numeral)

lemma b64_groups_encode: "b64_groups url (b64_encode url s) = Some s"
proof (induction url s rule: b64_encode.induct)
  case (1 url a b c s)
  note t = bytes_of_three [OF byte_below byte_below byte_below, of a b c]
  show ?case unfolding b64_encode.simps Let_def b64_group [OF t(4)] t(1-3) by (simp add: 1)
next
  case (2 url a b)
  note t = bytes_of_two [OF byte_below byte_below, of a b]
  show ?case unfolding b64_encode.simps Let_def b64_padded(1) [OF t(3)] t(1,2) by simp
next
  case (3 url a)
  note t = byte_of_one [OF byte_below, of a]
  show ?case unfolding b64_encode.simps Let_def b64_padded(2) [OF t(2)] t(1) by simp
qed simp

lemma pad_not_line: "CHR ''='' \<noteq> char_of (10 :: nat)" "CHR ''='' \<noteq> char_of (13 :: nat)"
  by (simp_all add: char_of_def)

lemma b64_encode_lines: "filter (\<lambda>c. c \<noteq> char_of (10 :: nat) \<and> c \<noteq> char_of (13 :: nat)) (b64_encode url s) = b64_encode url s"
proof (induction url s rule: b64_encode.induct)
  case (1 url a b c s)
  from sextets(4) [OF bytes_of_three(4) [OF byte_below byte_below byte_below]] show ?case
    by (simp add: 1 Let_def b64_char_other)
next
  case (2 url a b)
  from sextets(4) [OF bytes_of_two(3) [OF byte_below byte_below]] show ?case by (simp add: Let_def b64_char_other pad_not_line)
next
  case (3 url a)
  from sextets(4) [OF byte_of_one(2) [OF byte_below]] show ?case by (simp add: Let_def b64_char_other pad_not_line)
qed simp

lemma b64_roundtrip: "b64_decode url (b64_encode url s) = Some s"
  by (simp add: b64_decode_def b64_encode_lines b64_groups_encode)

lemma hex_value_of_digit: "n < 16 \<Longrightarrow> hex_value (hex_digit n) = Some n"
  by (auto simp: hex_value_def hex_digit_def of_char_of take_bit_eq_mod)

lemma hex_roundtrip: "hex_decode (hex_encode s) = Some s"
proof (induction s)
  case (Cons c s)
  have "of_char c div 16 < (16 :: nat)" using byte_below [of c] by (simp add: less_mult_imp_div_less)
  then show ?case by (simp add: Cons hex_value_of_digit)
qed simp

end
