(* ===== verification/SecretStores.thy ===== *)
theory SecretStores
  imports Configuration GoBytes ThirdParty
begin

text \<open>
  The stores of secrets (\<open>internal/secrets\<close>): in memory, in an encrypted file and in the key ring of the
  operating system, and how the program chooses one.  The key ring library, the key derivation and the
  cipher are parameters that a machine carries; random bytes come from a numbered sequence of draws.
  The interface is the locale \<open>secret_store\<close>: as long as its calls succeed, a store is a map from names
  to values.  Texts are valid UTF-8, which the JSON encoder leaves alone.
\<close>

section \<open>The interface\<close>

datatype secret_error = ErrSecretNotFound | ErrStoreNotAvailable | ErrMasterKeyRequired | SecretError string | SecretPanic string

text \<open>Calls on a store and on a map.\<close>

datatype secret_call = SetCall string string | DeleteCall string

fun call_name :: "secret_call \<Rightarrow> string" where
  "call_name (SetCall k v) = k"
| "call_name (DeleteCall k) = k"

fun map_call :: "secret_call \<Rightarrow> (string \<rightharpoonup> string) \<Rightarrow> (string \<rightharpoonup> string)" where
  "map_call (SetCall k v) m = m(k \<mapsto> v)"
| "map_call (DeleteCall k) m = m(k := None)"

definition shows_map :: "(string \<Rightarrow> 's \<Rightarrow> secret_error + string) \<Rightarrow> (string \<Rightarrow> bool) \<Rightarrow> 's \<Rightarrow> (string \<rightharpoonup> string) \<Rightarrow> bool" where
  "shows_map get good s m \<longleftrightarrow> (\<forall>k. good k \<longrightarrow> get k s = (case m k of Some v \<Rightarrow> Inr v | None \<Rightarrow> Inl ErrSecretNotFound))"

fun store_call :: "(string \<Rightarrow> string \<Rightarrow> 's \<Rightarrow> 's \<times> secret_error option) \<Rightarrow> (string \<Rightarrow> 's \<Rightarrow> 's \<times> secret_error option) \<Rightarrow>
    secret_call \<Rightarrow> 's \<Rightarrow> 's \<times> secret_error option" where
  "store_call st del (SetCall k v) s = st k v s"
| "store_call st del (DeleteCall k) s = del k s"

fun store_calls :: "(string \<Rightarrow> string \<Rightarrow> 's \<Rightarrow> 's \<times> secret_error option) \<Rightarrow> (string \<Rightarrow> 's \<Rightarrow> 's \<times> secret_error option) \<Rightarrow>
    secret_call list \<Rightarrow> 's \<Rightarrow> 's option" where
  "store_calls st del [] s = Some s"
| "store_calls st del (c # cs) s =
     (case store_call st del c s of (s', None) \<Rightarrow> store_calls st del cs s' | (s', Some e) \<Rightarrow> None)"

text \<open>The calls that took effect: \<open>ign\<close> tells which deletions report success and change nothing.\<close>

fun effective :: "(string \<Rightarrow> string \<Rightarrow> 's \<Rightarrow> 's \<times> secret_error option) \<Rightarrow> (string \<Rightarrow> 's \<Rightarrow> 's \<times> secret_error option) \<Rightarrow>
    (string \<Rightarrow> 's \<Rightarrow> bool) \<Rightarrow> secret_call list \<Rightarrow> 's \<Rightarrow> secret_call list" where
  "effective st del ign [] s = []"
| "effective st del ign (c # cs) s =
     (case c of DeleteCall k \<Rightarrow> if ign k s then [] else [c] | SetCall _ _ \<Rightarrow> [c]) @
     effective st del ign cs (fst (store_call st del c s))"

lemma effective_all: "(\<And>k s. \<not> ign k s) \<Longrightarrow> effective st del ign cs s = cs"
  by (induction cs arbitrary: s) (auto split: secret_call.split)

text \<open>\<open>good\<close> tells which names the store promises to keep apart from its own data, and \<open>ignored\<close> which
  deletions it may take as done although nothing was deleted.\<close>

locale secret_store =
  fixes set_secret :: "string \<Rightarrow> string \<Rightarrow> 's \<Rightarrow> 's \<times> secret_error option"
    and get_secret :: "string \<Rightarrow> 's \<Rightarrow> secret_error + string"
    and delete_secret :: "string \<Rightarrow> 's \<Rightarrow> 's \<times> secret_error option"
    and list_secrets :: "'s \<Rightarrow> secret_error + string list"
    and sound :: "'s \<Rightarrow> bool" and good :: "string \<Rightarrow> bool" and ignored :: "string \<Rightarrow> 's \<Rightarrow> bool"
  assumes set_sound: "sound s \<Longrightarrow> good k \<Longrightarrow> set_secret k v s = (s', None) \<Longrightarrow> sound s'"
    and set_get: "sound s \<Longrightarrow> good k \<Longrightarrow> set_secret k v s = (s', None) \<Longrightarrow> get_secret k s' = Inr v"
    and set_other: "sound s \<Longrightarrow> good k \<Longrightarrow> good l \<Longrightarrow> l \<noteq> k \<Longrightarrow> set_secret k v s = (s', None) \<Longrightarrow>
      get_secret l s' = get_secret l s"
    and delete_sound: "sound s \<Longrightarrow> good k \<Longrightarrow> delete_secret k s = (s', None) \<Longrightarrow> sound s'"
    and delete_get: "sound s \<Longrightarrow> good k \<Longrightarrow> \<not> ignored k s \<Longrightarrow> delete_secret k s = (s', None) \<Longrightarrow> get_secret k s' = Inl ErrSecretNotFound"
    and delete_ignored: "sound s \<Longrightarrow> good k \<Longrightarrow> ignored k s \<Longrightarrow> delete_secret k s = (s', None) \<Longrightarrow> get_secret k s' = get_secret k s"
    and delete_other: "sound s \<Longrightarrow> good k \<Longrightarrow> good l \<Longrightarrow> l \<noteq> k \<Longrightarrow> delete_secret k s = (s', None) \<Longrightarrow>
      get_secret l s' = get_secret l s"
    and set_listed: "sound s \<Longrightarrow> good k \<Longrightarrow> set_secret k v s = (s', None) \<Longrightarrow> list_secrets s' = Inr ks \<Longrightarrow> k \<in> set ks"
begin

lemma call_shows:
  assumes "sound s" and "shows_map get_secret good s m" and "good (call_name c)"
    and "store_call set_secret delete_secret c s = (s', None)"
  shows "sound s' \<and> shows_map get_secret good s' (fold map_call (effective set_secret delete_secret ignored [c] s) m)"
proof (cases c)
  case (SetCall k v)
  then have "set_secret k v s = (s', None)" "good k" using assms(3,4) by simp_all
  with set_sound [OF assms(1)] set_get [OF assms(1)] set_other [OF assms(1)] assms(2) show ?thesis
    unfolding shows_map_def SetCall by (auto simp: fun_upd_def)
next
  case (DeleteCall k)
  then have "delete_secret k s = (s', None)" "good k" using assms(3,4) by simp_all
  with delete_sound [OF assms(1)] delete_get [OF assms(1)] delete_ignored [OF assms(1)] delete_other [OF assms(1)] assms(2) show ?thesis
    unfolding shows_map_def DeleteCall by (cases "ignored k s") (simp_all, metis+)
qed

lemma calls_refine:
  "sound s \<Longrightarrow> shows_map get_secret good s m \<Longrightarrow> \<forall>c \<in> set cs. good (call_name c) \<Longrightarrow>
   store_calls set_secret delete_secret cs s = Some s' \<Longrightarrow>
     sound s' \<and> shows_map get_secret good s' (fold map_call (effective set_secret delete_secret ignored cs s) m)"
proof (induction cs arbitrary: s m)
  case (Cons c cs)
  obtain s1 where s1: "store_call set_secret delete_secret c s = (s1, None)" "store_calls set_secret delete_secret cs s1 = Some s'"
    using Cons.prems(4) by (auto split: prod.splits option.splits)
  from Cons.prems(3) have g: "good (call_name c)" "\<forall>c \<in> set cs. good (call_name c)" by auto
  note h = call_shows [OF Cons.prems(1,2) g(1) s1(1)]
  from Cons.IH [OF conjunct1 [OF h] conjunct2 [OF h] g(2) s1(2)] show ?case using s1(1) by simp
qed simp

end

section \<open>The machine\<close>

text \<open>\<open>github.com/zalando/go-keyring\<close>: a secret of a service and a user.\<close>

record 'k keyring_ops =
  krGet :: "string \<Rightarrow> string \<Rightarrow> 'k \<Rightarrow> string go_result"
  krSet :: "string \<Rightarrow> string \<Rightarrow> string \<Rightarrow> 'k \<Rightarrow> 'k \<times> string option"
  krDelete :: "string \<Rightarrow> string \<Rightarrow> 'k \<Rightarrow> 'k \<times> string option"

text \<open>\<open>argon2.IDKey\<close> of a password and a salt, AES-GCM of a key, a nonce and a text, and the draws of
  \<open>crypto/rand\<close>: the number of the draw and of its bytes.\<close>

record ciphers =
  ciIDKey :: "string \<Rightarrow> string \<Rightarrow> string"
  ciSeal :: "string \<Rightarrow> string \<Rightarrow> string \<Rightarrow> string"
  ciOpen :: "string \<Rightarrow> string \<Rightarrow> string \<Rightarrow> string option"
  ciRandom :: "nat \<Rightarrow> nat \<Rightarrow> string go_result"

text \<open>\<open>mMasterKey\<close> is what \<open>LoadMasterKey\<close> found out once in this process; the in-memory stores live in a
  heap.\<close>

record 'k machine =
  mOps :: "'k keyring_ops"
  mCiphers :: ciphers
  mHome :: "fpath go_result"
  mEnvKey :: string
  mRing :: 'k
  mDisk :: disk
  mDraws :: nat
  mMasterKey :: "string go_result option"
  mMemory :: "(string \<rightharpoonup> string) list"

definition random_bytes :: "nat \<Rightarrow> 'k machine \<Rightarrow> 'k machine \<times> string go_result" where
  "random_bytes n w = (w\<lparr>mDraws := Suc (mDraws w)\<rparr>, ciRandom (mCiphers w) (mDraws w) n)"

definition ErrNotFound :: string where
  "ErrNotFound = ''secret not found in keyring''"

definition missing_text :: "string \<Rightarrow> bool" where
  "missing_text e \<longleftrightarrow> contains_str e ''not found'' \<or> contains_str e ''does not exist''"

definition ServiceName :: string where
  "ServiceName = ''kaggen''"

definition KeyListKey :: string where
  "KeyListKey = ''__kaggen_keys__''"

section \<open>In memory\<close>

definition memory_Set :: "nat \<Rightarrow> string \<Rightarrow> string \<Rightarrow> 'k machine \<Rightarrow> 'k machine \<times> secret_error option" where
  "memory_Set a k v w = (w\<lparr>mMemory := (mMemory w)[a := (mMemory w ! a)(k \<mapsto> v)]\<rparr>, None)"

definition memory_Get :: "nat \<Rightarrow> string \<Rightarrow> 'k machine \<Rightarrow> secret_error + string" where
  "memory_Get a k w = (case (mMemory w ! a) k of Some v \<Rightarrow> Inr v | None \<Rightarrow> Inl ErrSecretNotFound)"

definition memory_Delete :: "nat \<Rightarrow> string \<Rightarrow> 'k machine \<Rightarrow> 'k machine \<times> secret_error option" where
  "memory_Delete a k w = (w\<lparr>mMemory := (mMemory w)[a := (mMemory w ! a)(k := None)]\<rparr>, None)"

text \<open>The order \<open>ks\<close> lists the names.\<close>

definition memory_List :: "string list \<Rightarrow> nat \<Rightarrow> 'k machine \<Rightarrow> secret_error + string list" where
  "memory_List ks a w = Inr (filter (\<lambda>k. (mMemory w ! a) k \<noteq> None) ks)"

section \<open>In the key ring\<close>

definition testAvailability :: "'k machine \<Rightarrow> bool" where
  "testAvailability w =
     (case krGet (mOps w) ServiceName ''__test_availability__'' (mRing w) of
        Inr _ \<Rightarrow> True
      | Inl e \<Rightarrow> e = ErrNotFound \<or> contains_str e ''not found'' \<or> contains_str e ''does not exist'' \<or> contains_str e ''secret not found'')"

definition ring_Get :: "bool \<Rightarrow> string \<Rightarrow> 'k machine \<Rightarrow> secret_error + string" where
  "ring_Get avail k w =
     (if \<not> avail then Inl ErrStoreNotAvailable
      else (case krGet (mOps w) ServiceName k (mRing w) of
              Inl e \<Rightarrow> Inl (if missing_text e then ErrSecretNotFound else SecretError e)
            | Inr v \<Rightarrow> Inr v))"

definition ring_List :: "bool \<Rightarrow> 'k machine \<Rightarrow> secret_error + string list" where
  "ring_List avail w =
     (if \<not> avail then Inl ErrStoreNotAvailable
      else (case krGet (mOps w) ServiceName KeyListKey (mRing w) of
              Inl e \<Rightarrow> if missing_text e then Inr [] else Inl (SecretError e)
            | Inr s \<Rightarrow>
                (case json_Unmarshal token_floats (TList TString) s (VList None) of
                   (_, Some e) \<Rightarrow> Inl (SecretError e)
                 | (v, None) \<Rightarrow> Inr (case v of VList (Some vs) \<Rightarrow> map str_of vs | _ \<Rightarrow> []))))"

definition ring_write :: "string \<Rightarrow> string \<Rightarrow> 'k machine \<Rightarrow> 'k machine \<times> secret_error option" where
  "ring_write k v w =
     (case krSet (mOps w) ServiceName k v (mRing w) of (r, e) \<Rightarrow> (w\<lparr>mRing := r\<rparr>, map_option SecretError e))"

definition addToKeyList :: "bool \<Rightarrow> string \<Rightarrow> 'k machine \<Rightarrow> 'k machine \<times> secret_error option" where
  "addToKeyList avail k w =
     (let ks = (case ring_List avail w of Inr ks \<Rightarrow> ks | Inl _ \<Rightarrow> [])
      in if k \<in> set ks then (w, None)
         else ring_write KeyListKey (json_Marshal (JArr (map JStr (ks @ [k])))) w)"

text \<open>That the list could not be read or deleted is not reported.\<close>

definition removeFromKeyList :: "bool \<Rightarrow> string \<Rightarrow> 'k machine \<Rightarrow> 'k machine \<times> secret_error option" where
  "removeFromKeyList avail k w =
     (case ring_List avail w of
        Inl _ \<Rightarrow> (w, None)
      | Inr ks \<Rightarrow>
          (let new = filter (\<lambda>l. l \<noteq> k) ks in
           if new = [] then (w\<lparr>mRing := fst (krDelete (mOps w) ServiceName KeyListKey (mRing w))\<rparr>, None)
           else ring_write KeyListKey (json_Marshal (JArr (map JStr new))) w))"

definition ring_Set :: "bool \<Rightarrow> string \<Rightarrow> string \<Rightarrow> 'k machine \<Rightarrow> 'k machine \<times> secret_error option" where
  "ring_Set avail k v w =
     (if \<not> avail then (w, Some ErrStoreNotAvailable)
      else (case ring_write k v w of (w1, Some e) \<Rightarrow> (w1, Some e) | (w1, None) \<Rightarrow> addToKeyList avail k w1))"

definition ring_Delete :: "bool \<Rightarrow> string \<Rightarrow> 'k machine \<Rightarrow> 'k machine \<times> secret_error option" where
  "ring_Delete avail k w =
     (if \<not> avail then (w, Some ErrStoreNotAvailable)
      else (case krDelete (mOps w) ServiceName k (mRing w) of (r, e) \<Rightarrow>
              (let w1 = w\<lparr>mRing := r\<rparr> in
               case e of
                 Some t \<Rightarrow> if missing_text t then removeFromKeyList avail k w1 else (w1, Some (SecretError t))
               | None \<Rightarrow> removeFromKeyList avail k w1)))"

section \<open>In an encrypted file\<close>

definition saltSize :: nat where "saltSize = 16"
definition nonceSize :: nat where "nonceSize = 12"

record encrypted_store =
  filePath :: fpath
  masterKey :: string
  esAvailable :: bool

record encrypted_data =
  edSalt :: "string option"
  edNonce :: "string option"
  edCiphertext :: "string option"

text \<open>A byte slice in JSON is base64, or a list of numbers; nil is null.\<close>

definition byte_decode :: GoReflect.decoder where
  "byte_decode j v =
     (case j of
        JNum s \<Rightarrow>
          (case parse_int s of
             Some i \<Rightarrow> if has_prefix s ''-'' \<or> 255 < i then (v, True) else (VInt i, False)
           | None \<Rightarrow> (v, True))
      | JNull \<Rightarrow> (v, False)
      | _ \<Rightarrow> (v, True))"

definition bytes_decode :: "json \<Rightarrow> string option \<Rightarrow> string option \<times> bool" where
  "bytes_decode j old =
     (case j of
        JNull \<Rightarrow> (None, False)
      | JStr s \<Rightarrow> (case b64_decode False s of Some b \<Rightarrow> (Some b, False) | None \<Rightarrow> (old, True))
      | JArr js \<Rightarrow>
          (case decode_list byte_decode (VInt 0) js (map (\<lambda>c. VInt (of_char c)) (case old of Some s \<Rightarrow> s | None \<Rightarrow> [])) of
             (vs, e) \<Rightarrow> (Some (map (\<lambda>v. char_of (nat (int_of v))) vs), e))
      | _ \<Rightarrow> (old, True))"

fun bytes_members :: "json list \<Rightarrow> string option \<Rightarrow> string option \<times> bool" where
  "bytes_members [] old = (old, False)"
| "bytes_members (j # js) old =
     (let (x, e) = bytes_decode j old; (y, e') = bytes_members js x in (y, e \<or> e'))"

definition encrypted_decode :: "string \<Rightarrow> encrypted_data go_result" where
  "encrypted_decode s =
     (case json_parse s of
        Some (JObj ms) \<Rightarrow>
          (let (a, e1) = bytes_members (members_for ''salt'' (JObj ms)) None;
               (b, e2) = bytes_members (members_for ''nonce'' (JObj ms)) None;
               (c, e3) = bytes_members (members_for ''ciphertext'' (JObj ms)) None
           in if e1 \<or> e2 \<or> e3 then Inl ''json: cannot unmarshal''
              else Inr \<lparr>edSalt = a, edNonce = b, edCiphertext = c\<rparr>)
      | Some JNull \<Rightarrow> Inr \<lparr>edSalt = None, edNonce = None, edCiphertext = None\<rparr>
      | Some _ \<Rightarrow> Inl ''json: cannot unmarshal''
      | None \<Rightarrow> Inl ''invalid JSON'')"

definition bytes_encode :: "string option \<Rightarrow> json" where
  "bytes_encode b = (case b of None \<Rightarrow> JNull | Some s \<Rightarrow> JStr (b64_encode False s))"

definition encrypted_encode :: "encrypted_data \<Rightarrow> string" where
  "encrypted_encode d =
     json_Marshal (JObj [(''salt'', bytes_encode (edSalt d)), (''nonce'', bytes_encode (edNonce d)),
       (''ciphertext'', bytes_encode (edCiphertext d))])"

abbreviation bytes :: "string option \<Rightarrow> string" where
  "bytes b \<equiv> (case b of Some s \<Rightarrow> s | None \<Rightarrow> [])"

text \<open>The checks of \<open>aes.NewCipher\<close> on the length of the key.\<close>

definition aes_key :: "string \<Rightarrow> bool" where
  "aes_key k \<longleftrightarrow> length k = 16 \<or> length k = 24 \<or> length k = 32"

text \<open>The secrets, nil for a JSON null, and the salt.  \<open>gcm.Open\<close> panics on a nonce of a wrong length.\<close>

type_synonym secrets = "(string \<times> string) list option"

datatype load_result = Loaded secrets "string option" | LoadMissing | LoadError string | LoadPanic

definition secrets_of :: "go_value \<Rightarrow> secrets" where
  "secrets_of v = (case v of VMap (Some xs) \<Rightarrow> Some (map (\<lambda>(k, x). (k, str_of x)) xs) | _ \<Rightarrow> None)"

definition loadSecrets :: "encrypted_store \<Rightarrow> 'k machine \<Rightarrow> load_result" where
  "loadSecrets e w =
     (case os_ReadFile (mDisk w) (filePath e) of
        NotExist \<Rightarrow> LoadMissing
      | OsError t \<Rightarrow> LoadError t
      | Found s \<Rightarrow>
          (case encrypted_decode s of
             Inl t \<Rightarrow> LoadError (''failed to parse encrypted file: '' @ t)
           | Inr d \<Rightarrow>
               (let key = ciIDKey (mCiphers w) (masterKey e) (bytes (edSalt d)) in
                if \<not> aes_key key then LoadError ''failed to create cipher''
                else if length (bytes (edNonce d)) \<noteq> nonceSize then LoadPanic
                else (case ciOpen (mCiphers w) key (bytes (edNonce d)) (bytes (edCiphertext d)) of
                        None \<Rightarrow> LoadError ''failed to decrypt (wrong master key?)''
                      | Some t \<Rightarrow>
                          (case json_Unmarshal token_floats (TMap TString) t (VMap None) of
                             (_, Some u) \<Rightarrow> LoadError (''failed to parse decrypted secrets: '' @ u)
                           | (v, None) \<Rightarrow> Loaded (secrets_of v) (edSalt d))))))"

definition saveSecrets :: "encrypted_store \<Rightarrow> (string \<times> string) list \<Rightarrow> string option \<Rightarrow> 'k machine \<Rightarrow> 'k machine \<times> secret_error option" where
  "saveSecrets e xs salt w =
     (case os_MkdirAll (butlast (filePath e)) (mDisk w) of
        (d, Some t) \<Rightarrow> (w\<lparr>mDisk := d\<rparr>, Some (SecretError (''failed to create secrets directory: '' @ t)))
      | (d, None) \<Rightarrow>
          (let w1 = w\<lparr>mDisk := d\<rparr>;
               plaintext = json_Marshal (JObj (map (\<lambda>(k, v). (k, JStr v)) (sort_key fst xs)));
               key = ciIDKey (mCiphers w) (masterKey e) (bytes salt) in
           if \<not> aes_key key then (w1, Some (SecretError ''failed to create cipher''))
           else (case random_bytes nonceSize w1 of
                   (w2, Inl t) \<Rightarrow> (w2, Some (SecretError (''failed to generate nonce: '' @ t)))
                 | (w2, Inr nonce) \<Rightarrow>
                     (let data = encrypted_encode \<lparr>edSalt = salt, edNonce = Some nonce,
                            edCiphertext = Some (ciSeal (mCiphers w) key nonce plaintext)\<rparr> in
                      case os_WriteFile (filePath e) data (mDisk w2) of
                        (d2, t) \<Rightarrow> (w2\<lparr>mDisk := d2\<rparr>, map_option (\<lambda>t. SecretError (''failed to write secrets file: '' @ t)) t)))))"

definition file_Set :: "encrypted_store \<Rightarrow> string \<Rightarrow> string \<Rightarrow> 'k machine \<Rightarrow> 'k machine \<times> secret_error option" where
  "file_Set e k v w =
     (if \<not> esAvailable e then (w, Some ErrMasterKeyRequired)
      else (let go = (\<lambda>xs salt.
              let xs = (case xs of Some xs \<Rightarrow> xs | None \<Rightarrow> []) in
              (case salt of
                 Some s \<Rightarrow> saveSecrets e (AList.update k v xs) (Some s) w
               | None \<Rightarrow>
                   (case random_bytes saltSize w of
                      (w1, Inl t) \<Rightarrow> (w1, Some (SecretError (''failed to generate salt: '' @ t)))
                    | (w1, Inr s) \<Rightarrow> saveSecrets e (AList.update k v xs) (Some s) w1)))
            in case loadSecrets e w of
                 LoadPanic \<Rightarrow> (w, Some (SecretPanic ''crypto/cipher: incorrect nonce length given to GCM''))
               | LoadError t \<Rightarrow> (w, Some (SecretError (''failed to load secrets: '' @ t)))
               | LoadMissing \<Rightarrow> go None None
               | Loaded xs salt \<Rightarrow> go xs salt))"

definition file_Get :: "encrypted_store \<Rightarrow> string \<Rightarrow> 'k machine \<Rightarrow> secret_error + string" where
  "file_Get e k w =
     (if \<not> esAvailable e then Inl ErrMasterKeyRequired
      else (case loadSecrets e w of
              LoadPanic \<Rightarrow> Inl (SecretPanic ''crypto/cipher: incorrect nonce length given to GCM'')
            | LoadError t \<Rightarrow> Inl (SecretError t)
            | LoadMissing \<Rightarrow> Inl ErrSecretNotFound
            | Loaded xs salt \<Rightarrow>
                (case map_of (case xs of Some xs \<Rightarrow> xs | None \<Rightarrow> []) k of Some v \<Rightarrow> Inr v | None \<Rightarrow> Inl ErrSecretNotFound)))"

definition file_Delete :: "encrypted_store \<Rightarrow> string \<Rightarrow> 'k machine \<Rightarrow> 'k machine \<times> secret_error option" where
  "file_Delete e k w =
     (if \<not> esAvailable e then (w, Some ErrMasterKeyRequired)
      else (case loadSecrets e w of
              LoadPanic \<Rightarrow> (w, Some (SecretPanic ''crypto/cipher: incorrect nonce length given to GCM''))
            | LoadError t \<Rightarrow> (w, Some (SecretError t))
            | LoadMissing \<Rightarrow> (w, None)
            | Loaded xs salt \<Rightarrow>
                (let left = AList.delete k (case xs of Some xs \<Rightarrow> xs | None \<Rightarrow> []) in
                 if left = [] then
                   (case os_Remove [] (filePath e) (mDisk w) of
                      (d, Found _) \<Rightarrow> (w\<lparr>mDisk := d\<rparr>, None)
                    | (d, NotExist) \<Rightarrow> (w\<lparr>mDisk := d\<rparr>, Some (SecretError ENOENT))
                    | (d, OsError t) \<Rightarrow> (w\<lparr>mDisk := d\<rparr>, Some (SecretError t)))
                 else saveSecrets e left salt w)))"

definition file_List :: "encrypted_store \<Rightarrow> 'k machine \<Rightarrow> secret_error + string list" where
  "file_List e w =
     (if \<not> esAvailable e then Inl ErrMasterKeyRequired
      else (case loadSecrets e w of
              LoadPanic \<Rightarrow> Inl (SecretPanic ''crypto/cipher: incorrect nonce length given to GCM'')
            | LoadError t \<Rightarrow> Inl (SecretError t)
            | LoadMissing \<Rightarrow> Inr []
            | Loaded xs salt \<Rightarrow> Inr (map fst (case xs of Some xs \<Rightarrow> xs | None \<Rightarrow> []))))"

section \<open>The master key\<close>

definition masterKeyLength :: nat where "masterKeyLength = 32"

definition masterKeyFilePath :: "'k machine \<Rightarrow> fpath go_result" where
  "masterKeyFilePath w =
     (case mHome w of
        Inl t \<Rightarrow> Inl (''cannot determine home directory: '' @ t)
      | Inr h \<Rightarrow> Inr (h @ [''.kaggen'', ''master.key'']))"

definition key_of_file :: "string \<Rightarrow> string option" where
  "key_of_file s =
     (let t = trim_space s in
      case hex_decode t of
        Some k \<Rightarrow> if length k = masterKeyLength then Some k else if t \<noteq> [] then Some t else None
      | None \<Rightarrow> if t \<noteq> [] then Some t else None)"

definition loadMasterKeyInner :: "'k machine \<Rightarrow> 'k machine \<times> string go_result" where
  "loadMasterKeyInner w =
     (case masterKeyFilePath w of
        Inl t \<Rightarrow> (w, Inl t)
      | Inr p \<Rightarrow>
          (case (case os_ReadFile (mDisk w) p of Found s \<Rightarrow> key_of_file s | _ \<Rightarrow> None) of
             Some k \<Rightarrow> (w, Inr k)
           | None \<Rightarrow>
               if mEnvKey w \<noteq> [] then (w, Inr (mEnvKey w))
               else (case random_bytes masterKeyLength w of
                       (w1, Inl t) \<Rightarrow> (w1, Inl (''failed to generate master key: '' @ t))
                     | (w1, Inr k) \<Rightarrow>
                         (case os_MkdirAll (butlast p) (mDisk w1) of
                            (d, Some t) \<Rightarrow> (w1\<lparr>mDisk := d\<rparr>, Inl (''failed to create config directory: '' @ t))
                          | (d, None) \<Rightarrow>
                              (case os_WriteFile p (hex_encode k) d of
                                 (d2, Some t) \<Rightarrow> (w1\<lparr>mDisk := d2\<rparr>, Inl (''failed to write master key file: '' @ t))
                               | (d2, None) \<Rightarrow> (w1\<lparr>mDisk := d2\<rparr>, Inr k))))))"

definition LoadMasterKey :: "'k machine \<Rightarrow> 'k machine \<times> string go_result" where
  "LoadMasterKey w =
     (case mMasterKey w of
        Some r \<Rightarrow> (w, r)
      | None \<Rightarrow> (case loadMasterKeyInner w of (w1, r) \<Rightarrow> (w1\<lparr>mMasterKey := Some r\<rparr>, r)))"

definition NewEncryptedStore :: "fpath option \<Rightarrow> 'k machine \<Rightarrow> 'k machine \<times> encrypted_store go_result" where
  "NewEncryptedStore path w =
     (case (case path of Some p \<Rightarrow> Inr p
            | None \<Rightarrow> (case mHome w of Inl t \<Rightarrow> Inl (''failed to get home directory: '' @ t)
                       | Inr h \<Rightarrow> Inr (h @ [''.kaggen'', ''secrets.enc'']))) of
        Inl t \<Rightarrow> (w, Inl t)
      | Inr p \<Rightarrow>
          (case LoadMasterKey w of
             (w1, Inl _) \<Rightarrow> (w1, Inr \<lparr>filePath = p, masterKey = [], esAvailable = False\<rparr>)
           | (w1, Inr k) \<Rightarrow> (w1, Inr \<lparr>filePath = p, masterKey = k, esAvailable = True\<rparr>)))"

section \<open>The interface and the default store\<close>

text \<open>A value of the interface \<open>SecretStore\<close>.\<close>

datatype store_value = KeychainStore bool | EncryptedStore encrypted_store | MemoryStore nat

fun store_Set :: "store_value \<Rightarrow> string \<Rightarrow> string \<Rightarrow> 'k machine \<Rightarrow> 'k machine \<times> secret_error option" where
  "store_Set (KeychainStore a) = ring_Set a"
| "store_Set (EncryptedStore e) = file_Set e"
| "store_Set (MemoryStore a) = memory_Set a"

fun store_Get :: "store_value \<Rightarrow> string \<Rightarrow> 'k machine \<Rightarrow> secret_error + string" where
  "store_Get (KeychainStore a) = ring_Get a"
| "store_Get (EncryptedStore e) = file_Get e"
| "store_Get (MemoryStore a) = memory_Get a"

fun store_Delete :: "store_value \<Rightarrow> string \<Rightarrow> 'k machine \<Rightarrow> 'k machine \<times> secret_error option" where
  "store_Delete (KeychainStore a) = ring_Delete a"
| "store_Delete (EncryptedStore e) = file_Delete e"
| "store_Delete (MemoryStore a) = memory_Delete a"

fun store_List :: "string list \<Rightarrow> store_value \<Rightarrow> 'k machine \<Rightarrow> secret_error + string list" where
  "store_List ks (KeychainStore a) = ring_List a"
| "store_List ks (EncryptedStore e) = file_List e"
| "store_List ks (MemoryStore a) = memory_List ks a"

fun store_Available :: "store_value \<Rightarrow> bool" where
  "store_Available (KeychainStore a) = a"
| "store_Available (EncryptedStore e) = esAvailable e"
| "store_Available (MemoryStore a) = True"

fun store_Name :: "store_value \<Rightarrow> string" where
  "store_Name (KeychainStore a) = ''keychain''"
| "store_Name (EncryptedStore e) = ''encrypted-file''"
| "store_Name (MemoryStore a) = ''memory''"

definition NewMemoryStore :: "'k machine \<Rightarrow> 'k machine \<times> store_value" where
  "NewMemoryStore w = (w\<lparr>mMemory := mMemory w @ [Map.empty]\<rparr>, MemoryStore (length (mMemory w)))"

definition EncryptedFallbackStore :: "'k machine \<Rightarrow> 'k machine \<times> store_value" where
  "EncryptedFallbackStore w =
     (case NewEncryptedStore None w of
        (w1, Inr e) \<Rightarrow> if esAvailable e then (w1, EncryptedStore e) else NewMemoryStore w1
      | (w1, Inl _) \<Rightarrow> NewMemoryStore w1)"

definition initDefaultStore :: "'k machine \<Rightarrow> 'k machine \<times> store_value" where
  "initDefaultStore w =
     (if testAvailability w then (w, KeychainStore True)
      else (case NewEncryptedStore None w of
              (w1, Inr e) \<Rightarrow> if esAvailable e then (w1, EncryptedStore e) else NewMemoryStore w1
            | (w1, Inl _) \<Rightarrow> NewMemoryStore w1))"

text \<open>The resolver that the package registers with the configuration, for the default store.\<close>

definition secret_resolver :: "store_value option \<Rightarrow> 'k machine \<Rightarrow> string \<Rightarrow> secret_error + string" where
  "secret_resolver ds w k =
     (case ds of
        None \<Rightarrow> Inl ErrStoreNotAvailable
      | Some st \<Rightarrow> if store_Available st then store_Get st k w else Inl ErrStoreNotAvailable)"

section \<open>The laws of the libraries\<close>

definition keyring_ok :: "'k keyring_ops \<Rightarrow> bool" where
  "keyring_ok ops \<longleftrightarrow>
     (\<forall>s u v r r'. krSet ops s u v r = (r', None) \<longrightarrow>
        krGet ops s u r' = Inr v \<and> (\<forall>u'. u' \<noteq> u \<longrightarrow> krGet ops s u' r' = krGet ops s u' r)) \<and>
     (\<forall>s u v r r' e. krSet ops s u v r = (r', Some e) \<longrightarrow> (\<forall>u'. krGet ops s u' r' = krGet ops s u' r)) \<and>
     (\<forall>s u r r'. krDelete ops s u r = (r', None) \<longrightarrow>
        krGet ops s u r' = Inl ErrNotFound \<and> (\<forall>u'. u' \<noteq> u \<longrightarrow> krGet ops s u' r' = krGet ops s u' r)) \<and>
     (\<forall>s u r r' e. krDelete ops s u r = (r', Some e) \<longrightarrow>
        (\<forall>u'. krGet ops s u' r' = krGet ops s u' r) \<and> (e = ErrNotFound \<longrightarrow> krGet ops s u r = Inl ErrNotFound))"

text \<open>The key ring cannot delete the secret, and reports it in words that the store takes for its absence.\<close>

definition ring_misread :: "string \<Rightarrow> 'k machine \<Rightarrow> bool" where
  "ring_misread k w \<longleftrightarrow>
     (case snd (krDelete (mOps w) ServiceName k (mRing w)) of None \<Rightarrow> False | Some e \<Rightarrow> e \<noteq> ErrNotFound \<and> missing_text e)"

text \<open>The derived key has the length that the code asks for, draws have theirs, and what was sealed is
  opened with the same key and nonce.\<close>

definition ciphers_ok :: "ciphers \<Rightarrow> bool" where
  "ciphers_ok c \<longleftrightarrow>
     (\<forall>p s. length (ciIDKey c p s) = 32) \<and>
     (\<forall>i n b. ciRandom c i n = Inr b \<longrightarrow> length b = n) \<and>
     (\<forall>k n t. length n = nonceSize \<longrightarrow> ciOpen c k n (ciSeal c k n t) = Some t)"

section \<open>The stores keep the contract\<close>

lemma strings_back:
  "json_Unmarshal token_floats (TList TString) (json_Marshal (JArr (map JStr ks))) (VList None) =
     (VList (Some (map VString ks)), None)"
proof -
  have "good_json (JArr (map JStr ks))" by (simp add: list_all_iff)
  from parse_printed(2) [OF this] have p: "json_parse (json_Marshal (JArr (map JStr ks))) = Some (JArr (map JStr ks))" .
  have "decode_list (json_decode token_floats TString) (VString '''') (map JStr ks) [] = (map VString ks, False)"
    by (induction ks) simp_all
  then show ?thesis by (simp add: json_Unmarshal_def p)
qed

lemma ring_List_written:
  assumes "krGet (mOps w) ServiceName KeyListKey (mRing w) = Inr (json_Marshal (JArr (map JStr ks)))"
  shows "ring_List True w = Inr ks"
  using assms by (simp add: ring_List_def strings_back comp_def)

lemma ErrNotFound_missing: "missing_text ErrNotFound"
  by (simp add: missing_text_def ErrNotFound_def has_prefix_def)

lemma ring_write_get:
  assumes "keyring_ok (mOps w)" and "ring_write k v w = (w', None)"
  shows "mOps w' = mOps w" "krGet (mOps w) ServiceName k (mRing w') = Inr v"
    "l \<noteq> k \<Longrightarrow> krGet (mOps w) ServiceName l (mRing w') = krGet (mOps w) ServiceName l (mRing w)"
  using assms by (auto simp: ring_write_def keyring_ok_def split: prod.splits)

lemma ring_Set_ok:
  assumes "keyring_ok (mOps w)" and "k \<noteq> KeyListKey" and "ring_Set True k v w = (w', None)"
  shows "mOps w' = mOps w \<and> krGet (mOps w) ServiceName k (mRing w') = Inr v \<and>
    (\<forall>l. l \<noteq> k \<longrightarrow> l \<noteq> KeyListKey \<longrightarrow> krGet (mOps w) ServiceName l (mRing w') = krGet (mOps w) ServiceName l (mRing w)) \<and>
    (\<exists>ks. ring_List True w' = Inr ks \<and> k \<in> set ks)"
proof -
  obtain w1 where w1: "ring_write k v w = (w1, None)" "addToKeyList True k w1 = (w', None)"
    using assms(3) by (auto simp: ring_Set_def split: prod.splits option.splits)
  note a = ring_write_get [OF assms(1) w1(1)]
  let ?ks = "case ring_List True w1 of Inr ks \<Rightarrow> ks | Inl _ \<Rightarrow> []"
  show ?thesis
  proof (cases "k \<in> set ?ks")
    case True
    then have "w' = w1" "\<exists>ks. ring_List True w1 = Inr ks \<and> k \<in> set ks"
      using w1(2) by (cases "ring_List True w1"; simp add: addToKeyList_def)+
    with a show ?thesis by auto
  next
    case False
    then have w2: "ring_write KeyListKey (json_Marshal (JArr (map JStr (?ks @ [k])))) w1 = (w', None)"
      using w1(2) unfolding addToKeyList_def Let_def by (simp only: if_False)
    from assms(1) a(1) have "keyring_ok (mOps w1)" by simp
    note b = ring_write_get [OF this w2]
    have "ring_List True w' = Inr (?ks @ [k])"
      by (rule ring_List_written) (use a(1) b(1,2) in simp)
    then show ?thesis using a b(1) b(3) assms(2) by (intro conjI) (auto simp: a(1) [symmetric])
  qed
qed

lemma removeFromKeyList_ok:
  assumes "keyring_ok (mOps w)" and "removeFromKeyList True k w = (w', None)"
  shows "mOps w' = mOps w \<and> (\<forall>l. l \<noteq> KeyListKey \<longrightarrow> krGet (mOps w) ServiceName l (mRing w') = krGet (mOps w) ServiceName l (mRing w))"
proof -
  have "krGet (mOps w) ServiceName l (fst (krDelete (mOps w) ServiceName KeyListKey (mRing w))) = krGet (mOps w) ServiceName l (mRing w)"
    if "l \<noteq> KeyListKey" for l
    using assms(1) that unfolding keyring_ok_def
    by (cases "krDelete (mOps w) ServiceName KeyListKey (mRing w)"; cases "snd (krDelete (mOps w) ServiceName KeyListKey (mRing w))") auto
  with assms(2) ring_write_get [OF assms(1)] show ?thesis
    by (auto simp: removeFromKeyList_def Let_def split: sum.splits if_splits)
qed

lemma ring_Delete_ok:
  assumes "keyring_ok (mOps w)" and "k \<noteq> KeyListKey" and "ring_Delete True k w = (w', None)"
  shows "mOps w' = mOps w \<and>
    krGet (mOps w) ServiceName k (mRing w') = (if ring_misread k w then krGet (mOps w) ServiceName k (mRing w) else Inl ErrNotFound) \<and>
    (\<forall>l. l \<noteq> k \<longrightarrow> l \<noteq> KeyListKey \<longrightarrow> krGet (mOps w) ServiceName l (mRing w') = krGet (mOps w) ServiceName l (mRing w))"
proof -
  obtain r e where r: "krDelete (mOps w) ServiceName k (mRing w) = (r, e)" by fastforce
  have c: "e = None \<or> missing_text (the e)" "removeFromKeyList True k (w\<lparr>mRing := r\<rparr>) = (w', None)"
    using assms(3) r by (auto simp: ring_Delete_def Let_def split: option.splits if_splits)
  have g: "krGet (mOps w) ServiceName k r = (if ring_misread k w then krGet (mOps w) ServiceName k (mRing w) else Inl ErrNotFound) \<and>
      (\<forall>l. l \<noteq> k \<longrightarrow> krGet (mOps w) ServiceName l r = krGet (mOps w) ServiceName l (mRing w))"
  proof (cases e)
    case None
    then show ?thesis using assms(1) r by (simp add: keyring_ok_def ring_misread_def)
  next
    case (Some x)
    then have "missing_text x" using c(1) by simp
    moreover have "(\<forall>l. krGet (mOps w) ServiceName l r = krGet (mOps w) ServiceName l (mRing w)) \<and>
        (x = ErrNotFound \<longrightarrow> krGet (mOps w) ServiceName k (mRing w) = Inl ErrNotFound)"
      using assms(1) r [unfolded Some] unfolding keyring_ok_def by blast
    ultimately show ?thesis using Some r by (simp add: ring_misread_def)
  qed
  from removeFromKeyList_ok [OF _ c(2)] assms(1,2) g show ?thesis by simp
qed

interpretation keychain: secret_store "ring_Set True" "ring_Get True" "ring_Delete True" "ring_List True"
  "\<lambda>w. keyring_ok (mOps w)" "\<lambda>k. k \<noteq> KeyListKey" ring_misread
proof unfold_locales
  fix w w' :: "'a machine" and k l v :: string and ks :: "string list"
  assume w: "keyring_ok (mOps w)" "k \<noteq> KeyListKey"
  show "ring_Set True k v w = (w', None) \<Longrightarrow> keyring_ok (mOps w')" using ring_Set_ok [OF w] w(1) by metis
  show "ring_Delete True k w = (w', None) \<Longrightarrow> keyring_ok (mOps w')" using ring_Delete_ok [OF w] w(1) by metis
  show "ring_Set True k v w = (w', None) \<Longrightarrow> ring_Get True k w' = Inr v" using ring_Set_ok [OF w, of v w'] by (simp add: ring_Get_def)
  show "\<not> ring_misread k w \<Longrightarrow> ring_Delete True k w = (w', None) \<Longrightarrow> ring_Get True k w' = Inl ErrSecretNotFound"
    using ring_Delete_ok [OF w, of w'] by (simp add: ring_Get_def ErrNotFound_missing)
  show "ring_misread k w \<Longrightarrow> ring_Delete True k w = (w', None) \<Longrightarrow> ring_Get True k w' = ring_Get True k w"
    using ring_Delete_ok [OF w, of w'] by (simp add: ring_Get_def)
  show "ring_Set True k v w = (w', None) \<Longrightarrow> ring_List True w' = Inr ks \<Longrightarrow> k \<in> set ks"
    using ring_Set_ok [OF w, of v w'] by auto
  assume l: "l \<noteq> KeyListKey" "l \<noteq> k"
  show "ring_Set True k v w = (w', None) \<Longrightarrow> ring_Get True l w' = ring_Get True l w"
    using ring_Set_ok [OF w, of v w'] l by (simp add: ring_Get_def)
  show "ring_Delete True k w = (w', None) \<Longrightarrow> ring_Get True l w' = ring_Get True l w"
    using ring_Delete_ok [OF w, of w'] l by (simp add: ring_Get_def)
qed

interpretation memory: secret_store "memory_Set a" "memory_Get a" "memory_Delete a" "memory_List ks a"
  "\<lambda>w. a < length (mMemory w)" "\<lambda>k. k \<in> set ks" "\<lambda>_ _. False" for a ks
  by unfold_locales (auto simp: memory_Set_def memory_Get_def memory_Delete_def memory_List_def)

lemma map_of_sorted: "distinct (map fst xs) \<Longrightarrow> map_of (sort_key fst xs) = map_of xs"
  by (subst map_of_inject_set) (simp_all add: distinct_map)

lemma secrets_back:
  assumes "distinct (map fst xs)"
  shows "json_Unmarshal token_floats (TMap TString) (json_Marshal (JObj (map (\<lambda>(k, v). (k, JStr v)) xs))) (VMap None) =
     (VMap (Some (map (\<lambda>(k, v). (k, VString v)) xs)), None)"
proof -
  have "good_json (JObj (map (\<lambda>(k, v). (k, JStr v)) xs))" by (auto simp: list_all_iff)
  from parse_printed(2) [OF this]
  have p: "json_parse (json_Marshal (JObj (map (\<lambda>(k, v). (k, JStr v)) xs))) = Some (JObj (map (\<lambda>(k, v). (k, JStr v)) xs))" .
  let ?v = "VMap (Some (map (\<lambda>(k, v). (k, VString v)) xs))"
  have "json_decode token_floats (TMap TString) (json_encode (TMap TString) ?v) (VMap None) = (restored (TMap TString) ?v (VMap None), False)"
    by (rule decode_encode [OF _ _ _ _ token_floats(1)]) (use assms in \<open>auto simp: list_all_iff comp_def split_def\<close>)
  then have "json_decode token_floats (TMap TString) (JObj (map (\<lambda>(k, v). (k, JStr v)) xs)) (VMap None) = (?v, False)"
    by (simp add: comp_def split_def)
  then show ?thesis by (simp add: json_Unmarshal_def p)
qed

lemma bytes_back: "bytes_decode (bytes_encode b) None = (b, False)"
  by (cases b) (simp_all add: bytes_decode_def bytes_encode_def b64_roundtrip)

lemma encrypted_back: "encrypted_decode (encrypted_encode d) = Inr d"
proof -
  let ?j = "JObj [(''salt'', bytes_encode (edSalt d)), (''nonce'', bytes_encode (edNonce d)), (''ciphertext'', bytes_encode (edCiphertext d))]"
  have "good_json (bytes_encode b)" for b by (cases b) (simp_all add: bytes_encode_def)
  then have "json_parse (encrypted_encode d) = Some ?j"
    unfolding encrypted_encode_def by (intro parse_printed(2)) simp
  moreover have "members_for ''salt'' ?j = [bytes_encode (edSalt d)]" "members_for ''nonce'' ?j = [bytes_encode (edNonce d)]"
    "members_for ''ciphertext'' ?j = [bytes_encode (edCiphertext d)]"
    by (simp_all add: members_for_def to_lower_def lower_char_bits)
  ultimately show ?thesis by (simp add: encrypted_decode_def bytes_back)
qed

lemma secrets_of_distinct: "typed token_floats (TMap TString) v \<Longrightarrow> secrets_of v = Some xs \<Longrightarrow> distinct (map fst xs)"
  by (auto simp: secrets_of_def comp_def split_def split: go_value.splits option.splits)

lemma loaded_distinct:
  assumes "loadSecrets e w = Loaded (Some xs) salt"
  shows "distinct (map fst xs)"
proof -
  obtain t v where t: "json_Unmarshal token_floats (TMap TString) t (VMap None) = (v, None)" "secrets_of v = Some xs"
    using assms by (auto simp: loadSecrets_def Let_def split: os_result.splits sum.splits if_splits option.splits prod.splits)
  obtain j where j: "json_decode token_floats (TMap TString) j (VMap None) = (v, False)"
    using t(1) unfolding json_Unmarshal_def by (auto simp del: json_decode.simps split: option.splits prod.splits if_splits)
  have "typed token_floats (TMap TString) (VMap None)" by simp
  from json_decode_typed [OF token_floats(1) this, of j] have "typed token_floats (TMap TString) v" unfolding j fst_conv .
  from secrets_of_distinct [OF this t(2)] show ?thesis .
qed

lemma written_file: "os_WriteFile p s d = (d', None) \<Longrightarrow> os_ReadFile d' p = Found s"
  by (auto simp: os_WriteFile_def os_ReadFile_def abs_write_def split: option.splits if_splits)

lemma saveSecrets_loads:
  assumes "ciphers_ok (mCiphers w)" and "distinct (map fst xs)" and "saveSecrets e xs salt w = (w', None)"
  shows "mCiphers w' = mCiphers w \<and> loadSecrets e w' = Loaded (Some (sort_key fst xs)) salt"
proof -
  let ?key = "ciIDKey (mCiphers w) (masterKey e) (bytes salt)"
  let ?t = "json_Marshal (JObj (map (\<lambda>(k, v). (k, JStr v)) (sort_key fst xs)))"
  obtain d nonce d2 where s: "ciRandom (mCiphers w) (mDraws w) nonceSize = Inr nonce"
    "os_WriteFile (filePath e) (encrypted_encode \<lparr>edSalt = salt, edNonce = Some nonce, edCiphertext = Some (ciSeal (mCiphers w) ?key nonce ?t)\<rparr>) d = (d2, None)"
    "mDisk w' = d2" "mCiphers w' = mCiphers w"
    using assms(3) by (auto simp: saveSecrets_def random_bytes_def Let_def split: prod.splits option.splits sum.splits if_splits)
  have key: "aes_key ?key" using assms(1) by (simp add: ciphers_ok_def aes_key_def)
  have n: "length nonce = nonceSize" using assms(1) s(1) by (auto simp: ciphers_ok_def)
  then have o: "ciOpen (mCiphers w) ?key nonce (ciSeal (mCiphers w) ?key nonce ?t) = Some ?t"
    using assms(1) by (simp add: ciphers_ok_def)
  have "distinct (map fst (sort_key fst xs))" using assms(2) by (simp add: distinct_map)
  from secrets_back [OF this] written_file [OF s(2)] s(3,4) key n o show ?thesis
    by (simp add: loadSecrets_def encrypted_back Let_def secrets_of_def comp_def split_def)
qed

definition file_sound :: "encrypted_store \<Rightarrow> 'k machine \<Rightarrow> bool" where
  "file_sound e w \<longleftrightarrow> esAvailable e \<and> ciphers_ok (mCiphers w) \<and> \<not> through_file (mDisk w) (filePath e)"

lemma saveSecrets_sound:
  assumes "saveSecrets e xs salt w = (w', None)"
  shows "\<not> through_file (mDisk w') (filePath e)"
proof -
  obtain d w2 data where s: "os_MkdirAll (butlast (filePath e)) (mDisk w) = (d, None)"
    "os_WriteFile (filePath e) data d = (mDisk w', None)"
    using assms by (auto simp: saveSecrets_def random_bytes_def Let_def split: prod.splits option.splits sum.splits if_splits)
  have "d (take n (filePath e)) = Some Dir" if "n < length (filePath e)" for n
  proof -
    have "take n (filePath e) = take n (butlast (filePath e))" using that by (simp add: butlast_conv_take)
    then have "prefix (take n (filePath e)) (butlast (filePath e))" by (metis take_is_prefix)
    then show ?thesis using s(1) by (auto simp: os_MkdirAll_def split: if_splits)
  qed
  moreover have "mDisk w' q = d q" if "q \<noteq> filePath e" for q
    using s(2) that by (auto simp: os_WriteFile_def abs_write_def split: option.splits if_splits) (metis fun_upd_other)
  ultimately have "mDisk w' (take n (filePath e)) = Some Dir" if "n < length (filePath e)" for n
    using that by (metis length_take less_irrefl min.absorb2 order_less_imp_le)
  then show ?thesis by (auto simp: through_file_def list_ex_iff)
qed

text \<open>What a store that can be read holds.\<close>

definition file_map :: "encrypted_store \<Rightarrow> 'k machine \<Rightarrow> (string \<rightharpoonup> string) option" where
  "file_map e w =
     (case loadSecrets e w of
        LoadMissing \<Rightarrow> Some Map.empty
      | Loaded xs salt \<Rightarrow> Some (map_of (case xs of Some xs \<Rightarrow> xs | None \<Rightarrow> []))
      | _ \<Rightarrow> None)"

lemma file_Get_map:
  "esAvailable e \<Longrightarrow> file_map e w = Some m \<Longrightarrow> file_Get e k w = (case m k of Some v \<Rightarrow> Inr v | None \<Rightarrow> Inl ErrSecretNotFound)"
  by (auto simp: file_map_def file_Get_def split: load_result.splits)

lemma file_List_map:
  assumes "esAvailable e" and "file_map e w = Some m"
  shows "\<exists>ks. file_List e w = Inr ks \<and> set ks = dom m"
proof (cases "loadSecrets e w")
  case (Loaded xs salt)
  define ys where "ys = (case xs of Some xs \<Rightarrow> xs | None \<Rightarrow> [])"
  have "file_List e w = Inr (map fst ys)" "m = map_of ys"
    using assms Loaded by (simp_all add: file_List_def file_map_def ys_def)
  then show ?thesis by (simp add: dom_map_of_conv_image_fst)
next
  case LoadMissing
  then have "file_List e w = Inr []" "m = Map.empty" using assms by (simp_all add: file_List_def file_map_def)
  then show ?thesis by simp
qed (use assms in \<open>simp_all add: file_map_def\<close>)

lemma saveSecrets_map:
  assumes "file_sound e w" and "distinct (map fst xs)" and "saveSecrets e xs salt w = (w', None)"
  shows "file_sound e w' \<and> file_map e w' = Some (map_of xs)"
  using saveSecrets_loads [OF _ assms(2,3)] saveSecrets_sound [OF assms(3)] assms(1)
  by (simp add: file_sound_def file_map_def map_of_sorted [OF assms(2)])

lemma loaded_names:
  "loadSecrets e w = Loaded xs salt \<Longrightarrow> distinct (map fst (case xs of Some xs \<Rightarrow> xs | None \<Rightarrow> []))"
  by (auto dest: loaded_distinct split: option.split)

lemma file_Set_ok:
  assumes "file_sound e w" and "file_Set e k v w = (w', None)"
  shows "\<exists>m. file_map e w = Some m \<and> file_sound e w' \<and> file_map e w' = Some (m(k \<mapsto> v))"
proof -
  have saved: "\<exists>m. file_map e w = Some m \<and> file_sound e w' \<and> file_map e w' = Some (m(k \<mapsto> v))"
    if "file_map e w = Some (map_of xs)" "distinct (map fst xs)" "saveSecrets e (AList.update k v xs) salt w1 = (w', None)"
      "mCiphers w1 = mCiphers w" "mDisk w1 = mDisk w" for xs salt w1
    using saveSecrets_map [OF _ distinct_update [OF that(2)] that(3)] that(1,4,5) assms(1)
    by (simp add: file_sound_def update_conv')
  have fresh: "mCiphers (fst (random_bytes n w)) = mCiphers w" "mDisk (fst (random_bytes n w)) = mDisk w" for n
    by (simp_all add: random_bytes_def)
  show ?thesis
  proof (cases "loadSecrets e w")
    case (Loaded xs salt)
    have m: "file_map e w = Some (map_of (case xs of Some xs \<Rightarrow> xs | None \<Rightarrow> []))" by (simp add: file_map_def Loaded)
    show ?thesis using assms Loaded saved [OF m loaded_names [OF Loaded]] fresh [of saltSize]
      by (auto simp: file_Set_def file_sound_def split: option.splits prod.splits sum.splits)
  next
    case LoadMissing
    have m: "file_map e w = Some (map_of [])" by (simp add: file_map_def LoadMissing)
    show ?thesis using assms LoadMissing saved [OF m] fresh [of saltSize]
      by (auto simp: file_Set_def file_sound_def split: option.splits prod.splits sum.splits)
  qed (use assms in \<open>auto simp: file_Set_def file_sound_def\<close>)
qed

lemma file_Delete_ok:
  assumes "file_sound e w" and "file_Delete e k w = (w', None)"
  shows "\<exists>m. file_map e w = Some m \<and> file_sound e w' \<and> file_map e w' = Some (m(k := None))"
proof (cases "loadSecrets e w")
  case (Loaded xs salt)
  let ?xs = "case xs of Some xs \<Rightarrow> xs | None \<Rightarrow> []"
  note d = loaded_names [OF Loaded]
  have del: "map_of (AList.delete k ?xs) = (map_of ?xs)(k := None)" by (rule delete_conv')
  have m: "file_map e w = Some (map_of ?xs)" by (simp add: file_map_def Loaded)
  show ?thesis
  proof (cases "AList.delete k ?xs = []")
    case True
    then have "os_Remove [] (filePath e) (mDisk w) = (mDisk w', Found ())" "mCiphers w' = mCiphers w"
      using assms Loaded by (auto simp: file_Delete_def file_sound_def Let_def split: prod.splits os_result.splits)
    moreover have "\<exists>s. mDisk w (filePath e) = Some (File s)"
      using Loaded by (auto simp: loadSecrets_def os_ReadFile_def split: option.splits entry.splits if_splits)
    ultimately have g: "mDisk w' = (mDisk w)(filePath e := None)" "mCiphers w' = mCiphers w"
      by (auto simp: os_Remove_def)
    have t: "\<not> through_file (mDisk w') (filePath e)"
      using assms(1) unfolding g(1) file_sound_def through_file_def list_ex_iff
      by (auto simp: take_all_iff split: option.splits)
    with g have "file_map e w' = Some Map.empty" by (simp add: file_map_def loadSecrets_def os_ReadFile_def)
    moreover have "(map_of ?xs)(k := None) = Map.empty" using del True by simp
    ultimately show ?thesis using m assms(1) t g(2) by (simp add: file_sound_def)
  next
    case False
    then have "saveSecrets e (AList.delete k ?xs) salt w = (w', None)"
      using assms Loaded by (simp add: file_Delete_def file_sound_def Let_def)
    from saveSecrets_map [OF assms(1) distinct_delete [OF d] this] m del show ?thesis by simp
  qed
next
  case LoadMissing
  then have "w' = w" "file_map e w = Some Map.empty" using assms by (simp_all add: file_Delete_def file_sound_def file_map_def)
  then show ?thesis using assms(1) by simp
qed (use assms in \<open>simp_all add: file_Delete_def file_sound_def\<close>)

interpretation encrypted: secret_store "file_Set e" "file_Get e" "file_Delete e" "file_List e" "file_sound e" "\<lambda>_. True" "\<lambda>_ _. False" for e
proof unfold_locales
  fix w w' :: "'a machine" and k l v :: string and ks :: "string list"
  assume w: "file_sound e w"
  note get = file_Get_map [of e]
  have a: "esAvailable e" using w by (simp add: file_sound_def)
  show "file_Set e k v w = (w', None) \<Longrightarrow> file_sound e w'" using file_Set_ok [OF w] by blast
  show "file_Delete e k w = (w', None) \<Longrightarrow> file_sound e w'" using file_Delete_ok [OF w] by blast
  show "file_Set e k v w = (w', None) \<Longrightarrow> file_Get e k w' = Inr v" using file_Set_ok [OF w, of k v w'] by (auto simp: get [OF a])
  show "file_Delete e k w = (w', None) \<Longrightarrow> file_Get e k w' = Inl ErrSecretNotFound"
    using file_Delete_ok [OF w, of k w'] by (auto simp: get [OF a])
  show "file_Set e k v w = (w', None) \<Longrightarrow> file_List e w' = Inr ks \<Longrightarrow> k \<in> set ks"
    using file_Set_ok [OF w, of k v w'] by (auto dest: file_List_map [OF a])
  assume l: "l \<noteq> k"
  show "file_Set e k v w = (w', None) \<Longrightarrow> file_Get e l w' = file_Get e l w"
    using file_Set_ok [OF w, of k v w'] l by (auto simp: get [OF a])
  show "file_Delete e k w = (w', None) \<Longrightarrow> file_Get e l w' = file_Get e l w"
    using file_Delete_ok [OF w, of k w'] l by (auto simp: get [OF a])
qed simp

section \<open>Stores refine maps\<close>

fun store_sound :: "store_value \<Rightarrow> 'k machine \<Rightarrow> bool" where
  "store_sound (KeychainStore a) w \<longleftrightarrow> a \<and> keyring_ok (mOps w)"
| "store_sound (EncryptedStore e) w \<longleftrightarrow> file_sound e w"
| "store_sound (MemoryStore a) w \<longleftrightarrow> a < length (mMemory w)"

text \<open>The name under which the key ring keeps the list of names is no good name of a secret.\<close>

fun store_good :: "store_value \<Rightarrow> string \<Rightarrow> bool" where
  "store_good (KeychainStore a) k \<longleftrightarrow> k \<noteq> KeyListKey"
| "store_good _ k \<longleftrightarrow> True"

fun store_ignored :: "store_value \<Rightarrow> string \<Rightarrow> 'k machine \<Rightarrow> bool" where
  "store_ignored (KeychainStore a) k w \<longleftrightarrow> ring_misread k w"
| "store_ignored _ k w \<longleftrightarrow> False"

text \<open>C39. Whichever store is chosen, after any sequence of calls that all succeed it answers like the map that
  the calls describe: a secret that was set is read back, a deleted one is not found, and no call
  touches another secret.  In the key ring the name under which the list of names is kept is excluded,
  and a deletion that the ring refuses in words that contain \<open>not found\<close> or \<open>does not exist\<close> succeeds
  without effect; the other stores take every call.
\<close>

theorem stores_refine:
  assumes "store_sound st w" and "shows_map (store_Get st) (store_good st) w m"
    and "\<forall>c \<in> set cs. store_good st (call_name c)" and "store_calls (store_Set st) (store_Delete st) cs w = Some w'"
  shows "store_sound st w' \<and>
    shows_map (store_Get st) (store_good st) w' (fold map_call (effective (store_Set st) (store_Delete st) (store_ignored st) cs w) m) \<and>
    ((\<forall>a. st \<noteq> KeychainStore a) \<longrightarrow> effective (store_Set st) (store_Delete st) (store_ignored st) cs w = cs)"
proof (cases st)
  case (KeychainStore a)
  then have "a" using assms(1) by simp
  have g: "store_good st = (\<lambda>k. k \<noteq> KeyListKey)" "store_ignored st = ring_misread" by (rule ext, simp add: KeychainStore)+
  have n: "\<not> (\<forall>a. st \<noteq> KeychainStore a)" using KeychainStore by blast
  show ?thesis using keychain.calls_refine [of w m cs w'] assms \<open>a\<close> n unfolding g by (auto simp: KeychainStore)
next
  case (EncryptedStore e)
  have g: "store_good st = (\<lambda>_. True)" "store_ignored st = (\<lambda>_ _. False)" by (rule ext, simp add: EncryptedStore)+
  show ?thesis using encrypted.calls_refine [of e w m cs w'] assms unfolding g by (simp add: EncryptedStore effective_all)
next
  case (MemoryStore a)
  have g: "store_good st = (\<lambda>_. True)" "store_ignored st = (\<lambda>_ _. False)" by (rule ext, simp add: MemoryStore)+
  have names: "\<And>ks. \<forall>c \<in> set cs. call_name c \<in> set (ks @ map call_name cs)" by simp
  have "shows_map (memory_Get a) (\<lambda>l. l \<in> set ([k] @ map call_name cs)) w m" for k
    using assms(2) unfolding g by (simp add: MemoryStore shows_map_def)
  from memory.calls_refine [OF _ this names, of w'] assms(1,4) have
    "a < length (mMemory w') \<and> shows_map (memory_Get a) (\<lambda>l. l \<in> set ([k] @ map call_name cs)) w' (fold map_call cs m)" for k
    by (simp add: MemoryStore effective_all)
  then show ?thesis unfolding g by (simp add: MemoryStore shows_map_def effective_all)
qed

section \<open>Restarts\<close>

text \<open>A new process on the same machine.\<close>

definition restart :: "'k machine \<Rightarrow> 'k machine" where
  "restart w = w\<lparr>mMasterKey := None, mMemory := []\<rparr>"

lemma trim_space_plain: "\<forall>c \<in> set s. \<not> is_space c \<Longrightarrow> trim_space s = s"
  by (simp add: trim_space_def dropWhile_eq_self_iff)
    (metis hd_in_set rev_is_Nil_conv rev_rev_ident set_rev dropWhile_eq_self_iff)

lemma hex_digit_no_space: "n < 16 \<Longrightarrow> \<not> is_space (hex_digit n)"
  by (auto simp: is_space_def hex_digit_def of_char_of take_bit_eq_mod)

lemma hex_encode_plain: "\<forall>c \<in> set (hex_encode s). \<not> is_space c"
proof (induction s)
  case (Cons c s)
  have "of_char c div 16 < (16 :: nat)" using byte_below [of c] by (simp add: less_mult_imp_div_less)
  then show ?case using Cons hex_digit_no_space by auto
qed simp

lemma key_of_written: "length k = masterKeyLength \<Longrightarrow> key_of_file (hex_encode k) = Some k"
  by (simp add: key_of_file_def trim_space_plain [OF hex_encode_plain] hex_roundtrip)

definition key_on_disk :: "disk \<Rightarrow> fpath \<Rightarrow> string option" where
  "key_on_disk d p = (case d p of Some (File s) \<Rightarrow> key_of_file s | _ \<Rightarrow> None)"

lemma key_on_disk_read: "(case os_ReadFile d p of Found s \<Rightarrow> key_of_file s | _ \<Rightarrow> None) = key_on_disk d p"
  by (auto simp: os_ReadFile_def key_on_disk_def split: option.split entry.split)

text \<open>The key that was found or made is found again, as long as the key file is left alone.\<close>

lemma master_key_again:
  assumes "ciphers_ok (mCiphers w)" and "loadMasterKeyInner w = (w1, Inr k)"
    and "mHome w2 = mHome w" and "mEnvKey w2 = mEnvKey w" and "masterKeyFilePath w = Inr p" and "mDisk w2 p = mDisk w1 p"
  shows "loadMasterKeyInner w2 = (w2, Inr k)"
proof -
  have p: "masterKeyFilePath w2 = Inr p" using assms(3,5) by (simp add: masterKeyFilePath_def)
  have "key_on_disk (mDisk w2) p = Some k \<or> key_on_disk (mDisk w2) p = None \<and> mEnvKey w \<noteq> [] \<and> k = mEnvKey w"
  proof (cases "key_on_disk (mDisk w) p = None \<and> mEnvKey w = []")
    case True
    then obtain d where d: "os_WriteFile p (hex_encode k) d = (mDisk w1, None)" "ciRandom (mCiphers w) (mDraws w) masterKeyLength = Inr k"
      using assms(2) unfolding loadMasterKeyInner_def assms(5) sum.case key_on_disk_read
      by (auto simp: random_bytes_def split: prod.splits sum.splits option.splits)
    then have "mDisk w1 p = Some (File (hex_encode k))"
      by (auto simp: os_WriteFile_def abs_write_def split: option.splits if_splits) (metis fun_upd_same)+
    moreover have "length k = masterKeyLength" using assms(1) d(2) by (auto simp: ciphers_ok_def)
    ultimately show ?thesis by (simp add: key_on_disk_def assms(6) key_of_written)
  next
    case False
    then have "w1 = w" "key_on_disk (mDisk w) p = Some k \<or> key_on_disk (mDisk w) p = None \<and> mEnvKey w \<noteq> [] \<and> k = mEnvKey w"
      using assms(2) unfolding loadMasterKeyInner_def assms(5) sum.case key_on_disk_read
      by (auto split: option.splits)
    then show ?thesis by (simp add: key_on_disk_def assms(6))
  qed
  then show ?thesis unfolding loadMasterKeyInner_def p sum.case key_on_disk_read using assms(4) by auto
qed

text \<open>What a call on a file store leaves alone.\<close>

definition same_home :: "fpath \<Rightarrow> 'k machine \<Rightarrow> 'k machine \<Rightarrow> bool" where
  "same_home p w w' \<longleftrightarrow> mHome w' = mHome w \<and> mEnvKey w' = mEnvKey w \<and> mCiphers w' = mCiphers w \<and> mDisk w' p = mDisk w p"

lemma same_home_trans: "same_home p w w1 \<Longrightarrow> same_home p w1 w2 \<Longrightarrow> same_home p w w2"
  by (simp add: same_home_def)

lemma same_home_random: "same_home p w (fst (random_bytes n w))"
  by (simp add: same_home_def random_bytes_def)

lemma saveSecrets_home:
  assumes "p \<noteq> filePath e" and "\<not> prefix p (butlast (filePath e))"
  shows "same_home p w (fst (saveSecrets e xs salt w))"
proof -
  have "fst (os_MkdirAll (butlast (filePath e)) d) p = d p" for d using assms(2) by (simp add: os_MkdirAll_def)
  moreover have "fst (os_WriteFile (filePath e) s d) p = d p" for s d
    using assms(1) by (auto simp: os_WriteFile_def abs_write_def split: option.split)
  ultimately show ?thesis
    by (auto simp: same_home_def saveSecrets_def random_bytes_def Let_def split: prod.splits option.splits sum.splits) (metis fst_conv)+
qed

lemma file_call_home:
  assumes "p \<noteq> filePath e" and "\<not> prefix p (butlast (filePath e))"
  shows "same_home p w (fst (store_call (file_Set e) (file_Delete e) c w))"
proof (cases c)
  case (SetCall k v)
  note saved = saveSecrets_home [OF assms]
  have "same_home p w (fst (saveSecrets e xs salt (fst (random_bytes saltSize w))))" for xs salt
    by (rule same_home_trans [OF same_home_random saved])
  with saved same_home_random [of p w saltSize] show ?thesis
    by (auto simp: SetCall file_Set_def Let_def same_home_def split: load_result.splits option.splits prod.splits sum.splits)
next
  case (DeleteCall k)
  have "fst (os_Remove [] (filePath e) d) p = d p" for d using assms(1) by (simp add: os_Remove_def split: option.split entry.split)
  then show ?thesis using saveSecrets_home [OF assms]
    by (auto simp: DeleteCall file_Delete_def Let_def same_home_def split: load_result.splits option.splits prod.splits os_result.splits)
      (metis fst_conv)+
qed

lemma file_calls_home:
  assumes "p \<noteq> filePath e" and "\<not> prefix p (butlast (filePath e))"
  shows "store_calls (file_Set e) (file_Delete e) cs w = Some w' \<Longrightarrow> same_home p w w'"
proof (induction cs arbitrary: w)
  case (Cons c cs)
  then obtain w1 where w1: "store_call (file_Set e) (file_Delete e) c w = (w1, None)" "store_calls (file_Set e) (file_Delete e) cs w1 = Some w'"
    by (auto split: prod.splits option.splits)
  from file_call_home [OF assms, of w c] w1(1) same_home_trans Cons.IH [OF w1(2)] show ?case by fastforce
qed (simp add: same_home_def)

lemma loadSecrets_cong:
  assumes "mDisk w = mDisk w'" and "mCiphers w = mCiphers w'"
  shows "loadSecrets e w = loadSecrets e w'"
  unfolding loadSecrets_def assms by (rule refl)

lemma loadMasterKeyInner_home:
  "loadMasterKeyInner w = (w1, r) \<Longrightarrow> mHome w1 = mHome w \<and> mEnvKey w1 = mEnvKey w \<and> mCiphers w1 = mCiphers w"
  by (auto simp: loadMasterKeyInner_def random_bytes_def split: option.splits prod.splits sum.splits if_splits)

text \<open>C40. What was stored in the encrypted file of the home directory is read back by a later process: the
  master key that was found or generated in one process is found in the next, and opens the file.
\<close>

theorem secrets_survive_restart:
  assumes "ciphers_ok (mCiphers w)" and "mMasterKey w = None" and "NewEncryptedStore None w = (w1, Inr e)" and "esAvailable e"
    and "\<not> through_file (mDisk w1) (filePath e)" and "shows_map (file_Get e) (\<lambda>_. True) w1 m"
    and "store_calls (file_Set e) (file_Delete e) cs w1 = Some w2"
  shows "\<exists>w3. NewEncryptedStore None (restart w2) = (w3, Inr e) \<and> shows_map (file_Get e) (\<lambda>_. True) w3 (fold map_call cs m)"
proof -
  obtain h where h: "mHome w = Inr h" using assms(3) by (auto simp: NewEncryptedStore_def split: sum.splits)
  let ?p = "h @ [''.kaggen'', ''master.key'']"
  obtain w1' k where k: "loadMasterKeyInner w = (w1', Inr k)" "w1 = w1'\<lparr>mMasterKey := Some (Inr k)\<rparr>"
    "e = \<lparr>filePath = h @ [''.kaggen'', ''secrets.enc''], masterKey = k, esAvailable = True\<rparr>"
    using assms(2-4) h by (auto simp: NewEncryptedStore_def LoadMasterKey_def split: sum.splits prod.splits)
  have p: "?p \<noteq> filePath e" "\<not> prefix ?p (butlast (filePath e))"
    by (simp_all add: k(3) butlast_append)
  have w1: "mHome w1 = mHome w" "mEnvKey w1 = mEnvKey w" "mCiphers w1 = mCiphers w" "mDisk w1 = mDisk w1'"
    using k(2) loadMasterKeyInner_home [OF k(1)] by simp_all
  have s: "same_home ?p w1 w2" by (rule file_calls_home [OF p assms(7)])
  have "file_sound e w1" using assms(1,4,5) w1(3) by (simp add: file_sound_def)
  from encrypted.calls_refine [OF this assms(6) _ assms(7)] have m: "shows_map (file_Get e) (\<lambda>_. True) w2 (fold map_call cs m)" by (simp add: effective_all)
  have "loadMasterKeyInner (restart w2) = (restart w2, Inr k)"
    by (rule master_key_again [OF assms(1) k(1), of _ ?p])
      (use s w1 h in \<open>simp_all add: same_home_def restart_def masterKeyFilePath_def\<close>)
  then have "NewEncryptedStore None (restart w2) = ((restart w2)\<lparr>mMasterKey := Some (Inr k)\<rparr>, Inr e)"
    using s w1(1) h by (simp add: NewEncryptedStore_def LoadMasterKey_def restart_def same_home_def k(3))
  moreover have "shows_map (file_Get e) (\<lambda>_. True) ((restart w2)\<lparr>mMasterKey := Some (Inr k)\<rparr>) (fold map_call cs m)"
  proof -
    have "loadSecrets e ((restart w2)\<lparr>mMasterKey := Some (Inr k)\<rparr>) = loadSecrets e w2"
      by (rule loadSecrets_cong) (simp_all add: restart_def)
    then have "file_Get e l ((restart w2)\<lparr>mMasterKey := Some (Inr k)\<rparr>) = file_Get e l w2" for l
      by (simp only: file_Get_def)
    with m show ?thesis by (simp only: shows_map_def) simp
  qed
  ultimately show ?thesis by blast
qed

section \<open>Loose ends\<close>

text \<open>A file that cannot be opened is neither changed nor replaced.\<close>

lemma unreadable_kept:
  assumes "esAvailable e" and "file_map e w = None"
  shows "fst (file_Set e k v w) = w \<and> snd (file_Set e k v w) \<noteq> None \<and>
    fst (file_Delete e k w) = w \<and> snd (file_Delete e k w) \<noteq> None"
  using assms by (auto simp: file_map_def file_Set_def file_Delete_def split: load_result.splits)

text \<open>When the list of names cannot be read, the next secret replaces it: the others are no longer
  listed, although they can still be read.\<close>

lemma key_list_lost:
  assumes "keyring_ok (mOps w)" and "ring_write k v w = (w1, None)" and "ring_List True w1 = Inl e"
    and "ring_Set True k v w = (w', None)"
  shows "ring_List True w' = Inr [k]"
proof -
  have w2: "ring_write KeyListKey (json_Marshal (JArr (map JStr [k]))) w1 = (w', None)"
    using assms(2-4) by (simp add: ring_Set_def addToKeyList_def)
  have "keyring_ok (mOps w1)" using assms(1) ring_write_get(1) [OF assms(1,2)] by simp
  note b = ring_write_get [OF this w2]
  show ?thesis by (rule ring_List_written) (use b(1,2) in simp)
qed

text \<open>The name under which the list of names is kept is accepted as the name of a secret: the secret is
  replaced by the list, and all other names are lost.\<close>

lemma reserved_name_lost:
  assumes "keyring_ok (mOps w)" and "json_parse v = None" and "ring_Set True KeyListKey v w = (w', None)"
  shows "ring_Get True KeyListKey w' = Inr (json_Marshal (JArr [JStr KeyListKey])) \<and> ring_List True w' = Inr [KeyListKey]"
proof -
  obtain w1 where w1: "ring_write KeyListKey v w = (w1, None)" "addToKeyList True KeyListKey w1 = (w', None)"
    using assms(3) by (auto simp: ring_Set_def split: prod.splits option.splits)
  note a = ring_write_get [OF assms(1) w1(1)]
  have "ring_List True w1 = Inl (SecretError ''invalid JSON'')"
    using a(1,2) by (simp add: ring_List_def json_Unmarshal_def assms(2))
  then have w2: "ring_write KeyListKey (json_Marshal (JArr (map JStr [KeyListKey]))) w1 = (w', None)"
    using w1(2) by (simp add: addToKeyList_def)
  have "keyring_ok (mOps w1)" using assms(1) a(1) by simp
  note b = ring_write_get [OF this w2]
  have "ring_List True w' = Inr [KeyListKey]" by (rule ring_List_written) (use b(1,2) in simp)
  then show ?thesis using b(1,2) by (simp add: ring_Get_def)
qed

section \<open>A small machine\<close>

definition demo_keyring :: "(string \<times> string \<rightharpoonup> string) keyring_ops" where
  "demo_keyring =
     \<lparr>krGet = (\<lambda>s u r. case r (s, u) of Some v \<Rightarrow> Inr v | None \<Rightarrow> Inl ErrNotFound),
      krSet = (\<lambda>s u v r. (r((s, u) \<mapsto> v), None)),
      krDelete = (\<lambda>s u r. if r (s, u) = None then (r, Some ErrNotFound) else (r((s, u) := None), None))\<rparr>"

definition demo_ciphers :: ciphers where
  "demo_ciphers =
     \<lparr>ciIDKey = (\<lambda>p s. take 32 (p @ s @ replicate 32 CHR ''x'')), ciSeal = (\<lambda>k n t. k @ t),
      ciOpen = (\<lambda>k n t. if has_prefix t k then Some (drop (length k) t) else None),
      ciRandom = (\<lambda>i n. Inr (replicate n CHR ''a''))\<rparr>"

definition demo_machine :: "(string \<times> string \<rightharpoonup> string) machine" where
  "demo_machine =
     \<lparr>mOps = demo_keyring, mCiphers = demo_ciphers, mHome = Inr [''home''], mEnvKey = '''', mRing = Map.empty,
      mDisk = [[] \<mapsto> Dir], mDraws = 0, mMasterKey = None, mMemory = []\<rparr>"

lemma demo_libraries: "keyring_ok demo_keyring" "ciphers_ok demo_ciphers"
  by (auto simp: keyring_ok_def demo_keyring_def ciphers_ok_def demo_ciphers_def has_prefix_def split: if_splits)

theorem stores_refine_witness:
  "\<exists>w'. store_calls (store_Set (KeychainStore True)) (store_Delete (KeychainStore True))
       [SetCall ''a'' ''1'', SetCall ''b'' ''2'', DeleteCall ''a''] demo_machine = Some w' \<and>
     store_Get (KeychainStore True) ''a'' w' = Inl ErrSecretNotFound \<and> store_Get (KeychainStore True) ''b'' w' = Inr ''2''"
proof -
  let ?cs = "[SetCall ''a'' ''1'', SetCall ''b'' ''2'', DeleteCall ''a'']"
  have "mOps w = demo_keyring \<Longrightarrow> \<exists>w1. ring_Set True k v w = (w1, None) \<and> mOps w1 = demo_keyring" for k v and w :: "(string \<times> string \<rightharpoonup> string) machine"
    by (simp add: ring_Set_def ring_write_def addToKeyList_def demo_keyring_def Let_def)
  moreover have "mOps w = demo_keyring \<Longrightarrow> \<exists>w1. ring_Delete True k w = (w1, None)" for k and w :: "(string \<times> string \<rightharpoonup> string) machine"
    by (simp add: ring_Delete_def ring_write_def removeFromKeyList_def demo_keyring_def ErrNotFound_missing Let_def split: sum.split)
  moreover have "mOps demo_machine = demo_keyring" by (simp add: demo_machine_def)
  ultimately obtain w1 w2 w' where w: "ring_Set True ''a'' ''1'' demo_machine = (w1, None)" "ring_Set True ''b'' ''2'' w1 = (w2, None)"
    "ring_Delete True ''a'' w2 = (w', None)" "mOps w1 = demo_keyring" "mOps w2 = demo_keyring" by metis
  then have c: "store_calls (store_Set (KeychainStore True)) (store_Delete (KeychainStore True)) ?cs demo_machine = Some w'" by simp
  have "\<not> ring_misread ''a'' w2" using w(5) by (simp add: ring_misread_def demo_keyring_def)
  then have e: "effective (store_Set (KeychainStore True)) (store_Delete (KeychainStore True)) (store_ignored (KeychainStore True)) ?cs demo_machine = ?cs"
    using w by simp
  have "shows_map (store_Get (KeychainStore True)) (store_good (KeychainStore True)) demo_machine Map.empty"
    by (simp add: shows_map_def ring_Get_def demo_machine_def demo_keyring_def ErrNotFound_missing)
  from stores_refine [OF _ this _ c] e demo_libraries(1)
  have "shows_map (store_Get (KeychainStore True)) (store_good (KeychainStore True)) w' [''b'' \<mapsto> ''2'']"
    by (simp add: demo_machine_def KeyListKey_def fun_upd_twist)
  with c show ?thesis by (auto simp: shows_map_def KeyListKey_def)
qed

text \<open>A key ring whose tool is gone: the deletion of a secret succeeds, and the secret is still there.\<close>

definition toolless_keyring :: "(string \<times> string \<rightharpoonup> string) keyring_ops" where
  "toolless_keyring = demo_keyring\<lparr>krDelete := (\<lambda>s u r. (r, Some ''executable file not found in $PATH''))\<rparr>"

lemma delete_without_effect:
  "\<exists>w'. ring_Delete True ''a'' (demo_machine\<lparr>mOps := toolless_keyring, mRing := [(ServiceName, ''a'') \<mapsto> ''1'']\<rparr>) = (w', None) \<and>
     ring_Get True ''a'' w' = Inr ''1''"
proof -
  have "missing_text ''executable file not found in $PATH''" by code_simp
  then show ?thesis
    by (simp add: ring_Delete_def removeFromKeyList_def ring_List_def ring_Get_def toolless_keyring_def demo_keyring_def demo_machine_def
        ErrNotFound_missing KeyListKey_def Let_def)
qed

definition home_disk :: disk where
  "home_disk = (\<lambda>q. if q = [''home'', ''.kaggen'', ''master.key''] then Some (File (hex_encode (replicate 32 CHR ''a'')))
     else if prefix q [''home'', ''.kaggen''] then Some Dir else None)"

definition demo_store :: encrypted_store where
  "demo_store = \<lparr>filePath = [''home'', ''.kaggen'', ''secrets.enc''], masterKey = replicate 32 CHR ''a'', esAvailable = True\<rparr>"

lemma demo_new_store:
  "NewEncryptedStore None demo_machine =
     (demo_machine\<lparr>mDraws := 1, mDisk := home_disk, mMasterKey := Some (Inr (replicate 32 CHR ''a''))\<rparr>, Inr demo_store)"
proof -
  have d: "fst (os_MkdirAll [''home'', ''.kaggen''] [[] \<mapsto> Dir]) = (\<lambda>q. if prefix q [''home'', ''.kaggen''] then Some Dir else None)"
    "snd (os_MkdirAll [''home'', ''.kaggen''] [[] \<mapsto> Dir]) = None"
    by (auto simp: os_MkdirAll_def mkdir_blocked_def)
  have "os_WriteFile [''home'', ''.kaggen'', ''master.key''] s (\<lambda>q. if prefix q [''home'', ''.kaggen''] then Some Dir else None) =
      ((\<lambda>q. if prefix q [''home'', ''.kaggen''] then Some Dir else None)([''home'', ''.kaggen'', ''master.key''] \<mapsto> File s), None)" for s
    by (simp add: os_WriteFile_def abs_write_def)
  then have "loadMasterKeyInner demo_machine = (demo_machine\<lparr>mDraws := 1, mDisk := home_disk\<rparr>, Inr (replicate 32 CHR ''a''))"
    using d by (simp add: loadMasterKeyInner_def masterKeyFilePath_def demo_machine_def demo_ciphers_def random_bytes_def os_ReadFile_def
        through_file_def masterKeyLength_def prod.case_eq_if) (simp add: home_disk_def fun_eq_iff)
  moreover have "mMasterKey demo_machine = None" "mHome demo_machine = Inr [''home'']" by (simp_all add: demo_machine_def)
  ultimately show ?thesis by (simp add: NewEncryptedStore_def LoadMasterKey_def demo_store_def)
qed

theorem secrets_survive_restart_witness:
  "\<exists>w1 w2 w3. NewEncryptedStore None demo_machine = (w1, Inr demo_store) \<and> file_Set demo_store ''a'' ''1'' w1 = (w2, None) \<and>
     NewEncryptedStore None (restart w2) = (w3, Inr demo_store) \<and> file_Get demo_store ''a'' w3 = Inr ''1''"
proof -
  let ?w1 = "demo_machine\<lparr>mDraws := 1, mDisk := home_disk, mMasterKey := Some (Inr (replicate 32 CHR ''a''))\<rparr>"
  have t: "\<not> through_file home_disk (filePath demo_store)" "home_disk (filePath demo_store) = None"
    by (simp_all add: through_file_def home_disk_def demo_store_def upt_rec)
  then have m: "loadSecrets demo_store ?w1 = LoadMissing" by (simp add: loadSecrets_def os_ReadFile_def)
  have "\<not> mkdir_blocked home_disk [''home'', ''.kaggen'']" by (simp add: mkdir_blocked_def home_disk_def upt_rec)
  then have "\<exists>w2. file_Set demo_store ''a'' ''1'' ?w1 = (w2, None)"
    using demo_libraries(2) m
    by (simp add: file_Set_def saveSecrets_def random_bytes_def ciphers_ok_def aes_key_def os_MkdirAll_def os_WriteFile_def abs_write_def Let_def
        demo_machine_def) (simp add: demo_store_def demo_ciphers_def home_disk_def)
  then obtain w2 where w2: "file_Set demo_store ''a'' ''1'' ?w1 = (w2, None)" by blast
  have "shows_map (file_Get demo_store) (\<lambda>_. True) ?w1 Map.empty" using m by (simp add: shows_map_def file_Get_def demo_store_def)
  with secrets_survive_restart [OF _ _ demo_new_store _ _ this, of "[SetCall ''a'' ''1'']" w2] demo_libraries(2) t(1) w2
  obtain w3 where "NewEncryptedStore None (restart w2) = (w3, Inr demo_store)" "shows_map (file_Get demo_store) (\<lambda>_. True) w3 [''a'' \<mapsto> ''1'']"
    by (auto simp: demo_store_def demo_machine_def)
  with demo_new_store w2 show ?thesis by (fastforce simp: shows_map_def)
qed

end
