(* ===== verification/ConfigUpdate.thy ===== *)
theory ConfigUpdate
  imports Configuration
begin

text \<open>
  The configuration on the dashboard (\<open>internal/gateway/dashboard.go\<close>: \<open>HandleConfig\<close>,
  \<open>HandleConfigUpdate\<close> and their helpers).  A Go map is a list of members without a name twice.
  Shown are what the view hides, that an update keeps the configuration typed, and what saving the
  view unchanged does.
\<close>

section \<open>The view\<close>

type_synonym json_map = "(string \<times> json) list"

definition stars :: json where
  "stars = JStr ''***''"

fun redactNestedKey :: "string list \<Rightarrow> json_map \<Rightarrow> json_map" where
  "redactNestedKey [] m = m"
| "redactNestedKey [k] m = (if map_of m k \<noteq> None then AList.update k stars m else m)"
| "redactNestedKey (k # l # ks) m =
     (case map_of m k of
        Some (JObj n) \<Rightarrow> AList.update k (JObj (redactNestedKey (l # ks) n)) m
      | _ \<Rightarrow> m)"

definition redactMapPasswords :: "string \<Rightarrow> string \<Rightarrow> string \<Rightarrow> json_map \<Rightarrow> json_map" where
  "redactMapPasswords mapKey entriesKey fieldKey m =
     (case map_of m mapKey of
        Some (JObj outer) \<Rightarrow>
          (case map_of outer entriesKey of
             Some (JObj entries) \<Rightarrow>
               AList.update mapKey
                 (JObj (AList.update entriesKey
                   (JObj (map (\<lambda>(n, v). (n, case v of JObj e \<Rightarrow> JObj (redactNestedKey [fieldKey] e) | _ \<Rightarrow> v)) entries)) outer)) m
           | _ \<Rightarrow> m)
      | _ \<Rightarrow> m)"

text \<open>A configuration written and read back into a map.\<close>

definition config_map :: "floats \<Rightarrow> go_value \<Rightarrow> json_map" where
  "config_map cn c = (case fst (any_value cn (json_encode Config_type c)) of JObj ms \<Rightarrow> ms | _ \<Rightarrow> [])"

definition redact_map :: "json_map \<Rightarrow> json_map" where
  "redact_map m =
     redactMapPasswords ''oauth'' ''providers'' ''client_secret''
     (redactMapPasswords ''ssh'' ''hosts'' ''passphrase''
     (redactMapPasswords ''ssh'' ''hosts'' ''password''
     (redactMapPasswords ''mqtt'' ''brokers'' ''password''
     (redactMapPasswords ''databases'' ''connections'' ''password''
     (redactNestedKey [''web_search'', ''api_key'']
     (redactNestedKey [''proactive'', ''webhooks'']
     (redactNestedKey [''session'', ''postgres'', ''password'']
     (redactNestedKey [''session'', ''redis'', ''password'']
     (redactNestedKey [''channels'', ''telegram'', ''bot_token''] m)))))))))"

definition HandleConfig :: "floats \<Rightarrow> go_value \<Rightarrow> json" where
  "HandleConfig cn c = JObj (redact_map (config_map cn c))"

section \<open>Merging an update\<close>

definition sensitiveKeys :: "string list" where
  "sensitiveKeys = [''bot_token'', ''password'', ''passphrase'', ''api_key'', ''client_secret'', ''secret'']"

fun mergeConfigMaps :: "json_map \<Rightarrow> json_map \<Rightarrow> json_map" where
  "mergeConfigMaps dst [] = dst"
| "mergeConfigMaps dst ((k, v) # src) =
     mergeConfigMaps
       (if v = JNull then dst
        else if k \<in> set sensitiveKeys \<and> (v = JStr '''' \<or> v = stars) then dst
        else (case v of
                JObj sm \<Rightarrow>
                  (case map_of dst k of
                     Some (JObj dm) \<Rightarrow> AList.update k (JObj (mergeConfigMaps dm sm)) dst
                   | _ \<Rightarrow> AList.update k v dst)
              | _ \<Rightarrow> AList.update k v dst)) src"

section \<open>Validating\<close>

definition member :: "string \<Rightarrow> json_map \<Rightarrow> json_map option" where
  "member k m = (case map_of m k of Some (JObj n) \<Rightarrow> Some n | _ \<Rightarrow> None)"

text \<open>The order of float64 texts is a parameter.\<close>

type_synonym float_less = "string \<Rightarrow> string \<Rightarrow> bool"

definition outside :: "float_less \<Rightarrow> string \<Rightarrow> string \<Rightarrow> json_map \<Rightarrow> string \<Rightarrow> bool" where
  "outside lt lo hi m k = (case map_of m k of Some (JNum s) \<Rightarrow> lt s lo \<or> lt hi s | _ \<Rightarrow> False)"

definition json_field_types :: "(string \<times> string \<times> go_type) list" where
  "json_field_types =
    [(''proactive'', ''jobs'', TList CronJobConfig_type),
     (''proactive'', ''webhooks'', TList WebhookConfig_type),
     (''proactive'', ''heartbeats'', TList HeartbeatConfig_type),
     (''databases'', ''connections'', TMap DatabaseConnection_type),
     (''mqtt'', ''brokers'', TMap MQTTBroker_type),
     (''ssh'', ''hosts'', TMap SSHHost_type),
     (''oauth'', ''providers'', TMap OAuthProvider_type),
     (''approval'', ''auto_approve'', TList AutoApproveRule_type)]"

definition validateJSONFields :: "floats \<Rightarrow> json_map \<Rightarrow> string list" where
  "validateJSONFields cn m =
     concat (map (\<lambda>(s, f, t).
       (case member s m of
          None \<Rightarrow> []
        | Some n \<Rightarrow>
            (case map_of n f of
               None \<Rightarrow> []
             | Some v \<Rightarrow>
                 if v \<noteq> JNull \<and> snd (json_decode cn t v (zero_value t))
                 then [s @ ''.'' @ f @ '': json: cannot unmarshal''] else []))) json_field_types)"

definition validateConfigMap :: "floats \<Rightarrow> float_less \<Rightarrow> json_map \<Rightarrow> string list" where
  "validateConfigMap cn lt m =
     (case member ''gateway'' m of
        Some g \<Rightarrow> if outside lt ''1'' ''65535'' g ''port'' then [''gateway.port must be 1-65535''] else [] | None \<Rightarrow> []) @
     (case member ''p2p'' m of
        Some p \<Rightarrow>
          if map_of p ''enabled'' = Some (JBool True) \<and> outside lt ''1'' ''65535'' p ''port'' then [''p2p.port must be 1-65535''] else []
      | None \<Rightarrow> []) @
     (case member ''reasoning'' m of
        Some r \<Rightarrow>
          if outside lt ''0'' ''1'' r ''escalation_threshold'' then [''reasoning.escalation_threshold must be 0-1''] else []
      | None \<Rightarrow> []) @
     validateJSONFields cn m"

section \<open>The update\<close>

datatype config_reply =
  HTTPStatus nat string
| Invalid "string list"
| SavedReply bool "string option"

text \<open>The request's method and body; whether a peer-to-peer node runs, and the function that starts
  one, which may be missing and may fail.\<close>

record update_request =
  urMethod :: string
  urBody :: string

record p2p_control =
  pcRunning :: bool
  pcStart :: "string option option"

text \<open>\<open>json.NewDecoder\<close> reads the first value of the body.\<close>

definition decode_updates :: "floats \<Rightarrow> string \<Rightarrow> json_map option" where
  "decode_updates cn body =
     (case parse_value (2 * length body + 2) body of
        None \<Rightarrow> None
      | Some (JNull, _) \<Rightarrow> Some []
      | Some (JObj ms, _) \<Rightarrow> (case any_value cn (JObj ms) of (JObj m, False) \<Rightarrow> Some m | _ \<Rightarrow> None)
      | Some _ \<Rightarrow> None)"

definition HandleConfigUpdate ::
  "floats \<Rightarrow> float_less \<Rightarrow> p2p_control \<Rightarrow> fpath \<Rightarrow> update_request \<Rightarrow> go_value \<Rightarrow> disk \<Rightarrow> go_value \<times> disk \<times> config_reply" where
  "HandleConfigUpdate cn lt pc p r c d =
     (if urMethod r = ''OPTIONS'' then (c, d, HTTPStatus 200 '''')
      else if urMethod r \<noteq> ''PUT'' \<and> urMethod r \<noteq> ''POST'' then (c, d, HTTPStatus 405 ''PUT or POST required'')
      else
        (case decode_updates cn (urBody r) of
           None \<Rightarrow> (c, d, HTTPStatus 400 ''invalid JSON'')
         | Some updates \<Rightarrow>
             (let merged = mergeConfigMaps (config_map cn c) updates; errs = validateConfigMap cn lt merged in
              if errs \<noteq> [] then (c, d, Invalid errs)
              else
                (case json_decode cn Config_type (JObj merged) (zero_value Config_type) of
                   (n, True) \<Rightarrow> (c, d, HTTPStatus 400 ''failed to parse config: json: cannot unmarshal'')
                 | (n, False) \<Rightarrow>
                     (case Save p n d of
                        (d', Some e) \<Rightarrow> (n, d', HTTPStatus 500 (''failed to save config: '' @ e))
                      | (d', None) \<Rightarrow>
                          (let justEnabled = (bool_of (cfg [''p2p'', ''enabled''] n) \<and> \<not> pcRunning pc) in
                           (n, d',
                            case pcStart pc of
                              Some err \<Rightarrow> if justEnabled then SavedReply (err = None) err else SavedReply False None
                            | None \<Rightarrow> SavedReply False None)))))))"

section \<open>Cross-origin requests\<close>

definition setCORSHeaders :: "string list \<Rightarrow> string \<Rightarrow> string option" where
  "setCORSHeaders allowed origin =
     (if origin = '''' then None else if list_ex (has_prefix origin) allowed then Some origin else None)"

section \<open>What the view hides\<close>

fun jget :: "string list \<Rightarrow> json \<Rightarrow> json option" where
  "jget [] v = Some v"
| "jget (k # ks) (JObj m) = (case map_of m k of Some v \<Rightarrow> jget ks v | None \<Rightarrow> None)"
| "jget (k # ks) _ = None"

definition hidden :: "string list \<Rightarrow> json \<Rightarrow> bool" where
  "hidden p v \<longleftrightarrow> jget p v = None \<or> jget p v = Some stars"

lemma hidden_Cons:
  "hidden (k # p) (JObj m) \<longleftrightarrow> (case map_of m k of Some v \<Rightarrow> hidden p v | None \<Rightarrow> True)"
  by (auto simp: hidden_def split: option.splits)

lemma hidden_stars: "hidden p stars"
  by (cases p) (auto simp: hidden_def stars_def)

lemma map_of_update: "map_of (AList.update k v m) = (map_of m)(k \<mapsto> v)"
  by (rule ext) (simp add: update_conv)

lemma redactNestedKey_hidden: "hidden p (JObj m) \<Longrightarrow> p \<noteq> [] \<Longrightarrow> hidden p (JObj (redactNestedKey ks m))"
proof (induction ks m arbitrary: p rule: redactNestedKey.induct)
  case (2 k m)
  then show ?case by (cases p) (auto simp: hidden_Cons map_of_update hidden_stars split: option.splits)
next
  case (3 k l ks m)
  obtain q p' where p: "p = q # p'" using "3.prems"(2) by (cases p) auto
  show ?case
  proof (cases "\<exists>n. map_of m k = Some (JObj n) \<and> q = k")
    case True
    then obtain n where n: "map_of m k = Some (JObj n)" "q = k" by blast
    then have h: "hidden p' (JObj n)" using "3.prems"(1) by (simp add: p hidden_Cons)
    moreover have "p' \<noteq> []" using h by (auto simp: hidden_def stars_def)
    ultimately have "hidden p' (JObj (redactNestedKey (l # ks) n))" using "3.IH" n(1) by blast
    then show ?thesis using n by (simp add: p hidden_Cons map_of_update)
  next
    case False
    then show ?thesis using "3.prems"(1)
      by (auto simp: p hidden_Cons map_of_update split: option.splits json.splits)
  qed
qed simp

lemma redactNestedKey_hides: "ks \<noteq> [] \<Longrightarrow> hidden ks (JObj (redactNestedKey ks m))"
proof (induction ks m rule: redactNestedKey.induct)
  case (2 k m)
  then show ?case by (auto simp: hidden_Cons map_of_update hidden_def split: option.splits)
next
  case (3 k l ks m)
  show ?case
  proof (cases "\<exists>n. map_of m k = Some (JObj n)")
    case True
    then show ?thesis using "3.IH" by (auto simp: hidden_Cons map_of_update)
  next
    case False
    then show ?thesis by (auto simp: hidden_def split: option.splits json.splits)
  qed
qed simp

lemma map_of_map_value: "map_of (map (\<lambda>(n, v). (n, f v)) m) k = map_option f (map_of m k)"
  by (induction m) auto

lemma redactMapPasswords_hidden:
  assumes "hidden p (JObj m)" and "p \<noteq> []"
  shows "hidden p (JObj (redactMapPasswords a b f m))"
proof (cases "\<exists>out ent. map_of m a = Some (JObj out) \<and> map_of out b = Some (JObj ent)")
  case True
  then obtain out ent where m: "map_of m a = Some (JObj out)" "map_of out b = Some (JObj ent)" by blast
  obtain q p' where p: "p = q # p'" using assms(2) by (cases p) auto
  let ?red = "\<lambda>v. case v of JObj e \<Rightarrow> JObj (redactNestedKey [f] e) | _ \<Rightarrow> v"
  have v: "hidden r v \<Longrightarrow> r \<noteq> [] \<Longrightarrow> hidden r (?red v)" for r v
    by (cases v) (auto intro: redactNestedKey_hidden simp del: redactNestedKey.simps)
  have r: "redactMapPasswords a b f m =
      AList.update a (JObj (AList.update b (JObj (map (\<lambda>(n, v). (n, ?red v)) ent)) out)) m"
    by (simp add: redactMapPasswords_def m del: redactNestedKey.simps)
  have ne: "hidden [] (JObj x) \<Longrightarrow> False" for x by (simp add: hidden_def stars_def)
  have e: "hidden r (JObj ent) \<Longrightarrow> hidden r (JObj (map (\<lambda>(n, v). (n, ?red v)) ent))" for r
  proof (cases r)
    case (Cons n r')
    assume h: "hidden r (JObj ent)"
    show ?thesis
    proof (cases "map_of ent n")
      case (Some w)
      with h Cons have "hidden r' w" by (simp add: hidden_Cons)
      then have "hidden r' (?red w)" using v [of r' w] by (cases r'; cases w) (auto simp: hidden_def stars_def)
      then show ?thesis using Some by (simp add: Cons hidden_Cons map_of_map_value del: redactNestedKey.simps)
    qed (simp add: Cons hidden_Cons map_of_map_value)
  qed (use ne in blast)
  show ?thesis
  proof (cases "q = a")
    case True
    then have h: "hidden p' (JObj out)" using assms(1) m(1) by (simp add: p hidden_Cons)
    then obtain q' p'' where p': "p' = q' # p''" using ne by (cases p') auto
    have "hidden p' (JObj (AList.update b (JObj (map (\<lambda>(n, v). (n, ?red v)) ent)) out))"
      using h e [of p''] m(2) by (cases "q' = b") (simp_all add: p' hidden_Cons map_of_update del: redactNestedKey.simps)
    then show ?thesis using True by (simp add: r p hidden_Cons map_of_update)
  next
    case False
    then show ?thesis using assms(1) by (simp add: r p hidden_Cons map_of_update)
  qed
next
  case False
  then have "redactMapPasswords a b f m = m"
    by (auto simp: redactMapPasswords_def split: option.splits json.splits)
  with assms(1) show ?thesis by simp
qed

lemma redactMapPasswords_hides: "hidden [a, b, n, f] (JObj (redactMapPasswords a b f m))"
  by (auto simp: redactMapPasswords_def hidden_def map_of_update map_of_map_value split: option.splits json.splits)

definition secret_fields :: "string list list" where
  "secret_fields =
    [[''channels'', ''telegram'', ''bot_token''], [''session'', ''redis'', ''password''], [''session'', ''postgres'', ''password''],
     [''proactive'', ''webhooks''], [''web_search'', ''api_key'']]"

definition secret_entries :: "(string \<times> string \<times> string) list" where
  "secret_entries =
    [(''databases'', ''connections'', ''password''), (''mqtt'', ''brokers'', ''password''), (''ssh'', ''hosts'', ''password''),
     (''ssh'', ''hosts'', ''passphrase''), (''oauth'', ''providers'', ''client_secret'')]"

lemmas hidden_steps = redactNestedKey_hides redactMapPasswords_hides redactNestedKey_hidden redactMapPasswords_hidden

text \<open>C35. The view of the configuration never shows a secret: wherever a bot token, a password, a passphrase,
  an API key, a client secret or the list of webhooks may stand, it shows three stars or nothing.
\<close>

theorem view_hides_secrets:
  "(\<forall>p \<in> set secret_fields. hidden p (HandleConfig cn c)) \<and>
   (\<forall>(a, b, f) \<in> set secret_entries. \<forall>n. hidden [a, b, n, f] (HandleConfig cn c))"
  unfolding secret_fields_def secret_entries_def HandleConfig_def redact_map_def
    list.set ball_simps prod.case bot_empty_eq
  by (intro conjI allI) (rule TrueI hidden_steps list.distinct(2))+

text \<open>The view of a configuration with a bot token.\<close>

theorem view_hides_secrets_witness:
  "hidden [''channels'', ''telegram'', ''bot_token'']
     (HandleConfig token_floats (set_at [''channels'', ''telegram'', ''bot_token''] (VString ''token'') Config_type DefaultConfig))"
  using view_hides_secrets [of token_floats "set_at [''channels'', ''telegram'', ''bot_token''] (VString ''token'') Config_type DefaultConfig"]
  by (simp add: secret_fields_def)

section \<open>Merging what was shown\<close>

text \<open>No object within the value has a name twice.\<close>

fun unique_names :: "json \<Rightarrow> bool" where
  "unique_names (JObj ms) \<longleftrightarrow> distinct (map fst ms) \<and> (\<forall>(k, v) \<in> set ms. unique_names v)"
| "unique_names _ \<longleftrightarrow> True"

text \<open>Merging the second value over the first, under a name, leaves the first.\<close>

inductive absorbs :: "string \<Rightarrow> json \<Rightarrow> json \<Rightarrow> bool" where
  absorbs_same: "(\<forall>ms. v \<noteq> JObj ms) \<Longrightarrow> absorbs k v v"
| absorbs_secret: "k \<in> set sensitiveKeys \<Longrightarrow> absorbs k v stars"
| absorbs_object: "(\<forall>(k, w) \<in> set b. \<exists>v. map_of a k = Some v \<and> absorbs k v w) \<Longrightarrow> absorbs l (JObj a) (JObj b)"

inductive_cases absorbs_objectE: "absorbs k v (JObj b)"

definition absorbs_map :: "json_map \<Rightarrow> json_map \<Rightarrow> bool" where
  "absorbs_map a b \<longleftrightarrow> (\<forall>(k, w) \<in> set b. \<exists>v. map_of a k = Some v \<and> absorbs k v w)"

lemma absorbs_refl: "unique_names v \<Longrightarrow> absorbs k v v"
proof (induction v arbitrary: k)
  case (JObj ms)
  have "\<exists>v. map_of ms k = Some v \<and> absorbs k v w" if "(k, w) \<in> set ms" for k w
    using JObj that by (intro exI [of _ w]) (force intro: map_of_is_SomeI)
  then show ?case by (intro absorbs_object) auto
qed (auto intro: absorbs_same)

lemma absorbs_map_refl: "unique_names (JObj m) \<Longrightarrow> absorbs_map m m"
  unfolding absorbs_map_def by (auto intro!: exI map_of_is_SomeI absorbs_refl)

lemma update_same: "map_of m k = Some v \<Longrightarrow> AList.update k v m = m"
  by (induction m) (auto split: if_splits)

lemma merge_absorbed: "absorbs_map dst src \<Longrightarrow> mergeConfigMaps dst src = dst"
proof (induction dst src rule: mergeConfigMaps.induct)
  case (2 dst k v src)
  obtain w where w: "map_of dst k = Some w" "absorbs k w v" using "2.prems" by (auto simp: absorbs_map_def)
  have src: "absorbs_map dst src" using "2.prems" by (auto simp: absorbs_map_def)
  let ?step = "if v = JNull then dst
        else if k \<in> set sensitiveKeys \<and> (v = JStr '''' \<or> v = stars) then dst
        else (case v of
                JObj sm \<Rightarrow>
                  (case map_of dst k of
                     Some (JObj dm) \<Rightarrow> AList.update k (JObj (mergeConfigMaps dm sm)) dst
                   | _ \<Rightarrow> AList.update k v dst)
              | _ \<Rightarrow> AList.update k v dst)"
  have "?step = dst"
    using w(2)
  proof cases
    case absorbs_same
    then show ?thesis using w(1) by (cases v) (auto simp: update_same)
  next
    case absorbs_secret
    then show ?thesis by simp
  next
    case (absorbs_object b a)
    have "mergeConfigMaps a b = a"
    proof (rule "2.IH"(1))
      show "absorbs_map a b" using absorbs_object(3) by (simp add: absorbs_map_def)
    qed (use w(1) absorbs_object in \<open>auto simp: stars_def\<close>)
    then show ?thesis using w(1) absorbs_object(1,2) by (simp add: update_same)
  qed
  then show ?case using "2.IH"(2) src by simp
qed simp

lemma set_update_subset: "set (AList.update k v m) \<subseteq> insert (k, v) (set m)"
  by (induction m) auto

lemma absorbs_map_update:
  "absorbs_map a b \<Longrightarrow> map_of a k = Some v \<Longrightarrow> absorbs k v w \<Longrightarrow> absorbs_map a (AList.update k w b)"
  using set_update_subset [of k w b] by (force simp: absorbs_map_def)

lemma absorbs_map_get: "absorbs_map a b \<Longrightarrow> map_of b k = Some w \<Longrightarrow> \<exists>v. map_of a k = Some v \<and> absorbs k v w"
  by (auto simp: absorbs_map_def dest: map_of_SomeD)

lemma absorbs_inner:
  assumes "absorbs_map a b" and "map_of b k = Some (JObj n)"
  obtains m where "map_of a k = Some (JObj m)" "absorbs_map m n"
proof -
  obtain v where v: "map_of a k = Some v" "absorbs k v (JObj n)" using absorbs_map_get [OF assms] by blast
  from v(2) show ?thesis by (cases rule: absorbs_objectE) (use that v(1) in \<open>auto simp: stars_def absorbs_map_def\<close>)
qed

lemma absorbs_object': "absorbs_map a b \<Longrightarrow> absorbs k (JObj a) (JObj b)"
  by (rule absorbs_object) (simp add: absorbs_map_def)

lemma redactNestedKey_absorbed:
  "absorbs_map a b \<Longrightarrow> ks \<noteq> [] \<Longrightarrow> last ks \<in> set sensitiveKeys \<Longrightarrow> absorbs_map a (redactNestedKey ks b)"
proof (induction ks b arbitrary: a rule: redactNestedKey.induct)
  case (2 k m)
  show ?case
  proof (cases "map_of m k")
    case None
    then show ?thesis using "2.prems"(1) by simp
  next
    case (Some w)
    then obtain v where "map_of a k = Some v" using absorbs_map_get [OF "2.prems"(1)] by blast
    from absorbs_map_update [OF "2.prems"(1) this absorbs_secret] Some "2.prems"(3) show ?thesis by simp
  qed
next
  case (3 k l ks m)
  show ?case
  proof (cases "\<exists>n. map_of m k = Some (JObj n)")
    case True
    then obtain n where n: "map_of m k = Some (JObj n)" by blast
    obtain o' where o': "map_of a k = Some (JObj o')" "absorbs_map o' n" by (rule absorbs_inner [OF "3.prems"(1) n])
    have "absorbs_map o' (redactNestedKey (l # ks) n)" using "3.IH" n o'(2) "3.prems"(3) by simp
    then show ?thesis using absorbs_map_update [OF "3.prems"(1) o'(1) absorbs_object'] n by simp
  next
    case False
    then show ?thesis using "3.prems"(1) by (auto split: option.splits json.splits)
  qed
qed simp

lemma redactMapPasswords_absorbed:
  assumes "absorbs_map m m'" and "f \<in> set sensitiveKeys"
  shows "absorbs_map m (redactMapPasswords a b f m')"
proof (cases "\<exists>out ent. map_of m' a = Some (JObj out) \<and> map_of out b = Some (JObj ent)")
  case True
  then obtain out ent where m': "map_of m' a = Some (JObj out)" "map_of out b = Some (JObj ent)" by blast
  obtain out1 where o1: "map_of m a = Some (JObj out1)" "absorbs_map out1 out" by (rule absorbs_inner [OF assms(1) m'(1)])
  obtain ent1 where e1: "map_of out1 b = Some (JObj ent1)" "absorbs_map ent1 ent" by (rule absorbs_inner [OF o1(2) m'(2)])
  let ?red = "\<lambda>v. case v of JObj e \<Rightarrow> JObj (redactNestedKey [f] e) | _ \<Rightarrow> v"
  have red: "absorbs k v (?red w)" if "absorbs k v w" for k v w
  proof (cases w)
    case (JObj e)
    with that show ?thesis
      by (cases rule: absorbs_objectE [of k v e])
        (auto simp: stars_def absorbs_map_def [symmetric] simp del: redactNestedKey.simps
          intro!: absorbs_object' redactNestedKey_absorbed assms(2))
  qed (use that in auto)
  have "absorbs_map ent1 (map (\<lambda>(n, v). (n, ?red v)) ent)"
    using e1(2) red unfolding absorbs_map_def by (fastforce simp del: redactNestedKey.simps)
  then have "absorbs_map m (AList.update a (JObj (AList.update b (JObj (map (\<lambda>(n, v). (n, ?red v)) ent)) out)) m')"
    by (intro absorbs_map_update [OF assms(1) o1(1)] absorbs_object' absorbs_map_update [OF o1(2) e1(1)])
  then show ?thesis by (simp add: redactMapPasswords_def m' del: redactNestedKey.simps)
next
  case False
  then have "redactMapPasswords a b f m' = m'"
    by (auto simp: redactMapPasswords_def split: option.splits json.splits)
  with assms(1) show ?thesis by simp
qed

text \<open>The redactions leave the other members of the outermost object alone.\<close>

lemma redactNestedKey_other: "ks \<noteq> [] \<Longrightarrow> hd ks \<noteq> k \<Longrightarrow> map_of (redactNestedKey ks m) k = map_of m k"
  by (induction ks m rule: redactNestedKey.induct) (auto simp: map_of_update split: option.splits json.splits)

lemma redactMapPasswords_other: "a \<noteq> k \<Longrightarrow> map_of (redactMapPasswords a b f m) k = map_of m k"
  by (auto simp: redactMapPasswords_def map_of_update split: option.splits json.splits)

definition has_webhooks :: "json_map \<Rightarrow> bool" where
  "has_webhooks m \<longleftrightarrow> (case member ''proactive'' m of Some n \<Rightarrow> map_of n ''webhooks'' \<noteq> None | None \<Rightarrow> False)"

lemma redact_no_webhooks:
  assumes "map_of x ''proactive'' = map_of m ''proactive''" and "\<not> has_webhooks m"
  shows "redactNestedKey [''proactive'', ''webhooks''] x = x"
proof (cases "map_of m ''proactive''")
  case (Some v)
  then show ?thesis using assms by (cases v) (simp_all add: has_webhooks_def member_def update_same)
qed (use assms in simp)

lemma redact_absorbed:
  assumes "unique_names (JObj m)" and "\<not> has_webhooks m"
  shows "absorbs_map m (redact_map m)"
proof -
  let ?m = "redactNestedKey [''session'', ''postgres'', ''password'']
     (redactNestedKey [''session'', ''redis'', ''password''] (redactNestedKey [''channels'', ''telegram'', ''bot_token''] m))"
  have a: "absorbs_map m ?m"
    by (intro redactNestedKey_absorbed absorbs_map_refl [OF assms(1)]) (simp_all add: sensitiveKeys_def)
  have "map_of ?m ''proactive'' = map_of m ''proactive''"
    by (simp add: redactNestedKey_other del: redactNestedKey.simps)
  from redact_no_webhooks [OF this assms(2)] a
  have b: "absorbs_map m (redactNestedKey [''proactive'', ''webhooks''] ?m)" by (simp only:)
  have c: "absorbs_map m (redactNestedKey [''web_search'', ''api_key''] x)" if "absorbs_map m x" for x
    by (rule redactNestedKey_absorbed [OF that]) (simp_all add: sensitiveKeys_def)
  have s: "''password'' \<in> set sensitiveKeys" "''passphrase'' \<in> set sensitiveKeys" "''client_secret'' \<in> set sensitiveKeys"
    by (simp_all add: sensitiveKeys_def)
  show ?thesis
    unfolding redact_map_def by (intro redactMapPasswords_absorbed c b s)
qed

lemma any_value_unique: "unique_names (fst (any_value cn j))"
proof (induction j)
  case (JNum s)
  then show ?case by (simp split: option.splits)
next
  case (JObj ms)
  let ?rs = "map (\<lambda>(k, j). (k, any_value cn j)) ms"
  have "list_all unique_names (map fst (map snd ?rs))" using JObj by (auto simp: list_all_iff)
  from update_fold_keeps [OF this, of "[]"] show ?case by (auto simp: Let_def list_all_iff)
qed (simp_all add: Let_def)

lemma config_map_unique: "unique_names (JObj (config_map cn c))"
  using any_value_unique [of cn "json_encode Config_type c"] by (auto simp: config_map_def split: json.splits)

text \<open>Merging looks up name by name.\<close>

lemma merge_other: "k \<notin> fst ` set src \<Longrightarrow> map_of (mergeConfigMaps dst src) k = map_of dst k"
proof (induction src arbitrary: dst)
  case (Cons a src)
  obtain l v where a: "a = (l, v)" by (cases a)
  have "k \<noteq> l" using Cons.prems by (auto simp: a)
  then show ?case using Cons by (auto simp: a map_of_update split: json.splits option.splits)
qed simp

lemma merge_object:
  "distinct (map fst src) \<Longrightarrow> map_of src k = Some (JObj sm) \<Longrightarrow> map_of dst k = Some (JObj dm) \<Longrightarrow>
   map_of (mergeConfigMaps dst src) k = Some (JObj (mergeConfigMaps dm sm))"
proof (induction src arbitrary: dst)
  case (Cons a src)
  obtain l v where a: "a = (l, v)" by (cases a)
  show ?case
  proof (cases "l = k")
    case True
    with Cons.prems have "v = JObj sm" "k \<notin> fst ` set src" by (auto simp: a)
    then show ?thesis using Cons.prems(3) True by (simp add: a merge_other map_of_update stars_def)
  next
    case False
    let ?step = "mergeConfigMaps dst [(l, v)]"
    have "map_of ?step k = Some (JObj dm)" using merge_other [of k "[(l, v)]" dst] False Cons.prems(3) by simp
    moreover have "mergeConfigMaps dst (a # src) = mergeConfigMaps ?step src" by (simp add: a)
    ultimately show ?thesis using Cons.IH [of ?step] Cons.prems(1,2) False by (simp add: a)
  qed
qed simp

lemma merge_stars:
  "distinct (map fst src) \<Longrightarrow> map_of src k = Some stars \<Longrightarrow> k \<notin> set sensitiveKeys \<Longrightarrow>
   map_of (mergeConfigMaps dst src) k = Some stars"
proof (induction src arbitrary: dst)
  case (Cons a src)
  obtain l v where a: "a = (l, v)" by (cases a)
  show ?case
  proof (cases "l = k")
    case True
    with Cons.prems have "v = stars" "k \<notin> fst ` set src" by (auto simp: a)
    then show ?thesis using Cons.prems(3) True by (simp add: a merge_other map_of_update stars_def)
  next
    case False
    have "mergeConfigMaps dst (a # src) = mergeConfigMaps (mergeConfigMaps dst [(l, v)]) src" by (simp add: a)
    with Cons False show ?thesis by (simp add: a)
  qed
qed simp

lemma redactNestedKey_distinct: "distinct (map fst m) \<Longrightarrow> distinct (map fst (redactNestedKey ks m))"
  by (induction ks m rule: redactNestedKey.induct) (auto simp: distinct_update split: option.splits json.splits)

lemma redactMapPasswords_distinct: "distinct (map fst m) \<Longrightarrow> distinct (map fst (redactMapPasswords a b f m))"
  by (auto simp: redactMapPasswords_def distinct_update split: option.splits json.splits)

lemma redact_distinct: "distinct (map fst m) \<Longrightarrow> distinct (map fst (redact_map m))"
  unfolding redact_map_def by (intro redactNestedKey_distinct redactMapPasswords_distinct)

lemma redact_webhooks:
  assumes "map_of m ''proactive'' = Some (JObj n)" and "map_of n ''webhooks'' = Some w"
  shows "map_of (redact_map m) ''proactive'' = Some (JObj (AList.update ''webhooks'' stars n))"
proof -
  let ?m = "redactNestedKey [''session'', ''postgres'', ''password'']
     (redactNestedKey [''session'', ''redis'', ''password''] (redactNestedKey [''channels'', ''telegram'', ''bot_token''] m))"
  have "map_of ?m ''proactive'' = Some (JObj n)"
    by (simp add: redactNestedKey_other assms(1) del: redactNestedKey.simps)
  then have "map_of (redactNestedKey [''proactive'', ''webhooks''] ?m) ''proactive'' = Some (JObj (AList.update ''webhooks'' stars n))"
    for m using assms(2) by (simp add: map_of_update)
  then show ?thesis
    unfolding redact_map_def
    by (simp add: redactNestedKey_other redactMapPasswords_other del: redactNestedKey.simps)
qed

lemma webhooks_invalid:
  assumes "has_webhooks m" and "unique_names (JObj m)"
  shows "''proactive.webhooks: json: cannot unmarshal'' \<in> set (validateConfigMap cn lt (mergeConfigMaps m (redact_map m)))"
proof -
  obtain n w where n: "map_of m ''proactive'' = Some (JObj n)" "map_of n ''webhooks'' = Some w"
    using assms(1) by (auto simp: has_webhooks_def member_def split: option.splits json.splits)
  have d: "distinct (map fst n)"
    using assms(2) n(1) by (auto dest!: map_of_SomeD)
  have "map_of (mergeConfigMaps m (redact_map m)) ''proactive'' = Some (JObj (mergeConfigMaps n (AList.update ''webhooks'' stars n)))"
    by (rule merge_object [OF redact_distinct redact_webhooks [OF n] n(1)]) (use assms(2) in simp)
  moreover have "map_of (mergeConfigMaps n (AList.update ''webhooks'' stars n)) ''webhooks'' = Some stars"
    by (rule merge_stars [OF distinct_update [OF d]]) (simp_all add: map_of_update sensitiveKeys_def)
  ultimately show ?thesis
    by (simp add: validateConfigMap_def validateJSONFields_def json_field_types_def member_def stars_def)
qed

lemma update_result:
  assumes "HandleConfigUpdate cn lt pc p r c d = (c', d', rp)"
  shows "c' = c \<and> d' = d \<or> (\<exists>ms. json_decode cn Config_type (JObj ms) (zero_value Config_type) = (c', False))"
  using assms by (auto simp: HandleConfigUpdate_def Let_def split: if_splits option.splits prod.splits bool.splits)

lemma config_map_encode:
  assumes "typed cn Config_type c" and "any_value cn (json_encode Config_type c) = (json_encode Config_type c, False)"
  shows "json_encode Config_type c = JObj (config_map cn c)"
  using assms by (cases c) (auto simp: config_map_def Config_type_def)

text \<open>
  Whatever a client sends to update the configuration, the configuration in memory afterwards has the
  types of the structs; it is the old one unless every check passed.
\<close>

theorem update_keeps_types:
  assumes "canonical cn" and "typed cn Config_type c" and "HandleConfigUpdate cn lt pc p r c d = (c', d', rp)"
  shows "typed cn Config_type c' \<and> (\<forall>errs. rp = Invalid errs \<longrightarrow> c' = c \<and> d' = d)"
proof
  show "typed cn Config_type c'"
    using update_result [OF assms(3)] assms(2) json_decode_typed [OF assms(1) zero_typed [OF assms(1)]]
    by (metis fst_conv)
  show "\<forall>errs. rp = Invalid errs \<longrightarrow> c' = c \<and> d' = d"
    using assms(3) by (auto simp: HandleConfigUpdate_def Let_def split: if_splits option.splits prod.splits bool.splits)
qed

text \<open>C36. Sending the displayed configuration back unchanged.  Without webhooks the stored secrets are kept:
  the new configuration is the old one, with empty lists and maps made nil.  With at least one
  webhook configured the update is always refused, since the view shows three stars for the list.
\<close>

theorem save_displayed:
  assumes "canonical cn" and "typed cn Config_type c"
    and exact: "any_value cn (json_encode Config_type c) = (json_encode Config_type c, False)"
    and "decode_updates cn (urBody r) = Some (redact_map (config_map cn c))" and "urMethod r = ''PUT''"
    and valid: "validateConfigMap cn lt (config_map cn c) = []"
  shows "(\<not> has_webhooks (config_map cn c) \<longrightarrow>
      (\<forall>d'. Save p (restored Config_type c (zero_value Config_type)) d = (d', None) \<longrightarrow>
        (\<exists>b e. HandleConfigUpdate cn lt pc p r c d = (restored Config_type c (zero_value Config_type), d', SavedReply b e)))) \<and>
    (has_webhooks (config_map cn c) \<longrightarrow> (\<exists>errs. HandleConfigUpdate cn lt pc p r c d = (c, d, Invalid errs)))"
proof (intro conjI impI allI)
  let ?m = "config_map cn c"
  assume w: "\<not> has_webhooks ?m"
  have "mergeConfigMaps ?m (redact_map ?m) = ?m"
    by (rule merge_absorbed [OF redact_absorbed [OF config_map_unique w]])
  moreover have "json_decode cn Config_type (JObj ?m) (zero_value Config_type) = (restored Config_type c (zero_value Config_type), False)"
  proof -
    note config_map_encode [OF assms(2) exact]
    with decode_encode [OF good_config assms(2) zero_typed [OF assms(1)] zero_plain assms(1)] show ?thesis by simp
  qed
  ultimately show "\<exists>b e. HandleConfigUpdate cn lt pc p r c d = (restored Config_type c (zero_value Config_type), d', SavedReply b e)"
    if "Save p (restored Config_type c (zero_value Config_type)) d = (d', None)" for d'
    using that assms(4,5) valid by (cases "pcStart pc") (auto simp: HandleConfigUpdate_def Let_def)
next
  assume "has_webhooks (config_map cn c)"
  from webhooks_invalid [OF this config_map_unique, of cn lt]
  have "validateConfigMap cn lt (mergeConfigMaps (config_map cn c) (redact_map (config_map cn c))) \<noteq> []" by (metis empty_iff list.set(1))
  then show "\<exists>errs. HandleConfigUpdate cn lt pc p r c d = (c, d, Invalid errs)"
    using assms(4,5) by (simp add: HandleConfigUpdate_def Let_def)
qed

section \<open>Witnesses\<close>

definition default_view :: json_map where
  "default_view = redact_map (config_map token_floats DefaultConfig)"

definition no_p2p :: p2p_control where
  "no_p2p = \<lparr>pcRunning = False, pcStart = None\<rparr>"

definition resave :: update_request where
  "resave = \<lparr>urMethod = ''PUT'', urBody = json_MarshalIndent (JObj default_view)\<rparr>"

text \<open>No name twice in any object, also within lists.\<close>

fun deep_unique :: "json \<Rightarrow> bool" where
  "deep_unique (JObj ms) \<longleftrightarrow> distinct (map fst ms) \<and> (\<forall>(k, v) \<in> set ms. deep_unique v)"
| "deep_unique (JArr js) \<longleftrightarrow> (\<forall>j \<in> set js. deep_unique j)"
| "deep_unique _ \<longleftrightarrow> True"

lemma any_value_deep_unique: "deep_unique (fst (any_value cn j))"
proof (induction j)
  case (JNum s)
  then show ?case by (simp split: option.splits)
next
  case (JObj ms)
  let ?rs = "map (\<lambda>(k, j). (k, any_value cn j)) ms"
  have "list_all deep_unique (map fst (map snd ?rs))" using JObj by (auto simp: list_all_iff)
  from update_fold_keeps [OF this, of "[]"] show ?case by (auto simp: Let_def list_all_iff)
qed (auto simp: Let_def)

lemma token_floats_exact: "good_json j \<Longrightarrow> deep_unique j \<Longrightarrow> any_value token_floats j = (j, False)"
proof (induction j)
  case (JArr js)
  then have "map (any_value token_floats) js = map (\<lambda>j. (j, False)) js" by (auto simp: list_all_iff)
  then show ?case unfolding any_value.simps Let_def by (simp only:) (simp add: list_ex_iff comp_def)
next
  case (JObj ms)
  have "any_value token_floats v = (v, False)" if "(k, v) \<in> set ms" for k v
    using JObj.IH [of "(k, v)" v] JObj.prems that by (auto simp: list_all_iff)
  then show ?case using JObj.prems(2) by (intro any_value_fixed_members) (auto simp: list_all_iff)
qed (auto simp: token_floats_def)

lemma encode_fields_names:
  "distinct (map fst fs) \<Longrightarrow> distinct (map fst (encode_fields fs vs)) \<and> fst ` set (encode_fields fs vs) \<subseteq> fst ` set fs"
  by (induction fs vs rule: encode_fields.induct) auto

lemma distinct_exact: "distinct (map (\<lambda>(n, o', t). to_lower n) fs) \<Longrightarrow> distinct (map fst fs)"
  by (auto simp: distinct_map inj_on_def split_def)

lemma encode_fields_member:
  assumes "list_all2 (\<lambda>(n, o', t) v. typed cn t v) fs vs" and "(n, j) \<in> set (encode_fields (map (\<lambda>(n, o', t). (n, o', json_encode t)) fs) vs)"
  shows "\<exists>i o' t. i < length fs \<and> fs ! i = (n, o', t) \<and> typed cn t (vs ! i) \<and> j = json_encode t (vs ! i) \<and>
    \<not> (o' \<and> empty_value (vs ! i))"
  using assms
proof (induction fs vs rule: list_all2_induct)
  case (Cons f fs v vs)
  obtain m p t where f: "f = (m, p, t)" by (cases f)
  show ?case
  proof (cases "(n, j) = (m, json_encode t v) \<and> \<not> (p \<and> empty_value v)")
    case True
    then show ?thesis using Cons.hyps(1) by (intro exI [of _ 0]) (auto simp: f)
  next
    case False
    with Cons.prems have "(n, j) \<in> set (encode_fields (map (\<lambda>(n, o', t). (n, o', json_encode t)) fs) vs)"
      by (auto simp: f split: if_splits)
    from Cons.IH [OF this] obtain i o' t where "i < length fs \<and> fs ! i = (n, o', t) \<and> typed cn t (vs ! i) \<and>
      j = json_encode t (vs ! i) \<and> \<not> (o' \<and> empty_value (vs ! i))" by blast
    then show ?thesis by (intro exI [of _ "Suc i"]) auto
  qed
qed simp

lemma encode_deep_unique: "good_type t \<Longrightarrow> typed cn t v \<Longrightarrow> deep_unique (json_encode t v)"
proof (induction t arbitrary: v)
  case TAny
  then show ?case using any_value_deep_unique [of cn] by (auto split: go_value.splits) (metis fst_conv)
next
  case (TStruct fs)
  obtain vs where vs: "v = VStruct vs" "list_all2 (\<lambda>(n, o', t) v. typed cn t v) fs vs"
    using TStruct.prems(2) unfolding typed_struct by blast
  let ?ms = "encode_fields (map (\<lambda>(n, o', t). (n, o', json_encode t)) fs) vs"
  have "map fst (map (\<lambda>(n, o', t). (n, o', json_encode t)) fs) = map fst fs" by (auto simp: comp_def split_def)
  moreover have "distinct (map fst fs)" using TStruct.prems(1) by (intro distinct_exact) simp
  ultimately have "distinct (map fst ?ms)"
    using encode_fields_names [of "map (\<lambda>(n, o', t). (n, o', json_encode t)) fs" vs] by (simp only: )
  moreover have "deep_unique j" if "(n, j) \<in> set ?ms" for n j
  proof -
    obtain p t w where t: "(n, p, t) \<in> set fs" "typed cn t w" "j = json_encode t w"
      using encode_fields_member [OF vs(2) \<open>(n, j) \<in> set ?ms\<close>] nth_mem by metis
    then show ?thesis using TStruct.IH [of "(n, p, t)" "(p, t)" t w] TStruct.prems(1) by auto
  qed
  ultimately show ?case by (auto simp: vs(1))
qed (auto simp: list_all_iff comp_def split_def split: go_value.splits option.splits)

lemma encode_exact:
  assumes "typed token_floats Config_type c"
  shows "any_value token_floats (json_encode Config_type c) = (json_encode Config_type c, False)"
  by (rule token_floats_exact [OF encode_good [OF token_floats(2) assms] encode_deep_unique [OF good_config assms]])

text \<open>The redactions keep numbers readable and names unique.\<close>

definition sound_map :: "json_map \<Rightarrow> bool" where
  "sound_map m \<longleftrightarrow> good_json (JObj m) \<and> deep_unique (JObj m)"

lemma sound_map_value: "sound_map m \<Longrightarrow> (k, v) \<in> set m \<Longrightarrow> good_json v \<and> deep_unique v"
  by (auto simp: sound_map_def list_all_iff)

lemma sound_map_get: "sound_map m \<Longrightarrow> map_of m k = Some (JObj n) \<Longrightarrow> sound_map n"
  using sound_map_value [of m k "JObj n"] by (auto simp: sound_map_def dest: map_of_SomeD)

lemma sound_map_update:
  "sound_map m \<Longrightarrow> good_json v \<Longrightarrow> deep_unique v \<Longrightarrow> sound_map (AList.update k v m)"
  using set_update_subset [of k v m] by (fastforce simp: sound_map_def list_all_iff distinct_update)

lemma sound_map_object: "sound_map n \<Longrightarrow> good_json (JObj n) \<and> deep_unique (JObj n)"
  by (simp add: sound_map_def)

lemma redactNestedKey_sound: "sound_map m \<Longrightarrow> sound_map (redactNestedKey ks m)"
proof (induction ks m rule: redactNestedKey.induct)
  case (2 k m)
  then show ?case by (auto intro!: sound_map_update simp: stars_def)
next
  case (3 k l ks m)
  show ?case
  proof (cases "\<exists>n. map_of m k = Some (JObj n)")
    case True
    then obtain n where n: "map_of m k = Some (JObj n)" by blast
    have "sound_map (redactNestedKey (l # ks) n)" by (rule "3.IH" [OF n refl sound_map_get [OF "3.prems" n]])
    then show ?thesis using sound_map_update [OF "3.prems", of "JObj (redactNestedKey (l # ks) n)" k] n
      by (simp add: sound_map_def)
  next
    case False
    then show ?thesis using "3.prems" by (auto split: option.splits json.splits)
  qed
qed simp

lemma sound_map_map:
  "sound_map m \<Longrightarrow> (\<And>n v. (n, v) \<in> set m \<Longrightarrow> good_json (g v) \<and> deep_unique (g v)) \<Longrightarrow> sound_map (map (\<lambda>(n, v). (n, g v)) m)"
  by (auto simp: sound_map_def list_all_iff comp_def split_def)

lemma redactMapPasswords_sound:
  assumes "sound_map m" shows "sound_map (redactMapPasswords a b f m)"
proof (cases "\<exists>out ent. map_of m a = Some (JObj out) \<and> map_of out b = Some (JObj ent)")
  case True
  then obtain out ent where m: "map_of m a = Some (JObj out)" "map_of out b = Some (JObj ent)" by blast
  let ?red = "\<lambda>v. case v of JObj e \<Rightarrow> JObj (redactNestedKey [f] e) | _ \<Rightarrow> v"
  let ?ent = "map (\<lambda>(n, v). (n, ?red v)) ent"
  have o': "sound_map out" by (rule sound_map_get [OF assms m(1)])
  have e: "sound_map ent" by (rule sound_map_get [OF o' m(2)])
  have "good_json (?red v) \<and> deep_unique (?red v)" if "(n, v) \<in> set ent" for n v
  proof (cases v)
    case (JObj x)
    then have "sound_map x" using sound_map_value [OF e that] by (simp add: sound_map_def)
    from redactNestedKey_sound [OF this, of "[f]"] show ?thesis by (simp add: JObj sound_map_def)
  qed (use e that in \<open>auto simp: sound_map_def list_all_iff\<close>)
  from sound_map_map [OF e, of ?red, OF this] have "sound_map ?ent" .
  then have "sound_map (AList.update b (JObj ?ent) out)" by (intro sound_map_update o') (simp_all add: sound_map_def)
  then have "sound_map (AList.update a (JObj (AList.update b (JObj ?ent) out)) m)"
    by (intro sound_map_update assms) (simp_all add: sound_map_def)
  then show ?thesis by (simp add: redactMapPasswords_def m del: redactNestedKey.simps)
next
  case False
  then have "redactMapPasswords a b f m = m"
    by (auto simp: redactMapPasswords_def split: option.splits json.splits)
  with assms show ?thesis by simp
qed

lemma redact_sound: "sound_map m \<Longrightarrow> sound_map (redact_map m)"
  unfolding redact_map_def by (intro redactNestedKey_sound redactMapPasswords_sound)

text \<open>A member of an encoded struct is an encoded field of the type that the names lead to.\<close>

lemma encoded_member:
  assumes "good_type (TStruct fs)" and "typed cn (TStruct fs) v" and "json_encode (TStruct fs) v = JObj ms" and "map_of ms n = Some j"
  obtains o' t w where "\<And>ns. type_at (n # ns) (TStruct fs) = type_at ns t" "good_type t" "typed cn t w" "j = json_encode t w"
    "\<And>ns. get_at (n # ns) (TStruct fs) v = get_at ns t w" "(n, o', t) \<in> set fs" "\<not> (o' \<and> empty_value w)"
proof -
  obtain vs where vs: "v = VStruct vs" "list_all2 (\<lambda>(n, o', t) v. typed cn t v) fs vs"
    using assms(2) unfolding typed_struct by blast
  have "(n, j) \<in> set (encode_fields (map (\<lambda>(n, o', t). (n, o', json_encode t)) fs) vs)"
    using assms(3,4) by (auto simp: vs(1) dest: map_of_SomeD)
  from encode_fields_member [OF vs(2) this]
  obtain i p t where i: "i < length fs" "fs ! i = (n, p, t)" and t: "typed cn t (vs ! i)" "j = json_encode t (vs ! i)"
    "\<not> (p \<and> empty_value (vs ! i))" by blast
  have m: "(n, p, t) \<in> set fs" using i nth_mem by metis
  have d: "distinct (map fst fs)" using assms(1) by (intro distinct_exact) simp
  have "map_of (map (\<lambda>(m, o', t). (m, (o', t))) fs) n = Some (p, t)"
    using d m by (intro map_of_is_SomeI) (force simp: comp_def split_def)+
  from field_index [OF this] obtain k where k: "k < length fs" "fs ! k = (n, p, t)"
    "\<And>xs ns. length xs = length fs \<Longrightarrow> get_at (n # ns) (TStruct fs) (VStruct xs) = get_at ns t (xs ! k)" by auto
  have "k = i" using d i k(1,2) by (metis fst_conv length_map nth_eq_iff_index_eq nth_map)
  then have "get_at (n # ns) (TStruct fs) v = get_at ns t (vs ! i)" for ns
    using k(3) [of vs ns] list_all2_lengthD [OF vs(2)] by (simp add: vs(1))
  moreover have "type_at (n # ns) (TStruct fs) = type_at ns t" for ns
    using good_type_unique [OF assms(1) m] by simp
  ultimately show ?thesis using m t good_type_field [OF assms(1) m] by (intro that)
qed

lemma json_fields_typed:
  "list_all (\<lambda>(s, f, t). type_at [s, f] Config_type = t) json_field_types"
  by (simp add: json_field_types_def Config_type_def) 
    (simp add: ProactiveConfig_type_def DatabasesConfig_type_def MQTTConfig_type_def SSHConfig_type_def OAuthConfig_type_def ApprovalConfig_type_def)

text \<open>So a typed configuration passes the checks of its JSON fields.\<close>

lemma own_fields_valid:
  assumes "canonical cn" and "typed cn Config_type c" and "any_value cn (json_encode Config_type c) = (json_encode Config_type c, False)"
  shows "validateJSONFields cn (config_map cn c) = []"
proof -
  have "\<not> snd (json_decode cn t j (zero_value t))"
    if st: "(s, f, t) \<in> set json_field_types" "member s (config_map cn c) = Some n" "map_of n f = Some j" for s f t n j
  proof -
    obtain fs where fs: "Config_type = TStruct fs" by (simp add: Config_type_def)
    have enc: "json_encode (TStruct fs) c = JObj (config_map cn c)"
      using config_map_encode [OF assms(2,3)] by (simp only: fs)
    have m: "map_of (config_map cn c) s = Some (JObj n)"
      using st(2) by (auto simp: member_def split: option.splits json.splits)
    obtain u w where u: "\<And>ns. type_at (s # ns) (TStruct fs) = type_at ns u" "good_type u" "typed cn u w" "JObj n = json_encode u w"
      using encoded_member [OF good_config [unfolded fs] assms(2) [unfolded fs] enc m] by metis
    have ft: "type_at [s, f] (TStruct fs) = t" using json_fields_typed st(1) by (auto simp: list_all_iff fs)
    show ?thesis
    proof (cases "\<exists>gs. u = TStruct gs")
      case True
      then obtain gs where gs: "u = TStruct gs" by blast
      obtain x y where x: "\<And>ns. type_at (f # ns) (TStruct gs) = type_at ns x" "good_type x" "typed cn x y" "j = json_encode x y"
        using encoded_member [OF u(2) [unfolded gs] u(3) [unfolded gs] u(4) [unfolded gs, symmetric] st(3)] by metis
      have "x = t" using ft u(1) [of "[f]"] x(1) [of "[]"] by (simp add: gs)
      with decode_encode [OF x(2,3) zero_typed [OF assms(1)] zero_plain assms(1)] x(4) show ?thesis by simp
    next
      case False
      then have "type_at [f] u = TAny" by (cases u) auto
      then have "t = TAny" using ft u(1) [of "[f]"] by simp
      then show ?thesis using st(1) by (auto simp: json_field_types_def)
    qed
  qed
  then show ?thesis by (fastforce simp: validateJSONFields_def split: option.splits)
qed

lemma no_order_valid:
  "validateJSONFields cn m = [] \<Longrightarrow> validateConfigMap cn (\<lambda>_ _. False) m = []"
  by (auto simp: validateConfigMap_def outside_def split: option.splits json.splits)

lemma default_map:
  "json_encode Config_type DefaultConfig = JObj (config_map token_floats DefaultConfig)"
  "sound_map (config_map token_floats DefaultConfig)"
proof -
  note t = default_typed [OF token_floats(1)]
  show j: "json_encode Config_type DefaultConfig = JObj (config_map token_floats DefaultConfig)"
    by (rule config_map_encode [OF t encode_exact [OF t]])
  show "sound_map (config_map token_floats DefaultConfig)"
    unfolding sound_map_def j [symmetric]
    using encode_good [OF token_floats(2) t] encode_deep_unique [OF good_config t] by blast
qed

lemma resave_decodes: "decode_updates token_floats (urBody resave) = Some default_view"
proof -
  have s: "sound_map default_view" unfolding default_view_def by (rule redact_sound [OF default_map(2)])
  then have "pv (json_MarshalIndent (JObj default_view)) = Some (JObj default_view, [])"
    using pv_printed [of "JObj default_view" "[]" "[]" True 0] by (simp add: json_MarshalIndent_def sound_map_def blank_def delim_def)
  moreover have "any_value token_floats (JObj default_view) = (JObj default_view, False)"
    using s token_floats_exact by (simp only: sound_map_def)
  ultimately show ?thesis by (simp add: decode_updates_def resave_def pv_def)
qed

theorem update_keeps_types_witness:
  "\<exists>c' d' rp. HandleConfigUpdate token_floats (\<lambda>_ _. False) no_p2p [''c''] resave DefaultConfig [[] \<mapsto> Dir] = (c', d', rp) \<and>
     typed token_floats Config_type c'"
proof -
  obtain c' d' rp where "HandleConfigUpdate token_floats (\<lambda>_ _. False) no_p2p [''c''] resave DefaultConfig [[] \<mapsto> Dir] = (c', d', rp)"
    by (rule prod_cases3)
  with update_keeps_types [OF token_floats(1) default_typed [OF token_floats(1)] this] show ?thesis by blast
qed

lemma default_no_webhooks: "\<not> has_webhooks (config_map token_floats DefaultConfig)"
proof
  let ?m = "config_map token_floats DefaultConfig"
  assume "has_webhooks ?m"
  then obtain n j where n: "map_of ?m ''proactive'' = Some (JObj n)" "map_of n ''webhooks'' = Some j"
    by (auto simp: has_webhooks_def member_def split: option.splits json.splits)
  obtain fs where fs: "Config_type = TStruct fs" by (simp add: Config_type_def)
  obtain gs where gs: "ProactiveConfig_type = TStruct gs" by (simp add: ProactiveConfig_type_def)
  note t = default_typed [OF token_floats(1)]
  have ty: "type_at [''proactive''] Config_type = ProactiveConfig_type" by (simp add: Config_type_def)
  obtain p u w where u: "\<And>ns. type_at (''proactive'' # ns) Config_type = type_at ns u" "good_type u" "typed token_floats u w"
    "JObj n = json_encode u w" "\<And>ns. cfg (''proactive'' # ns) DefaultConfig = get_at ns u w"
    by (rule encoded_member [OF good_config [unfolded fs] t [unfolded fs] default_map(1) [unfolded fs] n(1), folded fs, folded cfg_def])
      blast
  have "u = TStruct gs" using ty u(1) [of "[]"] by (simp add: gs)
  note u' = u [unfolded this]
  obtain q v y where y: "\<And>ns. get_at (''webhooks'' # ns) (TStruct gs) w = get_at ns v y" "(''webhooks'', q, v) \<in> set gs"
    "\<not> (q \<and> empty_value y)"
    by (rule encoded_member [OF u'(2,3) u'(4) [symmetric] n(2)]) blast
  have "cfg [''proactive'', ''webhooks''] DefaultConfig = VList None" by code_simp
  then have "y = VList None" using u'(5) [of "[''webhooks'']"] y(1) [of "[]"] by simp
  moreover have q: "case ProactiveConfig_type of TStruct gs \<Rightarrow> \<forall>(n, q, v) \<in> set gs. q | _ \<Rightarrow> False"
    by (simp add: ProactiveConfig_type_def)
  then have q using y(2) by (auto simp: gs)
  ultimately show False using y(3) by simp
qed

theorem save_displayed_witness:
  "\<exists>d' b e. HandleConfigUpdate token_floats (\<lambda>_ _. False) no_p2p [''c''] resave DefaultConfig [[] \<mapsto> Dir] =
     (restored Config_type DefaultConfig (zero_value Config_type), d', SavedReply b e)"
proof -
  note t = default_typed [OF token_floats(1)]
  have "\<exists>d'. Save [''c''] (restored Config_type DefaultConfig (zero_value Config_type)) [[] \<mapsto> Dir] = (d', None)"
    by (simp add: Save_def os_MkdirAll_def mkdir_blocked_def os_WriteFile_def abs_write_def)
  moreover have "validateConfigMap token_floats (\<lambda>_ _. False) (config_map token_floats DefaultConfig) = []"
    by (rule no_order_valid [OF own_fields_valid [OF token_floats(1) t encode_exact [OF t]]])
  ultimately show ?thesis
    using save_displayed [OF token_floats(1) t encode_exact [OF t] resave_decodes [unfolded default_view_def], of "\<lambda>_ _. False" "[''c'']" "[[] \<mapsto> Dir]" no_p2p]
      default_no_webhooks by (auto simp: resave_def)
qed

end
