(* ===== verification/DashboardAuth.thy ===== *)
theory DashboardAuth
  imports SecretStores ConfigUpdate Access
begin

text \<open>
  The password and the sessions of the dashboard (\<open>internal/gateway/dashboard_auth.go\<close>), the handlers
  that set it up, log in and out, and those for secrets and access tokens, behind the routes of
  \<open>RegisterRoutes\<close> (\<open>dashboard.go\<close>).  The password is kept in the key ring or, failing that, in a store
  of secrets; both are those of \<open>SecretStores\<close>.  Random bytes are draws of the machine, and the path of a
  request is what the server's multiplexer passes on.
\<close>

section \<open>Passwords and sessions\<close>

definition keychainPasswordKey :: string where
  "keychainPasswordKey = ''dashboard-password''"

definition dashboardPasswordSecretKey :: string where
  "dashboardPasswordSecretKey = ''__dashboard_password__''"

definition sessionLength :: nat where "sessionLength = 32"
definition saltLength :: nat where "saltLength = 16"

record stored_password =
  spHash :: "string option"
  spSalt :: "string option"

text \<open>A session's identifier is its key in the map.\<close>

record 'k dash =
  daMachine :: "'k machine"
  daStore :: "store_value option"
  daDefault :: "store_value option"
  daSessions :: "string \<rightharpoonup> time"
  daTokens :: "token_store option"
  daConfig :: go_value

text \<open>\<open>None\<close> in \<open>daDefault\<close> is the default store before its first use.\<close>

definition NewDashboardAuth :: "token_store option \<Rightarrow> go_value \<Rightarrow> 'k machine \<Rightarrow> 'k dash" where
  "NewDashboardAuth ts c w =
     (case EncryptedFallbackStore w of (w1, st) \<Rightarrow>
        \<lparr>daMachine = w1, daStore = Some st, daDefault = None, daSessions = Map.empty, daTokens = ts, daConfig = c\<rparr>)"

definition DefaultStore :: "'k dash \<Rightarrow> 'k dash \<times> store_value" where
  "DefaultStore a =
     (case daDefault a of
        Some st \<Rightarrow> (a, st)
      | None \<Rightarrow> (case initDefaultStore (daMachine a) of (w, st) \<Rightarrow> (a\<lparr>daMachine := w, daDefault := Some st\<rparr>, st)))"

definition ring_password :: "'k machine \<Rightarrow> string go_result" where
  "ring_password w = krGet (mOps w) ServiceName keychainPasswordKey (mRing w)"

definition fallback_password :: "'k dash \<Rightarrow> secret_error + string" where
  "fallback_password a =
     (case daStore a of
        None \<Rightarrow> Inl ErrStoreNotAvailable
      | Some st \<Rightarrow>
          if store_Available st then store_Get st dashboardPasswordSecretKey (daMachine a) else Inl ErrStoreNotAvailable)"

text \<open>Reading the fallback may panic; the handlers below then abort.\<close>

definition panics :: "secret_error option \<Rightarrow> bool" where
  "panics e \<longleftrightarrow> (case e of Some (SecretPanic _) \<Rightarrow> True | _ \<Rightarrow> False)"

definition password_panics :: "'k dash \<Rightarrow> bool" where
  "password_panics a \<longleftrightarrow>
     is_err (ring_password (daMachine a)) \<and> (case fallback_password a of Inl e \<Rightarrow> panics (Some e) | Inr _ \<Rightarrow> False)"

definition isPasswordInFallback :: "'k dash \<Rightarrow> bool" where
  "isPasswordInFallback a \<longleftrightarrow> is_ok (fallback_password a)"

definition IsPasswordSet :: "'k dash \<Rightarrow> bool" where
  "IsPasswordSet a \<longleftrightarrow> (case ring_password (daMachine a) of Inr _ \<Rightarrow> True | Inl _ \<Rightarrow> isPasswordInFallback a)"

definition password_encode :: "stored_password \<Rightarrow> string" where
  "password_encode p = json_Marshal (JObj [(''hash'', bytes_encode (spHash p)), (''salt'', bytes_encode (spSalt p))])"

definition password_decode :: "string \<Rightarrow> stored_password option" where
  "password_decode s =
     (case json_parse s of
        Some (JObj ms) \<Rightarrow>
          (let (h, e1) = bytes_members (members_for ''hash'' (JObj ms)) None;
               (t, e2) = bytes_members (members_for ''salt'' (JObj ms)) None
           in if e1 \<or> e2 then None else Some \<lparr>spHash = h, spSalt = t\<rparr>)
      | Some JNull \<Rightarrow> Some \<lparr>spHash = None, spSalt = None\<rparr>
      | _ \<Rightarrow> None)"

definition SetPassword :: "string \<Rightarrow> 'k dash \<Rightarrow> 'k dash \<times> secret_error option" where
  "SetPassword password a =
     (case random_bytes saltLength (daMachine a) of
        (w, Inl e) \<Rightarrow> (a\<lparr>daMachine := w\<rparr>, Some (SecretError e))
      | (w, Inr salt) \<Rightarrow>
          (let data = password_encode \<lparr>spHash = Some (ciIDKey (mCiphers w) password salt), spSalt = Some salt\<rparr> in
           case krSet (mOps w) ServiceName keychainPasswordKey data (mRing w) of
             (r, None) \<Rightarrow> (a\<lparr>daMachine := w\<lparr>mRing := r\<rparr>\<rparr>, None)
           | (r, Some e) \<Rightarrow>
               (case daStore a of
                  None \<Rightarrow> (a\<lparr>daMachine := w\<lparr>mRing := r\<rparr>\<rparr>, Some ErrStoreNotAvailable)
                | Some st \<Rightarrow>
                    if \<not> store_Available st then (a\<lparr>daMachine := w\<lparr>mRing := r\<rparr>\<rparr>, Some ErrStoreNotAvailable)
                    else (case store_Set st dashboardPasswordSecretKey data (w\<lparr>mRing := r\<rparr>) of
                            (w2, f) \<Rightarrow> (a\<lparr>daMachine := w2\<rparr>, f)))))"

definition loadPasswordData :: "'k dash \<Rightarrow> string" where
  "loadPasswordData a =
     (case ring_password (daMachine a) of
        Inr s \<Rightarrow> s
      | Inl _ \<Rightarrow> (case fallback_password a of Inr s \<Rightarrow> s | Inl _ \<Rightarrow> []))"

definition ValidatePassword :: "string \<Rightarrow> 'k dash \<Rightarrow> bool" where
  "ValidatePassword password a \<longleftrightarrow>
     (let data = loadPasswordData a in
      data \<noteq> [] \<and>
      (case password_decode data of
         None \<Rightarrow> False
       | Some p \<Rightarrow> ciIDKey (mCiphers (daMachine a)) password (bytes (spSalt p)) = bytes (spHash p)))"

definition CreateSession :: "time \<Rightarrow> 'k dash \<Rightarrow> 'k dash \<times> string go_result" where
  "CreateSession now a =
     (case random_bytes sessionLength (daMachine a) of
        (w, Inl e) \<Rightarrow> (a\<lparr>daMachine := w\<rparr>, Inl e)
      | (w, Inr b) \<Rightarrow> (a\<lparr>daMachine := w, daSessions := (daSessions a)(b64_encode True b \<mapsto> now)\<rparr>, Inr (b64_encode True b)))"

definition ValidateSession :: "string \<Rightarrow> 'k dash \<Rightarrow> bool" where
  "ValidateSession token a \<longleftrightarrow> daSessions a token \<noteq> None"

definition DestroySession :: "string \<Rightarrow> 'k dash \<Rightarrow> 'k dash" where
  "DestroySession token a = a\<lparr>daSessions := (daSessions a)(token := None)\<rparr>"

section \<open>Requests and replies\<close>

text \<open>The cookie of the session, if the request has one.\<close>

record dash_request =
  drTime :: time
  drMethod :: string
  drPath :: string
  drCookie :: "string option"
  drTLS :: bool
  drBody :: string

datatype cookie_change = SetCookie string bool | ClearCookie

datatype dash_reply =
  HttpError nat string
| Preflight
| JsonReply "cookie_change option" json
| TokenReply string string
| TokenList "token_info list"
| UpdateReply config_reply
| Aborted
| OtherHandler string

text \<open>\<open>json.NewDecoder(r.Body).Decode\<close> into a struct of strings: the values of the fields, or an error.\<close>

definition decode_body :: "string list \<Rightarrow> string \<Rightarrow> string list option" where
  "decode_body ns body =
     (let t = TStruct (map (\<lambda>n. (n, False, TString)) ns) in
      case parse_value (2 * length body + 2) body of
        None \<Rightarrow> None
      | Some (j, _) \<Rightarrow>
          (case json_decode token_floats t j (zero_value t) of
             (VStruct vs, False) \<Rightarrow> Some (map str_of vs)
           | _ \<Rightarrow> None))"

text \<open>\<open>time.ParseDuration\<close> and what the token store, the configuration and the peer-to-peer node need are
  parameters of the server.\<close>

record dash_env =
  deFloats :: floats
  deLess :: float_less
  deP2P :: p2p_control
  deConfigFile :: fpath
  deDuration :: "string \<Rightarrow> duration option"
  deCodec :: token_codec
  deOrder :: "string list"

section \<open>The handlers\<close>

definition post_only :: "('k dash \<Rightarrow> 'k dash \<times> dash_reply) \<Rightarrow> bool \<Rightarrow> dash_request \<Rightarrow> 'k dash \<Rightarrow> 'k dash \<times> dash_reply" where
  "post_only act delete r a =
     (if drMethod r = ''OPTIONS'' then (a, Preflight)
      else if drMethod r \<noteq> ''POST'' \<and> \<not> (delete \<and> drMethod r = ''DELETE'') then (a, HttpError 405 ''method not allowed'')
      else act a)"

definition failed :: "string \<Rightarrow> secret_error \<Rightarrow> dash_reply" where
  "failed msg e = (case e of SecretPanic _ \<Rightarrow> Aborted | _ \<Rightarrow> HttpError 500 msg)"

definition HandleAuthStatus :: "dash_request \<Rightarrow> 'k dash \<Rightarrow> 'k dash \<times> dash_reply" where
  "HandleAuthStatus r a =
     (a, if password_panics a then Aborted
         else JsonReply None (JObj
           [(''authenticated'', JBool (case drCookie r of Some t \<Rightarrow> ValidateSession t a | None \<Rightarrow> False)),
            (''needs_setup'', JBool (\<not> IsPasswordSet a))]))"

definition session_reply :: "dash_request \<Rightarrow> 'k dash \<Rightarrow> 'k dash \<times> dash_reply" where
  "session_reply r a =
     (case CreateSession (drTime r) a of
        (a1, Inl _) \<Rightarrow> (a1, HttpError 500 ''failed to create session'')
      | (a1, Inr token) \<Rightarrow> (a1, JsonReply (Some (SetCookie token (drTLS r))) (JObj [(''success'', JBool True)])))"

definition HandleAuthSetup :: "dash_request \<Rightarrow> 'k dash \<Rightarrow> 'k dash \<times> dash_reply" where
  "HandleAuthSetup r = post_only (\<lambda>a.
     if password_panics a then (a, Aborted)
     else if IsPasswordSet a then (a, HttpError 400 ''password already set'')
     else
       (case decode_body [''password''] (drBody r) of
          Some [password] \<Rightarrow>
            if length password < 8 then (a, HttpError 400 ''password must be at least 8 characters'')
            else
              (case SetPassword password a of
                 (a1, Some e) \<Rightarrow> (a1, failed ''failed to set password'' e)
               | (a1, None) \<Rightarrow> session_reply r a1)
        | _ \<Rightarrow> (a, HttpError 400 ''invalid request''))) False r"

definition HandleAuthLogin :: "dash_request \<Rightarrow> 'k dash \<Rightarrow> 'k dash \<times> dash_reply" where
  "HandleAuthLogin r = post_only (\<lambda>a.
     case decode_body [''password''] (drBody r) of
       Some [password] \<Rightarrow>
         if password_panics a then (a, Aborted)
         else if \<not> ValidatePassword password a then (a, HttpError 401 ''invalid password'') else session_reply r a
     | _ \<Rightarrow> (a, HttpError 400 ''invalid request'')) False r"

definition HandleAuthLogout :: "dash_request \<Rightarrow> 'k dash \<Rightarrow> 'k dash \<times> dash_reply" where
  "HandleAuthLogout r = post_only (\<lambda>a.
     ((case drCookie r of Some t \<Rightarrow> DestroySession t a | None \<Rightarrow> a),
      JsonReply (Some ClearCookie) (JObj [(''success'', JBool True)]))) False r"

text \<open>The order \<open>ks\<close> lists the names of an in-memory store.\<close>

definition error_text :: "secret_error \<Rightarrow> string" where
  "error_text e =
     (case e of
        ErrSecretNotFound \<Rightarrow> ''secret not found''
      | ErrStoreNotAvailable \<Rightarrow> ''secret store not available''
      | ErrMasterKeyRequired \<Rightarrow> ''master key required''
      | SecretError t \<Rightarrow> t
      | SecretPanic t \<Rightarrow> t)"

definition HandleSecrets :: "string list \<Rightarrow> 'k dash \<Rightarrow> 'k dash \<times> dash_reply" where
  "HandleSecrets ks a =
     (case DefaultStore a of (a1, st) \<Rightarrow>
        if \<not> store_Available st then
          (a1, JsonReply None (JObj
             [(''available'', JBool False),
              (''error'', JStr ''Secret store not available. Set KAGGEN_MASTER_KEY for encrypted file storage.''),
              (''keys'', JArr [])]))
        else
          (a1, case store_List ks st (daMachine a1) of
                 Inl e \<Rightarrow>
                   if panics (Some e) then Aborted
                   else JsonReply None (JObj [(''available'', JBool True), (''error'', JStr (error_text e)), (''keys'', JArr [])])
               | Inr ls \<Rightarrow>
                   JsonReply None (JObj
                     [(''available'', JBool True), (''backend'', JStr (store_Name st)), (''keys'', JArr (map JStr ls))])))"

definition key_char :: "char \<Rightarrow> bool" where
  "key_char c \<longleftrightarrow>
     (let n = (of_char c :: nat) in
      97 \<le> n \<and> n \<le> 122 \<or> 65 \<le> n \<and> n \<le> 90 \<or> 48 \<le> n \<and> n \<le> 57 \<or> c = CHR ''-'' \<or> c = CHR ''_'')"

definition HandleSecretsSet :: "dash_request \<Rightarrow> 'k dash \<Rightarrow> 'k dash \<times> dash_reply" where
  "HandleSecretsSet r = post_only (\<lambda>a.
     case DefaultStore a of (a1, st) \<Rightarrow>
       if \<not> store_Available st then (a1, HttpError 503 ''Secret store not available'')
       else
         (case decode_body [''key'', ''value''] (drBody r) of
            Some [key, val] \<Rightarrow>
              if key = [] \<or> val = [] then (a1, HttpError 400 ''key and value are required'')
              else if \<not> list_all key_char key then (a1, HttpError 400 ''key must be alphanumeric with dashes/underscores only'')
              else
                (case store_Set st key val (daMachine a1) of
                   (w, Some e) \<Rightarrow> (a1\<lparr>daMachine := w\<rparr>, failed (''failed to store secret: '' @ error_text e) e)
                 | (w, None) \<Rightarrow> (a1\<lparr>daMachine := w\<rparr>, JsonReply None (JObj [(''key'', JStr key), (''status'', JStr ''stored'')])))
          | _ \<Rightarrow> (a1, HttpError 400 ''invalid JSON''))) False r"

definition HandleSecretsDelete :: "dash_request \<Rightarrow> 'k dash \<Rightarrow> 'k dash \<times> dash_reply" where
  "HandleSecretsDelete r = post_only (\<lambda>a.
     case DefaultStore a of (a1, st) \<Rightarrow>
       if \<not> store_Available st then (a1, HttpError 503 ''Secret store not available'')
       else
         (case decode_body [''key''] (drBody r) of
            Some [key] \<Rightarrow>
              if key = [] then (a1, HttpError 400 ''key is required'')
              else
                (case store_Delete st key (daMachine a1) of
                   (w, Some e) \<Rightarrow> (a1\<lparr>daMachine := w\<rparr>, failed (''failed to delete secret: '' @ error_text e) e)
                 | (w, None) \<Rightarrow> (a1\<lparr>daMachine := w\<rparr>, JsonReply None (JObj [(''key'', JStr key), (''status'', JStr ''deleted'')])))
          | _ \<Rightarrow> (a1, HttpError 400 ''key is required''))) True r"

section \<open>Access tokens\<close>

definition HandleTokens :: "dash_env \<Rightarrow> dash_request \<Rightarrow> 'k dash \<Rightarrow> 'k dash \<times> dash_reply" where
  "HandleTokens env r a =
     (a, TokenList (case daTokens a of None \<Rightarrow> [] | Some s \<Rightarrow> ListTokens (drTime r) (deOrder env) s))"

text \<open>\<open>Sscanf\<close> with \<open>%d\<close> leaves 0 where there is no number, or one out of range; a duration wraps.\<close>

definition scan_int :: "string \<Rightarrow> int" where
  "scan_int s =
     (let t = dropWhile is_space s;
          (neg, u) = (case t of c # v \<Rightarrow> if c = CHR ''-'' then (True, v) else if c = CHR ''+'' then (False, v) else (False, t) | [] \<Rightarrow> (False, []));
          ds = takeWhile is_digit u
      in case parse_int (if neg then CHR ''-'' # ds else ds) of Some i \<Rightarrow> i | None \<Rightarrow> 0)"

definition wrap64 :: "int \<Rightarrow> int" where
  "wrap64 i = (i + 9223372036854775808) mod 18446744073709551616 - 9223372036854775808"

definition expires_in :: "dash_env \<Rightarrow> string \<Rightarrow> duration" where
  "expires_in env s =
     (if s = [] then 0
      else (case deDuration env s of
              Some d \<Rightarrow> d
            | None \<Rightarrow> if has_suffix s ''d'' then wrap64 (scan_int (trim_suffix s ''d'') * 86400000000000) else 0))"

text \<open>The random bytes of \<open>GenerateToken\<close>; those of the identifier are zero when there are none.\<close>

definition mint_token ::
  "dash_env \<Rightarrow> time \<Rightarrow> string \<Rightarrow> duration \<Rightarrow> token_store \<Rightarrow> 'k machine \<Rightarrow> token_store \<times> 'k machine \<times> (string \<times> string) go_result" where
  "mint_token env now name d s w =
     (case random_bytes 32 w of
        (w1, Inl e) \<Rightarrow> (s, w1, Inl (''generate random bytes: '' @ e))
      | (w1, Inr b) \<Rightarrow>
          (case random_bytes 16 w1 of
             (w2, Inl e) \<Rightarrow> (s, w2, Inl (''generate salt: '' @ e))
           | (w2, Inr salt) \<Rightarrow>
               (case random_bytes 8 w2 of (w3, i) \<Rightarrow>
                  (let ident = take 11 (b64_encode True (case i of Inr x \<Rightarrow> x | Inl _ \<Rightarrow> replicate 8 (char_of (0 :: nat)))) in
                   case GenerateToken (ciIDKey (mCiphers w3)) (deCodec env) (deOrder env) now (b64_encode True b) salt ident name d s (mDisk w3) of
                     (s1, disk, res) \<Rightarrow> (s1, w3\<lparr>mDisk := disk\<rparr>, res)))))"

definition HandleTokenGenerate :: "dash_env \<Rightarrow> dash_request \<Rightarrow> 'k dash \<Rightarrow> 'k dash \<times> dash_reply" where
  "HandleTokenGenerate env r = post_only (\<lambda>a.
     case daTokens a of
       None \<Rightarrow> (a, HttpError 500 ''token store not configured'')
     | Some s \<Rightarrow>
         (case decode_body [''name'', ''expires_in''] (drBody r) of
            Some [name, e] \<Rightarrow>
              (case mint_token env (drTime r) name (expires_in env e) s (daMachine a) of
                 (s1, w, Inl t) \<Rightarrow> (a\<lparr>daMachine := w, daTokens := Some s1\<rparr>, HttpError 500 (''failed to generate token: '' @ t))
               | (s1, w, Inr (plaintext, i)) \<Rightarrow> (a\<lparr>daMachine := w, daTokens := Some s1\<rparr>, TokenReply plaintext i))
          | _ \<Rightarrow> (a, HttpError 400 ''invalid JSON''))) False r"

definition HandleTokenRevoke :: "dash_env \<Rightarrow> dash_request \<Rightarrow> 'k dash \<Rightarrow> 'k dash \<times> dash_reply" where
  "HandleTokenRevoke env r = post_only (\<lambda>a.
     case daTokens a of
       None \<Rightarrow> (a, HttpError 500 ''token store not configured'')
     | Some s \<Rightarrow>
         (case decode_body [''id''] (drBody r) of
            Some [i] \<Rightarrow>
              if i = [] then (a, HttpError 400 ''id is required'')
              else
                (case RevokeToken (deCodec env) (deOrder env) i s (mDisk (daMachine a)) of
                   (s1, disk, e) \<Rightarrow>
                     (a\<lparr>daMachine := (daMachine a)\<lparr>mDisk := disk\<rparr>, daTokens := Some s1\<rparr>,
                      case e of Some t \<Rightarrow> HttpError 500 (''failed to revoke token: '' @ t)
                      | None \<Rightarrow> JsonReply None (JObj [(''id'', JStr i), (''status'', JStr ''revoked'')])))
          | _ \<Rightarrow> (a, HttpError 400 ''id is required''))) True r"

section \<open>Routes\<close>

definition RequireAuth ::
  "(dash_request \<Rightarrow> 'k dash \<Rightarrow> 'k dash \<times> dash_reply) \<Rightarrow> dash_request \<Rightarrow> 'k dash \<Rightarrow> 'k dash \<times> dash_reply" where
  "RequireAuth next r a =
     (if (case drCookie r of None \<Rightarrow> True | Some t \<Rightarrow> \<not> ValidateSession t a) then (a, HttpError 401 ''unauthorized'')
      else next r a)"

text \<open>The pattern, whether the handler is wrapped in \<open>RequireAuth\<close>, and the handler.\<close>

definition routes :: "(string \<times> bool \<times> string) list" where
  "routes =
    [(''/'', False, ''ServeHTML''), (''/dashboard'', False, ''ServeHTML''), (''/api/overview'', False, ''HandleOverview''),
     (''/api/tasks'', False, ''HandleTasks''), (''/api/tasks/grouped'', False, ''HandleGroupedTasks''),
     (''/api/backlog'', False, ''HandleBacklog''), (''/api/backlog/plan'', False, ''HandlePlanDetail''),
     (''/api/skills'', False, ''HandleSkills''), (''/api/sessions'', False, ''HandleSessions''),
     (''/api/sessions/messages'', False, ''HandleSessionMessages''), (''/api/sessions/rename'', False, ''HandleSessionRename''),
     (''/api/sessions/delete'', False, ''HandleSessionDelete''), (''/api/sessions/archive'', False, ''HandleSessionArchive''),
     (''/api/config'', False, ''HandleConfig''), (''/api/config/update'', True, ''HandleConfigUpdate''),
     (''/api/pipelines'', False, ''HandlePipelines''), (''/api/tasks/cancel'', False, ''HandleCancelTask''),
     (''/api/logs'', False, ''HandleLogsSSE''), (''/api/approvals'', False, ''HandleApprovals''),
     (''/api/approvals/approve'', False, ''HandleApprovalAction''), (''/api/approvals/reject'', False, ''HandleApprovalAction''),
     (''/api/files/'', False, ''HandleFiles''), (''/api/settings'', False, ''HandleSettings''),
     (''/api/tokens'', False, ''HandleTokens''), (''/api/tokens/generate'', False, ''HandleTokenGenerate''),
     (''/api/tokens/revoke'', False, ''HandleTokenRevoke''), (''/api/auth/status'', False, ''HandleAuthStatus''),
     (''/api/auth/setup'', False, ''HandleAuthSetup''), (''/api/auth/login'', False, ''HandleAuthLogin''),
     (''/api/auth/logout'', False, ''HandleAuthLogout''), (''/api/secrets'', True, ''HandleSecrets''),
     (''/api/secrets/set'', True, ''HandleSecretsSet''), (''/api/secrets/delete'', True, ''HandleSecretsDelete''),
     (''/api/oauth/providers'', True, ''HandleOAuthProviders''), (''/api/oauth/authorize'', True, ''HandleOAuthAuthorize''),
     (''/api/oauth/callback'', False, ''HandleOAuthCallback''), (''/api/oauth/revoke'', True, ''HandleOAuthRevoke''),
     (''/api/oauth/status'', True, ''HandleOAuthStatus'')]"

text \<open>A pattern that ends in a slash stands for everything below it.\<close>

definition route_of :: "string \<Rightarrow> bool \<times> string" where
  "route_of path =
     (case map_of routes path of
        Some g \<Rightarrow> g
      | None \<Rightarrow> if has_prefix path ''/api/files/'' then (False, ''HandleFiles'') else (False, ''ServeHTML''))"

text \<open>The handlers of this theory and that of \<open>ConfigUpdate\<close>.  A request for another one is only named: none
  of them touches passwords, sessions, secrets or tokens.\<close>

definition dash_handler :: "dash_env \<Rightarrow> string \<Rightarrow> dash_request \<Rightarrow> 'k dash \<Rightarrow> 'k dash \<times> dash_reply" where
  "dash_handler env h r a =
     (if h = ''HandleAuthStatus'' then HandleAuthStatus r a
      else if h = ''HandleAuthSetup'' then HandleAuthSetup r a
      else if h = ''HandleAuthLogin'' then HandleAuthLogin r a
      else if h = ''HandleAuthLogout'' then HandleAuthLogout r a
      else if h = ''HandleSecrets'' then HandleSecrets (deOrder env) a
      else if h = ''HandleSecretsSet'' then HandleSecretsSet r a
      else if h = ''HandleSecretsDelete'' then HandleSecretsDelete r a
      else if h = ''HandleTokens'' then HandleTokens env r a
      else if h = ''HandleTokenGenerate'' then HandleTokenGenerate env r a
      else if h = ''HandleTokenRevoke'' then HandleTokenRevoke env r a
      else if h = ''HandleConfigUpdate'' then
        (case HandleConfigUpdate (deFloats env) (deLess env) (deP2P env) (deConfigFile env)
                \<lparr>urMethod = drMethod r, urBody = drBody r\<rparr> (daConfig a) (mDisk (daMachine a)) of
           (c, d, rp) \<Rightarrow> (a\<lparr>daConfig := c, daMachine := (daMachine a)\<lparr>mDisk := d\<rparr>\<rparr>, UpdateReply rp))
      else (a, OtherHandler h))"

definition serve :: "dash_env \<Rightarrow> dash_request \<Rightarrow> 'k dash \<Rightarrow> 'k dash \<times> dash_reply" where
  "serve env r a =
     (case route_of (drPath r) of (guarded, h) \<Rightarrow>
        if guarded then RequireAuth (dash_handler env h) r a else dash_handler env h r a)"

fun serve_all :: "dash_env \<Rightarrow> dash_request list \<Rightarrow> 'k dash \<Rightarrow> 'k dash \<times> (dash_request \<times> 'k dash \<times> dash_reply) list" where
  "serve_all env [] a = (a, [])"
| "serve_all env (r # rs) a =
     (case serve env r a of (a1, p) \<Rightarrow> (case serve_all env rs a1 of (a2, log) \<Rightarrow> (a2, (r, a, p) # log)))"

section \<open>Sessions are earned\<close>

text \<open>A request that handed out a session: a login with the password, or the set-up while none was set.\<close>

definition grants :: "dash_request \<times> 'k dash \<times> dash_reply \<Rightarrow> string \<Rightarrow> bool" where
  "grants e t \<longleftrightarrow>
     (case e of (r, a, p) \<Rightarrow>
        (\<exists>b j. p = JsonReply (Some (SetCookie t b)) j) \<and>
        (drPath r = ''/api/auth/login'' \<and> (\<exists>pw. decode_body [''password''] (drBody r) = Some [pw] \<and> ValidatePassword pw a) \<or>
         drPath r = ''/api/auth/setup'' \<and> \<not> IsPasswordSet a))"

lemma random_keeps: "random_bytes n w = (w', x) \<Longrightarrow> mOps w' = mOps w \<and> mCiphers w' = mCiphers w \<and> mRing w' = mRing w \<and> mDisk w' = mDisk w"
  by (auto simp: random_bytes_def)

lemma session_reply_sessions:
  "session_reply r a = (a', p) \<Longrightarrow> daSessions a' t \<noteq> None \<Longrightarrow>
   daSessions a t \<noteq> None \<or> (\<exists>b j. p = JsonReply (Some (SetCookie t b)) j)"
  by (auto simp: session_reply_def CreateSession_def split: prod.splits sum.splits if_splits)

lemma SetPassword_sessions: "daSessions (fst (SetPassword pw a)) = daSessions a"
  by (simp add: SetPassword_def Let_def split: prod.split sum.split option.split)

lemma DefaultStore_sessions: "DefaultStore a = (a1, st) \<Longrightarrow> daSessions a1 = daSessions a"
  by (auto simp: DefaultStore_def split: option.splits prod.splits)

text \<open>Only the two routes hand out sessions.\<close>

lemma handler_route:
  "route_of p = (g, ''HandleAuthSetup'') \<Longrightarrow> p = ''/api/auth/setup''"
  "route_of p = (g, ''HandleAuthLogin'') \<Longrightarrow> p = ''/api/auth/login''"
  by (auto simp: route_of_def routes_def split: option.splits if_splits)

lemma setup_sessions:
  assumes "HandleAuthSetup r a = (a', p)" and "daSessions a' t \<noteq> None"
  shows "daSessions a t \<noteq> None \<or> \<not> IsPasswordSet a \<and> (\<exists>b j. p = JsonReply (Some (SetCookie t b)) j)"
proof -
  have s: "SetPassword pw a = (a1, e) \<Longrightarrow> daSessions a1 = daSessions a" for pw a1 e using SetPassword_sessions [of pw a] by simp
  show ?thesis using assms s session_reply_sessions [of r _ a' p t]
    by (auto simp: HandleAuthSetup_def post_only_def split: if_splits option.splits list.splits prod.splits) metis+
qed

lemma login_sessions:
  assumes "HandleAuthLogin r a = (a', p)" and "daSessions a' t \<noteq> None"
  shows "daSessions a t \<noteq> None \<or>
    (\<exists>pw. decode_body [''password''] (drBody r) = Some [pw] \<and> ValidatePassword pw a) \<and> (\<exists>b j. p = JsonReply (Some (SetCookie t b)) j)"
  using assms session_reply_sessions [of r a a' p t]
  by (auto simp: HandleAuthLogin_def post_only_def split: if_splits option.splits list.splits prod.splits)

lemma other_sessions:
  assumes "dash_handler env h r a = (a', p)" and "daSessions a' t \<noteq> None" and "h \<noteq> ''HandleAuthSetup''" and "h \<noteq> ''HandleAuthLogin''"
  shows "daSessions a t \<noteq> None"
  using assms DefaultStore_sessions [of a]
  by (auto simp: dash_handler_def HandleAuthStatus_def HandleAuthLogout_def HandleSecrets_def HandleSecretsSet_def HandleSecretsDelete_def
      HandleTokens_def HandleTokenGenerate_def HandleTokenRevoke_def post_only_def DestroySession_def
      split: if_splits option.splits list.splits prod.splits sum.splits)

lemma handler_sessions:
  assumes "dash_handler env h r a = (a', p)" and "daSessions a' t \<noteq> None" and "route_of (drPath r) = (g, h)"
  shows "daSessions a t \<noteq> None \<or> grants (r, a, p) t"
proof (cases "h = ''HandleAuthSetup'' \<or> h = ''HandleAuthLogin''")
  case True
  then show ?thesis
    using assms handler_route [of "drPath r" g] setup_sessions [of r a a' p t] login_sessions [of r a a' p t]
    by (auto simp: grants_def dash_handler_def)
next
  case False
  with other_sessions [OF assms(1,2)] show ?thesis by simp
qed

lemma serve_sessions:
  assumes "serve env r a = (a', p)" and "daSessions a' t \<noteq> None"
  shows "daSessions a t \<noteq> None \<or> grants (r, a, p) t"
proof -
  obtain g h where h: "route_of (drPath r) = (g, h)" by fastforce
  then have "a' = a \<or> dash_handler env h r a = (a', p)"
    using assms(1) by (auto simp: serve_def RequireAuth_def split: if_splits)
  with handler_sessions [OF _ assms(2) h] assms(2) show ?thesis by blast
qed

lemma log_sessions:
  assumes "serve_all env rs a = (a', log)" and "i < length log" and "log ! i = (r, b, p)" and "ValidateSession t b"
  shows "ValidateSession t a \<or> (\<exists>e \<in> set (take i log). grants e t)"
  using assms
proof (induction rs arbitrary: a a' log i)
  case (Cons r0 rs)
  obtain a1 p1 log1 where s: "serve env r0 a = (a1, p1)" "serve_all env rs a1 = (a', log1)" "log = (r0, a, p1) # log1"
    using Cons.prems(1) by (auto split: prod.splits)
  show ?case
  proof (cases i)
    case 0
    then show ?thesis using Cons.prems(3,4) s(3) by simp
  next
    case (Suc j)
    from Cons.IH [OF s(2), of j] Cons.prems(2-4) s(3) Suc
    have "ValidateSession t a1 \<or> (\<exists>e \<in> set (take j log1). grants e t)" by simp
    then show ?thesis using serve_sessions [OF s(1), of t] s(3) Suc by (auto simp: ValidateSession_def)
  qed
qed simp

lemma serve_all_entry:
  assumes "serve_all env rs a = (a', log)" and "i < length log" and "log ! i = (r, b, p)"
  shows "\<exists>b'. serve env r b = (b', p)"
  using assms
proof (induction rs arbitrary: a a' log i)
  case (Cons r0 rs)
  obtain a1 p1 log1 where s: "serve env r0 a = (a1, p1)" "serve_all env rs a1 = (a', log1)" "log = (r0, a, p1) # log1"
    using Cons.prems(1) by (auto split: prod.splits)
  then show ?case using Cons.IH [OF s(2)] Cons.prems(2,3) by (cases i) auto
qed simp

text \<open>C37. A guarded route, whose handler was run, was asked for with the cookie of a session that an earlier
  request was given for the password, or for setting one up while none was found.  Every other request
  for such a route is refused and changes nothing.
\<close>

theorem guarded_needs_login:
  assumes "serve_all env rs (NewDashboardAuth ts c w) = (a', log)" and "i < length log" and "log ! i = (r, a, p)"
    and "fst (route_of (drPath r))"
  shows "serve env r a = (a, HttpError 401 ''unauthorized'') \<and> p = HttpError 401 ''unauthorized'' \<or>
    (\<exists>t. drCookie r = Some t \<and> (\<exists>j < i. grants (log ! j) t))"
proof -
  obtain a1 where a1: "serve env r a = (a1, p)" using serve_all_entry [OF assms(1-3)] by blast
  show ?thesis
  proof (cases "\<exists>t. drCookie r = Some t \<and> ValidateSession t a")
    case True
    then obtain t where t: "drCookie r = Some t" "ValidateSession t a" by blast
    have "\<not> ValidateSession t (NewDashboardAuth ts c w)"
      by (simp add: ValidateSession_def NewDashboardAuth_def split: prod.split)
    with log_sessions [OF assms(1-3) t(2)] obtain e where e: "e \<in> set (take i log)" "grants e t" by blast
    from e(1) obtain j where "j < i" "log ! j = e" using assms(2) by (auto simp: in_set_conv_nth)
    with t(1) e(2) show ?thesis by blast
  next
    case False
    then have "serve env r a = (a, HttpError 401 ''unauthorized'')"
      using assms(4) by (auto simp: serve_def RequireAuth_def split: prod.splits option.splits)
    with a1 show ?thesis by simp
  qed
qed

section \<open>Passwords\<close>

lemma password_back: "password_decode (password_encode p) = Some p"
proof -
  let ?j = "JObj [(''hash'', bytes_encode (spHash p)), (''salt'', bytes_encode (spSalt p))]"
  have "good_json (bytes_encode b)" for b by (cases b) (simp_all add: bytes_encode_def)
  then have "json_parse (password_encode p) = Some ?j"
    unfolding password_encode_def by (intro parse_printed(2)) simp
  moreover have "members_for ''hash'' ?j = [bytes_encode (spHash p)]" "members_for ''salt'' ?j = [bytes_encode (spSalt p)]"
    by (simp_all add: members_for_def to_lower_def lower_char_bits)
  ultimately show ?thesis by (simp add: password_decode_def bytes_back)
qed

lemma password_not_empty: "password_encode p \<noteq> []"
  using password_back [of p] by (auto simp: password_decode_def json_parse_def skip_ws_def)

lemma store_set_get:
  assumes "store_sound st w" and "store_good st k" and "store_Set st k v w = (w', None)"
  shows "store_Get st k w' = Inr v"
proof (cases st)
  case (KeychainStore a)
  then have "a" using assms(1) by simp
  then show ?thesis using keychain.set_get [of w k v w'] assms KeychainStore by simp
next
  case (EncryptedStore e)
  then show ?thesis using encrypted.set_get [of e w k v w'] assms by simp
next
  case (MemoryStore a)
  then show ?thesis using memory.set_get [of a w k "[k]" v w'] assms by simp
qed

lemma store_sound_cong:
  "store_sound st w \<Longrightarrow> mOps w' = mOps w \<Longrightarrow> mCiphers w' = mCiphers w \<Longrightarrow> mDisk w' = mDisk w \<Longrightarrow> mMemory w' = mMemory w \<Longrightarrow> store_sound st w'"
  by (cases st) (simp_all add: file_sound_def)

lemma saveSecrets_frame [simp]:
  "mCiphers (fst (saveSecrets e xs salt w)) = mCiphers w" "mRing (fst (saveSecrets e xs salt w)) = mRing w"
  "mOps (fst (saveSecrets e xs salt w)) = mOps w"
  by (simp_all add: saveSecrets_def random_bytes_def Let_def split: prod.split option.split sum.split)

lemma file_Set_frame [simp]:
  "mCiphers (fst (file_Set e k v w)) = mCiphers w" "mRing (fst (file_Set e k v w)) = mRing w"
  by (auto simp: file_Set_def Let_def random_bytes_def split: load_result.split option.split prod.split sum.split)

lemma file_Set_ops: "mOps (fst (file_Set e k v w)) = mOps w"
  by (auto simp: file_Set_def Let_def random_bytes_def split: load_result.split option.split prod.split sum.split)

text \<open>Setting the fallback password leaves the place in the key ring alone.\<close>

lemma store_Set_frame:
  assumes "store_sound st w" and "store_Set st dashboardPasswordSecretKey v w = (w', None)"
  shows "mCiphers w' = mCiphers w \<and> ring_password w' = ring_password w"
proof (cases st)
  case (KeychainStore a)
  then have a: "keyring_ok (mOps w)" "ring_Set True dashboardPasswordSecretKey v w = (w', None)"
    using assms by (simp_all add: ring_Set_def split: if_splits)
  have n: "dashboardPasswordSecretKey \<noteq> KeyListKey" "keychainPasswordKey \<noteq> dashboardPasswordSecretKey" "keychainPasswordKey \<noteq> KeyListKey"
    by (simp_all add: dashboardPasswordSecretKey_def KeyListKey_def keychainPasswordKey_def)
  have "mCiphers w' = mCiphers w"
    using a(2) by (auto simp: ring_Set_def ring_write_def addToKeyList_def Let_def split: prod.splits option.splits if_splits)
  with ring_Set_ok [OF a(1) n(1) a(2)] n show ?thesis by (simp add: ring_password_def)
next
  case (EncryptedStore e)
  with assms(2) file_Set_frame [of e dashboardPasswordSecretKey v w] file_Set_ops [of e dashboardPasswordSecretKey v w] show ?thesis by (simp add: ring_password_def)
next
  case (MemoryStore a)
  with assms(2) show ?thesis by (auto simp: memory_Set_def ring_password_def)
qed

text \<open>
  A password that was set when there was none is the password: exactly the passwords with its hash under
  the fresh salt are accepted, wherever it is kept.
\<close>

theorem password_roundtrip:
  assumes "keyring_ok (mOps (daMachine a))" and "ciphers_ok (mCiphers (daMachine a))"
    and "\<forall>st. daStore a = Some st \<longrightarrow> store_sound st (daMachine a)"
    and "\<not> IsPasswordSet a" and "SetPassword pw a = (a', None)"
  shows "IsPasswordSet a' \<and> (\<exists>salt. length salt = saltLength \<and>
    (\<forall>q. ValidatePassword q a' \<longleftrightarrow> ciIDKey (mCiphers (daMachine a)) q salt = ciIDKey (mCiphers (daMachine a)) pw salt))"
proof -
  let ?c = "mCiphers (daMachine a)" and ?k = "mOps (daMachine a)"
  obtain w salt where w: "random_bytes saltLength (daMachine a) = (w, Inr salt)"
    using assms(5) by (auto simp: SetPassword_def split: prod.splits sum.splits)
  note f = random_keeps [OF w]
  have l: "length salt = saltLength" using w assms(2) by (auto simp: random_bytes_def ciphers_ok_def)
  let ?d = "password_encode \<lparr>spHash = Some (ciIDKey ?c pw salt), spSalt = Some salt\<rparr>"
  obtain r e where r: "krSet ?k ServiceName keychainPasswordKey ?d (mRing (daMachine a)) = (r, e)" by fastforce
  have "loadPasswordData a' = ?d \<and> mCiphers (daMachine a') = ?c \<and> IsPasswordSet a'"
  proof (cases e)
    case None
    then have a': "a' = a\<lparr>daMachine := w\<lparr>mRing := r\<rparr>\<rparr>" using assms(5) w r f by (simp add: SetPassword_def Let_def)
    have "krGet ?k ServiceName keychainPasswordKey r = Inr ?d" using assms(1) r [unfolded None] unfolding keyring_ok_def by metis
    then show ?thesis using f by (simp add: a' loadPasswordData_def ring_password_def IsPasswordSet_def)
  next
    case (Some x)
    then obtain st w2 where st: "daStore a = Some st" "store_Available st"
        "store_Set st dashboardPasswordSecretKey ?d (w\<lparr>mRing := r\<rparr>) = (w2, None)" "a' = a\<lparr>daMachine := w2\<rparr>"
      using assms(5) w r f by (auto simp: SetPassword_def Let_def split: option.splits if_splits prod.splits)
    have "krGet ?k ServiceName keychainPasswordKey r = krGet ?k ServiceName keychainPasswordKey (mRing (daMachine a))"
      using assms(1) r [unfolded Some] unfolding keyring_ok_def by metis
    then have old: "ring_password (w\<lparr>mRing := r\<rparr>) = ring_password (daMachine a)" using f by (simp add: ring_password_def)
    have "store_sound st (daMachine a)" using assms(3) st(1) by simp
    then have snd: "store_sound st (w\<lparr>mRing := r\<rparr>)" by (rule store_sound_cong) (use f w in \<open>auto simp: random_bytes_def\<close>)
    note fr = store_Set_frame [OF snd st(3)]
    have "store_good st dashboardPasswordSecretKey" by (cases st) (simp_all add: dashboardPasswordSecretKey_def KeyListKey_def)
    from store_set_get [OF snd this st(3)] have g: "fallback_password a' = Inr ?d" using st by (simp add: fallback_password_def)
    have "is_err (ring_password w2)" using fr old assms(4) by (simp add: IsPasswordSet_def split: sum.splits)
    then show ?thesis using g fr st(4) f
      by (auto simp: loadPasswordData_def IsPasswordSet_def isPasswordInFallback_def split: sum.splits)
  qed
  then show ?thesis using l by (intro conjI exI [of _ salt]) (auto simp: ValidatePassword_def password_back password_not_empty)
qed

section \<open>How the password is lost\<close>

lemma setup_sessions_open:
  assumes "ring_password (daMachine a) = Inl e" and "\<forall>v. fallback_password a \<noteq> Inr v" and "\<not> password_panics a"
    and "drMethod r = ''POST''" and "drPath r = ''/api/auth/setup''"
    and "decode_body [''password''] (drBody r) = Some [pw]" and "8 \<le> length pw"
    and "SetPassword pw a = (a1, None)" and "random_bytes sessionLength (daMachine a1) = (w, Inr b)"
  shows "\<exists>a2. serve env r a = (a2, JsonReply (Some (SetCookie (b64_encode True b) (drTLS r))) (JObj [(''success'', JBool True)])) \<and>
    (\<forall>q. drCookie q = Some (b64_encode True b) \<longrightarrow> serve env q a2 = dash_handler env (snd (route_of (drPath q))) q a2)"
proof -
  have n: "\<not> IsPasswordSet a" using assms(1,2) by (simp add: IsPasswordSet_def isPasswordInFallback_def split: sum.splits)
  have m: "route_of ''/api/auth/setup'' = (False, ''HandleAuthSetup'')" by (simp add: route_of_def routes_def)
  let ?a2 = "a1\<lparr>daMachine := w, daSessions := (daSessions a1)(b64_encode True b \<mapsto> drTime r)\<rparr>"
  have "serve env r a = HandleAuthSetup r a" by (simp add: serve_def assms(5) m dash_handler_def)
  also have "\<dots> = session_reply r a1" using n assms(3,4,6-8) by (simp add: HandleAuthSetup_def post_only_def)
  also have "\<dots> = (?a2, JsonReply (Some (SetCookie (b64_encode True b) (drTLS r))) (JObj [(''success'', JBool True)]))"
    using assms(9) by (simp add: session_reply_def CreateSession_def)
  finally show ?thesis
    by (intro exI [of _ ?a2]) (auto simp: serve_def RequireAuth_def ValidateSession_def split: prod.split)
qed

text \<open>C38. When the key ring cannot be read, although it may hold a password, and the fallback store holds none,
  anyone may set a password, provided that it can be stored: the set-up is accepted without a login
  and gives a session, which then opens every guarded route.
\<close>

theorem setup_fails_open:
  assumes "ring_password (daMachine a) = Inl e" and "\<forall>v. fallback_password a \<noteq> Inr v" and "\<not> password_panics a"
    and "drMethod r = ''POST''" and "drPath r = ''/api/auth/setup''"
    and "decode_body [''password''] (drBody r) = Some [pw]" and "8 \<le> length pw"
    and "SetPassword pw a = (a1, None)" and "random_bytes sessionLength (daMachine a1) = (w, Inr b)"
  shows "\<exists>a2. serve env r a = (a2, JsonReply (Some (SetCookie (b64_encode True b) (drTLS r))) (JObj [(''success'', JBool True)])) \<and>
    (\<forall>q. drCookie q = Some (b64_encode True b) \<longrightarrow> serve env q a2 = dash_handler env (snd (route_of (drPath q))) q a2)"
  by (rule setup_sessions_open [OF assms])

text \<open>The password is in the way of the secrets: deleting the secret of its name deletes it.\<close>

lemma secret_delete_forgets:
  assumes "keyring_ok (mOps (daMachine a))" and "\<not> ring_misread keychainPasswordKey (daMachine a)" and "daDefault a = Some (KeychainStore True)"
    and "drMethod r = ''POST''" and "decode_body [''key''] (drBody r) = Some [keychainPasswordKey]"
    and "HandleSecretsDelete r a = (a', JsonReply None j)"
  shows "ring_password (daMachine a') = Inl ErrNotFound"
proof -
  obtain w where w: "ring_Delete True keychainPasswordKey (daMachine a) = (w, None)" "a' = a\<lparr>daMachine := w\<rparr>"
    using assms(3-6) by (auto simp: HandleSecretsDelete_def post_only_def DefaultStore_def keychainPasswordKey_def failed_def
        split: prod.splits option.splits if_splits secret_error.splits)
  have "keychainPasswordKey \<noteq> KeyListKey" by (simp add: keychainPasswordKey_def KeyListKey_def)
  from ring_Delete_ok [OF assms(1) this w(1)] w(2) assms(2) show ?thesis by (simp add: ring_password_def)
qed
section \<open>Small instances\<close>

lemma decode_printed: "decode_body [n] (json_Marshal (JObj [(n, JStr v)])) = Some [v]"
proof -
  have "good_json (JObj [(n, JStr v)])" by simp
  from parse_printed(2) [OF this]
  obtain t where t: "parse_value (2 * length (json_Marshal (JObj [(n, JStr v)])) + 2) (json_Marshal (JObj [(n, JStr v)])) = Some (JObj [(n, JStr v)], t)"
    by (auto simp: json_parse_def split: option.splits if_splits)
  then show ?thesis unfolding decode_body_def Let_def t by (simp add: members_for_def)
qed

text \<open>A key ring that holds a password and is locked.\<close>

definition locked_keyring :: "(string \<times> string \<rightharpoonup> string) keyring_ops" where
  "locked_keyring =
     \<lparr>krGet = (\<lambda>s u r. Inl ''keychain is locked''), krSet = (\<lambda>s u v r. (r, Some ''keychain is locked'')),
      krDelete = (\<lambda>s u r. (r, Some ''keychain is locked''))\<rparr>"

definition locked_dash :: "(string \<times> string \<rightharpoonup> string) dash" where
  "locked_dash =
     \<lparr>daMachine = demo_machine\<lparr>mOps := locked_keyring, mRing := [(ServiceName, keychainPasswordKey) \<mapsto> ''secret''], mMemory := [Map.empty]\<rparr>,
      daStore = Some (MemoryStore 0), daDefault = None, daSessions = Map.empty, daTokens = None, daConfig = VStruct []\<rparr>"

definition new_password :: dash_request where
  "new_password =
     \<lparr>drTime = 0, drMethod = ''POST'', drPath = ''/api/auth/setup'', drCookie = None, drTLS = False,
      drBody = json_Marshal (JObj [(''password'', JStr ''intruder'')])\<rparr>"

definition demo_cookie :: string where
  "demo_cookie = b64_encode True (replicate 32 CHR ''a'')"

definition ask_secrets :: dash_request where
  "ask_secrets =
     \<lparr>drTime = 1, drMethod = ''GET'', drPath = ''/api/secrets'', drCookie = Some demo_cookie, drTLS = False, drBody = ''''\<rparr>"

definition plain_env :: dash_env where
  "plain_env =
     \<lparr>deFloats = token_floats, deLess = (\<lambda>_ _. False), deP2P = \<lparr>pcRunning = False, pcStart = None\<rparr>, deConfigFile = [''config.json''],
      deDuration = (\<lambda>_. None), deCodec = demo_token_codec, deOrder = []\<rparr>"

lemma demo_random: "random_bytes n w = (w\<lparr>mDraws := Suc (mDraws w)\<rparr>, Inr (replicate n CHR ''a''))" if "mCiphers w = demo_ciphers"
  using that by (simp add: random_bytes_def demo_ciphers_def)

lemma locked_setup:
  "ring_password (daMachine locked_dash) = Inl ''keychain is locked''" "\<forall>v. fallback_password locked_dash \<noteq> Inr v"
  "\<not> password_panics locked_dash" "\<exists>a1. SetPassword ''intruder'' locked_dash = (a1, None) \<and> mCiphers (daMachine a1) = demo_ciphers"
proof -
  have c: "mCiphers (daMachine locked_dash) = demo_ciphers" by (simp add: locked_dash_def demo_machine_def)
  show "ring_password (daMachine locked_dash) = Inl ''keychain is locked''"
    by (simp add: ring_password_def locked_dash_def locked_keyring_def)
  show "\<forall>v. fallback_password locked_dash \<noteq> Inr v" "\<not> password_panics locked_dash"
    by (simp_all add: fallback_password_def locked_dash_def memory_Get_def password_panics_def panics_def ring_password_def locked_keyring_def)
  show "\<exists>a1. SetPassword ''intruder'' locked_dash = (a1, None) \<and> mCiphers (daMachine a1) = demo_ciphers"
    using c by (simp add: SetPassword_def demo_random Let_def) (simp add: locked_dash_def locked_keyring_def memory_Set_def)
qed

theorem setup_fails_open_witness:
  "mRing (daMachine locked_dash) (ServiceName, keychainPasswordKey) = Some ''secret'' \<and>
   (\<exists>a2. serve plain_env new_password locked_dash = (a2, JsonReply (Some (SetCookie demo_cookie False)) (JObj [(''success'', JBool True)])) \<and>
     serve plain_env ask_secrets a2 = HandleSecrets [] a2)"
proof -
  obtain a1 where a1: "SetPassword ''intruder'' locked_dash = (a1, None)" "mCiphers (daMachine a1) = demo_ciphers"
    using locked_setup(4) by blast
  have d: "decode_body [''password''] (drBody new_password) = Some [''intruder'']" by (simp add: new_password_def decode_printed)
  have r: "random_bytes sessionLength (daMachine a1) = ((daMachine a1)\<lparr>mDraws := Suc (mDraws (daMachine a1))\<rparr>, Inr (replicate 32 CHR ''a''))"
    using demo_random [OF a1(2)] by (simp add: sessionLength_def)
  have q: "snd (route_of (drPath ask_secrets)) = ''HandleSecrets''" by (simp add: ask_secrets_def route_of_def routes_def)
  have h: "dash_handler plain_env ''HandleSecrets'' ask_secrets a2 = HandleSecrets [] a2" for a2 :: "(string \<times> string \<rightharpoonup> string) dash"
    by (simp add: dash_handler_def plain_env_def)
  from setup_fails_open [OF locked_setup(1-3) _ _ d _ a1(1) r, of plain_env] obtain a2 where
    a2: "serve plain_env new_password locked_dash = (a2, JsonReply (Some (SetCookie demo_cookie False)) (JObj [(''success'', JBool True)]))"
      "\<forall>q. drCookie q = Some demo_cookie \<longrightarrow> serve plain_env q a2 = dash_handler plain_env (snd (route_of (drPath q))) q a2"
    by (auto simp: new_password_def demo_cookie_def)
  moreover have "drCookie ask_secrets = Some demo_cookie" by (simp add: ask_secrets_def)
  ultimately have "serve plain_env ask_secrets a2 = HandleSecrets [] a2" using q h by metis
  with a2(1) show ?thesis by (auto simp: locked_dash_def)
qed

theorem password_roundtrip_witness:
  "\<exists>a1. SetPassword ''intruder'' (locked_dash\<lparr>daMachine := (daMachine locked_dash)\<lparr>mOps := demo_keyring, mRing := Map.empty\<rparr>\<rparr>) = (a1, None) \<and>
     ValidatePassword ''intruder'' a1"
proof -
  let ?a = "locked_dash\<lparr>daMachine := (daMachine locked_dash)\<lparr>mOps := demo_keyring, mRing := Map.empty\<rparr>\<rparr>"
  have c: "mCiphers (daMachine ?a) = demo_ciphers" "mOps (daMachine ?a) = demo_keyring" by (simp_all add: locked_dash_def demo_machine_def)
  have "\<exists>a1. SetPassword ''intruder'' ?a = (a1, None)"
    using c by (simp add: SetPassword_def demo_random Let_def) (simp add: demo_keyring_def)
  then obtain a1 where a1: "SetPassword ''intruder'' ?a = (a1, None)" by blast
  have n: "\<not> IsPasswordSet ?a"
    by (simp add: IsPasswordSet_def ring_password_def demo_keyring_def isPasswordInFallback_def fallback_password_def locked_dash_def memory_Get_def)
  have s: "\<forall>st. daStore ?a = Some st \<longrightarrow> store_sound st (daMachine ?a)" by (simp add: locked_dash_def)
  from password_roundtrip [OF _ _ s n a1] demo_libraries c a1 show ?thesis by auto
qed

definition fresh_dash :: "(string \<times> string \<rightharpoonup> string) dash" where
  "fresh_dash = NewDashboardAuth None (VStruct []) demo_machine"

lemma fresh_setup:
  "ring_password (daMachine fresh_dash) = Inl ErrNotFound" "\<forall>v. fallback_password fresh_dash \<noteq> Inr v"
  "\<not> password_panics fresh_dash" "\<exists>a1. SetPassword ''intruder'' fresh_dash = (a1, None) \<and> mCiphers (daMachine a1) = demo_ciphers"
proof -
  let ?w = "demo_machine\<lparr>mDraws := 1, mDisk := home_disk, mMasterKey := Some (Inr (replicate 32 CHR ''a''))\<rparr>"
  have f: "fresh_dash = \<lparr>daMachine = ?w, daStore = Some (EncryptedStore demo_store), daDefault = None, daSessions = Map.empty,
      daTokens = None, daConfig = VStruct []\<rparr>"
    by (simp add: fresh_dash_def NewDashboardAuth_def EncryptedFallbackStore_def demo_new_store demo_store_def)
  show "ring_password (daMachine fresh_dash) = Inl ErrNotFound"
    by (simp add: f ring_password_def demo_machine_def demo_keyring_def)
  have "loadSecrets demo_store ?w = LoadMissing"
    by (simp add: loadSecrets_def os_ReadFile_def through_file_def home_disk_def demo_store_def upt_rec)
  then have g: "file_Get demo_store k ?w = Inl ErrSecretNotFound" for k by (simp add: file_Get_def demo_store_def)
  have "esAvailable demo_store" by (simp add: demo_store_def)
  with g show "\<forall>v. fallback_password fresh_dash \<noteq> Inr v" "\<not> password_panics fresh_dash"
    by (simp_all add: f fallback_password_def password_panics_def panics_def ring_password_def demo_machine_def demo_keyring_def)
  show "\<exists>a1. SetPassword ''intruder'' fresh_dash = (a1, None) \<and> mCiphers (daMachine a1) = demo_ciphers"
    by (simp add: f SetPassword_def demo_random Let_def demo_machine_def) (simp add: demo_keyring_def)
qed

theorem guarded_needs_login_witness:
  "\<exists>log a2 j. serve_all plain_env [new_password, ask_secrets] (NewDashboardAuth None (VStruct []) demo_machine) = (a2, log) \<and>
     snd (snd (log ! 1)) \<noteq> HttpError 401 ''unauthorized'' \<and> j < 1 \<and> grants (log ! j) demo_cookie"
proof -
  obtain a1 where a1: "SetPassword ''intruder'' fresh_dash = (a1, None)" "mCiphers (daMachine a1) = demo_ciphers"
    using fresh_setup(4) by blast
  have d: "decode_body [''password''] (drBody new_password) = Some [''intruder'']" by (simp add: new_password_def decode_printed)
  have r: "random_bytes sessionLength (daMachine a1) = ((daMachine a1)\<lparr>mDraws := Suc (mDraws (daMachine a1))\<rparr>, Inr (replicate 32 CHR ''a''))"
    using demo_random [OF a1(2)] by (simp add: sessionLength_def)
  have q: "route_of (drPath ask_secrets) = (True, ''HandleSecrets'')" by (simp add: ask_secrets_def route_of_def routes_def)
  have c: "drCookie ask_secrets = Some demo_cookie" by (simp add: ask_secrets_def)
  have h: "dash_handler plain_env ''HandleSecrets'' ask_secrets a2 = HandleSecrets [] a2" for a2 :: "(string \<times> string \<rightharpoonup> string) dash"
    by (simp add: dash_handler_def plain_env_def)
  from setup_sessions_open [OF fresh_setup(1-3) _ _ d _ a1(1) r, of plain_env] obtain a2 where
    a2: "serve plain_env new_password fresh_dash = (a2, JsonReply (Some (SetCookie demo_cookie False)) (JObj [(''success'', JBool True)]))"
      "\<forall>q. drCookie q = Some demo_cookie \<longrightarrow> serve plain_env q a2 = dash_handler plain_env (snd (route_of (drPath q))) q a2"
    by (auto simp: new_password_def demo_cookie_def)
  obtain a3 p where p: "HandleSecrets [] a2 = (a3, p)" by fastforce
  have s: "serve plain_env ask_secrets a2 = (a3, p)" using a2(2) c q h p by simp
  have n: "p \<noteq> HttpError 401 ''unauthorized''"
    using p by (auto simp: HandleSecrets_def panics_def split: prod.splits if_splits sum.splits)
  let ?log = "[(new_password, fresh_dash, JsonReply (Some (SetCookie demo_cookie False)) (JObj [(''success'', JBool True)])), (ask_secrets, a2, p)]"
  have l: "serve_all plain_env [new_password, ask_secrets] (NewDashboardAuth None (VStruct []) demo_machine) = (a3, ?log)"
    using a2(1) s by (simp add: fresh_dash_def)
  from guarded_needs_login [OF l, of 1 ask_secrets a2 p] q n c show ?thesis using l by fastforce
qed

end
