(* ===== verification/GoURL.thy ===== *)
theory GoURL
  imports GoBytes
begin

text \<open>
  Query strings of \<open>net/url\<close>: escaping, \<open>Values.Encode\<close> and \<open>ParseQuery\<close>.  Values are a list of names
  and texts; the program gives every name one value.
\<close>

section \<open>Escaping\<close>

definition upper_hex :: "nat \<Rightarrow> char" where
  "upper_hex n = (if n < 10 then char_of (48 + n) else char_of (55 + n))"

definition unreserved :: "char \<Rightarrow> bool" where
  "unreserved c \<longleftrightarrow>
     (let n = (of_char c :: nat) in
      48 \<le> n \<and> n \<le> 57 \<or> 65 \<le> n \<and> n \<le> 90 \<or> 97 \<le> n \<and> n \<le> 122 \<or> n = 45 \<or> n = 46 \<or> n = 95 \<or> n = 126)"

definition escape_char :: "char \<Rightarrow> string" where
  "escape_char c =
     (if unreserved c then [c]
      else if of_char c = (32 :: nat) then [char_of (43 :: nat)]
      else [char_of (37 :: nat), upper_hex (of_char c div 16), upper_hex (of_char c mod 16)])"

definition QueryEscape :: "string \<Rightarrow> string" where
  "QueryEscape s = concat (map escape_char s)"

fun QueryUnescape :: "string \<Rightarrow> string option" where
  "QueryUnescape [] = Some []"
| "QueryUnescape (c # s) =
     (if of_char c = (37 :: nat) then
        (case s of
           a # b # t \<Rightarrow>
             (case (hex_value a, hex_value b, QueryUnescape t) of
                (Some x, Some y, Some u) \<Rightarrow> Some (char_of (16 * x + y) # u)
              | _ \<Rightarrow> None)
         | _ \<Rightarrow> None)
      else map_option ((#) (if of_char c = (43 :: nat) then char_of (32 :: nat) else c)) (QueryUnescape s))"

definition values_Encode :: "(string \<times> string) list \<Rightarrow> string" where
  "values_Encode kvs =
     join_str ''&'' (map (\<lambda>(k, v). QueryEscape k @ ''='' @ QueryEscape v) (sort_key fst kvs))"

text \<open>\<open>strings.Cut\<close> at a character: the text before it, and what follows if it is there.\<close>

fun cut_at :: "char \<Rightarrow> string \<Rightarrow> string \<times> string" where
  "cut_at sep [] = ([], [])"
| "cut_at sep (c # s) = (if c = sep then ([], s) else (case cut_at sep s of (a, b) \<Rightarrow> (c # a, b)))"

text \<open>The pairs that could be read, and whether one could not.\<close>

definition parse_pair :: "string \<Rightarrow> (string \<times> string) list \<times> bool" where
  "parse_pair p =
     (if CHR '';'' \<in> set p then ([], True)
      else if p = [] then ([], False)
      else (case cut_at (CHR ''='') p of (k, v) \<Rightarrow>
              (case (QueryUnescape k, QueryUnescape v) of
                 (Some x, Some y) \<Rightarrow> ([(x, y)], False)
               | _ \<Rightarrow> ([], True))))"

definition ParseQuery :: "string \<Rightarrow> (string \<times> string) list \<times> bool" where
  "ParseQuery q = (let rs = map parse_pair (split_on (CHR ''&'') q) in (concat (map fst rs), list_ex snd rs))"

text \<open>\<open>Values.Get\<close>: the first value, or the empty text.\<close>

definition values_Get :: "(string \<times> string) list \<Rightarrow> string \<Rightarrow> string" where
  "values_Get kvs k = (case map_of kvs k of Some v \<Rightarrow> v | None \<Rightarrow> [])"

section \<open>Reading what was encoded\<close>

lemma hex_upper: "n < 16 \<Longrightarrow> hex_value (upper_hex n) = Some n"
  by (auto simp: hex_value_def upper_hex_def of_char_of take_bit_eq_mod)

lemma upper_hex_code: "n < 16 \<Longrightarrow> (of_char (upper_hex n) :: nat) = (if n < 10 then 48 + n else 55 + n)"
  by (auto simp: upper_hex_def of_char_of take_bit_eq_mod)

lemma unescape_escape: "QueryUnescape (escape_char c @ s) = map_option ((#) c) (QueryUnescape s)"
proof (cases "unreserved c")
  case True
  then have "of_char c \<noteq> (37 :: nat)" "of_char c \<noteq> (43 :: nat)" by (auto simp: unreserved_def Let_def)
  then show ?thesis using True by (simp add: escape_char_def)
next
  case False
  have d: "of_char c div 16 < (16 :: nat)" "of_char c mod 16 < (16 :: nat)"
    using byte_below [of c] by (simp_all add: less_mult_imp_div_less)
  show ?thesis
  proof (cases "of_char c = (32 :: nat)")
    case True
    then have "char_of (32 :: nat) = c" by (metis char_of_char)
    then show ?thesis using False True by (simp add: escape_char_def of_char_of)
  next
    case other: False
    have "char_of (16 * (of_char c div 16) + of_char c mod 16 :: nat) = c" by simp
    then show ?thesis using False other by (simp add: escape_char_def of_char_of hex_upper [OF d(1)] hex_upper [OF d(2)] split: option.split)
  qed
qed

lemma unescape_QueryEscape: "QueryUnescape (QueryEscape s) = Some s"
  by (induction s) (simp_all add: QueryEscape_def unescape_escape)

text \<open>No character of an escaped text separates.\<close>

definition separator :: "char \<Rightarrow> bool" where
  "separator c \<longleftrightarrow> (of_char c :: nat) \<in> {38, 59, 61}"

lemma unreserved_plain: "unreserved d \<Longrightarrow> \<not> separator d"
  by (auto simp: unreserved_def separator_def Let_def)

lemma upper_hex_plain: "n < 16 \<Longrightarrow> \<not> separator (upper_hex n)"
  by (simp add: separator_def upper_hex_code)

lemma escape_char_plain: "d \<in> set (escape_char c) \<Longrightarrow> \<not> separator d"
proof -
  have e: "of_char c div 16 < (16 :: nat)" "of_char c mod 16 < (16 :: nat)"
    using byte_below [of c] by (simp_all add: less_mult_imp_div_less)
  have p: "\<not> separator (char_of (43 :: nat))" "\<not> separator (char_of (37 :: nat))"
    by (simp_all add: separator_def of_char_of)
  show "d \<in> set (escape_char c) \<Longrightarrow> \<not> separator d"
    using unreserved_plain [of c] upper_hex_plain [OF e(1)] upper_hex_plain [OF e(2)] p
    by (simp add: escape_char_def split: if_splits) blast
qed

lemma QueryEscape_plain: "d \<in> set (QueryEscape s) \<Longrightarrow> \<not> separator d"
  using escape_char_plain by (auto simp: QueryEscape_def)

lemma separators: "separator (CHR ''&'')" "separator (CHR '';'')" "separator (CHR ''='')"
  by (simp_all add: separator_def)

lemma cut_at_split: "sep \<notin> set a \<Longrightarrow> cut_at sep (a @ sep # b) = (a, b)"
  by (induction a) auto

lemma parse_encoded: "parse_pair (QueryEscape k @ ''='' @ QueryEscape v) = ([(k, v)], False)"
proof -
  have n: "CHR '';'' \<notin> set (QueryEscape k @ ''='' @ QueryEscape v)" "CHR ''='' \<notin> set (QueryEscape k)"
    using QueryEscape_plain separators by auto
  from cut_at_split [OF n(2), of "QueryEscape v"] n(1) show ?thesis by (simp add: parse_pair_def unescape_QueryEscape)
qed

lemma split_on_plain: "sep \<notin> set a \<Longrightarrow> split_on sep a = [a]"
  by (induction a) auto

lemma split_at_sep: "sep \<notin> set a \<Longrightarrow> split_on sep (a @ sep # b) = a # split_on sep b"
  by (induction a) auto

lemma split_joined:
  "xs \<noteq> [] \<Longrightarrow> \<forall>x \<in> set xs. sep \<notin> set x \<Longrightarrow> split_on sep (join_str [sep] xs) = xs"
proof (induction xs rule: induct_list012)
  case (2 x)
  then show ?case by (simp add: split_on_plain)
next
  case (3 x y zs)
  then show ?case using split_at_sep [of sep x "join_str [sep] (y # zs)"] by simp
qed simp

theorem ParseQuery_Encode:
  assumes "kvs \<noteq> []"
  shows "ParseQuery (values_Encode kvs) = (sort_key fst kvs, False)"
proof -
  define pair where "pair = (\<lambda>(k, v). QueryEscape k @ ''='' @ QueryEscape v)"
  have n: "CHR ''&'' \<notin> set (pair p)" for p
    using QueryEscape_plain separators(1) by (cases p) (auto simp: pair_def)
  have p: "parse_pair (pair p) = ([p], False)" for p
    by (cases p) (simp only: pair_def prod.case parse_encoded)
  have "map pair (sort_key fst kvs) \<noteq> []" using assms by (metis length_0_conv length_map length_sort)
  then have "split_on (CHR ''&'') (values_Encode kvs) = map pair (sort_key fst kvs)"
    unfolding values_Encode_def pair_def [symmetric] by (rule split_joined) (simp add: n)
  then show ?thesis by (simp add: ParseQuery_def comp_def p list_ex_iff)
qed

end
