(* ===== verification/OAuth.thy ===== *)
theory OAuth
  imports DashboardAuth GoURL
begin

text \<open>
  Authorization at providers (\<open>internal/oauth\<close>) and its dashboard handlers
  (\<open>internal/gateway/dashboard_oauth.go\<close>): the flow with its states and PKCE, the requests to the token
  endpoint and its answers, and the encrypted table of tokens with automatic refresh.  The network is an
  input: an operation that waits for an answer is split at that point, so that others can come between.
  The table is a map from its primary key; SHA-256 is a parameter.
\<close>

section \<open>Tokens\<close>

datatype oauth_error =
  ErrTokenNotFound | ErrTokenExpired | ErrNoRefreshToken | ErrProviderNotConfigured | ErrInvalidState
| ErrAuthorizationFailed | OAuthError string

type_synonym 'a oauth_result = "oauth_error + 'a"

definition oauth_error_text :: "oauth_error \<Rightarrow> string" where
  "oauth_error_text e =
     (case e of
        ErrTokenNotFound \<Rightarrow> ''oauth: token not found''
      | ErrTokenExpired \<Rightarrow> ''oauth: token expired''
      | ErrNoRefreshToken \<Rightarrow> ''oauth: no refresh token available''
      | ErrProviderNotConfigured \<Rightarrow> ''oauth: provider not configured''
      | ErrInvalidState \<Rightarrow> ''oauth: invalid or expired state''
      | ErrAuthorizationFailed \<Rightarrow> ''oauth: authorization failed''
      | OAuthError t \<Rightarrow> t)"

record oauth_token =
  otAccess :: string
  otRefresh :: string
  otType :: string
  otExpires :: time
  otScopes :: "string list"

definition IsExpired :: "time \<Rightarrow> oauth_token \<Rightarrow> bool" where
  "IsExpired now t \<longleftrightarrow> otExpires t < now"

definition ExpiresWithin :: "time \<Rightarrow> duration \<Rightarrow> oauth_token \<Rightarrow> bool" where
  "ExpiresWithin now d t \<longleftrightarrow> otExpires t < now + d"

definition CanRefresh :: "oauth_token \<Rightarrow> bool" where
  "CanRefresh t \<longleftrightarrow> otRefresh t \<noteq> []"

definition refreshBuffer :: duration where "refreshBuffer = 5 * minute"
definition flowExpiry :: duration where "flowExpiry = 10 * minute"

section \<open>States and code verifiers\<close>

text \<open>Base64 in the URL alphabet without padding.\<close>

definition raw_url_b64 :: "string \<Rightarrow> string" where
  "raw_url_b64 s = takeWhile (\<lambda>c. c \<noteq> CHR ''='') (b64_encode True s)"

definition GenerateCodeVerifier :: "'k machine \<Rightarrow> 'k machine \<times> string go_result" where
  "GenerateCodeVerifier w = (case random_bytes 32 w of (w1, Inl e) \<Rightarrow> (w1, Inl e) | (w1, Inr b) \<Rightarrow> (w1, Inr (raw_url_b64 b)))"

definition ComputeCodeChallenge :: "(string \<Rightarrow> string) \<Rightarrow> string \<Rightarrow> string" where
  "ComputeCodeChallenge sha v = raw_url_b64 (sha v)"

definition GenerateState :: "'k machine \<Rightarrow> 'k machine \<times> string go_result" where
  "GenerateState w = (case random_bytes 16 w of (w1, Inl e) \<Rightarrow> (w1, Inl e) | (w1, Inr b) \<Rightarrow> (w1, Inr (raw_url_b64 b)))"

section \<open>The state of manager and store\<close>

record pending_flow =
  pfUserID :: string
  pfProvider :: string
  pfState :: string
  pfVerifier :: string
  pfRedirect :: string
  pfCreated :: time

record oauth_row =
  orAccess :: string
  orRefresh :: "string option"
  orType :: string
  orExpires :: time
  orScopes :: string

record oauth_db =
  dbRows :: "string \<times> string \<rightharpoonup> oauth_row"
  dbSalt :: "string option"

text \<open>\<open>oaDBError\<close> is the error with which the database answers, if it does.\<close>

record 'k oauth_state =
  oaMachine :: "'k machine"
  oaConfig :: go_value
  oaFlows :: "string \<rightharpoonup> pending_flow"
  oaDB :: oauth_db
  oaKey :: string
  oaRefresher :: bool
  oaDBError :: "string option"

text \<open>The resolver of secret references, SHA-256 and the callback address.\<close>

record oauth_env =
  oeResolver :: "Configuration.secret_resolver option"
  oeSHA256 :: "string \<Rightarrow> string"
  oeCallbackURL :: string

section \<open>The store\<close>

definition getOrCreateSalt :: "string option \<Rightarrow> oauth_db \<Rightarrow> 'k machine \<Rightarrow> oauth_db \<times> 'k machine \<times> string go_result" where
  "getOrCreateSalt dberr db w =
     (case dberr of
        Some e \<Rightarrow> (db, w, Inl (''oauth: failed to get salt: '' @ e))
      | None \<Rightarrow>
          (case dbSalt db of
             Some s \<Rightarrow> (db, w, Inr s)
           | None \<Rightarrow>
               (case random_bytes saltSize w of
                  (w1, Inl e) \<Rightarrow> (db, w1, Inl (''oauth: failed to generate salt: '' @ e))
                | (w1, Inr s) \<Rightarrow> (db\<lparr>dbSalt := Some s\<rparr>, w1, Inr s))))"

text \<open>The store with its derived key; \<open>openerr\<close> is an error of opening the file or creating the schema.\<close>

definition NewSQLiteStore ::
  "fpath \<Rightarrow> string option \<Rightarrow> oauth_db \<Rightarrow> 'k machine \<Rightarrow> oauth_db \<times> 'k machine \<times> string go_result" where
  "NewSQLiteStore path openerr db w =
     (case LoadMasterKey w of
        (w1, Inl e) \<Rightarrow> (db, w1, Inl (''master key required for OAuth token encryption: '' @ e))
      | (w1, Inr k) \<Rightarrow>
          (case os_MkdirAll (butlast path) (mDisk w1) of
             (d, Some e) \<Rightarrow> (db, w1\<lparr>mDisk := d\<rparr>, Inl (''oauth: failed to create token db directory: '' @ e))
           | (d, None) \<Rightarrow>
               (case openerr of
                  Some e \<Rightarrow> (db, w1\<lparr>mDisk := d\<rparr>, Inl (''oauth: failed to open token db: '' @ e))
                | None \<Rightarrow>
                    (case getOrCreateSalt None db (w1\<lparr>mDisk := d\<rparr>) of
                       (db1, w2, Inl e) \<Rightarrow> (db1, w2, Inl e)
                     | (db1, w2, Inr s) \<Rightarrow> (db1, w2, Inr (ciIDKey (mCiphers w2) k s))))))"

definition encrypt :: "string \<Rightarrow> 'k oauth_state \<Rightarrow> 'k oauth_state \<times> string go_result" where
  "encrypt plaintext s =
     (if \<not> aes_key (oaKey s) then (s, Inl ''crypto/aes: invalid key size'')
      else (case random_bytes nonceSize (oaMachine s) of
              (w, Inl e) \<Rightarrow> (s\<lparr>oaMachine := w\<rparr>, Inl e)
            | (w, Inr n) \<Rightarrow> (s\<lparr>oaMachine := w\<rparr>, Inr (n @ ciSeal (mCiphers w) (oaKey s) n plaintext))))"

definition decrypt :: "string \<Rightarrow> 'k oauth_state \<Rightarrow> string go_result" where
  "decrypt b s =
     (if length b < nonceSize then Inl ''ciphertext too short''
      else if \<not> aes_key (oaKey s) then Inl ''crypto/aes: invalid key size''
      else (case ciOpen (mCiphers (oaMachine s)) (oaKey s) (take nonceSize b) (drop nonceSize b) of
              None \<Rightarrow> Inl ''cipher: message authentication failed''
            | Some t \<Rightarrow> Inr t))"

definition db_update :: "(oauth_db \<Rightarrow> oauth_db) \<Rightarrow> string \<Rightarrow> 'k oauth_state \<Rightarrow> 'k oauth_state \<times> oauth_error option" where
  "db_update f msg s =
     (case oaDBError s of
        Some e \<Rightarrow> (s, Some (OAuthError (msg @ e)))
      | None \<Rightarrow> (s\<lparr>oaDB := f (oaDB s)\<rparr>, None))"

definition scopes_json :: "string list \<Rightarrow> string" where
  "scopes_json ss = (if ss = [] then '''' else json_Marshal (JArr (map JStr ss)))"

definition oauth_Store :: "string \<Rightarrow> string \<Rightarrow> oauth_token \<Rightarrow> 'k oauth_state \<Rightarrow> 'k oauth_state \<times> oauth_error option" where
  "oauth_Store userID provider t s =
     (case encrypt (otAccess t) s of
        (s1, Inl e) \<Rightarrow> (s1, Some (OAuthError (''oauth: failed to encrypt access token: '' @ e)))
      | (s1, Inr a) \<Rightarrow>
          (case (if otRefresh t = [] then (s1, Inr None)
                 else (case encrypt (otRefresh t) s1 of (s2, Inl e) \<Rightarrow> (s2, Inl e) | (s2, Inr r) \<Rightarrow> (s2, Inr (Some r)))) of
             (s2, Inl e) \<Rightarrow> (s2, Some (OAuthError (''oauth: failed to encrypt refresh token: '' @ e)))
           | (s2, Inr r) \<Rightarrow>
               db_update (\<lambda>db. db\<lparr>dbRows := (dbRows db)((userID, provider) \<mapsto>
                   \<lparr>orAccess = a, orRefresh = r, orType = otType t, orExpires = otExpires t, orScopes = scopes_json (otScopes t)\<rparr>)\<rparr>)
                 ''oauth: failed to store token: '' s2))"

definition oauth_Delete :: "string \<Rightarrow> string \<Rightarrow> 'k oauth_state \<Rightarrow> 'k oauth_state \<times> oauth_error option" where
  "oauth_Delete userID provider =
     db_update (\<lambda>db. db\<lparr>dbRows := (dbRows db)((userID, provider) := None)\<rparr>) ''oauth: failed to delete token: ''"

text \<open>The order \<open>ps\<close> lists the providers.\<close>

definition oauth_List :: "string list \<Rightarrow> string \<Rightarrow> 'k oauth_state \<Rightarrow> string list oauth_result" where
  "oauth_List ps userID s =
     (case oaDBError s of
        Some e \<Rightarrow> Inl (OAuthError (''oauth: failed to list tokens: '' @ e))
      | None \<Rightarrow> Inr (filter (\<lambda>p. dbRows (oaDB s) (userID, p) \<noteq> None) ps))"

text \<open>After an error the time of expiry is the zero time, which lies in the past.\<close>

definition oauth_NeedsAuth :: "time \<Rightarrow> string \<Rightarrow> string list \<Rightarrow> 'k oauth_state \<Rightarrow> string list" where
  "oauth_NeedsAuth now userID required s =
     filter (\<lambda>p. oaDBError s \<noteq> None \<or>
        (case dbRows (oaDB s) (userID, p) of None \<Rightarrow> True | Some r \<Rightarrow> orExpires r < now)) required"

definition row_scopes :: "string \<Rightarrow> string list" where
  "row_scopes j =
     (if j = [] then []
      else (case json_Unmarshal token_floats (TList TString) j (VList None) of
              (_, Some _) \<Rightarrow> [] | (v, None) \<Rightarrow> strings_of v))"

definition row_token :: "oauth_row \<Rightarrow> 'k oauth_state \<Rightarrow> oauth_token oauth_result" where
  "row_token r s =
     (case decrypt (orAccess r) s of
        Inl e \<Rightarrow> Inl (OAuthError (''oauth: failed to decrypt access token: '' @ e))
      | Inr a \<Rightarrow>
          (case (case orRefresh r of None \<Rightarrow> Inr [] | Some b \<Rightarrow> decrypt b s) of
             Inl e \<Rightarrow> Inl (OAuthError (''oauth: failed to decrypt refresh token: '' @ e))
           | Inr f \<Rightarrow>
               Inr \<lparr>otAccess = a, otRefresh = f, otType = orType r, otExpires = orExpires r, otScopes = row_scopes (orScopes r)\<rparr>))"

text \<open>\<open>Get\<close> up to the point where it waits for a refresh.\<close>

datatype get_step = Ready "oauth_token oauth_result" | NeedsRefresh oauth_token

definition Get_start :: "time \<Rightarrow> string \<Rightarrow> string \<Rightarrow> 'k oauth_state \<Rightarrow> get_step" where
  "Get_start now userID provider s =
     (case oaDBError s of
        Some e \<Rightarrow> Ready (Inl (OAuthError (''oauth: failed to get token: '' @ e)))
      | None \<Rightarrow>
          (case dbRows (oaDB s) (userID, provider) of
             None \<Rightarrow> Ready (Inl ErrTokenNotFound)
           | Some r \<Rightarrow>
               (case row_token r s of
                  Inl e \<Rightarrow> Ready (Inl e)
                | Inr t \<Rightarrow>
                    if ExpiresWithin now refreshBuffer t \<and> CanRefresh t \<and> oaRefresher s then NeedsRefresh t
                    else if IsExpired now t then Ready (Inl ErrTokenExpired)
                    else Ready (Inr t))))"

text \<open>And from there, with what the refresh brought; an error of storing it is only logged.\<close>

definition Get_end ::
  "time \<Rightarrow> string \<Rightarrow> string \<Rightarrow> oauth_token \<Rightarrow> oauth_token oauth_result \<Rightarrow> 'k oauth_state \<Rightarrow> 'k oauth_state \<times> oauth_token oauth_result" where
  "Get_end now userID provider current res s =
     (case res of
        Inr t \<Rightarrow> (fst (oauth_Store userID provider t s), Inr t)
      | Inl _ \<Rightarrow> (s, if IsExpired now current then Inl ErrTokenExpired else Inr current))"

section \<open>The token endpoint\<close>

definition TokenResponse_type :: go_type where
  "TokenResponse_type = TStruct [
     (''access_token'', False, TString), (''token_type'', False, TString), (''expires_in'', False, TInt),
     (''refresh_token'', True, TString), (''scope'', True, TString), (''error'', True, TString),
     (''error_description'', True, TString)]"

definition answer_get :: "string \<Rightarrow> go_value \<Rightarrow> go_value" where
  "answer_get n v = get_at [n] TokenResponse_type v"

definition ToToken :: "time \<Rightarrow> go_value \<Rightarrow> oauth_token" where
  "ToToken now v =
     \<lparr>otAccess = str_of (answer_get ''access_token'' v), otRefresh = str_of (answer_get ''refresh_token'' v),
      otType = str_of (answer_get ''token_type'' v), otExpires = now + wrap64 (int_of (answer_get ''expires_in'' v) * second), otScopes = []\<rparr>"

definition parseFormToken :: "time \<Rightarrow> string \<Rightarrow> oauth_token oauth_result" where
  "parseFormToken now body =
     (case ParseQuery body of
        (_, True) \<Rightarrow> Inl (OAuthError ''oauth: failed to parse form token'')
      | (vs, False) \<Rightarrow>
          if values_Get vs ''error'' \<noteq> ''''
          then Inl (OAuthError (''oauth: '' @ values_Get vs ''error'' @ '': '' @ values_Get vs ''error_description''))
          else if values_Get vs ''access_token'' = '''' then Inl ErrAuthorizationFailed
          else
            (let n = (if values_Get vs ''expires_in'' = '''' then 0 else scan_int (values_Get vs ''expires_in''));
                 secs = (if n = 0 then 365 * 24 * 60 * 60 else n)
             in Inr \<lparr>otAccess = values_Get vs ''access_token'', otRefresh = values_Get vs ''refresh_token'',
                      otType = (if values_Get vs ''token_type'' = '''' then ''Bearer'' else values_Get vs ''token_type''),
                      otExpires = now + wrap64 (secs * second),
                      otScopes = (if values_Get vs ''scope'' = '''' then [] else split_on (CHR '','') (values_Get vs ''scope''))\<rparr>))"

text \<open>What came of the request: the text of an error of making, sending or reading it, or the type and the body
  of the answer.\<close>

datatype http_answer = HttpFailed string | HttpAnswer string string

definition token_answer :: "time \<Rightarrow> http_answer \<Rightarrow> oauth_token oauth_result" where
  "token_answer now a =
     (case a of
        HttpFailed e \<Rightarrow> Inl (OAuthError e)
      | HttpAnswer ctype full \<Rightarrow>
          (let body = take 65536 full in
           if contains_str ctype ''application/x-www-form-urlencoded'' then parseFormToken now body
           else
             (case json_Unmarshal token_floats TokenResponse_type body (zero_value TokenResponse_type) of
                (_, Some e) \<Rightarrow> Inl (OAuthError (''oauth: failed to parse token response: '' @ e))
              | (v, None) \<Rightarrow>
                  if str_of (answer_get ''error'' v) \<noteq> ''''
                  then Inl (OAuthError (''oauth: '' @ str_of (answer_get ''error'' v) @ '': '' @ str_of (answer_get ''error_description'' v)))
                  else if str_of (answer_get ''access_token'' v) = '''' then Inl ErrAuthorizationFailed
                  else Inr ((ToToken now v)\<lparr>otScopes := (if str_of (answer_get ''scope'' v) = '''' then []
                              else split_on (CHR '' '') (str_of (answer_get ''scope'' v)))\<rparr>))))"

section \<open>The flow\<close>

definition provider_str :: "string \<Rightarrow> go_value \<Rightarrow> string" where
  "provider_str n p = str_of (provider_get n p)"

definition lookup_provider :: "string \<Rightarrow> 'k oauth_state \<Rightarrow> 'k oauth_state \<times> go_value option" where
  "lookup_provider name s =
     (case GetOAuthProvider name (oaConfig s) of (c, p, ok) \<Rightarrow> (s\<lparr>oaConfig := c\<rparr>, if ok then Some p else None))"

text \<open>\<open>params.Set\<close> replaces the value of a name.\<close>

definition auth_params :: "oauth_env \<Rightarrow> go_value \<Rightarrow> string \<Rightarrow> string \<Rightarrow> string \<Rightarrow> (string \<times> string) list" where
  "auth_params env p redirect state verifier =
     (let base = [(''client_id'', ResolveSecret (oeResolver env) (provider_str ''client_id'' p)), (''redirect_uri'', redirect),
                  (''response_type'', ''code''), (''state'', state)];
          scopes = strings_of (provider_get ''scopes'' p);
          ps = (if scopes = [] then base else AList.update ''scope'' (join_str '' '' scopes) base);
          pk = (if bool_of (provider_get ''pkce'' p)
                then AList.update ''code_challenge_method'' ''S256''
                       (AList.update ''code_challenge'' (ComputeCodeChallenge (oeSHA256 env) verifier) ps)
                else ps)
      in foldl (\<lambda>m (k, v). AList.update k (str_of v) m) pk (entries_of (provider_get ''auth_params'' p)))"

definition StartAuth ::
  "oauth_env \<Rightarrow> time \<Rightarrow> string \<Rightarrow> string \<Rightarrow> 'k oauth_state \<Rightarrow> 'k oauth_state \<times> (string \<times> pending_flow) oauth_result" where
  "StartAuth env now userID provider s =
     (case lookup_provider provider s of
        (s1, None) \<Rightarrow> (s1, Inl ErrProviderNotConfigured)
      | (s1, Some p) \<Rightarrow>
          (case GenerateState (oaMachine s1) of
             (w, Inl e) \<Rightarrow> (s1\<lparr>oaMachine := w\<rparr>, Inl (OAuthError (''oauth: failed to generate state: '' @ e)))
           | (w, Inr state) \<Rightarrow>
               (case (if bool_of (provider_get ''pkce'' p) then GenerateCodeVerifier w else (w, Inr '''')) of
                  (w1, Inl e) \<Rightarrow> (s1\<lparr>oaMachine := w1\<rparr>, Inl (OAuthError (''oauth: failed to generate code verifier: '' @ e)))
                | (w1, Inr verifier) \<Rightarrow>
                    (let redirect = (if provider_str ''redirect_uri'' p \<noteq> '''' then provider_str ''redirect_uri'' p else oeCallbackURL env);
                         pf = \<lparr>pfUserID = userID, pfProvider = provider, pfState = state, pfVerifier = verifier,
                               pfRedirect = redirect, pfCreated = now\<rparr>
                     in (s1\<lparr>oaMachine := w1, oaFlows := (oaFlows s1)(state \<mapsto> pf)\<rparr>,
                         Inr (provider_str ''auth_url'' p @ ''?'' @ values_Encode (auth_params env p redirect state verifier), pf))))))"

definition cleanupOldFlows :: "time \<Rightarrow> 'k oauth_state \<Rightarrow> 'k oauth_state" where
  "cleanupOldFlows now s =
     s\<lparr>oaFlows := (\<lambda>k. case oaFlows s k of Some pf \<Rightarrow> if now - pfCreated pf > flowExpiry then None else Some pf | None \<Rightarrow> None)\<rparr>"

text \<open>A request to the token endpoint: its address and its form.\<close>

type_synonym token_request = "string \<times> string"

definition client_secret :: "oauth_env \<Rightarrow> go_value \<Rightarrow> (string \<times> string) list" where
  "client_secret env p =
     (if provider_str ''client_secret'' p = '''' then []
      else [(''client_secret'', ResolveSecret (oeResolver env) (provider_str ''client_secret'' p))])"

definition exchangeCode :: "oauth_env \<Rightarrow> go_value \<Rightarrow> pending_flow \<Rightarrow> string \<Rightarrow> token_request" where
  "exchangeCode env p pf code =
     (provider_str ''token_url'' p,
      values_Encode ([(''grant_type'', ''authorization_code''), (''code'', code), (''redirect_uri'', pfRedirect pf),
          (''client_id'', ResolveSecret (oeResolver env) (provider_str ''client_id'' p))] @ client_secret env p @
        (if pfVerifier pf = '''' then [] else [(''code_verifier'', pfVerifier pf)])))"

text \<open>The callback up to the exchange, and from the answer on.\<close>

definition callback_begin ::
  "oauth_env \<Rightarrow> time \<Rightarrow> string \<Rightarrow> string \<Rightarrow> 'k oauth_state \<Rightarrow> 'k oauth_state \<times> (pending_flow \<times> token_request) oauth_result" where
  "callback_begin env now code state s =
     (case oaFlows s state of
        None \<Rightarrow> (s, Inl ErrInvalidState)
      | Some pf \<Rightarrow>
          (let s1 = s\<lparr>oaFlows := (oaFlows s)(state := None)\<rparr> in
           if now - pfCreated pf > flowExpiry then (s1, Inl ErrInvalidState)
           else (case lookup_provider (pfProvider pf) s1 of
                   (s2, None) \<Rightarrow> (s2, Inl ErrProviderNotConfigured)
                 | (s2, Some p) \<Rightarrow> (s2, Inr (pf, exchangeCode env p pf code)))))"

definition callback_end :: "time \<Rightarrow> pending_flow \<Rightarrow> http_answer \<Rightarrow> 'k oauth_state \<Rightarrow> 'k oauth_state \<times> string oauth_result" where
  "callback_end now pf a s =
     (case token_answer now a of
        Inl e \<Rightarrow> (s, Inl e)
      | Inr t \<Rightarrow>
          (case oauth_Store (pfUserID pf) (pfProvider pf) t s of
             (s1, Some e) \<Rightarrow> (s1, Inl (OAuthError (''oauth: failed to store token: '' @ oauth_error_text e)))
           | (s1, None) \<Rightarrow> (s1, Inr (pfUserID pf))))"

text \<open>The network answers a request at a time.\<close>

type_synonym network = "token_request \<Rightarrow> time \<times> http_answer"

definition HandleCallback :: "oauth_env \<Rightarrow> network \<Rightarrow> time \<Rightarrow> string \<Rightarrow> string \<Rightarrow> 'k oauth_state \<Rightarrow> 'k oauth_state \<times> string oauth_result" where
  "HandleCallback env net now code state s =
     (case callback_begin env now code state s of
        (s1, Inl e) \<Rightarrow> (s1, Inl e)
      | (s1, Inr (pf, rq)) \<Rightarrow> (case net rq of (later, a) \<Rightarrow> callback_end later pf a s1))"

definition refresh_begin ::
  "oauth_env \<Rightarrow> string \<Rightarrow> oauth_token \<Rightarrow> 'k oauth_state \<Rightarrow> 'k oauth_state \<times> token_request oauth_result" where
  "refresh_begin env provider current s =
     (if otRefresh current = '''' then (s, Inl ErrNoRefreshToken)
      else (case lookup_provider provider s of
              (s1, None) \<Rightarrow> (s1, Inl ErrProviderNotConfigured)
            | (s1, Some p) \<Rightarrow>
                (s1, Inr (provider_str ''token_url'' p,
                   values_Encode ([(''grant_type'', ''refresh_token''), (''refresh_token'', otRefresh current),
                     (''client_id'', ResolveSecret (oeResolver env) (provider_str ''client_id'' p))] @ client_secret env p)))))"

definition refresh_end :: "time \<Rightarrow> oauth_token \<Rightarrow> http_answer \<Rightarrow> oauth_token oauth_result" where
  "refresh_end now current a =
     (case token_answer now a of
        Inl e \<Rightarrow> Inl e
      | Inr t \<Rightarrow> Inr (if otRefresh t = '''' then t\<lparr>otRefresh := otRefresh current\<rparr> else t))"

definition GetToken :: "oauth_env \<Rightarrow> network \<Rightarrow> time \<Rightarrow> string \<Rightarrow> string \<Rightarrow> 'k oauth_state \<Rightarrow> 'k oauth_state \<times> oauth_token oauth_result" where
  "GetToken env net now userID provider s =
     (case Get_start now userID provider s of
        Ready r \<Rightarrow> (s, r)
      | NeedsRefresh t \<Rightarrow>
          (case refresh_begin env provider t s of
             (s1, Inl e) \<Rightarrow> Get_end now userID provider t (Inl e) s1
           | (s1, Inr rq) \<Rightarrow> (case net rq of (later, a) \<Rightarrow> Get_end later userID provider t (refresh_end later t a) s1)))"

section \<open>Operations in between\<close>

text \<open>
  A system of the manager with the calls that wait for an answer.  \<open>osStarted\<close> and \<open>osRedeemed\<close> record
  which states were handed out, to whom and when, and which were accepted.
\<close>

datatype oauth_call = Exchanging pending_flow | RefreshingCall string string oauth_token | Over

record 'k oauth_sys =
  osState :: "'k oauth_state"
  osCalls :: "oauth_call list"
  osStarted :: "(string \<times> string \<times> string \<times> time) list"
  osRedeemed :: "(string \<times> time) list"

datatype oauth_event =
  StartE time string string
| CallbackE time string string
| GetE time string string
| AnswerE nat time http_answer
| RevokeE string string
| CleanupE time
| DatabaseE "string option"

fun oauth_step :: "oauth_env \<Rightarrow> oauth_event \<Rightarrow> 'k oauth_sys \<Rightarrow> 'k oauth_sys" where
  "oauth_step env (StartE now u p) y =
     (case StartAuth env now u p (osState y) of
        (s, Inl _) \<Rightarrow> y\<lparr>osState := s\<rparr>
      | (s, Inr (_, pf)) \<Rightarrow> y\<lparr>osState := s, osStarted := osStarted y @ [(pfState pf, u, p, now)]\<rparr>)"
| "oauth_step env (CallbackE now code state) y =
     (case callback_begin env now code state (osState y) of
        (s, Inl _) \<Rightarrow> y\<lparr>osState := s\<rparr>
      | (s, Inr (pf, _)) \<Rightarrow> y\<lparr>osState := s, osCalls := osCalls y @ [Exchanging pf], osRedeemed := osRedeemed y @ [(state, now)]\<rparr>)"
| "oauth_step env (GetE now u p) y =
     (case Get_start now u p (osState y) of
        Ready _ \<Rightarrow> y
      | NeedsRefresh t \<Rightarrow>
          (case refresh_begin env p t (osState y) of
             (s, Inl e) \<Rightarrow> y\<lparr>osState := fst (Get_end now u p t (Inl e) s)\<rparr>
           | (s, Inr _) \<Rightarrow> y\<lparr>osState := s, osCalls := osCalls y @ [RefreshingCall u p t]\<rparr>))"
| "oauth_step env (AnswerE i now a) y =
     (if i < length (osCalls y) then
        (case osCalls y ! i of
           Exchanging pf \<Rightarrow> y\<lparr>osState := fst (callback_end now pf a (osState y)), osCalls := (osCalls y)[i := Over]\<rparr>
         | RefreshingCall u p t \<Rightarrow>
             y\<lparr>osState := fst (Get_end now u p t (refresh_end now t a) (osState y)), osCalls := (osCalls y)[i := Over]\<rparr>
         | Over \<Rightarrow> y)
      else y)"
| "oauth_step env (RevokeE u p) y = y\<lparr>osState := fst (oauth_Delete u p (osState y))\<rparr>"
| "oauth_step env (CleanupE now) y = y\<lparr>osState := cleanupOldFlows now (osState y)\<rparr>"
| "oauth_step env (DatabaseE e) y = y\<lparr>osState := (osState y)\<lparr>oaDBError := e\<rparr>\<rparr>"

section \<open>Tokens are earned\<close>

lemma encrypt_frame: "encrypt x s = (s', r) \<Longrightarrow> \<exists>w. s' = s\<lparr>oaMachine := w\<rparr> \<and> mCiphers w = mCiphers (oaMachine s)"
  by (auto simp: encrypt_def random_bytes_def split: if_splits sum.splits intro: exI [of _ "oaMachine s"])

lemma Store_frame:
  assumes "oauth_Store u p t s = (s', e)"
  shows "oaFlows s' = oaFlows s \<and> (\<forall>k. k \<noteq> (u, p) \<longrightarrow> dbRows (oaDB s') k = dbRows (oaDB s) k)"
  using assms by (auto simp: oauth_Store_def db_update_def split: prod.splits sum.splits if_splits option.splits dest!: encrypt_frame)

lemma lookup_frame: "lookup_provider n s = (s', r) \<Longrightarrow> oaFlows s' = oaFlows s \<and> oaDB s' = oaDB s \<and> oaMachine s' = oaMachine s"
  by (auto simp: lookup_provider_def split: prod.splits)

lemma refresh_begin_frame: "refresh_begin env p t s = (s', r) \<Longrightarrow> oaFlows s' = oaFlows s \<and> oaDB s' = oaDB s"
  using lookup_frame [of p s] by (auto simp: refresh_begin_def split: if_splits prod.splits option.splits)

lemma Get_end_frame:
  assumes "Get_end now u p t r s = (s', x)"
  shows "oaFlows s' = oaFlows s \<and> (\<forall>k. k \<noteq> (u, p) \<longrightarrow> dbRows (oaDB s') k = dbRows (oaDB s) k)"
proof (cases r)
  case (Inl e)
  then show ?thesis using assms by (simp add: Get_end_def)
next
  case (Inr t')
  obtain s1 e where s1: "oauth_Store u p t' s = (s1, e)" by fastforce
  with Inr assms Store_frame [OF s1] show ?thesis by (simp add: Get_end_def)
qed

lemma callback_end_frame:
  assumes "callback_end now pf a s = (s', x)"
  shows "oaFlows s' = oaFlows s \<and> (\<forall>k. k \<noteq> (pfUserID pf, pfProvider pf) \<longrightarrow> dbRows (oaDB s') k = dbRows (oaDB s) k)"
  using assms Store_frame [of "pfUserID pf" "pfProvider pf" _ s]
  by (auto simp: callback_end_def split: sum.splits prod.splits option.splits)

definition earned :: "'k oauth_sys \<Rightarrow> string \<Rightarrow> string \<Rightarrow> bool" where
  "earned y u p \<longleftrightarrow>
     (\<exists>st t0 t1. (st, u, p, t0) \<in> set (osStarted y) \<and> (st, t1) \<in> set (osRedeemed y) \<and> t1 - t0 \<le> flowExpiry)"

definition oauth_ok :: "'k oauth_sys \<Rightarrow> bool" where
  "oauth_ok y \<longleftrightarrow>
     (\<forall>st pf. oaFlows (osState y) st = Some pf \<longrightarrow>
        pfState pf = st \<and> (st, pfUserID pf, pfProvider pf, pfCreated pf) \<in> set (osStarted y)) \<and>
     (\<forall>pf. Exchanging pf \<in> set (osCalls y) \<longrightarrow> earned y (pfUserID pf) (pfProvider pf)) \<and>
     (\<forall>u p t. RefreshingCall u p t \<in> set (osCalls y) \<longrightarrow> earned y u p) \<and>
     (\<forall>u p. dbRows (oaDB (osState y)) (u, p) \<noteq> None \<longrightarrow> earned y u p) \<and>
     (\<forall>st. count_list (map fst (osRedeemed y)) st + (if oaFlows (osState y) st = None then 0 else 1) \<le>
        count_list (map fst (osStarted y)) st)"

lemma oauth_okD:
  assumes "oauth_ok y"
  shows "oaFlows (osState y) st = Some pf \<Longrightarrow> pfState pf = st \<and> (st, pfUserID pf, pfProvider pf, pfCreated pf) \<in> set (osStarted y)"
    "Exchanging pf \<in> set (osCalls y) \<Longrightarrow> earned y (pfUserID pf) (pfProvider pf)"
    "RefreshingCall u p t \<in> set (osCalls y) \<Longrightarrow> earned y u p"
    "dbRows (oaDB (osState y)) (u, p) \<noteq> None \<Longrightarrow> earned y u p"
    "count_list (map fst (osRedeemed y)) st + (if oaFlows (osState y) st = None then 0 else 1) \<le> count_list (map fst (osStarted y)) st"
  using assms unfolding oauth_ok_def by blast+

lemma earned_mono:
  "earned y u p \<Longrightarrow> set (osStarted y) \<subseteq> set (osStarted y') \<Longrightarrow> set (osRedeemed y) \<subseteq> set (osRedeemed y') \<Longrightarrow> earned y' u p"
  unfolding earned_def by blast

lemma StartAuth_frame:
  assumes "StartAuth env now u p s = (s', r)"
  shows "oaDB s' = oaDB s \<and>
    (case r of Inl _ \<Rightarrow> oaFlows s' = oaFlows s
     | Inr (url, pf) \<Rightarrow> oaFlows s' = (oaFlows s)(pfState pf \<mapsto> pf) \<and> pfUserID pf = u \<and> pfProvider pf = p \<and> pfCreated pf = now)"
  using assms lookup_frame [of p s] by (auto simp: StartAuth_def Let_def split: prod.splits option.splits sum.splits)

lemma callback_begin_frame:
  assumes "callback_begin env now code state s = (s', r)"
  shows "oaDB s' = oaDB s \<and>
    (case r of Inl _ \<Rightarrow> oaFlows s' = oaFlows s \<or> oaFlows s' = (oaFlows s)(state := None)
     | Inr (pf, rq) \<Rightarrow> oaFlows s' = (oaFlows s)(state := None) \<and> oaFlows s state = Some pf \<and> now - pfCreated pf \<le> flowExpiry)"
  using assms lookup_frame by (fastforce simp: callback_begin_def Let_def split: prod.splits option.splits if_splits)

lemma oauth_ok_same:
  assumes "oauth_ok y" and "oaFlows (osState y') = oaFlows (osState y)" and "osStarted y' = osStarted y" and "osRedeemed y' = osRedeemed y"
    and "\<And>c. c \<in> set (osCalls y') \<Longrightarrow> c \<in> set (osCalls y) \<or> c = Over \<or> (\<exists>u p t. c = RefreshingCall u p t \<and> dbRows (oaDB (osState y)) (u, p) \<noteq> None)"
    and "\<And>u p. dbRows (oaDB (osState y')) (u, p) \<noteq> None \<Longrightarrow> dbRows (oaDB (osState y)) (u, p) \<noteq> None \<or> earned y u p"
  shows "oauth_ok y'"
proof -
  have e: "earned y' u p \<longleftrightarrow> earned y u p" for u p by (simp add: earned_def assms(3,4))
  note o = oauth_okD [OF assms(1)]
  show ?thesis unfolding oauth_ok_def e assms(2-4)
  proof (intro conjI allI impI)
    show "Exchanging pf \<in> set (osCalls y') \<Longrightarrow> earned y (pfUserID pf) (pfProvider pf)" for pf
      using assms(5) [of "Exchanging pf"] o(2) by blast
    show "RefreshingCall u p t \<in> set (osCalls y') \<Longrightarrow> earned y u p" for u p t
      using assms(5) [of "RefreshingCall u p t"] o(3,4) by blast
    show "dbRows (oaDB (osState y')) (u, p) \<noteq> None \<Longrightarrow> earned y u p" for u p
      using assms(6) o(4) by blast
  qed (use o(1,5) in auto)
qed

lemma Get_start_row: "Get_start now u p s = NeedsRefresh t \<Longrightarrow> dbRows (oaDB s) (u, p) \<noteq> None"
  by (auto simp: Get_start_def split: option.splits)

lemma call_update: "c \<in> set (xs[i := Over]) \<Longrightarrow> c \<in> set xs \<or> c = Over"
  using set_update_subset_insert [of xs i Over] by auto

lemma oauth_step_ok: "oauth_ok y \<Longrightarrow> oauth_ok (oauth_step env e y)"
proof (induction env e y rule: oauth_step.induct)
  case (1 env now u p y)
  obtain s r where s: "StartAuth env now u p (osState y) = (s, r)" by fastforce
  note f = StartAuth_frame [OF s]
  note o = oauth_okD [OF 1]
  show ?case
  proof (cases r)
    case (Inl e)
    then show ?thesis using s f by (intro oauth_ok_same [OF 1]) auto
  next
    case (Inr x)
    obtain url pf where x: "x = (url, pf)" by fastforce
    define y1 where "y1 = y\<lparr>osState := s, osStarted := osStarted y @ [(pfState pf, u, p, now)]\<rparr>"
    note y = y1_def
    have y2: "oauth_step env (StartE now u p) y = y1" using s Inr x by (simp add: y)
    have e: "earned y a b \<Longrightarrow> earned y1 a b" for a b by (rule earned_mono) (auto simp: y)
    have fl: "oaFlows (osState y1) = (oaFlows (osState y))(pfState pf \<mapsto> pf)" "oaDB (osState y1) = oaDB (osState y)"
      "pfUserID pf = u" "pfProvider pf = p" "pfCreated pf = now"
      using f Inr x by (simp_all add: y)
    show ?thesis unfolding y2 oauth_ok_def fl(1,2)
    proof (intro conjI allI impI)
      show "((oaFlows (osState y))(pfState pf \<mapsto> pf)) st = Some pf' \<Longrightarrow> (st, pfUserID pf', pfProvider pf', pfCreated pf') \<in> set (osStarted y1)" for st pf'
        using o(1) [of st pf'] fl(3-5) by (auto simp: y split: if_splits)
      show "count_list (map fst (osRedeemed y1)) st + (if ((oaFlows (osState y))(pfState pf \<mapsto> pf)) st = None then 0 else 1)
          \<le> count_list (map fst (osStarted y1)) st" for st
        using o(5) [of st] by (auto simp: y split: if_splits)
    qed (use o(1-4) e in \<open>auto simp: y split: if_splits\<close>)
  qed
next
  case (2 env now code state y)
  obtain s r where s: "callback_begin env now code state (osState y) = (s, r)" by fastforce
  note f = callback_begin_frame [OF s]
  note o = oauth_okD [OF 2]
  show ?case
  proof (cases r)
    case (Inl e)
    then have y: "oauth_step env (CallbackE now code state) y = y\<lparr>osState := s\<rparr>" using s by simp
    show ?thesis unfolding y
    proof (cases "oaFlows s = oaFlows (osState y)")
      case True
      then show "oauth_ok (y\<lparr>osState := s\<rparr>)" using f by (intro oauth_ok_same [OF 2]) auto
    next
      case False
      then have g: "oaFlows s = (oaFlows (osState y))(state := None)" "oaDB s = oaDB (osState y)" using f Inl by auto
      have e: "earned (y\<lparr>osState := s\<rparr>) a b = earned y a b" for a b by (simp add: earned_def)
      have "count_list (map fst (osRedeemed y)) st + (if oaFlows s st = None then 0 else 1) \<le> count_list (map fst (osStarted y)) st" for st
        using o(5) [of st] by (auto simp: g split: if_splits)
      then show "oauth_ok (y\<lparr>osState := s\<rparr>)" unfolding oauth_ok_def e using o(1-4) g by auto
    qed
  next
    case (Inr x)
    obtain pf rq where x: "x = (pf, rq)" by (metis surj_pair)
    define y1 where "y1 = y\<lparr>osState := s, osCalls := osCalls y @ [Exchanging pf], osRedeemed := osRedeemed y @ [(state, now)]\<rparr>"
    note y = y1_def
    have y2: "oauth_step env (CallbackE now code state) y = y1" using s Inr x by (simp add: y)
    have g: "oaFlows s = (oaFlows (osState y))(state := None)" "oaDB s = oaDB (osState y)" "oaFlows (osState y) state = Some pf"
      "now - pfCreated pf \<le> flowExpiry" using f Inr x by auto
    have e: "earned y a b \<Longrightarrow> earned y1 a b" for a b by (rule earned_mono) (auto simp: y)
    have new: "earned y1 (pfUserID pf) (pfProvider pf)"
      unfolding earned_def using o(1) [OF g(3)] g(4)
      by (intro exI [of _ state] exI [of _ "pfCreated pf"] exI [of _ now]) (simp add: y)
    show ?thesis unfolding y2 oauth_ok_def
    proof (intro conjI allI impI)
      show "count_list (map fst (osRedeemed y1)) st + (if oaFlows (osState y1) st = None then 0 else 1) \<le> count_list (map fst (osStarted y1)) st" for st
        using o(5) [of st] g(3) by (auto simp: y g(1) split: if_splits)
    qed (use o(1-4) e new in \<open>auto simp: y g(1,2) split: if_splits\<close>)
  qed
next
  case (3 env now u p y)
  show ?case
  proof (cases "Get_start now u p (osState y)")
    case (Ready r)
    then show ?thesis using 3 by simp
  next
    case (NeedsRefresh t)
    note row = Get_start_row [OF this]
    obtain s r where s: "refresh_begin env p t (osState y) = (s, r)" by fastforce
    note f = refresh_begin_frame [OF s]
    show ?thesis
    proof (cases r)
      case (Inl e)
      obtain s2 x where s2: "Get_end now u p t (Inl e) s = (s2, x)" by fastforce
      from Get_end_frame [OF s2] f Inl s s2 NeedsRefresh row show ?thesis
        by (intro oauth_ok_same [OF 3]) (auto, metis option.distinct(1) prod.inject)
    next
      case (Inr x)
      then show ?thesis using s f NeedsRefresh row by (intro oauth_ok_same [OF 3]) auto
    qed
  qed
next
  case (4 env i now a y)
  note o = oauth_okD [OF 4]
  show ?case
  proof (cases "i < length (osCalls y)")
    case i: True
    show ?thesis
    proof (cases "osCalls y ! i")
      case (Exchanging pf)
      then have "Exchanging pf \<in> set (osCalls y)" using i by (metis nth_mem)
      note e = o(2) [OF this]
      obtain s x where s: "callback_end now pf a (osState y) = (s, x)" by fastforce
      from callback_end_frame [OF s] s Exchanging i e show ?thesis
        by (intro oauth_ok_same [OF 4]) (auto dest: call_update, metis option.distinct(1) prod.inject)
    next
      case (RefreshingCall u p t)
      then have "RefreshingCall u p t \<in> set (osCalls y)" using i by (metis nth_mem)
      note e = o(3) [OF this]
      obtain s x where s: "Get_end now u p t (refresh_end now t a) (osState y) = (s, x)" by fastforce
      from Get_end_frame [OF s] s RefreshingCall i e show ?thesis
        by (intro oauth_ok_same [OF 4]) (auto dest: call_update, metis option.distinct(1) prod.inject)
    qed (use i 4 in simp)
  qed (use 4 in simp)
next
  case (5 env u p y)
  have "fst (oauth_Delete u p s) = s \<or> fst (oauth_Delete u p s) = s\<lparr>oaDB := (oaDB s)\<lparr>dbRows := (dbRows (oaDB s))((u, p) := None)\<rparr>\<rparr>" for s :: "'a oauth_state"
    by (auto simp: oauth_Delete_def db_update_def split: option.split)
  from this [of "osState y"] show ?case by (intro oauth_ok_same [OF 5]) (auto split: if_splits)
next
  case (6 env now y)
  note o = oauth_okD [OF 6]
  let ?s = "cleanupOldFlows now (osState y)"
  have g: "oaFlows ?s st = None \<or> oaFlows ?s st = oaFlows (osState y) st" "oaDB ?s = oaDB (osState y)" for st
    by (auto simp: cleanupOldFlows_def split: option.split)
  have e: "earned (y\<lparr>osState := ?s\<rparr>) a b = earned y a b" for a b by (simp add: earned_def)
  have "count_list (map fst (osRedeemed y)) st + (if oaFlows ?s st = None then 0 else 1) \<le> count_list (map fst (osStarted y)) st" for st
    using o(5) [of st] g(1) [of st] by (auto split: if_splits)
  moreover have "oaFlows ?s st = Some pf \<Longrightarrow> oaFlows (osState y) st = Some pf" for st pf using g(1) [of st] by auto
  ultimately show ?case unfolding oauth_step.simps oauth_ok_def e using o(1-4) g(2) by simp
next
  case (7 env e y)
  then show ?case by (intro oauth_ok_same [OF 7]) auto
qed

definition new_oauth_sys :: "'k oauth_state \<Rightarrow> 'k oauth_sys" where
  "new_oauth_sys s = \<lparr>osState = s, osCalls = [], osStarted = [], osRedeemed = []\<rparr>"

text \<open>C32. In whatever order requests, callbacks, answers of the network, revocations and clean-ups happen: a
  user has a token for a provider only if a flow was started for that user and provider, and its state
  came back within ten minutes; and a state is accepted at most as often as it was handed out.
\<close>

theorem tokens_earned:
  assumes "oaFlows s = Map.empty" and "dbRows (oaDB s) = Map.empty"
    and "y = foldl (\<lambda>y e. oauth_step env e y) (new_oauth_sys s) es"
  shows "(dbRows (oaDB (osState y)) (u, p) \<noteq> None \<longrightarrow> earned y u p) \<and>
    count_list (map fst (osRedeemed y)) st \<le> count_list (map fst (osStarted y)) st"
proof -
  have "oauth_ok (foldl (\<lambda>y e. oauth_step env e y) y0 es)" if "oauth_ok y0" for y0 :: "'a oauth_sys"
    using that by (induction es arbitrary: y0) (simp_all add: oauth_step_ok)
  moreover have "oauth_ok (new_oauth_sys s)" using assms(1,2) by (simp add: oauth_ok_def new_oauth_sys_def)
  ultimately have "oauth_ok y" unfolding assms(3) by blast
  from oauth_okD(4) [OF this, of u p] oauth_okD(5) [OF this, of st] show ?thesis by auto
qed

section \<open>What is stored is read back\<close>

definition store_ready :: "'k oauth_state \<Rightarrow> bool" where
  "store_ready s \<longleftrightarrow> ciphers_ok (mCiphers (oaMachine s)) \<and> length (oaKey s) = 32"

lemma decrypt_encrypt:
  assumes "ciphers_ok (mCiphers (oaMachine s))" and "encrypt x s = (s1, Inr b)"
    and "mCiphers (oaMachine s2) = mCiphers (oaMachine s)" and "oaKey s2 = oaKey s"
  shows "decrypt b s2 = Inr x"
proof -
  let ?c = "mCiphers (oaMachine s)"
  obtain n where n: "ciRandom ?c (mDraws (oaMachine s)) nonceSize = Inr n" "b = n @ ciSeal ?c (oaKey s) n x" "aes_key (oaKey s)"
    using assms(2) by (auto simp: encrypt_def random_bytes_def split: if_splits sum.splits)
  then have "length n = nonceSize" "ciOpen ?c (oaKey s) n (ciSeal ?c (oaKey s) n x) = Some x"
    using assms(1) by (auto simp: ciphers_ok_def)
  with n show ?thesis by (simp add: decrypt_def assms(3,4))
qed

lemma encrypt_keeps:
  "encrypt x s = (s1, r) \<Longrightarrow> mCiphers (oaMachine s1) = mCiphers (oaMachine s) \<and> oaKey s1 = oaKey s \<and> oaDBError s1 = oaDBError s \<and>
     oaRefresher s1 = oaRefresher s"
  by (auto dest: encrypt_frame)

lemma row_scopes_back [simp]: "row_scopes (scopes_json ss) = ss"
proof (cases "ss = []")
  case False
  have "json_Marshal (JArr (map JStr ss)) \<noteq> []"
    using strings_back [of ss] by (auto simp: json_Unmarshal_def json_parse_def skip_ws_def)
  with False show ?thesis by (simp add: row_scopes_def scopes_json_def strings_back comp_def)
qed (simp add: row_scopes_def scopes_json_def)

lemma Store_row:
  assumes "ciphers_ok (mCiphers (oaMachine s))" and "oauth_Store u p t s = (s', None)"
  shows "oaDBError s' = None \<and> oaRefresher s' = oaRefresher s \<and>
    (\<exists>r. dbRows (oaDB s') (u, p) = Some r \<and> row_token r s' = Inr t \<and> orExpires r = otExpires t)"
proof -
  obtain s1 a where a: "encrypt (otAccess t) s = (s1, Inr a)"
    using assms(2) by (auto simp: oauth_Store_def split: prod.splits sum.splits)
  note k1 = encrypt_keeps [OF a]
  obtain s2 f where f: "(if otRefresh t = [] then (s1, Inr None)
      else (case encrypt (otRefresh t) s1 of (s2, Inl e) \<Rightarrow> (s2, Inl e) | (s2, Inr r) \<Rightarrow> (s2, Inr (Some r)))) = (s2, Inr f :: string + string option)"
    using assms(2) a by (auto simp: oauth_Store_def split: prod.splits sum.splits if_splits)
  have k2: "mCiphers (oaMachine s2) = mCiphers (oaMachine s1)" "oaKey s2 = oaKey s1" "oaDBError s2 = oaDBError s1" "oaRefresher s2 = oaRefresher s1"
    using f by (auto split: if_splits prod.splits sum.splits dest: encrypt_keeps)
  let ?r = "\<lparr>orAccess = a, orRefresh = f, orType = otType t, orExpires = otExpires t, orScopes = scopes_json (otScopes t)\<rparr>"
  have u: "db_update (\<lambda>db. db\<lparr>dbRows := (dbRows db)((u, p) \<mapsto> ?r)\<rparr>) ''oauth: failed to store token: '' s2 = (s', None)"
    using assms(2) unfolding oauth_Store_def a prod.case sum.case f by simp
  then have s': "oaDBError s2 = None" "s' = s2\<lparr>oaDB := (oaDB s2)\<lparr>dbRows := (dbRows (oaDB s2))((u, p) \<mapsto> ?r)\<rparr>\<rparr>"
    by (auto simp: db_update_def split: option.splits)
  have m: "mCiphers (oaMachine s') = mCiphers (oaMachine s)" "oaKey s' = oaKey s" using s'(2) k1 k2 by simp_all
  have d: "decrypt a s' = Inr (otAccess t)" by (rule decrypt_encrypt [OF assms(1) a m])
  have "(case f of None \<Rightarrow> Inr [] | Some b \<Rightarrow> decrypt b s') = Inr (otRefresh t)"
  proof (cases "otRefresh t = []")
    case True
    then show ?thesis using f by simp
  next
    case False
    then obtain b where b: "encrypt (otRefresh t) s1 = (s2, Inr b)" "f = Some b"
      using f by (auto split: prod.splits sum.splits)
    have "ciphers_ok (mCiphers (oaMachine s1))" "mCiphers (oaMachine s') = mCiphers (oaMachine s1)" "oaKey s' = oaKey s1"
      using assms(1) k1 m by simp_all
    from decrypt_encrypt [OF this(1) b(1) this(2,3)] b(2) show ?thesis by simp
  qed
  then have "row_token ?r s' = Inr t" by (simp add: row_token_def d)
  then show ?thesis using s' k1 k2 by simp
qed

text \<open>
  A token that was stored is found as it was, with its scopes: it is returned unless it has expired, or
  expires soon and can be refreshed, and no call for another user or provider changes that.
\<close>

theorem stored_token_found:
  assumes "ciphers_ok (mCiphers (oaMachine s))" and "oauth_Store u p t s = (s', None)"
  shows "Get_start now u p s' =
      (if ExpiresWithin now refreshBuffer t \<and> CanRefresh t \<and> oaRefresher s then NeedsRefresh t
       else if IsExpired now t then Ready (Inl ErrTokenExpired) else Ready (Inr t)) \<and>
    (\<forall>v q. (v, q) \<noteq> (u, p) \<longrightarrow> dbRows (oaDB s') (v, q) = dbRows (oaDB s) (v, q))"
  using Store_row [OF assms] Store_frame [OF assms(2)] by (auto simp: Get_start_def)

section \<open>Tokens that are lost, or come back\<close>

text \<open>
  A revocation while a refresh waits for its answer is undone: the answer is stored, and the user who
  disconnected is connected again.
\<close>

theorem revoked_comes_back:
  assumes "Get_start now u p (osState y) = NeedsRefresh t" and "refresh_begin env p t (osState y) = (s, Inr rq)"
    and "y1 = foldl (\<lambda>y e. oauth_step env e y) y [GetE now u p, RevokeE u p]"
    and "refresh_end later t a = Inr t'" and "oauth_Store u p t' (osState y1) = (s2, None)"
    and "ciphers_ok (mCiphers (oaMachine (osState y)))"
    and "y2 = oauth_step env (AnswerE (length (osCalls y)) later a) y1"
  shows "dbRows (oaDB (osState y1)) (u, p) = None \<and> Get_start now u p (osState y1) = Ready (Inl ErrTokenNotFound) \<and>
    (\<exists>r. dbRows (oaDB (osState y2)) (u, p) = Some r \<and> row_token r (osState y2) = Inr t')"
proof -
  have e: "oaDBError (osState y) = None" using assms(1) by (auto simp: Get_start_def split: option.splits)
  have s: "oaDBError s = None" "oaMachine s = oaMachine (osState y)"
    using assms(2) e by (auto simp: refresh_begin_def lookup_provider_def split: if_splits prod.splits option.splits)
  have y1: "y1 = y\<lparr>osState := s\<lparr>oaDB := (oaDB s)\<lparr>dbRows := (dbRows (oaDB s))((u, p) := None)\<rparr>\<rparr>, osCalls := osCalls y @ [RefreshingCall u p t]\<rparr>"
    using assms(1-3) s(1) by (simp add: oauth_Delete_def db_update_def)
  have "y2 = y1\<lparr>osState := s2, osCalls := (osCalls y1)[length (osCalls y) := Over]\<rparr>"
    using assms(4,5,7) by (simp add: y1 Get_end_def)
  moreover have "ciphers_ok (mCiphers (oaMachine (osState y1)))" using assms(6) s(2) by (simp add: y1)
  ultimately show ?thesis using Store_row [OF _ assms(5)] s(1) by (auto simp: y1 Get_start_def)
qed

lemma answer_fields:
  "answer_get n (VStruct [a, b, c, d, e, f, g]) =
     (if n = ''access_token'' then a else if n = ''token_type'' then b else if n = ''expires_in'' then c
      else if n = ''refresh_token'' then d else if n = ''scope'' then e else if n = ''error'' then f
      else if n = ''error_description'' then g else VAny JNull)"
  by (simp add: answer_get_def TokenResponse_type_def)

definition github_json :: "string \<Rightarrow> json" where
  "github_json tok = JObj [(''access_token'', JStr tok), (''token_type'', JStr ''bearer''), (''scope'', JStr ''repo'')]"

definition github_answer :: "string \<Rightarrow> string" where
  "github_answer tok = json_Marshal (github_json tok)"

lemma github_parsed: "json_parse (github_answer tok) = Some (github_json tok)"
  unfolding github_answer_def by (rule parse_printed(2)) (simp add: github_json_def)

lemma github_members:
  "members_for ''access_token'' (github_json tok) = [JStr tok]" "members_for ''token_type'' (github_json tok) = [JStr ''bearer'']"
  "members_for ''scope'' (github_json tok) = [JStr ''repo'']" "members_for ''expires_in'' (github_json tok) = []"
  "members_for ''refresh_token'' (github_json tok) = []" "members_for ''error'' (github_json tok) = []"
  "members_for ''error_description'' (github_json tok) = []"
  by (simp_all add: github_json_def members_for_def to_lower_def lower_char_bits)

lemma github_token:
  assumes "tok \<noteq> ''''" and "length (github_answer tok) \<le> 65536"
  shows "token_answer now (HttpAnswer ''application/json; charset=utf-8'' (github_answer tok)) =
    Inr \<lparr>otAccess = tok, otRefresh = '''', otType = ''bearer'', otExpires = now, otScopes = [''repo'']\<rparr>"
proof -
  note m = github_members [of tok, unfolded github_json_def]
  note p = github_parsed [of tok, unfolded github_json_def]
  have "json_Unmarshal token_floats TokenResponse_type (github_answer tok) (zero_value TokenResponse_type) =
      (VStruct [VString tok, VString ''bearer'', VInt 0, VString '''', VString ''repo'', VString '''', VString ''''], None)"
    by (simp add: json_Unmarshal_def p TokenResponse_type_def m)
  moreover have "\<not> contains_str ''application/json; charset=utf-8'' ''application/x-www-form-urlencoded''" by code_simp
  ultimately show ?thesis using assms
    by (simp add: token_answer_def answer_fields ToToken_def wrap64_def)
qed

text \<open>The token of an answer that names no lifetime expires at the time of the answer.\<close>

lemma no_lifetime_token:
  assumes "\<not> contains_str ctype ''application/x-www-form-urlencoded''" and "json_parse (take 65536 full) = Some j"
    and "members_for ''expires_in'' j = []" and "token_answer now (HttpAnswer ctype full) = Inr t"
  shows "otExpires t = now \<and> (members_for ''refresh_token'' j = [] \<longrightarrow> otRefresh t = '''')"
proof -
  let ?z = "zero_value TokenResponse_type"
  obtain v where v: "json_Unmarshal token_floats TokenResponse_type (take 65536 full) ?z = (v, None)" "str_of (answer_get ''access_token'' v) \<noteq> ''''"
    and t: "otExpires t = now + wrap64 (int_of (answer_get ''expires_in'' v) * second)" "otRefresh t = str_of (answer_get ''refresh_token'' v)"
    using assms(1,4) by (auto simp: token_answer_def Let_def ToToken_def split: prod.splits option.splits if_splits)
  have "\<exists>ms. j = JObj ms"
  proof (rule ccontr)
    assume "\<nexists>ms. j = JObj ms"
    then have "v = ?z" using v(1) assms(2)
      by (cases j) (auto simp: json_Unmarshal_def TokenResponse_type_def split: if_splits)
    then show False using v(2) by (simp add: TokenResponse_type_def answer_fields)
  qed
  then obtain ms where j: "j = JObj ms" by blast
  have "int_of (answer_get ''expires_in'' v) = 0 \<and> (members_for ''refresh_token'' j = [] \<longrightarrow> str_of (answer_get ''refresh_token'' v) = '''')"
    using v(1) assms(2,3)
    by (auto simp: json_Unmarshal_def TokenResponse_type_def j Let_def answer_fields [unfolded TokenResponse_type_def] answer_fields split: prod.splits if_splits)
  then show ?thesis using t by (simp add: wrap64_def)
qed

text \<open>C29. An answer in JSON that names no lifetime, as GitHub's, is taken as a token that expires at once: the
  callback reports success, and every later use of the token fails, unless the answer carried a
  refresh token and tokens are refreshed; then every use asks the provider for a new one.
\<close>

theorem no_lifetime_expires:
  assumes "\<not> contains_str ctype ''application/x-www-form-urlencoded''" and "json_parse (take 65536 full) = Some j"
    and "members_for ''expires_in'' j = []" and "ciphers_ok (mCiphers (oaMachine s))"
    and "callback_end now pf (HttpAnswer ctype full) s = (s', Inr u)" and "now < later"
  shows "u = pfUserID pf \<and> pfProvider pf \<in> set (oauth_NeedsAuth later u [pfProvider pf] s') \<and>
    (members_for ''refresh_token'' j = [] \<or> \<not> oaRefresher s \<longrightarrow> Get_start later u (pfProvider pf) s' = Ready (Inl ErrTokenExpired)) \<and>
    (\<exists>t. otExpires t = now \<and> Get_start later u (pfProvider pf) s' =
       (if CanRefresh t \<and> oaRefresher s then NeedsRefresh t else Ready (Inl ErrTokenExpired)))"
proof -
  obtain t where t: "token_answer now (HttpAnswer ctype full) = Inr t" "oauth_Store (pfUserID pf) (pfProvider pf) t s = (s', None)" "u = pfUserID pf"
    using assms(5) by (auto simp: callback_end_def split: prod.splits option.splits sum.splits)
  note e = no_lifetime_token [OF assms(1-3) t(1)]
  have "ExpiresWithin later refreshBuffer t" "IsExpired later t"
    using e assms(6) by (simp_all add: ExpiresWithin_def IsExpired_def refreshBuffer_def minute_def second_def)
  then have "Get_start later u (pfProvider pf) s' = (if CanRefresh t \<and> oaRefresher s then NeedsRefresh t else Ready (Inl ErrTokenExpired))"
    using stored_token_found [OF assms(4) t(2), of later] t(3) by simp
  moreover have "pfProvider pf \<in> set (oauth_NeedsAuth later u [pfProvider pf] s')"
    using Store_row [OF assms(4) t(2)] e assms(6) t(3) by (auto simp: oauth_NeedsAuth_def)
  ultimately show ?thesis using e t(3) by (auto simp: CanRefresh_def)
qed

section \<open>The code verifier\<close>

lemma map_of_sort_key: "map_of (sort_key fst xs) k = map_of xs k"
proof -
  have f: "map_of ys k = map_of (filter (\<lambda>p. fst p = k) ys) k" for ys by (induction ys) auto
  show ?thesis using f [of "sort_key fst xs"] f [of xs] by (simp add: sort_key_stable)
qed

lemma Get_Encode: "kvs \<noteq> [] \<Longrightarrow> values_Get (fst (ParseQuery (values_Encode kvs))) k = values_Get kvs k"
  by (simp add: ParseQuery_Encode values_Get_def map_of_sort_key)

lemma params_kept:
  "k \<notin> fst ` set es \<Longrightarrow> map_of (foldl (\<lambda>m (k, v). AList.update k (str_of v) m) m es) k = map_of m k"
  by (induction es arbitrary: m) (auto simp: update_conv')

lemma raw_url_nonempty:
  assumes "s \<noteq> []"
  shows "raw_url_b64 s \<noteq> []"
proof -
  have o: "b64_char True (n div 262144) \<noteq> CHR ''=''" if "n < 16777216" for n using that by (intro b64_char_other) simp
  have t: "of_char (a :: char) < (256 :: nat)" for a by simp
  from assms show ?thesis
  proof (induction True s rule: b64_encode.induct)
    case (1 a b c s)
    have "of_char a * 65536 + of_char b * 256 + of_char c < (16777216 :: nat)" using t [of a] t [of b] t [of c] by linarith
    then show ?case using o by (simp add: raw_url_b64_def Let_def)
  next
    case (2 a b)
    have "of_char a * 65536 + of_char b * 256 < (16777216 :: nat)" using t [of a] t [of b] by linarith
    then show ?case using o by (simp add: raw_url_b64_def Let_def)
  next
    case (3 a)
    have "of_char a div 4 < (64 :: nat)" using t [of a] by linarith
    from b64_char_other(3) [OF this] show ?case by (simp add: raw_url_b64_def Let_def)
  qed simp
qed

definition own_params :: "string set" where
  "own_params = {''client_id'', ''redirect_uri'', ''state'', ''code_challenge''}"

text \<open>C20. For a provider with PKCE whose own parameters leave \<open>state\<close>, \<open>client_id\<close>, \<open>redirect_uri\<close> and
  \<open>code_challenge\<close> alone: the address the user is sent to names the state under
  which the flow is kept, and when the code comes back, the request that exchanges it carries the same
  redirection and the verifier of the challenge that the provider was given.
\<close>

theorem exchange_matches_challenge:
  assumes "ciphers_ok (mCiphers (oaMachine s))" and "lookup_provider p s = (s0, Some prov)" and "bool_of (provider_get ''pkce'' prov)"
    and "fst ` set (entries_of (provider_get ''auth_params'' prov)) \<inter> own_params = {}"
    and "StartAuth env now u p s = (s1, Inr (url, pf))"
  shows "\<exists>q. url = provider_str ''auth_url'' prov @ ''?'' @ q \<and>
    (let vs = fst (ParseQuery q) in
     oaFlows s1 (values_Get vs ''state'') = Some pf \<and>
     (\<forall>later code s2 pf' ep form. callback_begin env later code (values_Get vs ''state'') s1 = (s2, Inr (pf', ep, form)) \<longrightarrow>
        (let ws = fst (ParseQuery form) in
         pf' = pf \<and> values_Get ws ''code'' = code \<and> values_Get ws ''redirect_uri'' = values_Get vs ''redirect_uri'' \<and>
         values_Get ws ''code_verifier'' \<noteq> [] \<and>
         ComputeCodeChallenge (oeSHA256 env) (values_Get ws ''code_verifier'') = values_Get vs ''code_challenge'')))"
proof -
  have m0: "oaMachine s0 = oaMachine s" using lookup_frame [OF assms(2)] by simp
  obtain w w1 st v where g: "GenerateState (oaMachine s0) = (w, Inr st)" "GenerateCodeVerifier w = (w1, Inr v)"
    and s1: "s1 = s0\<lparr>oaMachine := w1, oaFlows := (oaFlows s0)(st \<mapsto> pf)\<rparr>"
    and pf: "pfState pf = st" "pfVerifier pf = v" "pfRedirect pf = (if provider_str ''redirect_uri'' prov \<noteq> '''' then provider_str ''redirect_uri'' prov else oeCallbackURL env)"
    and url: "url = provider_str ''auth_url'' prov @ ''?'' @ values_Encode (auth_params env prov (pfRedirect pf) st v)"
    using assms(2,3,5) by (auto simp: StartAuth_def Let_def split: prod.splits sum.splits)
  have c: "mCiphers w = mCiphers (oaMachine s)"
    using g(1) m0 by (auto simp: GenerateState_def random_bytes_def split: sum.splits)
  obtain b where b: "ciRandom (mCiphers w) (mDraws w) 32 = Inr b" "v = raw_url_b64 b"
    using g(2) by (auto simp: GenerateCodeVerifier_def random_bytes_def split: sum.splits)
  have "length b = 32" using assms(1) b(1) c by (auto simp: ciphers_ok_def)
  then have "b \<noteq> []" by auto
  then have v: "v \<noteq> []" unfolding b(2) by (rule raw_url_nonempty)
  let ?ps = "auth_params env prov (pfRedirect pf) st v"
  have k: "k \<in> own_params \<Longrightarrow> k \<notin> fst ` set (entries_of (provider_get ''auth_params'' prov))" for k using assms(4) by blast
  have get: "values_Get ?ps ''state'' = st" "values_Get ?ps ''redirect_uri'' = pfRedirect pf"
    "values_Get ?ps ''code_challenge'' = ComputeCodeChallenge (oeSHA256 env) v"
    using assms(3) by (simp_all add: values_Get_def auth_params_def Let_def params_kept [OF k] own_params_def update_conv')
  have "map_of ?ps ''state'' = Some st"
    by (simp add: auth_params_def Let_def params_kept [OF k] own_params_def update_conv')
  then have ne: "?ps \<noteq> []" by auto
  have vs: "values_Get (fst (ParseQuery (values_Encode ?ps))) k = values_Get ?ps k" for k by (rule Get_Encode [OF ne])
  have fl: "oaFlows s1 st = Some pf" by (simp add: s1)
  have ex: "pf' = pf \<and> (\<exists>pr. exchangeCode env pr pf code = (ep, form))"
    if "callback_begin env later code st s1 = (s2, Inr (pf', ep, form))" for later code s2 pf' ep form
    using that fl by (auto simp: callback_begin_def Let_def split: if_splits prod.splits option.splits)
  have ws: "values_Get (fst (ParseQuery form)) ''code'' = code" "values_Get (fst (ParseQuery form)) ''redirect_uri'' = pfRedirect pf"
    "values_Get (fst (ParseQuery form)) ''code_verifier'' = v" if "exchangeCode env pr pf code = (ep, form)" for ep form pr code
    using that v pf(2)
    by (auto simp: exchangeCode_def Get_Encode client_secret_def) (simp_all add: values_Get_def)
  have "\<forall>later code s2 pf' ep form. callback_begin env later code st s1 = (s2, Inr (pf', ep, form)) \<longrightarrow>
        (let ws = fst (ParseQuery form) in
         pf' = pf \<and> values_Get ws ''code'' = code \<and> values_Get ws ''redirect_uri'' = pfRedirect pf \<and>
         values_Get ws ''code_verifier'' \<noteq> [] \<and>
         ComputeCodeChallenge (oeSHA256 env) (values_Get ws ''code_verifier'') = ComputeCodeChallenge (oeSHA256 env) v)"
  proof (intro allI impI)
    fix later code s2 pf' ep form
    assume c: "callback_begin env later code st s1 = (s2, Inr (pf', ep, form))"
    from ex [OF c] obtain pr where pr: "pf' = pf" "exchangeCode env pr pf code = (ep, form)" by blast
    show "let ws = fst (ParseQuery form) in
         pf' = pf \<and> values_Get ws ''code'' = code \<and> values_Get ws ''redirect_uri'' = pfRedirect pf \<and>
         values_Get ws ''code_verifier'' \<noteq> [] \<and>
         ComputeCodeChallenge (oeSHA256 env) (values_Get ws ''code_verifier'') = ComputeCodeChallenge (oeSHA256 env) v"
      unfolding Let_def ws [OF pr(2)] using pr(1) v by simp
  qed
  then show ?thesis using url fl unfolding Let_def by (intro exI [of _ "values_Encode ?ps"] conjI) (simp_all only: vs get)
qed

section \<open>A small bot\<close>

definition corp_provider :: go_value where
  "corp_provider =
     VStruct [VString ''app'', VString '''', VString ''https://id/auth'', VString ''https://id/token'', VList None, VBool True,
       VString '''', VMap None, VPtr None, VPtr None, VPtr None, VPtr None]"

definition corp_config :: go_value where
  "corp_config = set_at [''oauth''] (VStruct [VMap (Some [(''corp'', corp_provider)]), VString '''', VString '''']) Config_type (zero_value Config_type)"

definition demo_oauth :: "(string \<times> string \<rightharpoonup> string) oauth_state" where
  "demo_oauth =
     \<lparr>oaMachine = demo_machine, oaConfig = corp_config, oaFlows = Map.empty, oaDB = \<lparr>dbRows = Map.empty, dbSalt = None\<rparr>,
      oaKey = replicate 32 CHR ''k'', oaRefresher = True, oaDBError = None\<rparr>"

definition demo_oenv :: oauth_env where
  "demo_oenv = \<lparr>oeResolver = None, oeSHA256 = (\<lambda>x. take 32 (x @ replicate 32 CHR ''x'')), oeCallbackURL = ''https://bot/cb''\<rparr>"

lemma corp_providers: "entries_of (cfg [''oauth'', ''providers''] corp_config) = [(''corp'', corp_provider)]"
  by code_simp

lemma corp_lookup: "oaConfig s = corp_config \<Longrightarrow> lookup_provider ''corp'' s = (s, Some corp_provider)"
  by (simp add: lookup_provider_def GetOAuthProvider_def corp_providers knownOAuthProviders_def)

lemma corp_pkce: "bool_of (provider_get ''pkce'' corp_provider)" "entries_of (provider_get ''auth_params'' corp_provider) = []"
  by code_simp+

definition demo_state :: string where "demo_state = raw_url_b64 (replicate 16 CHR ''a'')"
definition demo_verifier :: string where "demo_verifier = raw_url_b64 (replicate 32 CHR ''a'')"

definition ann_flow :: pending_flow where
  "ann_flow = \<lparr>pfUserID = ''ann'', pfProvider = ''corp'', pfState = demo_state, pfVerifier = demo_verifier,
     pfRedirect = ''https://bot/cb'', pfCreated = 0\<rparr>"

lemma ann_starts:
  "StartAuth demo_oenv 0 ''ann'' ''corp'' demo_oauth =
     (demo_oauth\<lparr>oaMachine := demo_machine\<lparr>mDraws := 2\<rparr>, oaFlows := [demo_state \<mapsto> ann_flow]\<rparr>,
      Inr (provider_str ''auth_url'' corp_provider @ ''?'' @ values_Encode (auth_params demo_oenv corp_provider ''https://bot/cb'' demo_state demo_verifier), ann_flow))"
proof -
  have l: "lookup_provider ''corp'' demo_oauth = (demo_oauth, Some corp_provider)" by (rule corp_lookup) (simp add: demo_oauth_def)
  have c: "mCiphers demo_machine = demo_ciphers" by (simp add: demo_machine_def)
  have r: "provider_str ''redirect_uri'' corp_provider = []" by code_simp
  have m: "oaMachine demo_oauth = demo_machine" by (simp add: demo_oauth_def)
  show ?thesis
    by (simp add: StartAuth_def l m corp_pkce(1) GenerateState_def GenerateCodeVerifier_def demo_random c r)
      (simp add: demo_oauth_def demo_machine_def demo_oenv_def demo_state_def demo_verifier_def ann_flow_def Let_def numeral_2_eq_2)
qed

definition ann_waits :: "(string \<times> string \<rightharpoonup> string) oauth_state" where
  "ann_waits = demo_oauth\<lparr>oaMachine := demo_machine\<lparr>mDraws := 2\<rparr>, oaFlows := [demo_state \<mapsto> ann_flow]\<rparr>"

lemma ann_comes_back:
  "callback_begin demo_oenv 5 ''code'' demo_state ann_waits =
     (ann_waits\<lparr>oaFlows := Map.empty\<rparr>, Inr (ann_flow, exchangeCode demo_oenv corp_provider ann_flow ''code''))"
proof -
  have l: "lookup_provider ''corp'' (ann_waits\<lparr>oaFlows := Map.empty\<rparr>) = (ann_waits\<lparr>oaFlows := Map.empty\<rparr>, Some corp_provider)"
    by (rule corp_lookup) (simp add: ann_waits_def demo_oauth_def)
  have "(oaFlows ann_waits)(demo_state := None) = Map.empty" "oaFlows ann_waits demo_state = Some ann_flow"
    "pfProvider ann_flow = ''corp''" "\<not> 5 - pfCreated ann_flow > flowExpiry"
    by (simp_all add: ann_waits_def ann_flow_def flowExpiry_def minute_def second_def)
  with l show ?thesis by (simp add: callback_begin_def Let_def)
qed

theorem exchange_matches_challenge_witness:
  "\<exists>q form ep. provider_str ''auth_url'' corp_provider @ ''?'' @
        values_Encode (auth_params demo_oenv corp_provider ''https://bot/cb'' demo_state demo_verifier) =
       provider_str ''auth_url'' corp_provider @ ''?'' @ q \<and>
     (ep, form) = exchangeCode demo_oenv corp_provider ann_flow ''code'' \<and>
     values_Get (fst (ParseQuery q)) ''state'' = demo_state \<and>
     ComputeCodeChallenge (oeSHA256 demo_oenv) (values_Get (fst (ParseQuery form)) ''code_verifier'') =
       values_Get (fst (ParseQuery q)) ''code_challenge''"
proof -
  have c: "ciphers_ok (mCiphers (oaMachine demo_oauth))" using demo_libraries by (simp add: demo_oauth_def demo_machine_def)
  have l: "lookup_provider ''corp'' demo_oauth = (demo_oauth, Some corp_provider)" by (rule corp_lookup) (simp add: demo_oauth_def)
  have e: "fst ` set (entries_of (provider_get ''auth_params'' corp_provider)) \<inter> own_params = {}" by (simp add: corp_pkce(2))
  from exchange_matches_challenge [OF c l corp_pkce(1) e ann_starts [folded ann_waits_def]] obtain q where
    q: "provider_str ''auth_url'' corp_provider @ ''?'' @ values_Encode (auth_params demo_oenv corp_provider ''https://bot/cb'' demo_state demo_verifier) =
       provider_str ''auth_url'' corp_provider @ ''?'' @ q"
    and f: "oaFlows ann_waits (values_Get (fst (ParseQuery q)) ''state'') = Some ann_flow"
    and x: "\<forall>later code s2 pf' ep form. callback_begin demo_oenv later code (values_Get (fst (ParseQuery q)) ''state'') ann_waits = (s2, Inr (pf', ep, form)) \<longrightarrow>
       ComputeCodeChallenge (oeSHA256 demo_oenv) (values_Get (fst (ParseQuery form)) ''code_verifier'') = values_Get (fst (ParseQuery q)) ''code_challenge''"
    unfolding Let_def by blast
  have st: "values_Get (fst (ParseQuery q)) ''state'' = demo_state" using f by (simp add: ann_waits_def split: if_splits)
  obtain ep form where ef: "exchangeCode demo_oenv corp_provider ann_flow ''code'' = (ep, form)" by fastforce
  then have "callback_begin demo_oenv 5 ''code'' (values_Get (fst (ParseQuery q)) ''state'') ann_waits =
      (ann_waits\<lparr>oaFlows := Map.empty\<rparr>, Inr (ann_flow, ep, form))" unfolding st using ann_comes_back by simp
  from x [rule_format, OF this] have "ComputeCodeChallenge (oeSHA256 demo_oenv) (values_Get (fst (ParseQuery form)) ''code_verifier'') = values_Get (fst (ParseQuery q)) ''code_challenge''" .
  with q st ef [symmetric] show ?thesis by blast
qed

definition ann_redeems :: "(string \<times> string \<rightharpoonup> string) oauth_sys" where
  "ann_redeems =
     foldl (\<lambda>y e. oauth_step demo_oenv e y) (new_oauth_sys demo_oauth)
       [StartE 0 ''ann'' ''corp'', CallbackE 5 ''code'' demo_state, AnswerE 0 6 (HttpAnswer ''application/json; charset=utf-8'' (github_answer ''t''))]"

text \<open>A token of the answer \<open>github_answer\<close>, received at a time.\<close>

definition bare_token :: "time \<Rightarrow> oauth_token" where
  "bare_token now = \<lparr>otAccess = ''t'', otRefresh = [], otType = ''bearer'', otExpires = now, otScopes = [''repo'']\<rparr>"

lemma small_answer: "length (github_answer ''t'') \<le> 65536"
proof -
  have "length (github_answer ''t'') = 57" by code_simp
  then show ?thesis by simp
qed

lemma bare_answer: "token_answer now (HttpAnswer ''application/json; charset=utf-8'' (github_answer ''t'')) = Inr (bare_token now)"
  unfolding bare_token_def by (rule github_token [OF _ small_answer]) simp

lemma demo_encrypt:
  "mCiphers (oaMachine s) = demo_ciphers \<Longrightarrow> oaKey s = replicate 32 CHR ''k'' \<Longrightarrow>
     encrypt x s = (s\<lparr>oaMachine := (oaMachine s)\<lparr>mDraws := Suc (mDraws (oaMachine s))\<rparr>\<rparr>,
       Inr (replicate 12 CHR ''a'' @ replicate 32 CHR ''k'' @ x))"
  by (simp add: encrypt_def aes_key_def demo_random nonceSize_def) (simp add: demo_ciphers_def)

lemma demo_store_token:
  assumes "mCiphers (oaMachine s) = demo_ciphers" and "oaKey s = replicate 32 CHR ''k''" and "oaDBError s = None"
  shows "\<exists>s'. oauth_Store u p t s = (s', None) \<and> mCiphers (oaMachine s') = demo_ciphers \<and> oaKey s' = oaKey s \<and> oaDBError s' = None \<and>
    oaConfig s' = oaConfig s \<and> oaRefresher s' = oaRefresher s"
  using assms by (simp add: oauth_Store_def demo_encrypt db_update_def)

lemma demo_oauth_ready:
  "mCiphers (oaMachine demo_oauth) = demo_ciphers" "oaKey demo_oauth = replicate 32 CHR ''k''" "oaDBError demo_oauth = None"
  "ciphers_ok (mCiphers (oaMachine demo_oauth))"
  using demo_libraries by (simp_all add: demo_oauth_def demo_machine_def)

theorem tokens_earned_witness:
  "dbRows (oaDB (osState ann_redeems)) (''ann'', ''corp'') \<noteq> None \<and> earned ann_redeems ''ann'' ''corp'' \<and>
     count_list (map fst (osRedeemed ann_redeems)) demo_state \<le> count_list (map fst (osStarted ann_redeems)) demo_state"
proof -
  let ?s = "ann_waits\<lparr>oaFlows := Map.empty\<rparr>"
  have "mCiphers (oaMachine ?s) = demo_ciphers" "oaKey ?s = replicate 32 CHR ''k''" "oaDBError ?s = None"
    by (simp_all add: ann_waits_def demo_oauth_def demo_machine_def)
  from demo_store_token [OF this] obtain s' where s': "oauth_Store ''ann'' ''corp'' (bare_token 6) ?s = (s', None)" by blast
  have c: "ciphers_ok (mCiphers (oaMachine ?s))" using demo_libraries by (simp add: ann_waits_def demo_machine_def)
  have f: "pfUserID ann_flow = ''ann''" "pfProvider ann_flow = ''corp''" by (simp_all add: ann_flow_def)
  have y: "osState ann_redeems = s'"
    using s' by (simp add: ann_redeems_def new_oauth_sys_def ann_starts [folded ann_waits_def] ann_comes_back callback_end_def bare_answer f)
  have r: "dbRows (oaDB (osState ann_redeems)) (''ann'', ''corp'') \<noteq> None" using Store_row [OF c s'] unfolding y by auto
  have i: "oaFlows demo_oauth = Map.empty" "dbRows (oaDB demo_oauth) = Map.empty" by (simp_all add: demo_oauth_def)
  from tokens_earned [OF i ann_redeems_def] r show ?thesis by blast
qed

theorem no_lifetime_expires_witness:
  "\<exists>s'. callback_end 6 ann_flow (HttpAnswer ''application/json; charset=utf-8'' (github_answer ''t'')) demo_oauth = (s', Inr ''ann'') \<and>
     Get_start 7 ''ann'' ''corp'' s' = Ready (Inl ErrTokenExpired)"
proof -
  from demo_store_token [OF demo_oauth_ready(1-3)] obtain s' where s': "oauth_Store ''ann'' ''corp'' (bare_token 6) demo_oauth = (s', None)" by blast
  have f: "pfUserID ann_flow = ''ann''" "pfProvider ann_flow = ''corp''" by (simp_all add: ann_flow_def)
  have e: "callback_end 6 ann_flow (HttpAnswer ''application/json; charset=utf-8'' (github_answer ''t'')) demo_oauth = (s', Inr ''ann'')"
    using s' by (simp add: callback_end_def bare_answer f)
  have c: "\<not> contains_str ''application/json; charset=utf-8'' ''application/x-www-form-urlencoded''" by code_simp
  have p: "json_parse (take 65536 (github_answer ''t'')) = Some (github_json ''t'')"
    using small_answer github_parsed [of "''t''"] by simp
  from no_lifetime_expires [OF c p github_members(4) demo_oauth_ready(4) e, of 7] github_members(5) [of "''t''"] f show ?thesis
    using e by simp
qed

definition old_token :: oauth_token where
  "old_token = \<lparr>otAccess = ''t'', otRefresh = ''r'', otType = ''Bearer'', otExpires = 0, otScopes = []\<rparr>"

theorem revoked_comes_back_witness:
  "\<exists>(y :: (string \<times> string \<rightharpoonup> string) oauth_sys) r.
     dbRows (oaDB (osState (foldl (\<lambda>y e. oauth_step demo_oenv e y) y [GetE 1 ''ann'' ''corp'', RevokeE ''ann'' ''corp'']))) (''ann'', ''corp'') = None \<and>
     dbRows (oaDB (osState (foldl (\<lambda>y e. oauth_step demo_oenv e y) y [GetE 1 ''ann'' ''corp'', RevokeE ''ann'' ''corp'',
       AnswerE (length (osCalls y)) 2 (HttpAnswer ''application/json; charset=utf-8'' (github_answer ''t''))]))) (''ann'', ''corp'') = Some r"
proof -
  from demo_store_token [OF demo_oauth_ready(1-3)] obtain s where s: "oauth_Store ''ann'' ''corp'' old_token demo_oauth = (s, None)"
    "mCiphers (oaMachine s) = demo_ciphers" "oaKey s = replicate 32 CHR ''k''" "oaDBError s = None" "oaConfig s = corp_config" "oaRefresher s"
    by (fastforce simp: demo_oauth_def)
  obtain r where r: "dbRows (oaDB s) (''ann'', ''corp'') = Some r" "row_token r s = Inr old_token"
    using Store_row [OF demo_oauth_ready(4) s(1)] by auto
  have g: "Get_start 1 ''ann'' ''corp'' s = NeedsRefresh old_token"
    using r s(4,6) by (simp add: Get_start_def old_token_def ExpiresWithin_def CanRefresh_def refreshBuffer_def minute_def second_def)
  obtain rq where b: "refresh_begin demo_oenv ''corp'' old_token s = (s, Inr rq)"
    using corp_lookup [OF s(5)] by (simp add: refresh_begin_def old_token_def)
  let ?a = "HttpAnswer ''application/json; charset=utf-8'' (github_answer ''t'')"
  obtain t' where t: "refresh_end 2 old_token ?a = Inr t'" by (simp add: refresh_end_def bare_answer)
  define y where "y = new_oauth_sys s"
  define y1 where "y1 = foldl (\<lambda>y e. oauth_step demo_oenv e y) y [GetE 1 ''ann'' ''corp'', RevokeE ''ann'' ''corp'']"
  have "osState y1 = s\<lparr>oaDB := (oaDB s)\<lparr>dbRows := (dbRows (oaDB s))((''ann'', ''corp'') := None)\<rparr>\<rparr>"
    using g b s(4) by (simp add: y1_def y_def new_oauth_sys_def oauth_Delete_def db_update_def)
  then have "mCiphers (oaMachine (osState y1)) = demo_ciphers" "oaKey (osState y1) = replicate 32 CHR ''k''" "oaDBError (osState y1) = None"
    using s(2-4) by simp_all
  from demo_store_token [OF this] obtain s2 where s2: "oauth_Store ''ann'' ''corp'' t' (osState y1) = (s2, None)" by blast
  have "ciphers_ok (mCiphers (oaMachine (osState y)))" using s(2) demo_libraries by (simp add: y_def new_oauth_sys_def)
  from revoked_comes_back [OF _ _ y1_def t s2 this refl] g b
  have "dbRows (oaDB (osState y1)) (''ann'', ''corp'') = None \<and>
      (\<exists>r. dbRows (oaDB (osState (oauth_step demo_oenv (AnswerE (length (osCalls y)) 2 ?a) y1))) (''ann'', ''corp'') = Some r)"
    by (auto simp: y_def new_oauth_sys_def)
  then show ?thesis unfolding y1_def by (intro exI [of _ y]) auto
qed

end
