(* ===== verification/DashboardOAuth.thy ===== *)
theory DashboardOAuth
  imports OAuth
begin

text \<open>
  The dashboard's side of authorization (\<open>internal/gateway/dashboard_oauth.go\<close>): which providers are
  connected, the start of a flow, the callback with its page, revocation and status.  The state is absent
  where the server has no flow manager.  A clock gives the times at which a token is read and judged.
\<close>

section \<open>Requests and replies\<close>

record oauth_request =
  qrTime :: time
  qrMethod :: string
  qrQuery :: string
  qrBody :: string

datatype oauth_reply =
  OHttpError nat string
| OPreflight
| OJson json
| OStatus string string oauth_token
| OPage string

definition query_get :: "oauth_request \<Rightarrow> string \<Rightarrow> string" where
  "query_get r k = values_Get (fst (ParseQuery (qrQuery r))) k"

definition or_default :: "string \<Rightarrow> string" where
  "or_default u = (if u = [] then ''default'' else u)"

section \<open>The page\<close>

definition page_parts :: "bool \<Rightarrow> string \<times> string" where
  \<open>page_parts success =
    (join_str newline [
       ''<!DOCTYPE html>'', ''<html>'', ''<head>'',
       ''    <title>OAuth '' @ (if success then ''success'' else ''error'') @ ''</title>'',
       ''    <style>'', ''        body {'',
       ''            font-family: -apple-system, BlinkMacSystemFont, "Segoe UI", Roboto, sans-serif;'',
       ''            display: flex;'', ''            justify-content: center;'', ''            align-items: center;'',
       ''            height: 100vh;'', ''            margin: 0;'',
       ''            background: '' @ (if success then ''#f0fdf4'' else ''#fef2f2'') @ '';'',
       ''        }'', ''        .container {'', ''            text-align: center;'', ''            padding: 40px;'',
       ''            background: white;'', ''            border-radius: 12px;'',
       ''            box-shadow: 0 4px 20px rgba(0,0,0,0.1);'', ''        }'',
       ''        h1 { color: '' @ (if success then ''#16a34a'' else ''#dc2626'') @ ''; margin-bottom: 16px; }'',
       ''        p { color: #666; }'', ''        .icon { font-size: 48px; margin-bottom: 16px; }'',
       ''    </style>'', ''</head>'', ''<body>'', ''    <div class="container">'',
       ''        <div class="icon">'' @ (if success then [CHR 0xE2, CHR 0x9C, CHR 0x85] else [CHR 0xE2, CHR 0x9D, CHR 0x8C]) @ ''</div>'',
       ''        <h1>'' @ (if success then ''Connected!'' else ''Connection Failed'') @ ''</h1>'',
       ''        <p>''],
     join_str newline [
       ''</p>'', ''        <script>'', ''            // Notify parent window and close after delay'',
       ''            if (window.opener) {'',
       ''                window.opener.postMessage({type: 'oauth_complete', success: '' @
         (if success then ''true'' else ''false'') @ ''}, '*');'',
       ''            }'', ''            setTimeout(function() { window.close(); }, 3000);'',
       ''        </script>'', ''    </div>'', ''</body>'', ''</html>''])\<close>

definition renderOAuthResult :: "bool \<Rightarrow> string \<Rightarrow> oauth_reply" where
  "renderOAuthResult success message = OPage (fst (page_parts success) @ message @ snd (page_parts success))"

section \<open>The handlers\<close>

definition HandleOAuthCallback ::
  "oauth_env \<Rightarrow> network \<Rightarrow> oauth_request \<Rightarrow> 'k oauth_state option \<Rightarrow> 'k oauth_state option \<times> oauth_reply" where
  "HandleOAuthCallback env net r m =
     (if query_get r ''error'' \<noteq> [] then
        (m, renderOAuthResult False (''Authorization failed: '' @ query_get r ''error_description''))
      else if query_get r ''code'' = [] \<or> query_get r ''state'' = [] then
        (m, renderOAuthResult False ''Missing code or state parameter'')
      else
        (case m of
           None \<Rightarrow> (None, renderOAuthResult False ''OAuth not configured'')
         | Some s \<Rightarrow>
             (case HandleCallback env net (qrTime r) (query_get r ''code'') (query_get r ''state'') s of
                (s1, Inl e) \<Rightarrow> (Some s1, renderOAuthResult False (''Authorization failed: '' @ oauth_error_text e))
              | (s1, Inr _) \<Rightarrow> (Some s1, renderOAuthResult True ''Authorization successful! You can close this window.''))))"

text \<open>What authorization and revocation share: the method, the manager, and a body with a provider.\<close>

definition provider_action ::
  "(string \<Rightarrow> string \<Rightarrow> 'k oauth_state \<Rightarrow> 'k oauth_state \<times> oauth_reply) \<Rightarrow> oauth_request \<Rightarrow> 'k oauth_state option \<Rightarrow> 'k oauth_state option \<times> oauth_reply" where
  "provider_action act r m =
     (if qrMethod r = ''OPTIONS'' then (m, OPreflight)
      else if qrMethod r \<noteq> ''POST'' then (m, OHttpError 405 ''POST required'')
      else (case m of
              None \<Rightarrow> (m, OHttpError 503 ''OAuth not configured'')
            | Some s \<Rightarrow>
                (case decode_body [''provider'', ''user_id''] (qrBody r) of
                   Some [provider, user] \<Rightarrow>
                     if provider = [] then (m, OHttpError 400 ''provider is required'')
                     else (case act (or_default user) provider s of (s1, p) \<Rightarrow> (Some s1, p))
                 | _ \<Rightarrow> (m, OHttpError 400 ''invalid JSON''))))"

definition HandleOAuthAuthorize ::
  "oauth_env \<Rightarrow> oauth_request \<Rightarrow> 'k oauth_state option \<Rightarrow> 'k oauth_state option \<times> oauth_reply" where
  "HandleOAuthAuthorize env r =
     provider_action (\<lambda>user provider s.
       case StartAuth env (qrTime r) user provider s of
         (s1, Inl e) \<Rightarrow> (s1, OHttpError 400 (oauth_error_text e))
       | (s1, Inr (url, _)) \<Rightarrow>
           (s1, OJson (JObj [(''auth_url'', JStr url), (''provider'', JStr provider), (''user_id'', JStr user)]))) r"

definition HandleOAuthRevoke :: "oauth_request \<Rightarrow> 'k oauth_state option \<Rightarrow> 'k oauth_state option \<times> oauth_reply" where
  "HandleOAuthRevoke r =
     provider_action (\<lambda>user provider s.
       case oauth_Delete user provider s of
         (s1, Some e) \<Rightarrow> (s1, OHttpError 500 (oauth_error_text e))
       | (s1, None) \<Rightarrow>
           (s1, OJson (JObj [(''provider'', JStr provider), (''status'', JStr ''revoked''), (''user_id'', JStr user)]))) r"

definition HandleOAuthStatus ::
  "oauth_env \<Rightarrow> network \<Rightarrow> oauth_request \<Rightarrow> 'k oauth_state option \<Rightarrow> 'k oauth_state option \<times> oauth_reply" where
  "HandleOAuthStatus env net r m =
     (case m of
        None \<Rightarrow> (None, OJson (JObj [(''available'', JBool False), (''error'', JStr ''OAuth not configured'')]))
      | Some s \<Rightarrow>
          if query_get r ''provider'' = [] then (m, OHttpError 400 ''provider query param is required'')
          else
            (let user = or_default (query_get r ''user_id'') in
             case GetToken env net (qrTime r) user (query_get r ''provider'') s of
               (s1, Inl e) \<Rightarrow>
                 (Some s1, OJson (JObj [(''connected'', JBool False), (''error'', JStr (oauth_error_text e)),
                    (''provider'', JStr (query_get r ''provider'')), (''user_id'', JStr user)]))
             | (s1, Inr t) \<Rightarrow> (Some s1, OStatus (query_get r ''provider'') user t)))"

text \<open>One provider after the other; empty scopes are left out.\<close>

definition provider_status ::
  "oauth_env \<Rightarrow> network \<Rightarrow> (string \<Rightarrow> time \<times> time) \<Rightarrow> string \<Rightarrow> string \<Rightarrow> 'k oauth_state \<Rightarrow> 'k oauth_state \<times> json" where
  "provider_status env net clock user name s =
     (case GetToken env net (fst (clock name)) user name s of (s1, r) \<Rightarrow>
        (s1, case r of
               Inr t \<Rightarrow>
                 if IsExpired (snd (clock name)) t then JObj [(''name'', JStr name), (''connected'', JBool False)]
                 else JObj ([(''name'', JStr name), (''connected'', JBool True)] @
                        (if otScopes t = [] then [] else [(''scopes'', JArr (map JStr (otScopes t)))]))
             | Inl _ \<Rightarrow> JObj [(''name'', JStr name), (''connected'', JBool False)]))"

fun provider_statuses ::
  "oauth_env \<Rightarrow> network \<Rightarrow> (string \<Rightarrow> time \<times> time) \<Rightarrow> string \<Rightarrow> string list \<Rightarrow> 'k oauth_state \<Rightarrow> 'k oauth_state \<times> json list" where
  "provider_statuses env net clock user [] s = (s, [])"
| "provider_statuses env net clock user (n # ns) s =
     (case provider_status env net clock user n s of (s1, j) \<Rightarrow>
       (case provider_statuses env net clock user ns s1 of (s2, js) \<Rightarrow> (s2, j # js)))"

definition HandleOAuthProviders ::
  "oauth_env \<Rightarrow> network \<Rightarrow> (string \<Rightarrow> time \<times> time) \<Rightarrow> oauth_request \<Rightarrow> 'k oauth_state option \<Rightarrow> 'k oauth_state option \<times> oauth_reply" where
  "HandleOAuthProviders env net clock r m =
     (case m of
        None \<Rightarrow> (None, OJson (JObj [(''available'', JBool False), (''error'', JStr ''OAuth not configured''), (''providers'', JArr [])]))
      | Some s \<Rightarrow>
          (let user = or_default (query_get r ''user_id'') in
           case provider_statuses env net clock user (map fst (entries_of (cfg [''oauth'', ''providers''] (oaConfig s)))) s of
             (s1, js) \<Rightarrow>
               (Some s1, OJson (JObj [(''available'', JBool True), (''providers'', JArr js), (''user_id'', JStr user)]))))"

section \<open>The callback's page\<close>

lemma sorted_error_query:
  "sort_key fst [(''error'', e), (''error_description'', d)] = [(''error'', e), (''error_description'', d)]"
  by (simp add: less_eq_list_code insort_key_def)

text \<open>
  The callback is open to everyone, and what a link to it names as the description of an error stands in
  the page as it is, markup included.
\<close>

theorem callback_shows_markup:
  assumes "qrQuery r = values_Encode [(''error'', e), (''error_description'', d)]" and "e \<noteq> []"
  shows "\<not> fst (route_of ''/api/oauth/callback'') \<and>
    HandleOAuthCallback env net r m =
      (m, OPage (fst (page_parts False) @ ''Authorization failed: '' @ d @ snd (page_parts False)))"
proof -
  have "ParseQuery (qrQuery r) = ([(''error'', e), (''error_description'', d)], False)"
    unfolding assms(1) by (subst ParseQuery_Encode) (simp_all only: sorted_error_query, simp)
  then have "query_get r ''error'' = e" "query_get r ''error_description'' = d"
    by (simp_all add: query_get_def values_Get_def)
  moreover have "\<not> fst (route_of ''/api/oauth/callback'')" by code_simp
  ultimately show ?thesis using assms(2) by (simp add: HandleOAuthCallback_def renderOAuthResult_def)
qed

theorem callback_shows_markup_witness:
  "\<not> fst (route_of ''/api/oauth/callback'') \<and>
   (\<exists>a b. HandleOAuthCallback demo_oenv (\<lambda>_. (0, HttpFailed ''refused''))
        \<lparr>qrTime = 0, qrMethod = ''GET'', qrQuery = values_Encode [(''error'', ''x''), (''error_description'', ''<script>'')], qrBody = ''''\<rparr> (Some demo_oauth) =
      (Some demo_oauth, OPage (a @ ''<script>'' @ b)))"
proof -
  let ?r = "\<lparr>qrTime = 0, qrMethod = ''GET'', qrQuery = values_Encode [(''error'', ''x''), (''error_description'', ''<script>'')], qrBody = ''''\<rparr>"
  have q: "qrQuery ?r = values_Encode [(''error'', ''x''), (''error_description'', ''<script>'')]" by simp
  from callback_shows_markup [OF q, of demo_oenv "\<lambda>_. (0, HttpFailed ''refused'')" "Some demo_oauth"] show ?thesis
    by (metis append.assoc list.discI)
qed

end
