(* ===== verification/Proactive.thy ===== *)
theory Proactive
  imports DashboardAuth Handler
begin

text \<open>
  The engine of scheduled work (\<open>internal/proactive/engine.go\<close>) and the history of its runs
  (\<open>history.go\<close>): cron jobs, webhooks and heartbeats, their execution with retries, and the start, stop
  and reload of the engine.  The cron library, the agent's handling of a message, the clock and HMAC are
  inputs.  A panic is \<open>None\<close>.
\<close>

section \<open>Jobs\<close>

definition replace_all :: "string \<Rightarrow> string \<Rightarrow> string \<Rightarrow> string" where
  "replace_all pat by s =
     (let n = length pat in
      concat (rev (fst (foldl (\<lambda>(out, skip) i.
          if 0 < skip then (out, skip - 1)
          else if has_prefix (drop i s) pat then (by # out, n - 1)
          else ([s ! i] # out, 0)) ([], 0) [0..<length s]))))"

definition DefaultCronTimeout :: duration where "DefaultCronTimeout = 5 * minute"
definition DefaultWebhookTimeout :: duration where "DefaultWebhookTimeout = 5 * minute"
definition DefaultHeartbeatTimeout :: duration where "DefaultHeartbeatTimeout = 2 * minute"

text \<open>The elements of the three lists of the configuration.\<close>

definition elements_of :: "go_value \<Rightarrow> go_value list" where
  "elements_of v = (case v of VList (Some vs) \<Rightarrow> vs | _ \<Rightarrow> [])"

definition cron_get :: "string \<Rightarrow> go_value \<Rightarrow> go_value" where
  "cron_get n v = get_at [n] CronJobConfig_type v"

definition hook_get :: "string \<Rightarrow> go_value \<Rightarrow> go_value" where
  "hook_get n v = get_at [n] WebhookConfig_type v"

definition beat_get :: "string \<Rightarrow> go_value \<Rightarrow> go_value" where
  "beat_get n v = get_at [n] HeartbeatConfig_type v"

definition meta_of :: "go_value \<Rightarrow> metadata" where
  "meta_of v = map_of (map (\<lambda>(k, x). (k, case x of VAny j \<Rightarrow> j | _ \<Rightarrow> JNull)) (entries_of v))"

record job =
  jbName :: string
  jbType :: string
  jbPrompt :: string
  jbUserID :: string
  jbSessionID :: string
  jbChannel :: string
  jbMetadata :: metadata
  jbHeartbeat :: bool
  jbTimeout :: duration
  jbMaxRetries :: int

definition parseDurationOr :: "(string \<Rightarrow> duration option) \<Rightarrow> string \<Rightarrow> duration \<Rightarrow> duration" where
  "parseDurationOr parse s dflt = (if s = [] then dflt else (case parse s of Some d \<Rightarrow> d | None \<Rightarrow> dflt))"

definition job_of ::
  "(string \<Rightarrow> go_value \<Rightarrow> go_value) \<Rightarrow> string \<Rightarrow> bool \<Rightarrow> duration \<Rightarrow> (string \<Rightarrow> duration option) \<Rightarrow> string \<Rightarrow> go_value \<Rightarrow> job" where
  "job_of get ty heartbeat dflt parse prompt v =
     \<lparr>jbName = str_of (get ''name'' v), jbType = ty, jbPrompt = prompt, jbUserID = str_of (get ''user_id'' v),
      jbSessionID = str_of (get ''session_id'' v), jbChannel = str_of (get ''channel'' v), jbMetadata = meta_of (get ''metadata'' v),
      jbHeartbeat = heartbeat, jbTimeout = parseDurationOr parse (str_of (get ''timeout'' v)) dflt,
      jbMaxRetries = int_of (get ''max_retries'' v)\<rparr>"

definition cron_job :: "(string \<Rightarrow> duration option) \<Rightarrow> go_value \<Rightarrow> job" where
  "cron_job parse v = job_of cron_get ''cron'' False DefaultCronTimeout parse (str_of (cron_get ''prompt'' v)) v"

definition hook_job :: "(string \<Rightarrow> duration option) \<Rightarrow> string \<Rightarrow> go_value \<Rightarrow> job" where
  "hook_job parse body v =
     job_of hook_get ''webhook'' False DefaultWebhookTimeout parse (replace_all ''{{.Payload}}'' body (str_of (hook_get ''prompt'' v))) v"

definition beat_job :: "(string \<Rightarrow> duration option) \<Rightarrow> go_value \<Rightarrow> job" where
  "beat_job parse v = job_of beat_get ''heartbeat'' True DefaultHeartbeatTimeout parse (str_of (beat_get ''prompt'' v)) v"

section \<open>The history\<close>

text \<open>A row keeps the start in seconds and the duration in milliseconds.\<close>

record job_run =
  jrID :: nat
  jrJobName :: string
  jrJobType :: string
  jrStartedAt :: time
  jrDuration :: duration
  jrStatus :: string
  jrError :: string
  jrAttempt :: int

definition history_Record ::
  "string \<Rightarrow> string \<Rightarrow> time \<Rightarrow> duration \<Rightarrow> string \<Rightarrow> string \<Rightarrow> int \<Rightarrow> job_run list \<Rightarrow> job_run list" where
  "history_Record name ty started d st err attempt rows =
     rows @ [\<lparr>jrID = Suc (length rows), jrJobName = name, jrJobType = ty, jrStartedAt = started div second * second,
              jrDuration = d div 1000000 * 1000000, jrStatus = st, jrError = err, jrAttempt = attempt\<rparr>]"

definition history_Query :: "string \<Rightarrow> int \<Rightarrow> job_run list \<Rightarrow> job_run list" where
  "history_Query name limit rows =
     take (nat (if limit \<le> 0 then 20 else limit)) (rev (if name \<noteq> [] then filter (\<lambda>r. jrJobName r = name) rows else rows))"

section \<open>One run\<close>

record metrics =
  JobsExecuted :: nat
  JobsFailed :: nat
  JobsRetried :: nat
  JobsTimedOut :: nat

text \<open>What a run meets: the responses and the error of the agent, and whether the deadline passed.\<close>

record run_input =
  riStarted :: time
  riDuration :: duration
  riUuid :: "nat \<Rightarrow> string"
  riResponses :: "response list"
  riError :: "string option"
  riDeadline :: bool

datatype job_effect = Handled channel_message | Sent string response

text \<open>The counters, the history if there is one, and what was done.\<close>

record run_state =
  rsMetrics :: metrics
  rsHistory :: "job_run list option"
  rsEffects :: "job_effect list"

definition job_message :: "job \<Rightarrow> run_input \<Rightarrow> channel_message" where
  "job_message j i =
     zero_message\<lparr>cmID := riUuid i 0, cmSessionID := (if jbSessionID j = [] then ''proactive-'' @ jbName j else jbSessionID j),
       cmUserID := jbUserID j, cmContent := jbPrompt j, cmChannel := jbChannel j,
       cmMetadata := (jbMetadata j)(''proactive'' \<mapsto> JBool True, ''proactive_job_name'' \<mapsto> JStr (jbName j),
                                    ''proactive_job_type'' \<mapsto> JStr (jbType j))\<rparr>"

definition final_content :: "response list \<Rightarrow> string" where
  "final_content rs = foldl (\<lambda>t r. if rpDone r \<and> rpContent r \<noteq> [] then rpContent r else t) [] rs"

definition execute :: "(string \<Rightarrow> bool) \<Rightarrow> job \<Rightarrow> int \<Rightarrow> run_input \<Rightarrow> run_state \<Rightarrow> run_state \<times> string option" where
  "execute channels j attempt i s =
     (if \<not> channels (jbChannel j) then (s, Some (''channel not found: '' @ jbChannel j))
      else
        (let msg = job_message j i;
             sent = (if jbHeartbeat j then []
                     else map (Sent (jbChannel j)) (filter (\<lambda>r. rpType r = ''done'' \<and> rpContent r \<noteq> []) (riResponses i)));
             s1 = s\<lparr>rsEffects := rsEffects s @ Handled msg # sent\<rparr>;
             record_run = (\<lambda>st err s. s\<lparr>rsHistory := map_option
                (history_Record (jbName j) (jbType j) (riStarted i) (riDuration i) st err attempt) (rsHistory s)\<rparr>)
         in case riError i of
              Some e \<Rightarrow>
                (let m = (rsMetrics s1)\<lparr>JobsFailed := Suc (JobsFailed (rsMetrics s1))\<rparr>;
                     m1 = (if riDeadline i then m\<lparr>JobsTimedOut := Suc (JobsTimedOut m)\<rparr> else m)
                 in (record_run (if riDeadline i then ''timeout'' else ''failure'') e (s1\<lparr>rsMetrics := m1\<rparr>), Some e))
            | None \<Rightarrow>
                (let m = (rsMetrics s1)\<lparr>JobsExecuted := Suc (JobsExecuted (rsMetrics s1))\<rparr>;
                     note = (if jbHeartbeat j \<and> trim_space (final_content (riResponses i)) \<noteq> []
                             then [Sent (jbChannel j) \<lparr>rpID = riUuid i 1, rpMessageID = [], rpSessionID = cmSessionID msg,
                                     rpContent = final_content (riResponses i), rpType = ''done'', rpDone = True, rpMetadata = jbMetadata j\<rparr>]
                             else [])
                 in (record_run ''success'' [] (s1\<lparr>rsMetrics := m, rsEffects := rsEffects s1 @ note\<rparr>), None))))"

text \<open>The wait before a further attempt; the shift and the product wrap at 64 bits.\<close>

definition backoff :: "nat \<Rightarrow> duration" where
  "backoff k = wrap64 (wrap64 (2 ^ k) * second)"

text \<open>Each attempt has an input, and may find the context cancelled during the wait before it or after it.\<close>

record attempt_input =
  aiRun :: run_input
  aiStopBefore :: bool
  aiStopAfter :: bool

primrec attempts ::
  "nat \<Rightarrow> nat \<Rightarrow> (string \<Rightarrow> bool) \<Rightarrow> job \<Rightarrow> (nat \<Rightarrow> attempt_input) \<Rightarrow> run_state \<Rightarrow> run_state" where
  "attempts 0 k channels j inp s = s"
| "attempts (Suc n) k channels j inp s =
     (let s1 = (if 0 < k then s\<lparr>rsMetrics := (rsMetrics s)\<lparr>JobsRetried := Suc (JobsRetried (rsMetrics s))\<rparr>\<rparr> else s) in
      if 0 < k \<and> aiStopBefore (inp k) then s1
      else (case execute channels j (int k + 1) (aiRun (inp k)) s1 of
              (s2, None) \<Rightarrow> s2
            | (s2, Some _) \<Rightarrow> if aiStopAfter (inp k) then s2 else attempts n (Suc k) channels j inp s2))"

definition executeWithRetry :: "(string \<Rightarrow> bool) \<Rightarrow> job \<Rightarrow> (nat \<Rightarrow> attempt_input) \<Rightarrow> run_state \<Rightarrow> run_state" where
  "executeWithRetry channels j inp s = attempts (nat (jbMaxRetries j + 1)) 0 channels j inp s"

section \<open>Webhooks\<close>

definition verifyHMAC :: "(string \<Rightarrow> string \<Rightarrow> string) \<Rightarrow> string \<Rightarrow> string \<Rightarrow> string \<Rightarrow> bool" where
  "verifyHMAC hmac secret body signature \<longleftrightarrow>
     (let sig = trim_prefix signature ''sha256='' in
      sig \<noteq> [] \<and> sig \<noteq> signature \<and> (case hex_decode sig of None \<Rightarrow> False | Some d \<Rightarrow> hmac secret body = d))"

record hook_request =
  hqMethod :: string
  hqBody :: string
  hqSignature :: string

datatype hook_reply = HookError nat string | HookAccepted

definition hook_handler ::
  "(string \<Rightarrow> string \<Rightarrow> string) \<Rightarrow> (string \<Rightarrow> duration option) \<Rightarrow> go_value \<Rightarrow> hook_request \<Rightarrow> hook_reply \<times> job option" where
  "hook_handler hmac parse wh r =
     (if hqMethod r \<noteq> ''POST'' then (HookError 405 ''method not allowed'', None)
      else
        (let body = take 65536 (hqBody r); secret = str_of (hook_get ''secret'' wh) in
         if secret \<noteq> [] \<and> \<not> verifyHMAC hmac secret body (hqSignature r) then (HookError 403 ''forbidden'', None)
         else (HookAccepted, Some (hook_job parse body wh))))"

section \<open>The engine\<close>

text \<open>
  Contexts are numbered; only the last one may be live.  A route of the multiplexer, a cron entry and a
  heartbeat keep the configuration and the context with which they were made.
\<close>

record engine =
  enParent :: bool
  enContext :: nat
  enLive :: bool
  enRoutes :: "(string \<times> go_value \<times> nat) list"
  enCron :: "(go_value \<times> nat) list"
  enBeats :: "(go_value \<times> nat) list"

definition New :: engine where
  "New = \<lparr>enParent = False, enContext = 0, enLive = False, enRoutes = [], enCron = [], enBeats = []\<rparr>"

text \<open>\<open>eeCron\<close> is the error of the cron library for a schedule; \<open>eeRefuses\<close> tells whether the
  multiplexer panics at a pattern because of its form or of another pattern.\<close>

record engine_env =
  eeDuration :: "string \<Rightarrow> duration option"
  eeDurationError :: "string \<Rightarrow> string"
  eeCron :: "string \<Rightarrow> string option"
  eeRefuses :: "string \<Rightarrow> string list \<Rightarrow> bool"

fun add_jobs :: "engine_env \<Rightarrow> go_value list \<Rightarrow> engine \<Rightarrow> engine \<times> string option" where
  "add_jobs env [] e = (e, None)"
| "add_jobs env (v # vs) e =
     (case eeCron env (str_of (cron_get ''schedule'' v)) of
        Some err \<Rightarrow> (e, Some (''register cron job '' @ quote (str_of (cron_get ''name'' v)) @ '': '' @ err))
      | None \<Rightarrow> add_jobs env vs (e\<lparr>enCron := enCron e @ [(v, enContext e)]\<rparr>))"

fun add_hooks :: "engine_env \<Rightarrow> go_value list \<Rightarrow> engine \<Rightarrow> engine option" where
  "add_hooks env [] e = Some e"
| "add_hooks env (v # vs) e =
     (let p = str_of (hook_get ''path'' v) in
      if p \<in> set (map fst (enRoutes e)) \<or> eeRefuses env p (map fst (enRoutes e)) then None
      else add_hooks env vs (e\<lparr>enRoutes := enRoutes e @ [(p, v, enContext e)]\<rparr>))"

text \<open>\<open>time.NewTicker\<close> panics when the interval is not positive.\<close>

fun add_beats :: "engine_env \<Rightarrow> go_value list \<Rightarrow> engine \<Rightarrow> (engine \<times> string option) option" where
  "add_beats env [] e = Some (e, None)"
| "add_beats env (v # vs) e =
     (case eeDuration env (str_of (beat_get ''interval'' v)) of
        None \<Rightarrow> Some (e, Some (''parse heartbeat interval '' @ quote (str_of (beat_get ''name'' v)) @ '': '' @
                   eeDurationError env (str_of (beat_get ''interval'' v))))
      | Some d \<Rightarrow> if d \<le> 0 then None else add_beats env vs (e\<lparr>enBeats := enBeats e @ [(v, enContext e)]\<rparr>))"

definition jobs_of :: "go_value \<Rightarrow> go_value list" where
  "jobs_of c = elements_of (cfg [''proactive'', ''jobs''] c)"

definition hooks_of :: "go_value \<Rightarrow> go_value list" where
  "hooks_of c = elements_of (cfg [''proactive'', ''webhooks''] c)"

definition beats_of :: "go_value \<Rightarrow> go_value list" where
  "beats_of c = elements_of (cfg [''proactive'', ''heartbeats''] c)"

definition startLocked :: "engine_env \<Rightarrow> go_value \<Rightarrow> engine \<Rightarrow> (engine \<times> string option) option" where
  "startLocked env c e =
     (let e1 = e\<lparr>enParent := True, enContext := Suc (enContext e), enLive := True\<rparr> in
      case add_jobs env (jobs_of c) e1 of
        (e2, Some err) \<Rightarrow> Some (e2, Some err)
      | (e2, None) \<Rightarrow>
          (case add_hooks env (hooks_of c) e2 of
             None \<Rightarrow> None
           | Some e3 \<Rightarrow> add_beats env (beats_of c) e3))"

text \<open>Stopping cancels the context: the heartbeats end and the cron library stops; the routes stay.\<close>

definition stopLocked :: "engine \<Rightarrow> engine" where
  "stopLocked e = e\<lparr>enLive := False, enBeats := []\<rparr>"

text \<open>Without a start there is no parent context, and deriving one from it panics.\<close>

definition Reload :: "engine_env \<Rightarrow> go_value \<Rightarrow> engine \<Rightarrow> (engine \<times> string option) option" where
  "Reload env c e =
     (let e1 = (stopLocked e)\<lparr>enCron := []\<rparr> in if enParent e1 then startLocked env c e1 else None)"

text \<open>A request that the multiplexer hands to the route of a pattern: the reply, and a job with whether its
  context is live.\<close>

definition serve_hook ::
  "(string \<Rightarrow> string \<Rightarrow> string) \<Rightarrow> engine_env \<Rightarrow> string \<Rightarrow> hook_request \<Rightarrow> engine \<Rightarrow> hook_reply \<times> (job \<times> bool) option" where
  "serve_hook hmac env pattern r e =
     (case map_of (enRoutes e) pattern of
        None \<Rightarrow> (HookError 404 ''404 page not found'', None)
      | Some (wh, n) \<Rightarrow>
          (case hook_handler hmac (eeDuration env) wh r of
             (p, j) \<Rightarrow> (p, map_option (\<lambda>j. (j, enLive e \<and> n = enContext e)) j)))"

section \<open>Attempts\<close>

text \<open>How many attempts are made when nothing stops them: up to the first that succeeds, or all.\<close>

fun attempts_made :: "nat \<Rightarrow> (nat \<Rightarrow> bool) \<Rightarrow> nat" where
  "attempts_made 0 ok = 0"
| "attempts_made (Suc n) ok = (if ok 0 then 1 else Suc (attempts_made n (\<lambda>k. ok (Suc k))))"

lemma attempts_made_bound: "attempts_made n ok \<le> n"
  by (induction n ok rule: attempts_made.induct) auto

definition run_ok :: "(nat \<Rightarrow> attempt_input) \<Rightarrow> nat \<Rightarrow> bool" where
  "run_ok inp k \<longleftrightarrow> riError (aiRun (inp k)) = None"

definition finished_runs :: "metrics \<Rightarrow> nat" where
  "finished_runs m = JobsExecuted m + JobsFailed m"

lemma execute_counts:
  assumes "channels (jbChannel j)" and "execute channels j a i s = (s', r)"
  shows "r = riError i \<and> finished_runs (rsMetrics s') = Suc (finished_runs (rsMetrics s)) \<and>
    JobsRetried (rsMetrics s') = JobsRetried (rsMetrics s) \<and>
    (\<forall>rows. rsHistory s = Some rows \<longrightarrow> (\<exists>x. rsHistory s' = Some (rows @ [x]) \<and> jrAttempt x = a \<and> jrID x = Suc (length rows) \<and>
       (jrStatus x = ''success'' \<longleftrightarrow> riError i = None)))"
  using assms by (auto simp: execute_def Let_def finished_runs_def history_Record_def split: option.splits if_splits)

lemma attempts_counts:
  assumes "channels (jbChannel j)" and "\<And>k. \<not> aiStopBefore (inp k)" and "\<And>k. \<not> aiStopAfter (inp k)" and "rsHistory s = Some rows"
  shows "let s' = attempts n k channels j inp s; m = attempts_made n (\<lambda>i. run_ok inp (k + i)) in
    finished_runs (rsMetrics s') = finished_runs (rsMetrics s) + m \<and>
    JobsRetried (rsMetrics s') = JobsRetried (rsMetrics s) + (if k = 0 then m - 1 else m) \<and>
    (\<exists>new. rsHistory s' = Some (rows @ new) \<and> map jrAttempt new = map (\<lambda>i. int (k + i) + 1) [0..<m])"
  using assms(4)
proof (induction n arbitrary: k s rows)
  case (Suc n)
  define s1 where "s1 = (if 0 < k then s\<lparr>rsMetrics := (rsMetrics s)\<lparr>JobsRetried := Suc (JobsRetried (rsMetrics s))\<rparr>\<rparr> else s)"
  have s1: "finished_runs (rsMetrics s1) = finished_runs (rsMetrics s)" "rsHistory s1 = Some rows"
    "JobsRetried (rsMetrics s1) = JobsRetried (rsMetrics s) + (if k = 0 then 0 else 1)"
    using Suc.prems by (auto simp: s1_def finished_runs_def)
  obtain s2 r where e: "execute channels j (int k + 1) (aiRun (inp k)) s1 = (s2, r)" by fastforce
  note c = execute_counts [OF assms(1) e]
  obtain x where x: "rsHistory s2 = Some (rows @ [x])" "jrAttempt x = int k + 1" using c s1(2) by blast
  have u: "attempts (Suc n) k channels j inp s = (case r of None \<Rightarrow> s2 | Some _ \<Rightarrow> attempts n (Suc k) channels j inp s2)"
    using assms(2,3) e by (simp add: s1_def [symmetric] Let_def split: option.split)
  have sh: "run_ok inp (Suc k + i) = run_ok inp (k + Suc i)" for i by simp
  show ?case
  proof (cases r)
    case None
    then have "run_ok inp k" using c by (simp add: run_ok_def)
    then show ?thesis unfolding u using None c s1 x by (simp add: Let_def)
  next
    case (Some err)
    then have f: "\<not> run_ok inp k" using c by (simp add: run_ok_def)
    define m where "m = attempts_made n (\<lambda>i. run_ok inp (Suc k + i))"
    from Suc.IH [OF x(1), of "Suc k"] obtain new where
      ih: "finished_runs (rsMetrics (attempts n (Suc k) channels j inp s2)) = finished_runs (rsMetrics s2) + m"
        "JobsRetried (rsMetrics (attempts n (Suc k) channels j inp s2)) = JobsRetried (rsMetrics s2) + m"
        "rsHistory (attempts n (Suc k) channels j inp s2) = Some ((rows @ [x]) @ new)" "map jrAttempt new = map (\<lambda>i. int (Suc k + i) + 1) [0..<m]"
      by (auto simp: Let_def m_def)
    have m: "attempts_made (Suc n) (\<lambda>i. run_ok inp (k + i)) = Suc m" using f by (simp add: m_def)
    have "map jrAttempt (x # new) = map (\<lambda>i. int (k + i) + 1) [0..<Suc m]"
      by (simp only: upt_conv_Cons [of 0 "Suc m"] map_Suc_upt [symmetric] zero_less_Suc) (simp add: x(2) ih(4))
    then show ?thesis unfolding u m using Some ih(1-3) c s1 by (auto simp: Let_def intro: exI [of _ "x # new"])
  qed
qed (simp add: Let_def)

text \<open>
  With its channel and without a cancellation, a job is run until it succeeds, at most once more than its
  retries allow: every attempt counts as executed or failed and leaves a row with its number, and every
  attempt but the first counts as a retry.  A negative number of retries means no run at all.
\<close>

theorem job_attempts:
  assumes "channels (jbChannel j)" and "\<And>k. \<not> aiStopBefore (inp k)" and "\<And>k. \<not> aiStopAfter (inp k)" and "rsHistory s = Some rows"
  shows "let s' = executeWithRetry channels j inp s; m = attempts_made (nat (jbMaxRetries j + 1)) (run_ok inp) in
    m \<le> nat (jbMaxRetries j + 1) \<and>
    finished_runs (rsMetrics s') = finished_runs (rsMetrics s) + m \<and>
    JobsRetried (rsMetrics s') = JobsRetried (rsMetrics s) + (m - 1) \<and>
    (\<exists>new. rsHistory s' = Some (rows @ new) \<and> map jrAttempt new = map (\<lambda>i. int i + 1) [0..<m])"
  using attempts_counts [of channels j inp s rows "nat (jbMaxRetries j + 1)" 0] assms attempts_made_bound
  by (simp add: executeWithRetry_def Let_def)

lemma backoff_doubles: "k \<le> 33 \<Longrightarrow> backoff k = 2 ^ k * second"
proof -
  assume "k \<le> 33"
  then have "(2 :: int) ^ k \<le> 2 ^ 33" by (intro power_increasing) auto
  then show ?thesis by (simp add: backoff_def wrap64_def second_def)
qed

lemma backoff_negative: "backoff 34 < 0"
  by (simp add: backoff_def wrap64_def second_def)

section \<open>Webhooks\<close>

text \<open>Whatever a job is, the handler takes its message for one of the owner.\<close>

lemma job_is_owner: "tier_of (job_message j i) h = TrustTierOwner"
  by (simp add: tier_of_def job_message_def)

lemma verifyHMAC_spec:
  "verifyHMAC hmac s b g \<longleftrightarrow> (\<exists>d. g = ''sha256='' @ d \<and> hex_decode d = Some (hmac s b) \<and> d \<noteq> [])"
proof (cases "has_prefix g ''sha256=''")
  case True
  then obtain d where d: "g = ''sha256='' @ d" unfolding has_prefix_def by (metis append_take_drop_id)
  then have "trim_prefix g ''sha256='' = d" by (simp add: trim_prefix_def has_prefix_def)
  with d show ?thesis by (auto simp: verifyHMAC_def Let_def split: option.splits)
next
  case False
  then show ?thesis by (auto simp: verifyHMAC_def Let_def trim_prefix_def has_prefix_def)
qed

text \<open>
  A webhook with a secret starts a job only for a body, cut at 64 KiB, whose HMAC is in the signature; one
  without a secret starts a job for everybody.  The body becomes part of a prompt that is run with the trust
  of the owner.
\<close>

theorem hook_starts_job:
  assumes "map_of (enRoutes e) p = Some (wh, n)" and "hqMethod r = ''POST''"
  shows "((\<exists>live. serve_hook hmac env p r e =
      (HookAccepted, Some (hook_job (eeDuration env) (take 65536 (hqBody r)) wh, live))) \<longleftrightarrow>
    (let secret = str_of (hook_get ''secret'' wh) in
     secret \<noteq> [] \<longrightarrow> (\<exists>d. hqSignature r = ''sha256='' @ d \<and> hex_decode d = Some (hmac secret (take 65536 (hqBody r))) \<and> d \<noteq> []))) \<and>
    tier_of (job_message (hook_job (eeDuration env) b wh) i) h = TrustTierOwner"
proof -
  have "verifyHMAC hmac (str_of (hook_get ''secret'' wh)) (take 65536 (hqBody r)) (hqSignature r) \<or> str_of (hook_get ''secret'' wh) = [] \<longleftrightarrow>
      (\<exists>live. serve_hook hmac env p r e = (HookAccepted, Some (hook_job (eeDuration env) (take 65536 (hqBody r)) wh, live)))"
    using assms by (simp add: serve_hook_def hook_handler_def Let_def)
  then show ?thesis unfolding verifyHMAC_spec Let_def using job_is_owner by blast
qed

section \<open>Routes outlive their schedules\<close>

lemma add_jobs_frame: "add_jobs env vs e = (e', r) \<Longrightarrow> enRoutes e' = enRoutes e \<and> enContext e' = enContext e \<and> enLive e' = enLive e \<and> enParent e' = enParent e"
  by (induction env vs e rule: add_jobs.induct) (auto split: option.splits)

lemma add_beats_frame:
  "add_beats env vs e = Some (e', r) \<Longrightarrow> enRoutes e' = enRoutes e \<and> enContext e' = enContext e \<and> enLive e' = enLive e \<and> enParent e' = enParent e"
  by (induction env vs e rule: add_beats.induct) (auto split: option.splits if_splits)

lemma add_hooks_routes:
  assumes "add_hooks env vs e = Some e'"
  shows "enRoutes e' = enRoutes e @ map (\<lambda>v. (str_of (hook_get ''path'' v), v, enContext e)) vs \<and> enContext e' = enContext e \<and>
    enLive e' = enLive e \<and> enParent e' = enParent e"
  using assms by (induction env vs e rule: add_hooks.induct) (auto simp: Let_def split: if_splits)

lemma add_hooks_panics:
  assumes "v \<in> set vs" and "str_of (hook_get ''path'' v) \<in> set (map fst (enRoutes e))"
  shows "add_hooks env vs e = None"
  using assms by (induction env vs e rule: add_hooks.induct) (auto simp: Let_def)

lemma startLocked_frame:
  assumes "startLocked env c e = Some (e', r)"
  shows "\<exists>new. enRoutes e' = enRoutes e @ new \<and> (r = None \<longrightarrow> map fst new = map (\<lambda>v. str_of (hook_get ''path'' v)) (hooks_of c)) \<and>
    enContext e' = Suc (enContext e) \<and> enParent e'"
proof -
  let ?e1 = "e\<lparr>enParent := True, enContext := Suc (enContext e), enLive := True\<rparr>"
  obtain e2 x where j: "add_jobs env (jobs_of c) ?e1 = (e2, x)" by fastforce
  note f = add_jobs_frame [OF j]
  show ?thesis
  proof (cases x)
    case (Some err)
    then show ?thesis using assms j f by (auto simp: startLocked_def Let_def)
  next
    case None
    then obtain e3 where h: "add_hooks env (hooks_of c) e2 = Some e3" "add_beats env (beats_of c) e3 = Some (e', r)"
      using assms j by (auto simp: startLocked_def Let_def split: option.splits)
    from add_hooks_routes [OF h(1)] add_beats_frame [OF h(2)] f show ?thesis by (auto simp: comp_def)
  qed
qed

lemma Reload_frame:
  assumes "Reload env c e = Some (e', r)"
  shows "\<exists>new. enRoutes e' = enRoutes e @ new \<and> (r = None \<longrightarrow> map fst new = map (\<lambda>v. str_of (hook_get ''path'' v)) (hooks_of c)) \<and>
    enContext e' = Suc (enContext e) \<and> enParent e'"
proof -
  have "startLocked env c ((stopLocked e)\<lparr>enCron := []\<rparr>) = Some (e', r)"
    using assms by (auto simp: Reload_def Let_def split: if_splits)
  from startLocked_frame [OF this] show ?thesis by (simp add: stopLocked_def)
qed

lemma registered_panics:
  assumes "map_of (enRoutes e) (str_of (hook_get ''path'' v)) = Some x" and "v \<in> set (hooks_of c)"
    and "\<forall>x \<in> set (jobs_of c). eeCron env (str_of (cron_get ''schedule'' x)) = None"
  shows "Reload env c e = None"
proof -
  have p: "str_of (hook_get ''path'' v) \<in> set (map fst (enRoutes e))"
    using assms(1) by (auto dest: map_of_SomeD intro: rev_image_eqI)
  have ok: "\<exists>e2. add_jobs env vs e1 = (e2, None)" if "\<forall>x \<in> set vs. eeCron env (str_of (cron_get ''schedule'' x)) = None" for vs e1
    using that by (induction env vs e1 rule: add_jobs.induct) auto
  have "startLocked env c e1 = None" if "enRoutes e1 = enRoutes e" for e1
  proof -
    obtain e2 where j: "add_jobs env (jobs_of c) (e1\<lparr>enParent := True, enContext := Suc (enContext e1), enLive := True\<rparr>) = (e2, None)"
      using ok [OF assms(3)] by blast
    have "enRoutes e2 = enRoutes e" using add_jobs_frame [OF j] that by simp
    with add_hooks_panics [of v "hooks_of c" e2 env] assms(2) p have "add_hooks env (hooks_of c) e2 = None" by simp
    with j show ?thesis by (simp add: startLocked_def Let_def)
  qed
  then show ?thesis by (simp add: Reload_def Let_def stopLocked_def)
qed

text \<open>
  The multiplexer keeps every route it ever had: after a reload, the route of a webhook, even of one that was
  removed or changed, still answers with the old secret and prompt, and the context of its jobs is cancelled.
\<close>

theorem routes_outlive_schedules:
  assumes "map_of (enRoutes e) p = Some (wh, n)" and "n \<le> enContext e" and "Reload env c e = Some (e', r0)"
  shows "serve_hook hmac env p r e' =
    (case hook_handler hmac (eeDuration env) wh r of (rp, j) \<Rightarrow> (rp, map_option (\<lambda>j. (j, False)) j))"
proof -
  from Reload_frame [OF assms(3)] obtain new where f: "enRoutes e' = enRoutes e @ new" "enContext e' = Suc (enContext e)" by blast
  have "map_of (enRoutes e') p = Some (wh, n)" using f(1) assms(1) by (simp add: map_add_Some_iff)
  moreover have "n \<noteq> enContext e'" using f(2) assms(2) by simp
  ultimately show ?thesis by (simp add: serve_hook_def)
qed

section \<open>A small engine\<close>

definition demo_job :: job where
  "demo_job = \<lparr>jbName = ''report'', jbType = ''cron'', jbPrompt = ''report'', jbUserID = ''ann'', jbSessionID = [], jbChannel = ''telegram'',
     jbMetadata = Map.empty, jbHeartbeat = False, jbTimeout = DefaultCronTimeout, jbMaxRetries = 3\<rparr>"

text \<open>The first attempt fails, the others succeed.\<close>

definition demo_inputs :: "nat \<Rightarrow> attempt_input" where
  "demo_inputs k = \<lparr>aiRun = \<lparr>riStarted = 0, riDuration = 0, riUuid = (\<lambda>_. ''u''), riResponses = [],
     riError = (if k = 0 then Some ''overloaded'' else None), riDeadline = False\<rparr>, aiStopBefore = False, aiStopAfter = False\<rparr>"

definition demo_run :: run_state where
  "demo_run = \<lparr>rsMetrics = \<lparr>JobsExecuted = 0, JobsFailed = 0, JobsRetried = 0, JobsTimedOut = 0\<rparr>, rsHistory = Some [], rsEffects = []\<rparr>"

theorem job_attempts_witness:
  "JobsRetried (rsMetrics (executeWithRetry (\<lambda>_. True) demo_job demo_inputs demo_run)) = 1 \<and>
   (\<exists>new. rsHistory (executeWithRetry (\<lambda>_. True) demo_job demo_inputs demo_run) = Some new \<and> map jrAttempt new = [1, 2])"
proof -
  have m: "attempts_made (nat (jbMaxRetries demo_job + 1)) (run_ok demo_inputs) = 2" by code_simp
  have "[0..<2] = [0, Suc 0]" by (simp add: upt_rec)
  with job_attempts [of "\<lambda>_. True" demo_job demo_inputs demo_run "[]"] show ?thesis
    unfolding m by (simp add: demo_inputs_def Let_def) (simp add: demo_run_def)
qed

definition demo_hook :: go_value where
  "demo_hook = VStruct [VString ''ci'', VString ''/hooks/ci'', VString ''Look: {{.Payload}}'', VString ''ann'', VString [], VString ''telegram'',
     VMap None, VString ''key'', VString [], VInt 0]"

definition hooked :: engine where
  "hooked = \<lparr>enParent = True, enContext = 1, enLive = True, enRoutes = [(''/hooks/ci'', demo_hook, 1)], enCron = [], enBeats = []\<rparr>"

definition plain_engine :: engine_env where
  "plain_engine = \<lparr>eeDuration = (\<lambda>_. Some minute), eeDurationError = (\<lambda>_. []), eeCron = (\<lambda>_. None), eeRefuses = (\<lambda>_ _. False)\<rparr>"

definition signed_request :: hook_request where
  "signed_request = \<lparr>hqMethod = ''POST'', hqBody = ''ok'', hqSignature = ''sha256='' @ hex_encode ''keyok''\<rparr>"

lemma hex_digits_nonempty: "s \<noteq> [] \<Longrightarrow> hex_encode s \<noteq> []"
  by (cases s) simp_all

lemma signed_fields:
  "hqMethod signed_request = ''POST''" "take 65536 (hqBody signed_request) = ''ok''"
  "\<exists>d. hqSignature signed_request = ''sha256='' @ d \<and> hex_decode d = Some (''key'' @ ''ok'') \<and> d \<noteq> []"
  by (simp_all add: signed_request_def hex_roundtrip hex_digits_nonempty del: hex_encode.simps)

lemma demo_route: "map_of (enRoutes hooked) ''/hooks/ci'' = Some (demo_hook, 1)" "str_of (hook_get ''secret'' demo_hook) = ''key''"
  by (simp add: hooked_def) code_simp

theorem hook_starts_job_witness:
  "\<exists>live j. serve_hook (\<lambda>k b. k @ b) plain_engine ''/hooks/ci'' signed_request hooked = (HookAccepted, Some (j, live)) \<and>
    jbPrompt j = ''Look: ok'' \<and> (\<forall>h. tier_of (job_message j (aiRun (demo_inputs 0))) h = TrustTierOwner)"
proof -
  let ?j = "hook_job (eeDuration plain_engine) ''ok'' demo_hook"
  have p: "jbPrompt ?j = ''Look: ok''" by code_simp
  note t = hook_starts_job [OF demo_route(1) signed_fields(1), of "\<lambda>k b. k @ b" plain_engine "''ok''" "aiRun (demo_inputs 0)",
      unfolded signed_fields(2) demo_route(2) Let_def]
  from t signed_fields(3) have "\<exists>live. serve_hook (\<lambda>k b. k @ b) plain_engine ''/hooks/ci'' signed_request hooked = (HookAccepted, Some (?j, live))"
    by blast
  with p t show ?thesis by blast
qed

theorem routes_outlive_schedules_witness:
  "\<exists>e'. Reload plain_engine (zero_value Config_type) hooked = Some (e', None) \<and>
    fst (serve_hook (\<lambda>k b. k @ b) plain_engine ''/hooks/ci'' signed_request e') = HookAccepted"
proof -
  have c: "1 \<le> enContext hooked" by (simp add: hooked_def)
  have "jobs_of (zero_value Config_type) = []" "hooks_of (zero_value Config_type) = []" "beats_of (zero_value Config_type) = []"
    by code_simp+
  then obtain e' where e': "Reload plain_engine (zero_value Config_type) hooked = Some (e', None)"
    by (simp add: Reload_def startLocked_def Let_def stopLocked_def hooked_def)
  have "verifyHMAC (\<lambda>k b. k @ b) ''key'' ''ok'' (hqSignature signed_request)" unfolding verifyHMAC_spec by (rule signed_fields(3))
  then have "fst (hook_handler (\<lambda>k b. k @ b) (eeDuration plain_engine) demo_hook signed_request) = HookAccepted"
    by (simp add: hook_handler_def Let_def signed_fields(1,2) demo_route(2))
  with routes_outlive_schedules [OF demo_route(1) c e', of "\<lambda>k b. k @ b" signed_request] e' show ?thesis
    by (simp split: prod.splits)
qed

end
