(* ===== verification/CronTools.thy ===== *)
theory CronTools
  imports Proactive "HOL-Library.Sublist"
begin

text \<open>
  The coordinator's tools for schedules (\<open>internal/tools/proactive.go\<close>): listing, adding, changing and
  deleting cron jobs, webhooks and heartbeats.  A change is made in the configuration, saved to the disk, and
  then the engine is reloaded.
\<close>

section \<open>State and saving\<close>

record cron_tools =
  ctConfig :: go_value
  ctEngine :: "engine option"
  ctDisk :: disk

text \<open>A call returns an error or a message, or ends in a panic.\<close>

datatype tool_outcome = Returned cron_tools "string go_result" | Panicked cron_tools

record cron_env =
  ceEngine :: engine_env
  ceFile :: fpath

definition reload :: "cron_env \<Rightarrow> string \<Rightarrow> cron_tools \<Rightarrow> tool_outcome" where
  "reload env msg s =
     (case ctEngine s of
        None \<Rightarrow> Returned s (Inr msg)
      | Some e \<Rightarrow>
          (case Reload (ceEngine env) (ctConfig s) e of
             None \<Rightarrow> Panicked s
           | Some (e1, Some err) \<Rightarrow> Returned (s\<lparr>ctEngine := Some e1\<rparr>) (Inl (''reload engine: '' @ err))
           | Some (e1, None) \<Rightarrow> Returned (s\<lparr>ctEngine := Some e1\<rparr>) (Inr msg)))"

definition saveAndReload :: "cron_env \<Rightarrow> string \<Rightarrow> cron_tools \<Rightarrow> tool_outcome" where
  "saveAndReload env msg s =
     (case Save (ceFile env) (ctConfig s) (ctDisk s) of
        (d, Some e) \<Rightarrow> Returned (s\<lparr>ctDisk := d\<rparr>) (Inl (''save config: '' @ e))
      | (d, None) \<Rightarrow> reload env msg (s\<lparr>ctDisk := d\<rparr>))"

text \<open>The three lists: the name of the list, the type of its elements, and the word for it.\<close>

datatype schedule_kind = CronKind | WebhookKind | HeartbeatKind

fun kind_field :: "schedule_kind \<Rightarrow> string" where
  "kind_field CronKind = ''jobs''" | "kind_field WebhookKind = ''webhooks''" | "kind_field HeartbeatKind = ''heartbeats''"

fun kind_type :: "schedule_kind \<Rightarrow> go_type" where
  "kind_type CronKind = CronJobConfig_type" | "kind_type WebhookKind = WebhookConfig_type" | "kind_type HeartbeatKind = HeartbeatConfig_type"

fun kind_word :: "schedule_kind \<Rightarrow> string" where
  "kind_word CronKind = ''cron''" | "kind_word WebhookKind = ''webhook''" | "kind_word HeartbeatKind = ''heartbeat''"

definition schedules :: "schedule_kind \<Rightarrow> go_value \<Rightarrow> go_value list" where
  "schedules k c = elements_of (cfg [''proactive'', kind_field k] c)"

definition set_schedules :: "schedule_kind \<Rightarrow> go_value list \<Rightarrow> go_value \<Rightarrow> go_value" where
  "set_schedules k vs c = set_at [''proactive'', kind_field k] (VList (Some vs)) Config_type c"

definition field :: "schedule_kind \<Rightarrow> string \<Rightarrow> go_value \<Rightarrow> string" where
  "field k n v = str_of (get_at [n] (kind_type k) v)"

section \<open>Listing\<close>

record schedule_entry =
  seName :: string
  seType :: string
  seSchedule :: string
  seInterval :: string
  sePath :: string
  sePrompt :: string
  seChannel :: string

definition entry_of :: "schedule_kind \<Rightarrow> go_value \<Rightarrow> schedule_entry" where
  "entry_of k v =
     \<lparr>seName = field k ''name'' v, seType = kind_word k,
      seSchedule = (if k = CronKind then field k ''schedule'' v else []),
      seInterval = (if k = HeartbeatKind then field k ''interval'' v else []),
      sePath = (if k = WebhookKind then field k ''path'' v else []),
      sePrompt = field k ''prompt'' v, seChannel = field k ''channel'' v\<rparr>"

definition schedule_list :: "go_value \<Rightarrow> schedule_entry list" where
  "schedule_list c = concat (map (\<lambda>k. map (entry_of k) (schedules k c)) [CronKind, WebhookKind, HeartbeatKind])"

definition nameExists :: "string \<Rightarrow> go_value \<Rightarrow> bool" where
  "nameExists name c \<longleftrightarrow> list_ex (\<lambda>k. list_ex (\<lambda>v. field k ''name'' v = name) (schedules k c)) [CronKind, WebhookKind, HeartbeatKind]"

section \<open>Adding\<close>

record cron_add_request =
  caType :: string
  caName :: string
  caSchedule :: string
  caInterval :: string
  caPath :: string
  caPrompt :: string
  caChannel :: string
  caUserID :: string
  caSessionID :: string
  caMetadata :: "(string \<times> json) list option"
  caTimeout :: string
  caMaxRetries :: int
  caSecret :: string

definition metadata_value :: "(string \<times> json) list option \<Rightarrow> go_value" where
  "metadata_value m = VMap (map_option (map (\<lambda>(k, j). (k, VAny j))) m)"

definition cron_value :: "cron_add_request \<Rightarrow> go_value" where
  "cron_value r = VStruct [VString (caName r), VString (caSchedule r), VString (caPrompt r), VString (caUserID r),
     VString (caSessionID r), VString (caChannel r), metadata_value (caMetadata r), VString (caTimeout r), VInt (caMaxRetries r)]"

definition hook_value :: "cron_add_request \<Rightarrow> go_value" where
  "hook_value r = VStruct [VString (caName r), VString (caPath r), VString (caPrompt r), VString (caUserID r),
     VString (caSessionID r), VString (caChannel r), metadata_value (caMetadata r), VString (caSecret r), VString (caTimeout r),
     VInt (caMaxRetries r)]"

definition beat_value :: "cron_add_request \<Rightarrow> go_value" where
  "beat_value r = VStruct [VString (caName r), VString (caInterval r), VString (caPrompt r), VString (caUserID r),
     VString (caSessionID r), VString (caChannel r), metadata_value (caMetadata r), VString (caTimeout r), VInt (caMaxRetries r)]"

definition add_value :: "cron_env \<Rightarrow> cron_add_request \<Rightarrow> (schedule_kind \<times> go_value) go_result" where
  "add_value env r =
     (if caType r = ''cron'' then
        (if caSchedule r = [] then Inl ''schedule is required for type=cron''
         else (case eeCron (ceEngine env) (caSchedule r) of
                 Some e \<Rightarrow> Inl (''invalid cron schedule '' @ quote (caSchedule r) @ '': '' @ e)
               | None \<Rightarrow> Inr (CronKind, cron_value r)))
      else if caType r = ''webhook'' then
        (if caPath r = [] then Inl ''path is required for type=webhook'' else Inr (WebhookKind, hook_value r))
      else if caType r = ''heartbeat'' then
        (if caInterval r = [] then Inl ''interval is required for type=heartbeat''
         else (case eeDuration (ceEngine env) (caInterval r) of
                 None \<Rightarrow> Inl (''invalid interval '' @ quote (caInterval r) @ '': '' @ eeDurationError (ceEngine env) (caInterval r))
               | Some _ \<Rightarrow> Inr (HeartbeatKind, beat_value r)))
      else Inl ''type must be cron, webhook, or heartbeat'')"

definition cron_add :: "cron_env \<Rightarrow> cron_add_request \<Rightarrow> cron_tools \<Rightarrow> tool_outcome" where
  "cron_add env r s =
     (if caName r = [] then Returned s (Inl ''name is required'')
      else if nameExists (caName r) (ctConfig s) then Returned s (Inl (''schedule '' @ quote (caName r) @ '' already exists''))
      else (case add_value env r of
              Inl e \<Rightarrow> Returned s (Inl e)
            | Inr (k, v) \<Rightarrow>
                saveAndReload env (''Added '' @ caType r @ '' schedule '' @ quote (caName r))
                  (s\<lparr>ctConfig := set_schedules k (schedules k (ctConfig s) @ [v]) (ctConfig s)\<rparr>)))"

section \<open>Changing and deleting\<close>

record cron_update_request =
  cuName :: string
  cuSchedule :: string
  cuInterval :: string
  cuPath :: string
  cuPrompt :: string
  cuChannel :: string
  cuUserID :: string
  cuSessionID :: string
  cuMetadata :: "(string \<times> json) list option"
  cuTimeout :: string
  cuMaxRetries :: "int option"

definition put_string :: "schedule_kind \<Rightarrow> string \<Rightarrow> string \<Rightarrow> go_value \<Rightarrow> go_value" where
  "put_string k n x v = (if x = [] then v else set_at [n] (VString x) (kind_type k) v)"

fun kind_trigger :: "schedule_kind \<Rightarrow> string \<times> (cron_update_request \<Rightarrow> string)" where
  "kind_trigger CronKind = (''schedule'', cuSchedule)"
| "kind_trigger WebhookKind = (''path'', cuPath)"
| "kind_trigger HeartbeatKind = (''interval'', cuInterval)"

definition updated :: "schedule_kind \<Rightarrow> cron_update_request \<Rightarrow> go_value \<Rightarrow> go_value" where
  "updated k r v =
     (let v1 = put_string k (fst (kind_trigger k)) (snd (kind_trigger k) r) v;
          v2 = put_string k ''session_id'' (cuSessionID r) (put_string k ''user_id'' (cuUserID r)
                 (put_string k ''channel'' (cuChannel r) (put_string k ''prompt'' (cuPrompt r) v1)));
          v3 = (if cuMetadata r = None then v2 else set_at [''metadata''] (metadata_value (cuMetadata r)) (kind_type k) v2);
          v4 = put_string k ''timeout'' (cuTimeout r) v3
      in case cuMaxRetries r of None \<Rightarrow> v4 | Some i \<Rightarrow> set_at [''max_retries''] (VInt i) (kind_type k) v4)"

definition update_refused :: "cron_env \<Rightarrow> schedule_kind \<Rightarrow> cron_update_request \<Rightarrow> string option" where
  "update_refused env k r =
     (case k of
        CronKind \<Rightarrow>
          if cuSchedule r = [] then None
          else map_option (\<lambda>e. ''invalid cron schedule '' @ quote (cuSchedule r) @ '': '' @ e) (eeCron (ceEngine env) (cuSchedule r))
      | WebhookKind \<Rightarrow> None
      | HeartbeatKind \<Rightarrow>
          if cuInterval r = [] \<or> eeDuration (ceEngine env) (cuInterval r) \<noteq> None then None
          else Some (''invalid interval '' @ quote (cuInterval r) @ '': '' @ eeDurationError (ceEngine env) (cuInterval r)))"

text \<open>The first schedule of a name, with its kind and the schedules before and after it.\<close>

fun split_first :: "('a \<Rightarrow> bool) \<Rightarrow> 'a list \<Rightarrow> ('a list \<times> 'a \<times> 'a list) option" where
  "split_first P [] = None"
| "split_first P (x # xs) =
     (if P x then Some ([], x, xs) else map_option (\<lambda>(a, y, b). (x # a, y, b)) (split_first P xs))"

definition find_schedule :: "string \<Rightarrow> go_value \<Rightarrow> (schedule_kind \<times> go_value list \<times> go_value \<times> go_value list) option" where
  "find_schedule name c =
     (let at = (\<lambda>k. map_option (Pair k) (split_first (\<lambda>v. field k ''name'' v = name) (schedules k c))) in
      case at CronKind of
        Some x \<Rightarrow> Some x
      | None \<Rightarrow> (case at WebhookKind of Some x \<Rightarrow> Some x | None \<Rightarrow> at HeartbeatKind))"

definition not_found :: "string \<Rightarrow> string" where
  "not_found name = ''schedule '' @ quote name @ '' not found''"

definition cron_update :: "cron_env \<Rightarrow> cron_update_request \<Rightarrow> cron_tools \<Rightarrow> tool_outcome" where
  "cron_update env r s =
     (if cuName r = [] then Returned s (Inl ''name is required'')
      else (case find_schedule (cuName r) (ctConfig s) of
              None \<Rightarrow> Returned s (Inl (not_found (cuName r)))
            | Some (k, a, v, b) \<Rightarrow>
                (case update_refused env k r of
                   Some e \<Rightarrow> Returned s (Inl e)
                 | None \<Rightarrow>
                     saveAndReload env (''Updated '' @ kind_word k @ '' schedule '' @ quote (cuName r))
                       (s\<lparr>ctConfig := set_schedules k (a @ updated k r v # b) (ctConfig s)\<rparr>))))"

definition cron_delete :: "cron_env \<Rightarrow> string \<Rightarrow> cron_tools \<Rightarrow> tool_outcome" where
  "cron_delete env name s =
     (if name = [] then Returned s (Inl ''name is required'')
      else (case find_schedule name (ctConfig s) of
              None \<Rightarrow> Returned s (Inl (not_found name))
            | Some (k, a, v, b) \<Rightarrow>
                saveAndReload env (''Updated '' @ kind_word k @ '' schedule '' @ quote name)
                  (s\<lparr>ctConfig := set_schedules k (a @ b) (ctConfig s)\<rparr>)))"

section \<open>Sequences of calls\<close>

datatype cron_op = AddOp cron_add_request | UpdateOp cron_update_request | DeleteOp string

fun run_op :: "cron_env \<Rightarrow> cron_op \<Rightarrow> cron_tools \<Rightarrow> tool_outcome" where
  "run_op env (AddOp r) s = cron_add env r s"
| "run_op env (UpdateOp r) s = cron_update env r s"
| "run_op env (DeleteOp n) s = cron_delete env n s"

fun outcome_state :: "tool_outcome \<Rightarrow> cron_tools" where
  "outcome_state (Returned s _) = s" | "outcome_state (Panicked s) = s"

fun run_ops :: "cron_env \<Rightarrow> cron_op list \<Rightarrow> cron_tools \<Rightarrow> cron_tools" where
  "run_ops env [] s = s"
| "run_ops env (op # ops) s =
     (case run_op env op s of Returned s1 _ \<Rightarrow> run_ops env ops s1 | Panicked s1 \<Rightarrow> s1)"

section \<open>Fields that are set\<close>

definition slot :: "(string \<times> bool \<times> go_type) list \<Rightarrow> go_value list \<Rightarrow> string \<Rightarrow> (go_type \<times> go_value) option" where
  "slot fs vs n = map_of (map (\<lambda>((m, o', t), v). (m, (t, v))) (zip fs vs)) n"

lemma get_slot: "get_at (n # ns) (TStruct fs) (VStruct vs) = (case slot fs vs n of Some (t, v) \<Rightarrow> get_at ns t v | None \<Rightarrow> VAny JNull)"
  by (simp add: slot_def)

lemma slot_set:
  "slot fs (map (\<lambda>((m, o', t), v). if m = n then set_at ns x t v else v) (zip fs vs)) k =
     map_option (\<lambda>(t, v). (t, if k = n then set_at ns x t v else v)) (slot fs vs k)"
proof (induction fs vs rule: list_induct2')
  case (4 f fs v vs)
  then show ?case by (cases f) (auto simp: slot_def)
qed (simp_all add: slot_def)

lemma set_other_field [simp]: "n \<noteq> m \<Longrightarrow> get_at [n] (TStruct fs) (set_at [m] x (TStruct fs) v) = get_at [n] (TStruct fs) v"
  by (cases v) (simp_all add: get_slot slot_set split: option.split del: get_at.simps(2))

text \<open>The configuration has its section of schedules, with the four fields.\<close>

definition placed :: "go_value \<Rightarrow> bool" where
  "placed c \<longleftrightarrow>
     (case c of
        VStruct vs \<Rightarrow>
          (case Config_type of
             TStruct fs \<Rightarrow> (case slot fs vs ''proactive'' of
                              Some (t, VStruct ws) \<Rightarrow> t = ProactiveConfig_type \<and> length ws = 4 | _ \<Rightarrow> False)
           | _ \<Rightarrow> False)
      | _ \<Rightarrow> False)"

lemma four: "length ws = 4 \<longleftrightarrow> (\<exists>a b c d. ws = [a, b, c, d])"
  by (auto simp: length_Suc_conv eval_nat_numeral)

lemma placedE:
  assumes "placed c"
  obtains fs vs a b e d where "c = VStruct vs" "Config_type = TStruct fs" "slot fs vs ''proactive'' = Some (ProactiveConfig_type, VStruct [a, b, e, d])"
  using assms unfolding placed_def four by (auto split: go_value.splits go_type.splits option.splits)

lemma kind_fields: "get_at [kind_field k] ProactiveConfig_type (VStruct [a, b, e, d]) = (case k of CronKind \<Rightarrow> a | WebhookKind \<Rightarrow> b | HeartbeatKind \<Rightarrow> e)"
  "set_at [kind_field k] x ProactiveConfig_type (VStruct [a, b, e, d]) =
     VStruct (case k of CronKind \<Rightarrow> [x, b, e, d] | WebhookKind \<Rightarrow> [a, x, e, d] | HeartbeatKind \<Rightarrow> [a, b, x, d])"
  by (cases k; simp add: ProactiveConfig_type_def)+

lemma schedules_set:
  assumes "placed c"
  shows "placed (set_schedules k vs c)" "schedules k' (set_schedules k vs c) = (if k' = k then vs else schedules k' c)"
proof -
  obtain fs ws a b e d where c: "c = VStruct ws" "Config_type = TStruct fs" "slot fs ws ''proactive'' = Some (ProactiveConfig_type, VStruct [a, b, e, d])"
    by (rule placedE [OF assms])
  let ?p = "set_at [kind_field k] (VList (Some vs)) ProactiveConfig_type (VStruct [a, b, e, d])"
  let ?us = "map (\<lambda>((m, o', t), v). if m = ''proactive'' then set_at [kind_field k] (VList (Some vs)) t v else v) (zip fs ws)"
  have us: "set_schedules k vs c = VStruct ?us" unfolding set_schedules_def c(1,2) by simp
  have s: "slot fs ?us ''proactive'' = Some (ProactiveConfig_type, ?p)" unfolding slot_set c(3) by simp
  show "placed (set_schedules k vs c)" unfolding placed_def us c(2) go_value.case go_type.case s kind_fields(2) by (cases k) simp_all
  have "get_at [''proactive'', kind_field k'] Config_type (VStruct ?us) =
      (if k' = k then VList (Some vs) else get_at [kind_field k'] ProactiveConfig_type (VStruct [a, b, e, d]))"
    unfolding c(2) get_slot s kind_fields by (cases k; cases k') (simp_all add: ProactiveConfig_type_def)
  moreover have "get_at [''proactive'', kind_field k'] Config_type c = get_at [kind_field k'] ProactiveConfig_type (VStruct [a, b, e, d])"
    unfolding c(1,2) get_slot c(3) by simp
  ultimately show "schedules k' (set_schedules k vs c) = (if k' = k then vs else schedules k' c)"
    unfolding schedules_def cfg_def us by (simp add: elements_of_def del: get_at.simps)
qed

lemma typed_placed:
  assumes "typed cn Config_type c"
  shows "placed c"
proof -
  obtain vs fs where vs: "c = VStruct vs" "Config_type = TStruct fs" "list_all2 (\<lambda>f. f) (map (\<lambda>(n, o', t). typed cn t) fs) vs"
    using assms by (auto simp: Config_type_def split: go_value.splits)
  have "\<exists>v. slot fs vs n = Some (t, v) \<and> typed cn t v"
    if "list_all2 (\<lambda>f. f) (map (\<lambda>(n, o', t). typed cn t) fs) vs" "map_of (map (\<lambda>(m, o', t). (m, t)) fs) n = Some t" for n t fs vs
    using that by (induction fs vs rule: list_induct2') (auto simp: slot_def split: if_splits)
  moreover have "map_of (map (\<lambda>(m, o', t). (m, t)) fs) ''proactive'' = Some ProactiveConfig_type"
    using vs(2) [symmetric] by (simp add: Config_type_def)
  ultimately obtain v where v: "slot fs vs ''proactive'' = Some (ProactiveConfig_type, v)" "typed cn ProactiveConfig_type v" using vs(3) by blast
  obtain gs where gs: "ProactiveConfig_type = TStruct gs" "length gs = 4" by (simp add: ProactiveConfig_type_def)
  obtain ws where "v = VStruct ws" "list_all2 (\<lambda>f. f) (map (\<lambda>(n, o', t). typed cn t) gs) ws"
    using v(2) unfolding gs(1) by (cases v) simp_all
  moreover from list_all2_lengthD [OF this(2)] gs(2) have "length ws = 4" by simp
  ultimately have "v = VStruct ws" "length ws = 4" by blast+
  with v show ?thesis unfolding placed_def vs(1,2) by simp
qed

section \<open>Schedules by name\<close>

definition kinds :: "schedule_kind list" where "kinds = [CronKind, WebhookKind, HeartbeatKind]"

definition named :: "go_value \<Rightarrow> (string \<times> schedule_kind \<times> go_value) list" where
  "named c = concat (map (\<lambda>k. map (\<lambda>v. (field k ''name'' v, k, v)) (schedules k c)) kinds)"

definition schedule_map :: "go_value \<Rightarrow> string \<rightharpoonup> schedule_kind \<times> go_value" where
  "schedule_map c n = map_option (\<lambda>(k, a, v, b). (k, v)) (find_schedule n c)"

lemma split_first_spec:
  "split_first P xs = Some (a, x, b) \<Longrightarrow> xs = a @ x # b \<and> P x \<and> (\<forall>y \<in> set a. \<not> P y)"
  "split_first P xs = None \<Longrightarrow> \<forall>y \<in> set xs. \<not> P y"
proof -
  show "split_first P xs = Some (a, x, b) \<Longrightarrow> xs = a @ x # b \<and> P x \<and> (\<forall>y \<in> set a. \<not> P y)"
    by (induction xs arbitrary: a) (auto split: if_splits)
  show "split_first P xs = None \<Longrightarrow> \<forall>y \<in> set xs. \<not> P y" by (induction xs) (auto split: if_splits)
qed

definition row :: "go_value \<Rightarrow> schedule_kind \<Rightarrow> (string \<times> schedule_kind \<times> go_value) list" where
  "row c k = map (\<lambda>v. (field k ''name'' v, k, v)) (schedules k c)"

fun kinds_before :: "schedule_kind \<Rightarrow> schedule_kind list" where
  "kinds_before CronKind = []" | "kinds_before WebhookKind = [CronKind]" | "kinds_before HeartbeatKind = [CronKind, WebhookKind]"

fun kinds_after :: "schedule_kind \<Rightarrow> schedule_kind list" where
  "kinds_after CronKind = [WebhookKind, HeartbeatKind]" | "kinds_after WebhookKind = [HeartbeatKind]" | "kinds_after HeartbeatKind = []"

lemma named_rows: "named c = concat (map (row c) (kinds_before k)) @ row c k @ concat (map (row c) (kinds_after k))"
  by (cases k) (simp_all add: named_def row_def kinds_def)

lemma named_set:
  assumes "placed c"
  shows "named (set_schedules k vs c) =
    concat (map (row c) (kinds_before k)) @ map (\<lambda>v. (field k ''name'' v, k, v)) vs @ concat (map (row c) (kinds_after k))"
  by (cases k) (simp_all add: named_rows [of _ k] row_def schedules_set(2) [OF assms])

lemma find_split:
  assumes "find_schedule n c = Some (k, a, v, b)"
  shows "split_first (\<lambda>v. field k ''name'' v = n) (schedules k c) = Some (a, v, b) \<and>
    (\<forall>j \<in> set (kinds_before k). split_first (\<lambda>v. field j ''name'' v = n) (schedules j c) = None)"
  using assms by (simp only: find_schedule_def Let_def) (auto split: option.splits)

lemma find_none:
  assumes "find_schedule n c = None"
  shows "n \<notin> fst ` set (named c)"
proof -
  have "split_first (\<lambda>v. field k ''name'' v = n) (schedules k c) = None" for k
    using assms by (cases k) (simp only: find_schedule_def Let_def, auto split: option.splits)+
  then have "\<forall>v \<in> set (schedules k c). field k ''name'' v \<noteq> n" for k using split_first_spec(2) by blast
  then show ?thesis by (force simp: named_def kinds_def)
qed

lemma find_named:
  assumes "find_schedule n c = Some (k, a, v, b)"
  obtains A B where "named c = A @ (n, k, v) # B" "n \<notin> fst ` set A" "schedules k c = a @ v # b" "field k ''name'' v = n"
    "\<And>w. placed c \<Longrightarrow> named (set_schedules k (a @ w # b) c) = A @ (field k ''name'' w, k, w) # B"
    "placed c \<Longrightarrow> named (set_schedules k (a @ b) c) = A @ B"
proof -
  note f = find_split [OF assms]
  have s: "schedules k c = a @ v # b" "field k ''name'' v = n" "\<forall>y \<in> set a. field k ''name'' y \<noteq> n"
    using split_first_spec(1) [of _ "schedules k c" a v b] f by blast+
  let ?A = "concat (map (row c) (kinds_before k)) @ map (\<lambda>v. (field k ''name'' v, k, v)) a"
  let ?B = "map (\<lambda>v. (field k ''name'' v, k, v)) b @ concat (map (row c) (kinds_after k))"
  have "n \<notin> fst ` set (row c j)" if "j \<in> set (kinds_before k)" for j
  proof -
    from f that have "split_first (\<lambda>v. field j ''name'' v = n) (schedules j c) = None" by blast
    from split_first_spec(2) [OF this] show ?thesis by (auto simp: row_def)
  qed
  then have "n \<notin> fst ` set ?A" using s(3) by auto
  moreover have "named c = ?A @ (n, k, v) # ?B" using s by (simp add: named_rows [of c k] row_def)
  moreover have "placed c \<Longrightarrow> named (set_schedules k (a @ w # b) c) = ?A @ (field k ''name'' w, k, w) # ?B" for w by (simp add: named_set)
  moreover have "placed c \<Longrightarrow> named (set_schedules k (a @ b) c) = ?A @ ?B" by (simp add: named_set)
  ultimately show thesis using s that [of ?A ?B] by blast
qed

section \<open>What a call changes\<close>

text \<open>The specification: a call changes the schedule it names, or nothing.\<close>

fun op_map :: "cron_env \<Rightarrow> cron_op \<Rightarrow> (string \<rightharpoonup> schedule_kind \<times> go_value) \<Rightarrow> string \<rightharpoonup> schedule_kind \<times> go_value" where
  "op_map env (AddOp r) m =
     (if caName r = [] \<or> m (caName r) \<noteq> None then m
      else (case add_value env r of Inl _ \<Rightarrow> m | Inr kv \<Rightarrow> m(caName r \<mapsto> kv)))"
| "op_map env (UpdateOp r) m =
     (case m (cuName r) of
        None \<Rightarrow> m
      | Some (k, v) \<Rightarrow> if cuName r = [] \<or> update_refused env k r \<noteq> None then m else m(cuName r \<mapsto> (k, updated k r v)))"
| "op_map env (DeleteOp n) m = (if n = [] then m else m(n := None))"

definition names_unique :: "go_value \<Rightarrow> bool" where
  "names_unique c \<longleftrightarrow> distinct (map fst (named c))"

lemma schedule_map_named: "names_unique c \<Longrightarrow> schedule_map c = map_of (named c)"
proof
  fix n
  show "schedule_map c n = map_of (named c) n"
  proof (cases "find_schedule n c")
    case None
    have "map_of (named c) n = None" using find_none [OF None] by (simp add: map_of_eq_None_iff)
    then show ?thesis using None by (simp add: schedule_map_def)
  next
    case (Some x)
    obtain k a v b where x: "x = (k, a, v, b)" by (cases x)
    obtain A B where "named c = A @ (n, k, v) # B" "n \<notin> fst ` set A" using find_named [OF Some [unfolded x]] by metis
    moreover from this(2) have "map_of A n = None" by (simp add: map_of_eq_None_iff)
    ultimately have "map_of (named c) n = Some (k, v)" by (simp add: map_add_def)
    then show ?thesis by (simp add: schedule_map_def Some x)
  qed
qed

lemma name_exists_map: "nameExists n c \<longleftrightarrow> schedule_map c n \<noteq> None"
proof -
  have "nameExists n c \<longleftrightarrow> n \<in> fst ` set (named c)" by (force simp: nameExists_def named_def kinds_def list_ex_iff)
  moreover have "n \<in> fst ` set (named c)" if f: "find_schedule n c = Some (k, a, v, b)" for k a v b
    by (rule find_named [OF f]) simp
  ultimately show ?thesis using find_none [of n c] by (cases "find_schedule n c") (auto simp: schedule_map_def)
qed

lemma saved_config: "ctConfig (outcome_state (saveAndReload env msg s)) = ctConfig s"
  by (auto simp: saveAndReload_def reload_def split: prod.splits option.splits)

lemma added_name: "add_value env r = Inr (k, v) \<Longrightarrow> field k ''name'' v = caName r"
  by (auto simp: add_value_def cron_value_def hook_value_def beat_value_def field_def CronJobConfig_type_def WebhookConfig_type_def
      HeartbeatConfig_type_def split: if_splits option.splits)

lemma kind_struct: "\<exists>fs. kind_type k = TStruct fs"
  by (cases k) (simp_all add: CronJobConfig_type_def WebhookConfig_type_def HeartbeatConfig_type_def)

lemma updated_name: "field k ''name'' (updated k r v) = field k ''name'' v"
proof -
  obtain fs where fs: "kind_type k = TStruct fs" using kind_struct by blast
  show ?thesis unfolding field_def updated_def put_string_def Let_def fs by (cases k) (simp_all split: option.split)
qed

lemma map_of_insert: "n \<notin> fst ` set (A @ B) \<Longrightarrow> map_of (A @ (n, x) # B) = (map_of (A @ B))(n \<mapsto> x)"
  by (induction A) (auto simp: fun_upd_twist)

lemma map_of_replace: "distinct (map fst (A @ (n, x) # B)) \<Longrightarrow> map_of (A @ (n, y) # B) = (map_of (A @ (n, x) # B))(n \<mapsto> y)"
  using map_of_insert [of n A B] by (simp add: image_Un)

lemma map_of_remove: "distinct (map fst (A @ (n, x) # B)) \<Longrightarrow> map_of (A @ B) = (map_of (A @ (n, x) # B))(n := None)"
  using map_of_insert [of n A B x] map_of_eq_None_iff [of "A @ B" n] by (auto simp: image_Un fun_eq_iff)

lemma unchanged_config: "ctConfig (outcome_state (Returned s x)) = ctConfig s" by simp

lemma op_refines:
  assumes p: "placed (ctConfig s)" and u: "names_unique (ctConfig s)"
  shows "let c' = ctConfig (outcome_state (run_op env op s)) in
    placed c' \<and> names_unique c' \<and> schedule_map c' = op_map env op (schedule_map (ctConfig s))"
proof -
  let ?c = "ctConfig s"
  note m = schedule_map_named [OF u]
  have fin: ?thesis if "ctConfig (outcome_state (run_op env op s)) = c'" "placed c'" "names_unique c'" "map_of (named c') = op_map env op (map_of (named ?c))" for c'
    using that m schedule_map_named [OF that(3)] by (simp add: Let_def)
  show ?thesis
  proof (cases op)
    case (AddOp r)
    show ?thesis
    proof (cases "caName r = [] \<or> nameExists (caName r) ?c \<or> is_err (add_value env r)")
      case True
      then show ?thesis using AddOp p u
        by (intro fin [of ?c]) (auto simp: cron_add_def name_exists_map m split: sum.splits)
    next
      case False
      then obtain k v where kv: "add_value env r = Inr (k, v)" by (cases "add_value env r") auto
      let ?c' = "set_schedules k (schedules k ?c @ [v]) ?c"
      let ?A = "concat (map (row ?c) (kinds_before k)) @ row ?c k" and ?B = "concat (map (row ?c) (kinds_after k))"
      have n': "named ?c' = ?A @ (caName r, k, v) # ?B" using named_set [OF p, of k "schedules k ?c @ [v]"] added_name [OF kv] by (simp add: row_def)
      have n: "named ?c = ?A @ ?B" using named_rows [of ?c k] by simp
      have "map_of (named ?c) (caName r) = None" using False name_exists_map [of "caName r" ?c] unfolding m by blast
      then have new: "caName r \<notin> fst ` set (?A @ ?B)" unfolding n map_of_eq_None_iff .
      have "map_of (named ?c') = (map_of (named ?c))(caName r \<mapsto> (k, v))" unfolding n n' by (rule map_of_insert [OF new])
      moreover have "names_unique ?c'" using u new unfolding names_unique_def n n' by auto
      moreover have "run_op env op s = saveAndReload env (''Added '' @ caType r @ '' schedule '' @ quote (caName r)) (s\<lparr>ctConfig := ?c'\<rparr>)"
        using AddOp False kv by (simp add: cron_add_def)
      ultimately show ?thesis using AddOp False kv schedules_set(1) [OF p] m
        by (intro fin [of ?c']) (simp_all add: saved_config name_exists_map)
    qed
  next
    case (UpdateOp r)
    show ?thesis
    proof (cases "find_schedule (cuName r) ?c")
      case None
      then show ?thesis using UpdateOp p u m
        by (intro fin [of ?c]) (auto simp: cron_update_def schedule_map_def split: option.split dest: fun_cong [of _ _ "cuName r"])
    next
      case (Some x)
      obtain k a v b where x: "x = (k, a, v, b)" by (cases x)
      have mv: "map_of (named ?c) (cuName r) = Some (k, v)" using Some x m by (metis (no_types, lifting) case_prod_conv option.simps(9) schedule_map_def)
      obtain A B where ab: "named ?c = A @ (cuName r, k, v) # B" "field k ''name'' v = cuName r"
        "\<And>w. named (set_schedules k (a @ w # b) ?c) = A @ (field k ''name'' w, k, w) # B"
        using find_named [OF Some [unfolded x]] p by metis
      show ?thesis
      proof (cases "cuName r = [] \<or> update_refused env k r \<noteq> None")
        case True
        then show ?thesis using UpdateOp p u Some x mv by (intro fin [of ?c]) (auto simp: cron_update_def)
      next
        case False
        let ?c' = "set_schedules k (a @ updated k r v # b) ?c"
        have n': "named ?c' = A @ (cuName r, k, updated k r v) # B" using ab(2,3) by (simp add: updated_name)
        have "map_of (named ?c') = (map_of (named ?c))(cuName r \<mapsto> (k, updated k r v))"
          unfolding n' ab(1) by (rule map_of_replace) (use u in \<open>simp only: names_unique_def ab(1)\<close>)
        moreover have "names_unique ?c'" using u unfolding names_unique_def n' ab(1) by simp
        ultimately show ?thesis using UpdateOp False Some x mv schedules_set(1) [OF p]
          by (intro fin [of ?c']) (simp_all add: cron_update_def saved_config)
      qed
    qed
  next
    case (DeleteOp n)
    show ?thesis
    proof (cases "n = [] \<or> find_schedule n ?c = None")
      case True
      have "n \<noteq> [] \<Longrightarrow> map_of (named ?c) n = None" using True find_none [of n ?c] by (simp add: map_of_eq_None_iff)
      then show ?thesis using True DeleteOp p u by (intro fin [of ?c]) (auto simp: cron_delete_def fun_eq_iff)
    next
      case False
      then obtain k a v b where f: "find_schedule n ?c = Some (k, a, v, b)" by auto
      obtain A B where ab: "named ?c = A @ (n, k, v) # B" "named (set_schedules k (a @ b) ?c) = A @ B"
        using find_named [OF f] p by metis
      have "map_of (named (set_schedules k (a @ b) ?c)) = (map_of (named ?c))(n := None)"
        unfolding ab by (rule map_of_remove) (use u in \<open>simp only: names_unique_def ab(1)\<close>)
      moreover have "names_unique (set_schedules k (a @ b) ?c)" using u unfolding names_unique_def ab by simp
      ultimately show ?thesis using DeleteOp False f schedules_set(1) [OF p]
        by (intro fin [of "set_schedules k (a @ b) ?c"]) (simp_all add: cron_delete_def saved_config)
    qed
  qed
qed

text \<open>C19. A configuration with unique names keeps them under every sequence of calls, whatever fails; and each call
  makes exactly its change: it adds, changes or removes the schedule of the name it was given, or refuses and
  changes nothing.  An error of saving or of the reload does not undo the change.
\<close>

theorem schedules_refine:
  assumes "typed cn Config_type (ctConfig s)" and "names_unique (ctConfig s)"
  shows "names_unique (ctConfig (run_ops env ops s)) \<and>
    (\<exists>dn. prefix dn ops \<and>
       schedule_map (ctConfig (run_ops env ops s)) = foldl (\<lambda>m op. op_map env op m) (schedule_map (ctConfig s)) dn)"
proof -
  have "names_unique (ctConfig (run_ops env ops s)) \<and>
    (\<exists>dn. prefix dn ops \<and> schedule_map (ctConfig (run_ops env ops s)) = foldl (\<lambda>m op. op_map env op m) (schedule_map (ctConfig s)) dn)"
    if "placed (ctConfig s)" "names_unique (ctConfig s)" for s
    using that
  proof (induction ops arbitrary: s)
    case (Cons op ops)
    note r = op_refines [OF Cons.prems, of env op, unfolded Let_def]
    show ?case
    proof (cases "run_op env op s")
      case (Returned s1 x)
      then have "names_unique (ctConfig (run_ops env ops s1)) \<and>
        (\<exists>dn. prefix dn ops \<and> schedule_map (ctConfig (run_ops env ops s1)) = foldl (\<lambda>m op. op_map env op m) (schedule_map (ctConfig s1)) dn)"
        using r by (intro Cons.IH) simp_all
      then obtain dn where "names_unique (ctConfig (run_ops env ops s1))" "prefix dn ops"
        "schedule_map (ctConfig (run_ops env ops s1)) = foldl (\<lambda>m op. op_map env op m) (schedule_map (ctConfig s1)) dn" by blast
      with Returned r show ?thesis by (intro conjI exI [of _ "op # dn"]) simp_all
    next
      case (Panicked s1)
      then show ?thesis using r by (intro conjI exI [of _ "[op]"]) simp_all
    qed
  qed simp
  from this [OF typed_placed [OF assms(1)] assms(2)] show ?thesis .
qed

section \<open>Changes that take the program down\<close>

lemma kind_lists: "jobs_of c = schedules CronKind c" "hooks_of c = schedules WebhookKind c" "beats_of c = schedules HeartbeatKind c"
  by (simp_all add: jobs_of_def hooks_of_def beats_of_def schedules_def)

lemma add_jobs_ok: "add_jobs env vs e = (e', None) \<longleftrightarrow> (\<forall>v \<in> set vs. eeCron env (str_of (cron_get ''schedule'' v)) = None) \<and>
    e' = e\<lparr>enCron := enCron e @ map (\<lambda>v. (v, enContext e)) vs\<rparr>"
  by (induction env vs e rule: add_jobs.induct) (auto split: option.split)

lemma started_jobs:
  assumes "startLocked env c e = Some (e', None)"
  shows "\<forall>v \<in> set (jobs_of c). eeCron env (str_of (cron_get ''schedule'' v)) = None"
  using assms by (auto simp: startLocked_def Let_def add_jobs_ok split: prod.splits option.splits)


section \<open>A configuration with a webhook\<close>

definition add_request :: "string \<Rightarrow> string \<Rightarrow> cron_add_request" where
  "add_request ty name =
     \<lparr>caType = ty, caName = name, caSchedule = ''@daily'', caInterval = ''5m'', caPath = ''/hooks/'' @ name, caPrompt = ''go'',
      caChannel = ''telegram'', caUserID = ''ann'', caSessionID = [], caMetadata = None, caTimeout = [], caMaxRetries = 0, caSecret = []\<rparr>"

definition hooked_config :: go_value where
  "hooked_config = set_schedules WebhookKind [hook_value (add_request ''webhook'' ''ci'')] DefaultConfig"

lemma hooked_typed: "typed token_floats Config_type hooked_config"
proof -
  have t: "type_at [''proactive'', ''webhooks''] Config_type = TList WebhookConfig_type" by code_simp
  have "typed token_floats (TList WebhookConfig_type) (VList (Some [hook_value (add_request ''webhook'' ''ci'')]))"
    by (simp add: WebhookConfig_type_def hook_value_def add_request_def metadata_value_def int64_def)
  then show ?thesis unfolding hooked_config_def set_schedules_def kind_field.simps
    by (intro set_at_typed [OF good_config default_typed [OF token_floats(1)]]) (simp only: t)
qed

lemma default_schedules: "schedules k DefaultConfig = []"
proof -
  have "cfg [''proactive'', ''jobs''] DefaultConfig = VList None" "cfg [''proactive'', ''webhooks''] DefaultConfig = VList None"
    "cfg [''proactive'', ''heartbeats''] DefaultConfig = VList None" by code_simp+
  then show ?thesis by (cases k) (simp_all add: schedules_def elements_of_def)
qed

lemma hooked_schedules: "schedules k hooked_config = (if k = WebhookKind then [hook_value (add_request ''webhook'' ''ci'')] else [])"
  using schedules_set(2) [OF typed_placed [OF default_typed [OF token_floats(1)]]] by (simp add: hooked_config_def default_schedules)

lemma hooked_name: "field WebhookKind ''name'' (hook_value (add_request ''webhook'' ''ci'')) = ''ci''"
  by code_simp

lemma hooked_names: "names_unique hooked_config" "\<not> nameExists ''report'' hooked_config" "\<not> nameExists ''x'' hooked_config"
  by (simp_all add: names_unique_def named_def kinds_def hooked_schedules nameExists_def hooked_name)

definition plain_cron :: cron_env where
  "plain_cron = \<lparr>ceEngine = plain_engine, ceFile = [''home'', ''config.json'']\<rparr>"

lemma plain_save: "\<exists>d. Save (ceFile plain_cron) c [[] \<mapsto> Dir] = (d, None)"
  by (simp add: Save_def os_MkdirAll_def mkdir_blocked_def os_WriteFile_def abs_write_def prefix_def plain_cron_def)

lemma report_value: "add_value plain_cron (add_request ''cron'' ''report'') = Inr (CronKind, cron_value (add_request ''cron'' ''report''))"
  by (simp add: add_value_def add_request_def plain_cron_def plain_engine_def)

theorem schedules_refine_witness:
  "names_unique hooked_config \<and>
   names_unique (ctConfig (run_ops plain_cron [AddOp (add_request ''cron'' ''report''), DeleteOp ''ci'']
     \<lparr>ctConfig = hooked_config, ctEngine = None, ctDisk = [[] \<mapsto> Dir]\<rparr>))"
proof -
  let ?s = "\<lparr>ctConfig = hooked_config, ctEngine = None, ctDisk = [[] \<mapsto> Dir]\<rparr>"
  have "typed token_floats Config_type (ctConfig ?s)" "names_unique (ctConfig ?s)" using hooked_typed hooked_names(1) by simp_all
  from schedules_refine [OF this] hooked_names(1) show ?thesis by blast
qed


end
