(* ===== verification/SkillTools.thy ===== *)
theory SkillTools
  imports DashboardAuth GoURL
begin

text \<open>
  The specialists made from the skills (\<open>internal/agent/skills.go\<close>): lookup of skills without regard to
  case, the front matter of a skill, and the tools with their credentials that its agent is given.  The files
  of a skill, the secret store and the configuration are arguments.
\<close>

section \<open>Lookup without regard to case\<close>

text \<open>The map from lower-case names; a later skill replaces an earlier one of the same lower-case name.\<close>

definition NewCaseInsensitiveRepository :: "string list \<Rightarrow> string \<rightharpoonup> string" where
  "NewCaseInsensitiveRepository names = map_of (rev (map (\<lambda>n. (to_lower n, n)) names))"

definition skill_name :: "(string \<rightharpoonup> string) \<Rightarrow> string \<Rightarrow> string" where
  "skill_name m name = (case m (to_lower name) of Some actual \<Rightarrow> actual | None \<Rightarrow> name)"

definition repository_Get :: "(string \<Rightarrow> 'a) \<Rightarrow> (string \<rightharpoonup> string) \<Rightarrow> string \<Rightarrow> 'a" where
  "repository_Get inner m name = inner (skill_name m name)"

section \<open>Front matter\<close>

record skill_frontmatter =
  fmTools :: "string list"
  fmGuardedTools :: "string list"
  fmNotifyTools :: "string list"
  fmSecrets :: "string list"
  fmOAuthProviders :: "string list"
  fmDatabases :: "string list"
  fmBrokers :: "string list"
  fmSSHHosts :: "string list"

definition no_frontmatter :: skill_frontmatter where
  "no_frontmatter = \<lparr>fmTools = [], fmGuardedTools = [], fmNotifyTools = [], fmSecrets = [], fmOAuthProviders = [],
     fmDatabases = [], fmBrokers = [], fmSSHHosts = []\<rparr>"

text \<open>\<open>ReadString\<close> fails at a last line without a newline: it is not read.\<close>

definition terminated_lines :: "string \<Rightarrow> string list" where
  "terminated_lines s = butlast (split_on (CHR 0x0A) s)"

definition list_items :: "string \<Rightarrow> string list" where
  "list_items val = filter (\<lambda>t. t \<noteq> []) (map trim_space (split_on (CHR '','') (trim_chars ''[]'' val)))"

definition add_field :: "string \<Rightarrow> string list \<Rightarrow> skill_frontmatter \<Rightarrow> skill_frontmatter" where
  "add_field key ns fm =
     (if key = ''tools'' then fm\<lparr>fmTools := fmTools fm @ ns\<rparr>
      else if key = ''guarded_tools'' then fm\<lparr>fmGuardedTools := fmGuardedTools fm @ ns\<rparr>
      else if key = ''notify_tools'' then fm\<lparr>fmNotifyTools := fmNotifyTools fm @ ns\<rparr>
      else if key = ''secrets'' then fm\<lparr>fmSecrets := fmSecrets fm @ ns\<rparr>
      else if key = ''oauth_providers'' then fm\<lparr>fmOAuthProviders := fmOAuthProviders fm @ ns\<rparr>
      else if key = ''databases'' then fm\<lparr>fmDatabases := fmDatabases fm @ ns\<rparr>
      else if key = ''brokers'' then fm\<lparr>fmBrokers := fmBrokers fm @ ns\<rparr>
      else if key = ''ssh_hosts'' then fm\<lparr>fmSSHHosts := fmSSHHosts fm @ ns\<rparr>
      else fm)"

definition quotes :: string where "quotes = [CHR 0x22, CHR 0x27]"

definition add_line :: "string \<Rightarrow> skill_frontmatter \<Rightarrow> skill_frontmatter" where
  "add_line l fm =
     (if CHR '':'' \<notin> set l then fm
      else (case cut_at (CHR '':'') l of
              (k, v) \<Rightarrow> add_field (trim_space k) (list_items (trim_chars quotes (trim_space v))) fm))"

definition parseSkillFrontmatter :: "string option \<Rightarrow> skill_frontmatter" where
  "parseSkillFrontmatter data =
     (case data of
        None \<Rightarrow> no_frontmatter
      | Some s \<Rightarrow>
          (case terminated_lines s of
             [] \<Rightarrow> no_frontmatter
           | l # ls \<Rightarrow>
               if trim_space l \<noteq> ''---'' then no_frontmatter
               else foldl (\<lambda>fm l. add_line l fm) no_frontmatter (takeWhile (\<lambda>l. trim_space l \<noteq> ''---'') ls)))"

section \<open>Tools and credentials\<close>

text \<open>Who the tokens belong to, the providers of the front matter, the secrets, and whether there is a
  source of tokens.\<close>

record credentials =
  crUserID :: string
  crProviders :: "string list"
  crSecrets :: "string \<rightharpoonup> string"
  crOAuth :: bool

datatype skill_tool =
  GeneralTool string
| HttpRequestTool credentials
| EmailTool credentials
| CalDAVTool credentials
| CardDAVTool credentials
| WebSocketTool credentials
| GraphQLTool credentials
| SQLTool "(string \<times> go_value) list"
| MQTTTool "(string \<times> go_value) list"
| SSHTool "(string \<times> go_value) list"
| SFTPTool "(string \<times> go_value) list"

fun tool_name :: "skill_tool \<Rightarrow> string" where
  "tool_name (GeneralTool n) = n"
| "tool_name (HttpRequestTool _) = ''http_request''"
| "tool_name (EmailTool _) = ''email''"
| "tool_name (CalDAVTool _) = ''caldav''"
| "tool_name (CardDAVTool _) = ''carddav''"
| "tool_name (WebSocketTool _) = ''websocket''"
| "tool_name (GraphQLTool _) = ''graphql''"
| "tool_name (SQLTool _) = ''sql''"
| "tool_name (MQTTTool _) = ''mqtt''"
| "tool_name (SSHTool _) = ''ssh''"
| "tool_name (SFTPTool _) = ''sftp''"

definition filterTools :: "skill_tool list \<Rightarrow> string list \<Rightarrow> skill_tool list" where
  "filterTools ts allowed = filter (\<lambda>t. tool_name t \<in> set allowed) ts"

definition hasRunLua :: "skill_tool list \<Rightarrow> bool" where
  "hasRunLua ts \<longleftrightarrow> list_ex (\<lambda>t. tool_name t = ''run_lua'') ts"

text \<open>What the construction reads besides the skill: the secret store, the source of OAuth tokens, the
  configuration, if it could be loaded, and whether the slice of the general tools has room behind its end.\<close>

record skill_env =
  skSecret :: "string \<Rightarrow> string option"
  skOAuth :: bool
  skConfig :: "go_value option"
  skLuaGuidance :: string
  skRunner :: bool
  skSpare :: bool

definition skill_secrets :: "skill_env \<Rightarrow> skill_frontmatter \<Rightarrow> string \<rightharpoonup> string" where
  "skill_secrets env fm n = (if n \<in> set (fmSecrets fm) then skSecret env n else None)"

definition skill_credentials :: "skill_env \<Rightarrow> skill_frontmatter \<Rightarrow> credentials" where
  "skill_credentials env fm =
     \<lparr>crUserID = ''default'', crProviders = fmOAuthProviders fm, crSecrets = skill_secrets env fm, crOAuth = skOAuth env\<rparr>"

text \<open>The connections of a list that are configured; a repeated name is registered once.\<close>

definition registered :: "(string \<Rightarrow> go_value \<Rightarrow> go_value \<times> bool) \<Rightarrow> string list \<Rightarrow> go_value \<Rightarrow> (string \<times> go_value) list" where
  "registered src ns c = map (\<lambda>n. (n, fst (src n c))) (filter (\<lambda>n. snd (src n c)) (remdups ns))"

definition optional :: "bool \<Rightarrow> skill_tool list \<Rightarrow> skill_tool list" where
  "optional b ts = (if b then ts else [])"

text \<open>\<open>None\<close> is the panic of a lookup in a configuration that could not be loaded.\<close>

definition connected :: "bool \<Rightarrow> string list \<Rightarrow> (string \<Rightarrow> go_value \<Rightarrow> go_value \<times> bool) \<Rightarrow> go_value option \<Rightarrow>
    ((string \<times> go_value) list \<Rightarrow> skill_tool list) \<Rightarrow> skill_tool list option" where
  "connected wanted ns src c mk =
     (if ns = [] \<or> \<not> wanted then Some []
      else (case c of
              None \<Rightarrow> None
            | Some c \<Rightarrow> Some (if registered src ns c = [] then [] else mk (registered src ns c))))"

definition skill_agent_tools :: "skill_env \<Rightarrow> skill_tool list \<Rightarrow> skill_frontmatter \<Rightarrow> skill_tool list option" where
  "skill_agent_tools env general fm =
     (let cr = skill_credentials env fm;
          has = (\<lambda>t. t \<in> set (fmTools fm));
          oauth = (fmOAuthProviders fm \<noteq> []);
          auth = (oauth \<or> fmSecrets fm \<noteq> [])
      in case connected (has ''sql'') (fmDatabases fm) GetDatabaseConnection (skConfig env) (\<lambda>cs. [SQLTool cs]) of
           None \<Rightarrow> None
         | Some sql \<Rightarrow>
             (case connected (has ''mqtt'') (fmBrokers fm) GetMQTTBroker (skConfig env) (\<lambda>cs. [MQTTTool cs]) of
                None \<Rightarrow> None
              | Some mqtt \<Rightarrow>
                  (case connected (has ''ssh'' \<or> has ''sftp'') (fmSSHHosts fm) GetSSHHost (skConfig env)
                          (\<lambda>cs. optional (has ''ssh'') [SSHTool cs] @ optional (has ''sftp'') [SFTPTool cs]) of
                     None \<Rightarrow> None
                   | Some ssh \<Rightarrow>
                       Some ((if fmTools fm = [] then general else filterTools general (fmTools fm)) @
                         optional auth [HttpRequestTool cr] @ optional (oauth \<and> has ''email'') [EmailTool cr] @
                         optional (auth \<and> has ''caldav'') [CalDAVTool cr] @ optional (auth \<and> has ''carddav'') [CardDAVTool cr] @
                         optional (has ''websocket'') [WebSocketTool cr] @ optional (auth \<and> has ''graphql'') [GraphQLTool cr] @
                         sql @ mqtt @ ssh))))"

section \<open>The agents\<close>

text \<open>A skill of the repository: its summary, its body if it can be read, and the text of its file.\<close>

record skill_entry =
  seSkillName :: string
  seDescription :: string
  seBody :: "string option"
  seRaw :: "string option"

record sub_agent =
  saName :: string
  saDescription :: string
  saInstruction :: string
  saTools :: "skill_tool list"
  saGuarded :: bool
  saShared :: bool

definition skill_instruction :: "skill_env \<Rightarrow> skill_tool list \<Rightarrow> skill_entry \<Rightarrow> string \<Rightarrow> string" where
  "skill_instruction env tools e body =
     (if body = [] then seDescription e else body) @ (if hasRunLua tools then skLuaGuidance env else [])"

definition gp_instruction :: string where
  "gp_instruction =
     ''You are a general-purpose assistant. Use the available tools to complete tasks. Report your results clearly.''"

definition general_agent :: "skill_env \<Rightarrow> skill_tool list \<Rightarrow> sub_agent" where
  "general_agent env general =
     \<lparr>saName = ''general'',
      saDescription = ''General-purpose agent with file read/write and other standard tools. Use for tasks that don'' @ [CHR 0x27] @
        ''t match a specific skill.'',
      saInstruction = gp_instruction @ (if hasRunLua general then skLuaGuidance env else []), saTools = general, saGuarded = False, saShared = False\<rparr>"

text \<open>A skill with credentials and without a list of tools appends \<open>http_request\<close> to the slice of the general
  tools itself.  With room behind its end the tool is written there, and the next such skill replaces it.\<close>

definition writes_slot :: "skill_env \<Rightarrow> skill_frontmatter \<Rightarrow> bool" where
  "writes_slot env fm \<longleftrightarrow> skSpare env \<and> fmTools fm = [] \<and> (fmSecrets fm \<noteq> [] \<or> fmOAuthProviders fm \<noteq> [])"

text \<open>The agents, the owners of the guarded and of the notifying tools, and the tool behind the general ones.
  An agent of the library has the tools it was made with; a guarded agent keeps the slice.\<close>

type_synonym built = "sub_agent list \<times> (string \<rightharpoonup> string) \<times> (string \<rightharpoonup> string) \<times> skill_tool option"

fun build_agents :: "skill_env \<Rightarrow> skill_tool list \<Rightarrow> skill_entry list \<Rightarrow> built \<Rightarrow> built option" where
  "build_agents env general [] (as, g, n, slot) = Some (as @ [general_agent env general], g, n, slot)"
| "build_agents env general (e # es) (as, g, n, slot) =
     (case seBody e of
        None \<Rightarrow> build_agents env general es (as, g, n, slot)
      | Some body \<Rightarrow>
          (let fm = parseSkillFrontmatter (seRaw e);
               own = (\<lambda>ts m t. if t \<in> set ts then Some (seSkillName e) else m t);
               base = (if fmTools fm = [] then general else filterTools general (fmTools fm));
               guarded = (fmGuardedTools fm \<noteq> [] \<and> skRunner env)
           in case skill_agent_tools env general fm of
                None \<Rightarrow> None
              | Some ts \<Rightarrow>
                  build_agents env general es
                    (as @ [\<lparr>saName = seSkillName e, saDescription = seDescription e,
                            saInstruction = skill_instruction env base e body, saTools = ts,
                            saGuarded = guarded, saShared = (guarded \<and> writes_slot env fm)\<rparr>],
                     own (fmGuardedTools fm) g, own (fmNotifyTools fm) n,
                     if writes_slot env fm then Some (HttpRequestTool (skill_credentials env fm)) else slot)))"

definition seen_tools :: "skill_tool list \<Rightarrow> skill_tool option \<Rightarrow> sub_agent \<Rightarrow> sub_agent" where
  "seen_tools general slot a =
     (if saShared a then a\<lparr>saTools := general @ (case slot of Some t \<Rightarrow> [t] | None \<Rightarrow> [])\<rparr> else a)"

definition BuildSubAgents ::
  "skill_env \<Rightarrow> skill_tool list \<Rightarrow> skill_entry list \<Rightarrow> (sub_agent list \<times> (string \<rightharpoonup> string) \<times> (string \<rightharpoonup> string)) option" where
  "BuildSubAgents env general es =
     (case build_agents env general es ([], Map.empty, Map.empty, None) of
        None \<Rightarrow> None
      | Some (as, g, n, slot) \<Rightarrow> Some (map (seen_tools general slot) as, g, n))"

section \<open>Whose credentials a guarded agent uses\<close>

text \<open>A readable skill with credentials and without a list of tools.\<close>

definition unlisted :: "skill_entry \<Rightarrow> bool" where
  "unlisted e \<longleftrightarrow> seBody e \<noteq> None \<and> fmTools (parseSkillFrontmatter (seRaw e)) = [] \<and>
     (fmSecrets (parseSkillFrontmatter (seRaw e)) \<noteq> [] \<or> fmOAuthProviders (parseSkillFrontmatter (seRaw e)) \<noteq> [])"

definition entry_credentials :: "skill_env \<Rightarrow> skill_entry \<Rightarrow> credentials" where
  "entry_credentials env e = skill_credentials env (parseSkillFrontmatter (seRaw e))"

lemma unlisted_tools:
  "fmTools fm = [] \<Longrightarrow> fmSecrets fm \<noteq> [] \<or> fmOAuthProviders fm \<noteq> [] \<Longrightarrow>
     skill_agent_tools env general fm = Some (general @ [HttpRequestTool (skill_credentials env fm)])"
  by (auto simp: skill_agent_tools_def Let_def connected_def optional_def)

lemma build_keeps: "build_agents env general es (as, g, n, slot) = Some (as', g', n', slot') \<Longrightarrow> set as \<subseteq> set as'"
  by (induction env general es "(as, g, n, slot)" arbitrary: as g n slot rule: build_agents.induct)
    (auto simp: Let_def split: option.splits)

lemma build_slot:
  "build_agents env general es (as, g, n, slot) = Some (as', g', n', slot') \<Longrightarrow> skSpare env \<Longrightarrow>
     slot' = (if filter unlisted es = [] then slot else Some (HttpRequestTool (entry_credentials env (last (filter unlisted es)))))"
  by (induction env general es "(as, g, n, slot)" arbitrary: as g n slot rule: build_agents.induct)
    (auto simp: Let_def unlisted_def writes_slot_def entry_credentials_def split: option.splits if_splits)

lemma build_guarded:
  assumes "build_agents env general es (as, g, n, slot) = Some (as', g', n', slot')" and "skRunner env"
    and "e \<in> set es" and "unlisted e" and "fmGuardedTools (parseSkillFrontmatter (seRaw e)) \<noteq> []"
  shows "\<exists>a \<in> set as'. saName a = seSkillName e \<and> saGuarded a \<and> saShared a = skSpare env \<and>
    saTools a = general @ [HttpRequestTool (entry_credentials env e)]"
  using assms
proof (induction env general es "(as, g, n, slot)" arbitrary: as g n slot rule: build_agents.induct)
  case (2 env general f es as g n slot)
  show ?case
  proof (cases "e = f")
    case True
    let ?fm = "parseSkillFrontmatter (seRaw f)"
    obtain body where b: "seBody f = Some body" using 2(6) True by (auto simp: unlisted_def)
    have u: "fmTools ?fm = []" "fmSecrets ?fm \<noteq> [] \<or> fmOAuthProviders ?fm \<noteq> []" using 2(6) True by (auto simp: unlisted_def)
    then have w: "writes_slot env ?fm = skSpare env" by (auto simp: writes_slot_def)
    let ?a = "\<lparr>saName = seSkillName f, saDescription = seDescription f, saInstruction = skill_instruction env general f body,
       saTools = general @ [HttpRequestTool (skill_credentials env ?fm)], saGuarded = True, saShared = skSpare env\<rparr>"
    have g: "fmGuardedTools ?fm \<noteq> []" using 2(7) True by simp
    from 2(3) obtain g1 n1 s1 where "build_agents env general es (as @ [?a], g1, n1, s1) = Some (as', g', n', slot')"
      by (simp add: b Let_def unlisted_tools [OF u] w u(1) g 2(4))
    from build_keeps [OF this] have "?a \<in> set as'" by simp
    then show ?thesis using True by (intro bexI [of _ ?a]) (simp_all add: entry_credentials_def)
  next
    case False
    then have "e \<in> set es" using 2(5) by simp
    with 2 show ?thesis by (auto simp: Let_def split: option.splits)
  qed
qed simp

text \<open>C30. A guarded skill with credentials and without a list of tools calls \<open>http_request\<close> with its own credentials
  if the slice of the general tools has no room behind its end.  With room, every such skill uses the
  credentials of the last one.
\<close>

theorem credentials_of_last:
  assumes "BuildSubAgents env general es = Some (as, g, n)" and "skRunner env"
    and "e \<in> set es" and "unlisted e" and "fmGuardedTools (parseSkillFrontmatter (seRaw e)) \<noteq> []"
  shows "\<exists>a \<in> set as. saName a = seSkillName e \<and> saGuarded a \<and>
    saTools a = general @ [HttpRequestTool (entry_credentials env (if skSpare env then last (filter unlisted es) else e))]"
proof -
  obtain bs slot where b: "build_agents env general es ([], Map.empty, Map.empty, None) = Some (bs, g, n, slot)"
    and as: "as = map (seen_tools general slot) bs"
    using assms(1) by (auto simp: BuildSubAgents_def split: option.splits)
  obtain a where a: "a \<in> set bs" "saName a = seSkillName e" "saGuarded a" "saShared a = skSpare env"
    "saTools a = general @ [HttpRequestTool (entry_credentials env e)]"
    using build_guarded [OF b assms(2-5)] by blast
  have "filter unlisted es \<noteq> []" using assms(3,4) by (auto simp: filter_empty_conv)
  then have "skSpare env \<Longrightarrow> slot = Some (HttpRequestTool (entry_credentials env (last (filter unlisted es))))"
    using build_slot [OF b] by simp
  then have "saName (seen_tools general slot a) = seSkillName e \<and> saGuarded (seen_tools general slot a) \<and> saTools (seen_tools general slot a) =
      general @ [HttpRequestTool (entry_credentials env (if skSpare env then last (filter unlisted es) else e))]"
    using a by (simp add: seen_tools_def)
  with a(1) as show ?thesis by (metis image_eqI set_map)
qed

definition api_skill :: "string \<Rightarrow> string \<Rightarrow> skill_entry" where
  "api_skill name sec =
     \<lparr>seSkillName = name, seDescription = [], seBody = Some ''Call the API.'',
      seRaw = Some (''---'' @ newline @ ''guarded_tools: [http_request]'' @ newline @ ''secrets: ['' @ sec @ '']'' @ newline @ ''---'' @ newline)\<rparr>"

definition two_skills :: skill_env where
  "two_skills = \<lparr>skSecret = [''k1'' \<mapsto> ''one'', ''k2'' \<mapsto> ''two''], skOAuth = False, skConfig = None, skLuaGuidance = [], skRunner = True, skSpare = True\<rparr>"

lemma api_frontmatter:
  "parseSkillFrontmatter (seRaw (api_skill ''a'' ''k1'')) = no_frontmatter\<lparr>fmGuardedTools := [''http_request''], fmSecrets := [''k1'']\<rparr>"
  "parseSkillFrontmatter (seRaw (api_skill ''b'' ''k2'')) = no_frontmatter\<lparr>fmGuardedTools := [''http_request''], fmSecrets := [''k2'']\<rparr>"
  by code_simp+

theorem credentials_of_last_witness:
  "\<exists>as g n a cr. BuildSubAgents two_skills [] [api_skill ''a'' ''k1'', api_skill ''b'' ''k2''] = Some (as, g, n) \<and> a \<in> set as \<and>
     saName a = ''a'' \<and> saTools a = [HttpRequestTool cr] \<and> crSecrets cr ''k1'' = None \<and> crSecrets cr ''k2'' = Some ''two''"
proof -
  let ?es = "[api_skill ''a'' ''k1'', api_skill ''b'' ''k2'']"
  have n: "seBody (api_skill x y) = Some ''Call the API.''" "seSkillName (api_skill x y) = x" for x y by (simp_all add: api_skill_def)
  have u: "unlisted (api_skill ''a'' ''k1'')" "unlisted (api_skill ''b'' ''k2'')"
    by (simp_all add: unlisted_def api_frontmatter n no_frontmatter_def)
  obtain as g m where b: "BuildSubAgents two_skills [] ?es = Some (as, g, m)"
    by (simp add: BuildSubAgents_def n api_frontmatter Let_def unlisted_tools no_frontmatter_def)
  have r: "skRunner two_skills" "skSpare two_skills" by (simp_all add: two_skills_def)
  have "\<exists>a \<in> set as. saName a = ''a'' \<and> saGuarded a \<and> saTools a = [] @ [HttpRequestTool (entry_credentials two_skills (last (filter unlisted ?es)))]"
    using credentials_of_last [OF b r(1), of "api_skill ''a'' ''k1''"] u r(2) by (simp add: n api_frontmatter)
  then obtain a where a: "a \<in> set as" "saName a = ''a''" "saTools a = [HttpRequestTool (entry_credentials two_skills (api_skill ''b'' ''k2''))]"
    using u by auto
  have "crSecrets (entry_credentials two_skills (api_skill ''b'' ''k2'')) ''k1'' = None"
    "crSecrets (entry_credentials two_skills (api_skill ''b'' ''k2'')) ''k2'' = Some ''two''"
    by (simp_all add: entry_credentials_def skill_credentials_def skill_secrets_def api_frontmatter two_skills_def)
  with a b show ?thesis by blast
qed

section \<open>Writing and reading front matter\<close>

text \<open>The front matter with its fields as inline lists.\<close>

definition print_field :: "string \<Rightarrow> string list \<Rightarrow> string" where
  "print_field k ns = k @ '': ['' @ join_str '','' (map (\<lambda>n. '' '' @ n) ns) @ '']''"

definition fm_fields :: "skill_frontmatter \<Rightarrow> (string \<times> string list) list" where
  "fm_fields fm =
     [(''tools'', fmTools fm), (''guarded_tools'', fmGuardedTools fm), (''notify_tools'', fmNotifyTools fm), (''secrets'', fmSecrets fm),
      (''oauth_providers'', fmOAuthProviders fm), (''databases'', fmDatabases fm), (''brokers'', fmBrokers fm), (''ssh_hosts'', fmSSHHosts fm)]"

definition print_frontmatter :: "skill_frontmatter \<Rightarrow> string \<Rightarrow> string" where
  "print_frontmatter fm body =
     ''---'' @ newline @ concat (map (\<lambda>(k, ns). print_field k ns @ newline) (fm_fields fm)) @ ''---'' @ newline @ body"

text \<open>A name that survives: not empty, without commas, brackets and newlines, no space at its ends.\<close>

definition plain_name :: "string \<Rightarrow> bool" where
  "plain_name n \<longleftrightarrow> n \<noteq> [] \<and> list_all (\<lambda>c. c \<notin> {CHR '','', CHR ''['', CHR '']'', CHR 0x0A}) n \<and> \<not> is_space (hd n) \<and> \<not> is_space (last n)"

definition plain_fm :: "skill_frontmatter \<Rightarrow> bool" where
  "plain_fm fm \<longleftrightarrow> list_all (\<lambda>(k, ns). list_all plain_name ns) (fm_fields fm)"

lemma trim_space_ends: "s \<noteq> [] \<Longrightarrow> \<not> is_space (hd s) \<Longrightarrow> \<not> is_space (last s) \<Longrightarrow> trim_space s = s"
proof -
  assume s: "s \<noteq> []" "\<not> is_space (hd s)" "\<not> is_space (last s)"
  then have "dropWhile is_space s = s" by (cases s) simp_all
  moreover have "dropWhile is_space (rev s) = rev s" using s(1,3) by (cases "rev s") (simp_all flip: hd_rev)
  ultimately show ?thesis by (simp add: trim_space_def)
qed

lemma trim_space_Cons: "is_space c \<Longrightarrow> trim_space (c # s) = trim_space s"
  by (simp add: trim_space_def)

lemma trim_chars_ends: "s \<noteq> [] \<Longrightarrow> hd s \<notin> set cs \<Longrightarrow> last s \<notin> set cs \<Longrightarrow> trim_chars cs s = s"
proof -
  assume s: "s \<noteq> []" "hd s \<notin> set cs" "last s \<notin> set cs"
  then have "dropWhile (\<lambda>c. c \<in> set cs) s = s" by (cases s) simp_all
  moreover have "dropWhile (\<lambda>c. c \<in> set cs) (rev s) = rev s" using s(1,3) by (cases "rev s") (simp_all flip: hd_rev)
  ultimately show ?thesis by (simp add: trim_chars_def)
qed

lemma trim_chars_wrapped:
  assumes "a \<in> set cs" and "b \<in> set cs" and "s \<noteq> []" and "hd s \<notin> set cs" and "last s \<notin> set cs"
  shows "trim_chars cs (a # s @ [b]) = s"
proof -
  have "dropWhile (\<lambda>c. c \<in> set cs) (s @ [b]) = s @ [b]" using assms(3,4) by (cases s) simp_all
  then have "trim_chars cs (a # s @ [b]) = trim_chars cs s" using assms(1-4)
    by (cases s) (simp_all add: trim_chars_def)
  with trim_chars_ends [OF assms(3-5)] show ?thesis by simp
qed

lemma spaced_items: "list_all plain_name ns \<Longrightarrow> list_items (CHR ''['' # join_str '','' (map (\<lambda>n. '' '' @ n) ns) @ '']'') = ns"
proof (cases "ns = []")
  case True
  then show ?thesis by (simp add: list_items_def trim_chars_def trim_space_def)
next
  case False
  assume p: "list_all plain_name ns"
  let ?j = "join_str '','' (map (\<lambda>n. '' '' @ n) ns)"
  have h: "?j \<noteq> [] \<and> hd ?j = CHR '' ''" using False by (cases ns; cases "tl ns") simp_all
  have l: "last ?j = last (last ns)" if "ns \<noteq> []" "list_all plain_name ns"
    using that
  proof (induction ns rule: induct_list012)
    case (3 x y zs)
    have "join_str '','' (map (\<lambda>n. '' '' @ n) (y # zs)) \<noteq> []" by (cases zs) simp_all
    with 3 show ?case by simp
  qed (auto simp: plain_name_def)
  have "plain_name (last ns)" using p False by (simp add: list_all_iff)
  then have "last (last ns) \<in> set (last ns)" "\<forall>c \<in> set (last ns). c \<notin> {CHR ''['', CHR '']''}" by (auto simp: plain_name_def list_all_iff)
  then have "last ?j \<notin> set ''[]''" using l [OF False p] by auto
  then have t: "trim_chars ''[]'' (CHR ''['' # ?j @ '']'') = ?j" using h by (intro trim_chars_wrapped) simp_all
  have s: "split_on (CHR '','') ?j = map (\<lambda>n. '' '' @ n) ns"
    by (rule split_joined) (use False p in \<open>auto simp: list_all_iff plain_name_def\<close>)
  have "map trim_space (map (\<lambda>n. '' '' @ n) ns) = ns"
    by (rule nth_equalityI) (use p in \<open>auto simp: list_all_length plain_name_def trim_space_Cons is_space_def intro!: trim_space_ends\<close>)
  moreover have "filter (\<lambda>t. t \<noteq> []) ns = ns" using p by (auto simp: filter_id_conv list_all_iff plain_name_def)
  ultimately show ?thesis by (simp only: list_items_def t s)
qed

text \<open>The keys of the parser.\<close>

definition fm_keys :: "string list" where
  "fm_keys = [''tools'', ''guarded_tools'', ''notify_tools'', ''secrets'', ''oauth_providers'', ''databases'', ''brokers'', ''ssh_hosts'']"

lemma key_chars: "k \<in> set fm_keys \<Longrightarrow> CHR '':'' \<notin> set k \<and> CHR 0x0A \<notin> set k \<and> trim_space k = k \<and> k \<noteq> [] \<and> hd k \<noteq> CHR ''-'' \<and> \<not> is_space (hd k)"
proof -
  have "list_all (\<lambda>k. CHR '':'' \<notin> set k \<and> CHR 0x0A \<notin> set k \<and> trim_space k = k \<and> k \<noteq> [] \<and> hd k \<noteq> CHR ''-'' \<and> \<not> is_space (hd k)) fm_keys"
    by code_simp
  then show "k \<in> set fm_keys \<Longrightarrow> ?thesis" by (simp add: list_all_iff)
qed

lemma add_printed: "k \<in> set fm_keys \<Longrightarrow> list_all plain_name ns \<Longrightarrow> add_line (print_field k ns) fm = add_field k ns fm"
proof -
  assume k: "k \<in> set fm_keys" and p: "list_all plain_name ns"
  let ?v = "CHR ''['' # join_str '','' (map (\<lambda>n. '' '' @ n) ns) @ '']''"
  have f: "print_field k ns = k @ CHR '':'' # CHR '' '' # ?v" by (simp add: print_field_def)
  have c: "cut_at (CHR '':'') (print_field k ns) = (k, CHR '' '' # ?v)" unfolding f using key_chars [OF k] by (intro cut_at_split) simp
  have "trim_space (CHR '' '' # ?v) = ?v"
    by (subst trim_space_Cons) (auto simp: is_space_def intro!: trim_space_ends)
  moreover have "trim_chars quotes ?v = ?v" by (rule trim_chars_ends) (simp_all add: quotes_def)
  ultimately have "list_items (trim_chars quotes (trim_space (CHR '' '' # ?v))) = ns" using spaced_items [OF p] by simp
  moreover have "CHR '':'' \<in> set (print_field k ns)" by (simp add: f)
  moreover have "trim_space k = k" using key_chars [OF k] by simp
  ultimately show ?thesis unfolding add_line_def c prod.case by (simp only: if_False not_True_eq_False)
qed

lemma printed_line: "k \<in> set fm_keys \<Longrightarrow> list_all plain_name ns \<Longrightarrow> CHR 0x0A \<notin> set (print_field k ns) \<and> trim_space (print_field k ns) \<noteq> ''---''"
proof -
  assume k: "k \<in> set fm_keys" and p: "list_all plain_name ns"
  have "CHR 0x0A \<notin> set (join_str '','' (map (\<lambda>n. '' '' @ n) ns))"
    using p by (induction ns rule: induct_list012) (auto simp: plain_name_def list_all_iff)
  then have "CHR 0x0A \<notin> set (print_field k ns)" using key_chars [OF k] by (simp add: print_field_def)
  moreover have "trim_space (print_field k ns) = print_field k ns"
    by (rule trim_space_ends) (use key_chars [OF k] in \<open>simp_all add: print_field_def is_space_def\<close>)
  moreover have "hd (print_field k ns) \<noteq> CHR ''-''" using key_chars [OF k] by (simp add: print_field_def)
  then have "print_field k ns \<noteq> ''---''" by auto
  ultimately show ?thesis by simp
qed

lemma newline_is: "newline = [CHR 0x0A]"
  by code_simp

lemma terminated_Cons: "CHR 0x0A \<notin> set l \<Longrightarrow> terminated_lines (l @ newline @ s) = l # terminated_lines s"
  unfolding terminated_lines_def newline_is append_Cons append_Nil by (simp add: split_at_sep)

text \<open>Inline lists of plain names are read back, whatever follows the front matter.\<close>

lemma frontmatter_roundtrip:
  assumes "plain_fm fm"
  shows "parseSkillFrontmatter (Some (print_frontmatter fm body)) = fm"
proof -
  let ?ls = "map (\<lambda>(k, ns). print_field k ns) (fm_fields fm)"
  have ks: "list_all (\<lambda>(k, ns). k \<in> set fm_keys) (fm_fields fm)" by (simp add: fm_fields_def fm_keys_def)
  have ok: "list_all (\<lambda>(k, ns). k \<in> set fm_keys \<and> list_all plain_name ns) (fm_fields fm)"
    using ks assms by (auto simp: plain_fm_def list_all_iff)
  have ends: "list_all (\<lambda>l. CHR 0x0A \<notin> set l \<and> trim_space l \<noteq> ''---'') ?ls"
    using ok printed_line by (force simp: list_all_iff)
  have t: "terminated_lines (concat (map (\<lambda>(k, ns). print_field k ns @ newline) fs) @ ''---'' @ newline @ body) =
      map (\<lambda>(k, ns). print_field k ns) fs @ ''---'' # terminated_lines body"
    if "list_all (\<lambda>l. CHR 0x0A \<notin> set l) (map (\<lambda>(k, ns). print_field k ns) fs)" for fs
    using that terminated_Cons [of "''---''" body] by (induction fs) (auto simp: terminated_Cons)
  have d: "CHR 0x0A \<notin> set ''---''" "trim_space ''---'' = ''---''" by (simp_all add: trim_space_def is_space_def)
  have "list_all (\<lambda>l. CHR 0x0A \<notin> set l) ?ls" using ends by (auto simp: list_all_iff)
  from t [OF this] have ls: "terminated_lines (print_frontmatter fm body) = ''---'' # ?ls @ ''---'' # terminated_lines body"
    unfolding print_frontmatter_def by (simp only: terminated_Cons [OF d(1)])
  have "takeWhile (\<lambda>l. trim_space l \<noteq> ''---'') (?ls @ ''---'' # terminated_lines body) = ?ls"
    using ends by (subst takeWhile_append2) (auto simp only: list_all_iff takeWhile.simps d(2) simp_thms if_False append_Nil2)
  moreover have "foldl (\<lambda>fm l. add_line l fm) fm0 (map (\<lambda>(k, ns). print_field k ns) fs) = foldl (\<lambda>fm (k, ns). add_field k ns fm) fm0 fs"
    if "list_all (\<lambda>(k, ns). k \<in> set fm_keys \<and> list_all plain_name ns) fs" for fs fm0
    using that by (induction fs arbitrary: fm0) (auto simp: add_printed)
  note this [OF ok, of no_frontmatter]
  moreover have "foldl (\<lambda>fm (k, ns). add_field k ns fm) no_frontmatter (fm_fields fm) = fm"
    by (simp add: fm_fields_def add_field_def no_frontmatter_def)
  ultimately show ?thesis by (simp add: parseSkillFrontmatter_def ls d(2))
qed

text \<open>Items between quotes keep the quotes, a comment behind the list becomes a part of its last item, and a list
  written as a block is empty.\<close>

lemma quoted_items:
  "fmGuardedTools (parseSkillFrontmatter (Some (''---'' @ newline @ ''guarded_tools: [\"exec\"]'' @ newline @ ''---'' @ newline))) = [''\"exec\"'']"
  "fmGuardedTools (parseSkillFrontmatter (Some (''---'' @ newline @ ''guarded_tools: [Bash]   # Tools requiring approval.'' @ newline @
     ''---'' @ newline))) = [''Bash]   # Tools requiring approval.'']"
  "fmGuardedTools (parseSkillFrontmatter (Some (''---'' @ newline @ ''guarded_tools:'' @ newline @ ''  - exec'' @ newline @ ''---'' @ newline))) = []"
  by code_simp+

end
