(* ===== verification/HttpTool.thy ===== *)
theory HttpTool
  imports SkillTools OAuth
begin

text \<open>
  The tool \<open>http_request\<close> of the specialists (\<open>internal/agent/http_request.go\<close>): the checks, the injection
  of secrets and tokens, the request that is sent and the result for the model.  The network, \<open>url.Parse\<close>
  and the source of tokens are arguments, as is the order in which the map of headers is walked.
\<close>

section \<open>Arguments and results\<close>

record http_args =
  haURL :: string
  haMethod :: string
  haHeaders :: "(string \<times> string) list"
  haBody :: string
  haAuthSecret :: string
  haAuthHeader :: string
  haAuthScheme :: string
  haOAuthProvider :: string
  haTimeoutSecs :: int
  haContentType :: string
  haInsecure :: bool

record http_result =
  hrStatusCode :: int
  hrStatus :: string
  hrHeaders :: "string \<rightharpoonup> string"
  hrBody :: string
  hrMessage :: string

definition message_result :: "string \<Rightarrow> http_result" where
  "message_result m = \<lparr>hrStatusCode = 0, hrStatus = [], hrHeaders = Map.empty, hrBody = [], hrMessage = m\<rparr>"

type_synonym token_getter = "string \<Rightarrow> string \<Rightarrow> oauth_token oauth_result"

record sent_request =
  sqURL :: string
  sqMethod :: string
  sqHeaders :: "string \<rightharpoonup> string"
  sqBody :: string
  sqTimeout :: duration
  sqInsecure :: bool

text \<open>The answer of the network; of each header its first value.\<close>

datatype http_reply =
  TimedOut | SendFailed string | ReadFailed string | Answered int string "string \<rightharpoonup> string" string

record http_env =
  hnReply :: "sent_request \<Rightarrow> http_reply"
  hnParse :: "string \<Rightarrow> string go_result"
  hnOrder :: "string list"

section \<open>Header names\<close>

definition token_char :: "char \<Rightarrow> bool" where
  "token_char c \<longleftrightarrow>
     (let n = (of_char c :: nat) in
      48 \<le> n \<and> n \<le> 57 \<or> 65 \<le> n \<and> n \<le> 90 \<or> 97 \<le> n \<and> n \<le> 122 \<or> n = 39 \<or> c \<in> set ''!#$%&*+-.^_`|~'')"

fun canonical_chars :: "bool \<Rightarrow> string \<Rightarrow> string" where
  "canonical_chars up [] = []"
| "canonical_chars up (c # s) = (if up then upper_char c else lower_char c) # canonical_chars (c = CHR ''-'') s"

definition CanonicalHeaderKey :: "string \<Rightarrow> string" where
  "CanonicalHeaderKey s = (if list_all token_char s then canonical_chars True s else s)"

text \<open>\<open>req.Header.Set\<close> for the names in order.\<close>

definition sent_headers :: "string list \<Rightarrow> (string \<times> string) list \<Rightarrow> string \<rightharpoonup> string" where
  "sent_headers order headers =
     foldl (\<lambda>m k. case map_of headers k of Some v \<Rightarrow> m(CanonicalHeaderKey k \<mapsto> v) | None \<Rightarrow> m) Map.empty order"

section \<open>Authentication\<close>

text \<open>The call ends with a message and perhaps an error, or goes on with the headers.\<close>

datatype auth_step = Ends string "string option" | Goes "(string \<times> string) list"

definition oauth_step_headers :: "credentials \<Rightarrow> token_getter option \<Rightarrow> string \<Rightarrow> (string \<times> string) list \<Rightarrow> auth_step" where
  "oauth_step_headers cr getter p headers =
     (if p = [] then Goes headers
      else if crProviders cr \<noteq> [] \<and> p \<notin> set (crProviders cr) then
        Ends (''Error: OAuth provider '' @ quote p @ '' not available to this skill'')
          (Some (''oauth provider '' @ quote p @ '' not available to this skill''))
      else
        (case getter of
           None \<Rightarrow> Ends ''Error: OAuth not configured'' (Some ''oauth not configured'')
         | Some get \<Rightarrow>
             (case get (crUserID cr) p of
                Inl ErrTokenNotFound \<Rightarrow> Ends (''OAuth authorization required for '' @ p @ ''. Please authorize via dashboard.'') None
              | Inl ErrTokenExpired \<Rightarrow> Ends (''OAuth token for '' @ p @ '' has expired. Please re-authorize via dashboard.'') None
              | Inl e \<Rightarrow> Ends (''Error: OAuth token retrieval failed: '' @ oauth_error_text e)
                           (Some (''oauth token retrieval failed: '' @ oauth_error_text e))
              | Inr t \<Rightarrow>
                  Goes (AList.update ''Authorization''
                    ((if otType t = [] then ''Bearer'' else otType t) @ '' '' @ otAccess t) headers))))"

definition secret_step_headers :: "credentials \<Rightarrow> http_args \<Rightarrow> (string \<times> string) list \<Rightarrow> auth_step" where
  "secret_step_headers cr a headers =
     (if haAuthSecret a = [] then Goes headers
      else
        (case crSecrets cr (haAuthSecret a) of
           None \<Rightarrow> Ends (''Error: secret '' @ quote (haAuthSecret a) @ '' not available to this skill'')
                     (Some (''secret '' @ quote (haAuthSecret a) @ '' not available to this skill''))
         | Some v \<Rightarrow>
             (let name = (if haAuthHeader a = [] then ''Authorization'' else haAuthHeader a);
                  scheme = (if to_lower (haAuthScheme a) = [] then ''bearer'' else to_lower (haAuthScheme a));
                  val = (if scheme = ''bearer'' then ''Bearer '' @ v else if scheme = ''basic'' then ''Basic '' @ v else v)
              in Goes (AList.update name val headers))))"

definition content_headers :: "http_args \<Rightarrow> (string \<times> string) list \<Rightarrow> (string \<times> string) list" where
  "content_headers a headers =
     (if haBody a \<noteq> [] \<and> map_of headers ''Content-Type'' = None
      then AList.update ''Content-Type'' (if haContentType a = [] then ''application/json'' else haContentType a) headers
      else headers)"

definition defaultHTTPTimeout :: duration where "defaultHTTPTimeout = 30 * second"
definition maxHTTPTimeout :: duration where "maxHTTPTimeout = 5 * minute"

definition http_timeout :: "int \<Rightarrow> duration" where
  "http_timeout secs =
     (if 0 < secs then (let t = wrap64 (secs * second) in if maxHTTPTimeout < t then maxHTTPTimeout else t) else defaultHTTPTimeout)"

definition valid_methods :: "string list" where
  "valid_methods = [''GET'', ''POST'', ''PUT'', ''PATCH'', ''DELETE'', ''HEAD'', ''OPTIONS'']"

section \<open>The call\<close>

definition prepare_headers :: "credentials \<Rightarrow> token_getter option \<Rightarrow> http_args \<Rightarrow> auth_step" where
  "prepare_headers cr getter a =
     (if haURL a = [] then Ends ''Error: url is required'' (Some ''url is required'')
      else if haMethod a = [] then Ends ''Error: method is required'' (Some ''method is required'')
      else if haAuthSecret a \<noteq> [] \<and> haOAuthProvider a \<noteq> [] then
        Ends ''Error: auth_secret and oauth_provider are mutually exclusive'' (Some ''auth_secret and oauth_provider are mutually exclusive'')
      else if to_upper (haMethod a) \<notin> set valid_methods then
        Ends (''Error: invalid method '' @ quote (haMethod a)) (Some (''invalid method: '' @ haMethod a))
      else
        (case oauth_step_headers cr getter (haOAuthProvider a) (haHeaders a) of
           Ends m e \<Rightarrow> Ends m e
         | Goes h \<Rightarrow>
             (case secret_step_headers cr a h of
                Ends m e \<Rightarrow> Ends m e
              | Goes h1 \<Rightarrow> Goes (content_headers a h1))))"

definition local_host :: "string \<Rightarrow> bool" where
  "local_host host \<longleftrightarrow> hd (split_on (CHR '':'') host) \<in> {''localhost'', ''127.0.0.1'', ''::1''}"

text \<open>The request that goes out, if one does.\<close>

definition outgoing :: "http_env \<Rightarrow> credentials \<Rightarrow> token_getter option \<Rightarrow> http_args \<Rightarrow> (http_result \<times> string option) + sent_request" where
  "outgoing env cr getter a =
     (case prepare_headers cr getter a of
        Ends m e \<Rightarrow> Inl (message_result m, e)
      | Goes h \<Rightarrow>
          (case hnParse env (haURL a) of
             Inl e \<Rightarrow> Inl (message_result (''Error creating request: '' @ e), Some (''create request: '' @ e))
           | Inr host \<Rightarrow>
               if haInsecure a \<and> \<not> local_host host then
                 Inl (message_result ''Error: insecure mode only allowed for localhost URLs'',
                      Some ''insecure mode only allowed for localhost URLs'')
               else
                 Inr \<lparr>sqURL = haURL a, sqMethod = to_upper (haMethod a), sqHeaders = sent_headers (hnOrder env) h, sqBody = haBody a,
                      sqTimeout = http_timeout (haTimeoutSecs a), sqInsecure = haInsecure a\<rparr>))"

definition executeHttpRequest ::
  "http_env \<Rightarrow> credentials \<Rightarrow> token_getter option \<Rightarrow> http_args \<Rightarrow> http_result \<times> string option" where
  "executeHttpRequest env cr getter a =
     (case outgoing env cr getter a of
        Inl r \<Rightarrow> r
      | Inr q \<Rightarrow>
          (case hnReply env q of
             TimedOut \<Rightarrow> (message_result ''Error: request timed out'', None)
           | SendFailed e \<Rightarrow> (message_result (''Error: '' @ e), Some (''send request: '' @ e))
           | ReadFailed e \<Rightarrow> (message_result (''Error reading response: '' @ e), Some (''read response: '' @ e))
           | Answered code status hs body \<Rightarrow>
               (\<lparr>hrStatusCode = code, hrStatus = status, hrHeaders = hs, hrBody = take 102400 body,
                 hrMessage = ''HTTP '' @ sqMethod q @ '' '' @ haURL a @ '' -> '' @ status\<rparr>, None)))"

section \<open>What the model learns\<close>

text \<open>The same names with other values.\<close>

definition same_names :: "credentials \<Rightarrow> credentials \<Rightarrow> bool" where
  "same_names c d \<longleftrightarrow>
     crUserID c = crUserID d \<and> crProviders c = crProviders d \<and> crOAuth c = crOAuth d \<and> dom (crSecrets c) = dom (crSecrets d)"

text \<open>Two sources of tokens that fail alike.\<close>

definition same_failures :: "token_getter option \<Rightarrow> token_getter option \<Rightarrow> bool" where
  "same_failures f g \<longleftrightarrow>
     (case (f, g) of
        (None, None) \<Rightarrow> True
      | (Some f, Some g) \<Rightarrow> \<forall>u p. (case f u p of Inl e \<Rightarrow> g u p = Inl e | Inr _ \<Rightarrow> \<exists>t. g u p = Inr t)
      | _ \<Rightarrow> False)"

lemma oauth_same:
  assumes "same_names c d" and "same_failures f g"
  shows "(case oauth_step_headers c f p h of Ends m e \<Rightarrow> oauth_step_headers d g p h' = Ends m e | Goes _ \<Rightarrow> \<exists>k. oauth_step_headers d g p h' = Goes k)"
proof -
  have n: "crUserID d = crUserID c" "crProviders d = crProviders c" using assms(1) by (simp_all add: same_names_def)
  show ?thesis
  proof (cases f)
    case None
    then have "g = None" using assms(2) by (simp add: same_failures_def split: option.splits)
    with None show ?thesis by (simp add: oauth_step_headers_def n)
  next
    case (Some f')
    then obtain g' where g: "g = Some g'" "\<And>u p. (case f' u p of Inl e \<Rightarrow> g' u p = Inl e | Inr _ \<Rightarrow> \<exists>t. g' u p = Inr t)"
      using assms(2) by (auto simp: same_failures_def split: option.splits)
    from g(2) [of "crUserID c" p] show ?thesis
      by (cases "f' (crUserID c) p") (auto simp: oauth_step_headers_def n Some g(1) split: oauth_error.split)
  qed
qed

lemma secret_same:
  assumes "same_names c d"
  shows "(case secret_step_headers c a h of Ends m e \<Rightarrow> secret_step_headers d a h' = Ends m e | Goes _ \<Rightarrow> \<exists>k. secret_step_headers d a h' = Goes k)"
proof -
  have d: "dom (crSecrets c) = dom (crSecrets d)" using assms by (simp add: same_names_def)
  have "crSecrets c n = None \<longleftrightarrow> crSecrets d n = None" for n
  proof -
    have "n \<in> dom (crSecrets c) \<longleftrightarrow> n \<in> dom (crSecrets d)" by (simp only: d)
    then show ?thesis unfolding domIff by blast
  qed
  then consider "crSecrets c (haAuthSecret a) = None" "crSecrets d (haAuthSecret a) = None"
    | v w where "crSecrets c (haAuthSecret a) = Some v" "crSecrets d (haAuthSecret a) = Some w" by force
  then show ?thesis
  proof cases
    case 1
    then show ?thesis unfolding secret_step_headers_def 1 by simp
  next
    case 2
    then show ?thesis unfolding secret_step_headers_def 2 option.case Let_def by simp
  qed
qed

lemma prepare_same:
  assumes "same_names c d" and "same_failures f g"
  shows "(case prepare_headers c f a of Ends m e \<Rightarrow> prepare_headers d g a = Ends m e | Goes _ \<Rightarrow> \<exists>k. prepare_headers d g a = Goes k)"
proof -
  note o = oauth_same [OF assms, of "haOAuthProvider a" "haHeaders a" "haHeaders a"]
  show ?thesis
  proof (cases "oauth_step_headers c f (haOAuthProvider a) (haHeaders a)")
    case (Ends m e)
    then have e: "oauth_step_headers d g (haOAuthProvider a) (haHeaders a) = Ends m e" using o by simp
    show ?thesis unfolding prepare_headers_def Ends e auth_step.case by simp
  next
    case (Goes h)
    then obtain k where k: "oauth_step_headers d g (haOAuthProvider a) (haHeaders a) = Goes k" using o by auto
    show ?thesis
    proof (cases "secret_step_headers c a h")
      case e: (Ends m e)
      then have "secret_step_headers d a k = Ends m e" using secret_same [OF assms(1), where a = a and h = h and h' = k] by simp
      with e show ?thesis unfolding prepare_headers_def Goes k auth_step.case by simp
    next
      case h1: (Goes h1)
      then obtain k1 where "secret_step_headers d a k = Goes k1" using secret_same [OF assms(1), where a = a and h = h and h' = k] by auto
      with h1 show ?thesis unfolding prepare_headers_def Goes k auth_step.case by simp
    qed
  qed
qed

text \<open>C33. The model sees of a secret or token only what the server makes of it: with other values for the same names,
  a call ends the same way before anything is sent, or it is sent in both cases, to the same address with the
  same method, body and time limit; and when the server answers alike, the results are equal.
\<close>

theorem result_hides_credentials:
  assumes "same_names c d" and "same_failures f g"
  shows "case outgoing env c f a of
      Inl r \<Rightarrow> outgoing env d g a = Inl r \<and> executeHttpRequest env d g a = r
    | Inr q \<Rightarrow> \<exists>hs. outgoing env d g a = Inr (q\<lparr>sqHeaders := hs\<rparr>) \<and>
        (hnReply env (q\<lparr>sqHeaders := hs\<rparr>) = hnReply env q \<longrightarrow> executeHttpRequest env d g a = executeHttpRequest env c f a)"
proof (cases "prepare_headers c f a")
  case (Ends m e)
  then have "prepare_headers d g a = Ends m e" using prepare_same [OF assms, of a] by simp
  with Ends show ?thesis by (simp add: outgoing_def executeHttpRequest_def)
next
  case (Goes h)
  then obtain k where k: "prepare_headers d g a = Goes k" using prepare_same [OF assms, of a] by auto
  show ?thesis
  proof (cases "hnParse env (haURL a)")
    case (Inl e)
    with Goes k show ?thesis by (simp add: outgoing_def executeHttpRequest_def)
  next
    case (Inr host)
    with Goes k show ?thesis
      by (auto simp: outgoing_def executeHttpRequest_def intro!: exI [of _ "sent_headers (hnOrder env) k"] split: http_reply.split)
  qed
qed

section \<open>Which tokens a skill can use\<close>

text \<open>
  A skill whose front matter names providers gets the tokens of these only.  A skill that names secrets and no
  provider has the tool too, and can use the token of every provider: an empty list restricts nothing.  The
  token goes to the address the model chose.
\<close>

theorem tokens_of_unnamed_providers:
  assumes "haURL a \<noteq> []" and "to_upper (haMethod a) \<in> set valid_methods" and "haAuthSecret a = []" and "haOAuthProvider a = p" and "p \<noteq> []"
    and "get ''default'' p = Inr t"
  shows "let cr = skill_credentials env fm; h = prepare_headers cr (Some get) a in
    (fmOAuthProviders fm \<noteq> [] \<and> p \<notin> set (fmOAuthProviders fm) \<longrightarrow> (\<exists>m e. h = Ends m (Some e))) \<and>
    (fmOAuthProviders fm = [] \<and> fmSecrets fm \<noteq> [] \<longrightarrow>
       (\<forall>ts general. skill_agent_tools env general fm = Some ts \<longrightarrow> HttpRequestTool cr \<in> set ts) \<and>
       (\<exists>hs. h = Goes hs \<and> map_of hs ''Authorization'' = Some ((if otType t = [] then ''Bearer'' else otType t) @ '' '' @ otAccess t)))"
proof -
  have m: "haMethod a \<noteq> []" using assms(2) by (auto simp: valid_methods_def to_upper_def)
  have k: "map_of (content_headers a hs) ''Authorization'' = map_of hs ''Authorization''" for hs
    by (simp add: content_headers_def update_conv')
  let ?cr = "skill_credentials env fm"
  have c: "crProviders ?cr = fmOAuthProviders fm" "crUserID ?cr = ''default''" by (simp_all add: skill_credentials_def)
  have s: "secret_step_headers ?cr a h = Goes h" for h using assms(3) by (simp add: secret_step_headers_def)
  have pr: "prepare_headers ?cr (Some get) a =
      (case oauth_step_headers ?cr (Some get) p (haHeaders a) of Ends m e \<Rightarrow> Ends m e | Goes h \<Rightarrow> Goes (content_headers a h))"
    unfolding prepare_headers_def s auth_step.case using assms(1-5) m by simp
  have "\<exists>m e. prepare_headers ?cr (Some get) a = Ends m (Some e)" if "fmOAuthProviders fm \<noteq> []" "p \<notin> set (fmOAuthProviders fm)"
    unfolding pr using that assms(5) by (simp add: oauth_step_headers_def c)
  moreover have "\<exists>hs. prepare_headers ?cr (Some get) a = Goes hs \<and>
      map_of hs ''Authorization'' = Some ((if otType t = [] then ''Bearer'' else otType t) @ '' '' @ otAccess t)" if "fmOAuthProviders fm = []"
    unfolding pr using that assms(5,6) by (simp add: oauth_step_headers_def c k update_conv' del: append.simps)
  moreover have "HttpRequestTool ?cr \<in> set ts" if "fmSecrets fm \<noteq> []" "skill_agent_tools env general fm = Some ts" for ts general
    using that unfolding skill_agent_tools_def Let_def by (auto simp: optional_def split: option.splits)
  ultimately show ?thesis unfolding Let_def by blast
qed

text \<open>Names of headers are compared as they are written and sent in canonical form: when the model passes
  \<open>authorization\<close>, it depends on the order of the map whether its value or the injected one is sent.\<close>

lemma model_header_may_win:
  "sent_headers [''Authorization'', ''authorization''] [(''authorization'', x), (''Authorization'', y)] ''Authorization'' = Some x"
  "sent_headers [''authorization'', ''Authorization''] [(''authorization'', x), (''Authorization'', y)] ''Authorization'' = Some y"
proof -
  have "CanonicalHeaderKey ''authorization'' = ''Authorization''" "CanonicalHeaderKey ''Authorization'' = ''Authorization''" by code_simp+
  then show "sent_headers [''Authorization'', ''authorization''] [(''authorization'', x), (''Authorization'', y)] ''Authorization'' = Some x"
    "sent_headers [''authorization'', ''Authorization''] [(''authorization'', x), (''Authorization'', y)] ''Authorization'' = Some y"
    by (simp_all add: sent_headers_def)
qed

lemma timeout_bound: "http_timeout secs \<le> maxHTTPTimeout" "secs \<le> 9223372036 \<Longrightarrow> 0 < http_timeout secs"
  by (auto simp: http_timeout_def Let_def maxHTTPTimeout_def defaultHTTPTimeout_def minute_def second_def wrap64_def)

section \<open>A small skill\<close>

definition weather_skill :: skill_frontmatter where
  "weather_skill = no_frontmatter\<lparr>fmSecrets := [''weather_key'']\<rparr>"

definition weather_env :: skill_env where
  "weather_env = \<lparr>skSecret = [''weather_key'' \<mapsto> ''s3cret''], skOAuth = True, skConfig = None, skLuaGuidance = [], skRunner = False, skSpare = False\<rparr>"

definition google_token :: oauth_token where
  "google_token = \<lparr>otAccess = ''tok'', otRefresh = [], otType = ''Bearer'', otExpires = 0, otScopes = []\<rparr>"

definition plain_args :: http_args where
  "plain_args = \<lparr>haURL = ''https://x.test'', haMethod = ''get'', haHeaders = [], haBody = [], haAuthSecret = [], haAuthHeader = [],
     haAuthScheme = [], haOAuthProvider = [], haTimeoutSecs = 0, haContentType = [], haInsecure = False\<rparr>"

definition echo_env :: http_env where
  "echo_env = \<lparr>hnReply = (\<lambda>_. Answered 200 ''200 OK'' Map.empty ''{}''), hnParse = (\<lambda>_. Inr ''x.test''), hnOrder = [''Authorization'']\<rparr>"

lemma plain_method: "to_upper ''get'' = ''GET''" "''GET'' \<in> set valid_methods"
  by code_simp+

theorem tokens_of_unnamed_providers_witness:
  "\<exists>hs ts. skill_agent_tools weather_env [] weather_skill = Some ts \<and>
     HttpRequestTool (skill_credentials weather_env weather_skill) \<in> set ts \<and>
     prepare_headers (skill_credentials weather_env weather_skill) (Some (\<lambda>u p. Inr google_token)) (plain_args\<lparr>haOAuthProvider := ''google''\<rparr>) = Goes hs \<and>
     map_of hs ''Authorization'' = Some ''Bearer tok''"
proof -
  let ?a = "plain_args\<lparr>haOAuthProvider := ''google''\<rparr>"
  have a: "haURL ?a \<noteq> []" "to_upper (haMethod ?a) \<in> set valid_methods" "haAuthSecret ?a = []" "haOAuthProvider ?a = ''google''" "''google'' \<noteq> []"
    using plain_method by (simp_all add: plain_args_def)
  have t: "\<exists>ts. skill_agent_tools weather_env [] weather_skill = Some ts"
    by (simp add: skill_agent_tools_def Let_def connected_def weather_skill_def no_frontmatter_def)
  from tokens_of_unnamed_providers [OF a, of "\<lambda>u p. Inr google_token" google_token weather_env weather_skill] t show ?thesis
    by (auto simp: Let_def weather_skill_def no_frontmatter_def google_token_def)
qed

theorem result_hides_credentials_witness:
  "executeHttpRequest echo_env (skill_credentials (weather_env\<lparr>skSecret := [''weather_key'' \<mapsto> ''other'']\<rparr>) weather_skill) None
      (plain_args\<lparr>haAuthSecret := ''weather_key''\<rparr>) =
   executeHttpRequest echo_env (skill_credentials weather_env weather_skill) None (plain_args\<lparr>haAuthSecret := ''weather_key''\<rparr>)"
proof -
  let ?c = "skill_credentials weather_env weather_skill"
  let ?d = "skill_credentials (weather_env\<lparr>skSecret := [''weather_key'' \<mapsto> ''other'']\<rparr>) weather_skill"
  let ?a = "plain_args\<lparr>haAuthSecret := ''weather_key''\<rparr>"
  have n: "same_names ?c ?d"
    by (simp add: same_names_def skill_credentials_def skill_secrets_def weather_env_def weather_skill_def no_frontmatter_def dom_def)
  have f: "same_failures None None" by (simp add: same_failures_def)
  note t = result_hides_credentials [OF n f, of echo_env ?a]
  show ?thesis
  proof (cases "outgoing echo_env ?c None ?a")
    case (Inl r)
    with t show ?thesis by (simp add: executeHttpRequest_def)
  next
    case (Inr q)
    have "hnReply echo_env q1 = hnReply echo_env q2" for q1 q2 by (simp add: echo_env_def)
    with t Inr show ?thesis by auto
  qed
qed

end
