(* ===== verification/SqlTool.thy ===== *)
theory SqlTool
  imports SkillTools
begin

text \<open>
  The tool \<open>sql\<close> of the specialists (\<open>internal/agent/sql_tool.go\<close>): the manager of connections, the checks
  of read-only connections, and the four actions.  The drivers are an argument: what opening a database, a
  ping and a statement give.  A call also returns the statements it handed to the database.
\<close>

section \<open>Connections\<close>

type_synonym db_handle = nat

definition db_get :: "string \<Rightarrow> go_value \<Rightarrow> go_value" where
  "db_get n c = get_at [n] DatabaseConnection_type c"

definition db_str :: "string \<Rightarrow> go_value \<Rightarrow> string" where
  "db_str n c = str_of (db_get n c)"

record sql_manager =
  smConnections :: "string \<rightharpoonup> db_handle"
  smConfigs :: "string \<rightharpoonup> go_value"

definition NewSQLConnectionManager :: sql_manager where
  "NewSQLConnectionManager = \<lparr>smConnections = Map.empty, smConfigs = Map.empty\<rparr>"

definition RegisterConnection :: "string \<Rightarrow> go_value \<Rightarrow> sql_manager \<Rightarrow> sql_manager" where
  "RegisterConnection name c m = m\<lparr>smConfigs := (smConfigs m)(name \<mapsto> c)\<rparr>"

datatype sql_statement = RunQuery string "json list" | RunExec string "json list"

text \<open>What a query yields: its columns, the rows up to the end or an error of the iteration, and the row
  that cannot be scanned, if there is one.\<close>

datatype cell = CellBytes string | CellValue json

datatype sql_reply =
  SqlTimedOut | SqlFailed string | ColumnsFailed string | SqlAffected int
| SqlRows "string list" "cell list list" "(nat \<times> string) option" "string option"

record sql_env =
  sqSecret :: "string \<Rightarrow> string go_result"
  sqHome :: "string option"
  sqOpen :: "string \<Rightarrow> string \<Rightarrow> db_handle go_result"
  sqPing :: "db_handle \<Rightarrow> bool"
  sqRun :: "db_handle \<Rightarrow> sql_statement \<Rightarrow> sql_reply"

definition db_password :: "sql_env \<Rightarrow> go_value \<Rightarrow> string go_result" where
  "db_password env c =
     (let p = db_str ''password'' c in
      if has_prefix p ''secret:'' then
        (case sqSecret env (trim_prefix p ''secret:'') of
           Inl e \<Rightarrow> Inl (''failed to get secret '' @ quote (trim_prefix p ''secret:'') @ '': '' @ e)
         | Inr v \<Rightarrow> Inr v)
      else Inr p)"

datatype sql_driver = Postgres | MySQL | SQLite

definition driver_of :: "go_value \<Rightarrow> sql_driver option" where
  "driver_of c =
     (let d = db_str ''driver'' c in
      if d = ''postgres'' \<or> d = ''postgresql'' then Some Postgres
      else if d = ''mysql'' then Some MySQL
      else if d = ''sqlite'' \<or> d = ''sqlite3'' then Some SQLite else None)"

definition data_source :: "sql_env \<Rightarrow> go_value \<Rightarrow> string \<Rightarrow> sql_driver \<Rightarrow> string \<times> string" where
  "data_source env c password d =
     (let port = itoa (int_of (db_get ''port'' c)); mode = db_str ''ssl_mode'' c in
      case d of
        Postgres \<Rightarrow> (''postgres'', ''host='' @ db_str ''host'' c @ '' port='' @ port @ '' user='' @ db_str ''user'' c @ '' password='' @ password @
            '' dbname='' @ db_str ''database'' c @ '' sslmode='' @ (if mode = [] then ''disable'' else mode))
      | MySQL \<Rightarrow> (''mysql'', db_str ''user'' c @ '':'' @ password @ ''@tcp('' @ db_str ''host'' c @ '':'' @ port @ '')/'' @ db_str ''database'' c @
            ''?parseTime=true'' @ (if mode \<noteq> [] \<and> mode \<noteq> ''disable'' then ''&tls='' @ mode else []))
      | SQLite \<Rightarrow> (''sqlite3'', ExpandPath (sqHome env) (db_str ''database'' c)))"

definition createConnection :: "sql_env \<Rightarrow> go_value \<Rightarrow> db_handle go_result" where
  "createConnection env c =
     (case db_password env c of
        Inl e \<Rightarrow> Inl e
      | Inr p \<Rightarrow>
          (case driver_of c of
             None \<Rightarrow> Inl (''unsupported driver '' @ quote (db_str ''driver'' c) @ '' (supported: postgres, mysql, sqlite)'')
           | Some d \<Rightarrow> (case data_source env c p d of (name, dsn) \<Rightarrow> sqOpen env name dsn)))"

definition GetConnection :: "sql_env \<Rightarrow> string \<Rightarrow> sql_manager \<Rightarrow> sql_manager \<times> (db_handle \<times> go_value) go_result" where
  "GetConnection env name m =
     (case smConfigs m name of
        None \<Rightarrow> (m, Inl (''connection '' @ quote name @ '' not configured''))
      | Some c \<Rightarrow>
          (case (case smConnections m name of Some h \<Rightarrow> if sqPing env h then Some h else None | None \<Rightarrow> None) of
             Some h \<Rightarrow> (m, Inr (h, c))
           | None \<Rightarrow>
               (case createConnection env c of
                  Inl e \<Rightarrow> (m, Inl e)
                | Inr h \<Rightarrow> (m\<lparr>smConnections := (smConnections m)(name \<mapsto> h)\<rparr>, Inr (h, c)))))"

definition CloseConnections :: "sql_manager \<Rightarrow> sql_manager" where
  "CloseConnections m = m\<lparr>smConnections := Map.empty\<rparr>"

section \<open>Arguments and results\<close>

record sql_args =
  saAction :: string
  saConnection :: string
  saQuery :: string
  saParams :: "json list"
  saTable :: string
  saLimit :: int

record column_schema =
  csName :: string
  csType :: string
  csNullable :: bool
  csKey :: string
  csDefault :: string

record sql_result =
  srSuccess :: bool
  srMessage :: string
  srColumns :: "string list"
  srRows :: "(string \<times> json) list list"
  srCount :: int
  srTables :: "string list"
  srSchema :: "column_schema list"

definition sql_message :: "string \<Rightarrow> sql_result" where
  "sql_message m = \<lparr>srSuccess = False, srMessage = m, srColumns = [], srRows = [], srCount = 0, srTables = [], srSchema = []\<rparr>"

type_synonym sql_outcome = "sql_result \<times> sql_statement list"

section \<open>Queries and statements\<close>

definition sqlMaxRows :: int where "sqlMaxRows = 1000"

definition row_limit :: "int \<Rightarrow> int" where
  "row_limit l = (if l \<le> 0 \<or> sqlMaxRows < l then sqlMaxRows else l)"

fun cell_value :: "cell \<Rightarrow> json" where
  "cell_value (CellBytes s) = JStr s" | "cell_value (CellValue j) = j"

text \<open>A later column of the same name replaces the earlier one.\<close>

definition row_map :: "string list \<Rightarrow> cell list \<Rightarrow> (string \<times> json) list" where
  "row_map cols cs = foldl (\<lambda>m (c, v). AList.update c (cell_value v) m) [] (zip cols cs)"

definition looks_like :: "string \<Rightarrow> string \<Rightarrow> bool" where
  "looks_like word q \<longleftrightarrow> has_prefix (to_upper (trim_space q)) word"

definition fetch_rows :: "int \<Rightarrow> string list \<Rightarrow> cell list list \<Rightarrow> (nat \<times> string) option \<Rightarrow> string option \<Rightarrow> sql_result" where
  "fetch_rows limit cols rows bad failure =
     (let n = nat limit;
          base = (sql_message [])\<lparr>srColumns := cols\<rparr>;
          got = map (row_map cols) (take n rows)
      in case (case bad of Some (i, e) \<Rightarrow> if i < length got then Some (i, e) else None | None \<Rightarrow> None) of
           Some (i, e) \<Rightarrow> base\<lparr>srMessage := ''Error scanning row: '' @ e, srRows := take i got\<rparr>
         | None \<Rightarrow>
             (case (if length rows \<le> n then failure else None) of
                Some e \<Rightarrow> base\<lparr>srMessage := ''Error iterating rows: '' @ e, srRows := got\<rparr>
              | None \<Rightarrow>
                  base\<lparr>srSuccess := True, srRows := got, srCount := int (length got),
                    srMessage := ''Returned '' @ itoa (int (length got)) @ '' rows'' @
                      (if int (length got) = limit then '' (limit reached)'' else [])\<rparr>))"

definition read_only :: "go_value \<Rightarrow> bool" where
  "read_only c \<longleftrightarrow> bool_of (db_get ''read_only'' c)"

definition executeQuery :: "sql_env \<Rightarrow> db_handle \<Rightarrow> go_value \<Rightarrow> sql_args \<Rightarrow> sql_outcome" where
  "executeQuery env h c a =
     (if saQuery a = [] then (sql_message ''Error: 'query' is required for query action'', [])
      else if read_only c \<and> \<not> looks_like ''SELECT'' (saQuery a) \<and> \<not> looks_like ''WITH'' (saQuery a) then
        (sql_message ''Error: connection is read-only, only SELECT queries are allowed'', [])
      else
        (let st = RunQuery (saQuery a) (saParams a) in
         (case sqRun env h st of
            SqlTimedOut \<Rightarrow> sql_message ''Query timed out''
          | SqlFailed e \<Rightarrow> sql_message (''Query error: '' @ e)
          | ColumnsFailed e \<Rightarrow> sql_message (''Error getting columns: '' @ e)
          | SqlRows cols rows bad failure \<Rightarrow> fetch_rows (row_limit (saLimit a)) cols rows bad failure
          | SqlAffected n \<Rightarrow> fetch_rows (row_limit (saLimit a)) [] [] None None,
          [st])))"

definition executeStatement :: "sql_env \<Rightarrow> db_handle \<Rightarrow> go_value \<Rightarrow> sql_args \<Rightarrow> sql_outcome" where
  "executeStatement env h c a =
     (if saQuery a = [] then (sql_message ''Error: 'query' is required for execute action'', [])
      else if read_only c then (sql_message ''Error: connection is read-only, write operations are not allowed'', [])
      else if looks_like ''SELECT'' (saQuery a) then (sql_message ''Error: use 'query' action for SELECT statements'', [])
      else
        (let st = RunExec (saQuery a) (saParams a) in
         (case sqRun env h st of
            SqlTimedOut \<Rightarrow> sql_message ''Statement timed out''
          | SqlFailed e \<Rightarrow> sql_message (''Execute error: '' @ e)
          | r \<Rightarrow>
              (let n = (case r of SqlAffected n \<Rightarrow> n | _ \<Rightarrow> 0) in
               (sql_message (''Statement executed, '' @ itoa n @ '' row(s) affected''))\<lparr>srSuccess := True, srCount := n\<rparr>),
          [st])))"

section \<open>The schema\<close>

definition sql_lines :: "string list \<Rightarrow> string" where
  "sql_lines = join_str (newline @ replicate 4 (CHR 0x09) @ '' '')"

text \<open>The lines of the inner query, one tab deeper.\<close>

definition sql_inner :: "string list \<Rightarrow> string" where
  "sql_inner ls = concat (map (\<lambda>l. newline @ replicate 5 (CHR 0x09) @ '' '' @ l) ls)"

definition tables_query :: "sql_driver \<Rightarrow> string" where
  "tables_query d =
     (case d of
        Postgres \<Rightarrow> sql_lines [''SELECT table_name FROM information_schema.tables'',
            ''WHERE table_schema = 'public' AND table_type = 'BASE TABLE'' @ [CHR 0x27], ''ORDER BY table_name'']
      | MySQL \<Rightarrow> sql_lines [''SELECT table_name FROM information_schema.tables'',
            ''WHERE table_schema = DATABASE() AND table_type = 'BASE TABLE'' @ [CHR 0x27], ''ORDER BY table_name'']
      | SQLite \<Rightarrow> sql_lines [''SELECT name FROM sqlite_master'', ''WHERE type = 'table' AND name NOT LIKE 'sqlite_%'' @ [CHR 0x27], ''ORDER BY name''])"

definition cell_text :: "cell list \<Rightarrow> nat \<Rightarrow> string" where
  "cell_text cs i = (if i < length cs then (case cell_value (cs ! i) of JStr s \<Rightarrow> s | _ \<Rightarrow> []) else [])"

definition cell_int :: "cell list \<Rightarrow> nat \<Rightarrow> int" where
  "cell_int cs i = (if i < length cs then (case cell_value (cs ! i) of JNum s \<Rightarrow> (case parse_int s of Some n \<Rightarrow> n | None \<Rightarrow> 0) | _ \<Rightarrow> 0) else 0)"

definition listTables :: "sql_env \<Rightarrow> db_handle \<Rightarrow> go_value \<Rightarrow> sql_outcome" where
  "listTables env h c =
     (case driver_of c of
        None \<Rightarrow> (sql_message (''Unsupported driver for tables action: '' @ db_str ''driver'' c), [])
      | Some d \<Rightarrow>
          (let st = RunQuery (tables_query d) [] in
           (case sqRun env h st of
              SqlTimedOut \<Rightarrow> sql_message ''Error listing tables: context deadline exceeded''
            | SqlFailed e \<Rightarrow> sql_message (''Error listing tables: '' @ e)
            | SqlRows cols rows (Some (i, e)) failure \<Rightarrow> sql_message (''Error scanning table name: '' @ e)
            | SqlRows cols rows None failure \<Rightarrow>
                (sql_message (''Found '' @ itoa (int (length rows)) @ '' table(s)''))\<lparr>srSuccess := True, srTables := map (\<lambda>r. cell_text r 0) rows\<rparr>
            | _ \<Rightarrow> (sql_message ''Found 0 table(s)'')\<lparr>srSuccess := True\<rparr>,
            [st])))"

definition describe_query :: "sql_driver \<Rightarrow> string \<Rightarrow> sql_statement" where
  "describe_query d table =
     (case d of
        Postgres \<Rightarrow> RunQuery (sql_lines
           [''SELECT column_name, data_type, is_nullable, column_default,'',
            ''CASE WHEN pk.column_name IS NOT NULL THEN 'PRI' ELSE '' @ [CHR 0x27, CHR 0x27] @ '' END as key_type'',
            ''FROM information_schema.columns c'', ''LEFT JOIN ('' @ sql_inner [''SELECT kcu.column_name'', ''FROM information_schema.table_constraints tc'',
              ''JOIN information_schema.key_column_usage kcu'', ''  ON tc.constraint_name = kcu.constraint_name'',
              ''WHERE tc.table_name = $1 AND tc.constraint_type = 'PRIMARY KEY'' @ [CHR 0x27]],
            '') pk ON c.column_name = pk.column_name'', ''WHERE c.table_name = $1 AND c.table_schema = 'public'' @ [CHR 0x27],
            ''ORDER BY c.ordinal_position'']) [JStr table]
      | MySQL \<Rightarrow> RunQuery (''DESCRIBE '' @ table) []
      | SQLite \<Rightarrow> RunQuery (''PRAGMA table_info('' @ table @ '')'') [])"

definition column_of :: "sql_driver \<Rightarrow> cell list \<Rightarrow> column_schema" where
  "column_of d r =
     (case d of
        Postgres \<Rightarrow> \<lparr>csName = cell_text r 0, csType = cell_text r 1, csNullable = (cell_text r 2 = ''YES''), csKey = cell_text r 4,
                      csDefault = cell_text r 3\<rparr>
      | MySQL \<Rightarrow> \<lparr>csName = cell_text r 0, csType = cell_text r 1, csNullable = (cell_text r 2 = ''YES''), csKey = cell_text r 3,
                   csDefault = cell_text r 4\<rparr>
      | SQLite \<Rightarrow> \<lparr>csName = cell_text r 1, csType = cell_text r 2, csNullable = (cell_int r 3 = 0),
                    csKey = (if cell_int r 5 = 1 then ''PRI'' else []), csDefault = cell_text r 4\<rparr>)"

definition column_json :: "column_schema \<Rightarrow> json" where
  "column_json s = JObj ([(''name'', JStr (csName s)), (''type'', JStr (csType s)), (''nullable'', JBool (csNullable s))] @
     (if csKey s = [] then [] else [(''key'', JStr (csKey s))]) @ (if csDefault s = [] then [] else [(''default'', JStr (csDefault s))]))"

definition describeTable :: "sql_env \<Rightarrow> db_handle \<Rightarrow> go_value \<Rightarrow> sql_args \<Rightarrow> sql_outcome" where
  "describeTable env h c a =
     (if saTable a = [] then (sql_message ''Error: 'table' is required for describe action'', [])
      else
        (case driver_of c of
           None \<Rightarrow> (sql_message (''Unsupported driver for describe action: '' @ db_str ''driver'' c), [])
         | Some d \<Rightarrow>
             (let st = describe_query d (saTable a);
                  done' = (\<lambda>cols. (sql_message (''Table '' @ quote (saTable a) @ '' has '' @ itoa (int (length cols)) @ '' column(s)'' @ newline @
                     json_MarshalIndent (JArr (map column_json cols))))\<lparr>srSuccess := True, srSchema := cols\<rparr>)
              in (case sqRun env h st of
                    SqlTimedOut \<Rightarrow> sql_message ''Error describing table: context deadline exceeded''
                  | SqlFailed e \<Rightarrow> sql_message (''Error describing table: '' @ e)
                  | SqlRows cols rows (Some (i, e)) failure \<Rightarrow> sql_message (''Error scanning column: '' @ e)
                  | SqlRows cols rows None failure \<Rightarrow> done' (map (column_of d) rows)
                  | _ \<Rightarrow> done' [],
                  [st]))))"

section \<open>The call\<close>

definition executeSQLTool :: "sql_env \<Rightarrow> sql_args \<Rightarrow> sql_manager \<Rightarrow> sql_manager \<times> sql_outcome" where
  "executeSQLTool env a m =
     (case GetConnection env (saConnection a) m of
        (m1, Inl e) \<Rightarrow> (m1, sql_message (''Connection error: '' @ e), [])
      | (m1, Inr (h, c)) \<Rightarrow>
          (m1, if saAction a = ''query'' then executeQuery env h c a
               else if saAction a = ''execute'' then executeStatement env h c a
               else if saAction a = ''tables'' then listTables env h c
               else if saAction a = ''describe'' then describeTable env h c a
               else (sql_message (''Unknown action '' @ quote (saAction a) @ ''. Use: query, execute, tables, describe''), [])))"

section \<open>Read-only connections\<close>

text \<open>
  A call for a connection that is not configured reaches no database.  On a read-only connection nothing is
  executed, and the only queries are the model's that begin with \<open>SELECT\<close> or \<open>WITH\<close>, the list of tables, and
  the description of a table; a result has at most a thousand rows.
\<close>

theorem read_only_statements:
  assumes "executeSQLTool env a m = (m', r, sts)"
  shows "(smConfigs m (saConnection a) = None \<longrightarrow> sts = []) \<and>
    (\<forall>c. smConfigs m (saConnection a) = Some c \<and> read_only c \<longrightarrow>
       (\<forall>st \<in> set sts. \<exists>q ps. st = RunQuery q ps \<and>
          (q = saQuery a \<and> (looks_like ''SELECT'' q \<or> looks_like ''WITH'' q) \<or>
           (\<exists>d. q = tables_query d) \<or> (\<exists>d. st = describe_query d (saTable a))))) \<and>
    length (srRows r) \<le> 1000"
proof -
  have f: "length (srRows (fetch_rows (row_limit l) cols rows bad failure)) \<le> 1000" for l cols rows bad failure
    by (auto simp: fetch_rows_def Let_def row_limit_def sqlMaxRows_def sql_message_def split: option.split)
  have g: "(\<exists>c h. smConfigs m (saConnection a) = Some c \<and> y = Inr (h, c)) \<or> (\<exists>e. y = Inl e)"
    if "GetConnection env (saConnection a) m = (m1, y)" for m1 y
    using that by (auto simp: GetConnection_def split: option.splits if_splits sum.splits)
  have n: "smConfigs m (saConnection a) = None \<Longrightarrow> \<exists>e. snd (GetConnection env (saConnection a) m) = Inl e"
    by (simp add: GetConnection_def)
  obtain m1 y where y: "GetConnection env (saConnection a) m = (m1, y)" by fastforce
  show ?thesis
  proof (cases y)
    case (Inl e)
    then show ?thesis using assms y by (auto simp: executeSQLTool_def sql_message_def)
  next
    case (Inr hc)
    then obtain h c where c: "smConfigs m (saConnection a) = Some c" "y = Inr (h, c)" using g [OF y] by auto
    have q: "length (srRows (fst (executeQuery env h c a))) \<le> 1000"
      by (auto simp: executeQuery_def Let_def f split: sql_reply.split) (auto simp: sql_message_def)
    have o: "srRows (fst (executeStatement env h c a)) = []" "srRows (fst (listTables env h c)) = []" "srRows (fst (describeTable env h c a)) = []"
      by (auto simp: executeStatement_def listTables_def describeTable_def Let_def sql_message_def split: sql_reply.split option.split)
    consider "saAction a = ''query''" | "saAction a = ''execute''" | "saAction a = ''tables''" | "saAction a = ''describe''"
      | "saAction a \<notin> {''query'', ''execute'', ''tables'', ''describe''}" by blast
    then show ?thesis
    proof cases
      case 1
      then have x: "(r, sts) = executeQuery env h c a" using assms y c(2) by (simp add: executeSQLTool_def)
      then have "length (srRows r) \<le> 1000" using q by (metis fst_conv)
      with x c(1) show ?thesis by (auto simp: executeQuery_def Let_def split: if_splits)
    next
      case 2
      then have x: "(r, sts) = executeStatement env h c a" using assms y c(2) by (simp add: executeSQLTool_def)
      then have "srRows r = []" using o(1) by (metis fst_conv)
      with x c(1) show ?thesis by (auto simp: executeStatement_def Let_def split: if_splits)
    next
      case 3
      then have x: "(r, sts) = listTables env h c" using assms y c(2) by (simp add: executeSQLTool_def)
      then have "srRows r = []" using o(2) by (metis fst_conv)
      with x c(1) show ?thesis by (auto simp: listTables_def Let_def split: option.splits)
    next
      case 4
      then have x: "(r, sts) = describeTable env h c a" using assms y c(2) by (simp add: executeSQLTool_def)
      then have "srRows r = []" using o(3) by (metis fst_conv)
      with x c(1) show ?thesis
        by (auto simp: describeTable_def Let_def split: option.splits if_splits) (auto simp: describe_query_def split: sql_driver.split)
    next
      case 5
      then show ?thesis using assms y c by (auto simp: executeSQLTool_def sql_message_def)
    qed
  qed
qed

lemma looks_like_start:
  assumes "p \<noteq> []" and "\<not> is_space (hd p)" and "\<not> is_space (last p)" and "to_upper p = w"
  shows "looks_like w (p @ r)"
proof -
  have "dropWhile is_space (p @ r) = p @ r" using assms(1,2) by (cases p) simp_all
  moreover have "dropWhile is_space (rev p) = rev p" using assms(1,3) by (cases "rev p") (simp_all flip: hd_rev)
  then have "\<exists>r'. dropWhile is_space (rev r @ rev p) = r' @ rev p" by (auto simp: dropWhile_append intro: exI [of _ "[]"])
  ultimately obtain r' where "trim_space (p @ r) = p @ rev r'" by (auto simp: trim_space_def)
  then show ?thesis using assms(4) by (auto simp: looks_like_def has_prefix_def to_upper_def)
qed

text \<open>
  The check reads the first word only, and a description splices the name of the table into the statement: a
  read-only connection runs a deletion that begins with \<open>WITH\<close> or stands behind a \<open>SELECT\<close>, and whatever
  follows a closing parenthesis in the name of a table.
\<close>

theorem read_only_writes:
  assumes "smConfigs m (saConnection a) = Some c" and "read_only c" and "smConnections m (saConnection a) = Some h" and "sqPing env h"
  shows "(\<forall>t. saAction a = ''query'' \<and> saQuery a \<in> {''WITH d AS (DELETE FROM '' @ t @ '' RETURNING *) SELECT * FROM d'', ''SELECT 1; DELETE FROM '' @ t} \<longrightarrow>
       snd (snd (executeSQLTool env a m)) = [RunQuery (saQuery a) (saParams a)]) \<and>
    (saAction a = ''describe'' \<and> driver_of c = Some SQLite \<and> saTable a = ''t); DELETE FROM t; --'' \<longrightarrow>
       snd (snd (executeSQLTool env a m)) = [RunQuery ''PRAGMA table_info(t); DELETE FROM t; --)'' []])"
proof -
  have g: "GetConnection env (saConnection a) m = (m, Inr (h, c))" using assms by (simp add: GetConnection_def)
  have w: "looks_like ''WITH'' (''WITH'' @ r)" and s: "looks_like ''SELECT'' (''SELECT'' @ r)" for r
    by (rule looks_like_start; code_simp)+
  have q: "snd (snd (executeSQLTool env a m)) = [RunQuery (saQuery a) (saParams a)]"
    if "saAction a = ''query''" "saQuery a \<noteq> []" "looks_like ''SELECT'' (saQuery a) \<or> looks_like ''WITH'' (saQuery a)"
    using that by (auto simp: executeSQLTool_def g executeQuery_def Let_def)
  have "snd (snd (executeSQLTool env a m)) = [RunQuery (saQuery a) (saParams a)]"
    if "saAction a = ''query''" "saQuery a \<in> {''WITH d AS (DELETE FROM '' @ t @ '' RETURNING *) SELECT * FROM d'', ''SELECT 1; DELETE FROM '' @ t}" for t
    using that(2) w [of "'' d AS (DELETE FROM '' @ t @ '' RETURNING *) SELECT * FROM d''"] s [of "'' 1; DELETE FROM '' @ t"]
    by (intro q [OF that(1)]) auto
  moreover have "snd (snd (executeSQLTool env a m)) = [RunQuery ''PRAGMA table_info(t); DELETE FROM t; --)'' []]"
    if "saAction a = ''describe''" "driver_of c = Some SQLite" "saTable a = ''t); DELETE FROM t; --''"
    using that by (simp add: executeSQLTool_def g describeTable_def describe_query_def Let_def)
  ultimately show ?thesis by blast
qed

section \<open>A small database\<close>

definition shop_config :: go_value where
  "shop_config = VStruct [VString ''sqlite'', VString [], VInt 0, VString [], VString [], VString ''shop.db'', VString [], VBool True, VInt 0]"

definition shop_manager :: sql_manager where
  "shop_manager = \<lparr>smConnections = [''shop'' \<mapsto> 0], smConfigs = [''shop'' \<mapsto> shop_config]\<rparr>"

definition shop_env :: sql_env where
  "shop_env = \<lparr>sqSecret = (\<lambda>_. Inl ''secret not found''), sqHome = None, sqOpen = (\<lambda>_ _. Inr 0), sqPing = (\<lambda>_. True), sqRun = (\<lambda>_ _. SqlAffected 0)\<rparr>"

definition shop_args :: "string \<Rightarrow> string \<Rightarrow> string \<Rightarrow> sql_args" where
  "shop_args action q table = \<lparr>saAction = action, saConnection = ''shop'', saQuery = q, saParams = [], saTable = table, saLimit = 0\<rparr>"

lemma shop_ready:
  "smConfigs shop_manager (saConnection (shop_args x q t)) = Some shop_config" "read_only shop_config"
  "smConnections shop_manager (saConnection (shop_args x q t)) = Some 0" "sqPing shop_env 0" "driver_of shop_config = Some SQLite"
proof -
  show "read_only shop_config" "driver_of shop_config = Some SQLite" by code_simp+
qed (simp_all add: shop_manager_def shop_args_def shop_env_def)

theorem read_only_statements_witness:
  "\<exists>m' r sts. executeSQLTool shop_env (shop_args ''query'' ''DELETE FROM t'' []) shop_manager = (m', r, sts) \<and> (\<forall>q ps. RunExec q ps \<notin> set sts)"
proof -
  obtain m' r sts where x: "executeSQLTool shop_env (shop_args ''query'' ''DELETE FROM t'' []) shop_manager = (m', r, sts)"
    by (metis surj_pair)
  from read_only_statements [OF x] shop_ready(1,2) have "\<forall>st \<in> set sts. \<exists>q ps. st = RunQuery q ps" by blast
  then have "\<forall>q ps. RunExec q ps \<notin> set sts" by blast
  with x show ?thesis by blast
qed

theorem read_only_writes_witness:
  "snd (snd (executeSQLTool shop_env (shop_args ''query'' ''SELECT 1; DELETE FROM t'' []) shop_manager)) = [RunQuery ''SELECT 1; DELETE FROM t'' []] \<and>
   snd (snd (executeSQLTool shop_env (shop_args ''describe'' [] ''t); DELETE FROM t; --'') shop_manager)) =
     [RunQuery ''PRAGMA table_info(t); DELETE FROM t; --)'' []]"
proof -
  let ?a = "shop_args ''query'' ''SELECT 1; DELETE FROM t'' []" and ?b = "shop_args ''describe'' [] ''t); DELETE FROM t; --''"
  have q: "saAction ?a = ''query''" "saQuery ?a = ''SELECT 1; DELETE FROM '' @ ''t''" "saParams ?a = []"
    "saAction ?b = ''describe''" "saTable ?b = ''t); DELETE FROM t; --''" by (simp_all add: shop_args_def)
  have "snd (snd (executeSQLTool shop_env ?a shop_manager)) = [RunQuery (saQuery ?a) (saParams ?a)]"
    using read_only_writes [of shop_manager ?a shop_config 0 shop_env] shop_ready q(1,2) by blast
  moreover have "snd (snd (executeSQLTool shop_env ?b shop_manager)) = [RunQuery ''PRAGMA table_info(t); DELETE FROM t; --)'' []]"
    using read_only_writes [of shop_manager ?b shop_config 0 shop_env] shop_ready q(4,5) by blast
  ultimately show ?thesis using q(2,3) by simp
qed

end
