(* ===== verification/Spec2Isabelle.thy ===== *)
theory Spec2Isabelle
  imports InFlight WorldModel ApprovalText Pipeline Backlog Supervisor Dispatch
    AnthropicAdapter GeminiAdapter GuardedGraph FileTools ScopedFS
    SessionCorrect SandboxCorrect EmailCorrect Access Wiring AgentCallbacks DashboardOAuth CronTools
    HttpTool SqlTool
begin

text \<open>
  \<^bold>\<open>A verification library for kaggen\<close>

  kaggen is a personal assistant written in Go: a coordinator agent, driven by a language model,
  dispatches specialised agents as asynchronous tasks, groups them in pipelines, asks a person
  before it runs guarded tools, and keeps conversations within the model's window.  The library
  models the parts of the program that decide what runs, in which order, with which messages and
  on which files, and proves what they guarantee.

  \<^bold>\<open>Conventions.\<close>  Definitions carry the names of the Go code where HOL allows it.  A Go
  string is a \<open>string\<close>, an \<open>error\<close> its message, a struct a \<open>record\<close>, a map a partial function
  (or an association list where its order can be seen); a method that locks a mutex is one step
  on the state.  Clock readings, fresh identifiers and the order of a range over a map are
  arguments.  Code outside the repository (the agent library, model providers, the operating
  system, the regular expression engine) is a parameter.  A panic is the result \<open>None\<close>.

  \<^bold>\<open>Parts and theories\<close>

  \<^item> \<open>Prelude\<close>: the functions of \<open>strings\<close>, \<open>fmt\<close> and \<open>time\<close> that the code uses and lemmas on
    lists and maps; \<open>GoFloat\<close>: float64 values with rounding; \<open>GoJson\<close>: JSON values as the
    decoder of \<open>encoding/json\<close> yields them and the encoder for what is printed.
  \<^item> \<open>TaskTypes\<close>, \<open>WorldModel\<close> (\<open>internal/agent/worldmodel.go\<close>) and \<open>InFlight\<close>
    (\<open>internal/agent/async.go\<close>): the store of asynchronous tasks with its status machine,
    events, token counts, approvals, external tasks, pipeline progress; an invariant over all
    sequences of operations, what cancellation and the reaper do, and queued results.
  \<^item> \<open>Pipeline\<close> (\<open>internal/pipeline/pipeline.go\<close>, \<open>internal/agent/pipeline_status.go\<close>): pipeline
    definitions and the lookup of agents and stages.
  \<^item> \<open>Dispatch\<close> (\<open>internal/agent/async.go\<close>): the dispatch tool with its pipeline gate, and the
    goroutine of a task as a program counter that interleaves with other operations on the
    shared stores.  Its turn limit ends the goroutine however many events the agent sends, it owes
    exactly one completion callback, and records a pipeline stage before it reports success.
  \<^item> \<open>Supervisor\<close> (\<open>internal/agent/supervisor.go\<close>): repetition and error heuristics and the
    question to a local model.  \<open>Backlog\<close> (\<open>internal/backlog\<close>): the table of work items.
  \<^item> \<open>Messages\<close>, \<open>ContextManager\<close> (\<open>internal/agent/context_manager.go\<close>,
    \<open>internal/model/budget.go\<close>): budgets and the levels of pruning; its contract is the locale
    \<open>context_pruner\<close>, on which the requests of the adapters rest.
  \<^item> \<open>AnthropicAdapter\<close> and \<open>GeminiAdapter\<close> (\<open>internal/model\<close>): conversion of a conversation to
    the provider's format, and the repairs that keep tool calls and results paired; the repair
    loop of the first ends because every round removes a block.
  \<^item> \<open>ApprovalText\<close>, \<open>AuditLog\<close>, \<open>GuardedStore\<close>, \<open>GuardedGraph\<close> (\<open>internal/agent/approval.go\<close>,
    \<open>autorule.go\<close>, \<open>audit.go\<close>, \<open>guarded_graph.go\<close>): approval requests, their decisions, the
    checkpoint saver (locale \<open>checkpoint_saver\<close>) and the graph of a guarded skill as a step
    relation; no guarded call runs without an approval, a rejection is final, a paused run can
    be resumed.
  \<^item> \<open>VfsPath\<close>, \<open>MemFS\<close>, \<open>MemTree\<close> (\<open>internal/vfs/memfs.go\<close>): paths, the in-memory file system
    over a store of nodes with open handles, its tree invariant and its refinement of
    operations on maps from paths to entries.  \<open>FileTools\<close> (\<open>internal/tools/write.go\<close>,
    \<open>read.go\<close>): the file tools over the interface \<open>vfs.FS\<close>, with the contract of the interface as
    the locale \<open>file_system\<close> interpreted on the in-memory file system.  \<open>ScopedFS\<close>
    (\<open>internal/vfs/scoped.go\<close>): the file system jailed under a directory.
  \<^item> \<open>SessionFiles\<close> (\<open>internal/session/jsonl.go\<close>), \<open>SessionService\<close> (\<open>file_service.go\<close>,
    \<open>sanitize_wrapper.go\<close>, \<open>naming.go\<close>) and \<open>SessionCorrect\<close>: the conversations on the disk.
    Sessions do not interfere, a log yields what was appended, compaction and forks keep the
    events they promise to; and what gets lost: events appended during a compaction, all
    sessions when an identifier holds path elements, the deletion of application state.

  \<^item> \<open>Trust\<close> (\<open>internal/trust/tier.go\<close>), \<open>Channels\<close> (\<open>internal/channel\<close>), \<open>Sandbox\<close> and
    \<open>ThirdParty\<close> (\<open>internal/trust\<close>), \<open>SandboxCorrect\<close>: how updates of Telegram, WhatsApp and
    WebSocket clients become messages and who may send them, limits per sender, the splitting of
    long texts, the sandbox of unknown senders with its relay requests, their messages and
    attachments, and digests; \<open>GoRegex\<close> holds the regular expressions the code uses.
    \<open>EmailPoller\<close>, \<open>EmailCorrect\<close> (\<open>internal/agent/email_poller.go\<close>): ingestion of emails.
  \<^item> \<open>Access\<close> (\<open>internal/auth/token.go\<close>, \<open>internal/channel/websocket.go\<close>, \<open>internal/p2p\<close>):
    access tokens and who may connect.
  \<^item> \<open>LocalAgent\<close> (\<open>internal/agent/local_agent.go\<close>), \<open>Handler\<close>, \<open>HandlerCorrect\<close>
    (\<open>internal/gateway/handler.go\<close>): the handler of all messages with its responders, published
    files, completions and approvals.  Third parties stay contained, every other message is
    answered, handling ends; and where trust is lost.  \<open>Callbacks\<close>
    (\<open>internal/gateway/callbacks.go\<close>, \<open>dashboard.go\<close>, \<open>internal/p2p/approvals_protocol.go\<close>): results and
    decisions from outside.  \<open>Wiring\<close> (\<open>cmd/kaggen/cmd/gateway.go\<close>, \<open>internal/agent/watchdog.go\<close>):
    how timeouts and completions reach the handler, and the watchdog.
  \<^item> \<open>Usage\<close> (\<open>internal/model/usage_tracking.go\<close>, \<open>ratelimit.go\<close>): whose account a model call is
    charged to, and the semaphore that bounds the calls under way.  \<open>AgentCallbacks\<close>
    (\<open>internal/agent/agent.go\<close>, \<open>async_status.go\<close>, \<open>cancel_task.go\<close>): the callbacks around a tool call, the end of a turn
    and the coordinator's file tools, over the task store and the accounts of \<open>Usage\<close>.
  \<^item> \<open>GoReflect\<close>, \<open>GoPrint\<close>: \<open>encoding/json\<close> on struct types with tags, as types and values of
    their own, and its printed form with the proof that parsing returns the value.
    \<open>Configuration\<close> (\<open>internal/config/config.go\<close>): the structs, defaults, loading, saving and
    accessors.  \<open>ConfigUpdate\<close> (\<open>internal/gateway/dashboard.go\<close>): the redacted view of the
    configuration and its update by a client.
  \<^item> \<open>GoBytes\<close>: base64 and hexadecimal digits.  \<open>SecretStores\<close> (\<open>internal/secrets\<close>): the stores of
    secrets in memory, in an encrypted file and in the key ring, each an interpretation of the locale
    \<open>secret_store\<close>, so that each refines a map up to deletions that the key ring refuses in words
    taken for absence; the master key and what survives a restart.
    \<open>DashboardAuth\<close> (\<open>internal/gateway/dashboard_auth.go\<close>, \<open>dashboard.go\<close>): password, sessions and the
    routes of the dashboard; which requests reach a guarded handler, and how the password is lost.
  \<^item> \<open>GoURL\<close>: query escapes and forms, with the proof that parsing returns what was encoded.
    \<open>OAuth\<close> (\<open>internal/oauth\<close>): flows at providers, the token endpoint and the encrypted table of
    tokens, with an invariant over interleavings of requests, callbacks, network answers and
    revocations.  \<open>DashboardOAuth\<close> (\<open>internal/gateway/dashboard_oauth.go\<close>): their handlers.
  \<^item> \<open>Proactive\<close> (\<open>internal/proactive\<close>): cron jobs, webhooks and heartbeats with their retries, start,
    stop and reload.  \<open>CronTools\<close> (\<open>internal/tools/proactive.go\<close>): the tools that change schedules; they
    refine operations on a map from names, and a reload beside a webhook panics.
  \<^item> \<open>SkillTools\<close> (\<open>internal/agent/skills.go\<close>): the front matter of skills, with the proof that printed
    lists are read back, and the agents made from skills; whose credentials a guarded agent uses.
    \<open>HttpTool\<close> (\<open>internal/agent/http_request.go\<close>): the injection of secrets and tokens, and that a
    result depends on them only through the server.  \<open>SqlTool\<close> (\<open>internal/agent/sql_tool.go\<close>):
    connections, the four actions, and what a read-only connection runs.

  \<^bold>\<open>Bounds.\<close>  Loops over data are structural, the repair loop of the Anthropic adapter and the
  goroutine have measures, the splitting of texts is a partial function with a proof that it
  returns.  Only \<open>HandleMessage\<close> uses fuel, for a decision whose completion is a message of its
  own: depth two is enough in every reachable state.  Go's int is \<open>int\<close> where the code cannot
  reach its bounds; file modes are 32-bit words; float64 arithmetic rounds.

  \<^bold>\<open>Not modelled.\<close>  Other network clients and servers, the views of the dashboard, the command line,
  third-party engines (agent library, SQLite, Lua, libp2p), the memory store, and log output.  Case conversion and quoting treat the ASCII characters only.
\<close>

end
